(* ===== verification/Prelude.thy ===== *)
theory Prelude
  imports Complex_Main "HOL-Library.AList" "HOL-Library.Sublist"
begin

text \<open>
  The part of the JavaScript language and standard library that the packages under
  \<^verbatim>\<open>frontend/packages\<close> use, as HOL definitions, and the lemmas the components share.

  Strings are lists of characters read as code units U+0000 to U+00FF; \<open>length\<close> is
  JavaScript's \<^verbatim>\<open>length\<close>. An object used as a dictionary (\<^verbatim>\<open>Record<string, T>\<close>) and a
  \<^verbatim>\<open>Map\<close> are association lists in enumeration order, updated by \<^const>\<open>AList.update\<close>
  (a present key keeps its place, a new one goes last) and \<^const>\<open>AList.delete\<close>; keys that
  look like array indices, which an object enumerates first, are outside the model.
  A \<^verbatim>\<open>Set\<close> is a list without duplicates in insertion order. Numbers are integers where the
  code only counts or keeps times, and reals where it multiplies by a random factor.

  An \<^verbatim>\<open>async\<close> function is a function from a state to an error or a result and the new
  state (\<open>io\<close>); every \<^verbatim>\<open>await\<close> is one such step, and a rejected promise is the error branch.
\<close>

named_theorems io_simps \<open>unfolding rules of the io combinators\<close>
named_theorems keeps_intros \<open>rules that a computation keeps a predicate of the state\<close>

section \<open>Strings\<close>

definition js_lower_char :: "char \<Rightarrow> char" where
  "js_lower_char c =
     (let n = of_char c :: nat in
      if (65 \<le> n \<and> n \<le> 90) \<or> (192 \<le> n \<and> n \<le> 222 \<and> n \<noteq> 215) then char_of (n + 32) else c)"

definition js_lower :: "string \<Rightarrow> string" where
  "js_lower s = map js_lower_char s"

definition js_upper_ascii_char :: "char \<Rightarrow> char" where
  "js_upper_ascii_char c =
     (let n = of_char c :: nat in if 97 \<le> n \<and> n \<le> 122 then char_of (n - 32) else c)"

fun includes_str :: "string \<Rightarrow> string \<Rightarrow> bool" where
  "includes_str [] pat = (pat = [])"
| "includes_str (c # cs) pat = (prefix pat (c # cs) \<or> includes_str cs pat)"

fun replace_first :: "string \<Rightarrow> string \<Rightarrow> string \<Rightarrow> string" where
  "replace_first [] pat rep = (if pat = [] then rep else [])"
| "replace_first (c # cs) pat rep =
     (if prefix pat (c # cs) then rep @ drop (length pat) (c # cs)
      else c # replace_first cs pat rep)"

fun split_on :: "char \<Rightarrow> string \<Rightarrow> string list" where
  "split_on sep [] = [[]]"
| "split_on sep (c # cs) =
     (if c = sep then [] # split_on sep cs
      else (case split_on sep cs of [] \<Rightarrow> [[c]] | w # ws \<Rightarrow> (c # w) # ws))"

fun join_with :: "string \<Rightarrow> string list \<Rightarrow> string" where
  "join_with sep [] = []"
| "join_with sep [w] = w"
| "join_with sep (w # v # ws) = w @ sep @ join_with sep (v # ws)"

definition is_digit :: "char \<Rightarrow> bool" where
  "is_digit c = (let n = of_char c :: nat in 48 \<le> n \<and> n \<le> 57)"

definition is_alnum :: "char \<Rightarrow> bool" where
  "is_alnum c = (let n = of_char c :: nat in
     (48 \<le> n \<and> n \<le> 57) \<or> (65 \<le> n \<and> n \<le> 90) \<or> (97 \<le> n \<and> n \<le> 122))"

fun nat_digits :: "nat \<Rightarrow> string" where
  "nat_digits n =
     (if n < 10 then [char_of (48 + n)] else nat_digits (n div 10) @ [char_of (48 + n mod 10)])"

declare nat_digits.simps [simp del]

definition int_str :: "int \<Rightarrow> string" where
  "int_str i = (if i < 0 then CHR ''-'' # nat_digits (nat (- i)) else nat_digits (nat i))"

text \<open>The length in UTF-8 of a string of code units below U+0100.\<close>

definition utf8_length :: "string \<Rightarrow> nat" where
  "utf8_length s = sum_list (map (\<lambda>c. if (of_char c :: nat) < 128 then 1 else 2) s)"

lemma split_on_not_Nil [simp]: "split_on sep s \<noteq> []"
  by (induction s) (auto split: list.splits)

lemma split_on_no_sep: "w \<in> set (split_on sep s) \<Longrightarrow> sep \<notin> set w"
proof (induction s arbitrary: w)
  case Nil
  then show ?case by simp
next
  case (Cons c cs)
  obtain v vs where vs: "split_on sep cs = v # vs"
    by (cases "split_on sep cs") auto
  then have tail: "sep \<notin> set u" if "u \<in> set (v # vs)" for u
    using Cons.IH that by simp
  show ?case
  proof (cases "c = sep")
    case True
    with Cons.prems vs have "w = [] \<or> w \<in> set (v # vs)" by simp
    with tail show ?thesis by auto
  next
    case False
    with Cons.prems vs have "w = c # v \<or> w \<in> set vs" by simp
    with tail False show ?thesis by auto
  qed
qed

lemma join_split_on: "join_with [sep] (split_on sep s) = s"
proof (induction s)
  case Nil
  then show ?case by simp
next
  case (Cons c cs)
  obtain v vs where vs: "split_on sep cs = v # vs"
    by (cases "split_on sep cs") auto
  with Cons.IH show ?case by (cases vs) auto
qed

lemma replace_first_absent: "\<not> includes_str s pat \<Longrightarrow> replace_first s pat rep = s"
  by (induction s) auto

lemma set_replace_first:
  "set (replace_first s pat rep) \<subseteq> set s \<union> set rep"
  by (induction s) (auto dest: in_set_dropD)

section \<open>Sets of handlers\<close>

text \<open>\<^verbatim>\<open>Set.add\<close> and \<^verbatim>\<open>Set.delete\<close> on insertion-ordered sets.\<close>

definition set_add :: "'a \<Rightarrow> 'a list \<Rightarrow> 'a list" where
  "set_add x xs = (if x \<in> set xs then xs else xs @ [x])"

definition set_delete :: "'a \<Rightarrow> 'a list \<Rightarrow> 'a list" where
  "set_delete x xs = filter (\<lambda>y. y \<noteq> x) xs"

lemma set_set_add [simp]: "set (set_add x xs) = insert x (set xs)"
  by (auto simp: set_add_def)

lemma set_set_delete [simp]: "set (set_delete x xs) = set xs - {x}"
  by (auto simp: set_delete_def)

lemma distinct_set_add [simp]: "distinct xs \<Longrightarrow> distinct (set_add x xs)"
  by (simp add: set_add_def)

lemma distinct_set_delete [simp]: "distinct xs \<Longrightarrow> distinct (set_delete x xs)"
  by (simp add: set_delete_def)

lemma set_delete_absent [simp]: "x \<notin> set xs \<Longrightarrow> set_delete x xs = xs"
  by (auto simp: set_delete_def intro!: filter_True)

lemma set_delete_add: "x \<notin> set xs \<Longrightarrow> set_delete x (set_add x xs) = xs"
  by (auto simp: set_delete_def set_add_def intro!: filter_True)

section \<open>Dictionaries\<close>

type_synonym 'v js_record = "(string \<times> 'v) list"

text \<open>The object spread \<^verbatim>\<open>{ ...a, ...b }\<close>.\<close>

fun spread :: "('k \<times> 'v) list \<Rightarrow> ('k \<times> 'v) list \<Rightarrow> ('k \<times> 'v) list" where
  "spread a [] = a"
| "spread a ((k, v) # b) = spread (AList.update k v a) b"

lemma map_of_spread:
  "distinct (map fst b) \<Longrightarrow>
   map_of (spread a b) k = (case map_of b k of None \<Rightarrow> map_of a k | Some v \<Rightarrow> Some v)"
proof (induction b arbitrary: a)
  case Nil
  then show ?case by simp
next
  case (Cons p b)
  obtain k' v' where p: "p = (k', v')" by (cases p)
  with Cons.prems have fresh: "map_of b k' = None" and d: "distinct (map fst b)"
    by (auto simp: map_of_eq_None_iff)
  show ?case
    using Cons.IH [OF d, of "AList.update k' v' a"] p fresh
    by (auto simp: AList.update_conv' split: option.splits)
qed

lemma keys_spread: "fst ` set (spread a b) = fst ` set a \<union> fst ` set b"
proof (induction b arbitrary: a)
  case Nil
  then show ?case by simp
next
  case (Cons p b)
  obtain k v where "p = (k, v)" by (cases p)
  with Cons.IH [of "AList.update k v a"] show ?case
    by (simp add: AList.dom_update)
qed

section \<open>Asynchronous computations\<close>

type_synonym ('s, 'e, 'a) io = "'s \<Rightarrow> ('e + 'a) \<times> 's"

definition io_return :: "'a \<Rightarrow> ('s, 'e, 'a) io" where
  "io_return a = (\<lambda>s. (Inr a, s))"

definition io_throw :: "'e \<Rightarrow> ('s, 'e, 'a) io" where
  "io_throw e = (\<lambda>s. (Inl e, s))"

definition io_bind :: "('s, 'e, 'a) io \<Rightarrow> ('a \<Rightarrow> ('s, 'e, 'b) io) \<Rightarrow> ('s, 'e, 'b) io" where
  "io_bind m f = (\<lambda>s. case m s of (Inl e, t) \<Rightarrow> (Inl e, t) | (Inr a, t) \<Rightarrow> f a t)"

definition io_then :: "('s, 'e, 'a) io \<Rightarrow> ('s, 'e, 'b) io \<Rightarrow> ('s, 'e, 'b) io" where
  "io_then m n = io_bind m (\<lambda>_. n)"

text \<open>\<^verbatim>\<open>try { m } catch (e) { h(e) }\<close> and \<^verbatim>\<open>try { m } finally { f }\<close>.\<close>

definition io_catch :: "('s, 'e, 'a) io \<Rightarrow> ('e \<Rightarrow> ('s, 'e, 'a) io) \<Rightarrow> ('s, 'e, 'a) io" where
  "io_catch m h = (\<lambda>s. case m s of (Inl e, t) \<Rightarrow> h e t | (Inr a, t) \<Rightarrow> (Inr a, t))"

definition io_finally :: "('s, 'e, 'a) io \<Rightarrow> ('s \<Rightarrow> 's) \<Rightarrow> ('s, 'e, 'a) io" where
  "io_finally m f = (\<lambda>s. case m s of (r, t) \<Rightarrow> (r, f t))"

definition io_modify :: "('s \<Rightarrow> 's) \<Rightarrow> ('s, 'e, unit) io" where
  "io_modify f = (\<lambda>s. (Inr (), f s))"

definition io_gets :: "('s \<Rightarrow> 'a) \<Rightarrow> ('s, 'e, 'a) io" where
  "io_gets f = (\<lambda>s. (Inr (f s), s))"

lemma io_return_simp [io_simps]: "io_return a s = (Inr a, s)"
  by (simp add: io_return_def)

lemma io_throw_simp [io_simps]: "io_throw e s = (Inl e, s)"
  by (simp add: io_throw_def)

lemma io_bind_simp [io_simps]:
  "io_bind m f s = (case m s of (Inl e, t) \<Rightarrow> (Inl e, t) | (Inr a, t) \<Rightarrow> f a t)"
  by (simp add: io_bind_def)

lemma io_then_simp [io_simps]:
  "io_then m n s = (case m s of (Inl e, t) \<Rightarrow> (Inl e, t) | (Inr a, t) \<Rightarrow> n t)"
  by (simp add: io_then_def io_bind_def)

lemma io_catch_simp [io_simps]:
  "io_catch m h s = (case m s of (Inl e, t) \<Rightarrow> h e t | (Inr a, t) \<Rightarrow> (Inr a, t))"
  by (simp add: io_catch_def)

lemma io_finally_simp [io_simps]: "io_finally m f s = (fst (m s), f (snd (m s)))"
  by (simp add: io_finally_def split: prod.splits)

lemma io_modify_simp [io_simps]: "io_modify f s = (Inr (), f s)"
  by (simp add: io_modify_def)

lemma io_gets_simp [io_simps]: "io_gets f s = (Inr (f s), s)"
  by (simp add: io_gets_def)

lemma io_then_Inr: "fst (m s) = Inr a \<Longrightarrow> io_then m n s = n (snd (m s))"
  by (cases "m s") (simp add: io_simps)

lemma io_bind_Inr: "fst (m s) = Inr a \<Longrightarrow> io_bind m f s = f a (snd (m s))"
  by (cases "m s") (simp add: io_simps)

lemma io_catch_Inr: "fst (m s) = Inr a \<Longrightarrow> io_catch m h s = m s"
  by (cases "m s") (simp add: io_simps)

lemma io_catch_Inl: "fst (m s) = Inl e \<Longrightarrow> io_catch m h s = h e (snd (m s))"
  by (cases "m s") (simp add: io_simps)

text \<open>A computation keeps a predicate of the state, whatever its outcome.\<close>

definition keeps :: "('s \<Rightarrow> bool) \<Rightarrow> ('s, 'e, 'a) io \<Rightarrow> bool" where
  "keeps P m = (\<forall>s. P s \<longrightarrow> P (snd (m s)))"

lemma keepsI [intro?]: "(\<And>s. P s \<Longrightarrow> P (snd (m s))) \<Longrightarrow> keeps P m"
  by (simp add: keeps_def)

lemma keepsD: "keeps P m \<Longrightarrow> P s \<Longrightarrow> P (snd (m s))"
  by (simp add: keeps_def)

lemma keeps_return [keeps_intros]: "keeps P (io_return a)"
  by (simp add: keeps_def io_simps)

lemma keeps_throw [keeps_intros]: "keeps P (io_throw e)"
  by (simp add: keeps_def io_simps)

lemma keeps_gets [keeps_intros]: "keeps P (io_gets f)"
  by (simp add: keeps_def io_simps)

lemma keeps_modify [keeps_intros]: "(\<And>s. P s \<Longrightarrow> P (f s)) \<Longrightarrow> keeps P (io_modify f)"
  by (simp add: keeps_def io_simps)

lemma keeps_bind [keeps_intros]:
  assumes "keeps P m" and "\<And>a. keeps P (f a)"
  shows "keeps P (io_bind m f)"
proof
  fix s
  assume "P s"
  with assms(1) have "P (snd (m s))" by (rule keepsD)
  with assms(2) show "P (snd (io_bind m f s))"
    by (auto simp: io_simps keeps_def split: prod.splits sum.splits)
qed

lemma keeps_then [keeps_intros]: "keeps P m \<Longrightarrow> keeps P n \<Longrightarrow> keeps P (io_then m n)"
  by (simp add: io_then_def keeps_bind)

lemma keeps_catch [keeps_intros]:
  assumes "keeps P m" and "\<And>e. keeps P (h e)"
  shows "keeps P (io_catch m h)"
proof
  fix s
  assume "P s"
  with assms(1) have "P (snd (m s))" by (rule keepsD)
  with assms(2) show "P (snd (io_catch m h s))"
    by (auto simp: io_simps keeps_def split: prod.splits sum.splits)
qed

lemma keeps_finally [keeps_intros]:
  assumes "keeps P m" and "\<And>s. P s \<Longrightarrow> P (f s)"
  shows "keeps P (io_finally m f)"
  using assms by (auto simp: keeps_def io_simps)

lemma keeps_if [keeps_intros]:
  "(b \<Longrightarrow> keeps P m) \<Longrightarrow> (\<not> b \<Longrightarrow> keeps P n) \<Longrightarrow> keeps P (if b then m else n)"
  by simp

lemma keeps_case_option [keeps_intros]:
  "(x = None \<Longrightarrow> keeps P m) \<Longrightarrow> (\<And>a. x = Some a \<Longrightarrow> keeps P (f a)) \<Longrightarrow>
   keeps P (case x of None \<Rightarrow> m | Some a \<Rightarrow> f a)"
  by (cases x) auto

text \<open>
  A computation raises a counter of the state by at most \<open>k\<close>, whatever its outcome.
\<close>

definition grows :: "('s \<Rightarrow> nat) \<Rightarrow> nat \<Rightarrow> ('s, 'e, 'a) io \<Rightarrow> bool" where
  "grows meter k m = (\<forall>s. meter (snd (m s)) \<le> meter s + k)"

lemma growsI [intro?]: "(\<And>s. meter (snd (m s)) \<le> meter s + k) \<Longrightarrow> grows meter k m"
  by (simp add: grows_def)

lemma growsD: "grows meter k m \<Longrightarrow> meter (snd (m s)) \<le> meter s + k"
  by (simp add: grows_def)

lemma grows_bind:
  assumes "grows meter j m" and "\<And>a. grows meter k (f a)"
  shows "grows meter (j + k) (io_bind m f)"
proof
  fix s
  have m: "meter (snd (m s)) \<le> meter s + j" by (rule growsD [OF assms(1)])
  show "meter (snd (io_bind m f s)) \<le> meter s + (j + k)"
  proof (cases "fst (m s)")
    case (Inl e)
    with m show ?thesis by (auto simp: io_simps split: prod.splits)
  next
    case (Inr a)
    have "meter (snd (f a (snd (m s)))) \<le> meter (snd (m s)) + k"
      by (rule growsD [OF assms(2)])
    with m Inr show ?thesis by (auto simp: io_simps split: prod.splits)
  qed
qed

lemma grows_then: "grows meter j m \<Longrightarrow> grows meter k n \<Longrightarrow> grows meter (j + k) (io_then m n)"
  by (simp add: io_then_def grows_bind)

lemma grows_catch:
  assumes "grows meter j m" and "\<And>e. grows meter k (h e)"
  shows "grows meter (j + k) (io_catch m h)"
proof
  fix s
  have m: "meter (snd (m s)) \<le> meter s + j" by (rule growsD [OF assms(1)])
  show "meter (snd (io_catch m h s)) \<le> meter s + (j + k)"
  proof (cases "fst (m s)")
    case (Inr a)
    with m show ?thesis by (auto simp: io_simps split: prod.splits)
  next
    case (Inl e)
    have "meter (snd (h e (snd (m s)))) \<le> meter (snd (m s)) + k"
      by (rule growsD [OF assms(2)])
    with m Inl show ?thesis by (auto simp: io_simps split: prod.splits)
  qed
qed

lemma grows_return: "grows meter 0 (io_return a)"
  and grows_throw: "grows meter 0 (io_throw e)"
  and grows_gets: "grows meter 0 (io_gets f)"
  by (simp_all add: grows_def io_simps)

text \<open>Where all but one of the parts leave the counter alone.\<close>

lemma grows_bind_first: "grows meter k m \<Longrightarrow> (\<And>a. grows meter 0 (f a)) \<Longrightarrow> grows meter k (io_bind m f)"
  using grows_bind [where j = k and k = 0] by force

lemma grows_bind_rest: "grows meter 0 m \<Longrightarrow> (\<And>a. grows meter k (f a)) \<Longrightarrow> grows meter k (io_bind m f)"
  using grows_bind [where j = 0 and k = k] by force

lemma grows_then_first: "grows meter k m \<Longrightarrow> grows meter 0 n \<Longrightarrow> grows meter k (io_then m n)"
  by (simp add: io_then_def grows_bind_first)

lemma grows_then_rest: "grows meter 0 m \<Longrightarrow> grows meter k n \<Longrightarrow> grows meter k (io_then m n)"
  by (simp add: io_then_def grows_bind_rest)

lemma grows_catch_first: "grows meter k m \<Longrightarrow> (\<And>e. grows meter 0 (h e)) \<Longrightarrow> grows meter k (io_catch m h)"
  using grows_catch [where j = k and k = 0] by force

lemma grows_if: "(b \<Longrightarrow> grows meter k m) \<Longrightarrow> (\<not> b \<Longrightarrow> grows meter k n) \<Longrightarrow> grows meter k (if b then m else n)"
  by simp

lemma grows_case_prod:
  "(\<And>x y. p = (x, y) \<Longrightarrow> grows meter k (f x y)) \<Longrightarrow> grows meter k (case p of (x, y) \<Rightarrow> f x y)"
  by (cases p) simp

lemma grows_weaken: "grows meter j m \<Longrightarrow> j \<le> k \<Longrightarrow> grows meter k m"
  unfolding grows_def by (meson add_left_mono le_trans)

text \<open>A computation that keeps every bound of the counter does not raise it.\<close>

lemma grows_of_keeps: "(\<And>n. keeps (\<lambda>s. meter s \<le> n) m) \<Longrightarrow> grows meter 0 m"
  by (auto simp: grows_def keeps_def)

section \<open>Values\<close>

text \<open>
  A value of type \<^verbatim>\<open>unknown\<close> (a request or response body, the data of a log entry). Arrays,
  objects and form data carry an identity, the first argument, because \<^verbatim>\<open>===\<close> compares it.
\<close>

datatype js_value =
    JUndefined
  | JNull
  | JBool bool
  | JNum int
  | JStr string
  | JArr nat "js_value list"
  | JObj nat "(string \<times> js_value) list"
  | JFormData nat

fun strict_eq :: "js_value \<Rightarrow> js_value \<Rightarrow> bool" where
  "strict_eq (JArr i _) v = (case v of JArr j _ \<Rightarrow> i = j | _ \<Rightarrow> False)"
| "strict_eq (JObj i _) v = (case v of JObj j _ \<Rightarrow> i = j | _ \<Rightarrow> False)"
| "strict_eq (JFormData i) v = (case v of JFormData j \<Rightarrow> i = j | _ \<Rightarrow> False)"
| "strict_eq u v = (u = v)"

lemma strict_eq_refl [simp]: "strict_eq v v"
  by (cases v) auto

text \<open>Reading a property of a value; one that is absent is \<^verbatim>\<open>undefined\<close>.\<close>

fun get_field :: "js_value \<Rightarrow> string \<Rightarrow> js_value" where
  "get_field (JObj i obj) name = (case map_of obj name of None \<Rightarrow> JUndefined | Some v \<Rightarrow> v)"
| "get_field v name = JUndefined"

definition of_opt :: "('a \<Rightarrow> js_value) \<Rightarrow> 'a option \<Rightarrow> js_value" where
  "of_opt f x = (case x of None \<Rightarrow> JUndefined | Some a \<Rightarrow> f a)"

section \<open>The process state: clock and log\<close>

datatype log_level = LDebug | LInfo | LWarning | LError

record log_entry =
  le_level :: log_level
  le_message :: string
  le_tag :: string
  le_data :: "js_value js_record"

text \<open>
  What every component shares: \<^verbatim>\<open>Date.now()\<close> and the entries given to \<^verbatim>\<open>Logger\<close>. A
  component's own state extends this record.
\<close>

record env =
  env_now :: int
  env_log :: "log_entry list"

definition log_entry_of :: "log_level \<Rightarrow> string \<Rightarrow> string \<Rightarrow> js_value js_record \<Rightarrow> log_entry" where
  "log_entry_of lvl msg tag data =
     \<lparr>le_level = lvl, le_message = msg, le_tag = tag, le_data = data\<rparr>"

definition emit_log ::
  "log_level \<Rightarrow> string \<Rightarrow> string \<Rightarrow> js_value js_record \<Rightarrow> ('x env_scheme, 'e, unit) io" where
  "emit_log lvl msg tag data =
     io_modify (\<lambda>s. s\<lparr>env_log := env_log s @ [log_entry_of lvl msg tag data]\<rparr>)"

lemma emit_log_simp [io_simps]:
  "emit_log lvl msg tag data s =
     (Inr (), s\<lparr>env_log := env_log s @ [log_entry_of lvl msg tag data]\<rparr>)"
  by (simp add: emit_log_def io_simps)

end
