(* ===== verification/NetworkTypes.thy ===== *)
theory NetworkTypes
  imports Prelude
begin

text \<open>
  The data of \<^verbatim>\<open>packages/network/src\<close>: error codes and \<^verbatim>\<open>NetworkError\<close>, requests and
  responses as the interceptors, the transport and the client see them, and the retry
  settings. An abort signal is the identity of its controller. A thrown value is a
  \<^verbatim>\<open>NetworkError\<close>, another \<^verbatim>\<open>Error\<close> with its message, or a value that has no message.
\<close>

datatype network_error_code =
    NETWORK_OFFLINE
  | NETWORK_TIMEOUT
  | REQUEST_ABORTED
  | SERVER_ERROR
  | CLIENT_ERROR
  | AUTH_EXPIRED
  | FORBIDDEN
  | RATE_LIMITED
  | PARSE_ERROR
  | HTTPS_REQUIRED

datatype connection_state = Idle | Connecting | Connected | Reconnecting | Disconnected

record upload_progress =
  up_bytesSent :: int
  up_bytesTotal :: int
  up_percentage :: int

record network_error =
  ne_code :: network_error_code
  ne_message :: string
  ne_status :: "int option"
  ne_responseBody :: js_value
  ne_retryAfterMs :: "int option"
  ne_rawBody :: "string option"
  ne_requestUrl :: "string option"
  ne_shouldRetry :: "bool option"

text \<open>\<^verbatim>\<open>new NetworkError({ code, message })\<close>: every other field is undefined.\<close>

definition network_error_of :: "network_error_code \<Rightarrow> string \<Rightarrow> network_error" where
  "network_error_of code msg =
     \<lparr>ne_code = code, ne_message = msg, ne_status = None, ne_responseBody = JUndefined,
      ne_retryAfterMs = None, ne_rawBody = None, ne_requestUrl = None, ne_shouldRetry = None\<rparr>"

lemma network_error_of_simps [simp]:
  "ne_code (network_error_of c m) = c"
  "ne_message (network_error_of c m) = m"
  "ne_status (network_error_of c m) = None"
  "ne_requestUrl (network_error_of c m) = None"
  "ne_shouldRetry (network_error_of c m) = None"
  "ne_retryAfterMs (network_error_of c m) = None"
  by (simp_all add: network_error_of_def)

datatype js_error =
    NetworkErr network_error
  | JsErr "string option"

text \<open>\<^verbatim>\<open>(error as Error).message\<close>.\<close>

definition err_message :: "js_error \<Rightarrow> string option" where
  "err_message e = (case e of NetworkErr ne \<Rightarrow> Some (ne_message ne) | JsErr m \<Rightarrow> m)"

record intercepted_request =
  rq_url :: string
  rq_method :: string
  rq_headers :: "string js_record"
  rq_body :: js_value

record intercepted_response =
  rs_status :: int
  rs_headers :: "string js_record"
  rs_body :: js_value
  rs_url :: string

record http_response =
  hr_status :: int
  hr_headers :: "string js_record"
  hr_body :: js_value

record transport_request =
  tr_method :: string
  tr_url :: string
  tr_headers :: "string js_record option"
  tr_body :: js_value
  tr_timeoutMs :: "int option"
  tr_signal :: "nat option"
  tr_query :: "string js_record option"
  tr_hasProgress :: bool

record transport_response =
  tp_status :: int
  tp_headers :: "string js_record"
  tp_body :: js_value

record request_options =
  ro_params :: "string js_record option"
  ro_query :: "string js_record option"
  ro_headers :: "string js_record option"
  ro_timeoutMs :: "int option"
  ro_signal :: "nat option"
  ro_offlineQueue :: "bool option"
  ro_retryable :: "bool option"
  ro_body :: js_value

text \<open>An entry of the offline queue (\<^verbatim>\<open>queue-types.ts\<close>).\<close>

record queued_request =
  qr_id :: "string option"
  qr_method :: string
  qr_url :: string
  qr_body :: js_value
  qr_headers :: "string js_record option"
  qr_enqueuedAt :: int
  qr_timeToLiveMs :: int

record retry_config =
  rc_maxRetries :: nat
  rc_baseDelayMs :: int
  rc_maxDelayMs :: int
  rc_jitterFactor :: real

definition DEFAULT_RETRY_CONFIG :: retry_config where
  "DEFAULT_RETRY_CONFIG =
     \<lparr>rc_maxRetries = 3, rc_baseDelayMs = 200, rc_maxDelayMs = 10000, rc_jitterFactor = 3 / 10\<rparr>"

type_synonym 's interceptor_fn = "intercepted_request \<Rightarrow> ('s, js_error, intercepted_request) io"
type_synonym 's transport =
  "transport_request \<Rightarrow> ('s, js_error, transport_response) io"

record 's interceptor =
  ic_name :: string
  ic_onRequest :: "'s interceptor_fn option"
  ic_onResponse :: "(intercepted_response \<Rightarrow> ('s, js_error, intercepted_response) io) option"
  ic_onError :: "(network_error \<Rightarrow> ('s, js_error, network_error) io) option"

text \<open>The fields of a request that the pipeline logs.\<close>

definition jstr_opt :: "string option \<Rightarrow> js_value" where
  "jstr_opt = of_opt JStr"

definition jnum_opt :: "int option \<Rightarrow> js_value" where
  "jnum_opt = of_opt JNum"

end
