(* ===== verification/Interceptors.thy ===== *)
theory Interceptors
  imports NetworkTypes
begin

text \<open>
  \<^verbatim>\<open>packages/network/src/interceptor-pipeline.ts\<close>: request and error interceptors run in
  registration order, response interceptors in reverse, each one's result feeding the next;
  the first that throws ends the run. The state is any extension of \<^typ>\<open>env\<close>.
\<close>

fun runRequestInterceptors ::
  "('x env_scheme) interceptor list \<Rightarrow> intercepted_request \<Rightarrow>
   ('x env_scheme, js_error, intercepted_request) io" where
  "runRequestInterceptors [] current = io_return current"
| "runRequestInterceptors (ic # ics) current =
     (case ic_onRequest ic of
        None \<Rightarrow> runRequestInterceptors ics current
      | Some f \<Rightarrow>
          io_bind (f current) (\<lambda>current'.
          io_then
            (if strict_eq (rq_body current) (rq_body current') then io_return ()
             else emit_log LDebug (''Interceptor \"'' @ ic_name ic @ ''\" mutated request body'')
                    ''network''
                    [(''interceptor'', JStr (ic_name ic)), (''url'', JStr (rq_url current'))])
            (runRequestInterceptors ics current')))"

fun run_response_list ::
  "('x env_scheme) interceptor list \<Rightarrow> intercepted_response \<Rightarrow>
   ('x env_scheme, js_error, intercepted_response) io" where
  "run_response_list [] current = io_return current"
| "run_response_list (ic # ics) current =
     (case ic_onResponse ic of
        None \<Rightarrow> run_response_list ics current
      | Some f \<Rightarrow> io_bind (f current) (run_response_list ics))"

definition runResponseInterceptors ::
  "('x env_scheme) interceptor list \<Rightarrow> intercepted_response \<Rightarrow>
   ('x env_scheme, js_error, intercepted_response) io" where
  "runResponseInterceptors interceptors response = run_response_list (rev interceptors) response"

fun runErrorInterceptors ::
  "('x env_scheme) interceptor list \<Rightarrow> network_error \<Rightarrow>
   ('x env_scheme, js_error, network_error) io" where
  "runErrorInterceptors [] current = io_return current"
| "runErrorInterceptors (ic # ics) current =
     (case ic_onError ic of
        None \<Rightarrow> runErrorInterceptors ics current
      | Some f \<Rightarrow> io_bind (f current) (runErrorInterceptors ics))"

section \<open>Composition\<close>

lemma io_bind_assoc: "io_bind (io_bind m f) g = io_bind m (\<lambda>a. io_bind (f a) g)"
  by (auto simp: fun_eq_iff io_bind_def split: prod.splits sum.splits)

lemma io_bind_cong: "(\<And>a. f a = g a) \<Longrightarrow> io_bind m f = io_bind m g"
  by (auto simp: fun_eq_iff io_bind_def split: prod.splits sum.splits)

lemma io_bind_return_left [simp]: "io_bind (io_return a) f = f a"
  by (simp add: fun_eq_iff io_simps)

lemma io_then_bind: "io_bind (io_then m n) f = io_then m (io_bind n f)"
  by (simp add: io_then_def io_bind_assoc)

lemma runRequestInterceptors_append:
  "runRequestInterceptors (xs @ ys) r =
   io_bind (runRequestInterceptors xs r) (runRequestInterceptors ys)"
  by (induction xs arbitrary: r)
     (auto simp: io_bind_assoc io_then_bind intro!: io_bind_cong split: option.splits)

lemma run_response_list_append:
  "run_response_list (xs @ ys) r = io_bind (run_response_list xs r) (run_response_list ys)"
  by (induction xs arbitrary: r) (auto simp: io_bind_assoc intro!: io_bind_cong split: option.splits)

lemma runErrorInterceptors_append:
  "runErrorInterceptors (xs @ ys) e =
   io_bind (runErrorInterceptors xs e) (runErrorInterceptors ys)"
  by (induction xs arbitrary: e) (auto simp: io_bind_assoc intro!: io_bind_cong split: option.splits)

lemma runResponseInterceptors_append:
  "runResponseInterceptors (xs @ ys) r =
   io_bind (runResponseInterceptors ys r) (runResponseInterceptors xs)"
  by (auto simp: runResponseInterceptors_def run_response_list_append intro!: io_bind_cong)

section \<open>What the pipelines keep\<close>

text \<open>A predicate that every interceptor keeps, and that does not depend on the log, is kept.\<close>

definition log_independent :: "('x env_scheme \<Rightarrow> bool) \<Rightarrow> bool" where
  "log_independent P = (\<forall>s l. P (s\<lparr>env_log := l\<rparr>) = P s)"

lemma log_independentD: "log_independent P \<Longrightarrow> P (s\<lparr>env_log := l\<rparr>) = P s"
  by (simp add: log_independent_def)

lemma keeps_emit_log [keeps_intros]: "log_independent P \<Longrightarrow> keeps P (emit_log lvl msg tag data)"
  by (simp add: keeps_def io_simps log_independentD)

definition ics_keep :: "('x env_scheme \<Rightarrow> bool) \<Rightarrow> ('x env_scheme) interceptor list \<Rightarrow> bool" where
  "ics_keep P ics = (\<forall>ic \<in> set ics.
     (\<forall>f r. ic_onRequest ic = Some f \<longrightarrow> keeps P (f r)) \<and>
     (\<forall>f r. ic_onResponse ic = Some f \<longrightarrow> keeps P (f r)) \<and>
     (\<forall>f e. ic_onError ic = Some f \<longrightarrow> keeps P (f e)))"

lemma ics_keep_Nil [simp]: "ics_keep P []"
  by (simp add: ics_keep_def)

lemma keeps_runRequestInterceptors [keeps_intros]:
  "log_independent P \<Longrightarrow> ics_keep P ics \<Longrightarrow> keeps P (runRequestInterceptors ics r)"
  by (induction ics arbitrary: r)
     (auto simp: ics_keep_def intro!: keeps_intros split: option.splits)

lemma keeps_run_response_list:
  "ics_keep P ics \<Longrightarrow> keeps P (run_response_list ics r)"
  by (induction ics arbitrary: r)
     (auto simp: ics_keep_def intro!: keeps_intros split: option.splits)

lemma keeps_runResponseInterceptors [keeps_intros]:
  "ics_keep P ics \<Longrightarrow> keeps P (runResponseInterceptors ics r)"
  by (simp add: runResponseInterceptors_def keeps_run_response_list ics_keep_def)

lemma keeps_runErrorInterceptors [keeps_intros]:
  "ics_keep P ics \<Longrightarrow> keeps P (runErrorInterceptors ics e)"
  by (induction ics arbitrary: e)
     (auto simp: ics_keep_def intro!: keeps_intros split: option.splits)

text \<open>
  The pipelines compose: running the request interceptors of \<open>xs @ ys\<close> is running those of
  \<open>xs\<close> and then those of \<open>ys\<close> on the result, likewise for errors, while for responses the
  later-registered \<open>ys\<close> run first. Errors of any interceptor end the run.
\<close>

theorem interceptor_pipelines_compose:
  "runRequestInterceptors (xs @ ys) r s =
     (case runRequestInterceptors xs r s of (Inl e, t) \<Rightarrow> (Inl e, t)
      | (Inr r', t) \<Rightarrow> runRequestInterceptors ys r' t) \<and>
   runErrorInterceptors (xs @ ys) ne s =
     (case runErrorInterceptors xs ne s of (Inl e, t) \<Rightarrow> (Inl e, t)
      | (Inr ne', t) \<Rightarrow> runErrorInterceptors ys ne' t) \<and>
   runResponseInterceptors (xs @ ys) p s =
     (case runResponseInterceptors ys p s of (Inl e, t) \<Rightarrow> (Inl e, t)
      | (Inr p', t) \<Rightarrow> runResponseInterceptors xs p' t)"
  by (simp add: runRequestInterceptors_append runErrorInterceptors_append
      runResponseInterceptors_append io_simps)

end
