(* ===== verification/UrlSafety.thy ===== *)
theory UrlSafety
  imports NetworkTypes
begin

text \<open>
  \<^verbatim>\<open>packages/network/src/url-builder.ts\<close> and \<^verbatim>\<open>https-validator.ts\<close>: the path parameters of a
  request and the check that only HTTPS, or an allowlisted private host, is contacted.
  \<^verbatim>\<open>new URL(url)\<close> is the host's URL parser, a parameter \<open>parse_url\<close> that gives the protocol
  and the host name, or nothing where the constructor throws.
\<close>

section \<open>encodeURIComponent\<close>

definition uri_unreserved :: "char \<Rightarrow> bool" where
  "uri_unreserved c = (is_alnum c \<or> c \<in> set ''-_.!~*()'' \<or> c = CHR 0x27)"

definition hex_digit :: "nat \<Rightarrow> char" where
  "hex_digit n = (if n < 10 then char_of (48 + n) else char_of (55 + n))"

definition percent_byte :: "nat \<Rightarrow> string" where
  "percent_byte b = [CHR ''%'', hex_digit (b div 16), hex_digit (b mod 16)]"

definition utf8_bytes :: "char \<Rightarrow> nat list" where
  "utf8_bytes c = (let n = of_char c :: nat in
     if n < 128 then [n] else [192 + n div 64, 128 + n mod 64])"

definition encode_char :: "char \<Rightarrow> string" where
  "encode_char c = (if uri_unreserved c then [c] else concat (map percent_byte (utf8_bytes c)))"

definition encodeURIComponent :: "string \<Rightarrow> string" where
  "encodeURIComponent s = concat (map encode_char s)"

lemma is_alnum_hex_digit: "n < 16 \<Longrightarrow> is_alnum (hex_digit n)"
  by (auto simp: hex_digit_def is_alnum_def Let_def)

lemma is_alnum_imp_unreserved: "is_alnum c \<Longrightarrow> uri_unreserved c"
  by (simp add: uri_unreserved_def)

lemma utf8_bytes_bound: "b \<in> set (utf8_bytes c) \<Longrightarrow> b < 256"
proof -
  have "(of_char c :: nat) < 256" using of_char_mod_256 [of c, where ?'a = nat] by linarith
  then have "(of_char c :: nat) div 64 < 4" by (simp add: less_mult_imp_div_less)
  then show "b \<in> set (utf8_bytes c) \<Longrightarrow> b < 256"
    by (auto simp: utf8_bytes_def Let_def split: if_splits)
qed

lemma percent_byte_chars:
  "b < 256 \<Longrightarrow> c \<in> set (percent_byte b) \<Longrightarrow> uri_unreserved c \<or> c = CHR ''%''"
proof -
  assume "b < 256"
  then have "b div 16 < 16" and "b mod 16 < 16" by auto
  then show "c \<in> set (percent_byte b) \<Longrightarrow> uri_unreserved c \<or> c = CHR ''%''"
    using is_alnum_imp_unreserved [OF is_alnum_hex_digit]
    by (auto simp: percent_byte_def simp del: mod_less)
qed

text \<open>An encoded value holds unreserved characters and percent signs only.\<close>

lemma encodeURIComponent_chars:
  assumes "c \<in> set (encodeURIComponent s)"
  shows "uri_unreserved c \<or> c = CHR ''%''"
proof -
  from assms obtain d where "c \<in> set (encode_char d)"
    by (auto simp: encodeURIComponent_def)
  then show ?thesis
    using utf8_bytes_bound percent_byte_chars
    by (fastforce simp: encode_char_def split: if_splits)
qed

lemma encodeURIComponent_no_dollar: "CHR ''$'' \<notin> set (encodeURIComponent s)"
  using encodeURIComponent_chars [of "CHR ''$''" s]
  by (auto simp: uri_unreserved_def is_alnum_def)

section \<open>Path parameters\<close>

text \<open>
  \<^verbatim>\<open>String.replace\<close> with a string pattern replaces the first occurrence; the dollar patterns
  of a replacement string cannot occur, by \<open>encodeURIComponent_no_dollar\<close>.
\<close>

fun substitute_params :: "string \<Rightarrow> string js_record \<Rightarrow> string" where
  "substitute_params result [] = result"
| "substitute_params result ((key, v) # params) =
     substitute_params (replace_first result (CHR '':'' # key) (encodeURIComponent v)) params"

definition interpolatePathParams ::
  "string \<Rightarrow> string js_record option \<Rightarrow> network_error + string" where
  "interpolatePathParams path params =
     (if prefix ''//'' path
      then Inl (network_error_of CLIENT_ERROR (''Protocol-relative path not allowed: '' @ path))
      else (case params of None \<Rightarrow> Inr path | Some ps \<Rightarrow> Inr (substitute_params path ps)))"

lemma count_list_replace_first:
  "c \<notin> set rep \<Longrightarrow> count_list (replace_first s pat rep) c \<le> count_list s c"
proof (induction s)
  case Nil
  then show ?case by simp
next
  case (Cons d s)
  have "count_list (drop (length pat) (d # s)) c \<le> count_list (d # s) c"
    by (metis append_take_drop_id count_list_append le_add2)
  with Cons show ?case by (auto simp: count_list_append)
qed

lemma count_list_substitute_params:
  "\<not> uri_unreserved c \<Longrightarrow> c \<noteq> CHR ''%'' \<Longrightarrow>
   count_list (substitute_params s ps) c \<le> count_list s c"
proof (induction ps arbitrary: s)
  case Nil
  then show ?case by simp
next
  case (Cons p ps)
  obtain k v where p: "p = (k, v)" by (cases p)
  have "c \<notin> set (encodeURIComponent v)"
    using encodeURIComponent_chars Cons.prems by blast
  then have "count_list (replace_first s (CHR '':'' # k) (encodeURIComponent v)) c
      \<le> count_list s c"
    by (rule count_list_replace_first)
  with Cons.IH [OF Cons.prems] p show ?case
    using le_trans by fastforce
qed

lemma replace_first_at:
  "pat \<noteq> [] \<Longrightarrow> \<not> includes_str (pre @ butlast pat) pat \<Longrightarrow>
   replace_first (pre @ pat @ post) pat rep = pre @ rep @ post"
proof (induction pre)
  case Nil
  then obtain c cs where "pat = c # cs" by (cases pat) auto
  then show ?case by simp
next
  case (Cons c pre)
  have "\<not> prefix pat (c # pre @ pat @ post)"
  proof
    assume "prefix pat (c # pre @ pat @ post)"
    then have p: "prefix pat ((c # pre @ butlast pat) @ last pat # post)"
      using Cons.prems(1) by (metis append_Cons append_Nil append_assoc append_butlast_last_id)
    have "length pat \<le> length (c # pre @ butlast pat)"
      using Cons.prems(1) by simp
    with p have "prefix pat (c # pre @ butlast pat)"
      by (metis prefixI prefix_length_prefix)
    with Cons.prems(2) show False by simp
  qed
  with Cons show ?case by simp
qed

text \<open>
  Path parameters cannot change the structure of a URL: whatever the values, the built path
  has at most as many occurrences of any reserved character (a slash, a question mark, a hash, a
  colon, an ampersand, an at sign, ...) as the template had, so a value never adds a segment, a
  query or a fragment; and a path that starts with two slashes is refused.
\<close>

theorem interpolated_params_stay_in_place:
  assumes "interpolatePathParams path params = Inr result"
    and "\<not> uri_unreserved c" and "c \<noteq> CHR ''%''"
  shows "count_list result c \<le> count_list path c \<and> \<not> prefix ''//'' path"
proof -
  from assms(1) have "\<not> prefix ''//'' path"
    by (auto simp: interpolatePathParams_def split: if_splits)
  with assms show ?thesis
    by (auto simp: interpolatePathParams_def count_list_substitute_params split: option.splits)
qed

theorem interpolated_params_stay_in_place_witness:
  "interpolatePathParams ''/users/:id'' (Some [(''id'', ''a/../b?x'')])
     = Inr ''/users/a%2F..%2Fb%3Fx'' \<and>
   count_list ''/users/a%2F..%2Fb%3Fx'' (CHR ''/'') \<le> count_list ''/users/:id'' (CHR ''/'') \<and>
   \<not> prefix ''//'' ''/users/:id''"
proof -
  have run: "interpolatePathParams ''/users/:id'' (Some [(''id'', ''a/../b?x'')])
      = Inr ''/users/a%2F..%2Fb%3Fx''"
    by code_simp
  have res: "\<not> uri_unreserved (CHR ''/'')" by code_simp
  from interpolated_params_stay_in_place [OF run res] run show ?thesis by simp
qed

text \<open>
  A parameter lands where its placeholder stands: where \<open>:key\<close> first occurs after
  \<open>pre\<close>, exactly it is replaced by the percent-encoded value and the rest of the path is kept.
\<close>

theorem interpolate_replaces_placeholder:
  assumes "\<not> prefix ''//'' (pre @ (CHR '':'' # key) @ post)"
    and "\<not> includes_str (pre @ butlast (CHR '':'' # key)) (CHR '':'' # key)"
  shows "interpolatePathParams (pre @ (CHR '':'' # key) @ post) (Some [(key, v)])
         = Inr (pre @ encodeURIComponent v @ post)"
  using assms replace_first_at [OF _ assms(2), of post "encodeURIComponent v"]
  by (simp add: interpolatePathParams_def)

theorem interpolate_replaces_placeholder_witness:
  "interpolatePathParams (''/w/'' @ (CHR '':'' # ''id'') @ ''/x'') (Some [(''id'', ''a b'')])
   = Inr ''/w/a%20b/x''"
proof -
  have a: "\<not> prefix ''//'' (''/w/'' @ (CHR '':'' # ''id'') @ ''/x'')" by simp
  have b: "\<not> includes_str (''/w/'' @ butlast (CHR '':'' # ''id'')) (CHR '':'' # ''id'')" by simp
  have c: "encodeURIComponent ''a b'' = ''a%20b''" by code_simp
  show ?thesis using interpolate_replaces_placeholder [OF a b, of "''a b''"] c by simp
qed

text \<open>
  The order of the parameters matters where one key is a prefix of another: the placeholder
  \<open>:userId\<close> is consumed by the key \<open>user\<close>.
\<close>

lemma interpolate_prefix_key_clash:
  "interpolatePathParams ''/u/:userId'' (Some [(''user'', ''bob''), (''userId'', ''42'')])
   = Inr ''/u/bobId''"
  by code_simp

section \<open>Private hosts\<close>

definition digits_1_3 :: "string \<Rightarrow> bool" where
  "digits_1_3 s = (1 \<le> length s \<and> length s \<le> 3 \<and> list_all is_digit s)"

definition in_172_block :: "string \<Rightarrow> bool" where
  "in_172_block s =
     (case s of
        [a, b] \<Rightarrow>
          (a = CHR ''1'' \<and> b \<in> set ''6789'') \<or> (a = CHR ''2'' \<and> is_digit b) \<or>
          (a = CHR ''3'' \<and> b \<in> set ''01'')
      | _ \<Rightarrow> False)"

text \<open>The six \<^verbatim>\<open>PRIVATE_PATTERNS\<close>, in order.\<close>

definition is_private_host :: "string \<Rightarrow> bool" where
  "is_private_host host =
     (host = ''localhost'' \<or> host = ''127.0.0.1'' \<or> host = ''::1'' \<or>
      (case split_on (CHR ''.'') host of
         [a, b, c, d] \<Rightarrow>
           (a = ''10'' \<and> digits_1_3 b \<and> digits_1_3 c \<and> digits_1_3 d) \<or>
           (a = ''172'' \<and> in_172_block b \<and> digits_1_3 c \<and> digits_1_3 d) \<or>
           (a = ''192'' \<and> b = ''168'' \<and> digits_1_3 c \<and> digits_1_3 d)
       | _ \<Rightarrow> False))"

section \<open>The validator\<close>

record https_validator_config =
  hv_allowlist :: "string list"
  hv_isProduction :: bool

fun validateAllowlistEntries :: "string list \<Rightarrow> js_error + unit" where
  "validateAllowlistEntries [] = Inr ()"
| "validateAllowlistEntries (host # hosts) =
     (if is_private_host host then validateAllowlistEntries hosts
      else Inl (JsErr (Some (''HTTPS allowlist only accepts private/local hosts, got: '' @ host))))"

text \<open>What \<^verbatim>\<open>new URL\<close> throws for a string it cannot parse is a TypeError.\<close>

definition enforceHttps ::
  "(string \<Rightarrow> (string \<times> string) option) \<Rightarrow> string \<Rightarrow> string list \<Rightarrow>
   ('x env_scheme, js_error, unit) io" where
  "enforceHttps parse_url url allowlist =
     (case parse_url url of
        None \<Rightarrow> io_throw (JsErr (Some ''Invalid URL''))
      | Some (protocol, hostname) \<Rightarrow>
          if protocol = ''https:'' then io_return ()
          else if protocol \<noteq> ''http:''
          then io_throw (NetworkErr (network_error_of HTTPS_REQUIRED
                 (''Non-HTTP(S) scheme not allowed: '' @ protocol)))
          else if hostname \<in> set allowlist
          then emit_log LWarning ''Non-HTTPS request allowed via allowlist'' ''network''
                 [(''url'', JStr url), (''hostname'', JStr hostname)]
          else io_throw (NetworkErr (network_error_of HTTPS_REQUIRED
                 (''HTTPS required, got HTTP for: '' @ hostname))))"

definition createHttpsValidator ::
  "(string \<Rightarrow> (string \<times> string) option) \<Rightarrow> https_validator_config \<Rightarrow>
   js_error + (string \<Rightarrow> ('x env_scheme, js_error, unit) io)" where
  "createHttpsValidator parse_url config =
     (if hv_isProduction config \<and> hv_allowlist config \<noteq> []
      then Inl (JsErr (Some ''HTTPS allowlist must be empty in production''))
      else (case validateAllowlistEntries (hv_allowlist config) of
              Inl e \<Rightarrow> Inl e
            | Inr _ \<Rightarrow> Inr (\<lambda>url. enforceHttps parse_url url (hv_allowlist config))))"

lemma validateAllowlistEntries_iff:
  "validateAllowlistEntries hosts = Inr () \<longleftrightarrow> list_all is_private_host hosts"
  by (induction hosts) auto

text \<open>
  C7. A validator accepts a URL only over HTTPS, or, outside production only, over plain HTTP to a
  host of its allowlist, every entry of which is a loopback or private address. In production
  nothing but HTTPS is accepted.
\<close>

theorem https_validator_safe:
  assumes "createHttpsValidator parse_url config = Inr validate"
    and "fst (validate url s) = Inr ()"
  shows "\<exists>protocol hostname. parse_url url = Some (protocol, hostname) \<and>
    (protocol = ''https:'' \<or>
     (\<not> hv_isProduction config \<and> protocol = ''http:'' \<and>
      hostname \<in> set (hv_allowlist config) \<and> is_private_host hostname))"
proof -
  from assms(1) have prod: "hv_isProduction config \<longrightarrow> hv_allowlist config = []"
    and priv: "list_all is_private_host (hv_allowlist config)"
    and v: "validate = (\<lambda>url. enforceHttps parse_url url (hv_allowlist config))"
    by (auto simp: createHttpsValidator_def validateAllowlistEntries_iff [symmetric]
        split: if_splits sum.splits)
  from assms(2) v prod priv show ?thesis
    by (auto simp: enforceHttps_def io_simps list_all_iff split: option.splits if_splits)
qed

definition sample_parse_url :: "string \<Rightarrow> (string \<times> string) option" where
  "sample_parse_url u =
     (if u = ''http://10.0.2.2/x'' then Some (''http:'', ''10.0.2.2'') else None)"

theorem https_validator_safe_witness:
  "\<exists>protocol hostname. sample_parse_url ''http://10.0.2.2/x'' = Some (protocol, hostname) \<and>
    (protocol = ''https:'' \<or>
     (\<not> False \<and> protocol = ''http:'' \<and> hostname \<in> set [''10.0.2.2''] \<and>
      is_private_host hostname))"
proof -
  let ?cfg = "\<lparr>hv_allowlist = [''10.0.2.2''], hv_isProduction = False\<rparr>"
  let ?s = "\<lparr>env_now = 0, env_log = []\<rparr>"
  have p: "is_private_host ''10.0.2.2''" by code_simp
  have a: "createHttpsValidator sample_parse_url ?cfg
      = Inr (\<lambda>url. enforceHttps sample_parse_url url [''10.0.2.2''])"
    by (simp add: createHttpsValidator_def p)
  have b: "fst ((\<lambda>url. enforceHttps sample_parse_url url [''10.0.2.2'']) ''http://10.0.2.2/x'' ?s)
      = Inr ()"
    by (simp add: enforceHttps_def sample_parse_url_def io_simps)
  show ?thesis using https_validator_safe [OF a b] by simp
qed

end
