(* ===== verification/TransportExecutor.thy ===== *)
theory TransportExecutor
  imports Interceptors
begin

text \<open>
  \<^verbatim>\<open>packages/network/src/transport-executor.ts\<close>: one call of the transport, with its log
  entries and the response interceptors. \<^verbatim>\<open>JSON.stringify\<close> is the parameter \<open>stringify\<close>; an
  object that the code builds only for a log entry has the identity 0.
\<close>

record 's transport_input =
  ti_transport :: "'s transport"
  ti_request :: intercepted_request
  ti_timeoutMs :: int
  ti_interceptors :: "'s interceptor list"
  ti_signal :: "nat option"
  ti_query :: "string js_record option"
  ti_hasProgress :: bool

section \<open>What is logged\<close>

definition SENSITIVE_LOG_HEADERS :: "string list" where
  "SENSITIVE_LOG_HEADERS = [''authorization'', ''x-api-key'', ''cookie'']"

definition MAX_BODY_LOG_CHARS :: nat where
  "MAX_BODY_LOG_CHARS = 2000"

definition mask_header :: "string \<times> string \<Rightarrow> string \<times> string" where
  "mask_header = (\<lambda>(key, v).
     (key, if js_lower key \<in> set SENSITIVE_LOG_HEADERS then take 12 v @ ''[REDACTED]'' else v))"

definition maskSensitiveHeaders :: "string js_record \<Rightarrow> string js_record" where
  "maskSensitiveHeaders headers = map mask_header headers"

definition truncateBody :: "(js_value \<Rightarrow> string) \<Rightarrow> js_value \<Rightarrow> js_value" where
  "truncateBody stringify body =
     (case body of
        JUndefined \<Rightarrow> body
      | JNull \<Rightarrow> body
      | JFormData _ \<Rightarrow> JStr ''[FormData]''
      | _ \<Rightarrow>
          let serialized = (case body of JStr t \<Rightarrow> t | _ \<Rightarrow> stringify body) in
          if length serialized \<le> MAX_BODY_LOG_CHARS then body
          else JStr (take MAX_BODY_LOG_CHARS serialized @ ''...[truncated '' @
                     int_str (int (length serialized)) @ '' chars]''))"

definition jheaders :: "string js_record \<Rightarrow> js_value" where
  "jheaders hs = JObj 0 (map (\<lambda>(k, v). (k, JStr v)) hs)"

definition logOutgoingRequest ::
  "(js_value \<Rightarrow> string) \<Rightarrow> intercepted_request \<Rightarrow> ('x env_scheme, js_error, unit) io" where
  "logOutgoingRequest stringify request =
     emit_log LInfo ''>> HTTP request'' ''network''
       [(''method'', JStr (rq_method request)),
        (''url'', JStr (rq_url request)),
        (''headers'', jheaders (maskSensitiveHeaders (rq_headers request))),
        (''body'', truncateBody stringify (rq_body request))]"

definition logIncomingResponse ::
  "(js_value \<Rightarrow> string) \<Rightarrow> intercepted_request \<Rightarrow> intercepted_response \<Rightarrow> int \<Rightarrow>
   ('x env_scheme, js_error, unit) io" where
  "logIncomingResponse stringify request response startMs =
     io_bind (io_gets env_now) (\<lambda>now.
       emit_log LInfo ''<< HTTP response'' ''network''
         [(''method'', JStr (rq_method request)),
          (''url'', JStr (rq_url request)),
          (''status'', JNum (rs_status response)),
          (''durationMs'', JNum (now - startMs)),
          (''body'', truncateBody stringify (rs_body response))])"

definition code_name :: "network_error_code \<Rightarrow> string" where
  "code_name c = (case c of
      NETWORK_OFFLINE \<Rightarrow> ''NETWORK_OFFLINE'' | NETWORK_TIMEOUT \<Rightarrow> ''NETWORK_TIMEOUT''
    | REQUEST_ABORTED \<Rightarrow> ''REQUEST_ABORTED'' | SERVER_ERROR \<Rightarrow> ''SERVER_ERROR''
    | CLIENT_ERROR \<Rightarrow> ''CLIENT_ERROR'' | AUTH_EXPIRED \<Rightarrow> ''AUTH_EXPIRED''
    | FORBIDDEN \<Rightarrow> ''FORBIDDEN'' | RATE_LIMITED \<Rightarrow> ''RATE_LIMITED''
    | PARSE_ERROR \<Rightarrow> ''PARSE_ERROR'' | HTTPS_REQUIRED \<Rightarrow> ''HTTPS_REQUIRED'')"

definition logRequestFailure ::
  "(js_value \<Rightarrow> string) \<Rightarrow> intercepted_request \<Rightarrow> js_error \<Rightarrow> int \<Rightarrow>
   ('x env_scheme, js_error, unit) io" where
  "logRequestFailure stringify request error startMs =
     io_bind (io_gets env_now) (\<lambda>now.
       let base = [(''method'', JStr (rq_method request)), (''url'', JStr (rq_url request)),
                   (''durationMs'', JNum (now - startMs))] in
       case error of
         NetworkErr ne \<Rightarrow>
           emit_log LWarning ''!! HTTP error'' ''network''
             (base @ [(''status'', jnum_opt (ne_status ne)), (''code'', JStr (code_name (ne_code ne))),
                      (''responseBody'', truncateBody stringify (ne_responseBody ne)),
                      (''rawBody'', jstr_opt (ne_rawBody ne))])
       | JsErr m \<Rightarrow>
           emit_log LWarning ''!! HTTP error'' ''network'' (base @ [(''error'', jstr_opt m)]))"

section \<open>The call\<close>

definition transport_request_of :: "'s transport_input \<Rightarrow> transport_request" where
  "transport_request_of input =
     \<lparr>tr_method = rq_method (ti_request input), tr_url = rq_url (ti_request input),
      tr_headers = Some (rq_headers (ti_request input)), tr_body = rq_body (ti_request input),
      tr_timeoutMs = Some (ti_timeoutMs input), tr_signal = ti_signal input,
      tr_query = ti_query input, tr_hasProgress = ti_hasProgress input\<rparr>"

definition executeTransportRequest ::
  "(js_value \<Rightarrow> string) \<Rightarrow> ('x env_scheme) transport_input \<Rightarrow>
   ('x env_scheme, js_error, http_response) io" where
  "executeTransportRequest stringify input =
     (let request = ti_request input in
      io_then (logOutgoingRequest stringify request)
        (io_bind (io_gets env_now) (\<lambda>startMs.
           io_catch
             (io_bind (ti_transport input (transport_request_of input)) (\<lambda>response.
                let intercepted = \<lparr>rs_status = tp_status response, rs_headers = tp_headers response,
                                   rs_body = tp_body response, rs_url = rq_url request\<rparr> in
                io_bind
                  (if ti_interceptors input \<noteq> []
                   then runResponseInterceptors (ti_interceptors input) intercepted
                   else io_return intercepted) (\<lambda>final.
                io_then (logIncomingResponse stringify request final startMs)
                  (io_return \<lparr>hr_status = rs_status final, hr_headers = rs_headers final,
                              hr_body = rs_body final\<rparr>))))
             (\<lambda>error. io_then (logRequestFailure stringify request error startMs)
                        (io_throw error)))))"

lemma keeps_logs [keeps_intros]:
  assumes "log_independent P"
  shows "keeps P (logOutgoingRequest stringify request)"
    and "keeps P (logIncomingResponse stringify request response startMs)"
    and "keeps P (logRequestFailure stringify request error startMs)"
proof -
  show "keeps P (logOutgoingRequest stringify request)"
    unfolding logOutgoingRequest_def by (intro keeps_intros assms)
  show "keeps P (logIncomingResponse stringify request response startMs)"
    unfolding logIncomingResponse_def by (intro keeps_intros assms)
  show "keeps P (logRequestFailure stringify request error startMs)"
    unfolding logRequestFailure_def Let_def
    by (cases error) (auto intro!: keeps_intros assms)
qed

lemma keeps_executeTransportRequest:
  assumes "log_independent P" and "ics_keep P (ti_interceptors input)"
    and "\<And>r. keeps P (ti_transport input r)"
  shows "keeps P (executeTransportRequest stringify input)"
  unfolding executeTransportRequest_def Let_def
  by (intro keeps_intros assms)

section \<open>Credentials in the log\<close>

text \<open>Two header lists that differ only in what masking cuts off.\<close>

definition same_masked :: "string js_record \<Rightarrow> string js_record \<Rightarrow> bool" where
  "same_masked hs hs' = list_all2 (\<lambda>(k, v) (k', v').
     k = k' \<and> (if js_lower k \<in> set SENSITIVE_LOG_HEADERS then take 12 v = take 12 v' else v = v')) hs hs'"

lemma maskSensitiveHeaders_cong:
  "same_masked hs hs' \<Longrightarrow> maskSensitiveHeaders hs = maskSensitiveHeaders hs'"
  unfolding same_masked_def maskSensitiveHeaders_def
  by (induction rule: list_all2_induct) (auto simp: mask_header_def split: if_splits)

lemma log_outgoing_cong:
  "same_masked (rq_headers r) (rq_headers r') \<Longrightarrow> rq_method r = rq_method r' \<Longrightarrow>
   rq_url r = rq_url r' \<Longrightarrow> rq_body r = rq_body r' \<Longrightarrow>
   logOutgoingRequest stringify r = logOutgoingRequest stringify r'"
  by (simp add: logOutgoingRequest_def maskSensitiveHeaders_cong)

lemma log_failure_cong:
  "rq_method r = rq_method r' \<Longrightarrow> rq_url r = rq_url r' \<Longrightarrow>
   logRequestFailure stringify r = logRequestFailure stringify r'"
  "rq_method r = rq_method r' \<Longrightarrow> rq_url r = rq_url r' \<Longrightarrow>
   logIncomingResponse stringify r = logIncomingResponse stringify r'"
  by (simp_all add: fun_eq_iff logRequestFailure_def logIncomingResponse_def)

text \<open>
  C6. Credentials beyond the first twelve characters of an Authorization, X-API-Key or Cookie
  header never reach the log: two requests that differ only in that part of those headers, sent
  over a transport that answers both alike, end in the same result and the same state, log
  included, whatever the outcome.
\<close>

theorem credentials_do_not_reach_log:
  assumes "same_masked (rq_headers r) (rq_headers r')"
    and "rq_method r = rq_method r'" and "rq_url r = rq_url r'" and "rq_body r = rq_body r'"
    and "transport (transport_request_of (input\<lparr>ti_transport := transport, ti_request := r\<rparr>))
       = transport (transport_request_of (input\<lparr>ti_transport := transport, ti_request := r'\<rparr>))"
  shows "executeTransportRequest stringify (input\<lparr>ti_transport := transport, ti_request := r\<rparr>) s
       = executeTransportRequest stringify (input\<lparr>ti_transport := transport, ti_request := r'\<rparr>) s"
  using assms(2-5)
  by (simp add: executeTransportRequest_def Let_def log_outgoing_cong [OF assms(1-4)]
      log_failure_cong [OF assms(2,3)] cong: if_cong)

theorem credentials_do_not_reach_log_witness:
  defines "answer \<equiv> (\<lambda>_ s. (Inr \<lparr>tp_status = 200, tp_headers = [], tp_body = JNull\<rparr>, s))
             :: env transport"
    and "req \<equiv> \<lambda>v. \<lparr>rq_url = ''/me'', rq_method = ''GET'',
             rq_headers = [(''Authorization'', v)], rq_body = JUndefined\<rparr>"
  shows "executeTransportRequest (\<lambda>_. [])
      \<lparr>ti_transport = answer, ti_request = req ''Bearer abcdefSECRET1'', ti_timeoutMs = 30000,
       ti_interceptors = [], ti_signal = None, ti_query = None, ti_hasProgress = False\<rparr>
      \<lparr>env_now = 5, env_log = []\<rparr>
    = executeTransportRequest (\<lambda>_. [])
      \<lparr>ti_transport = answer, ti_request = req ''Bearer abcdefOTHER'', ti_timeoutMs = 30000,
       ti_interceptors = [], ti_signal = None, ti_query = None, ti_hasProgress = False\<rparr>
      \<lparr>env_now = 5, env_log = []\<rparr>"
proof -
  let ?a = "req ''Bearer abcdefSECRET1''" and ?b = "req ''Bearer abcdefOTHER''"
  let ?input = "\<lparr>ti_transport = answer, ti_request = ?a, ti_timeoutMs = 30000,
       ti_interceptors = [], ti_signal = None, ti_query = None, ti_hasProgress = False\<rparr>"
  have low: "js_lower ''Authorization'' \<in> set SENSITIVE_LOG_HEADERS" by code_simp
  have m: "same_masked (rq_headers ?a) (rq_headers ?b)"
    by (simp add: same_masked_def req_def low)
  have t: "answer (transport_request_of (?input\<lparr>ti_transport := answer, ti_request := ?a\<rparr>))
      = answer (transport_request_of (?input\<lparr>ti_transport := answer, ti_request := ?b\<rparr>))"
    by (simp add: answer_def)
  show ?thesis
    using credentials_do_not_reach_log [OF m _ _ _ t, of "\<lambda>_. []" "\<lparr>env_now = 5, env_log = []\<rparr>"]
    by (simp add: req_def)
qed

end
