(* ===== verification/AxiosTransport.thy ===== *)
theory AxiosTransport
  imports NetworkTypes
begin

text \<open>
  \<^verbatim>\<open>packages/network/src/axios-transport.ts\<close>: the default transport. Axios and axios-retry are
  parameters: \<open>instance\<close> sends one configured request (with whatever retries it makes by the
  condition and the delay given to it here), \<open>is_network_error\<close> is
  \<^verbatim>\<open>axiosRetry.isNetworkError\<close>. \<^verbatim>\<open>JSON.parse\<close>, \<^verbatim>\<open>Date.parse\<close> and \<^verbatim>\<open>Math.random\<close> are the
  parameters \<open>json_parse\<close>, \<open>date_parse\<close> (nothing for NaN) and \<open>rnd\<close>.
\<close>

definition IDEMPOTENT_METHODS :: "string list" where
  "IDEMPOTENT_METHODS = [''GET'', ''HEAD'', ''OPTIONS'', ''PUT'']"

record axios_response =
  ax_status :: int
  ax_headers :: "string js_record"
  ax_data :: js_value

record axios_error =
  ae_code :: "string option"
  ae_message :: "string option"
  ae_response :: "axios_response option"

text \<open>What \<^verbatim>\<open>instance.request\<close> or the parsing after it throws.\<close>

datatype axios_exn =
    AxNetworkError network_error
  | AxCancel
  | AxError axios_error
  | AxTypeError "string option"
  | AxOther "string option"

section \<open>Retry-After\<close>

definition is_js_space :: "char \<Rightarrow> bool" where
  "is_js_space c = (let n = of_char c :: nat in n \<in> {9, 10, 11, 12, 13, 32, 160})"

definition digits_value :: "string \<Rightarrow> int" where
  "digits_value ds = foldl (\<lambda>acc d. 10 * acc + (int (of_char d) - 48)) 0 ds"

text \<open>\<^verbatim>\<open>parseInt(s, 10)\<close>: nothing for NaN.\<close>

definition parseInt10 :: "string \<Rightarrow> int option" where
  "parseInt10 s =
     (let t = dropWhile is_js_space s;
          neg = (case t of c # _ \<Rightarrow> c = CHR ''-'' | [] \<Rightarrow> False);
          u = (case t of c # r \<Rightarrow> if c = CHR ''-'' \<or> c = CHR ''+'' then r else t | [] \<Rightarrow> []);
          ds = takeWhile is_digit u
      in if ds = [] then None else Some (if neg then - digits_value ds else digits_value ds))"

definition extractRetryAfterMs ::
  "(string \<Rightarrow> int option) \<Rightarrow> int \<Rightarrow> axios_error \<Rightarrow> int \<Rightarrow> int option" where
  "extractRetryAfterMs date_parse now error maxDelayMs =
     (case ae_response error of
        None \<Rightarrow> None
      | Some resp \<Rightarrow>
          if ax_status resp \<noteq> 429 then None
          else (case map_of (ax_headers resp) ''retry-after'' of
                  None \<Rightarrow> None
                | Some header \<Rightarrow>
                    if header = [] then None
                    else (case parseInt10 header of
                            Some seconds \<Rightarrow> Some (min (seconds * 1000) maxDelayMs)
                          | None \<Rightarrow>
                              (case date_parse header of
                                 Some date \<Rightarrow> Some (min (max (date - now) 0) maxDelayMs)
                               | None \<Rightarrow> None))))"

section \<open>When and how long to wait before a retry\<close>

definition retry_delay ::
  "(string \<Rightarrow> int option) \<Rightarrow> int \<Rightarrow> real \<Rightarrow> retry_config \<Rightarrow> nat \<Rightarrow> axios_error \<Rightarrow> real" where
  "retry_delay date_parse now rnd cfg retryCount error =
     (case extractRetryAfterMs date_parse now error (rc_maxDelayMs cfg) of
        Some retryMs \<Rightarrow> real_of_int retryMs
      | None \<Rightarrow>
          let exponential =
                min (real_of_int (rc_baseDelayMs cfg) * 2 ^ retryCount) (real_of_int (rc_maxDelayMs cfg))
          in exponential + rnd * rc_jitterFactor cfg * exponential)"

definition buildRetryCondition ::
  "(axios_error \<Rightarrow> bool) \<Rightarrow> string \<Rightarrow> axios_exn \<Rightarrow> bool" where
  "buildRetryCondition is_network_error meth error =
     (if map js_upper_ascii_char meth \<notin> set IDEMPOTENT_METHODS then False
      else (case error of
              AxCancel \<Rightarrow> False
            | AxError e \<Rightarrow>
                if is_network_error e then True
                else if ae_code e = Some ''ECONNABORTED'' \<or> ae_code e = Some ''ETIMEDOUT'' then True
                else (case ae_response e of
                        None \<Rightarrow> False
                      | Some r \<Rightarrow> ax_status r = 429 \<or> ax_status r \<ge> 500)
            | _ \<Rightarrow> False))"

text \<open>\<^verbatim>\<open>validateStatus\<close>: which statuses resolve rather than reject.\<close>

definition validateStatus :: "int \<Rightarrow> bool" where
  "validateStatus status = (\<not> (status \<ge> 500 \<or> status = 429))"

section \<open>Progress\<close>

definition buildProgressHandler ::
  "int option \<Rightarrow> int option \<Rightarrow> (int \<times> int) option" where
  "buildProgressHandler loaded ttl =
     (case ttl of
        None \<Rightarrow> None
      | Some t \<Rightarrow> if t = 0 then None
                  else Some ((case loaded of None \<Rightarrow> 0 | Some l \<Rightarrow> l), t))"

section \<open>Parsing a response\<close>

definition rejectNonJsonContentType ::
  "(js_value \<Rightarrow> string) \<Rightarrow> string \<Rightarrow> js_value \<Rightarrow> network_error option" where
  "rejectNonJsonContentType to_str contentType data =
     (if includes_str contentType ''text/html''
      then Some ((network_error_of PARSE_ERROR ''Received HTML response instead of JSON'')
                   \<lparr>ne_rawBody := Some (to_str data)\<rparr>)
      else if includes_str contentType ''text/plain''
      then Some ((network_error_of PARSE_ERROR ''Received text/plain response instead of JSON'')
                   \<lparr>ne_rawBody := Some (to_str data)\<rparr>)
      else None)"

definition parseResponseData ::
  "(string \<Rightarrow> js_value option) \<Rightarrow> (js_value \<Rightarrow> string) \<Rightarrow> axios_response \<Rightarrow>
   ('x env_scheme, axios_exn, js_value) io" where
  "parseResponseData json_parse to_str response =
     (if ax_status response = 204 then io_return JUndefined
      else
        let contentType = (case map_of (ax_headers response) ''content-type'' of
                             None \<Rightarrow> [] | Some t \<Rightarrow> t) in
        (case rejectNonJsonContentType to_str contentType (ax_data response) of
           Some ne \<Rightarrow> io_throw (AxNetworkError ne)
         | None \<Rightarrow>
             (case ax_data response of
                JStr text \<Rightarrow>
                  (case json_parse text of
                     Some v \<Rightarrow> io_return v
                   | None \<Rightarrow>
                       io_throw (AxNetworkError
                         ((network_error_of PARSE_ERROR
                            (''Failed to parse response as JSON'' @
                             (if contentType = [] then []
                              else '' (content-type: '' @ contentType @ '')'')))
                          \<lparr>ne_rawBody := Some text\<rparr>)))
              | data \<Rightarrow>
                  io_then
                    (if contentType \<noteq> [] \<and> \<not> includes_str contentType ''application/json''
                     then emit_log LWarning ''Unexpected content type, attempting JSON parse''
                            ''network'' [(''contentType'', JStr contentType)]
                     else io_return ())
                    (io_return data))))"

section \<open>Errors\<close>

definition mapAxiosResponseError ::
  "(string \<Rightarrow> int option) \<Rightarrow> int \<Rightarrow> axios_error \<Rightarrow> axios_response \<Rightarrow> network_error" where
  "mapAxiosResponseError date_parse now error resp =
     (let status = ax_status resp; body = ax_data resp in
      if status = 429 then
        let header = map_of (ax_headers resp) ''retry-after'';
            retryMs = (case header of
                         None \<Rightarrow> None
                       | Some h \<Rightarrow> if h = [] then None
                                   else extractRetryAfterMs date_parse now error 60000)
        in (network_error_of RATE_LIMITED ''Rate limited'')
             \<lparr>ne_status := Some status, ne_responseBody := body, ne_retryAfterMs := retryMs\<rparr>
      else if status \<ge> 500 then
        (network_error_of SERVER_ERROR (''Server error: '' @ int_str status))
          \<lparr>ne_status := Some status, ne_responseBody := body\<rparr>
      else
        (network_error_of CLIENT_ERROR (''Client error: '' @ int_str status))
          \<lparr>ne_status := Some status, ne_responseBody := body\<rparr>)"

definition mapAxiosError ::
  "(string \<Rightarrow> int option) \<Rightarrow> int \<Rightarrow> axios_error \<Rightarrow> network_error" where
  "mapAxiosError date_parse now error =
     (if ae_code error = Some ''ECONNABORTED'' \<or> ae_code error = Some ''ETIMEDOUT''
      then network_error_of NETWORK_TIMEOUT ''Request timed out''
      else if ae_code error = Some ''ERR_NETWORK''
      then network_error_of NETWORK_OFFLINE
             (case ae_message error of None \<Rightarrow> ''Network error'' | Some m \<Rightarrow> m)
      else (case ae_response error of
              None \<Rightarrow> network_error_of CLIENT_ERROR
                        (case ae_message error of None \<Rightarrow> ''Request failed'' | Some m \<Rightarrow> m)
            | Some resp \<Rightarrow> mapAxiosResponseError date_parse now error resp))"

definition mapToNetworkError ::
  "(string \<Rightarrow> int option) \<Rightarrow> int \<Rightarrow> axios_exn \<Rightarrow> network_error" where
  "mapToNetworkError date_parse now error =
     (case error of
        AxNetworkError ne \<Rightarrow> ne
      | AxCancel \<Rightarrow> network_error_of REQUEST_ABORTED ''Request aborted''
      | AxError e \<Rightarrow> mapAxiosError date_parse now e
      | AxTypeError m \<Rightarrow>
          network_error_of NETWORK_OFFLINE (case m of None \<Rightarrow> ''Network error'' | Some t \<Rightarrow> t)
      | AxOther m \<Rightarrow>
          network_error_of CLIENT_ERROR (case m of None \<Rightarrow> ''Unexpected error'' | Some t \<Rightarrow> t))"

section \<open>The transport\<close>

record axios_request =
  aq_url :: string
  aq_method :: string
  aq_headers :: "string js_record"
  aq_data :: js_value
  aq_timeout :: "int option"
  aq_signal :: "nat option"
  aq_params :: "string js_record option"
  aq_uploadProgress :: bool
  aq_retryCondition :: "axios_exn \<Rightarrow> bool"

record axios_env =
  xp_json_parse :: "string \<Rightarrow> js_value option"
  xp_to_str :: "js_value \<Rightarrow> string"
  xp_date_parse :: "string \<Rightarrow> int option"
  xp_is_network_error :: "axios_error \<Rightarrow> bool"

definition axios_request_of :: "axios_env \<Rightarrow> transport_request \<Rightarrow> axios_request" where
  "axios_request_of xp req =
     \<lparr>aq_url = tr_url req, aq_method = tr_method req,
      aq_headers = (case tr_headers req of None \<Rightarrow> [] | Some hs \<Rightarrow> hs), aq_data = tr_body req,
      aq_timeout = tr_timeoutMs req, aq_signal = tr_signal req, aq_params = tr_query req,
      aq_uploadProgress = tr_hasProgress req,
      aq_retryCondition = buildRetryCondition (xp_is_network_error xp) (tr_method req)\<rparr>"

definition executeAxiosRequest ::
  "axios_env \<Rightarrow> (axios_request \<Rightarrow> ('x env_scheme, axios_exn, axios_response) io) \<Rightarrow>
   ('x env_scheme) transport" where
  "executeAxiosRequest xp inst req s =
     (case io_bind (inst (axios_request_of xp req)) (\<lambda>response.
             io_bind (parseResponseData (xp_json_parse xp) (xp_to_str xp) response) (\<lambda>body.
               io_return \<lparr>tp_status = ax_status response, tp_headers = ax_headers response,
                          tp_body = body\<rparr>)) s of
        (Inl e, t) \<Rightarrow> (Inl (NetworkErr (mapToNetworkError (xp_date_parse xp) (env_now t) e)), t)
      | (Inr r, t) \<Rightarrow> (Inr r, t))"

definition notSupported :: "('x env_scheme, js_error, 'a) io" where
  "notSupported = io_throw (NetworkErr (network_error_of CLIENT_ERROR
     ''Operation not supported by default transport''))"

record axios_transport_config =
  ac_baseUrl :: string
  ac_maxResponseSizeBytes :: int
  ac_maxBodyLength :: int
  ac_retryConfig :: retry_config

text \<open>What \<^verbatim>\<open>createInstance\<close> and \<^verbatim>\<open>configureRetry\<close> give to axios and axios-retry.\<close>

record axios_instance_config =
  ai_baseURL :: string
  ai_validateStatus :: "int \<Rightarrow> bool"
  ai_maxContentLength :: int
  ai_maxBodyLength :: int
  ai_clarifyTimeoutError :: bool
  ai_retries :: nat
  ai_shouldResetTimeout :: bool
  ai_retryDelay :: "int \<Rightarrow> real \<Rightarrow> nat \<Rightarrow> axios_error \<Rightarrow> real"

definition createInstance :: "axios_env \<Rightarrow> axios_transport_config \<Rightarrow> axios_instance_config" where
  "createInstance xp config =
     \<lparr>ai_baseURL = ac_baseUrl config, ai_validateStatus = validateStatus,
      ai_maxContentLength = ac_maxResponseSizeBytes config,
      ai_maxBodyLength = ac_maxBodyLength config, ai_clarifyTimeoutError = True,
      ai_retries = rc_maxRetries (ac_retryConfig config), ai_shouldResetTimeout = True,
      ai_retryDelay = (\<lambda>now rnd. retry_delay (xp_date_parse xp) now rnd (ac_retryConfig config))\<rparr>"

text \<open>The three operations of the transport: \<^verbatim>\<open>request\<close>, \<^verbatim>\<open>upload\<close> and \<^verbatim>\<open>download\<close>.\<close>

definition createAxiosTransport ::
  "axios_env \<Rightarrow>
   (axios_instance_config \<Rightarrow> axios_request \<Rightarrow> ('x env_scheme, axios_exn, axios_response) io) \<Rightarrow>
   axios_transport_config \<Rightarrow>
   ('x env_scheme) transport \<times> ('x env_scheme, js_error, transport_response) io \<times>
   ('x env_scheme, js_error, unit) io" where
  "createAxiosTransport xp create config =
     (executeAxiosRequest xp (create (createInstance xp config)), notSupported, notSupported)"

text \<open>Every failure of the transport is a \<^verbatim>\<open>NetworkError\<close>.\<close>

lemma executeAxiosRequest_fails_network:
  "fst (executeAxiosRequest xp inst req s) = Inl e \<Longrightarrow> \<exists>ne. e = NetworkErr ne"
  by (auto simp: executeAxiosRequest_def split: prod.splits sum.splits)

section \<open>Properties\<close>

text \<open>
  Only idempotent requests are retried, and only for a lost connection, a timeout, a rate
  limit or a server error: where the retry condition of a method says yes, the method is GET,
  HEAD, OPTIONS or PUT (in any case), the error is neither a cancellation nor a response with a
  status below 429 (other than through a network failure or a timeout).
\<close>

theorem retry_only_idempotent:
  assumes "buildRetryCondition is_network_error meth error"
  shows "map js_upper_ascii_char meth \<in> {''GET'', ''HEAD'', ''OPTIONS'', ''PUT''} \<and>
    (\<exists>e. error = AxError e \<and>
      (is_network_error e \<or> ae_code e = Some ''ECONNABORTED'' \<or> ae_code e = Some ''ETIMEDOUT'' \<or>
       (\<exists>r. ae_response e = Some r \<and> \<not> validateStatus (ax_status r))))"
  using assms
  by (cases error)
     (auto simp: buildRetryCondition_def IDEMPOTENT_METHODS_def validateStatus_def
        split: if_splits option.splits)

theorem retry_only_idempotent_witness:
  "\<exists>e. AxError \<lparr>ae_code = Some ''ETIMEDOUT'', ae_message = None, ae_response = None\<rparr> = AxError e \<and>
      (False \<or> ae_code e = Some ''ECONNABORTED'' \<or> ae_code e = Some ''ETIMEDOUT'' \<or>
       (\<exists>r. ae_response e = Some r \<and> \<not> validateStatus (ax_status r)))"
proof -
  let ?e = "AxError \<lparr>ae_code = Some ''ETIMEDOUT'', ae_message = None, ae_response = None\<rparr>"
  have u: "map js_upper_ascii_char ''get'' = ''GET''" by code_simp
  have h: "buildRetryCondition (\<lambda>_. False) ''get'' ?e"
    unfolding buildRetryCondition_def u by (simp add: IDEMPOTENT_METHODS_def)
  show ?thesis using retry_only_idempotent [OF h] by blast
qed

text \<open>
  Without a Retry-After header the delay before retry \<open>n\<close> lies between the capped
  exponential delay and that delay with the whole jitter added; in particular it is never
  negative and never above the maximum delay times one plus the jitter factor.
\<close>

theorem retry_delay_bounds:
  assumes "extractRetryAfterMs date_parse now error (rc_maxDelayMs cfg) = None"
    and "0 \<le> rnd" and "rnd < 1" and "0 \<le> rc_jitterFactor cfg"
    and "0 \<le> rc_baseDelayMs cfg" and "0 \<le> rc_maxDelayMs cfg"
  shows "min (real_of_int (rc_baseDelayMs cfg) * 2 ^ n) (real_of_int (rc_maxDelayMs cfg))
           \<le> retry_delay date_parse now rnd cfg n error \<and>
         0 \<le> retry_delay date_parse now rnd cfg n error \<and>
         retry_delay date_parse now rnd cfg n error
           \<le> real_of_int (rc_maxDelayMs cfg) * (1 + rc_jitterFactor cfg)"
proof -
  let ?x = "min (real_of_int (rc_baseDelayMs cfg) * 2 ^ n) (real_of_int (rc_maxDelayMs cfg))"
  let ?j = "rnd * rc_jitterFactor cfg"
  have x: "0 \<le> ?x" "?x \<le> real_of_int (rc_maxDelayMs cfg)" using assms(5,6) by simp_all
  have j: "0 \<le> ?j" "?j \<le> rc_jitterFactor cfg"
    using assms(2-4) by (simp_all add: mult_left_le_one_le)
  have lo: "0 \<le> ?j * ?x" by (rule mult_nonneg_nonneg [OF j(1) x(1)])
  have "?j * ?x \<le> rc_jitterFactor cfg * real_of_int (rc_maxDelayMs cfg)"
    by (rule mult_mono [OF j(2) x(2) assms(4) x(1)])
  then have hi: "?x + ?j * ?x \<le> real_of_int (rc_maxDelayMs cfg) * (1 + rc_jitterFactor cfg)"
    using x by (simp add: algebra_simps)
  have "retry_delay date_parse now rnd cfg n error = ?x + ?j * ?x"
    using assms(1) by (simp add: retry_delay_def Let_def)
  with x lo hi show ?thesis by linarith
qed

theorem retry_delay_bounds_witness:
  "0 \<le> retry_delay (\<lambda>_. None) 0 (1 / 2) DEFAULT_RETRY_CONFIG 10
         \<lparr>ae_code = None, ae_message = None, ae_response = None\<rparr> \<and>
   retry_delay (\<lambda>_. None) 0 (1 / 2) DEFAULT_RETRY_CONFIG 10
         \<lparr>ae_code = None, ae_message = None, ae_response = None\<rparr> \<le> 13000"
proof -
  let ?e = "\<lparr>ae_code = None, ae_message = None, ae_response = None\<rparr>"
  have h: "extractRetryAfterMs (\<lambda>_. None) 0 ?e (rc_maxDelayMs DEFAULT_RETRY_CONFIG) = None"
    by (simp add: extractRetryAfterMs_def)
  show ?thesis
    using retry_delay_bounds [OF h, of "1 / 2" 10] by (simp add: DEFAULT_RETRY_CONFIG_def)
qed

text \<open>
  How a failed exchange is reported: the code of the mapped error for every kind of failure,
  a rate limit being the only one that carries a retry time, at most one minute.
\<close>

theorem mapped_error_code:
  "ne_code (mapToNetworkError date_parse now error) =
     (case error of
        AxNetworkError ne \<Rightarrow> ne_code ne
      | AxCancel \<Rightarrow> REQUEST_ABORTED
      | AxTypeError _ \<Rightarrow> NETWORK_OFFLINE
      | AxOther _ \<Rightarrow> CLIENT_ERROR
      | AxError e \<Rightarrow>
          if ae_code e = Some ''ECONNABORTED'' \<or> ae_code e = Some ''ETIMEDOUT'' then NETWORK_TIMEOUT
          else if ae_code e = Some ''ERR_NETWORK'' then NETWORK_OFFLINE
          else (case ae_response e of
                  None \<Rightarrow> CLIENT_ERROR
                | Some r \<Rightarrow> if ax_status r = 429 then RATE_LIMITED
                            else if 500 \<le> ax_status r then SERVER_ERROR else CLIENT_ERROR)) \<and>
   (\<forall>e. error = AxError e \<longrightarrow>
     (\<forall>ms. ne_retryAfterMs (mapToNetworkError date_parse now error) = Some ms \<longrightarrow>
        ms \<le> 60000 \<and> ne_code (mapToNetworkError date_parse now error) = RATE_LIMITED))"
  by (auto simp: mapToNetworkError_def mapAxiosError_def mapAxiosResponseError_def Let_def
      extractRetryAfterMs_def split: axios_exn.splits option.splits if_splits)

theorem mapped_error_code_witness:
  "ne_code (mapToNetworkError (\<lambda>_. None) 0 (AxError \<lparr>ae_code = None, ae_message = None,
      ae_response = Some \<lparr>ax_status = 429, ax_headers = [(''retry-after'', ''120'')],
        ax_data = JNull\<rparr>\<rparr>)) = RATE_LIMITED \<and>
   ne_retryAfterMs (mapToNetworkError (\<lambda>_. None) 0 (AxError \<lparr>ae_code = None, ae_message = None,
      ae_response = Some \<lparr>ax_status = 429, ax_headers = [(''retry-after'', ''120'')],
        ax_data = JNull\<rparr>\<rparr>)) = Some 60000"
proof -
  let ?e = "AxError \<lparr>ae_code = None, ae_message = None,
      ae_response = Some \<lparr>ax_status = 429, ax_headers = [(''retry-after'', ''120'')],
        ax_data = JNull\<rparr>\<rparr>"
  have p: "parseInt10 ''120'' = Some 120" by code_simp
  have r: "ne_retryAfterMs (mapToNetworkError (\<lambda>_. None) 0 ?e) = Some 60000"
    by (simp add: mapToNetworkError_def mapAxiosError_def mapAxiosResponseError_def
        extractRetryAfterMs_def p)
  show ?thesis using mapped_error_code [of "\<lambda>_. None" 0 ?e] r by simp
qed

end
