(* ===== verification/HttpClient.thy ===== *)
theory HttpClient
  imports TransportExecutor AxiosTransport UrlSafety
begin

text \<open>
  \<^verbatim>\<open>packages/network/src/http-client.ts\<close>: the client's configuration, one request through the
  interceptors and the transport with at most one retry after a token refresh, the mapping of
  error statuses, and the hand-over of offline requests to the queue. The queue is the client's
  \<^verbatim>\<open>requestQueue\<close>, of which only \<^verbatim>\<open>enqueue\<close> is used.
\<close>

definition DEFAULT_TIMEOUT_MS :: int where "DEFAULT_TIMEOUT_MS = 30000"
definition DEFAULT_MAX_RESPONSE_SIZE :: int where "DEFAULT_MAX_RESPONSE_SIZE = 10 * 1024 * 1024"
definition DEFAULT_MAX_REQUEST_BODY_SIZE :: int where
  "DEFAULT_MAX_REQUEST_BODY_SIZE = 50 * 1024 * 1024"

type_synonym 's enqueue_fn = "queued_request \<Rightarrow> ('s, js_error, unit) io"

record 's http_client_config =
  hc_baseUrl :: string
  hc_transport :: "'s transport option"
  hc_timeoutMs :: "int option"
  hc_maxResponseSizeBytes :: "int option"
  hc_maxRequestBodySizeBytes :: "int option"
  hc_interceptors :: "'s interceptor list"
  hc_retryConfig :: "retry_config option"
  hc_headers :: "string js_record option"
  hc_httpsAllowlist :: "string list option"
  hc_isProduction :: "bool option"
  hc_requestQueue :: "'s enqueue_fn option"

record 's client_internals =
  ci_timeoutMs :: int
  ci_maxRequestBodySizeBytes :: int
  ci_baseUrl :: "string option"
  ci_defaultHeaders :: "string js_record option"
  ci_transport :: "'s transport"
  ci_interceptors :: "'s interceptor list"
  ci_requestQueue :: "'s enqueue_fn option"

record 's request_context =
  cx_internals :: "'s client_internals"
  cx_method :: string
  cx_url :: string
  cx_options :: "request_options option"
  cx_authRetried :: bool
  cx_hasProgress :: bool

definition or_default :: "'a option \<Rightarrow> 'a \<Rightarrow> 'a" where
  "or_default x d = (case x of None \<Rightarrow> d | Some a \<Rightarrow> a)"

lemma or_default_simps [simp]: "or_default None d = d" "or_default (Some a) d = a"
  by (simp_all add: or_default_def)

section \<open>Building the client\<close>

definition buildInternals ::
  "(string \<Rightarrow> (string \<times> string) option) \<Rightarrow> (axios_transport_config \<Rightarrow> ('x env_scheme) transport) \<Rightarrow>
   ('x env_scheme) http_client_config \<Rightarrow>
   ('x env_scheme, js_error, ('x env_scheme) client_internals) io" where
  "buildInternals parse_url axios config =
     (let timeoutMs = or_default (hc_timeoutMs config) DEFAULT_TIMEOUT_MS;
          maxBody = or_default (hc_maxRequestBodySizeBytes config) DEFAULT_MAX_REQUEST_BODY_SIZE;
          isProduction = or_default (hc_isProduction config) False
      in io_then
        (case hc_transport config of
           Some _ \<Rightarrow> io_return ()
         | None \<Rightarrow>
             (case createHttpsValidator parse_url
                     \<lparr>hv_allowlist = or_default (hc_httpsAllowlist config) [],
                      hv_isProduction = isProduction\<rparr> of
                Inl e \<Rightarrow> io_throw e
              | Inr validateHttps \<Rightarrow>
                  if hc_baseUrl config \<noteq> [] then validateHttps (hc_baseUrl config)
                  else io_return ()))
        (io_return
          \<lparr>ci_timeoutMs = timeoutMs, ci_maxRequestBodySizeBytes = maxBody,
           ci_baseUrl = Some (hc_baseUrl config), ci_defaultHeaders = hc_headers config,
           ci_transport =
             (case hc_transport config of
                Some tr \<Rightarrow> tr
              | None \<Rightarrow> axios
                  \<lparr>ac_baseUrl = hc_baseUrl config,
                   ac_maxResponseSizeBytes =
                     or_default (hc_maxResponseSizeBytes config) DEFAULT_MAX_RESPONSE_SIZE,
                   ac_maxBodyLength = maxBody,
                   ac_retryConfig = or_default (hc_retryConfig config) DEFAULT_RETRY_CONFIG\<rparr>),
           ci_interceptors = hc_interceptors config,
           ci_requestQueue = hc_requestQueue config\<rparr>))"

section \<open>One request\<close>

text \<open>\<^verbatim>\<open>mapProgress\<close>: \<^verbatim>\<open>Math.round(x)\<close> is \<open>\<lfloor>x + 1/2\<rfloor>\<close>.\<close>

definition mapProgress :: "int \<Rightarrow> int \<Rightarrow> upload_progress" where
  "mapProgress loaded ttl =
     \<lparr>up_bytesSent = loaded, up_bytesTotal = ttl,
      up_percentage =
        (if ttl > 0 then \<lfloor>real_of_int loaded / real_of_int ttl * 100 + 1 / 2\<rfloor> else 0)\<rparr>"

definition strip_trailing_slash :: "string \<Rightarrow> string" where
  "strip_trailing_slash s = (if s \<noteq> [] \<and> last s = CHR ''/'' then butlast s else s)"

definition strip_leading_slash :: "string \<Rightarrow> string" where
  "strip_leading_slash s = (case s of [] \<Rightarrow> [] | c # cs \<Rightarrow> if c = CHR ''/'' then cs else s)"

definition full_url :: "string option \<Rightarrow> string \<Rightarrow> string" where
  "full_url baseUrl url =
     (case baseUrl of
        Some b \<Rightarrow> if b \<noteq> [] then strip_trailing_slash b @ ''/'' @ strip_leading_slash url else url
      | None \<Rightarrow> url)"

definition opt_headers :: "request_options option \<Rightarrow> string js_record" where
  "opt_headers options =
     (case options of None \<Rightarrow> [] | Some ro \<Rightarrow> or_default (ro_headers ro) [])"

definition opt_body :: "request_options option \<Rightarrow> js_value" where
  "opt_body options = (case options of None \<Rightarrow> JUndefined | Some ro \<Rightarrow> ro_body ro)"

definition buildInterceptedRequest ::
  "('x env_scheme) request_context \<Rightarrow> ('x env_scheme, js_error, intercepted_request) io" where
  "buildInterceptedRequest context =
     (let internals = cx_internals context;
          request = \<lparr>rq_url = full_url (ci_baseUrl internals) (cx_url context),
                     rq_method = cx_method context,
                     rq_headers = spread (or_default (ci_defaultHeaders internals) [])
                                    (opt_headers (cx_options context)),
                     rq_body = opt_body (cx_options context)\<rparr>
      in if ci_interceptors internals = [] then io_return request
         else runRequestInterceptors (ci_interceptors internals) request)"

definition error_of_status :: "int \<Rightarrow> js_value \<Rightarrow> string \<Rightarrow> network_error option" where
  "error_of_status status body url =
     (let mk = (\<lambda>code msg. (network_error_of code msg)
                  \<lparr>ne_status := Some status, ne_responseBody := body\<rparr>) in
      if 200 \<le> status \<and> status < 300 then None
      else if status = 401
      then Some ((mk AUTH_EXPIRED ''Unauthorized'')\<lparr>ne_requestUrl := Some url\<rparr>)
      else if status = 403 then Some (mk FORBIDDEN ''Forbidden'')
      else if 400 \<le> status \<and> status < 500
      then Some (mk CLIENT_ERROR (''Client error: '' @ int_str status))
      else if status \<ge> 500 then Some (mk SERVER_ERROR (''Server error: '' @ int_str status))
      else None)"

definition throwOnErrorStatus ::
  "int \<Rightarrow> js_value \<Rightarrow> string \<Rightarrow> ('x env_scheme, js_error, unit) io" where
  "throwOnErrorStatus status body url =
     io_then
       (if status \<ge> 400
        then emit_log LWarning ''HTTP error response'' ''network''
               [(''status'', JNum status), (''url'', JStr url)]
        else io_return ())
       (case error_of_status status body url of
          None \<Rightarrow> io_return ()
        | Some ne \<Rightarrow> io_throw (NetworkErr ne))"

definition handleError ::
  "('x env_scheme) client_internals \<Rightarrow> js_error \<Rightarrow> ('x env_scheme, js_error, network_error) io" where
  "handleError internals error =
     (let ne = (case error of
                  NetworkErr e \<Rightarrow> e
                | JsErr m \<Rightarrow> network_error_of CLIENT_ERROR (or_default m ''Unexpected error''))
      in if ci_interceptors internals \<noteq> [] then runErrorInterceptors (ci_interceptors internals) ne
         else io_return ne)"

definition transport_input_of ::
  "('x env_scheme) request_context \<Rightarrow> intercepted_request \<Rightarrow> ('x env_scheme) transport_input" where
  "transport_input_of context req =
     (let internals = cx_internals context; options = cx_options context in
      \<lparr>ti_transport = ci_transport internals, ti_request = req,
       ti_timeoutMs =
         (case options of None \<Rightarrow> ci_timeoutMs internals
          | Some ro \<Rightarrow> or_default (ro_timeoutMs ro) (ci_timeoutMs internals)),
       ti_interceptors = ci_interceptors internals,
       ti_signal = (case options of None \<Rightarrow> None | Some ro \<Rightarrow> ro_signal ro),
       ti_query = (case options of None \<Rightarrow> None | Some ro \<Rightarrow> ro_query ro),
       ti_hasProgress = cx_hasProgress context\<rparr>)"

text \<open>The body of the \<^verbatim>\<open>try\<close> of \<^verbatim>\<open>executeSingleRequest\<close>.\<close>

definition send_once ::
  "(js_value \<Rightarrow> string) \<Rightarrow> ('x env_scheme) request_context \<Rightarrow> intercepted_request \<Rightarrow>
   ('x env_scheme, js_error, http_response) io" where
  "send_once stringify context req =
     io_bind (executeTransportRequest stringify (transport_input_of context req)) (\<lambda>response.
       io_then (throwOnErrorStatus (hr_status response) (hr_body response) (rq_url req))
         (io_return response))"

function executeSingleRequest ::
  "(js_value \<Rightarrow> string) \<Rightarrow> ('x env_scheme) request_context \<Rightarrow>
   ('x env_scheme, js_error, http_response) io" where
  "executeSingleRequest stringify context =
     io_bind (buildInterceptedRequest context) (\<lambda>req.
       io_catch (send_once stringify context req) (\<lambda>error.
         io_bind (handleError (cx_internals context) error) (\<lambda>handled.
           if ne_shouldRetry handled = Some True \<and> \<not> cx_authRetried context
           then executeSingleRequest stringify (context\<lparr>cx_authRetried := True\<rparr>)
           else io_throw (NetworkErr handled))))"
  by pat_completeness auto
termination
  by (relation "measure (\<lambda>(_, context). if cx_authRetried context then 0 else 1)") auto

declare executeSingleRequest.simps [simp del]

section \<open>The entry point\<close>

definition validateRequestBodySize ::
  "(js_value \<Rightarrow> string) \<Rightarrow> js_value \<Rightarrow> int \<Rightarrow> network_error option" where
  "validateRequestBodySize stringify body maxSize =
     (case body of
        JUndefined \<Rightarrow> None
      | JNull \<Rightarrow> None
      | JFormData _ \<Rightarrow> None
      | _ \<Rightarrow>
          let byteSize = int (utf8_length (stringify body)) in
          if byteSize > maxSize
          then Some (network_error_of CLIENT_ERROR
                 (''Request body exceeds max size of '' @ int_str maxSize @ '' bytes (got '' @
                  int_str byteSize @ '')''))
          else None)"

definition shouldEnqueue ::
  "('x env_scheme) client_internals \<Rightarrow> js_error \<Rightarrow> request_options option \<Rightarrow> bool" where
  "shouldEnqueue internals error options =
     (if ci_requestQueue internals = None \<or>
         (case options of None \<Rightarrow> True | Some ro \<Rightarrow> ro_offlineQueue ro \<noteq> Some True)
      then False
      else (case error of NetworkErr ne \<Rightarrow> ne_code ne = NETWORK_OFFLINE | JsErr _ \<Rightarrow> False))"

definition queued_of ::
  "('x env_scheme) request_context \<Rightarrow> string \<Rightarrow> int \<Rightarrow> queued_request" where
  "queued_of context url now =
     \<lparr>qr_id = None, qr_method = cx_method context, qr_url = url,
      qr_body = opt_body (cx_options context),
      qr_headers = (case cx_options context of None \<Rightarrow> None | Some ro \<Rightarrow> ro_headers ro),
      qr_enqueuedAt = now, qr_timeToLiveMs = 3600000\<rparr>"

definition enqueueFailedRequest ::
  "('x env_scheme) client_internals \<Rightarrow> ('x env_scheme) request_context \<Rightarrow> string \<Rightarrow>
   ('x env_scheme, js_error, unit) io" where
  "enqueueFailedRequest internals context url =
     (case ci_requestQueue internals of
        None \<Rightarrow> io_throw (JsErr None)
      | Some enqueue \<Rightarrow> io_bind (io_gets env_now) (\<lambda>now. enqueue (queued_of context url now)))"

definition executeRequest ::
  "(js_value \<Rightarrow> string) \<Rightarrow> ('x env_scheme) request_context \<Rightarrow>
   ('x env_scheme, js_error, http_response) io" where
  "executeRequest stringify context =
     (let internals = cx_internals context; options = cx_options context in
      case interpolatePathParams (cx_url context)
             (case options of None \<Rightarrow> None | Some ro \<Rightarrow> ro_params ro) of
        Inl ne \<Rightarrow> io_throw (NetworkErr ne)
      | Inr path \<Rightarrow>
          (case validateRequestBodySize stringify (opt_body options)
                  (ci_maxRequestBodySizeBytes internals) of
             Some ne \<Rightarrow> io_throw (NetworkErr ne)
           | None \<Rightarrow>
               io_catch (executeSingleRequest stringify (context\<lparr>cx_url := path\<rparr>)) (\<lambda>error.
                 io_then
                   (if shouldEnqueue internals error options
                    then enqueueFailedRequest internals context path else io_return ())
                   (io_throw error))))"

text \<open>The methods of the client differ in the method name and the options only.\<close>

definition client_context ::
  "('x env_scheme) client_internals \<Rightarrow> string \<Rightarrow> string \<Rightarrow> request_options option \<Rightarrow> bool \<Rightarrow>
   ('x env_scheme) request_context" where
  "client_context internals meth url options hasProgress =
     \<lparr>cx_internals = internals, cx_method = meth, cx_url = url, cx_options = options,
      cx_authRetried = False, cx_hasProgress = hasProgress\<rparr>"

definition empty_options :: request_options where
  "empty_options =
     \<lparr>ro_params = None, ro_query = None, ro_headers = None, ro_timeoutMs = None, ro_signal = None,
      ro_offlineQueue = None, ro_retryable = None, ro_body = JUndefined\<rparr>"

definition client_get where
  "client_get stringify internals url opts =
     executeRequest stringify (client_context internals ''GET'' url opts False)"
definition client_head where
  "client_head stringify internals url opts =
     executeRequest stringify (client_context internals ''HEAD'' url opts False)"
definition client_post where
  "client_post stringify internals url opts =
     executeRequest stringify (client_context internals ''POST'' url opts False)"
definition client_put where
  "client_put stringify internals url opts =
     executeRequest stringify (client_context internals ''PUT'' url opts False)"
definition client_patch where
  "client_patch stringify internals url opts =
     executeRequest stringify (client_context internals ''PATCH'' url opts False)"
definition client_delete where
  "client_delete stringify internals url opts =
     executeRequest stringify (client_context internals ''DELETE'' url opts False)"
definition client_upload where
  "client_upload stringify internals url formData opts hasProgress =
     executeRequest stringify
       (client_context internals ''POST'' url
          (Some ((or_default opts empty_options)\<lparr>ro_body := formData\<rparr>)) hasProgress)"

section \<open>How often the transport is called\<close>

text \<open>A counter of the state that only the transport raises, by one per call.\<close>

definition counts_transport ::
  "('x env_scheme \<Rightarrow> nat) \<Rightarrow> ('x env_scheme) client_internals \<Rightarrow> bool" where
  "counts_transport meter internals =
     ((\<forall>n. log_independent (\<lambda>s. meter s \<le> n)) \<and>
      (\<forall>n. ics_keep (\<lambda>s. meter s \<le> n) (ci_interceptors internals)) \<and>
      (\<forall>r. grows meter 1 (ci_transport internals r)))"

lemma grows_executeTransportRequest:
  assumes "\<And>n. log_independent (\<lambda>s. meter s \<le> n)"
    and "\<And>n. ics_keep (\<lambda>s. meter s \<le> n) (ti_interceptors input)"
    and "\<And>r. grows meter 1 (ti_transport input r)"
  shows "grows meter 1 (executeTransportRequest stringify input)"
proof -
  let ?resp = "\<lambda>startMs response.
     let intercepted = \<lparr>rs_status = tp_status response, rs_headers = tp_headers response,
                        rs_body = tp_body response, rs_url = rq_url (ti_request input)\<rparr> in
     io_bind (if ti_interceptors input \<noteq> []
              then runResponseInterceptors (ti_interceptors input) intercepted
              else io_return intercepted) (\<lambda>final.
       io_then (logIncomingResponse stringify (ti_request input) final startMs)
         (io_return \<lparr>hr_status = rs_status final, hr_headers = rs_headers final,
                     hr_body = rs_body final\<rparr>))"
  have r: "grows meter 0 (?resp startMs response)" for startMs response
    unfolding Let_def by (intro grows_of_keeps keeps_intros assms)
  have body: "grows meter (1 + 0) (io_bind (ti_transport input q) (?resp startMs))" for q startMs
    by (rule grows_bind [OF assms(3) r])
  have fail: "grows meter 0 (io_then (logRequestFailure stringify (ti_request input) error startMs)
                (io_throw error))" for error startMs
    by (intro grows_of_keeps keeps_intros assms)
  have out: "grows meter 0 (logOutgoingRequest stringify (ti_request input))"
    by (intro grows_of_keeps keeps_intros assms)
  have "grows meter (0 + (0 + ((1 + 0) + 0))) (executeTransportRequest stringify input)"
    unfolding executeTransportRequest_def Let_def
    by (rule grows_then grows_bind grows_gets grows_catch out fail body [unfolded Let_def])+
  then show ?thesis by simp
qed

lemma grows_send_once:
  assumes "counts_transport meter (cx_internals context)"
  shows "grows meter 1 (send_once stringify context req)"
proof -
  have li: "log_independent (\<lambda>s. meter s \<le> n)" for n
    using assms by (simp add: counts_transport_def)
  have tr: "grows meter 1 (executeTransportRequest stringify (transport_input_of context req))"
    using assms
    by (intro grows_executeTransportRequest) (auto simp: counts_transport_def transport_input_of_def Let_def)
  have rest: "grows meter 0 (io_then (throwOnErrorStatus (hr_status response) (hr_body response)
                (rq_url req)) (io_return response))" for response
    unfolding throwOnErrorStatus_def by (intro grows_of_keeps keeps_intros li)
  show ?thesis
    unfolding send_once_def using grows_bind [OF tr rest] by simp
qed

lemma grows_step:
  assumes "counts_transport meter (cx_internals context)"
    and "\<And>handled. grows meter k (f handled)"
  shows "grows meter (Suc k) (io_bind (buildInterceptedRequest context) (\<lambda>req.
           io_catch (send_once stringify context req) (\<lambda>error.
             io_bind (handleError (cx_internals context) error) f)))"
proof -
  have li: "log_independent (\<lambda>s. meter s \<le> n)"
    and ik: "ics_keep (\<lambda>s. meter s \<le> n) (ci_interceptors (cx_internals context))" for n
    using assms(1) by (simp_all add: counts_transport_def)
  have b: "grows meter 0 (buildInterceptedRequest context)"
    unfolding buildInterceptedRequest_def Let_def
    by (intro grows_of_keeps keeps_intros li ik)
  have h: "grows meter 0 (handleError (cx_internals context) error)" for error
    unfolding handleError_def Let_def by (intro grows_of_keeps keeps_intros ik)
  show ?thesis
    using grows_bind [OF b grows_catch [OF grows_send_once [OF assms(1)]
            grows_bind [OF h assms(2)]]]
    by simp
qed

text \<open>
  A request reaches the transport at most twice: once, and once more only when an error
  interceptor asked for a retry. For any counter of the state that each transport call raises by
  at most one and that logging and the interceptors leave alone, a request raises it by at most
  two, and by at most one when it is itself the retry.
\<close>

theorem at_most_two_transport_calls:
  assumes "counts_transport meter (cx_internals context)"
  shows "meter (snd (executeSingleRequest stringify context s))
           \<le> meter s + (if cx_authRetried context then 1 else 2)"
proof -
  have one: "grows meter 1 (executeSingleRequest stringify c)"
    if "counts_transport meter (cx_internals c)" and "cx_authRetried c" for c
    using grows_step [OF that(1) grows_throw] that(2)
    by (subst executeSingleRequest.simps) simp
  show ?thesis
  proof (cases "cx_authRetried context")
    case True
    with one [OF assms] show ?thesis by (simp add: grows_def)
  next
    case False
    have "grows meter 1 (if ne_shouldRetry handled = Some True \<and> \<not> cx_authRetried context
            then executeSingleRequest stringify (context\<lparr>cx_authRetried := True\<rparr>)
            else io_throw (NetworkErr handled))" for handled
      using one [of "context\<lparr>cx_authRetried := True\<rparr>"] assms
      by (auto simp: grows_def io_simps)
    from grows_step [OF assms this]
    have "grows meter (Suc 1) (executeSingleRequest stringify context)"
      by (subst executeSingleRequest.simps)
    with False show ?thesis by (simp add: grows_def)
  qed
qed

text \<open>A state that counts, and a transport that always answers 401.\<close>

record counting_env = env +
  ce_calls :: nat

definition unauthorized_transport :: "counting_env transport" where
  "unauthorized_transport = (\<lambda>_ s.
     (Inr \<lparr>tp_status = 401, tp_headers = [], tp_body = JNull\<rparr>, s\<lparr>ce_calls := ce_calls s + 1\<rparr>))"

definition always_retry :: "counting_env interceptor" where
  "always_retry =
     \<lparr>ic_name = ''retry'', ic_onRequest = None, ic_onResponse = None,
      ic_onError = Some (\<lambda>ne. io_return (ne\<lparr>ne_shouldRetry := Some True\<rparr>))\<rparr>"

definition counting_internals :: "counting_env client_internals" where
  "counting_internals =
     \<lparr>ci_timeoutMs = 1, ci_maxRequestBodySizeBytes = 1, ci_baseUrl = None,
      ci_defaultHeaders = None, ci_transport = unauthorized_transport,
      ci_interceptors = [always_retry], ci_requestQueue = None\<rparr>"

lemma counting_internals_counts: "counts_transport ce_calls counting_internals"
  by (auto simp: counts_transport_def counting_internals_def log_independent_def ics_keep_def
      always_retry_def unauthorized_transport_def grows_def intro!: keeps_intros)

theorem at_most_two_transport_calls_witness:
  "ce_calls (snd (executeSingleRequest (\<lambda>_. [])
      (client_context counting_internals ''GET'' ''/me'' None False)
      \<lparr>env_now = 0, env_log = [], ce_calls = 0\<rparr>)) \<le> 2"
proof -
  let ?c = "client_context counting_internals ''GET'' ''/me'' None False"
  have h: "counts_transport ce_calls (cx_internals ?c)"
    by (simp add: client_context_def counting_internals_counts)
  show ?thesis
    using at_most_two_transport_calls [OF h, of "\<lambda>_. []" "\<lparr>env_now = 0, env_log = [], ce_calls = 0\<rparr>"]
    by (simp add: client_context_def)
qed

section \<open>Which answers are errors\<close>

lemma executeTransportRequest_plain:
  assumes "ti_interceptors input = []"
    and "\<And>s. fst (ti_transport input (transport_request_of input) s) = Inr response"
  shows "fst (executeTransportRequest stringify input s)
     = Inr \<lparr>hr_status = tp_status response, hr_headers = tp_headers response,
            hr_body = tp_body response\<rparr>"
proof -
  obtain t where "ti_transport input (transport_request_of input)
       (s\<lparr>env_log := env_log (s) @ [log_entry_of LInfo ''>> HTTP request'' ''network''
          [(''method'', JStr (rq_method (ti_request input))),
           (''url'', JStr (rq_url (ti_request input))),
           (''headers'', jheaders (maskSensitiveHeaders (rq_headers (ti_request input)))),
           (''body'', truncateBody stringify (rq_body (ti_request input)))]]\<rparr>) = (Inr response, t)"
    by (metis assms(2) prod.collapse)
  with assms(1) show ?thesis
    by (simp add: executeTransportRequest_def io_simps logOutgoingRequest_def
        logIncomingResponse_def Let_def)
qed

text \<open>
  C5. The status decides the outcome. Over a transport that answers, and without interceptors, a
  request succeeds with the transport's response for every status below 400, and otherwise fails
  with a \<^verbatim>\<open>NetworkError\<close> that carries the status and the body: \<open>AUTH_EXPIRED\<close> for 401,
  \<open>FORBIDDEN\<close> for 403, \<open>CLIENT_ERROR\<close> for the other 4xx and \<open>SERVER_ERROR\<close> from 500 on.
\<close>

theorem status_decides_outcome:
  assumes "ci_interceptors (cx_internals context) = []"
    and "\<And>r s. fst (ci_transport (cx_internals context) r s) = Inr response"
  shows "(case fst (executeSingleRequest stringify context s) of
      Inr r \<Rightarrow> tp_status response < 400 \<and> hr_status r = tp_status response \<and>
        hr_headers r = tp_headers response \<and> hr_body r = tp_body response
    | Inl (NetworkErr ne) \<Rightarrow> 400 \<le> tp_status response \<and>
        ne_status ne = Some (tp_status response) \<and> ne_responseBody ne = tp_body response \<and>
        ne_code ne = (if tp_status response = 401 then AUTH_EXPIRED
                      else if tp_status response = 403 then FORBIDDEN
                      else if tp_status response < 500 then CLIENT_ERROR else SERVER_ERROR)
    | Inl (JsErr m) \<Rightarrow> False)"
proof -
  obtain req where b: "buildInterceptedRequest context = io_return req"
    using assms(1) by (simp add: buildInterceptedRequest_def Let_def)
  have "fst (executeTransportRequest stringify (transport_input_of context req) s)
     = Inr \<lparr>hr_status = tp_status response, hr_headers = tp_headers response,
            hr_body = tp_body response\<rparr>" for s
    by (rule executeTransportRequest_plain)
       (simp_all add: transport_input_of_def Let_def assms)
  then obtain t where "executeTransportRequest stringify (transport_input_of context req) s
     = (Inr \<lparr>hr_status = tp_status response, hr_headers = tp_headers response,
            hr_body = tp_body response\<rparr>, t)"
    by (metis prod.collapse)
  then have "fst (send_once stringify context req s) =
     (case error_of_status (tp_status response) (tp_body response) (rq_url req) of
        None \<Rightarrow> Inr \<lparr>hr_status = tp_status response, hr_headers = tp_headers response,
                   hr_body = tp_body response\<rparr>
      | Some ne \<Rightarrow> Inl (NetworkErr ne))"
    by (auto simp: send_once_def throwOnErrorStatus_def io_simps split: option.splits)
  then show ?thesis
    using assms(1) b
    by (subst executeSingleRequest.simps)
       (auto simp: io_simps handleError_def error_of_status_def network_error_of_def Let_def
         split: prod.splits if_splits option.splits sum.splits)
qed

definition teapot_internals :: "env client_internals" where
  "teapot_internals =
     \<lparr>ci_timeoutMs = 1, ci_maxRequestBodySizeBytes = 1, ci_baseUrl = None,
      ci_defaultHeaders = None,
      ci_transport = (\<lambda>_. io_return \<lparr>tp_status = 418, tp_headers = [], tp_body = JStr ''tea''\<rparr>),
      ci_interceptors = [], ci_requestQueue = None\<rparr>"

theorem status_decides_outcome_witness:
  "case fst (executeSingleRequest (\<lambda>_. []) (client_context teapot_internals ''GET'' ''/tea'' None False)
      \<lparr>env_now = 0, env_log = []\<rparr>) of
      Inr r \<Rightarrow> False
    | Inl (NetworkErr ne) \<Rightarrow> ne_status ne = Some 418 \<and> ne_code ne = CLIENT_ERROR
    | Inl (JsErr m) \<Rightarrow> False"
proof -
  let ?c = "client_context teapot_internals ''GET'' ''/tea'' None False"
  have i: "ci_interceptors (cx_internals ?c) = []"
    by (simp add: client_context_def teapot_internals_def)
  have t: "fst (ci_transport (cx_internals ?c) r s)
      = Inr \<lparr>tp_status = 418, tp_headers = [], tp_body = JStr ''tea''\<rparr>" for r s
    by (simp add: client_context_def teapot_internals_def io_simps)
  show ?thesis
    using status_decides_outcome [OF i t, of "\<lambda>_. []" "\<lparr>env_now = 0, env_log = []\<rparr>"]
    by (simp split: sum.splits js_error.splits)
qed

section \<open>HTTPS at construction\<close>

text \<open>
  C2. A client built for production with the default transport and a base URL talks HTTPS: its
  construction fails unless the base URL parses with the protocol \<open>https:\<close>.
\<close>

theorem production_client_uses_https:
  assumes "fst (buildInternals parse_url axios config s) = Inr internals"
    and "hc_transport config = None" and "hc_baseUrl config \<noteq> []"
    and "hc_isProduction config = Some True"
  shows "\<exists>hostname. parse_url (hc_baseUrl config) = Some (''https:'', hostname)"
  using assms
  by (auto simp: buildInternals_def Let_def createHttpsValidator_def enforceHttps_def io_simps
      split: sum.splits if_splits option.splits)

definition production_config :: "env http_client_config" where
  "production_config =
     \<lparr>hc_baseUrl = ''https://a.ion'', hc_transport = None, hc_timeoutMs = None,
      hc_maxResponseSizeBytes = None, hc_maxRequestBodySizeBytes = None, hc_interceptors = [],
      hc_retryConfig = None, hc_headers = None, hc_httpsAllowlist = None,
      hc_isProduction = Some True, hc_requestQueue = None\<rparr>"

theorem production_client_uses_https_witness:
  "\<exists>hostname. (\<lambda>u. if u = ''https://a.ion'' then Some (''https:'', ''a.ion'') else None)
      (hc_baseUrl production_config) = Some (''https:'', hostname)"
proof -
  let ?parse = "\<lambda>u. if u = ''https://a.ion'' then Some (''https:'', ''a.ion'') else None"
  let ?axios = "\<lambda>_ _. io_return \<lparr>tp_status = 200, tp_headers = [], tp_body = JNull\<rparr>"
  obtain i where i: "fst (buildInternals ?parse ?axios production_config
      \<lparr>env_now = 0, env_log = []\<rparr>) = Inr i"
    by (simp add: buildInternals_def production_config_def Let_def createHttpsValidator_def
        enforceHttps_def io_simps)
  show ?thesis
    by (rule production_client_uses_https [OF i]) (simp_all add: production_config_def)
qed

text \<open>Without a base URL nothing is checked, whatever the mode.\<close>

lemma empty_base_url_is_not_checked:
  "hc_baseUrl config = [] \<Longrightarrow> hc_httpsAllowlist config = None \<Longrightarrow>
   \<exists>internals. buildInternals parse_url axios config s = (Inr internals, s)"
  by (simp add: buildInternals_def Let_def createHttpsValidator_def io_simps
      split: option.splits)

lemma mapProgress_percentage:
  assumes "0 \<le> loaded" and "loaded \<le> ttl"
  shows "0 \<le> up_percentage (mapProgress loaded ttl) \<and> up_percentage (mapProgress loaded ttl) \<le> 100"
proof (cases "0 < ttl")
  case True
  have "real_of_int loaded / real_of_int ttl \<le> 1" and "0 \<le> real_of_int loaded / real_of_int ttl"
    using assms True by simp_all
  then have "0 \<le> real_of_int loaded / real_of_int ttl * 100 + 1 / 2"
    and "real_of_int loaded / real_of_int ttl * 100 + 1 / 2 < 101" by simp_all
  with True show ?thesis by (simp add: mapProgress_def le_floor_iff floor_le_iff)
qed (simp add: mapProgress_def)

end
