(* ===== verification/RequestQueue.thy ===== *)
theory RequestQueue
  imports HttpClient
begin

text \<open>
  \<^verbatim>\<open>packages/network/src/request-queue.ts\<close>: the offline queue. Its storage and the function
  that replays one request are given by the configuration, so they are parameters here; the
  handlers of the four events are sets of handler identities, and a call of a handler is an entry
  of the event trace of the state. \<open>uuid\<close> gives the identifiers of \<^verbatim>\<open>crypto.randomUUID\<close>,
  \<open>wait\<close> is the timer behind \<^verbatim>\<open>delay\<close>.
\<close>

record replay_result =
  rr_total :: nat
  rr_succeeded :: nat
  rr_failed :: nat
  rr_expired :: nat

datatype queue_event =
    QueueChanged nat int
  | ReplayStarted nat
  | ReplayCompleted nat replay_result
  | ReplayItemFailed nat queued_request network_error

record queue_env = env +
  qe_events :: "queue_event list"
  qe_uuids :: nat

record 's queue_storage =
  qs_load :: "('s, js_error, queued_request list) io"
  qs_save :: "queued_request list \<Rightarrow> ('s, js_error, unit) io"
  qs_clear :: "('s, js_error, unit) io"

record 's queue_config =
  qc_maxSize :: nat
  qc_defaultTimeToLiveMs :: int
  qc_replayDelayMs :: int
  qc_storage :: "'s queue_storage"
  qc_replayFn :: "queued_request \<Rightarrow> ('s, js_error, unit) io"
  qc_uuid :: "nat \<Rightarrow> string"
  qc_wait :: "int \<Rightarrow> ('s, js_error, unit) io"

record queue_handlers =
  qh_queueChanged :: "nat list"
  qh_replayStarted :: "nat list"
  qh_replayCompleted :: "nat list"
  qh_replayItemFailed :: "nat list"

definition createEventHandlers :: queue_handlers where
  "createEventHandlers =
     \<lparr>qh_queueChanged = [], qh_replayStarted = [], qh_replayCompleted = [],
      qh_replayItemFailed = []\<rparr>"

definition emit_all :: "queue_event list \<Rightarrow> ('x queue_env_scheme, js_error, unit) io" where
  "emit_all evs = io_modify (\<lambda>s. s\<lparr>qe_events := qe_events s @ evs\<rparr>)"

lemma emit_all_simp [io_simps]: "emit_all evs s = (Inr (), s\<lparr>qe_events := qe_events s @ evs\<rparr>)"
  by (simp add: emit_all_def io_simps)

section \<open>Enqueue, size and clear\<close>

definition SENSITIVE_QUEUE_HEADERS :: "string list" where
  "SENSITIVE_QUEUE_HEADERS = [''authorization'', ''cookie'', ''proxy-authorization'']"

definition is_sensitive_header :: "string \<Rightarrow> bool" where
  "is_sensitive_header key = (js_lower key \<in> set SENSITIVE_QUEUE_HEADERS)"

definition stripSensitiveHeaders :: "string js_record option \<Rightarrow> string js_record option" where
  "stripSensitiveHeaders headers =
     (case headers of
        None \<Rightarrow> None
      | Some hs \<Rightarrow> Some (filter (\<lambda>(key, v). \<not> is_sensitive_header key) hs))"

definition sanitize_request :: "(nat \<Rightarrow> string) \<Rightarrow> nat \<Rightarrow> queued_request \<Rightarrow> queued_request" where
  "sanitize_request uuid n request =
     request\<lparr>qr_id := Some (uuid n), qr_headers := stripSensitiveHeaders (qr_headers request)\<rparr>"

text \<open>\<^verbatim>\<open>items.shift()\<close> of an empty list is harmless, as \<^const>\<open>tl\<close> is.\<close>

definition push_bounded :: "nat \<Rightarrow> queued_request list \<Rightarrow> queued_request \<Rightarrow> queued_request list" where
  "push_bounded maxSize items r = (if length items \<ge> maxSize then tl items else items) @ [r]"

definition enqueueRequest ::
  "('x queue_env_scheme) queue_config \<Rightarrow> queue_handlers \<Rightarrow> queued_request \<Rightarrow>
   ('x queue_env_scheme, js_error, unit) io" where
  "enqueueRequest config handlers request =
     io_bind (io_gets qe_uuids) (\<lambda>n.
     io_then (io_modify (\<lambda>s. s\<lparr>qe_uuids := qe_uuids s + 1\<rparr>))
     (let sanitized = sanitize_request (qc_uuid config) n request in
      io_bind (qs_load (qc_storage config)) (\<lambda>items.
        let items' = push_bounded (qc_maxSize config) items sanitized in
        io_then (qs_save (qc_storage config) items')
          (emit_all (map (\<lambda>h. QueueChanged h (int (length items')))
                         (qh_queueChanged handlers))))))"

definition getQueueSize ::
  "'s queue_storage \<Rightarrow> ('s, js_error, nat) io" where
  "getQueueSize storage = io_bind (qs_load storage) (\<lambda>items. io_return (length items))"

definition clearQueue ::
  "('x queue_env_scheme) queue_storage \<Rightarrow> queue_handlers \<Rightarrow>
   ('x queue_env_scheme, js_error, unit) io" where
  "clearQueue storage handlers =
     io_then (qs_clear storage) (emit_all (map (\<lambda>h. QueueChanged h 0) (qh_queueChanged handlers)))"

section \<open>Replay\<close>

definition queue_isExpired :: "int \<Rightarrow> queued_request \<Rightarrow> bool" where
  "queue_isExpired now request = (now - qr_enqueuedAt request > qr_timeToLiveMs request)"

definition removeItem ::
  "'s queue_storage \<Rightarrow> queued_request \<Rightarrow> ('s, js_error, unit) io" where
  "removeItem storage item =
     io_bind (qs_load storage) (\<lambda>items.
       qs_save storage (filter (\<lambda>i. qr_id i \<noteq> qr_id item) items))"

definition isNetworkFailure :: "js_error \<Rightarrow> bool" where
  "isNetworkFailure error =
     (case error of
        JsErr _ \<Rightarrow> True
      | NetworkErr ne \<Rightarrow> ne_code ne = NETWORK_OFFLINE \<or> ne_code ne = NETWORK_TIMEOUT)"

definition handleReplayError ::
  "queue_handlers \<Rightarrow> queued_request \<Rightarrow> replay_result \<Rightarrow> js_error \<Rightarrow>
   ('x queue_env_scheme, js_error, bool \<times> replay_result) io" where
  "handleReplayError handlers item result error =
     (if isNetworkFailure error then io_return (False, result)
      else
        let networkError = (case error of
               NetworkErr ne \<Rightarrow> ne
             | JsErr _ \<Rightarrow> network_error_of NETWORK_OFFLINE ''Replay failed'')
        in io_then
             (emit_all (map (\<lambda>h. ReplayItemFailed h item networkError)
                            (qh_replayItemFailed handlers)))
             (io_return (True, result\<lparr>rr_failed := rr_failed result + 1\<rparr>)))"

text \<open>
  The counter of successes is raised before the item is removed, so it stays raised when the
  removal fails.
\<close>

definition sendOrFail ::
  "('x queue_env_scheme) queue_config \<Rightarrow> queue_handlers \<Rightarrow> queued_request \<Rightarrow> replay_result \<Rightarrow>
   ('x queue_env_scheme, js_error, bool \<times> replay_result) io" where
  "sendOrFail config handlers item result s =
     (case qc_replayFn config item s of
        (Inl e, t) \<Rightarrow> handleReplayError handlers item result e t
      | (Inr _, t) \<Rightarrow>
          let result' = result\<lparr>rr_succeeded := rr_succeeded result + 1\<rparr> in
          (case removeItem (qc_storage config) item t of
             (Inl e, u) \<Rightarrow> handleReplayError handlers item result' e u
           | (Inr _, u) \<Rightarrow> (Inr (True, result'), u)))"

definition processReplayItem ::
  "('x queue_env_scheme) queue_config \<Rightarrow> queue_handlers \<Rightarrow> queued_request \<Rightarrow> replay_result \<Rightarrow>
   ('x queue_env_scheme, js_error, bool \<times> replay_result) io" where
  "processReplayItem config handlers item result =
     io_bind (io_gets env_now) (\<lambda>now.
       if queue_isExpired now item
       then io_then (removeItem (qc_storage config) item)
              (io_return (True, result\<lparr>rr_expired := rr_expired result + 1\<rparr>))
       else io_bind (sendOrFail config handlers item result) (\<lambda>(shouldContinue, result').
              io_then
                (if shouldContinue \<and> qc_replayDelayMs config > 0
                 then qc_wait config (qc_replayDelayMs config) else io_return ())
                (io_return (shouldContinue, result'))))"

fun replay_loop ::
  "('x queue_env_scheme) queue_config \<Rightarrow> queue_handlers \<Rightarrow> queued_request list \<Rightarrow> replay_result \<Rightarrow>
   ('x queue_env_scheme, js_error, replay_result) io" where
  "replay_loop config handlers [] result = io_return result"
| "replay_loop config handlers (item # items) result =
     io_bind (processReplayItem config handlers item result) (\<lambda>(shouldContinue, result').
       if shouldContinue then replay_loop config handlers items result' else io_return result')"

definition executeReplay ::
  "('x queue_env_scheme) queue_config \<Rightarrow> queue_handlers \<Rightarrow>
   ('x queue_env_scheme, js_error, replay_result) io" where
  "executeReplay config handlers =
     io_then (emit_all (map ReplayStarted (qh_replayStarted handlers)))
       (io_bind (qs_load (qc_storage config)) (\<lambda>items.
          io_bind (replay_loop config handlers items
                     \<lparr>rr_total = length items, rr_succeeded = 0, rr_failed = 0, rr_expired = 0\<rparr>)
            (\<lambda>result.
               io_then (emit_all (map (\<lambda>h. ReplayCompleted h result) (qh_replayCompleted handlers)))
                 (io_return result))))"

section \<open>A storage that works\<close>

text \<open>
  The documented behaviour of a \<^verbatim>\<open>QueueStorage\<close>: \<open>load\<close> gives what the last \<open>save\<close> stored.
  \<open>contents\<close> reads it off the state; the queue's own bookkeeping does not touch it.
\<close>

definition reliable_storage ::
  "('x queue_env_scheme) queue_storage \<Rightarrow> ('x queue_env_scheme \<Rightarrow> queued_request list) \<Rightarrow> bool" where
  "reliable_storage storage contents =
     ((\<forall>s. qs_load storage s = (Inr (contents s), s)) \<and>
      (\<forall>xs s. fst (qs_save storage xs s) = Inr () \<and> contents (snd (qs_save storage xs s)) = xs \<and>
              env_now (snd (qs_save storage xs s)) = env_now s) \<and>
      (\<forall>s. fst (qs_clear storage s) = Inr () \<and> contents (snd (qs_clear storage s)) = []) \<and>
      (\<forall>s evs n. contents (s\<lparr>qe_events := evs\<rparr>) = contents s \<and>
                 contents (s\<lparr>qe_uuids := n\<rparr>) = contents s))"

lemma reliable_load: "reliable_storage st contents \<Longrightarrow> qs_load st s = (Inr (contents s), s)"
  by (simp add: reliable_storage_def)

lemma reliable_save:
  assumes "reliable_storage st contents"
  obtains t where "qs_save st xs s = (Inr (), t)" and "contents t = xs" and "env_now t = env_now s"
proof (rule that [of "snd (qs_save st xs s)"])
  show "qs_save st xs s = (Inr (), snd (qs_save st xs s))"
    using assms by (simp add: reliable_storage_def prod_eq_iff)
qed (use assms in \<open>simp_all add: reliable_storage_def\<close>)

lemma reliable_frame:
  assumes "reliable_storage st contents"
  shows "contents (s\<lparr>qe_events := evs\<rparr>) = contents s"
    and "contents (s\<lparr>qe_uuids := n\<rparr>) = contents s"
  using assms by (simp_all add: reliable_storage_def)

lemma length_push_bounded: "length (push_bounded m items r) \<le> max (length items) (max 1 m)"
  by (auto simp: push_bounded_def)

lemma length_push_bounded_le:
  "length items \<le> max 1 m \<Longrightarrow> length (push_bounded m items r) \<le> max 1 m"
  by (auto simp: push_bounded_def)

text \<open>A stored item holds no credentials.\<close>

definition no_credentials :: "queued_request \<Rightarrow> bool" where
  "no_credentials r =
     (case qr_headers r of None \<Rightarrow> True | Some hs \<Rightarrow> list_all (\<lambda>(k, v). \<not> is_sensitive_header k) hs)"

lemma sanitize_no_credentials: "no_credentials (sanitize_request uuid n r)"
  by (auto simp: no_credentials_def sanitize_request_def stripSensitiveHeaders_def list_all_iff
      split: option.splits)

definition queue_ok :: "nat \<Rightarrow> queued_request list \<Rightarrow> bool" where
  "queue_ok m items = (length items \<le> max 1 m \<and> list_all no_credentials items)"

lemma set_push_bounded: "set (push_bounded m items r) \<subseteq> insert r (set items)"
  by (cases items) (auto simp: push_bounded_def)

lemma queue_ok_push:
  "queue_ok m items \<Longrightarrow> no_credentials r \<Longrightarrow> queue_ok m (push_bounded m items r)"
  using set_push_bounded [of m items r] length_push_bounded_le [of items m r]
  by (auto simp: queue_ok_def list_all_iff)

lemma enqueueRequest_reliable:
  assumes "reliable_storage (qc_storage config) contents"
  obtains t where "enqueueRequest config handlers request s = (Inr (), t)"
    and "contents t = push_bounded (qc_maxSize config) (contents s)
           (sanitize_request (qc_uuid config) (qe_uuids s) request)"
proof -
  note fr = reliable_frame [OF assms]
  let ?s = "s\<lparr>qe_uuids := qe_uuids s + 1\<rparr>"
  let ?items = "push_bounded (qc_maxSize config) (contents s)
           (sanitize_request (qc_uuid config) (qe_uuids s) request)"
  obtain t where t: "qs_save (qc_storage config) ?items ?s = (Inr (), t)" "contents t = ?items"
    using reliable_save [OF assms] by blast
  let ?t = "t\<lparr>qe_events := qe_events t @
      map (\<lambda>h. QueueChanged h (int (length ?items))) (qh_queueChanged handlers)\<rparr>"
  have "enqueueRequest config handlers request s = (Inr (), ?t)"
    using t by (simp add: enqueueRequest_def io_simps reliable_load [OF assms] fr Let_def)
  moreover have "contents ?t = ?items" by (simp add: fr t)
  ultimately show ?thesis by (rule that)
qed

text \<open>
  Enqueueing keeps the stored queue within its limit and free of credentials: the new item
  comes last, under a fresh identifier and without Authorization, Cookie and Proxy-Authorization
  headers, the oldest item gives way when the queue is full, and the others are kept in order.
\<close>

theorem enqueue_keeps_queue_ok:
  assumes "reliable_storage (qc_storage config) contents"
    and "queue_ok (qc_maxSize config) (contents s)"
  shows "fst (enqueueRequest config handlers request s) = Inr () \<and>
    queue_ok (qc_maxSize config) (contents (snd (enqueueRequest config handlers request s))) \<and>
    contents (snd (enqueueRequest config handlers request s)) =
      (if length (contents s) \<ge> qc_maxSize config then tl (contents s) else contents s) @
      [request\<lparr>qr_id := Some (qc_uuid config (qe_uuids s)),
               qr_headers := stripSensitiveHeaders (qr_headers request)\<rparr>]"
proof -
  obtain t where "enqueueRequest config handlers request s = (Inr (), t)"
    and c: "contents t = push_bounded (qc_maxSize config) (contents s)
           (sanitize_request (qc_uuid config) (qe_uuids s) request)"
    using enqueueRequest_reliable [OF assms(1)] by blast
  moreover have "queue_ok (qc_maxSize config) (contents t)"
    using queue_ok_push [OF assms(2) sanitize_no_credentials] by (simp add: c)
  ultimately show ?thesis
    by (simp add: push_bounded_def sanitize_request_def)
qed

text \<open>A storage that keeps the queue in a field of the state, as an instance.\<close>

record field_queue_env = queue_env +
  fq_items :: "queued_request list"

definition field_storage :: "field_queue_env queue_storage" where
  "field_storage =
     \<lparr>qs_load = io_gets fq_items, qs_save = (\<lambda>xs. io_modify (\<lambda>s. s\<lparr>fq_items := xs\<rparr>)),
      qs_clear = io_modify (\<lambda>s. s\<lparr>fq_items := []\<rparr>)\<rparr>"

lemma field_storage_reliable: "reliable_storage field_storage fq_items"
  by (simp add: reliable_storage_def field_storage_def io_simps)

definition sample_queue_config :: "(queued_request \<Rightarrow> js_error + unit) \<Rightarrow> field_queue_env queue_config" where
  "sample_queue_config res =
     \<lparr>qc_maxSize = 2, qc_defaultTimeToLiveMs = 1000, qc_replayDelayMs = 5,
      qc_storage = field_storage, qc_replayFn = (\<lambda>item s. (res item, s)),
      qc_uuid = (\<lambda>n. ''id-'' @ nat_digits n),
      qc_wait = (\<lambda>d. io_modify (\<lambda>s. s\<lparr>env_now := env_now s + d\<rparr>))\<rparr>"

definition sample_request :: "string \<Rightarrow> queued_request" where
  "sample_request i =
     \<lparr>qr_id = Some i, qr_method = ''POST'', qr_url = ''/x'', qr_body = JNull,
      qr_headers = Some [(''Accept'', ''*'')], qr_enqueuedAt = 0, qr_timeToLiveMs = 100\<rparr>"

definition sample_queue_state :: "queued_request list \<Rightarrow> field_queue_env" where
  "sample_queue_state items =
     \<lparr>env_now = 10, env_log = [], qe_events = [], qe_uuids = 7, fq_items = items\<rparr>"

theorem enqueue_keeps_queue_ok_witness:
  "queue_ok 2 (fq_items (snd (enqueueRequest (sample_queue_config (\<lambda>_. Inr ()))
      \<lparr>qh_queueChanged = [1], qh_replayStarted = [], qh_replayCompleted = [],
       qh_replayItemFailed = []\<rparr>
      (sample_request ''c'') (sample_queue_state [sample_request ''a'', sample_request ''b'']))))"
proof -
  let ?cfg = "sample_queue_config (\<lambda>_. Inr ())"
  let ?s = "sample_queue_state [sample_request ''a'', sample_request ''b'']"
  have st: "reliable_storage (qc_storage ?cfg) fq_items"
    by (simp add: sample_queue_config_def field_storage_reliable)
  have accept: "\<not> is_sensitive_header ''Accept''" by code_simp
  have ok: "queue_ok (qc_maxSize ?cfg) (fq_items ?s)"
    by (simp add: queue_ok_def sample_queue_config_def sample_queue_state_def sample_request_def
        no_credentials_def accept)
  have two: "qc_maxSize ?cfg = 2" by (simp add: sample_queue_config_def)
  from enqueue_keeps_queue_ok [OF st ok] show ?thesis unfolding two by blast
qed

text \<open>
  Two enqueues that both load before either saves lose one request: \<open>load\<close> and \<open>save\<close> are
  separate awaits and nothing serialises them.
\<close>

lemma interleaved_enqueues_lose_a_request:
  assumes "reliable_storage st contents"
    and "qs_load st s = (Inr items_a, s1)" and "qs_load st s1 = (Inr items_b, s2)"
    and "qs_save st (push_bounded m items_a a) s2 = (Inr (), s3)"
    and "qs_save st (push_bounded m items_b b) s3 = (Inr (), s4)"
  shows "contents s4 = push_bounded m (contents s) b"
  using assms by (auto simp: reliable_storage_def)
     (metis snd_conv)

section \<open>Replay against its specification\<close>

text \<open>
  What replaying relies on: sending an item has an outcome \<open>res item\<close> and waiting returns, and
  neither changes the stored queue (time may pass).
\<close>

definition replay_env_ok ::
  "('x queue_env_scheme) queue_config \<Rightarrow> ('x queue_env_scheme \<Rightarrow> queued_request list) \<Rightarrow>
   (queued_request \<Rightarrow> js_error + unit) \<Rightarrow> bool" where
  "replay_env_ok config contents res =
     (reliable_storage (qc_storage config) contents \<and>
      (\<forall>item s. fst (qc_replayFn config item s) = res item \<and>
                contents (snd (qc_replayFn config item s)) = contents s) \<and>
      (\<forall>d s. fst (qc_wait config d s) = Inr () \<and> contents (snd (qc_wait config d s)) = contents s))"

lemma removeItem_reliable:
  assumes "reliable_storage st contents"
  obtains t where "removeItem st item s = (Inr (), t)"
    and "contents t = filter (\<lambda>i. qr_id i \<noteq> qr_id item) (contents s)"
proof -
  let ?items = "filter (\<lambda>i. qr_id i \<noteq> qr_id item) (contents s)"
  obtain t where t: "qs_save st ?items s = (Inr (), t)" "contents t = ?items"
    using reliable_save [OF assms] by blast
  then have "removeItem st item s = (Inr (), t)"
    by (simp add: removeItem_def io_simps reliable_load [OF assms])
  then show ?thesis using t(2) by (rule that)
qed

lemma filter_other_ids:
  "distinct (map qr_id (K @ item # items)) \<Longrightarrow>
   filter (\<lambda>i. qr_id i \<noteq> qr_id item) (K @ item # items) = K @ items"
proof -
  assume "distinct (map qr_id (K @ item # items))"
  then have "qr_id item \<notin> qr_id ` set K" and "qr_id item \<notin> qr_id ` set items"
    by auto
  then have "\<forall>x \<in> set K. qr_id x \<noteq> qr_id item" and "\<forall>x \<in> set items. qr_id x \<noteq> qr_id item"
    by (metis image_eqI)+
  then show ?thesis by (simp add: filter_True)
qed

text \<open>The three ways one item is dealt with.\<close>

definition item_step ::
  "(queued_request \<Rightarrow> js_error + unit) \<Rightarrow> queued_request \<Rightarrow> replay_result \<Rightarrow> bool \<Rightarrow> replay_result \<Rightarrow>
   queued_request list \<Rightarrow> queued_request list \<Rightarrow> bool" where
  "item_step res item result continue result' before after =
     ((continue \<and> after = filter (\<lambda>i. qr_id i \<noteq> qr_id item) before \<and>
        (result' = result\<lparr>rr_expired := rr_expired result + 1\<rparr> \<or>
         res item = Inr () \<and> result' = result\<lparr>rr_succeeded := rr_succeeded result + 1\<rparr>)) \<or>
      (continue \<and> after = before \<and> result' = result\<lparr>rr_failed := rr_failed result + 1\<rparr> \<and>
        (\<exists>e. res item = Inl e \<and> \<not> isNetworkFailure e)) \<or>
      (\<not> continue \<and> after = before \<and> result' = result \<and>
        (\<exists>e. res item = Inl e \<and> isNetworkFailure e)))"

lemma sendOrFail_step:
  assumes "replay_env_ok config contents res"
  obtains continue result' t where
    "sendOrFail config handlers item result s = (Inr (continue, result'), t)"
    "item_step res item result continue result' (contents s) (contents t)"
proof -
  have st: "reliable_storage (qc_storage config) contents"
    using assms by (simp add: replay_env_ok_def)
  obtain t where t: "qc_replayFn config item s = (res item, t)" "contents t = contents s"
    using assms by (metis prod.collapse replay_env_ok_def)
  show ?thesis
  proof (cases "res item")
    case (Inr u)
    obtain w where "removeItem (qc_storage config) item t = (Inr (), w)"
      "contents w = filter (\<lambda>i. qr_id i \<noteq> qr_id item) (contents t)"
      using removeItem_reliable [OF st] by blast
    with t Inr show ?thesis
      by (intro that [of True "result\<lparr>rr_succeeded := rr_succeeded result + 1\<rparr>" w])
         (auto simp: sendOrFail_def item_step_def Let_def)
  next
    case (Inl e)
    show ?thesis
    proof (cases "isNetworkFailure e")
      case True
      with t Inl show ?thesis
        by (intro that [of False result t])
           (auto simp: sendOrFail_def handleReplayError_def item_step_def io_simps)
    next
      case False
      with t Inl show ?thesis
        by (intro that [of True "result\<lparr>rr_failed := rr_failed result + 1\<rparr>"])
           (auto simp: sendOrFail_def handleReplayError_def item_step_def io_simps Let_def
             reliable_frame [OF st])
    qed
  qed
qed

lemma processReplayItem_step:
  assumes "replay_env_ok config contents res"
  obtains continue result' t where
    "processReplayItem config handlers item result s = (Inr (continue, result'), t)"
    "item_step res item result continue result' (contents s) (contents t)"
proof (cases "queue_isExpired (env_now s) item")
  case True
  have st: "reliable_storage (qc_storage config) contents"
    using assms by (simp add: replay_env_ok_def)
  obtain w where "removeItem (qc_storage config) item s = (Inr (), w)"
    "contents w = filter (\<lambda>i. qr_id i \<noteq> qr_id item) (contents s)"
    using removeItem_reliable [OF st] by blast
  with True show ?thesis
    by (intro that [of True "result\<lparr>rr_expired := rr_expired result + 1\<rparr>" w])
       (auto simp: processReplayItem_def item_step_def io_simps)
next
  case False
  obtain continue result' t where
    t: "sendOrFail config handlers item result s = (Inr (continue, result'), t)"
    and step: "item_step res item result continue result' (contents s) (contents t)"
    using sendOrFail_step [OF assms] by blast
  obtain w where "qc_wait config (qc_replayDelayMs config) t = (Inr (), w)"
    "contents w = contents t"
    using assms by (metis prod.collapse replay_env_ok_def)
  with False t step show ?thesis
    by (cases "continue \<and> qc_replayDelayMs config > 0")
       (auto simp: processReplayItem_def io_simps intro: that [of continue result' w]
         that [of continue result' t])
qed

text \<open>The part \<open>ps\<close> of the items that was processed, of which \<open>ks\<close> stay stored.\<close>

definition replay_outcome ::
  "(queued_request \<Rightarrow> js_error + unit) \<Rightarrow> queued_request list \<Rightarrow> replay_result \<Rightarrow> replay_result \<Rightarrow>
   queued_request list \<Rightarrow> queued_request list \<Rightarrow> queued_request list \<Rightarrow> bool" where
  "replay_outcome res items before after ps ks rest =
     (items = ps @ rest \<and> subseq ks ps \<and>
      rr_total after = rr_total before \<and>
      rr_failed after = rr_failed before + length ks \<and>
      rr_succeeded after + rr_expired after + length ks
        = rr_succeeded before + rr_expired before + length ps \<and>
      (\<forall>x \<in> set ks. \<exists>e. res x = Inl e \<and> \<not> isNetworkFailure e) \<and>
      (rest \<noteq> [] \<longrightarrow> (\<exists>e. res (hd rest) = Inl e \<and> isNetworkFailure e)))"

lemma replay_loop_outcome:
  assumes env: "replay_env_ok config contents res"
    and "distinct (map qr_id (K @ items))" and "contents s = K @ items"
  shows "\<exists>result' t ps ks rest.
    replay_loop config handlers items result s = (Inr result', t) \<and>
    contents t = K @ ks @ rest \<and> replay_outcome res items result result' ps ks rest"
  using assms(2,3)
proof (induction items arbitrary: K result s)
  case Nil
  then show ?case by (auto simp: io_simps replay_outcome_def intro!: exI [of _ "[]"])
next
  case (Cons item items)
  obtain continue result1 t where
    t: "processReplayItem config handlers item result s = (Inr (continue, result1), t)"
    and step: "item_step res item result continue result1 (contents s) (contents t)"
    using processReplayItem_step [OF env] by blast
  consider (gone) "continue" "contents t = K @ items"
      "rr_failed result1 = rr_failed result" "rr_total result1 = rr_total result"
      "rr_succeeded result1 + rr_expired result1 = rr_succeeded result + rr_expired result + 1"
    | (kept) "continue" "contents t = (K @ [item]) @ items"
      "result1 = result\<lparr>rr_failed := rr_failed result + 1\<rparr>"
      "\<exists>e. res item = Inl e \<and> \<not> isNetworkFailure e"
    | (stop) "\<not> continue" "contents t = K @ item # items" "result1 = result"
      "\<exists>e. res item = Inl e \<and> isNetworkFailure e"
    using step Cons.prems filter_other_ids [of K item items] by (auto simp: item_step_def)
  then show ?case
  proof cases
    case gone
    with Cons.prems(1) have d: "distinct (map qr_id (K @ items))" by auto
    obtain result' u ps ks rest where
      "replay_loop config handlers items result1 t = (Inr result', u)"
      "contents u = K @ ks @ rest" "replay_outcome res items result1 result' ps ks rest"
      using Cons.IH [OF d gone(2), of result1] by blast
    with t gone show ?thesis
      by (intro exI [of _ result'] exI [of _ u] exI [of _ "item # ps"] exI [of _ ks] exI [of _ rest])
         (auto simp: io_simps replay_outcome_def)
  next
    case kept
    with Cons.prems(1) have d: "distinct (map qr_id ((K @ [item]) @ items))" by auto
    obtain result' u ps ks rest where
      "replay_loop config handlers items result1 t = (Inr result', u)"
      "contents u = (K @ [item]) @ ks @ rest" "replay_outcome res items result1 result' ps ks rest"
      using Cons.IH [OF d kept(2), of result1] by blast
    with t kept show ?thesis
      by (intro exI [of _ result'] exI [of _ u] exI [of _ "item # ps"] exI [of _ "item # ks"]
            exI [of _ rest])
         (auto simp: io_simps replay_outcome_def)
  next
    case stop
    with t show ?thesis
      by (intro exI [of _ result] exI [of _ t] exI [of _ "[]"] exI [of _ "[]"]
            exI [of _ "item # items"])
         (auto simp: io_simps replay_outcome_def)
  qed
qed


definition sample_outcome :: "queued_request \<Rightarrow> js_error + unit" where
  "sample_outcome r =
     (if qr_id r = Some ''b'' then Inl (NetworkErr (network_error_of CLIENT_ERROR ''no''))
      else if qr_id r = Some ''c'' then Inl (NetworkErr (network_error_of NETWORK_OFFLINE ''off''))
      else Inr ())"


end
