(* ===== verification/Events.thy ===== *)
theory Events
  imports NetworkTypes
begin

text \<open>
  \<^verbatim>\<open>packages/network/src/event-types.ts\<close>, \<^verbatim>\<open>network-event-emitter.ts\<close> and the two
  providers of the network state, \<^verbatim>\<open>platform/network-state.native.ts\<close> and
  \<^verbatim>\<open>platform/network-state.web.ts\<close>. A handler is an identity, and calling handlers is the
  list of the calls made, in order; a handler that changes the subscriptions while it is called
  is outside the model. What the platform reports (NetInfo, the window's and the document's
  events) is the input of the providers' steps.
\<close>

datatype network_event = AuthTokenRefreshed | AuthExpired | OnlineStateChanged bool

datatype network_event_type = TAuthTokenRefreshed | TAuthExpired | TOnlineStateChanged

fun event_type :: "network_event \<Rightarrow> network_event_type" where
  "event_type AuthTokenRefreshed = TAuthTokenRefreshed"
| "event_type AuthExpired = TAuthExpired"
| "event_type (OnlineStateChanged b) = TOnlineStateChanged"

fun type_name :: "network_event_type \<Rightarrow> string" where
  "type_name TAuthTokenRefreshed = ''auth-token-refreshed''"
| "type_name TAuthExpired = ''auth-expired''"
| "type_name TOnlineStateChanged = ''online-state-changed''"

section \<open>The emitter\<close>

definition DEFAULT_MAX_LISTENERS :: int where
  "DEFAULT_MAX_LISTENERS = 50"

definition LEAK_WARNING_THRESHOLD :: real where
  "LEAK_WARNING_THRESHOLD = 8 / 10"

record emitter =
  em_maxListeners :: int
  em_listeners :: "(network_event_type \<times> nat list) list"

definition createNetworkEventEmitter :: "int option \<Rightarrow> emitter" where
  "createNetworkEventEmitter maxListenersPerEvent =
     \<lparr>em_maxListeners = (case maxListenersPerEvent of None \<Rightarrow> DEFAULT_MAX_LISTENERS | Some m \<Rightarrow> m),
      em_listeners = []\<rparr>"

definition getOrCreateListenerSet ::
  "(network_event_type \<times> nat list) list \<Rightarrow> network_event_type \<Rightarrow>
   nat list \<times> (network_event_type \<times> nat list) list" where
  "getOrCreateListenerSet listeners type =
     (case map_of listeners type of
        None \<Rightarrow> ([], AList.update type [] listeners)
      | Some hs \<Rightarrow> (hs, listeners))"

definition checkLeakWarning :: "network_event_type \<Rightarrow> int \<Rightarrow> int \<Rightarrow> log_entry list" where
  "checkLeakWarning type count maxListeners =
     (if count \<ge> \<lfloor>real_of_int maxListeners * LEAK_WARNING_THRESHOLD\<rfloor>
      then [log_entry_of LWarning
              (''Possible listener leak: '' @ int_str count @ '' listeners for \"'' @
               type_name type @ ''\" (max: '' @ int_str maxListeners @ '')'')
              ''network''
              [(''type'', JStr (type_name type)), (''count'', JNum count),
               (''maxListeners'', JNum maxListeners)]]
      else [])"

definition emitter_on :: "network_event_type \<Rightarrow> nat \<Rightarrow> emitter \<Rightarrow> emitter \<times> log_entry list" where
  "emitter_on type handler em =
     (let (hs, listeners) = getOrCreateListenerSet (em_listeners em) type;
          hs' = set_add handler hs
      in (em\<lparr>em_listeners := AList.update type hs' listeners\<rparr>,
          checkLeakWarning type (int (length hs')) (em_maxListeners em)))"

text \<open>The function that \<^verbatim>\<open>on\<close> returns.\<close>

definition emitter_off :: "network_event_type \<Rightarrow> nat \<Rightarrow> emitter \<Rightarrow> emitter" where
  "emitter_off type handler em =
     (case map_of (em_listeners em) type of
        None \<Rightarrow> em
      | Some hs \<Rightarrow>
          em\<lparr>em_listeners := AList.update type (set_delete handler hs) (em_listeners em)\<rparr>)"

definition emitter_emit :: "network_event \<Rightarrow> emitter \<Rightarrow> (nat \<times> network_event) list" where
  "emitter_emit event em =
     (case map_of (em_listeners em) (event_type event) of
        None \<Rightarrow> []
      | Some hs \<Rightarrow> map (\<lambda>h. (h, event)) hs)"

definition listenerCount :: "network_event_type \<Rightarrow> emitter \<Rightarrow> nat" where
  "listenerCount type em =
     (case map_of (em_listeners em) type of None \<Rightarrow> 0 | Some hs \<Rightarrow> length hs)"

definition listeners_of :: "emitter \<Rightarrow> network_event_type \<Rightarrow> nat list" where
  "listeners_of em type = (case map_of (em_listeners em) type of None \<Rightarrow> [] | Some hs \<Rightarrow> hs)"

lemma listeners_of_on:
  "listeners_of (fst (emitter_on type h em)) t =
     (if t = type then set_add h (listeners_of em type) else listeners_of em t)"
  by (auto simp: listeners_of_def emitter_on_def getOrCreateListenerSet_def AList.update_conv'
      Let_def split: option.splits)

lemma listeners_of_off:
  "listeners_of (emitter_off type h em) t =
     (if t = type then set_delete h (listeners_of em type) else listeners_of em t)"
  by (auto simp: listeners_of_def emitter_off_def AList.update_conv' set_delete_def
      split: option.splits)

lemma emit_listeners: "emitter_emit ev em = map (\<lambda>h. (h, ev)) (listeners_of em (event_type ev))"
  by (simp add: emitter_emit_def listeners_of_def split: option.splits)

lemma listenerCount_listeners: "listenerCount type em = length (listeners_of em type)"
  by (simp add: listenerCount_def listeners_of_def split: option.splits)

text \<open>
  Subscriptions and their cancellation do not disturb one another: an event reaches a handler
  subscribed to its type once, and a handler whose subscription was cancelled not at all; the
  others and the other types are called as before.
\<close>

theorem subscription_delivers_once:
  assumes "distinct (listeners_of em (event_type ev))"
  shows "count_list (emitter_emit ev (fst (emitter_on (event_type ev) h em))) (h, ev) = 1 \<and>
    count_list (emitter_emit ev (emitter_off (event_type ev) h em)) (h, ev) = 0 \<and>
    (h \<notin> set (listeners_of em (event_type ev)) \<longrightarrow>
       emitter_emit ev' (emitter_off (event_type ev) h (fst (emitter_on (event_type ev) h em)))
         = emitter_emit ev' em)"
proof -
  let ?hs = "listeners_of em (event_type ev)"
  have one: "count_list (map (\<lambda>h. (h, ev)) hs) (h, ev) = (if h \<in> set hs then 1 else 0)"
    if "distinct hs" for hs
    using that by (induction hs) auto
  have "distinct (set_add h ?hs)" and "distinct (set_delete h ?hs)" using assms by simp_all
  with one show ?thesis
    by (auto simp: emit_listeners listeners_of_on listeners_of_off set_delete_add)
qed

theorem subscription_delivers_once_witness:
  "emitter_emit AuthExpired (fst (emitter_on TAuthExpired 4 (createNetworkEventEmitter None)))
     = [(4, AuthExpired)] \<and>
   count_list (emitter_emit AuthExpired
     (fst (emitter_on TAuthExpired 4 (createNetworkEventEmitter None)))) (4, AuthExpired) = 1"
proof -
  have d: "distinct (listeners_of (createNetworkEventEmitter None) (event_type AuthExpired))"
    by (simp add: listeners_of_def createNetworkEventEmitter_def)
  show ?thesis
    using subscription_delivers_once [OF d, of 4 AuthExpired]
    by (simp add: emit_listeners listeners_of_on)
       (simp add: listeners_of_def createNetworkEventEmitter_def set_add_def)
qed

section \<open>The network state\<close>

record network_state =
  ns_online :: bool
  ns_stateHandlers :: "nat list"
  ns_interfaceHandlers :: "nat list"

datatype provider_call = StateCall nat bool | InterfaceCall nat

text \<open>\<^verbatim>\<open>updateOnlineState\<close> of the web provider, and the first half of the native listener.\<close>

definition updateOnlineState ::
  "'x network_state_scheme \<Rightarrow> bool \<Rightarrow> 'x network_state_scheme \<times> provider_call list" where
  "updateOnlineState state isNowOnline =
     (if ns_online state = isNowOnline then (state, [])
      else (state\<lparr>ns_online := isNowOnline\<rparr>,
            map (\<lambda>h. StateCall h isNowOnline) (ns_stateHandlers state)))"

definition provider_onStateChange ::
  "nat \<Rightarrow> 'x network_state_scheme \<Rightarrow> 'x network_state_scheme" where
  "provider_onStateChange h state =
     state\<lparr>ns_stateHandlers := set_add h (ns_stateHandlers state)\<rparr>"

definition provider_onInterfaceChange ::
  "nat \<Rightarrow> 'x network_state_scheme \<Rightarrow> 'x network_state_scheme" where
  "provider_onInterfaceChange h state =
     state\<lparr>ns_interfaceHandlers := set_add h (ns_interfaceHandlers state)\<rparr>"

subsection \<open>Web\<close>

record web_network_state = network_state +
  nw_hasConnection :: bool
  nw_attached :: bool

datatype web_report =
    WebOnline
  | WebOffline
  | WebVisibility bool bool
  | WebConnectionChange

definition web_createInitialState :: "bool \<Rightarrow> bool \<Rightarrow> web_network_state" where
  "web_createInitialState navigatorOnline hasConnection =
     \<lparr>ns_online = navigatorOnline, ns_stateHandlers = [], ns_interfaceHandlers = [],
      nw_hasConnection = hasConnection, nw_attached = False\<rparr>"

definition web_createNetworkStateProvider :: "bool \<Rightarrow> bool \<Rightarrow> web_network_state" where
  "web_createNetworkStateProvider navigatorOnline hasConnection =
     (web_createInitialState navigatorOnline hasConnection)\<lparr>nw_attached := True\<rparr>"

text \<open>
  \<^verbatim>\<open>attachGlobalListeners\<close>: what each listener does. \<open>WebVisibility visible nav\<close> is the
  \<^verbatim>\<open>visibilitychange\<close> event with \<^verbatim>\<open>navigator.onLine\<close> at that time.
\<close>

definition web_report_step ::
  "web_network_state \<Rightarrow> web_report \<Rightarrow> web_network_state \<times> provider_call list" where
  "web_report_step state r =
     (if \<not> nw_attached state then (state, [])
      else (case r of
          WebOnline \<Rightarrow> updateOnlineState state True
        | WebOffline \<Rightarrow> updateOnlineState state False
        | WebVisibility visible nav \<Rightarrow>
            if visible then updateOnlineState state nav else (state, [])
        | WebConnectionChange \<Rightarrow>
            if nw_hasConnection state
            then (state, map InterfaceCall (ns_interfaceHandlers state)) else (state, [])))"

definition web_dispose :: "web_network_state \<Rightarrow> web_network_state" where
  "web_dispose state =
     state\<lparr>nw_attached := False, ns_stateHandlers := [], ns_interfaceHandlers := []\<rparr>"

subsection \<open>Native\<close>

record native_network_state = network_state +
  nn_lastConnectionType :: string
  nn_attached :: bool

record netinfo_state =
  ni_isConnected :: "bool option"
  ni_type :: string

definition native_createState :: native_network_state where
  "native_createState =
     \<lparr>ns_online = True, ns_stateHandlers = [], ns_interfaceHandlers = [],
      nn_lastConnectionType = [], nn_attached = False\<rparr>"

definition native_createNetworkStateProvider :: native_network_state where
  "native_createNetworkStateProvider = native_createState\<lparr>nn_attached := True\<rparr>"

definition native_report_step ::
  "native_network_state \<Rightarrow> netinfo_state \<Rightarrow> native_network_state \<times> provider_call list" where
  "native_report_step state netState =
     (if \<not> nn_attached state then (state, [])
      else
        (let isNowOnline = (case ni_isConnected netState of None \<Rightarrow> False | Some b \<Rightarrow> b);
             (state1, calls1) = updateOnlineState state isNowOnline;
             calls2 = (if nn_lastConnectionType state1 \<noteq> [] \<and>
                          ni_type netState \<noteq> nn_lastConnectionType state1
                       then map InterfaceCall (ns_interfaceHandlers state1) else [])
         in (state1\<lparr>nn_lastConnectionType := ni_type netState\<rparr>, calls1 @ calls2)))"

definition native_dispose :: "native_network_state \<Rightarrow> native_network_state" where
  "native_dispose state =
     state\<lparr>nn_attached := False, ns_stateHandlers := [], ns_interfaceHandlers := []\<rparr>"

subsection \<open>What subscribers hear\<close>

text \<open>The value a report says, if it says one, and the calls of one handler.\<close>

fun web_says :: "web_report \<Rightarrow> bool list" where
  "web_says WebOnline = [True]"
| "web_says WebOffline = [False]"
| "web_says (WebVisibility visible nav) = (if visible then [nav] else [])"
| "web_says WebConnectionChange = []"

definition native_says :: "netinfo_state \<Rightarrow> bool list" where
  "native_says n = [ni_isConnected n = Some True]"

fun run_reports ::
  "('s \<Rightarrow> 'r \<Rightarrow> 's \<times> provider_call list) \<Rightarrow> 's \<Rightarrow> 'r list \<Rightarrow> 's \<times> provider_call list" where
  "run_reports step s [] = (s, [])"
| "run_reports step s (r # rs) =
     (let (t, calls) = step s r; (u, calls') = run_reports step t rs in (u, calls @ calls'))"

fun heard_by :: "nat \<Rightarrow> provider_call list \<Rightarrow> bool list" where
  "heard_by h [] = []"
| "heard_by h (StateCall k b # cs) = (if k = h then b # heard_by h cs else heard_by h cs)"
| "heard_by h (InterfaceCall k # cs) = heard_by h cs"

lemma heard_by_append [simp]: "heard_by h (xs @ ys) = heard_by h xs @ heard_by h ys"
  by (induction h xs rule: heard_by.induct) auto

lemma heard_by_interface [simp]: "heard_by h (map InterfaceCall ks) = []"
  by (induction ks) auto

lemma heard_by_state:
  "distinct hs \<Longrightarrow> heard_by h (map (\<lambda>k. StateCall k b) hs) = (if h \<in> set hs then [b] else [])"
  by (induction hs) auto

text \<open>
  An interface for the two providers: their listeners change the state only through
  \<open>updateOnlineState\<close> with what the report says, and leave the subscriptions alone.
\<close>

locale state_provider =
  fixes step :: "'s \<Rightarrow> 'r \<Rightarrow> 's \<times> provider_call list"
    and says :: "'r \<Rightarrow> bool list"
    and online :: "'s \<Rightarrow> bool"
    and handlers :: "'s \<Rightarrow> nat list"
    and live :: "'s \<Rightarrow> bool"
  assumes handlers_step: "handlers (fst (step s r)) = handlers s"
    and live_step: "live (fst (step s r)) = live s"
    and silent: "live s \<Longrightarrow> says r = [] \<Longrightarrow>
      online (fst (step s r)) = online s \<and> heard_by h (snd (step s r)) = []"
    and loud: "live s \<Longrightarrow> says r = [b] \<Longrightarrow> distinct (handlers s) \<Longrightarrow>
      online (fst (step s r)) = b \<and>
      heard_by h (snd (step s r)) =
        (if online s \<noteq> b \<and> h \<in> set (handlers s) then [b] else [])"
    and says_le_1: "length (says r) \<le> 1"
begin

lemma heard_reports:
  assumes "live s" "distinct (handlers s)" "h \<in> set (handlers s)"
  shows "online s # heard_by h (snd (run_reports step s rs)) =
           remdups_adj (online s # concat (map says rs))
       \<and> online (fst (run_reports step s rs)) = last (online s # concat (map says rs))"
  using assms
proof (induction rs arbitrary: s)
  case Nil
  then show ?case by simp
next
  case (Cons r rs)
  obtain t calls where t: "step s r = (t, calls)" by fastforce
  with Cons.prems have pre: "live t" "distinct (handlers t)" "h \<in> set (handlers t)"
    using live_step [of s r] handlers_step [of s r] by simp_all
  obtain c where c: "concat (map says rs) = c" by blast
  obtain u calls' where u: "run_reports step t rs = (u, calls')" by fastforce
  have IH: "online t # heard_by h calls' = remdups_adj (online t # c)"
    "online u = last (online t # c)"
    using Cons.IH [OF pre] unfolding u c by simp_all
  consider "says r = []" | b where "says r = [b]"
    using says_le_1 [of r] by (cases "says r") auto
  then show ?case
  proof cases
    case 1
    with silent [OF Cons.prems(1) 1, of h] t have "online t = online s" "heard_by h calls = []"
      by auto
    with IH t u c 1 show ?thesis by simp
  next
    case 2
    with loud [OF Cons.prems(1) 2 Cons.prems(2), of h] t Cons.prems(3)
    have "online t = b" "heard_by h calls = (if online s \<noteq> b then [b] else [])" by auto
    with IH t u c 2 show ?thesis by simp
  qed
qed

end

interpretation web_provider: state_provider web_report_step web_says ns_online ns_stateHandlers
  nw_attached
proof
  fix s r h b
  show "ns_stateHandlers (fst (web_report_step s r)) = ns_stateHandlers s"
    and "nw_attached (fst (web_report_step s r)) = nw_attached s"
    by (auto simp: web_report_step_def updateOnlineState_def split: web_report.splits)
  show "length (web_says r) \<le> 1" by (cases r) auto
  show "ns_online (fst (web_report_step s r)) = ns_online s \<and> heard_by h (snd (web_report_step s r)) = []"
    if "nw_attached s" "web_says r = []"
    using that by (cases r) (auto simp: web_report_step_def split: if_splits)
  show "ns_online (fst (web_report_step s r)) = b \<and>
      heard_by h (snd (web_report_step s r)) =
        (if ns_online s \<noteq> b \<and> h \<in> set (ns_stateHandlers s) then [b] else [])"
    if "nw_attached s" "web_says r = [b]" "distinct (ns_stateHandlers s)"
    using that
    by (cases r) (auto simp: web_report_step_def updateOnlineState_def heard_by_state split: if_splits)
qed

interpretation native_provider: state_provider native_report_step native_says ns_online
  ns_stateHandlers nn_attached
proof
  fix s r h b
  show "ns_stateHandlers (fst (native_report_step s r)) = ns_stateHandlers s"
    and "nn_attached (fst (native_report_step s r)) = nn_attached s"
    by (auto simp: native_report_step_def updateOnlineState_def Let_def)
  show "length (native_says r) \<le> 1" by (simp add: native_says_def)
  show "ns_online (fst (native_report_step s r)) = ns_online s \<and> heard_by h (snd (native_report_step s r)) = []"
    if "nn_attached s" "native_says r = []"
    using that by (simp add: native_says_def)
  show "ns_online (fst (native_report_step s r)) = b \<and>
      heard_by h (snd (native_report_step s r)) =
        (if ns_online s \<noteq> b \<and> h \<in> set (ns_stateHandlers s) then [b] else [])"
    if "nn_attached s" "native_says r = [b]" "distinct (ns_stateHandlers s)"
    using that
    by (auto simp: native_report_step_def native_says_def updateOnlineState_def heard_by_state Let_def
        split: option.splits)
qed

text \<open>
  A subscriber of the network state hears exactly the changes: whatever the platform reports, the
  values given to the handler, after the value at subscription, are the reported values without
  immediate repetitions, and \<^verbatim>\<open>isOnline()\<close> is the last of them. The web provider and the
  native one behave alike.
\<close>

theorem subscribers_hear_the_changes:
  assumes "nw_attached w" "distinct (ns_stateHandlers w)" "h \<in> set (ns_stateHandlers w)"
    and "nn_attached n" "distinct (ns_stateHandlers n)" "h \<in> set (ns_stateHandlers n)"
  shows "ns_online w # heard_by h (snd (run_reports web_report_step w rs)) =
        remdups_adj (ns_online w # concat (map web_says rs)) \<and>
      ns_online (fst (run_reports web_report_step w rs)) =
        last (ns_online w # concat (map web_says rs)) \<and>
      ns_online n # heard_by h (snd (run_reports native_report_step n ps)) =
        remdups_adj (ns_online n # concat (map native_says ps)) \<and>
      ns_online (fst (run_reports native_report_step n ps)) =
        last (ns_online n # concat (map native_says ps))"
  using web_provider.heard_reports [OF assms(1-3)] native_provider.heard_reports [OF assms(4-6)]
  by blast

theorem subscribers_hear_the_changes_witness:
  "heard_by 7 (snd (run_reports web_report_step
      (provider_onStateChange 7 (web_createNetworkStateProvider True False))
      [WebOnline, WebOffline, WebVisibility True False, WebOnline])) = [False, True] \<and>
   heard_by 7 (snd (run_reports native_report_step
      (provider_onStateChange 7 native_createNetworkStateProvider)
      [\<lparr>ni_isConnected = None, ni_type = ''none''\<rparr>])) = [False]"
proof -
  let ?w = "provider_onStateChange 7 (web_createNetworkStateProvider True False)"
  let ?n = "provider_onStateChange 7 native_createNetworkStateProvider"
  have w: "nw_attached ?w" "distinct (ns_stateHandlers ?w)" "7 \<in> set (ns_stateHandlers ?w)"
    by (simp_all add: provider_onStateChange_def web_createNetworkStateProvider_def
        web_createInitialState_def)
  have n: "nn_attached ?n" "distinct (ns_stateHandlers ?n)" "7 \<in> set (ns_stateHandlers ?n)"
    by (simp_all add: provider_onStateChange_def native_createNetworkStateProvider_def
        native_createState_def)
  show ?thesis
    using subscribers_hear_the_changes
        [OF w n, of "[WebOnline, WebOffline, WebVisibility True False, WebOnline]"
          "[\<lparr>ni_isConnected = None, ni_type = ''none''\<rparr>]"]
    by (simp add: provider_onStateChange_def web_createNetworkStateProvider_def
        web_createInitialState_def native_createNetworkStateProvider_def native_createState_def
        native_says_def)
qed

end
