(* ===== verification/LongPoll.thy ===== *)
theory LongPoll
  imports NetworkTypes
begin

text \<open>
  \<^verbatim>\<open>packages/network/src/connection-state.ts\<close> and \<^verbatim>\<open>long-poll-client.ts\<close>. The client is a
  state with the connection machine, the pending timers, the polls whose answer is outstanding
  and the subscriptions to the network state; its steps are the calls of \<^verbatim>\<open>connect\<close> and
  \<^verbatim>\<open>disconnect\<close>, the firing of a timer, the settling of an outstanding poll and the two events
  of the network state provider. A timer and an abort controller are identities given in order,
  from 1. \<^verbatim>\<open>setTimeout\<close> adds a pending timer; \<^verbatim>\<open>clearTimeout\<close> takes it away. A random number
  is an input of the step that draws it. Handlers do not throw.
\<close>

section \<open>The connection state machine\<close>

fun VALID_TRANSITIONS :: "connection_state \<Rightarrow> connection_state list" where
  "VALID_TRANSITIONS Idle = [Connecting]"
| "VALID_TRANSITIONS Connecting = [Connected, Disconnected]"
| "VALID_TRANSITIONS Connected = [Reconnecting, Disconnected]"
| "VALID_TRANSITIONS Reconnecting = [Connected, Disconnected]"
| "VALID_TRANSITIONS Disconnected = [Connecting, Reconnecting]"

fun state_name :: "connection_state \<Rightarrow> string" where
  "state_name Idle = ''idle''"
| "state_name Connecting = ''connecting''"
| "state_name Connected = ''connected''"
| "state_name Reconnecting = ''reconnecting''"
| "state_name Disconnected = ''disconnected''"

record connection_machine =
  cm_state :: connection_state
  cm_handlers :: "nat list"
  cm_calls :: "(nat \<times> connection_state) list"

definition createConnectionStateMachine :: connection_machine where
  "createConnectionStateMachine = \<lparr>cm_state = Idle, cm_handlers = [], cm_calls = []\<rparr>"

definition machine_transition ::
  "connection_state \<Rightarrow> connection_machine \<Rightarrow> string + connection_machine" where
  "machine_transition dest m =
     (if dest \<notin> set (VALID_TRANSITIONS (cm_state m))
      then Inl (''Invalid state transition: '' @ state_name (cm_state m) @ '' -> '' @ state_name dest)
      else Inr (m\<lparr>cm_state := dest,
                  cm_calls := cm_calls m @ map (\<lambda>h. (h, dest)) (cm_handlers m)\<rparr>))"

definition machine_onStateChange :: "nat \<Rightarrow> connection_machine \<Rightarrow> connection_machine" where
  "machine_onStateChange h m = m\<lparr>cm_handlers := set_add h (cm_handlers m)\<rparr>"

definition machine_offStateChange :: "nat \<Rightarrow> connection_machine \<Rightarrow> connection_machine" where
  "machine_offStateChange h m = m\<lparr>cm_handlers := set_delete h (cm_handlers m)\<rparr>"

section \<open>Configuration and state of the client\<close>

record adaptive_polling =
  ap_minIntervalMs :: real
  ap_maxIntervalMs :: real
  ap_idleIncrementMs :: real
  ap_backgroundIntervalMs :: real

definition DEFAULT_ADAPTIVE :: adaptive_polling where
  "DEFAULT_ADAPTIVE =
     \<lparr>ap_minIntervalMs = 1000, ap_maxIntervalMs = 30000, ap_idleIncrementMs = 2000,
      ap_backgroundIntervalMs = 60000\<rparr>"

definition DEFAULT_LP_RETRY :: retry_config where
  "DEFAULT_LP_RETRY =
     \<lparr>rc_maxRetries = 3, rc_baseDelayMs = 1000, rc_maxDelayMs = 30000, rc_jitterFactor = 1 / 2\<rparr>"

definition DEFAULT_SERVER_HOLD_TIMEOUT_MS :: int where
  "DEFAULT_SERVER_HOLD_TIMEOUT_MS = 20000"

record sync_response =
  sr_inbox :: "js_value list"
  sr_cursor :: string
  sr_retryMs :: "real option"

record sync_request =
  sq_cursor :: string
  sq_timeoutMs :: int

record long_poll_config =
  lc_url :: string
  lc_holdTimeout :: int
  lc_adaptive :: adaptive_polling
  lc_retry :: retry_config
  lc_hasProvider :: bool

text \<open>A poll under way: its abort signal and the request it sent.\<close>

record poll =
  pl_signal :: nat
  pl_request :: sync_request
  pl_timeoutMs :: int

datatype poll_output = Messages nat "js_value list" | Reconnect nat

record long_poll =
  lp_machine :: connection_machine
  lp_cursor :: string
  lp_interval :: real
  lp_isBackground :: bool
  lp_errorCount :: nat
  lp_controller :: "nat option"
  lp_pollTimer :: "nat option"
  lp_isPolling :: bool
  lp_messageHandlers :: "nat list"
  lp_reconnectHandlers :: "nat list"
  lp_cleanups :: nat
  lp_timers :: "(nat \<times> real) list"
  lp_nextTimer :: nat
  lp_polls :: "poll list"
  lp_nextSignal :: nat
  lp_aborted :: "nat list"
  lp_output :: "poll_output list"

type_synonym 'a lp_io = "(long_poll, string, 'a) io"

definition createLongPollConfig ::
  "string \<Rightarrow> int option \<Rightarrow> adaptive_polling option \<Rightarrow> retry_config option \<Rightarrow> bool \<Rightarrow>
   long_poll_config" where
  "createLongPollConfig url hold adaptive retry hasProvider =
     \<lparr>lc_url = url,
      lc_holdTimeout = (case hold of None \<Rightarrow> DEFAULT_SERVER_HOLD_TIMEOUT_MS | Some h \<Rightarrow> h),
      lc_adaptive = (case adaptive of None \<Rightarrow> DEFAULT_ADAPTIVE | Some a \<Rightarrow> a),
      lc_retry = (case retry of None \<Rightarrow> DEFAULT_LP_RETRY | Some r \<Rightarrow> r),
      lc_hasProvider = hasProvider\<rparr>"

definition createLongPollClient :: "long_poll_config \<Rightarrow> long_poll" where
  "createLongPollClient config =
     \<lparr>lp_machine = createConnectionStateMachine, lp_cursor = [],
      lp_interval = ap_minIntervalMs (lc_adaptive config), lp_isBackground = False,
      lp_errorCount = 0, lp_controller = None, lp_pollTimer = None, lp_isPolling = False,
      lp_messageHandlers = [], lp_reconnectHandlers = [], lp_cleanups = 0, lp_timers = [],
      lp_nextTimer = 1, lp_polls = [], lp_nextSignal = 1, lp_aborted = [], lp_output = []\<rparr>"

abbreviation lp_state :: "long_poll \<Rightarrow> connection_state" where
  "lp_state s \<equiv> cm_state (lp_machine s)"

definition lp_onMessage :: "nat \<Rightarrow> long_poll \<Rightarrow> long_poll" where
  "lp_onMessage h s = s\<lparr>lp_messageHandlers := set_add h (lp_messageHandlers s)\<rparr>"

definition lp_onReconnected :: "nat \<Rightarrow> long_poll \<Rightarrow> long_poll" where
  "lp_onReconnected h s = s\<lparr>lp_reconnectHandlers := set_add h (lp_reconnectHandlers s)\<rparr>"

definition lp_onStateChange :: "nat \<Rightarrow> long_poll \<Rightarrow> long_poll" where
  "lp_onStateChange h s = s\<lparr>lp_machine := machine_onStateChange h (lp_machine s)\<rparr>"

section \<open>Operations\<close>

definition lp_transition :: "connection_state \<Rightarrow> unit lp_io" where
  "lp_transition dest = (\<lambda>s. case machine_transition dest (lp_machine s) of
       Inl e \<Rightarrow> (Inl e, s) | Inr m \<Rightarrow> (Inr (), s\<lparr>lp_machine := m\<rparr>))"

definition schedulePoll :: "real \<Rightarrow> unit lp_io" where
  "schedulePoll delayMs = io_modify (\<lambda>s. s\<lparr>lp_timers := lp_timers s @ [(lp_nextTimer s, delayMs)],
     lp_pollTimer := Some (lp_nextTimer s), lp_nextTimer := lp_nextTimer s + 1\<rparr>)"

definition clear_poll_timer :: "long_poll \<Rightarrow> long_poll" where
  "clear_poll_timer s =
     (case lp_pollTimer s of
        None \<Rightarrow> s
      | Some t \<Rightarrow> s\<lparr>lp_timers := filter (\<lambda>(k, _). k \<noteq> t) (lp_timers s), lp_pollTimer := None\<rparr>)"

definition abort_controller :: "long_poll \<Rightarrow> long_poll" where
  "abort_controller s =
     (case lp_controller s of
        None \<Rightarrow> s
      | Some c \<Rightarrow> s\<lparr>lp_aborted := set_add c (lp_aborted s)\<rparr>)"

definition subscribeToNetworkState :: "long_poll_config \<Rightarrow> unit lp_io" where
  "subscribeToNetworkState config =
     io_modify (\<lambda>s. if lc_hasProvider config then s\<lparr>lp_cleanups := lp_cleanups s + 1\<rparr> else s)"

definition startPolling :: "long_poll_config \<Rightarrow> unit lp_io" where
  "startPolling config = io_bind (io_gets lp_state) (\<lambda>state.
     if state \<noteq> Idle \<and> state \<noteq> Disconnected then io_return ()
     else io_then (lp_transition Connecting)
            (io_then (subscribeToNetworkState config) (schedulePoll 0)))"

definition stopPolling :: "unit lp_io" where
  "stopPolling =
     io_then (io_modify (\<lambda>s. (clear_poll_timer ((abort_controller s)\<lparr>lp_controller := None\<rparr>))
                \<lparr>lp_isPolling := False, lp_cleanups := 0\<rparr>))
       (io_bind (io_gets lp_state) (\<lambda>current.
          if current \<noteq> Idle \<and> current \<noteq> Disconnected then lp_transition Disconnected
          else io_return ()))"

definition ensureReconnectingState :: "unit lp_io" where
  "ensureReconnectingState = io_bind (io_gets lp_state) (\<lambda>state.
     if state = Disconnected then lp_transition Reconnecting else io_return ())"

text \<open>\<^verbatim>\<open>executePollRequest\<close> up to its \<^verbatim>\<open>await\<close>: the request is sent.\<close>

definition executePollRequest :: "long_poll_config \<Rightarrow> unit lp_io" where
  "executePollRequest config = io_modify (\<lambda>s. s\<lparr>lp_polls := lp_polls s @
     [\<lparr>pl_signal = (case lp_controller s of None \<Rightarrow> 0 | Some c \<Rightarrow> c),
       pl_request = \<lparr>sq_cursor = lp_cursor s, sq_timeoutMs = lc_holdTimeout config\<rparr>,
       pl_timeoutMs = lc_holdTimeout config + 5000\<rparr>]\<rparr>)"

text \<open>\<^verbatim>\<open>executePollCycle\<close> up to its \<^verbatim>\<open>await\<close>; what follows is \<open>poll_settles\<close>.\<close>

definition executePollCycle :: "long_poll_config \<Rightarrow> unit lp_io" where
  "executePollCycle config = io_bind (io_gets lp_isPolling) (\<lambda>busy.
     if busy then io_return ()
     else io_then (io_modify (\<lambda>s. s\<lparr>lp_isPolling := True, lp_controller := Some (lp_nextSignal s),
                                    lp_nextSignal := lp_nextSignal s + 1\<rparr>))
            (io_then ensureReconnectingState (executePollRequest config)))"

definition computeNextInterval ::
  "long_poll_config \<Rightarrow> long_poll \<Rightarrow> bool \<Rightarrow> real option \<Rightarrow> real" where
  "computeNextInterval config s hasData serverRetryMs =
     (case serverRetryMs of
        Some r \<Rightarrow> r
      | None \<Rightarrow>
          if lp_isBackground s then ap_backgroundIntervalMs (lc_adaptive config)
          else if hasData then ap_minIntervalMs (lc_adaptive config)
          else min (lp_interval s + ap_idleIncrementMs (lc_adaptive config))
                   (ap_maxIntervalMs (lc_adaptive config)))"

definition transitionToConnected :: "unit lp_io" where
  "transitionToConnected = io_bind (io_gets lp_state) (\<lambda>state.
     if state = Connecting \<or> state = Reconnecting then lp_transition Connected else io_return ())"

definition deliverMessages :: "sync_response \<Rightarrow> unit lp_io" where
  "deliverMessages response = io_modify (\<lambda>s.
     if sr_inbox response = [] then s
     else s\<lparr>lp_output := lp_output s @
             map (\<lambda>h. Messages h (sr_inbox response)) (lp_messageHandlers s)\<rparr>)"

definition handlePollSuccess :: "long_poll_config \<Rightarrow> sync_response \<Rightarrow> unit lp_io" where
  "handlePollSuccess config response = io_bind (io_gets (\<lambda>s. lp_state s = Reconnecting)) (\<lambda>was.
     io_then transitionToConnected
     (io_then (io_modify (\<lambda>s. if was
                 then s\<lparr>lp_output := lp_output s @ map Reconnect (lp_reconnectHandlers s)\<rparr> else s))
     (io_then (io_modify (\<lambda>s. s\<lparr>lp_errorCount := 0, lp_cursor := sr_cursor response\<rparr>))
     (io_then (deliverMessages response)
     (io_bind (io_gets (\<lambda>s. computeNextInterval config s (sr_inbox response \<noteq> [])
                 (sr_retryMs response))) (\<lambda>nextInterval.
      io_then (io_modify (\<lambda>s. s\<lparr>lp_interval := nextInterval\<rparr>)) (schedulePoll nextInterval)))))))"

definition poll_backoff :: "retry_config \<Rightarrow> nat \<Rightarrow> real \<Rightarrow> real" where
  "poll_backoff retry attempt random =
     (let exponential = min (real_of_int (rc_baseDelayMs retry) * 2 ^ attempt)
                          (real_of_int (rc_maxDelayMs retry))
      in exponential + random * rc_jitterFactor retry * exponential)"

definition handlePollError :: "long_poll_config \<Rightarrow> real \<Rightarrow> unit lp_io" where
  "handlePollError config random =
     io_then (io_modify (\<lambda>s. s\<lparr>lp_errorCount := lp_errorCount s + 1\<rparr>))
     (io_bind (io_gets lp_state) (\<lambda>state.
      io_then (if state = Connected then lp_transition Reconnecting else io_return ())
      (io_then (if state = Connecting then lp_transition Disconnected else io_return ())
      (io_bind (io_gets lp_errorCount) (\<lambda>n.
       schedulePoll (poll_backoff (lc_retry config) (n - 1) random))))))"

text \<open>The rest of \<^verbatim>\<open>executePollCycle\<close>, once the poll at index \<open>i\<close> has settled.\<close>

definition poll_settles ::
  "long_poll_config \<Rightarrow> nat \<Rightarrow> real \<Rightarrow> sync_response option \<Rightarrow> unit lp_io" where
  "poll_settles config i random result = (\<lambda>s.
     if i < length (lp_polls s)
     then io_then (io_modify (\<lambda>s. s\<lparr>lp_polls := take i (lp_polls s) @ drop (Suc i) (lp_polls s)\<rparr>))
            (io_finally
              (io_catch
                (case result of
                   Some response \<Rightarrow> handlePollSuccess config response
                 | None \<Rightarrow> io_throw [])
                (\<lambda>_. handlePollError config random))
              (\<lambda>s. s\<lparr>lp_isPolling := False\<rparr>)) s
     else (Inr (), s))"

definition pausePolling :: "long_poll \<Rightarrow> long_poll" where
  "pausePolling s = abort_controller (clear_poll_timer s)"

definition resumePolling :: "unit lp_io" where
  "resumePolling = io_bind (io_gets lp_state) (\<lambda>state.
     if state = Idle \<or> state = Disconnected then io_return () else schedulePoll 0)"

definition triggerImmediateRepoll :: "unit lp_io" where
  "triggerImmediateRepoll = io_bind (io_gets lp_isPolling) (\<lambda>busy.
     if busy then io_return () else io_then (io_modify clear_poll_timer) (schedulePoll 0))"

fun repeat_io :: "nat \<Rightarrow> unit lp_io \<Rightarrow> unit lp_io" where
  "repeat_io 0 m = io_return ()"
| "repeat_io (Suc n) m = io_then m (repeat_io n m)"

section \<open>Steps\<close>

datatype poll_event =
    Connect
  | Disconnect
  | TimerFires nat
  | PollSucceeds nat sync_response real
  | PollFails nat real
  | NetworkChanges bool
  | InterfaceChanges

text \<open>
  A timer that fires leaves the list of the pending ones but stays in \<open>lp_pollTimer\<close>, as the code
  does not reset it. Every subscription calls its handler.
\<close>

fun lp_step :: "long_poll_config \<Rightarrow> poll_event \<Rightarrow> unit lp_io" where
  "lp_step config Connect = startPolling config"
| "lp_step config Disconnect = stopPolling"
| "lp_step config (TimerFires t) = (\<lambda>s.
     if t \<in> fst ` set (lp_timers s)
     then io_then (io_modify (\<lambda>s. s\<lparr>lp_timers := filter (\<lambda>(k, _). k \<noteq> t) (lp_timers s)\<rparr>))
            (executePollCycle config) s
     else (Inr (), s))"
| "lp_step config (PollSucceeds i response random) =
     poll_settles config i random (Some response)"
| "lp_step config (PollFails i random) = poll_settles config i random None"
| "lp_step config (NetworkChanges isOnline) = (\<lambda>s.
     repeat_io (lp_cleanups s) (if isOnline then resumePolling else io_modify pausePolling) s)"
| "lp_step config InterfaceChanges = (\<lambda>s. repeat_io (lp_cleanups s) triggerImmediateRepoll s)"

fun lp_run :: "long_poll_config \<Rightarrow> poll_event list \<Rightarrow> unit lp_io" where
  "lp_run config [] = io_return ()"
| "lp_run config (e # es) = io_then (lp_step config e) (lp_run config es)"

lemmas lp_defs = startPolling_def stopPolling_def executePollCycle_def ensureReconnectingState_def
  executePollRequest_def handlePollSuccess_def handlePollError_def transitionToConnected_def
  deliverMessages_def schedulePoll_def subscribeToNetworkState_def resumePolling_def
  triggerImmediateRepoll_def pausePolling_def clear_poll_timer_def abort_controller_def

section \<open>The machine is never driven out of its table\<close>

lemma fst_lp_transition:
  "d \<in> set (VALID_TRANSITIONS (lp_state s)) \<Longrightarrow>
   lp_transition d s = (Inr (), s\<lparr>lp_machine := (lp_machine s)\<lparr>cm_state := d,
     cm_calls := cm_calls (lp_machine s) @ map (\<lambda>h. (h, d)) (cm_handlers (lp_machine s))\<rparr>\<rparr>)"
  by (simp add: lp_transition_def machine_transition_def)

lemma lp_ops_return:
  "fst (startPolling config s) = Inr ()"
  "fst (stopPolling s) = Inr ()"
  "fst (executePollCycle config s) = Inr ()"
  "fst (handlePollSuccess config response s) = Inr ()"
  "fst (handlePollError config random s) = Inr ()"
  "fst (resumePolling s) = Inr ()"
  "fst (triggerImmediateRepoll s) = Inr ()"
  by (cases "lp_state s"; simp add: lp_defs io_simps fst_lp_transition split: option.splits; fail)+

lemma repeat_io_returns: "(\<And>s. fst (m s) = Inr ()) \<Longrightarrow> fst (repeat_io n m s) = Inr ()"
proof (induction n arbitrary: s)
  case (Suc n)
  then show ?case by (simp add: io_then_Inr [OF Suc.prems])
qed (simp add: io_simps)

lemma poll_settles_returns: "fst (poll_settles config i random result s) = Inr ()"
proof (cases result)
  case None
  then show ?thesis by (simp add: poll_settles_def io_simps lp_ops_return)
next
  case (Some r)
  then show ?thesis
    by (simp add: poll_settles_def io_then_simp io_modify_simp io_finally_simp
        io_catch_Inr [OF lp_ops_return(4)] lp_ops_return)
qed

lemma lp_step_returns: "fst (lp_step config e s) = Inr ()"
proof (cases e)
  case (NetworkChanges b)
  then show ?thesis by (auto simp: io_simps lp_ops_return intro!: repeat_io_returns)
qed (auto simp: io_simps lp_ops_return poll_settles_returns intro!: repeat_io_returns)

lemma lp_run_returns: "fst (lp_run config es s) = Inr ()"
proof (induction es arbitrary: s)
  case (Cons e es)
  then show ?case by (simp add: io_then_Inr [OF lp_step_returns])
qed (simp add: io_simps)

lemma lp_run_Cons: "snd (lp_run config (e # es) s) = snd (lp_run config es (snd (lp_step config e s)))"
  by (simp add: io_then_Inr [OF lp_step_returns])

text \<open>What holds in the machine and is kept by its valid transitions is kept by every step.\<close>

lemma keeps_lp_transition:
  assumes "\<And>m m'. P m \<Longrightarrow> machine_transition d m = Inr m' \<Longrightarrow> P m'"
  shows "keeps (\<lambda>s. P (lp_machine s)) (lp_transition d)"
  using assms by (auto simp: keeps_def lp_transition_def split: sum.splits)

lemma keeps_repeat_io [keeps_intros]: "keeps P m \<Longrightarrow> keeps P (repeat_io n m)"
  by (induction n) (auto intro!: keeps_intros)

lemma keeps_poll_settles:
  assumes polls: "\<And>s ps. P s \<Longrightarrow> P (s\<lparr>lp_polls := ps\<rparr>)"
    and busy: "\<And>s. P s \<Longrightarrow> P (s\<lparr>lp_isPolling := False\<rparr>)"
    and succ: "\<And>r. result = Some r \<Longrightarrow> keeps P (handlePollSuccess config r)"
    and err: "keeps P (handlePollError config q)"
  shows "keeps P (poll_settles config i q result)"
proof
  fix s
  assume "P s"
  then have t: "P (s\<lparr>lp_polls := take i (lp_polls s) @ drop (Suc i) (lp_polls s)\<rparr>)"
    by (rule polls)
  have "keeps P (io_finally
      (io_catch (case result of Some response \<Rightarrow> handlePollSuccess config response | None \<Rightarrow> io_throw [])
        (\<lambda>_. handlePollError config q)) (\<lambda>s. s\<lparr>lp_isPolling := False\<rparr>))"
    by (intro keeps_finally keeps_catch err busy) (auto intro: keeps_throw succ split: option.splits)
  from keepsD [OF this t] show "P (snd (poll_settles config i q result s))"
    using \<open>P s\<close> by (simp add: poll_settles_def io_then_simp io_modify_simp)
qed

lemma keeps_timer_fires:
  assumes "\<And>s ts. P s \<Longrightarrow> set ts \<subseteq> set (lp_timers s) \<Longrightarrow> P (s\<lparr>lp_timers := ts\<rparr>)"
    and "keeps P (executePollCycle config)"
  shows "keeps P (lp_step config (TimerFires t))"
proof
  fix s
  assume "P s"
  then have "P (s\<lparr>lp_timers := filter (\<lambda>(k, _). k \<noteq> t) (lp_timers s)\<rparr>)"
    by (intro assms(1)) auto
  from keepsD [OF assms(2) this] show "P (snd (lp_step config (TimerFires t) s))"
    using \<open>P s\<close> by (simp add: io_then_simp io_modify_simp)
qed

lemma keeps_machine_step:
  assumes trans: "\<And>m m' d. Q m \<Longrightarrow> machine_transition d m = Inr m' \<Longrightarrow> Q m'"
  shows "keeps (\<lambda>s. Q (lp_machine s)) (lp_step config e)"
proof -
  let ?P = "\<lambda>s. Q (lp_machine s)"
  note intros = keeps_intros keeps_lp_transition [OF trans]
  have sch: "keeps ?P (schedulePoll d)" for d
    unfolding schedulePoll_def by (intro keeps_intros) simp
  have start: "keeps ?P (startPolling config)"
    unfolding startPolling_def subscribeToNetworkState_def by (intro intros sch) auto
  have stop: "keeps ?P stopPolling"
    unfolding stopPolling_def by (intro intros) (auto simp: clear_poll_timer_def abort_controller_def
      split: option.splits)
  have cycle: "keeps ?P (executePollCycle config)"
    unfolding executePollCycle_def ensureReconnectingState_def executePollRequest_def
    by (intro intros) auto
  have succ: "keeps ?P (handlePollSuccess config r)" for r
    unfolding handlePollSuccess_def transitionToConnected_def deliverMessages_def
    by (intro intros sch) auto
  have err: "keeps ?P (handlePollError config q)" for q
    unfolding handlePollError_def by (intro intros sch) auto
  have settles: "keeps ?P (poll_settles config i q result)" for i q result
    by (rule keeps_poll_settles) (simp_all add: succ err)
  have timer: "keeps ?P (lp_step config (TimerFires t))" for t
    by (rule keeps_timer_fires) (simp_all add: cycle)
  have net: "keeps ?P (repeat_io n (if b then resumePolling else io_modify pausePolling))" for n b
    unfolding resumePolling_def
    by (intro intros sch) (auto simp: pausePolling_def clear_poll_timer_def abort_controller_def
      split: option.splits)
  have intf: "keeps ?P (repeat_io n triggerImmediateRepoll)" for n
    unfolding triggerImmediateRepoll_def
    by (intro intros sch) (auto simp: clear_poll_timer_def split: option.splits)
  show ?thesis
    using start stop settles timer keepsD [OF net] keepsD [OF intf]
    by (cases e) (auto simp: keeps_def)
qed

definition valid_path :: "connection_state list \<Rightarrow> bool" where
  "valid_path p = successively (\<lambda>a b. b \<in> set (VALID_TRANSITIONS a)) p"

definition observed :: "nat \<Rightarrow> connection_machine \<Rightarrow> bool" where
  "observed h m = (cm_handlers m = [h] \<and>
     (\<exists>p. cm_calls m = map (Pair h) p \<and> valid_path (Idle # p) \<and> cm_state m = last (Idle # p)))"

lemma observed_transition:
  assumes "observed h m" "machine_transition d m = Inr m'"
  shows "observed h m'"
proof -
  from assms(1) obtain p where p: "cm_calls m = map (Pair h) p" "valid_path (Idle # p)"
    "cm_state m = last (Idle # p)" and h: "cm_handlers m = [h]"
    by (auto simp: observed_def)
  from assms(2) have d: "d \<in> set (VALID_TRANSITIONS (last (Idle # p)))"
    and m': "m' = m\<lparr>cm_state := d, cm_calls := cm_calls m @ map (\<lambda>h. (h, d)) (cm_handlers m)\<rparr>"
    using p(3) by (auto simp: machine_transition_def split: if_splits)
  have "valid_path ((Idle # p) @ [d])"
    using p(2) d unfolding valid_path_def successively_append_iff by simp
  then have path: "valid_path (Idle # (p @ [d]))" by simp
  have "cm_calls m' = map (Pair h) (p @ [d]) \<and> valid_path (Idle # (p @ [d])) \<and>
      cm_state m' = last (Idle # (p @ [d]))"
    using path by (simp add: m' p(1) h)
  moreover have "cm_handlers m' = [h]" using h m' by simp
  ultimately show ?thesis unfolding observed_def by blast
qed

lemma observed_run: "observed h (lp_machine s) \<Longrightarrow> observed h (lp_machine (snd (lp_run config es s)))"
proof (induction es arbitrary: s)
  case (Cons e es)
  have "observed h (lp_machine (snd (lp_step config e s)))"
    using keepsD [OF keeps_machine_step [of "observed h"]] observed_transition Cons.prems by blast
  with Cons.IH show ?case unfolding lp_run_Cons by blast
qed (simp add: io_simps)

text \<open>
  The client never drives its connection machine out of the table. Whatever happens, in whatever
  order, no step throws (\<^verbatim>\<open>transition\<close> is only called with allowed targets, so an exception
  cannot escape into a timer callback), and a handler subscribed from the start sees a sequence of
  states that begins after \<^verbatim>\<open>idle\<close>, follows \<^verbatim>\<open>VALID_TRANSITIONS\<close> and ends in the state
  that \<^verbatim>\<open>getState()\<close> returns.
\<close>

theorem connection_follows_the_table:
  "fst (lp_run config es (lp_onStateChange h (createLongPollClient config))) = Inr () \<and>
   (\<exists>p. cm_calls (lp_machine (snd (lp_run config es
            (lp_onStateChange h (createLongPollClient config))))) = map (Pair h) p \<and>
        valid_path (Idle # p) \<and>
        lp_state (snd (lp_run config es (lp_onStateChange h (createLongPollClient config))))
          = last (Idle # p))"
proof -
  have "observed h (lp_machine (lp_onStateChange h (createLongPollClient config)))"
    by (simp add: observed_def lp_onStateChange_def createLongPollClient_def
        createConnectionStateMachine_def machine_onStateChange_def set_add_def valid_path_def)
  from observed_run [OF this, of config es] show ?thesis
    unfolding observed_def lp_run_returns by simp
qed

section \<open>How soon and how late a poll is scheduled\<close>

definition polling_config_ok :: "real \<Rightarrow> real \<Rightarrow> long_poll_config \<Rightarrow> bool" where
  "polling_config_ok lo hi config =
     (let a = lc_adaptive config; r = lc_retry config in
      0 \<le> lo \<and> lo \<le> ap_minIntervalMs a \<and> ap_minIntervalMs a \<le> ap_maxIntervalMs a \<and>
      ap_maxIntervalMs a \<le> hi \<and> 0 \<le> ap_idleIncrementMs a \<and>
      lo \<le> real_of_int (rc_baseDelayMs r) \<and> lo \<le> real_of_int (rc_maxDelayMs r) \<and>
      0 \<le> rc_jitterFactor r \<and> (1 + rc_jitterFactor r) * real_of_int (rc_maxDelayMs r) \<le> hi)"

fun poll_event_ok :: "real \<Rightarrow> real \<Rightarrow> poll_event \<Rightarrow> bool" where
  "poll_event_ok lo hi (PollSucceeds i response random) =
     (0 \<le> random \<and> random < 1 \<and>
      (case sr_retryMs response of None \<Rightarrow> True | Some r \<Rightarrow> lo \<le> r \<and> r \<le> hi))"
| "poll_event_ok lo hi (PollFails i random) = (0 \<le> random \<and> random < 1)"
| "poll_event_ok lo hi _ = True"

definition delays_ok :: "real \<Rightarrow> real \<Rightarrow> long_poll \<Rightarrow> bool" where
  "delays_ok lo hi s =
     (\<not> lp_isBackground s \<and> lo \<le> lp_interval s \<and> lp_interval s \<le> hi \<and>
      (\<forall>d \<in> snd ` set (lp_timers s). d = 0 \<or> (lo \<le> d \<and> d \<le> hi)))"

lemma poll_backoff_bounds:
  assumes "polling_config_ok lo hi config" "0 \<le> random" "random < 1"
  shows "lo \<le> poll_backoff (lc_retry config) n random \<and> poll_backoff (lc_retry config) n random \<le> hi"
proof -
  let ?r = "lc_retry config"
  let ?b = "real_of_int (rc_baseDelayMs ?r)" and ?m = "real_of_int (rc_maxDelayMs ?r)"
    and ?j = "rc_jitterFactor ?r"
  have c: "0 \<le> lo" "lo \<le> ?b" "lo \<le> ?m" "0 \<le> ?j" "(1 + ?j) * ?m \<le> hi"
    using assms(1) by (simp_all add: polling_config_ok_def Let_def)
  obtain E where E: "E = min (?b * 2 ^ n) ?m" by blast
  have "?b * 1 \<le> ?b * 2 ^ n" using c(1,2) by (intro mult_left_mono) simp_all
  with c have e: "lo \<le> E" "E \<le> ?m" "0 \<le> E" unfolding E by simp_all
  have "0 \<le> random * ?j * E" using assms(2) c(4) e(3) by simp
  moreover have "random * ?j * E \<le> 1 * ?j * ?m"
    using assms(2,3) c(4) e by (intro mult_mono) simp_all
  moreover have "(1 + ?j) * ?m = ?m + 1 * ?j * ?m" by (simp add: algebra_simps)
  ultimately have "lo \<le> E + random * ?j * E" "E + random * ?j * E \<le> hi"
    using e c(5) by linarith+
  then show ?thesis by (simp add: poll_backoff_def Let_def E)
qed

lemma delays_schedule:
  "d = 0 \<or> (lo \<le> d \<and> d \<le> hi) \<Longrightarrow> keeps (delays_ok lo hi) (schedulePoll d)"
  unfolding schedulePoll_def by (intro keeps_intros) (auto simp: delays_ok_def)

lemma delays_transition: "keeps (delays_ok lo hi) (lp_transition d)"
  by (auto simp: keeps_def lp_transition_def delays_ok_def split: sum.splits)

lemma keeps_get:
  "(\<And>s. P s \<Longrightarrow> P (snd (f (g s) s))) \<Longrightarrow> keeps P (io_bind (io_gets g) f)"
  by (simp add: keeps_def io_simps)

lemma delays_clear: "delays_ok lo hi s \<Longrightarrow> delays_ok lo hi (clear_poll_timer s)"
  by (auto simp: delays_ok_def clear_poll_timer_def split: option.splits)

lemma delays_abort: "delays_ok lo hi s \<Longrightarrow> delays_ok lo hi (abort_controller s)"
  by (auto simp: delays_ok_def abort_controller_def split: option.splits)

lemma delays_step:
  assumes cfg: "polling_config_ok lo hi config" and ev: "poll_event_ok lo hi e"
  shows "keeps (delays_ok lo hi) (lp_step config e)"
proof -
  let ?P = "delays_ok lo hi"
  note intros = keeps_intros delays_transition delays_schedule
  have up: "delays_ok lo hi (f s)" if "delays_ok lo hi s" "lp_timers (f s) = lp_timers s"
    "lp_interval (f s) = lp_interval s" "lp_isBackground (f s) = lp_isBackground s" for f s
    using that by (simp add: delays_ok_def)
  have start: "keeps ?P (startPolling config)"
    unfolding startPolling_def subscribeToNetworkState_def by (intro intros) (auto intro: up)
  have stop: "keeps ?P stopPolling"
    unfolding stopPolling_def
  proof (intro intros)
    fix s assume "?P s"
    then have "?P ((abort_controller s)\<lparr>lp_controller := None\<rparr>)"
      using delays_abort [of lo hi s] by (simp add: delays_ok_def)
    from delays_clear [OF this] show "?P ((clear_poll_timer ((abort_controller s)\<lparr>lp_controller := None\<rparr>))
        \<lparr>lp_isPolling := False, lp_cleanups := 0\<rparr>)" by (simp add: delays_ok_def)
  qed
  have cycle: "keeps ?P (executePollCycle config)"
    unfolding executePollCycle_def ensureReconnectingState_def executePollRequest_def
    by (intro intros) (auto simp: delays_ok_def)
  have succ: "keeps ?P (handlePollSuccess config r)"
    if "case sr_retryMs r of None \<Rightarrow> True | Some x \<Rightarrow> lo \<le> x \<and> x \<le> hi" for r
  proof -
    have fin: "?P (snd (io_then (io_modify (\<lambda>s. s\<lparr>lp_interval := computeNextInterval config t b
        (sr_retryMs r)\<rparr>)) (schedulePoll (computeNextInterval config t b (sr_retryMs r))) t))"
      if "?P t" for t b
      using that cfg \<open>case sr_retryMs r of None \<Rightarrow> True | Some x \<Rightarrow> lo \<le> x \<and> x \<le> hi\<close>
      by (auto simp: io_simps schedulePoll_def delays_ok_def computeNextInterval_def
          polling_config_ok_def Let_def split: option.splits)
    show ?thesis
      unfolding handlePollSuccess_def transitionToConnected_def deliverMessages_def
      by (intro keeps_then keeps_get fin keepsD [OF delays_transition] keeps_intros delays_transition)
        (auto simp: delays_ok_def)
  qed
  have err: "keeps ?P (handlePollError config q)" if "0 \<le> q" "q < 1" for q
    unfolding handlePollError_def
    by (intro intros disjI2 poll_backoff_bounds [OF cfg that]) (auto simp: delays_ok_def)
  have settles: "keeps ?P (poll_settles config i q result)"
    if "0 \<le> q" "q < 1" "case result of None \<Rightarrow> True | Some r \<Rightarrow>
        (case sr_retryMs r of None \<Rightarrow> True | Some x \<Rightarrow> lo \<le> x \<and> x \<le> hi)" for i q result
    using that succ err [OF that(1,2)]
    by (intro keeps_poll_settles) (simp_all add: delays_ok_def)
  have timer: "keeps ?P (lp_step config (TimerFires t))" for t
    by (rule keeps_timer_fires) (auto simp: cycle delays_ok_def)
  have net: "keeps ?P (repeat_io n (if b then resumePolling else io_modify pausePolling))" for n b
    unfolding resumePolling_def pausePolling_def
    by (intro intros delays_abort delays_clear) auto
  have intf: "keeps ?P (repeat_io n triggerImmediateRepoll)" for n
    unfolding triggerImmediateRepoll_def by (intro intros delays_clear) auto
  show ?thesis
    using ev start stop settles timer keepsD [OF net] keepsD [OF intf]
    by (cases e) (auto simp: keeps_def)
qed

lemma delays_run:
  assumes "polling_config_ok lo hi config" "\<forall>e \<in> set es. poll_event_ok lo hi e" "delays_ok lo hi s"
  shows "delays_ok lo hi (snd (lp_run config es s))"
  using assms(2,3)
proof (induction es arbitrary: s)
  case (Cons e es)
  then show ?case
    unfolding lp_run_Cons using keepsD [OF delays_step [OF assms(1)]] by simp
qed (simp add: io_simps)

text \<open>
  The client polls neither too fast nor too slowly: at any time every pending timer was set
  either at once (by \<^verbatim>\<open>connect\<close> or a network change) or for a delay between \<open>lo\<close> and \<open>hi\<close>, for
  any \<open>lo\<close> below the least interval, base and largest delay of the configuration and any \<open>hi\<close>
  above its largest interval and its largest delay with full jitter, provided that the server's
  own \<^verbatim>\<open>retryMs\<close> is within them.
\<close>

theorem poll_delays_are_bounded:
  assumes "polling_config_ok lo hi config" and "\<forall>e \<in> set es. poll_event_ok lo hi e"
    and "(t, d) \<in> set (lp_timers (snd (lp_run config es (createLongPollClient config))))"
  shows "d = 0 \<or> (lo \<le> d \<and> d \<le> hi)"
proof -
  have "delays_ok lo hi (createLongPollClient config)"
    using assms(1) by (simp add: delays_ok_def createLongPollClient_def polling_config_ok_def Let_def)
  from delays_run [OF assms(1,2) this] show ?thesis
    using assms(3) by (force simp: delays_ok_def)
qed


definition sample_poll_config :: long_poll_config where
  "sample_poll_config = createLongPollConfig ''/sync'' None None None True"

lemmas poll_samples = sample_poll_config_def createLongPollConfig_def DEFAULT_ADAPTIVE_def
  DEFAULT_LP_RETRY_def DEFAULT_SERVER_HOLD_TIMEOUT_MS_def createLongPollClient_def
  createConnectionStateMachine_def

theorem poll_delays_are_bounded_witness:
  "list_all (\<lambda>(t, d). d = 0 \<or> (1000 \<le> d \<and> d \<le> 45000))
     (lp_timers (snd (lp_run sample_poll_config
        [Connect, TimerFires 1, PollFails 0 (1 / 2), TimerFires 2, PollFails 0 (3 / 4)]
        (createLongPollClient sample_poll_config))))"
proof -
  have c: "polling_config_ok 1000 45000 sample_poll_config"
    by (simp add: polling_config_ok_def poll_samples)
  have e: "\<forall>e \<in> set [Connect, TimerFires 1, PollFails 0 (1 / 2), TimerFires 2, PollFails 0 (3 / 4)].
      poll_event_ok 1000 45000 e" by simp
  show ?thesis using poll_delays_are_bounded [OF c e] unfolding list_all_iff by blast
qed

section \<open>Disconnecting\<close>

text \<open>Nothing pending, nothing subscribed.\<close>

definition lp_quiet :: "long_poll \<Rightarrow> bool" where
  "lp_quiet s = (lp_timers s = [] \<and> lp_polls s = [] \<and> lp_cleanups s = 0 \<and>
     (lp_state s = Idle \<or> lp_state s = Disconnected))"

lemma quiet_step:
  assumes "lp_quiet s" "e \<noteq> Connect"
  shows "lp_quiet (snd (lp_step config e s)) \<and>
    lp_output (snd (lp_step config e s)) = lp_output s \<and>
    lp_nextSignal (snd (lp_step config e s)) = lp_nextSignal s"
proof -
  from assms(1) have q: "lp_timers s = []" "lp_polls s = []" "lp_cleanups s = 0"
    "lp_state s = Idle \<or> lp_state s = Disconnected" by (simp_all add: lp_quiet_def)
  show ?thesis
  proof (cases e)
    case Disconnect
    then show ?thesis
      using q by (cases "lp_controller s"; cases "lp_pollTimer s")
        (auto simp: lp_quiet_def io_simps stopPolling_def clear_poll_timer_def abort_controller_def)
  qed (use q assms in \<open>simp_all add: lp_quiet_def io_simps poll_settles_def\<close>)
qed

lemma quiet_run:
  "lp_quiet s \<Longrightarrow> Connect \<notin> set es \<Longrightarrow>
   lp_quiet (snd (lp_run config es s)) \<and> lp_output (snd (lp_run config es s)) = lp_output s \<and>
   lp_nextSignal (snd (lp_run config es s)) = lp_nextSignal s"
proof (induction es arbitrary: s)
  case (Cons e es)
  from Cons.prems(2) have e: "e \<noteq> Connect" "Connect \<notin> set es" by auto
  note step = quiet_step [OF Cons.prems(1) e(1), of config]
  from Cons.IH [OF conjunct1 [OF step] e(2)] step show ?case unfolding lp_run_Cons by simp
qed (simp add: io_simps)

text \<open>
  A client that is disconnected between two polls stays silent: when no answer is outstanding and
  the only pending timer is the one the client remembers, \<^verbatim>\<open>disconnect()\<close> leaves nothing behind,
  and until the next \<^verbatim>\<open>connect()\<close> no event makes the client send a poll, call a handler or
  leave the state \<^verbatim>\<open>disconnected\<close> (or \<^verbatim>\<open>idle\<close>).
\<close>

theorem disconnect_between_polls_is_final:
  assumes "lp_polls s = []"
    and "\<forall>p \<in> set (lp_timers s). lp_pollTimer s = Some (fst p)"
    and "Connect \<notin> set es"
  shows "(let s' = snd (lp_run config (Disconnect # es) s) in
    lp_polls s' = [] \<and> lp_timers s' = [] \<and> lp_nextSignal s' = lp_nextSignal s \<and>
    lp_output s' = lp_output s \<and> (lp_state s' = Idle \<or> lp_state s' = Disconnected))"
proof -
  have timers: "lp_timers (clear_poll_timer ((abort_controller s)\<lparr>lp_controller := None\<rparr>)) = []"
    using assms(2)
    by (cases "lp_timers s"; cases "lp_pollTimer s"; cases "lp_controller s")
      (auto simp: clear_poll_timer_def abort_controller_def filter_empty_conv)
  have "lp_quiet (snd (stopPolling s)) \<and> lp_output (snd (stopPolling s)) = lp_output s \<and>
      lp_nextSignal (snd (stopPolling s)) = lp_nextSignal s"
    using timers assms(1)
    by (cases "lp_state s") (auto simp: stopPolling_def io_simps fst_lp_transition lp_quiet_def
        clear_poll_timer_def abort_controller_def split: option.splits)
  then show ?thesis
    using quiet_run [of "snd (stopPolling s)" es config] assms(3)
    unfolding lp_run_Cons lp_step.simps Let_def lp_quiet_def by auto
qed

theorem disconnect_between_polls_is_final_witness:
  "lp_polls (snd (lp_run sample_poll_config (Disconnect # [NetworkChanges True, TimerFires 1])
     (snd (lp_run sample_poll_config [Connect] (createLongPollClient sample_poll_config))))) = []"
proof -
  let ?s = "snd (lp_run sample_poll_config [Connect] (createLongPollClient sample_poll_config))"
  have "lp_polls ?s = []" "\<forall>p \<in> set (lp_timers ?s). lp_pollTimer ?s = Some (fst p)"
    by (simp_all add: poll_samples lp_defs io_simps fst_lp_transition)
  from disconnect_between_polls_is_final [OF this, where config = sample_poll_config and
      es = "[NetworkChanges True, TimerFires 1]"]
  show ?thesis by (simp add: Let_def)
qed

text \<open>
  Disconnecting during a poll does not stop the polling. The poll in flight is aborted, but its
  failure is handled like any other: a new timer is set, and when it fires the client leaves the
  state \<^verbatim>\<open>disconnected\<close> by itself and polls again.
\<close>

theorem disconnect_during_a_poll_does_not_stop:
  "let s = snd (lp_run sample_poll_config
       [Connect, TimerFires 1, Disconnect, PollFails 0 (1 / 2), TimerFires 2]
       (createLongPollClient sample_poll_config)) in
   lp_state s = Reconnecting \<and> length (lp_polls s) = 1 \<and> lp_isPolling s"
  by (simp add: poll_samples lp_defs io_simps fst_lp_transition poll_settles_def set_add_def Let_def
      poll_backoff_def)

text \<open>The background interval is never used: nothing sets \<^verbatim>\<open>isBackground\<close>.\<close>

lemma never_in_background:
  assumes "polling_config_ok lo hi config" "\<forall>e \<in> set es. poll_event_ok lo hi e"
  shows "\<not> lp_isBackground (snd (lp_run config es (createLongPollClient config)))"
proof -
  have "delays_ok lo hi (createLongPollClient config)"
    using assms(1) by (simp add: delays_ok_def createLongPollClient_def polling_config_ok_def Let_def)
  from delays_run [OF assms this] show ?thesis by (simp add: delays_ok_def)
qed

end
