(* ===== verification/SingleFlight.thy ===== *)
theory SingleFlight
  imports Prelude
begin

text \<open>
  The idiom by which several packages share one asynchronous job among concurrent callers: a
  variable holds the promise of the job under way; a caller that finds one awaits it, a caller
  that finds none starts the job, stores its promise, awaits it and clears the variable in a
  \<^verbatim>\<open>finally\<close>. It is \<^verbatim>\<open>executeOrAwaitRefresh\<close> of \<^verbatim>\<open>bearer-auth-interceptor.ts\<close> and
  \<^verbatim>\<open>startReplay\<close> of \<^verbatim>\<open>request-queue.ts\<close>.

  JavaScript runs one piece of code at a time, from one \<^verbatim>\<open>await\<close> to the next; the steps below
  are those pieces, in any order. A job is a state \<open>'j\<close> advanced from await to await by \<open>adv\<close>,
  which ends with \<open>Inr\<close> its outcome; \<open>fl_jobs\<close> holds every job ever started, under its index.
  Other code changes the shared state between the pieces (the step \<open>Other\<close>).
\<close>

datatype 'r flight_task =
    TReady
  | TOwner nat
  | TWaiter nat
  | TDone nat 'r

record ('j, 'r, 's) flights =
  fl_current :: "nat option"
  fl_jobs :: "('j + 'r) list"
  fl_tasks :: "'r flight_task list"
  fl_env :: 's

definition join_flight :: "'j \<Rightarrow> nat \<Rightarrow> ('j, 'r, 's) flights \<Rightarrow> ('j, 'r, 's) flights" where
  "join_flight start i S =
     (case fl_current S of
        Some f \<Rightarrow> S\<lparr>fl_tasks := (fl_tasks S)[i := TWaiter f]\<rparr>
      | None \<Rightarrow> S\<lparr>fl_current := Some (length (fl_jobs S)),
                   fl_jobs := fl_jobs S @ [Inl start],
                   fl_tasks := (fl_tasks S)[i := TOwner (length (fl_jobs S))]\<rparr>)"

definition advance_flight ::
  "('j \<Rightarrow> 's \<Rightarrow> ('j + 'r) \<times> 's) \<Rightarrow> nat \<Rightarrow> 'j \<Rightarrow> ('j, 'r, 's) flights \<Rightarrow> ('j, 'r, 's) flights" where
  "advance_flight adv f j S =
     S\<lparr>fl_jobs := (fl_jobs S)[f := fst (adv j (fl_env S))], fl_env := snd (adv j (fl_env S))\<rparr>"

definition finish_owner :: "nat \<Rightarrow> nat \<Rightarrow> 'r \<Rightarrow> ('j, 'r, 's) flights \<Rightarrow> ('j, 'r, 's) flights" where
  "finish_owner i f r S = S\<lparr>fl_current := None, fl_tasks := (fl_tasks S)[i := TDone f r]\<rparr>"

definition finish_waiter :: "nat \<Rightarrow> nat \<Rightarrow> 'r \<Rightarrow> ('j, 'r, 's) flights \<Rightarrow> ('j, 'r, 's) flights" where
  "finish_waiter i f r S = S\<lparr>fl_tasks := (fl_tasks S)[i := TDone f r]\<rparr>"

inductive flight_step ::
  "'j \<Rightarrow> ('j \<Rightarrow> 's \<Rightarrow> ('j + 'r) \<times> 's) \<Rightarrow>
   ('j, 'r, 's) flights \<Rightarrow> ('j, 'r, 's) flights \<Rightarrow> bool"
  for start :: 'j and adv :: "'j \<Rightarrow> 's \<Rightarrow> ('j + 'r) \<times> 's" where
  NewTask: "flight_step start adv S (S\<lparr>fl_tasks := fl_tasks S @ [TReady]\<rparr>)"
| Call: "i < length (fl_tasks S) \<Longrightarrow> fl_tasks S ! i = TReady \<Longrightarrow>
    flight_step start adv S (join_flight start i S)"
| Advance: "f < length (fl_jobs S) \<Longrightarrow> fl_jobs S ! f = Inl j \<Longrightarrow>
    flight_step start adv S (advance_flight adv f j S)"
| OwnerResumes: "i < length (fl_tasks S) \<Longrightarrow> fl_tasks S ! i = TOwner f \<Longrightarrow>
    f < length (fl_jobs S) \<Longrightarrow> fl_jobs S ! f = Inr r \<Longrightarrow>
    flight_step start adv S (finish_owner i f r S)"
| WaiterResumes: "i < length (fl_tasks S) \<Longrightarrow> fl_tasks S ! i = TWaiter f \<Longrightarrow>
    f < length (fl_jobs S) \<Longrightarrow> fl_jobs S ! f = Inr r \<Longrightarrow>
    flight_step start adv S (finish_waiter i f r S)"
| Other: "flight_step start adv S (S\<lparr>fl_env := e\<rparr>)"

inductive_cases flight_stepE: "flight_step start adv S T"

definition no_flights :: "'s \<Rightarrow> ('j, 'r, 's) flights" where
  "no_flights e = \<lparr>fl_current = None, fl_jobs = [], fl_tasks = [], fl_env = e\<rparr>"

inductive flight_reachable ::
  "'j \<Rightarrow> ('j \<Rightarrow> 's \<Rightarrow> ('j + 'r) \<times> 's) \<Rightarrow> 's \<Rightarrow> ('j, 'r, 's) flights \<Rightarrow> bool"
  for start :: 'j and adv :: "'j \<Rightarrow> 's \<Rightarrow> ('j + 'r) \<times> 's" and e :: 's where
  Start: "flight_reachable start adv e (no_flights e)"
| Step: "flight_reachable start adv e S \<Longrightarrow> flight_step start adv S T \<Longrightarrow>
    flight_reachable start adv e T"

section \<open>The invariant\<close>

fun is_owner :: "'r flight_task \<Rightarrow> bool" where
  "is_owner (TOwner f) = True"
| "is_owner t = False"

fun task_ok :: "('j + 'r) list \<Rightarrow> 'r flight_task \<Rightarrow> bool" where
  "task_ok jobs (TWaiter f) = (f < length jobs)"
| "task_ok jobs (TDone f r) = (f < length jobs \<and> jobs ! f = Inr r)"
| "task_ok jobs t = True"

text \<open>
  The variable names the only job that may be running, and exactly one caller, the owner, will
  clear it; a caller that has returned returned the outcome of its job.
\<close>

definition flight_ok :: "('j, 'r, 's) flights \<Rightarrow> bool" where
  "flight_ok S =
     ((\<forall>f < length (fl_jobs S). isl (fl_jobs S ! f) \<longrightarrow> fl_current S = Some f) \<and>
      filter is_owner (fl_tasks S) =
        (case fl_current S of None \<Rightarrow> [] | Some f \<Rightarrow> [TOwner f]) \<and>
      (\<forall>t \<in> set (fl_tasks S). task_ok (fl_jobs S) t) \<and>
      (\<forall>f. fl_current S = Some f \<longrightarrow> f < length (fl_jobs S)))"

lemma filter_update:
  assumes "i < length xs"
  shows "filter P (xs[i := y]) =
           filter P (take i xs) @ (if P y then [y] else []) @ filter P (drop (Suc i) xs)"
    and "filter P xs =
           filter P (take i xs) @ (if P (xs ! i) then [xs ! i] else []) @ filter P (drop (Suc i) xs)"
proof -
  show "filter P (xs[i := y]) =
          filter P (take i xs) @ (if P y then [y] else []) @ filter P (drop (Suc i) xs)"
    using assms by (simp add: upd_conv_take_nth_drop)
  have "filter P xs = filter P (take i xs @ xs ! i # drop (Suc i) xs)"
    using assms by (simp add: id_take_nth_drop [symmetric])
  then show "filter P xs =
          filter P (take i xs) @ (if P (xs ! i) then [xs ! i] else []) @ filter P (drop (Suc i) xs)"
    by simp
qed

lemma filter_update_neither:
  assumes "i < length xs" "\<not> P (xs ! i)" "\<not> P y"
  shows "filter P (xs[i := y]) = filter P xs"
  using filter_update [OF assms(1), of P] assms(2,3) by simp

lemma tasks_update:
  assumes "\<forall>t \<in> set ts. task_ok jobs t" and "task_ok jobs u"
  shows "\<forall>t \<in> set (ts[i := u]). task_ok jobs t"
  using assms set_update_subset_insert [of ts i u] by blast

lemma task_ok_append: "task_ok jobs t \<Longrightarrow> task_ok (jobs @ [x]) t"
  by (cases t) (auto simp: nth_append)

lemma task_ok_advance: "task_ok jobs t \<Longrightarrow> jobs ! f = Inl j \<Longrightarrow> task_ok (jobs[f := x]) t"
proof (cases t)
  case (TDone g r)
  moreover assume "task_ok jobs t" "jobs ! f = Inl j"
  ultimately show ?thesis by (cases "g = f") auto
qed auto

lemma flight_okD:
  assumes "flight_ok S"
  shows "f < length (fl_jobs S) \<Longrightarrow> isl (fl_jobs S ! f) \<Longrightarrow> fl_current S = Some f"
    and "filter is_owner (fl_tasks S) =
           (case fl_current S of None \<Rightarrow> [] | Some f \<Rightarrow> [TOwner f])"
    and "\<forall>t \<in> set (fl_tasks S). task_ok (fl_jobs S) t"
    and "fl_current S = Some f \<Longrightarrow> f < length (fl_jobs S)"
  using assms unfolding flight_ok_def by blast+

lemma flight_okI:
  assumes "\<And>f. f < length (fl_jobs S) \<Longrightarrow> isl (fl_jobs S ! f) \<Longrightarrow> fl_current S = Some f"
    and "filter is_owner (fl_tasks S) =
           (case fl_current S of None \<Rightarrow> [] | Some f \<Rightarrow> [TOwner f])"
    and "\<forall>t \<in> set (fl_tasks S). task_ok (fl_jobs S) t"
    and "\<And>f. fl_current S = Some f \<Longrightarrow> f < length (fl_jobs S)"
  shows "flight_ok S"
  using assms unfolding flight_ok_def by blast

lemma owner_current:
  assumes "flight_ok S" "i < length (fl_tasks S)" "fl_tasks S ! i = TOwner f"
  shows "fl_current S = Some f"
proof -
  have "TOwner f \<in> set (filter is_owner (fl_tasks S))"
    using assms(3) nth_mem [OF assms(2)] by simp
  then show ?thesis unfolding flight_okD(2) [OF assms(1)] by (simp split: option.splits)
qed

lemma flight_ok_init: "flight_ok (no_flights e)"
  by (simp add: no_flights_def flight_ok_def)

text \<open>The same jobs and variable, and callers that are owners as before.\<close>

lemma flight_ok_cong:
  assumes ok: "flight_ok S" and "fl_jobs T = fl_jobs S" "fl_current T = fl_current S"
    and "filter is_owner (fl_tasks T) = filter is_owner (fl_tasks S)"
    and "\<forall>t \<in> set (fl_tasks T). task_ok (fl_jobs S) t"
  shows "flight_ok T"
  unfolding flight_ok_def assms(2-4)
  using flight_okD [OF ok] assms(5) by blast

lemma flight_ok_new_task:
  assumes "flight_ok S"
  shows "flight_ok (S\<lparr>fl_tasks := fl_tasks S @ [TReady]\<rparr>)"
  using flight_okD(3) [OF assms] by (intro flight_ok_cong [OF assms]) simp_all

lemma flight_ok_call:
  assumes ok: "flight_ok S" and i: "i < length (fl_tasks S)" "fl_tasks S ! i = TReady"
  shows "flight_ok (join_flight start i S)"
proof (cases "fl_current S")
  case (Some f)
  have "filter is_owner ((fl_tasks S)[i := TWaiter f]) = filter is_owner (fl_tasks S)"
    using i by (intro filter_update_neither) simp_all
  moreover have "\<forall>t \<in> set ((fl_tasks S)[i := TWaiter f]). task_ok (fl_jobs S) t"
    using flight_okD(3,4) [OF ok] Some by (intro tasks_update) simp_all
  ultimately show ?thesis
    using Some by (intro flight_ok_cong [OF ok]) (simp_all add: join_flight_def)
next
  case None
  let ?n = "length (fl_jobs S)"
  have settled: "\<not> isl (fl_jobs S ! g)" if "g < ?n" for g
    using flight_okD(1) [OF ok that] None by auto
  have "filter is_owner (take i (fl_tasks S)) = [] \<and> filter is_owner (drop (Suc i) (fl_tasks S)) = []"
    using filter_update(2) [OF i(1), of is_owner] flight_okD(2) [OF ok] None by simp
  then have "filter is_owner ((fl_tasks S)[i := TOwner ?n]) = [TOwner ?n]"
    using filter_update(1) [OF i(1), of is_owner] by simp
  moreover have "\<forall>t \<in> set ((fl_tasks S)[i := TOwner ?n]). task_ok (fl_jobs S @ [Inl start]) t"
    using flight_okD(3) [OF ok] by (intro tasks_update) (simp_all add: task_ok_append)
  moreover have "?n = f" if "f < Suc ?n" "isl ((fl_jobs S @ [Inl start]) ! f)" for f
    using that settled [of f] by (auto simp: nth_append less_Suc_eq split: if_splits)
  ultimately show ?thesis
    using None by (intro flight_okI) (simp_all add: join_flight_def)
qed

lemma flight_ok_advance:
  assumes ok: "flight_ok S" and f: "f < length (fl_jobs S)" "fl_jobs S ! f = Inl j"
  shows "flight_ok (advance_flight adv f j S)"
proof -
  have cur: "fl_current S = Some f" using flight_okD(1) [OF ok f(1)] f(2) by simp
  have "\<forall>t \<in> set (fl_tasks S). task_ok ((fl_jobs S)[f := fst (adv j (fl_env S))]) t"
    using flight_okD(3) [OF ok] f(2) by (simp add: task_ok_advance)
  moreover have "g = f" if "g < length (fl_jobs S)"
    "isl ((fl_jobs S)[f := fst (adv j (fl_env S))] ! g)" for g
  proof (rule ccontr)
    assume "g \<noteq> f"
    with that flight_okD(1) [OF ok that(1)] cur show False by simp
  qed
  ultimately show ?thesis
    using flight_okD(2,4) [OF ok] cur by (intro flight_okI) (auto simp: advance_flight_def)
qed

lemma flight_ok_owner:
  assumes ok: "flight_ok S" and i: "i < length (fl_tasks S)" "fl_tasks S ! i = TOwner f"
    and f: "f < length (fl_jobs S)" "fl_jobs S ! f = Inr r"
  shows "flight_ok (finish_owner i f r S)"
proof -
  have cur: "fl_current S = Some f" using owner_current [OF ok i] .
  have settled: "\<not> isl (fl_jobs S ! g)" if "g < length (fl_jobs S)" for g
    using flight_okD(1) [OF ok that] cur f(2) by (cases "g = f") auto
  have "filter is_owner (take i (fl_tasks S)) = [] \<and> filter is_owner (drop (Suc i) (fl_tasks S)) = []"
    using filter_update(2) [OF i(1), of is_owner] flight_okD(2) [OF ok] cur i(2)
    by (cases "filter is_owner (take i (fl_tasks S))") simp_all
  then have "filter is_owner ((fl_tasks S)[i := TDone f r]) = []"
    using filter_update(1) [OF i(1), of is_owner] by simp
  moreover have "\<forall>t \<in> set ((fl_tasks S)[i := TDone f r]). task_ok (fl_jobs S) t"
    using flight_okD(3) [OF ok] f by (intro tasks_update) simp_all
  ultimately show ?thesis
    using settled by (intro flight_okI) (simp_all add: finish_owner_def)
qed

lemma flight_ok_waiter:
  assumes ok: "flight_ok S" and i: "i < length (fl_tasks S)" "fl_tasks S ! i = TWaiter f"
    and f: "f < length (fl_jobs S)" "fl_jobs S ! f = Inr r"
  shows "flight_ok (finish_waiter i f r S)"
proof -
  have "filter is_owner ((fl_tasks S)[i := TDone f r]) = filter is_owner (fl_tasks S)"
    using i by (intro filter_update_neither) simp_all
  moreover have "\<forall>t \<in> set ((fl_tasks S)[i := TDone f r]). task_ok (fl_jobs S) t"
    using flight_okD(3) [OF ok] f by (intro tasks_update) simp_all
  ultimately show ?thesis
    by (intro flight_ok_cong [OF ok]) (simp_all add: finish_waiter_def)
qed

lemma flight_ok_step: "flight_step start adv S T \<Longrightarrow> flight_ok S \<Longrightarrow> flight_ok T"
proof (induction rule: flight_step.induct)
  case (Other S e)
  then show ?case by (intro flight_ok_cong [OF Other]) (simp_all add: flight_okD(3))
qed (simp_all add: flight_ok_new_task flight_ok_call flight_ok_advance flight_ok_owner
  flight_ok_waiter)

lemma flight_ok_reachable: "flight_reachable start adv e S \<Longrightarrow> flight_ok S"
  by (induction rule: flight_reachable.induct) (auto intro: flight_ok_init flight_ok_step)

section \<open>What follows\<close>

lemma running_jobs_le_1:
  assumes "flight_ok S"
  shows "length (filter isl (fl_jobs S)) \<le> 1"
proof -
  have "{k. k < length (fl_jobs S) \<and> isl (fl_jobs S ! k)} \<subseteq> {the (fl_current S)}"
    using flight_okD(1) [OF assms] by auto
  then have "card {k. k < length (fl_jobs S) \<and> isl (fl_jobs S ! k)} \<le> 1"
    using card_mono [of "{the (fl_current S)}"] by simp
  then show ?thesis by (simp add: length_filter_conv_card)
qed

text \<open>A caller that has returned got the outcome of its job, the same for all its callers.\<close>

lemma done_outcome:
  assumes "flight_ok S" "i < length (fl_tasks S)" "fl_tasks S ! i = TDone f r"
  shows "fl_jobs S ! f = Inr r"
  using flight_okD(3) [OF assms(1)] nth_mem [OF assms(2)] assms(3) by force

lemma shared_outcome:
  assumes "flight_ok S" "i < length (fl_tasks S)" "k < length (fl_tasks S)"
    and "fl_tasks S ! i = TDone f r" "fl_tasks S ! k = TDone f q"
  shows "q = r"
  using done_outcome [OF assms(1,2,4)] done_outcome [OF assms(1,3,5)] by simp

text \<open>A caller that has not returned is never stuck: its job advances, or it resumes.\<close>

lemma flight_progress:
  assumes ok: "flight_ok S" and i: "i < length (fl_tasks S)"
    and w: "fl_tasks S ! i = TOwner f \<or> fl_tasks S ! i = TWaiter f"
  shows "(\<exists>j. fl_jobs S ! f = Inl j \<and> flight_step start adv S (advance_flight adv f j S)) \<or>
         (\<exists>r T. fl_jobs S ! f = Inr r \<and> flight_step start adv S T \<and> fl_tasks T ! i = TDone f r)"
proof -
  have f: "f < length (fl_jobs S)"
    using w
  proof
    assume "fl_tasks S ! i = TOwner f"
    then show ?thesis using flight_okD(4) [OF ok owner_current [OF ok i]] by simp
  next
    assume "fl_tasks S ! i = TWaiter f"
    then show ?thesis using flight_okD(3) [OF ok] nth_mem [OF i] by force
  qed
  show ?thesis
  proof (cases "fl_jobs S ! f")
    case (Inl j)
    then show ?thesis using flight_step.Advance [OF f] by blast
  next
    case (Inr r)
    from w show ?thesis
    proof
      assume o: "fl_tasks S ! i = TOwner f"
      have "fl_tasks (finish_owner i f r S) ! i = TDone f r" using i by (simp add: finish_owner_def)
      with flight_step.OwnerResumes [OF i o f Inr] Inr show ?thesis by blast
    next
      assume w: "fl_tasks S ! i = TWaiter f"
      have "fl_tasks (finish_waiter i f r S) ! i = TDone f r"
        using i by (simp add: finish_waiter_def)
      with flight_step.WaiterResumes [OF i w f Inr] Inr show ?thesis by blast
    qed
  qed
qed

text \<open>A job run without interruption, in at most \<open>n\<close> pieces.\<close>

fun run_job :: "nat \<Rightarrow> ('j \<Rightarrow> 's \<Rightarrow> ('j + 'r) \<times> 's) \<Rightarrow> 'j \<Rightarrow> 's \<Rightarrow> ('r \<times> 's) option" where
  "run_job 0 adv j s = None"
| "run_job (Suc n) adv j s =
     (case adv j s of (Inl j', t) \<Rightarrow> run_job n adv j' t | (Inr r, t) \<Rightarrow> Some (r, t))"

end
