(* ===== verification/BearerAuth.thy ===== *)
theory BearerAuth
  imports HttpClient Events SingleFlight
begin

text \<open>
  \<^verbatim>\<open>packages/network/src/auth-types.ts\<close> and \<^verbatim>\<open>bearer-auth-interceptor.ts\<close>. The token
  storage, the function that refreshes and the event emitter come with the configuration.
  \<open>performRefresh\<close> is the refresh as one computation; \<open>refresh_job\<close> cuts it at its \<^verbatim>\<open>await\<close>s,
  so that \<^theory_text>\<open>SingleFlight\<close> interleaves it with everything else, and \<open>run_refresh_job\<close> shows
  that both are the same refresh.
\<close>

record refresh_result =
  rr_accessToken :: string
  rr_refreshToken :: string

record 's token_storage =
  ts_getAccessToken :: "('s, js_error, string option) io"
  ts_getRefreshToken :: "('s, js_error, string option) io"
  ts_setTokens :: "string \<Rightarrow> string \<Rightarrow> ('s, js_error, unit) io"
  ts_clearTokens :: "('s, js_error, unit) io"

record 's bearer_config =
  bc_tokenStorage :: "'s token_storage"
  bc_refreshEndpoint :: string
  bc_refreshFn :: "string \<Rightarrow> ('s, js_error, refresh_result) io"
  bc_emit :: "network_event \<Rightarrow> ('s, js_error, unit) io"

text \<open>\<^verbatim>\<open>!token\<close>: no token, or the empty one.\<close>

definition no_token :: "string option \<Rightarrow> bool" where
  "no_token t = (t = None \<or> t = Some [])"

definition injectAuthHeader ::
  "('x env_scheme) bearer_config \<Rightarrow> intercepted_request \<Rightarrow>
   ('x env_scheme, js_error, intercepted_request) io" where
  "injectAuthHeader config request =
     io_bind (ts_getAccessToken (bc_tokenStorage config)) (\<lambda>token.
       if no_token token then io_return request
       else io_return (request\<lparr>rq_headers :=
              AList.update ''Authorization'' (''Bearer '' @ the token) (rq_headers request)\<rparr>))"

definition isRefreshEndpoint :: "network_error \<Rightarrow> string \<Rightarrow> bool" where
  "isRefreshEndpoint error endpoint =
     (case ne_requestUrl error of None \<Rightarrow> False | Some url \<Rightarrow> includes_str url endpoint)"

definition emitExpiredAndReturn ::
  "network_error \<Rightarrow> ('x env_scheme) bearer_config \<Rightarrow> ('x env_scheme, js_error, network_error) io" where
  "emitExpiredAndReturn error config =
     io_then (ts_clearTokens (bc_tokenStorage config))
       (io_then (bc_emit config AuthExpired) (io_return error))"

definition auth_expired_error :: "string \<Rightarrow> js_error" where
  "auth_expired_error msg = NetworkErr (network_error_of AUTH_EXPIRED msg)"

definition performRefresh :: "('x env_scheme) bearer_config \<Rightarrow> ('x env_scheme, js_error, unit) io" where
  "performRefresh config =
     io_bind (ts_getRefreshToken (bc_tokenStorage config)) (\<lambda>refreshToken.
       if no_token refreshToken
       then io_then (ts_clearTokens (bc_tokenStorage config))
              (io_then (bc_emit config AuthExpired)
                (io_throw (auth_expired_error ''No refresh token available'')))
       else io_catch
         (io_bind (bc_refreshFn config (the refreshToken)) (\<lambda>result.
            io_then (ts_setTokens (bc_tokenStorage config) (rr_accessToken result)
                       (rr_refreshToken result))
              (io_then (bc_emit config AuthTokenRefreshed)
                (emit_log LDebug ''Auth token refreshed'' ''network'' []))))
         (\<lambda>_. io_then (ts_clearTokens (bc_tokenStorage config))
                (io_then (bc_emit config AuthExpired)
                  (io_then (emit_log LWarning ''Auth refresh failed, tokens cleared'' ''network'' [])
                    (io_throw (auth_expired_error ''Token refresh failed''))))))"

text \<open>
  \<^verbatim>\<open>executeOrAwaitRefresh\<close> of a caller that finds no refresh under way and is alone: the promise
  it stores is the one it awaits and clears. With several callers it is the machine of
  \<^theory_text>\<open>SingleFlight\<close>.
\<close>

definition handleAuthError ::
  "('x env_scheme, js_error, unit) io \<Rightarrow> ('x env_scheme) bearer_config \<Rightarrow> network_error \<Rightarrow>
   ('x env_scheme, js_error, network_error) io" where
  "handleAuthError executeOrAwaitRefresh config error =
     (if ne_code error \<noteq> AUTH_EXPIRED then io_return error
      else if isRefreshEndpoint error (bc_refreshEndpoint config)
      then emitExpiredAndReturn error config
      else io_catch
        (io_then executeOrAwaitRefresh
          (io_return ((network_error_of AUTH_EXPIRED (ne_message error))
             \<lparr>ne_status := ne_status error, ne_shouldRetry := Some True\<rparr>)))
        (\<lambda>_. io_return error))"

definition createBearerAuthInterceptor ::
  "('x env_scheme) bearer_config \<Rightarrow> ('x env_scheme) interceptor" where
  "createBearerAuthInterceptor config =
     \<lparr>ic_name = ''bearer-auth'', ic_onRequest = Some (injectAuthHeader config),
      ic_onResponse = None,
      ic_onError = Some (handleAuthError (performRefresh config) config)\<rparr>"

section \<open>The refresh, from await to await\<close>

datatype refresh_job =
    RefreshStart
  | RefreshCall string
  | RefreshStore refresh_result
  | RefreshMissing
  | RefreshFailed

definition refresh_step ::
  "('x env_scheme) bearer_config \<Rightarrow> refresh_job \<Rightarrow> 'x env_scheme \<Rightarrow>
   (refresh_job + (js_error + unit)) \<times> 'x env_scheme" where
  "refresh_step config job = (\<lambda>s. case job of
       RefreshStart \<Rightarrow>
         (case ts_getRefreshToken (bc_tokenStorage config) s of
            (Inl e, t) \<Rightarrow> (Inr (Inl e), t)
          | (Inr token, t) \<Rightarrow>
              (Inl (if no_token token then RefreshMissing else RefreshCall (the token)), t))
     | RefreshCall token \<Rightarrow>
         (case bc_refreshFn config token s of
            (Inl e, t) \<Rightarrow> (Inl RefreshFailed, t)
          | (Inr result, t) \<Rightarrow> (Inl (RefreshStore result), t))
     | RefreshStore result \<Rightarrow>
         (case io_then (ts_setTokens (bc_tokenStorage config) (rr_accessToken result)
                          (rr_refreshToken result))
                 (io_then (bc_emit config AuthTokenRefreshed)
                   (emit_log LDebug ''Auth token refreshed'' ''network'' [])) s of
            (Inl e, t) \<Rightarrow> (Inl RefreshFailed, t)
          | (Inr u, t) \<Rightarrow> (Inr (Inr ()), t))
     | RefreshMissing \<Rightarrow>
         (case io_then (ts_clearTokens (bc_tokenStorage config))
                 (io_then (bc_emit config AuthExpired)
                   (io_throw (auth_expired_error ''No refresh token available''))) s of
            (r, t) \<Rightarrow> (Inr r, t))
     | RefreshFailed \<Rightarrow>
         (case io_then (ts_clearTokens (bc_tokenStorage config))
                 (io_then (bc_emit config AuthExpired)
                   (io_then (emit_log LWarning ''Auth refresh failed, tokens cleared'' ''network'' [])
                     (io_throw (auth_expired_error ''Token refresh failed'')))) s of
            (r, t) \<Rightarrow> (Inr r, t)))"

text \<open>Run without interruption, the job is \<^verbatim>\<open>performRefresh\<close>, in at most four pieces.\<close>

lemma run_refresh_job:
  "run_job 4 (refresh_step config) RefreshStart s = Some (performRefresh config s)"
proof -
  have 4: "(4 :: nat) = Suc (Suc (Suc (Suc 0)))" by simp
  show ?thesis
    by (simp add: 4 refresh_step_def performRefresh_def io_bind_simp io_then_simp io_catch_simp
        split: prod.splits sum.splits)
qed

section \<open>Many callers, one refresh\<close>

text \<open>
  C3. Concurrent requests that fail with an expired token share one refresh. However the callers, the
  refresh and the rest of the program interleave: at most one refresh is under way, so a refresh
  token is never submitted twice at the same time; callers that waited for the same refresh all
  get its outcome; and a caller still waiting is not stuck, since its refresh can go on or, once
  over, the caller can return.
\<close>

theorem concurrent_refreshes_are_one:
  assumes "flight_reachable RefreshStart (refresh_step config) e S"
  shows "length (filter isl (fl_jobs S)) \<le> 1 \<and>
    (\<forall>i < length (fl_tasks S). \<forall>k < length (fl_tasks S). \<forall>f r q.
       fl_tasks S ! i = TDone f r \<and> fl_tasks S ! k = TDone f q \<longrightarrow> r = q) \<and>
    (\<forall>i < length (fl_tasks S). \<forall>f. fl_tasks S ! i \<in> {TOwner f, TWaiter f} \<longrightarrow>
       (\<exists>j. fl_jobs S ! f = Inl j \<and>
            flight_step RefreshStart (refresh_step config) S
              (advance_flight (refresh_step config) f j S)) \<or>
       (\<exists>r T. fl_jobs S ! f = Inr r \<and> flight_step RefreshStart (refresh_step config) S T \<and>
              fl_tasks T ! i = TDone f r))"
proof -
  have ok: "flight_ok S" using flight_ok_reachable [OF assms] .
  show ?thesis
  proof (intro conjI allI impI)
    show "length (filter isl (fl_jobs S)) \<le> 1" by (rule running_jobs_le_1 [OF ok])
  next
    fix i k f r q
    assume i: "i < length (fl_tasks S)" and k: "k < length (fl_tasks S)"
      and d: "fl_tasks S ! i = TDone f r \<and> fl_tasks S ! k = TDone f q"
    show "r = q" by (rule shared_outcome [OF ok k i conjunct2 [OF d] conjunct1 [OF d]])
  next
    fix i f
    assume i: "i < length (fl_tasks S)" and "fl_tasks S ! i \<in> {TOwner f, TWaiter f}"
    then have w: "fl_tasks S ! i = TOwner f \<or> fl_tasks S ! i = TWaiter f" by simp
    show "(\<exists>j. fl_jobs S ! f = Inl j \<and> flight_step RefreshStart (refresh_step config) S
            (advance_flight (refresh_step config) f j S)) \<or>
       (\<exists>r T. fl_jobs S ! f = Inr r \<and> flight_step RefreshStart (refresh_step config) S T \<and>
              fl_tasks T ! i = TDone f r)"
      by (rule flight_progress [OF ok i w])
  qed
qed

text \<open>A state whose tokens are a field of its own.\<close>

record token_env = env +
  te_tokens :: "(string \<times> string) option"
  te_events :: "network_event list"

definition field_token_storage :: "'x token_env_scheme token_storage" where
  "field_token_storage =
     \<lparr>ts_getAccessToken = io_gets (\<lambda>s. map_option fst (te_tokens s)),
      ts_getRefreshToken = io_gets (\<lambda>s. map_option snd (te_tokens s)),
      ts_setTokens = (\<lambda>a r. io_modify (\<lambda>s. s\<lparr>te_tokens := Some (a, r)\<rparr>)),
      ts_clearTokens = io_modify (\<lambda>s. s\<lparr>te_tokens := None\<rparr>)\<rparr>"

definition sample_bearer_config :: "token_env bearer_config" where
  "sample_bearer_config =
     \<lparr>bc_tokenStorage = field_token_storage, bc_refreshEndpoint = ''/refresh'',
      bc_refreshFn = (\<lambda>r. io_return \<lparr>rr_accessToken = ''new'', rr_refreshToken = r @ ''+''\<rparr>),
      bc_emit = (\<lambda>ev. io_modify (\<lambda>s. s\<lparr>te_events := te_events s @ [ev]\<rparr>))\<rparr>"

definition sample_token_env :: token_env where
  "sample_token_env = \<lparr>env_now = 0, env_log = [], te_tokens = Some (''old'', ''r''), te_events = []\<rparr>"

definition sample_callers :: "(refresh_job, js_error + unit, token_env) flights" where
  "sample_callers =
     \<lparr>fl_current = None, fl_jobs = [], fl_tasks = [TReady, TReady], fl_env = sample_token_env\<rparr>"

theorem concurrent_refreshes_are_one_witness:
  "length (filter isl (fl_jobs (join_flight RefreshStart 1 (join_flight RefreshStart 0 sample_callers)))) \<le> 1"
proof -
  let ?R = "flight_reachable RefreshStart (refresh_step sample_bearer_config) sample_token_env"
  let ?st = "flight_step RefreshStart (refresh_step sample_bearer_config)"
  have "?R (no_flights sample_token_env)" by (rule flight_reachable.Start)
  from flight_reachable.Step [OF this flight_step.NewTask]
  have "?R \<lparr>fl_current = None, fl_jobs = [], fl_tasks = [TReady], fl_env = sample_token_env\<rparr>"
    by (simp add: no_flights_def)
  from flight_reachable.Step [OF this flight_step.NewTask] have s: "?R sample_callers"
    by (simp add: sample_callers_def)
  have "?st sample_callers (join_flight RefreshStart 0 sample_callers)" 
    by (rule flight_step.Call) (simp_all add: sample_callers_def)
  with s have s1: "?R (join_flight RefreshStart 0 sample_callers)" by (rule flight_reachable.Step)
  have "?st (join_flight RefreshStart 0 sample_callers) (join_flight RefreshStart 1 (join_flight RefreshStart 0 sample_callers))"
    by (rule flight_step.Call) (simp_all add: join_flight_def sample_callers_def)
  with s1 have "?R (join_flight RefreshStart 1 (join_flight RefreshStart 0 sample_callers))"
    by (rule flight_reachable.Step)
  from concurrent_refreshes_are_one [OF this] show ?thesis by (rule conjunct1)
qed

section \<open>An expired token, end to end\<close>

text \<open>
  What the token storage has to do, for a view \<open>tokens\<close> of the state: reading changes nothing,
  \<^verbatim>\<open>setTokens\<close> stores, and the log and the events are elsewhere.
\<close>

definition token_storage_ok ::
  "('x env_scheme \<Rightarrow> (string \<times> string) option) \<Rightarrow> ('x env_scheme) bearer_config \<Rightarrow> bool" where
  "token_storage_ok tokens config =
     (let ts = bc_tokenStorage config in
      (\<forall>s. ts_getAccessToken ts s = (Inr (map_option fst (tokens s)), s)) \<and>
      (\<forall>s. ts_getRefreshToken ts s = (Inr (map_option snd (tokens s)), s)) \<and>
      (\<forall>a r s. fst (ts_setTokens ts a r s) = Inr () \<and>
               tokens (snd (ts_setTokens ts a r s)) = Some (a, r)) \<and>
      (\<forall>ev s. fst (bc_emit config ev s) = Inr () \<and> tokens (snd (bc_emit config ev s)) = tokens s) \<and>
      (\<forall>s l. tokens (s\<lparr>env_log := l\<rparr>) = tokens s))"

text \<open>A server: it answers requests that carry the access token \<open>good\<close> with \<open>answer\<close> and all
  others with 401, and does not change the state.\<close>

definition guards_with ::
  "string \<Rightarrow> transport_response \<Rightarrow> ('x env_scheme) transport \<Rightarrow> bool" where
  "guards_with good answer tr =
     (\<forall>r s. tr r s = (Inr (if Option.bind (tr_headers r) (\<lambda>hs. map_of hs ''Authorization'')
                              = Some (''Bearer '' @ good)
                           then answer else \<lparr>tp_status = 401, tp_headers = [], tp_body = JNull\<rparr>), s))"

lemma tokens_emit_log:
  "token_storage_ok tokens config \<Longrightarrow> tokens (snd (emit_log lvl msg tag data s)) = tokens s"
  by (simp add: token_storage_ok_def emit_log_simp Let_def)

lemma performRefresh_ok:
  assumes ok: "token_storage_ok tokens config" and old: "tokens s = Some (a, r)" "r \<noteq> []"
    and fn: "\<And>s. bc_refreshFn config r s = (Inr \<lparr>rr_accessToken = a', rr_refreshToken = r'\<rparr>, s)"
  shows "fst (performRefresh config s) = Inr () \<and>
         tokens (snd (performRefresh config s)) = Some (a', r')"
proof -
  let ?ts = "bc_tokenStorage config"
  have g: "ts_getRefreshToken ?ts s = (Inr (Some r), s)"
    using ok old by (simp add: token_storage_ok_def Let_def)
  obtain s1 where s1: "ts_setTokens ?ts a' r' s = (Inr (), s1)" "tokens s1 = Some (a', r')"
    using ok unfolding token_storage_ok_def Let_def by (metis prod.collapse)
  obtain s2 where s2: "bc_emit config AuthTokenRefreshed s1 = (Inr (), s2)" "tokens s2 = tokens s1"
    using ok unfolding token_storage_ok_def Let_def by (metis prod.collapse)
  have "performRefresh config s = emit_log LDebug ''Auth token refreshed'' ''network'' [] s2"
    using old(2) g fn s1(1) s2(1)
    by (simp add: performRefresh_def io_bind_simp io_then_simp io_catch_simp no_token_def
        emit_log_simp)
  with tokens_emit_log [OF ok] s1(2) s2(2) show ?thesis by (simp add: emit_log_simp)
qed

definition bearer_client ::
  "('x env_scheme) bearer_config \<Rightarrow> ('x env_scheme) transport \<Rightarrow> ('x env_scheme) client_internals" where
  "bearer_client config tr =
     \<lparr>ci_timeoutMs = DEFAULT_TIMEOUT_MS,
      ci_maxRequestBodySizeBytes = DEFAULT_MAX_REQUEST_BODY_SIZE, ci_baseUrl = None,
      ci_defaultHeaders = None, ci_transport = tr,
      ci_interceptors = [createBearerAuthInterceptor config], ci_requestQueue = None\<rparr>"

text \<open>One request of such a client with the token it holds, the state's token view kept.\<close>

lemma bearer_request:
  assumes ok: "token_storage_ok tokens config" and tok: "tokens s = Some (a, r)" "a \<noteq> []"
    and cx: "cx_internals context = bearer_client config tr"
    and tr: "guards_with good answer tr"
  shows "\<exists>req s'. buildInterceptedRequest context s = (Inr req, s') \<and> tokens s' = Some (a, r) \<and>
           rq_url req = cx_url context \<and>
           map_of (rq_headers req) ''Authorization'' = Some (''Bearer '' @ a)"
proof -
  have g: "ts_getAccessToken (bc_tokenStorage config) s = (Inr (Some a), s)"
    using ok tok by (simp add: token_storage_ok_def Let_def)
  show ?thesis
    using tok g by (simp add: buildInterceptedRequest_def cx bearer_client_def Let_def full_url_def
        createBearerAuthInterceptor_def injectAuthHeader_def io_bind_simp io_then_simp io_return_simp
        no_token_def AList.update_conv')
qed

lemma bearer_sends:
  assumes ok: "token_storage_ok tokens config" and tok: "tokens s = Some (a, r)"
    and cx: "cx_internals context = bearer_client config tr"
    and tr: "guards_with good answer tr"
    and auth: "map_of (rq_headers req) ''Authorization'' = Some (''Bearer '' @ a)"
  shows "\<exists>s'. tokens s' = Some (a, r) \<and>
    send_once stringify context req s =
      (if a = good
       then (case error_of_status (tp_status answer) (tp_body answer) (rq_url req) of
               None \<Rightarrow> Inr \<lparr>hr_status = tp_status answer, hr_headers = tp_headers answer,
                           hr_body = tp_body answer\<rparr>
             | Some ne \<Rightarrow> Inl (NetworkErr ne), s')
       else (Inl (NetworkErr ((network_error_of AUTH_EXPIRED ''Unauthorized'')
               \<lparr>ne_status := Some 401, ne_responseBody := JNull, ne_requestUrl := Some (rq_url req)\<rparr>)), s'))"
proof -
  have log: "tokens (t\<lparr>env_log := l\<rparr>) = tokens t" for t l
    using ok by (simp add: token_storage_ok_def Let_def)
  have ans: "tr q t = (Inr (if Option.bind (tr_headers q) (\<lambda>hs. map_of hs ''Authorization'')
        = Some (''Bearer '' @ good) then answer
      else \<lparr>tp_status = 401, tp_headers = [], tp_body = JNull\<rparr>), t)" for q t
    using tr by (simp add: guards_with_def)
  show ?thesis
    using tok auth
    by (simp add: send_once_def executeTransportRequest_def transport_input_of_def Let_def
        transport_request_of_def cx bearer_client_def createBearerAuthInterceptor_def ans
        runResponseInterceptors_def logOutgoingRequest_def logIncomingResponse_def io_simps
        throwOnErrorStatus_def error_of_status_def log split: option.splits)
qed

text \<open>
  C4. An expired access token is invisible to the caller. Let the server accept only the token that
  the refresh function returns for the stored refresh token. Then a request of a client with the
  bearer interceptor, made with an expired token to another URL than the refresh endpoint, is
  refused, the token is refreshed and stored, and the request is repeated with the new token: the
  caller gets the server's answer to it, and the new tokens are in the storage.
\<close>

theorem expired_token_is_refreshed:
  assumes ok: "token_storage_ok tokens config"
    and old: "tokens s = Some (a, r)" "a \<noteq> []" "r \<noteq> []" "a \<noteq> a'"
    and new: "a' \<noteq> []" "\<And>s. bc_refreshFn config r s =
                (Inr \<lparr>rr_accessToken = a', rr_refreshToken = r'\<rparr>, s)"
    and tr: "guards_with a' answer tr" "200 \<le> tp_status answer" "tp_status answer < 300"
    and cx: "cx_internals context = bearer_client config tr" "\<not> cx_authRetried context"
    and url: "\<not> includes_str (cx_url context) (bc_refreshEndpoint config)"
  shows "fst (executeSingleRequest stringify context s) =
           Inr \<lparr>hr_status = tp_status answer, hr_headers = tp_headers answer,
                hr_body = tp_body answer\<rparr> \<and>
         tokens (snd (executeSingleRequest stringify context s)) = Some (a', r')"
proof -
  obtain req s1 where b1: "buildInterceptedRequest context s = (Inr req, s1)"
    and s1: "tokens s1 = Some (a, r)" and u1: "rq_url req = cx_url context"
    and h1: "map_of (rq_headers req) ''Authorization'' = Some (''Bearer '' @ a)"
    using bearer_request [OF ok old(1,2) cx(1) tr(1)] by blast
  define refused where "refused = (network_error_of AUTH_EXPIRED ''Unauthorized'')
    \<lparr>ne_status := Some 401, ne_responseBody := JNull, ne_requestUrl := Some (rq_url req)\<rparr>"
  obtain s2 where s2: "tokens s2 = Some (a, r)"
    and b2: "send_once stringify context req s1 = (Inl (NetworkErr refused), s2)"
    using bearer_sends [OF ok s1 cx(1) tr(1) h1, of stringify] old(4) unfolding refused_def by auto
  obtain s3 where s3: "performRefresh config s2 = (Inr (), s3)" "tokens s3 = Some (a', r')"
    using performRefresh_ok [OF ok s2 old(3) new(2)] by (metis prod.collapse)
  have "\<exists>ne. handleError (cx_internals context) (NetworkErr refused) s2 = (Inr ne, s3) \<and>
      ne_shouldRetry ne = Some True"
    using s3(1) url u1
    by (simp add: handleError_def cx bearer_client_def createBearerAuthInterceptor_def refused_def
        handleAuthError_def isRefreshEndpoint_def io_simps)
  then obtain ne where b3: "handleError (cx_internals context) (NetworkErr refused) s2 = (Inr ne, s3)"
    and retry: "ne_shouldRetry ne = Some True" by blast
  let ?c = "context\<lparr>cx_authRetried := True\<rparr>"
  have cx': "cx_internals ?c = bearer_client config tr" by (simp add: cx)
  obtain req' s4 where b4: "buildInterceptedRequest ?c s3 = (Inr req', s4)"
    and s4: "tokens s4 = Some (a', r')"
    and h4: "map_of (rq_headers req') ''Authorization'' = Some (''Bearer '' @ a')"
    using bearer_request [OF ok s3(2) new(1) cx' tr(1)] by blast
  obtain s5 where s5: "tokens s5 = Some (a', r')"
    and b5: "send_once stringify ?c req' s4 =
      (Inr \<lparr>hr_status = tp_status answer, hr_headers = tp_headers answer, hr_body = tp_body answer\<rparr>, s5)"
    using bearer_sends [OF ok s4 cx' tr(1) h4, of stringify] tr(2,3)
    by (auto simp: error_of_status_def Let_def)
  have first: "executeSingleRequest stringify context s = executeSingleRequest stringify ?c s3"
    by (subst executeSingleRequest.simps) (simp add: io_bind_simp io_catch_simp b1 b2 b3 retry cx(2))
  have second: "executeSingleRequest stringify ?c s3 =
      (Inr \<lparr>hr_status = tp_status answer, hr_headers = tp_headers answer, hr_body = tp_body answer\<rparr>, s5)"
    by (subst executeSingleRequest.simps) (simp add: io_bind_simp io_catch_simp b4 b5)
  show ?thesis by (simp add: first second s5)
qed

definition sample_guard :: "token_env transport" where
  "sample_guard = (\<lambda>r. io_return
     (if Option.bind (tr_headers r) (\<lambda>hs. map_of hs ''Authorization'') = Some (''Bearer '' @ ''new'')
      then \<lparr>tp_status = 200, tp_headers = [], tp_body = JStr ''ok''\<rparr>
      else \<lparr>tp_status = 401, tp_headers = [], tp_body = JNull\<rparr>))"

theorem expired_token_is_refreshed_witness:
  "fst (executeSingleRequest (\<lambda>_. [])
      (client_context (bearer_client sample_bearer_config sample_guard) ''GET'' ''/me'' None False)
      sample_token_env) = Inr \<lparr>hr_status = 200, hr_headers = [], hr_body = JStr ''ok''\<rparr>"
proof -
  let ?c = "client_context (bearer_client sample_bearer_config sample_guard) ''GET'' ''/me'' None False"
  have ok: "token_storage_ok te_tokens sample_bearer_config"
    by (simp add: token_storage_ok_def sample_bearer_config_def field_token_storage_def io_simps)
  have old: "te_tokens sample_token_env = Some (''old'', ''r'')" by (simp add: sample_token_env_def)
  have new: "bc_refreshFn sample_bearer_config ''r'' s =
      (Inr \<lparr>rr_accessToken = ''new'', rr_refreshToken = ''r+''\<rparr>, s)" for s
    by (simp add: sample_bearer_config_def io_simps)
  have tr: "guards_with ''new'' \<lparr>tp_status = 200, tp_headers = [], tp_body = JStr ''ok''\<rparr> sample_guard"
    by (simp add: guards_with_def sample_guard_def io_simps)
  have cx: "cx_internals ?c = bearer_client sample_bearer_config sample_guard"
    "\<not> cx_authRetried ?c" by (simp_all add: client_context_def)
  have url: "\<not> includes_str (cx_url ?c) (bc_refreshEndpoint sample_bearer_config)"
    by (simp add: client_context_def sample_bearer_config_def)
  from expired_token_is_refreshed [OF ok old _ _ _ _ new tr _ _ cx url] show ?thesis by simp
qed

end
