(* ===== verification/MemoryStorage.thy ===== *)
theory MemoryStorage
  imports Prelude
begin

text \<open>
  \<^verbatim>\<open>packages/storage/src/memory-storage.ts\<close>: the bounded cache. The \<^verbatim>\<open>Map\<close> is an
  association list in insertion order; \<open>now\<close> is \<^verbatim>\<open>Date.now()\<close> during the call.
\<close>

datatype cache_priority = Low | Normal | High

fun PRIORITY_WEIGHT :: "cache_priority \<Rightarrow> nat" where
  "PRIORITY_WEIGHT Low = 0"
| "PRIORITY_WEIGHT Normal = 1"
| "PRIORITY_WEIGHT High = 2"

instantiation cache_priority :: linorder
begin

definition less_eq_cache_priority :: "cache_priority \<Rightarrow> cache_priority \<Rightarrow> bool" where
  "less_eq_cache_priority p q = (PRIORITY_WEIGHT p \<le> PRIORITY_WEIGHT q)"

definition less_cache_priority :: "cache_priority \<Rightarrow> cache_priority \<Rightarrow> bool" where
  "less_cache_priority p q = (PRIORITY_WEIGHT p < PRIORITY_WEIGHT q)"

instance
proof
  fix p q r :: cache_priority
  show "(p < q) = (p \<le> q \<and> \<not> q \<le> p)"
    by (auto simp: less_eq_cache_priority_def less_cache_priority_def)
  show "p \<le> p" by (simp add: less_eq_cache_priority_def)
  show "p \<le> q \<Longrightarrow> q \<le> r \<Longrightarrow> p \<le> r" by (simp add: less_eq_cache_priority_def)
  show "p \<le> q \<Longrightarrow> q \<le> p \<Longrightarrow> p = q"
    by (cases p; cases q) (simp_all add: less_eq_cache_priority_def)
  show "p \<le> q \<or> q \<le> p" by (auto simp: less_eq_cache_priority_def)
qed

end

record 'v cache_entry =
  ce_value :: 'v
  ce_expiresAt :: "int option"
  ce_priority :: cache_priority
  ce_lastAccessedAt :: int

record cache_options =
  co_timeToLiveMs :: "int option"
  co_priority :: "cache_priority option"

type_synonym 'v cache_store = "(string \<times> 'v cache_entry) list"

section \<open>Operations\<close>

text \<open>
  The loop of \<^verbatim>\<open>findEvictionKey\<close>: its three variables are one optional entry, \<open>None\<close> standing
  for the initial infinities.
\<close>

fun eviction_loop ::
  "(string \<times> cache_priority \<times> int) option \<Rightarrow> 'v cache_store \<Rightarrow>
   (string \<times> cache_priority \<times> int) option" where
  "eviction_loop best [] = best"
| "eviction_loop best ((key, entry) # rest) =
     eviction_loop
       (case best of
          None \<Rightarrow> Some (key, ce_priority entry, ce_lastAccessedAt entry)
        | Some (k, p, t) \<Rightarrow>
            if PRIORITY_WEIGHT (ce_priority entry) < PRIORITY_WEIGHT p \<or>
               (PRIORITY_WEIGHT (ce_priority entry) = PRIORITY_WEIGHT p \<and>
                ce_lastAccessedAt entry < t)
            then Some (key, ce_priority entry, ce_lastAccessedAt entry)
            else best)
       rest"

definition findEvictionKey :: "'v cache_store \<Rightarrow> string option" where
  "findEvictionKey store = map_option fst (eviction_loop None store)"

definition cache_isExpired :: "int \<Rightarrow> 'v cache_entry \<Rightarrow> bool" where
  "cache_isExpired now entry =
     (case ce_expiresAt entry of None \<Rightarrow> False | Some t \<Rightarrow> now \<ge> t)"

definition evictExpired :: "int \<Rightarrow> 'v cache_store \<Rightarrow> 'v cache_store" where
  "evictExpired now store = filter (\<lambda>(_, entry). \<not> cache_isExpired now entry) store"

definition evictLeastValuable :: "'v cache_store \<Rightarrow> 'v cache_store" where
  "evictLeastValuable store =
     (case findEvictionKey store of None \<Rightarrow> store | Some key \<Rightarrow> AList.delete key store)"

definition makeEntry :: "int \<Rightarrow> 'v \<Rightarrow> cache_options option \<Rightarrow> 'v cache_entry" where
  "makeEntry now val cacheOptions =
     \<lparr>ce_value = val,
      ce_expiresAt =
        (case Option.bind cacheOptions co_timeToLiveMs of
           None \<Rightarrow> None | Some ttl \<Rightarrow> if ttl = 0 then None else Some (now + ttl)),
      ce_priority =
        (case Option.bind cacheOptions co_priority of None \<Rightarrow> Normal | Some p \<Rightarrow> p),
      ce_lastAccessedAt = now\<rparr>"

definition getFromStore :: "int \<Rightarrow> string \<Rightarrow> 'v cache_store \<Rightarrow> 'v option \<times> 'v cache_store" where
  "getFromStore now key store =
     (case map_of store key of
        None \<Rightarrow> (None, store)
      | Some entry \<Rightarrow>
          if cache_isExpired now entry then (None, AList.delete key store)
          else (Some (ce_value entry),
                AList.update key (entry\<lparr>ce_lastAccessedAt := now\<rparr>) store))"

definition setInStore ::
  "nat \<Rightarrow> int \<Rightarrow> string \<Rightarrow> 'v \<Rightarrow> cache_options option \<Rightarrow> 'v cache_store \<Rightarrow> 'v cache_store" where
  "setInStore maxSize now key val cacheOptions store =
     (let store1 =
        (if map_of store key \<noteq> None then AList.delete key store
         else if length store \<ge> maxSize
         then let live = evictExpired now store
              in if length live \<ge> maxSize then evictLeastValuable live else live
         else store)
      in AList.update key (makeEntry now val cacheOptions) store1)"

definition hasInStore :: "int \<Rightarrow> string \<Rightarrow> 'v cache_store \<Rightarrow> bool \<times> 'v cache_store" where
  "hasInStore now key store =
     (case map_of store key of
        None \<Rightarrow> (False, store)
      | Some entry \<Rightarrow>
          if cache_isExpired now entry then (False, AList.delete key store) else (True, store))"

definition sizeOfStore :: "int \<Rightarrow> 'v cache_store \<Rightarrow> nat \<times> 'v cache_store" where
  "sizeOfStore now store = (length (evictExpired now store), evictExpired now store)"

text \<open>The methods of \<^verbatim>\<open>createMemoryStorage\<close>, as commands on the store.\<close>

datatype 'v cache_command =
    CacheGet string
  | CacheSet string 'v "cache_options option"
  | CacheRemove string
  | CacheHas string
  | CacheClear
  | CacheSize

fun cache_step :: "nat \<Rightarrow> int \<Rightarrow> 'v cache_command \<Rightarrow> 'v cache_store \<Rightarrow> 'v cache_store" where
  "cache_step maxSize now (CacheGet key) store = snd (getFromStore now key store)"
| "cache_step maxSize now (CacheSet key val cacheOptions) store =
     setInStore maxSize now key val cacheOptions store"
| "cache_step maxSize now (CacheRemove key) store = AList.delete key store"
| "cache_step maxSize now (CacheHas key) store = snd (hasInStore now key store)"
| "cache_step maxSize now CacheClear store = []"
| "cache_step maxSize now CacheSize store = snd (sizeOfStore now store)"

fun cache_run :: "nat \<Rightarrow> (int \<times> 'v cache_command) list \<Rightarrow> 'v cache_store \<Rightarrow> 'v cache_store" where
  "cache_run maxSize [] store = store"
| "cache_run maxSize ((now, c) # cs) store = cache_run maxSize cs (cache_step maxSize now c store)"

section \<open>What is evicted\<close>

text \<open>The order of value: priority first, then the time of the last access.\<close>

definition less_valuable :: "'v cache_entry \<Rightarrow> 'v cache_entry \<Rightarrow> bool" where
  "less_valuable e f = (ce_priority e < ce_priority f \<or>
     (ce_priority e = ce_priority f \<and> ce_lastAccessedAt e < ce_lastAccessedAt f))"

lemma weight_less: "(PRIORITY_WEIGHT p < PRIORITY_WEIGHT q) = (p < q)"
  by (simp add: less_cache_priority_def)

lemma weight_eq: "(PRIORITY_WEIGHT p = PRIORITY_WEIGHT q) = (p = q)"
  by (cases p; cases q) simp_all

fun loop_best_ok :: "(string \<times> cache_priority \<times> int) option \<Rightarrow> 'v cache_store \<Rightarrow> bool" where
  "loop_best_ok None seen = (seen = [])"
| "loop_best_ok (Some (k, p, t)) seen =
     (\<exists>e. (k, e) \<in> set seen \<and> ce_priority e = p \<and> ce_lastAccessedAt e = t \<and>
        (\<forall>f \<in> snd ` set seen. \<not> less_valuable f e))"

lemma eviction_loop_ok:
  "loop_best_ok best seen \<Longrightarrow> loop_best_ok (eviction_loop best rest) (seen @ rest)"
proof (induction best rest arbitrary: seen rule: eviction_loop.induct)
  case (1 best)
  then show ?case by simp
next
  case (2 best key entry rest)
  let ?best = "case best of
          None \<Rightarrow> Some (key, ce_priority entry, ce_lastAccessedAt entry)
        | Some (k, p, t) \<Rightarrow>
            if PRIORITY_WEIGHT (ce_priority entry) < PRIORITY_WEIGHT p \<or>
               (PRIORITY_WEIGHT (ce_priority entry) = PRIORITY_WEIGHT p \<and>
                ce_lastAccessedAt entry < t)
            then Some (key, ce_priority entry, ce_lastAccessedAt entry)
            else best"
  have "loop_best_ok ?best (seen @ [(key, entry)])"
  proof (cases best)
    case None
    with "2.prems" show ?thesis by (auto simp: less_valuable_def)
  next
    case (Some b)
    obtain k p t where b: "b = (k, p, t)" by (cases b)
    from "2.prems" Some b obtain e where e: "(k, e) \<in> set seen" "ce_priority e = p"
      "ce_lastAccessedAt e = t" "\<forall>f \<in> snd ` set seen. \<not> less_valuable f e" by auto
    show ?thesis
    proof (cases "less_valuable entry e")
      case True
      then have "?best = Some (key, ce_priority entry, ce_lastAccessedAt entry)"
        using Some b e by (auto simp: less_valuable_def weight_less weight_eq)
      moreover have "\<not> less_valuable f entry" if "f \<in> snd ` set seen" for f
        using True e(4) that by (force simp: less_valuable_def)
      moreover have "\<not> less_valuable entry entry" by (simp add: less_valuable_def)
      ultimately show ?thesis by auto
    next
      case False
      then have "?best = Some (k, p, t)"
        using Some b e by (auto simp: less_valuable_def weight_less weight_eq)
      with e False show ?thesis by auto
    qed
  qed
  from "2.IH" [OF this] show ?case by simp
qed

lemma findEvictionKey_minimal:
  assumes "findEvictionKey store = Some k"
  shows "\<exists>e. (k, e) \<in> set store \<and> (\<forall>f \<in> snd ` set store. \<not> less_valuable f e)"
proof -
  obtain p t where "eviction_loop None store = Some (k, p, t)"
    using assms by (auto simp: findEvictionKey_def)
  with eviction_loop_ok [of None "[]" store] show ?thesis by auto
qed

lemma eviction_loop_Some: "eviction_loop (Some b) rest \<noteq> None"
  by (induction "Some b" rest arbitrary: b rule: eviction_loop.induct) (auto split: prod.splits)

lemma findEvictionKey_None: "findEvictionKey store = None \<longleftrightarrow> store = []"
proof (cases store)
  case (Cons x xs)
  obtain k e where "x = (k, e)" by (cases x)
  with Cons eviction_loop_Some [of "(k, ce_priority e, ce_lastAccessedAt e)" xs] show ?thesis
    by (auto simp: findEvictionKey_def)
qed (simp add: findEvictionKey_def)

section \<open>The bound\<close>

definition cache_ok :: "nat \<Rightarrow> 'v cache_store \<Rightarrow> bool" where
  "cache_ok maxSize store = (distinct (map fst store) \<and> length store \<le> max 1 maxSize)"

lemma length_delete: "length (AList.delete k xs) \<le> length xs"
  by (simp add: AList.delete_eq)

lemma length_delete_less: "k \<in> fst ` set xs \<Longrightarrow> length (AList.delete k xs) < length xs"
  by (induction xs) (auto simp: AList.delete_eq le_imp_less_Suc)

lemma length_update:
  "length (AList.update k v xs) = (if k \<in> fst ` set xs then length xs else Suc (length xs))"
  by (induction xs) auto

lemma cache_ok_delete: "cache_ok n store \<Longrightarrow> cache_ok n (AList.delete k store)"
  using length_delete [of k store] by (auto simp: cache_ok_def AList.distinct_delete)

lemma cache_ok_filter: "cache_ok n store \<Longrightarrow> cache_ok n (filter P store)"
  using length_filter_le [of P store] unfolding cache_ok_def
  by (metis distinct_map_filter le_trans)

lemma cache_ok_update_present:
  "cache_ok n store \<Longrightarrow> map_of store k \<noteq> None \<Longrightarrow> cache_ok n (AList.update k v store)"
  by (auto simp: cache_ok_def AList.distinct_update length_update map_of_eq_None_iff)

lemma length_evictLeastValuable:
  assumes "store \<noteq> []"
  shows "length (evictLeastValuable store) < length store"
proof -
  obtain k where k: "findEvictionKey store = Some k"
    using assms findEvictionKey_None [of store] by (cases "findEvictionKey store") auto
  with findEvictionKey_minimal [OF k] show ?thesis
    by (force simp: evictLeastValuable_def intro: length_delete_less)
qed

lemma cache_ok_set: "cache_ok n store \<Longrightarrow> cache_ok n (setInStore n now k v opts store)"
proof -
  assume ok: "cache_ok n store"
  define room where "room =
     (if map_of store k \<noteq> None then AList.delete k store
      else if length store \<ge> n
      then let live = evictExpired now store
           in if length live \<ge> n then evictLeastValuable live else live
      else store)"
  have "distinct (map fst room)"
    using ok by (auto simp: room_def cache_ok_def evictLeastValuable_def evictExpired_def Let_def
        AList.distinct_delete distinct_map_filter split: option.splits)
  moreover have "length room < max 1 n"
  proof (cases "map_of store k = None")
    case False
    then have "k \<in> fst ` set store" by (simp add: map_of_eq_None_iff)
    with length_delete_less [OF this] False ok show ?thesis by (simp add: room_def cache_ok_def)
  next
    case True
    let ?live = "evictExpired now store"
    have le: "length ?live \<le> length store" by (simp add: evictExpired_def)
    show ?thesis
    proof (cases "length ?live \<ge> n \<and> length store \<ge> n \<and> ?live \<noteq> []")
      case True
      with \<open>map_of store k = None\<close> length_evictLeastValuable [of ?live] le ok show ?thesis
        by (simp add: room_def cache_ok_def Let_def)
    next
      case False
      with \<open>map_of store k = None\<close> ok show ?thesis
        by (auto simp: room_def cache_ok_def Let_def evictLeastValuable_def findEvictionKey_def)
    qed
  qed
  ultimately have "cache_ok n (AList.update k (makeEntry now v opts) room)"
    by (auto simp: cache_ok_def AList.distinct_update length_update)
  then show ?thesis by (simp add: setInStore_def room_def)
qed

lemma cache_ok_step: "cache_ok n store \<Longrightarrow> cache_ok n (cache_step n now c store)"
proof (cases c)
  case (CacheGet k)
  assume "cache_ok n store"
  then show ?thesis
    by (auto simp: CacheGet getFromStore_def split: option.splits
        intro: cache_ok_delete cache_ok_update_present)
qed (auto simp: hasInStore_def sizeOfStore_def evictExpired_def cache_ok_set split: option.splits
  intro: cache_ok_delete cache_ok_filter, simp add: cache_ok_def)

text \<open>
  C8. The cache is bounded: whatever is done with it, at whatever times, it holds at most
  \<^verbatim>\<open>maxSize\<close> entries (one, when \<^verbatim>\<open>maxSize\<close> is 0), each key once.
\<close>

theorem cache_is_bounded:
  "distinct (map fst (cache_run maxSize cs [])) \<and> length (cache_run maxSize cs []) \<le> max 1 maxSize"
proof -
  have "cache_ok maxSize store \<Longrightarrow> cache_ok maxSize (cache_run maxSize cs store)" for store
    by (induction maxSize cs store rule: cache_run.induct) (auto simp: cache_ok_step)
  from this [of "[]"] show ?thesis by (simp add: cache_ok_def)
qed

section \<open>What is kept\<close>

text \<open>
  Setting a key keeps what is most valuable. Afterwards the key reads as the new value, as long as
  its time to live has not passed; every other entry is as before, except that expired entries may
  go, and at most one that has not expired: that one only if the key is new and the entries not
  expired fill the cache, and then none of the entries kept is less valuable than it.
\<close>

theorem set_evicts_the_least_valuable:
  assumes ok: "distinct (map fst store)" and size: "length store \<le> maxSize" "0 < maxSize"
    and later: "\<not> cache_isExpired later (makeEntry now v opts)"
  shows "fst (getFromStore later k (setInStore maxSize now k v opts store)) = Some v \<and>
    (\<exists>gone. card gone \<le> 1 \<and>
       (\<forall>k' e. k' \<noteq> k \<longrightarrow> map_of store k' = Some e \<longrightarrow> \<not> cache_isExpired now e \<longrightarrow> k' \<notin> gone \<longrightarrow>
          map_of (setInStore maxSize now k v opts store) k' = Some e) \<and>
       (\<forall>k'. k' \<noteq> k \<longrightarrow> map_of store k' = None \<longrightarrow>
          map_of (setInStore maxSize now k v opts store) k' = None) \<and>
       (\<forall>g \<in> gone. map_of store k = None \<and> length (evictExpired now store) = maxSize \<and>
          (\<exists>e. map_of store g = Some e \<and>
             (\<forall>k' f. k' \<noteq> k \<longrightarrow> map_of (setInStore maxSize now k v opts store) k' = Some f \<longrightarrow>
                \<not> less_valuable f e))))"
proof -
  let ?live = "evictExpired now store" and ?s = "setInStore maxSize now k v opts store"
  have get: "fst (getFromStore later k ?s) = Some v"
    using later by (simp add: setInStore_def getFromStore_def Let_def AList.update_conv' makeEntry_def
        del: if_split)
  have live: "map_of ?live k' = (case map_of store k' of None \<Rightarrow> None
      | Some e \<Rightarrow> if cache_isExpired now e then None else Some e)" for k'
    using ok by (induction store) (auto simp: evictExpired_def map_of_eq_None_iff split: option.splits)
  have del: "map_of (AList.delete x xs) k' = (if k' = x then None else map_of xs k')"
    for x k' and xs :: "(string \<times> 'v cache_entry) list"
    by (simp add: AList.delete_conv')
  show ?thesis
  proof (cases "map_of store k = None \<and> length store \<ge> maxSize \<and> length ?live \<ge> maxSize")
    case False
    then have "map_of ?s k' = map_of store k' \<or> map_of ?s k' = map_of ?live k'" if "k' \<noteq> k" for k'
      using that by (auto simp: setInStore_def Let_def AList.update_conv' del)
    then have "(\<forall>k' e. k' \<noteq> k \<longrightarrow> map_of store k' = Some e \<longrightarrow> \<not> cache_isExpired now e \<longrightarrow>
          map_of ?s k' = Some e) \<and> (\<forall>k'. k' \<noteq> k \<longrightarrow> map_of store k' = None \<longrightarrow> map_of ?s k' = None)"
      unfolding live by fastforce
    with get show ?thesis by (intro conjI exI [of _ "{}"]) auto
  next
    case True
    have len: "length ?live = maxSize"
      using True size(1) length_filter_le [of _ store] by (simp add: evictExpired_def le_antisym)
    then have "?live \<noteq> []" using size(2) by auto
    then obtain g where g: "findEvictionKey ?live = Some g"
      using findEvictionKey_None [of ?live] by (cases "findEvictionKey ?live") auto
    obtain e where e: "(g, e) \<in> set ?live" "\<forall>f \<in> snd ` set ?live. \<not> less_valuable f e"
      using findEvictionKey_minimal [OF g] by blast
    have dl: "distinct (map fst ?live)" using ok by (simp add: evictExpired_def distinct_map_filter)
    have ge: "map_of store g = Some e"
      using e(1) ok by (simp add: evictExpired_def)
    have s: "map_of ?s k' = (if k' = g then None else map_of ?live k')" if "k' \<noteq> k" for k'
      using True g that by (simp add: setInStore_def Let_def AList.update_conv' del
          evictLeastValuable_def)
    have kept: "\<not> less_valuable f e" if "k' \<noteq> k" "map_of ?s k' = Some f" for k' f
      using that s [OF that(1)] e(2) map_of_SomeD by (fastforce split: if_splits)
    show ?thesis
      using get s live len True ge kept by (intro conjI exI [of _ "{g}"]) auto
  qed
qed

definition sample_cache :: "nat cache_store" where
  "sample_cache =
     [(''a'', \<lparr>ce_value = 1, ce_expiresAt = None, ce_priority = High, ce_lastAccessedAt = 1\<rparr>),
      (''b'', \<lparr>ce_value = 2, ce_expiresAt = None, ce_priority = Normal, ce_lastAccessedAt = 5\<rparr>)]"

theorem set_evicts_the_least_valuable_witness:
  "fst (getFromStore 7 ''c'' (setInStore 2 6 ''c'' 3 None sample_cache)) = Some 3 \<and>
   map fst (setInStore 2 6 ''c'' 3 None sample_cache) = [''a'', ''c'']"
proof -
  have a: "distinct (map fst sample_cache)" "length sample_cache \<le> 2" "0 < (2 :: nat)"
    by (simp_all add: sample_cache_def)
  have l: "\<not> cache_isExpired 7 (makeEntry 6 3 None)"
    by (simp add: cache_isExpired_def makeEntry_def)
  have "map fst (setInStore 2 6 ''c'' 3 None sample_cache) = [''a'', ''c'']"
    by (simp add: sample_cache_def setInStore_def evictExpired_def cache_isExpired_def Let_def
        evictLeastValuable_def findEvictionKey_def)
  with set_evicts_the_least_valuable [OF a l, of "''c''"] show ?thesis by simp
qed

text \<open>An expired entry is never read, and reading it removes it.\<close>

lemma expired_is_never_read:
  "map_of store k = Some e \<Longrightarrow> cache_isExpired now e \<Longrightarrow>
   fst (getFromStore now k store) = None \<and> \<not> fst (hasInStore now k store) \<and>
   map_of (snd (getFromStore now k store)) k = None"
  by (simp add: getFromStore_def hasInStore_def AList.delete_conv')

end
