(* ===== verification/KeyValueStorage.thy ===== *)
theory KeyValueStorage
  imports Prelude
begin

text \<open>
  \<^verbatim>\<open>packages/storage/src/platform/key-value-storage.web.ts\<close> (and its copy
  \<^verbatim>\<open>key-value-storage.ts\<close>) over \<^verbatim>\<open>localStorage\<close>, and \<^verbatim>\<open>key-value-storage.native.ts\<close> over
  a backend, which is MMKV (third party) or the in-memory fallback. \<^verbatim>\<open>String\<close> and
  \<^verbatim>\<open>Number\<close> on numbers, \<^verbatim>\<open>JSON.stringify\<close> and \<^verbatim>\<open>JSON.parse\<close> are the record \<open>codec\<close>;
  \<^verbatim>\<open>JSON.parse\<close> gives \<open>None\<close> where it throws.
\<close>

record 'a codec =
  cd_showNumber :: "int \<Rightarrow> string"
  cd_readNumber :: "string \<Rightarrow> int"
  cd_stringify :: "'a \<Rightarrow> string"
  cd_parse :: "string \<Rightarrow> 'a option"

datatype 'a kv_command =
    SetString string string
  | SetNumber string int
  | SetBoolean string bool
  | SetObject string 'a
  | RemoveItem string
  | ClearAll

section \<open>Web\<close>

type_synonym local_storage = "(string \<times> string) list"

definition prefixKey :: "string \<Rightarrow> string \<Rightarrow> string" where
  "prefixKey sid key = ''@ion/'' @ sid @ ''/'' @ key"

definition clearByPrefix :: "string \<Rightarrow> local_storage \<Rightarrow> local_storage" where
  "clearByPrefix pre ls =
     fold AList.delete (filter (prefix pre) (map fst ls)) ls"

definition web_getString :: "string \<Rightarrow> string \<Rightarrow> local_storage \<Rightarrow> string option" where
  "web_getString sid key ls = map_of ls (prefixKey sid key)"

definition web_setString :: "string \<Rightarrow> string \<Rightarrow> string \<Rightarrow> local_storage \<Rightarrow> local_storage" where
  "web_setString sid key val ls = AList.update (prefixKey sid key) val ls"

definition web_getNumber :: "'a codec \<Rightarrow> string \<Rightarrow> string \<Rightarrow> local_storage \<Rightarrow> int option" where
  "web_getNumber cd sid key ls =
     (case map_of ls (prefixKey sid key) of
        None \<Rightarrow> None | Some raw \<Rightarrow> Some (cd_readNumber cd raw))"

definition web_setNumber :: "'a codec \<Rightarrow> string \<Rightarrow> string \<Rightarrow> int \<Rightarrow> local_storage \<Rightarrow> local_storage" where
  "web_setNumber cd sid key val ls = AList.update (prefixKey sid key) (cd_showNumber cd val) ls"

definition web_getBoolean :: "string \<Rightarrow> string \<Rightarrow> local_storage \<Rightarrow> bool option" where
  "web_getBoolean sid key ls =
     (case map_of ls (prefixKey sid key) of None \<Rightarrow> None | Some raw \<Rightarrow> Some (raw = ''true''))"

definition web_setBoolean :: "string \<Rightarrow> string \<Rightarrow> bool \<Rightarrow> local_storage \<Rightarrow> local_storage" where
  "web_setBoolean sid key val ls =
     AList.update (prefixKey sid key) (if val then ''true'' else ''false'') ls"

text \<open>The outer option is the exception of \<^verbatim>\<open>JSON.parse\<close>, the inner one \<^verbatim>\<open>null\<close>.\<close>

definition web_getObject ::
  "'a codec \<Rightarrow> string \<Rightarrow> string \<Rightarrow> local_storage \<Rightarrow> 'a option option" where
  "web_getObject cd sid key ls =
     (case map_of ls (prefixKey sid key) of
        None \<Rightarrow> Some None | Some raw \<Rightarrow> map_option Some (cd_parse cd raw))"

definition web_setObject :: "'a codec \<Rightarrow> string \<Rightarrow> string \<Rightarrow> 'a \<Rightarrow> local_storage \<Rightarrow> local_storage" where
  "web_setObject cd sid key val ls = AList.update (prefixKey sid key) (cd_stringify cd val) ls"

definition web_removeItem :: "string \<Rightarrow> string \<Rightarrow> local_storage \<Rightarrow> local_storage" where
  "web_removeItem sid key ls = AList.delete (prefixKey sid key) ls"

definition web_hasItem :: "string \<Rightarrow> string \<Rightarrow> local_storage \<Rightarrow> bool" where
  "web_hasItem sid key ls = (map_of ls (prefixKey sid key) \<noteq> None)"

definition web_clear :: "string \<Rightarrow> local_storage \<Rightarrow> local_storage" where
  "web_clear sid ls = clearByPrefix (''@ion/'' @ sid @ ''/'') ls"

fun web_kv_step :: "'a codec \<Rightarrow> string \<Rightarrow> 'a kv_command \<Rightarrow> local_storage \<Rightarrow> local_storage" where
  "web_kv_step cd sid (SetString k v) ls = web_setString sid k v ls"
| "web_kv_step cd sid (SetNumber k n) ls = web_setNumber cd sid k n ls"
| "web_kv_step cd sid (SetBoolean k b) ls = web_setBoolean sid k b ls"
| "web_kv_step cd sid (SetObject k x) ls = web_setObject cd sid k x ls"
| "web_kv_step cd sid (RemoveItem k) ls = web_removeItem sid k ls"
| "web_kv_step cd sid ClearAll ls = web_clear sid ls"

section \<open>Native\<close>

datatype kv_value = KStr string | KNum int | KBool bool

record 's kv_backend =
  kb_getString :: "string \<Rightarrow> 's \<Rightarrow> string option"
  kb_set :: "string \<Rightarrow> kv_value \<Rightarrow> 's \<Rightarrow> 's"
  kb_getNumber :: "string \<Rightarrow> 's \<Rightarrow> int option"
  kb_getBoolean :: "string \<Rightarrow> 's \<Rightarrow> bool option"
  kb_remove :: "string \<Rightarrow> 's \<Rightarrow> 's"
  kb_contains :: "string \<Rightarrow> 's \<Rightarrow> bool"
  kb_clearAll :: "'s \<Rightarrow> 's"

type_synonym fallback_stores = "(string \<times> (string \<times> kv_value) list) list"

text \<open>
  \<^verbatim>\<open>getFallbackStore\<close> returns the live store of an id, making it when there is none; reading
  the store of an id through \<open>fallback_store\<close> gives the same.
\<close>

definition getFallbackStore :: "string \<Rightarrow> fallback_stores \<Rightarrow> fallback_stores" where
  "getFallbackStore sid stores =
     (case map_of stores sid of None \<Rightarrow> AList.update sid [] stores | Some _ \<Rightarrow> stores)"

definition fallback_store :: "string \<Rightarrow> fallback_stores \<Rightarrow> (string \<times> kv_value) list" where
  "fallback_store sid stores = (case map_of stores sid of None \<Rightarrow> [] | Some s \<Rightarrow> s)"

definition with_fallback ::
  "string \<Rightarrow> ((string \<times> kv_value) list \<Rightarrow> (string \<times> kv_value) list) \<Rightarrow>
   fallback_stores \<Rightarrow> fallback_stores" where
  "with_fallback sid f stores = AList.update sid (f (fallback_store sid stores)) stores"

definition createFallbackBackend :: "string \<Rightarrow> fallback_stores kv_backend" where
  "createFallbackBackend sid =
     \<lparr>kb_getString = (\<lambda>key stores.
        case map_of (fallback_store sid stores) key of Some (KStr s) \<Rightarrow> Some s | _ \<Rightarrow> None),
      kb_set = (\<lambda>key val. with_fallback sid (AList.update key val)),
      kb_getNumber = (\<lambda>key stores.
        case map_of (fallback_store sid stores) key of Some (KNum n) \<Rightarrow> Some n | _ \<Rightarrow> None),
      kb_getBoolean = (\<lambda>key stores.
        case map_of (fallback_store sid stores) key of Some (KBool b) \<Rightarrow> Some b | _ \<Rightarrow> None),
      kb_remove = (\<lambda>key. with_fallback sid (AList.delete key)),
      kb_contains = (\<lambda>key stores. map_of (fallback_store sid stores) key \<noteq> None),
      kb_clearAll = with_fallback sid (\<lambda>_. [])\<rparr>"

text \<open>The methods of the storage, over any backend.\<close>

definition native_getString :: "'s kv_backend \<Rightarrow> string \<Rightarrow> 's \<Rightarrow> string option" where
  "native_getString b key s = kb_getString b key s"

definition native_setString :: "'s kv_backend \<Rightarrow> string \<Rightarrow> string \<Rightarrow> 's \<Rightarrow> 's" where
  "native_setString b key val s = kb_set b key (KStr val) s"

definition native_getNumber :: "'s kv_backend \<Rightarrow> string \<Rightarrow> 's \<Rightarrow> int option" where
  "native_getNumber b key s = kb_getNumber b key s"

definition native_setNumber :: "'s kv_backend \<Rightarrow> string \<Rightarrow> int \<Rightarrow> 's \<Rightarrow> 's" where
  "native_setNumber b key val s = kb_set b key (KNum val) s"

definition native_getBoolean :: "'s kv_backend \<Rightarrow> string \<Rightarrow> 's \<Rightarrow> bool option" where
  "native_getBoolean b key s = kb_getBoolean b key s"

definition native_setBoolean :: "'s kv_backend \<Rightarrow> string \<Rightarrow> bool \<Rightarrow> 's \<Rightarrow> 's" where
  "native_setBoolean b key val s = kb_set b key (KBool val) s"

definition native_getObject ::
  "'a codec \<Rightarrow> 's kv_backend \<Rightarrow> string \<Rightarrow> 's \<Rightarrow> 'a option option" where
  "native_getObject cd b key s =
     (case kb_getString b key s of
        None \<Rightarrow> Some None | Some raw \<Rightarrow> map_option Some (cd_parse cd raw))"

definition native_setObject :: "'a codec \<Rightarrow> 's kv_backend \<Rightarrow> string \<Rightarrow> 'a \<Rightarrow> 's \<Rightarrow> 's" where
  "native_setObject cd b key val s = kb_set b key (KStr (cd_stringify cd val)) s"

definition native_removeItem :: "'s kv_backend \<Rightarrow> string \<Rightarrow> 's \<Rightarrow> 's" where
  "native_removeItem b key s = kb_remove b key s"

definition native_hasItem :: "'s kv_backend \<Rightarrow> string \<Rightarrow> 's \<Rightarrow> bool" where
  "native_hasItem b key s = kb_contains b key s"

definition native_clear :: "'s kv_backend \<Rightarrow> 's \<Rightarrow> 's" where
  "native_clear b s = kb_clearAll b s"

fun native_kv_step :: "'a codec \<Rightarrow> 's kv_backend \<Rightarrow> 'a kv_command \<Rightarrow> 's \<Rightarrow> 's" where
  "native_kv_step cd b (SetString k v) s = native_setString b k v s"
| "native_kv_step cd b (SetNumber k n) s = native_setNumber b k n s"
| "native_kv_step cd b (SetBoolean k x) s = native_setBoolean b k x s"
| "native_kv_step cd b (SetObject k x) s = native_setObject cd b k x s"
| "native_kv_step cd b (RemoveItem k) s = native_removeItem b k s"
| "native_kv_step cd b ClearAll s = native_clear b s"

section \<open>The contract\<close>

text \<open>
  What a client of \<^verbatim>\<open>IKeyValueStorage\<close> relies on: a key reads what was last written to it, and
  writing or removing one key leaves the others alone.
\<close>

fun command_key :: "'a kv_command \<Rightarrow> string option" where
  "command_key (SetString k v) = Some k"
| "command_key (SetNumber k n) = Some k"
| "command_key (SetBoolean k b) = Some k"
| "command_key (SetObject k x) = Some k"
| "command_key (RemoveItem k) = Some k"
| "command_key ClearAll = None"

locale kv_storage =
  fixes step :: "'a kv_command \<Rightarrow> 's \<Rightarrow> 's"
    and getString :: "string \<Rightarrow> 's \<Rightarrow> string option"
    and getNumber :: "string \<Rightarrow> 's \<Rightarrow> int option"
    and getBoolean :: "string \<Rightarrow> 's \<Rightarrow> bool option"
    and getObject :: "string \<Rightarrow> 's \<Rightarrow> 'a option option"
    and hasItem :: "string \<Rightarrow> 's \<Rightarrow> bool"
  assumes string_roundtrip: "getString k (step (SetString k v) s) = Some v"
    and number_roundtrip: "getNumber k (step (SetNumber k n) s) = Some n"
    and boolean_roundtrip: "getBoolean k (step (SetBoolean k b) s) = Some b"
    and object_roundtrip: "getObject k (step (SetObject k x) s) = Some (Some x)"
    and removed: "command_key c = None \<or> c = RemoveItem k \<Longrightarrow>
      \<not> hasItem k (step c s) \<and> getString k (step c s) = None \<and> getNumber k (step c s) = None \<and>
      getBoolean k (step c s) = None \<and> getObject k (step c s) = Some None"
    and elsewhere: "command_key c = Some k' \<Longrightarrow> k' \<noteq> k \<Longrightarrow>
      getString k (step c s) = getString k s \<and> getNumber k (step c s) = getNumber k s \<and>
      getBoolean k (step c s) = getBoolean k s \<and> getObject k (step c s) = getObject k s \<and>
      hasItem k (step c s) = hasItem k s"
begin

lemma untouched:
  "(\<forall>c \<in> set cs. \<exists>k'. command_key c = Some k' \<and> k' \<noteq> k) \<Longrightarrow>
   getString k (fold step cs s) = getString k s \<and> getNumber k (fold step cs s) = getNumber k s \<and>
   getBoolean k (fold step cs s) = getBoolean k s \<and> getObject k (fold step cs s) = getObject k s"
proof (induction cs arbitrary: s)
  case Nil
  then show ?case by simp
next
  case (Cons c cs)
  then obtain k' where c: "command_key c = Some k'" "k' \<noteq> k" by auto
  from Cons.prems have rest: "\<forall>c \<in> set cs. \<exists>k'. command_key c = Some k' \<and> k' \<noteq> k" by simp
  from Cons.IH [OF rest, of "step c s"] elsewhere [OF c, of s] show ?case by simp
qed

lemma last_write_wins:
  assumes "\<forall>c \<in> set cs. \<exists>k'. command_key c = Some k' \<and> k' \<noteq> k"
  shows "getString k (fold step cs (step (SetString k v) s)) = Some v"
    and "getNumber k (fold step cs (step (SetNumber k n) s)) = Some n"
    and "getBoolean k (fold step cs (step (SetBoolean k b) s)) = Some b"
    and "getObject k (fold step cs (step (SetObject k x) s)) = Some (Some x)"
  using untouched [OF assms] string_roundtrip number_roundtrip boolean_roundtrip object_roundtrip
  by simp_all

end

definition codec_ok :: "'a codec \<Rightarrow> bool" where
  "codec_ok cd = ((\<forall>n. cd_readNumber cd (cd_showNumber cd n) = n) \<and>
     (\<forall>x. cd_parse cd (cd_stringify cd x) = Some x))"

lemma prefixKey_inj [simp]: "prefixKey sid k = prefixKey sid k' \<longleftrightarrow> k = k'"
  by (simp add: prefixKey_def)

lemma map_of_fold_delete:
  "map_of (fold AList.delete ks xs) k = (if k \<in> set ks then None else map_of xs k)"
  by (induction ks arbitrary: xs) (auto simp: AList.delete_conv')

lemma map_of_clearByPrefix:
  "map_of (clearByPrefix pre ls) k = (if prefix pre k then None else map_of ls k)"
  by (auto simp: clearByPrefix_def map_of_fold_delete map_of_eq_None_iff)

lemmas web_kv_defs = web_getString_def web_setString_def web_getNumber_def web_setNumber_def
  web_getBoolean_def web_setBoolean_def web_getObject_def web_setObject_def web_removeItem_def
  web_hasItem_def web_clear_def

lemma kv_storage_web:
  assumes "codec_ok cd"
  shows "kv_storage (web_kv_step cd sid) (web_getString sid) (web_getNumber cd sid) (web_getBoolean sid)
           (web_getObject cd sid) (web_hasItem sid)"
proof
  fix c :: "'a kv_command" and k k' s
  show "command_key c = None \<or> c = RemoveItem k \<Longrightarrow>
      \<not> web_hasItem sid k (web_kv_step cd sid c s) \<and> web_getString sid k (web_kv_step cd sid c s) = None \<and>
      web_getNumber cd sid k (web_kv_step cd sid c s) = None \<and>
      web_getBoolean sid k (web_kv_step cd sid c s) = None \<and>
      web_getObject cd sid k (web_kv_step cd sid c s) = Some None"
    by (cases c) (auto simp: web_kv_defs map_of_clearByPrefix AList.delete_conv' prefixKey_def)
  show "command_key c = Some k' \<Longrightarrow> k' \<noteq> k \<Longrightarrow>
      web_getString sid k (web_kv_step cd sid c s) = web_getString sid k s \<and>
      web_getNumber cd sid k (web_kv_step cd sid c s) = web_getNumber cd sid k s \<and>
      web_getBoolean sid k (web_kv_step cd sid c s) = web_getBoolean sid k s \<and>
      web_getObject cd sid k (web_kv_step cd sid c s) = web_getObject cd sid k s \<and>
      web_hasItem sid k (web_kv_step cd sid c s) = web_hasItem sid k s"
    by (cases c) (auto simp: web_kv_defs AList.update_conv' AList.delete_conv')
qed (use assms in \<open>simp_all add: web_kv_defs AList.update_conv' codec_ok_def\<close>)

lemma map_of_with_fallback:
  "fallback_store sid (with_fallback sid f stores) = f (fallback_store sid stores)"
  by (simp add: fallback_store_def with_fallback_def AList.update_conv')

lemmas native_kv_defs = native_getString_def native_setString_def native_getNumber_def
  native_setNumber_def native_getBoolean_def native_setBoolean_def native_getObject_def
  native_setObject_def native_removeItem_def native_hasItem_def native_clear_def
  createFallbackBackend_def

lemma kv_storage_fallback:
  fixes sid :: string
  assumes "codec_ok cd"
  defines "b \<equiv> createFallbackBackend sid"
  shows "kv_storage (native_kv_step cd b) (native_getString b) (native_getNumber b)
           (native_getBoolean b) (native_getObject cd b) (native_hasItem b)"
proof
  fix c :: "'a kv_command" and k k' s
  show "command_key c = None \<or> c = RemoveItem k \<Longrightarrow>
      \<not> native_hasItem b k (native_kv_step cd b c s) \<and>
      native_getString b k (native_kv_step cd b c s) = None \<and>
      native_getNumber b k (native_kv_step cd b c s) = None \<and>
      native_getBoolean b k (native_kv_step cd b c s) = None \<and>
      native_getObject cd b k (native_kv_step cd b c s) = Some None"
    by (cases c) (auto simp: b_def native_kv_defs map_of_with_fallback AList.delete_conv')
  show "command_key c = Some k' \<Longrightarrow> k' \<noteq> k \<Longrightarrow>
      native_getString b k (native_kv_step cd b c s) = native_getString b k s \<and>
      native_getNumber b k (native_kv_step cd b c s) = native_getNumber b k s \<and>
      native_getBoolean b k (native_kv_step cd b c s) = native_getBoolean b k s \<and>
      native_getObject cd b k (native_kv_step cd b c s) = native_getObject cd b k s \<and>
      native_hasItem b k (native_kv_step cd b c s) = native_hasItem b k s"
    by (cases c) (auto simp: b_def native_kv_defs map_of_with_fallback AList.update_conv'
        AList.delete_conv')
qed (use assms in \<open>simp_all add: native_kv_defs map_of_with_fallback AList.update_conv' codec_ok_def\<close>)

text \<open>
  Both platforms meet the contract, for every codec that reads back what it writes.
\<close>

locale kv_codec =
  fixes cd :: "'a codec"
  assumes cd_ok: "codec_ok cd"
begin

lemma number_read_back: "cd_readNumber cd (cd_showNumber cd n) = n"
  using cd_ok by (simp add: codec_ok_def)

end

sublocale kv_codec \<subseteq> web: kv_storage "web_kv_step cd sid" "web_getString sid" "web_getNumber cd sid"
    "web_getBoolean sid" "web_getObject cd sid" "web_hasItem sid" for sid
  by (rule kv_storage_web [OF cd_ok])

sublocale kv_codec \<subseteq> fallback: kv_storage "native_kv_step cd (createFallbackBackend sid)"
    "native_getString (createFallbackBackend sid)" "native_getNumber (createFallbackBackend sid)"
    "native_getBoolean (createFallbackBackend sid)" "native_getObject cd (createFallbackBackend sid)"
    "native_hasItem (createFallbackBackend sid)" for sid
  by (rule kv_storage_fallback [OF cd_ok])

text \<open>Decimal integers, and strings between quotes.\<close>

definition read_nat :: "string \<Rightarrow> nat" where
  "read_nat ds = foldl (\<lambda>a c. 10 * a + (of_char c - 48)) 0 ds"

definition read_int :: "string \<Rightarrow> int" where
  "read_int s = (case s of
     CHR ''-'' # ds \<Rightarrow> - int (read_nat ds) | _ \<Rightarrow> int (read_nat s))"

lemma read_nat_digits: "read_nat (nat_digits n) = n"
proof (induction n rule: nat_digits.induct)
  case (1 n)
  have d: "(of_char (char_of (48 + m) :: char) :: nat) = 48 + m" if "m < 10" for m
    using that by simp
  show ?case
  proof (cases "n < 10")
    case True
    then show ?thesis using d [of n] by (subst nat_digits.simps) (simp add: read_nat_def)
  next
    case False
    then show ?thesis
      using 1 [OF False] d [of "n mod 10"]
      by (subst nat_digits.simps) (simp add: read_nat_def)
  qed
qed

lemma hd_nat_digits: "\<exists>m < 10. \<exists>cs. nat_digits n = char_of (48 + m :: nat) # cs"
proof (induction n rule: nat_digits.induct)
  case (1 n)
  show ?case
  proof (cases "n < 10")
    case True
    then show ?thesis by (subst nat_digits.simps) auto
  next
    case False
    with 1 obtain m cs where "m < 10" "nat_digits (n div 10) = char_of (48 + m :: nat) # cs" by blast
    with False show ?thesis by (subst nat_digits.simps) auto
  qed
qed

lemma read_int_str: "read_int (int_str i) = i"
proof (cases "i < 0")
  case True
  then show ?thesis by (simp add: read_int_def int_str_def read_nat_digits)
next
  case False
  obtain m cs where m: "m < 10" "nat_digits (nat i) = char_of (48 + m :: nat) # cs"
    using hd_nat_digits by blast
  have "of_char (char_of (48 + m :: nat) :: char) = (48 + m :: nat)" using m(1) by simp
  moreover have "of_char (CHR ''-'') = (45 :: nat)" by simp
  ultimately have "char_of (48 + m :: nat) \<noteq> CHR ''-''" using m(1) by force
  then have "read_int (nat_digits (nat i)) = int (read_nat (nat_digits (nat i)))"
    unfolding m(2) read_int_def by (auto split: char.splits bool.splits)
  with False show ?thesis by (simp add: int_str_def read_nat_digits)
qed

definition string_codec :: "string codec" where
  "string_codec =
     \<lparr>cd_showNumber = int_str, cd_readNumber = read_int,
      cd_stringify = (\<lambda>s. CHR 0x22 # s @ [CHR 0x22]),
      cd_parse = (\<lambda>s. if length s < 2 then None else Some (butlast (tl s)))\<rparr>"

interpretation strings: kv_codec string_codec
  by unfold_locales (simp add: codec_ok_def string_codec_def read_int_str)

section \<open>What clients get\<close>

text \<open>
  A key-value storage returns what was written, on both platforms. After a value was stored under
  a key, and whatever was then done to other keys of the same storage, the key reads that value,
  through the getter of its type: on the web for every codec that reads back what it writes, and
  for the native fallback without a change of representation.
\<close>

theorem last_write_is_read:
  assumes "codec_ok cd" and "\<forall>c \<in> set cs. \<exists>k'. command_key c = Some k' \<and> k' \<noteq> k"
  shows "web_getString sid k (fold (web_kv_step cd sid) cs (web_setString sid k v ls)) = Some v \<and>
    web_getNumber cd sid k (fold (web_kv_step cd sid) cs (web_setNumber cd sid k n ls)) = Some n \<and>
    web_getBoolean sid k (fold (web_kv_step cd sid) cs (web_setBoolean sid k b ls)) = Some b \<and>
    web_getObject cd sid k (fold (web_kv_step cd sid) cs (web_setObject cd sid k x ls))
      = Some (Some x) \<and>
    (let fb = createFallbackBackend sid in
     native_getString fb k (fold (native_kv_step cd fb) cs (native_setString fb k v ms)) = Some v \<and>
     native_getNumber fb k (fold (native_kv_step cd fb) cs (native_setNumber fb k n ms)) = Some n \<and>
     native_getBoolean fb k (fold (native_kv_step cd fb) cs (native_setBoolean fb k b ms)) = Some b \<and>
     native_getObject cd fb k (fold (native_kv_step cd fb) cs (native_setObject cd fb k x ms))
       = Some (Some x))"
  using kv_storage.last_write_wins [OF kv_storage_web [OF assms(1)] assms(2)]
    kv_storage.last_write_wins [OF kv_storage_fallback [OF assms(1)] assms(2)]
  by (simp add: Let_def)

theorem last_write_is_read_witness:
  "web_getObject string_codec ''app'' ''k''
     (fold (web_kv_step string_codec ''app'') [SetNumber ''n'' 4, RemoveItem ''m'']
       (web_setObject string_codec ''app'' ''k'' ''v'' [])) = Some (Some ''v'')"
proof -
  have others: "\<forall>c \<in> set [SetNumber ''n'' 4, RemoveItem ''m'']. \<exists>k'. command_key c = Some k' \<and> k' \<noteq> ''k''"
    by simp
  from last_write_is_read [OF strings.cd_ok others, where sid = "''app''" and x = "''v''" and
      ls = "[]"] show ?thesis by simp
qed

lemma prefixKey_disjoint:
  assumes "CHR ''/'' \<notin> set i" "CHR ''/'' \<notin> set j" "i \<noteq> j"
  shows "prefixKey i k \<noteq> prefixKey j k'" and "\<not> prefix (''@ion/'' @ i @ ''/'') (prefixKey j k')"
proof -
  have split: "takeWhile (\<lambda>c. c \<noteq> CHR ''/'') (x @ CHR ''/'' # y) = x" if "CHR ''/'' \<notin> set x" for x y
    using that by (induction x) auto
  have neq: "i @ CHR ''/'' # a \<noteq> j @ CHR ''/'' # b" for a b
    using split [OF assms(1), of a] split [OF assms(2), of b] assms(3) by metis
  show "prefixKey i k \<noteq> prefixKey j k'" using neq by (simp add: prefixKey_def)
  show "\<not> prefix (''@ion/'' @ i @ ''/'') (prefixKey j k')"
  proof
    assume "prefix (''@ion/'' @ i @ ''/'') (prefixKey j k')"
    then obtain zs where "''@ion/'' @ j @ ''/'' @ k' = (''@ion/'' @ i @ ''/'') @ zs"
      unfolding prefixKey_def prefix_def by blast
    with neq [of zs k'] show False by simp
  qed
qed

text \<open>
  Web storages with different ids share \<^verbatim>\<open>localStorage\<close> without seeing one another, as long as
  their ids contain no slash: no operation on one, not even \<^verbatim>\<open>clear()\<close>, changes what the other
  reads.
\<close>

theorem web_storages_are_isolated:
  assumes "CHR ''/'' \<notin> set i" "CHR ''/'' \<notin> set j" "i \<noteq> j"
  shows "map_of (web_kv_step cd i c ls) (prefixKey j k) = map_of ls (prefixKey j k)"
proof -
  have neq: "(prefixKey i k' = prefixKey j k) = False" "(prefixKey j k = prefixKey i k') = False" for k'
    using prefixKey_disjoint(1) [OF assms, of k' k] by auto
  show ?thesis
    using prefixKey_disjoint(2) [OF assms, of k]
    by (cases c) (simp_all add: web_kv_defs AList.update_conv' AList.delete_conv'
        map_of_clearByPrefix neq)
qed

theorem web_storages_are_isolated_witness:
  "map_of (web_kv_step string_codec ''auth'' ClearAll [(prefixKey ''chat'' ''k'', ''v'')])
     (prefixKey ''chat'' ''k'') = Some ''v''"
proof -
  have "CHR ''/'' \<notin> set ''auth''" "CHR ''/'' \<notin> set ''chat''" "''auth'' \<noteq> ''chat''" by simp_all
  from web_storages_are_isolated [OF this, of string_codec ClearAll "[(prefixKey ''chat'' ''k'', ''v'')]" "''k''"]
  show ?thesis by simp
qed

text \<open>With a slash in an id they are not isolated.\<close>

lemma nested_ids_clash:
  "web_getString ''a/b'' ''k'' (web_clear ''a'' (web_setString ''a/b'' ''k'' v [])) = None \<and>
   web_getString ''a'' ''b/k'' (web_setString ''a/b'' ''k'' v []) = Some v"
  by (simp add: web_kv_defs map_of_clearByPrefix prefixKey_def)

end
