(* ===== verification/SecureStorage.thy ===== *)
theory SecureStorage
  imports NetworkTypes
begin

text \<open>
  \<^verbatim>\<open>packages/storage/src/platform/secure-storage.native.ts\<close> over the device's keychain and
  \<^verbatim>\<open>secure-storage.web.ts\<close> over \<^verbatim>\<open>localStorage\<close> with WebCrypto. The keychain, the
  cryptographic functions, the base64 functions and \<^verbatim>\<open>JSON\<close> are parameters. The mutex of the
  native storage runs its write operations one after the other, so each of them is one
  computation; the warning it prints on the console is left out.
\<close>

section \<open>Native\<close>

datatype accessible = WhenPasscodeSet | WhenUnlocked

record 's keychain =
  kc_getGenericPassword :: "string \<Rightarrow> ('s, js_error, string option) io"
  kc_setGenericPassword :: "string \<Rightarrow> string \<Rightarrow> string \<Rightarrow> accessible \<Rightarrow> ('s, js_error, unit) io"
  kc_resetGenericPassword :: "string \<Rightarrow> ('s, js_error, unit) io"

record json =
  js_stringify :: "js_value \<Rightarrow> string"
  js_parse :: "string \<Rightarrow> js_value option"

definition SERVICE_PREFIX :: string where
  "SERVICE_PREFIX = ''ion.secure.''"

definition KEY_REGISTRY_SERVICE :: string where
  "KEY_REGISTRY_SERVICE = ''ion.secure.__keys__''"

definition serviceFor :: "string \<Rightarrow> string" where
  "serviceFor key = SERVICE_PREFIX @ key"

text \<open>\<^verbatim>\<open>parsed.filter(k => typeof k === 'string')\<close>, or nothing for another value.\<close>

fun strings_among :: "js_value list \<Rightarrow> string list" where
  "strings_among [] = []"
| "strings_among (JStr s # vs) = s # strings_among vs"
| "strings_among (v # vs) = strings_among vs"

fun string_elements :: "js_value \<Rightarrow> string list" where
  "string_elements (JArr i vs) = strings_among vs"
| "string_elements v = []"

definition parse_registry :: "json \<Rightarrow> string option \<Rightarrow> string list" where
  "parse_registry js result =
     (case result of
        None \<Rightarrow> []
      | Some password \<Rightarrow>
          (case js_parse js password of None \<Rightarrow> [] | Some parsed \<Rightarrow> string_elements parsed))"

definition getKeyRegistry :: "json \<Rightarrow> 's keychain \<Rightarrow> ('s, js_error, string list) io" where
  "getKeyRegistry js kc =
     io_bind (kc_getGenericPassword kc KEY_REGISTRY_SERVICE) (\<lambda>result.
       io_return (parse_registry js result))"

definition setWithAccessibilityFallback ::
  "'s keychain \<Rightarrow> string \<Rightarrow> string \<Rightarrow> string \<Rightarrow> ('s, js_error, unit) io" where
  "setWithAccessibilityFallback kc username password service =
     io_catch (kc_setGenericPassword kc username password service WhenPasscodeSet)
       (\<lambda>_. kc_setGenericPassword kc username password service WhenUnlocked)"

definition string_array :: "string list \<Rightarrow> js_value" where
  "string_array keys = JArr 0 (map JStr keys)"

definition saveKeyRegistry :: "json \<Rightarrow> 's keychain \<Rightarrow> string list \<Rightarrow> ('s, js_error, unit) io" where
  "saveKeyRegistry js kc keys =
     setWithAccessibilityFallback kc ''registry'' (js_stringify js (string_array keys))
       KEY_REGISTRY_SERVICE"

definition setSecureItem ::
  "json \<Rightarrow> 's keychain \<Rightarrow> string \<Rightarrow> string \<Rightarrow> ('s, js_error, unit) io" where
  "setSecureItem js kc key val =
     io_then (setWithAccessibilityFallback kc key val (serviceFor key))
     (io_bind (getKeyRegistry js kc) (\<lambda>keys.
        if key \<notin> set keys
        then io_catch (saveKeyRegistry js kc (keys @ [key]))
               (\<lambda>registryError. io_then (kc_resetGenericPassword kc (serviceFor key))
                                  (io_throw registryError))
        else io_return ()))"

definition removeSecureItem :: "json \<Rightarrow> 's keychain \<Rightarrow> string \<Rightarrow> ('s, js_error, unit) io" where
  "removeSecureItem js kc key =
     io_then (kc_resetGenericPassword kc (serviceFor key))
     (io_bind (getKeyRegistry js kc) (\<lambda>keys.
        saveKeyRegistry js kc (filter (\<lambda>k. k \<noteq> key) keys)))"

fun reset_all :: "'s keychain \<Rightarrow> string list \<Rightarrow> ('s, js_error, unit) io" where
  "reset_all kc [] = io_return ()"
| "reset_all kc (key # keys) =
     io_then (kc_resetGenericPassword kc (serviceFor key)) (reset_all kc keys)"

definition clearSecureStorage :: "json \<Rightarrow> 's keychain \<Rightarrow> ('s, js_error, unit) io" where
  "clearSecureStorage js kc =
     io_bind (getKeyRegistry js kc) (\<lambda>keys.
       io_then (reset_all kc keys) (kc_resetGenericPassword kc KEY_REGISTRY_SERVICE))"

definition native_getItem :: "'s keychain \<Rightarrow> string \<Rightarrow> ('s, js_error, string option) io" where
  "native_getItem kc key = kc_getGenericPassword kc (serviceFor key)"

definition native_hasSecureItem :: "'s keychain \<Rightarrow> string \<Rightarrow> ('s, js_error, bool) io" where
  "native_hasSecureItem kc key =
     io_bind (kc_getGenericPassword kc (serviceFor key)) (\<lambda>result. io_return (result \<noteq> None))"

text \<open>The write operations, as the mutex runs them.\<close>

datatype secure_command = SecureSet string string | SecureRemove string | SecureClear

fun native_secure_step :: "json \<Rightarrow> 's keychain \<Rightarrow> secure_command \<Rightarrow> ('s, js_error, unit) io" where
  "native_secure_step js kc (SecureSet key val) = setSecureItem js kc key val"
| "native_secure_step js kc (SecureRemove key) = removeSecureItem js kc key"
| "native_secure_step js kc SecureClear = clearSecureStorage js kc"

text \<open>\<^verbatim>\<open>pending.then(fn, fn)\<close>: the next operation runs whether or not the last one failed.\<close>

fun with_lock :: "('s, js_error, unit) io list \<Rightarrow> 's \<Rightarrow> 's" where
  "with_lock [] s = s"
| "with_lock (f # fs) s = with_lock fs (snd (f s))"

subsection \<open>Faults\<close>

text \<open>
  A keychain that may refuse to write, at any time and for any reason, but then changes nothing,
  and that otherwise holds one password per service.
\<close>

definition keychain_ok :: "('s \<Rightarrow> string \<Rightarrow> string option) \<Rightarrow> 's keychain \<Rightarrow> bool" where
  "keychain_ok view kc =
     ((\<forall>svc s. kc_getGenericPassword kc svc s = (Inr (view s svc), s)) \<and>
      (\<forall>u pw svc acc s. let (r, t) = kc_setGenericPassword kc u pw svc acc s in
         view t = (case r of Inl e \<Rightarrow> view s | Inr _ \<Rightarrow> (view s)(svc := Some pw))) \<and>
      (\<forall>svc s. fst (kc_resetGenericPassword kc svc s) = Inr () \<and>
         view (snd (kc_resetGenericPassword kc svc s)) = (view s)(svc := None)))"

definition json_ok :: "json \<Rightarrow> bool" where
  "json_ok js = (\<forall>keys. \<exists>i. js_parse js (js_stringify js (string_array keys)) = Some (JArr i (map JStr keys)))"

text \<open>Every item is listed in the registry.\<close>

definition registered :: "json \<Rightarrow> (string \<Rightarrow> string option) \<Rightarrow> bool" where
  "registered js v =
     (\<forall>key. key \<noteq> ''__keys__'' \<longrightarrow> v (serviceFor key) \<noteq> None \<longrightarrow>
        key \<in> set (parse_registry js (v KEY_REGISTRY_SERVICE)))"

fun command_ok :: "secure_command \<Rightarrow> bool" where
  "command_ok (SecureSet key val) = (key \<noteq> ''__keys__'')"
| "command_ok (SecureRemove key) = (key \<noteq> ''__keys__'')"
| "command_ok SecureClear = True"

lemma serviceFor_inj [simp]: "serviceFor k = serviceFor k' \<longleftrightarrow> k = k'"
  by (simp add: serviceFor_def)

lemma serviceFor_registry [simp]:
  "serviceFor k = KEY_REGISTRY_SERVICE \<longleftrightarrow> k = ''__keys__''"
  "KEY_REGISTRY_SERVICE = serviceFor k \<longleftrightarrow> k = ''__keys__''"
  by (auto simp: serviceFor_def KEY_REGISTRY_SERVICE_def SERVICE_PREFIX_def)

lemma strings_among_strings [simp]: "strings_among (map JStr ks) = ks"
  by (induction ks) simp_all

lemma string_elements_strings: "string_elements (JArr i (map JStr ks)) = ks"
  by simp

lemma parse_stringify:
  "json_ok js \<Longrightarrow> parse_registry js (Some (js_stringify js (string_array keys))) = keys"
  unfolding json_ok_def parse_registry_def by (metis option.simps(5) string_elements_strings)

lemma keychain_get:
  "keychain_ok view kc \<Longrightarrow> kc_getGenericPassword kc svc s = (Inr (view s svc), s)"
  by (simp add: keychain_ok_def)

lemma keychain_reset:
  assumes "keychain_ok view kc"
  obtains t where "kc_resetGenericPassword kc svc s = (Inr (), t)" "view t = (view s)(svc := None)"
  using assms unfolding keychain_ok_def by (metis prod.collapse)

lemma keychain_set_raw:
  assumes "keychain_ok view kc"
  obtains (ok) t where "kc_setGenericPassword kc u pw svc acc s = (Inr (), t)"
      "view t = (view s)(svc := Some pw)"
  | (refused) e t where "kc_setGenericPassword kc u pw svc acc s = (Inl e, t)" "view t = view s"
proof -
  obtain r t where rt: "kc_setGenericPassword kc u pw svc acc s = (r, t)" by fastforce
  from assms have "let (r, t) = kc_setGenericPassword kc u pw svc acc s in
      view t = (case r of Inl e \<Rightarrow> view s | Inr _ \<Rightarrow> (view s)(svc := Some pw))"
    unfolding keychain_ok_def by blast
  with rt have v: "view t = (case r of Inl e \<Rightarrow> view s | Inr _ \<Rightarrow> (view s)(svc := Some pw))" by simp
  show thesis
  proof (cases r)
    case (Inl e)
    with rt v show thesis by (intro refused [of e t]) simp_all
  next
    case (Inr a)
    with rt v show thesis by (intro ok [of t]) simp_all
  qed
qed

lemma keychain_set:
  assumes "keychain_ok view kc"
  obtains (ok) t where "setWithAccessibilityFallback kc u pw svc s = (Inr (), t)"
      "view t = (view s)(svc := Some pw)"
  | (refused) e t where "setWithAccessibilityFallback kc u pw svc s = (Inl e, t)" "view t = view s"
proof (cases rule: keychain_set_raw [OF assms, of u pw svc WhenPasscodeSet s])
  case (1 t)
  then show ?thesis
    using ok by (simp add: setWithAccessibilityFallback_def io_catch_simp)
next
  case (2 e t)
  then show ?thesis
    using ok refused
    by (cases rule: keychain_set_raw [OF assms, of u pw svc WhenUnlocked t])
      (simp_all add: setWithAccessibilityFallback_def io_catch_simp)
qed

lemma registry_get:
  "keychain_ok view kc \<Longrightarrow>
   getKeyRegistry js kc s = (Inr (parse_registry js (view s KEY_REGISTRY_SERVICE)), s)"
  by (simp add: getKeyRegistry_def io_bind_simp io_return_simp keychain_get)

text \<open>The three ways \<^verbatim>\<open>setItem\<close> ends.\<close>

lemma setSecureItem_cases:
  assumes kc: "keychain_ok view kc" and js: "json_ok js" and key: "key \<noteq> ''__keys__''"
  obtains (stored) t where "setSecureItem js kc key val s = (Inr (), t)"
      "view t (serviceFor key) = Some val"
      "\<And>svc. svc \<noteq> serviceFor key \<Longrightarrow> svc \<noteq> KEY_REGISTRY_SERVICE \<Longrightarrow> view t svc = view s svc"
      "set (parse_registry js (view t KEY_REGISTRY_SERVICE)) =
         insert key (set (parse_registry js (view s KEY_REGISTRY_SERVICE)))"
  | (kept) e t where "setSecureItem js kc key val s = (Inl e, t)" "view t = view s"
  | (undone) e t where "setSecureItem js kc key val s = (Inl e, t)"
      "view t = (view s)(serviceFor key := None)"
      "key \<notin> set (parse_registry js (view s KEY_REGISTRY_SERVICE))"
proof (cases rule: keychain_set [OF kc, of key val "serviceFor key" s])
  case (2 e t)
  then show ?thesis using kept by (simp add: setSecureItem_def io_then_simp)
next
  case (1 t)
  let ?ks = "parse_registry js (view s KEY_REGISTRY_SERVICE)"
  have reg: "getKeyRegistry js kc t = (Inr ?ks, t)"
    using key 1(2) by (simp add: registry_get [OF kc])
  show ?thesis
  proof (cases "key \<in> set ?ks")
    case True
    then show ?thesis
      using key 1 reg
      by (intro stored [of t]) (auto simp: setSecureItem_def io_then_simp io_bind_simp io_return_simp)
  next
    case False
    show ?thesis
    proof (cases rule: keychain_set [OF kc, of "''registry''" "js_stringify js (string_array (?ks @ [key]))"
          KEY_REGISTRY_SERVICE t])
      case (1 u)
      then show ?thesis
        using key False \<open>setWithAccessibilityFallback kc key val (serviceFor key) s = (Inr (), t)\<close>
          \<open>view t = _\<close> reg
        by (intro stored [of u]) (auto simp: setSecureItem_def saveKeyRegistry_def io_then_simp
            io_bind_simp io_catch_simp parse_stringify [OF js])
    next
      case (2 e u)
      obtain w where w: "kc_resetGenericPassword kc (serviceFor key) u = (Inr (), w)"
        "view w = (view u)(serviceFor key := None)"
        using keychain_reset [OF kc] by blast
      show ?thesis
        using key False \<open>setWithAccessibilityFallback kc key val (serviceFor key) s = (Inr (), t)\<close>
          \<open>view t = _\<close> reg 2 w
        by (intro undone [of e w]) (auto simp: setSecureItem_def saveKeyRegistry_def io_then_simp
            io_bind_simp io_catch_simp io_throw_simp)
    qed
  qed
qed

lemma reset_all_view:
  assumes "keychain_ok view kc"
  shows "\<exists>t. reset_all kc keys s = (Inr (), t) \<and>
    (\<forall>svc. view t svc = (if svc \<in> serviceFor ` set keys then None else view s svc))"
proof (induction keys arbitrary: s)
  case Nil
  then show ?case by (simp add: io_return_simp)
next
  case (Cons key keys)
  obtain t where t: "kc_resetGenericPassword kc (serviceFor key) s = (Inr (), t)"
    "view t = (view s)(serviceFor key := None)"
    using keychain_reset [OF assms] by blast
  with Cons.IH [of t] show ?case by (auto simp: io_then_simp)
qed

lemma clear_view:
  assumes "keychain_ok view kc"
  obtains t where "clearSecureStorage js kc s = (Inr (), t)"
    "\<And>svc. view t svc = (if svc = KEY_REGISTRY_SERVICE \<or>
       svc \<in> serviceFor ` set (parse_registry js (view s KEY_REGISTRY_SERVICE)) then None else view s svc)"
proof -
  let ?ks = "parse_registry js (view s KEY_REGISTRY_SERVICE)"
  obtain u where u: "reset_all kc ?ks s = (Inr (), u)"
    "\<And>svc. view u svc = (if svc \<in> serviceFor ` set ?ks then None else view s svc)"
    using reset_all_view [OF assms, of ?ks s] by blast
  obtain t where t: "kc_resetGenericPassword kc KEY_REGISTRY_SERVICE u = (Inr (), t)"
    "view t = (view u)(KEY_REGISTRY_SERVICE := None)"
    using keychain_reset [OF assms] by blast
  show thesis
    by (rule that [of t])
      (use u t in \<open>auto simp: clearSecureStorage_def registry_get [OF assms] io_bind_simp io_then_simp\<close>)
qed

lemma registered_step:
  assumes kc: "keychain_ok view kc" and js: "json_ok js" and c: "command_ok c"
    and reg: "registered js (view s)"
  shows "registered js (view (snd (native_secure_step js kc c s)))"
proof (cases c)
  case (SecureSet key val)
  with c have key: "key \<noteq> ''__keys__''" by simp
  show ?thesis
  proof (cases rule: setSecureItem_cases [OF kc js key, of val s])
    case (1 t)
    then show ?thesis using reg SecureSet unfolding registered_def by auto
  next
    case (2 e t)
    then show ?thesis using reg SecureSet by simp
  next
    case (3 e t)
    then show ?thesis using reg SecureSet key unfolding registered_def by auto
  qed
next
  case (SecureRemove key)
  with c have key: "key \<noteq> ''__keys__''" by simp
  obtain t where t: "kc_resetGenericPassword kc (serviceFor key) s = (Inr (), t)"
    "view t = (view s)(serviceFor key := None)"
    using keychain_reset [OF kc] by blast
  let ?ks = "filter (\<lambda>k. k \<noteq> key) (parse_registry js (view s KEY_REGISTRY_SERVICE))"
  have st: "native_secure_step js kc c s = saveKeyRegistry js kc ?ks t"
    using t key by (simp add: SecureRemove removeSecureItem_def io_then_simp io_bind_simp
        registry_get [OF kc])
  show ?thesis
    unfolding st saveKeyRegistry_def
    using reg key t(2)
    by (cases rule: keychain_set [OF kc, of "''registry''" "js_stringify js (string_array ?ks)"
          KEY_REGISTRY_SERVICE t])
      (auto simp: registered_def parse_stringify [OF js])
next
  case SecureClear
  obtain t where "clearSecureStorage js kc s = (Inr (), t)"
    "\<And>svc. view t svc = (if svc = KEY_REGISTRY_SERVICE \<or>
       svc \<in> serviceFor ` set (parse_registry js (view s KEY_REGISTRY_SERVICE)) then None else view s svc)"
    using clear_view [OF kc] by blast
  with reg SecureClear show ?thesis unfolding registered_def by auto
qed

lemma registered_run:
  assumes "keychain_ok view kc" "json_ok js" "\<forall>c \<in> set cs. command_ok c" "registered js (view s)"
  shows "registered js (view (with_lock (map (native_secure_step js kc) cs) s))"
  using assms(3,4)
  by (induction cs arbitrary: s) (simp_all add: registered_step [OF assms(1,2)])

text \<open>
  Clearing the secure storage forgets every item. Starting from an empty keychain, whatever items
  are set and removed, with the keychain refusing any of the writes, a final \<^verbatim>\<open>clear()\<close>
  succeeds and leaves no item behind: the registry lists every item at all times, because an item
  whose registration fails is taken back. (The key \<^verbatim>\<open>__keys__\<close>, whose item would be the
  registry itself, is excepted.)
\<close>

theorem clear_forgets_everything:
  assumes "keychain_ok view kc" "json_ok js" "\<forall>c \<in> set cs. command_ok c"
    and "\<And>svc. view s svc = None"
  shows "(let t = with_lock (map (native_secure_step js kc) cs) s in
    fst (clearSecureStorage js kc t) = Inr () \<and>
    (\<forall>key. view (snd (clearSecureStorage js kc t)) (serviceFor key) = None))"
proof -
  let ?t = "with_lock (map (native_secure_step js kc) cs) s"
  have "registered js (view s)" by (simp add: registered_def assms(4))
  from registered_run [OF assms(1-3) this] have reg: "registered js (view ?t)" .
  obtain u where u: "clearSecureStorage js kc ?t = (Inr (), u)"
    "\<And>svc. view u svc = (if svc = KEY_REGISTRY_SERVICE \<or>
       svc \<in> serviceFor ` set (parse_registry js (view ?t KEY_REGISTRY_SERVICE)) then None else view ?t svc)"
    using clear_view [OF assms(1)] by blast
  have "view u (serviceFor key) = None" for key
    using u(2) reg unfolding registered_def by auto
  with u(1) show ?thesis by (simp add: Let_def)
qed

text \<open>A keychain that is a map and refuses every write while \<open>full\<close>.\<close>

definition map_keychain :: "((string \<Rightarrow> string option) \<times> bool) keychain" where
  "map_keychain =
     \<lparr>kc_getGenericPassword = (\<lambda>svc. io_gets (\<lambda>(m, full). m svc)),
      kc_setGenericPassword = (\<lambda>u pw svc acc (m, full).
        if full then (Inl (JsErr None), (m, full)) else (Inr (), (m(svc := Some pw), full))),
      kc_resetGenericPassword = (\<lambda>svc. io_modify (\<lambda>(m, full). (m(svc := None), full)))\<rparr>"

text \<open>A codec of the arrays of strings: each element is preceded by its length in unary.\<close>

fun enc_strings :: "string list \<Rightarrow> string" where
  "enc_strings [] = []"
| "enc_strings (s # ss) = replicate (length s) CHR ''1'' @ CHR '':'' # s @ enc_strings ss"

fun dec_strings :: "nat \<Rightarrow> string \<Rightarrow> string list" where
  "dec_strings 0 cs = []"
| "dec_strings (Suc n) cs =
     (if cs = [] then []
      else let k = length (takeWhile (\<lambda>c. c = CHR ''1'') cs); rest = drop (Suc k) cs
           in take k rest # dec_strings n (drop k rest))"

definition sample_json :: json where
  "sample_json =
     \<lparr>js_stringify = (\<lambda>v. enc_strings (string_elements v)),
      js_parse = (\<lambda>cs. Some (JArr 0 (map JStr (dec_strings (length cs) cs))))\<rparr>"

lemma dec_enc_strings: "length (enc_strings ss) \<le> n \<Longrightarrow> dec_strings n (enc_strings ss) = ss"
proof (induction ss arbitrary: n)
  case Nil
  then show ?case by (cases n) simp_all
next
  case (Cons s ss)
  then obtain m where m: "n = Suc m" by (cases n) auto
  have tw: "takeWhile (\<lambda>c. c = CHR ''1'') (replicate k CHR ''1'' @ CHR '':'' # xs) = replicate k CHR ''1''"
    for k xs by (induction k) auto
  have dr: "drop (Suc k) (replicate k x @ y # zs) = zs" for k and x y :: char and zs
    by (induction k) auto
  have "length (enc_strings ss) \<le> m" using Cons.prems m by simp
  from Cons.IH [OF this] show ?case by (simp add: m tw dr Let_def)
qed

lemma sample_json_ok: "json_ok sample_json"
  by (auto simp: json_ok_def sample_json_def string_array_def dec_enc_strings)

lemma map_keychain_ok: "keychain_ok fst map_keychain"
  by (auto simp: keychain_ok_def map_keychain_def io_gets_simp io_modify_simp)

theorem clear_forgets_everything_witness:
  "fst (snd (clearSecureStorage sample_json map_keychain
      (with_lock (map (native_secure_step sample_json map_keychain)
        [SecureSet ''a'' ''1'', SecureSet ''b'' ''2'', SecureRemove ''a'']) (\<lambda>_. None, False))))
     (serviceFor ''b'') = None"
proof -
  have c: "\<forall>c \<in> set [SecureSet ''a'' ''1'', SecureSet ''b'' ''2'', SecureRemove ''a'']. command_ok c"
    by simp
  have e: "\<And>svc. fst (\<lambda>_. None, False) svc = None" by simp
  from clear_forgets_everything [OF map_keychain_ok sample_json_ok c e] show ?thesis
    by (simp only: Let_def)
qed

text \<open>
  Setting an item is all or nothing. In a storage whose registry lists its items, \<^verbatim>\<open>setItem\<close>
  either succeeds, and the item reads as the new value, or fails, and the item reads as before;
  no other item changes in either case.
\<close>

theorem set_item_is_atomic:
  assumes "keychain_ok view kc" "json_ok js" "key \<noteq> ''__keys__''" "registered js (view s)"
  shows "(case setSecureItem js kc key val s of
      (Inr _, t) \<Rightarrow> fst (native_getItem kc key t) = Inr (Some val) \<and>
        (\<forall>k. k \<noteq> key \<and> k \<noteq> ''__keys__'' \<longrightarrow> native_getItem kc k t = (Inr (view s (serviceFor k)), t))
    | (Inl e, t) \<Rightarrow> (\<forall>k. native_getItem kc k t = (Inr (view s (serviceFor k)), t)))"
proof (cases rule: setSecureItem_cases [OF assms(1-3), of val s])
  case (1 t)
  then show ?thesis by (simp add: native_getItem_def keychain_get [OF assms(1)])
next
  case (2 e t)
  then show ?thesis by (simp add: native_getItem_def keychain_get [OF assms(1)])
next
  case (3 e t)
  then have "view s (serviceFor key) = None" using assms(3,4) unfolding registered_def by blast
  with 3 show ?thesis by (simp add: native_getItem_def keychain_get [OF assms(1)])
qed

theorem set_item_is_atomic_witness:
  "fst (setSecureItem sample_json map_keychain ''a'' ''1'' (\<lambda>_. None, True)) = Inl (JsErr None) \<and>
   fst (native_getItem map_keychain ''a''
     (snd (setSecureItem sample_json map_keychain ''a'' ''1'' (\<lambda>_. None, True)))) = Inr None"
proof -
  have key: "''a'' \<noteq> ''__keys__''" by simp
  have reg: "registered sample_json (fst (\<lambda>_. None, True))" by (simp add: registered_def)
  have set: "setSecureItem sample_json map_keychain ''a'' ''1'' (\<lambda>_. None, True) =
      (Inl (JsErr None), (\<lambda>_. None, True))"
    by (simp add: setSecureItem_def map_keychain_def setWithAccessibilityFallback_def io_then_simp
        io_catch_simp)
  from set_item_is_atomic [OF map_keychain_ok sample_json_ok key reg, of "''1''"]
  show ?thesis unfolding set by simp
qed

text \<open>The key \<^verbatim>\<open>__keys__\<close> is the registry: setting it hides every item from \<^verbatim>\<open>clear()\<close>.\<close>

lemma registry_key_is_an_item: "serviceFor ''__keys__'' = KEY_REGISTRY_SERVICE"
  by simp

end
