(* ===== verification/WebSecureStorage.thy ===== *)
theory WebSecureStorage
  imports SecureStorage
begin

text \<open>
  \<^verbatim>\<open>packages/storage/src/platform/secure-storage.web.ts\<close>: items encrypted with a key derived
  from a password and a salt, both the items and the salt in \<^verbatim>\<open>localStorage\<close>. A session is one
  call of \<^verbatim>\<open>createSecureStorage\<close>: it keeps the salt it found or made and, once derived, the
  key. Bytes are characters; \<open>cr_random n k\<close> are the \<open>k\<close> random bytes of the \<open>n\<close>-th draw.
\<close>

record 'k web_crypto =
  cr_derive :: "string \<Rightarrow> string \<Rightarrow> 'k"
  cr_encrypt :: "'k \<Rightarrow> string \<Rightarrow> string \<Rightarrow> string"
  cr_decrypt :: "'k \<Rightarrow> string \<Rightarrow> string \<Rightarrow> string option"
  cr_random :: "nat \<Rightarrow> nat \<Rightarrow> string"
  cr_encode :: "string \<Rightarrow> string"
  cr_decode :: "string \<Rightarrow> string"
  cr_btoa :: "string \<Rightarrow> string"
  cr_atob :: "string \<Rightarrow> string option"

record 'k web_secure =
  ws_local :: "(string \<times> string) list"
  ws_draws :: nat
  ws_salt :: string
  ws_keyPromise :: "'k option"

definition STORAGE_PREFIX :: string where
  "STORAGE_PREFIX = ''@ion/secure/''"

definition KEY_REGISTRY :: string where
  "KEY_REGISTRY = ''@ion/secure/__keys__''"

definition SALT_KEY :: string where
  "SALT_KEY = ''@ion/secure/__salt__''"

definition IV_LENGTH :: nat where
  "IV_LENGTH = 12"

definition web_encrypt :: "'k web_crypto \<Rightarrow> string \<Rightarrow> 'k \<Rightarrow> nat \<Rightarrow> string" where
  "web_encrypt cr plaintext encryptionKey draws =
     (let iv = cr_random cr draws IV_LENGTH;
          ciphertext = cr_encrypt cr encryptionKey iv (cr_encode cr plaintext)
      in cr_btoa cr (iv @ ciphertext))"

definition web_decrypt :: "'k web_crypto \<Rightarrow> string \<Rightarrow> 'k \<Rightarrow> string option" where
  "web_decrypt cr encoded encryptionKey =
     (case cr_atob cr encoded of
        None \<Rightarrow> None
      | Some combined \<Rightarrow>
          map_option (cr_decode cr)
            (cr_decrypt cr encryptionKey (take IV_LENGTH combined) (drop IV_LENGTH combined)))"

text \<open>The salt, the storage and the number of draws after \<^verbatim>\<open>getOrCreateSalt\<close>; an error of
  \<^verbatim>\<open>atob\<close> is \<open>None\<close>.\<close>

definition getOrCreateSalt ::
  "'k web_crypto \<Rightarrow> (string \<times> string) list \<Rightarrow> nat \<Rightarrow>
   (string \<times> (string \<times> string) list \<times> nat) option" where
  "getOrCreateSalt cr ls draws =
     (case map_of ls SALT_KEY of
        Some existing \<Rightarrow>
          if existing \<noteq> [] then map_option (\<lambda>salt. (salt, ls, draws)) (cr_atob cr existing)
          else (let salt = cr_random cr draws 16 in
                Some (salt, AList.update SALT_KEY (cr_btoa cr salt) ls, Suc draws))
      | None \<Rightarrow> (let salt = cr_random cr draws 16 in
                 Some (salt, AList.update SALT_KEY (cr_btoa cr salt) ls, Suc draws)))"

definition createWebSecureStorage ::
  "'k web_crypto \<Rightarrow> (string \<times> string) list \<Rightarrow> nat \<Rightarrow> 'k web_secure option" where
  "createWebSecureStorage cr ls draws =
     map_option (\<lambda>(salt, ls', draws').
         \<lparr>ws_local = ls', ws_draws = draws', ws_salt = salt, ws_keyPromise = None\<rparr>)
       (getOrCreateSalt cr ls draws)"

definition resolve_key :: "'k web_crypto \<Rightarrow> string \<Rightarrow> 'k web_secure \<Rightarrow> 'k" where
  "resolve_key cr password s =
     (case ws_keyPromise s of None \<Rightarrow> cr_derive cr password (ws_salt s) | Some k \<Rightarrow> k)"

text \<open>\<^verbatim>\<open>getKey\<close> of \<^verbatim>\<open>createKeyResolver\<close>.\<close>

definition getKey :: "'k web_crypto \<Rightarrow> string \<Rightarrow> ('k web_secure, js_error, 'k) io" where
  "getKey cr password =
     (\<lambda>s. (Inr (resolve_key cr password s),
           s\<lparr>ws_keyPromise := Some (resolve_key cr password s)\<rparr>))"

definition web_getKeyRegistry :: "json \<Rightarrow> (string \<times> string) list \<Rightarrow> string list option" where
  "web_getKeyRegistry js ls =
     (case map_of ls KEY_REGISTRY of
        None \<Rightarrow> Some []
      | Some raw \<Rightarrow> if raw = [] then Some [] else map_option string_elements (js_parse js raw))"

definition web_saveKeyRegistry :: "json \<Rightarrow> string list \<Rightarrow> 'k web_secure \<Rightarrow> 'k web_secure" where
  "web_saveKeyRegistry js keys s =
     s\<lparr>ws_local := AList.update KEY_REGISTRY (js_stringify js (string_array keys)) (ws_local s)\<rparr>"

definition io_registry :: "json \<Rightarrow> ('k web_secure, js_error, string list) io" where
  "io_registry js = (\<lambda>s. case web_getKeyRegistry js (ws_local s) of
       None \<Rightarrow> (Inl (JsErr None), s) | Some keys \<Rightarrow> (Inr keys, s))"

definition web_getItem ::
  "'k web_crypto \<Rightarrow> string \<Rightarrow> string \<Rightarrow> ('k web_secure, js_error, string option) io" where
  "web_getItem cr password key =
     io_bind (io_gets (\<lambda>s. map_of (ws_local s) (STORAGE_PREFIX @ key))) (\<lambda>encrypted.
       case encrypted of
         None \<Rightarrow> io_return None
       | Some e \<Rightarrow> io_bind (getKey cr password) (\<lambda>k.
           case web_decrypt cr e k of
             None \<Rightarrow> io_throw (JsErr None) | Some plain \<Rightarrow> io_return (Some plain)))"

definition web_hasSecureItem :: "string \<Rightarrow> ('k web_secure, js_error, bool) io" where
  "web_hasSecureItem key = io_gets (\<lambda>s. map_of (ws_local s) (STORAGE_PREFIX @ key) \<noteq> None)"

definition web_setItem ::
  "'k web_crypto \<Rightarrow> json \<Rightarrow> string \<Rightarrow> string \<Rightarrow> string \<Rightarrow> ('k web_secure, js_error, unit) io" where
  "web_setItem cr js password key val =
     io_bind (getKey cr password) (\<lambda>k.
     io_bind (io_gets ws_draws) (\<lambda>draws.
     io_then (io_modify (\<lambda>s. s\<lparr>ws_draws := Suc draws, ws_local :=
                AList.update (STORAGE_PREFIX @ key) (web_encrypt cr val k draws) (ws_local s)\<rparr>))
     (io_bind (io_registry js) (\<lambda>keys.
        if key \<notin> set keys then io_modify (web_saveKeyRegistry js (keys @ [key]))
        else io_return ()))))"

definition web_removeSecureItem :: "json \<Rightarrow> string \<Rightarrow> ('k web_secure, js_error, unit) io" where
  "web_removeSecureItem js key =
     io_then (io_modify (\<lambda>s. s\<lparr>ws_local := AList.delete (STORAGE_PREFIX @ key) (ws_local s)\<rparr>))
     (io_bind (io_registry js) (\<lambda>keys.
        io_modify (web_saveKeyRegistry js (filter (\<lambda>k. k \<noteq> key) keys))))"

definition web_clearSecure :: "json \<Rightarrow> ('k web_secure, js_error, unit) io" where
  "web_clearSecure js =
     io_bind (io_registry js) (\<lambda>keys.
       io_modify (\<lambda>s. s\<lparr>ws_local := AList.delete SALT_KEY (AList.delete KEY_REGISTRY
           (fold (\<lambda>key. AList.delete (STORAGE_PREFIX @ key)) keys (ws_local s))),
         ws_keyPromise := None\<rparr>))"

fun web_secure_step ::
  "'k web_crypto \<Rightarrow> json \<Rightarrow> string \<Rightarrow> secure_command \<Rightarrow> ('k web_secure, js_error, unit) io" where
  "web_secure_step cr js password (SecureSet key val) = web_setItem cr js password key val"
| "web_secure_step cr js password (SecureRemove key) = web_removeSecureItem js key"
| "web_secure_step cr js password SecureClear = web_clearSecure js"

fun web_secure_run ::
  "'k web_crypto \<Rightarrow> json \<Rightarrow> string \<Rightarrow> secure_command list \<Rightarrow> 'k web_secure \<Rightarrow> 'k web_secure" where
  "web_secure_run cr js password [] s = s"
| "web_secure_run cr js password (c # cs) s =
     web_secure_run cr js password cs (snd (web_secure_step cr js password c s))"

section \<open>From session to session\<close>

text \<open>What WebCrypto and base64 do: decryption with the same key and vector inverts encryption.\<close>

definition crypto_ok :: "'k web_crypto \<Rightarrow> bool" where
  "crypto_ok cr =
     ((\<forall>k iv x. cr_decrypt cr k iv (cr_encrypt cr k iv x) = Some x) \<and>
      (\<forall>n k. length (cr_random cr n k) = k) \<and>
      (\<forall>x. cr_decode cr (cr_encode cr x) = x) \<and>
      (\<forall>x. cr_atob cr (cr_btoa cr x) = Some x) \<and>
      (\<forall>x. x \<noteq> [] \<longrightarrow> cr_btoa cr x \<noteq> []))"

text \<open>The salt of the session is the stored one, and its key, if derived, belongs to it.\<close>

definition salted :: "'k web_crypto \<Rightarrow> string \<Rightarrow> 'k web_secure \<Rightarrow> bool" where
  "salted cr password s =
     (map_of (ws_local s) SALT_KEY = Some (cr_btoa cr (ws_salt s)) \<and> ws_salt s \<noteq> [] \<and>
      (case ws_keyPromise s of None \<Rightarrow> True | Some k \<Rightarrow> k = cr_derive cr password (ws_salt s)))"

definition holds_item :: "'k web_crypto \<Rightarrow> string \<Rightarrow> string \<Rightarrow> string \<Rightarrow> 'k web_secure \<Rightarrow> bool" where
  "holds_item cr password key val s =
     (\<exists>e. map_of (ws_local s) (STORAGE_PREFIX @ key) = Some e \<and>
        web_decrypt cr e (cr_derive cr password (ws_salt s)) = Some val)"

fun other_item :: "string \<Rightarrow> secure_command \<Rightarrow> bool" where
  "other_item key (SecureSet k val) = (k \<notin> {key, ''__salt__'', ''__keys__''})"
| "other_item key (SecureRemove k) = (k \<notin> {key, ''__salt__'', ''__keys__''})"
| "other_item key SecureClear = False"

lemma decrypt_encrypt: "crypto_ok cr \<Longrightarrow> web_decrypt cr (web_encrypt cr val k n) k = Some val"
  by (simp add: crypto_ok_def web_decrypt_def web_encrypt_def Let_def)

lemma secure_keys [simp]:
  "STORAGE_PREFIX @ k = SALT_KEY \<longleftrightarrow> k = ''__salt__''"
  "SALT_KEY = STORAGE_PREFIX @ k \<longleftrightarrow> k = ''__salt__''"
  "STORAGE_PREFIX @ k = KEY_REGISTRY \<longleftrightarrow> k = ''__keys__''"
  "KEY_REGISTRY = STORAGE_PREFIX @ k \<longleftrightarrow> k = ''__keys__''"
  "SALT_KEY \<noteq> KEY_REGISTRY" "KEY_REGISTRY \<noteq> SALT_KEY"
  by (auto simp: STORAGE_PREFIX_def SALT_KEY_def KEY_REGISTRY_def)

lemma created_salted:
  assumes "crypto_ok cr" "createWebSecureStorage cr [] draws = Some s"
  shows "salted cr password s"
proof -
  have "length (cr_random cr draws 16) = 16" using assms(1) by (simp add: crypto_ok_def)
  then have "cr_random cr draws 16 \<noteq> []" by auto
  with assms show ?thesis
    by (auto simp: createWebSecureStorage_def getOrCreateSalt_def salted_def Let_def)
qed

lemma salted_key: "salted cr password s \<Longrightarrow> resolve_key cr password s = cr_derive cr password (ws_salt s)"
  by (auto simp: salted_def resolve_key_def split: option.splits)

lemma setItem_state:
  assumes "salted cr password s"
  shows "\<exists>ls. snd (web_setItem cr js password key val s) =
     s\<lparr>ws_keyPromise := Some (cr_derive cr password (ws_salt s)), ws_draws := Suc (ws_draws s),
       ws_local := ls\<rparr> \<and>
     (\<forall>k. k \<noteq> KEY_REGISTRY \<longrightarrow> map_of ls k =
        (if k = STORAGE_PREFIX @ key
         then Some (web_encrypt cr val (cr_derive cr password (ws_salt s)) (ws_draws s))
         else map_of (ws_local s) k))"
  by (auto simp: web_setItem_def getKey_def io_simps io_registry_def web_saveKeyRegistry_def
      salted_key [OF assms] AList.update_conv' split: option.splits)

lemma other_step:
  assumes "salted cr password s" "other_item key c" "key \<notin> {''__salt__'', ''__keys__''}"
  shows "salted cr password (snd (web_secure_step cr js password c s)) \<and>
    ws_salt (snd (web_secure_step cr js password c s)) = ws_salt s \<and>
    map_of (ws_local (snd (web_secure_step cr js password c s))) (STORAGE_PREFIX @ key) =
      map_of (ws_local s) (STORAGE_PREFIX @ key)"
proof (cases c)
  case (SecureSet k v)
  with assms obtain ls where "snd (web_secure_step cr js password c s) =
     s\<lparr>ws_keyPromise := Some (cr_derive cr password (ws_salt s)), ws_draws := Suc (ws_draws s),
       ws_local := ls\<rparr>"
    "\<And>j. j \<noteq> KEY_REGISTRY \<Longrightarrow> map_of ls j =
        (if j = STORAGE_PREFIX @ k
         then Some (web_encrypt cr v (cr_derive cr password (ws_salt s)) (ws_draws s))
         else map_of (ws_local s) j)"
    using setItem_state [OF assms(1), of js k v] by auto
  with SecureSet assms show ?thesis by (auto simp: salted_def)
next
  case (SecureRemove k)
  with assms show ?thesis
    by (auto simp: web_removeSecureItem_def io_simps io_registry_def web_saveKeyRegistry_def
        salted_def AList.update_conv' AList.delete_conv' split: option.splits)
qed (use assms in simp)

lemma other_run:
  assumes "salted cr password s" "\<forall>c \<in> set cs. other_item key c" "key \<notin> {''__salt__'', ''__keys__''}"
  shows "salted cr password (web_secure_run cr js password cs s) \<and>
    ws_salt (web_secure_run cr js password cs s) = ws_salt s \<and>
    map_of (ws_local (web_secure_run cr js password cs s)) (STORAGE_PREFIX @ key) =
      map_of (ws_local s) (STORAGE_PREFIX @ key)"
  using assms(1,2)
proof (induction cs arbitrary: s)
  case (Cons c cs)
  then have c: "other_item key c" and cs: "\<forall>c \<in> set cs. other_item key c" by simp_all
  note step = other_step [OF Cons.prems(1) c assms(3), of js]
  from Cons.IH [OF conjunct1 [OF step] cs] step show ?case by simp
qed simp


text \<open>A toy cipher, with a character of the salt as its key: the key and the vector in front of the
  text.\<close>

definition toy_crypto :: "char web_crypto" where
  "toy_crypto =
     \<lparr>cr_derive = (\<lambda>pw salt. hd salt),
      cr_encrypt = (\<lambda>k iv x. k # iv @ x),
      cr_decrypt = (\<lambda>k iv c. if take (Suc (length iv)) c = k # iv
                             then Some (drop (Suc (length iv)) c) else None),
      cr_random = (\<lambda>n k. replicate k (char_of (n mod 128))),
      cr_encode = (\<lambda>x. x), cr_decode = (\<lambda>x. x), cr_btoa = (\<lambda>x. x), cr_atob = Some\<rparr>"

lemma toy_crypto_ok: "crypto_ok toy_crypto"
  by (simp add: crypto_ok_def toy_crypto_def)


section \<open>After clear\<close>

text \<open>
  What is stored after \<^verbatim>\<open>clear()\<close> does not survive the session. \<^verbatim>\<open>clear()\<close> deletes the stored
  salt, but the session goes on deriving its key from the salt it remembers; the next session
  finds no salt, makes a new one, and cannot decrypt what was stored. This holds for any cipher
  that rejects a ciphertext of another key, when the two salts give different keys.
\<close>

theorem item_stored_after_clear_is_lost:
  assumes "crypto_ok cr" and "json_ok js" and "key \<notin> {''__salt__'', ''__keys__''}"
    and "createWebSecureStorage cr [] 0 = Some s"
    and "\<And>k k' iv x. k \<noteq> k' \<Longrightarrow> cr_decrypt cr k' iv (cr_encrypt cr k iv x) = None"
    and "cr_derive cr password (cr_random cr 2 16) \<noteq> cr_derive cr password (cr_random cr 0 16)"
  shows "(let t = web_secure_run cr js password [SecureClear, SecureSet key val] s in
    \<exists>s'. createWebSecureStorage cr (ws_local t) (ws_draws t) = Some s' \<and>
      fst (web_getItem cr password key s') = Inl (JsErr None))"
proof -
  let ?salt = "cr_random cr 0 16"
  have s: "s = \<lparr>ws_local = [(SALT_KEY, cr_btoa cr ?salt)], ws_draws = 1, ws_salt = ?salt,
      ws_keyPromise = None\<rparr>"
    using assms(4) by (simp add: createWebSecureStorage_def getOrCreateSalt_def Let_def)
  have c: "snd (web_clearSecure js s) = s\<lparr>ws_local := []\<rparr>"
    by (simp add: web_clearSecure_def io_registry_def web_getKeyRegistry_def io_simps s)
  let ?e = "web_encrypt cr val (cr_derive cr password ?salt) 1"
  let ?ls = "[(STORAGE_PREFIX @ key, ?e), (KEY_REGISTRY, js_stringify js (string_array [key]))]"
  have t: "web_secure_run cr js password [SecureClear, SecureSet key val] s =
      \<lparr>ws_local = ?ls, ws_draws = 2, ws_salt = ?salt,
       ws_keyPromise = Some (cr_derive cr password ?salt)\<rparr>"
    using assms(3)
    by (simp add: c) (simp add: s web_setItem_def getKey_def resolve_key_def io_simps io_registry_def
        web_getKeyRegistry_def web_saveKeyRegistry_def)
  have new: "createWebSecureStorage cr ?ls 2 = Some
      \<lparr>ws_local = ?ls @ [(SALT_KEY, cr_btoa cr (cr_random cr 2 16))], ws_draws = 3,
       ws_salt = cr_random cr 2 16, ws_keyPromise = None\<rparr>"
    using assms(3) by (simp add: createWebSecureStorage_def getOrCreateSalt_def Let_def)
  have "web_decrypt cr ?e (cr_derive cr password (cr_random cr 2 16)) = None"
    using assms(1) assms(5) [OF assms(6) [symmetric]]
    by (simp add: web_decrypt_def web_encrypt_def crypto_ok_def Let_def)
  then have "fst (web_getItem cr password key
      \<lparr>ws_local = ?ls @ [(SALT_KEY, cr_btoa cr (cr_random cr 2 16))], ws_draws = 3,
       ws_salt = cr_random cr 2 16, ws_keyPromise = None\<rparr>) = Inl (JsErr None)"
    by (simp add: web_getItem_def io_simps getKey_def resolve_key_def)
  with new show ?thesis unfolding t by (simp add: Let_def)
qed

theorem item_stored_after_clear_is_lost_witness:
  "let t = web_secure_run toy_crypto sample_json ''pw'' [SecureClear, SecureSet ''a'' ''1'']
       (the (createWebSecureStorage toy_crypto [] 0)) in
   \<exists>s'. createWebSecureStorage toy_crypto (ws_local t) (ws_draws t) = Some s' \<and>
      fst (web_getItem toy_crypto ''pw'' ''a'' s') = Inl (JsErr None)"
proof -
  have c: "createWebSecureStorage toy_crypto [] 0 = Some (the (createWebSecureStorage toy_crypto [] 0))"
    by (simp add: createWebSecureStorage_def getOrCreateSalt_def Let_def)
  have k: "''a'' \<notin> {''__salt__'', ''__keys__''}" by simp
  have r: "k \<noteq> k' \<Longrightarrow> cr_decrypt toy_crypto k' iv (cr_encrypt toy_crypto k iv x) = None" for k k' iv x
    by (simp add: toy_crypto_def)
  have d: "cr_derive toy_crypto ''pw'' (cr_random toy_crypto 2 16) \<noteq>
      cr_derive toy_crypto ''pw'' (cr_random toy_crypto 0 16)" by (simp add: toy_crypto_def)
  show ?thesis by (rule item_stored_after_clear_is_lost [OF toy_crypto_ok sample_json_ok k c r d])
qed

end
