(* ===== verification/Database.thy ===== *)
theory Database
  imports NetworkTypes
begin

text \<open>
  \<^verbatim>\<open>packages/storage/src/platform/run-migrations.ts\<close> and the two database storages,
  \<^verbatim>\<open>database-storage.native.ts\<close> and \<^verbatim>\<open>database-storage.web.ts\<close>. A connection to SQLite
  is a parameter: \<open>cn_execute\<close> runs one statement with its parameters and gives its rows.
  On the web it is \<^verbatim>\<open>executeSQL\<close> over the SQLite module, on the device \<^verbatim>\<open>executeAsync\<close>.
\<close>

type_synonym sql_row = "js_value js_record"

record 's sql_conn =
  cn_execute :: "string \<Rightarrow> js_value list \<Rightarrow> ('s, js_error, sql_row list) io"

record migration =
  mg_version :: int
  mg_up :: string

record database_options =
  do_name :: string
  do_migrations :: "migration list"

section \<open>A wrapped connection\<close>

definition db_execute :: "'s sql_conn \<Rightarrow> string \<Rightarrow> js_value list \<Rightarrow> ('s, js_error, unit) io" where
  "db_execute conn sql ps = io_bind (cn_execute conn sql ps) (\<lambda>_. io_return ())"

definition db_query :: "'s sql_conn \<Rightarrow> string \<Rightarrow> js_value list \<Rightarrow> ('s, js_error, sql_row list) io" where
  "db_query conn sql ps = cn_execute conn sql ps"

text \<open>The \<^verbatim>\<open>transaction\<close> of both wrappers; the handle given to \<open>fn\<close> is the connection.\<close>

definition db_transaction ::
  "'s sql_conn \<Rightarrow> ('s sql_conn \<Rightarrow> ('s, js_error, 'a) io) \<Rightarrow> ('s, js_error, 'a) io" where
  "db_transaction conn fn =
     io_then (db_execute conn ''BEGIN TRANSACTION'' [])
       (io_catch
         (io_bind (fn conn) (\<lambda>result. io_then (db_execute conn ''COMMIT'' []) (io_return result)))
         (\<lambda>error. io_then (db_execute conn ''ROLLBACK'' []) (io_throw error)))"

fun execute_all :: "'s sql_conn \<Rightarrow> (string \<times> js_value list) list \<Rightarrow> ('s, js_error, unit) io" where
  "execute_all conn [] = io_return ()"
| "execute_all conn ((sql, ps) # stmts) =
     io_then (db_execute conn sql ps) (execute_all conn stmts)"

text \<open>\<^verbatim>\<open>buildExecuteBatch\<close> of the web wrapper.\<close>

definition web_executeBatch ::
  "'s sql_conn \<Rightarrow> (string \<times> js_value list) list \<Rightarrow> ('s, js_error, unit) io" where
  "web_executeBatch conn stmts = db_transaction conn (\<lambda>tx. execute_all tx stmts)"

section \<open>Migrations\<close>

text \<open>The text of the code, up to its white space.\<close>

definition MIGRATION_TABLE_SQL :: string where
  "MIGRATION_TABLE_SQL = ''CREATE TABLE IF NOT EXISTS __migrations (version INTEGER PRIMARY KEY, applied_at INTEGER NOT NULL)''"

definition SELECT_VERSIONS_SQL :: string where
  "SELECT_VERSIONS_SQL = ''SELECT version FROM __migrations ORDER BY version''"

definition INSERT_VERSION_SQL :: string where
  "INSERT_VERSION_SQL = ''INSERT INTO __migrations (version, applied_at) VALUES (?, ?)''"

definition row_version :: "sql_row \<Rightarrow> js_value" where
  "row_version r = of_opt (\<lambda>v. v) (map_of r ''version'')"

definition apply_migration ::
  "('x env_scheme) sql_conn \<Rightarrow> migration \<Rightarrow> ('x env_scheme, js_error, unit) io" where
  "apply_migration conn m =
     db_transaction conn (\<lambda>tx.
       io_then (db_execute tx (mg_up m) [])
         (io_bind (io_gets env_now) (\<lambda>now.
            db_execute tx INSERT_VERSION_SQL [JNum (mg_version m), JNum now])))"

fun migrate_all ::
  "('x env_scheme) sql_conn \<Rightarrow> js_value list \<Rightarrow> migration list \<Rightarrow> ('x env_scheme, js_error, unit) io" where
  "migrate_all conn applied [] = io_return ()"
| "migrate_all conn applied (m # ms) =
     (if JNum (mg_version m) \<in> set applied then migrate_all conn applied ms
      else io_then (apply_migration conn m) (migrate_all conn applied ms))"

definition runMigrations ::
  "('x env_scheme) sql_conn \<Rightarrow> migration list \<Rightarrow> ('x env_scheme, js_error, unit) io" where
  "runMigrations conn migrations =
     io_then (db_execute conn MIGRATION_TABLE_SQL [])
       (io_bind (db_query conn SELECT_VERSIONS_SQL []) (\<lambda>applied.
          migrate_all conn (map row_version applied) (sort_key mg_version migrations)))"

section \<open>What SQLite does with these statements\<close>

text \<open>
  The part of a database that migrations touch: the scripts run so far, the recorded versions,
  and both as they were at the start of the open transaction.
\<close>

record schema =
  sc_scripts :: "string list"
  sc_versions :: "int list"
  sc_saved :: "(string list \<times> int list) option"

text \<open>Statement \<open>m\<close>, run in \<open>s\<close>, fails and changes nothing, or leads to \<open>u\<close>.\<close>

definition stmt_ok ::
  "('s \<Rightarrow> schema) \<Rightarrow> ('s, js_error, 'a) io \<Rightarrow> 's \<Rightarrow> schema \<Rightarrow> bool" where
  "stmt_ok view m s u = (case m s of (Inl e, t) \<Rightarrow> view t = view s | (Inr a, t) \<Rightarrow> view t = u)"

definition sqlite_ok :: "('s \<Rightarrow> schema) \<Rightarrow> string set \<Rightarrow> 's sql_conn \<Rightarrow> bool" where
  "sqlite_ok view scripts conn =
     (\<forall>s.
       stmt_ok view (cn_execute conn MIGRATION_TABLE_SQL []) s (view s) \<and>
       stmt_ok view (cn_execute conn SELECT_VERSIONS_SQL []) s (view s) \<and>
       (\<forall>rows. fst (cn_execute conn SELECT_VERSIONS_SQL [] s) = Inr rows \<longrightarrow>
          rows = map (\<lambda>v. [(''version'', JNum v)]) (sort (sc_versions (view s)))) \<and>
       (sc_saved (view s) = None \<longrightarrow> stmt_ok view (cn_execute conn ''BEGIN TRANSACTION'' []) s
            ((view s)\<lparr>sc_saved := Some (sc_scripts (view s), sc_versions (view s))\<rparr>)) \<and>
       (\<forall>up \<in> scripts. stmt_ok view (cn_execute conn up []) s
            ((view s)\<lparr>sc_scripts := sc_scripts (view s) @ [up]\<rparr>)) \<and>
       (\<forall>v now. stmt_ok view (cn_execute conn INSERT_VERSION_SQL [JNum v, JNum now]) s
            ((view s)\<lparr>sc_versions := sc_versions (view s) @ [v]\<rparr>)) \<and>
       (\<forall>v now. v \<in> set (sc_versions (view s)) \<longrightarrow>
          isl (fst (cn_execute conn INSERT_VERSION_SQL [JNum v, JNum now] s))) \<and>
       stmt_ok view (cn_execute conn ''COMMIT'' []) s ((view s)\<lparr>sc_saved := None\<rparr>) \<and>
       (\<forall>x y. sc_saved (view s) = Some (x, y) \<longrightarrow>
          \<not> isl (fst (cn_execute conn ''ROLLBACK'' [] s)) \<and>
          view (snd (cn_execute conn ''ROLLBACK'' [] s))
            = \<lparr>sc_scripts = x, sc_versions = y, sc_saved = None\<rparr>))"

lemma stmt_cases:
  assumes "stmt_ok view m s u"
  obtains (failed) e t where "m s = (Inl e, t)" "view t = view s"
  | (ran) a t where "m s = (Inr a, t)" "view t = u"
proof -
  obtain r t where m: "m s = (r, t)" by fastforce
  show thesis
  proof (cases r)
    case (Inl e)
    with assms m show thesis by (intro failed [of e t]) (simp_all add: stmt_ok_def)
  next
    case (Inr a)
    with assms m show thesis by (intro ran [of a t]) (simp_all add: stmt_ok_def)
  qed
qed

lemma sqlite_stmts:
  assumes "sqlite_ok view scripts conn"
  shows "stmt_ok view (cn_execute conn MIGRATION_TABLE_SQL []) s (view s)"
    and "stmt_ok view (cn_execute conn SELECT_VERSIONS_SQL []) s (view s)"
    and "sc_saved (view s) = None \<Longrightarrow> stmt_ok view (cn_execute conn ''BEGIN TRANSACTION'' []) s
           ((view s)\<lparr>sc_saved := Some (sc_scripts (view s), sc_versions (view s))\<rparr>)"
    and "up \<in> scripts \<Longrightarrow> stmt_ok view (cn_execute conn up []) s
           ((view s)\<lparr>sc_scripts := sc_scripts (view s) @ [up]\<rparr>)"
    and "stmt_ok view (cn_execute conn INSERT_VERSION_SQL [JNum v, JNum now]) s
           ((view s)\<lparr>sc_versions := sc_versions (view s) @ [v]\<rparr>)"
    and "stmt_ok view (cn_execute conn ''COMMIT'' []) s ((view s)\<lparr>sc_saved := None\<rparr>)"
    and "v \<in> set (sc_versions (view s)) \<Longrightarrow>
         isl (fst (cn_execute conn INSERT_VERSION_SQL [JNum v, JNum now] s))"
    and "fst (cn_execute conn SELECT_VERSIONS_SQL [] s) = Inr rows \<Longrightarrow>
         rows = map (\<lambda>v. [(''version'', JNum v)]) (sort (sc_versions (view s)))"
  using assms unfolding sqlite_ok_def by blast+

lemma sqlite_rollback:
  assumes "sqlite_ok view scripts conn" "sc_saved (view s) = Some (x, y)"
  obtains a t where "cn_execute conn ''ROLLBACK'' [] s = (Inr a, t)"
    "view t = \<lparr>sc_scripts = x, sc_versions = y, sc_saved = None\<rparr>"
proof -
  obtain r t where m: "cn_execute conn ''ROLLBACK'' [] s = (r, t)" by fastforce
  have "\<not> isl (fst (cn_execute conn ''ROLLBACK'' [] s)) \<and>
      view (snd (cn_execute conn ''ROLLBACK'' [] s))
        = \<lparr>sc_scripts = x, sc_versions = y, sc_saved = None\<rparr>"
    using assms unfolding sqlite_ok_def by blast
  with m have "\<not> isl r" "view t = \<lparr>sc_scripts = x, sc_versions = y, sc_saved = None\<rparr>" by simp_all
  with m show thesis by (cases r) (simp_all add: that)
qed

section \<open>Once, in order, all or nothing\<close>

text \<open>One migration: its script runs and its version is recorded, or neither.\<close>

lemma rollback_after:
  assumes "sqlite_ok view scripts conn" "sc_saved (view t) = Some (x, y)"
  shows "\<exists>u. io_then (db_execute conn ''ROLLBACK'' []) (io_throw e) t = (Inl e, u) \<and>
    view u = \<lparr>sc_scripts = x, sc_versions = y, sc_saved = None\<rparr>"
proof -
  obtain a u where "cn_execute conn ''ROLLBACK'' [] t = (Inr a, u)"
    "view u = \<lparr>sc_scripts = x, sc_versions = y, sc_saved = None\<rparr>"
    by (rule sqlite_rollback [OF assms])
  then show ?thesis
    by (intro exI [of _ u]) (simp add: db_execute_def io_then_simp io_bind_simp io_return_simp io_throw_simp)
qed

lemma apply_migration_cases:
  assumes ok: "sqlite_ok view scripts conn" and up: "mg_up m \<in> scripts"
    and idle: "sc_saved (view s) = None"
  obtains (applied) t where "apply_migration conn m s = (Inr (), t)"
      "view t = \<lparr>sc_scripts = sc_scripts (view s) @ [mg_up m],
                 sc_versions = sc_versions (view s) @ [mg_version m], sc_saved = None\<rparr>"
      "mg_version m \<notin> set (sc_versions (view s))"
  | (failed) e t where "apply_migration conn m s = (Inl e, t)" "view t = view s"
proof (cases rule: stmt_cases [OF sqlite_stmts(3) [OF ok idle]])
  case (1 e t)
  then show ?thesis
    by (intro failed [of e t])
      (simp_all add: apply_migration_def db_transaction_def db_execute_def io_then_simp io_bind_simp)
next
  case (2 a s1)
  let ?fn = "\<lambda>tx. io_then (db_execute tx (mg_up m) [])
       (io_bind (io_gets env_now) (\<lambda>now. db_execute tx INSERT_VERSION_SQL [JNum (mg_version m), JNum now]))"
  let ?body = "io_bind (?fn conn) (\<lambda>result. io_then (db_execute conn ''COMMIT'' []) (io_return result))"
  have st: "apply_migration conn m s = io_catch ?body
      (\<lambda>error. io_then (db_execute conn ''ROLLBACK'' []) (io_throw error)) s1"
  proof -
    have b: "db_execute conn ''BEGIN TRANSACTION'' [] s = (Inr (), s1)"
      using 2(1) by (simp add: db_execute_def io_bind_simp io_return_simp)
    then have "fst (db_execute conn ''BEGIN TRANSACTION'' [] s) = Inr ()" by simp
    from io_then_Inr [of "db_execute conn ''BEGIN TRANSACTION'' []", OF this] b
    show ?thesis unfolding apply_migration_def db_transaction_def by simp
  qed
  have undo: "\<exists>u. apply_migration conn m s = (Inl e, u) \<and> view u = view s"
    if "?body s1 = (Inl e, t)"
      "sc_saved (view t) = Some (sc_scripts (view s), sc_versions (view s))" for e t
  proof -
    have "view s = \<lparr>sc_scripts = sc_scripts (view s), sc_versions = sc_versions (view s), sc_saved = None\<rparr>"
      using idle by simp
    with rollback_after [OF ok that(2), of e] that(1) show ?thesis
      unfolding st by (simp add: io_catch_simp)
  qed
  show ?thesis
  proof (cases rule: stmt_cases [OF sqlite_stmts(4) [OF ok up, of s1]])
    case (1 e t)
    have "?body s1 = (Inl e, t)"
      using 1(1) by (simp add: io_bind_simp io_then_simp db_execute_def)
    with undo [of e t] 1(2) 2(2) failed show ?thesis by auto
  next
    case (2 b s2)
    have sv2: "sc_saved (view s2) = Some (sc_scripts (view s), sc_versions (view s))"
      and v2: "view s2 = (view s)\<lparr>sc_scripts := sc_scripts (view s) @ [mg_up m],
         sc_saved := Some (sc_scripts (view s), sc_versions (view s))\<rparr>"
      using 2(2) \<open>view s1 = _\<close> by simp_all
    show ?thesis
    proof (cases rule: stmt_cases [OF sqlite_stmts(5) [OF ok, of "mg_version m" "env_now s2" s2]])
      case (1 e t)
      have "?body s1 = (Inl e, t)"
        using 1(1) 2(1) by (simp add: io_bind_simp io_then_simp io_gets_simp io_return_simp db_execute_def)
      with undo [of e t] 1(2) sv2 failed show ?thesis by auto
    next
      case (2 c s3)
      have fresh: "mg_version m \<notin> set (sc_versions (view s))"
        using sqlite_stmts(7) [OF ok, of "mg_version m" s2 "env_now s2"] 2(1) v2 by auto
      show ?thesis
      proof (cases rule: stmt_cases [OF sqlite_stmts(6) [OF ok, of s3]])
        case (1 e t)
        have "?body s1 = (Inl e, t)"
          using 1(1) 2(1) \<open>cn_execute conn (mg_up m) [] s1 = (Inr b, s2)\<close>
          by (simp add: io_bind_simp io_then_simp io_gets_simp io_return_simp db_execute_def)
        with undo [of e t] 1(2) 2(2) sv2 failed show ?thesis by auto
      next
        case (2 d s4)
        have "?body s1 = (Inr (), s4)"
          using 2(1) \<open>cn_execute conn INSERT_VERSION_SQL _ s2 = (Inr c, s3)\<close>
            \<open>cn_execute conn (mg_up m) [] s1 = (Inr b, s2)\<close>
          by (simp add: io_bind_simp io_then_simp io_gets_simp io_return_simp db_execute_def)
        then have "apply_migration conn m s = (Inr (), s4)" unfolding st by (simp add: io_catch_simp)
        moreover have "view s4 = \<lparr>sc_scripts = sc_scripts (view s) @ [mg_up m],
                 sc_versions = sc_versions (view s) @ [mg_version m], sc_saved = None\<rparr>"
          using 2(2) \<open>view s3 = _\<close> v2 by simp
        ultimately show ?thesis using applied fresh by blast
      qed
    qed
  qed
qed

definition todo :: "js_value list \<Rightarrow> migration list \<Rightarrow> migration list" where
  "todo applied ms = filter (\<lambda>m. JNum (mg_version m) \<notin> set applied) ms"

lemma migrate_all_prefix:
  assumes ok: "sqlite_ok view scripts conn" and "mg_up ` set ms \<subseteq> scripts"
    and "sc_saved (view s) = None"
  shows "\<exists>k. view (snd (migrate_all conn applied ms s)) =
      \<lparr>sc_scripts = sc_scripts (view s) @ map mg_up (take k (todo applied ms)),
       sc_versions = sc_versions (view s) @ map mg_version (take k (todo applied ms)),
       sc_saved = None\<rparr> \<and>
    (\<not> isl (fst (migrate_all conn applied ms s)) \<longrightarrow> take k (todo applied ms) = todo applied ms)"
  using assms(2,3)
proof (induction ms arbitrary: s)
  case Nil
  then show ?case by (simp add: io_return_simp todo_def)
next
  case (Cons m ms)
  show ?case
  proof (cases "JNum (mg_version m) \<in> set applied")
    case True
    with Cons.IH [of s] Cons.prems show ?thesis by (simp add: todo_def)
  next
    case False
    have up: "mg_up m \<in> scripts" using Cons.prems by simp
    show ?thesis
    proof (cases rule: apply_migration_cases [OF ok up Cons.prems(2)])
      case (1 t)
      obtain k where "view (snd (migrate_all conn applied ms t)) =
          \<lparr>sc_scripts = sc_scripts (view t) @ map mg_up (take k (todo applied ms)),
           sc_versions = sc_versions (view t) @ map mg_version (take k (todo applied ms)),
           sc_saved = None\<rparr>"
        "\<not> isl (fst (migrate_all conn applied ms t)) \<longrightarrow>
          take k (todo applied ms) = todo applied ms"
        using Cons.IH [of t] Cons.prems 1(2) by auto
      with 1 False show ?thesis by (intro exI [of _ "Suc k"]) (simp add: io_then_simp todo_def)
    next
      case (2 e t)
      with False Cons.prems(2) show ?thesis by (intro exI [of _ 0]) (simp add: io_then_simp)
    qed
  qed
qed

lemma sqlite_select:
  assumes "sqlite_ok view scripts conn"
  obtains (failed) e t where "cn_execute conn SELECT_VERSIONS_SQL [] s = (Inl e, t)" "view t = view s"
  | (rows) t where "cn_execute conn SELECT_VERSIONS_SQL [] s =
      (Inr (map (\<lambda>v. [(''version'', JNum v)]) (sort (sc_versions (view s)))), t)" "view t = view s"
proof (cases rule: stmt_cases [OF sqlite_stmts(2) [OF assms, of s]])
  case (1 e t)
  then show thesis by (rule failed)
next
  case (2 a t)
  moreover have "a = map (\<lambda>v. [(''version'', JNum v)]) (sort (sc_versions (view s)))"
    by (rule sqlite_stmts(8) [OF assms]) (simp add: 2(1))
  ultimately show thesis by (intro rows [of t]) simp_all
qed

text \<open>
  C10. Migrations run once, in order, each whole or not at all. Whatever statement SQLite refuses, a
  run of \<^verbatim>\<open>runMigrations\<close> leaves no transaction open and adds to the database exactly the
  scripts and the recorded versions of the first \<open>k\<close> of those migrations whose version was not
  recorded, in ascending order of versions; if it returns without error, of all of them.
\<close>

theorem migrations_run_once_in_order:
  assumes "sqlite_ok view scripts conn" and "mg_up ` set migrations \<subseteq> scripts"
    and "sc_saved (view s) = None"
  shows "\<exists>k. let todo = filter (\<lambda>m. mg_version m \<notin> set (sc_versions (view s)))
                         (sort_key mg_version migrations) in
    view (snd (runMigrations conn migrations s)) =
      \<lparr>sc_scripts = sc_scripts (view s) @ map mg_up (take k todo),
       sc_versions = sc_versions (view s) @ map mg_version (take k todo), sc_saved = None\<rparr> \<and>
    (\<not> isl (fst (runMigrations conn migrations s)) \<longrightarrow> take k todo = todo)"
proof (cases rule: stmt_cases [OF sqlite_stmts(1) [OF assms(1), of s]])
  case (1 e t)
  then show ?thesis
    using assms(3) by (intro exI [of _ 0])
      (simp add: runMigrations_def db_execute_def io_then_simp io_bind_simp)
next
  case (2 a s1)
  show ?thesis
  proof (cases rule: sqlite_select [OF assms(1), of s1])
    case (1 e t)
    then show ?thesis
      using 2 assms(3) by (intro exI [of _ 0])
        (simp add: runMigrations_def db_execute_def db_query_def io_then_simp io_bind_simp io_return_simp)
  next
    case (2 t)
    let ?ms = "sort_key mg_version migrations" and ?ap = "map JNum (sort (sc_versions (view s)))"
    have run: "runMigrations conn migrations s = migrate_all conn ?ap ?ms t"
      using 2 \<open>cn_execute conn MIGRATION_TABLE_SQL [] s = (Inr a, s1)\<close> \<open>view s1 = view s\<close>
      by (simp add: runMigrations_def db_execute_def db_query_def io_then_simp io_bind_simp
          io_return_simp comp_def row_version_def of_opt_def)
    have "(JNum v \<in> set ?ap) = (v \<in> set (sc_versions (view s)))" for v by auto
    with migrate_all_prefix [OF assms(1), of ?ms t ?ap] assms(2,3) 2(2) \<open>view s1 = view s\<close>
    show ?thesis unfolding run Let_def todo_def by simp
  qed
qed

text \<open>An SQLite in which every statement but a broken script succeeds.\<close>

record schema_env = env +
  se_schema :: schema

definition sample_sqlite :: "schema_env sql_conn" where
  "sample_sqlite = \<lparr>cn_execute = (\<lambda>sql ps s.
     let sc = se_schema s in
     if sql = MIGRATION_TABLE_SQL then (Inr [], s)
     else if sql = SELECT_VERSIONS_SQL
     then (Inr (map (\<lambda>v. [(''version'', JNum v)]) (sort (sc_versions sc))), s)
     else if sql = ''BEGIN TRANSACTION''
     then (Inr [], s\<lparr>se_schema := sc\<lparr>sc_saved := Some (sc_scripts sc, sc_versions sc)\<rparr>\<rparr>)
     else if sql = ''COMMIT'' then (Inr [], s\<lparr>se_schema := sc\<lparr>sc_saved := None\<rparr>\<rparr>)
     else if sql = ''ROLLBACK''
     then (case sc_saved sc of
             Some (x, y) \<Rightarrow>
               (Inr [], s\<lparr>se_schema := \<lparr>sc_scripts = x, sc_versions = y, sc_saved = None\<rparr>\<rparr>)
           | None \<Rightarrow> (Inl (JsErr None), s))
     else if sql = INSERT_VERSION_SQL
     then (case ps of
             JNum v # _ \<Rightarrow>
               if v \<in> set (sc_versions sc) then (Inl (JsErr None), s)
               else (Inr [], s\<lparr>se_schema := sc\<lparr>sc_versions := sc_versions sc @ [v]\<rparr>\<rparr>)
           | _ \<Rightarrow> (Inl (JsErr None), s))
     else if sql = ''broken'' then (Inl (JsErr None), s)
     else (Inr [], s\<lparr>se_schema := sc\<lparr>sc_scripts := sc_scripts sc @ [sql]\<rparr>\<rparr>))\<rparr>"

lemma sample_sqlite_ok: "sqlite_ok se_schema {''a'', ''b'', ''broken''} sample_sqlite"
  unfolding sqlite_ok_def
  by (simp add: sample_sqlite_def stmt_ok_def MIGRATION_TABLE_SQL_def SELECT_VERSIONS_SQL_def
      INSERT_VERSION_SQL_def Let_def)

definition sample_migrations :: "migration list" where
  "sample_migrations = [\<lparr>mg_version = 3, mg_up = ''broken''\<rparr>, \<lparr>mg_version = 2, mg_up = ''b''\<rparr>,
                        \<lparr>mg_version = 1, mg_up = ''a''\<rparr>]"

definition sample_schema_env :: schema_env where
  "sample_schema_env =
     \<lparr>env_now = 0, env_log = [],
      se_schema = \<lparr>sc_scripts = [''a''], sc_versions = [1], sc_saved = None\<rparr>\<rparr>"

theorem migrations_run_once_in_order_witness:
  "\<exists>k. sc_scripts (se_schema (snd (runMigrations sample_sqlite sample_migrations sample_schema_env)))
     = ''a'' # map mg_up (take k [\<lparr>mg_version = 2, mg_up = ''b''\<rparr>, \<lparr>mg_version = 3, mg_up = ''broken''\<rparr>])"
proof -
  have u: "mg_up ` set sample_migrations \<subseteq> {''a'', ''b'', ''broken''}"
    by (simp add: sample_migrations_def)
  have i: "sc_saved (se_schema sample_schema_env) = None" by (simp add: sample_schema_env_def)
  have f: "filter (\<lambda>m. mg_version m \<notin> set (sc_versions (se_schema sample_schema_env)))
      (sort_key mg_version sample_migrations) =
      [\<lparr>mg_version = 2, mg_up = ''b''\<rparr>, \<lparr>mg_version = 3, mg_up = ''broken''\<rparr>]"
    by (simp add: sample_migrations_def sample_schema_env_def)
  from migrations_run_once_in_order [OF sample_sqlite_ok u i] show ?thesis
    unfolding f Let_def
    by (elim exE conjE, intro exI) (simp add: sample_schema_env_def)
qed

section \<open>The native storage\<close>

text \<open>
  \<^verbatim>\<open>createDatabaseStorage\<close> of the device: connections are numbered in the order they are
  opened; \<open>nd_migrating\<close> are the runs of \<^verbatim>\<open>runMigrations\<close> that \<^verbatim>\<open>getDatabase\<close> started and
  does not await.
\<close>

record native_dbs =
  nd_databases :: "(string \<times> nat) list"
  nd_connections :: nat
  nd_pragmas :: "(nat \<times> string) list"
  nd_migrating :: "(nat \<times> migration list) list"
  nd_closed :: "nat list"
  nd_deleted :: "nat list"

definition openAndWrap :: "database_options \<Rightarrow> native_dbs \<Rightarrow> nat \<times> native_dbs" where
  "openAndWrap options s =
     (let conn = nd_connections s in
      (conn, s\<lparr>nd_connections := Suc conn,
               nd_pragmas := nd_pragmas s @
                 [(conn, ''PRAGMA journal_mode = WAL''), (conn, ''PRAGMA foreign_keys = ON'')],
               nd_migrating := nd_migrating s @ [(conn, do_migrations options)]\<rparr>))"

definition native_getDatabase :: "database_options \<Rightarrow> native_dbs \<Rightarrow> nat \<times> native_dbs" where
  "native_getDatabase options s =
     (case map_of (nd_databases s) (do_name options) of
        Some conn \<Rightarrow> (conn, s)
      | None \<Rightarrow>
          (let (conn, t) = openAndWrap options s in
           (conn, t\<lparr>nd_databases := AList.update (do_name options) conn (nd_databases t)\<rparr>)))"

definition native_closeDatabase :: "string \<Rightarrow> native_dbs \<Rightarrow> native_dbs" where
  "native_closeDatabase name s =
     (case map_of (nd_databases s) name of
        None \<Rightarrow> s
      | Some conn \<Rightarrow> s\<lparr>nd_closed := nd_closed s @ [conn],
                       nd_databases := AList.delete name (nd_databases s)\<rparr>)"

definition native_deleteDatabase :: "string \<Rightarrow> native_dbs \<Rightarrow> native_dbs" where
  "native_deleteDatabase name s =
     (case map_of (nd_databases s) name of
        None \<Rightarrow> s
      | Some conn \<Rightarrow> s\<lparr>nd_deleted := nd_deleted s @ [conn],
                       nd_databases := AList.delete name (nd_databases s)\<rparr>)"

lemma getDatabase_is_cached:
  assumes "native_getDatabase options s = (conn, t)" "do_name options' = do_name options"
  shows "native_getDatabase options' t = (conn, t)"
  using assms by (auto simp: native_getDatabase_def openAndWrap_def Let_def AList.update_conv'
      split: option.splits)

section \<open>The web storage\<close>

text \<open>
  A database of the web storage is a stand-in that waits for its initialisation (\<open>Pending\<close>, the
  index of the initialisation) or a wrapped connection (\<open>Real\<close>). \<open>wd_open\<close> are the connections
  open in SQLite. The steps are those of \<^verbatim>\<open>getDatabase\<close>, of the pieces of
  \<^verbatim>\<open>initializeDatabase\<close> between its \<^verbatim>\<open>await\<close>s, and of \<^verbatim>\<open>closeDatabase\<close>, which is also
  \<^verbatim>\<open>deleteDatabase\<close>.
\<close>

datatype web_handle = Pending nat | Real nat

datatype init_phase = Loading | Migrating nat | Ready nat | InitFailed

record web_dbs =
  wd_entries :: "(string \<times> web_handle) list"
  wd_inits :: "(string \<times> init_phase) list"
  wd_open :: "(string \<times> nat) list"
  wd_nextDb :: nat

definition openDatabase :: "string \<Rightarrow> web_dbs \<Rightarrow> web_handle \<times> web_dbs" where
  "openDatabase name s =
     (case map_of (wd_entries s) name of
        Some h \<Rightarrow> (h, s)
      | None \<Rightarrow>
          (let h = Pending (length (wd_inits s)) in
           (h, s\<lparr>wd_entries := AList.update name h (wd_entries s),
                 wd_inits := wd_inits s @ [(name, Loading)]\<rparr>)))"

text \<open>The module is loaded, the database opened and registered, and the migrations start.\<close>

definition initialize_opens :: "nat \<Rightarrow> web_dbs \<Rightarrow> web_dbs" where
  "initialize_opens i s =
     (if i < length (wd_inits s) \<and> snd (wd_inits s ! i) = Loading
      then (let name = fst (wd_inits s ! i); d = wd_nextDb s in
            s\<lparr>wd_nextDb := Suc d, wd_open := wd_open s @ [(name, d)],
              wd_entries := AList.update name (Real d) (wd_entries s),
              wd_inits := (wd_inits s)[i := (name, Migrating d)]\<rparr>)
      else s)"

definition initialize_finishes :: "nat \<Rightarrow> web_dbs \<Rightarrow> web_dbs" where
  "initialize_finishes i s =
     (if i < length (wd_inits s)
      then (case wd_inits s ! i of
              (name, Migrating d) \<Rightarrow> s\<lparr>wd_inits := (wd_inits s)[i := (name, Ready d)]\<rparr>
            | _ \<Rightarrow> s)
      else s)"

definition initialize_fails :: "nat \<Rightarrow> web_dbs \<Rightarrow> web_dbs" where
  "initialize_fails i s =
     (if i < length (wd_inits s)
      then (case wd_inits s ! i of
              (name, Ready d) \<Rightarrow> s
            | (name, _) \<Rightarrow> s\<lparr>wd_inits := (wd_inits s)[i := (name, InitFailed)]\<rparr>)
      else s)"

definition web_closeDatabase :: "string \<Rightarrow> web_dbs \<Rightarrow> web_dbs" where
  "web_closeDatabase name s =
     (case map_of (wd_entries s) name of
        Some (Real d) \<Rightarrow> s\<lparr>wd_open := filter (\<lambda>(_, e). e \<noteq> d) (wd_open s),
                           wd_entries := AList.delete name (wd_entries s)\<rparr>
      | _ \<Rightarrow> s)"

text \<open>
  What becomes of a statement given to a database: it runs on a connection, waits for an
  initialisation, or finds no database (\<^verbatim>\<open>execute\<close> then does nothing, \<^verbatim>\<open>transaction\<close>
  throws).
\<close>

datatype db_use = RunsOn nat | WaitsFor nat | NoDatabase

definition pending_use :: "web_handle \<Rightarrow> web_dbs \<Rightarrow> db_use" where
  "pending_use h s =
     (case h of
        Real d \<Rightarrow> RunsOn d
      | Pending i \<Rightarrow>
          (case wd_inits s ! i of
             (name, Ready d) \<Rightarrow>
               (case map_of (wd_entries s) name of
                  None \<Rightarrow> NoDatabase
                | Some (Real e) \<Rightarrow> RunsOn e
                | Some (Pending j) \<Rightarrow> WaitsFor j)
           | _ \<Rightarrow> WaitsFor i))"

datatype web_db_event =
    GetDatabase string
  | InitOpens nat
  | InitFinishes nat
  | InitFails nat
  | CloseDatabase string

fun web_db_step :: "web_db_event \<Rightarrow> web_dbs \<Rightarrow> web_dbs" where
  "web_db_step (GetDatabase name) s = snd (openDatabase name s)"
| "web_db_step (InitOpens i) s = initialize_opens i s"
| "web_db_step (InitFinishes i) s = initialize_finishes i s"
| "web_db_step (InitFails i) s = initialize_fails i s"
| "web_db_step (CloseDatabase name) s = web_closeDatabase name s"

definition createWebDatabaseStorage :: web_dbs where
  "createWebDatabaseStorage = \<lparr>wd_entries = [], wd_inits = [], wd_open = [], wd_nextDb = 0\<rparr>"

definition web_dbs_ok :: "web_dbs \<Rightarrow> bool" where
  "web_dbs_ok s =
     ((\<forall>i < length (wd_inits s). snd (wd_inits s ! i) = Loading \<longrightarrow>
         map_of (wd_entries s) (fst (wd_inits s ! i)) = Some (Pending i)) \<and>
      (\<forall>(name, d) \<in> set (wd_open s). map_of (wd_entries s) name = Some (Real d) \<and> d < wd_nextDb s) \<and>
      distinct (map fst (wd_open s)) \<and> distinct (map snd (wd_open s)))"

lemma web_dbs_okD:
  assumes "web_dbs_ok s"
  shows "i < length (wd_inits s) \<Longrightarrow> wd_inits s ! i = (name, Loading) \<Longrightarrow>
      map_of (wd_entries s) name = Some (Pending i)"
    and "(name, d) \<in> set (wd_open s) \<Longrightarrow> map_of (wd_entries s) name = Some (Real d)"
    and "(name, d) \<in> set (wd_open s) \<Longrightarrow> d < wd_nextDb s"
    and "distinct (map fst (wd_open s))" "distinct (map snd (wd_open s))"
  using assms by (force simp: web_dbs_ok_def)+

lemma web_dbs_okI:
  assumes "\<And>i name. i < length (wd_inits s) \<Longrightarrow> wd_inits s ! i = (name, Loading) \<Longrightarrow>
      map_of (wd_entries s) name = Some (Pending i)"
    and "\<And>name d. (name, d) \<in> set (wd_open s) \<Longrightarrow>
      map_of (wd_entries s) name = Some (Real d) \<and> d < wd_nextDb s"
    and "distinct (map fst (wd_open s))" "distinct (map snd (wd_open s))"
  shows "web_dbs_ok s"
  using assms unfolding web_dbs_ok_def by (auto simp: prod_eq_iff)

lemma web_dbs_ok_get: "web_dbs_ok s \<Longrightarrow> web_dbs_ok (snd (openDatabase name s))"
proof (cases "map_of (wd_entries s) name")
  case None
  assume ok: "web_dbs_ok s"
  let ?t = "snd (openDatabase name s)"
  have t: "wd_entries ?t = AList.update name (Pending (length (wd_inits s))) (wd_entries s)"
    "wd_inits ?t = wd_inits s @ [(name, Loading)]" "wd_open ?t = wd_open s"
    "wd_nextDb ?t = wd_nextDb s"
    using None by (simp_all add: openDatabase_def Let_def)
  show ?thesis
  proof (rule web_dbs_okI, unfold t)
    fix i n
    assume i: "i < length (wd_inits s @ [(name, Loading)])"
      "(wd_inits s @ [(name, Loading)]) ! i = (n, Loading)"
    show "map_of (AList.update name (Pending (length (wd_inits s))) (wd_entries s)) n = Some (Pending i)"
    proof (cases "i < length (wd_inits s)")
      case True
      with i have "map_of (wd_entries s) n = Some (Pending i)"
        using web_dbs_okD(1) [OF ok] by (simp add: nth_append)
      with None show ?thesis by (auto simp: AList.update_conv')
    next
      case False
      with i show ?thesis by (simp add: nth_append AList.update_conv' less_Suc_eq)
    qed
  next
    fix n d
    assume "(n, d) \<in> set (wd_open s)"
    then show "map_of (AList.update name (Pending (length (wd_inits s))) (wd_entries s)) n
        = Some (Real d) \<and> d < wd_nextDb s"
      using web_dbs_okD(2,3) [OF ok] None by (force simp: AList.update_conv')
  qed (rule web_dbs_okD(4,5) [OF ok])+
qed (simp add: openDatabase_def)

lemma web_dbs_ok_opens: "web_dbs_ok s \<Longrightarrow> web_dbs_ok (initialize_opens i s)"
proof (cases "i < length (wd_inits s) \<and> snd (wd_inits s ! i) = Loading")
  case True
  assume ok: "web_dbs_ok s"
  obtain name where i: "i < length (wd_inits s)" "wd_inits s ! i = (name, Loading)"
    using True by (cases "wd_inits s ! i") auto
  let ?d = "wd_nextDb s"
  let ?t = "initialize_opens i s"
  have t: "wd_entries ?t = AList.update name (Real ?d) (wd_entries s)"
    "wd_inits ?t = (wd_inits s)[i := (name, Migrating ?d)]" "wd_open ?t = wd_open s @ [(name, ?d)]"
    "wd_nextDb ?t = Suc ?d"
    using i by (simp_all add: initialize_opens_def Let_def)
  have entry: "map_of (wd_entries s) name = Some (Pending i)" using web_dbs_okD(1) [OF ok i] .
  have fresh: "name \<notin> set (map fst (wd_open s))" "?d \<notin> set (map snd (wd_open s))"
    using web_dbs_okD(2,3) [OF ok] entry by force+
  show ?thesis
  proof (rule web_dbs_okI, unfold t)
    fix k n
    assume k: "k < length ((wd_inits s)[i := (name, Migrating ?d)])"
      "(wd_inits s)[i := (name, Migrating ?d)] ! k = (n, Loading)"
    then have "k \<noteq> i" by auto
    with k have "wd_inits s ! k = (n, Loading)" by simp
    with k \<open>k \<noteq> i\<close> web_dbs_okD(1) [OF ok, of k n] entry i(2)
    show "map_of (AList.update name (Real ?d) (wd_entries s)) n = Some (Pending k)"
      by (auto simp: AList.update_conv')
  next
    fix n d
    assume "(n, d) \<in> set (wd_open s @ [(name, ?d)])"
    then show "map_of (AList.update name (Real ?d) (wd_entries s)) n = Some (Real d) \<and> d < Suc ?d"
      using web_dbs_okD(2,3) [OF ok, of n d] entry by (auto simp: AList.update_conv')
  qed (use web_dbs_okD(4,5) [OF ok] fresh in simp_all)
qed (auto simp: initialize_opens_def)

lemma web_dbs_ok_phase:
  assumes ok: "web_dbs_ok s" and "ph \<noteq> Loading"
  shows "web_dbs_ok (s\<lparr>wd_inits := (wd_inits s)[i := (name, ph)]\<rparr>)"
proof (rule web_dbs_okI)
  fix k n
  assume k: "k < length (wd_inits (s\<lparr>wd_inits := (wd_inits s)[i := (name, ph)]\<rparr>))"
    "wd_inits (s\<lparr>wd_inits := (wd_inits s)[i := (name, ph)]\<rparr>) ! k = (n, Loading)"
  with assms(2) have "wd_inits s ! k = (n, Loading)" by (cases "k = i") auto
  with k show "map_of (wd_entries (s\<lparr>wd_inits := (wd_inits s)[i := (name, ph)]\<rparr>)) n = Some (Pending k)"
    using web_dbs_okD(1) [OF ok] by simp
qed (use web_dbs_okD(2-5) [OF ok] in auto)

lemma web_dbs_ok_close: "web_dbs_ok s \<Longrightarrow> web_dbs_ok (web_closeDatabase name s)"
proof (cases "\<exists>d. map_of (wd_entries s) name = Some (Real d)")
  case True
  assume ok: "web_dbs_ok s"
  from True obtain d where d: "map_of (wd_entries s) name = Some (Real d)" by blast
  let ?t = "web_closeDatabase name s"
  have t: "wd_open ?t = filter (\<lambda>(_, e). e \<noteq> d) (wd_open s)"
    "wd_entries ?t = AList.delete name (wd_entries s)" "wd_inits ?t = wd_inits s"
    "wd_nextDb ?t = wd_nextDb s"
    using d by (simp_all add: web_closeDatabase_def)
  show ?thesis
  proof (rule web_dbs_okI, unfold t)
    fix k n
    assume "k < length (wd_inits s)" "wd_inits s ! k = (n, Loading)"
    with web_dbs_okD(1) [OF ok] d show "map_of (AList.delete name (wd_entries s)) n = Some (Pending k)"
      by (force simp: AList.delete_conv')
  next
    fix n e
    assume "(n, e) \<in> set (filter (\<lambda>(_, e). e \<noteq> d) (wd_open s))"
    with web_dbs_okD(2,3) [OF ok] d
    show "map_of (AList.delete name (wd_entries s)) n = Some (Real e) \<and> e < wd_nextDb s"
      by (force simp: AList.delete_conv')
  qed (use web_dbs_okD(4,5) [OF ok] in \<open>simp_all add: distinct_map_filter\<close>)
qed (auto simp: web_closeDatabase_def split: option.splits web_handle.splits)

lemma web_dbs_ok_step: "web_dbs_ok s \<Longrightarrow> web_dbs_ok (web_db_step e s)"
  by (cases e) (auto simp: web_dbs_ok_get web_dbs_ok_opens web_dbs_ok_close initialize_finishes_def
      initialize_fails_def intro: web_dbs_ok_phase split: prod.splits init_phase.splits)

text \<open>
  A name never has two open connections. However calls of \<^verbatim>\<open>getDatabase\<close> and
  \<^verbatim>\<open>closeDatabase\<close> interleave with initialisations that open, finish or fail, the storage holds
  at most one open connection per name, and it is the one that the name's entry refers to.
\<close>

theorem one_connection_per_name:
  "distinct (map fst (wd_open (fold web_db_step es createWebDatabaseStorage))) \<and>
   list_all (\<lambda>(name, d).
      map_of (wd_entries (fold web_db_step es createWebDatabaseStorage)) name = Some (Real d))
     (wd_open (fold web_db_step es createWebDatabaseStorage))"
proof -
  have "web_dbs_ok s \<Longrightarrow> web_dbs_ok (fold web_db_step es s)" for s
    by (induction es arbitrary: s) (simp_all add: web_dbs_ok_step)
  moreover have "web_dbs_ok createWebDatabaseStorage"
    by (simp add: web_dbs_ok_def createWebDatabaseStorage_def)
  ultimately have "web_dbs_ok (fold web_db_step es createWebDatabaseStorage)" by blast
  from web_dbs_okD(2,4) [OF this] show ?thesis unfolding list_all_iff by blast
qed

text \<open>
  A caller that asks for a database while its migrations run gets the bare connection, and its
  statements do not wait for them; one that asked before does wait. When the initialisation
  fails, the latter waits for ever.
\<close>

lemma second_caller_does_not_wait_for_migrations:
  "let s = fold web_db_step [GetDatabase ''db'', InitOpens 0] createWebDatabaseStorage in
   fst (openDatabase ''db'' s) = Real 0 \<and> pending_use (Real 0) s = RunsOn 0 \<and>
   pending_use (Pending 0) s = WaitsFor 0 \<and>
   pending_use (Pending 0) (web_db_step (InitFails 0) s) = WaitsFor 0"
  by (simp add: createWebDatabaseStorage_def openDatabase_def initialize_opens_def
      initialize_fails_def pending_use_def Let_def)

end
