(* ===== verification/TransferQueue.thy ===== *)
theory TransferQueue
  imports NetworkTypes
begin

text \<open>
  What the two transfer packages share, \<^verbatim>\<open>packages/file-storage/src\<close> (downloads) and
  \<^verbatim>\<open>packages/media-upload/src\<close> (uploads): the registry of abort controllers
  (\<^verbatim>\<open>cancellation-registry.ts\<close>, the same file in both) and a queue table in SQLite whose rows
  have a status. An abort controller is an identity; \<open>cr_aborted\<close> are the aborted ones.
\<close>

text \<open>A check that throws, and \<^verbatim>\<open>error instanceof Error ? error.message : 'Unknown error'\<close>.\<close>

definition io_sum :: "(js_error + 'a) \<Rightarrow> ('s, js_error, 'a) io" where
  "io_sum r = (case r of Inl e \<Rightarrow> io_throw e | Inr a \<Rightarrow> io_return a)"

definition js_message :: "js_error \<Rightarrow> string" where
  "js_message e = (case err_message e of None \<Rightarrow> ''Unknown error'' | Some m \<Rightarrow> m)"

lemma keeps_sum [keeps_intros]: "keeps P (io_sum r)"
  by (cases r) (simp_all add: io_sum_def keeps_intros)

section \<open>The registry\<close>

record transfer_env = env +
  cr_controllers :: "(string \<times> nat) list"
  cr_aborted :: "nat list"
  cr_next :: nat

definition registry_register ::
  "string \<Rightarrow> 'x transfer_env_scheme \<Rightarrow> nat \<times> 'x transfer_env_scheme" where
  "registry_register tid s =
     (cr_next s, s\<lparr>cr_controllers := AList.update tid (cr_next s) (cr_controllers s),
                   cr_next := Suc (cr_next s)\<rparr>)"

definition registry_cancel ::
  "string \<Rightarrow> 'x transfer_env_scheme \<Rightarrow> bool \<times> 'x transfer_env_scheme" where
  "registry_cancel tid s =
     (case map_of (cr_controllers s) tid of
        None \<Rightarrow> (False, s)
      | Some c \<Rightarrow> (True, s\<lparr>cr_aborted := set_add c (cr_aborted s),
                          cr_controllers := AList.delete tid (cr_controllers s)\<rparr>))"

definition registry_remove :: "string \<Rightarrow> 'x transfer_env_scheme \<Rightarrow> 'x transfer_env_scheme" where
  "registry_remove tid s = s\<lparr>cr_controllers := AList.delete tid (cr_controllers s)\<rparr>"

definition registry_getSignal :: "string \<Rightarrow> 'x transfer_env_scheme \<Rightarrow> nat option" where
  "registry_getSignal tid s = map_of (cr_controllers s) tid"

definition aborted :: "nat \<Rightarrow> 'x transfer_env_scheme \<Rightarrow> bool" where
  "aborted c s = (c \<in> set (cr_aborted s))"

lemma register_getSignal: "registry_getSignal tid (snd (registry_register tid s)) = Some (fst (registry_register tid s))"
  by (simp add: registry_getSignal_def registry_register_def AList.update_conv')

lemma cancel_aborts:
  "registry_getSignal tid s = Some c \<Longrightarrow>
   fst (registry_cancel tid s) \<and> aborted c (snd (registry_cancel tid s)) \<and>
   registry_getSignal tid (snd (registry_cancel tid s)) = None"
  by (simp add: registry_getSignal_def registry_cancel_def aborted_def AList.delete_conv')

lemma cancel_once:
  "\<not> fst (registry_cancel tid (snd (registry_cancel tid s)))"
  by (auto simp: registry_cancel_def AList.delete_conv' split: option.splits)

section \<open>The queue table\<close>

text \<open>
  A table is the list of its rows; \<open>update_where p f\<close> is the SQL statement
  \<^verbatim>\<open>UPDATE ... SET ... WHERE ...\<close>.
\<close>

definition update_where :: "('r \<Rightarrow> bool) \<Rightarrow> ('r \<Rightarrow> 'r) \<Rightarrow> 'r list \<Rightarrow> 'r list" where
  "update_where p f rows = map (\<lambda>r. if p r then f r else r) rows"

lemma in_update_where:
  assumes "r \<in> set (update_where p f rows)"
  obtains (changed) q where "q \<in> set rows" "p q" "r = f q" | (same) "r \<in> set rows" "\<not> p r"
  using assms by (auto simp: update_where_def split: if_splits)

lemma kept_by_update_where: "r \<in> set rows \<Longrightarrow> \<not> p r \<Longrightarrow> r \<in> set (update_where p f rows)"
  by (force simp: update_where_def)

lemma update_where_cong:
  "(\<And>q. q \<in> set rows \<Longrightarrow> p q = p' q) \<Longrightarrow> update_where p f rows = update_where p' f rows"
  unfolding update_where_def by (intro map_cong refl) auto

text \<open>
  The contract of the status column, for a type of rows with key \<open>key\<close> and status \<open>status\<close>, whose
  terminal statuses are \<open>terminal\<close>.
\<close>

locale status_table =
  fixes key :: "'r \<Rightarrow> string"
    and status :: "'r \<Rightarrow> 'st"
    and terminal :: "'st list"
    and setStatus :: "string \<Rightarrow> 'st \<Rightarrow> int \<Rightarrow> 'r list \<Rightarrow> 'r list"
    and setIfNotTerminal :: "string \<Rightarrow> 'st \<Rightarrow> int \<Rightarrow> 'r list \<Rightarrow> 'r list"
  assumes set_keys: "map key (setStatus k st now rows) = map key rows"
    and if_keys: "map key (setIfNotTerminal k st now rows) = map key rows"
    and set_status: "r \<in> set (setStatus k st now rows) \<Longrightarrow> key r = k \<Longrightarrow> status r = st"
    and set_others: "r \<in> set rows \<Longrightarrow> key r \<noteq> k \<Longrightarrow> r \<in> set (setStatus k st now rows)"
    and if_terminal: "r \<in> set rows \<Longrightarrow> key r = k \<Longrightarrow> status r \<in> set terminal \<Longrightarrow>
      r \<in> set (setIfNotTerminal k st now rows)"
    and if_open: "(\<And>q. q \<in> set rows \<Longrightarrow> key q = k \<Longrightarrow> status q \<notin> set terminal) \<Longrightarrow>
      setIfNotTerminal k st now rows = setStatus k st now rows"
begin

lemma same_ids: "key ` set (setStatus k st now rows) = key ` set rows"
  "key ` set (setIfNotTerminal k st now rows) = key ` set rows"
proof -
  have "set (map key (setStatus k st now rows)) = set (map key rows)" by (simp only: set_keys)
  then show "key ` set (setStatus k st now rows) = key ` set rows" by simp
  have "set (map key (setIfNotTerminal k st now rows)) = set (map key rows)" by (simp only: if_keys)
  then show "key ` set (setIfNotTerminal k st now rows) = key ` set rows" by simp
qed

lemma terminal_is_final:
  assumes "r \<in> set rows" "status r \<in> set terminal" "distinct (map key rows)"
  shows "{q \<in> set (setIfNotTerminal (key r) st now rows). key q = key r} = {r}"
proof -
  have r: "r \<in> set (setIfNotTerminal (key r) st now rows)"
    using if_terminal assms(1,2) by blast
  have "distinct (map key (setIfNotTerminal (key r) st now rows))"
    using assms(3) by (simp only: if_keys)
  then have "q = r" if "q \<in> set (setIfNotTerminal (key r) st now rows)" "key q = key r" for q
    using that r by (auto simp: distinct_map inj_on_def)
  with r show ?thesis by auto
qed

end

text \<open>Rows found by key.\<close>

definition row_of :: "('r \<Rightarrow> string) \<Rightarrow> string \<Rightarrow> 'r list \<Rightarrow> 'r option" where
  "row_of key k rows = find (\<lambda>r. key r = k) rows"

lemma row_of_update:
  assumes "\<And>r. key (f r) = key r"
  shows "row_of key k (update_where p f rows) =
    (case row_of key k rows of None \<Rightarrow> None | Some r \<Rightarrow> Some (if p r then f r else r))"
  using assms by (induction rows) (auto simp: row_of_def update_where_def)

lemma keys_update: "(\<And>r. key (f r) = key r) \<Longrightarrow> map key (update_where p f rows) = map key rows"
  by (induction rows) (auto simp: update_where_def)

lemma row_of_append:
  "row_of key k (rows @ [r]) = (case row_of key k rows of Some q \<Rightarrow> Some q
     | None \<Rightarrow> if key r = k then Some r else None)"
  by (induction rows) (auto simp: row_of_def)

lemma row_of_None: "row_of key k rows = None \<longleftrightarrow> k \<notin> key ` set rows"
  by (induction rows) (auto simp: row_of_def)

lemma row_of_Some: "row_of key k rows = Some r \<Longrightarrow> r \<in> set rows \<and> key r = k"
  by (induction rows) (auto simp: row_of_def split: if_splits)

end
