(* ===== verification/DownloadStore.thy ===== *)
theory DownloadStore
  imports TransferQueue
begin

text \<open>
  \<^verbatim>\<open>packages/file-storage/src\<close>: the types, the checks of ids, paths and URLs, the repositories
  of the queue and of the cache, and the cache manager. The two tables are fields of the state and
  an SQL statement is what it does to them; a statement does not fail, except the insertion of a
  key that is present. The platform's file operations are parameters.
\<close>

datatype download_status =
    DQueued | DResolving | DDownloadingCdn | DDownloadingTon | DCompleted | DFailed | DCancelled

definition TERMINAL_STATUSES :: "download_status list" where
  "TERMINAL_STATUSES = [DCompleted, DCancelled]"

record download_progress =
  dp_downloadId :: string
  dp_fileId :: string
  dp_status :: download_status
  dp_bytesDownloaded :: int
  dp_totalBytes :: int

record download_result =
  dr_fileId :: string
  dr_localPath :: string
  dr_fileSize :: int

record file_resolution =
  fr_fileId :: string
  fr_cdnUrl :: "string option"
  fr_tonBagId :: "string option"
  fr_tonFileIndex :: "int option"
  fr_fileSize :: int
  fr_mimeType :: string

record download_record =
  dq_download_id :: string
  dq_file_id :: string
  dq_status :: download_status
  dq_local_path :: "string option"
  dq_cdn_url :: "string option"
  dq_ton_bag_id :: "string option"
  dq_ton_file_index :: "int option"
  dq_file_size :: int
  dq_bytes_downloaded :: int
  dq_error_message :: "string option"
  dq_retry_count :: nat
  dq_created_at :: int
  dq_updated_at :: int

record cache_record =
  cf_file_id :: string
  cf_local_path :: string
  cf_file_size :: int
  cf_created_at :: int
  cf_last_accessed_at :: int

record download_env = transfer_env +
  de_queue :: "download_record list"
  de_cache :: "cache_record list"
  de_progress :: "download_progress list"

record 's file_operations =
  fo_exists :: "string \<Rightarrow> ('s, js_error, bool) io"
  fo_deleteFile :: "string \<Rightarrow> ('s, js_error, unit) io"
  fo_getFileSize :: "string \<Rightarrow> ('s, js_error, int) io"
  fo_moveFile :: "string \<Rightarrow> string \<Rightarrow> ('s, js_error, unit) io"
  fo_downloadToFile ::
    "string \<Rightarrow> string \<Rightarrow> string js_record option \<Rightarrow> nat option \<Rightarrow> ('s, js_error, unit) io"

text \<open>\<^verbatim>\<open>create-file-operations.ts\<close>: the native module downloads without a signal.\<close>

record 's native_file_ops =
  nf_exists :: "string \<Rightarrow> ('s, js_error, bool) io"
  nf_deleteFile :: "string \<Rightarrow> ('s, js_error, unit) io"
  nf_getFileSize :: "string \<Rightarrow> ('s, js_error, int) io"
  nf_moveFile :: "string \<Rightarrow> string \<Rightarrow> ('s, js_error, unit) io"
  nf_downloadToFile :: "string \<Rightarrow> string \<Rightarrow> string \<Rightarrow> ('s, js_error, unit) io"

definition createFileOperations ::
  "(string js_record \<Rightarrow> string) \<Rightarrow> 's native_file_ops \<Rightarrow> 's file_operations" where
  "createFileOperations stringify native =
     \<lparr>fo_exists = nf_exists native, fo_deleteFile = nf_deleteFile native,
      fo_getFileSize = nf_getFileSize native, fo_moveFile = nf_moveFile native,
      fo_downloadToFile = (\<lambda>url dest headers signal.
        nf_downloadToFile native url dest
          (case headers of None \<Rightarrow> ''{}'' | Some hs \<Rightarrow> stringify hs))\<rparr>"

section \<open>Checks\<close>

definition safe_file_char :: "char \<Rightarrow> bool" where
  "safe_file_char c = (is_alnum c \<or> c \<in> {CHR ''_'', CHR ''-'', CHR ''.''})"

definition validateFileId :: "string \<Rightarrow> js_error + unit" where
  "validateFileId fileId =
     (if fileId = [] \<or> \<not> list_all safe_file_char fileId
      then Inl (JsErr (Some (''Invalid file ID: must match ^['' @ [CHR 0x5C] @ ''w'' @ [CHR 0x5C] @
             ''-.]+$''))) else Inr ())"

definition buildCachePath :: "string \<Rightarrow> string \<Rightarrow> js_error + string" where
  "buildCachePath cacheDirectoryPath fileId =
     (case validateFileId fileId of
        Inl e \<Rightarrow> Inl e | Inr _ \<Rightarrow> Inr (cacheDirectoryPath @ ''/'' @ fileId))"

text \<open>\<open>protocol\<close> is \<^verbatim>\<open>new URL(url).protocol\<close>, none where the constructor throws.\<close>

definition validateCdnUrl :: "(string \<Rightarrow> string option) \<Rightarrow> string \<Rightarrow> js_error + unit" where
  "validateCdnUrl protocol url =
     (case protocol url of
        None \<Rightarrow> Inl (JsErr (Some (''Invalid CDN URL: '' @ url)))
      | Some p \<Rightarrow>
          if p \<in> {''https:'', ''http:''} then Inr ()
          else Inl (JsErr (Some (''Disallowed URL scheme: '' @ p))))"

definition normalize_step :: "string list \<Rightarrow> string \<Rightarrow> string list" where
  "normalize_step parts segment =
     (if segment = ''..'' then butlast parts
      else if segment \<noteq> [] \<and> segment \<noteq> ''.'' then parts @ [segment] else parts)"

definition normalizePath :: "string \<Rightarrow> string" where
  "normalizePath input =
     (if prefix ''/'' input then ''/'' else []) @
     join_with ''/'' (foldl normalize_step [] (split_on CHR ''/'' input))"

definition ensureTrailingSlash :: "string \<Rightarrow> string" where
  "ensureTrailingSlash dir = (if suffix ''/'' dir then dir else dir @ ''/'')"

definition validatePathWithinDirectory :: "string \<Rightarrow> string \<Rightarrow> js_error + unit" where
  "validatePathWithinDirectory filePath allowedDirectory =
     (let normalized = normalizePath filePath;
          normalizedDir = ensureTrailingSlash (normalizePath allowedDirectory)
      in if \<not> prefix normalizedDir normalized \<and> normalized \<noteq> butlast normalizedDir
         then Inl (JsErr (Some ''Path escapes allowed directory'')) else Inr ())"

lemma split_on_append:
  "split_on c (xs @ c # ys) = split_on c xs @ split_on c ys"
  by (induction xs) (auto split: list.splits)

lemma split_on_no_sep_id: "c \<notin> set xs \<Longrightarrow> split_on c xs = [xs]"
  by (induction xs) auto

lemma join_with_snoc: "ws \<noteq> [] \<Longrightarrow> join_with sep (ws @ [w]) = join_with sep ws @ sep @ w"
proof (induction ws)
  case (Cons v ws)
  then show ?case by (cases ws) auto
qed simp

text \<open>
  C11. A cached file lies in the cache directory. For an absolute cache directory and a file id that
  passes \<^verbatim>\<open>validateFileId\<close>, other than a dot or two dots, the path of \<^verbatim>\<open>buildCachePath\<close>
  does not escape the directory, however the directory is written.
\<close>

theorem cached_path_stays_inside:
  assumes "buildCachePath (CHR ''/'' # dir) fileId = Inr path"
    and "fileId \<noteq> ''.''" "fileId \<noteq> ''..''"
  shows "validatePathWithinDirectory path (CHR ''/'' # dir) = Inr () \<and>
         normalizePath path \<noteq> normalizePath (CHR ''/'' # dir)"
proof -
  let ?d = "CHR ''/'' # dir"
  have path: "path = ?d @ CHR ''/'' # fileId" and safe: "fileId \<noteq> []" "list_all safe_file_char fileId"
    using assms(1) by (auto simp: buildCachePath_def validateFileId_def split: if_splits)
  have "CHR ''/'' \<notin> set fileId"
    using safe(2) by (auto simp: list_all_iff safe_file_char_def is_alnum_def Let_def)
  then have split: "split_on CHR ''/'' path = split_on CHR ''/'' ?d @ [fileId]"
    unfolding path split_on_append by (simp add: split_on_no_sep_id)
  let ?ps = "foldl normalize_step [] (split_on CHR ''/'' ?d)"
  have parts: "foldl normalize_step [] (split_on CHR ''/'' path) = ?ps @ [fileId]"
    unfolding split using safe(1) assms(2,3) by (simp add: normalize_step_def)
  have root: "prefix ''/'' ?d" "prefix ''/'' path" by (simp_all add: path)
  have dir: "normalizePath ?d = CHR ''/'' # join_with ''/'' ?ps"
    using root by (simp add: normalizePath_def)
  have pth: "normalizePath path = CHR ''/'' # join_with ''/'' (?ps @ [fileId])"
    unfolding normalizePath_def parts using root(2) by simp
  have longer: "prefix (ensureTrailingSlash (normalizePath ?d)) (normalizePath path)"
  proof (cases "?ps = []")
    case True
    then show ?thesis unfolding dir pth by (simp add: ensureTrailingSlash_def)
  next
    case False
    then show ?thesis
      unfolding dir pth join_with_snoc [OF False] ensureTrailingSlash_def by simp
  qed
  have "length (normalizePath path) > length (normalizePath ?d)"
  proof (cases "?ps = []")
    case True
    then show ?thesis unfolding dir pth using safe(1) by simp
  next
    case False
    then show ?thesis unfolding dir pth join_with_snoc [OF False] by simp
  qed
  then have "normalizePath path \<noteq> normalizePath ?d" by auto
  with longer show ?thesis by (simp add: validatePathWithinDirectory_def Let_def)
qed

theorem cached_path_stays_inside_witness:
  "validatePathWithinDirectory ''/data/../cache/f-1.png'' ''/data/../cache'' = Inr ()"
proof -
  have b: "buildCachePath (CHR ''/'' # ''data/../cache'') ''f-1.png'' = Inr ''/data/../cache/f-1.png''"
    by (simp add: buildCachePath_def validateFileId_def safe_file_char_def is_alnum_def)
  have "''f-1.png'' \<noteq> ''.''" "''f-1.png'' \<noteq> ''..''" by simp_all
  from cached_path_stays_inside [OF b this] show ?thesis by simp
qed

text \<open>Two dots pass the check of file ids, and the path is the parent of the cache.\<close>

lemma dotdot_escapes:
  "buildCachePath ''/data/cache'' ''..'' = Inr ''/data/cache/..'' \<and>
   normalizePath ''/data/cache/..'' = ''/data'' \<and>
   isl (validatePathWithinDirectory ''/data/cache/..'' ''/data/cache'')"
  by (simp add: buildCachePath_def validateFileId_def safe_file_char_def normalizePath_def
      validatePathWithinDirectory_def normalize_step_def ensureTrailingSlash_def Let_def)

section \<open>The queue repository\<close>

type_synonym ('x, 'a) dio = "('x download_env_scheme, js_error, 'a) io"

definition on_queue :: "(int \<Rightarrow> download_record list \<Rightarrow> download_record list) \<Rightarrow> ('x, unit) dio" where
  "on_queue f = io_modify (\<lambda>s. s\<lparr>de_queue := f (env_now s) (de_queue s)\<rparr>)"

text \<open>The columns that the statement does not name have their defaults.\<close>

definition insertItem :: "download_record \<Rightarrow> ('x, unit) dio" where
  "insertItem r = (\<lambda>s.
     if dq_download_id r \<in> dq_download_id ` set (de_queue s) then (Inl (JsErr None), s)
     else (Inr (), s\<lparr>de_queue := de_queue s @
       [r\<lparr>dq_local_path := None, dq_cdn_url := None, dq_ton_bag_id := None,
          dq_ton_file_index := None, dq_error_message := None\<rparr>]\<rparr>))"

definition getItem :: "string \<Rightarrow> ('x, download_record option) dio" where
  "getItem downloadId = io_gets (\<lambda>s. row_of dq_download_id downloadId (de_queue s))"

definition getItemByFileId :: "string \<Rightarrow> ('x, download_record option) dio" where
  "getItemByFileId fileId = io_gets (\<lambda>s.
     case sort_key (\<lambda>r. - dq_created_at r) (filter (\<lambda>r. dq_file_id r = fileId) (de_queue s)) of
       [] \<Rightarrow> None | r # _ \<Rightarrow> Some r)"

definition getItemsByStatus :: "download_status \<Rightarrow> ('x, download_record list) dio" where
  "getItemsByStatus st = io_gets (\<lambda>s.
     sort_key dq_created_at (filter (\<lambda>r. dq_status r = st) (de_queue s)))"

definition getAllItems :: "('x, download_record list) dio" where
  "getAllItems = io_gets (\<lambda>s. sort_key (\<lambda>r. - dq_created_at r) (de_queue s))"

definition set_download_status ::
  "string \<Rightarrow> download_status \<Rightarrow> int \<Rightarrow> download_record list \<Rightarrow> download_record list" where
  "set_download_status downloadId st now =
     update_where (\<lambda>r. dq_download_id r = downloadId)
       (\<lambda>r. r\<lparr>dq_status := st, dq_updated_at := now\<rparr>)"

definition set_download_status_if ::
  "string \<Rightarrow> download_status \<Rightarrow> int \<Rightarrow> download_record list \<Rightarrow> download_record list" where
  "set_download_status_if downloadId st now =
     update_where (\<lambda>r. dq_download_id r = downloadId \<and> dq_status r \<notin> set TERMINAL_STATUSES)
       (\<lambda>r. r\<lparr>dq_status := st, dq_updated_at := now\<rparr>)"

definition updateStatus :: "string \<Rightarrow> download_status \<Rightarrow> ('x, unit) dio" where
  "updateStatus downloadId st = on_queue (set_download_status downloadId st)"

definition updateStatusIfNotTerminal :: "string \<Rightarrow> download_status \<Rightarrow> ('x, bool) dio" where
  "updateStatusIfNotTerminal downloadId st =
     io_then (on_queue (set_download_status_if downloadId st))
       (io_bind (getItem downloadId) (\<lambda>row.
          io_return (case row of None \<Rightarrow> False | Some r \<Rightarrow> dq_status r = st)))"

definition updateResolution :: "string \<Rightarrow> file_resolution \<Rightarrow> ('x, unit) dio" where
  "updateResolution downloadId d = on_queue (\<lambda>now. update_where (\<lambda>r. dq_download_id r = downloadId)
     (\<lambda>r. r\<lparr>dq_cdn_url := fr_cdnUrl d, dq_ton_bag_id := fr_tonBagId d,
           dq_ton_file_index := fr_tonFileIndex d, dq_file_size := fr_fileSize d,
           dq_updated_at := now\<rparr>))"

definition updateProgress :: "string \<Rightarrow> int \<Rightarrow> ('x, unit) dio" where
  "updateProgress downloadId bytes = on_queue (\<lambda>now. update_where (\<lambda>r. dq_download_id r = downloadId)
     (\<lambda>r. r\<lparr>dq_bytes_downloaded := bytes, dq_updated_at := now\<rparr>))"

definition updateCompletion :: "string \<Rightarrow> string \<Rightarrow> ('x, unit) dio" where
  "updateCompletion downloadId localPath = on_queue (\<lambda>now. update_where (\<lambda>r. dq_download_id r = downloadId)
     (\<lambda>r. r\<lparr>dq_status := DCompleted, dq_local_path := Some localPath, dq_updated_at := now\<rparr>))"

definition updateFailure :: "string \<Rightarrow> string \<Rightarrow> ('x, unit) dio" where
  "updateFailure downloadId msg = on_queue (\<lambda>now. update_where (\<lambda>r. dq_download_id r = downloadId)
     (\<lambda>r. r\<lparr>dq_status := DFailed, dq_error_message := Some msg,
           dq_retry_count := dq_retry_count r + 1, dq_updated_at := now\<rparr>))"

definition deleteItem :: "string \<Rightarrow> ('x, unit) dio" where
  "deleteItem downloadId = on_queue (\<lambda>_. filter (\<lambda>r. dq_download_id r \<noteq> downloadId))"

interpretation downloads: status_table dq_download_id dq_status TERMINAL_STATUSES
  set_download_status set_download_status_if
proof
  fix r k st now rows
  show "map dq_download_id (set_download_status k st now rows) = map dq_download_id rows"
    "map dq_download_id (set_download_status_if k st now rows) = map dq_download_id rows"
    by (simp_all add: set_download_status_def set_download_status_if_def keys_update)
  show "dq_status r = st" if "r \<in> set (set_download_status k st now rows)" "dq_download_id r = k"
    using that(1) unfolding set_download_status_def
    by (cases rule: in_update_where) (use that(2) in simp_all)
  show "r \<in> set (set_download_status k st now rows)" if "r \<in> set rows" "dq_download_id r \<noteq> k"
    unfolding set_download_status_def using that by (intro kept_by_update_where) simp_all
  show "r \<in> set (set_download_status_if k st now rows)"
    if "r \<in> set rows" "dq_download_id r = k" "dq_status r \<in> set TERMINAL_STATUSES"
    unfolding set_download_status_if_def using that by (intro kept_by_update_where) simp_all
  show "set_download_status_if k st now rows = set_download_status k st now rows"
    if "\<And>q. q \<in> set rows \<Longrightarrow> dq_download_id q = k \<Longrightarrow> dq_status q \<notin> set TERMINAL_STATUSES"
    unfolding set_download_status_if_def set_download_status_def
    using that by (intro update_where_cong) blast
qed

section \<open>The cache\<close>

definition insertEntry :: "cache_record \<Rightarrow> ('x, unit) dio" where
  "insertEntry r = io_modify (\<lambda>s.
     s\<lparr>de_cache := filter (\<lambda>q. cf_file_id q \<noteq> cf_file_id r) (de_cache s) @ [r]\<rparr>)"

definition getEntry :: "string \<Rightarrow> ('x, cache_record option) dio" where
  "getEntry fileId = io_gets (\<lambda>s. row_of cf_file_id fileId (de_cache s))"

definition touchEntry :: "string \<Rightarrow> ('x, unit) dio" where
  "touchEntry fileId = io_modify (\<lambda>s. s\<lparr>de_cache :=
     update_where (\<lambda>r. cf_file_id r = fileId) (\<lambda>r. r\<lparr>cf_last_accessed_at := env_now s\<rparr>) (de_cache s)\<rparr>)"

definition deleteEntry :: "string \<Rightarrow> ('x, unit) dio" where
  "deleteEntry fileId = io_modify (\<lambda>s. s\<lparr>de_cache := filter (\<lambda>r. cf_file_id r \<noteq> fileId) (de_cache s)\<rparr>)"

definition total_size :: "cache_record list \<Rightarrow> int" where
  "total_size rows = sum_list (map cf_file_size rows)"

definition getTotalSize :: "('x, int) dio" where
  "getTotalSize = io_gets (\<lambda>s. total_size (de_cache s))"

definition getEvictionCandidates :: "nat \<Rightarrow> ('x, cache_record list) dio" where
  "getEvictionCandidates limit = io_gets (\<lambda>s. take limit (sort_key cf_last_accessed_at (de_cache s)))"

definition getAllEntries :: "('x, cache_record list) dio" where
  "getAllEntries = io_gets (\<lambda>s. sort_key (\<lambda>r. - cf_last_accessed_at r) (de_cache s))"

definition getCachedPath ::
  "('x download_env_scheme) file_operations \<Rightarrow> string \<Rightarrow> ('x, string option) dio" where
  "getCachedPath fo fileId =
     io_bind (getEntry fileId) (\<lambda>entry.
       case entry of
         None \<Rightarrow> io_return None
       | Some e \<Rightarrow> io_bind (fo_exists fo (cf_local_path e)) (\<lambda>present.
           if \<not> present then io_then (deleteEntry fileId) (io_return None)
           else io_then (touchEntry fileId) (io_return (Some (cf_local_path e)))))"

definition registerFile ::
  "('x download_env_scheme) file_operations \<Rightarrow> string \<Rightarrow> string \<Rightarrow> ('x, unit) dio" where
  "registerFile fo fileId localPath =
     io_bind (fo_getFileSize fo localPath) (\<lambda>fileSize.
     io_bind (io_gets env_now) (\<lambda>now.
       insertEntry \<lparr>cf_file_id = fileId, cf_local_path = localPath, cf_file_size = fileSize,
                    cf_created_at = now, cf_last_accessed_at = now\<rparr>))"

definition removeFileEntry ::
  "('x download_env_scheme) file_operations \<Rightarrow> string \<Rightarrow> string \<Rightarrow> ('x, unit) dio" where
  "removeFileEntry fo fileId localPath =
     io_then
       (io_catch (fo_deleteFile fo localPath)
         (\<lambda>_. emit_log LDebug ''File already deleted during eviction'' ''file-storage''
                [(''fileId'', JStr fileId)]))
       (deleteEntry fileId)"

fun evict_loop ::
  "('x download_env_scheme) file_operations \<Rightarrow> int \<Rightarrow> int \<Rightarrow> cache_record list \<Rightarrow> ('x, unit) dio" where
  "evict_loop fo maxSize totalSize [] = io_return ()"
| "evict_loop fo maxSize totalSize (c # cs) =
     (if totalSize \<le> maxSize then io_return ()
      else io_then (removeFileEntry fo (cf_file_id c) (cf_local_path c))
             (io_then (emit_log LDebug ''Evicted cached file'' ''file-storage''
                         [(''fileId'', JStr (cf_file_id c))])
               (evict_loop fo maxSize (totalSize - cf_file_size c) cs)))"

definition evictIfNeeded ::
  "('x download_env_scheme) file_operations \<Rightarrow> int option \<Rightarrow> ('x, unit) dio" where
  "evictIfNeeded fo maxCacheSizeBytes =
     (case maxCacheSizeBytes of
        None \<Rightarrow> io_return ()
      | Some maxSize \<Rightarrow>
          if maxSize = 0 then io_return ()
          else io_bind getTotalSize (\<lambda>totalSize.
            if totalSize \<le> maxSize then io_return ()
            else io_bind (getEvictionCandidates 20) (evict_loop fo maxSize totalSize)))"

definition removeFile ::
  "('x download_env_scheme) file_operations \<Rightarrow> string \<Rightarrow> ('x, unit) dio" where
  "removeFile fo fileId =
     io_bind (getEntry fileId) (\<lambda>entry.
       case entry of None \<Rightarrow> io_return () | Some e \<Rightarrow> removeFileEntry fo fileId (cf_local_path e))"

subsection \<open>Eviction\<close>

text \<open>Deleting a file does not touch the table of the cache, whether or not it succeeds.\<close>

definition deletes_files_only :: "('x download_env_scheme) file_operations \<Rightarrow> bool" where
  "deletes_files_only fo = (\<forall>path s. de_cache (snd (fo_deleteFile fo path s)) = de_cache s)"

definition without :: "cache_record list \<Rightarrow> cache_record list \<Rightarrow> cache_record list" where
  "without gone rows = filter (\<lambda>r. cf_file_id r \<notin> cf_file_id ` set gone) rows"

lemma removeFileEntry_cache:
  assumes "deletes_files_only fo"
  shows "fst (removeFileEntry fo f p s) = Inr () \<and>
    de_cache (snd (removeFileEntry fo f p s)) = filter (\<lambda>r. cf_file_id r \<noteq> f) (de_cache s)"
proof -
  obtain r t where "fo_deleteFile fo p s = (r, t)" "de_cache t = de_cache s"
    using assms unfolding deletes_files_only_def by (metis prod.collapse)
  then show ?thesis
    by (cases r) (simp_all add: removeFileEntry_def io_simps deleteEntry_def)
qed

lemma evict_loop_cache:
  assumes fo: "deletes_files_only fo"
  shows "\<exists>k \<le> length cs. de_cache (snd (evict_loop fo maxSize t cs s)) = without (take k cs) (de_cache s) \<and>
    (t - total_size (take k cs) \<le> maxSize \<or> k = length cs) \<and>
    (\<forall>j < k. maxSize < t - total_size (take j cs))"
proof (induction cs arbitrary: t s)
  case Nil
  then show ?case by (simp add: io_simps without_def)
next
  case (Cons c cs)
  show ?case
  proof (cases "t \<le> maxSize")
    case True
    then show ?thesis by (intro exI [of _ 0]) (simp add: io_simps without_def total_size_def)
  next
    case False
    obtain s1 where s1: "removeFileEntry fo (cf_file_id c) (cf_local_path c) s = (Inr (), s1)"
      "de_cache s1 = filter (\<lambda>r. cf_file_id r \<noteq> cf_file_id c) (de_cache s)"
      using removeFileEntry_cache [OF fo] by (metis prod.collapse)
    define s2 where "s2 = snd (emit_log LDebug ''Evicted cached file'' ''file-storage''
        [(''fileId'', JStr (cf_file_id c))] s1 :: (js_error + unit) \<times> _)"
    have step: "snd (evict_loop fo maxSize t (c # cs) s) = snd (evict_loop fo maxSize (t - cf_file_size c) cs s2)"
      using False s1(1) by (simp add: io_then_simp emit_log_simp s2_def)
    have "de_cache s2 = de_cache s1" by (simp add: s2_def emit_log_simp)
    with Cons.IH [of "t - cf_file_size c" s2] obtain k where k: "k \<le> length cs"
      "de_cache (snd (evict_loop fo maxSize (t - cf_file_size c) cs s2)) = without (take k cs) (de_cache s1)"
      "t - cf_file_size c - total_size (take k cs) \<le> maxSize \<or> k = length cs"
      "\<forall>j < k. maxSize < t - cf_file_size c - total_size (take j cs)" by auto
    have w: "without (take k cs) (de_cache s1) = without (take (Suc k) (c # cs)) (de_cache s)"
      by (simp add: without_def s1(2) conj_commute)
    have "maxSize < t - total_size (take j (c # cs))" if "j < Suc k" for j
      using that k(4) False by (cases j) (auto simp: total_size_def algebra_simps)
    with k w step show ?thesis
      by (intro exI [of _ "Suc k"]) (simp add: total_size_def algebra_simps)
  qed
qed

lemma total_without:
  assumes "distinct (map cf_file_id rows)" "distinct gone" "set gone \<subseteq> set rows"
  shows "total_size (without gone rows) = total_size rows - total_size gone"
proof -
  have inj: "inj_on cf_file_id (set rows)" and d: "distinct rows"
    using assms(1) by (auto simp: distinct_map)
  have "without gone rows = filter (\<lambda>r. r \<notin> set gone) rows"
    unfolding without_def using inj assms(3)
    by (intro filter_cong refl) (auto dest: inj_onD)
  moreover have "total_size (filter (\<lambda>r. r \<notin> set gone) rows) = sum cf_file_size (set rows - set gone)"
    using d by (simp add: total_size_def sum_list_distinct_conv_sum_set set_diff_eq Collect_conj_eq)
  moreover have "total_size rows = sum cf_file_size (set rows)" "total_size gone = sum cf_file_size (set gone)"
    using d assms(2) by (simp_all add: total_size_def sum_list_distinct_conv_sum_set)
  ultimately show ?thesis using assms(3) by (simp add: sum_diff)
qed

text \<open>
  The cache gives up the files used longest ago, and no more of them than it must. With a limit,
  \<^verbatim>\<open>evictIfNeeded\<close> removes the first \<open>k\<close> entries in the order of their last access; then the
  cache fits its limit, or twenty entries (all, if it has fewer) are gone; and before each of the
  removals it did not fit.
\<close>

theorem eviction_removes_the_oldest:
  assumes "deletes_files_only fo" and "distinct (map cf_file_id (de_cache s))" and "0 < maxSize"
  shows "(let oldest = sort_key cf_last_accessed_at (de_cache s);
              t = snd (evictIfNeeded fo (Some maxSize) s) in
    \<exists>k \<le> 20. de_cache t = without (take k oldest) (de_cache s) \<and>
      (total_size (de_cache t) \<le> maxSize \<or> k = min 20 (length oldest)) \<and>
      (\<forall>j < k. maxSize < total_size (without (take j oldest) (de_cache s))))"
proof -
  let ?old = "sort_key cf_last_accessed_at (de_cache s)"
  let ?t = "snd (evictIfNeeded fo (Some maxSize) s)"
  have dist: "distinct ?old" "set ?old = set (de_cache s)"
    using assms(2) by (simp_all add: distinct_map)
  have tot: "total_size (without (take k ?old) (de_cache s)) = total_size (de_cache s) - total_size (take k ?old)"
    for k
    using total_without [OF assms(2), of "take k ?old"] dist set_take_subset [of k ?old]
    by (simp add: distinct_take)
  show ?thesis
  proof (cases "total_size (de_cache s) \<le> maxSize")
    case True
    then show ?thesis
      using assms(3) by (intro exI [of _ 0] | simp add: Let_def evictIfNeeded_def io_simps getTotalSize_def
          without_def)+
  next
    case False
    have t: "?t = snd (evict_loop fo maxSize (total_size (de_cache s)) (take 20 ?old) s)"
      using False assms(3) by (simp add: evictIfNeeded_def io_simps getTotalSize_def getEvictionCandidates_def)
    obtain k where k: "k \<le> length (take 20 ?old)"
      "de_cache ?t = without (take k (take 20 ?old)) (de_cache s)"
      "total_size (de_cache s) - total_size (take k (take 20 ?old)) \<le> maxSize \<or> k = length (take 20 ?old)"
      "\<forall>j < k. maxSize < total_size (de_cache s) - total_size (take j (take 20 ?old))"
      using evict_loop_cache [OF assms(1), of "take 20 ?old" maxSize "total_size (de_cache s)" s]
      unfolding t by blast
    have k20: "k \<le> 20" using k(1) by simp
    then have tk: "take j (take 20 ?old) = take j ?old" if "j \<le> k" for j
      using that by (simp add: min_absorb1)
    show ?thesis
      unfolding Let_def
      using k k20 tot tk by (intro exI [of _ k]) (auto simp: min.commute)
  qed
qed

definition plain_file_ops :: "'x download_env_scheme file_operations" where
  "plain_file_ops =
     \<lparr>fo_exists = (\<lambda>_. io_return True), fo_deleteFile = (\<lambda>_. io_return ()),
      fo_getFileSize = (\<lambda>_. io_return 10), fo_moveFile = (\<lambda>_ _. io_return ()),
      fo_downloadToFile = (\<lambda>_ _ _ _. io_return ())\<rparr>"

definition sample_cached :: "string \<Rightarrow> int \<Rightarrow> cache_record" where
  "sample_cached f t =
     \<lparr>cf_file_id = f, cf_local_path = f, cf_file_size = 10, cf_created_at = 0, cf_last_accessed_at = t\<rparr>"

definition sample_download_env :: download_env where
  "sample_download_env =
     \<lparr>env_now = 9, env_log = [], cr_controllers = [], cr_aborted = [], cr_next = 0, de_queue = [],
      de_cache = [sample_cached ''a'' 5, sample_cached ''b'' 2, sample_cached ''c'' 7], de_progress = []\<rparr>"

theorem eviction_removes_the_oldest_witness:
  "\<exists>k \<le> 20. de_cache (snd (evictIfNeeded plain_file_ops (Some 20) sample_download_env))
     = without (take k [sample_cached ''b'' 2, sample_cached ''a'' 5, sample_cached ''c'' 7])
         (de_cache sample_download_env)"
proof -
  have f: "deletes_files_only plain_file_ops"
    by (simp add: deletes_files_only_def plain_file_ops_def io_simps)
  have d: "distinct (map cf_file_id (de_cache sample_download_env))"
    by (simp add: sample_download_env_def sample_cached_def)
  have o: "sort_key cf_last_accessed_at (de_cache sample_download_env) =
      [sample_cached ''b'' 2, sample_cached ''a'' 5, sample_cached ''c'' 7]"
    by (simp add: sample_download_env_def sample_cached_def)
  from eviction_removes_the_oldest [OF f d, of 20] show ?thesis unfolding o Let_def by auto
qed

end
