(* ===== verification/FileDownload.thy ===== *)
theory FileDownload
  imports DownloadStore UrlSafety
begin

text \<open>
  \<^verbatim>\<open>packages/file-storage/src\<close>: downloading a file from the CDN with TON storage as the
  fallback (\<^verbatim>\<open>download-file.ts\<close>, \<^verbatim>\<open>download-from-cdn.ts\<close>, \<^verbatim>\<open>download-from-ton.ts\<close>,
  \<^verbatim>\<open>resolve-file.ts\<close>), retrying and cancelling downloads.

  The HTTP client, the TON client, the file operations and the timer are parameters over the same
  state as the downloads. Such a call is where the code waits, so what it does to the state
  includes whatever other code does meanwhile, such as \<open>cancelDownload\<close>. Polling a TON bag may
  never end: \<open>fuel\<close> bounds the number of polls, and a result \<open>None\<close> is a download that is still
  polling. The map of downloads in flight, by which a second call for a file joins the first, is
  the \<open>inFlight\<close> argument of \<open>downloadFile\<close>.
\<close>

record bag_details =
  bd_downloadedSize :: int
  bd_isComplete :: bool

record 's download_deps =
  fd_httpGet :: "string \<Rightarrow> ('s, js_error, file_resolution) io"
  fd_apiBaseUrl :: string
  fd_addBag :: "string \<Rightarrow> string \<Rightarrow> int list \<Rightarrow> ('s, js_error, unit) io"
  fd_getBagDetails :: "string \<Rightarrow> ('s, js_error, bag_details) io"
  fd_getFilePath :: "string \<Rightarrow> int \<Rightarrow> string"
  fd_wait :: "int \<Rightarrow> ('s, js_error, unit) io"
  fd_fileOperations :: "'s file_operations"
  fd_cacheDirectoryPath :: string
  fd_maxCacheSizeBytes :: "int option"
  fd_protocol :: "string \<Rightarrow> string option"

record 's download_context =
  dx_deps :: "'s download_deps"
  dx_downloadId :: string
  dx_fileId :: string
  dx_signal :: nat
  dx_hasProgress :: bool

type_synonym 'x dcontext = "('x download_env_scheme) download_context"

text \<open>A computation that may still be running when the fuel is spent.\<close>

definition io_bind_opt ::
  "('s, 'e, 'a option) io \<Rightarrow> ('a \<Rightarrow> ('s, 'e, 'b option) io) \<Rightarrow> ('s, 'e, 'b option) io" where
  "io_bind_opt m f = io_bind m (\<lambda>r. case r of None \<Rightarrow> io_return None | Some a \<Rightarrow> f a)"

definition resolveFile ::
  "('x download_env_scheme) download_deps \<Rightarrow> string \<Rightarrow> ('x, file_resolution) dio" where
  "resolveFile deps fileId =
     fd_httpGet deps (fd_apiBaseUrl deps @ ''/files/'' @ encodeURIComponent fileId @ ''/resolve'')"

definition emit_progress :: "bool \<Rightarrow> download_progress \<Rightarrow> ('x, unit) dio" where
  "emit_progress hasProgress p =
     io_modify (\<lambda>s. if hasProgress then s\<lparr>de_progress := de_progress s @ [p]\<rparr> else s)"

definition emitProgress ::
  "'x dcontext \<Rightarrow> download_status \<Rightarrow> int \<Rightarrow> int \<Rightarrow> ('x, unit) dio" where
  "emitProgress cx st bytes ttl =
     emit_progress (dx_hasProgress cx)
       \<lparr>dp_downloadId = dx_downloadId cx, dp_fileId = dx_fileId cx, dp_status = st,
        dp_bytesDownloaded = bytes, dp_totalBytes = ttl\<rparr>"

definition cancelled_error :: js_error where
  "cancelled_error = JsErr (Some ''Download cancelled'')"

definition throw_if_aborted :: "nat \<Rightarrow> ('x, unit) dio" where
  "throw_if_aborted signal = (\<lambda>s. if aborted signal s then (Inl cancelled_error, s) else (Inr (), s))"

section \<open>The two sources\<close>

definition downloadFromCdn :: "'x dcontext \<Rightarrow> string \<Rightarrow> string \<Rightarrow> ('x, unit) dio" where
  "downloadFromCdn cx url destinationPath =
     io_then (throw_if_aborted (dx_signal cx))
     (io_then (io_sum (validateCdnUrl (fd_protocol (dx_deps cx)) url))
     (io_then (emit_log LInfo ''Starting CDN download'' ''file-storage'' [(''fileId'', JStr (dx_fileId cx))])
     (io_then (fo_downloadToFile (fd_fileOperations (dx_deps cx)) url destinationPath None
                 (Some (dx_signal cx)))
       (emit_log LInfo ''CDN download complete'' ''file-storage'' [(''fileId'', JStr (dx_fileId cx))]))))"

definition POLL_INTERVAL_MS :: int where
  "POLL_INTERVAL_MS = 2000"

fun pollBagUntilComplete ::
  "nat \<Rightarrow> 'x dcontext \<Rightarrow> string \<Rightarrow> int \<Rightarrow> ('x, unit option) dio" where
  "pollBagUntilComplete 0 cx bagId ttl = io_return None"
| "pollBagUntilComplete (Suc fuel) cx bagId ttl =
     io_then (throw_if_aborted (dx_signal cx))
     (io_bind (fd_getBagDetails (dx_deps cx) bagId) (\<lambda>details.
        io_then (emitProgress cx DDownloadingTon (bd_downloadedSize details) ttl)
          (if bd_isComplete details then io_return (Some ())
           else io_then (fd_wait (dx_deps cx) POLL_INTERVAL_MS)
                  (pollBagUntilComplete fuel cx bagId ttl))))"

definition downloadFromTon ::
  "nat \<Rightarrow> 'x dcontext \<Rightarrow> string \<Rightarrow> int \<Rightarrow> string \<Rightarrow> int \<Rightarrow> ('x, unit option) dio" where
  "downloadFromTon fuel cx bagId fileIndex destinationPath ttl =
     io_then (throw_if_aborted (dx_signal cx))
     (io_then (emit_log LInfo ''Starting TON bag download'' ''file-storage''
                 [(''fileId'', JStr (dx_fileId cx)), (''bagId'', JStr bagId)])
     (io_then (fd_addBag (dx_deps cx) bagId (fd_cacheDirectoryPath (dx_deps cx)) [fileIndex])
     (io_bind_opt (pollBagUntilComplete fuel cx bagId ttl) (\<lambda>_.
        io_then (fo_moveFile (fd_fileOperations (dx_deps cx))
                   (fd_getFilePath (dx_deps cx) bagId fileIndex) destinationPath)
        (io_then (emit_log LInfo ''TON download complete'' ''file-storage''
                    [(''fileId'', JStr (dx_fileId cx))])
          (io_return (Some ())))))))"

section \<open>A new download\<close>

definition attemptCdnDownload ::
  "'x dcontext \<Rightarrow> file_resolution \<Rightarrow> string \<Rightarrow> string \<Rightarrow> ('x, bool) dio" where
  "attemptCdnDownload cx resolution url localPath =
     io_catch
       (io_then (updateStatus (dx_downloadId cx) DDownloadingCdn)
       (io_then (emitProgress cx DDownloadingCdn 0 (fr_fileSize resolution))
       (io_then (downloadFromCdn cx url localPath) (io_return True))))
       (\<lambda>error. io_then (emit_log LWarning ''CDN download failed, trying TON fallback'' ''file-storage''
                           [(''fileId'', JStr (dx_fileId cx)),
                            (''error'', jstr_opt (err_message error))])
                  (io_return False))"

definition attemptTonDownload ::
  "nat \<Rightarrow> 'x dcontext \<Rightarrow> file_resolution \<Rightarrow> string \<Rightarrow> int \<Rightarrow> string \<Rightarrow> ('x, unit option) dio" where
  "attemptTonDownload fuel cx resolution bagId fileIndex localPath =
     io_then (updateStatus (dx_downloadId cx) DDownloadingTon)
     (io_then (emitProgress cx DDownloadingTon 0 (fr_fileSize resolution))
       (downloadFromTon fuel cx bagId fileIndex localPath (fr_fileSize resolution)))"

definition attemptDownload ::
  "nat \<Rightarrow> 'x dcontext \<Rightarrow> file_resolution \<Rightarrow> string \<Rightarrow> ('x, bool option) dio" where
  "attemptDownload fuel cx resolution localPath =
     io_bind
       (case fr_cdnUrl resolution of
          None \<Rightarrow> io_return False
        | Some url \<Rightarrow> if url = [] then io_return False
                      else attemptCdnDownload cx resolution url localPath)
       (\<lambda>cdnSuccess.
          if cdnSuccess then io_return (Some True)
          else
            (case (fr_tonBagId resolution, fr_tonFileIndex resolution) of
               (Some bagId, Some fileIndex) \<Rightarrow>
                 io_bind_opt (attemptTonDownload fuel cx resolution bagId fileIndex localPath)
                   (\<lambda>_. io_return (Some True))
             | _ \<Rightarrow> io_return (Some (fr_cdnUrl resolution \<noteq> None))))"

definition completeDownload ::
  "'x dcontext \<Rightarrow> string \<Rightarrow> int \<Rightarrow> ('x, download_result option) dio" where
  "completeDownload cx localPath fileSize =
     io_then (updateCompletion (dx_downloadId cx) localPath)
     (io_then (registerFile (fd_fileOperations (dx_deps cx)) (dx_fileId cx) localPath)
     (io_then (evictIfNeeded (fd_fileOperations (dx_deps cx)) (fd_maxCacheSizeBytes (dx_deps cx)))
     (io_then (emitProgress cx DCompleted fileSize fileSize)
     (io_then (emit_log LInfo ''File download complete'' ''file-storage''
                 [(''fileId'', JStr (dx_fileId cx))])
       (io_return (Some \<lparr>dr_fileId = dx_fileId cx, dr_localPath = localPath,
                         dr_fileSize = fileSize\<rparr>))))))"

definition resolveAndDownload :: "nat \<Rightarrow> 'x dcontext \<Rightarrow> ('x, download_result option) dio" where
  "resolveAndDownload fuel cx =
     io_then (updateStatus (dx_downloadId cx) DResolving)
     (io_then (emitProgress cx DResolving 0 0)
     (io_bind (resolveFile (dx_deps cx) (dx_fileId cx)) (\<lambda>resolution.
      io_then (updateResolution (dx_downloadId cx) resolution)
      (io_bind (io_sum (buildCachePath (fd_cacheDirectoryPath (dx_deps cx)) (dx_fileId cx))) (\<lambda>localPath.
       io_bind_opt (attemptDownload fuel cx resolution localPath) (\<lambda>downloaded.
         if \<not> downloaded
         then io_throw (JsErr (Some (''No download source available for file '' @ dx_fileId cx)))
         else completeDownload cx localPath (fr_fileSize resolution)))))))"

definition handleDownloadError :: "'x dcontext \<Rightarrow> js_error \<Rightarrow> ('x, unit) dio" where
  "handleDownloadError cx error =
     io_bind (io_gets (aborted (dx_signal cx))) (\<lambda>isCancelled.
     io_bind (updateStatusIfNotTerminal (dx_downloadId cx)
                (if isCancelled then DCancelled else DFailed)) (\<lambda>wasUpdated.
     io_then (if \<not> isCancelled \<and> wasUpdated
              then updateFailure (dx_downloadId cx) (js_message error) else io_return ())
       (emit_log LError ''File download failed'' ''file-storage''
          [(''fileId'', JStr (dx_fileId cx)), (''error'', JStr (js_message error))])))"

definition new_record :: "string \<Rightarrow> string \<Rightarrow> int \<Rightarrow> download_record" where
  "new_record downloadId fileId now =
     \<lparr>dq_download_id = downloadId, dq_file_id = fileId, dq_status = DQueued, dq_local_path = None,
      dq_cdn_url = None, dq_ton_bag_id = None, dq_ton_file_index = None, dq_file_size = 0,
      dq_bytes_downloaded = 0, dq_error_message = None, dq_retry_count = 0, dq_created_at = now,
      dq_updated_at = now\<rparr>"

definition register_download :: "string \<Rightarrow> ('x, nat) dio" where
  "register_download downloadId = (\<lambda>s. (Inr (fst (registry_register downloadId s)),
     snd (registry_register downloadId s)))"

text \<open>
  The \<^verbatim>\<open>try\<close> of \<^verbatim>\<open>executeNewDownload\<close>: a download that is still polling has reached neither
  the \<^verbatim>\<open>catch\<close> nor the \<^verbatim>\<open>finally\<close>.
\<close>

definition run_download :: "nat \<Rightarrow> 'x dcontext \<Rightarrow> ('x, download_result option) dio" where
  "run_download fuel cx = (\<lambda>s.
     case resolveAndDownload fuel cx s of
       (Inr None, t) \<Rightarrow> (Inr None, t)
     | (Inr (Some r), t) \<Rightarrow> (Inr (Some r), registry_remove (dx_downloadId cx) t)
     | (Inl e, t) \<Rightarrow>
         (case handleDownloadError cx e t of
            (Inl e', u) \<Rightarrow> (Inl e', registry_remove (dx_downloadId cx) u)
          | (Inr _, u) \<Rightarrow> (Inl e, registry_remove (dx_downloadId cx) u)))"

definition executeNewDownload ::
  "nat \<Rightarrow> ('x download_env_scheme) download_deps \<Rightarrow> string \<Rightarrow> string \<Rightarrow> bool \<Rightarrow>
   ('x, download_result option) dio" where
  "executeNewDownload fuel deps downloadId fileId hasProgress =
     io_bind (register_download downloadId) (\<lambda>signal.
     io_bind (io_gets env_now) (\<lambda>now.
     io_then (insertItem (new_record downloadId fileId now))
       (run_download fuel
          \<lparr>dx_deps = deps, dx_downloadId = downloadId, dx_fileId = fileId, dx_signal = signal,
           dx_hasProgress = hasProgress\<rparr>)))"

definition checkCache ::
  "('x download_env_scheme) download_deps \<Rightarrow> string \<Rightarrow> ('x, download_result option) dio" where
  "checkCache deps fileId =
     io_bind (getCachedPath (fd_fileOperations deps) fileId) (\<lambda>cachedPath.
       case cachedPath of
         None \<Rightarrow> io_return None
       | Some path \<Rightarrow>
           if path = [] then io_return None
           else io_bind (fo_getFileSize (fd_fileOperations deps) path) (\<lambda>fileSize.
             io_return (Some \<lparr>dr_fileId = fileId, dr_localPath = path, dr_fileSize = fileSize\<rparr>)))"

text \<open>\<open>inFlight\<close> is the promise that the map holds for the file, if it holds one.\<close>

definition downloadFile ::
  "nat \<Rightarrow> ('x download_env_scheme) download_deps \<Rightarrow> string \<Rightarrow>
   ('x, download_result option) dio option \<Rightarrow> string \<Rightarrow> bool \<Rightarrow> ('x, download_result option) dio" where
  "downloadFile fuel deps downloadId inFlight fileId hasProgress =
     io_then (io_sum (validateFileId fileId))
     (io_bind (checkCache deps fileId) (\<lambda>cached.
        case cached of
          Some r \<Rightarrow> io_return (Some r)
        | None \<Rightarrow>
            (case inFlight of
               Some existing \<Rightarrow> existing
             | None \<Rightarrow> executeNewDownload fuel deps downloadId fileId hasProgress)))"

section \<open>Cancelling and inspecting\<close>

definition cancelDownload :: "string \<Rightarrow> ('x, bool) dio" where
  "cancelDownload downloadId = (\<lambda>s.
     let (wasCancelled, t) = registry_cancel downloadId s in
     if \<not> wasCancelled then (Inr False, t)
     else io_then (updateStatusIfNotTerminal downloadId DCancelled) (io_return True) t)"

definition mapRecordToProgress :: "download_record \<Rightarrow> download_progress" where
  "mapRecordToProgress r =
     \<lparr>dp_downloadId = dq_download_id r, dp_fileId = dq_file_id r, dp_status = dq_status r,
      dp_bytesDownloaded = dq_bytes_downloaded r, dp_totalBytes = dq_file_size r\<rparr>"

definition getDownloadQueue :: "('x, download_progress list) dio" where
  "getDownloadQueue = io_bind getAllItems (\<lambda>records. io_return (map mapRecordToProgress records))"

section \<open>Retrying\<close>

definition MAX_RETRIES :: nat where
  "MAX_RETRIES = 5"

definition RETRY_BASE_DELAY_MS :: real where
  "RETRY_BASE_DELAY_MS = 1000"

definition retry_backoff :: "nat \<Rightarrow> real \<Rightarrow> real" where
  "retry_backoff retryCount random =
     RETRY_BASE_DELAY_MS * 2 ^ retryCount + random * RETRY_BASE_DELAY_MS * (3 / 10)"

definition tryCdnRetry :: "'x dcontext \<Rightarrow> string \<Rightarrow> string \<Rightarrow> ('x, bool) dio" where
  "tryCdnRetry cx url localPath =
     io_catch (io_then (downloadFromCdn cx url localPath) (io_return True))
       (\<lambda>_. io_then (emit_log LWarning ''CDN retry failed, trying TON'' ''file-storage'' [])
              (io_return False))"

definition attemptRetryDownload ::
  "nat \<Rightarrow> 'x dcontext \<Rightarrow> file_resolution \<Rightarrow> string \<Rightarrow> ('x, bool option) dio" where
  "attemptRetryDownload fuel cx resolution localPath =
     io_bind
       (case fr_cdnUrl resolution of
          None \<Rightarrow> io_return False
        | Some url \<Rightarrow> if url = [] then io_return False else tryCdnRetry cx url localPath)
       (\<lambda>cdnSuccess.
          if cdnSuccess then io_return (Some True)
          else
            (case (fr_tonBagId resolution, fr_tonFileIndex resolution) of
               (Some bagId, Some fileIndex) \<Rightarrow>
                 if bagId = [] then io_return (Some False)
                 else io_bind_opt (downloadFromTon fuel cx bagId fileIndex localPath
                                     (fr_fileSize resolution))
                        (\<lambda>_. io_return (Some True))
             | _ \<Rightarrow> io_return (Some False)))"

definition retry_body ::
  "nat \<Rightarrow> 'x dcontext \<Rightarrow> ('x, download_result option) dio" where
  "retry_body fuel cx =
     io_bind (resolveFile (dx_deps cx) (dx_fileId cx)) (\<lambda>resolution.
     io_then (updateResolution (dx_downloadId cx) resolution)
     (io_bind (io_sum (buildCachePath (fd_cacheDirectoryPath (dx_deps cx)) (dx_fileId cx))) (\<lambda>localPath.
      io_bind_opt (attemptRetryDownload fuel cx resolution localPath) (\<lambda>downloaded.
        if \<not> downloaded
        then io_throw (JsErr (Some (''No download source for '' @ dx_fileId cx)))
        else io_then (updateCompletion (dx_downloadId cx) localPath)
             (io_then (registerFile (fd_fileOperations (dx_deps cx)) (dx_fileId cx) localPath)
               (io_return (Some \<lparr>dr_fileId = dx_fileId cx, dr_localPath = localPath,
                                 dr_fileSize = fr_fileSize resolution\<rparr>)))))))"

definition executeRetry ::
  "nat \<Rightarrow> ('x download_env_scheme) download_deps \<Rightarrow> download_record \<Rightarrow>
   ('x, download_result option) dio" where
  "executeRetry fuel deps item =
     io_bind (register_download (dq_download_id item)) (\<lambda>signal s.
       case retry_body fuel \<lparr>dx_deps = deps, dx_downloadId = dq_download_id item,
              dx_fileId = dq_file_id item, dx_signal = signal, dx_hasProgress = False\<rparr> s of
         (Inr None, t) \<Rightarrow> (Inr None, t)
       | (r, t) \<Rightarrow> (r, registry_remove (dq_download_id item) t))"

text \<open>\<open>Some None\<close> is a retry that failed, \<open>None\<close> one that is still polling.\<close>

definition retryItem ::
  "nat \<Rightarrow> ('x download_env_scheme) download_deps \<Rightarrow> download_record \<Rightarrow>
   ('x, download_result option option) dio" where
  "retryItem fuel deps item =
     io_catch
       (io_bind (executeRetry fuel deps item) (\<lambda>r. io_return (map_option Some r)))
       (\<lambda>error. io_then (updateFailure (dq_download_id item) (js_message error))
          (io_then (emit_log LError ''Download retry failed'' ''file-storage''
                      [(''downloadId'', JStr (dq_download_id item)),
                       (''error'', JStr (js_message error))])
            (io_return (Some None))))"

fun retry_loop ::
  "nat \<Rightarrow> ('x download_env_scheme) download_deps \<Rightarrow> (nat \<Rightarrow> real) \<Rightarrow> download_record list \<Rightarrow>
   ('x, download_result list option) dio" where
  "retry_loop fuel deps random [] = io_return (Some [])"
| "retry_loop fuel deps random (item # items) =
     (if dq_retry_count item \<ge> MAX_RETRIES then retry_loop fuel deps random items
      else io_then (fd_wait deps \<lceil>retry_backoff (dq_retry_count item) (random (length items))\<rceil>)
        (io_bind_opt (retryItem fuel deps item) (\<lambda>result.
           io_bind_opt (retry_loop fuel deps random items) (\<lambda>results.
             io_return (Some (case result of None \<Rightarrow> results | Some r \<Rightarrow> r # results))))))"

definition retryFailedDownloads ::
  "nat \<Rightarrow> ('x download_env_scheme) download_deps \<Rightarrow> (nat \<Rightarrow> real) \<Rightarrow>
   ('x, download_result list option) dio" where
  "retryFailedDownloads fuel deps random =
     io_bind (getItemsByStatus DFailed) (retry_loop fuel deps random)"

section \<open>How a download ends\<close>

text \<open>The row of a download is there; it is completed.\<close>

definition has_row :: "string \<Rightarrow> 'x download_env_scheme \<Rightarrow> bool" where
  "has_row did s = (row_of dq_download_id did (de_queue s) \<noteq> None)"

definition has_status :: "string \<Rightarrow> download_status set \<Rightarrow> 'x download_env_scheme \<Rightarrow> bool" where
  "has_status did sts s =
     (\<exists>r. row_of dq_download_id did (de_queue s) = Some r \<and> dq_status r \<in> sts)"

text \<open>
  What other code may do to the row of a download while the download waits: anything but delete
  it or leave a terminal status. \<open>cancelDownload\<close> is such code.
\<close>

definition respects_row :: "string \<Rightarrow> ('x, 'a) dio \<Rightarrow> bool" where
  "respects_row did m = (keeps (has_row did) m \<and> keeps (has_status did {DCompleted}) m \<and>
     keeps (has_status did {DCancelled}) m)"

definition deps_keep ::
  "('x download_env_scheme \<Rightarrow> bool) \<Rightarrow> ('x download_env_scheme) download_deps \<Rightarrow> bool" where
  "deps_keep P deps =
     ((\<forall>u. keeps P (fd_httpGet deps u)) \<and>
      (\<forall>b p f. keeps P (fd_addBag deps b p f)) \<and>
      (\<forall>b. keeps P (fd_getBagDetails deps b)) \<and>
      (\<forall>ms. keeps P (fd_wait deps ms)) \<and>
      (\<forall>p. keeps P (fo_exists (fd_fileOperations deps) p)) \<and>
      (\<forall>p. keeps P (fo_deleteFile (fd_fileOperations deps) p)) \<and>
      (\<forall>p. keeps P (fo_getFileSize (fd_fileOperations deps) p)) \<and>
      (\<forall>p q. keeps P (fo_moveFile (fd_fileOperations deps) p q)) \<and>
      (\<forall>u p h g. keeps P (fo_downloadToFile (fd_fileOperations deps) u p h g)))"

definition deps_respect :: "string \<Rightarrow> ('x download_env_scheme) download_deps \<Rightarrow> bool" where
  "deps_respect did deps =
     (deps_keep (has_row did) deps \<and> deps_keep (has_status did {DCompleted}) deps \<and>
      deps_keep (has_status did {DCancelled}) deps)"

lemma deps_keepD:
  assumes "deps_keep P deps"
  shows "keeps P (fd_httpGet deps u)" "keeps P (fd_addBag deps b p f)"
    "keeps P (fd_getBagDetails deps b)" "keeps P (fd_wait deps ms)"
    "keeps P (fo_exists (fd_fileOperations deps) p)"
    "keeps P (fo_deleteFile (fd_fileOperations deps) p)"
    "keeps P (fo_getFileSize (fd_fileOperations deps) p)"
    "keeps P (fo_moveFile (fd_fileOperations deps) p q)"
    "keeps P (fo_downloadToFile (fd_fileOperations deps) u p h g)"
  using assms by (simp_all add: deps_keep_def)

lemma deps_respectD:
  assumes "deps_respect did deps"
  shows "deps_keep (has_row did) deps" "deps_keep (has_status did {DCompleted}) deps"
    "deps_keep (has_status did {DCancelled}) deps"
  using assms by (simp_all add: deps_respect_def)

lemma row_of_keys_eq:
  "map dq_download_id rows' = map dq_download_id rows \<Longrightarrow>
   (row_of dq_download_id did rows' = None) = (row_of dq_download_id did rows = None)"
  unfolding row_of_None by (metis list.set_map)

lemma keeps_row_on_queue:
  assumes "\<And>now rows. map dq_download_id (f now rows) = map dq_download_id rows"
  shows "keeps (has_row did) (on_queue f)"
  unfolding on_queue_def
  by (intro keeps_modify) (simp add: has_row_def row_of_keys_eq [OF assms])

lemma keeps_row_statements [keeps_intros]:
  "keeps (has_row did) (updateStatus k st)"
  "keeps (has_row did) (updateResolution k d)"
  "keeps (has_row did) (updateCompletion k p)"
  "keeps (has_row did) (updateFailure k m)"
  "keeps (has_row did) (updateStatusIfNotTerminal k st)"
proof -
  show "keeps (has_row did) (updateStatus k st)"
    unfolding updateStatus_def by (intro keeps_row_on_queue downloads.set_keys)
  show "keeps (has_row did) (updateStatusIfNotTerminal k st)"
    unfolding updateStatusIfNotTerminal_def getItem_def
    by (intro keeps_intros keeps_row_on_queue downloads.if_keys)
qed (auto simp: updateResolution_def updateCompletion_def updateFailure_def keys_update
  intro!: keeps_row_on_queue)

lemma keeps_log [keeps_intros]:
  "keeps (has_row did) (emit_log lvl msg tag data)"
  "keeps (has_status did sts) (emit_log lvl msg tag data)"
  by (simp_all add: keeps_def emit_log_simp has_row_def has_status_def)

lemma keeps_progress [keeps_intros]:
  "keeps (has_row did) (emit_progress b p)" "keeps (has_status did sts) (emit_progress b p)"
  by (simp_all add: keeps_def emit_progress_def io_simps has_row_def has_status_def)

lemma keeps_cache_statements [keeps_intros]:
  "keeps (has_row did) (insertEntry r)" "keeps (has_status did sts) (insertEntry r)"
  "keeps (has_row did) (deleteEntry f)" "keeps (has_status did sts) (deleteEntry f)"
  by (simp_all add: keeps_def insertEntry_def deleteEntry_def io_simps has_row_def has_status_def)

lemma keeps_bind_opt [keeps_intros]:
  assumes "keeps P m" "\<And>a. keeps P (f a)"
  shows "keeps P (io_bind_opt m f)"
  unfolding io_bind_opt_def by (intro keeps_intros assms)

lemma keeps_throw_if_aborted [keeps_intros]: "keeps P (throw_if_aborted signal)"
  by (simp add: keeps_def throw_if_aborted_def)

lemma keeps_evict_loop:
  assumes d: "\<And>p. keeps P (fo_deleteFile fo p)" and e: "\<And>f. keeps P (deleteEntry f)"
    and l: "\<And>lvl msg tag data. keeps P (emit_log lvl msg tag data :: ('x, unit) dio)"
  shows "keeps P (evict_loop fo m t cs)"
proof (induction cs arbitrary: t)
  case (Cons c cs)
  show ?case
    unfolding evict_loop.simps removeFileEntry_def by (intro keeps_intros d e l Cons.IH)
qed (simp add: keeps_return)

text \<open>What every awaited call and every statement keeps, the download keeps.\<close>

definition statements_keep :: "('x download_env_scheme \<Rightarrow> bool) \<Rightarrow> bool" where
  "statements_keep P =
     ((\<forall>f. keeps P (deleteEntry f)) \<and> (\<forall>r. keeps P (insertEntry r)) \<and>
      (\<forall>lvl msg tag data. keeps P (emit_log lvl msg tag data :: ('x, unit) dio)) \<and>
      (\<forall>b p. keeps P (emit_progress b p)))"

lemma statements_keep [simp]: "statements_keep (has_row did)" "statements_keep (has_status did sts)"
  by (simp_all add: statements_keep_def keeps_intros)

lemma keeps_statements:
  assumes "statements_keep P"
  shows "keeps P (deleteEntry f)" "keeps P (insertEntry r)"
    "keeps P (emit_log lvl msg tag data :: ('x, unit) dio)" "keeps P (emit_progress b p)"
  using assms by (simp_all add: statements_keep_def)

lemma keeps_registration:
  fixes P :: "'x download_env_scheme \<Rightarrow> bool"
  assumes d: "deps_keep P deps" and st: "statements_keep P"
  shows "keeps P (registerFile (fd_fileOperations deps) f p)"
    "keeps P (evictIfNeeded (fd_fileOperations deps) m)"
proof -
  have e: "keeps P (evict_loop (fd_fileOperations deps) m t cs)" for m t cs
    by (intro keeps_evict_loop deps_keepD [OF d] keeps_statements [OF st])
  show "keeps P (registerFile (fd_fileOperations deps) f p)"
    unfolding registerFile_def by (intro keeps_intros deps_keepD [OF d] keeps_statements [OF st])
  show "keeps P (evictIfNeeded (fd_fileOperations deps) m)"
    unfolding evictIfNeeded_def getTotalSize_def getEvictionCandidates_def
    by (intro keeps_intros e)
qed

text \<open>Whatever the outcome, the row of the download stays.\<close>

lemma keeps_poll:
  assumes d: "deps_keep (has_row did) (dx_deps cx)"
  shows "keeps (has_row did) (pollBagUntilComplete fuel cx bagId ttl)"
proof (induction fuel)
  case (Suc fuel)
  show ?case
    unfolding pollBagUntilComplete.simps emitProgress_def
    by (intro keeps_intros deps_keepD [OF d] Suc.IH)
qed (simp add: keeps_return)

lemma keeps_row_complete:
  assumes d: "deps_keep (has_row did) (dx_deps cx)"
  shows "keeps (has_row did) (completeDownload cx p n)"
  unfolding completeDownload_def emitProgress_def
  by (intro keeps_intros keeps_registration [OF d] statements_keep)

lemma keeps_row_attempt:
  assumes d: "deps_keep (has_row did) (dx_deps cx)"
  shows "keeps (has_row did) (attemptDownload fuel cx resolution p)"
proof -
  have cdn: "keeps (has_row did) (attemptCdnDownload cx resolution url p)" for url
    unfolding attemptCdnDownload_def downloadFromCdn_def emitProgress_def
    by (intro keeps_intros deps_keepD [OF d])
  have ton: "keeps (has_row did) (attemptTonDownload fuel cx resolution b i p)" for b i
    unfolding attemptTonDownload_def downloadFromTon_def emitProgress_def
    by (intro keeps_intros deps_keepD [OF d] keeps_poll [OF d])
  show ?thesis
    unfolding attemptDownload_def
    by (cases "fr_tonBagId resolution"; cases "fr_tonFileIndex resolution";
        simp only: prod.case option.case; intro keeps_intros cdn ton)
qed

lemma keeps_row_resolve:
  assumes d: "deps_keep (has_row did) (dx_deps cx)"
  shows "keeps (has_row did) (resolveAndDownload fuel cx)"
  unfolding resolveAndDownload_def resolveFile_def emitProgress_def
  by (intro keeps_intros deps_keepD [OF d] keeps_row_attempt [OF d] keeps_row_complete [OF d])

text \<open>A postcondition of the runs that return a value.\<close>

definition post :: "('s \<Rightarrow> bool) \<Rightarrow> ('s, 'e, 'a option) io \<Rightarrow> ('s \<Rightarrow> bool) \<Rightarrow> bool" where
  "post P m Q = (\<forall>s. P s \<longrightarrow> (case m s of (Inr (Some a), t) \<Rightarrow> Q t | _ \<Rightarrow> True))"

lemma post_bind: "keeps P m \<Longrightarrow> (\<And>a. post P (f a) Q) \<Longrightarrow> post P (io_bind m f) Q"
  unfolding post_def keeps_def io_bind_simp
  by (force split: prod.splits sum.splits option.splits)

lemma post_then: "keeps P m \<Longrightarrow> post P n Q \<Longrightarrow> post P (io_then m n) Q"
  by (simp add: io_then_def post_bind)

lemma post_bind_opt:
  assumes "keeps P m" "\<And>a. post P (f a) Q"
  shows "post P (io_bind_opt m f) Q"
  unfolding io_bind_opt_def
  by (rule post_bind [OF assms(1)]) (use assms(2) in \<open>auto simp: post_def io_simps split: option.splits\<close>)

lemma completion_completes:
  assumes "has_row did s"
  shows "has_status did {DCompleted} (snd (updateCompletion did p s))"
  using assms by (auto simp: has_row_def has_status_def updateCompletion_def on_queue_def io_simps
      row_of_update split: option.splits dest!: row_of_Some)

lemma complete_completes:
  assumes d: "deps_keep (has_status (dx_downloadId cx) {DCompleted}) (dx_deps cx)"
    and row: "has_row (dx_downloadId cx) s"
  shows "has_status (dx_downloadId cx) {DCompleted} (snd (completeDownload cx p n s))"
proof -
  let ?did = "dx_downloadId cx"
  have rest: "keeps (has_status ?did {DCompleted})
     (io_then (registerFile (fd_fileOperations (dx_deps cx)) (dx_fileId cx) p)
     (io_then (evictIfNeeded (fd_fileOperations (dx_deps cx)) (fd_maxCacheSizeBytes (dx_deps cx)))
     (io_then (emitProgress cx DCompleted n n)
     (io_then (emit_log LInfo ''File download complete'' ''file-storage'' [(''fileId'', JStr (dx_fileId cx))])
       (io_return (Some \<lparr>dr_fileId = dx_fileId cx, dr_localPath = p, dr_fileSize = n\<rparr>))))))"
    unfolding emitProgress_def by (intro keeps_intros keeps_registration [OF d] statements_keep)
  have "fst (updateCompletion ?did p s) = Inr ()" by (simp add: updateCompletion_def on_queue_def io_simps)
  note step = io_then_Inr [of "updateCompletion ?did p", OF this]
  show ?thesis
    unfolding completeDownload_def step by (rule keepsD [OF rest completion_completes [OF row]])
qed

lemma post_resolve:
  assumes d: "deps_respect (dx_downloadId cx) (dx_deps cx)"
  shows "post (has_row (dx_downloadId cx)) (resolveAndDownload fuel cx)
           (has_status (dx_downloadId cx) {DCompleted})"
proof -
  note row = deps_respectD(1) [OF d]
  have c: "post (has_row (dx_downloadId cx)) (completeDownload cx p n)
      (has_status (dx_downloadId cx) {DCompleted})" for p n
    unfolding post_def using complete_completes [OF deps_respectD(2) [OF d], of _ p n]
    by (force split: prod.splits sum.splits option.splits)
  have t: "post (has_row (dx_downloadId cx)) (if \<not> b then io_throw e else completeDownload cx p n)
      (has_status (dx_downloadId cx) {DCompleted})" for b e p n
    using c by (cases b) (simp_all add: post_def io_simps)
  show ?thesis
    unfolding resolveAndDownload_def resolveFile_def emitProgress_def
    by (intro post_then post_bind post_bind_opt t keeps_row_attempt [OF row] deps_keepD [OF row]
        keeps_intros)
qed

lemma handleDownloadError_settles:
  assumes "has_row (dx_downloadId cx) s"
  shows "fst (handleDownloadError cx e s) = Inr () \<and>
    has_status (dx_downloadId cx) {DCompleted, DFailed, DCancelled} (snd (handleDownloadError cx e s)) \<and>
    (has_status (dx_downloadId cx) {DCompleted} s \<longrightarrow>
     has_status (dx_downloadId cx) {DCompleted} (snd (handleDownloadError cx e s)))"
proof -
  obtain r where r: "row_of dq_download_id (dx_downloadId cx) (de_queue s) = Some r"
    using assms by (auto simp: has_row_def)
  then have k: "dq_download_id r = dx_downloadId cx" by (auto dest: row_of_Some)
  show ?thesis
    using r k
    by (cases "aborted (dx_signal cx) s"; cases "dq_status r")
      (simp_all add: handleDownloadError_def updateStatusIfNotTerminal_def on_queue_def getItem_def
        updateFailure_def io_simps has_status_def row_of_update set_download_status_if_def
        TERMINAL_STATUSES_def)
qed

lemma has_status_remove [simp]: "has_status did sts (registry_remove k s) = has_status did sts s"
  by (simp add: has_status_def registry_remove_def)

lemma has_status_weaken: "has_status did {st} s \<Longrightarrow> st \<in> sts \<Longrightarrow> has_status did sts s"
  by (auto simp: has_status_def)

lemma run_download_settles:
  assumes d: "deps_respect (dx_downloadId cx) (dx_deps cx)" and row: "has_row (dx_downloadId cx) s"
    and run: "run_download fuel cx s = (result, t)" and ended: "result \<noteq> Inr None"
  shows "has_status (dx_downloadId cx) {DCompleted, DFailed, DCancelled} t \<and>
    (\<forall>r. result = Inr (Some r) \<longrightarrow> has_status (dx_downloadId cx) {DCompleted} t) \<and>
    registry_getSignal (dx_downloadId cx) t = None"
proof -
  have gone: "registry_getSignal did (registry_remove did u) = None" for did and u :: "'a download_env_scheme"
    by (simp add: registry_getSignal_def registry_remove_def AList.delete_conv')
  obtain q u where q: "resolveAndDownload fuel cx s = (q, u)" by fastforce
  have u: "has_row (dx_downloadId cx) u" using keepsD [OF keeps_row_resolve [OF deps_respectD(1) [OF d]] row, of fuel] q by simp
  show ?thesis
  proof (cases q)
    case (Inl e)
    obtain p v where p: "handleDownloadError cx e u = (p, v)" by fastforce
    with handleDownloadError_settles [OF u, of e] have "p = Inr ()"
      "has_status (dx_downloadId cx) {DCompleted, DFailed, DCancelled} v" by simp_all
    with run q Inl p show ?thesis by (auto simp: run_download_def gone)
  next
    case (Inr o1)
    with run q ended obtain r where r: "o1 = Some r" by (cases o1) (auto simp: run_download_def)
    have "has_status (dx_downloadId cx) {DCompleted} u"
      using post_resolve [OF d, of fuel] row q Inr r by (auto simp: post_def)
    with run q Inr r show ?thesis by (auto simp: run_download_def gone intro: has_status_weaken)
  qed
qed


lemma cancelDownload_respects: "respects_row did (cancelDownload k)"
proof -
  have reg: "has_row did (snd (registry_cancel k s)) = has_row did s"
    "has_status did sts (snd (registry_cancel k s)) = has_status did sts s" for s :: "'a download_env_scheme" and sts
    by (simp_all add: registry_cancel_def has_row_def has_status_def split: option.splits)
  have final: "keeps (has_status did {st}) (updateStatusIfNotTerminal k DCancelled)"
    if "st \<in> set TERMINAL_STATUSES" for st
    using that
    by (auto simp: keeps_def updateStatusIfNotTerminal_def on_queue_def getItem_def io_simps
        has_status_def row_of_update set_download_status_if_def)
  have all: "keeps P (cancelDownload k)"
    if p: "\<And>s. P (snd (registry_cancel k s)) = P s" "keeps P (updateStatusIfNotTerminal k DCancelled)" for P
  proof
    fix s
    assume "P s"
    then have t: "P (snd (registry_cancel k s))" using p(1) by simp
    have "keeps P (io_then (updateStatusIfNotTerminal k DCancelled) (io_return True))"
      by (intro keeps_intros p(2))
    from keepsD [OF this t] t show "P (snd (cancelDownload k s))"
      by (auto simp: cancelDownload_def Let_def split: prod.splits)
  qed
  show ?thesis
    unfolding respects_row_def
    by (intro conjI all reg keeps_row_statements(5) final) (simp_all add: TERMINAL_STATUSES_def)
qed

section \<open>A failed CDN download that counts as complete\<close>

text \<open>A backend with a CDN URL and no bag, and a CDN that fails.\<close>

definition cdn_only :: "file_resolution \<Rightarrow> string \<Rightarrow> bool" where
  "cdn_only resolution url =
     (fr_cdnUrl resolution = Some url \<and> url \<noteq> [] \<and> fr_tonBagId resolution = None)"

definition cdn_down :: "('x download_env_scheme) download_deps \<Rightarrow> bool" where
  "cdn_down deps = (\<forall>u p h g s. isl (fst (fo_downloadToFile (fd_fileOperations deps) u p h g s)))"

lemma downloadFromCdn_fails:
  assumes "cdn_down (dx_deps cx)"
  shows "isl (fst (downloadFromCdn cx url p t))"
  using assms
  by (auto simp: cdn_down_def downloadFromCdn_def io_then_simp throw_if_aborted_def emit_log_simp io_sum_def
      io_simps(1,2) split: sum.splits prod.splits if_splits) (metis fst_conv isl_def sum.disc(2))+

lemma attempt_reports_success:
  assumes "cdn_down (dx_deps cx)" "cdn_only resolution url"
  shows "fst (attemptDownload fuel cx resolution p t) = Inr (Some True)"
proof -
  have "fst (attemptCdnDownload cx resolution url p t) = Inr False"
    using downloadFromCdn_fails [OF assms(1)]
    by (auto simp: attemptCdnDownload_def io_catch_simp io_then_simp updateStatus_def on_queue_def
        io_modify_simp emitProgress_def emit_progress_def emit_log_simp io_return_simp
        split: prod.splits sum.splits) (metis fst_conv sum.disc(2))+
  then show ?thesis using assms(2)
    by (cases "attemptCdnDownload cx resolution url p t")
      (simp add: cdn_only_def attemptDownload_def io_bind_simp io_return_simp)
qed

lemma retry_reports_failure:
  assumes "cdn_down (dx_deps cx)" "cdn_only resolution url"
  shows "fst (attemptRetryDownload fuel cx resolution p t) = Inr (Some False)"
proof -
  have "fst (tryCdnRetry cx url p t) = Inr False"
    using downloadFromCdn_fails [OF assms(1), of url p t]
    by (auto simp: tryCdnRetry_def io_catch_simp io_then_simp emit_log_simp io_return_simp
        split: prod.splits sum.splits)
  then show ?thesis using assms(2)
    by (cases "tryCdnRetry cx url p t") (simp add: cdn_only_def attemptRetryDownload_def io_bind_simp io_return_simp)
qed

text \<open>
  The download then comes to \<^verbatim>\<open>completeDownload\<close>, with the row still there.
\<close>

lemma resolve_comes_to_completion:
  assumes d: "deps_keep (has_row (dx_downloadId cx)) (dx_deps cx)" and row: "has_row (dx_downloadId cx) s"
    and res: "\<And>u s. fst (fd_httpGet (dx_deps cx) u s) = Inr resolution"
    and cdn: "cdn_down (dx_deps cx)" "cdn_only resolution url"
    and fid: "validateFileId (dx_fileId cx) = Inr ()"
  obtains p t where "has_row (dx_downloadId cx) t"
    "resolveAndDownload fuel cx s = completeDownload cx p (fr_fileSize resolution) t"
proof -
  let ?did = "dx_downloadId cx"
  let ?start = "io_then (updateStatus ?did DResolving) (emitProgress cx DResolving 0 0)"
  obtain p where p: "buildCachePath (fd_cacheDirectoryPath (dx_deps cx)) (dx_fileId cx) = Inr p"
    using fid by (simp add: buildCachePath_def)
  have k1: "keeps (has_row ?did) ?start" unfolding emitProgress_def by (intro keeps_intros)
  obtain t1 where t1: "?start s = (Inr (), t1)"
    by (simp add: io_then_simp updateStatus_def on_queue_def io_modify_simp emitProgress_def emit_progress_def)
  have r1: "has_row ?did t1" using keepsD [OF k1 row] t1 by simp
  obtain t2 where t2: "resolveFile (dx_deps cx) (dx_fileId cx) t1 = (Inr resolution, t2)"
    using res unfolding resolveFile_def by (metis prod.collapse)
  have r2: "has_row ?did t2"
    using keepsD [OF deps_keepD(1) [OF d] r1] t2 unfolding resolveFile_def by (metis snd_conv)
  obtain t3 where t3: "updateResolution ?did resolution t2 = (Inr (), t3)"
    by (simp add: updateResolution_def on_queue_def io_modify_simp)
  have r3: "has_row ?did t3" using keepsD [OF keeps_row_statements(2) r2, of ?did resolution] t3 by simp
  obtain t4 where t4: "attemptDownload fuel cx resolution p t3 = (Inr (Some True), t4)"
    using attempt_reports_success [OF cdn] by (metis prod.collapse)
  have r4: "has_row ?did t4" using keepsD [OF keeps_row_attempt [OF d] r3, of fuel resolution p] t4 by simp
  have "resolveAndDownload fuel cx s = completeDownload cx p (fr_fileSize resolution) t4"
    using t1 t2 t3 t4 p
    by (simp add: resolveAndDownload_def io_then_simp io_bind_simp io_bind_opt_def io_sum_def
        io_return_simp updateStatus_def on_queue_def io_modify_simp emitProgress_def emit_progress_def)
  with r4 that show thesis by blast
qed

text \<open>
  When the CDN fails and there is no TON copy, the download is nevertheless marked
  \<^verbatim>\<open>completed\<close>. If the backend offers a CDN URL and no bag, and the transfer from the CDN
  fails, \<^verbatim>\<open>attemptDownload\<close> reports success (it returns whether there was a CDN URL), and the
  row ends \<^verbatim>\<open>completed\<close>: the file was not downloaded, and since \<^verbatim>\<open>completed\<close> is terminal
  the download is not retried. The retry of a failed download, in the same situation, fails.
\<close>

theorem failed_cdn_download_is_completed:
  assumes d: "deps_respect did deps" and fresh: "did \<notin> dq_download_id ` set (de_queue s)"
    and res: "\<And>u s. fst (fd_httpGet deps u s) = Inr resolution"
    and cdn: "fr_cdnUrl resolution = Some url" "url \<noteq> []" "fr_tonBagId resolution = None"
    and fails: "\<And>u p h g s. isl (fst (fo_downloadToFile (fd_fileOperations deps) u p h g s))"
    and fid: "validateFileId fileId = Inr ()"
  shows "has_status did {DCompleted} (snd (executeNewDownload fuel deps did fileId hasProgress s)) \<and>
    (\<forall>cx p t. dx_deps cx = deps \<longrightarrow> fst (attemptRetryDownload fuel cx resolution p t) = Inr (Some False))"
proof -
  let ?cx = "\<lparr>dx_deps = deps, dx_downloadId = did, dx_fileId = fileId, dx_signal = cr_next s,
              dx_hasProgress = hasProgress\<rparr>"
  let ?s2 = "(snd (registry_register did s))\<lparr>de_queue := de_queue s @ [new_record did fileId (env_now s)]\<rparr>"
  have run: "executeNewDownload fuel deps did fileId hasProgress s = run_download fuel ?cx ?s2"
    using fresh by (simp add: executeNewDownload_def register_download_def registry_register_def
        insertItem_def new_record_def io_simps)
  have row: "has_row did ?s2"
    by (auto simp: has_row_def row_of_append new_record_def split: option.splits)
  have cdn: "cdn_only resolution url" "cdn_down deps"
    using cdn fails by (simp_all add: cdn_only_def cdn_down_def)
  have retry: "fst (attemptRetryDownload fuel cx resolution p t) = Inr (Some False)"
    if "dx_deps cx = deps" for cx p and t :: "'a download_env_scheme"
    by (rule retry_reports_failure [of cx resolution url fuel p t]) (simp_all add: that cdn)
  obtain p t where t: "has_row did t"
    "resolveAndDownload fuel ?cx ?s2 = completeDownload ?cx p (fr_fileSize resolution) t"
    by (rule resolve_comes_to_completion [of ?cx ?s2 resolution url fuel])
      (use deps_respectD(1) [OF d] row res cdn fid in simp_all)
  obtain q u where q: "completeDownload ?cx p (fr_fileSize resolution) t = (q, u)" by fastforce
  have du: "deps_keep (has_status (dx_downloadId ?cx) {DCompleted}) (dx_deps ?cx)"
    using deps_respectD(2) [OF d] by simp
  have u: "has_status did {DCompleted} u" "has_row did u"
    using complete_completes [OF du, of t p "fr_fileSize resolution"] t(1) q
    by (auto simp: has_status_def has_row_def)
  have "has_status did {DCompleted} (snd (run_download fuel ?cx ?s2))"
  proof (cases q)
    case (Inl e)
    with handleDownloadError_settles [of ?cx u e] u q t(2) show ?thesis
      by (auto simp: run_download_def split: prod.splits sum.splits)
  next
    case (Inr o1)
    with u q t(2) show ?thesis by (cases o1) (simp_all add: run_download_def)
  qed
  with run retry show ?thesis by simp
qed

section \<open>Sample downloads\<close>

definition sample_resolution :: file_resolution where
  "sample_resolution =
     \<lparr>fr_fileId = ''photo'', fr_cdnUrl = Some ''https://cdn/photo'', fr_tonBagId = None,
      fr_tonFileIndex = None, fr_fileSize = 10, fr_mimeType = ''image/png''\<rparr>"

definition sample_download_deps :: "bool \<Rightarrow> ('x download_env_scheme) download_deps" where
  "sample_download_deps cdnFails =
     \<lparr>fd_httpGet = (\<lambda>_. io_return sample_resolution), fd_apiBaseUrl = ''/api'',
      fd_addBag = (\<lambda>_ _ _. io_return ()),
      fd_getBagDetails = (\<lambda>_. io_return \<lparr>bd_downloadedSize = 10, bd_isComplete = True\<rparr>),
      fd_getFilePath = (\<lambda>b _. b), fd_wait = (\<lambda>_. io_return ()),
      fd_fileOperations =
        (if cdnFails
         then plain_file_ops\<lparr>fo_downloadToFile := (\<lambda>_ _ _ _. io_throw (JsErr (Some ''503'')))\<rparr>
         else plain_file_ops),
      fd_cacheDirectoryPath = ''/cache'', fd_maxCacheSizeBytes = None,
      fd_protocol = (\<lambda>_. Some ''https:'')\<rparr>"

lemma sample_deps_respect: "deps_respect did (sample_download_deps b)"
  by (cases b) (simp_all add: deps_respect_def deps_keep_def sample_download_deps_def
      plain_file_ops_def keeps_return keeps_throw)


theorem failed_cdn_download_is_completed_witness:
  "has_status ''d1'' {DCompleted}
     (snd (executeNewDownload 1 (sample_download_deps True) ''d1'' ''photo'' True sample_download_env))"
proof -
  have f: "''d1'' \<notin> dq_download_id ` set (de_queue sample_download_env)"
    by (simp add: sample_download_env_def)
  have v: "validateFileId ''photo'' = Inr ()" by code_simp
  show ?thesis
    by (rule conjunct1 [OF failed_cdn_download_is_completed
          [OF sample_deps_respect f, where resolution = sample_resolution and url = "''https://cdn/photo''"]])
      (simp_all add: sample_download_deps_def plain_file_ops_def io_simps sample_resolution_def v)
qed

end
