(* ===== verification/UploadInput.thy ===== *)
theory UploadInput
  imports UrlSafety
begin

text \<open>
  \<^verbatim>\<open>packages/media-upload/src\<close>: the checks of an upload's input
  (\<^verbatim>\<open>validate-upload-input.ts\<close>) and of the URI it reads (\<^verbatim>\<open>validate-uri.ts\<close>).

  \<^verbatim>\<open>decodeURIComponent\<close> can give any code point, so its result is a list of code points; no
  result is the \<^verbatim>\<open>URIError\<close> it throws. A file size is a JavaScript number: a finite one, an
  infinity or \<^verbatim>\<open>NaN\<close>.
\<close>

section \<open>decodeURIComponent\<close>

definition hex_value :: "char \<Rightarrow> nat option" where
  "hex_value c =
     (let n = of_char c :: nat in
      if 48 \<le> n \<and> n \<le> 57 then Some (n - 48)
      else if 65 \<le> n \<and> n \<le> 70 then Some (n - 55)
      else if 97 \<le> n \<and> n \<le> 102 then Some (n - 87) else None)"

fun pct_byte :: "string \<Rightarrow> (nat \<times> string) option" where
  "pct_byte (p # a # b # rest) =
     (if p \<noteq> CHR ''%'' then None
      else case (hex_value a, hex_value b) of
             (Some x, Some y) \<Rightarrow> Some (16 * x + y, rest)
           | _ \<Rightarrow> None)"
| "pct_byte _ = None"

text \<open>The continuation bytes of a sequence, added to the value \<open>acc\<close> read so far.\<close>

fun pct_conts :: "nat \<Rightarrow> nat \<Rightarrow> string \<Rightarrow> (nat \<times> string) option" where
  "pct_conts 0 acc s = Some (acc, s)"
| "pct_conts (Suc n) acc s =
     (case pct_byte s of
        None \<Rightarrow> None
      | Some (b, rest) \<Rightarrow>
          if 128 \<le> b \<and> b < 192 then pct_conts n (64 * acc + (b - 128)) rest else None)"

text \<open>A UTF-8 sequence: no overlong form, no surrogate, nothing above U+10FFFF.\<close>

definition pct_sequence :: "string \<Rightarrow> (nat \<times> string) option" where
  "pct_sequence s =
     (case pct_byte s of
        None \<Rightarrow> None
      | Some (b, rest) \<Rightarrow>
          if b < 128 then Some (b, rest)
          else if 192 \<le> b \<and> b < 224 then
            (case pct_conts 1 (b - 192) rest of
               Some (cp, r) \<Rightarrow> if 128 \<le> cp then Some (cp, r) else None | None \<Rightarrow> None)
          else if 224 \<le> b \<and> b < 240 then
            (case pct_conts 2 (b - 224) rest of
               Some (cp, r) \<Rightarrow> if 2048 \<le> cp \<and> \<not> (55296 \<le> cp \<and> cp \<le> 57343) then Some (cp, r) else None
             | None \<Rightarrow> None)
          else if 240 \<le> b \<and> b < 248 then
            (case pct_conts 3 (b - 240) rest of
               Some (cp, r) \<Rightarrow> if 65536 \<le> cp \<and> cp \<le> 1114111 then Some (cp, r) else None
             | None \<Rightarrow> None)
          else None)"

lemma pct_byte_shorter: "pct_byte s = Some (b, r) \<Longrightarrow> length r < length s"
  by (cases s rule: pct_byte.cases) (auto split: if_splits option.splits)

lemma pct_conts_shorter: "pct_conts n acc s = Some (cp, r) \<Longrightarrow> length r \<le> length s"
proof (induction n arbitrary: acc s)
  case (Suc n)
  then obtain b t where b: "pct_byte s = Some (b, t)" and n: "pct_conts n (64 * acc + (b - 128)) t = Some (cp, r)"
    by (auto split: option.splits prod.splits if_splits)
  from Suc.IH [OF n] pct_byte_shorter [OF b] show ?case by simp
qed simp

lemma pct_sequence_shorter: "pct_sequence s = Some (cp, r) \<Longrightarrow> length r < length s"
  unfolding pct_sequence_def
  by (auto split: option.splits prod.splits if_splits dest!: pct_byte_shorter pct_conts_shorter)

function decodeURIComponent :: "string \<Rightarrow> nat list option" where
  "decodeURIComponent [] = Some []"
| "decodeURIComponent (c # s) =
     (if c \<noteq> CHR ''%'' then map_option (Cons (of_char c)) (decodeURIComponent s)
      else case pct_sequence (c # s) of
             None \<Rightarrow> None
           | Some (cp, r) \<Rightarrow> map_option (Cons cp) (decodeURIComponent r))"
  by pat_completeness auto
termination
  by (relation "measure length") (auto dest: pct_sequence_shorter)

lemma hex_value_digit: "n < 16 \<Longrightarrow> hex_value (hex_digit n) = Some n"
  by (auto simp: hex_value_def hex_digit_def Let_def)

lemma pct_byte_percent: "b < 256 \<Longrightarrow> pct_byte (percent_byte b @ r) = Some (b, r)"
proof -
  assume "b < 256"
  then have "b div 16 < 16" "b mod 16 < 16" by auto
  then show ?thesis by (simp add: percent_byte_def hex_value_digit del: mod_less)
qed

lemma pct_sequence_utf8:
  "pct_sequence (concat (map percent_byte (utf8_bytes c)) @ r) = Some (of_char c, r)"
proof -
  have bound: "(of_char c :: nat) < 256" using of_char_mod_256 [of c, where ?'a = nat] by linarith
  show ?thesis
  proof (cases "(of_char c :: nat) < 128")
    case True
    then show ?thesis by (simp add: utf8_bytes_def Let_def pct_sequence_def pct_byte_percent)
  next
    case False
    let ?n = "of_char c :: nat"
    have d: "2 \<le> ?n div 64" "?n div 64 < 4" using False bound by (auto simp: less_mult_imp_div_less)
    have m: "?n mod 64 < 64" by simp
    have n: "64 * (?n div 64) + ?n mod 64 = ?n" by simp
    show ?thesis
      using False d m n
      by (simp add: utf8_bytes_def Let_def pct_sequence_def pct_byte_percent numeral_eq_Suc [of "Num.One"])
  qed
qed

lemma decode_encode_char:
  "decodeURIComponent (encode_char c @ r) = map_option (Cons (of_char c)) (decodeURIComponent r)"
proof (cases "uri_unreserved c")
  case True
  then have "c \<noteq> CHR ''%''" by (auto simp: uri_unreserved_def is_alnum_def)
  with True show ?thesis by (simp add: encode_char_def)
next
  case False
  obtain t where t: "concat (map percent_byte (utf8_bytes c)) @ r = CHR ''%'' # t"
    by (cases "(of_char c :: nat) < 128") (simp_all add: utf8_bytes_def percent_byte_def Let_def)
  show ?thesis
    using False pct_sequence_utf8 [of c r] by (simp add: encode_char_def t)
qed

lemma decode_encode_append:
  "decodeURIComponent (encodeURIComponent s @ r) = map_option ((@) (map of_char s)) (decodeURIComponent r)"
proof (induction s)
  case Nil
  then show ?case by (cases "decodeURIComponent r") (simp_all add: encodeURIComponent_def)
next
  case (Cons c s)
  then show ?case
    by (simp add: encodeURIComponent_def decode_encode_char option.map_comp comp_def)
qed

lemma decode_plain_append:
  "CHR ''%'' \<notin> set s \<Longrightarrow>
   decodeURIComponent (s @ r) = map_option ((@) (map of_char s)) (decodeURIComponent r)"
  by (induction s; cases "decodeURIComponent r") auto

section \<open>The URI\<close>

text \<open>
  \<open>validate-uri.ts\<close>. The pattern of path traversal holds of a string that, cut at slashes and
  backslashes, has two dots as a segment.
\<close>

definition getScheme :: "string \<Rightarrow> js_error + string" where
  "getScheme uri =
     (if CHR '':'' \<notin> set uri then Inl (JsErr (Some ''Invalid URI: no scheme''))
      else Inr (js_lower (takeWhile (\<lambda>c. c \<noteq> CHR '':'') uri @ '':'')))"

fun segments :: "nat list \<Rightarrow> nat list list" where
  "segments [] = [[]]"
| "segments (c # cs) =
     (if c \<in> {47, 92} then [] # segments cs
      else (case segments cs of [] \<Rightarrow> [[c]] | w # ws \<Rightarrow> (c # w) # ws))"

definition TRAVERSAL_PATTERN :: "nat list \<Rightarrow> bool" where
  "TRAVERSAL_PATTERN s = ([46, 46] \<in> set (segments s))"

definition hasPathTraversal :: "string \<Rightarrow> js_error + bool" where
  "hasPathTraversal uri =
     (case decodeURIComponent uri of
        None \<Rightarrow> Inl (JsErr (Some ''URI malformed''))
      | Some decoded \<Rightarrow> Inr (TRAVERSAL_PATTERN decoded))"

definition validateWebUri :: "string \<Rightarrow> js_error + unit" where
  "validateWebUri uri =
     (case getScheme uri of
        Inl e \<Rightarrow> Inl e
      | Inr scheme \<Rightarrow>
          if scheme \<notin> {''blob:''} then Inl (JsErr (Some (''Unsupported URI scheme: '' @ scheme)))
          else Inr ())"

definition validateNativeUri :: "string \<Rightarrow> js_error + unit" where
  "validateNativeUri uri =
     (case getScheme uri of
        Inl e \<Rightarrow> Inl e
      | Inr scheme \<Rightarrow>
          if scheme \<notin> {''file:'', ''content:''}
          then Inl (JsErr (Some (''Unsupported URI scheme: '' @ scheme)))
          else if scheme = ''file:'' then
            (case hasPathTraversal uri of
               Inl e \<Rightarrow> Inl e
             | Inr True \<Rightarrow> Inl (JsErr (Some ''Path traversal detected in file URI''))
             | Inr False \<Rightarrow> Inr ())
          else Inr ())"

lemma segments_not_Nil [simp]: "segments s \<noteq> []"
  by (induction s) (auto split: list.splits)

lemma segments_plain: "47 \<notin> set s \<Longrightarrow> 92 \<notin> set s \<Longrightarrow> segments s = [s]"
  by (induction s) auto

lemma segments_cut: "c \<in> {47, 92} \<Longrightarrow> segments (xs @ c # ys) = segments xs @ segments ys"
  by (induction xs) (auto split: list.splits)

text \<open>The code points of a file URI whose path segments are encoded one by one.\<close>

definition file_uri :: "string list \<Rightarrow> string" where
  "file_uri ws = ''file://'' @ concat (map (\<lambda>w. CHR ''/'' # encodeURIComponent w) ws)"

lemma decode_file_uri:
  "decodeURIComponent (file_uri ws) =
     Some (map of_char ''file://'' @ concat (map (\<lambda>w. 47 # map of_char w) ws))"
proof -
  have "decodeURIComponent (concat (map (\<lambda>w. CHR ''/'' # encodeURIComponent w) ws)) =
      Some (concat (map (\<lambda>w. 47 # map of_char w) ws))"
    by (induction ws) (simp_all add: decode_encode_append)
  then show ?thesis
    unfolding file_uri_def by (subst decode_plain_append) simp_all
qed

lemma map_of_char_eq: "map of_char w = (map of_char v :: nat list) \<longleftrightarrow> w = v"
  by (metis (no_types, lifting) inj_map_eq_map inj_on_def of_char_eq_iff)

lemma segments_file_uri:
  assumes "\<And>w. w \<in> set ws \<Longrightarrow> CHR ''/'' \<notin> set w \<and> CHR 0x5C \<notin> set w"
  shows "segments (xs @ concat (map (\<lambda>w. 47 # map of_char w) ws)) = segments xs @ map (map of_char) ws"
  using assms
proof (induction ws arbitrary: xs)
  case (Cons w ws)
  have inj: "(of_char c :: nat) = of_char d \<Longrightarrow> c = d" for c d
    by simp
  have slash: "(of_char CHR ''/'' :: nat) = 47" and backslash: "(of_char CHR 0x5C :: nat) = 92"
    by simp_all
  have w: "47 \<notin> (of_char ` set w :: nat set)" "92 \<notin> (of_char ` set w :: nat set)"
    using Cons.prems [of w] inj unfolding slash [symmetric] backslash [symmetric] image_iff
    by (metis list.set_intros(1))+
  have "segments (map of_char w @ concat (map (\<lambda>w. 47 # map of_char w) ws)) =
      segments (map of_char w) @ map (map of_char) ws"
    using Cons by simp
  moreover have "segments (map of_char w) = [map of_char w]"
    using w by (intro segments_plain) simp_all
  ultimately show ?case by (simp add: segments_cut)
qed simp

text \<open>
  The check of native file URIs is exact on encoded paths. For a file URI whose path segments hold
  no slash or backslash themselves and are percent-encoded, \<^verbatim>\<open>validateNativeUri\<close> throws if and
  only if a segment is two dots; encoding the dots or any other character does not get around it.
\<close>

theorem native_uri_check_is_exact:
  assumes "\<And>w. w \<in> set ws \<Longrightarrow> CHR ''/'' \<notin> set w \<and> CHR 0x5C \<notin> set w"
  shows "validateNativeUri (file_uri ws) =
    (if ''..'' \<in> set ws then Inl (JsErr (Some ''Path traversal detected in file URI'')) else Inr ())"
proof -
  have sch: "getScheme (file_uri ws) = Inr ''file:''"
    by (simp add: getScheme_def file_uri_def js_lower_def js_lower_char_def)
  have "segments (map of_char ''file://'') = [map of_char ''file:'', [], []]" by simp
  then have segs: "segments (map of_char ''file://'' @ concat (map (\<lambda>w. 47 # map of_char w) ws)) =
      [map of_char ''file:'', [], []] @ map (map of_char) ws"
    by (subst segments_file_uri [of ws, OF assms]) simp_all
  have dots: "[46, 46] = (map of_char ''..'' :: nat list)" by simp
  have "TRAVERSAL_PATTERN (map of_char ''file://'' @ concat (map (\<lambda>w. 47 # map of_char w) ws)) \<longleftrightarrow>
      ''..'' \<in> set ws"
    unfolding TRAVERSAL_PATTERN_def segs dots by (auto simp: image_iff map_of_char_eq simp del: list.map)
  then show ?thesis
    by (simp add: validateNativeUri_def sch hasPathTraversal_def decode_file_uri)
qed

theorem native_uri_check_is_exact_witness:
  "validateNativeUri (file_uri [''data'', ''..'', ''key b''])
     = Inl (JsErr (Some ''Path traversal detected in file URI''))"
  by (subst native_uri_check_is_exact) auto

section \<open>The input of an upload\<close>

datatype js_number = JNaN | JInfinity bool | JFinite real

record upload_input =
  ui_uri :: string
  ui_mimeType :: string
  ui_fileSize :: js_number

text \<open>\<^verbatim>\<open>String.trim\<close> removes white space and line ends.\<close>

definition js_white_space :: "char \<Rightarrow> bool" where
  "js_white_space c = (let n = of_char c :: nat in (9 \<le> n \<and> n \<le> 13) \<or> n = 32 \<or> n = 160)"

definition is_alpha :: "char \<Rightarrow> bool" where
  "is_alpha c = (is_alnum c \<and> \<not> is_digit c)"

definition MIME_TYPE_PATTERN :: "string \<Rightarrow> bool" where
  "MIME_TYPE_PATTERN m =
     (let kind = takeWhile (\<lambda>c. c \<noteq> CHR ''/'') m; rest = dropWhile (\<lambda>c. c \<noteq> CHR ''/'') m in
      kind \<noteq> [] \<and> list_all is_alpha kind \<and> rest \<noteq> [] \<and> tl rest \<noteq> [] \<and>
      list_all (\<lambda>c. is_alnum c \<or> c \<in> set ''.+-'') (tl rest))"

definition validateUploadInput :: "upload_input \<Rightarrow> js_error + unit" where
  "validateUploadInput input =
     (if list_all js_white_space (ui_uri input)
      then Inl (JsErr (Some ''Upload URI must not be empty''))
      else if (case ui_fileSize input of JFinite n \<Rightarrow> n \<le> 0 | _ \<Rightarrow> True)
      then Inl (JsErr (Some ''Upload fileSize must be a positive number''))
      else if \<not> MIME_TYPE_PATTERN (ui_mimeType input)
      then Inl (JsErr (Some (''Invalid mimeType: '' @ ui_mimeType input)))
      else Inr ())"

end
