(* ===== verification/MediaUpload.thy ===== *)
theory MediaUpload
  imports TransferQueue UploadInput
begin

text \<open>
  \<^verbatim>\<open>packages/media-upload/src\<close>: uploading media to Greenfield with a delegation from the
  backend, the queue of uploads, retrying and cancelling (\<^verbatim>\<open>upload-media.ts\<close>,
  \<^verbatim>\<open>upload-queue-repository.ts\<close>, \<^verbatim>\<open>retry-failed-uploads.ts\<close>, \<^verbatim>\<open>cancel-upload.ts\<close>,
  \<^verbatim>\<open>upload-queue.ts\<close>, \<^verbatim>\<open>request-delegation.ts\<close>, \<^verbatim>\<open>greenfield-upload.ts\<close> and its
  native variant).

  The HTTP client, \<^verbatim>\<open>fetch\<close>, the file reader and the Greenfield client are parameters over the
  state of the uploads; as with downloads, such a call includes what other code does meanwhile.
  The type \<open>'b\<close> is that of the bodies read and sent.
\<close>

datatype upload_status = UQueued | URequestingDelegation | UUploading | UCompleted | UFailed | UCancelled

record upload_result =
  ur_objectName :: string
  ur_bucketName :: string
  ur_fileSize :: js_number

record media_progress =
  mp_uploadId :: string
  mp_status :: upload_status
  mp_bytesUploaded :: js_number
  mp_totalBytes :: js_number

record delegation_response =
  dg_bucketName :: string
  dg_objectName :: string
  dg_authType :: string
  dg_domain :: string
  dg_seedString :: string
  dg_address :: string

record upload_record =
  uq_upload_id :: string
  uq_uri :: string
  uq_mime_type :: string
  uq_file_size :: js_number
  uq_status :: upload_status
  uq_bucket_name :: "string option"
  uq_object_name :: "string option"
  uq_bytes_uploaded :: js_number
  uq_error_message :: "string option"
  uq_retry_count :: nat
  uq_created_at :: int
  uq_updated_at :: int

record upload_env = transfer_env +
  ue_queue :: "upload_record list"
  ue_progress :: "media_progress list"

type_synonym ('x, 'a) uio = "('x upload_env_scheme, js_error, 'a) io"

section \<open>The queue repository\<close>

definition UPLOAD_TERMINAL_STATUSES :: "upload_status list" where
  "UPLOAD_TERMINAL_STATUSES = [UCompleted, UCancelled]"

definition on_uploads :: "(int \<Rightarrow> upload_record list \<Rightarrow> upload_record list) \<Rightarrow> ('x, unit) uio" where
  "on_uploads f = io_modify (\<lambda>s. s\<lparr>ue_queue := f (env_now s) (ue_queue s)\<rparr>)"

definition insertUpload :: "upload_record \<Rightarrow> ('x, unit) uio" where
  "insertUpload r = (\<lambda>s.
     if uq_upload_id r \<in> uq_upload_id ` set (ue_queue s) then (Inl (JsErr None), s)
     else (Inr (), s\<lparr>ue_queue := ue_queue s @
       [r\<lparr>uq_bucket_name := None, uq_object_name := None, uq_error_message := None\<rparr>]\<rparr>))"

definition getUpload :: "string \<Rightarrow> ('x, upload_record option) uio" where
  "getUpload uploadId = io_gets (\<lambda>s. row_of uq_upload_id uploadId (ue_queue s))"

definition getAllUploads :: "('x, upload_record list) uio" where
  "getAllUploads = io_gets (\<lambda>s. sort_key (\<lambda>r. - uq_created_at r) (ue_queue s))"

definition getUploadsByStatus :: "upload_status \<Rightarrow> ('x, upload_record list) uio" where
  "getUploadsByStatus st = io_gets (\<lambda>s.
     sort_key uq_created_at (filter (\<lambda>r. uq_status r = st) (ue_queue s)))"

definition set_upload_status ::
  "string \<Rightarrow> upload_status \<Rightarrow> int \<Rightarrow> upload_record list \<Rightarrow> upload_record list" where
  "set_upload_status uploadId st now =
     update_where (\<lambda>r. uq_upload_id r = uploadId) (\<lambda>r. r\<lparr>uq_status := st, uq_updated_at := now\<rparr>)"

definition set_upload_status_if ::
  "string \<Rightarrow> upload_status \<Rightarrow> int \<Rightarrow> upload_record list \<Rightarrow> upload_record list" where
  "set_upload_status_if uploadId st now =
     update_where (\<lambda>r. uq_upload_id r = uploadId \<and> uq_status r \<notin> set UPLOAD_TERMINAL_STATUSES)
       (\<lambda>r. r\<lparr>uq_status := st, uq_updated_at := now\<rparr>)"

definition updateUploadStatus :: "string \<Rightarrow> upload_status \<Rightarrow> ('x, unit) uio" where
  "updateUploadStatus uploadId st = on_uploads (set_upload_status uploadId st)"

definition updateUploadStatusIfNotTerminal :: "string \<Rightarrow> upload_status \<Rightarrow> ('x, bool) uio" where
  "updateUploadStatusIfNotTerminal uploadId st =
     io_then (on_uploads (set_upload_status_if uploadId st))
       (io_bind (getUpload uploadId) (\<lambda>row.
          io_return (case row of None \<Rightarrow> False | Some r \<Rightarrow> uq_status r = st)))"

definition updateDelegation :: "string \<Rightarrow> string \<Rightarrow> string \<Rightarrow> ('x, unit) uio" where
  "updateDelegation uploadId bucketName objectName =
     on_uploads (\<lambda>now. update_where (\<lambda>r. uq_upload_id r = uploadId)
       (\<lambda>r. r\<lparr>uq_bucket_name := Some bucketName, uq_object_name := Some objectName,
             uq_updated_at := now\<rparr>))"

definition updateUploadCompletion :: "string \<Rightarrow> ('x, unit) uio" where
  "updateUploadCompletion uploadId =
     on_uploads (\<lambda>now. update_where (\<lambda>r. uq_upload_id r = uploadId)
       (\<lambda>r. r\<lparr>uq_status := UCompleted, uq_updated_at := now\<rparr>))"

definition updateUploadFailure :: "string \<Rightarrow> string \<Rightarrow> ('x, unit) uio" where
  "updateUploadFailure uploadId errorMessage =
     on_uploads (\<lambda>now. update_where (\<lambda>r. uq_upload_id r = uploadId)
       (\<lambda>r. r\<lparr>uq_status := UFailed, uq_error_message := Some errorMessage,
             uq_retry_count := uq_retry_count r + 1, uq_updated_at := now\<rparr>))"

definition deleteUpload :: "string \<Rightarrow> ('x, unit) uio" where
  "deleteUpload uploadId = on_uploads (\<lambda>_. filter (\<lambda>r. uq_upload_id r \<noteq> uploadId))"

interpretation uploads: status_table uq_upload_id uq_status UPLOAD_TERMINAL_STATUSES
  set_upload_status set_upload_status_if
proof
  fix r k st now rows
  show "map uq_upload_id (set_upload_status k st now rows) = map uq_upload_id rows"
    "map uq_upload_id (set_upload_status_if k st now rows) = map uq_upload_id rows"
    by (simp_all add: set_upload_status_def set_upload_status_if_def keys_update)
  show "uq_status r = st" if "r \<in> set (set_upload_status k st now rows)" "uq_upload_id r = k"
    using that(1) unfolding set_upload_status_def
    by (cases rule: in_update_where) (use that(2) in simp_all)
  show "r \<in> set (set_upload_status k st now rows)" if "r \<in> set rows" "uq_upload_id r \<noteq> k"
    unfolding set_upload_status_def using that by (intro kept_by_update_where) simp_all
  show "r \<in> set (set_upload_status_if k st now rows)"
    if "r \<in> set rows" "uq_upload_id r = k" "uq_status r \<in> set UPLOAD_TERMINAL_STATUSES"
    unfolding set_upload_status_if_def using that by (intro kept_by_update_where) simp_all
  show "set_upload_status_if k st now rows = set_upload_status k st now rows"
    if "\<And>q. q \<in> set rows \<Longrightarrow> uq_upload_id q = k \<Longrightarrow> uq_status q \<notin> set UPLOAD_TERMINAL_STATUSES"
    unfolding set_upload_status_if_def set_upload_status_def
    using that by (intro update_where_cong) blast
qed

section \<open>The delegation and the transfer\<close>

record delegation_input =
  di_mimeType :: string
  di_fileSize :: js_number

record greenfield_auth =
  ga_type :: string
  ga_domain :: string
  ga_seed :: string
  ga_address :: string

record greenfield_params =
  gp_bucketName :: string
  gp_objectName :: string
  gp_uri :: string
  gp_mimeType :: string
  gp_auth :: greenfield_auth
  gp_signal :: nat

datatype platform = PlatformWeb | PlatformNative

record ('s, 'b) upload_deps =
  ud_post :: "string \<Rightarrow> delegation_input \<Rightarrow> ('s, js_error, delegation_response) io"
  ud_apiBaseUrl :: string
  ud_fetchBlob :: "string \<Rightarrow> nat \<Rightarrow> ('s, js_error, 'b) io"
  ud_readFile :: "string \<Rightarrow> ('s, js_error, 'b) io"
  ud_delegateUploadObject ::
    "string \<Rightarrow> string \<Rightarrow> 'b \<Rightarrow> nat \<Rightarrow> greenfield_auth \<Rightarrow> ('s, js_error, unit) io"

record ('s, 'b) upload_context =
  ux_platform :: platform
  ux_deps :: "('s, 'b) upload_deps"
  ux_uploadId :: string
  ux_input :: upload_input
  ux_signal :: nat
  ux_hasProgress :: bool

type_synonym ('x, 'b) ucontext = "('x upload_env_scheme, 'b) upload_context"

definition requestDelegation ::
  "('x upload_env_scheme, 'b) upload_deps \<Rightarrow> string \<Rightarrow> js_number \<Rightarrow> ('x, delegation_response) uio" where
  "requestDelegation deps mimeType fileSize =
     ud_post deps (ud_apiBaseUrl deps @ ''/uploads/delegate'')
       \<lparr>di_mimeType = mimeType, di_fileSize = fileSize\<rparr>"

definition throw_if_upload_aborted :: "nat \<Rightarrow> ('x, unit) uio" where
  "throw_if_upload_aborted signal = (\<lambda>s.
     if aborted signal s then (Inl (JsErr (Some ''Upload cancelled'')), s) else (Inr (), s))"

definition greenfieldUpload_web ::
  "('x upload_env_scheme, 'b) upload_deps \<Rightarrow> greenfield_params \<Rightarrow> ('x, unit) uio" where
  "greenfieldUpload_web deps p =
     io_then (throw_if_upload_aborted (gp_signal p))
     (io_then (io_sum (validateWebUri (gp_uri p)))
     (io_bind (ud_fetchBlob deps (gp_uri p) (gp_signal p)) (\<lambda>blob.
        ud_delegateUploadObject deps (gp_bucketName p) (gp_objectName p) blob (gp_signal p) (gp_auth p))))"

definition greenfieldUpload_native ::
  "('x upload_env_scheme, 'b) upload_deps \<Rightarrow> greenfield_params \<Rightarrow> ('x, unit) uio" where
  "greenfieldUpload_native deps p =
     io_then (throw_if_upload_aborted (gp_signal p))
     (io_then (io_sum (validateNativeUri (gp_uri p)))
     (io_bind (ud_readFile deps (gp_uri p)) (\<lambda>bytes.
        ud_delegateUploadObject deps (gp_bucketName p) (gp_objectName p) bytes (gp_signal p) (gp_auth p))))"

definition greenfieldUpload ::
  "platform \<Rightarrow> ('x upload_env_scheme, 'b) upload_deps \<Rightarrow> greenfield_params \<Rightarrow> ('x, unit) uio" where
  "greenfieldUpload pl = (case pl of PlatformWeb \<Rightarrow> greenfieldUpload_web
     | PlatformNative \<Rightarrow> greenfieldUpload_native)"

definition auth_of :: "delegation_response \<Rightarrow> greenfield_auth" where
  "auth_of d = \<lparr>ga_type = dg_authType d, ga_domain = dg_domain d, ga_seed = dg_seedString d,
     ga_address = dg_address d\<rparr>"

section \<open>An upload\<close>

definition emitUploadProgress :: "('x, 'b) ucontext \<Rightarrow> upload_status \<Rightarrow> ('x, unit) uio" where
  "emitUploadProgress cx st =
     io_modify (\<lambda>s. if ux_hasProgress cx
       then s\<lparr>ue_progress := ue_progress s @
         [\<lparr>mp_uploadId = ux_uploadId cx, mp_status = st,
           mp_bytesUploaded = (if st = UCompleted then ui_fileSize (ux_input cx) else JFinite 0),
           mp_totalBytes = ui_fileSize (ux_input cx)\<rparr>]\<rparr>
       else s)"

definition fetchDelegation :: "('x, 'b) ucontext \<Rightarrow> ('x, delegation_response) uio" where
  "fetchDelegation cx =
     io_then (updateUploadStatus (ux_uploadId cx) URequestingDelegation)
     (io_then (emitUploadProgress cx URequestingDelegation)
     (io_bind (requestDelegation (ux_deps cx) (ui_mimeType (ux_input cx)) (ui_fileSize (ux_input cx)))
        (\<lambda>delegation.
           io_then (updateDelegation (ux_uploadId cx) (dg_bucketName delegation) (dg_objectName delegation))
             (io_return delegation))))"

definition performGreenfieldUpload :: "('x, 'b) ucontext \<Rightarrow> ('x, delegation_response) uio" where
  "performGreenfieldUpload cx =
     io_bind (fetchDelegation cx) (\<lambda>delegation.
     io_then (updateUploadStatus (ux_uploadId cx) UUploading)
     (io_then (emitUploadProgress cx UUploading)
     (io_then (greenfieldUpload (ux_platform cx) (ux_deps cx)
                 \<lparr>gp_bucketName = dg_bucketName delegation, gp_objectName = dg_objectName delegation,
                  gp_uri = ui_uri (ux_input cx), gp_mimeType = ui_mimeType (ux_input cx),
                  gp_auth = auth_of delegation, gp_signal = ux_signal cx\<rparr>)
       (io_return delegation))))"

definition executeUpload :: "('x, 'b) ucontext \<Rightarrow> ('x, upload_result) uio" where
  "executeUpload cx =
     io_bind (performGreenfieldUpload cx) (\<lambda>delegation.
     io_then (updateUploadCompletion (ux_uploadId cx))
     (io_then (io_modify (registry_remove (ux_uploadId cx)))
     (io_then (emitUploadProgress cx UCompleted)
       (io_return \<lparr>ur_objectName = dg_objectName delegation, ur_bucketName = dg_bucketName delegation,
                   ur_fileSize = ui_fileSize (ux_input cx)\<rparr>))))"

definition handleUploadError :: "('x, 'b) ucontext \<Rightarrow> js_error \<Rightarrow> ('x, unit) uio" where
  "handleUploadError cx error =
     io_then
       (if js_message error = ''Upload cancelled''
        then updateUploadStatus (ux_uploadId cx) UCancelled
        else updateUploadFailure (ux_uploadId cx) (js_message error))
     (io_then (io_modify (registry_remove (ux_uploadId cx)))
       (emit_log LError ''Media upload failed'' []
          [(''uploadId'', JStr (ux_uploadId cx)), (''error'', JStr (js_message error))]))"

definition run_upload :: "('x, 'b) ucontext \<Rightarrow> ('x, upload_result) uio" where
  "run_upload cx =
     io_catch (executeUpload cx) (\<lambda>error. io_then (handleUploadError cx error) (io_throw error))"

definition new_upload :: "string \<Rightarrow> upload_input \<Rightarrow> int \<Rightarrow> upload_record" where
  "new_upload uploadId input now =
     \<lparr>uq_upload_id = uploadId, uq_uri = ui_uri input, uq_mime_type = ui_mimeType input,
      uq_file_size = ui_fileSize input, uq_status = UQueued, uq_bucket_name = None,
      uq_object_name = None, uq_bytes_uploaded = JFinite 0, uq_error_message = None,
      uq_retry_count = 0, uq_created_at = now, uq_updated_at = now\<rparr>"

definition register_upload :: "string \<Rightarrow> ('x, nat) uio" where
  "register_upload uploadId = (\<lambda>s. (Inr (fst (registry_register uploadId s)),
     snd (registry_register uploadId s)))"

definition uploadMedia ::
  "platform \<Rightarrow> ('x upload_env_scheme, 'b) upload_deps \<Rightarrow> string \<Rightarrow> upload_input \<Rightarrow> bool \<Rightarrow>
   ('x, upload_result) uio" where
  "uploadMedia pl deps uploadId input hasProgress =
     io_then (io_sum (validateUploadInput input))
     (io_bind (register_upload uploadId) (\<lambda>signal.
      io_bind (io_gets env_now) (\<lambda>now.
      io_then (insertUpload (new_upload uploadId input now))
        (run_upload \<lparr>ux_platform = pl, ux_deps = deps, ux_uploadId = uploadId, ux_input = input,
           ux_signal = signal, ux_hasProgress = hasProgress\<rparr>))))"

section \<open>Cancelling, inspecting, retrying\<close>

definition cancelUpload :: "string \<Rightarrow> ('x, bool) uio" where
  "cancelUpload uploadId = (\<lambda>s.
     let (wasCancelled, t) = registry_cancel uploadId s in
     if \<not> wasCancelled then (Inr False, t)
     else io_then (updateUploadStatusIfNotTerminal uploadId UCancelled) (io_return True) t)"

definition mapUploadToProgress :: "upload_record \<Rightarrow> media_progress" where
  "mapUploadToProgress r =
     \<lparr>mp_uploadId = uq_upload_id r, mp_status = uq_status r, mp_bytesUploaded = uq_bytes_uploaded r,
      mp_totalBytes = uq_file_size r\<rparr>"

definition getUploadQueue :: "('x, media_progress list) uio" where
  "getUploadQueue = io_bind getAllUploads (\<lambda>records. io_return (map mapUploadToProgress records))"

definition MAX_UPLOAD_RETRIES :: nat where
  "MAX_UPLOAD_RETRIES = 5"

definition requestRetryDelegation ::
  "('x upload_env_scheme, 'b) upload_deps \<Rightarrow> upload_record \<Rightarrow> ('x, delegation_response) uio" where
  "requestRetryDelegation deps item =
     io_bind (requestDelegation deps (uq_mime_type item) (uq_file_size item)) (\<lambda>delegation.
       io_then (updateDelegation (uq_upload_id item) (dg_bucketName delegation) (dg_objectName delegation))
         (io_return delegation))"

definition retryUpload ::
  "platform \<Rightarrow> ('x upload_env_scheme, 'b) upload_deps \<Rightarrow> upload_record \<Rightarrow> ('x, upload_result) uio" where
  "retryUpload pl deps item =
     io_bind (register_upload (uq_upload_id item)) (\<lambda>signal.
     io_bind (requestRetryDelegation deps item) (\<lambda>delegation.
     io_then (updateUploadStatus (uq_upload_id item) UUploading)
     (io_then (greenfieldUpload pl deps
                 \<lparr>gp_bucketName = dg_bucketName delegation, gp_objectName = dg_objectName delegation,
                  gp_uri = uq_uri item, gp_mimeType = uq_mime_type item, gp_auth = auth_of delegation,
                  gp_signal = signal\<rparr>)
     (io_then (updateUploadCompletion (uq_upload_id item))
     (io_then (io_modify (registry_remove (uq_upload_id item)))
       (io_return \<lparr>ur_objectName = dg_objectName delegation, ur_bucketName = dg_bucketName delegation,
                   ur_fileSize = uq_file_size item\<rparr>))))))"

text \<open>One turn of the loop; a retry that fails adds no result.\<close>

definition retry_one ::
  "platform \<Rightarrow> ('x upload_env_scheme, 'b) upload_deps \<Rightarrow> upload_record \<Rightarrow>
   ('x, upload_result option) uio" where
  "retry_one pl deps item =
     io_catch (io_bind (retryUpload pl deps item) (\<lambda>r. io_return (Some r)))
       (\<lambda>error. io_then (updateUploadFailure (uq_upload_id item) (js_message error))
          (io_then (emit_log LError ''Retry failed'' []
                      [(''uploadId'', JStr (uq_upload_id item)), (''error'', JStr (js_message error))])
            (io_return None)))"

fun upload_retry_loop ::
  "platform \<Rightarrow> ('x upload_env_scheme, 'b) upload_deps \<Rightarrow> upload_record list \<Rightarrow>
   ('x, upload_result list) uio" where
  "upload_retry_loop pl deps [] = io_return []"
| "upload_retry_loop pl deps (item # items) =
     (if uq_retry_count item \<ge> MAX_UPLOAD_RETRIES then upload_retry_loop pl deps items
      else io_bind (retry_one pl deps item) (\<lambda>result.
        io_bind (upload_retry_loop pl deps items) (\<lambda>results.
          io_return (case result of None \<Rightarrow> results | Some r \<Rightarrow> r # results))))"

definition retryFailedUploads ::
  "platform \<Rightarrow> ('x upload_env_scheme, 'b) upload_deps \<Rightarrow> ('x, upload_result list) uio" where
  "retryFailedUploads pl deps = io_bind (getUploadsByStatus UFailed) (upload_retry_loop pl deps)"

section \<open>How an upload ends\<close>

definition has_upload :: "string \<Rightarrow> 'x upload_env_scheme \<Rightarrow> bool" where
  "has_upload uid s = (row_of uq_upload_id uid (ue_queue s) \<noteq> None)"

definition upload_status_in :: "string \<Rightarrow> upload_status set \<Rightarrow> 'x upload_env_scheme \<Rightarrow> bool" where
  "upload_status_in uid sts s =
     (\<exists>r. row_of uq_upload_id uid (ue_queue s) = Some r \<and> uq_status r \<in> sts)"

definition uploads_keep ::
  "('x upload_env_scheme \<Rightarrow> bool) \<Rightarrow> ('x upload_env_scheme, 'b) upload_deps \<Rightarrow> bool" where
  "uploads_keep P deps =
     ((\<forall>u i. keeps P (ud_post deps u i)) \<and> (\<forall>u g. keeps P (ud_fetchBlob deps u g)) \<and>
      (\<forall>u. keeps P (ud_readFile deps u)) \<and>
      (\<forall>b ob body g a. keeps P (ud_delegateUploadObject deps b ob body g a)))"

lemma uploads_keepD:
  assumes "uploads_keep P deps"
  shows "keeps P (ud_post deps u i)" "keeps P (ud_fetchBlob deps u g)" "keeps P (ud_readFile deps u)"
    "keeps P (ud_delegateUploadObject deps b ob body g a)"
  using assms by (simp_all add: uploads_keep_def)

lemma keeps_upload_on_uploads:
  assumes "\<And>now rows. map uq_upload_id (f now rows) = map uq_upload_id rows"
  shows "keeps (has_upload uid) (on_uploads f)"
  unfolding on_uploads_def
proof (intro keeps_modify)
  fix s :: "'a upload_env_scheme"
  assume "has_upload uid s"
  moreover have "uq_upload_id ` set (f (env_now s) (ue_queue s)) = uq_upload_id ` set (ue_queue s)"
    using arg_cong [OF assms, of set "env_now s" "ue_queue s"] by simp
  ultimately show "has_upload uid (s\<lparr>ue_queue := f (env_now s) (ue_queue s)\<rparr>)"
    by (simp add: has_upload_def row_of_None)
qed

lemma keeps_upload_statements [keeps_intros]:
  "keeps (has_upload uid) (updateUploadStatus k st)"
  "keeps (has_upload uid) (updateDelegation k b ob)"
  "keeps (has_upload uid) (updateUploadCompletion k)"
  "keeps (has_upload uid) (emitUploadProgress cx st)"
  "keeps (has_upload uid) (io_modify (registry_remove k))"
  "keeps P (throw_if_upload_aborted g)"
proof -
  show "keeps (has_upload uid) (updateUploadStatus k st)"
    unfolding updateUploadStatus_def by (intro keeps_upload_on_uploads uploads.set_keys)
  show "keeps (has_upload uid) (emitUploadProgress cx st)"
    "keeps (has_upload uid) (io_modify (registry_remove k))" "keeps P (throw_if_upload_aborted g)"
    by (simp_all add: keeps_def emitUploadProgress_def has_upload_def registry_remove_def io_simps
        throw_if_upload_aborted_def)
qed (auto simp: updateDelegation_def updateUploadCompletion_def keys_update intro!: keeps_upload_on_uploads)

lemma keeps_greenfield:
  assumes d: "uploads_keep P deps"
  shows "keeps P (greenfieldUpload pl deps p)"
proof -
  have "keeps P (greenfieldUpload_web deps p)" "keeps P (greenfieldUpload_native deps p)"
    unfolding greenfieldUpload_web_def greenfieldUpload_native_def
    by (intro keeps_intros keeps_upload_statements uploads_keepD [OF d])+
  then show ?thesis by (cases pl) (simp_all add: greenfieldUpload_def)
qed

lemma keeps_perform:
  assumes d: "uploads_keep (has_upload uid) (ux_deps cx)"
  shows "keeps (has_upload uid) (performGreenfieldUpload cx)"
  unfolding performGreenfieldUpload_def fetchDelegation_def requestDelegation_def
  by (intro keeps_intros keeps_greenfield [OF d] uploads_keepD [OF d])

lemma signal_removed: "registry_getSignal k (registry_remove k s) = None"
  by (simp add: registry_getSignal_def registry_remove_def AList.delete_conv')

lemma executeUpload_ends:
  assumes d: "uploads_keep (has_upload (ux_uploadId cx)) (ux_deps cx)" and row: "has_upload (ux_uploadId cx) s"
    and run: "executeUpload cx s = (result, t)"
  shows "has_upload (ux_uploadId cx) t \<and>
    (\<forall>r. result = Inr r \<longrightarrow> upload_status_in (ux_uploadId cx) {UCompleted} t \<and>
       registry_getSignal (ux_uploadId cx) t = None)"
proof -
  obtain q u where q: "performGreenfieldUpload cx s = (q, u)" by fastforce
  have u: "has_upload (ux_uploadId cx) u" using keepsD [OF keeps_perform [OF d] row] q by simp
  then obtain r where r: "row_of uq_upload_id (ux_uploadId cx) (ue_queue u) = Some r"
    by (auto simp: has_upload_def)
  then have k: "uq_upload_id r = ux_uploadId cx" by (auto dest: row_of_Some)
  show ?thesis
  proof (cases q)
    case (Inl e)
    with run q u show ?thesis by (auto simp: executeUpload_def io_simps)
  next
    case (Inr dl)
    with run q have "t = snd (emitUploadProgress cx UCompleted (registry_remove (ux_uploadId cx)
        (snd (updateUploadCompletion (ux_uploadId cx) u))))"
      by (auto simp: executeUpload_def io_simps updateUploadCompletion_def on_uploads_def emitUploadProgress_def)
    with r k show ?thesis
      by (auto simp: has_upload_def upload_status_in_def updateUploadCompletion_def on_uploads_def
          emitUploadProgress_def registry_remove_def io_simps row_of_update registry_getSignal_def
          AList.delete_conv')
  qed
qed

lemma handleUploadError_ends:
  assumes "has_upload (ux_uploadId cx) s"
  shows "fst (handleUploadError cx e s) = Inr () \<and>
    upload_status_in (ux_uploadId cx)
      {if js_message e = ''Upload cancelled'' then UCancelled else UFailed} (snd (handleUploadError cx e s)) \<and>
    registry_getSignal (ux_uploadId cx) (snd (handleUploadError cx e s)) = None"
proof -
  obtain r where r: "row_of uq_upload_id (ux_uploadId cx) (ue_queue s) = Some r"
    using assms by (auto simp: has_upload_def)
  then have k: "uq_upload_id r = ux_uploadId cx" by (auto dest: row_of_Some)
  with r show ?thesis
    by (simp add: handleUploadError_def updateUploadStatus_def updateUploadFailure_def on_uploads_def
        set_upload_status_def upload_status_in_def registry_remove_def registry_getSignal_def
        AList.delete_conv' io_simps row_of_update)
qed

lemma run_upload_ends:
  assumes d: "uploads_keep (has_upload (ux_uploadId cx)) (ux_deps cx)" and row: "has_upload (ux_uploadId cx) s"
    and run: "run_upload cx s = (result, t)"
  shows "upload_status_in (ux_uploadId cx)
      {case result of Inr _ \<Rightarrow> UCompleted
       | Inl e \<Rightarrow> if js_message e = ''Upload cancelled'' then UCancelled else UFailed} t \<and>
    registry_getSignal (ux_uploadId cx) t = None"
proof -
  obtain q u where q: "executeUpload cx s = (q, u)" by fastforce
  note ends = executeUpload_ends [OF d row q]
  show ?thesis
  proof (cases q)
    case (Inl e)
    from ends have "has_upload (ux_uploadId cx) u" ..
    note h = handleUploadError_ends [OF this, of e]
    obtain v where v: "handleUploadError cx e u = (Inr (), v)" using h by (cases "handleUploadError cx e u") simp
    with run q Inl have "result = Inl e" "t = v" by (simp_all add: run_upload_def io_simps)
    with h v show ?thesis by simp
  next
    case (Inr r)
    with run q have "result = Inr r" "t = u" by (simp_all add: run_upload_def io_simps)
    with ends Inr show ?thesis by simp
  qed
qed

text \<open>
  An upload that starts is settled when it ends. Whatever the backend, the file reader and
  Greenfield do, and whatever other code does meanwhile short of deleting the row, \<^verbatim>\<open>uploadMedia\<close>
  leaves its row \<^verbatim>\<open>completed\<close> if it returned a result, \<^verbatim>\<open>cancelled\<close> if the error has the
  message of a cancelled upload, \<^verbatim>\<open>failed\<close> otherwise, and no abort controller behind.
\<close>

theorem upload_ends_settled:
  assumes "uploads_keep (has_upload uid) deps" and "validateUploadInput input = Inr ()"
    and "uid \<notin> uq_upload_id ` set (ue_queue s)"
    and "uploadMedia pl deps uid input hasProgress s = (result, t)"
  shows "upload_status_in uid
      {case result of Inr _ \<Rightarrow> UCompleted
       | Inl e \<Rightarrow> if js_message e = ''Upload cancelled'' then UCancelled else UFailed} t \<and>
    registry_getSignal uid t = None"
proof -
  let ?cx = "\<lparr>ux_platform = pl, ux_deps = deps, ux_uploadId = uid, ux_input = input,
              ux_signal = cr_next s, ux_hasProgress = hasProgress\<rparr>"
  let ?s2 = "(snd (registry_register uid s))\<lparr>ue_queue := ue_queue s @ [new_upload uid input (env_now s)]\<rparr>"
  have run: "run_upload ?cx ?s2 = (result, t)"
    using assms(2-4) by (simp add: uploadMedia_def register_upload_def registry_register_def io_sum_def
        insertUpload_def new_upload_def io_simps)
  have row: "has_upload (ux_uploadId ?cx) ?s2"
    by (auto simp: has_upload_def row_of_append new_upload_def split: option.splits)
  from run_upload_ends [OF _ row run] assms(1) show ?thesis by simp
qed

text \<open>
  A cancelled upload can end \<^verbatim>\<open>failed\<close>, and then it is uploaded again. If the upload was
  cancelled while the transfer was running, so that the row says \<^verbatim>\<open>cancelled\<close>, and the aborted
  transfer rejects with any message but the one of \<^verbatim>\<open>greenfieldUpload\<close> itself (the rejection of
  \<^verbatim>\<open>fetch\<close> has its own), the error handler overwrites the status with \<^verbatim>\<open>failed\<close>: the row is
  among those the next \<^verbatim>\<open>retryFailedUploads\<close> uploads.
\<close>

theorem cancelled_upload_ends_failed:
  assumes "executeUpload cx s = (Inl e, u)" and "upload_status_in (ux_uploadId cx) {UCancelled} u"
    and "js_message e \<noteq> ''Upload cancelled''"
  shows "\<exists>r \<in> set (projr (fst (getUploadsByStatus UFailed (snd (run_upload cx s))))).
    uq_upload_id r = ux_uploadId cx"
proof -
  obtain r where r: "row_of uq_upload_id (ux_uploadId cx) (ue_queue u) = Some r"
    using assms(2) by (auto simp: upload_status_in_def)
  then have "has_upload (ux_uploadId cx) u" by (simp add: has_upload_def)
  note h = handleUploadError_ends [OF this, of e]
  obtain v where v: "handleUploadError cx e u = (Inr (), v)" using h by (cases "handleUploadError cx e u") simp
  have "snd (run_upload cx s) = v" using assms(1) v by (simp add: run_upload_def io_simps)
  with h v assms(3) show ?thesis
    by (auto simp: getUploadsByStatus_def io_simps upload_status_in_def dest!: row_of_Some)
qed

section \<open>What a round of retries does\<close>

text \<open>The row of an upload, with a number of failures; the row as it is.\<close>

definition failures_are :: "string \<Rightarrow> nat \<Rightarrow> 'x upload_env_scheme \<Rightarrow> bool" where
  "failures_are uid c s = (\<exists>r. row_of uq_upload_id uid (ue_queue s) = Some r \<and> uq_retry_count r = c)"

definition row_is :: "string \<Rightarrow> upload_record \<Rightarrow> 'x upload_env_scheme \<Rightarrow> bool" where
  "row_is uid r s = (row_of uq_upload_id uid (ue_queue s) = Some r)"

definition outcome_of_retry :: "upload_record \<Rightarrow> upload_record \<Rightarrow> bool" where
  "outcome_of_retry r r' =
     (uq_status r' = UCompleted \<and> uq_retry_count r' = uq_retry_count r \<or>
      uq_status r' = UFailed \<and> uq_retry_count r' = Suc (uq_retry_count r))"

definition leaves_queue :: "('x upload_env_scheme, 'b) upload_deps \<Rightarrow> bool" where
  "leaves_queue deps = (\<forall>rows. uploads_keep (\<lambda>s. ue_queue s = rows) deps)"

lemma keeps_of_queue:
  "(\<And>rows. keeps (\<lambda>s. ue_queue s = rows) m) \<Longrightarrow> keeps (\<lambda>s. Q (ue_queue s)) m"
  by (auto simp: keeps_def)

lemma leaves_queueD:
  assumes "leaves_queue deps"
  shows "uploads_keep (failures_are uid c) deps" "uploads_keep (row_is uid r) deps"
proof -
  have "uploads_keep (\<lambda>s. Q (ue_queue s)) deps" for Q
    using assms by (simp add: leaves_queue_def uploads_keep_def keeps_of_queue)
  from this [of "\<lambda>rows. \<exists>r. row_of uq_upload_id uid rows = Some r \<and> uq_retry_count r = c"]
    this [of "\<lambda>rows. row_of uq_upload_id uid rows = Some r"]
  show "uploads_keep (failures_are uid c) deps" "uploads_keep (row_is uid r) deps"
    by (simp_all add: failures_are_def [abs_def] row_is_def [abs_def])
qed

lemma keeps_failures [keeps_intros]:
  "keeps (failures_are uid c) (updateUploadStatus k st)"
  "keeps (failures_are uid c) (updateDelegation k b ob)"
  "keeps (failures_are uid c) (register_upload k)"
  by (auto simp: keeps_def failures_are_def updateUploadStatus_def updateDelegation_def on_uploads_def
      set_upload_status_def row_of_update io_simps register_upload_def registry_register_def)

lemma keeps_other_row:
  assumes "uid \<noteq> k"
  shows "keeps (row_is uid r) (updateUploadStatus k st)"
    "keeps (row_is uid r) (updateDelegation k b ob)"
    "keeps (row_is uid r) (updateUploadCompletion k)"
    "keeps (row_is uid r) (updateUploadFailure k m)"
    "keeps (row_is uid r) (register_upload k)"
    "keeps (row_is uid r) (io_modify (registry_remove k))"
    "keeps (row_is uid r) (emit_log lvl msg tag data)"
  using assms
  by (auto simp: keeps_def row_is_def updateUploadStatus_def updateDelegation_def on_uploads_def
      set_upload_status_def row_of_update io_simps register_upload_def registry_register_def
      updateUploadCompletion_def updateUploadFailure_def registry_remove_def dest: row_of_Some)

definition upost :: "('s \<Rightarrow> bool) \<Rightarrow> ('s, 'e, 'a) io \<Rightarrow> ('s \<Rightarrow> bool) \<Rightarrow> bool" where
  "upost P m Q = (\<forall>s. P s \<longrightarrow> (case m s of (Inr a, t) \<Rightarrow> Q t | (Inl e, t) \<Rightarrow> P t))"

lemma upost_bind: "keeps P m \<Longrightarrow> (\<And>a. upost P (f a) Q) \<Longrightarrow> upost P (io_bind m f) Q"
proof -
  assume m: "keeps P m" and f: "\<And>a. upost P (f a) Q"
  show ?thesis
    unfolding upost_def
  proof (intro allI impI)
    fix s
    assume "P s"
    with m have t: "P (snd (m s))" by (rule keepsD)
    show "case io_bind m f s of (Inr a, t) \<Rightarrow> Q t | (Inl e, t) \<Rightarrow> P t"
    proof (cases "fst (m s)")
      case (Inl e)
      with t show ?thesis by (cases "m s") (simp add: io_simps)
    next
      case (Inr a)
      have "case f a (snd (m s)) of (Inr b, t) \<Rightarrow> Q t | (Inl e, t) \<Rightarrow> P t"
        using f [of a] t by (simp add: upost_def)
      with Inr show ?thesis by (simp add: io_bind_Inr)
    qed
  qed
qed

lemma upost_then: "keeps P m \<Longrightarrow> upost P n Q \<Longrightarrow> upost P (io_then m n) Q"
  by (simp add: io_then_def upost_bind)

lemma retry_one_row:
  assumes d: "leaves_queue deps" and row: "row_is (uq_upload_id item) item s"
  shows "\<exists>r'. row_is (uq_upload_id item) r' (snd (retry_one pl deps item s)) \<and> outcome_of_retry item r'"
proof -
  let ?k = "uq_upload_id item" and ?c = "uq_retry_count item"
  let ?Q = "\<lambda>s. failures_are ?k ?c s \<and> upload_status_in ?k {UCompleted} s"
  note keep = leaves_queueD(1) [OF d, of ?k ?c]
  have fin: "upost (failures_are ?k ?c) (io_then (updateUploadCompletion ?k)
      (io_then (io_modify (registry_remove ?k)) (io_return a))) ?Q" for a :: upload_result
    by (auto simp: upost_def failures_are_def upload_status_in_def updateUploadCompletion_def
        on_uploads_def registry_remove_def row_of_update io_simps dest: row_of_Some)
  have retry: "upost (failures_are ?k ?c) (retryUpload pl deps item) ?Q"
    unfolding retryUpload_def requestRetryDelegation_def requestDelegation_def
    by (intro upost_bind [OF keeps_failures(3)] upost_bind upost_then fin keeps_intros
        keeps_greenfield [OF keep] uploads_keepD [OF keep])
  have start: "failures_are ?k ?c s" using row by (auto simp: failures_are_def row_is_def)
  obtain q u where q: "retryUpload pl deps item s = (q, u)" by fastforce
  show ?thesis
  proof (cases q)
    case (Inr res)
    with q have u: "snd (retry_one pl deps item s) = u" by (simp add: retry_one_def io_simps)
    have "?Q u" using retry [unfolded upost_def, rule_format, OF start] q Inr by simp
    with u show ?thesis
      by (auto simp: row_is_def outcome_of_retry_def failures_are_def upload_status_in_def)
  next
    case (Inl e)
    then have "failures_are ?k ?c u" using retry [unfolded upost_def, rule_format, OF start] q by simp
    then obtain r where r: "row_of uq_upload_id ?k (ue_queue u) = Some r" "uq_retry_count r = ?c"
      by (auto simp: failures_are_def)
    with q Inl show ?thesis
      by (auto simp: retry_one_def io_simps updateUploadFailure_def on_uploads_def row_is_def
          row_of_update outcome_of_retry_def dest: row_of_Some)
  qed
qed

lemma retry_one_others:
  assumes d: "leaves_queue deps" and other: "uid \<noteq> uq_upload_id item"
  shows "keeps (row_is uid r) (retry_one pl deps item)"
  unfolding retry_one_def retryUpload_def requestRetryDelegation_def requestDelegation_def
  by (intro keeps_return keeps_throw keeps_bind keeps_then keeps_catch keeps_other_row [OF other]
      keeps_greenfield [OF leaves_queueD(2) [OF d]] uploads_keepD [OF leaves_queueD(2) [OF d]])

lemma retry_loop_others:
  assumes d: "leaves_queue deps" and "uid \<notin> uq_upload_id ` set items"
  shows "keeps (row_is uid r) (upload_retry_loop pl deps items)"
  using assms(2)
proof (induction items)
  case (Cons item items)
  then have "uid \<noteq> uq_upload_id item" and ih: "keeps (row_is uid r) (upload_retry_loop pl deps items)"
    by auto
  with retry_one_others [OF d] show ?case
    unfolding upload_retry_loop.simps by (intro keeps_if keeps_bind keeps_return) blast+
qed (simp add: keeps_return)

lemma retry_one_returns: "\<exists>res. fst (retry_one pl deps item s) = Inr res"
  by (cases "retryUpload pl deps item s"; cases "fst (retryUpload pl deps item s)")
    (auto simp: retry_one_def io_simps updateUploadFailure_def on_uploads_def)

lemma retry_loop_row:
  assumes d: "leaves_queue deps"
    and "distinct (map uq_upload_id items)" "r \<in> set items" "row_is (uq_upload_id r) r s"
  shows "\<exists>r'. row_is (uq_upload_id r) r' (snd (upload_retry_loop pl deps items s)) \<and>
    (if uq_retry_count r < MAX_UPLOAD_RETRIES then outcome_of_retry r r' else r' = r)"
  using assms(2-4)
proof (induction items arbitrary: s)
  case (Cons item items)
  let ?loop = "upload_retry_loop pl deps items"
  obtain res where res: "fst (retry_one pl deps item s) = Inr res" using retry_one_returns by blast
  let ?s1 = "snd (retry_one pl deps item s)"
  have tail: "snd (upload_retry_loop pl deps (item # items) s) =
      (if uq_retry_count item \<ge> MAX_UPLOAD_RETRIES then snd (?loop s) else snd (?loop ?s1))"
    using res by (cases "retry_one pl deps item s") (simp add: io_simps split: prod.splits sum.splits)
  show ?case
  proof (cases "r = item")
    case True
    have "uq_upload_id item \<notin> uq_upload_id ` set items" using Cons.prems(1) by simp
    from retry_loop_others [OF d this] have keep: "keeps (row_is (uq_upload_id item) r') ?loop" for r' .
    show ?thesis
    proof (cases "uq_retry_count item \<ge> MAX_UPLOAD_RETRIES")
      case large: True
      with Cons.prems(3) True keepsD [OF keep] show ?thesis unfolding tail by auto
    next
      case False
      from retry_one_row [OF d Cons.prems(3) [unfolded True]] obtain r' where
        r': "row_is (uq_upload_id item) r' ?s1" "outcome_of_retry item r'" by blast
      with keepsD [OF keep r'(1)] False True show ?thesis unfolding tail by auto
    qed
  next
    case False
    then have in_items: "r \<in> set items" using Cons.prems(2) by simp
    have "uq_upload_id item \<notin> uq_upload_id ` set items" using Cons.prems(1) by simp
    with in_items have "uq_upload_id r \<noteq> uq_upload_id item" by (metis imageI)
    from keepsD [OF retry_one_others [OF d this] Cons.prems(3)]
    have s1: "row_is (uq_upload_id r) r ?s1" .
    have dist: "distinct (map uq_upload_id items)" using Cons.prems(1) by simp
    show ?thesis
      unfolding tail using Cons.IH [OF dist in_items Cons.prems(3)] Cons.IH [OF dist in_items s1] by simp
  qed
qed simp

text \<open>
  A round of retries does what it should to every row, and nothing else. While the calls it
  makes leave the queue alone, \<^verbatim>\<open>retryFailedUploads\<close> turns each failed upload with fewer than
  five failures into a completed one with as many failures, or a failed one with one failure
  more; an upload that failed five times, and every upload that is not failed, keeps its row.
\<close>

theorem retries_settle_the_failed_rows:
  assumes "leaves_queue deps" and "distinct (map uq_upload_id (ue_queue s))" and "r \<in> set (ue_queue s)"
  shows "\<exists>r'. row_of uq_upload_id (uq_upload_id r) (ue_queue (snd (retryFailedUploads pl deps s))) = Some r' \<and>
    (if uq_status r = UFailed \<and> uq_retry_count r < 5 then outcome_of_retry r r' else r' = r)"
proof -
  let ?items = "sort_key uq_created_at (filter (\<lambda>r. uq_status r = UFailed) (ue_queue s))"
  have run: "retryFailedUploads pl deps s = upload_retry_loop pl deps ?items s"
    by (simp add: retryFailedUploads_def getUploadsByStatus_def io_simps)
  have "row_of uq_upload_id (uq_upload_id r) (ue_queue s) \<noteq> None"
    using assms(3) by (simp add: row_of_None)
  then obtain q where "row_of uq_upload_id (uq_upload_id r) (ue_queue s) = Some q" by blast
  moreover from row_of_Some [OF this] have "q = r" using assms(2,3) by (auto simp: distinct_map inj_on_def)
  ultimately have row: "row_is (uq_upload_id r) r s" by (simp add: row_is_def)
  have dist: "distinct (map uq_upload_id ?items)"
    using assms(2) by (simp add: distinct_map inj_on_def)
  show ?thesis
  proof (cases "uq_status r = UFailed")
    case True
    then have "r \<in> set ?items" using assms(3) by simp
    from retry_loop_row [OF assms(1) dist this row] True show ?thesis
      unfolding run row_is_def MAX_UPLOAD_RETRIES_def by auto
  next
    case False
    then have "uq_upload_id r \<notin> uq_upload_id ` set ?items"
      using assms(2,3) by (auto simp: distinct_map inj_on_def)
    from keepsD [OF retry_loop_others [OF assms(1) this] row] False show ?thesis
      unfolding run row_is_def by auto
  qed
qed

section \<open>Sample uploads\<close>

definition sample_delegation :: delegation_response where
  "sample_delegation = \<lparr>dg_bucketName = ''b'', dg_objectName = ''o'', dg_authType = ''EDDSA'',
     dg_domain = ''d'', dg_seedString = ''s'', dg_address = ''a''\<rparr>"

text \<open>The transfer is given; everything else succeeds at once.\<close>

definition sample_upload_deps ::
  "('x, unit) uio \<Rightarrow> ('x upload_env_scheme, unit) upload_deps" where
  "sample_upload_deps transfer =
     \<lparr>ud_post = (\<lambda>_ _. io_return sample_delegation), ud_apiBaseUrl = ''/api'',
      ud_fetchBlob = (\<lambda>_ _. io_return ()), ud_readFile = (\<lambda>_. io_return ()),
      ud_delegateUploadObject = (\<lambda>_ _ _ _ _. transfer)\<rparr>"

definition sample_input :: upload_input where
  "sample_input = \<lparr>ui_uri = ''blob:1'', ui_mimeType = ''image/png'', ui_fileSize = JFinite 7\<rparr>"

definition sample_upload_env :: upload_env where
  "sample_upload_env = \<lparr>env_now = 3, env_log = [], cr_controllers = [], cr_aborted = [], cr_next = 0,
     ue_queue = [(new_upload ''u0'' sample_input 1)\<lparr>uq_status := UFailed, uq_retry_count := 5\<rparr>,
       (new_upload ''u1'' sample_input 2)\<lparr>uq_status := UFailed, uq_retry_count := 1\<rparr>],
     ue_progress = []\<rparr>"

lemma sample_deps_keep: "keeps P transfer \<Longrightarrow> uploads_keep P (sample_upload_deps transfer)"
  by (simp add: uploads_keep_def sample_upload_deps_def keeps_return)

theorem upload_ends_settled_witness:
  "upload_status_in ''u2'' {UCompleted}
     (snd (uploadMedia PlatformWeb (sample_upload_deps (io_return ())) ''u2'' sample_input True sample_upload_env))"
proof -
  let ?run = "uploadMedia PlatformWeb (sample_upload_deps (io_return ())) ''u2'' sample_input True sample_upload_env"
  have v: "validateUploadInput sample_input = Inr ()"
    by (simp add: validateUploadInput_def sample_input_def js_white_space_def MIME_TYPE_PATTERN_def
        is_alpha_def is_alnum_def is_digit_def)
  have f: "''u2'' \<notin> uq_upload_id ` set (ue_queue sample_upload_env)"
    by (simp add: sample_upload_env_def new_upload_def)
  have r: "?run = (fst ?run, snd ?run)" by simp
  have w: "validateWebUri ''blob:1'' = Inr ()"
    by (simp add: validateWebUri_def getScheme_def js_lower_def js_lower_char_def)
  have "\<not> isl (fst ?run)"
    by (simp add: uploadMedia_def v [unfolded sample_input_def] io_sum_def register_upload_def registry_register_def insertUpload_def
        new_upload_def run_upload_def executeUpload_def performGreenfieldUpload_def fetchDelegation_def
        requestDelegation_def greenfieldUpload_def greenfieldUpload_web_def throw_if_upload_aborted_def
        aborted_def sample_upload_deps_def sample_input_def sample_upload_env_def w io_simps
        updateUploadStatus_def updateDelegation_def updateUploadCompletion_def on_uploads_def
        emitUploadProgress_def)
  then have c: "(case fst ?run of Inr _ \<Rightarrow> UCompleted
      | Inl e \<Rightarrow> if js_message e = ''Upload cancelled'' then UCancelled else UFailed) = UCompleted"
    by (cases "fst ?run") simp_all
  from upload_ends_settled [OF sample_deps_keep [OF keeps_return] v f r] show ?thesis
    unfolding c by (rule conjunct1)
qed

text \<open>The user cancels during the transfer, which then rejects with the message of an abort.\<close>

definition aborted_transfer :: "string \<Rightarrow> ('x, unit) uio" where
  "aborted_transfer uid =
     io_then (cancelUpload uid) (io_throw (JsErr (Some ''This operation was aborted'')))"

definition sample_upload_context :: "(upload_env, unit) upload_context" where
  "sample_upload_context = \<lparr>ux_platform = PlatformWeb, ux_deps = sample_upload_deps (aborted_transfer ''u1''),
     ux_uploadId = ''u1'', ux_input = sample_input, ux_signal = 0, ux_hasProgress = False\<rparr>"

theorem cancelled_upload_ends_failed_witness:
  "\<exists>r \<in> set (projr (fst (getUploadsByStatus UFailed (snd (run_upload sample_upload_context
      (snd (registry_register ''u1'' sample_upload_env))))))). uq_upload_id r = ''u1''"
proof -
  let ?s = "snd (registry_register ''u1'' sample_upload_env)"
  have w: "validateWebUri ''blob:1'' = Inr ()"
    by (simp add: validateWebUri_def getScheme_def js_lower_def js_lower_char_def)
  have "fst (executeUpload sample_upload_context ?s) = Inl (JsErr (Some ''This operation was aborted'')) \<and>
      upload_status_in ''u1'' {UCancelled} (snd (executeUpload sample_upload_context ?s))"
    by (simp add: executeUpload_def performGreenfieldUpload_def fetchDelegation_def requestDelegation_def
        greenfieldUpload_def greenfieldUpload_web_def throw_if_upload_aborted_def aborted_def
        sample_upload_deps_def sample_input_def sample_upload_env_def sample_upload_context_def w io_simps
        io_sum_def registry_register_def new_upload_def updateUploadStatus_def updateDelegation_def
        on_uploads_def set_upload_status_def update_where_def emitUploadProgress_def aborted_transfer_def
        cancelUpload_def registry_cancel_def updateUploadStatusIfNotTerminal_def set_upload_status_if_def
        UPLOAD_TERMINAL_STATUSES_def getUpload_def upload_status_in_def row_of_def)
  then obtain u where u: "executeUpload sample_upload_context ?s =
      (Inl (JsErr (Some ''This operation was aborted'')), u)" "upload_status_in ''u1'' {UCancelled} u"
    by (metis prod.collapse)
  have id: "ux_uploadId sample_upload_context = ''u1''" by (simp add: sample_upload_context_def)
  have m: "js_message (JsErr (Some ''This operation was aborted'')) \<noteq> ''Upload cancelled''"
    by (simp add: js_message_def err_message_def)
  from cancelled_upload_ends_failed [OF u(1) _ m] u(2) show ?thesis unfolding id by simp
qed

theorem retries_settle_the_failed_rows_witness:
  "\<exists>r'. row_of uq_upload_id ''u0'' (ue_queue (snd (retryFailedUploads PlatformWeb
      (sample_upload_deps (io_return ())) sample_upload_env))) = Some r' \<and> uq_status r' = UFailed"
proof -
  let ?r = "(new_upload ''u0'' sample_input 1)\<lparr>uq_status := UFailed, uq_retry_count := 5\<rparr>"
  have l: "leaves_queue (sample_upload_deps (io_return ()))"
    by (simp add: leaves_queue_def sample_deps_keep keeps_return)
  have d: "distinct (map uq_upload_id (ue_queue sample_upload_env))"
    by (simp add: sample_upload_env_def new_upload_def)
  have i: "?r \<in> set (ue_queue sample_upload_env)" by (simp add: sample_upload_env_def)
  from retries_settle_the_failed_rows [OF l d i, of PlatformWeb] show ?thesis
    by (auto simp: new_upload_def)
qed

text \<open>A retry that fails leaves its abort controller in the registry.\<close>

lemma failed_retry_leaves_controller:
  "registry_getSignal ''u1'' (snd (retryFailedUploads PlatformWeb
     (sample_upload_deps (io_throw (JsErr None))) sample_upload_env)) \<noteq> None"
proof -
  have w: "validateWebUri ''blob:1'' = Inr ()"
    by (simp add: validateWebUri_def getScheme_def js_lower_def js_lower_char_def)
  show ?thesis
    by (simp add: retryFailedUploads_def getUploadsByStatus_def MAX_UPLOAD_RETRIES_def retry_one_def
        retryUpload_def requestRetryDelegation_def requestDelegation_def greenfieldUpload_def
        greenfieldUpload_web_def throw_if_upload_aborted_def aborted_def sample_upload_deps_def
        sample_input_def sample_upload_env_def w io_simps io_sum_def register_upload_def
        registry_register_def new_upload_def updateUploadStatus_def updateDelegation_def on_uploads_def
        updateUploadFailure_def registry_getSignal_def)
qed

end
