(* ===== verification/Diagnostics.thy ===== *)
theory Diagnostics
  imports Prelude
begin

text \<open>
  \<^verbatim>\<open>packages/diagnostics/src\<close>: the logger behind every component. An entry goes to the ring
  buffer, to the console and to Sentry, each with its own level; Sentry also filters transient
  network failures out. The other theories only record which entries they give to the logger
  (\<^const>\<open>env_log\<close>); this one says what becomes of an entry. The clock, the console and the Sentry
  module are outside: the clock is an argument, the calls to the other two are recorded.
\<close>

section \<open>Levels and entries\<close>

datatype diag_level = DebugLevel | InfoLevel | WarningLevel | ErrorLevel | FatalLevel

fun level_number :: "diag_level \<Rightarrow> nat" where
  "level_number DebugLevel = 0"
| "level_number InfoLevel = 1"
| "level_number WarningLevel = 2"
| "level_number ErrorLevel = 3"
| "level_number FatalLevel = 4"

instantiation diag_level :: linorder
begin

definition less_eq_diag_level :: "diag_level \<Rightarrow> diag_level \<Rightarrow> bool" where
  "less_eq_diag_level l m = (level_number l \<le> level_number m)"

definition less_diag_level :: "diag_level \<Rightarrow> diag_level \<Rightarrow> bool" where
  "less_diag_level l m = (level_number l < level_number m)"

instance
proof
  fix l m :: diag_level
  show "l \<le> m \<Longrightarrow> m \<le> l \<Longrightarrow> l = m"
    by (cases l; cases m) (simp_all add: less_eq_diag_level_def)
qed (auto simp: less_eq_diag_level_def less_diag_level_def)

end

lemma fatal_is_top [simp]: "l \<le> FatalLevel"
  by (cases l) (simp_all add: less_eq_diag_level_def)

definition isLevelEnabled :: "diag_level \<Rightarrow> diag_level \<Rightarrow> bool" where
  "isLevelEnabled entryLevel minimumLevel = (entryLevel \<ge> minimumLevel)"

fun getLevelLabel :: "diag_level \<Rightarrow> string" where
  "getLevelLabel DebugLevel = ''DEBUG''"
| "getLevelLabel InfoLevel = ''INFO''"
| "getLevelLabel WarningLevel = ''WARN''"
| "getLevelLabel ErrorLevel = ''ERROR''"
| "getLevelLabel FatalLevel = ''FATAL''"

record js_exception =
  ex_name :: string
  ex_message :: string

record diag_entry =
  dg_timestamp :: int
  dg_level :: diag_level
  dg_message :: string
  dg_tag :: "string option"
  dg_data :: "js_value js_record option"
  dg_error :: "js_exception option"

record log_options =
  op_tag :: "string option"
  op_data :: "js_value js_record option"
  op_error :: "js_exception option"

definition no_options :: log_options where
  "no_options = \<lparr>op_tag = None, op_data = None, op_error = None\<rparr>"

text \<open>The empty tag is falsy and is not set.\<close>

definition createLogEntry :: "int \<Rightarrow> diag_level \<Rightarrow> string \<Rightarrow> log_options \<Rightarrow> diag_entry" where
  "createLogEntry now lvl msg opts =
     \<lparr>dg_timestamp = now, dg_level = lvl, dg_message = msg,
      dg_tag = (if op_tag opts = Some [] then None else op_tag opts),
      dg_data = op_data opts, dg_error = op_error opts\<rparr>"

section \<open>The ring buffer\<close>

definition DEFAULT_BUFFER_CAPACITY :: nat where
  "DEFAULT_BUFFER_CAPACITY = 100000"

record log_buffer =
  lb_buffer :: "diag_entry option list"
  lb_capacity :: nat
  lb_writeIndex :: nat
  lb_count :: nat

definition new_LogBuffer :: "int option \<Rightarrow> log_buffer" where
  "new_LogBuffer capacity =
     (let c = (case capacity of None \<Rightarrow> DEFAULT_BUFFER_CAPACITY
               | Some n \<Rightarrow> if n > 0 then nat n else DEFAULT_BUFFER_CAPACITY) in
      \<lparr>lb_buffer = replicate c None, lb_capacity = c, lb_writeIndex = 0, lb_count = 0\<rparr>)"

definition buffer_add :: "diag_entry \<Rightarrow> log_buffer \<Rightarrow> log_buffer" where
  "buffer_add entry b =
     b\<lparr>lb_buffer := (lb_buffer b)[lb_writeIndex b := Some entry],
       lb_writeIndex := (lb_writeIndex b + 1) mod lb_capacity b,
       lb_count := (if lb_count b < lb_capacity b then lb_count b + 1 else lb_count b)\<rparr>"

definition calculateStartIndex :: "log_buffer \<Rightarrow> nat" where
  "calculateStartIndex b = (if lb_count b < lb_capacity b then 0 else lb_writeIndex b)"

fun entries_among :: "'a option list \<Rightarrow> 'a list" where
  "entries_among [] = []"
| "entries_among (None # xs) = entries_among xs"
| "entries_among (Some x # xs) = x # entries_among xs"

definition getEntries :: "log_buffer \<Rightarrow> diag_entry list" where
  "getEntries b =
     (if lb_count b = 0 then []
      else entries_among (map (\<lambda>i. lb_buffer b ! ((calculateStartIndex b + i) mod lb_capacity b))
             [0..<lb_count b]))"

definition getEntriesByLevel :: "diag_level \<Rightarrow> log_buffer \<Rightarrow> diag_entry list" where
  "getEntriesByLevel minimumLevel b =
     filter (\<lambda>entry. isLevelEnabled (dg_level entry) minimumLevel) (getEntries b)"

definition buffer_clear :: "log_buffer \<Rightarrow> log_buffer" where
  "buffer_clear b = b\<lparr>lb_buffer := replicate (length (lb_buffer b)) None, lb_writeIndex := 0, lb_count := 0\<rparr>"

text \<open>
  The buffer represents the entries \<open>es\<close>, oldest first: slot \<open>(start + i) mod capacity\<close> holds
  the \<open>i\<close>-th.
\<close>

definition represents :: "log_buffer \<Rightarrow> diag_entry list \<Rightarrow> bool" where
  "represents b es =
     (0 < lb_capacity b \<and> length (lb_buffer b) = lb_capacity b \<and> lb_count b = length es \<and>
      length es \<le> lb_capacity b \<and>
      lb_writeIndex b = (calculateStartIndex b + length es) mod lb_capacity b \<and>
      (\<forall>i < length es. lb_buffer b ! ((calculateStartIndex b + i) mod lb_capacity b) = Some (es ! i)))"

lemma entries_among_map: "entries_among (map (\<lambda>i. Some (f i)) is) = map f is"
  by (induction "is") auto

lemma represents_getEntries:
  assumes "represents b es"
  shows "getEntries b = es"
proof -
  have "entries_among (map (\<lambda>i. lb_buffer b ! ((calculateStartIndex b + i) mod lb_capacity b)) [0..<length es])
      = entries_among (map (\<lambda>i. Some (es ! i)) [0..<length es])"
    using assms by (intro arg_cong [where f = entries_among] map_cong) (auto simp: represents_def)
  also have "\<dots> = es" by (simp add: entries_among_map map_nth)
  finally show ?thesis using assms by (auto simp: getEntries_def represents_def)
qed

lemma represents_new: "represents (new_LogBuffer c) []"
  by (auto simp: represents_def new_LogBuffer_def Let_def calculateStartIndex_def
      DEFAULT_BUFFER_CAPACITY_def split: option.splits)

lemma mod_add_less_neq:
  fixes n :: nat
  assumes "0 < i" "i < n" "s < n"
  shows "(s + i) mod n \<noteq> s"
proof
  assume "(s + i) mod n = s"
  then have "(s + i) mod n = s mod n" using assms(3) by simp
  then have "n dvd s + i - s" by (subst (asm) mod_eq_dvd_iff_nat) simp_all
  with assms show False by (auto dest: dvd_imp_le)
qed

text \<open>What a bounded log is for: the newest \<open>n\<close> entries.\<close>

definition newest :: "nat \<Rightarrow> 'a list \<Rightarrow> 'a list" where
  "newest n es = drop (length es - n) es"

lemma represents_add:
  assumes r: "represents b es"
  shows "represents (buffer_add e b) (newest (lb_capacity b) (es @ [e]))"
proof -
  let ?n = "lb_capacity b" and ?w = "lb_writeIndex b"
  note r' = r [unfolded represents_def]
  have n: "0 < ?n" and len: "length (lb_buffer b) = ?n" and c: "lb_count b = length es" "length es \<le> ?n"
    and w: "?w = (calculateStartIndex b + length es) mod ?n"
    and slot: "\<And>i. i < length es \<Longrightarrow> lb_buffer b ! ((calculateStartIndex b + i) mod ?n) = Some (es ! i)"
    using r' by blast+
  have wn: "?w < ?n" using w n by simp
  show ?thesis
  proof (cases "length es < ?n")
    case True
    then have w0: "?w = length es" using w c by (simp add: calculateStartIndex_def)
    have slot0: "lb_buffer b ! i = Some (es ! i)" if "i < length es" for i
      using slot [OF that] that c True by (simp add: calculateStartIndex_def)
    have new: "newest ?n (es @ [e]) = es @ [e]" using True by (simp add: newest_def)
    show ?thesis
    proof (cases "Suc (length es) < ?n")
      case True
      with w0 c slot0 len new show ?thesis
        by (auto simp: represents_def buffer_add_def calculateStartIndex_def nth_append nth_list_update
            less_Suc_eq)
    next
      case False
      with \<open>length es < ?n\<close> have full: "?n = Suc (length es)" by simp
      with w0 c slot0 len new show ?thesis
        by (auto simp: represents_def buffer_add_def calculateStartIndex_def nth_append nth_list_update
            less_Suc_eq)
    qed
  next
    case False
    then have full: "length es = ?n" using c by simp
    have st: "calculateStartIndex b = ?w" using c full by (simp add: calculateStartIndex_def)
    have new: "newest ?n (es @ [e]) = tl es @ [e]" using full n by (cases "?n") (simp_all add: newest_def drop_Suc)
    have slot1: "lb_buffer b ! ((?w + i) mod ?n) = Some (es ! i)" if "i < ?n" for i
      using slot [of i] that full st by simp
    have "(lb_buffer b)[?w := Some e] ! (((?w + 1) mod ?n + i) mod ?n) = Some ((tl es @ [e]) ! i)"
      if i: "i < ?n" for i
    proof (cases "Suc i = ?n")
      case True
      have "((?w + 1) mod ?n + i) mod ?n = (?w + Suc i) mod ?n" by (simp add: mod_add_left_eq)
      also have "\<dots> = ?w" using True wn by simp
      finally show ?thesis using len wn True full by (simp add: nth_append)
    next
      case False
      then have Si: "Suc i < ?n" using i by simp
      have "((?w + 1) mod ?n + i) mod ?n = (?w + Suc i) mod ?n" by (simp add: mod_add_left_eq)
      with mod_add_less_neq [OF _ Si wn] slot1 [OF Si] Si full len
      show ?thesis by (simp add: nth_append nth_tl)
    qed
    with full st new n len c wn show ?thesis
      by (auto simp: represents_def buffer_add_def calculateStartIndex_def mod_add_left_eq)
  qed
qed


lemma newest_newest: "newest n (newest n es @ [e]) = newest n (es @ [e])"
  by (cases "length es \<le> n") (simp_all add: newest_def Suc_diff_le)

text \<open>
  C13. The ring buffer keeps the newest entries, in order. After any number of entries, a buffer of
  capacity \<open>n\<close> returns exactly the last \<open>n\<close> of them, oldest first.
\<close>

theorem log_buffer_keeps_the_newest:
  "getEntries (fold buffer_add es (new_LogBuffer capacity)) =
     newest (lb_capacity (new_LogBuffer capacity)) es"
proof -
  have cap: "lb_capacity (fold buffer_add es b) = lb_capacity b" for es b
    by (induction es arbitrary: b) (simp_all add: buffer_add_def)
  have "represents (fold buffer_add es (new_LogBuffer capacity))
      (newest (lb_capacity (new_LogBuffer capacity)) es)"
  proof (induction es rule: rev_induct)
    case Nil
    then show ?case by (simp add: newest_def represents_new)
  next
    case (snoc e es)
    from represents_add [OF snoc.IH, of e] show ?case by (simp add: cap newest_newest)
  qed
  then show ?thesis by (rule represents_getEntries)
qed

lemma clear_empties: "getEntries (buffer_clear b) = []"
  by (simp add: getEntries_def buffer_clear_def)

section \<open>The console\<close>

datatype console_method = ConsoleDebug | ConsoleInfo | ConsoleWarn | ConsoleError

fun LEVEL_TO_METHOD_NAME :: "diag_level \<Rightarrow> console_method" where
  "LEVEL_TO_METHOD_NAME DebugLevel = ConsoleDebug"
| "LEVEL_TO_METHOD_NAME InfoLevel = ConsoleInfo"
| "LEVEL_TO_METHOD_NAME WarningLevel = ConsoleWarn"
| "LEVEL_TO_METHOD_NAME ErrorLevel = ConsoleError"
| "LEVEL_TO_METHOD_NAME FatalLevel = ConsoleError"

datatype console_arg = DataArg "js_value js_record" | ErrorArg js_exception

definition formatConsoleMessage :: "diag_entry \<Rightarrow> string" where
  "formatConsoleMessage entry =
     ''['' @ getLevelLabel (dg_level entry) @ '']'' @
     (case dg_tag entry of None \<Rightarrow> [] | Some t \<Rightarrow> if t = [] then [] else '' ['' @ t @ '']'') @
     '' '' @ dg_message entry"

definition buildConsoleArgs :: "diag_entry \<Rightarrow> console_arg list" where
  "buildConsoleArgs entry =
     (case dg_data entry of None \<Rightarrow> [] | Some d \<Rightarrow> [DataArg d]) @
     (case dg_error entry of None \<Rightarrow> [] | Some e \<Rightarrow> [ErrorArg e])"

section \<open>Sentry\<close>

datatype sentry_call =
    CaptureException js_exception "js_value js_record"
  | CaptureMessage string string "js_value js_record"
  | AddBreadcrumb string "string option" "diag_level option" "js_value js_record option"
  | SetSentryUser "string option"

text \<open>The patterns with the flag \<^verbatim>\<open>i\<close> are compared in lower case.\<close>

definition isTransientNetworkError :: "string \<Rightarrow> bool" where
  "isTransientNetworkError msg =
     (list_ex (includes_str (js_lower msg))
        [''network request failed'', ''timeout exceeded'', ''socket hang up'', ''aborted''] \<or>
      list_ex (includes_str msg)
        [''ECONNREFUSED'', ''ENOTFOUND'', ''ETIMEDOUT'', ''ENETUNREACH'', ''ECONNRESET'', ''EPIPE''])"

definition buildErrorMessage :: "diag_entry \<Rightarrow> string" where
  "buildErrorMessage entry =
     (case dg_error entry of
        None \<Rightarrow> dg_message entry
      | Some e \<Rightarrow> if ex_message e = [] then dg_message entry
                  else dg_message entry @ '' '' @ ex_message e)"

definition shouldSendToSentry :: "diag_entry \<Rightarrow> bool" where
  "shouldSendToSentry entry =
     (if dg_level entry = FatalLevel then True
      else if dg_tag entry = Some ''manual_log'' then True
      else \<not> isTransientNetworkError (buildErrorMessage entry))"

fun LEVEL_TO_SENTRY_SEVERITY :: "diag_level \<Rightarrow> string" where
  "LEVEL_TO_SENTRY_SEVERITY DebugLevel = ''debug''"
| "LEVEL_TO_SENTRY_SEVERITY InfoLevel = ''info''"
| "LEVEL_TO_SENTRY_SEVERITY WarningLevel = ''warning''"
| "LEVEL_TO_SENTRY_SEVERITY ErrorLevel = ''error''"
| "LEVEL_TO_SENTRY_SEVERITY FatalLevel = ''fatal''"

definition buildSentryContext :: "diag_entry \<Rightarrow> js_value js_record" where
  "buildSentryContext entry =
     (case dg_tag entry of None \<Rightarrow> [] | Some t \<Rightarrow>
        if t = [] then [] else [(''tags'', JObj 0 [(''manual_log'', JStr t)])]) @
     (case dg_data entry of None \<Rightarrow> [] | Some d \<Rightarrow> [(''extra'', JObj 0 [(''debug_context'', JObj 0 d)])])"

section \<open>The logger\<close>

text \<open>
  The module variables of \<^verbatim>\<open>logger.ts\<close> and \<^verbatim>\<open>sentry-transport.ts\<close>, the global error handler
  of the process, and what was given to the console and to Sentry. \<open>lg_development\<close> is
  \<^verbatim>\<open>isDevelopment()\<close>, \<open>lg_errorUtils\<close> whether the process has \<^verbatim>\<open>ErrorUtils\<close>.
\<close>

record logger =
  lg_development :: bool
  lg_errorUtils :: bool
  lg_buffer :: "log_buffer option"
  lg_consoleLevel :: diag_level
  lg_sentryLevel :: diag_level
  lg_isInitialized :: bool
  lg_sentryModule :: bool
  lg_exceptionHandlers :: nat
  lg_rejectionHandlers :: nat
  lg_console :: "(console_method \<times> string \<times> console_arg list) list"
  lg_sentry :: "sentry_call list"

definition initial_logger :: "bool \<Rightarrow> bool \<Rightarrow> logger" where
  "initial_logger development errorUtils =
     \<lparr>lg_development = development, lg_errorUtils = errorUtils, lg_buffer = None,
      lg_consoleLevel = DebugLevel, lg_sentryLevel = ErrorLevel, lg_isInitialized = False,
      lg_sentryModule = False, lg_exceptionHandlers = 0, lg_rejectionHandlers = 0,
      lg_console = [], lg_sentry = []\<rparr>"

definition sendToConsole :: "diag_entry \<Rightarrow> diag_level \<Rightarrow> logger \<Rightarrow> logger" where
  "sendToConsole entry minimumLevel s =
     (if \<not> isLevelEnabled (dg_level entry) minimumLevel then s
      else s\<lparr>lg_console := lg_console s @
        [(LEVEL_TO_METHOD_NAME (dg_level entry), formatConsoleMessage entry, buildConsoleArgs entry)]\<rparr>)"

definition sendToSentry :: "diag_entry \<Rightarrow> diag_level \<Rightarrow> logger \<Rightarrow> logger" where
  "sendToSentry entry minimumLevel s =
     (if \<not> lg_sentryModule s then s
      else if \<not> isLevelEnabled (dg_level entry) minimumLevel then s
      else if \<not> shouldSendToSentry entry then s
      else s\<lparr>lg_sentry := lg_sentry s @
        [case dg_error entry of
           Some e \<Rightarrow> CaptureException e (buildSentryContext entry)
         | None \<Rightarrow> CaptureMessage (dg_message entry)
                    (LEVEL_TO_SENTRY_SEVERITY (dg_level entry)) (buildSentryContext entry)]\<rparr>)"

definition getOrCreateBuffer :: "logger \<Rightarrow> log_buffer" where
  "getOrCreateBuffer s = (case lg_buffer s of None \<Rightarrow> new_LogBuffer None | Some b \<Rightarrow> b)"

definition diag_log :: "int \<Rightarrow> diag_level \<Rightarrow> string \<Rightarrow> log_options \<Rightarrow> logger \<Rightarrow> logger" where
  "diag_log now lvl msg opts s =
     (let entry = createLogEntry now lvl msg opts;
          s1 = s\<lparr>lg_buffer := Some (buffer_add entry (getOrCreateBuffer s))\<rparr>;
          s2 = sendToConsole entry (lg_consoleLevel s1) s1
      in sendToSentry entry (lg_sentryLevel s2) s2)"

record diag_config =
  dc_consoleLevel :: "diag_level option"
  dc_sentryLevel :: "diag_level option"
  dc_bufferCapacity :: "int option"
  dc_sentry :: bool
  dc_captureGlobalErrors :: "bool option"

definition resolveDefaultConsoleLevel :: "logger \<Rightarrow> diag_level" where
  "resolveDefaultConsoleLevel s = (if lg_development s then DebugLevel else WarningLevel)"

definition installGlobalErrorHandler :: "logger \<Rightarrow> logger" where
  "installGlobalErrorHandler s =
     s\<lparr>lg_exceptionHandlers := (if lg_errorUtils s then lg_exceptionHandlers s + 1
                               else lg_exceptionHandlers s),
       lg_rejectionHandlers := lg_rejectionHandlers s + 1\<rparr>"

definition logger_initialize :: "diag_config \<Rightarrow> logger \<Rightarrow> logger" where
  "logger_initialize config s =
     (if lg_isInitialized s then s
      else
        (let s1 = s\<lparr>lg_consoleLevel := (case dc_consoleLevel config of
                        None \<Rightarrow> resolveDefaultConsoleLevel s | Some l \<Rightarrow> l),
                    lg_sentryLevel := (case dc_sentryLevel config of
                        None \<Rightarrow> ErrorLevel | Some l \<Rightarrow> l),
                    lg_buffer := Some (new_LogBuffer (dc_bufferCapacity config))\<rparr>;
             s2 = (if dc_sentry config then s1\<lparr>lg_sentryModule := True\<rparr> else s1);
             s3 = (if dc_captureGlobalErrors config \<noteq> Some False
                   then installGlobalErrorHandler s2 else s2)
         in s3\<lparr>lg_isInitialized := True\<rparr>))"

definition isStateCancelledError :: "js_exception \<Rightarrow> bool" where
  "isStateCancelledError e = (ex_name e = ''StateError'' \<and> ex_message e = ''cancelled'')"

text \<open>
  An uncaught exception and an unhandled rejection, as the installed handlers see them, one after
  the other (every handler calls the one before it). A rejection reason that is no error is
  turned into one with its text.
\<close>

fun handle_uncaught :: "nat \<Rightarrow> int \<Rightarrow> js_exception \<Rightarrow> logger \<Rightarrow> logger" where
  "handle_uncaught 0 now e s = s"
| "handle_uncaught (Suc n) now e s =
     handle_uncaught n now e
       (if isStateCancelledError e then s
        else diag_log now FatalLevel ''Uncaught exception''
               (no_options\<lparr>op_error := Some e, op_tag := Some ''global_error''\<rparr>) s)"

definition uncaught_exception :: "int \<Rightarrow> js_exception \<Rightarrow> logger \<Rightarrow> logger" where
  "uncaught_exception now e s = handle_uncaught (lg_exceptionHandlers s) now e s"

definition toError :: "js_exception + string \<Rightarrow> js_exception" where
  "toError reason = (case reason of Inl e \<Rightarrow> e | Inr text \<Rightarrow> \<lparr>ex_name = ''Error'', ex_message = text\<rparr>)"

definition unhandled_rejection :: "int \<Rightarrow> js_exception + string \<Rightarrow> logger \<Rightarrow> logger" where
  "unhandled_rejection now reason s =
     ((diag_log now FatalLevel ''Unhandled promise rejection''
        (no_options\<lparr>op_error := Some (toError reason), op_tag := Some ''unhandled_rejection''\<rparr>))
      ^^ lg_rejectionHandlers s) s"

definition addSentryBreadcrumb ::
  "string \<Rightarrow> string option \<Rightarrow> diag_level option \<Rightarrow> js_value js_record option \<Rightarrow> logger \<Rightarrow> logger" where
  "addSentryBreadcrumb msg category lvl data s =
     (if \<not> lg_sentryModule s then s
      else s\<lparr>lg_sentry := lg_sentry s @ [AddBreadcrumb msg category lvl data]\<rparr>)"

definition setSentryUserScope :: "string \<Rightarrow> logger \<Rightarrow> logger" where
  "setSentryUserScope userId s =
     (if \<not> lg_sentryModule s then s else s\<lparr>lg_sentry := lg_sentry s @ [SetSentryUser (Some userId)]\<rparr>)"

definition clearSentryUserScope :: "logger \<Rightarrow> logger" where
  "clearSentryUserScope s =
     (if \<not> lg_sentryModule s then s else s\<lparr>lg_sentry := lg_sentry s @ [SetSentryUser None]\<rparr>)"

section \<open>Where an entry goes\<close>

text \<open>
  Where an entry goes. Whatever its level, an entry is in the buffer. It reaches the console if
  and only if its level is at least the console's, and Sentry if and only if a Sentry module is
  set, its level is at least Sentry's, and it is fatal, logged by hand, or no transient network
  failure; each of them once.
\<close>

theorem log_routes_an_entry:
  "let entry = createLogEntry now lvl msg opts; t = diag_log now lvl msg opts s in
   lg_buffer t = Some (buffer_add entry (getOrCreateBuffer s)) \<and>
   length (lg_console t) = length (lg_console s) + (if lg_consoleLevel s \<le> lvl then 1 else 0) \<and>
   length (lg_sentry t) = length (lg_sentry s) +
     (if lg_sentryModule s \<and> lg_sentryLevel s \<le> lvl \<and>
         (lvl = FatalLevel \<or> op_tag opts = Some ''manual_log'' \<or>
          isTransientNetworkError (buildErrorMessage entry) = False)
      then 1 else 0)"
  by (simp add: Let_def diag_log_def sendToConsole_def sendToSentry_def isLevelEnabled_def
      shouldSendToSentry_def createLogEntry_def)

text \<open>What was logged before the logger is initialised is gone from the buffer.\<close>

lemma initialize_forgets:
  "\<not> lg_isInitialized s \<Longrightarrow>
   getEntries (the (lg_buffer (logger_initialize config s))) = []"
  by (simp add: logger_initialize_def Let_def installGlobalErrorHandler_def
      represents_getEntries [OF represents_new])

end
