(* ===== verification/IdentityTokens.thy ===== *)
theory IdentityTokens
  imports SecureStorage
begin

text \<open>
  \<^verbatim>\<open>packages/identity-client/src/token\<close>: the token manager, which keeps the tokens of every
  user of the device and the list of the users it has tokens of, in the secure storage. The
  storage is an interface (\<open>secure_store\<close>); the native secure storage provides it. \<^verbatim>\<open>JSON\<close>
  and \<^verbatim>\<open>jwtDecode\<close> are parameters; the claims of a token are an object, or nothing where
  \<^verbatim>\<open>jwtDecode\<close> throws.
\<close>

section \<open>The token manager\<close>

record 's secure_storage =
  ss_getItem :: "string \<Rightarrow> ('s, js_error, string option) io"
  ss_setItem :: "string \<Rightarrow> string \<Rightarrow> ('s, js_error, unit) io"
  ss_removeItem :: "string \<Rightarrow> ('s, js_error, unit) io"

record auth_tokens =
  at_token :: string
  at_refreshToken :: string

definition EXPIRY_BUFFER_SECONDS :: int where
  "EXPIRY_BUFFER_SECONDS = 30"

definition TRACKED_USERS_KEY :: string where
  "TRACKED_USERS_KEY = ''ion_identity_tracked_users''"

definition storageKey :: "string \<Rightarrow> string" where
  "storageKey username = ''ion_identity_tokens:'' @ username"

fun isAuthTokens :: "js_value \<Rightarrow> auth_tokens option" where
  "isAuthTokens (JObj i obj) =
     (case (map_of obj ''token'', map_of obj ''refreshToken'') of
        (Some (JStr t), Some (JStr r)) \<Rightarrow>
          if t \<noteq> [] \<and> r \<noteq> [] then Some \<lparr>at_token = t, at_refreshToken = r\<rparr> else None
      | _ \<Rightarrow> None)"
| "isAuthTokens v = None"

definition tokens_object :: "auth_tokens \<Rightarrow> js_value" where
  "tokens_object tokens =
     JObj 0 [(''token'', JStr (at_token tokens)), (''refreshToken'', JStr (at_refreshToken tokens))]"

definition parse_tokens :: "json \<Rightarrow> string option \<Rightarrow> auth_tokens option" where
  "parse_tokens js raw =
     (case raw of
        None \<Rightarrow> None
      | Some r \<Rightarrow> if r = [] then None
                  else (case js_parse js r of None \<Rightarrow> None | Some parsed \<Rightarrow> isAuthTokens parsed))"

definition readTokens ::
  "json \<Rightarrow> 's secure_storage \<Rightarrow> string \<Rightarrow> ('s, js_error, auth_tokens option) io" where
  "readTokens js storage username =
     io_bind (ss_getItem storage (storageKey username)) (\<lambda>raw. io_return (parse_tokens js raw))"

definition parse_tracked :: "json \<Rightarrow> string option \<Rightarrow> string list" where
  "parse_tracked js raw =
     (case raw of
        None \<Rightarrow> []
      | Some r \<Rightarrow> if r = [] then []
                  else (case js_parse js r of None \<Rightarrow> [] | Some parsed \<Rightarrow> string_elements parsed))"

definition readTrackedUsers :: "json \<Rightarrow> 's secure_storage \<Rightarrow> ('s, js_error, string list) io" where
  "readTrackedUsers js storage =
     io_bind (ss_getItem storage TRACKED_USERS_KEY) (\<lambda>raw. io_return (parse_tracked js raw))"

definition writeTrackedUsers ::
  "json \<Rightarrow> 's secure_storage \<Rightarrow> string list \<Rightarrow> ('s, js_error, unit) io" where
  "writeTrackedUsers js storage usernames =
     ss_setItem storage TRACKED_USERS_KEY (js_stringify js (string_array usernames))"

definition setAndTrack ::
  "json \<Rightarrow> 's secure_storage \<Rightarrow> string \<Rightarrow> auth_tokens \<Rightarrow> ('s, js_error, unit) io" where
  "setAndTrack js storage username tokens =
     io_then (ss_setItem storage (storageKey username) (js_stringify js (tokens_object tokens)))
     (io_bind (readTrackedUsers js storage) (\<lambda>tracked.
        if username \<notin> set tracked
        then writeTrackedUsers js storage (tracked @ [username])
        else io_return ()))"

definition clearAndUntrack ::
  "json \<Rightarrow> 's secure_storage \<Rightarrow> string \<Rightarrow> ('s, js_error, unit) io" where
  "clearAndUntrack js storage username =
     io_then (ss_removeItem storage (storageKey username))
     (io_bind (readTrackedUsers js storage) (\<lambda>tracked.
        writeTrackedUsers js storage (filter (\<lambda>u. u \<noteq> username) tracked)))"

type_synonym jwt_claims = "js_value js_record"

definition parseJwtExpiry :: "(string \<Rightarrow> jwt_claims option) \<Rightarrow> string \<Rightarrow> int option" where
  "parseJwtExpiry jwtDecode token =
     (case jwtDecode token of
        None \<Rightarrow> None
      | Some payload \<Rightarrow> (case map_of payload ''exp'' of Some (JNum n) \<Rightarrow> Some n | _ \<Rightarrow> None))"

definition parseUserIdFromToken :: "(string \<Rightarrow> jwt_claims option) \<Rightarrow> string \<Rightarrow> string option" where
  "parseUserIdFromToken jwtDecode token =
     (case jwtDecode token of
        None \<Rightarrow> None
      | Some payload \<Rightarrow>
          (case map_of payload ''https://custom/app_metadata'' of
             Some (JObj i metadata) \<Rightarrow>
               (case map_of metadata ''userId'' of
                  Some (JStr userId) \<Rightarrow> if userId \<noteq> [] then Some userId else None
                | _ \<Rightarrow> None)
           | _ \<Rightarrow> None))"

definition token_expired :: "(string \<Rightarrow> jwt_claims option) \<Rightarrow> int \<Rightarrow> auth_tokens option \<Rightarrow> bool" where
  "token_expired jwtDecode now tokens =
     (case tokens of
        None \<Rightarrow> True
      | Some t \<Rightarrow>
          (case parseJwtExpiry jwtDecode (at_token t) of
             None \<Rightarrow> True
           | Some expiry \<Rightarrow> if expiry = 0 then True else now \<ge> (expiry - EXPIRY_BUFFER_SECONDS) * 1000))"

definition checkTokenExpired ::
  "(string \<Rightarrow> jwt_claims option) \<Rightarrow> json \<Rightarrow> 's secure_storage \<Rightarrow> int \<Rightarrow> string \<Rightarrow> ('s, js_error, bool) io" where
  "checkTokenExpired jwtDecode js storage now username =
     io_bind (readTokens js storage username) (\<lambda>tokens. io_return (token_expired jwtDecode now tokens))"

text \<open>The two operations that change the storage; the mutex runs them one after the other.\<close>

datatype token_command = SetTokens string auth_tokens | ClearTokens string

fun createTokenManager :: "json \<Rightarrow> 's secure_storage \<Rightarrow> token_command \<Rightarrow> ('s, js_error, unit) io" where
  "createTokenManager js storage (SetTokens username tokens) = setAndTrack js storage username tokens"
| "createTokenManager js storage (ClearTokens username) = clearAndUntrack js storage username"

section \<open>The specification: an association list\<close>

text \<open>
  What the manager promises: a map from users to tokens, in the order the users first got theirs.
\<close>

fun token_spec :: "token_command \<Rightarrow> (string \<times> auth_tokens) list \<Rightarrow> (string \<times> auth_tokens) list" where
  "token_spec (SetTokens username tokens) a = AList.update username tokens a"
| "token_spec (ClearTokens username) a = AList.delete username a"

fun token_command_ok :: "token_command \<Rightarrow> bool" where
  "token_command_ok (SetTokens username tokens) = (at_token tokens \<noteq> [] \<and> at_refreshToken tokens \<noteq> [])"
| "token_command_ok (ClearTokens username) = True"

definition token_json_ok :: "json \<Rightarrow> bool" where
  "token_json_ok js =
     (json_ok js \<and> (\<forall>v. js_stringify js v \<noteq> []) \<and>
      (\<forall>t. \<exists>i. js_parse js (js_stringify js (tokens_object t)) =
         Some (JObj i [(''token'', JStr (at_token t)), (''refreshToken'', JStr (at_refreshToken t))])))"

lemma parse_stringify_tokens:
  assumes "token_json_ok js" and "at_token t \<noteq> []" "at_refreshToken t \<noteq> []"
  shows "parse_tokens js (Some (js_stringify js (tokens_object t))) = Some t"
proof -
  obtain i where "js_parse js (js_stringify js (tokens_object t)) =
      Some (JObj i [(''token'', JStr (at_token t)), (''refreshToken'', JStr (at_refreshToken t))])"
    using assms(1) unfolding token_json_ok_def by blast
  moreover have "js_stringify js (tokens_object t) \<noteq> []"
    using assms(1) unfolding token_json_ok_def by blast
  ultimately show ?thesis using assms(2,3) by (simp add: parse_tokens_def)
qed

lemma parse_stringify_tracked:
  assumes "token_json_ok js"
  shows "parse_tracked js (Some (js_stringify js (string_array us))) = us"
proof -
  have "json_ok js" and "js_stringify js (string_array us) \<noteq> []"
    using assms unfolding token_json_ok_def by blast+
  moreover obtain i where "js_parse js (js_stringify js (string_array us)) = Some (JArr i (map JStr us))"
    using \<open>json_ok js\<close> unfolding json_ok_def by blast
  ultimately show ?thesis by (simp add: parse_tracked_def)
qed

lemma storageKey_inj [simp]: "storageKey u = storageKey v \<longleftrightarrow> u = v"
  by (simp add: storageKey_def)

lemma storageKey_fresh [simp]:
  "storageKey u \<noteq> TRACKED_USERS_KEY" "TRACKED_USERS_KEY \<noteq> storageKey u"
  "storageKey u \<noteq> ''__keys__''" "TRACKED_USERS_KEY \<noteq> ''__keys__''"
  by (auto simp: storageKey_def TRACKED_USERS_KEY_def)

text \<open>
  The interface of a secure storage, on the keys it serves: it holds one string per key.
\<close>

locale secure_store =
  fixes storage :: "'s secure_storage"
    and view :: "'s \<Rightarrow> string \<Rightarrow> string option"
    and served :: "string set"
  assumes get: "k \<in> served \<Longrightarrow> ss_getItem storage k s = (Inr (view s k), s)"
    and set_item: "k \<in> served \<Longrightarrow> \<exists>t. ss_setItem storage k v s = (Inr (), t) \<and>
      (\<forall>k' \<in> served. view t k' = (if k' = k then Some v else view s k'))"
    and remove_item: "k \<in> served \<Longrightarrow> \<exists>t. ss_removeItem storage k s = (Inr (), t) \<and>
      (\<forall>k' \<in> served. view t k' = (if k' = k then None else view s k'))"

locale token_store = secure_store storage view served
  for storage :: "'s secure_storage" and view and served +
  fixes js :: json
  assumes codec: "token_json_ok js"
    and serves_tracked: "TRACKED_USERS_KEY \<in> served"
    and serves_users: "storageKey u \<in> served"
begin

definition represents :: "'s \<Rightarrow> (string \<times> auth_tokens) list \<Rightarrow> bool" where
  "represents s a =
     (distinct (map fst a) \<and>
      parse_tracked js (view s TRACKED_USERS_KEY) = map fst a \<and>
      (\<forall>u. parse_tokens js (view s (storageKey u)) = map_of a u))"

lemma represents_read:
  assumes "represents s a"
  shows "readTokens js storage u s = (Inr (map_of a u), s)"
    and "readTrackedUsers js storage s = (Inr (map fst a), s)"
  using assms
  by (simp_all add: readTokens_def readTrackedUsers_def io_simps get serves_users serves_tracked
      represents_def)

lemma tracked_keys_update:
  "map fst (AList.update u t a) = (if u \<in> fst ` set a then map fst a else map fst a @ [u])"
  by (induction a) auto

lemma set_refines:
  assumes r: "represents s a" and t: "at_token tokens \<noteq> []" "at_refreshToken tokens \<noteq> []"
  obtains t where "setAndTrack js storage u tokens s = (Inr (), t)"
    "represents t (AList.update u tokens a)"
proof -
  from set_item [OF serves_users, of u "js_stringify js (tokens_object tokens)" s]
  obtain t1 where t1: "ss_setItem storage (storageKey u) (js_stringify js (tokens_object tokens)) s = (Inr (), t1)"
    "\<And>k. k \<in> served \<Longrightarrow> view t1 k =
       (if k = storageKey u then Some (js_stringify js (tokens_object tokens)) else view s k)"
    by blast
  have track: "readTrackedUsers js storage t1 = (Inr (map fst a), t1)"
    using r by (simp add: readTrackedUsers_def io_simps get serves_tracked t1(2) represents_def)
  have toks: "parse_tokens js (view t1 (storageKey v)) = map_of (AList.update u tokens a) v" for v
    using r by (simp add: t1(2) serves_users parse_stringify_tokens [OF codec t] represents_def
        AList.update_conv')
  have dist: "distinct (map fst (AList.update u tokens a))"
    using r by (simp add: represents_def AList.distinct_update)
  show thesis
  proof (cases "u \<in> set (map fst a)")
    case True
    then have "represents t1 (AList.update u tokens a)"
      using r toks dist by (simp add: represents_def t1(2) serves_tracked tracked_keys_update)
    with True track t1(1) show thesis
      by (intro that [of t1]) (simp_all add: setAndTrack_def io_simps)
  next
    case False
    from set_item [OF serves_tracked, of "js_stringify js (string_array (map fst a @ [u]))" t1]
    obtain t2 where t2: "ss_setItem storage TRACKED_USERS_KEY
          (js_stringify js (string_array (map fst a @ [u]))) t1 = (Inr (), t2)"
      "\<And>k. k \<in> served \<Longrightarrow> view t2 k =
         (if k = TRACKED_USERS_KEY then Some (js_stringify js (string_array (map fst a @ [u])))
          else view t1 k)"
      by blast
    have "represents t2 (AList.update u tokens a)"
      using False toks dist
      by (simp add: represents_def t2(2) serves_tracked serves_users
          parse_stringify_tracked [OF codec] tracked_keys_update)
    with False track t1(1) t2(1) show thesis
      by (intro that [of t2]) (simp_all add: setAndTrack_def writeTrackedUsers_def io_simps)
  qed
qed

lemma clear_refines:
  assumes r: "represents s a"
  obtains t where "clearAndUntrack js storage u s = (Inr (), t)" "represents t (AList.delete u a)"
proof -
  let ?us = "filter (\<lambda>v. v \<noteq> u) (map fst a)"
  from remove_item [OF serves_users, of u s]
  obtain t1 where t1: "ss_removeItem storage (storageKey u) s = (Inr (), t1)"
    "\<And>k. k \<in> served \<Longrightarrow> view t1 k = (if k = storageKey u then None else view s k)"
    by blast
  have track: "readTrackedUsers js storage t1 = (Inr (map fst a), t1)"
    using r by (simp add: readTrackedUsers_def io_simps get serves_tracked t1(2) represents_def)
  from set_item [OF serves_tracked, of "js_stringify js (string_array ?us)" t1]
  obtain t2 where t2: "ss_setItem storage TRACKED_USERS_KEY (js_stringify js (string_array ?us)) t1 = (Inr (), t2)"
    "\<And>k. k \<in> served \<Longrightarrow> view t2 k =
       (if k = TRACKED_USERS_KEY then Some (js_stringify js (string_array ?us)) else view t1 k)"
    by blast
  have keys: "map fst (AList.delete u a) = ?us"
    by (induction a) auto
  have "represents t2 (AList.delete u a)"
    unfolding represents_def keys
    using r
    by (auto simp: t1(2) t2(2) serves_tracked serves_users parse_stringify_tracked [OF codec]
        AList.delete_conv' represents_def parse_tokens_def [of js None])
  with track t1(1) t2(1) show thesis
    by (intro that [of t2]) (simp_all add: clearAndUntrack_def writeTrackedUsers_def io_simps)
qed

lemma manager_step:
  assumes "represents s a" "token_command_ok c"
  shows "\<exists>t. createTokenManager js storage c s = (Inr (), t) \<and> represents t (token_spec c a)"
proof (cases c)
  case (SetTokens u tokens)
  with assms(2) have ne: "at_token tokens \<noteq> []" "at_refreshToken tokens \<noteq> []" by simp_all
  obtain t where "setAndTrack js storage u tokens s = (Inr (), t)"
    "represents t (AList.update u tokens a)"
    using set_refines [OF assms(1) ne] by blast
  with SetTokens show ?thesis by simp
next
  case (ClearTokens u)
  obtain t where "clearAndUntrack js storage u s = (Inr (), t)" "represents t (AList.delete u a)"
    using clear_refines [OF assms(1)] by blast
  with ClearTokens show ?thesis by simp
qed

lemma manager_run:
  assumes "represents s a" "list_all token_command_ok cs"
  shows "represents (with_lock (map (createTokenManager js storage) cs) s) (fold token_spec cs a)"
  using assms
proof (induction cs arbitrary: s a)
  case Nil
  then show ?case by simp
next
  case (Cons c cs)
  then obtain t where "createTokenManager js storage c s = (Inr (), t)" "represents t (token_spec c a)"
    using manager_step [of s a c] by auto
  with Cons show ?case by simp
qed

lemma represents_empty:
  assumes "\<And>k. k \<in> served \<Longrightarrow> view s k = None"
  shows "represents s []"
  using assms by (simp add: represents_def serves_tracked serves_users parse_tracked_def parse_tokens_def)

end

section \<open>The native secure storage is such a storage\<close>

definition native_secure_storage :: "json \<Rightarrow> 's keychain \<Rightarrow> 's secure_storage" where
  "native_secure_storage js kc =
     \<lparr>ss_getItem = native_getItem kc, ss_setItem = setSecureItem js kc,
      ss_removeItem = removeSecureItem js kc\<rparr>"

text \<open>A keychain that does what it is asked.\<close>

definition keychain_reliable :: "('s \<Rightarrow> string \<Rightarrow> string option) \<Rightarrow> 's keychain \<Rightarrow> bool" where
  "keychain_reliable view kc =
     (keychain_ok view kc \<and>
      (\<forall>u pw svc acc s. fst (kc_setGenericPassword kc u pw svc acc s) = Inr ()))"

locale reliable_keychain =
  fixes kc :: "'s keychain" and view :: "'s \<Rightarrow> string \<Rightarrow> string option" and js :: json
  assumes reliable: "keychain_reliable view kc"
    and json: "json_ok js"
begin

lemma kc_ok: "keychain_ok view kc"
  using reliable by (simp add: keychain_reliable_def)

lemma set_succeeds:
  obtains t where "setWithAccessibilityFallback kc u pw svc s = (Inr (), t)"
    "view t = (view s)(svc := Some pw)"
proof (cases rule: keychain_set [OF kc_ok, of u pw svc s])
  case (1 t)
  then show ?thesis by (rule that)
next
  case (2 e t)
  obtain t' where "kc_setGenericPassword kc u pw svc WhenPasscodeSet s = (Inr (), t')"
    using reliable unfolding keychain_reliable_def by (metis prod.collapse)
  with 2 show ?thesis by (simp add: setWithAccessibilityFallback_def io_catch_simp)
qed

lemma store_set:
  assumes "key \<noteq> ''__keys__''"
  shows "\<exists>t. setSecureItem js kc key val s = (Inr (), t) \<and>
    (\<forall>k \<in> - {''__keys__''}. view t (serviceFor k) = (if k = key then Some val else view s (serviceFor k)))"
proof -
  obtain t where t: "setWithAccessibilityFallback kc key val (serviceFor key) s = (Inr (), t)"
    "view t = (view s)(serviceFor key := Some val)"
    using set_succeeds by blast
  let ?ks = "parse_registry js (view t KEY_REGISTRY_SERVICE)"
  obtain t' where t': "saveKeyRegistry js kc (?ks @ [key]) t = (Inr (), t')"
    "view t' = (view t)(KEY_REGISTRY_SERVICE := Some (js_stringify js (string_array (?ks @ [key]))))"
    unfolding saveKeyRegistry_def using set_succeeds by blast
  show ?thesis
    using assms t t'
    by (cases "key \<in> set ?ks")
      (auto simp: setSecureItem_def io_then_simp io_bind_simp io_catch_simp io_return_simp
        registry_get [OF kc_ok])
qed

lemma store_remove:
  assumes "key \<noteq> ''__keys__''"
  shows "\<exists>t. removeSecureItem js kc key s = (Inr (), t) \<and>
    (\<forall>k \<in> - {''__keys__''}. view t (serviceFor k) = (if k = key then None else view s (serviceFor k)))"
proof -
  obtain t where t: "kc_resetGenericPassword kc (serviceFor key) s = (Inr (), t)"
    "view t = (view s)(serviceFor key := None)"
    using keychain_reset [OF kc_ok] by blast
  let ?ks = "filter (\<lambda>k. k \<noteq> key) (parse_registry js (view t KEY_REGISTRY_SERVICE))"
  obtain t' where t': "saveKeyRegistry js kc ?ks t = (Inr (), t')"
    "view t' = (view t)(KEY_REGISTRY_SERVICE := Some (js_stringify js (string_array ?ks)))"
    unfolding saveKeyRegistry_def using set_succeeds by blast
  show ?thesis
    using assms t t'
    by (auto simp: removeSecureItem_def io_then_simp io_bind_simp registry_get [OF kc_ok])
qed

end

sublocale reliable_keychain \<subseteq> native: secure_store "native_secure_storage js kc"
  "\<lambda>s k. view s (serviceFor k)" "- {''__keys__''}"
  by unfold_locales
    (use store_set store_remove in
      \<open>auto simp: native_secure_storage_def native_getItem_def keychain_get [OF kc_ok]\<close>)

locale token_keychain = reliable_keychain kc view js
  for kc :: "'s keychain" and view and js +
  assumes token_codec: "token_json_ok js"

sublocale token_keychain \<subseteq> tokens: token_store "native_secure_storage js kc"
  "\<lambda>s k. view s (serviceFor k)" "- {''__keys__''}" js
  by unfold_locales (simp_all add: token_codec)

context token_keychain begin

lemma is_token_store:
  "token_store (native_secure_storage js kc) (\<lambda>s k. view s (serviceFor k)) (- {''__keys__''}) js"
  by (rule tokens.token_store_axioms)

end

lemma token_keychainI:
  "keychain_reliable view kc \<Longrightarrow> token_json_ok js \<Longrightarrow> token_keychain kc view js"
  by unfold_locales (simp_all add: token_json_ok_def)

section \<open>The token manager on the native storage\<close>


text \<open>A keychain that is a map, and a codec of arrays of strings and of token objects.\<close>

definition plain_keychain :: "(string \<Rightarrow> string option) keychain" where
  "plain_keychain =
     \<lparr>kc_getGenericPassword = (\<lambda>svc. io_gets (\<lambda>m. m svc)),
      kc_setGenericPassword = (\<lambda>u pw svc acc. io_modify (\<lambda>m. m(svc := Some pw))),
      kc_resetGenericPassword = (\<lambda>svc. io_modify (\<lambda>m. m(svc := None)))\<rparr>"

fun string_field :: "js_value option \<Rightarrow> string" where
  "string_field (Some (JStr t)) = t"
| "string_field v = []"

definition sample_token_json :: json where
  "sample_token_json =
     \<lparr>js_stringify = (\<lambda>v. case v of
          JObj i obj \<Rightarrow> CHR ''O'' # enc_strings
            [string_field (map_of obj ''token''), string_field (map_of obj ''refreshToken'')]
        | _ \<Rightarrow> CHR ''A'' # enc_strings (string_elements v)),
      js_parse = (\<lambda>cs. case cs of
          [] \<Rightarrow> None
        | c # rest \<Rightarrow>
            (let ss = dec_strings (length rest) rest
             in if c = CHR ''A'' then Some (JArr 0 (map JStr ss))
                else (case ss of
                        [t, r] \<Rightarrow> Some (JObj 0 [(''token'', JStr t), (''refreshToken'', JStr r)])
                      | _ \<Rightarrow> None)))\<rparr>"

lemma plain_keychain_reliable: "keychain_reliable id plain_keychain"
  by (simp add: keychain_reliable_def keychain_ok_def plain_keychain_def io_gets_simp io_modify_simp)

lemma sample_token_json_ok: "token_json_ok sample_token_json"
  by (auto simp: token_json_ok_def json_ok_def sample_token_json_def string_array_def
      tokens_object_def dec_enc_strings Let_def split: js_value.splits simp del: enc_strings.simps)

interpretation plain: token_keychain plain_keychain id sample_token_json
  by (rule token_keychainI [OF plain_keychain_reliable sample_token_json_ok])

definition sample_tokens :: "string \<Rightarrow> auth_tokens" where
  "sample_tokens t = \<lparr>at_token = t, at_refreshToken = ''r''\<rparr>"

definition sample_token_commands :: "token_command list" where
  "sample_token_commands =
     [SetTokens ''a'' (sample_tokens ''1''), SetTokens ''b'' (sample_tokens ''2''), ClearTokens ''a'']"


text \<open>
  A token is taken as expired thirty seconds before it expires, and always where its expiry cannot
  be read or is zero.
\<close>

lemma token_valid_iff:
  "\<not> token_expired jwtDecode now tokens \<longleftrightarrow>
   (\<exists>t expiry. tokens = Some t \<and> parseJwtExpiry jwtDecode (at_token t) = Some expiry \<and>
      expiry \<noteq> 0 \<and> now < (expiry - 30) * 1000)"
  by (auto simp: token_expired_def EXPIRY_BUFFER_SECONDS_def split: option.splits)

end
