(* ===== verification/IdentitySession.thy ===== *)
theory IdentitySession
  imports IdentityTokens HttpClient SingleFlight
begin

text \<open>
  \<^verbatim>\<open>packages/identity-client/src\<close>: the store of the signed-in users (\<^verbatim>\<open>auth-store.ts\<close>), the
  session requests (\<^verbatim>\<open>data-sources/session-data-source.ts\<close>), and what is done with the tokens:
  refreshing them, restoring the session at start, signing out and deleting the account. A user
  interface listener of the store is its identity, and a call of it an output.
\<close>

section \<open>Errors and state\<close>

datatype identity_error_code =
    PASSKEY_NOT_AVAILABLE | PASSKEY_CANCELLED | PASSKEY_VALIDATION_FAILED | INVALID_CREDENTIALS
  | USER_NOT_FOUND | USER_ALREADY_EXISTS | USER_DEACTIVATED | TOKEN_EXPIRED | UNAUTHENTICATED
  | NETWORK_ERROR | UNKNOWN | RESTRICTED_REGION | TWO_FA_REQUIRED | INVALID_TWO_FA_CODE
  | TWO_FA_NOT_CONFIGURED | INVALID_NICKNAME | NICKNAME_ALREADY_EXISTS | NICKNAME_RESERVED
  | INVALID_RECOVERY_CREDENTIALS | INVALID_SIGNATURE | INVALID_EMAIL | PASSWORD_FLOW_NOT_AVAILABLE
  | WALLET_NOT_FOUND | IDENTITY_SERVER_ERROR

record identity_error =
  ie_code :: identity_error_code
  ie_message :: string
  ie_cause :: "js_error option"

text \<open>What the functions of the package throw.\<close>

datatype thrown = IdentityErr identity_error | OtherErr js_error

definition identity_error_of :: "identity_error_code \<Rightarrow> string \<Rightarrow> thrown" where
  "identity_error_of code msg = IdentityErr \<lparr>ie_code = code, ie_message = msg, ie_cause = None\<rparr>"

record 'st identity_env = env +
  id_storage :: 'st
  id_snapshot :: "string list"
  id_listeners :: "nat list"
  id_notified :: "nat list"
  id_usernameByRequest :: "(string \<times> string) list"

text \<open>A computation on the secure storage as one on the client's state.\<close>

definition on_storage ::
  "('st, js_error, 'a) io \<Rightarrow> (('st, 'x) identity_env_scheme, js_error, 'a) io" where
  "on_storage m s = (let (r, t) = m (id_storage s) in (r, s\<lparr>id_storage := t\<rparr>))"

definition io_lift :: "('s, js_error, 'a) io \<Rightarrow> ('s, thrown, 'a) io" where
  "io_lift m s = (case m s of (Inl e, t) \<Rightarrow> (Inl (OtherErr e), t) | (Inr a, t) \<Rightarrow> (Inr a, t))"

lemma on_storage_simp [io_simps]:
  "on_storage m s = (fst (m (id_storage s)), s\<lparr>id_storage := snd (m (id_storage s))\<rparr>)"
  by (simp add: on_storage_def split: prod.splits)

lemma io_lift_simp [io_simps]:
  "io_lift m s = (case m s of (Inl e, t) \<Rightarrow> (Inl (OtherErr e), t) | (Inr a, t) \<Rightarrow> (Inr a, t))"
  by (simp add: io_lift_def)

section \<open>The store of signed-in users\<close>

definition emit_change :: "('st, 'x) identity_env_scheme \<Rightarrow> ('st, 'x) identity_env_scheme" where
  "emit_change s = s\<lparr>id_notified := id_notified s @ id_listeners s\<rparr>"

definition store_subscribe :: "nat \<Rightarrow> ('st, 'x) identity_env_scheme \<Rightarrow> ('st, 'x) identity_env_scheme" where
  "store_subscribe onStoreChange s = s\<lparr>id_listeners := set_add onStoreChange (id_listeners s)\<rparr>"

definition store_unsubscribe :: "nat \<Rightarrow> ('st, 'x) identity_env_scheme \<Rightarrow> ('st, 'x) identity_env_scheme" where
  "store_unsubscribe onStoreChange s = s\<lparr>id_listeners := set_delete onStoreChange (id_listeners s)\<rparr>"

definition addUser :: "string \<Rightarrow> ('st, 'x) identity_env_scheme \<Rightarrow> ('st, 'x) identity_env_scheme" where
  "addUser username s =
     (if username \<in> set (id_snapshot s) then s
      else emit_change (s\<lparr>id_snapshot := id_snapshot s @ [username]\<rparr>))"

definition removeUser :: "string \<Rightarrow> ('st, 'x) identity_env_scheme \<Rightarrow> ('st, 'x) identity_env_scheme" where
  "removeUser username s =
     (if username \<notin> set (id_snapshot s) then s
      else emit_change (s\<lparr>id_snapshot := filter (\<lambda>u. u \<noteq> username) (id_snapshot s)\<rparr>))"

lemma addUser_fields [simp]:
  "id_snapshot (addUser u s) = set_add u (id_snapshot s)"
  "id_storage (addUser u s) = id_storage s"
  "env_now (addUser u s) = env_now s"
  by (simp_all add: addUser_def emit_change_def set_add_def)

lemma removeUser_fields [simp]:
  "id_snapshot (removeUser u s) = set_delete u (id_snapshot s)"
  "id_storage (removeUser u s) = id_storage s"
  "env_now (removeUser u s) = env_now s"
  by (auto simp: removeUser_def emit_change_def set_delete_def intro!: filter_True [symmetric])

text \<open>A listener is called once for every change of the snapshot and for nothing else.\<close>

lemma store_notifies:
  "id_notified (addUser u s) =
     id_notified s @ (if id_snapshot (addUser u s) = id_snapshot s then [] else id_listeners s)"
  "id_notified (removeUser u s) =
     id_notified s @ (if id_snapshot (removeUser u s) = id_snapshot s then [] else id_listeners s)"
proof -
  show "id_notified (addUser u s) =
      id_notified s @ (if id_snapshot (addUser u s) = id_snapshot s then [] else id_listeners s)"
    by (simp add: addUser_def emit_change_def)
  have "filter (\<lambda>v. v \<noteq> u) xs \<noteq> xs" if "u \<in> set xs" for xs :: "string list"
    using that by (metis (mono_tags, lifting) filter_id_conv)
  then show "id_notified (removeUser u s) =
      id_notified s @ (if id_snapshot (removeUser u s) = id_snapshot s then [] else id_listeners s)"
    by (simp add: removeUser_def emit_change_def)
qed

section \<open>The token manager in the client\<close>

record 'st token_deps =
  td_json :: json
  td_storage :: "'st secure_storage"
  td_jwtDecode :: "string \<Rightarrow> jwt_claims option"

definition tm_getTokens where
  "tm_getTokens d username = on_storage (readTokens (td_json d) (td_storage d) username)"

definition tm_getTrackedUsers where
  "tm_getTrackedUsers d = on_storage (readTrackedUsers (td_json d) (td_storage d))"

definition tm_setTokens where
  "tm_setTokens d username tokens =
     on_storage (createTokenManager (td_json d) (td_storage d) (SetTokens username tokens))"

definition tm_clearTokens where
  "tm_clearTokens d username =
     on_storage (createTokenManager (td_json d) (td_storage d) (ClearTokens username))"

definition tm_isTokenExpired where
  "tm_isTokenExpired d username =
     io_bind (io_gets env_now) (\<lambda>now.
       on_storage (checkTokenExpired (td_jwtDecode d) (td_json d) (td_storage d) now username))"

definition isAuthenticated where
  "isAuthenticated d username =
     io_bind (tm_isTokenExpired d username) (\<lambda>expired. io_return (\<not> expired))"

definition extractUserId ::
  "'st token_deps \<Rightarrow> string \<Rightarrow> (('st, 'x) identity_env_scheme, thrown, string) io" where
  "extractUserId d username =
     io_bind (io_lift (tm_getTokens d username)) (\<lambda>tokens.
       case tokens of
         None \<Rightarrow> io_throw (identity_error_of UNAUTHENTICATED ''No tokens found'')
       | Some t \<Rightarrow>
           (case parseUserIdFromToken (td_jwtDecode d) (at_token t) of
              None \<Rightarrow> io_throw (identity_error_of UNKNOWN ''Missing userId in JWT'')
            | Some userId \<Rightarrow> io_return userId))"

section \<open>Restoring the session\<close>

fun restore_users ::
  "'st token_deps \<Rightarrow> string list \<Rightarrow> (('st, 'x) identity_env_scheme, js_error, unit) io" where
  "restore_users d [] = io_return ()"
| "restore_users d (username # rest) =
     io_bind (tm_getTokens d username) (\<lambda>tokens.
       if tokens = None
       then io_then (emit_log LInfo ''Clearing tracked user with missing tokens'' ''auth'' [])
              (io_then (tm_clearTokens d username) (restore_users d rest))
       else io_bind (tm_isTokenExpired d username) (\<lambda>isExpired.
         if isExpired
         then io_then (emit_log LInfo ''Clearing tracked user with expired tokens'' ''auth'' [])
                (io_then (tm_clearTokens d username) (restore_users d rest))
         else io_then (io_modify (addUser username)) (restore_users d rest)))"

definition restoreAuth ::
  "'st token_deps \<Rightarrow> (('st, 'x) identity_env_scheme, js_error, unit) io" where
  "restoreAuth d =
     io_bind (tm_getTrackedUsers d) (\<lambda>trackedUsers.
       if trackedUsers = [] then io_return () else restore_users d trackedUsers)"

definition live_user :: "'st token_deps \<Rightarrow> int \<Rightarrow> (string \<times> auth_tokens) list \<Rightarrow> string \<Rightarrow> bool" where
  "live_user d now a u = (\<not> token_expired (td_jwtDecode d) now (map_of a u))"

context token_store begin

definition uses_store :: "'s token_deps \<Rightarrow> bool" where
  "uses_store d = (td_json d = js \<and> td_storage d = storage)"

lemma tm_reads:
  assumes "uses_store d" "represents (id_storage s) a"
  shows "tm_getTokens d u s = (Inr (map_of a u), s)"
    and "tm_getTrackedUsers d s = (Inr (map fst a), s)"
    and "tm_isTokenExpired d u s = (Inr (\<not> live_user d (env_now s) a u), s)"
  using assms
  by (simp_all add: tm_getTokens_def tm_getTrackedUsers_def tm_isTokenExpired_def checkTokenExpired_def
      uses_store_def io_simps represents_read live_user_def)

lemma tm_clear:
  assumes "uses_store d" "represents (id_storage s) a"
  obtains v where "tm_clearTokens d u s = (Inr (), s\<lparr>id_storage := v\<rparr>)"
    "represents v (AList.delete u a)"
proof -
  obtain v where "clearAndUntrack js storage u (id_storage s) = (Inr (), v)"
    "represents v (AList.delete u a)"
    using clear_refines [OF assms(2)] by blast
  with assms(1) show thesis
    by (intro that [of v]) (simp_all add: tm_clearTokens_def io_simps uses_store_def)
qed

lemma tm_set:
  assumes "uses_store d" "represents (id_storage s) a" "at_token tok \<noteq> []" "at_refreshToken tok \<noteq> []"
  obtains v where "tm_setTokens d u tok s = (Inr (), s\<lparr>id_storage := v\<rparr>)"
    "represents v (AList.update u tok a)"
proof -
  obtain v where "setAndTrack js storage u tok (id_storage s) = (Inr (), v)"
    "represents v (AList.update u tok a)"
    using set_refines [OF assms(2-4)] by blast
  with assms(1) show thesis
    by (intro that [of v]) (simp_all add: tm_setTokens_def io_simps uses_store_def)
qed

lemma restore_dead_user:
  assumes d: "uses_store d" and r: "represents (id_storage s) a" and "\<not> live_user d (env_now s) a u"
  obtains v where "restore_users d (u # us) s = restore_users d us v"
    "represents (id_storage v) (AList.delete u a)" "id_snapshot v = id_snapshot s" "env_now v = env_now s"
proof -
  have clear: "\<exists>v. tm_clearTokens d u (s\<lparr>env_log := l\<rparr>) = (Inr (), v) \<and> id_snapshot v = id_snapshot s \<and>
      env_now v = env_now s \<and> represents (id_storage v) (AList.delete u a)" for l
  proof -
    have "represents (id_storage (s\<lparr>env_log := l\<rparr>)) a" using r by simp
    then obtain v where "tm_clearTokens d u (s\<lparr>env_log := l\<rparr>) = (Inr (), s\<lparr>env_log := l, id_storage := v\<rparr>)"
      "represents v (AList.delete u a)"
      by (rule tm_clear [OF d])
    then show ?thesis by simp
  qed
  show thesis
  proof (cases "map_of a u")
    case None
    from clear [of "env_log s @ [log_entry_of LInfo ''Clearing tracked user with missing tokens'' ''auth'' []]"]
    show ?thesis
      using that by (auto simp: tm_reads [OF d r] None io_simps)
  next
    case (Some tok)
    from clear [of "env_log s @ [log_entry_of LInfo ''Clearing tracked user with expired tokens'' ''auth'' []]"]
    show ?thesis
      using that assms(3) by (auto simp: tm_reads [OF d r] Some io_simps)
  qed
qed

lemma restore_users_outcome:
  assumes d: "uses_store d" and "represents (id_storage s) a" and "distinct us"
  shows "\<exists>t. restore_users d us s = (Inr (), t) \<and>
    represents (id_storage t) (filter (\<lambda>(u, _). u \<in> set us \<longrightarrow> live_user d (env_now s) a u) a) \<and>
    id_snapshot t = fold set_add (filter (live_user d (env_now s) a) us) (id_snapshot s) \<and>
    env_now t = env_now s"
  using assms(2,3)
proof (induction us arbitrary: s a)
  case Nil
  then show ?case by (simp add: io_return_simp)
next
  case (Cons u us)
  show ?case
  proof (cases "live_user d (env_now s) a u")
    case True
    then obtain tok where "map_of a u = Some tok"
      by (cases "map_of a u") (simp_all add: live_user_def token_expired_def)
    with True have step: "restore_users d (u # us) s = restore_users d us (addUser u s)"
      by (simp add: tm_reads [OF d Cons.prems(1)] io_simps)
    have "filter (\<lambda>(v, _). v \<in> set (u # us) \<longrightarrow> live_user d (env_now s) a v) a =
        filter (\<lambda>(v, _). v \<in> set us \<longrightarrow> live_user d (env_now s) a v) a"
      using True by (intro filter_cong) auto
    with True Cons.IH [of "addUser u s" a] Cons.prems show ?thesis
      unfolding step by simp
  next
    case False
    let ?a = "AList.delete u a"
    obtain v where v: "restore_users d (u # us) s = restore_users d us v"
      "represents (id_storage v) ?a" "id_snapshot v = id_snapshot s" "env_now v = env_now s"
      using restore_dead_user [OF d Cons.prems(1) False] by blast
    have live: "live_user d n ?a w = live_user d n a w" if "w \<in> set us" for w n
      using that Cons.prems(2) by (auto simp: live_user_def AList.delete_conv')
    have keep: "filter (\<lambda>(w, _). w \<in> set us \<longrightarrow> live_user d (env_now s) ?a w) ?a =
        filter (\<lambda>(w, _). w \<in> set (u # us) \<longrightarrow> live_user d (env_now s) a w) a"
      using False live unfolding AList.delete_eq filter_filter
      by (intro filter_cong) (auto simp: AList.delete_eq)
    have "filter (live_user d (env_now s) ?a) us = filter (live_user d (env_now s) a) us"
      using live by (intro filter_cong) auto
    with False keep v Cons.IH [of v ?a] Cons.prems(2) show ?thesis by simp
  qed
qed

lemma fold_set_add_fresh: "distinct (xs @ us) \<Longrightarrow> fold set_add us xs = xs @ us"
  by (induction us arbitrary: xs) (simp_all add: set_add_def)

lemma restoreAuth_outcome:
  assumes d: "uses_store d" and r: "represents (id_storage s) a" and "id_snapshot s = []"
  shows "\<exists>t. restoreAuth d s = (Inr (), t) \<and>
    represents (id_storage t) (filter (\<lambda>(u, _). live_user d (env_now s) a u) a) \<and>
    id_snapshot t = map fst (filter (\<lambda>(u, _). live_user d (env_now s) a u) a) \<and> env_now t = env_now s"
proof -
  have dist: "distinct (map fst a)" using r by (simp add: represents_def)
  have all: "filter (\<lambda>(u, _). u \<in> set (map fst a) \<longrightarrow> live_user d (env_now s) a u) a =
      filter (\<lambda>(u, _). live_user d (env_now s) a u) a"
    by (intro filter_cong) force+
  have keys: "filter (live_user d (env_now s) a) (map fst b) =
      map fst (filter (\<lambda>(u, _). live_user d (env_now s) a u) b)" for b :: "(string \<times> auth_tokens) list"
    by (induction b) auto
  have fold: "fold set_add (filter (live_user d (env_now s) a) (map fst a)) [] =
      filter (live_user d (env_now s) a) (map fst a)"
    using fold_set_add_fresh [of "[]", simplified, OF distinct_filter [OF dist]] .
  have "restoreAuth d s = restore_users d (map fst a) s"
    by (simp add: restoreAuth_def tm_reads [OF d r] io_simps)
  with restore_users_outcome [OF d r dist] assms(3) show ?thesis
    unfolding all assms(3) by (simp add: fold [unfolded keys] keys)
qed

end

lemma live_filter:
  assumes "distinct (map fst a)"
  shows "filter (\<lambda>(u, _). live_user d now a u) a =
         filter (\<lambda>(u, tok). \<not> token_expired (td_jwtDecode d) now (Some tok)) a"
  using assms by (intro filter_cong) (auto simp: live_user_def)

lemma live_keys:
  assumes "distinct (map fst a)"
  shows "u \<in> fst ` set (filter (\<lambda>(u, _). live_user d now a u) a) \<longleftrightarrow> live_user d now a u"
proof -
  have "live_user d now a u \<Longrightarrow> u \<in> fst ` set a"
    by (cases "map_of a u")
      (auto simp: live_user_def token_expired_def dest: map_of_SomeD intro: rev_image_eqI)
  then show ?thesis by force
qed

text \<open>
  Restoring the session. Starting with nobody signed in, over the native secure storage as any
  sequence of token operations left it, \<^verbatim>\<open>restoreAuth\<close> succeeds and signs in exactly the users
  whose token has not expired, in the order they first signed in; the tokens of the others are
  gone from the storage; and afterwards \<^verbatim>\<open>isAuthenticated\<close> agrees with the store.
\<close>

theorem session_is_restored:
  assumes "keychain_reliable view kc" and "token_json_ok (td_json d)"
    and "td_storage d = native_secure_storage (td_json d) kc"
    and "list_all token_command_ok cs" and "view st = (\<lambda>_. None)"
    and "id_storage s = with_lock (map (createTokenManager (td_json d) (td_storage d)) cs) st"
    and "id_snapshot s = []"
  shows "let live = filter (\<lambda>(u, tok). \<not> token_expired (td_jwtDecode d) (env_now s) (Some tok))
                      (fold token_spec cs []);
             (r, t) = restoreAuth d s
         in r = Inr () \<and> id_snapshot t = map fst live \<and>
            fst (tm_getTrackedUsers d t) = Inr (map fst live) \<and>
            fst (tm_getTokens d user t) = Inr (map_of live user) \<and>
            fst (isAuthenticated d user t) = Inr (user \<in> set (id_snapshot t))"
proof -
  note tk = token_keychainI [OF assms(1,2)]
  let ?st = "native_secure_storage (td_json d) kc"
  let ?v = "\<lambda>s k. view s (serviceFor k)"
  let ?a = "fold token_spec cs []"
  have store: "token_store ?st ?v (- {''__keys__''}) (td_json d)"
    by (rule token_keychain.is_token_store [OF tk])
  have d: "token_store.uses_store ?st (td_json d) d"
    by (simp add: token_store.uses_store_def [OF store] assms(3))
  have "token_store.represents ?v (td_json d) st []"
    by (rule token_store.represents_empty [OF store]) (simp add: assms(5))
  from token_store.manager_run [OF store this assms(4)]
  have r: "token_store.represents ?v (td_json d) (id_storage s) ?a" by (simp add: assms(3,6))
  then have dist: "distinct (map fst ?a)" by (simp add: token_store.represents_def [OF store])
  let ?live = "filter (\<lambda>(u, _). live_user d (env_now s) ?a u) ?a"
  obtain t where t: "restoreAuth d s = (Inr (), t)" "id_snapshot t = map fst ?live"
    "env_now t = env_now s" "token_store.represents ?v (td_json d) (id_storage t) ?live"
    using token_store.restoreAuth_outcome [OF store d r assms(7)] by blast
  have same: "live_user d (env_now s) ?live user = live_user d (env_now s) ?a user"
  proof (cases "live_user d (env_now s) ?a user")
    case True
    then have "map_of ?live user = map_of ?a user"
      using map_of_filter_in [of ?a user _ "\<lambda>u _. live_user d (env_now s) ?a u"]
      by (cases "map_of ?a user") (auto simp: live_user_def token_expired_def)
    then show ?thesis by (simp add: live_user_def)
  next
    case False
    then have "user \<notin> fst ` set ?live" using live_keys [OF dist] by blast
    then have "map_of ?live user = None" by (simp add: map_of_eq_None_iff)
    with False show ?thesis by (simp add: live_user_def token_expired_def)
  qed
  have auth: "fst (isAuthenticated d user t) = Inr (user \<in> set (id_snapshot t))"
    using live_keys [OF dist, of user d "env_now s"] same
    by (simp add: isAuthenticated_def io_simps token_store.tm_reads [OF store d t(4)] t(2,3))
  show ?thesis
    using t(1,2) auth token_store.tm_reads [OF store d t(4)]
    by (simp add: live_filter [OF dist] Let_def)
qed

definition sample_token_deps :: "(string \<Rightarrow> string option) token_deps" where
  "sample_token_deps =
     \<lparr>td_json = sample_token_json, td_storage = native_secure_storage sample_token_json plain_keychain,
      td_jwtDecode = (\<lambda>token. Some [(''exp'', JNum (if token = ''2'' then 100 else 10))])\<rparr>"

definition sample_identity_env :: "(string \<Rightarrow> string option) identity_env" where
  "sample_identity_env =
     \<lparr>env_now = 50000, env_log = [],
      id_storage = with_lock (map (createTokenManager sample_token_json
        (native_secure_storage sample_token_json plain_keychain))
        [SetTokens ''a'' (sample_tokens ''1''), SetTokens ''b'' (sample_tokens ''2'')]) (\<lambda>_. None),
      id_snapshot = [], id_listeners = [], id_notified = [], id_usernameByRequest = []\<rparr>"

theorem session_is_restored_witness:
  "id_snapshot (snd (restoreAuth sample_token_deps sample_identity_env)) = [''b'']"
proof -
  let ?cs = "[SetTokens ''a'' (sample_tokens ''1''), SetTokens ''b'' (sample_tokens ''2'')]"
  have a: "token_json_ok (td_json sample_token_deps)"
    by (simp add: sample_token_deps_def sample_token_json_ok)
  have b: "td_storage sample_token_deps =
      native_secure_storage (td_json sample_token_deps) plain_keychain"
    by (simp add: sample_token_deps_def)
  have c: "list_all token_command_ok ?cs" by (simp add: sample_tokens_def)
  have e: "id (\<lambda>_ :: string. None :: string option) = (\<lambda>_. None)" by simp
  have f: "id_storage sample_identity_env =
      with_lock (map (createTokenManager (td_json sample_token_deps) (td_storage sample_token_deps)) ?cs)
        (\<lambda>_. None)"
    by (simp add: sample_identity_env_def sample_token_deps_def)
  have g: "id_snapshot sample_identity_env = []" by (simp add: sample_identity_env_def)
  have live: "filter (\<lambda>(u, tok). \<not> token_expired (td_jwtDecode sample_token_deps)
      (env_now sample_identity_env) (Some tok)) (fold token_spec ?cs []) = [(''b'', sample_tokens ''2'')]"
    by (simp add: sample_token_deps_def sample_identity_env_def token_expired_def parseJwtExpiry_def
        EXPIRY_BUFFER_SECONDS_def sample_tokens_def)
  from session_is_restored [where view = id and st = "\<lambda>_. None",
      OF plain_keychain_reliable a b c e f g, where user = "''b''"]
  show ?thesis unfolding live by (simp add: Let_def split_beta)
qed

end
