(* ===== verification/IdentityResponses.thy ===== *)
theory IdentityResponses
  imports IdentitySession
begin

text \<open>
  \<^verbatim>\<open>packages/identity-client/src/data-sources\<close>: the checks of server responses
  (\<^verbatim>\<open>validate-response.ts\<close>) and the data sources of the session, the login, the registration
  and the user actions, over the client of \<^verbatim>\<open>HttpClient\<close>. A check throws or returns nothing;
  the value it passes is then used as what TypeScript declares it to be.
\<close>

section \<open>Checks\<close>

type_synonym check = "thrown + unit"

definition passed :: check where
  "passed = Inr ()"

definition refuse :: "string \<Rightarrow> check" where
  "refuse msg = Inl (identity_error_of UNKNOWN msg)"

definition and_then :: "check \<Rightarrow> check \<Rightarrow> check" where
  "and_then c d = (case c of Inl e \<Rightarrow> Inl e | Inr _ \<Rightarrow> d)"

fun isNonNullObject :: "js_value \<Rightarrow> bool" where
  "isNonNullObject (JObj i obj) = True"
| "isNonNullObject (JFormData i) = True"
| "isNonNullObject v = False"

fun nonempty_string :: "js_value \<Rightarrow> bool" where
  "nonempty_string (JStr s) = (s \<noteq> [])"
| "nonempty_string v = False"

definition assertObject :: "js_value \<Rightarrow> string \<Rightarrow> check" where
  "assertObject v msg = (if isNonNullObject v then passed else refuse msg)"

definition assertString :: "js_value \<Rightarrow> string \<Rightarrow> check" where
  "assertString v name =
     (if nonempty_string (get_field v name) then passed
      else refuse (''Invalid response: missing or empty '' @ name))"

definition assertRelyingParty :: "js_value \<Rightarrow> check" where
  "assertRelyingParty rp =
     and_then (assertObject rp ''Invalid response: missing rp'')
     (and_then (assertString rp ''id'') (assertString rp ''name''))"

definition validateActionChallengeResponse :: "js_value \<Rightarrow> check" where
  "validateActionChallengeResponse v =
     and_then (assertObject v ''Invalid login challenge response'')
     (and_then (assertString v ''challenge'')
     (and_then (assertString v ''challengeIdentifier'')
     (and_then (assertRelyingParty (get_field v ''rp''))
       (assertObject (get_field v ''allowCredentials'') ''Invalid response: missing allowCredentials''))))"

definition validateRegistrationChallengeResponse :: "js_value \<Rightarrow> check" where
  "validateRegistrationChallengeResponse v =
     and_then (assertObject v ''Invalid registration challenge response'')
     (and_then (assertString v ''challenge'')
     (and_then (assertRelyingParty (get_field v ''rp''))
     (and_then (assertObject (get_field v ''user'') ''Invalid response: missing user'')
     (and_then (assertString (get_field v ''user'') ''id'') (assertString (get_field v ''user'') ''name'')))))"

definition validateAuthTokensResponse :: "js_value \<Rightarrow> check" where
  "validateAuthTokensResponse v =
     and_then (assertObject v ''Invalid auth tokens response'')
     (and_then (assertString v ''token'') (assertString v ''refreshToken''))"

definition validateRegistrationResultResponse :: "js_value \<Rightarrow> check" where
  "validateRegistrationResultResponse v =
     and_then (assertObject v ''Invalid registration result response'')
     (and_then (assertObject (get_field v ''authentication'') ''Invalid response: missing authentication'')
     (and_then (validateAuthTokensResponse (get_field v ''authentication''))
     (and_then (assertObject (get_field v ''user'') ''Invalid response: missing user'')
       (assertString (get_field v ''user'') ''id''))))"

definition validateRecoveryResultResponse :: "js_value \<Rightarrow> check" where
  "validateRecoveryResultResponse v =
     and_then (assertObject v ''Invalid recovery result response'')
     (and_then (assertObject (get_field v ''credential'') ''Invalid response: missing credential'')
     (and_then (assertString (get_field v ''credential'') ''uuid'')
     (and_then (assertString (get_field v ''credential'') ''kind'')
     (and_then (assertString (get_field v ''credential'') ''name'')
     (and_then (assertObject (get_field v ''authentication'') ''Invalid response: missing authentication'')
     (and_then (validateAuthTokensResponse (get_field v ''authentication''))
     (and_then (assertObject (get_field v ''user'') ''Invalid response: missing user'')
       (assertString (get_field v ''user'') ''id''))))))))"

definition validateRefreshTokenResponse :: "js_value \<Rightarrow> check" where
  "validateRefreshTokenResponse v =
     and_then (assertObject v ''Invalid refresh token response'') (assertString v ''token'')"

definition validateUserActionResponse :: "js_value \<Rightarrow> check" where
  "validateUserActionResponse v =
     and_then (assertObject v ''Invalid user action response'') (assertString v ''userAction'')"

fun text_of :: "js_value \<Rightarrow> string" where
  "text_of (JStr s) = s"
| "text_of v = []"

lemma and_then_Inr [simp]: "and_then c d = Inr () \<longleftrightarrow> c = Inr () \<and> d = Inr ()"
  by (cases c) (simp_all add: and_then_def)

lemma assertObject_Inr [simp]: "assertObject v msg = Inr () \<longleftrightarrow> isNonNullObject v"
  by (simp add: assertObject_def passed_def refuse_def)

lemma nonempty_string_iff: "nonempty_string v \<longleftrightarrow> (\<exists>s. v = JStr s \<and> s \<noteq> [])"
  by (cases v) auto

lemma assertString_Inr [simp]:
  "assertString v name = Inr () \<longleftrightarrow> (\<exists>s. get_field v name = JStr s \<and> s \<noteq> [])"
  by (auto simp: assertString_def passed_def refuse_def nonempty_string_iff)

text \<open>
  Tokens that passed the check are tokens that the token manager reads back: neither is empty.
\<close>

lemma validated_tokens:
  "validateAuthTokensResponse v = Inr () \<Longrightarrow>
   text_of (get_field v ''token'') \<noteq> [] \<and> text_of (get_field v ''refreshToken'') \<noteq> []"
  by (auto simp: validateAuthTokensResponse_def)

section \<open>Data sources\<close>

definition io_check :: "check \<Rightarrow> ('s, thrown, unit) io" where
  "io_check c = (case c of Inl e \<Rightarrow> io_throw e | Inr _ \<Rightarrow> io_return ())"

lemma io_check_simp [io_simps]: "io_check c s = (case c of Inl e \<Rightarrow> (Inl e, s) | Inr _ \<Rightarrow> (Inr (), s))"
  by (cases c) (simp_all add: io_check_def io_simps)

record 's session_source =
  sd_refreshToken :: "string \<Rightarrow> string \<Rightarrow> string \<Rightarrow> ('s, thrown, string \<times> string option) io"
  sd_logout :: "string \<Rightarrow> ('s, thrown, unit) io"

text \<open>
  \<^verbatim>\<open>result.refreshToken\<close>, where the server left it out, sent null, or sent a string; a value of
  another type is as unreadable, once stored, as the empty string.
\<close>

fun optional_text :: "js_value \<Rightarrow> string option" where
  "optional_text JUndefined = None"
| "optional_text JNull = None"
| "optional_text v = Some (text_of v)"

definition post_options :: "js_value \<Rightarrow> string js_record option \<Rightarrow> request_options" where
  "post_options body headers = empty_options\<lparr>ro_body := body, ro_headers := headers\<rparr>"

definition refresh_request ::
  "(js_value \<Rightarrow> string) \<Rightarrow> ('x env_scheme) client_internals \<Rightarrow> string \<Rightarrow> string \<Rightarrow> string \<Rightarrow>
   ('x env_scheme, thrown, string \<times> string option) io" where
  "refresh_request stringify internals username currentToken refreshTok =
     io_bind (io_lift (client_post stringify internals ''/auth/login/delegated''
         (Some (post_options
            (JObj 0 [(''username'', JStr username), (''refreshToken'', JStr refreshTok)])
            (Some [(''Authorization'', ''Bearer '' @ currentToken), (''X-Username'', username)])))))
       (\<lambda>response. let body = hr_body response in
          io_then (io_check (validateRefreshTokenResponse body))
            (io_return (text_of (get_field body ''token''), optional_text (get_field body ''refreshToken''))))"

definition logout_request ::
  "(js_value \<Rightarrow> string) \<Rightarrow> ('x env_scheme) client_internals \<Rightarrow> string \<Rightarrow>
   ('x env_scheme, thrown, unit) io" where
  "logout_request stringify internals username =
     io_bind (io_lift (client_put stringify internals ''/auth/logout''
         (Some (post_options JUndefined (Some [(''X-Username'', username)])))))
       (\<lambda>_. io_return ())"

definition createSessionDataSource ::
  "(js_value \<Rightarrow> string) \<Rightarrow> ('x env_scheme) client_internals \<Rightarrow> ('x env_scheme) session_source" where
  "createSessionDataSource stringify internals =
     \<lparr>sd_refreshToken = refresh_request stringify internals,
      sd_logout = logout_request stringify internals\<rparr>"

end
