(* ===== verification/IdentityRefresh.thy ===== *)
theory IdentityRefresh
  imports IdentityResponses
begin

text \<open>
  \<^verbatim>\<open>packages/identity-client/src\<close>: refreshing the tokens of a user (\<^verbatim>\<open>auth/refresh-token.ts\<close>),
  one refresh at a time per user (\<^verbatim>\<open>token/deduplicated-refresh.ts\<close>), signing out
  (\<^verbatim>\<open>auth/logout.ts\<close>) and deleting the account (\<^verbatim>\<open>auth/delete-account.ts\<close>). The refresh is
  given twice: as one computation, and in the pieces between its awaits, which the concurrent
  callers run.
\<close>

section \<open>Refreshing\<close>

fun isPermanentAuthFailure :: "thrown \<Rightarrow> bool" where
  "isPermanentAuthFailure (OtherErr (NetworkErr ne)) =
     (ne_status ne = Some 401 \<or> ne_status ne = Some 403)"
| "isPermanentAuthFailure e = False"

definition new_tokens :: "auth_tokens \<Rightarrow> string \<times> string option \<Rightarrow> auth_tokens" where
  "new_tokens old result =
     \<lparr>at_token = fst result, at_refreshToken = or_default (snd result) (at_refreshToken old)\<rparr>"

definition refreshToken ::
  "'st token_deps \<Rightarrow> (('st, 'x) identity_env_scheme) session_source \<Rightarrow> string \<Rightarrow>
   (('st, 'x) identity_env_scheme, thrown, unit) io" where
  "refreshToken d src username =
     io_bind (io_lift (tm_getTokens d username)) (\<lambda>found.
       case found of
         None \<Rightarrow> io_throw (identity_error_of UNAUTHENTICATED ''No tokens found'')
       | Some tokens \<Rightarrow>
           io_catch
             (io_bind (sd_refreshToken src username (at_token tokens) (at_refreshToken tokens)) (\<lambda>result.
                io_lift (tm_setTokens d username (new_tokens tokens result))))
             (\<lambda>error.
                io_then (if isPermanentAuthFailure error then io_lift (tm_clearTokens d username)
                         else io_return ())
                  (io_throw error)))"

datatype token_job =
    ReadTokens
  | AskServer auth_tokens
  | StoreTokens auth_tokens
  | DropTokens thrown

text \<open>What follows an error inside the \<^verbatim>\<open>try\<close>: the tokens are dropped, or it is thrown on.\<close>

definition after_error :: "thrown \<Rightarrow> token_job + (thrown + unit)" where
  "after_error e = (if isPermanentAuthFailure e then Inl (DropTokens e) else Inr (Inl e))"

fun token_job_step ::
  "'st token_deps \<Rightarrow> (('st, 'x) identity_env_scheme) session_source \<Rightarrow> string \<Rightarrow>
   token_job \<Rightarrow> ('st, 'x) identity_env_scheme \<Rightarrow>
   (token_job + (thrown + unit)) \<times> ('st, 'x) identity_env_scheme" where
  "token_job_step d src u ReadTokens s =
     (case tm_getTokens d u s of
        (Inl e, t) \<Rightarrow> (Inr (Inl (OtherErr e)), t)
      | (Inr None, t) \<Rightarrow> (Inr (Inl (identity_error_of UNAUTHENTICATED ''No tokens found'')), t)
      | (Inr (Some tokens), t) \<Rightarrow> (Inl (AskServer tokens), t))"
| "token_job_step d src u (AskServer tokens) s =
     (case sd_refreshToken src u (at_token tokens) (at_refreshToken tokens) s of
        (Inl e, t) \<Rightarrow> (after_error e, t)
      | (Inr result, t) \<Rightarrow> (Inl (StoreTokens (new_tokens tokens result)), t))"
| "token_job_step d src u (StoreTokens tokens) s =
     (case tm_setTokens d u tokens s of
        (Inl e, t) \<Rightarrow> (after_error (OtherErr e), t)
      | (Inr _, t) \<Rightarrow> (Inr (Inr ()), t))"
| "token_job_step d src u (DropTokens error) s =
     (case tm_clearTokens d u s of
        (Inl e, t) \<Rightarrow> (Inr (Inl (OtherErr e)), t)
      | (Inr _, t) \<Rightarrow> (Inr (Inl error), t))"

text \<open>The pieces run one after the other are the computation.\<close>

lemma run_after_error:
  "(case after_error e of
      Inl j \<Rightarrow> run_job (Suc n) (token_job_step d src u) j t | Inr r \<Rightarrow> Some (r, t)) =
   Some (io_then (if isPermanentAuthFailure e then io_lift (tm_clearTokens d u) else io_return ())
           (io_throw e) t)"
proof (cases "tm_clearTokens d u t")
  case (Pair r v)
  then show ?thesis by (cases r) (simp_all add: after_error_def io_simps)
qed

lemma token_job_is_refreshToken:
  "run_job 4 (token_job_step d src u) ReadTokens s = Some (refreshToken d src u s)"
proof -
  have four: "(4::nat) = Suc (Suc (Suc (Suc 0)))" by simp
  obtain r t where get: "tm_getTokens d u s = (r, t)" by (cases "tm_getTokens d u s")
  show ?thesis
  proof (cases r)
    case (Inl e)
    with get show ?thesis by (simp add: four refreshToken_def io_bind_simp io_lift_simp)
  next
    case (Inr found)
    show ?thesis
    proof (cases found)
      case None
      with get Inr show ?thesis
        by (simp add: four refreshToken_def io_bind_simp io_lift_simp io_throw_simp)
    next
      case (Some tokens)
      let ?ask = "sd_refreshToken src u (at_token tokens) (at_refreshToken tokens) t"
      obtain q v where ask: "?ask = (q, v)" by (cases ?ask)
      show ?thesis
      proof (cases q)
        case (Inl e)
        with get ask Inr Some run_after_error [where e = e and n = "Suc 0" and d = d and src = src and u = u and t = v] show ?thesis
          by (simp add: four refreshToken_def io_bind_simp io_lift_simp io_catch_simp
              split: sum.splits)
      next
        case (Inr result)
        obtain w x where set: "tm_setTokens d u (new_tokens tokens result) v = (w, x)"
          by (cases "tm_setTokens d u (new_tokens tokens result) v")
        show ?thesis
          using get ask \<open>r = Inr found\<close> Some Inr set run_after_error [where n = 0 and d = d and src = src and u = u and t = x]
          by (cases w) (simp_all add: four refreshToken_def io_bind_simp io_lift_simp io_catch_simp
              split: sum.splits)
      qed
    qed
  qed
qed

section \<open>One refresh per user\<close>

text \<open>
  \<^verbatim>\<open>locks\<close> maps a user to the promise of the refresh under way, so every user has callers,
  refreshes and a lock of his own (the flights of \<open>SingleFlight\<close>), over one shared state. A step of
  one user's is a change of the state that the others see.
\<close>

inductive deduplicatedRefresh ::
  "(string \<Rightarrow> 'j) \<Rightarrow> (string \<Rightarrow> 'j \<Rightarrow> 's \<Rightarrow> ('j + 'r) \<times> 's) \<Rightarrow>
   (string \<Rightarrow> ('j, 'r, 's) flights) \<Rightarrow> (string \<Rightarrow> ('j, 'r, 's) flights) \<Rightarrow> bool"
  for start adv where
  UserStep: "flight_step (start username) (adv username) (locks username) new \<Longrightarrow>
    deduplicatedRefresh start adv locks
      (\<lambda>u. if u = username then new else (locks u)\<lparr>fl_env := fl_env new\<rparr>)"

inductive_cases deduplicatedRefreshE: "deduplicatedRefresh start adv locks new"

inductive refresh_reachable ::
  "(string \<Rightarrow> 'j) \<Rightarrow> (string \<Rightarrow> 'j \<Rightarrow> 's \<Rightarrow> ('j + 'r) \<times> 's) \<Rightarrow> 's \<Rightarrow>
   (string \<Rightarrow> ('j, 'r, 's) flights) \<Rightarrow> bool"
  for start adv e where
  NoLocks: "refresh_reachable start adv e (\<lambda>_. no_flights e)"
| RefreshStep: "refresh_reachable start adv e locks \<Longrightarrow> deduplicatedRefresh start adv locks new \<Longrightarrow>
    refresh_reachable start adv e new"

lemma user_view_reachable:
  "refresh_reachable start adv e locks \<Longrightarrow> flight_reachable (start u) (adv u) e (locks u)"
proof (induction rule: refresh_reachable.induct)
  case NoLocks
  show ?case by (rule flight_reachable.Start)
next
  case (RefreshStep locks new)
  from RefreshStep.hyps(2) obtain username T where
    new: "new = (\<lambda>v. if v = username then T else (locks v)\<lparr>fl_env := fl_env T\<rparr>)"
    and step: "flight_step (start username) (adv username) (locks username) T"
    by (rule deduplicatedRefreshE) blast
  show ?case
  proof (cases "u = username")
    case True
    with new step RefreshStep.IH show ?thesis by (auto intro: flight_reachable.Step)
  next
    case False
    with new flight_reachable.Step [OF RefreshStep.IH flight_step.Other] show ?thesis by simp
  qed
qed

lemma shared_state:
  "refresh_reachable start adv e locks \<Longrightarrow> fl_env (locks u) = fl_env (locks v)"
  by (induction rule: refresh_reachable.induct) (auto simp: no_flights_def elim!: deduplicatedRefreshE)

text \<open>
  Concurrent refreshes are one per user. However the callers of \<^verbatim>\<open>refreshToken\<close>, for any users,
  their refreshes and the rest of the program interleave: at most one refresh per user is under
  way, so that no refresh token is submitted twice at the same time; two callers that waited for
  the same refresh get the same outcome; and a caller still waiting is not stuck.
\<close>

theorem refreshes_are_one_per_user:
  assumes "refresh_reachable (\<lambda>_. ReadTokens) (token_job_step d src) e locks"
  shows "length (filter isl (fl_jobs (locks u))) \<le> 1 \<and>
    (\<forall>i < length (fl_tasks (locks u)). \<forall>k < length (fl_tasks (locks u)). \<forall>f r q.
       fl_tasks (locks u) ! i = TDone f r \<and> fl_tasks (locks u) ! k = TDone f q \<longrightarrow> r = q) \<and>
    (\<forall>i < length (fl_tasks (locks u)). \<forall>f. fl_tasks (locks u) ! i \<in> {TOwner f, TWaiter f} \<longrightarrow>
       (\<exists>new. deduplicatedRefresh (\<lambda>_. ReadTokens) (token_job_step d src) locks new \<and>
          (isl (fl_jobs (locks u) ! f) \<or> (\<exists>r. fl_tasks (new u) ! i = TDone f r))))"
proof (intro conjI allI impI)
  have ok: "flight_ok (locks u)"
    by (rule flight_ok_reachable [OF user_view_reachable [OF assms]])
  show "length (filter isl (fl_jobs (locks u))) \<le> 1" by (rule running_jobs_le_1 [OF ok])
  {
    fix i k f r q
    assume i: "i < length (fl_tasks (locks u))" and k: "k < length (fl_tasks (locks u))"
      and t: "fl_tasks (locks u) ! i = TDone f r \<and> fl_tasks (locks u) ! k = TDone f q"
    show "r = q" by (rule shared_outcome [OF ok k i conjunct2 [OF t] conjunct1 [OF t]])
  }
  fix i f
  assume i: "i < length (fl_tasks (locks u))" and "fl_tasks (locks u) ! i \<in> {TOwner f, TWaiter f}"
  then have "fl_tasks (locks u) ! i = TOwner f \<or> fl_tasks (locks u) ! i = TWaiter f" by simp
  from flight_progress [OF ok i this, of ReadTokens "token_job_step d src u"]
  obtain T where "flight_step ReadTokens (token_job_step d src u) (locks u) T"
    "isl (fl_jobs (locks u) ! f) \<or> (\<exists>r. fl_tasks T ! i = TDone f r)"
    by fastforce
  with deduplicatedRefresh.UserStep [of "\<lambda>_. ReadTokens" u "token_job_step d src" locks T]
  show "\<exists>new. deduplicatedRefresh (\<lambda>_. ReadTokens) (token_job_step d src) locks new \<and>
          (isl (fl_jobs (locks u) ! f) \<or> (\<exists>r. fl_tasks (new u) ! i = TDone f r))"
    by fastforce
qed

definition sample_session_source :: "((string \<Rightarrow> string option) identity_env) session_source" where
  "sample_session_source =
     \<lparr>sd_refreshToken = (\<lambda>u t r. io_return (''3'', None)), sd_logout = (\<lambda>u. io_return ())\<rparr>"

theorem refreshes_are_one_per_user_witness:
  "length (filter isl (fl_jobs (no_flights sample_identity_env ::
     (token_job, thrown + unit, (string \<Rightarrow> string option) identity_env) flights))) \<le> 1"
  using refreshes_are_one_per_user [of sample_token_deps sample_session_source sample_identity_env
      "\<lambda>_. no_flights sample_identity_env", OF refresh_reachable.NoLocks]
  by blast

section \<open>What a refresh, a sign-out and a deletion do to the tokens\<close>

text \<open>The tokens that a keychain holds, as an association list.\<close>

definition keychain_tokens ::
  "json \<Rightarrow> ('s \<Rightarrow> string \<Rightarrow> string option) \<Rightarrow> 's \<Rightarrow> (string \<times> auth_tokens) list \<Rightarrow> bool" where
  "keychain_tokens js view s a =
     (distinct (map fst a) \<and>
      parse_tracked js (view s (serviceFor TRACKED_USERS_KEY)) = map fst a \<and>
      (\<forall>u. parse_tokens js (view s (serviceFor (storageKey u))) = map_of a u))"

definition native_token_deps ::
  "('st \<Rightarrow> string \<Rightarrow> string option) \<Rightarrow> 'st keychain \<Rightarrow> 'st token_deps \<Rightarrow> bool" where
  "native_token_deps view kc d =
     (keychain_reliable view kc \<and> token_json_ok (td_json d) \<and>
      td_storage d = native_secure_storage (td_json d) kc)"

lemma native_store:
  assumes "native_token_deps view kc d"
  shows "token_store (td_storage d) (\<lambda>s k. view s (serviceFor k)) (- {''__keys__''}) (td_json d)"
    and "token_store.uses_store (td_storage d) (td_json d) d"
proof -
  show st: "token_store (td_storage d) (\<lambda>s k. view s (serviceFor k)) (- {''__keys__''}) (td_json d)"
    using assms token_keychain.is_token_store [OF token_keychainI, of view kc "td_json d"]
    by (simp add: native_token_deps_def)
  show "token_store.uses_store (td_storage d) (td_json d) d"
    by (simp add: token_store.uses_store_def [OF st])
qed

lemma keychain_represents:
  assumes "native_token_deps view kc d"
  shows "keychain_tokens (td_json d) view s a \<longleftrightarrow>
         token_store.represents (\<lambda>s k. view s (serviceFor k)) (td_json d) s a"
  by (simp add: token_store.represents_def [OF native_store(1) [OF assms]] keychain_tokens_def)

lemma native_reads:
  assumes "native_token_deps view kc d" "keychain_tokens (td_json d) view (id_storage s) a"
  shows "tm_getTokens d u s = (Inr (map_of a u), s)"
  using token_store.tm_reads(1) [OF native_store [OF assms(1)]
      assms(2) [unfolded keychain_represents [OF assms(1)]]] .

lemma native_clear:
  assumes "native_token_deps view kc d" "keychain_tokens (td_json d) view (id_storage s) a"
  obtains v where "tm_clearTokens d u s = (Inr (), s\<lparr>id_storage := v\<rparr>)"
    "keychain_tokens (td_json d) view v (AList.delete u a)"
  using token_store.tm_clear [OF native_store [OF assms(1)]
      assms(2) [unfolded keychain_represents [OF assms(1)]], of u]
  unfolding keychain_represents [OF assms(1)] by blast

lemma native_set:
  assumes "native_token_deps view kc d" "keychain_tokens (td_json d) view (id_storage s) a"
    and "at_token tok \<noteq> []" "at_refreshToken tok \<noteq> []"
  obtains v where "tm_setTokens d u tok s = (Inr (), s\<lparr>id_storage := v\<rparr>)"
    "keychain_tokens (td_json d) view v (AList.update u tok a)"
  using token_store.tm_set [OF native_store [OF assms(1)]
      assms(2) [unfolded keychain_represents [OF assms(1)]] assms(3,4), of u]
  unfolding keychain_represents [OF assms(1)] by blast


text \<open>
  \<^verbatim>\<open>try { await request } finally { ... await clearTokens }\<close>: an error of the \<^verbatim>\<open>finally\<close> block
  takes the place of the outcome.
\<close>

definition logout ::
  "'st token_deps \<Rightarrow> (('st, 'x) identity_env_scheme) session_source \<Rightarrow> string \<Rightarrow>
   (('st, 'x) identity_env_scheme, thrown, unit) io" where
  "logout d src username s =
     (case sd_logout src username s of
        (r, t) \<Rightarrow>
          (case io_then (io_modify (removeUser username)) (io_lift (tm_clearTokens d username)) t of
             (Inl e, v) \<Rightarrow> (Inl e, v)
           | (Inr _, v) \<Rightarrow> (r, v)))"

definition deleteAccount ::
  "(js_value \<Rightarrow> string) \<Rightarrow> (('st, 'x) identity_env_scheme) client_internals \<Rightarrow> 'st token_deps \<Rightarrow>
   string \<Rightarrow> string \<Rightarrow> (('st, 'x) identity_env_scheme, thrown, unit) io" where
  "deleteAccount stringify internals d username userAction =
     io_bind (extractUserId d username) (\<lambda>userId.
       io_bind (io_lift (client_delete stringify internals (''/auth/users/'' @ encodeURIComponent userId)
           (Some (post_options JUndefined
              (Some [(''X-Username'', username), (''X-Useraction'', userAction)]))))) (\<lambda>_.
         io_then (io_lift (tm_clearTokens d username)) (io_modify (removeUser username))))"


section \<open>Examples\<close>

definition signed_in_env :: "(string \<Rightarrow> string option) identity_env" where
  "signed_in_env =
     sample_identity_env\<lparr>id_storage := with_lock (map (createTokenManager sample_token_json
        (native_secure_storage sample_token_json plain_keychain))
        [SetTokens ''a'' (sample_tokens ''1'')]) (\<lambda>_. None), id_snapshot := [''a'']\<rparr>"

lemma sample_native_deps: "native_token_deps id plain_keychain sample_token_deps"
  by (simp add: native_token_deps_def plain_keychain_reliable sample_token_json_ok sample_token_deps_def)

lemma signed_in_tokens:
  "keychain_tokens (td_json sample_token_deps) id (id_storage signed_in_env) [(''a'', sample_tokens ''1'')]"
proof -
  have "list_all token_command_ok [SetTokens ''a'' (sample_tokens ''1'')]"
    by (simp add: sample_tokens_def)
  from plain.tokens.manager_run [OF plain.tokens.represents_empty [of "\<lambda>_. None"] this]
  show ?thesis
    unfolding keychain_represents [OF sample_native_deps]
    by (simp add: signed_in_env_def sample_token_deps_def)
qed



text \<open>
  A refresh that the server refuses for good drops the tokens but not the user: the store goes on
  listing a user who is not authenticated any more.
\<close>

lemma refused_refresh_keeps_the_user_listed:
  assumes "native_token_deps view kc d" and "keychain_tokens (td_json d) view (id_storage s) a"
    and "map_of a u = Some tok" and "at_refreshToken tok \<noteq> []"
    and "sd_refreshToken src u (at_token tok) (at_refreshToken tok) s = (Inl e, s)"
    and "isPermanentAuthFailure e" and "u \<in> set (id_snapshot s)"
  shows "let t = snd (refreshToken d src u s) in
    fst (tm_getTokens d u t) = Inr None \<and> u \<in> set (id_snapshot t)"
proof -
  obtain v where
    v: "tm_clearTokens d u s = (Inr (), s\<lparr>id_storage := v\<rparr>)"
    and a: "keychain_tokens (td_json d) view v (AList.delete u a)"
    using native_clear [OF assms(1,2)] by blast
  have run: "refreshToken d src u s = (Inl e, s\<lparr>id_storage := v\<rparr>)"
    using v assms(3,5,6) native_reads [OF assms(1,2)]
    by (simp add: refreshToken_def io_bind_simp io_lift_simp io_catch_simp io_then_simp io_throw_simp)
  have "keychain_tokens (td_json d) view (id_storage (s\<lparr>id_storage := v\<rparr>)) (AList.delete u a)"
    using a by simp
  from native_reads [OF assms(1) this, of u] show ?thesis
    using assms(7) by (simp add: run AList.delete_conv')
qed

end
