(* ===== verification/IdentityInterceptor.thy ===== *)
theory IdentityInterceptor
  imports IdentityRefresh
begin

text \<open>
  \<^verbatim>\<open>packages/identity-client/src/interceptor/identity-auth-interceptor.ts\<close>: the interceptor that
  puts a user's token on the requests made in his name, remembers which request is whose
  (\<^const>\<open>id_usernameByRequest\<close>), and is to refresh the token when a request comes back
  unauthorized. \<^verbatim>\<open>new URL(url).origin\<close> is the parameter \<open>origin\<close>, nothing where the constructor
  throws; the shared refresh is the parameter \<open>refresh\<close>.
\<close>

definition requestKey :: "string \<Rightarrow> string \<Rightarrow> string" where
  "requestKey meth url = meth @ '':'' @ url"

definition stripAuthorizationHeader :: "intercepted_request \<Rightarrow> intercepted_request" where
  "stripAuthorizationHeader request =
     request\<lparr>rq_headers := AList.delete ''Authorization'' (rq_headers request)\<rparr>"

definition isRelativeOrTrustedUrl ::
  "(string \<Rightarrow> string option) \<Rightarrow> string \<Rightarrow> string \<Rightarrow> js_error + bool" where
  "isRelativeOrTrustedUrl origin url trustedBaseUrl =
     (if prefix ''/'' url \<and> \<not> prefix ''//'' url \<or> \<not> includes_str url '':'' \<and> \<not> prefix ''//'' url
      then Inr True
      else if \<not> prefix ''http://'' url \<and> \<not> prefix ''https://'' url then Inr False
      else (case (origin url, origin trustedBaseUrl) of
              (Some a, Some b) \<Rightarrow> Inr (a = b)
            | _ \<Rightarrow> Inl (JsErr (Some ''Invalid URL''))))"

text \<open>A header that is there and not empty.\<close>

definition header :: "string js_record \<Rightarrow> string \<Rightarrow> string option" where
  "header headers name =
     (case map_of headers name of None \<Rightarrow> None | Some v \<Rightarrow> if v = [] then None else Some v)"

definition identity_injectAuthHeader ::
  "(string \<Rightarrow> string option) \<Rightarrow> 'st token_deps \<Rightarrow> string \<Rightarrow> intercepted_request \<Rightarrow>
   (('st, 'x) identity_env_scheme, js_error, intercepted_request) io" where
  "identity_injectAuthHeader origin d trustedBaseUrl request =
     (case isRelativeOrTrustedUrl origin (rq_url request) trustedBaseUrl of
        Inl e \<Rightarrow> io_throw e
      | Inr False \<Rightarrow> io_return (stripAuthorizationHeader request)
      | Inr True \<Rightarrow>
          if header (rq_headers request) ''Authorization'' \<noteq> None then io_return request
          else
            (case header (rq_headers request) ''X-Username'' of
               None \<Rightarrow> io_return request
             | Some username \<Rightarrow>
                 io_bind (tm_getTokens d username) (\<lambda>tokens.
                   case tokens of
                     None \<Rightarrow> io_return request
                   | Some t \<Rightarrow>
                       io_then
                         (io_modify (\<lambda>s. s\<lparr>id_usernameByRequest :=
                            AList.update (requestKey (rq_method request) (rq_url request)) username
                              (id_usernameByRequest s)\<rparr>))
                         (io_return (request\<lparr>rq_headers :=
                            AList.update ''Authorization'' (''Bearer '' @ at_token t) (rq_headers request)\<rparr>)))))"

text \<open>
  The first entry of the map whose key is the URL or ends in it: the map without the entry, and
  its user.
\<close>

definition key_matches :: "string \<Rightarrow> string \<Rightarrow> bool" where
  "key_matches url key = (key = url \<or> suffix ('':'' @ url) key)"

fun take_entry :: "string \<Rightarrow> (string \<times> string) list \<Rightarrow> (string option \<times> (string \<times> string) list)" where
  "take_entry url [] = (None, [])"
| "take_entry url ((key, username) # rest) =
     (if key_matches url key then (Some username, rest)
      else (let (found, left) = take_entry url rest in (found, (key, username) # left)))"

definition cleanupTracking ::
  "intercepted_response \<Rightarrow> (('st, 'x) identity_env_scheme, js_error, intercepted_response) io" where
  "cleanupTracking response =
     (if rs_url response \<noteq> []
      then io_then
        (io_modify (\<lambda>s. s\<lparr>id_usernameByRequest := snd (take_entry (rs_url response) (id_usernameByRequest s))\<rparr>))
        (io_return response)
      else io_return response)"

definition extractUsername ::
  "network_error \<Rightarrow> (('st, 'x) identity_env_scheme, js_error, string option) io" where
  "extractUsername error =
     (case ne_requestUrl error of
        None \<Rightarrow> io_return None
      | Some url \<Rightarrow>
          if url = [] then io_return None
          else (\<lambda>s. let (found, left) = take_entry url (id_usernameByRequest s)
                    in (Inr found, s\<lparr>id_usernameByRequest := left\<rparr>)))"

definition identity_handleAuthError ::
  "'st token_deps \<Rightarrow> (string \<Rightarrow> (('st, 'x) identity_env_scheme, thrown, unit) io) \<Rightarrow> network_error \<Rightarrow>
   (('st, 'x) identity_env_scheme, js_error, network_error) io" where
  "identity_handleAuthError d refresh error =
     (if ne_code error \<noteq> AUTH_EXPIRED then io_return error
      else io_bind (extractUsername error) (\<lambda>found.
        case found of
          None \<Rightarrow> io_return error
        | Some username \<Rightarrow>
            if username = [] then io_return error
            else if suffix ''/auth/login/delegated'' (or_default (ne_requestUrl error) [])
            then io_then (tm_clearTokens d username) (io_return error)
            else (\<lambda>s. case refresh username s of
                (Inr _, t) \<Rightarrow>
                  (Inr ((network_error_of AUTH_EXPIRED (ne_message error))
                     \<lparr>ne_status := ne_status error, ne_shouldRetry := Some True\<rparr>), t)
              | (Inl _, t) \<Rightarrow>
                  io_then (emit_log LError ''Token refresh failed'' ''identity-auth-interceptor''
                             [(''username'', JStr username)])
                    (io_return error) t)))"

definition createIdentityAuthInterceptor ::
  "(string \<Rightarrow> string option) \<Rightarrow> 'st token_deps \<Rightarrow>
   (string \<Rightarrow> (('st, 'x) identity_env_scheme, thrown, unit) io) \<Rightarrow> string \<Rightarrow>
   (('st, 'x) identity_env_scheme) interceptor" where
  "createIdentityAuthInterceptor origin d refresh trustedBaseUrl =
     \<lparr>ic_name = ''identity-auth'',
      ic_onRequest = Some (identity_injectAuthHeader origin d trustedBaseUrl),
      ic_onResponse = Some cleanupTracking,
      ic_onError = Some (identity_handleAuthError d refresh)\<rparr>"

lemma identity_interceptor_simps [simp]:
  "ic_name (createIdentityAuthInterceptor origin d refresh base) = ''identity-auth''"
  "ic_onRequest (createIdentityAuthInterceptor origin d refresh base) =
     Some (identity_injectAuthHeader origin d base)"
  "ic_onResponse (createIdentityAuthInterceptor origin d refresh base) = Some cleanupTracking"
  "ic_onError (createIdentityAuthInterceptor origin d refresh base) =
     Some (identity_handleAuthError d refresh)"
  by (simp_all add: createIdentityAuthInterceptor_def)

section \<open>The token stays with the trusted server\<close>


definition sample_origin :: "string \<Rightarrow> string option" where
  "sample_origin url =
     (case split_on (CHR ''/'') url of
        a # b # c # rest \<Rightarrow> Some (a @ ''//'' @ c) | _ \<Rightarrow> None)"


section \<open>An unauthorized response is not refreshed\<close>

lemma key_matches_own [simp]: "key_matches url (requestKey meth url)"
  by (simp add: key_matches_def requestKey_def suffix_def)

text \<open>What the interceptor remembers of a lone request: nothing, or the request and its user.\<close>

definition tracks_at_most :: "string \<Rightarrow> string \<Rightarrow> ('st, 'x) identity_env_scheme \<Rightarrow> bool" where
  "tracks_at_most meth url s =
     (id_usernameByRequest s = [] \<or> (\<exists>u. id_usernameByRequest s = [(requestKey meth url, u)]))"

lemma tracked_removed:
  "tracks_at_most meth url s \<Longrightarrow> url \<noteq> [] \<Longrightarrow> snd (take_entry url (id_usernameByRequest s)) = []"
  by (auto simp: tracks_at_most_def)

lemma getTokens_keeps_tracking:
  "tm_getTokens d u s = (r, t) \<Longrightarrow> id_usernameByRequest t = id_usernameByRequest s"
  by (auto simp: tm_getTokens_def io_simps)

lemma inject_tracks:
  assumes "identity_injectAuthHeader origin d base request s = (Inr sent, t)"
    and "id_usernameByRequest s = []"
  shows "tracks_at_most (rq_method sent) (rq_url sent) t"
  using assms
  by (auto simp: identity_injectAuthHeader_def tracks_at_most_def stripAuthorizationHeader_def io_simps
      dest!: getTokens_keeps_tracking
      split: if_splits option.splits sum.splits prod.splits bool.splits)

definition identity_context ::
  "(string \<Rightarrow> string option) \<Rightarrow> 'st token_deps \<Rightarrow> string \<Rightarrow>
   (('st, 'x) identity_env_scheme) request_context \<Rightarrow>
   (string \<Rightarrow> (('st, 'x) identity_env_scheme, thrown, unit) io) \<Rightarrow>
   (('st, 'x) identity_env_scheme) request_context" where
  "identity_context origin d base context refresh =
     context\<lparr>cx_internals := (cx_internals context)
       \<lparr>ci_interceptors := [createIdentityAuthInterceptor origin d refresh base]\<rparr>\<rparr>"

lemma identity_context_simps [simp]:
  "ci_interceptors (cx_internals (identity_context origin d base context refresh)) =
     [createIdentityAuthInterceptor origin d refresh base]"
  "ci_transport (cx_internals (identity_context origin d base context refresh)) =
     ci_transport (cx_internals context)"
  by (simp_all add: identity_context_def)

text \<open>The steps of a request up to the error do not depend on \<open>refresh\<close>.\<close>

lemma build_no_refresh:
  "buildInterceptedRequest (identity_context origin d base context refresh) =
   buildInterceptedRequest (identity_context origin d base context refresh')"
  by (simp add: buildInterceptedRequest_def identity_context_def Let_def cong: if_cong)

lemma send_no_refresh:
  "send_once stringify (identity_context origin d base context refresh) req =
   send_once stringify (identity_context origin d base context refresh') req"
  by (simp add: send_once_def transport_input_of_def identity_context_def executeTransportRequest_def
      runResponseInterceptors_def transport_request_of_def Let_def cong: option.case_cong)

lemma log_keeps_tracking:
  "id_usernameByRequest (snd (logOutgoingRequest stringify r s)) = id_usernameByRequest s"
  "id_usernameByRequest (snd (logIncomingResponse stringify r res n s)) = id_usernameByRequest s"
  "fst (logOutgoingRequest stringify r s) = Inr ()"
  "fst (logIncomingResponse stringify r res n s) = Inr ()"
  by (simp_all add: logOutgoingRequest_def logIncomingResponse_def io_simps Let_def split: prod.splits)

text \<open>A request whose exchange succeeds leaves nothing remembered.\<close>

lemma unauthorized_exchange:
  assumes tr: "\<And>rq s. fst (ci_transport (cx_internals context) rq s) = Inr answer"
    and keep: "\<And>rq s. id_usernameByRequest (snd (ci_transport (cx_internals context) rq s)) =
                 id_usernameByRequest s"
    and st: "tp_status answer = 401" and tracked: "tracks_at_most (rq_method req) (rq_url req) s"
  obtains t where
    "send_once stringify (identity_context origin d base context refresh) req s =
       (Inl (NetworkErr (the (error_of_status 401 (tp_body answer) (rq_url req)))), t)"
    "rq_url req \<noteq> [] \<Longrightarrow> id_usernameByRequest t = []"
proof -
  let ?c = "identity_context origin d base context refresh"
  let ?inp = "transport_input_of ?c req"
  let ?res = "\<lparr>rs_status = tp_status answer, rs_headers = tp_headers answer,
                rs_body = tp_body answer, rs_url = rq_url req\<rparr>"
  have inp: "ti_transport ?inp = ci_transport (cx_internals context)" "ti_request ?inp = req"
    "ti_interceptors ?inp = [createIdentityAuthInterceptor origin d refresh base]"
    by (simp_all add: transport_input_of_def Let_def)
  obtain s1 where s1: "logOutgoingRequest stringify req s = (Inr (), s1)"
    "id_usernameByRequest s1 = id_usernameByRequest s"
    using log_keeps_tracking(1,3) by (metis prod.collapse)
  obtain s2 where s2: "ci_transport (cx_internals context) (transport_request_of ?inp) s1 = (Inr answer, s2)"
    "id_usernameByRequest s2 = id_usernameByRequest s"
    using tr keep s1(2) by (metis prod.collapse)
  obtain s3 where s3: "cleanupTracking ?res s2 = (Inr ?res, s3)"
    "rq_url req \<noteq> [] \<Longrightarrow> id_usernameByRequest s3 = []"
    using tracked_removed [of "rq_method req" "rq_url req" s2] tracked s2(2)
    by (cases "rq_url req = []") (simp_all add: cleanupTracking_def io_simps tracks_at_most_def)
  obtain s4 where s4: "logIncomingResponse stringify req ?res (env_now s1) s3 = (Inr (), s4)"
    "id_usernameByRequest s4 = id_usernameByRequest s3"
    using log_keeps_tracking(2,4) by (metis prod.collapse)
  have exchange: "executeTransportRequest stringify ?inp s =
      (Inr \<lparr>hr_status = tp_status answer, hr_headers = tp_headers answer, hr_body = tp_body answer\<rparr>, s4)"
    unfolding executeTransportRequest_def Let_def inp
    by (simp add: io_then_simp io_bind_simp io_catch_simp io_gets_simp io_return_simp s1(1) s2(1)
        runResponseInterceptors_def s3(1) s4(1))
  obtain s5 where "throwOnErrorStatus 401 (tp_body answer) (rq_url req) s4 =
      (Inl (NetworkErr (the (error_of_status 401 (tp_body answer) (rq_url req)))), s5)"
    "id_usernameByRequest s5 = id_usernameByRequest s4"
    by (simp add: throwOnErrorStatus_def error_of_status_def Let_def io_simps)
  with exchange s3(2) s4(2) st show thesis
    by (intro that [of s5]) (simp_all add: send_once_def io_bind_simp io_then_simp)
qed

lemma build_tracks:
  assumes "buildInterceptedRequest (identity_context origin d base context refresh) s = (Inr req, t)"
    and "id_usernameByRequest s = []"
  shows "tracks_at_most (rq_method req) (rq_url req) t"
proof -
  let ?r = "\<lparr>rq_url = full_url (ci_baseUrl (cx_internals context)) (cx_url context),
      rq_method = cx_method context,
      rq_headers = spread (or_default (ci_defaultHeaders (cx_internals context)) [])
        (opt_headers (cx_options context)), rq_body = opt_body (cx_options context)\<rparr>"
  obtain u where "identity_injectAuthHeader origin d base ?r s = (Inr req, u)"
    "id_usernameByRequest t = id_usernameByRequest u"
    using assms(1)
    by (auto simp: buildInterceptedRequest_def identity_context_def Let_def io_simps
        split: sum.splits prod.splits if_splits)
  with inject_tracks [OF _ assms(2)] show ?thesis by (simp add: tracks_at_most_def)
qed

lemma untracked_error_is_returned:
  assumes "ne_requestUrl ne = Some url" and "url \<noteq> [] \<Longrightarrow> id_usernameByRequest s = []"
  shows "identity_handleAuthError d refresh ne s = (Inr ne, s)"
  using assms by (cases "url = []") (simp_all add: identity_handleAuthError_def extractUsername_def io_simps)

text \<open>
  C18. An unauthorized request is never refreshed. A request of the identity client that the server
  answers with 401, while no other request is remembered, fails with that error, which does not
  ask for a retry, and the refresh is not called: the outcome and the state are the same whatever
  the refresh would do. The response reaches \<^verbatim>\<open>cleanupTracking\<close> before the status is looked at,
  so that \<^verbatim>\<open>handleAuthError\<close> finds no user to refresh.
\<close>

theorem unauthorized_is_not_refreshed:
  assumes tr: "\<And>rq s. fst (ci_transport (cx_internals context) rq s) = Inr answer"
    and keep: "\<And>rq s. id_usernameByRequest (snd (ci_transport (cx_internals context) rq s)) =
                 id_usernameByRequest s"
    and st: "tp_status answer = 401" and none: "id_usernameByRequest s = []"
  shows "let run = (\<lambda>refresh.
             executeSingleRequest stringify (identity_context origin d base context refresh) s)
         in run refresh = run refresh' \<and>
            (case fst (buildInterceptedRequest (identity_context origin d base context refresh) s) of
               Inl e \<Rightarrow> fst (run refresh) = Inl e
             | Inr req \<Rightarrow> \<exists>ne. fst (run refresh) = Inl (NetworkErr ne) \<and>
                 ne_code ne = AUTH_EXPIRED \<and> ne_shouldRetry ne = None)"
proof -
  let ?c = "identity_context origin d base context"
  obtain r t where "buildInterceptedRequest (?c refresh) s = (r, t)"
    by (cases "buildInterceptedRequest (?c refresh) s")
  then have build: "buildInterceptedRequest (?c f) s = (r, t)" for f
    using build_no_refresh by metis
  show ?thesis
  proof (cases r)
    case (Inl e)
    then have "executeSingleRequest stringify (?c f) s = (Inl e, t)" for f
      by (subst executeSingleRequest.simps) (simp add: io_bind_simp build)
    with Inl build show ?thesis by (simp add: Let_def)
  next
    case (Inr req)
    let ?ne = "the (error_of_status 401 (tp_body answer) (rq_url req))"
    have ne: "ne_code ?ne = AUTH_EXPIRED" "ne_shouldRetry ?ne = None" "ne_requestUrl ?ne = Some (rq_url req)"
      by (simp_all add: error_of_status_def Let_def)
    have "tracks_at_most (rq_method req) (rq_url req) t"
      using build_tracks build Inr none by blast
    then obtain u where
      send: "send_once stringify (?c refresh) req t = (Inl (NetworkErr ?ne), u)"
      and clean: "rq_url req \<noteq> [] \<Longrightarrow> id_usernameByRequest u = []"
      using unauthorized_exchange [OF tr keep st] by blast
    have "executeSingleRequest stringify (?c f) s = (Inl (NetworkErr ?ne), u)" for f
    proof -
      have "send_once stringify (?c f) req t = (Inl (NetworkErr ?ne), u)"
        using send send_no_refresh by metis
      moreover have "handleError (cx_internals (?c f)) (NetworkErr ?ne) u = (Inr ?ne, u)"
        using untracked_error_is_returned [OF ne(3) clean]
        by (simp add: handleError_def io_bind_simp io_return_simp)
      ultimately show ?thesis
        by (subst executeSingleRequest.simps)
          (simp add: io_bind_simp io_catch_simp io_throw_simp build Inr ne(2))
    qed
    with Inr build ne show ?thesis by (simp add: Let_def)
  qed
qed

definition sample_unauthorized_context :: "((string \<Rightarrow> string option) identity_env) request_context" where
  "sample_unauthorized_context =
     \<lparr>cx_internals =
        \<lparr>ci_timeoutMs = 1000, ci_maxRequestBodySizeBytes = 1000, ci_baseUrl = Some ''https://id.ion'',
         ci_defaultHeaders = None,
         ci_transport = (\<lambda>rq. io_return \<lparr>tp_status = 401, tp_headers = [], tp_body = JNull\<rparr>),
         ci_interceptors = [], ci_requestQueue = None\<rparr>,
      cx_method = ''GET'', cx_url = ''/users'',
      cx_options = Some (empty_options\<lparr>ro_headers := Some [(''X-Username'', ''a'')]\<rparr>),
      cx_authRetried = False, cx_hasProgress = False\<rparr>"

definition forgetting_refresh ::
  "string \<Rightarrow> ((string \<Rightarrow> string option) identity_env, thrown, unit) io" where
  "forgetting_refresh u = io_modify (\<lambda>s. s\<lparr>id_snapshot := []\<rparr>)"

definition failing_refresh ::
  "string \<Rightarrow> ((string \<Rightarrow> string option) identity_env, thrown, unit) io" where
  "failing_refresh u = io_throw (identity_error_of UNKNOWN ''no'')"

theorem unauthorized_is_not_refreshed_witness:
  "executeSingleRequest (\<lambda>v. []) (identity_context sample_origin sample_token_deps ''https://id.ion''
     sample_unauthorized_context forgetting_refresh) signed_in_env =
   executeSingleRequest (\<lambda>v. []) (identity_context sample_origin sample_token_deps ''https://id.ion''
     sample_unauthorized_context failing_refresh) signed_in_env"
proof -
  have tr: "fst (ci_transport (cx_internals sample_unauthorized_context) rq s) =
      Inr \<lparr>tp_status = 401, tp_headers = [], tp_body = JNull\<rparr>" for rq s
    by (simp add: sample_unauthorized_context_def io_return_simp)
  have keep: "id_usernameByRequest (snd (ci_transport (cx_internals sample_unauthorized_context) rq s)) =
      id_usernameByRequest s" for rq s
    by (simp add: sample_unauthorized_context_def io_return_simp)
  have st: "tp_status \<lparr>tp_status = 401, tp_headers = [], tp_body = JNull\<rparr> = 401" by simp
  have none: "id_usernameByRequest signed_in_env = []"
    by (simp add: signed_in_env_def sample_identity_env_def)
  from unauthorized_is_not_refreshed [OF tr keep st none, of "\<lambda>v. []" sample_origin sample_token_deps
      "''https://id.ion''" forgetting_refresh failing_refresh]
  show ?thesis unfolding Let_def by (rule conjunct1)
qed

text \<open>
  Only the header with a capital letter is taken off a request to an untrusted server; HTTP reads
  the other spelling as the same header.
\<close>

lemma lower_case_header_is_sent:
  "fst (identity_injectAuthHeader sample_origin sample_token_deps ''https://id.ion''
      \<lparr>rq_url = ''https://evil/x'', rq_method = ''GET'', rq_headers = [(''authorization'', ''t'')],
       rq_body = JUndefined\<rparr> sample_identity_env) =
   Inr \<lparr>rq_url = ''https://evil/x'', rq_method = ''GET'', rq_headers = [(''authorization'', ''t'')],
        rq_body = JUndefined\<rparr>"
  by (simp add: identity_injectAuthHeader_def isRelativeOrTrustedUrl_def sample_origin_def
      stripAuthorizationHeader_def io_return_simp)

text \<open>Two users' requests for one URL share an entry: the second takes the first one's place.\<close>

lemma same_url_same_entry:
  "take_entry url (AList.update (requestKey m url) v [(requestKey m url, u)]) = (Some v, [])"
  by simp

end
