(* ===== verification/IdentityLogin.thy ===== *)
theory IdentityLogin
  imports IdentityRefresh IdentityCrypto
begin

text \<open>
  \<^verbatim>\<open>packages/identity-client/src/auth\<close>: signing in and registering with a password or a passkey
  (\<^verbatim>\<open>login-with-password.ts\<close>, \<^verbatim>\<open>login-with-passkey.ts\<close>, \<^verbatim>\<open>register-with-password.ts\<close>,
  \<^verbatim>\<open>register-with-passkey.ts\<close>), the capabilities of an identity (\<^verbatim>\<open>login-capabilities.ts\<close>), and
  the login and registration data sources. The platform's passkeys are the parameter \<open>passkeys\<close>;
  the random bytes of a registration are arguments.
\<close>

section \<open>Data sources\<close>

definition io_result :: "thrown + 'a \<Rightarrow> ('s, thrown, 'a) io" where
  "io_result r = (case r of Inl e \<Rightarrow> io_throw e | Inr a \<Rightarrow> io_return a)"

lemma io_result_simp [io_simps]:
  "io_result r s = (case r of Inl e \<Rightarrow> (Inl e, s) | Inr a \<Rightarrow> (Inr a, s))"
  by (cases r) (simp_all add: io_result_def io_simps)

record 's login_source =
  lg_initLogin :: "string \<Rightarrow> string js_record option \<Rightarrow> ('s, thrown, js_value) io"
  lg_completeLogin :: "js_value \<Rightarrow> ('s, thrown, auth_tokens) io"

record 's registration_source =
  rs_initRegistration :: "string \<Rightarrow> string option \<Rightarrow> ('s, thrown, js_value) io"
  rs_completeRegistration :: "js_value js_record \<Rightarrow> string \<Rightarrow> string option \<Rightarrow> ('s, thrown, auth_tokens) io"

definition string_object :: "string js_record \<Rightarrow> js_value" where
  "string_object r = JObj 0 (map (\<lambda>(k, v). (k, JStr v)) r)"

definition tokens_of :: "js_value \<Rightarrow> auth_tokens" where
  "tokens_of v = \<lparr>at_token = text_of (get_field v ''token''),
                  at_refreshToken = text_of (get_field v ''refreshToken'')\<rparr>"

text \<open>One request whose answer is checked.\<close>

definition post_checked ::
  "(js_value \<Rightarrow> string) \<Rightarrow> ('x env_scheme) client_internals \<Rightarrow> string \<Rightarrow> js_value \<Rightarrow>
   string js_record option \<Rightarrow> (js_value \<Rightarrow> check) \<Rightarrow> ('x env_scheme, thrown, js_value) io" where
  "post_checked stringify internals path body headers validate =
     io_bind (io_lift (client_post stringify internals path (Some (post_options body headers))))
       (\<lambda>response. io_then (io_check (validate (hr_body response))) (io_return (hr_body response)))"

definition createLoginDataSource ::
  "(js_value \<Rightarrow> string) \<Rightarrow> ('x env_scheme) client_internals \<Rightarrow> ('x env_scheme) login_source" where
  "createLoginDataSource stringify internals =
     \<lparr>lg_initLogin = (\<lambda>username twoFAVerificationCodes.
        post_checked stringify internals ''/auth/login/init''
          (JObj 0 [(''username'', JStr username),
                   (''2FAVerificationCodes'', string_object (or_default twoFAVerificationCodes []))])
          None validateActionChallengeResponse),
      lg_completeLogin = (\<lambda>payload.
        io_bind (post_checked stringify internals ''/auth/login'' payload None validateAuthTokensResponse)
          (\<lambda>body. io_return (tokens_of body)))\<rparr>"

definition early_access :: "string option \<Rightarrow> js_value js_record" where
  "early_access email = (case email of None \<Rightarrow> [] | Some e \<Rightarrow> [(''earlyAccessEmail'', JStr e)])"

definition createRegistrationDataSource ::
  "(js_value \<Rightarrow> string) \<Rightarrow> ('x env_scheme) client_internals \<Rightarrow> ('x env_scheme) registration_source" where
  "createRegistrationDataSource stringify internals =
     \<lparr>rs_initRegistration = (\<lambda>email earlyAccessEmail.
        post_checked stringify internals ''/auth/registration/delegated''
          (JObj 0 ((''email'', JStr email) # early_access earlyAccessEmail))
          None validateRegistrationChallengeResponse),
      rs_completeRegistration = (\<lambda>credential tempToken earlyAccessEmail.
        io_bind (post_checked stringify internals ''/auth/registration/enduser''
            (JObj 0 (credential @ early_access earlyAccessEmail))
            (Some [(''Authorization'', ''Bearer '' @ tempToken)]) validateRegistrationResultResponse)
          (\<lambda>body. io_return (tokens_of (get_field body ''authentication''))))\<rparr>"

section \<open>Passkeys\<close>

record passkey_registration =
  pr_credentialId :: string
  pr_clientDataJSON :: string
  pr_attestationObject :: string

record passkey_assertion =
  pa_credentialId :: string
  pa_clientDataJSON :: string
  pa_authenticatorData :: string
  pa_signature :: string
  pa_userHandle :: "string option"

record 's passkeys =
  pk_isAvailable :: bool
  pk_create :: "js_value \<Rightarrow> ('s, thrown, passkey_registration) io"
  pk_get :: "js_value \<Rightarrow> ('s, thrown, passkey_assertion) io"

section \<open>Signing in\<close>

text \<open>The end of both ways to sign in, and of both ways to register.\<close>

definition finish_session ::
  "'st token_deps \<Rightarrow> string \<Rightarrow> auth_tokens \<Rightarrow> (('st, 'x) identity_env_scheme, thrown, unit) io" where
  "finish_session d username tokens =
     io_then (io_lift (tm_setTokens d username tokens)) (io_modify (addUser username))"

definition finish_login ::
  "'st token_deps \<Rightarrow> string \<Rightarrow> auth_tokens \<Rightarrow> (('st, 'x) identity_env_scheme, thrown, string) io" where
  "finish_login d username tokens =
     io_then (finish_session d username tokens)
       (io_return (or_default (parseUserIdFromToken (td_jwtDecode d) (at_token tokens)) username))"

definition invalid_credentials :: "string \<Rightarrow> js_error option \<Rightarrow> thrown" where
  "invalid_credentials msg cause =
     IdentityErr \<lparr>ie_code = INVALID_CREDENTIALS, ie_message = msg, ie_cause = cause\<rparr>"

definition extractPasswordCredential :: "js_value \<Rightarrow> thrown + js_value" where
  "extractPasswordCredential challenge =
     (case get_field (get_field challenge ''allowCredentials'') ''passwordProtectedKey'' of
        JArr i (cred # creds) \<Rightarrow> Inr cred
      | _ \<Rightarrow> Inl (invalid_credentials ''No password credentials available'' None))"

definition decryptCredentialKey ::
  "crypto \<Rightarrow> json \<Rightarrow> pbkdf2_fn option \<Rightarrow> string \<Rightarrow> string \<Rightarrow> thrown + string" where
  "decryptCredentialKey cr js pbkdf2Fn rawJson password =
     sum_bind (or_throw (invalid_credentials ''Malformed encrypted private key'' (Some (JsErr None)))
         (js_parse js rawJson)) (\<lambda>parsed.
       if \<not> isValidEncryptedPrivateKey parsed
       then Inl (invalid_credentials ''Malformed encrypted private key'' None)
       else (case decryptPrivateKey cr pbkdf2Fn (as_encrypted_key parsed) password of
               Inl e \<Rightarrow> Inl (invalid_credentials ''Failed to decrypt private key'' (Some e))
             | Inr pem \<Rightarrow> Inr pem))"

definition verifyDecryptedKeyMatchesCredential :: "crypto \<Rightarrow> string \<Rightarrow> string \<Rightarrow> check" where
  "verifyDecryptedKeyMatchesCredential cr privateKeyPem expectedCredId =
     sum_bind (parseSeedFromPem cr privateKeyPem) (\<lambda>seed.
     sum_bind (generateCredentialId cr (cr_getPublicKey cr seed)) (\<lambda>derivedCredId.
       if derivedCredId \<noteq> expectedCredId
       then Inl (invalid_credentials ''Decrypted key does not match credential'' None)
       else passed))"

definition buildPasswordAssertion :: "login_signature \<Rightarrow> js_value \<Rightarrow> js_value" where
  "buildPasswordAssertion signature challengeIdentifier =
     JObj 0 [(''challengeIdentifier'', challengeIdentifier),
             (''firstFactor'', JObj 0
               [(''kind'', JStr ''PasswordProtectedKey''),
                (''credentialAssertion'', string_object
                  [(''credId'', ls_credId signature), (''clientData'', ls_clientData signature),
                   (''signature'', ls_signature signature)])])]"

text \<open>Everything between the challenge and the request that answers it.\<close>

definition answer_challenge ::
  "crypto \<Rightarrow> json \<Rightarrow> pbkdf2_fn option \<Rightarrow> string \<Rightarrow> string \<Rightarrow> js_value \<Rightarrow> thrown + js_value" where
  "answer_challenge cr js pbkdf2Fn orig password challenge =
     sum_bind (extractPasswordCredential challenge) (\<lambda>cred.
       if \<not> nonempty_string (get_field cred ''encryptedPrivateKey'')
       then Inl (invalid_credentials ''Credential missing encrypted private key'' None)
       else
         sum_bind (decryptCredentialKey cr js pbkdf2Fn (text_of (get_field cred ''encryptedPrivateKey''))
             password) (\<lambda>privateKeyPem.
         sum_bind (verifyDecryptedKeyMatchesCredential cr privateKeyPem (text_of (get_field cred ''id''))) (\<lambda>_.
         sum_bind (signForLogin cr (text_of (get_field challenge ''challenge'')) orig privateKeyPem
             (text_of (get_field cred ''id''))) (\<lambda>signature.
           Inr (buildPasswordAssertion signature (get_field challenge ''challengeIdentifier''))))))"

definition loginWithPassword ::
  "crypto \<Rightarrow> 'st token_deps \<Rightarrow> (('st, 'x) identity_env_scheme) login_source \<Rightarrow> pbkdf2_fn option \<Rightarrow> string \<Rightarrow>
   string \<Rightarrow> string \<Rightarrow> string js_record option \<Rightarrow> (('st, 'x) identity_env_scheme, thrown, string) io" where
  "loginWithPassword cr d src pbkdf2Fn orig username password codes =
     io_bind (lg_initLogin src username codes) (\<lambda>challenge.
     io_bind (io_result (answer_challenge cr (td_json d) pbkdf2Fn orig password challenge)) (\<lambda>payload.
     io_bind (lg_completeLogin src payload) (finish_login d username)))"

definition loginWithPasskey ::
  "(('st, 'x) identity_env_scheme) passkeys \<Rightarrow> 'st token_deps \<Rightarrow>
   (('st, 'x) identity_env_scheme) login_source \<Rightarrow> string \<Rightarrow> string js_record option \<Rightarrow>
   (('st, 'x) identity_env_scheme, thrown, string) io" where
  "loginWithPasskey pk d src username codes =
     (if \<not> pk_isAvailable pk
      then io_throw (identity_error_of PASSKEY_NOT_AVAILABLE ''Passkeys are not supported'')
      else
        io_bind (lg_initLogin src username codes) (\<lambda>challenge.
        io_bind (pk_get pk challenge) (\<lambda>assertion.
        io_bind (lg_completeLogin src
            (JObj 0 [(''challengeIdentifier'', get_field challenge ''challengeIdentifier''),
                     (''firstFactor'', JObj 0
                       [(''kind'', JStr ''Fido2''),
                        (''credentialAssertion'', string_object
                          ([(''credId'', pa_credentialId assertion), (''clientData'', pa_clientDataJSON assertion),
                            (''authenticatorData'', pa_authenticatorData assertion),
                            (''signature'', pa_signature assertion)] @
                           (case pa_userHandle assertion of
                              None \<Rightarrow> [] | Some h \<Rightarrow> [(''userHandle'', h)])))])]))
          (finish_login d username))))"

section \<open>Registering\<close>

definition requireTemporaryToken :: "js_value \<Rightarrow> thrown + string" where
  "requireTemporaryToken token =
     (if has_text token then Inr (text_of token)
      else Inl (identity_error_of UNKNOWN ''Registration challenge missing temporary token''))"

definition buildPasswordCredential :: "registration_signature \<Rightarrow> js_value js_record" where
  "buildPasswordCredential signature =
     [(''firstFactorCredential'', JObj 0
        [(''credentialKind'', JStr ''PasswordProtectedKey''),
         (''credentialInfo'', string_object
           [(''credId'', rg_credId signature), (''clientData'', rg_clientData signature),
            (''attestationData'', rg_attestationData signature)]),
         (''encryptedPrivateKey'', JStr (rg_encryptedPrivateKey signature))])]"

definition registerWithPassword ::
  "crypto \<Rightarrow> 'st token_deps \<Rightarrow> (('st, 'x) identity_env_scheme) registration_source \<Rightarrow> pbkdf2_fn option \<Rightarrow>
   string \<Rightarrow> bytes \<Rightarrow> bytes \<Rightarrow> bytes \<Rightarrow> string \<Rightarrow> string \<Rightarrow> string option \<Rightarrow>
   (('st, 'x) identity_env_scheme, thrown, unit) io" where
  "registerWithPassword cr d src pbkdf2Fn orig seed salt nonce username password earlyAccessEmail =
     io_bind (rs_initRegistration src username earlyAccessEmail) (\<lambda>challenge.
     io_bind (io_result (requireTemporaryToken (get_field challenge ''temporaryAuthenticationToken''))) (\<lambda>tempToken.
     io_bind (io_result (signForRegistration cr (td_json d) pbkdf2Fn
         (text_of (get_field challenge ''challenge'')) orig (generateKeyPair cr seed) password salt nonce)) (\<lambda>signature.
     io_bind (rs_completeRegistration src (buildPasswordCredential signature) tempToken earlyAccessEmail)
       (finish_session d username))))"

definition registerWithPasskey ::
  "(('st, 'x) identity_env_scheme) passkeys \<Rightarrow> 'st token_deps \<Rightarrow>
   (('st, 'x) identity_env_scheme) registration_source \<Rightarrow> string \<Rightarrow> string option \<Rightarrow>
   (('st, 'x) identity_env_scheme, thrown, unit) io" where
  "registerWithPasskey pk d src username earlyAccessEmail =
     (if \<not> pk_isAvailable pk
      then io_throw (identity_error_of PASSKEY_NOT_AVAILABLE ''Passkeys are not supported'')
      else
        io_bind (rs_initRegistration src username earlyAccessEmail) (\<lambda>challenge.
        io_bind (io_result (requireTemporaryToken (get_field challenge ''temporaryAuthenticationToken''))) (\<lambda>tempToken.
        io_bind (pk_create pk challenge) (\<lambda>passkey.
        io_bind (rs_completeRegistration src
            [(''firstFactorCredential'', JObj 0
               [(''credentialKind'', JStr ''Fido2''),
                (''credentialInfo'', string_object
                  [(''credId'', pr_credentialId passkey), (''clientData'', pr_clientDataJSON passkey),
                   (''attestationData'', pr_attestationObject passkey)])])] tempToken earlyAccessEmail)
          (finish_session d username)))))"

section \<open>What an identity can sign in with\<close>

record login_capabilities =
  lc_supportsPasskey :: bool
  lc_supportsPassword :: bool
  lc_identityFound :: bool
  lc_twoFAOptionsCount :: "int option"

fun has_elements :: "js_value \<Rightarrow> bool" where
  "has_elements (JArr i (v # vs)) = True"
| "has_elements v = False"

fun number_of :: "js_value \<Rightarrow> int option" where
  "number_of (JNum n) = Some n"
| "number_of v = None"

definition parseTwoFACount :: "network_error \<Rightarrow> int option" where
  "parseTwoFACount error = number_of (get_field (get_field (ne_responseBody error) ''data'') ''n'')"

definition getLoginCapabilities ::
  "'s passkeys \<Rightarrow> 's login_source \<Rightarrow> string \<Rightarrow> ('s, thrown, login_capabilities) io" where
  "getLoginCapabilities pk src username =
     io_catch
       (io_bind (lg_initLogin src username None) (\<lambda>challenge.
          let allowed = get_field challenge ''allowCredentials'' in
          io_return \<lparr>lc_supportsPasskey = has_elements (get_field allowed ''webauthn'') \<and> pk_isAvailable pk,
                     lc_supportsPassword = has_elements (get_field allowed ''passwordProtectedKey''),
                     lc_identityFound = True, lc_twoFAOptionsCount = None\<rparr>))
       (\<lambda>error. case error of
          OtherErr (NetworkErr ne) \<Rightarrow>
            if ne_status ne = Some 403
            then io_return \<lparr>lc_supportsPasskey = False, lc_supportsPassword = False,
                            lc_identityFound = True, lc_twoFAOptionsCount = parseTwoFACount ne\<rparr>
            else if ne_status ne = Some 401 \<or> ne_status ne = Some 404
            then io_return \<lparr>lc_supportsPasskey = False, lc_supportsPassword = False,
                            lc_identityFound = False, lc_twoFAOptionsCount = None\<rparr>
            else io_throw error
        | _ \<Rightarrow> io_throw error)"

section \<open>The password one registered with\<close>

definition key_json_ok :: "json \<Rightarrow> bool" where
  "key_json_ok js =
     (\<forall>e. js_stringify js (encrypted_object e) \<noteq> [] \<and>
        (\<exists>v. js_parse js (js_stringify js (encrypted_object e)) = Some v \<and> isNonNullObject v \<and>
           (\<forall>name. get_field v name = get_field (encrypted_object e) name)))"

lemma sum_bind_Inr [simp]: "sum_bind m f = Inr b \<longleftrightarrow> (\<exists>a. m = Inr a \<and> f a = Inr b)"
  by (cases m) simp_all

lemma registration_result:
  assumes "signForRegistration cr js fn challenge orig keys password salt nonce = Inr reg"
  shows "generateCredentialId cr (kp_publicKey keys) = Inr (rg_credId reg)"
    and "rg_encryptedPrivateKey reg = js_stringify js (encrypted_object
           (encryptPrivateKey cr fn (kp_privateKeyPem keys) password salt nonce))"
  using assms by (auto simp: signForRegistration_def)

lemma registered_key_decrypts:
  assumes cr: "crypto_ok cr" and js: "key_json_ok js" and "salt \<noteq> []" "nonce \<noteq> []"
    and reg: "signForRegistration cr js fn challenge orig (generateKeyPair cr seed) password salt nonce = Inr reg"
  shows "decryptCredentialKey cr js fn (rg_encryptedPrivateKey reg) password =
           Inr (kp_privateKeyPem (generateKeyPair cr seed))"
    and "rg_encryptedPrivateKey reg \<noteq> []"
proof -
  let ?pem = "kp_privateKeyPem (generateKeyPair cr seed)"
  let ?e = "encryptPrivateKey cr fn ?pem password salt nonce"
  obtain v where v: "js_parse js (js_stringify js (encrypted_object ?e)) = Some v" "isNonNullObject v"
    "\<And>name. get_field v name = get_field (encrypted_object ?e) name"
    using js unfolding key_json_ok_def by blast
  have "?pem \<noteq> []" by (simp add: generateKeyPair_def toPem_def Let_def)
  from encrypted_key_valid [OF cr assms(3,4) this v(3) v(2)]
  show "decryptCredentialKey cr js fn (rg_encryptedPrivateKey reg) password = Inr ?pem"
    by (simp add: decryptCredentialKey_def registration_result(2) [OF reg] v(1) decrypt_encrypted_key [OF cr])
  show "rg_encryptedPrivateKey reg \<noteq> []"
    using js by (simp add: registration_result(2) [OF reg] key_json_ok_def)
qed

text \<open>
  C19. The password one registered with signs one in. If an identity registered with a password, and the
  server's challenge offers the credential of that registration first, then signing in with the
  same password asks the server to complete the login with exactly this answer: the credential's
  identity, the client data of the challenge, and their signature by the registered key; and what
  follows (storing the tokens, listing the user) is the end of the login.
\<close>

theorem registered_password_signs_in:
  assumes cr: "crypto_ok cr" and js: "key_json_ok (td_json d)"
    and "length seed = 32" "salt \<noteq> []" "nonce \<noteq> []"
    and reg: "signForRegistration cr (td_json d) fn registrationChallenge orig (generateKeyPair cr seed)
                password salt nonce = Inr reg"
    and init: "lg_initLogin src username codes s = (Inr challenge, s1)"
    and cred: "extractPasswordCredential challenge = Inr cred"
      "get_field cred ''id'' = JStr (rg_credId reg)"
      "get_field cred ''encryptedPrivateKey'' = JStr (rg_encryptedPrivateKey reg)"
    and chal: "get_field challenge ''challenge'' = JStr ch" "validateChallengeFormat ch = Inr ()"
    and json: "cr_stableStringify cr (JObj 0 (client_data ch orig ''key.get'')) = Some clientData"
  shows "loginWithPassword cr d src fn orig username password codes s =
    io_bind
      (lg_completeLogin src (buildPasswordAssertion
         \<lparr>ls_credId = rg_credId reg,
          ls_clientData = cr_base64url cr (cr_utf8ToBytes cr clientData),
          ls_signature = cr_base64url cr (cr_sign cr (cr_utf8ToBytes cr clientData) seed)\<rparr>
         (get_field challenge ''challengeIdentifier'')))
      (finish_login d username) s1"
proof -
  have pub: "kp_publicKey (generateKeyPair cr seed) = cr_getPublicKey cr seed"
    and pem: "kp_privateKeyPem (generateKeyPair cr seed) = toPem cr ''PRIVATE KEY'' (PKCS8_PREFIX @ seed)"
    by (simp_all add: generateKeyPair_def Let_def)
  have seed: "parseSeedFromPem cr (kp_privateKeyPem (generateKeyPair cr seed)) = Inr seed"
    unfolding pem by (rule parse_toPem [OF crypto_okD(1) [OF cr] assms(3)])
  note dec = registered_key_decrypts [OF cr js assms(4,5) reg]
  have ver: "verifyDecryptedKeyMatchesCredential cr (kp_privateKeyPem (generateKeyPair cr seed)) (rg_credId reg)
      = Inr ()"
    using registration_result(1) [OF reg]
    by (simp add: verifyDecryptedKeyMatchesCredential_def seed pub passed_def)
  have sig: "signForLogin cr ch orig (kp_privateKeyPem (generateKeyPair cr seed)) (rg_credId reg) =
      Inr \<lparr>ls_credId = rg_credId reg,
           ls_clientData = cr_base64url cr (cr_utf8ToBytes cr clientData),
           ls_signature = cr_base64url cr (cr_sign cr (cr_utf8ToBytes cr clientData) seed)\<rparr>"
    by (simp add: signForLogin_def chal(2) seed buildSortedJson_def json)
  show ?thesis
    by (simp add: loginWithPassword_def io_bind_simp [of "lg_initLogin src username codes"] init
        io_bind_simp [of "io_result r" for r] io_result_simp answer_challenge_def cred chal(1) dec ver sig)
qed

text \<open>
  A wrong password is refused before anything is sent. If the password decrypts no key from the
  offered credential, or a key that is not the credential's, then signing in fails; and the only
  thing that has happened is the request for the challenge: no answer is sent, no token is stored,
  and nobody is listed.
\<close>

theorem wrong_password_is_refused:
  assumes "lg_initLogin src username codes s = (Inr challenge, s1)"
    and "\<And>cred pem seed. extractPasswordCredential challenge = Inr cred \<Longrightarrow>
      decryptCredentialKey cr (td_json d) fn (text_of (get_field cred ''encryptedPrivateKey'')) password = Inr pem \<Longrightarrow>
      parseSeedFromPem cr pem = Inr seed \<Longrightarrow>
      generateCredentialId cr (cr_getPublicKey cr seed) \<noteq> Inr (text_of (get_field cred ''id''))"
  shows "isl (fst (loginWithPassword cr d src fn orig username password codes s)) \<and>
         snd (loginWithPassword cr d src fn orig username password codes s) = s1"
proof -
  have "answer_challenge cr (td_json d) fn orig password challenge \<noteq> Inr payload" for payload
    using assms(2)
    by (auto simp: answer_challenge_def verifyDecryptedKeyMatchesCredential_def split: if_splits)
  then obtain e where "answer_challenge cr (td_json d) fn orig password challenge = Inl e"
    by (cases "answer_challenge cr (td_json d) fn orig password challenge") auto
  then show ?thesis
    by (simp add: loginWithPassword_def io_bind_simp assms(1) io_result_simp)
qed

subsection \<open>Examples\<close>

text \<open>A codec that also knows the encrypted key.\<close>

definition sample_key_json :: json where
  "sample_key_json =
     \<lparr>js_stringify = (\<lambda>v.
        if get_field v ''salt'' = JUndefined then js_stringify sample_token_json v
        else CHR ''K'' # enc_strings (map (\<lambda>n. text_of (get_field v n)) [''salt'', ''nonce'', ''ciphertext'', ''mac''])),
      js_parse = (\<lambda>cs. case cs of
          [] \<Rightarrow> None
        | c # rest \<Rightarrow>
            if c = CHR ''K''
            then (case dec_strings (length rest) rest of
                    [a, b, c, d] \<Rightarrow> Some (encrypted_object
                      \<lparr>ek_salt = a, ek_nonce = b, ek_ciphertext = c, ek_mac = d\<rparr>)
                  | _ \<Rightarrow> None)
            else js_parse sample_token_json cs)\<rparr>"

lemma sample_key_json_ok: "key_json_ok sample_key_json"
  by (auto simp: key_json_ok_def sample_key_json_def encrypted_object_def dec_enc_strings
      simp del: enc_strings.simps)

definition sample_login_deps :: "(string \<Rightarrow> string option) token_deps" where
  "sample_login_deps = sample_token_deps\<lparr>td_json := sample_key_json\<rparr>"

definition sample_registration :: registration_signature where
  "sample_registration = projr (signForRegistration sample_crypto sample_key_json None ''fedcba9876543210''
     ''app'' (generateKeyPair sample_crypto sample_seed) ''pw'' [1] [2])"

lemma sample_registration_result:
  "signForRegistration sample_crypto sample_key_json None ''fedcba9876543210'' ''app''
     (generateKeyPair sample_crypto sample_seed) ''pw'' [1] [2] = Inr sample_registration"
proof -
  have "validateChallengeFormat ''fedcba9876543210'' = Inr ()"
    by (simp add: validateChallengeFormat_def Let_def challenge_chars_def is_challenge_char_def
        is_alnum_def passed_def)
  moreover have "buildSortedJson sample_crypto obj = Inr (string_field (Some (get_field (JObj 0 obj) ''challenge'')))"
    for obj by (simp add: buildSortedJson_def sample_crypto_def)
  moreover have "\<exists>i. generateCredentialId sample_crypto pk = Inr i" for pk
    using generateCredentialId_groups [of sample_crypto pk] crypto_okD(6) [OF sample_crypto_ok] by simp
  then obtain i where "generateCredentialId sample_crypto (kp_publicKey (generateKeyPair sample_crypto sample_seed)) = Inr i"
    by blast
  ultimately have "isl (signForRegistration sample_crypto sample_key_json None ''fedcba9876543210'' ''app''
     (generateKeyPair sample_crypto sample_seed) ''pw'' [1] [2]) = False"
    by (simp add: signForRegistration_def buildAttestationData_def Let_def)
  then show ?thesis unfolding sample_registration_def
    by (cases "signForRegistration sample_crypto sample_key_json None ''fedcba9876543210'' ''app''
     (generateKeyPair sample_crypto sample_seed) ''pw'' [1] [2]") simp_all
qed

definition sample_credential :: js_value where
  "sample_credential =
     JObj 0 [(''id'', JStr (rg_credId sample_registration)),
             (''encryptedPrivateKey'', JStr (rg_encryptedPrivateKey sample_registration))]"

definition sample_challenge :: js_value where
  "sample_challenge =
     JObj 0 [(''challenge'', JStr ''0123456789abcdef''), (''challengeIdentifier'', JStr ''c''),
             (''allowCredentials'', JObj 0 [(''passwordProtectedKey'', JArr 0 [sample_credential])])]"

definition sample_login_source :: "((string \<Rightarrow> string option) identity_env) login_source" where
  "sample_login_source =
     \<lparr>lg_initLogin = (\<lambda>u codes. io_return sample_challenge),
      lg_completeLogin = (\<lambda>payload. io_return (sample_tokens ''4''))\<rparr>"

theorem registered_password_signs_in_witness:
  "loginWithPassword sample_crypto sample_login_deps sample_login_source None ''app'' ''a'' ''pw'' None signed_in_env =
   finish_login sample_login_deps ''a'' (sample_tokens ''4'') signed_in_env"
proof -
  have js: "key_json_ok (td_json sample_login_deps)"
    by (simp add: sample_login_deps_def sample_key_json_ok)
  have reg: "signForRegistration sample_crypto (td_json sample_login_deps) None ''fedcba9876543210'' ''app''
     (generateKeyPair sample_crypto sample_seed) ''pw'' [1] [2] = Inr sample_registration"
    by (simp add: sample_login_deps_def sample_registration_result)
  have init: "lg_initLogin sample_login_source ''a'' None signed_in_env = (Inr sample_challenge, signed_in_env)"
    by (simp add: sample_login_source_def io_return_simp)
  have cred: "extractPasswordCredential sample_challenge = Inr sample_credential"
    "get_field sample_credential ''id'' = JStr (rg_credId sample_registration)"
    "get_field sample_credential ''encryptedPrivateKey'' = JStr (rg_encryptedPrivateKey sample_registration)"
    by (simp_all add: extractPasswordCredential_def sample_challenge_def sample_credential_def)
  have ch: "get_field sample_challenge ''challenge'' = JStr ''0123456789abcdef''"
    by (simp add: sample_challenge_def)
  have valid: "validateChallengeFormat ''0123456789abcdef'' = Inr ()"
    by (simp add: validateChallengeFormat_def Let_def challenge_chars_def is_challenge_char_def
        is_alnum_def passed_def)
  have json: "cr_stableStringify sample_crypto (JObj 0 (client_data ''0123456789abcdef'' ''app'' ''key.get'')) =
      Some ''0123456789abcdef''"
    by (simp add: sample_crypto_def client_data_def)
  have len: "length sample_seed = 32" by (simp add: sample_seed_def)
  have complete: "lg_completeLogin sample_login_source payload signed_in_env =
      (Inr (sample_tokens ''4''), signed_in_env)" for payload
    by (simp add: sample_login_source_def io_return_simp)
  from registered_password_signs_in [OF sample_crypto_ok js len _ _ reg init cred ch valid json]
  show ?thesis by (simp add: io_bind_simp complete)
qed

lemma sample_wrong_password:
  "decryptPrivateKey sample_crypto None (encryptPrivateKey sample_crypto None pem ''pw'' salt nonce) ''no'' =
   Inl (JsErr None)"
proof -
  have key: "deriveKey sample_crypto None pw salt = map byte_of_char pw" for pw
    by (simp add: deriveKey_def sample_crypto_def)
  have "cr_gcmDecrypt sample_crypto (map byte_of_char ''no'') nonce
      (cr_gcmEncrypt sample_crypto (map byte_of_char ''pw'') nonce m) = None" for m
    by (simp add: sample_crypto_def byte_of_char_def)
  then show ?thesis
    by (simp only: decryptPrivateKey_def encryptPrivateKey_def Let_def encrypted_key.simps
        crypto_okD [OF sample_crypto_ok] key or_throw_simps sum_bind_simps append_take_drop_id)
qed

theorem wrong_password_is_refused_witness:
  "isl (fst (loginWithPassword sample_crypto sample_login_deps sample_login_source None ''app'' ''a'' ''no'' None
     signed_in_env))"
proof -
  let ?pem = "kp_privateKeyPem (generateKeyPair sample_crypto sample_seed)"
  let ?e = "encryptPrivateKey sample_crypto None ?pem ''pw'' [1] [2]"
  have init: "lg_initLogin sample_login_source ''a'' None signed_in_env = (Inr sample_challenge, signed_in_env)"
    by (simp add: sample_login_source_def io_return_simp)
  have raw: "text_of (get_field sample_credential ''encryptedPrivateKey'') =
      js_stringify sample_key_json (encrypted_object ?e)"
    by (simp add: sample_credential_def registration_result(2) [OF sample_registration_result])
  obtain v where v: "js_parse sample_key_json (js_stringify sample_key_json (encrypted_object ?e)) = Some v"
    "isNonNullObject v" "\<And>name. get_field v name = get_field (encrypted_object ?e) name"
    using sample_key_json_ok unfolding key_json_ok_def by blast
  have pem: "?pem \<noteq> []" by (simp add: generateKeyPair_def toPem_def Let_def)
  have "isl (decryptCredentialKey sample_crypto sample_key_json None
      (text_of (get_field sample_credential ''encryptedPrivateKey'')) ''no'')"
    using encrypted_key_valid [OF sample_crypto_ok _ _ pem v(3) v(2)]
    by (simp add: decryptCredentialKey_def raw v(1) sample_wrong_password)
  then have none: "decryptCredentialKey sample_crypto (td_json sample_login_deps) None
      (text_of (get_field cred ''encryptedPrivateKey'')) ''no'' \<noteq> Inr p"
    if "extractPasswordCredential sample_challenge = Inr cred" for cred p
    using that by (auto simp: extractPasswordCredential_def sample_challenge_def sample_login_deps_def)
  from wrong_password_is_refused [OF init, of sample_crypto sample_login_deps None "''no''" "''app''"] none
  show ?thesis by blast
qed

end
