(* ===== verification/IdentityRecovery.thy ===== *)
theory IdentityRecovery
  imports IdentityLogin
begin

text \<open>
  \<^verbatim>\<open>packages/identity-client/src/auth\<close>: signing a user action (\<^verbatim>\<open>sign-user-action.ts\<close>), making
  a recovery code and its credential (\<^verbatim>\<open>create-recovery-credentials.ts\<close>), and recovering an
  account with it (\<^verbatim>\<open>recover-account.ts\<close>). The random bytes are a list that the code consumes
  from the left; nothing is the result where the list ends too early, so that what the code does
  with a list that is long enough is what it does.
\<close>

section \<open>The recovery code\<close>

definition CATEGORIES :: "string list" where
  "CATEGORIES =
     [''0123456789'', ''abcdefghijklmnopqrstuvwxyz'', ''ABCDEFGHIJKLMNOPQRSTUVWXYZ'', ''@%!$#'']"

definition ALL_CHARS :: string where
  "ALL_CHARS = concat CATEGORIES"

definition REJECT_THRESHOLD :: nat where
  "REJECT_THRESHOLD = 256 div length ALL_CHARS * length ALL_CHARS"

definition CODE_LENGTH :: nat where
  "CODE_LENGTH = 32"

text \<open>The loop draws bytes until one is below the threshold.\<close>

fun unbiasedIndex :: "nat \<Rightarrow> bytes \<Rightarrow> (nat \<times> bytes) option" where
  "unbiasedIndex m [] = None"
| "unbiasedIndex m (b # bs) =
     (if unat b \<ge> 256 div m * m then unbiasedIndex m bs else Some (unat b mod m, bs))"

fun one_of_each :: "string list \<Rightarrow> bytes \<Rightarrow> (string \<times> bytes) option" where
  "one_of_each [] bs = Some ([], bs)"
| "one_of_each (cat # cats) bs =
     (case unbiasedIndex (length cat) bs of
        None \<Rightarrow> None
      | Some (i, bs') \<Rightarrow>
          (case one_of_each cats bs' of None \<Rightarrow> None | Some (cs, bs'') \<Rightarrow> Some (cat ! i # cs, bs'')))"

fun fill_code :: "string \<Rightarrow> bytes \<Rightarrow> (string \<times> bytes) option" where
  "fill_code result [] = (if length result < CODE_LENGTH then None else Some (result, []))"
| "fill_code result (b # bs) =
     (if length result < CODE_LENGTH
      then fill_code (if unat b < REJECT_THRESHOLD
                      then result @ [ALL_CHARS ! (unat b mod length ALL_CHARS)] else result) bs
      else Some (result, b # bs))"

definition swap :: "nat \<Rightarrow> nat \<Rightarrow> 'a list \<Rightarrow> 'a list" where
  "swap i j xs = xs[i := xs ! j, j := xs ! i]"

text \<open>The shuffle, from the place \<open>i\<close> down to the second.\<close>

fun shuffle :: "nat \<Rightarrow> string \<Rightarrow> bytes \<Rightarrow> (string \<times> bytes) option" where
  "shuffle 0 result bs = Some (result, bs)"
| "shuffle (Suc i) result bs =
     (case unbiasedIndex (Suc (Suc i)) bs of
        None \<Rightarrow> None
      | Some (j, bs') \<Rightarrow> shuffle i (swap (Suc i) j result) bs')"

definition generateRecoveryCode :: "bytes \<Rightarrow> (string \<times> bytes) option" where
  "generateRecoveryCode bs =
     (case one_of_each CATEGORIES bs of
        None \<Rightarrow> None
      | Some (first, bs1) \<Rightarrow>
          (case fill_code first bs1 of
             None \<Rightarrow> None
           | Some (result, bs2) \<Rightarrow> shuffle (length result - 1) result bs2))"

text \<open>The bytes that none of the draws rejects.\<close>

definition good_bytes :: "bytes \<Rightarrow> nat" where
  "good_bytes bs = length (filter (\<lambda>b. unat b < 201) bs)"

lemma good_bytes_simps [simp]:
  "good_bytes [] = 0"
  "good_bytes (b # bs) = (if unat b < 201 then Suc (good_bytes bs) else good_bytes bs)"
  by (simp_all add: good_bytes_def)

lemma lengths [simp]:
  "length ALL_CHARS = 67" "REJECT_THRESHOLD = 201" "length CATEGORIES = 4"
  by (simp_all add: ALL_CHARS_def CATEGORIES_def REJECT_THRESHOLD_def)

lemma threshold_bound: "0 < m \<Longrightarrow> m \<le> 32 \<Longrightarrow> 201 \<le> 256 div m * (m :: nat)"
proof -
  assume m: "0 < m" "m \<le> 32"
  have "256 mod m < m" using m by simp
  moreover have "256 div m * m + 256 mod m = 256" by simp
  ultimately show ?thesis using m by linarith
qed

lemma unbiasedIndex_ok:
  "0 < m \<Longrightarrow> m \<le> 32 \<Longrightarrow> Suc k \<le> good_bytes bs \<Longrightarrow>
   \<exists>i bs'. unbiasedIndex m bs = Some (i, bs') \<and> i < m \<and> k \<le> good_bytes bs'"
proof (induction bs)
  case (Cons b bs)
  show ?case
  proof (cases "unat b \<ge> 256 div m * m")
    case True
    then have "\<not> unat b < 201" using threshold_bound [OF Cons.prems(1,2)] by linarith
    with True Cons show ?thesis by simp
  next
    case False
    with Cons.prems show ?thesis by (auto split: if_splits)
  qed
qed simp

lemma one_of_each_ok:
  "list_all (\<lambda>cat. cat \<noteq> [] \<and> length cat \<le> 32) cats \<Longrightarrow> length cats + k \<le> good_bytes bs \<Longrightarrow>
   \<exists>cs bs'. one_of_each cats bs = Some (cs, bs') \<and> list_all2 (\<lambda>c cat. c \<in> set cat) cs cats \<and>
     k \<le> good_bytes bs'"
proof (induction cats arbitrary: bs)
  case (Cons cat cats)
  then obtain i bs1 where "unbiasedIndex (length cat) bs = Some (i, bs1)" "i < length cat"
    "length cats + k \<le> good_bytes bs1"
    using unbiasedIndex_ok [of "length cat" "length cats + k" bs] by auto
  with Cons.IH [of bs1] Cons.prems(1) show ?case by auto
qed simp

lemma fill_code_ok:
  assumes "length result \<le> CODE_LENGTH" and "set result \<subseteq> set ALL_CHARS"
    and "CODE_LENGTH - length result + k \<le> good_bytes bs"
  shows "\<exists>code bs'. fill_code result bs = Some (code, bs') \<and> length code = CODE_LENGTH \<and>
    set result \<subseteq> set code \<and> set code \<subseteq> set ALL_CHARS \<and> k \<le> good_bytes bs'"
  using assms
proof (induction bs arbitrary: result)
  case Nil
  then show ?case by simp
next
  case (Cons b bs)
  show ?case
  proof (cases "length result < CODE_LENGTH")
    case False
    with Cons.prems show ?thesis by simp
  next
    case True
    show ?thesis
    proof (cases "unat b < 201")
      case accepted: True
      let ?r = "result @ [ALL_CHARS ! (unat b mod 67)]"
      have "ALL_CHARS ! (unat b mod 67) \<in> set ALL_CHARS" by (rule nth_mem) simp
      then have "\<exists>code bs'. fill_code ?r bs = Some (code, bs') \<and> length code = CODE_LENGTH \<and>
          set ?r \<subseteq> set code \<and> set code \<subseteq> set ALL_CHARS \<and> k \<le> good_bytes bs'"
        using True accepted Cons.prems by (intro Cons.IH) auto
      with True accepted show ?thesis by auto
    next
      case False
      with True Cons.prems Cons.IH [of result] show ?thesis by simp
    qed
  qed
qed

lemma swap_set: "i < length xs \<Longrightarrow> j < length xs \<Longrightarrow> set (swap i j xs) = set xs"
  by (simp add: swap_def set_swap)

lemma shuffle_ok:
  "i < length result \<Longrightarrow> i < 32 \<Longrightarrow> i \<le> good_bytes bs \<Longrightarrow>
   \<exists>code bs'. shuffle i result bs = Some (code, bs') \<and> length code = length result \<and> set code = set result"
proof (induction i arbitrary: result bs)
  case (Suc i)
  then obtain j bs' where j: "unbiasedIndex (Suc (Suc i)) bs = Some (j, bs')" "j < Suc (Suc i)"
    "i \<le> good_bytes bs'"
    using unbiasedIndex_ok [of "Suc (Suc i)" i bs] by auto
  then have s: "set (swap (Suc i) j result) = set result" "length (swap (Suc i) j result) = length result"
    using Suc.prems by (simp_all add: swap_set) (simp add: swap_def)
  with Suc.IH [of "swap (Suc i) j result" bs'] Suc.prems j show ?case by auto
qed simp

text \<open>
  C20. Recovery codes are made and are strong. From any random bytes of which sixty-three are below 201
  (the loops reject no such byte), the code is made: it has thirty-two characters, all of the
  alphabet, and at least one digit, one lower-case letter, one upper-case letter and one sign.
\<close>

theorem recovery_code_is_strong:
  assumes "63 \<le> good_bytes bs"
  shows "\<exists>code rest. generateRecoveryCode bs = Some (code, rest) \<and> length code = CODE_LENGTH \<and>
    set code \<subseteq> set ALL_CHARS \<and> list_all (\<lambda>cat. set cat \<inter> set code \<noteq> {}) CATEGORIES"
proof -
  have cats: "list_all (\<lambda>cat. cat \<noteq> [] \<and> length cat \<le> 32) CATEGORIES" by (simp add: CATEGORIES_def)
  obtain first bs1 where first: "one_of_each CATEGORIES bs = Some (first, bs1)"
    "list_all2 (\<lambda>c cat. c \<in> set cat) first CATEGORIES" "59 \<le> good_bytes bs1"
    using one_of_each_ok [OF cats, of 59 bs] assms by auto
  have len: "length first = 4" using list_all2_lengthD [OF first(2)] by simp
  have each: "list_all (\<lambda>cat. set cat \<inter> set first \<noteq> {}) CATEGORIES"
  proof -
    have "first ! n \<in> set (CATEGORIES ! n) \<inter> set first" if "n < 4" for n
      using that first(2) len by (simp add: list_all2_conv_all_nth)
    then show ?thesis by (auto simp: list_all_length)
  qed
  have sub: "set first \<subseteq> set ALL_CHARS"
    using first(2) by (force simp: ALL_CHARS_def list_all2_conv_all_nth in_set_conv_nth)
  obtain result bs2 where result: "fill_code first bs1 = Some (result, bs2)" "length result = CODE_LENGTH"
    "set first \<subseteq> set result" "set result \<subseteq> set ALL_CHARS" "31 \<le> good_bytes bs2"
    using fill_code_ok [of first 31 bs1] len sub first(3) by (auto simp: CODE_LENGTH_def)
  obtain code rest where code: "shuffle (length result - 1) result bs2 = Some (code, rest)"
    "length code = length result" "set code = set result"
    using shuffle_ok [of "length result - 1" result bs2] result(2,5) by (auto simp: CODE_LENGTH_def)
  have "list_all (\<lambda>cat. set cat \<inter> set code \<noteq> {}) CATEGORIES"
    using each result(3) code(3) by (auto simp: list_all_iff)
  with first(1) result(1,2,4) code show ?thesis by (simp add: generateRecoveryCode_def)
qed

theorem recovery_code_is_strong_witness:
  "\<exists>code rest. generateRecoveryCode (replicate 63 7) = Some (code, rest) \<and> length code = CODE_LENGTH"
proof -
  have "63 \<le> good_bytes (replicate 63 7)" by (simp add: good_bytes_def)
  from recovery_code_is_strong [OF this] show ?thesis by blast
qed

section \<open>Signing a user action\<close>

datatype signing_context = PasswordSigning string | PasskeySigning

record 's action_source =
  ac_initAction :: "js_value \<Rightarrow> string \<Rightarrow> ('s, thrown, js_value) io"
  ac_completeAction :: "js_value \<Rightarrow> string \<Rightarrow> ('s, thrown, string) io"

definition createUserActionDataSource ::
  "(js_value \<Rightarrow> string) \<Rightarrow> ('x env_scheme) client_internals \<Rightarrow> ('x env_scheme) action_source" where
  "createUserActionDataSource stringify internals =
     \<lparr>ac_initAction = (\<lambda>input username.
        post_checked stringify internals ''/auth/action/init'' input
          (Some [(''X-Username'', username)]) validateActionChallengeResponse),
      ac_completeAction = (\<lambda>input username.
        io_bind (post_checked stringify internals ''/auth/action'' input
            (Some [(''X-Username'', username)]) validateUserActionResponse)
          (\<lambda>body. io_return (text_of (get_field body ''userAction''))))\<rparr>"

definition action_payload :: "(js_value \<Rightarrow> string) \<Rightarrow> string \<Rightarrow> string \<Rightarrow> js_value \<Rightarrow> js_value" where
  "action_payload stringify httpMethod httpPath body =
     string_object [(''userActionPayload'', stringify body), (''userActionHttpMethod'', httpMethod),
                    (''userActionHttpPath'', httpPath), (''userActionServerKind'', ''Api'')]"

text \<open>\<^verbatim>\<open>input.body ?? {}\<close>\<close>

definition body_or_empty :: "js_value \<Rightarrow> js_value" where
  "body_or_empty body = (case body of JUndefined \<Rightarrow> JObj 0 [] | JNull \<Rightarrow> JObj 0 [] | _ \<Rightarrow> body)"

definition extractSigningCredential :: "js_value \<Rightarrow> thrown + js_value" where
  "extractSigningCredential challenge =
     (let missing = Inl (invalid_credentials ''No password credentials available for signing'' None) in
      case get_field (get_field challenge ''allowCredentials'') ''passwordProtectedKey'' of
        JArr i (cred # creds) \<Rightarrow>
          if nonempty_string (get_field cred ''encryptedPrivateKey'') then Inr cred else missing
      | _ \<Rightarrow> missing)"

definition decryptCredential ::
  "crypto \<Rightarrow> json \<Rightarrow> pbkdf2_fn option \<Rightarrow> string \<Rightarrow> string \<Rightarrow> thrown + string" where
  "decryptCredential cr js pbkdf2Fn rawJson password =
     sum_bind (or_throw (invalid_credentials ''Malformed encrypted key'' (Some (JsErr None)))
         (js_parse js rawJson)) (\<lambda>parsed.
       if \<not> isValidEncryptedPrivateKey parsed
       then Inl (invalid_credentials ''Malformed encrypted key'' None)
       else (case decryptPrivateKey cr pbkdf2Fn (as_encrypted_key parsed) password of
               Inl e \<Rightarrow> Inl (invalid_credentials ''Failed to decrypt key'' (Some e))
             | Inr pem \<Rightarrow> Inr pem))"

definition action_password_assertion ::
  "crypto \<Rightarrow> json \<Rightarrow> pbkdf2_fn option \<Rightarrow> string \<Rightarrow> string \<Rightarrow> js_value \<Rightarrow> thrown + js_value" where
  "action_password_assertion cr js pbkdf2Fn orig password challenge =
     sum_bind (extractSigningCredential challenge) (\<lambda>cred.
     sum_bind (decryptCredential cr js pbkdf2Fn (text_of (get_field cred ''encryptedPrivateKey'')) password)
       (\<lambda>privateKeyPem.
     sum_bind (signForLogin cr (text_of (get_field challenge ''challenge'')) orig privateKeyPem
         (text_of (get_field cred ''id''))) (\<lambda>signature.
       Inr (JObj 0
         [(''kind'', JStr ''PasswordProtectedKey''),
          (''credentialAssertion'', string_object
            [(''clientData'', ls_clientData signature), (''credId'', ls_credId signature),
             (''signature'', ls_signature signature)])]))))"

definition action_passkey_assertion :: "passkey_assertion \<Rightarrow> js_value" where
  "action_passkey_assertion assertion =
     JObj 0
       [(''kind'', JStr ''Fido2''),
        (''credentialAssertion'', JObj 0
          [(''clientData'', JStr (pa_clientDataJSON assertion)), (''credId'', JStr (pa_credentialId assertion)),
           (''signature'', JStr (pa_signature assertion)),
           (''authenticatorData'', JStr (pa_authenticatorData assertion)),
           (''userHandle'', case pa_userHandle assertion of None \<Rightarrow> JNull | Some h \<Rightarrow> JStr h)])]"

definition signUserAction ::
  "crypto \<Rightarrow> json \<Rightarrow> 's passkeys \<Rightarrow> 's action_source \<Rightarrow> pbkdf2_fn option \<Rightarrow> string \<Rightarrow> string \<Rightarrow> string \<Rightarrow>
   string \<Rightarrow> js_value \<Rightarrow> signing_context \<Rightarrow> ('s, thrown, string) io" where
  "signUserAction cr js pk src pbkdf2Fn orig username httpMethod httpPath body context =
     io_bind (ac_initAction src
         (action_payload (js_stringify js) httpMethod httpPath (body_or_empty body)) username) (\<lambda>challenge.
     io_bind (case context of
         PasskeySigning \<Rightarrow> io_bind (pk_get pk challenge) (\<lambda>a. io_return (action_passkey_assertion a))
       | PasswordSigning password \<Rightarrow>
           io_result (action_password_assertion cr js pbkdf2Fn orig password challenge)) (\<lambda>assertion.
       ac_completeAction src
         (JObj 0 [(''challengeIdentifier'', get_field challenge ''challengeIdentifier''),
                  (''firstFactor'', assertion)]) username))"

section \<open>Recovery credentials\<close>

record 's credentials_source =
  cs_initCreateCredential :: "string \<Rightarrow> string \<Rightarrow> ('s, thrown, js_value) io"
  cs_createCredential :: "js_value \<Rightarrow> string \<Rightarrow> string option \<Rightarrow> ('s, thrown, js_value) io"

definition credential_headers :: "string \<Rightarrow> string option \<Rightarrow> string js_record" where
  "credential_headers username userAction =
     (''X-Username'', username) #
     (case userAction of None \<Rightarrow> [] | Some a \<Rightarrow> if a = [] then [] else [(''X-Useraction'', a)])"

definition createCredentialsDataSource ::
  "(js_value \<Rightarrow> string) \<Rightarrow> ('x env_scheme) client_internals \<Rightarrow> ('x env_scheme) credentials_source" where
  "createCredentialsDataSource stringify internals =
     \<lparr>cs_initCreateCredential = (\<lambda>kind username.
        post_checked stringify internals ''/auth/credentials/init'' (string_object [(''kind'', kind)])
          (Some [(''X-Username'', username)]) (\<lambda>_. passed)),
      cs_createCredential = (\<lambda>payload username userAction.
        post_checked stringify internals ''/auth/credentials'' payload
          (Some (credential_headers username userAction)) (\<lambda>_. passed))\<rparr>"

definition recovery_payload :: "js_value \<Rightarrow> registration_signature \<Rightarrow> js_value" where
  "recovery_payload challengeIdentifier reg =
     JObj 0
       [(''challengeIdentifier'', challengeIdentifier), (''credentialName'', JStr (rg_credId reg)),
        (''credentialKind'', JStr ''RecoveryKey''),
        (''credentialInfo'', string_object
          [(''credId'', rg_credId reg), (''clientData'', rg_clientData reg),
           (''attestationData'', rg_attestationData reg)]),
        (''encryptedPrivateKey'', JStr (rg_encryptedPrivateKey reg))]"

record recovery_credentials =
  rv_identityKeyName :: js_value
  rv_recoveryKeyId :: js_value
  rv_recoveryCode :: string

text \<open>
  The recovery code and the random bytes of the key pair are arguments. The user action is signed
  without the device's own \<^verbatim>\<open>pbkdf2\<close>, as the code leaves it out there.
\<close>

definition createRecoveryCredentials ::
  "crypto \<Rightarrow> json \<Rightarrow> 's passkeys \<Rightarrow> 's action_source \<Rightarrow> 's credentials_source \<Rightarrow> pbkdf2_fn option \<Rightarrow>
   string \<Rightarrow> string \<Rightarrow> bytes \<Rightarrow> bytes \<Rightarrow> bytes \<Rightarrow> string \<Rightarrow> signing_context \<Rightarrow>
   ('s, thrown, recovery_credentials) io" where
  "createRecoveryCredentials cr js pk actions credentials pbkdf2Fn orig recoveryCode seed salt nonce
     username context =
     io_bind (cs_initCreateCredential credentials ''RecoveryKey'' username) (\<lambda>challenge.
     io_bind (io_result (signForRegistration cr js pbkdf2Fn (text_of (get_field challenge ''challenge''))
         orig (generateKeyPair cr seed) recoveryCode salt nonce)) (\<lambda>reg.
     let payload = recovery_payload (get_field challenge ''challengeIdentifier'') reg in
     io_bind (signUserAction cr js pk actions None orig username ''POST'' ''/auth/credentials'' payload context)
       (\<lambda>userAction.
     io_bind (cs_createCredential credentials payload username (Some userAction)) (\<lambda>result.
       io_return \<lparr>rv_identityKeyName = get_field result ''name'',
                  rv_recoveryKeyId = get_field result ''credentialId'',
                  rv_recoveryCode = recoveryCode\<rparr>))))"

section \<open>Recovering an account\<close>

record 's recovery_source =
  rc_initRecovery :: "js_value \<Rightarrow> ('s, thrown, js_value) io"
  rc_completeRecovery :: "js_value \<Rightarrow> string \<Rightarrow> ('s, thrown, js_value) io"

definition createRecoveryDataSource ::
  "(js_value \<Rightarrow> string) \<Rightarrow> ('x env_scheme) client_internals \<Rightarrow> ('x env_scheme) recovery_source" where
  "createRecoveryDataSource stringify internals =
     \<lparr>rc_initRecovery = (\<lambda>input.
        post_checked stringify internals ''/auth/recover/user/delegated'' input None
          validateRegistrationChallengeResponse),
      rc_completeRecovery = (\<lambda>input temporaryToken.
        post_checked stringify internals ''/auth/recover/user'' input
          (Some [(''Authorization'', ''Bearer '' @ temporaryToken)]) validateRecoveryResultResponse)\<rparr>"

datatype new_credential = NewPassword string | NewPasskey

record recover_input =
  ri_username :: string
  ri_recoveryCode :: string
  ri_credentialId :: string
  ri_newCredential :: new_credential
  ri_twoFAVerificationCodes :: "string js_record option"

fun elements :: "js_value \<Rightarrow> js_value list" where
  "elements (JArr i vs) = vs"
| "elements v = []"

definition invalid_recovery :: "string \<Rightarrow> js_error option \<Rightarrow> thrown" where
  "invalid_recovery msg cause =
     IdentityErr \<lparr>ie_code = INVALID_RECOVERY_CREDENTIALS, ie_message = msg, ie_cause = cause\<rparr>"

definition findRecoveryCredential :: "js_value \<Rightarrow> string \<Rightarrow> thrown + js_value" where
  "findRecoveryCredential challenge credentialId =
     or_throw (invalid_recovery ''Recovery credential not found'' None)
       (find (\<lambda>c. get_field c ''id'' = JStr credentialId)
          (elements (get_field challenge ''allowedRecoveryCredentials'')))"

definition parseEncryptedRecoveryKey :: "json \<Rightarrow> string \<Rightarrow> thrown + encrypted_key" where
  "parseEncryptedRecoveryKey js raw =
     sum_bind (or_throw (invalid_recovery ''Malformed encrypted recovery key'' (Some (JsErr None)))
         (js_parse js raw)) (\<lambda>parsed.
       if \<not> isValidEncryptedPrivateKey parsed
       then Inl (invalid_recovery ''Malformed encrypted recovery key'' None)
       else Inr (as_encrypted_key parsed))"

definition signWithRecoveryKey ::
  "crypto \<Rightarrow> json \<Rightarrow> pbkdf2_fn option \<Rightarrow> string \<Rightarrow> js_value \<Rightarrow> string \<Rightarrow> js_value \<Rightarrow>
   thrown + login_signature" where
  "signWithRecoveryKey cr js pbkdf2Fn orig credential recoveryCode newCredentialsPayload =
     sum_bind (parseEncryptedRecoveryKey js (text_of (get_field credential ''encryptedRecoveryKey''))) (\<lambda>parsed.
       (case decryptPrivateKey cr pbkdf2Fn parsed recoveryCode of
          Inl e \<Rightarrow> Inl (OtherErr e)
        | Inr privateKeyPem \<Rightarrow>
            signForLogin cr
              (cr_base64url cr (cr_utf8ToBytes cr (js_stringify js newCredentialsPayload)))
              orig privateKeyPem (text_of (get_field credential ''id''))))"

definition buildRecoveryPayload :: "login_signature \<Rightarrow> js_value" where
  "buildRecoveryPayload signature =
     JObj 0 [(''kind'', JStr ''RecoveryKey''),
             (''credentialAssertion'', string_object
               [(''clientData'', ls_clientData signature), (''credId'', ls_credId signature),
                (''signature'', ls_signature signature)])]"

definition new_credential_object :: "string \<Rightarrow> string \<Rightarrow> string \<Rightarrow> string \<Rightarrow> js_value \<Rightarrow> js_value" where
  "new_credential_object kind credId clientData attestationData encryptedPrivateKey =
     JObj 0 [(''credentialKind'', JStr kind),
             (''credentialInfo'', string_object
               [(''credId'', credId), (''clientData'', clientData), (''attestationData'', attestationData)]),
             (''encryptedPrivateKey'', encryptedPrivateKey)]"

definition buildNewCredential ::
  "crypto \<Rightarrow> json \<Rightarrow> 's passkeys \<Rightarrow> pbkdf2_fn option \<Rightarrow> string \<Rightarrow> bytes \<Rightarrow> bytes \<Rightarrow> bytes \<Rightarrow>
   recover_input \<Rightarrow> js_value \<Rightarrow> ('s, thrown, js_value) io" where
  "buildNewCredential cr js pk pbkdf2Fn orig seed salt nonce input challenge =
     (case ri_newCredential input of
        NewPasskey \<Rightarrow>
          io_bind (pk_create pk challenge) (\<lambda>passkey.
            io_return (new_credential_object ''Fido2'' (pr_credentialId passkey)
              (pr_clientDataJSON passkey) (pr_attestationObject passkey) JNull))
      | NewPassword newPassword \<Rightarrow>
          io_bind (io_result (signForRegistration cr js pbkdf2Fn (text_of (get_field challenge ''challenge''))
              orig (generateKeyPair cr seed) newPassword salt nonce)) (\<lambda>reg.
            io_return (new_credential_object ''PasswordProtectedKey'' (rg_credId reg) (rg_clientData reg)
              (rg_attestationData reg) (JStr (rg_encryptedPrivateKey reg)))))"

definition completeRecovery_input :: "js_value \<Rightarrow> login_signature \<Rightarrow> js_value" where
  "completeRecovery_input newCredential signature =
     JObj 0 [(''newCredentials'', JObj 0 [(''firstFactorCredential'', newCredential)]),
             (''recovery'', buildRecoveryPayload signature)]"

definition recoverAccount ::
  "crypto \<Rightarrow> json \<Rightarrow> 's passkeys \<Rightarrow> 's recovery_source \<Rightarrow> pbkdf2_fn option \<Rightarrow> string \<Rightarrow>
   bytes \<Rightarrow> bytes \<Rightarrow> bytes \<Rightarrow> recover_input \<Rightarrow> ('s, thrown, unit) io" where
  "recoverAccount cr js pk src pbkdf2Fn orig seed salt nonce input =
     io_bind (rc_initRecovery src (JObj 0
         [(''username'', JStr (ri_username input)), (''credentialId'', JStr (ri_credentialId input)),
          (''2FAVerificationCodes'', of_opt string_object (ri_twoFAVerificationCodes input))])) (\<lambda>challenge.
     io_bind (io_result (findRecoveryCredential challenge (ri_credentialId input))) (\<lambda>recoveryCredential.
     io_bind (buildNewCredential cr js pk pbkdf2Fn orig seed salt nonce input challenge) (\<lambda>newCredential.
     io_bind (io_result (signWithRecoveryKey cr js pbkdf2Fn orig recoveryCredential (ri_recoveryCode input)
         (JObj 0 [(''firstFactorCredential'', newCredential)]))) (\<lambda>recoverySign.
     io_bind (io_result (requireTemporaryToken (get_field challenge ''temporaryAuthenticationToken'')))
       (\<lambda>temporaryToken.
     io_then (rc_completeRecovery src (completeRecovery_input newCredential recoverySign) temporaryToken)
       (io_return ()))))))"

text \<open>
  C23. A recovery code recovers the account. If recovery credentials were made with a code, and the
  server's challenge lists that credential, then recovering with the same code completes the
  recovery with the new credential and a signature, by the recovery key, of client data whose
  challenge is the encoding of exactly that new credential.
\<close>

theorem recovery_code_recovers:
  assumes cr: "crypto_ok cr" and js: "key_json_ok js"
    and "length recoverySeed = 32" "recoverySalt \<noteq> []" "recoveryNonce \<noteq> []"
    and reg: "signForRegistration cr js fn ch0 orig (generateKeyPair cr recoverySeed) (ri_recoveryCode input)
                recoverySalt recoveryNonce = Inr reg"
    and "rc_initRecovery src (JObj 0
         [(''username'', JStr (ri_username input)), (''credentialId'', JStr (ri_credentialId input)),
          (''2FAVerificationCodes'', of_opt string_object (ri_twoFAVerificationCodes input))]) s =
        (Inr challenge, s1)"
    and cred: "findRecoveryCredential challenge (ri_credentialId input) = Inr credential"
      "get_field credential ''id'' = JStr (rg_credId reg)"
      "get_field credential ''encryptedRecoveryKey'' = JStr (rg_encryptedPrivateKey reg)"
    and new: "buildNewCredential cr js pk fn orig seed salt nonce input challenge s1 = (Inr newCredential, s2)"
    and ch: "ch = cr_base64url cr (cr_utf8ToBytes cr (js_stringify js
                (JObj 0 [(''firstFactorCredential'', newCredential)])))"
      "validateChallengeFormat ch = Inr ()"
    and data: "cr_stableStringify cr (JObj 0 (client_data ch orig ''key.get'')) = Some clientData"
    and token: "requireTemporaryToken (get_field challenge ''temporaryAuthenticationToken'') = Inr tempToken"
  shows "recoverAccount cr js pk src fn orig seed salt nonce input s =
    io_then
      (rc_completeRecovery src (completeRecovery_input newCredential
         \<lparr>ls_credId = rg_credId reg,
          ls_clientData = cr_base64url cr (cr_utf8ToBytes cr clientData),
          ls_signature = cr_base64url cr (cr_sign cr (cr_utf8ToBytes cr clientData) recoverySeed)\<rparr>) tempToken)
      (io_return ()) s2"
proof -
  let ?pem = "kp_privateKeyPem (generateKeyPair cr recoverySeed)"
  let ?e = "encryptPrivateKey cr fn ?pem (ri_recoveryCode input) recoverySalt recoveryNonce"
  have seed: "parseSeedFromPem cr ?pem = Inr recoverySeed"
    using parse_toPem [OF crypto_okD(1) [OF cr] assms(3)] by (simp add: generateKeyPair_def Let_def)
  obtain v where v: "js_parse js (js_stringify js (encrypted_object ?e)) = Some v" "isNonNullObject v"
    "\<And>name. get_field v name = get_field (encrypted_object ?e) name"
    using js unfolding key_json_ok_def by blast
  have "?pem \<noteq> []" by (simp add: generateKeyPair_def toPem_def Let_def)
  from encrypted_key_valid [OF cr assms(4,5) this v(3) v(2)]
  have key: "parseEncryptedRecoveryKey js (rg_encryptedPrivateKey reg) = Inr ?e"
    by (simp add: parseEncryptedRecoveryKey_def registration_result(2) [OF reg] v(1))
  have "signWithRecoveryKey cr js fn orig credential (ri_recoveryCode input)
      (JObj 0 [(''firstFactorCredential'', newCredential)]) =
      Inr \<lparr>ls_credId = rg_credId reg,
           ls_clientData = cr_base64url cr (cr_utf8ToBytes cr clientData),
           ls_signature = cr_base64url cr (cr_sign cr (cr_utf8ToBytes cr clientData) recoverySeed)\<rparr>"
    using ch(2) data
    by (simp add: signWithRecoveryKey_def cred key decrypt_encrypted_key [OF cr] signForLogin_def seed
        ch(1) [symmetric] buildSortedJson_def)
  then show ?thesis
    unfolding recoverAccount_def
    by (simp only: io_bind_simp assms(7) prod.case sum.case cred(1) new token io_result_simp)
qed

subsection \<open>An example\<close>

lemma split_on_absent: "sep \<notin> set s \<Longrightarrow> split_on sep s = [s]"
  by (induction s) auto

lemma letters_are_a_challenge:
  assumes "8 \<le> length bs" "length bs \<le> 8192"
  shows "validateChallengeFormat (concat (map letters_of bs)) = Inr ()"
proof -
  let ?s = "concat (map letters_of bs)"
  have range: "of_char c \<in> {65 .. 80 :: nat}" if "c \<in> set ?s" for c
  proof -
    from that obtain b where b: "c \<in> set (letters_of b)" by auto
    then show ?thesis using unat_byte [of b] by (auto simp: letters_of_def)
  qed
  then have alnum: "list_all is_challenge_char ?s"
    by (force simp: list_all_iff is_challenge_char_def is_alnum_def Let_def)
  have "CHR ''.'' \<notin> set ?s" using range by fastforce
  moreover have "length ?s = 2 * length bs" by (induction bs) (simp_all add: letters_of_def)
  moreover from this assms have "?s \<noteq> []" by (cases ?s) simp_all
  ultimately show ?thesis
    using assms alnum
    by (simp add: validateChallengeFormat_def split_on_absent challenge_chars_def passed_def Let_def)
qed

definition sample_recovery_json :: json where
  "sample_recovery_json = sample_key_json
     \<lparr>js_stringify := (\<lambda>v. if get_field v ''firstFactorCredential'' = JUndefined
        then js_stringify sample_key_json v else ''firstFactorCredential'')\<rparr>"

lemma sample_recovery_json_ok: "key_json_ok sample_recovery_json"
  using sample_key_json_ok by (simp add: key_json_ok_def sample_recovery_json_def encrypted_object_def)

definition sample_recovery_registration :: registration_signature where
  "sample_recovery_registration = projr (signForRegistration sample_crypto sample_recovery_json None
     ''fedcba9876543210'' ''app'' (generateKeyPair sample_crypto sample_seed) ''code'' [1] [2])"

lemma sample_recovery_registration_result:
  "signForRegistration sample_crypto sample_recovery_json None ''fedcba9876543210'' ''app''
     (generateKeyPair sample_crypto sample_seed) ''code'' [1] [2] = Inr sample_recovery_registration"
proof -
  have "validateChallengeFormat ''fedcba9876543210'' = Inr ()"
    by (simp add: validateChallengeFormat_def Let_def challenge_chars_def is_challenge_char_def
        is_alnum_def passed_def)
  moreover have "buildSortedJson sample_crypto obj = Inr (string_field (Some (get_field (JObj 0 obj) ''challenge'')))"
    for obj by (simp add: buildSortedJson_def sample_crypto_def)
  moreover have "\<exists>i. generateCredentialId sample_crypto pk = Inr i" for pk
    using generateCredentialId_groups [of sample_crypto pk] crypto_okD(6) [OF sample_crypto_ok] by simp
  then obtain i where "generateCredentialId sample_crypto (kp_publicKey (generateKeyPair sample_crypto sample_seed)) = Inr i"
    by blast
  ultimately have "\<exists>r. signForRegistration sample_crypto sample_recovery_json None ''fedcba9876543210'' ''app''
     (generateKeyPair sample_crypto sample_seed) ''code'' [1] [2] = Inr r"
    by (simp add: signForRegistration_def buildAttestationData_def Let_def)
  then show ?thesis unfolding sample_recovery_registration_def by auto
qed

definition sample_recovery_credential :: js_value where
  "sample_recovery_credential =
     JObj 0 [(''id'', JStr (rg_credId sample_recovery_registration)),
             (''encryptedRecoveryKey'', JStr (rg_encryptedPrivateKey sample_recovery_registration))]"

definition sample_recovery_challenge :: js_value where
  "sample_recovery_challenge =
     JObj 0 [(''temporaryAuthenticationToken'', JStr ''t''),
             (''allowedRecoveryCredentials'', JArr 0 [sample_recovery_credential])]"

definition sample_recovery_source :: "nat recovery_source" where
  "sample_recovery_source =
     \<lparr>rc_initRecovery = (\<lambda>input. io_return sample_recovery_challenge),
      rc_completeRecovery = (\<lambda>input token n. (Inr JNull, Suc n))\<rparr>"

definition sample_passkeys :: "nat passkeys" where
  "sample_passkeys =
     \<lparr>pk_isAvailable = True,
      pk_create = (\<lambda>c. io_return
        \<lparr>pr_credentialId = ''i'', pr_clientDataJSON = ''d'', pr_attestationObject = ''a''\<rparr>),
      pk_get = (\<lambda>c. io_throw (identity_error_of PASSKEY_CANCELLED ''no''))\<rparr>"

definition sample_recover_input :: recover_input where
  "sample_recover_input =
     \<lparr>ri_username = ''u'', ri_recoveryCode = ''code'',
      ri_credentialId = rg_credId sample_recovery_registration, ri_newCredential = NewPasskey,
      ri_twoFAVerificationCodes = None\<rparr>"

theorem recovery_code_recovers_witness:
  "recoverAccount sample_crypto sample_recovery_json sample_passkeys sample_recovery_source None ''app''
     [] [] [] sample_recover_input 0 = (Inr (), 1)"
proof -
  let ?new = "new_credential_object ''Fido2'' ''i'' ''d'' ''a'' JNull"
  let ?ch = "cr_base64url sample_crypto (cr_utf8ToBytes sample_crypto (js_stringify sample_recovery_json
                (JObj 0 [(''firstFactorCredential'', ?new)])))"
  have reg: "signForRegistration sample_crypto sample_recovery_json None ''fedcba9876543210'' ''app''
     (generateKeyPair sample_crypto sample_seed) (ri_recoveryCode sample_recover_input) [1] [2] =
     Inr sample_recovery_registration"
    by (simp add: sample_recover_input_def sample_recovery_registration_result)
  have init: "rc_initRecovery sample_recovery_source i n = (Inr sample_recovery_challenge, n)" for i n
    by (simp add: sample_recovery_source_def io_return_simp)
  have cred: "findRecoveryCredential sample_recovery_challenge (ri_credentialId sample_recover_input) =
        Inr sample_recovery_credential"
    "get_field sample_recovery_credential ''id'' = JStr (rg_credId sample_recovery_registration)"
    "get_field sample_recovery_credential ''encryptedRecoveryKey'' =
       JStr (rg_encryptedPrivateKey sample_recovery_registration)"
    by (simp_all add: findRecoveryCredential_def sample_recovery_challenge_def sample_recover_input_def
        sample_recovery_credential_def)
  have new: "buildNewCredential sample_crypto sample_recovery_json sample_passkeys None ''app'' [] [] []
      sample_recover_input sample_recovery_challenge n = (Inr ?new, n)" for n
    by (simp add: buildNewCredential_def sample_recover_input_def sample_passkeys_def io_bind_simp io_return_simp)
  have str: "js_stringify sample_recovery_json (JObj 0 [(''firstFactorCredential'', ?new)]) =
      ''firstFactorCredential''"
    by (simp add: sample_recovery_json_def new_credential_object_def)
  have valid: "validateChallengeFormat ?ch = Inr ()"
    unfolding str using letters_are_a_challenge [of "map byte_of_char ''firstFactorCredential''"]
    by (simp add: sample_crypto_def)
  have data: "cr_stableStringify sample_crypto (JObj 0 (client_data ?ch ''app'' ''key.get'')) = Some ?ch"
    by (simp add: sample_crypto_def client_data_def)
  have token: "requireTemporaryToken (get_field sample_recovery_challenge ''temporaryAuthenticationToken'') = Inr ''t''"
    by (simp add: requireTemporaryToken_def sample_recovery_challenge_def is_js_space_def)
  have len: "length sample_seed = 32" by (simp add: sample_seed_def)
  have complete: "rc_completeRecovery sample_recovery_source i t n = (Inr JNull, Suc n)" for i t n
    by (simp add: sample_recovery_source_def)
  show ?thesis
    by (subst recovery_code_recovers [OF sample_crypto_ok sample_recovery_json_ok len _ _ reg init cred
        new refl valid data token]) (simp_all add: io_then_simp io_return_simp complete)
qed

end
