(* ===== verification/IdentityRequests.thy ===== *)
theory IdentityRequests
  imports IdentityRecovery
begin

text \<open>
  \<^verbatim>\<open>packages/identity-client/src\<close>: requests that are signed (\<^verbatim>\<open>auth/execute-signed-request.ts\<close>),
  the codes of a second factor (\<^verbatim>\<open>auth/request-two-fa-code.ts\<close>, \<^verbatim>\<open>auth/verify-two-fa-code.ts\<close>,
  \<^verbatim>\<open>auth/delete-two-fa-method.ts\<close> over \<^verbatim>\<open>data-sources/two-fa-data-source.ts\<close>), the check of an
  address for early access, the credentials and profiles of users (\<^verbatim>\<open>users/\<close>) and their keys
  (\<^verbatim>\<open>keys/\<close>). Bodies and answers are JSON values; the answers are not checked by the code.
\<close>

section \<open>Requests over the client\<close>

definition get_options :: "string js_record option \<Rightarrow> string js_record \<Rightarrow> request_options" where
  "get_options query headers = empty_options\<lparr>ro_query := query, ro_headers := Some headers\<rparr>"

definition username_header :: "string \<Rightarrow> string js_record" where
  "username_header username = [(''X-Username'', username)]"

text \<open>\<^verbatim>\<open>const { body } = await httpClient.get(path, { query, headers })\<close>\<close>

definition body_of ::
  "('s, js_error, http_response) io \<Rightarrow> ('s, thrown, js_value) io" where
  "body_of m = io_bind (io_lift m) (\<lambda>response. io_return (hr_body response))"

definition no_value :: "('s, thrown, 'a) io \<Rightarrow> ('s, thrown, unit) io" where
  "no_value m = io_bind m (\<lambda>_. io_return ())"

text \<open>\<^verbatim>\<open>catch (error) { ...; throw f(error) }\<close>\<close>

definition io_map_error :: "('e \<Rightarrow> 'e) \<Rightarrow> ('s, 'e, 'a) io \<Rightarrow> ('s, 'e, 'a) io" where
  "io_map_error f m = io_catch m (\<lambda>e. io_throw (f e))"

lemma io_map_error_simp [io_simps]:
  "io_map_error f m s = (case m s of (Inl e, t) \<Rightarrow> (Inl (f e), t) | (Inr a, t) \<Rightarrow> (Inr a, t))"
  by (simp add: io_map_error_def io_simps split: prod.splits sum.splits)

section \<open>Signed requests\<close>

datatype signed_method = SignPost | SignPut | SignPatch | SignDelete

definition method_name :: "signed_method \<Rightarrow> string" where
  "method_name m = (case m of SignPost \<Rightarrow> ''POST'' | SignPut \<Rightarrow> ''PUT'' | SignPatch \<Rightarrow> ''PATCH'' | SignDelete \<Rightarrow> ''DELETE'')"

definition sendRequest ::
  "(js_value \<Rightarrow> string) \<Rightarrow> ('x env_scheme) client_internals \<Rightarrow> signed_method \<Rightarrow> string \<Rightarrow> js_value \<Rightarrow>
   string js_record \<Rightarrow> ('x env_scheme, thrown, js_value) io" where
  "sendRequest stringify internals httpMethod httpPath body headers =
     (let opts = Some (post_options body (Some headers)) in
      case httpMethod of
        SignDelete \<Rightarrow> body_of (client_delete stringify internals httpPath (Some (post_options JUndefined (Some headers))))
      | SignPost \<Rightarrow> body_of (client_post stringify internals httpPath opts)
      | SignPut \<Rightarrow> body_of (client_put stringify internals httpPath opts)
      | SignPatch \<Rightarrow> body_of (client_patch stringify internals httpPath opts))"

text \<open>What the signing of an action needs: the \<^verbatim>\<open>deps\<close> of the functions below.\<close>

record 's signing_deps =
  sg_crypto :: crypto
  sg_json :: json
  sg_passkeys :: "'s passkeys"
  sg_actions :: "'s action_source"
  sg_origin :: string

definition executeSignedRequest ::
  "('x env_scheme) signing_deps \<Rightarrow> ('x env_scheme) client_internals \<Rightarrow> string \<Rightarrow> signed_method \<Rightarrow> string \<Rightarrow>
   js_value \<Rightarrow> signing_context \<Rightarrow> ('x env_scheme, thrown, js_value) io" where
  "executeSignedRequest d internals username httpMethod httpPath body signingContext =
     (let bodyToSend = body_or_empty body in
      io_bind (signUserAction (sg_crypto d) (sg_json d) (sg_passkeys d) (sg_actions d) None (sg_origin d)
          username (method_name httpMethod) httpPath bodyToSend signingContext) (\<lambda>userAction.
        sendRequest (js_stringify (sg_json d)) internals httpMethod httpPath bodyToSend
          [(''X-Username'', username), (''X-Useraction'', userAction)]))"

section \<open>The second factor\<close>

definition verification_url :: "string \<Rightarrow> string \<Rightarrow> string" where
  "verification_url userId twoFAOption =
     ''/v1/users/'' @ encodeURIComponent userId @ ''/2fa/'' @ encodeURIComponent twoFAOption @ ''/verification-requests''"

definition method_url :: "string \<Rightarrow> string \<Rightarrow> string \<Rightarrow> string" where
  "method_url userId twoFAOption twoFAValue =
     ''/v1/users/'' @ encodeURIComponent userId @ ''/2fa/'' @ encodeURIComponent twoFAOption @ ''/values/'' @
     encodeURIComponent twoFAValue"

text \<open>\<^verbatim>\<open>body?.code\<close> of an error that is a \<^verbatim>\<open>NetworkError\<close>.\<close>

definition code_of_error :: "thrown \<Rightarrow> (js_error \<times> js_value) option" where
  "code_of_error error = (case error of
     OtherErr (NetworkErr ne) \<Rightarrow> Some (NetworkErr ne, get_field (ne_responseBody ne) ''code'')
   | _ \<Rightarrow> None)"

definition identity_failure :: "identity_error_code \<Rightarrow> string \<Rightarrow> js_error \<Rightarrow> thrown" where
  "identity_failure code msg cause = IdentityErr \<lparr>ie_code = code, ie_message = msg, ie_cause = Some cause\<rparr>"

definition mapTwoFAError :: "thrown \<Rightarrow> thrown" where
  "mapTwoFAError error = (case code_of_error error of
     None \<Rightarrow> error
   | Some (e, code) \<Rightarrow>
       if code = JStr ''2FA_INVALID_CODE'' \<or> code = JStr ''2FA_EXPIRED_CODE''
       then identity_failure INVALID_TWO_FA_CODE ''Invalid or expired 2FA code'' e
       else if code = JStr ''2FA_NOT_CONFIGURED''
       then identity_failure TWO_FA_NOT_CONFIGURED ''2FA not configured'' e
       else error)"

record two_fa_param =
  tv_value :: string
  tv_code :: string

fun delete_query :: "nat \<Rightarrow> two_fa_param list \<Rightarrow> string js_record" where
  "delete_query i [] = []"
| "delete_query i (p # ps) =
     (''twoFAOptionVerificationValue'' @ nat_digits i, tv_value p) #
     (''twoFAOptionVerificationCode'' @ nat_digits i, tv_code p) # delete_query (Suc i) ps"

definition buildDeleteQuery :: "two_fa_param list \<Rightarrow> string js_record" where
  "buildDeleteQuery params = delete_query 0 params"

definition buildHeaders :: "string \<Rightarrow> string option \<Rightarrow> string js_record" where
  "buildHeaders username userAction = credential_headers username userAction"

definition sendRequestCode ::
  "(js_value \<Rightarrow> string) \<Rightarrow> ('x env_scheme) client_internals \<Rightarrow> string \<Rightarrow> string \<Rightarrow> string \<Rightarrow> string option \<Rightarrow>
   js_value \<Rightarrow> ('x env_scheme, thrown, js_value) io" where
  "sendRequestCode stringify internals userId twoFAOption username userAction input =
     io_map_error mapTwoFAError (body_of (client_put stringify internals (verification_url userId twoFAOption)
       (Some (post_options input (Some (buildHeaders username userAction))))))"

definition sendVerifyCode ::
  "(js_value \<Rightarrow> string) \<Rightarrow> ('x env_scheme) client_internals \<Rightarrow> string \<Rightarrow> string \<Rightarrow> string \<Rightarrow> string option \<Rightarrow>
   string \<Rightarrow> ('x env_scheme, thrown, unit) io" where
  "sendVerifyCode stringify internals userId twoFAOption username userAction code =
     io_map_error mapTwoFAError (no_value (body_of (client_patch stringify internals (verification_url userId twoFAOption)
       (Some ((post_options (JObj 0 []) (Some (buildHeaders username userAction)))\<lparr>ro_query := Some [(''code'', code)]\<rparr>)))))"

definition sendDeleteMethod ::
  "(js_value \<Rightarrow> string) \<Rightarrow> ('x env_scheme) client_internals \<Rightarrow> string \<Rightarrow> string \<Rightarrow> string \<Rightarrow> two_fa_param list \<Rightarrow>
   string \<Rightarrow> string \<Rightarrow> ('x env_scheme, thrown, unit) io" where
  "sendDeleteMethod stringify internals userId twoFAOption twoFAValue verificationParams username userAction =
     io_map_error mapTwoFAError (no_value (body_of (client_delete stringify internals (method_url userId twoFAOption twoFAValue)
       (Some (get_options (Some (buildDeleteQuery verificationParams)) (buildHeaders username (Some userAction)))))))"

record 's two_fa_source =
  tf_requestCode :: "string \<Rightarrow> string \<Rightarrow> string \<Rightarrow> string option \<Rightarrow> js_value \<Rightarrow> ('s, thrown, js_value) io"
  tf_verifyCode :: "string \<Rightarrow> string \<Rightarrow> string \<Rightarrow> string option \<Rightarrow> string \<Rightarrow> ('s, thrown, unit) io"
  tf_deleteMethod :: "string \<Rightarrow> string \<Rightarrow> string \<Rightarrow> two_fa_param list \<Rightarrow> string \<Rightarrow> string \<Rightarrow> ('s, thrown, unit) io"

definition createTwoFADataSource ::
  "(js_value \<Rightarrow> string) \<Rightarrow> ('x env_scheme) client_internals \<Rightarrow> ('x env_scheme) two_fa_source" where
  "createTwoFADataSource stringify internals =
     \<lparr>tf_requestCode = sendRequestCode stringify internals,
      tf_verifyCode = sendVerifyCode stringify internals,
      tf_deleteMethod = sendDeleteMethod stringify internals\<rparr>"

definition sign_with ::
  "'s signing_deps \<Rightarrow> string \<Rightarrow> string \<Rightarrow> string \<Rightarrow> js_value \<Rightarrow> signing_context \<Rightarrow> ('s, thrown, string) io" where
  "sign_with d username httpMethod httpPath body context =
     signUserAction (sg_crypto d) (sg_json d) (sg_passkeys d) (sg_actions d) None (sg_origin d)
       username httpMethod httpPath body context"

definition requestTwoFACode ::
  "'s signing_deps \<Rightarrow> 's two_fa_source \<Rightarrow> string \<Rightarrow> string \<Rightarrow> string \<Rightarrow> js_value \<Rightarrow> signing_context \<Rightarrow>
   ('s, thrown, js_value) io" where
  "requestTwoFACode d src username userId twoFAOption input context =
     io_bind (sign_with d username ''PUT'' (verification_url userId twoFAOption) input context) (\<lambda>userAction.
       tf_requestCode src userId twoFAOption username (Some userAction) input)"

definition verifyTwoFACode ::
  "'s signing_deps \<Rightarrow> 's two_fa_source \<Rightarrow> string \<Rightarrow> string \<Rightarrow> string \<Rightarrow> string \<Rightarrow> signing_context \<Rightarrow>
   ('s, thrown, unit) io" where
  "verifyTwoFACode d src username userId twoFAOption code context =
     io_bind (sign_with d username ''PATCH'' (verification_url userId twoFAOption) (JObj 0 []) context) (\<lambda>userAction.
       tf_verifyCode src userId twoFAOption username (Some userAction) code)"

definition deleteTwoFAMethod ::
  "'s signing_deps \<Rightarrow> 's two_fa_source \<Rightarrow> string \<Rightarrow> string \<Rightarrow> string \<Rightarrow> string \<Rightarrow> two_fa_param list \<Rightarrow>
   signing_context \<Rightarrow> ('s, thrown, unit) io" where
  "deleteTwoFAMethod d src username userId twoFAOption twoFAValue verificationParams context =
     io_bind (sign_with d username ''DELETE'' (method_url userId twoFAOption twoFAValue) (JObj 0 []) context) (\<lambda>userAction.
       tf_deleteMethod src userId twoFAOption twoFAValue verificationParams username userAction)"

section \<open>Early access, credentials and users\<close>

definition verifyEarlyAccessEmail ::
  "(js_value \<Rightarrow> string) \<Rightarrow> ('x env_scheme) client_internals \<Rightarrow> string \<Rightarrow> ('x env_scheme, thrown, unit) io" where
  "verifyEarlyAccessEmail stringify internals email =
     io_map_error (\<lambda>error. case code_of_error error of
         Some (e, code) \<Rightarrow> if code = JStr ''INVALID_EMAIL''
           then identity_error_of INVALID_EMAIL ''Email is not eligible for early access'' else error
       | None \<Rightarrow> error)
       (no_value (body_of (client_get stringify internals ''/v1/early-access-users''
          (Some (empty_options\<lparr>ro_query := Some [(''email'', email)]\<rparr>)))))"

text \<open>Reading a property of \<^verbatim>\<open>null\<close> or \<^verbatim>\<open>undefined\<close> is a \<^verbatim>\<open>TypeError\<close>; so is \<^verbatim>\<open>map\<close> of what is no array.\<close>

definition type_error :: thrown where
  "type_error = OtherErr (JsErr None)"

definition field_of :: "js_value \<Rightarrow> string \<Rightarrow> ('s, thrown, js_value) io" where
  "field_of v name = (if v = JNull \<or> v = JUndefined then io_throw type_error else io_return (get_field v name))"

definition elements_of :: "js_value \<Rightarrow> ('s, thrown, js_value list) io" where
  "elements_of v = (case v of JArr i xs \<Rightarrow> io_return xs | _ \<Rightarrow> io_throw type_error)"

definition listCredentials_request ::
  "(js_value \<Rightarrow> string) \<Rightarrow> ('x env_scheme) client_internals \<Rightarrow> string \<Rightarrow> ('x env_scheme, thrown, js_value) io" where
  "listCredentials_request stringify internals username =
     body_of (client_get stringify internals ''/auth/credentials'' (Some (get_options None (username_header username))))"

definition listCredentials ::
  "(string \<Rightarrow> ('s, thrown, js_value) io) \<Rightarrow> string \<Rightarrow> ('s, thrown, js_value) io" where
  "listCredentials src username = io_bind (src username) (\<lambda>response. field_of response ''items'')"

definition createUserDataSource ::
  "(js_value \<Rightarrow> string) \<Rightarrow> ('x env_scheme) client_internals \<Rightarrow> string \<Rightarrow> string \<Rightarrow> ('x env_scheme, thrown, js_value) io" where
  "createUserDataSource stringify internals userIdOrMasterKey username =
     body_of (client_get stringify internals (''/auth/users/'' @ encodeURIComponent userIdOrMasterKey)
       (Some (get_options None (username_header username))))"

definition getUser where
  "getUser src username userIdOrMasterKey = src userIdOrMasterKey username"

definition mapNicknameError :: "thrown \<Rightarrow> thrown" where
  "mapNicknameError error = (case code_of_error error of
     None \<Rightarrow> error
   | Some (e, code) \<Rightarrow>
       if code = JStr ''INVALID_USERNAME'' then identity_failure INVALID_NICKNAME ''Invalid nickname'' e
       else if code = JStr ''DUPLICATE'' then identity_failure NICKNAME_ALREADY_EXISTS ''Nickname already exists'' e
       else if code = JStr ''RESERVED'' then identity_failure NICKNAME_RESERVED ''Nickname is reserved'' e
       else error)"

definition profile_url :: "string \<Rightarrow> string" where
  "profile_url userId = ''/v1/users/'' @ encodeURIComponent userId @ ''/profiles/social''"

definition sendGetSocialProfile ::
  "(js_value \<Rightarrow> string) \<Rightarrow> ('x env_scheme) client_internals \<Rightarrow> string \<Rightarrow> string \<Rightarrow> ('x env_scheme, thrown, js_value) io" where
  "sendGetSocialProfile stringify internals userIdOrMasterKey username =
     io_map_error (\<lambda>error. case error of
         OtherErr (NetworkErr ne) \<Rightarrow> if ne_status ne = Some 404
           then identity_failure USER_NOT_FOUND ''User not found'' (NetworkErr ne) else error
       | _ \<Rightarrow> error)
       (body_of (client_get stringify internals (profile_url userIdOrMasterKey)
          (Some (get_options None (username_header username)))))"

definition sendUpdateSocialProfile ::
  "(js_value \<Rightarrow> string) \<Rightarrow> ('x env_scheme) client_internals \<Rightarrow> string \<Rightarrow> string \<Rightarrow> js_value \<Rightarrow>
   ('x env_scheme, thrown, js_value) io" where
  "sendUpdateSocialProfile stringify internals userId username input =
     io_map_error mapNicknameError (body_of (client_patch stringify internals (profile_url userId)
       (Some (post_options input (Some (username_header username))))))"

definition sendVerifyNickname ::
  "(js_value \<Rightarrow> string) \<Rightarrow> ('x env_scheme) client_internals \<Rightarrow> string \<Rightarrow> string \<Rightarrow> ('x env_scheme, thrown, unit) io" where
  "sendVerifyNickname stringify internals username nickname =
     io_map_error mapNicknameError (no_value (body_of (client_get stringify internals
       ''/v1/users/verify-username-availability''
       (Some (get_options (Some [(''username'', nickname)]) (username_header username))))))"

record 's profile_source =
  up_getSocialProfile :: "string \<Rightarrow> string \<Rightarrow> ('s, thrown, js_value) io"
  up_updateSocialProfile :: "string \<Rightarrow> string \<Rightarrow> js_value \<Rightarrow> ('s, thrown, js_value) io"
  up_verifyNickname :: "string \<Rightarrow> string \<Rightarrow> ('s, thrown, unit) io"

definition createUserProfileDataSource ::
  "(js_value \<Rightarrow> string) \<Rightarrow> ('x env_scheme) client_internals \<Rightarrow> ('x env_scheme) profile_source" where
  "createUserProfileDataSource stringify internals =
     \<lparr>up_getSocialProfile = sendGetSocialProfile stringify internals,
      up_updateSocialProfile = sendUpdateSocialProfile stringify internals,
      up_verifyNickname = sendVerifyNickname stringify internals\<rparr>"

definition getSocialProfile where
  "getSocialProfile src username userIdOrMasterKey = up_getSocialProfile src userIdOrMasterKey username"

definition updateSocialProfile where
  "updateSocialProfile src username userId input = up_updateSocialProfile src userId username input"

definition verifyNickname where
  "verifyNickname src username nickname = up_verifyNickname src username nickname"

section \<open>Keys\<close>

record list_keys_params =
  lk_owner :: "string option"
  lk_limit :: "int option"
  lk_paginationToken :: "string option"

text \<open>\<^verbatim>\<open>if (value) query[name] = value\<close> and \<^verbatim>\<open>if (value !== undefined) query[name] = String(value)\<close>\<close>

definition query_text :: "string \<Rightarrow> string option \<Rightarrow> string js_record" where
  "query_text name v = (case v of None \<Rightarrow> [] | Some t \<Rightarrow> if t = [] then [] else [(name, t)])"

definition query_number :: "string \<Rightarrow> int option \<Rightarrow> string js_record" where
  "query_number name v = (case v of None \<Rightarrow> [] | Some n \<Rightarrow> [(name, int_str n)])"

definition createKeysDataSource ::
  "(js_value \<Rightarrow> string) \<Rightarrow> ('x env_scheme) client_internals \<Rightarrow> string \<Rightarrow> list_keys_params option \<Rightarrow>
   ('x env_scheme, thrown, js_value) io" where
  "createKeysDataSource stringify internals username params =
     body_of (client_get stringify internals ''/keys'' (Some (get_options (Some
       (case params of None \<Rightarrow> [] | Some ps \<Rightarrow>
          query_text ''owner'' (lk_owner ps) @ query_number ''limit'' (lk_limit ps) @
          query_text ''paginationToken'' (lk_paginationToken ps))) (username_header username))))"

definition listKeys where
  "listKeys src username params = src username params"

definition createKey ::
  "('x env_scheme) signing_deps \<Rightarrow> ('x env_scheme) client_internals \<Rightarrow> string \<Rightarrow> string \<Rightarrow> string \<Rightarrow> string option \<Rightarrow>
   signing_context \<Rightarrow> ('x env_scheme, thrown, js_value) io" where
  "createKey d internals username scheme curve name context =
     executeSignedRequest d internals username SignPost ''/keys''
       (string_object ([(''scheme'', scheme), (''curve'', curve)] @
          (case name of None \<Rightarrow> [] | Some n \<Rightarrow> [(''name'', n)]))) context"

definition deriveKey_request ::
  "('x env_scheme) signing_deps \<Rightarrow> ('x env_scheme) client_internals \<Rightarrow> string \<Rightarrow> string \<Rightarrow> js_value \<Rightarrow>
   signing_context \<Rightarrow> ('x env_scheme, thrown, js_value) io" where
  "deriveKey_request d internals username keyId input context =
     executeSignedRequest d internals username SignPost (''/keys/'' @ encodeURIComponent keyId @ ''/derive'') input context"

definition updateKey ::
  "('x env_scheme) signing_deps \<Rightarrow> ('x env_scheme) client_internals \<Rightarrow> string \<Rightarrow> string \<Rightarrow> string \<Rightarrow>
   signing_context \<Rightarrow> ('x env_scheme, thrown, js_value) io" where
  "updateKey d internals username keyId name context =
     executeSignedRequest d internals username SignPut (''/keys/'' @ encodeURIComponent keyId)
       (string_object [(''name'', name)]) context"

section \<open>What reaches the transport\<close>

text \<open>
  A transport that keeps what it is given, and answers by a function of all requests so far.
\<close>

record sent_env = env +
  sn_sent :: "transport_request list"

definition recording ::
  "(transport_request list \<Rightarrow> transport_request \<Rightarrow> js_error + transport_response) \<Rightarrow>
   ('x sent_env_scheme) transport" where
  "recording reply r s = (reply (sn_sent s) r, s\<lparr>sn_sent := sn_sent s @ [r]\<rparr>)"

text \<open>All requests of a computation satisfy \<open>Q\<close>, and none is taken back.\<close>

definition sends :: "(transport_request \<Rightarrow> bool) \<Rightarrow> ('x sent_env_scheme, 'e, 'a) io \<Rightarrow> bool" where
  "sends Q m = (\<forall>s. \<exists>rs. sn_sent (snd (m s)) = sn_sent s @ rs \<and> list_all Q rs)"

lemma sendsD: "sends Q m \<Longrightarrow> \<exists>rs. sn_sent (snd (m s)) = sn_sent s @ rs \<and> list_all Q rs"
  by (simp add: sends_def)

lemma sends_of_keeps: "(\<And>ts. keeps (\<lambda>s. sn_sent s = ts) m) \<Longrightarrow> sends Q m"
  unfolding sends_def keeps_def by (intro allI exI [of _ "[]"]) simp

lemma sends_bind:
  assumes "sends Q m" "\<And>a. sends Q (f a)"
  shows "sends Q (io_bind m f)"
  unfolding sends_def
proof
  fix s
  obtain r t where m: "m s = (r, t)" by (cases "m s")
  from sendsD [OF assms(1), of s] m obtain rs where rs: "sn_sent t = sn_sent s @ rs" "list_all Q rs" by auto
  show "\<exists>rs. sn_sent (snd (io_bind m f s)) = sn_sent s @ rs \<and> list_all Q rs"
  proof (cases r)
    case (Inl e)
    with m rs show ?thesis by (simp add: io_simps)
  next
    case (Inr a)
    from sendsD [OF assms(2) [of a], of t] obtain rs' where "sn_sent (snd (f a t)) = sn_sent t @ rs'" "list_all Q rs'" by auto
    with m rs Inr show ?thesis by (auto simp: io_simps)
  qed
qed

lemma sends_then: "sends Q m \<Longrightarrow> sends Q n \<Longrightarrow> sends Q (io_then m n)"
  by (simp add: io_then_def sends_bind)

lemma sends_catch:
  assumes "sends Q m" "\<And>e. sends Q (h e)"
  shows "sends Q (io_catch m h)"
  unfolding sends_def
proof
  fix s
  obtain r t where m: "m s = (r, t)" by (cases "m s")
  from sendsD [OF assms(1), of s] m obtain rs where rs: "sn_sent t = sn_sent s @ rs" "list_all Q rs" by auto
  show "\<exists>rs. sn_sent (snd (io_catch m h s)) = sn_sent s @ rs \<and> list_all Q rs"
  proof (cases r)
    case (Inr a)
    with m rs show ?thesis by (simp add: io_simps)
  next
    case (Inl e)
    from sendsD [OF assms(2) [of e], of t] obtain rs' where "sn_sent (snd (h e t)) = sn_sent t @ rs'" "list_all Q rs'" by auto
    with m rs Inl show ?thesis by (auto simp: io_simps)
  qed
qed

lemma sends_recording: "Q r \<Longrightarrow> sends Q (recording reply r)"
  by (simp add: sends_def recording_def)

lemma sent_log_independent: "log_independent (\<lambda>s. sn_sent s = ts)"
  by (simp add: log_independent_def)

lemma sends_return: "sends Q (io_return a)" and sends_throw: "sends Q (io_throw e)" and sends_gets: "sends Q (io_gets f)"
  by (simp_all add: sends_def io_simps)

definition returns :: "('a \<Rightarrow> bool) \<Rightarrow> ('s, 'e, 'a) io \<Rightarrow> bool" where
  "returns A m = (\<forall>s a t. m s = (Inr a, t) \<longrightarrow> A a)"

lemma sends_bind_returns:
  assumes "sends Q m" "returns A m" "\<And>a. A a \<Longrightarrow> sends Q (f a)"
  shows "sends Q (io_bind m f)"
proof -
  have "sends Q (io_bind m (\<lambda>a. if A a then f a else io_return undefined))"
    using assms(1,3) by (intro sends_bind) (auto intro: sends_return)
  moreover have "io_bind m (\<lambda>a. if A a then f a else io_return undefined) = io_bind m f"
    using assms(2) by (auto simp: fun_eq_iff io_simps returns_def split: prod.splits sum.splits)
  ultimately show ?thesis by simp
qed

text \<open>An interceptor that sends nothing and leaves what is signed as it is, as the one for tokens does.\<close>

definition same_request :: "intercepted_request \<Rightarrow> intercepted_request \<Rightarrow> bool" where
  "same_request r r' \<longleftrightarrow> rq_method r' = rq_method r \<and> rq_url r' = rq_url r \<and> rq_body r' = rq_body r \<and>
     map_of (rq_headers r') ''X-Useraction'' = map_of (rq_headers r) ''X-Useraction''"

definition recorded :: "('x sent_env_scheme) client_internals \<Rightarrow> bool" where
  "recorded internals \<longleftrightarrow> (\<exists>reply. ci_transport internals = recording reply) \<and> ci_requestQueue internals = None \<and>
     (\<forall>ts. ics_keep (\<lambda>s. sn_sent s = ts) (ci_interceptors internals)) \<and>
     (\<forall>ic \<in> set (ci_interceptors internals). \<forall>f r. ic_onRequest ic = Some f \<longrightarrow> returns (same_request r) (f r))"

lemma returns_runRequestInterceptors:
  assumes "\<forall>ic \<in> set ics. \<forall>f r. ic_onRequest ic = Some f \<longrightarrow> returns (same_request r) (f r)"
  shows "returns (same_request r) (runRequestInterceptors ics r)"
  using assms
proof (induction ics arbitrary: r)
  case Nil
  then show ?case by (simp add: returns_def io_simps same_request_def)
next
  case (Cons ic ics)
  show ?case
  proof (cases "ic_onRequest ic")
    case None
    with Cons show ?thesis by simp
  next
    case (Some f)
    have f: "returns (same_request r) (f r)" for r using Cons.prems Some by auto
    have tail: "returns (same_request r) (runRequestInterceptors ics r)" for r
      using Cons by simp
    show ?thesis unfolding returns_def
    proof (intro allI impI)
      fix s a t
      assume "runRequestInterceptors (ic # ics) r s = (Inr a, t)"
      with Some obtain r' u v where "f r s = (Inr r', u)" "runRequestInterceptors ics r' v = (Inr a, t)"
        by (auto simp: io_simps split: prod.splits sum.splits if_splits)
      with f [of r] tail [of r'] have "same_request r r'" "same_request r' a" unfolding returns_def by metis+
      then show "same_request r a" by (simp add: same_request_def)
    qed
  qed
qed

text \<open>The requests a call of the client may send: once, or twice where an error asks for a retry.\<close>

definition carries :: "('x sent_env_scheme) request_context \<Rightarrow> transport_request \<Rightarrow> bool" where
  "carries c r \<longleftrightarrow> tr_method r = cx_method c \<and> tr_url r = full_url (ci_baseUrl (cx_internals c)) (cx_url c) \<and>
     tr_body r = opt_body (cx_options c) \<and>
     (case tr_headers r of None \<Rightarrow> False | Some hs \<Rightarrow> map_of hs ''X-Useraction'' =
        map_of (spread (or_default (ci_defaultHeaders (cx_internals c)) []) (opt_headers (cx_options c))) ''X-Useraction'')"

lemma sends_transport:
  assumes "recorded (cx_internals c)" "same_request
     \<lparr>rq_url = full_url (ci_baseUrl (cx_internals c)) (cx_url c), rq_method = cx_method c,
      rq_headers = spread (or_default (ci_defaultHeaders (cx_internals c)) []) (opt_headers (cx_options c)),
      rq_body = opt_body (cx_options c)\<rparr> req"
  shows "sends (carries c) (send_once stringify c req)"
proof -
  from assms(1) obtain reply where tr: "ci_transport (cx_internals c) = recording reply"
    and ics: "\<And>ts. ics_keep (\<lambda>s. sn_sent s = ts) (ci_interceptors (cx_internals c))"
    by (auto simp: recorded_def)
  have q: "carries c (transport_request_of (transport_input_of c req))"
    using assms(2) by (simp add: carries_def same_request_def transport_request_of_def transport_input_of_def Let_def)
  have "sends (carries c) (recording reply (transport_request_of (transport_input_of c req)))"
    using q by (intro sends_recording)
  then have one: "sends (carries c) (ti_transport (transport_input_of c req) (transport_request_of (transport_input_of c req)))"
    by (simp add: transport_input_of_def tr Let_def)
  show ?thesis
    unfolding send_once_def executeTransportRequest_def Let_def throwOnErrorStatus_def
    by (intro sends_bind sends_then sends_catch sends_return sends_throw sends_gets one)
       (auto intro!: sends_of_keeps keeps_intros sent_log_independent ics [unfolded transport_input_of_def]
         simp: transport_input_of_def Let_def split: option.splits)
qed

lemma sends_once_step:
  assumes "recorded (cx_internals c)" "\<And>ne. sends (carries c) (f ne)"
  shows "sends (carries c) (io_bind (buildInterceptedRequest c) (\<lambda>req.
           io_catch (send_once stringify c req) (\<lambda>error.
             io_bind (handleError (cx_internals c) error) f)))"
proof -
  let ?base = "\<lparr>rq_url = full_url (ci_baseUrl (cx_internals c)) (cx_url c), rq_method = cx_method c,
      rq_headers = spread (or_default (ci_defaultHeaders (cx_internals c)) []) (opt_headers (cx_options c)),
      rq_body = opt_body (cx_options c)\<rparr>"
  have ics: "ics_keep (\<lambda>s. sn_sent s = ts) (ci_interceptors (cx_internals c))" for ts
    using assms(1) by (simp add: recorded_def)
  have b: "sends (carries c) (buildInterceptedRequest c)"
    unfolding buildInterceptedRequest_def Let_def
    by (intro sends_of_keeps keeps_intros sent_log_independent ics)
  have "returns (same_request ?base) (runRequestInterceptors (ci_interceptors (cx_internals c)) ?base)"
    by (rule returns_runRequestInterceptors) (use assms(1) in \<open>simp add: recorded_def\<close>)
  then have r: "returns (same_request ?base) (buildInterceptedRequest c)"
    by (simp add: buildInterceptedRequest_def Let_def) (simp add: returns_def io_simps same_request_def)
  have h: "sends (carries c) (handleError (cx_internals c) error)" for error
    unfolding handleError_def Let_def by (intro sends_of_keeps keeps_intros ics)
  show ?thesis
    by (rule sends_bind_returns [OF b r], rule sends_catch, rule sends_transport [OF assms(1)], assumption)
       (rule sends_bind [OF h assms(2)])
qed

lemma sends_executeSingleRequest:
  assumes "recorded (cx_internals c)"
  shows "sends (carries c) (executeSingleRequest stringify c)"
proof -
  have again: "sends (carries c) (executeSingleRequest stringify (c\<lparr>cx_authRetried := True\<rparr>))"
  proof -
    have "carries (c\<lparr>cx_authRetried := True\<rparr>) = carries c" by (simp add: fun_eq_iff carries_def cong: option.case_cong)
    with sends_once_step [of "c\<lparr>cx_authRetried := True\<rparr>" "\<lambda>h. io_throw (NetworkErr h)"] assms show ?thesis
      by (subst executeSingleRequest.simps) (simp add: sends_throw)
  qed
  show ?thesis
    by (subst executeSingleRequest.simps, rule sends_once_step [OF assms]) (simp add: again sends_throw)
qed

lemma sends_executeRequest:
  assumes "recorded (cx_internals c)" "case cx_options c of None \<Rightarrow> True | Some opts \<Rightarrow> ro_params opts = None"
  shows "sends (carries c) (executeRequest stringify c)"
proof (cases "prefix ''//'' (cx_url c)")
  case True
  then show ?thesis by (simp add: executeRequest_def interpolatePathParams_def Let_def sends_throw)
next
  case False
  have e: "\<not> shouldEnqueue (cx_internals c) error opts" for error opts
    using assms(1) by (simp add: shouldEnqueue_def recorded_def)
  have path: "interpolatePathParams (cx_url c) (case cx_options c of None \<Rightarrow> None | Some ro \<Rightarrow> ro_params ro) = Inr (cx_url c)"
    using False assms(2) by (auto simp: interpolatePathParams_def split: option.splits)
  have "c\<lparr>cx_url := cx_url c\<rparr> = c" by simp
  then show ?thesis
    using sends_executeSingleRequest [OF assms(1), of stringify]
    by (auto simp: executeRequest_def Let_def path e intro!: sends_catch sends_then sends_throw sends_return split: option.splits)
qed

lemma io_lift_state: "snd (io_lift m s) = snd (m s)"
  by (simp add: io_simps split: prod.splits sum.splits)

lemma sends_io_lift: "sends Q m \<Longrightarrow> sends Q (io_lift m)"
  unfolding sends_def by (metis (no_types, lifting) io_lift_state)

lemma sends_io_check: "sends Q (io_check c)" and sends_io_result: "sends Q (io_result r)"
  by (auto simp: sends_def io_simps split: sum.splits)

lemma sends_body_of:
  assumes "recorded internals" "case opts of None \<Rightarrow> True | Some ro \<Rightarrow> ro_params ro = None"
  shows "sends (carries (client_context internals meth url opts False))
           (body_of (executeRequest stringify (client_context internals meth url opts False)))"
  using assms by (auto simp: body_of_def client_context_def
      intro!: sends_bind sends_io_lift sends_executeRequest sends_return)

lemma post_options_params [simp]: "ro_params (post_options b hs) = None"
  by (simp add: post_options_def empty_options_def)

text \<open>The context of the request that a signed action is for.\<close>

definition signed_context ::
  "('x env_scheme) client_internals \<Rightarrow> string \<Rightarrow> signed_method \<Rightarrow> string \<Rightarrow> js_value \<Rightarrow> string \<Rightarrow>
   ('x env_scheme) request_context" where
  "signed_context internals username m path body userAction =
     client_context internals (method_name m) path
       (Some (post_options (if m = SignDelete then JUndefined else body)
          (Some [(''X-Username'', username), (''X-Useraction'', userAction)]))) False"

lemma sends_sendRequest:
  "recorded internals \<Longrightarrow> sends (carries (signed_context internals username m path body ua))
     (sendRequest stringify internals m path body [(''X-Username'', username), (''X-Useraction'', ua)])"
  unfolding sendRequest_def Let_def client_post_def client_put_def client_patch_def client_delete_def signed_context_def
  by (cases m) (simp_all add: method_name_def sends_body_of)

definition signing_request ::
  "(js_value \<Rightarrow> string) \<Rightarrow> 's client_internals \<Rightarrow> signed_method \<Rightarrow> string \<Rightarrow> js_value \<Rightarrow> transport_request \<Rightarrow> bool" where
  "signing_request stringify internals m path body r \<longleftrightarrow> tr_method r = ''POST'' \<and>
     (tr_url r = full_url (ci_baseUrl internals) ''/auth/action/init'' \<and>
        tr_body r = action_payload stringify (method_name m) path (body_or_empty body) \<or>
      tr_url r = full_url (ci_baseUrl internals) ''/auth/action'')"

definition signed_by ::
  "'s client_internals \<Rightarrow> signed_method \<Rightarrow> string \<Rightarrow> js_value \<Rightarrow> string \<Rightarrow> transport_request \<Rightarrow> bool" where
  "signed_by internals m path body userAction r \<longleftrightarrow> tr_method r = method_name m \<and>
     tr_url r = full_url (ci_baseUrl internals) path \<and>
     tr_body r = (if m = SignDelete then JUndefined else body_or_empty body) \<and>
     (case tr_headers r of None \<Rightarrow> False | Some hs \<Rightarrow> map_of hs ''X-Useraction'' = Some userAction)"

lemma carries_signed_context:
  "carries (signed_context internals username m path (body_or_empty body) ua) r \<Longrightarrow> signed_by internals m path body ua r"
  by (auto simp: carries_def signed_context_def signed_by_def client_context_def opt_body_def opt_headers_def
      post_options_def empty_options_def map_of_spread AList.update_conv' split: option.splits if_splits)

lemma sends_weaken: "sends P m \<Longrightarrow> (\<And>r. P r \<Longrightarrow> Q r) \<Longrightarrow> sends Q m"
  unfolding sends_def by (metis (mono_tags, lifting) list.pred_mono_strong)

lemma sends_post_checked:
  assumes "recorded internals"
    and "\<And>r. carries (client_context internals ''POST'' path (Some (post_options body headers)) False) r \<Longrightarrow> Q r"
  shows "sends Q (post_checked stringify internals path body headers check)"
  unfolding post_checked_def client_post_def
  by (intro sends_bind sends_io_lift sends_then sends_io_check sends_return
      sends_weaken [OF sends_executeRequest [where c = "client_context internals ''POST'' path (Some (post_options body headers)) False"]])
    (use assms in \<open>simp_all add: client_context_def\<close>)

lemma body_or_empty_twice [simp]: "body_or_empty (body_or_empty body) = body_or_empty body"
  by (cases body) (simp_all add: body_or_empty_def)

definition quiet_passkeys :: "('x sent_env_scheme) passkeys \<Rightarrow> bool" where
  "quiet_passkeys pk \<longleftrightarrow> (\<forall>challenge ts. keeps (\<lambda>s. sn_sent s = ts) (pk_get pk challenge))"

lemma sends_signUserAction:
  assumes "recorded internals" "quiet_passkeys pk"
  shows "sends (signing_request (js_stringify js) internals m path body)
    (signUserAction cr js pk (createUserActionDataSource (js_stringify js) internals) pbkdf2Fn orig username
       (method_name m) path (body_or_empty body) context)"
proof -
  have get: "sends Q (pk_get pk ch)" for Q ch
    using assms(2) by (intro sends_of_keeps) (simp add: quiet_passkeys_def)
  show ?thesis
    unfolding signUserAction_def createUserActionDataSource_def
    by (simp, intro sends_bind sends_post_checked [OF assms(1)])
       (auto simp: signing_request_def carries_def client_context_def opt_body_def post_options_def empty_options_def
         intro!: sends_bind get sends_return sends_io_result split: signing_context.splits)
qed

text \<open>
  C21. What is signed is what is sent. The requests of \<^verbatim>\<open>executeSignedRequest\<close> are those that sign the action, whose
  payload names the method, the path and the text of the body, and then, only where signing gave a user action,
  requests with that method, path and body (none with DELETE) that carry that action in their header. Nothing
  is sent unsigned, whatever the server answers and whichever interceptors add headers of their own.
\<close>

theorem what_is_signed_is_what_is_sent:
  assumes "recorded internals" "quiet_passkeys (sg_passkeys d)"
    and "sg_actions d = createUserActionDataSource (js_stringify (sg_json d)) internals"
  shows "\<exists>qs rs. sn_sent (snd (executeSignedRequest d internals username m path body context s)) = sn_sent s @ qs @ rs \<and>
    list_all (signing_request (js_stringify (sg_json d)) internals m path body) qs \<and>
    list_all (\<lambda>r. \<exists>userAction. signed_by internals m path body userAction r \<and>
      fst (signUserAction (sg_crypto d) (sg_json d) (sg_passkeys d) (sg_actions d) None (sg_origin d) username
        (method_name m) path (body_or_empty body) context s) = Inr userAction) rs"
proof -
  let ?sign = "signUserAction (sg_crypto d) (sg_json d) (sg_passkeys d) (sg_actions d) None (sg_origin d) username
        (method_name m) path (body_or_empty body) context"
  obtain r t where sign: "?sign s = (r, t)" by (cases "?sign s")
  from sendsD [OF sends_signUserAction [OF assms(1,2), of "sg_json d" m path body "sg_crypto d" None "sg_origin d" username "context"], of s]
  obtain qs where qs: "sn_sent t = sn_sent s @ qs" "list_all (signing_request (js_stringify (sg_json d)) internals m path body) qs"
    using sign assms(3) by auto
  show ?thesis
  proof (cases r)
    case (Inl e)
    with sign qs show ?thesis
      by (intro exI [of _ qs] exI [of _ "[]"]) (simp add: executeSignedRequest_def Let_def io_simps)
  next
    case (Inr ua)
    let ?send = "sendRequest (js_stringify (sg_json d)) internals m path (body_or_empty body)
      [(''X-Username'', username), (''X-Useraction'', ua)]"
    from sendsD [OF sends_sendRequest [OF assms(1), of username m path "body_or_empty body" ua "js_stringify (sg_json d)"], of t]
    obtain rs where
      rs: "sn_sent (snd (?send t)) = sn_sent t @ rs" "list_all (carries (signed_context internals username m path (body_or_empty body) ua)) rs"
      by blast
    have run: "executeSignedRequest d internals username m path body context s = ?send t"
      using sign Inr by (simp add: executeSignedRequest_def Let_def io_simps)
    have "list_all (\<lambda>r. \<exists>u. signed_by internals m path body u r \<and> fst (?sign s) = Inr u) rs"
      using rs(2) sign Inr by (auto simp: list_all_iff dest: carries_signed_context)
    with rs(1) qs show ?thesis unfolding run by (intro exI [of _ qs] exI [of _ rs]) simp
  qed
qed

definition sample_answer :: js_value where
  "sample_answer = JObj 1
     [(''challenge'', JStr ''0123456789abcdef''), (''challengeIdentifier'', JStr ''c''),
      (''rp'', JObj 2 [(''id'', JStr ''ion''), (''name'', JStr ''ION'')]),
      (''allowCredentials'', JObj 3 []), (''userAction'', JStr ''signed'')]"

definition sample_internals :: "sent_env client_internals" where
  "sample_internals =
     \<lparr>ci_timeoutMs = 1, ci_maxRequestBodySizeBytes = 1000, ci_baseUrl = Some ''https://id.ion'',
      ci_defaultHeaders = Some [(''X-Client-ID'', ''app'')],
      ci_transport = recording (\<lambda>_ _. Inr \<lparr>tp_status = 200, tp_headers = [], tp_body = sample_answer\<rparr>),
      ci_interceptors = [], ci_requestQueue = None\<rparr>"

definition sample_signing :: "sent_env signing_deps" where
  "sample_signing =
     \<lparr>sg_crypto = sample_crypto, sg_json = sample_token_json,
      sg_passkeys = \<lparr>pk_isAvailable = True, pk_create = (\<lambda>_. io_throw (OtherErr (JsErr None))),
        pk_get = (\<lambda>_. io_return \<lparr>pa_credentialId = ''i'', pa_clientDataJSON = ''d'', pa_authenticatorData = ''a'',
                    pa_signature = ''s'', pa_userHandle = None\<rparr>)\<rparr>,
      sg_actions = createUserActionDataSource (js_stringify sample_token_json) sample_internals,
      sg_origin = ''app''\<rparr>"

theorem what_is_signed_is_what_is_sent_witness:
  "\<exists>qs rs. sn_sent (snd (executeSignedRequest sample_signing sample_internals ''u'' SignPost ''/wallets'' JNull PasskeySigning
      \<lparr>env_now = 0, env_log = [], sn_sent = []\<rparr>)) = qs @ rs \<and>
    list_all (signing_request (js_stringify sample_token_json) sample_internals SignPost ''/wallets'' JNull) qs \<and>
    list_all (\<lambda>r. \<exists>userAction. signed_by sample_internals SignPost ''/wallets'' JNull userAction r) rs"
proof -
  let ?s = "\<lparr>env_now = 0, env_log = [], sn_sent = []\<rparr> :: sent_env"
  have "recorded sample_internals" by (auto simp: recorded_def sample_internals_def)
  moreover have "quiet_passkeys (sg_passkeys sample_signing)"
    by (simp add: quiet_passkeys_def sample_signing_def keeps_return)
  moreover have "sg_actions sample_signing =
      createUserActionDataSource (js_stringify (sg_json sample_signing)) sample_internals"
    by (simp add: sample_signing_def)
  ultimately obtain qs rs where sent:
    "sn_sent (snd (executeSignedRequest sample_signing sample_internals ''u'' SignPost ''/wallets'' JNull PasskeySigning ?s)) =
       sn_sent ?s @ qs @ rs"
    and qs: "list_all (signing_request (js_stringify (sg_json sample_signing)) sample_internals SignPost ''/wallets'' JNull) qs"
    and rs: "list_all (\<lambda>r. \<exists>userAction. signed_by sample_internals SignPost ''/wallets'' JNull userAction r \<and>
      fst (signUserAction (sg_crypto sample_signing) (sg_json sample_signing) (sg_passkeys sample_signing)
        (sg_actions sample_signing) None (sg_origin sample_signing) ''u'' (method_name SignPost) ''/wallets''
        (body_or_empty JNull) PasskeySigning ?s) = Inr userAction) rs"
    using what_is_signed_is_what_is_sent [of sample_internals sample_signing "''u''" SignPost "''/wallets''" JNull
      PasskeySigning ?s] by blast
  from rs have "list_all (\<lambda>r. \<exists>userAction. signed_by sample_internals SignPost ''/wallets'' JNull userAction r) rs"
    by (auto simp: list_all_iff)
  moreover have "sg_json sample_signing = sample_token_json" by (simp add: sample_signing_def)
  ultimately show ?thesis using sent qs by (intro exI [of _ qs] exI [of _ rs]) simp
qed

section \<open>The query of a removal\<close>

lemma delete_query_length: "length (delete_query i ps) = 2 * length ps"
  by (induction ps arbitrary: i) simp_all

lemma delete_query_nth:
  "k < length ps \<Longrightarrow>
   delete_query i ps ! (2 * k) = (''twoFAOptionVerificationValue'' @ nat_digits (i + k), tv_value (ps ! k)) \<and>
   delete_query i ps ! (2 * k + 1) = (''twoFAOptionVerificationCode'' @ nat_digits (i + k), tv_code (ps ! k))"
proof (induction ps arbitrary: i k)
  case (Cons p ps)
  then show ?case by (cases k) simp_all
qed simp

end
