(* ===== verification/IdentityWallets.thy ===== *)
theory IdentityWallets
  imports IdentityRequests
begin

text \<open>
  \<^verbatim>\<open>packages/identity-client/src/wallets\<close>: wallets, their assets, history and transfers, the signed
  requests for them, and the data source behind them (\<^verbatim>\<open>data-sources/wallets-data-source.ts\<close>). An answer is a JSON value that the code takes for what
  TypeScript declares; reading a property of \<^verbatim>\<open>null\<close> is a \<^verbatim>\<open>TypeError\<close>. \<^verbatim>\<open>NaN\<close>, which JSON does not
  have, stands as \<^verbatim>\<open>undefined\<close>.
\<close>

section \<open>JSON values\<close>

text \<open>\<^verbatim>\<open>{ ...v, name: x }\<close> and \<^verbatim>\<open>v ?? d\<close>\<close>

definition fields_of :: "js_value \<Rightarrow> js_value js_record" where
  "fields_of v = (case v of JObj i fs \<Rightarrow> fs | _ \<Rightarrow> [])"

definition with_fields :: "js_value \<Rightarrow> js_value js_record \<Rightarrow> js_value" where
  "with_fields v fs = JObj 0 (spread (fields_of v) fs)"

definition or_value :: "js_value \<Rightarrow> js_value \<Rightarrow> js_value" where
  "or_value v d = (if v = JNull \<or> v = JUndefined then d else v)"

definition js_truthy :: "js_value \<Rightarrow> bool" where
  "js_truthy v \<longleftrightarrow> v \<notin> {JUndefined, JNull, JBool False, JNum 0, JStr []}"

text \<open>\<^verbatim>\<open>String(v)\<close>\<close>

fun js_String :: "js_value \<Rightarrow> string" where
  "js_String JUndefined = ''undefined''"
| "js_String JNull = ''null''"
| "js_String (JBool b) = (if b then ''true'' else ''false'')"
| "js_String (JNum n) = int_str n"
| "js_String (JStr s) = s"
| "js_String (JArr i xs) =
     join_with '','' (map (\<lambda>v. if v = JNull \<or> v = JUndefined then [] else js_String v) xs)"
| "js_String (JObj i fs) = ''[object Object]''"
| "js_String (JFormData i) = ''[object FormData]''"

fun traverse :: "('a \<Rightarrow> 'e + 'b) \<Rightarrow> 'a list \<Rightarrow> 'e + 'b list" where
  "traverse f [] = Inr []"
| "traverse f (x # xs) = (case f x of Inl e \<Rightarrow> Inl e
     | Inr y \<Rightarrow> (case traverse f xs of Inl e \<Rightarrow> Inl e | Inr ys \<Rightarrow> Inr (y # ys)))"

definition nullish :: "js_value \<Rightarrow> bool" where
  "nullish v \<longleftrightarrow> v = JNull \<or> v = JUndefined"

section \<open>Requests for wallets\<close>

record pagination =
  pg_limit :: "int option"
  pg_paginationToken :: "string option"

definition buildPaginationQuery :: "pagination option \<Rightarrow> string js_record" where
  "buildPaginationQuery params = (case params of None \<Rightarrow> [] | Some ps \<Rightarrow>
     query_number ''limit'' (pg_limit ps) @ query_text ''paginationToken'' (pg_paginationToken ps))"

definition walletPath :: "string \<Rightarrow> string" where
  "walletPath walletId = ''/wallets/'' @ encodeURIComponent walletId"

definition get_json ::
  "(js_value \<Rightarrow> string) \<Rightarrow> ('x env_scheme) client_internals \<Rightarrow> string \<Rightarrow> string js_record option \<Rightarrow> string \<Rightarrow>
   ('x env_scheme, thrown, js_value) io" where
  "get_json stringify internals path query username =
     body_of (client_get stringify internals path (Some (get_options query (username_header username))))"

definition post_json ::
  "(js_value \<Rightarrow> string) \<Rightarrow> ('x env_scheme) client_internals \<Rightarrow> string \<Rightarrow> js_value \<Rightarrow> string \<Rightarrow>
   ('x env_scheme, thrown, js_value) io" where
  "post_json stringify internals path body username =
     body_of (client_post stringify internals path (Some (post_options body (Some (username_header username)))))"

record 's wallets_source =
  wa_listWallets :: "string \<Rightarrow> ('s, thrown, js_value) io"
  wa_getWalletAssets :: "string \<Rightarrow> string \<Rightarrow> ('s, thrown, js_value) io"
  wa_getWalletNfts :: "string \<Rightarrow> string \<Rightarrow> ('s, thrown, js_value) io"
  wa_probeRestrictedRegion :: "string \<Rightarrow> ('s, thrown, unit) io"
  wa_getWalletHistory :: "string \<Rightarrow> string \<Rightarrow> pagination option \<Rightarrow> ('s, thrown, js_value) io"
  wa_getWalletTransfers :: "string \<Rightarrow> string \<Rightarrow> pagination option \<Rightarrow> ('s, thrown, js_value) io"
  wa_getTransferById :: "string \<Rightarrow> string \<Rightarrow> string \<Rightarrow> ('s, thrown, js_value) io"
  wa_callFunction :: "string \<Rightarrow> js_value \<Rightarrow> string \<Rightarrow> ('s, thrown, js_value) io"

definition createWalletsDataSource ::
  "(js_value \<Rightarrow> string) \<Rightarrow> ('x env_scheme) client_internals \<Rightarrow> ('x env_scheme) wallets_source" where
  "createWalletsDataSource stringify internals =
     \<lparr>wa_listWallets = get_json stringify internals ''/wallets'' None,
      wa_getWalletAssets = (\<lambda>walletId. get_json stringify internals (walletPath walletId @ ''/assets'') None),
      wa_getWalletNfts = (\<lambda>walletId. get_json stringify internals (walletPath walletId @ ''/nfts'') None),
      wa_probeRestrictedRegion = (\<lambda>username. no_value (post_json stringify internals
        ''/wallets/wa-bogus-restricted-region-probe/transactions'' (JObj 0 []) username)),
      wa_getWalletHistory = (\<lambda>walletId username params.
        get_json stringify internals (walletPath walletId @ ''/history'') (Some (buildPaginationQuery params)) username),
      wa_getWalletTransfers = (\<lambda>walletId username params.
        get_json stringify internals (walletPath walletId @ ''/transfers'') (Some (buildPaginationQuery params)) username),
      wa_getTransferById = (\<lambda>walletId transferId.
        get_json stringify internals (walletPath walletId @ ''/transfers/'' @ encodeURIComponent transferId) None),
      wa_callFunction = (\<lambda>network request.
        post_json stringify internals (''/networks/'' @ encodeURIComponent network @ ''/call-function'') request)\<rparr>"

section \<open>Wallets\<close>

definition KNOWN_ASSET_KINDS :: "string list" where
  "KNOWN_ASSET_KINDS =
     [''Native'', ''Erc20'', ''Asa'', ''Spl'', ''Spl2022'', ''Sep41'', ''Tep74'', ''Trc10'', ''Trc20'', ''Aip21'']"

definition normalizeAssetKind :: "js_value \<Rightarrow> js_value" where
  "normalizeAssetKind asset =
     (if get_field asset ''kind'' \<in> JStr ` set KNOWN_ASSET_KINDS then asset
      else with_fields asset [(''rawKind'', get_field asset ''kind''), (''kind'', JStr ''Unknown'')])"

definition normalizeAssetBalance :: "js_value \<Rightarrow> thrown + js_value" where
  "normalizeAssetBalance asset =
     (if nullish asset then Inl type_error
      else Inr (with_fields (normalizeAssetKind asset) [(''balance'', JStr (js_String (get_field asset ''balance'')))]))"

definition isRestrictedRegionError :: "thrown \<Rightarrow> bool" where
  "isRestrictedRegionError error = (case code_of_error error of
     Some (e, JStr code) \<Rightarrow> map js_upper_ascii_char code = ''RESTRICTED_REGION''
   | _ \<Rightarrow> False)"

definition listWallets :: "'s wallets_source \<Rightarrow> string \<Rightarrow> ('s, thrown, js_value) io" where
  "listWallets src username = io_bind (wa_listWallets src username) (\<lambda>response. field_of response ''items'')"

definition getWalletAssets :: "'s wallets_source \<Rightarrow> string \<Rightarrow> string \<Rightarrow> ('s, thrown, js_value) io" where
  "getWalletAssets src username walletId =
     io_bind (wa_getWalletAssets src walletId username) (\<lambda>response.
     io_bind (field_of response ''assets'') (\<lambda>assets.
     io_bind (elements_of assets) (\<lambda>xs.
     io_bind (io_result (traverse normalizeAssetBalance xs)) (\<lambda>ys.
       io_return (with_fields response [(''assets'', JArr 0 ys)])))))"

definition getWalletNfts :: "'s wallets_source \<Rightarrow> string \<Rightarrow> string \<Rightarrow> ('s, thrown, js_value) io" where
  "getWalletNfts src username walletId =
     io_bind (wa_getWalletNfts src walletId username) (\<lambda>response. field_of response ''nfts'')"

definition createWallet ::
  "('x env_scheme) signing_deps \<Rightarrow> ('x env_scheme) client_internals \<Rightarrow> string \<Rightarrow> js_value \<Rightarrow> signing_context \<Rightarrow>
   ('x env_scheme, thrown, js_value) io" where
  "createWallet d internals username input context =
     executeSignedRequest d internals username SignPost ''/wallets'' input context"

definition probeRestrictedRegion :: "('x env_scheme) wallets_source \<Rightarrow> string \<Rightarrow> ('x env_scheme, thrown, unit) io" where
  "probeRestrictedRegion src username =
     io_catch (wa_probeRestrictedRegion src username) (\<lambda>error.
       if isRestrictedRegionError error
       then io_throw (IdentityErr \<lparr>ie_code = RESTRICTED_REGION, ie_message = ''Restricted region'',
              ie_cause = map_option fst (code_of_error error)\<rparr>)
       else emit_log LWarning ''probeRestrictedRegion failed with non-restricted error'' [] [(''username'', JStr username)])"

definition getWalletHistory where
  "getWalletHistory src username walletId params = wa_getWalletHistory src walletId username params"

definition getWalletTransfers where
  "getWalletTransfers src username walletId params = wa_getWalletTransfers src walletId username params"

definition getTransferById where
  "getTransferById src username walletId transferId = wa_getTransferById src walletId transferId username"

definition callFunction where
  "callFunction src username network request = wa_callFunction src network request username"

section \<open>Signed requests for wallets\<close>

definition stripUndefinedFields :: "js_value js_record \<Rightarrow> js_value js_record" where
  "stripUndefinedFields obj = filter (\<lambda>(k, v). v \<noteq> JUndefined \<and> v \<noteq> JNull) obj"

definition makeTransfer ::
  "('x env_scheme) signing_deps \<Rightarrow> ('x env_scheme) client_internals \<Rightarrow> string \<Rightarrow> string \<Rightarrow> js_value js_record \<Rightarrow>
   signing_context \<Rightarrow> ('x env_scheme, thrown, js_value) io" where
  "makeTransfer d internals username walletId transfer context =
     executeSignedRequest d internals username SignPost (walletPath walletId @ ''/transfers'')
       (JObj 0 (stripUndefinedFields transfer)) context"

definition signAndBroadcastEvm ::
  "('x env_scheme) signing_deps \<Rightarrow> ('x env_scheme) client_internals \<Rightarrow> string \<Rightarrow> string \<Rightarrow> js_value \<Rightarrow>
   signing_context \<Rightarrow> ('x env_scheme, thrown, js_value) io" where
  "signAndBroadcastEvm d internals username walletId request context =
     executeSignedRequest d internals username SignPost (walletPath walletId @ ''/transactions'') request context"

text \<open>\<^verbatim>\<open>b.toString(16).padStart(2, '0')\<close> of every byte of the text in UTF-8.\<close>

definition hex_letter :: "nat \<Rightarrow> char" where
  "hex_letter n = ''0123456789abcdef'' ! (n mod 16)"

definition utf8_of_char :: "char \<Rightarrow> nat list" where
  "utf8_of_char c = (let n = of_char c :: nat in if n < 128 then [n] else [192 + n div 64, 128 + n mod 64])"

definition toHex :: "string \<Rightarrow> string" where
  "toHex s = concat (map (\<lambda>b. [hex_letter (b div 16), hex_letter b]) (concat (map utf8_of_char s)))"

datatype signature_request =
    HashRequest string "string option"
  | MessageRequest string "string option"

definition external_id :: "string option \<Rightarrow> js_value js_record" where
  "external_id e = (case e of None \<Rightarrow> [] | Some i \<Rightarrow> [(''externalId'', JStr i)])"

definition prepareSignatureBody :: "signature_request \<Rightarrow> js_value" where
  "prepareSignatureBody request = (case request of
     HashRequest h e \<Rightarrow> JObj 0 ([(''kind'', JStr ''Hash''), (''hash'', JStr h)] @ external_id e)
   | MessageRequest m e \<Rightarrow> JObj 0 ([(''kind'', JStr ''Message''), (''message'', JStr (toHex m))] @ external_id e))"

definition generateSignature ::
  "('x env_scheme) signing_deps \<Rightarrow> ('x env_scheme) client_internals \<Rightarrow> string \<Rightarrow> string \<Rightarrow> signature_request \<Rightarrow>
   signing_context \<Rightarrow> ('x env_scheme, thrown, js_value) io" where
  "generateSignature d internals username walletId request context =
     executeSignedRequest d internals username SignPost (walletPath walletId @ ''/signatures'')
       (prepareSignatureBody request) context"

definition signMessageTon ::
  "('x env_scheme) signing_deps \<Rightarrow> ('x env_scheme) client_internals \<Rightarrow> string \<Rightarrow> string \<Rightarrow> string \<Rightarrow>
   signing_context \<Rightarrow> ('x env_scheme, thrown, js_value) io" where
  "signMessageTon d internals username signingKeyId msg context =
     executeSignedRequest d internals username SignPost (''/keys/'' @ encodeURIComponent signingKeyId @ ''/signatures'')
       (string_object [(''blockchainKind'', ''Ton''), (''kind'', ''Message''), (''message'', msg)]) context"

section \<open>Assets\<close>

text \<open>An asset as the type \<^verbatim>\<open>WalletAsset\<close> has it: a known kind or the unknown one with the raw kind, and a text.\<close>

definition asset_ok :: "js_value \<Rightarrow> bool" where
  "asset_ok v \<longleftrightarrow> (\<exists>b. get_field v ''balance'' = JStr b) \<and>
     (get_field v ''kind'' \<in> JStr ` set KNOWN_ASSET_KINDS \<or> get_field v ''kind'' = JStr ''Unknown'')"

lemma map_of_spread_keys: "distinct (map fst fs) \<Longrightarrow>
   get_field (with_fields v fs) k = (case map_of fs k of None \<Rightarrow> get_field v k | Some x \<Rightarrow> x)"
  by (cases v) (simp_all add: with_fields_def fields_of_def map_of_spread split: option.splits)

lemma normalizeAssetKind_kind:
  "get_field (normalizeAssetKind v) ''kind'' \<in> JStr ` set KNOWN_ASSET_KINDS \<or>
   get_field (normalizeAssetKind v) ''kind'' = JStr ''Unknown''"
  by (simp add: normalizeAssetKind_def map_of_spread_keys)

lemma normalizeAssetBalance_ok: "normalizeAssetBalance v = Inr w \<Longrightarrow> asset_ok w"
  using normalizeAssetKind_kind [of v]
  by (auto simp: normalizeAssetBalance_def asset_ok_def map_of_spread_keys split: if_splits)

lemma traverse_Inr: "traverse f xs = Inr ys \<Longrightarrow> list_all2 (\<lambda>x y. f x = Inr y) xs ys"
  by (induction xs arbitrary: ys) (auto split: sum.splits)

text \<open>Whatever the server sends, assets that are returned are of the type that is declared.\<close>

theorem assets_have_their_type:
  "case fst (getWalletAssets src username walletId s) of Inl e \<Rightarrow> True
   | Inr response \<Rightarrow> (\<exists>xs. get_field response ''assets'' = JArr 0 xs \<and> list_all asset_ok xs)"
proof -
  have ok: "list_all asset_ok ys" if "traverse normalizeAssetBalance xs = Inr ys" for xs ys
    using traverse_Inr [OF that]
    by (induction rule: list_all2_induct) (auto dest: normalizeAssetBalance_ok)
  show ?thesis
    by (auto simp: getWalletAssets_def io_simps field_of_def elements_of_def map_of_spread_keys dest: ok
        split: prod.splits sum.splits js_value.splits if_splits)
qed

section \<open>The probe of the region\<close>

text \<open>The probe fails only to say that the region is restricted; every other failure is logged and forgotten.\<close>

theorem probe_reports_restriction_only:
  "fst (probeRestrictedRegion src username s) =
     (case wa_probeRestrictedRegion src username s of
        (Inr _, _) \<Rightarrow> Inr ()
      | (Inl error, _) \<Rightarrow> if isRestrictedRegionError error
          then Inl (IdentityErr \<lparr>ie_code = RESTRICTED_REGION, ie_message = ''Restricted region'',
                 ie_cause = map_option fst (code_of_error error)\<rparr>) else Inr ())"
  by (simp add: probeRestrictedRegion_def io_simps emit_log_simp split: prod.splits sum.splits)

text \<open>The code is compared without regard to case, unlike the codes of the second factor and of nicknames.\<close>

lemma restricted_region_any_case:
  "isRestrictedRegionError (OtherErr (NetworkErr (ne\<lparr>ne_responseBody := JObj 0 [(''code'', JStr ''restricted_region'')]\<rparr>)))"
proof -
  have "map js_upper_ascii_char ''restricted_region'' = ''RESTRICTED_REGION''" by code_simp
  then show ?thesis by (simp only: isRestrictedRegionError_def code_of_error_def) simp
qed

section \<open>Hexadecimal messages\<close>

text \<open>A message of a signature is sent as the hexadecimal digits of its bytes, and can be read back from them.\<close>

definition hex_nibble :: "char \<Rightarrow> nat" where
  "hex_nibble c = (let n = of_char c :: nat in if n < 58 then n - 48 else n - 87)"

fun bytes_of_hex :: "string \<Rightarrow> nat list" where
  "bytes_of_hex (a # b # cs) = (16 * hex_nibble a + hex_nibble b) # bytes_of_hex cs"
| "bytes_of_hex cs = []"

lemma hex_value_letter: "n < 16 \<Longrightarrow> hex_nibble (hex_letter n) = n"
proof -
  have "list_all (\<lambda>n. hex_nibble (hex_letter n) = n) [0..<16]" by code_simp
  then show "n < 16 \<Longrightarrow> hex_nibble (hex_letter n) = n" by (simp add: list_all_iff)
qed

lemma hex_letter_mod: "hex_letter n = hex_letter (n mod 16)"
  by (simp add: hex_letter_def)

lemma bytes_of_hex_append:
  "list_all (\<lambda>b. b < 256) bs \<Longrightarrow>
   bytes_of_hex (concat (map (\<lambda>b. [hex_letter (b div 16), hex_letter b]) bs)) = bs"
proof (induction bs)
  case (Cons b bs)
  then have "b div 16 < 16" "b mod 16 < 16" by auto
  then have "16 * hex_nibble (hex_letter (b div 16)) + hex_nibble (hex_letter b) = b"
    by (subst (2) hex_letter_mod) (simp add: hex_value_letter)
  with Cons show ?case by simp
qed simp

lemma utf8_bytes_small: "list_all (\<lambda>b. b < 256) (utf8_of_char c)"
proof -
  have "(of_char c :: nat) < 256" by simp
  then have "(of_char c :: nat) div 64 < 4" by (intro less_mult_imp_div_less) simp
  moreover have "(of_char c :: nat) mod 64 < 128" by (rule less_trans [of _ 64]) simp_all
  ultimately show ?thesis by (simp add: utf8_of_char_def Let_def)
qed

lemma signed_message_reads_back: "bytes_of_hex (toHex s) = concat (map utf8_of_char s)"
  unfolding toHex_def
  by (rule bytes_of_hex_append) (use utf8_bytes_small in \<open>auto simp: list_all_iff\<close>)

end
