(* ===== verification/IdentityViews.thy ===== *)
theory IdentityViews
  imports IdentityWallets
begin

text \<open>
  \<^verbatim>\<open>packages/identity-client/src\<close>: the views of wallets (\<^verbatim>\<open>wallets/wallet-views.ts\<close>), coins
  (\<^verbatim>\<open>coins/coins.ts\<close>) and the fees of networks (\<^verbatim>\<open>wallets/build-wallet-methods.ts\<close>), with their data
  sources. The user's id is read from the token that is stored for the name.
\<close>

section \<open>Views of wallets\<close>

definition buildViewsPath :: "string \<Rightarrow> string" where
  "buildViewsPath userId = ''/v1/users/'' @ encodeURIComponent userId @ ''/wallet-views''"

definition buildViewPath :: "string \<Rightarrow> string \<Rightarrow> string" where
  "buildViewPath userId walletViewId = buildViewsPath userId @ ''/'' @ encodeURIComponent walletViewId"

definition buildGetQuery :: "pagination option \<Rightarrow> string js_record" where
  "buildGetQuery params = (case params of None \<Rightarrow> [] | Some ps \<Rightarrow>
     query_number ''limit'' (pg_limit ps) @ query_text ''paginationToken'' (pg_paginationToken ps))"

text \<open>An answer that cannot be parsed: \<^verbatim>\<open>error.code === 'PARSE_ERROR'\<close>\<close>

definition is_parse_error :: "thrown \<Rightarrow> bool" where
  "is_parse_error error = (case error of OtherErr (NetworkErr ne) \<Rightarrow> ne_code ne = PARSE_ERROR | _ \<Rightarrow> False)"

record 's views_source =
  wv_list :: "string \<Rightarrow> string \<Rightarrow> ('s, thrown, js_value) io"
  wv_create :: "string \<Rightarrow> js_value \<Rightarrow> string \<Rightarrow> ('s, thrown, js_value) io"
  wv_get :: "string \<Rightarrow> string \<Rightarrow> string \<Rightarrow> pagination option \<Rightarrow> ('s, thrown, js_value \<times> string js_record) io"
  wv_update :: "string \<Rightarrow> string \<Rightarrow> js_value \<Rightarrow> string \<Rightarrow> ('s, thrown, js_value) io"
  wv_delete :: "string \<Rightarrow> string \<Rightarrow> string \<Rightarrow> ('s, thrown, unit) io"

definition list_views where
  "list_views stringify internals userId username = get_json stringify internals (buildViewsPath userId) None username"

definition get_view ::
  "(js_value \<Rightarrow> string) \<Rightarrow> ('x env_scheme) client_internals \<Rightarrow> string \<Rightarrow> string \<Rightarrow> string \<Rightarrow> pagination option \<Rightarrow>
   ('x env_scheme, thrown, js_value \<times> string js_record) io" where
  "get_view stringify internals userId walletViewId username query =
     io_bind (io_lift (client_get stringify internals (buildViewPath userId walletViewId)
         (Some (get_options (Some (buildGetQuery query)) (username_header username)))))
       (\<lambda>response. io_return (hr_body response, hr_headers response))"

definition create_view where
  "create_view stringify internals userId input username =
     post_json stringify internals (buildViewsPath userId) input username"

definition update_view ::
  "(js_value \<Rightarrow> string) \<Rightarrow> ('x env_scheme) client_internals \<Rightarrow> string \<Rightarrow> string \<Rightarrow> js_value \<Rightarrow> string \<Rightarrow>
   ('x env_scheme, thrown, js_value) io" where
  "update_view stringify internals userId walletViewId input username =
     body_of (client_put stringify internals (buildViewPath userId walletViewId)
       (Some (post_options input (Some (username_header username)))))"

definition delete_view ::
  "(js_value \<Rightarrow> string) \<Rightarrow> ('x env_scheme) client_internals \<Rightarrow> string \<Rightarrow> string \<Rightarrow> string \<Rightarrow>
   ('x env_scheme, thrown, unit) io" where
  "delete_view stringify internals userId walletViewId username =
     io_catch (no_value (body_of (client_delete stringify internals (buildViewPath userId walletViewId)
         (Some (get_options None (username_header username)))))) (\<lambda>error.
       if is_parse_error error
       then emit_log LWarning ''deleteWalletView returned unparseable response, treating as success'' []
              [(''userId'', JStr userId), (''walletViewId'', JStr walletViewId)]
       else io_throw error)"

definition createWalletViewsDataSource ::
  "(js_value \<Rightarrow> string) \<Rightarrow> ('x env_scheme) client_internals \<Rightarrow> ('x env_scheme) views_source" where
  "createWalletViewsDataSource stringify internals =
     \<lparr>wv_list = list_views stringify internals, wv_create = create_view stringify internals,
      wv_get = get_view stringify internals, wv_update = update_view stringify internals,
      wv_delete = delete_view stringify internals\<rparr>"

definition normalizeBalance :: "js_value \<Rightarrow> string" where
  "normalizeBalance v = (if nullish v then ''0'' else js_String v)"

text \<open>\<^verbatim>\<open>Object.entries\<close>\<close>

definition js_entries :: "js_value \<Rightarrow> js_value js_record" where
  "js_entries v = (case v of
     JObj i fs \<Rightarrow> fs
   | JArr i xs \<Rightarrow> zip (map nat_digits [0..<length xs]) xs
   | JStr s \<Rightarrow> zip (map nat_digits [0..<length s]) (map (\<lambda>c. JStr [c]) s)
   | _ \<Rightarrow> [])"

definition normalize_group :: "string \<times> js_value \<Rightarrow> thrown + string \<times> js_value" where
  "normalize_group entry = (if nullish (snd entry) then Inl type_error
     else Inr (fst entry, with_fields (snd entry)
            [(''totalBalance'', JStr (normalizeBalance (get_field (snd entry) ''totalBalance'')))]))"

definition normalizeAggregation :: "js_value \<Rightarrow> thrown + js_value" where
  "normalizeAggregation aggregation = map_sum id (JObj 0) (traverse normalize_group (js_entries aggregation))"

definition normalizeSummary :: "js_value \<Rightarrow> thrown + js_value" where
  "normalizeSummary summary =
     (if nullish summary then Inl type_error
      else Inr (with_fields summary
        [(''coins'', or_value (get_field summary ''coins'') (JArr 0 [])),
         (''symbolGroups'', or_value (get_field summary ''symbolGroups'') (JArr 0 []))]))"

definition listWalletViews ::
  "'st token_deps \<Rightarrow> (('st, 'x) identity_env_scheme) views_source \<Rightarrow> string \<Rightarrow>
   (('st, 'x) identity_env_scheme, thrown, js_value) io" where
  "listWalletViews d src username =
     io_bind (extractUserId d username) (\<lambda>userId.
     io_bind (wv_list src userId username) (\<lambda>summaries.
     io_bind (elements_of summaries) (\<lambda>xs.
     io_bind (io_result (traverse normalizeSummary xs)) (\<lambda>ys. io_return (JArr 0 ys)))))"

definition view_create ::
  "'st token_deps \<Rightarrow> (('st, 'x) identity_env_scheme) views_source \<Rightarrow> string \<Rightarrow> js_value \<Rightarrow>
   (('st, 'x) identity_env_scheme, thrown, js_value) io" where
  "view_create d src username input =
     io_bind (extractUserId d username) (\<lambda>userId. wv_create src userId input username)"

definition getWalletView ::
  "'st token_deps \<Rightarrow> (('st, 'x) identity_env_scheme) views_source \<Rightarrow> string \<Rightarrow> string \<Rightarrow> pagination option \<Rightarrow>
   (('st, 'x) identity_env_scheme, thrown, js_value) io" where
  "getWalletView d src username walletViewId params =
     io_bind (extractUserId d username) (\<lambda>userId.
     io_bind (wv_get src userId walletViewId username params) (\<lambda>(body, headers).
       let nextPageToken = (case map_of headers ''x-next-page'' of None \<Rightarrow> JNull | Some t \<Rightarrow> JStr t)
       in io_bind (field_of body ''aggregation'') (\<lambda>aggregation.
          io_bind (io_result (if js_truthy aggregation then normalizeAggregation aggregation else Inr (JObj 0 [])))
            (\<lambda>normalized. io_return
               (with_fields body [(''aggregation'', normalized), (''nextPageToken'', nextPageToken)])))))"

definition updateWalletView ::
  "'st token_deps \<Rightarrow> (('st, 'x) identity_env_scheme) views_source \<Rightarrow> string \<Rightarrow> string \<Rightarrow> js_value \<Rightarrow>
   (('st, 'x) identity_env_scheme, thrown, js_value) io" where
  "updateWalletView d src username walletViewId input =
     io_bind (extractUserId d username) (\<lambda>userId. wv_update src userId walletViewId input username)"

definition view_delete ::
  "'st token_deps \<Rightarrow> (('st, 'x) identity_env_scheme) views_source \<Rightarrow> string \<Rightarrow> string \<Rightarrow>
   (('st, 'x) identity_env_scheme, thrown, unit) io" where
  "view_delete d src username walletViewId =
     io_bind (extractUserId d username) (\<lambda>userId. wv_delete src userId walletViewId username)"

text \<open>What the client offers for a view that is created or updated: the answer without a next page.\<close>

definition buildViewMethods_create where
  "buildViewMethods_create d src username input =
     io_bind (view_create d src username input) (\<lambda>detail.
       io_return (with_fields detail [(''nextPageToken'', JNull)]))"

definition buildViewMethods_update where
  "buildViewMethods_update d src username walletViewId input =
     io_bind (updateWalletView d src username walletViewId input) (\<lambda>detail.
       io_return (with_fields detail [(''nextPageToken'', JNull)]))"

section \<open>Coins\<close>

definition buildSyncCoinsUrl :: "string list \<Rightarrow> string" where
  "buildSyncCoinsUrl symbolGroups =
     ''/v1/sync-coins?'' @ join_with ''&'' (map (\<lambda>sg. ''symbolGroup='' @ encodeURIComponent sg) symbolGroups)"

definition buildSearchQuery :: "string \<Rightarrow> (int option \<times> int option) option \<Rightarrow> string js_record" where
  "buildSearchQuery keyword params = (''keyword'', keyword) # (case params of None \<Rightarrow> []
     | Some (lmt, off) \<Rightarrow> query_number ''limit'' lmt @ query_number ''offset'' off)"

record 's coins_source =
  co_getCoins :: "string \<Rightarrow> int \<Rightarrow> string \<Rightarrow> ('s, thrown, js_value) io"
  co_syncCoins :: "string list \<Rightarrow> string \<Rightarrow> ('s, thrown, js_value) io"
  co_getCoinsBySymbolGroup :: "string \<Rightarrow> string \<Rightarrow> string \<Rightarrow> ('s, thrown, js_value) io"
  co_getCoinData :: "string \<Rightarrow> string \<Rightarrow> string \<Rightarrow> ('s, thrown, js_value) io"
  co_searchCoins :: "string \<Rightarrow> string \<Rightarrow> (int option \<times> int option) option \<Rightarrow> ('s, thrown, js_value) io"

definition createGetCoins where
  "createGetCoins stringify internals userId version username =
     get_json stringify internals (''/v1/users/'' @ encodeURIComponent userId @ ''/coins'')
       (Some [(''version'', int_str version)]) username"

definition createSyncCoins ::
  "(js_value \<Rightarrow> string) \<Rightarrow> ('x env_scheme) client_internals \<Rightarrow> string list \<Rightarrow> string \<Rightarrow> ('x env_scheme, thrown, js_value) io" where
  "createSyncCoins stringify internals symbolGroups username =
     body_of (client_patch stringify internals (buildSyncCoinsUrl symbolGroups)
       (Some (get_options None (username_header username))))"

definition createGetCoinsBySymbolGroup where
  "createGetCoinsBySymbolGroup stringify internals userId symbolGroup username =
     get_json stringify internals (''/v1/users/'' @ encodeURIComponent userId @ ''/coins/'' @ encodeURIComponent symbolGroup)
       None username"

definition createGetCoinData where
  "createGetCoinData stringify internals contractAddress network username =
     post_json stringify internals ''/v1/coins''
       (string_object [(''contractAddress'', contractAddress), (''network'', network)]) username"

definition createSearchCoins ::
  "(js_value \<Rightarrow> string) \<Rightarrow> ('x env_scheme) client_internals \<Rightarrow> string \<Rightarrow> string \<Rightarrow> (int option \<times> int option) option \<Rightarrow>
   ('x env_scheme, thrown, js_value) io" where
  "createSearchCoins stringify internals keyword username params =
     io_catch (get_json stringify internals ''/v2/coins'' (Some (buildSearchQuery keyword params)) username) (\<lambda>error.
       if is_parse_error error
       then io_then (emit_log LWarning ''searchCoins returned unparseable response, returning empty'' []
                       [(''keyword'', JStr keyword)]) (io_return (JArr 0 []))
       else io_throw error)"

definition createCoinsDataSource ::
  "(js_value \<Rightarrow> string) \<Rightarrow> ('x env_scheme) client_internals \<Rightarrow> ('x env_scheme) coins_source" where
  "createCoinsDataSource stringify internals =
     \<lparr>co_getCoins = createGetCoins stringify internals, co_syncCoins = createSyncCoins stringify internals,
      co_getCoinsBySymbolGroup = createGetCoinsBySymbolGroup stringify internals,
      co_getCoinData = createGetCoinData stringify internals, co_searchCoins = createSearchCoins stringify internals\<rparr>"

text \<open>
  \<^verbatim>\<open>Math.floor(coin.syncFrequency / 1_000_000)\<close>: nanoseconds become milliseconds. A number that is
  sent as a text is outside the model.
\<close>

definition floor_millions :: "js_value \<Rightarrow> js_value" where
  "floor_millions v = (case v of JNum n \<Rightarrow> JNum (n div 1000000) | JNull \<Rightarrow> JNum 0 | JBool b \<Rightarrow> JNum 0
     | _ \<Rightarrow> JUndefined)"

definition normalizeCoin :: "js_value \<Rightarrow> thrown + js_value" where
  "normalizeCoin coin =
     (if nullish coin then Inl type_error
      else Inr (with_fields coin
        [(''syncFrequency'', floor_millions (get_field coin ''syncFrequency'')),
         (''native'', or_value (get_field coin ''native'') (JBool False)),
         (''prioritized'', or_value (get_field coin ''prioritized'') (JBool False))]))"

definition normalize_coins :: "js_value \<Rightarrow> ('s, thrown, js_value) io" where
  "normalize_coins coins = io_bind (elements_of coins) (\<lambda>xs.
     io_bind (io_result (traverse normalizeCoin xs)) (\<lambda>ys. io_return (JArr 0 ys)))"

definition getCoins ::
  "'st token_deps \<Rightarrow> (('st, 'x) identity_env_scheme) coins_source \<Rightarrow> string \<Rightarrow> int \<Rightarrow>
   (('st, 'x) identity_env_scheme, thrown, js_value) io" where
  "getCoins d src username version =
     io_bind (extractUserId d username) (\<lambda>userId.
     io_bind (co_getCoins src userId version username) (\<lambda>response.
       if \<not> js_truthy response \<or> \<not> js_truthy (get_field response ''coins'')
       then io_return (JObj 0 [(''coins'', JArr 0 []), (''networks'', JArr 0 []), (''version'', JNum version)])
       else io_bind (normalize_coins (get_field response ''coins'')) (\<lambda>coins.
         io_return (JObj 0 [(''coins'', coins),
           (''networks'', or_value (get_field response ''networks'') (JArr 0 [])),
           (''version'', get_field response ''version'')]))))"

definition syncCoins ::
  "'st token_deps \<Rightarrow> (('st, 'x) identity_env_scheme) coins_source \<Rightarrow> string \<Rightarrow> string list \<Rightarrow>
   (('st, 'x) identity_env_scheme, thrown, js_value) io" where
  "syncCoins d src username symbolGroups =
     io_bind (extractUserId d username) (\<lambda>_. io_bind (co_syncCoins src symbolGroups username) normalize_coins)"

definition getCoinsBySymbolGroup ::
  "'st token_deps \<Rightarrow> (('st, 'x) identity_env_scheme) coins_source \<Rightarrow> string \<Rightarrow> string \<Rightarrow>
   (('st, 'x) identity_env_scheme, thrown, js_value) io" where
  "getCoinsBySymbolGroup d src username symbolGroup =
     io_bind (extractUserId d username) (\<lambda>userId.
       io_bind (co_getCoinsBySymbolGroup src userId symbolGroup username) normalize_coins)"

definition getCoinData :: "'s coins_source \<Rightarrow> string \<Rightarrow> string \<Rightarrow> string \<Rightarrow> ('s, thrown, js_value) io" where
  "getCoinData src username contractAddress network =
     io_bind (co_getCoinData src contractAddress network username) (\<lambda>coin. io_result (normalizeCoin coin))"

definition searchCoins ::
  "'s coins_source \<Rightarrow> string \<Rightarrow> string \<Rightarrow> (int option \<times> int option) option \<Rightarrow> ('s, thrown, js_value) io" where
  "searchCoins src username keyword params = io_bind (co_searchCoins src keyword username params) normalize_coins"

section \<open>Fees\<close>

definition estimateFees ::
  "(js_value \<Rightarrow> string) \<Rightarrow> ('x env_scheme) client_internals \<Rightarrow> string list \<Rightarrow> string \<Rightarrow>
   ('x env_scheme, thrown, js_value list) io" where
  "estimateFees stringify internals networks username =
     io_bind (get_json stringify internals ''/networks/fees'' (Some [(''network'', join_with '','' networks)]) username)
       (\<lambda>body. io_return (case body of JArr i xs \<Rightarrow> xs | _ \<Rightarrow> [body]))"

definition normalizeFeeValue :: "js_value \<Rightarrow> string" where
  "normalizeFeeValue v = (if nullish v then ''0'' else js_String v)"

definition normalizeFeeLevel :: "js_value \<Rightarrow> thrown + js_value" where
  "normalizeFeeLevel level =
     (if nullish level then Inl type_error
      else Inr (JObj 0
        [(''maxFeePerGas'', JStr (normalizeFeeValue (get_field level ''maxFeePerGas''))),
         (''maxPriorityFeePerGas'', JStr (normalizeFeeValue (get_field level ''maxPriorityFeePerGas''))),
         (''feeRate'', if get_field level ''feeRate'' = JNull then JNull
                       else JStr (normalizeFeeValue (get_field level ''feeRate''))),
         (''waitTime'', get_field level ''waitTime'')]))"

definition normalizeFee :: "js_value \<Rightarrow> thrown + js_value" where
  "normalizeFee fee =
     (if nullish fee then Inl type_error
      else (case normalizeFeeLevel (get_field fee ''fast'') of Inl e \<Rightarrow> Inl e
      | Inr fast \<Rightarrow> (case normalizeFeeLevel (get_field fee ''standard'') of Inl e \<Rightarrow> Inl e
      | Inr standard \<Rightarrow> (case normalizeFeeLevel (get_field fee ''slow'') of Inl e \<Rightarrow> Inl e
      | Inr slow \<Rightarrow> Inr (with_fields fee [(''fast'', fast), (''standard'', standard), (''slow'', slow)])))))"

definition getEstimateFees ::
  "(string list \<Rightarrow> string \<Rightarrow> ('s, thrown, js_value list) io) \<Rightarrow> string \<Rightarrow> string list \<Rightarrow> ('s, thrown, js_value) io" where
  "getEstimateFees estimate username networks =
     io_bind (estimate networks username) (\<lambda>fees.
       io_bind (io_result (traverse normalizeFee fees)) (\<lambda>ys. io_return (JArr 0 ys)))"

section \<open>Coins and views as they are returned\<close>

definition coin_ok :: "js_value \<Rightarrow> bool" where
  "coin_ok c \<longleftrightarrow> \<not> nullish (get_field c ''native'') \<and> \<not> nullish (get_field c ''prioritized'')"

lemma normalizeCoin_fields:
  "normalizeCoin c = Inr c' \<Longrightarrow>
   get_field c' ''syncFrequency'' = floor_millions (get_field c ''syncFrequency'') \<and> coin_ok c' \<and>
   get_field c' ''id'' = get_field c ''id''"
  by (auto simp: normalizeCoin_def map_of_spread_keys coin_ok_def or_value_def nullish_def split: if_splits)

text \<open>A version that the server has nothing new for is answered by empty lists and that version.\<close>

lemma no_new_coins:
  assumes "fst (extractUserId d username s) = Inr userId" "snd (extractUserId d username s) = t"
    and "fst (co_getCoins src userId version username t) = Inr JNull"
  shows "fst (getCoins d src username version s) =
    Inr (JObj 0 [(''coins'', JArr 0 []), (''networks'', JArr 0 []), (''version'', JNum version)])"
  using assms by (cases "extractUserId d username s"; cases "co_getCoins src userId version username t")
    (auto simp: getCoins_def io_simps js_truthy_def)

text \<open>
  A view that is read has every total as a text; one that was created or changed is passed on with
  what the server sent.
\<close>

lemma read_totals_are_texts:
  assumes "normalizeAggregation a = Inr b" "(k, g) \<in> set (fields_of b)"
  shows "\<exists>s. get_field g ''totalBalance'' = JStr s"
proof -
  from assms(1) obtain ys where ys: "traverse normalize_group (js_entries a) = Inr ys" "b = JObj 0 ys"
    by (cases "traverse normalize_group (js_entries a)") (auto simp: normalizeAggregation_def)
  with assms(2) have "(k, g) \<in> set ys" by (simp add: fields_of_def)
  then obtain i where i: "i < length ys" "ys ! i = (k, g)" by (auto simp: in_set_conv_nth)
  from list_all2_nthD2 [OF traverse_Inr [OF ys(1)] i(1)] i(2)
  have "normalize_group (js_entries a ! i) = Inr (k, g)" by simp
  then show ?thesis by (auto simp: normalize_group_def map_of_spread_keys split: if_splits)
qed

lemma created_view_is_not_normalised:
  assumes "fst (extractUserId d username s) = Inr userId"
    and "fst (wv_create src userId input username (snd (extractUserId d username s))) =
           Inr (JObj 1 [(''aggregation'', JObj 2 [(''ion'', JObj 3 [(''totalBalance'', JNum 5)])])])"
  shows "map_sum (\<lambda>_. ()) (\<lambda>v. get_field (get_field (get_field v ''aggregation'') ''ion'') ''totalBalance'')
      (fst (buildViewMethods_create d src username input s)) = Inr (JNum 5)"
  using assms
  by (cases "extractUserId d username s"; cases "wv_create src userId input username (snd (extractUserId d username s))")
     (auto simp: buildViewMethods_create_def view_create_def io_simps with_fields_def fields_of_def)

text \<open>A fee of one network and a list of one fee are the same answer.\<close>

lemma single_fee:
  "fst (get_json stringify internals ''/networks/fees'' (Some [(''network'', join_with '','' networks)]) username s) =
     Inr (JObj i fs) \<Longrightarrow>
   fst (estimateFees stringify internals networks username s) = Inr [JObj i fs]"
  by (cases "get_json stringify internals ''/networks/fees'' (Some [(''network'', join_with '','' networks)]) username s")
     (simp add: estimateFees_def io_simps)

definition fee_level_ok :: "js_value \<Rightarrow> bool" where
  "fee_level_ok l \<longleftrightarrow> (\<exists>a b. get_field l ''maxFeePerGas'' = JStr a \<and> get_field l ''maxPriorityFeePerGas'' = JStr b) \<and>
     (get_field l ''feeRate'' = JNull \<or> (\<exists>r. get_field l ''feeRate'' = JStr r))"

lemma normalizeFeeLevel_ok: "normalizeFeeLevel v = Inr l \<Longrightarrow> fee_level_ok l"
  by (auto simp: normalizeFeeLevel_def fee_level_ok_def split: if_splits)

lemma fees_have_their_type:
  "normalizeFee fee = Inr f \<Longrightarrow>
   fee_level_ok (get_field f ''fast'') \<and> fee_level_ok (get_field f ''standard'') \<and> fee_level_ok (get_field f ''slow'')"
  by (auto simp: normalizeFee_def map_of_spread_keys dest!: normalizeFeeLevel_ok split: if_splits sum.splits)

end
