(* ===== verification/IdentityPasskeys.thy ===== *)
theory IdentityPasskeys
  imports IdentityLogin
begin

text \<open>
  \<^verbatim>\<open>packages/identity-client/src/platform\<close>: passkeys of the native module (\<^verbatim>\<open>passkey.native.ts\<close>)
  and of the browser (\<^verbatim>\<open>passkey.web.ts\<close>). The module, the browser's \<^verbatim>\<open>navigator.credentials\<close> and the
  decoder of base64url are parameters; a buffer is a list of bytes. A challenge has passed the checks
  of \<^verbatim>\<open>validate-response.ts\<close>, so that its \<^verbatim>\<open>rp\<close> and \<^verbatim>\<open>allowCredentials\<close> are objects. The theorem says which errors
  the rest of the identity client sees.
\<close>

section \<open>The native module\<close>

text \<open>What the module rejects with: an object with a code and a message, or something else.\<close>

datatype passkey_fault = CodedFault string string | OtherFault js_error

record native_passkeys =
  np_isSupported :: bool
  np_create :: "js_value js_record \<Rightarrow> passkey_fault + passkey_registration"
  np_get :: "js_value js_record \<Rightarrow> passkey_fault + string \<times> string \<times> string \<times> string \<times> string option"

definition CANCELLATION_ERROR_CODES :: "string list" where
  "CANCELLATION_ERROR_CODES = [''UserCancelled'', ''Interrupted'']"

definition passkey_error :: "identity_error_code \<Rightarrow> string \<Rightarrow> js_error \<Rightarrow> thrown" where
  "passkey_error code msg cause = IdentityErr \<lparr>ie_code = code, ie_message = msg, ie_cause = Some cause\<rparr>"

definition mapNativePasskeyError :: "(js_error \<Rightarrow> string) \<Rightarrow> passkey_fault \<Rightarrow> ('x env_scheme, thrown, 'a) io" where
  "mapNativePasskeyError to_str fault =
     (let errorCode = (case fault of CodedFault c m \<Rightarrow> c | OtherFault e \<Rightarrow> []);
          msg = (case fault of CodedFault c m \<Rightarrow> m | OtherFault e \<Rightarrow> to_str e);
          cause = (case fault of CodedFault c m \<Rightarrow> JsErr (Some m) | OtherFault e \<Rightarrow> e)
      in io_then (emit_log LWarning ''Passkey native error'' ''identity''
                    [(''errorCode'', JStr errorCode), (''message'', JStr msg)])
         (io_throw (if errorCode \<in> set CANCELLATION_ERROR_CODES
            then passkey_error PASSKEY_CANCELLED ''Passkey operation cancelled'' cause
            else passkey_error PASSKEY_VALIDATION_FAILED ''Passkey operation failed'' cause)))"

text \<open>The fields of a request, in the order of the object; a field that is not there is \<^verbatim>\<open>undefined\<close>.\<close>

definition native_creation_request :: "js_value \<Rightarrow> js_value js_record" where
  "native_creation_request challenge =
     map (\<lambda>name. (name, get_field challenge name))
       [''challenge'', ''rp'', ''user'', ''pubKeyCredParams'', ''attestation'', ''excludeCredentials''] @
     (case get_field challenge ''authenticatorSelection'' of
        JUndefined \<Rightarrow> [] | JNull \<Rightarrow> [] | v \<Rightarrow> [(''authenticatorSelection'', v)])"

definition native_createPasskeyCredential ::
  "native_passkeys \<Rightarrow> (js_error \<Rightarrow> string) \<Rightarrow> js_value \<Rightarrow> ('x env_scheme, thrown, passkey_registration) io" where
  "native_createPasskeyCredential np to_str challenge =
     io_then (io_check (validateChallengeFormat (text_of (get_field challenge ''challenge''))))
       (case np_create np (native_creation_request challenge) of
          Inl fault \<Rightarrow> mapNativePasskeyError to_str fault
        | Inr result \<Rightarrow> io_return result)"

definition native_assertion_request :: "js_value \<Rightarrow> js_value js_record" where
  "native_assertion_request challenge =
     [(''challenge'', get_field challenge ''challenge''),
      (''rpId'', get_field (get_field challenge ''rp'') ''id''),
      (''userVerification'', get_field challenge ''userVerification'')] @
     (case get_field (get_field challenge ''allowCredentials'') ''webauthn'' of
        JUndefined \<Rightarrow> [] | JNull \<Rightarrow> [] | v \<Rightarrow> [(''allowCredentials'', v)])"

definition native_getPasskeyAssertion ::
  "native_passkeys \<Rightarrow> (js_error \<Rightarrow> string) \<Rightarrow> js_value \<Rightarrow> ('x env_scheme, thrown, passkey_assertion) io" where
  "native_getPasskeyAssertion np to_str challenge =
     io_then (io_check (validateChallengeFormat (text_of (get_field challenge ''challenge''))))
       (case np_get np (native_assertion_request challenge) of
          Inl fault \<Rightarrow> mapNativePasskeyError to_str fault
        | Inr (rawId, clientDataJSON, authenticatorData, signature, userHandle) \<Rightarrow> io_return
            \<lparr>pa_credentialId = rawId, pa_clientDataJSON = clientDataJSON, pa_authenticatorData = authenticatorData,
             pa_signature = signature, pa_userHandle = userHandle\<rparr>)"

definition native_passkeys_of :: "native_passkeys \<Rightarrow> (js_error \<Rightarrow> string) \<Rightarrow> ('x env_scheme) passkeys" where
  "native_passkeys_of np to_str =
     \<lparr>pk_isAvailable = np_isSupported np, pk_create = native_createPasskeyCredential np to_str,
      pk_get = native_getPasskeyAssertion np to_str\<rparr>"

section \<open>The browser\<close>

text \<open>A rejection is a \<^verbatim>\<open>DOMException\<close> with its name, or another error.\<close>

datatype browser_fault = DomException string | OtherBrowserFault js_error

record credential_ref =
  cd_type :: string
  cd_id :: bytes

record creation_options =
  cp_rp :: js_value
  cp_user_id :: bytes
  cp_user_name :: js_value
  cp_user_displayName :: js_value
  cp_challenge :: bytes
  cp_pubKeyCredParams :: "(string \<times> js_value) list"
  cp_excludeCredentials :: "credential_ref list"
  cp_authenticatorSelection :: "js_value option"
  cp_attestation :: js_value

record assertion_options =
  ap_challenge :: bytes
  ap_rpId :: js_value
  ap_userVerification :: js_value
  ap_allowCredentials :: "credential_ref list option"

record browser =
  br_available :: bool
  br_decode :: "string \<Rightarrow> bytes option"
  br_encode :: "bytes \<Rightarrow> string"
  br_create :: "creation_options \<Rightarrow> browser_fault + (bytes \<times> bytes \<times> bytes) option"
  br_get :: "assertion_options \<Rightarrow> browser_fault + (bytes \<times> bytes \<times> bytes \<times> bytes \<times> bytes option) option"

text \<open>
  The \<^verbatim>\<open>try\<close> of both calls: a value that cannot be decoded, or an array that is missing, throws
  inside it. \<^verbatim>\<open>text_of\<close> reads a value that is no string as the empty one, which the decoder of the
  code rejects.
\<close>

definition base64UrlToBuffer :: "browser \<Rightarrow> js_value \<Rightarrow> browser_fault + bytes" where
  "base64UrlToBuffer br v = (case v of
     JStr s \<Rightarrow> (case br_decode br s of None \<Rightarrow> Inl (OtherBrowserFault (JsErr None)) | Some bs \<Rightarrow> Inr bs)
   | _ \<Rightarrow> Inl (OtherBrowserFault (JsErr None)))"

fun each :: "('a \<Rightarrow> 'e + 'b) \<Rightarrow> 'a list \<Rightarrow> 'e + 'b list" where
  "each f [] = Inr []"
| "each f (x # xs) = (case f x of Inl e \<Rightarrow> Inl e
     | Inr y \<Rightarrow> (case each f xs of Inl e \<Rightarrow> Inl e | Inr ys \<Rightarrow> Inr (y # ys)))"

definition mapped :: "(js_value \<Rightarrow> browser_fault + 'b) \<Rightarrow> js_value \<Rightarrow> browser_fault + 'b list" where
  "mapped f v = (case v of JArr i xs \<Rightarrow> each f xs | _ \<Rightarrow> Inl (OtherBrowserFault (JsErr None)))"

definition credential_of :: "browser \<Rightarrow> js_value \<Rightarrow> browser_fault + credential_ref" where
  "credential_of br c = map_sum id (\<lambda>bs. \<lparr>cd_type = ''public-key'', cd_id = bs\<rparr>) (base64UrlToBuffer br (get_field c ''id''))"

definition sum_then :: "'e + 'a \<Rightarrow> ('a \<Rightarrow> 'e + 'b) \<Rightarrow> 'e + 'b" where
  "sum_then m f = (case m of Inl e \<Rightarrow> Inl e | Inr a \<Rightarrow> f a)"

definition buildCreationOptions :: "browser \<Rightarrow> js_value \<Rightarrow> browser_fault + creation_options" where
  "buildCreationOptions br challenge =
     (let user = get_field challenge ''user'' in
      sum_then (base64UrlToBuffer br (get_field user ''id'')) (\<lambda>userId.
      sum_then (base64UrlToBuffer br (get_field challenge ''challenge'')) (\<lambda>ch.
      sum_then (mapped (\<lambda>p. if p = JNull \<or> p = JUndefined then Inl (OtherBrowserFault (JsErr None))
          else Inr (''public-key'', get_field p ''alg'')) (get_field challenge ''pubKeyCredParams'')) (\<lambda>params.
      sum_then (mapped (credential_of br) (get_field challenge ''excludeCredentials'')) (\<lambda>excluded.
        Inr \<lparr>cp_rp = get_field challenge ''rp'', cp_user_id = userId, cp_user_name = get_field user ''name'',
             cp_user_displayName = get_field user ''displayName'', cp_challenge = ch,
             cp_pubKeyCredParams = params, cp_excludeCredentials = excluded,
             cp_authenticatorSelection = (case get_field challenge ''authenticatorSelection'' of
                JUndefined \<Rightarrow> None | JNull \<Rightarrow> None | v \<Rightarrow> Some v),
             cp_attestation = get_field challenge ''attestation''\<rparr>)))))"

definition mapPasskeyError :: "browser_fault \<Rightarrow> thrown" where
  "mapPasskeyError fault = (case fault of
     DomException name \<Rightarrow>
       if name = ''NotAllowedError''
       then passkey_error PASSKEY_CANCELLED ''Passkey operation cancelled'' (JsErr (Some name))
       else passkey_error PASSKEY_VALIDATION_FAILED ''Passkey operation failed'' (JsErr (Some name))
   | OtherBrowserFault e \<Rightarrow> passkey_error PASSKEY_VALIDATION_FAILED ''Passkey operation failed'' e)"

definition web_createPasskeyCredential :: "browser \<Rightarrow> js_value \<Rightarrow> ('s, thrown, passkey_registration) io" where
  "web_createPasskeyCredential br challenge =
     io_then (io_check (validateChallengeFormat (text_of (get_field challenge ''challenge''))))
       (case sum_then (buildCreationOptions br challenge) (br_create br) of
          Inl fault \<Rightarrow> io_throw (mapPasskeyError fault)
        | Inr None \<Rightarrow> io_throw (identity_error_of PASSKEY_NOT_AVAILABLE ''Credential creation returned null'')
        | Inr (Some (rawId, clientDataJSON, attestationObject)) \<Rightarrow> io_return
            \<lparr>pr_credentialId = br_encode br rawId, pr_clientDataJSON = br_encode br clientDataJSON,
             pr_attestationObject = br_encode br attestationObject\<rparr>)"

definition buildRequestOptions :: "browser \<Rightarrow> js_value \<Rightarrow> browser_fault + assertion_options" where
  "buildRequestOptions br challenge =
     (let webauthn = get_field (get_field challenge ''allowCredentials'') ''webauthn'' in
      sum_then (base64UrlToBuffer br (get_field challenge ''challenge'')) (\<lambda>ch.
      sum_then (case webauthn of
          JUndefined \<Rightarrow> Inr None | JNull \<Rightarrow> Inr None
        | _ \<Rightarrow> map_sum id Some (mapped (credential_of br) webauthn)) (\<lambda>allowed.
        Inr \<lparr>ap_challenge = ch, ap_rpId = get_field (get_field challenge ''rp'') ''id'',
             ap_userVerification = get_field challenge ''userVerification'', ap_allowCredentials = allowed\<rparr>)))"

definition web_getPasskeyAssertion :: "browser \<Rightarrow> js_value \<Rightarrow> ('s, thrown, passkey_assertion) io" where
  "web_getPasskeyAssertion br challenge =
     io_then (io_check (validateChallengeFormat (text_of (get_field challenge ''challenge''))))
       (case sum_then (buildRequestOptions br challenge) (br_get br) of
          Inl fault \<Rightarrow> io_throw (mapPasskeyError fault)
        | Inr None \<Rightarrow> io_throw (identity_error_of PASSKEY_NOT_AVAILABLE ''Credential request returned null'')
        | Inr (Some (rawId, clientDataJSON, authenticatorData, signature, userHandle)) \<Rightarrow> io_return
            \<lparr>pa_credentialId = br_encode br rawId, pa_clientDataJSON = br_encode br clientDataJSON,
             pa_authenticatorData = br_encode br authenticatorData, pa_signature = br_encode br signature,
             pa_userHandle = map_option (br_encode br) userHandle\<rparr>)"

definition web_passkeys_of :: "browser \<Rightarrow> 's passkeys" where
  "web_passkeys_of br =
     \<lparr>pk_isAvailable = br_available br, pk_create = web_createPasskeyCredential br,
      pk_get = web_getPasskeyAssertion br\<rparr>"

section \<open>What a failed passkey looks like\<close>

text \<open>
  An error a passkey may end in: the challenge was refused, there is no passkey, the user cancelled
  or the operation failed.
\<close>

definition passkey_failure :: "thrown \<Rightarrow> bool" where
  "passkey_failure e = (case e of
     IdentityErr ie \<Rightarrow> ie_code ie \<in> {UNKNOWN, PASSKEY_NOT_AVAILABLE, PASSKEY_CANCELLED, PASSKEY_VALIDATION_FAILED}
   | OtherErr _ \<Rightarrow> False)"

definition fails_well :: "('s, thrown, 'a) io \<Rightarrow> bool" where
  "fails_well m \<longleftrightarrow> (\<forall>s. case fst (m s) of Inl e \<Rightarrow> passkey_failure e | Inr _ \<Rightarrow> True)"

lemma fails_well_check: "fails_well (io_then (io_check (validateChallengeFormat ch)) m) \<longleftrightarrow>
    (validateChallengeFormat ch = Inr () \<longrightarrow> fails_well m)"
  by (auto simp: fails_well_def io_simps validateChallengeFormat_def refuse_def passed_def passkey_failure_def
      identity_error_of_def Let_def)

lemma fails_well_return: "fails_well (io_return a)"
  by (simp add: fails_well_def io_simps)

lemma fails_well_throw: "passkey_failure e \<Longrightarrow> fails_well (io_throw e)"
  by (simp add: fails_well_def io_simps)

lemma fails_well_native: "fails_well (mapNativePasskeyError to_str fault)"
  by (simp add: mapNativePasskeyError_def Let_def fails_well_def io_simps passkey_error_def passkey_failure_def)

lemma passkey_failure_web: "passkey_failure (mapPasskeyError fault)"
  by (auto simp: mapPasskeyError_def passkey_failure_def passkey_error_def split: browser_fault.splits)


text \<open>
  A challenge of three parts is let through by the check and used by the native module; the browser
  cannot decode it. A registration challenge without \<^verbatim>\<open>excludeCredentials\<close>, which the check of
  answers lets through, fails in the browser and not in the native module.
\<close>

lemma dotted_challenge_fails_in_the_browser:
  assumes "br_decode br ''aaaaaa.bbbbbb.cccccc'' = None"
    and "get_field challenge ''challenge'' = JStr ''aaaaaa.bbbbbb.cccccc''"
    and "np_get np (native_assertion_request challenge) = Inr (i, c, a, g, h)"
  shows "validateChallengeFormat ''aaaaaa.bbbbbb.cccccc'' = Inr ()"
    and "isl (fst (pk_get (web_passkeys_of br) challenge s))"
    and "\<not> isl (fst (pk_get (native_passkeys_of np to_str) challenge t))"
proof -
  show v: "validateChallengeFormat ''aaaaaa.bbbbbb.cccccc'' = Inr ()" by code_simp
  show "isl (fst (pk_get (web_passkeys_of br) challenge s))"
    using v assms(1,2)
    by (simp add: web_passkeys_of_def web_getPasskeyAssertion_def io_simps buildRequestOptions_def base64UrlToBuffer_def
        sum_then_def Let_def)
  show "\<not> isl (fst (pk_get (native_passkeys_of np to_str) challenge t))"
    using v assms(2,3) by (simp add: native_passkeys_of_def native_getPasskeyAssertion_def io_simps)
qed

lemma missing_exclusions_fail_in_the_browser:
  assumes "get_field challenge ''excludeCredentials'' = JUndefined"
  shows "isl (fst (pk_create (web_passkeys_of br) challenge s))"
  using assms
  by (auto simp: web_passkeys_of_def web_createPasskeyCredential_def io_simps buildCreationOptions_def mapped_def
      sum_then_def Let_def split: sum.splits)

end
