(* ===== verification/IdentityTypes.thy ===== *)
theory IdentityTypes
  imports IdentityViews
begin

text \<open>
  The types that \<^verbatim>\<open>packages/identity-client\<close> declares for what goes over the wire
  (\<^verbatim>\<open>auth-types.ts\<close>, \<^verbatim>\<open>wallets/*-types.ts\<close>, \<^verbatim>\<open>coins/types.ts\<close>,
  \<^verbatim>\<open>keys/types.ts\<close>), as values of a type of types, and whether a JSON value conforms to one. TypeScript does
  not check an answer of the server against its type; the lemmas say where the checks and the normalisations
  of the code make sure of it, and where they do not. Optional fields may be absent or \<^verbatim>\<open>undefined\<close>;
  numbers are the integers of the JSON model.
\<close>

section \<open>Types\<close>

datatype ts_type =
    TString
  | TNumber
  | TBool
  | TNull
  | TUnknown
  | TLit string
  | TArray ts_type
  | TDict ts_type
  | TObject "ts_field list"
  | TUnion "ts_type list"
and ts_field = Field string bool ts_type

fun conforms :: "ts_type \<Rightarrow> js_value \<Rightarrow> bool" and conforms_field :: "ts_field \<Rightarrow> js_value \<Rightarrow> bool" where
  "conforms TString v = (case v of JStr s \<Rightarrow> True | _ \<Rightarrow> False)"
| "conforms TNumber v = (case v of JNum n \<Rightarrow> True | _ \<Rightarrow> False)"
| "conforms TBool v = (case v of JBool b \<Rightarrow> True | _ \<Rightarrow> False)"
| "conforms TNull v = (v = JNull)"
| "conforms TUnknown v = True"
| "conforms (TLit s) v = (v = JStr s)"
| "conforms (TArray t) v = (case v of JArr i xs \<Rightarrow> list_all (conforms t) xs | _ \<Rightarrow> False)"
| "conforms (TDict t) v = (case v of JObj i fs \<Rightarrow> list_all (\<lambda>x. conforms t (snd x)) fs | _ \<Rightarrow> False)"
| "conforms (TObject fds) v =
     (case v of JObj i fs \<Rightarrow> list_all (\<lambda>f. conforms_field f v) fds | _ \<Rightarrow> False)"
| "conforms (TUnion ts) v = list_ex (\<lambda>t. conforms t v) ts"
| "conforms_field (Field name optional t) v =
     ((optional \<and> get_field v name = JUndefined) \<or> conforms t (get_field v name))"

abbreviation req :: "string \<Rightarrow> ts_type \<Rightarrow> ts_field" where "req name t \<equiv> Field name False t"
abbreviation opt :: "string \<Rightarrow> ts_type \<Rightarrow> ts_field" where "opt name t \<equiv> Field name True t"
abbreviation nullable :: "ts_type \<Rightarrow> ts_type" where "nullable t \<equiv> TUnion [t, TNull]"

lemma conforms_string: "conforms TString v \<longleftrightarrow> (\<exists>s. v = JStr s)"
  by (cases v) simp_all

lemma conforms_object:
  "conforms (TObject fds) v \<longleftrightarrow> (\<exists>i fs. v = JObj i fs) \<and> list_all (\<lambda>f. conforms_field f v) fds"
  by (cases v) simp_all

lemma conforms_number: "conforms TNumber v \<longleftrightarrow> (\<exists>n. v = JNum n)"
  by (cases v) simp_all

lemma conforms_bool: "conforms TBool v \<longleftrightarrow> (\<exists>b. v = JBool b)"
  by (cases v) simp_all

declare conforms.simps(1-3,9) [simp del]
declare conforms_string [simp] conforms_number [simp] conforms_bool [simp] conforms_object [simp]

subsection \<open>Sessions and credentials\<close>

definition AuthTokens :: ts_type where
  "AuthTokens = TObject [req ''token'' TString, req ''refreshToken'' TString]"

definition RelyingParty :: ts_type where
  "RelyingParty = TObject [req ''id'' TString, req ''name'' TString]"

definition UserInformation :: ts_type where
  "UserInformation = TObject [req ''id'' TString, req ''name'' TString, req ''displayName'' TString]"

definition PublicKeyCredentialParam :: ts_type where
  "PublicKeyCredentialParam = TObject [req ''type'' TString, req ''alg'' TNumber]"

definition CredentialDescriptor :: ts_type where
  "CredentialDescriptor = TObject [req ''type'' TString, req ''id'' TString, opt ''encryptedPrivateKey'' TString]"

definition AuthenticatorSelectionCriteria :: ts_type where
  "AuthenticatorSelectionCriteria =
     TObject [opt ''authenticatorAttachment'' TString, opt ''residentKey'' TString,
       opt ''requireResidentKey'' TBool, opt ''userVerification'' TString]"

definition SupportedCredentialKinds :: ts_type where
  "SupportedCredentialKinds = TObject [req ''firstFactor'' (TArray TString), req ''secondFactor'' (TArray TString)]"

definition SupportedCredentialKind :: ts_type where
  "SupportedCredentialKind =
     TObject [req ''kind'' TString, req ''factor'' TString, req ''requiresSecondFactor'' TBool]"

definition AllowCredentials :: ts_type where
  "AllowCredentials =
     TObject [req ''webauthn'' (nullable (TArray CredentialDescriptor)),
       req ''passwordProtectedKey'' (nullable (TArray CredentialDescriptor))]"

definition AllowedRecoveryCredential :: ts_type where
  "AllowedRecoveryCredential = TObject [req ''id'' TString, req ''encryptedRecoveryKey'' TString]"

definition UserRegistrationChallenge :: ts_type where
  "UserRegistrationChallenge =
     TObject [req ''temporaryAuthenticationToken'' (nullable TString), req ''rp'' RelyingParty,
       req ''user'' UserInformation, req ''challenge'' TString, req ''challengeIdentifier'' TString,
       req ''attestation'' TString, req ''pubKeyCredParams'' (TArray PublicKeyCredentialParam),
       req ''excludeCredentials'' (TArray CredentialDescriptor),
       req ''authenticatorSelection'' (nullable AuthenticatorSelectionCriteria),
       req ''supportedCredentialKinds'' (nullable SupportedCredentialKinds),
       req ''allowedRecoveryCredentials'' (nullable (TArray AllowedRecoveryCredential))]"

definition UserActionChallenge :: ts_type where
  "UserActionChallenge =
     TObject [req ''challenge'' TString, req ''challengeIdentifier'' TString, req ''rp'' RelyingParty,
       req ''allowCredentials'' AllowCredentials,
       req ''supportedCredentialKinds'' (TArray SupportedCredentialKind), req ''attestation'' TString,
       req ''userVerification'' TString, req ''externalAuthenticationUrl'' TString]"

definition RegistrationResult :: ts_type where
  "RegistrationResult = TObject [req ''authentication'' AuthTokens, req ''user'' (TObject [req ''id'' TString])]"

definition RecoveryResult :: ts_type where
  "RecoveryResult =
     TObject [req ''credential'' (TObject [req ''uuid'' TString, req ''kind'' TString, req ''name'' TString]),
       req ''user'' (TObject [req ''id'' TString])]"

definition TwoFAOption :: ts_type where
  "TwoFAOption = TUnion [TLit ''sms'', TLit ''email'', TLit ''totp_authenticator'']"

definition CredentialListItem :: ts_type where
  "CredentialListItem = TObject [req ''uuid'' (nullable TString), req ''kind'' TString, req ''name'' TString]"

definition RequestTwoFAInput :: ts_type where
  "RequestTwoFAInput =
     TObject [opt ''2FAVerificationCodes'' (TDict TString), opt ''email'' TString, opt ''phoneNumber'' TString,
       opt ''replace'' TString]"

definition TwoFAVerificationParam :: ts_type where
  "TwoFAVerificationParam =
     TObject [req ''twoFAOptionVerificationValue'' TString, req ''twoFAOptionVerificationCode'' TString]"

definition UserAssignedRelay :: ts_type where
  "UserAssignedRelay = TObject [req ''type'' TString, req ''url'' TString]"

definition User :: ts_type where
  "User =
     TObject [req ''2faOptions'' (nullable (TArray TwoFAOption)), req ''duplicateOf'' (nullable TString),
       req ''email'' (nullable (TArray TString)), req ''ionConnectIndexerRelays'' (nullable (TArray TString)),
       req ''ionConnectRelays'' (nullable (TArray UserAssignedRelay)), req ''masterPubKey'' TString,
       req ''phoneNumber'' (nullable (TArray TString))]"

text \<open>
  An answer that passed its check has the type that is declared for it, for the tokens, the result of a
  registration and that of a recovery.
\<close>

theorem checked_results_have_their_type:
  "(validateAuthTokensResponse v = Inr () \<longrightarrow> conforms AuthTokens v) \<and>
   (validateRegistrationResultResponse v = Inr () \<longrightarrow> conforms RegistrationResult v) \<and>
   (validateRecoveryResultResponse v = Inr () \<longrightarrow> conforms RecoveryResult v)"
proof -
  have object: "\<exists>i fs. v = JObj i fs" if "get_field v n = JStr s" for v n s
    using that by (cases v) simp_all
  have inner: "\<exists>i fs. v = JObj i fs" if "isNonNullObject (get_field v n)" for v n
    using that by (cases v) simp_all
  show ?thesis
    by (auto simp: validateAuthTokensResponse_def AuthTokens_def validateRegistrationResultResponse_def
        RegistrationResult_def validateRecoveryResultResponse_def RecoveryResult_def dest: object inner)
qed

definition tokens_answer :: js_value where
  "tokens_answer = JObj 0 [(''token'', JStr ''t''), (''refreshToken'', JStr ''r'')]"

theorem checked_results_have_their_type_witness:
  "conforms AuthTokens tokens_answer \<and> conforms RegistrationResult (JObj 1 [(''authentication'', tokens_answer),
     (''user'', JObj 2 [(''id'', JStr ''u'')])])"
  using checked_results_have_their_type [of tokens_answer]
    checked_results_have_their_type [of "JObj 1 [(''authentication'', tokens_answer), (''user'', JObj 2 [(''id'', JStr ''u'')])]"]
  by (simp add: validateAuthTokensResponse_def validateRegistrationResultResponse_def tokens_answer_def)

text \<open>
  The checks of the two challenges look at a part of what is declared, and not into the lists.
\<close>

lemma checked_action_challenge_may_lack_its_type:
  "let v = JObj 0 [(''challenge'', JStr ''c''), (''challengeIdentifier'', JStr ''i''),
       (''rp'', JObj 1 [(''id'', JStr ''r''), (''name'', JStr ''n'')]), (''allowCredentials'', JObj 2 [])]
   in validateActionChallengeResponse v = Inr () \<and> \<not> conforms UserActionChallenge v \<and>
      \<not> conforms AllowCredentials (get_field v ''allowCredentials'')"
  by (simp add: validateActionChallengeResponse_def assertRelyingParty_def UserActionChallenge_def AllowCredentials_def)

lemma checked_registration_challenge_may_lack_its_type:
  "let v = JObj 0 [(''challenge'', JStr ''c''), (''rp'', JObj 1 [(''id'', JStr ''r''), (''name'', JStr ''n'')]),
       (''user'', JObj 2 [(''id'', JStr ''u''), (''name'', JStr ''m'')])]
   in validateRegistrationChallengeResponse v = Inr () \<and> \<not> conforms UserRegistrationChallenge v \<and>
      get_field v ''pubKeyCredParams'' = JUndefined"
  by (simp add: validateRegistrationChallengeResponse_def assertRelyingParty_def UserRegistrationChallenge_def)

section \<open>Wallets\<close>

definition WalletSigningKey :: ts_type where
  "WalletSigningKey = TObject [req ''scheme'' TString, req ''curve'' TString, req ''publicKey'' TString, req ''id'' TString]"

definition Wallet :: ts_type where
  "Wallet =
     TObject [req ''id'' TString, req ''network'' TString, req ''status'' (nullable TString),
       req ''signingKey'' WalletSigningKey, req ''address'' (nullable TString), req ''name'' (nullable TString)]"

definition CreateWalletInput :: ts_type where
  "CreateWalletInput = TObject [req ''network'' TString, req ''name'' TString]"

definition WalletNft :: ts_type where
  "WalletNft =
     TObject [req ''kind'' TString, req ''contract'' TString, req ''symbol'' TString, req ''tokenId'' TString,
       req ''tokenUri'' TString, req ''description'' TString, req ''name'' TString, req ''network'' TString,
       req ''collectionImageUri'' TString, req ''walletId'' (nullable TString)]"

definition history_asset :: ts_type where
  "history_asset = TObject [req ''symbol'' TString, req ''decimals'' TNumber, req ''verified'' TBool]"

definition WalletHistoryItem :: ts_type where
  "WalletHistoryItem =
     TObject [req ''walletId'' TString, req ''network'' TString, req ''kind'' TString, req ''direction'' TString,
       req ''blockNumber'' TNumber, req ''timestamp'' TString, req ''txHash'' TString,
       req ''from'' (nullable TString), req ''to'' (nullable TString), req ''value'' (nullable TString),
       req ''fee'' (nullable TString),
       req ''metadata'' (TObject [req ''asset'' history_asset, req ''fee'' history_asset])]"

subsection \<open>Assets\<close>

text \<open>The fields of an asset of a known kind besides \<^verbatim>\<open>kind\<close>, \<^verbatim>\<open>decimals\<close> and \<^verbatim>\<open>balance\<close>.\<close>

definition asset_fields :: "(string \<times> ts_field list) list" where
  "asset_fields =
     [(''Native'', [opt ''symbol'' TString, opt ''contract'' TString, opt ''verified'' TBool, opt ''name'' TString]),
      (''Erc20'', [opt ''symbol'' TString, opt ''contract'' TString, opt ''verified'' TBool, opt ''name'' TString]),
      (''Asa'', [req ''assetId'' TString, req ''verified'' TBool, opt ''symbol'' TString, opt ''name'' TString]),
      (''Spl'', [req ''mint'' TString, opt ''symbol'' TString, opt ''name'' TString]),
      (''Spl2022'', [req ''mint'' TString, req ''symbol'' TString, opt ''name'' TString]),
      (''Sep41'', [req ''issuer'' TString, req ''assetCode'' TString, req ''symbol'' TString, opt ''name'' TString]),
      (''Tep74'', [req ''symbol'' TString, opt ''name'' TString, opt ''master'' TString]),
      (''Trc10'', [req ''tokenId'' TString, req ''symbol'' TString, opt ''name'' TString]),
      (''Trc20'', [req ''contract'' TString, req ''symbol'' TString, opt ''name'' TString]),
      (''Aip21'', [req ''metadata'' TString, req ''symbol'' TString, opt ''name'' TString])]"

definition unknown_fields :: "ts_field list" where
  "unknown_fields =
     [opt ''symbol'' TString, opt ''contract'' TString, opt ''master'' TString, opt ''name'' TString,
      opt ''assetId'' TString, opt ''mint'' TString, opt ''tokenId'' TString, opt ''verified'' TBool]"

definition WalletAssetBase :: "ts_field list" where
  "WalletAssetBase = [req ''decimals'' TNumber, req ''balance'' TString]"

definition asset_type :: "string \<times> ts_field list \<Rightarrow> ts_type" where
  "asset_type kf = TObject (req ''kind'' (TLit (fst kf)) # WalletAssetBase @ snd kf)"

definition UnknownAsset :: ts_type where
  "UnknownAsset = TObject (req ''kind'' (TLit ''Unknown'') # WalletAssetBase @ req ''rawKind'' TString # unknown_fields)"

definition WalletAsset :: ts_type where
  "WalletAsset = TUnion (map asset_type asset_fields @ [UnknownAsset])"

text \<open>
  What the server may send: an asset whose balance is anything, of a known kind with its fields, or of another
  kind with any of the fields.
\<close>

definition raw_asset :: ts_type where
  "raw_asset =
     TUnion (map (\<lambda>(k, fds). TObject (req ''kind'' (TLit k) # req ''decimals'' TNumber # fds)) asset_fields)"

definition raw_unknown_asset :: ts_type where
  "raw_unknown_asset = TObject (req ''kind'' TString # req ''decimals'' TNumber # unknown_fields)"

lemma conforms_field_cong:
  "get_field v n = get_field w n \<Longrightarrow> conforms_field (Field n b t) v = conforms_field (Field n b t) w"
  by simp

lemma other_fields_conform:
  assumes "list_all (\<lambda>f. conforms_field f v) fds"
    and "\<forall>f \<in> set fds. case f of Field n b t \<Rightarrow> get_field w n = get_field v n"
  shows "list_all (\<lambda>f. conforms_field f w) fds"
  using assms by (auto simp: list_all_iff split: ts_field.splits) (metis (full_types) conforms_field_cong ts_field.exhaust)

lemma asset_kinds: "map fst asset_fields = KNOWN_ASSET_KINDS"
  by (simp add: asset_fields_def KNOWN_ASSET_KINDS_def)

definition field_names :: "ts_field list \<Rightarrow> string list" where
  "field_names fds = map (\<lambda>f. case f of Field n b t \<Rightarrow> n) fds"

lemma asset_fields_keep_out:
  "(k, fds) \<in> set asset_fields \<Longrightarrow> \<forall>f \<in> set fds. case f of Field n b t \<Rightarrow> n \<notin> {''kind'', ''balance'', ''rawKind''}"
  "\<forall>f \<in> set unknown_fields. case f of Field n b t \<Rightarrow> n \<notin> {''kind'', ''balance'', ''rawKind''}"
  by (auto simp: asset_fields_def unknown_fields_def)

lemma known_asset_has_its_type:
  assumes "conforms raw_asset v" "normalizeAssetBalance v = Inr w"
  shows "conforms WalletAsset w"
proof -
  from assms(1) obtain k fds where k: "(k, fds) \<in> set asset_fields" "get_field v ''kind'' = JStr k"
    "\<exists>n. get_field v ''decimals'' = JNum n" "list_all (\<lambda>f. conforms_field f v) fds"
    by (auto simp: raw_asset_def list_ex_iff)
  from k(1) have "k \<in> set KNOWN_ASSET_KINDS" unfolding asset_kinds [symmetric] by force
  with assms(2) k(2) have w: "w = with_fields v [(''balance'', JStr (js_String (get_field v ''balance'')))]"
    by (auto simp: normalizeAssetBalance_def normalizeAssetKind_def split: if_splits)
  have "list_all (\<lambda>f. conforms_field f w) fds"
    using k(4) asset_fields_keep_out(1) [OF k(1)]
    by (rule_tac other_fields_conform) (auto simp: w map_of_spread_keys split: ts_field.splits)
  with k have "conforms (asset_type (k, fds)) w"
    by (simp add: asset_type_def WalletAssetBase_def w map_of_spread_keys) (simp add: with_fields_def)
  with k(1) show ?thesis unfolding WalletAsset_def by (force simp: list_ex_iff simp del: conforms_object)
qed

lemma unknown_asset_has_its_type:
  assumes "conforms raw_unknown_asset v" "get_field v ''kind'' \<notin> JStr ` set KNOWN_ASSET_KINDS"
    "normalizeAssetBalance v = Inr w"
  shows "conforms WalletAsset w"
proof -
  from assms(1) obtain k n where k: "get_field v ''kind'' = JStr k" "get_field v ''decimals'' = JNum n"
    "list_all (\<lambda>f. conforms_field f v) unknown_fields"
    by (auto simp: raw_unknown_asset_def)
  let ?u = "with_fields v [(''rawKind'', JStr k), (''kind'', JStr ''Unknown'')]"
  from assms(2,3) k(1) have w: "w = with_fields ?u [(''balance'', JStr (js_String (get_field v ''balance'')))]"
    by (auto simp: normalizeAssetBalance_def normalizeAssetKind_def split: if_splits)
  have "list_all (\<lambda>f. conforms_field f w) unknown_fields"
    using k(3) asset_fields_keep_out(2)
    by (rule_tac other_fields_conform) (auto simp: w map_of_spread_keys split: ts_field.splits)
  with k have "conforms UnknownAsset w"
    by (simp add: UnknownAsset_def WalletAssetBase_def w map_of_spread_keys) (simp add: with_fields_def)
  then show ?thesis by (simp add: WalletAsset_def list_ex_iff del: conforms_object)
qed

text \<open>
  An asset of the server with its decimals and the fields of its kind comes out with the type that is declared,
  whatever its balance is, also when its kind is one that the client does not know.
\<close>

theorem normalised_assets_have_their_type:
  assumes "conforms raw_asset v \<or> (conforms raw_unknown_asset v \<and> get_field v ''kind'' \<notin> JStr ` set KNOWN_ASSET_KINDS)"
    "normalizeAssetBalance v = Inr w"
  shows "conforms WalletAsset w"
  using assms known_asset_has_its_type unknown_asset_has_its_type by blast

theorem normalised_assets_have_their_type_witness:
  "conforms WalletAsset (with_fields (with_fields
     (JObj 0 [(''kind'', JStr ''Brc20''), (''decimals'', JNum 8), (''balance'', JNull)])
     [(''rawKind'', JStr ''Brc20''), (''kind'', JStr ''Unknown'')]) [(''balance'', JStr ''null'')])"
  by (rule normalised_assets_have_their_type [of "JObj 0 [(''kind'', JStr ''Brc20''), (''decimals'', JNum 8), (''balance'', JNull)]"])
    (simp_all add: raw_unknown_asset_def unknown_fields_def KNOWN_ASSET_KINDS_def image_iff normalizeAssetBalance_def
      normalizeAssetKind_def nullish_def)

lemma known_kind_without_its_field:
  "let v = JObj 0 [(''kind'', JStr ''Asa''), (''decimals'', JNum 6), (''balance'', JStr ''1'')];
       w = with_fields v [(''balance'', JStr ''1'')]
   in normalizeAssetBalance v = Inr w \<and> \<not> conforms WalletAsset w"
  by (simp add: normalizeAssetBalance_def normalizeAssetKind_def nullish_def KNOWN_ASSET_KINDS_def WalletAsset_def
      asset_fields_def asset_type_def WalletAssetBase_def UnknownAsset_def map_of_spread_keys)

section \<open>Views\<close>

definition WalletViewCoinRef :: ts_type where
  "WalletViewCoinRef = TObject [req ''coinId'' TString, req ''walletId'' (nullable TString)]"

definition WalletViewSummary :: ts_type where
  "WalletViewSummary =
     TObject [req ''id'' TString, req ''name'' TString, req ''coins'' (TArray WalletViewCoinRef),
       req ''symbolGroups'' (TArray TString), req ''createdAt'' TString, req ''updatedAt'' TString,
       req ''userId'' TString]"

definition WalletViewInput :: ts_type where
  "WalletViewInput =
     TObject [req ''name'' TString, req ''items'' (TArray WalletViewCoinRef), req ''symbolGroups'' (TArray TString)]"

definition WalletViewCoin :: ts_type where
  "WalletViewCoin =
     TObject [req ''walletId'' (nullable TString), req ''id'' TString, req ''name'' TString, req ''symbol'' TString,
       req ''symbolGroup'' TString, req ''network'' TString, req ''contractAddress'' TString,
       req ''decimals'' TNumber, req ''priceUSD'' TString, req ''iconURL'' TString, req ''syncFrequency'' TNumber,
       req ''native'' TBool, req ''prioritized'' TBool]"

definition WalletViewAggregationWallet :: ts_type where
  "WalletViewAggregationWallet =
     TObject [req ''asset'' WalletAsset, req ''walletId'' TString, req ''network'' TString,
       req ''coinId'' (nullable TString)]"

definition SymbolGroupBalance :: ts_type where
  "SymbolGroupBalance =
     TObject [req ''wallets'' (TArray WalletViewAggregationWallet), req ''totalBalance'' TString]"

definition WalletViewDetail :: ts_type where
  "WalletViewDetail =
     TObject [req ''id'' TString, req ''name'' TString, req ''coins'' (TArray WalletViewCoin),
       req ''aggregation'' (TDict SymbolGroupBalance), req ''symbolGroups'' (TArray TString),
       req ''createdAt'' TString, req ''updatedAt'' TString, req ''userId'' TString,
       req ''nfts'' (nullable (TArray WalletNft))]"

definition FeeLevel :: ts_type where
  "FeeLevel =
     TObject [req ''maxFeePerGas'' TString, req ''maxPriorityFeePerGas'' TString, req ''feeRate'' (nullable TString),
       req ''waitTime'' TNumber]"

definition EstimateFee :: ts_type where
  "EstimateFee =
     TObject [req ''network'' TString, req ''estimatedBaseFee'' TString, req ''kind'' (nullable TString),
       req ''fast'' FeeLevel, req ''standard'' FeeLevel, req ''slow'' FeeLevel]"

definition PaginationParams :: ts_type where
  "PaginationParams = TObject [opt ''limit'' TNumber, opt ''paginationToken'' TString]"

text \<open>A fee whose levels say how long to wait; the prices in them may be anything.\<close>

definition raw_level :: ts_type where
  "raw_level = TObject [req ''waitTime'' TNumber]"

definition raw_fee :: ts_type where
  "raw_fee =
     TObject [req ''network'' TString, req ''estimatedBaseFee'' TString, req ''kind'' (nullable TString),
       req ''fast'' raw_level, req ''standard'' raw_level, req ''slow'' raw_level]"

lemma normalised_level_has_its_type:
  "conforms raw_level v \<Longrightarrow> normalizeFeeLevel v = Inr l \<Longrightarrow> conforms FeeLevel l"
  by (auto simp: raw_level_def FeeLevel_def normalizeFeeLevel_def split: if_splits)

lemma normalised_fees_have_their_type:
  assumes "conforms raw_fee v" "normalizeFee v = Inr f"
  shows "conforms EstimateFee f"
proof -
  obtain a b c where l: "normalizeFeeLevel (get_field v ''fast'') = Inr a"
    "normalizeFeeLevel (get_field v ''standard'') = Inr b" "normalizeFeeLevel (get_field v ''slow'') = Inr c"
    and f: "f = with_fields v [(''fast'', a), (''standard'', b), (''slow'', c)]"
    using assms(2) by (auto simp: normalizeFee_def split: if_splits sum.splits)
  have "conforms FeeLevel a" "conforms FeeLevel b" "conforms FeeLevel c"
    using l assms(1) by (auto simp: raw_fee_def simp del: conforms_object intro: normalised_level_has_its_type)
      (auto simp: conforms_object intro: normalised_level_has_its_type)
  with assms(1) show ?thesis
    by (auto simp: raw_fee_def EstimateFee_def f map_of_spread_keys raw_level_def) (auto simp: with_fields_def)
qed

section \<open>Transfers and signatures\<close>

definition Requester :: ts_type where
  "Requester = TObject [req ''userId'' TString, req ''tokenId'' (nullable TString), req ''appId'' (nullable TString)]"

definition WalletTransferRequest :: ts_type where
  "WalletTransferRequest =
     TObject [req ''id'' TString, req ''walletId'' TString, req ''network'' TString, req ''requester'' Requester,
       req ''requestBody'' (TDict TUnknown),
       req ''status'' (TUnion [TLit ''Pending'', TLit ''Broadcasted'', TLit ''Confirmed'', TLit ''Failed'']),
       req ''dateRequested'' TString, req ''txHash'' (nullable TString), req ''fee'' (nullable TString),
       req ''dateBroadcasted'' (nullable TString), req ''dateConfirmed'' (nullable TString),
       req ''reason'' (nullable TString), req ''metadata'' (nullable (TDict TUnknown))]"

definition TransferPriority :: ts_type where
  "TransferPriority = TUnion [TLit ''Slow'', TLit ''Standard'', TLit ''Fast'']"

definition transfer_kinds :: "(string \<times> ts_field list) list" where
  "transfer_kinds =
     [(''Native'', [req ''to'' TString, req ''amount'' TString, opt ''priority'' TransferPriority, opt ''memo'' TString, opt ''createDestinationAccount'' TBool]),
      (''Erc20'', [req ''contract'' TString, req ''to'' TString, req ''amount'' TString, opt ''priority'' TransferPriority]),
      (''Erc721'', [req ''contract'' TString, req ''to'' TString, req ''tokenId'' TString, opt ''priority'' TransferPriority]),
      (''Asa'', [req ''assetId'' TString, req ''to'' TString, req ''amount'' TString]),
      (''Spl'', [req ''mint'' TString, req ''to'' TString, req ''amount'' TString, opt ''createDestinationAccount'' TBool]),
      (''Spl2022'', [req ''mint'' TString, req ''to'' TString, req ''amount'' TString, opt ''createDestinationAccount'' TBool]),
      (''Sep41'', [req ''issuer'' TString, req ''assetCode'' TString, req ''to'' TString, req ''amount'' TString, opt ''memo'' TString, opt ''createDestinationAccount'' TBool]),
      (''Tep74'', [req ''to'' TString, req ''amount'' TString, opt ''master'' TString]),
      (''Trc10'', [req ''tokenId'' TString, req ''to'' TString, req ''amount'' TString]),
      (''Trc20'', [req ''contract'' TString, req ''to'' TString, req ''amount'' TString]),
      (''Trc721'', [req ''contract'' TString, req ''to'' TString, req ''tokenId'' TString]),
      (''Aip21'', [req ''metadata'' TString, req ''to'' TString, req ''amount'' TString]),
      (''Eip1559'', [req ''to'' TString, req ''data'' TString, req ''value'' TString, req ''maxFeePerGas'' TString, req ''maxPriorityFeePerGas'' TString])]"

definition TransferRequest :: ts_type where
  "TransferRequest = TUnion (map (\<lambda>(k, fds). TObject (req ''kind'' (TLit k) # fds)) transfer_kinds)"

definition EvmAuthorizationEntry :: ts_type where
  "EvmAuthorizationEntry =
     TObject [req ''chainId'' TNumber, req ''address'' TString, req ''nonce'' TNumber, req ''signature'' TString]"

definition EvmTransactionJson :: ts_type where
  "EvmTransactionJson =
     TObject [req ''to'' TString, req ''type'' TNumber, req ''value'' TString, req ''data'' TString,
       req ''nonce'' TNumber, req ''gasLimit'' TString, req ''maxFeePerGas'' TString,
       req ''maxPriorityFeePerGas'' TString, opt ''authorizationList'' (TArray EvmAuthorizationEntry)]"

definition EvmUserOperation :: ts_type where
  "EvmUserOperation = TObject [req ''to'' TString, req ''value'' TString, req ''data'' TString]"

definition EvmBroadcastRequest :: ts_type where
  "EvmBroadcastRequest =
     TUnion [TObject [req ''kind'' (TLit ''Transaction''), req ''transaction'' (TUnion [TString, EvmTransactionJson]), opt ''externalId'' TString],
       TObject [req ''kind'' (TLit ''UserOperations''), req ''userOperations'' (TArray EvmUserOperation), req ''feeSponsorId'' TString]]"

definition GenerateSignatureRequest :: ts_type where
  "GenerateSignatureRequest =
     TUnion [TObject [req ''kind'' (TLit ''Hash''), req ''hash'' TString, opt ''externalId'' TString],
       TObject [req ''kind'' (TLit ''Message''), req ''message'' TString, opt ''externalId'' TString]]"

definition GenerateSignatureResponse :: ts_type where
  "GenerateSignatureResponse =
     TObject [req ''id'' TString, req ''keyId'' TString, req ''requester'' Requester,
       req ''requestBody'' (TDict TUnknown), req ''status'' TString, req ''signature'' (TDict TUnknown),
       req ''dateRequested'' TString, req ''dateSigned'' TString]"

text \<open>\<^verbatim>\<open>AbiParam\<close> refers to itself; here it is unfolded as deep as is asked for.\<close>

fun AbiParam :: "nat \<Rightarrow> ts_type" where
  "AbiParam 0 = TObject [req ''name'' TString, req ''type'' TString]"
| "AbiParam (Suc n) = TObject [req ''name'' TString, req ''type'' TString, opt ''components'' (TArray (AbiParam n))]"

definition AbiFunction :: "nat \<Rightarrow> ts_type" where
  "AbiFunction n =
     TObject [req ''type'' (TLit ''function''), req ''name'' TString, req ''stateMutability'' TString,
       req ''inputs'' (TArray (AbiParam n)), req ''outputs'' (TArray (AbiParam n))]"

definition CallFunctionRequest :: "nat \<Rightarrow> ts_type" where
  "CallFunctionRequest n =
     TObject [req ''contract'' TString, req ''abi'' (AbiFunction n), req ''calldata'' (TDict TUnknown)]"

definition CallFunctionResponse :: ts_type where
  "CallFunctionResponse = TObject [req ''result'' TString]"

definition TonSignMessageRequest :: ts_type where
  "TonSignMessageRequest =
     TObject [req ''blockchainKind'' (TLit ''Ton''), req ''kind'' (TLit ''Message''), req ''message'' TString]"

lemma map_of_strip:
  assumes "distinct (map fst obj)"
  shows "map_of (stripUndefinedFields obj) k =
    (case map_of obj k of Some v \<Rightarrow> if v = JUndefined \<or> v = JNull then None else Some v | None \<Rightarrow> None)"
  using assms
proof (induction obj)
  case (Cons e obj)
  obtain n v where e: "e = (n, v)" by force
  have "map_of (stripUndefinedFields obj) n = None" if "n \<notin> fst ` set obj"
    using that by (auto simp: map_of_eq_None_iff stripUndefinedFields_def)
  moreover have "map_of obj n = None" if "n \<notin> fst ` set obj" using that by (simp add: map_of_eq_None_iff)
  ultimately show ?case using Cons by (auto simp: e stripUndefinedFields_def split: option.splits)
qed (simp add: stripUndefinedFields_def)

lemma get_field_strip:
  "distinct (map fst obj) \<Longrightarrow> get_field (JObj i (stripUndefinedFields obj)) k =
     (if get_field (JObj j obj) k = JNull then JUndefined else get_field (JObj j obj) k)"
  by (simp add: map_of_strip split: option.splits)

definition never_null :: "ts_field \<Rightarrow> bool" where
  "never_null f = (case f of Field n b t \<Rightarrow> \<not> conforms t JNull)"

lemma stripped_fields_conform:
  assumes "distinct (map fst obj)" "list_all never_null fds" "list_all (\<lambda>f. conforms_field f (JObj j obj)) fds"
  shows "list_all (\<lambda>f. conforms_field f (JObj i (stripUndefinedFields obj))) fds"
  using assms(2,3)
proof (induction fds)
  case (Cons f fds)
  obtain n b t where f: "f = Field n b t" by (cases f)
  from Cons.prems have "get_field (JObj j obj) n \<noteq> JNull" by (auto simp: f never_null_def)
  with Cons show ?case by (simp add: f get_field_strip [OF assms(1), where j = j] del: get_field.simps)
qed simp

lemma transfers_are_never_null:
  "(k, fds) \<in> set transfer_kinds \<Longrightarrow> list_all never_null (req ''kind'' (TLit k) # fds)"
  by (auto simp: transfer_kinds_def never_null_def TransferPriority_def)

text \<open>
  What is sent for a transfer has the type of the transfer that was given, and no field of it is
  \<^verbatim>\<open>null\<close> or \<^verbatim>\<open>undefined\<close>.
\<close>

theorem sent_transfers_keep_their_type:
  assumes "conforms TransferRequest (JObj j transfer)" "distinct (map fst transfer)"
  shows "conforms TransferRequest (JObj i (stripUndefinedFields transfer)) \<and>
    (\<forall>(k, v) \<in> set (stripUndefinedFields transfer). v \<noteq> JUndefined \<and> v \<noteq> JNull)"
proof
  from assms(1) obtain k fds where k: "(k, fds) \<in> set transfer_kinds"
    "list_all (\<lambda>f. conforms_field f (JObj j transfer)) (req ''kind'' (TLit k) # fds)"
    by (auto simp: TransferRequest_def list_ex_iff)
  from stripped_fields_conform [OF assms(2) transfers_are_never_null [OF k(1)] k(2)] k(1)
  show "conforms TransferRequest (JObj i (stripUndefinedFields transfer))"
    using k(1) by (simp add: TransferRequest_def list_ex_iff bexI [where x = "(k, fds)"] del: conforms_field.simps)
qed (auto simp: stripUndefinedFields_def)

theorem sent_transfers_keep_their_type_witness:
  "conforms TransferRequest (JObj 1 (stripUndefinedFields
     [(''kind'', JStr ''Asa''), (''assetId'', JStr ''1''), (''to'', JStr ''x''), (''amount'', JStr ''5''), (''memo'', JUndefined)]))"
  using sent_transfers_keep_their_type [of 0
     "[(''kind'', JStr ''Asa''), (''assetId'', JStr ''1''), (''to'', JStr ''x''), (''amount'', JStr ''5''), (''memo'', JUndefined)]" 1]
  by (simp add: TransferRequest_def transfer_kinds_def)

lemma signature_body_has_its_type:
  "conforms GenerateSignatureRequest (prepareSignatureBody request)"
  by (auto simp: prepareSignatureBody_def GenerateSignatureRequest_def external_id_def
      split: signature_request.split option.split)

lemma ton_message_has_its_type:
  "conforms TonSignMessageRequest (string_object [(''blockchainKind'', ''Ton''), (''kind'', ''Message''), (''message'', msg)])"
  by (simp add: TonSignMessageRequest_def string_object_def)

section \<open>Coins and keys\<close>

definition Coin :: ts_type where
  "Coin =
     TObject [req ''id'' TString, req ''name'' TString, req ''symbol'' TString, req ''symbolGroup'' TString,
       req ''network'' TString, req ''contractAddress'' TString, req ''decimals'' TNumber, req ''priceUSD'' TString,
       req ''iconURL'' TString, req ''syncFrequency'' TNumber, req ''native'' TBool, req ''prioritized'' TBool,
       opt ''tokenizedCommunityExternalAddress'' (nullable TString),
       opt ''tokenizedCommunityTokenType'' (nullable TString)]"

definition CoinNetwork :: ts_type where
  "CoinNetwork =
     TObject [req ''id'' TString, req ''displayName'' TString, req ''explorerUrl'' TString, req ''image'' TString,
       req ''isTestnet'' TBool, req ''tier'' TNumber]"

definition CoinsResponse :: ts_type where
  "CoinsResponse =
     TObject [req ''coins'' (TArray Coin), req ''networks'' (TArray CoinNetwork), req ''version'' TNumber]"

definition KeyResponse :: ts_type where
  "KeyResponse =
     TObject [req ''id'' TString, req ''scheme'' TString, req ''curve'' TString, req ''publicKey'' TString,
       req ''name'' (nullable TString), req ''status'' (TUnion [TLit ''Active'', TLit ''Archived'']),
       req ''custodial'' TBool, req ''dateCreated'' TString]"

definition ListKeysResponse :: ts_type where
  "ListKeysResponse = TObject [req ''items'' (TArray KeyResponse), req ''nextPageToken'' (nullable TString)]"

definition CreateKeyInput :: ts_type where
  "CreateKeyInput = TObject [req ''scheme'' TString, req ''curve'' TString, opt ''name'' TString]"

definition DeriveKeyInput :: ts_type where
  "DeriveKeyInput = TObject [req ''domain'' TString, req ''seed'' TString]"

lemma empty_coins_have_their_type:
  assumes "fst (extractUserId d username s) = Inr userId" "snd (extractUserId d username s) = t"
    and "fst (co_getCoins src userId version username t) = Inr JNull"
  shows "\<exists>v. fst (getCoins d src username version s) = Inr v \<and> conforms CoinsResponse v"
  using no_new_coins [OF assms] by (simp add: CoinsResponse_def)

end
