(* ===== verification/Environment.thy ===== *)
theory Environment
  imports Prelude
begin

text \<open>
  \<^verbatim>\<open>packages/config/src/environment\<close> and \<^verbatim>\<open>feature-flags\<close>: the environment that both
  platforms read at start-up and validate, and the feature flags. The variables are a dictionary
  (an absent one is undefined), an exception is its message, \<^verbatim>\<open>new URL(value)\<close> is the
  parameter \<open>url_ok\<close>, true where it does not throw.
\<close>

section \<open>Environment\<close>

record environment_config =
  ec_appEnvironment :: string
  ec_apiBaseUrl :: string
  ec_identityAppId :: string
  ec_relayUrl :: string
  ec_logLevel :: string

definition REQUIRED_KEYS :: "string list" where
  "REQUIRED_KEYS = [''APP_ENV'', ''API_BASE_URL'', ''IDENTITY_APP_ID'', ''RELAY_URL'', ''LOG_LEVEL'']"

definition VALID_ENVIRONMENTS :: "string list" where
  "VALID_ENVIRONMENTS = [''staging'', ''testnet'', ''production'']"

definition VALID_LOG_LEVELS :: "string list" where
  "VALID_LOG_LEVELS = [''debug'', ''info'', ''warn'', ''error'']"

definition quoted :: "string \<Rightarrow> string" where
  "quoted s = CHR 0x22 # s @ [CHR 0x22]"

definition validateUrl ::
  "(string \<Rightarrow> bool) \<Rightarrow> string \<Rightarrow> string \<Rightarrow> string \<Rightarrow> string + unit" where
  "validateUrl url_ok val name protocol =
     (if \<not> url_ok val
      then Inl (''Invalid '' @ name @ '': '' @ quoted val @ ''. Must be a valid URL'')
      else if \<not> prefix (protocol @ ''://'') val
      then Inl (''Invalid '' @ name @ '': '' @ quoted val @ ''. Must use '' @ protocol @ ''://'')
      else Inr ())"

definition variable :: "string js_record \<Rightarrow> string \<Rightarrow> string" where
  "variable config key = (case map_of config key of None \<Rightarrow> [] | Some v \<Rightarrow> v)"

definition validateEnvironmentConfig ::
  "(string \<Rightarrow> bool) \<Rightarrow> string js_record \<Rightarrow> string + environment_config" where
  "validateEnvironmentConfig url_ok config =
     (case find (\<lambda>key. variable config key = []) REQUIRED_KEYS of
        Some key \<Rightarrow> Inl (''Missing required environment variable: '' @ key)
      | None \<Rightarrow>
          let appEnvironment = variable config ''APP_ENV''; logLevel = variable config ''LOG_LEVEL'';
              apiBaseUrl = variable config ''API_BASE_URL''; relayUrl = variable config ''RELAY_URL'' in
          if appEnvironment \<notin> set VALID_ENVIRONMENTS
          then Inl (''Invalid APP_ENV: '' @ quoted appEnvironment @ ''. Must be one of: '' @
                 join_with '', '' VALID_ENVIRONMENTS)
          else if logLevel \<notin> set VALID_LOG_LEVELS
          then Inl (''Invalid LOG_LEVEL: '' @ quoted logLevel @ ''. Must be one of: '' @
                 join_with '', '' VALID_LOG_LEVELS)
          else (case validateUrl url_ok apiBaseUrl ''API_BASE_URL'' ''https'' of
                  Inl e \<Rightarrow> Inl e
                | Inr _ \<Rightarrow>
                    (case validateUrl url_ok relayUrl ''RELAY_URL'' ''wss'' of
                       Inl e \<Rightarrow> Inl e
                     | Inr _ \<Rightarrow>
                         Inr \<lparr>ec_appEnvironment = appEnvironment, ec_apiBaseUrl = apiBaseUrl,
                              ec_identityAppId = variable config ''IDENTITY_APP_ID'',
                              ec_relayUrl = relayUrl, ec_logLevel = logLevel\<rparr>)))"

text \<open>The native build: \<^verbatim>\<open>react-native-config\<close> with the platform's application id.\<close>

definition with_app_id :: "string js_record \<Rightarrow> string option \<Rightarrow> string js_record" where
  "with_app_id rawConfig identityAppId =
     (case identityAppId of
        None \<Rightarrow> AList.delete ''IDENTITY_APP_ID'' rawConfig
      | Some v \<Rightarrow> AList.update ''IDENTITY_APP_ID'' v rawConfig)"

definition native_environmentConfig ::
  "(string \<Rightarrow> bool) \<Rightarrow> bool \<Rightarrow> string js_record \<Rightarrow> string + environment_config" where
  "native_environmentConfig url_ok is_ios rawConfig =
     validateEnvironmentConfig url_ok
       (with_app_id rawConfig
          (map_of rawConfig (if is_ios then ''IDENTITY_IOS_APP_ID'' else ''IDENTITY_ANDROID_APP_ID'')))"

text \<open>
  The web build, over \<^verbatim>\<open>process.env\<close>. Outside production the base URL may be empty, for a
  development proxy: a stand-in passes the validation and is dropped again.
\<close>

definition web_variables :: "string js_record \<Rightarrow> string \<Rightarrow> string js_record" where
  "web_variables penv apiBaseUrl =
     (''API_BASE_URL'', apiBaseUrl) #
     concat (map (\<lambda>key. case map_of penv (''VITE_'' @ key) of None \<Rightarrow> [] | Some v \<Rightarrow> [(key, v)])
       [''APP_ENV'', ''IDENTITY_APP_ID'', ''RELAY_URL'', ''LOG_LEVEL''])"

definition web_environmentConfig ::
  "(string \<Rightarrow> bool) \<Rightarrow> string js_record \<Rightarrow> string + environment_config" where
  "web_environmentConfig url_ok penv =
     (let rawApiBaseUrl = variable penv ''VITE_API_BASE_URL'';
          isProduction = (map_of penv ''VITE_APP_ENV'' = Some ''production'')
      in if isProduction \<and> rawApiBaseUrl = []
         then Inl ''VITE_API_BASE_URL is required in production''
         else if rawApiBaseUrl \<noteq> []
         then validateEnvironmentConfig url_ok (web_variables penv rawApiBaseUrl)
         else map_sum id (\<lambda>c. c\<lparr>ec_apiBaseUrl := []\<rparr>)
                (validateEnvironmentConfig url_ok (web_variables penv ''https://proxy.local'')))"

section \<open>Feature flags\<close>

record feature_flags =
  ff_debugMenuEnabled :: bool
  ff_darkModeEnabled :: bool

datatype feature_flag_name = DebugMenuEnabled | DarkModeEnabled

definition defaultFeatureFlags :: feature_flags where
  "defaultFeatureFlags = \<lparr>ff_debugMenuEnabled = False, ff_darkModeEnabled = False\<rparr>"

fun getFeatureFlag :: "feature_flag_name \<Rightarrow> feature_flags \<Rightarrow> bool" where
  "getFeatureFlag DebugMenuEnabled flags = ff_debugMenuEnabled flags"
| "getFeatureFlag DarkModeEnabled flags = ff_darkModeEnabled flags"

definition getAllFeatureFlags :: "feature_flags \<Rightarrow> feature_flags" where
  "getAllFeatureFlags flags = flags"

text \<open>An absent override keeps the flag.\<close>

definition setFeatureFlags ::
  "bool option \<Rightarrow> bool option \<Rightarrow> feature_flags \<Rightarrow> feature_flags" where
  "setFeatureFlags debugMenu darkMode flags =
     \<lparr>ff_debugMenuEnabled = (case debugMenu of None \<Rightarrow> ff_debugMenuEnabled flags | Some b \<Rightarrow> b),
      ff_darkModeEnabled = (case darkMode of None \<Rightarrow> ff_darkModeEnabled flags | Some b \<Rightarrow> b)\<rparr>"

definition resetFeatureFlags :: "feature_flags \<Rightarrow> feature_flags" where
  "resetFeatureFlags flags = defaultFeatureFlags"

section \<open>What an accepted environment guarantees\<close>

lemma validateUrl_Inr:
  "validateUrl url_ok val name protocol = Inr u \<longleftrightarrow> url_ok val \<and> prefix (protocol @ ''://'') val"
  by (auto simp: validateUrl_def)

text \<open>
  The validation accepts exactly the environments with every variable filled in, a known
  environment and log level, an API reached over HTTPS and a relay over a secure web socket.
\<close>

definition environment_ok :: "(string \<Rightarrow> bool) \<Rightarrow> environment_config \<Rightarrow> bool" where
  "environment_ok url_ok c =
     (ec_appEnvironment c \<in> set VALID_ENVIRONMENTS \<and> ec_logLevel c \<in> set VALID_LOG_LEVELS \<and>
      ec_identityAppId c \<noteq> [] \<and>
      url_ok (ec_apiBaseUrl c) \<and> prefix ''https://'' (ec_apiBaseUrl c) \<and>
      url_ok (ec_relayUrl c) \<and> prefix ''wss://'' (ec_relayUrl c))"

definition environment_of :: "string js_record \<Rightarrow> environment_config" where
  "environment_of config =
     \<lparr>ec_appEnvironment = variable config ''APP_ENV'', ec_apiBaseUrl = variable config ''API_BASE_URL'',
      ec_identityAppId = variable config ''IDENTITY_APP_ID'',
      ec_relayUrl = variable config ''RELAY_URL'', ec_logLevel = variable config ''LOG_LEVEL''\<rparr>"

lemma environment_of_simps [simp]:
  "ec_appEnvironment (environment_of config) = variable config ''APP_ENV''"
  "ec_apiBaseUrl (environment_of config) = variable config ''API_BASE_URL''"
  "ec_identityAppId (environment_of config) = variable config ''IDENTITY_APP_ID''"
  "ec_relayUrl (environment_of config) = variable config ''RELAY_URL''"
  "ec_logLevel (environment_of config) = variable config ''LOG_LEVEL''"
  by (simp_all add: environment_of_def)

lemma validate_cases:
  "if environment_ok url_ok (environment_of config)
   then validateEnvironmentConfig url_ok config = Inr (environment_of config)
   else isl (validateEnvironmentConfig url_ok config)"
proof (cases "find (\<lambda>key. variable config key = []) REQUIRED_KEYS")
  case None
  have set_keys: "set REQUIRED_KEYS =
      {''APP_ENV'', ''API_BASE_URL'', ''IDENTITY_APP_ID'', ''RELAY_URL'', ''LOG_LEVEL''}"
    by (simp add: REQUIRED_KEYS_def)
  from None have "\<forall>key \<in> set REQUIRED_KEYS. variable config key \<noteq> []" by (auto simp: find_None_iff)
  with set_keys have "variable config ''IDENTITY_APP_ID'' \<noteq> []" by simp
  then show ?thesis
    unfolding validateEnvironmentConfig_def None Let_def environment_ok_def
    by (simp add: validateUrl_def environment_of_def)
next
  case (Some key)
  then have "key \<in> set REQUIRED_KEYS" and empty: "variable config key = []"
    by (auto simp: find_Some_iff)
  then have key: "key = ''APP_ENV'' \<or> key = ''API_BASE_URL'' \<or> key = ''IDENTITY_APP_ID'' \<or>
      key = ''RELAY_URL'' \<or> key = ''LOG_LEVEL''"
    by (simp only: REQUIRED_KEYS_def list.set insert_iff empty_iff simp_thms)
  have "\<not> environment_ok url_ok (environment_of config)"
    using key
    by (elim disjE) (use empty in \<open>simp_all add: environment_ok_def VALID_ENVIRONMENTS_def
        VALID_LOG_LEVELS_def\<close>)
  then show ?thesis by (simp add: validateEnvironmentConfig_def Some)
qed

lemma validate_accepts_iff:
  "validateEnvironmentConfig url_ok config = Inr c \<longleftrightarrow>
     c = environment_of config \<and> environment_ok url_ok c"
  using validate_cases [of url_ok config] by (auto split: if_splits simp: isl_def)

lemma web_variables_simps [simp]:
  "variable (web_variables penv url) ''API_BASE_URL'' = url"
  "variable (web_variables penv url) ''APP_ENV'' = variable penv ''VITE_APP_ENV''"
  by (auto simp: variable_def web_variables_def split: option.splits)

text \<open>
  A configured application never talks to an insecure API. Whatever the variables are, an
  environment that starts has an API over HTTPS and a relay over a secure web socket, on both
  platforms; only a web build outside production may have no base URL at all.
\<close>

theorem environment_is_secure:
  "(case native_environmentConfig url_ok is_ios rawConfig of
      Inl e \<Rightarrow> True
    | Inr c \<Rightarrow> prefix ''https://'' (ec_apiBaseUrl c) \<and> prefix ''wss://'' (ec_relayUrl c) \<and>
        ec_appEnvironment c \<in> set VALID_ENVIRONMENTS) \<and>
   (case web_environmentConfig url_ok penv of
      Inl e \<Rightarrow> True
    | Inr c \<Rightarrow> prefix ''wss://'' (ec_relayUrl c) \<and> ec_appEnvironment c \<in> set VALID_ENVIRONMENTS \<and>
        (if ec_apiBaseUrl c = [] then ec_appEnvironment c \<noteq> ''production''
         else prefix ''https://'' (ec_apiBaseUrl c)))"
proof (rule conjI)
  have validated: "prefix ''https://'' (ec_apiBaseUrl c) \<and> prefix ''wss://'' (ec_relayUrl c) \<and>
      ec_appEnvironment c \<in> set VALID_ENVIRONMENTS"
    if "validateEnvironmentConfig url_ok config = Inr c" for config c
    using that unfolding validate_accepts_iff environment_ok_def by blast
  show "case native_environmentConfig url_ok is_ios rawConfig of
      Inl e \<Rightarrow> True
    | Inr c \<Rightarrow> prefix ''https://'' (ec_apiBaseUrl c) \<and> prefix ''wss://'' (ec_relayUrl c) \<and>
        ec_appEnvironment c \<in> set VALID_ENVIRONMENTS"
    using validated by (auto simp: native_environmentConfig_def split: sum.splits)
  have "map_of penv ''VITE_APP_ENV'' = Some ''production''"
    if "variable penv ''VITE_APP_ENV'' = ''production''"
    using that by (simp add: variable_def split: option.splits)
  then show "case web_environmentConfig url_ok penv of
      Inl e \<Rightarrow> True
    | Inr c \<Rightarrow> prefix ''wss://'' (ec_relayUrl c) \<and> ec_appEnvironment c \<in> set VALID_ENVIRONMENTS \<and>
        (if ec_apiBaseUrl c = [] then ec_appEnvironment c \<noteq> ''production''
         else prefix ''https://'' (ec_apiBaseUrl c))"
    by (auto simp: web_environmentConfig_def Let_def validate_accepts_iff environment_ok_def map_sum_def split: sum.splits if_splits)
qed

text \<open>A flag reads the override last given to it, or the default.\<close>

lemma flag_after_set [simp]:
  "getFeatureFlag DebugMenuEnabled (setFeatureFlags a b flags) =
     (case a of None \<Rightarrow> getFeatureFlag DebugMenuEnabled flags | Some x \<Rightarrow> x)"
  "getFeatureFlag DarkModeEnabled (setFeatureFlags a b flags) =
     (case b of None \<Rightarrow> getFeatureFlag DarkModeEnabled flags | Some x \<Rightarrow> x)"
  by (simp_all add: setFeatureFlags_def split: option.split)

end
