(* ===== verification/IdentityWiring.thy ===== *)
theory IdentityWiring
  imports IdentityInterceptor IdentityCrypto Environment
begin

text \<open>
  How \<^verbatim>\<open>packages/identity-client\<close> puts its HTTP client together
  (\<^verbatim>\<open>create-identity-client.ts\<close>, \<^verbatim>\<open>create-default-identity-client.ts\<close>): the configuration
  handed to \<^verbatim>\<open>createHttpClient\<close>, with the auth interceptor behind those of the caller, and the
  defaults from the environment.
\<close>

record 's identity_config =
  cf_baseUrl :: string
  cf_appId :: string
  cf_nativePbkdf2 :: "pbkdf2_fn option"
  cf_interceptors :: "'s interceptor list option"

definition buildHttpClient ::
  "(string \<Rightarrow> string option) \<Rightarrow> 'st token_deps \<Rightarrow> (string \<Rightarrow> (('st, 'x) identity_env_scheme, thrown, unit) io) \<Rightarrow>
   (('st, 'x) identity_env_scheme) identity_config \<Rightarrow> (('st, 'x) identity_env_scheme) http_client_config" where
  "buildHttpClient origin d refresh config =
     \<lparr>hc_baseUrl = cf_baseUrl config, hc_transport = None, hc_timeoutMs = None, hc_maxResponseSizeBytes = None,
      hc_maxRequestBodySizeBytes = None,
      hc_interceptors = or_default (cf_interceptors config) [] @
        [createIdentityAuthInterceptor origin d refresh (cf_baseUrl config)],
      hc_retryConfig = None, hc_headers = Some [(''X-Client-ID'', cf_appId config)], hc_httpsAllowlist = None,
      hc_isProduction = None, hc_requestQueue = None\<rparr>"

definition createDefaultIdentityClient :: "environment_config \<Rightarrow> string option \<Rightarrow> string option \<Rightarrow> 's identity_config" where
  "createDefaultIdentityClient environmentConfig baseUrl appId =
     \<lparr>cf_baseUrl = or_default baseUrl (ec_apiBaseUrl environmentConfig),
      cf_appId = or_default appId (ec_identityAppId environmentConfig),
      cf_nativePbkdf2 = None, cf_interceptors = None\<rparr>"

text \<open>
  The client of the identity service never talks plain HTTP, in production or not: there is no allowlist, and
  the tokens are added for its own base URL only.
\<close>

theorem identity_client_talks_https:
  assumes "fst (buildInternals parse_url axios (buildHttpClient origin d refresh config) s) = Inr internals"
    and "cf_baseUrl config \<noteq> []"
  shows "(\<exists>hostname. parse_url (cf_baseUrl config) = Some (''https:'', hostname)) \<and>
    ic_onRequest (last (ci_interceptors internals)) = Some (identity_injectAuthHeader origin d (cf_baseUrl config)) \<and>
    ci_defaultHeaders internals = Some [(''X-Client-ID'', cf_appId config)] \<and> ci_requestQueue internals = None"
  using assms
  by (auto simp: buildHttpClient_def buildInternals_def Let_def createHttpsValidator_def enforceHttps_def io_simps
      split: sum.splits if_splits option.splits)

definition sample_identity_config :: "((string \<Rightarrow> string option) identity_env) identity_config" where
  "sample_identity_config =
     \<lparr>cf_baseUrl = ''https://id.ion'', cf_appId = ''app'', cf_nativePbkdf2 = None, cf_interceptors = None\<rparr>"

theorem identity_client_talks_https_witness:
  "\<exists>hostname. (\<lambda>u. if u = ''https://id.ion'' then Some (''https:'', ''id.ion'') else None)
      (cf_baseUrl sample_identity_config) = Some (''https:'', hostname)"
proof -
  let ?parse = "\<lambda>u. if u = ''https://id.ion'' then Some (''https:'', ''id.ion'') else None"
  let ?axios = "\<lambda>_ _. io_return \<lparr>tp_status = 200, tp_headers = [], tp_body = JNull\<rparr>"
  let ?config = "buildHttpClient sample_origin sample_token_deps (\<lambda>_. io_return ()) sample_identity_config"
  obtain i where i: "fst (buildInternals ?parse ?axios ?config sample_identity_env) = Inr i"
    by (simp add: buildHttpClient_def sample_identity_config_def buildInternals_def Let_def createHttpsValidator_def
        enforceHttps_def io_simps)
  show ?thesis using identity_client_talks_https [OF i] by (simp add: sample_identity_config_def)
qed

text \<open>
  With a base URL from a validated environment the construction succeeds when that URL parses as HTTPS; the
  default client derives keys without the native function and without interceptors of the caller.
\<close>

lemma default_client_is_built:
  assumes "parse_url (ec_apiBaseUrl e) = Some (''https:'', h)"
  shows "\<exists>internals. fst (buildInternals parse_url axios
    (buildHttpClient origin d refresh (createDefaultIdentityClient e None appId)) s) = Inr internals \<and>
    map ic_name (ci_interceptors internals) = [''identity-auth'']"
  using assms by (simp add: buildHttpClient_def createDefaultIdentityClient_def buildInternals_def Let_def
      createHttpsValidator_def enforceHttps_def io_simps)

lemma given_url_takes_the_place_of_the_environment:
  "cf_baseUrl (createDefaultIdentityClient e (Some u) a) = u \<and> cf_nativePbkdf2 (createDefaultIdentityClient e b a) = None"
  by (simp add: createDefaultIdentityClient_def)

end
