(* ===== verification/RemoteConfig.thy ===== *)
theory RemoteConfig
  imports KeyValueStorage HttpClient
begin

text \<open>
  \<^verbatim>\<open>packages/config/src/remote-config\<close>: named configurations fetched from the backend and
  kept in memory and in the key-value storage. A value of the generic type is a \<open>js_value\<close>
  (\<open>JNull\<close> is the \<^verbatim>\<open>null\<close> that means no result), a parser gives a value or throws. The
  client is given by its \<^verbatim>\<open>get\<close>, the storage by the operations that are used; the memory cache
  and the store are part of the state. Versions are integers.
\<close>

datatype config_error_code = CONFIG_NOT_FOUND | CONFIG_FETCH_FAILED | CONFIG_VERSION_MISSING

text \<open>What can be thrown: a \<^verbatim>\<open>ConfigError\<close> with its cause, or anything else.\<close>

datatype config_failure =
    ConfigErr config_error_code string "config_failure option"
  | OtherFailure js_error

record cached_entry =
  ce_raw :: js_value
  ce_version :: int
  ce_fetchedAtMs :: int

record 'kv config_storage =
  cs_getString :: "string \<Rightarrow> 'kv \<Rightarrow> string option"
  cs_setString :: "string \<Rightarrow> js_value \<Rightarrow> 'kv \<Rightarrow> 'kv"
  cs_getNumber :: "string \<Rightarrow> 'kv \<Rightarrow> int option"
  cs_setNumber :: "string \<Rightarrow> int \<Rightarrow> 'kv \<Rightarrow> 'kv"
  cs_removeItem :: "string \<Rightarrow> 'kv \<Rightarrow> 'kv"

record 'kv config_env = env +
  cv_memory :: "(string \<times> cached_entry) list"
  cv_store :: 'kv

record ('kv, 'x) config_deps =
  cd_get :: "string \<Rightarrow> request_options option \<Rightarrow>
    (('kv, 'x) config_env_scheme, js_error, http_response) io"
  cd_storage :: "'kv config_storage"

record config_identity =
  cg_configName :: string
  cg_parser :: "js_value \<Rightarrow> config_failure + js_value"
  cg_checkVersion :: bool

section \<open>The cache\<close>

definition dataKey :: "string \<Rightarrow> string" where
  "dataKey configName = ''remote_config:data:'' @ configName"

definition versionKey :: "string \<Rightarrow> string" where
  "versionKey configName = ''remote_config:version:'' @ configName"

definition timestampKey :: "string \<Rightarrow> string" where
  "timestampKey configName = ''remote_config:timestamp:'' @ configName"

definition config_isExpired :: "int \<Rightarrow> int \<Rightarrow> int \<Rightarrow> bool" where
  "config_isExpired now fetchedAtMs timeToLiveMs = (now - fetchedAtMs \<ge> timeToLiveMs)"

definition readFromMemoryCache ::
  "int \<Rightarrow> (string \<times> cached_entry) list \<Rightarrow> string \<Rightarrow> int \<Rightarrow> cached_entry option" where
  "readFromMemoryCache now memoryCache configName timeToLiveMs =
     (case map_of memoryCache configName of
        None \<Rightarrow> None
      | Some entry \<Rightarrow>
          if config_isExpired now (ce_fetchedAtMs entry) timeToLiveMs then None else Some entry)"

definition or_zero :: "int option \<Rightarrow> int" where
  "or_zero n = (case n of None \<Rightarrow> 0 | Some i \<Rightarrow> i)"

definition readFromStorage :: "'kv config_storage \<Rightarrow> string \<Rightarrow> 'kv \<Rightarrow> cached_entry option" where
  "readFromStorage st configName kv =
     (case cs_getString st (dataKey configName) kv of
        None \<Rightarrow> None
      | Some raw \<Rightarrow>
          Some \<lparr>ce_raw = JStr raw,
                ce_version = or_zero (cs_getNumber st (versionKey configName) kv),
                ce_fetchedAtMs = or_zero (cs_getNumber st (timestampKey configName) kv)\<rparr>)"

definition store_entry :: "'kv config_storage \<Rightarrow> string \<Rightarrow> cached_entry \<Rightarrow> 'kv \<Rightarrow> 'kv" where
  "store_entry st configName entry kv =
     cs_setNumber st (timestampKey configName) (ce_fetchedAtMs entry)
       (cs_setNumber st (versionKey configName) (ce_version entry)
         (cs_setString st (dataKey configName) (ce_raw entry) kv))"

definition writeToCache ::
  "'kv config_storage \<Rightarrow> string \<Rightarrow> cached_entry \<Rightarrow>
   ('kv, 'x) config_env_scheme \<Rightarrow> ('kv, 'x) config_env_scheme" where
  "writeToCache st configName entry s =
     s\<lparr>cv_memory := AList.update configName entry (cv_memory s),
       cv_store := store_entry st configName entry (cv_store s)\<rparr>"

definition getStoredVersion :: "'kv config_storage \<Rightarrow> string \<Rightarrow> 'kv \<Rightarrow> int" where
  "getStoredVersion st configName kv = or_zero (cs_getNumber st (versionKey configName) kv)"

definition clearConfigFromCache ::
  "'kv config_storage \<Rightarrow> string \<Rightarrow> ('kv, 'x) config_env_scheme \<Rightarrow> ('kv, 'x) config_env_scheme" where
  "clearConfigFromCache st configName s =
     s\<lparr>cv_memory := AList.delete configName (cv_memory s),
       cv_store := cs_removeItem st (timestampKey configName)
         (cs_removeItem st (versionKey configName)
           (cs_removeItem st (dataKey configName) (cv_store s)))\<rparr>"

text \<open>
  The storage of the default configuration, on the web: \<^verbatim>\<open>localStorage\<close> turns what it is given
  into a string (\<open>to_str\<close>, the conversion \<^verbatim>\<open>String\<close>).
\<close>

definition web_config_storage ::
  "'a codec \<Rightarrow> (js_value \<Rightarrow> string) \<Rightarrow> string \<Rightarrow> local_storage config_storage" where
  "web_config_storage cd to_str sid =
     \<lparr>cs_getString = web_getString sid, cs_setString = (\<lambda>k v. web_setString sid k (to_str v)),
      cs_getNumber = web_getNumber cd sid, cs_setNumber = web_setNumber cd sid,
      cs_removeItem = web_removeItem sid\<rparr>"

section \<open>Reading\<close>

definition failure_text :: "config_failure \<Rightarrow> js_value" where
  "failure_text e = (case e of ConfigErr c m q \<Rightarrow> JStr m | OtherFailure x \<Rightarrow> jstr_opt (err_message x))"

definition tryParse ::
  "js_value \<Rightarrow> (js_value \<Rightarrow> config_failure + js_value) \<Rightarrow>
   ('x env_scheme, config_failure, js_value \<times> bool) io" where
  "tryParse raw parser =
     (case parser raw of
        Inr v \<Rightarrow> io_return (v, False)
      | Inl e \<Rightarrow>
          io_then (emit_log LWarning ''Failed to parse cached config'' ''remote-config''
                     [(''error'', failure_text e)])
            (io_return (JNull, True)))"

text \<open>The value, and whether there was a parse error.\<close>

definition readCachedConfig ::
  "('kv, 'x) config_deps \<Rightarrow> config_identity \<Rightarrow> int \<Rightarrow>
   (('kv, 'x) config_env_scheme, config_failure, js_value \<times> bool) io" where
  "readCachedConfig deps identity timeToLiveMs =
     io_bind (io_gets id) (\<lambda>s.
       case readFromMemoryCache (env_now s) (cv_memory s) (cg_configName identity) timeToLiveMs of
         Some entry \<Rightarrow> tryParse (ce_raw entry) (cg_parser identity)
       | None \<Rightarrow>
           (case readFromStorage (cd_storage deps) (cg_configName identity) (cv_store s) of
              None \<Rightarrow> io_return (JNull, False)
            | Some entry \<Rightarrow>
                if config_isExpired (env_now s) (ce_fetchedAtMs entry) timeToLiveMs
                then io_return (JNull, False)
                else tryParse (ce_raw entry) (cg_parser identity)))"

definition readStaleCache ::
  "('kv, 'x) config_deps \<Rightarrow> config_identity \<Rightarrow>
   (('kv, 'x) config_env_scheme, config_failure, js_value) io" where
  "readStaleCache deps identity =
     io_bind (io_gets cv_store) (\<lambda>kv.
       case readFromStorage (cd_storage deps) (cg_configName identity) kv of
         None \<Rightarrow> io_return JNull
       | Some entry \<Rightarrow>
           (case cg_parser identity (ce_raw entry) of
              Inr v \<Rightarrow> io_return v
            | Inl e \<Rightarrow>
                io_then (emit_log LWarning ''Failed to parse stale config'' ''remote-config''
                           [(''configName'', JStr (cg_configName identity)), (''error'', failure_text e)])
                  (io_return JNull)))"

section \<open>Fetching\<close>

definition buildQuery :: "bool \<Rightarrow> int \<Rightarrow> string js_record option" where
  "buildQuery checkVersion version =
     (if \<not> checkVersion then None else Some [(''version'', int_str version)])"

text \<open>
  The field \<^verbatim>\<open>version\<close> of a parsed value, where it is a number; reading a field of \<^verbatim>\<open>null\<close>
  or \<^verbatim>\<open>undefined\<close> throws.
\<close>

definition version_field :: "js_value \<Rightarrow> config_failure + int option" where
  "version_field parsed =
     (case parsed of
        JNull \<Rightarrow> Inl (OtherFailure (JsErr None))
      | JUndefined \<Rightarrow> Inl (OtherFailure (JsErr None))
      | JObj _ fs \<Rightarrow> Inr (case map_of fs ''version'' of Some (JNum n) \<Rightarrow> Some n | _ \<Rightarrow> None)
      | _ \<Rightarrow> Inr None)"

definition resolveVersion :: "js_value \<Rightarrow> string js_record \<Rightarrow> bool \<Rightarrow> config_failure + int" where
  "resolveVersion parsed headers checkVersion =
     (if \<not> checkVersion then Inr 0
      else (case version_field parsed of
              Inl e \<Rightarrow> Inl e
            | Inr (Some v) \<Rightarrow> Inr v
            | Inr None \<Rightarrow>
                (case parseInt10 (case map_of headers ''x-version'' of None \<Rightarrow> [] | Some h \<Rightarrow> h) of
                   Some v \<Rightarrow> Inr v
                 | None \<Rightarrow> Inl (ConfigErr CONFIG_VERSION_MISSING
                     ''checkVersion is true but no version found in response or x-version header''
                     None))))"

definition config_lift :: "('s, js_error, 'a) io \<Rightarrow> ('s, config_failure, 'a) io" where
  "config_lift m = (\<lambda>s. case m s of (Inl e, t) \<Rightarrow> (Inl (OtherFailure e), t) | (Inr a, t) \<Rightarrow> (Inr a, t))"

lemma config_lift_simp [io_simps]:
  "config_lift m s = (case m s of (Inl e, t) \<Rightarrow> (Inl (OtherFailure e), t) | (Inr a, t) \<Rightarrow> (Inr a, t))"
  by (simp add: config_lift_def)

definition throw_sum :: "'e + 'a \<Rightarrow> ('s, 'e, 'a) io" where
  "throw_sum r = (case r of Inl e \<Rightarrow> io_throw e | Inr a \<Rightarrow> io_return a)"

definition handle_response ::
  "('kv, 'x) config_deps \<Rightarrow> config_identity \<Rightarrow> int \<Rightarrow> http_response \<Rightarrow>
   (('kv, 'x) config_env_scheme, config_failure, js_value) io" where
  "handle_response deps identity version response =
     (if hr_status response = 204
      then io_then (emit_log LDebug ''Config not modified (204)'' ''remote-config''
                      [(''configName'', JStr (cg_configName identity)), (''version'', JNum version)])
             (io_return JNull)
      else if hr_status response \<noteq> 200
      then io_throw (ConfigErr CONFIG_FETCH_FAILED
             (''Unexpected status '' @ int_str (hr_status response) @ '' for config '' @
              CHR 0x22 # cg_configName identity @ [CHR 0x22]) None)
      else io_bind (throw_sum (cg_parser identity (hr_body response))) (\<lambda>parsed.
           io_bind (throw_sum (resolveVersion parsed (hr_headers response) (cg_checkVersion identity)))
             (\<lambda>resolvedVersion.
           io_then (io_modify (\<lambda>s. writeToCache (cd_storage deps) (cg_configName identity)
                      \<lparr>ce_raw = hr_body response, ce_version = resolvedVersion,
                       ce_fetchedAtMs = env_now s\<rparr> s))
             (io_return parsed))))"

definition fetchConfigFromNetwork ::
  "('kv, 'x) config_deps \<Rightarrow> config_identity \<Rightarrow> int \<Rightarrow>
   (('kv, 'x) config_env_scheme, config_failure, js_value) io" where
  "fetchConfigFromNetwork deps identity version =
     io_bind (config_lift (cd_get deps (''/v1/config/'' @ cg_configName identity)
                (Some (empty_options\<lparr>ro_query := buildQuery (cg_checkVersion identity) version\<rparr>))))
       (handle_response deps identity version)"

definition forceFetchConfig ::
  "('kv, 'x) config_deps \<Rightarrow> config_identity \<Rightarrow>
   (('kv, 'x) config_env_scheme, config_failure, js_value) io" where
  "forceFetchConfig deps identity =
     io_bind (io_catch (fetchConfigFromNetwork deps identity 0) (\<lambda>error.
          io_throw (ConfigErr CONFIG_FETCH_FAILED
            (''Force fetch failed for config '' @ CHR 0x22 # cg_configName identity @ [CHR 0x22])
            (Some error)))) (\<lambda>result.
       if result \<noteq> JNull then io_return result
       else io_throw (ConfigErr CONFIG_NOT_FOUND
              (''Config '' @ CHR 0x22 # cg_configName identity @ CHR 0x22 # '' not found in cache or server'')
              None))"

section \<open>The service\<close>

definition tryNetworkFetch ::
  "('kv, 'x) config_deps \<Rightarrow> config_identity \<Rightarrow> int \<Rightarrow>
   (('kv, 'x) config_env_scheme, config_failure, js_value) io" where
  "tryNetworkFetch deps identity version =
     io_catch (fetchConfigFromNetwork deps identity version) (\<lambda>error.
       if (case error of ConfigErr code _ _ \<Rightarrow> code \<noteq> CONFIG_FETCH_FAILED | OtherFailure _ \<Rightarrow> False)
       then io_throw error
       else io_then (emit_log LError ''Network fetch failed for remote config, falling back to cache''
                       ''remote-config'' [(''configName'', JStr (cg_configName identity))])
              (io_return JNull))"

definition executeGetConfig ::
  "('kv, 'x) config_deps \<Rightarrow> config_identity \<Rightarrow> int \<Rightarrow>
   (('kv, 'x) config_env_scheme, config_failure, js_value) io" where
  "executeGetConfig deps identity timeToLiveMs =
     (let named = (''configName'', JStr (cg_configName identity)) in
      io_bind (readCachedConfig deps identity timeToLiveMs) (\<lambda>(cached, hadParseError).
        if cached \<noteq> JNull
        then io_then (emit_log LDebug ''Serving config from cache'' ''remote-config'' [named])
               (io_return cached)
        else
          io_bind (io_gets cv_store) (\<lambda>kv.
          let version = (if hadParseError then 0
                         else getStoredVersion (cd_storage deps) (cg_configName identity) kv) in
          io_bind (tryNetworkFetch deps identity version) (\<lambda>networkResult.
            if networkResult \<noteq> JNull
            then io_then (emit_log LInfo ''Config fetched from network'' ''remote-config''
                            [named, (''version'', JNum version)])
                   (io_return networkResult)
            else io_bind (readStaleCache deps identity) (\<lambda>stale.
              if stale \<noteq> JNull
              then io_then (emit_log LWarning ''Serving stale config after network failure''
                              ''remote-config'' [named]) (io_return stale)
              else io_then (emit_log LWarning ''All caches empty, force-fetching config''
                              ''remote-config'' [named])
                     (forceFetchConfig deps identity))))))"

definition DEFAULT_REFRESH_INTERVAL :: int where
  "DEFAULT_REFRESH_INTERVAL = 300000"

text \<open>\<^verbatim>\<open>/^[a-zA-Z0-9-]+$/\<close>.\<close>

definition VALID_CONFIG_NAME :: "string \<Rightarrow> bool" where
  "VALID_CONFIG_NAME name = (name \<noteq> [] \<and> list_all (\<lambda>c. is_alnum c \<or> c = CHR ''-'') name)"

definition validateConfigName :: "string \<Rightarrow> config_failure + unit" where
  "validateConfigName configName =
     (if \<not> VALID_CONFIG_NAME configName
      then Inl (ConfigErr CONFIG_FETCH_FAILED
             (''Invalid configName '' @ CHR 0x22 # configName @ CHR 0x22 #
              '': must match /^[a-zA-Z0-9-]+$/'') None)
      else Inr ())"

text \<open>
  What a call of \<^verbatim>\<open>getConfig\<close> runs under the mutex, or the error that it throws at once.
\<close>

definition getConfig ::
  "('kv, 'x) config_deps \<Rightarrow> string \<Rightarrow> (js_value \<Rightarrow> config_failure + js_value) \<Rightarrow> bool option \<Rightarrow>
   int option \<Rightarrow> config_failure + (('kv, 'x) config_env_scheme, config_failure, js_value) io" where
  "getConfig deps configName parser checkVersion timeToLiveMs =
     map_sum id
       (\<lambda>_. executeGetConfig deps
          \<lparr>cg_configName = configName, cg_parser = parser,
           cg_checkVersion = (case checkVersion of None \<Rightarrow> False | Some b \<Rightarrow> b)\<rparr>
          (case timeToLiveMs of None \<Rightarrow> DEFAULT_REFRESH_INTERVAL | Some t \<Rightarrow> t))
       (validateConfigName configName)"

section \<open>The mutex\<close>

text \<open>
  \<^verbatim>\<open>createConfigMutex\<close>: the promise under way of each name. A promise is its number, in the
  order of starting; \<open>mx_started\<close> holds the name it was started for and \<open>mx_settled\<close> the ones
  that have settled. \<^verbatim>\<open>mutex_settle\<close> is the \<^verbatim>\<open>finally\<close> of a promise.
\<close>

record config_mutex =
  mx_pending :: "(string \<times> nat) list"
  mx_started :: "string list"
  mx_settled :: "nat list"

definition createConfigMutex :: config_mutex where
  "createConfigMutex = \<lparr>mx_pending = [], mx_started = [], mx_settled = []\<rparr>"

definition mutex_run :: "string \<Rightarrow> config_mutex \<Rightarrow> nat \<times> config_mutex" where
  "mutex_run key m =
     (case map_of (mx_pending m) key of
        Some existing \<Rightarrow> (existing, m)
      | None \<Rightarrow>
          let promise = length (mx_started m) in
          (promise, m\<lparr>mx_started := mx_started m @ [key],
                      mx_pending := AList.update key promise (mx_pending m)\<rparr>))"

definition mutex_settle :: "nat \<Rightarrow> config_mutex \<Rightarrow> config_mutex" where
  "mutex_settle promise m =
     m\<lparr>mx_settled := promise # mx_settled m,
       mx_pending := AList.delete (mx_started m ! promise) (mx_pending m)\<rparr>"

definition mutex_clear :: "config_mutex \<Rightarrow> config_mutex" where
  "mutex_clear m = m\<lparr>mx_pending := []\<rparr>"

text \<open>Calls and settling promises, in any order, without a \<^verbatim>\<open>clearLocks\<close>.\<close>

inductive mutex_step :: "config_mutex \<Rightarrow> config_mutex \<Rightarrow> bool" where
  RunStep: "mutex_step m (snd (mutex_run key m))"
| SettleStep: "promise < length (mx_started m) \<Longrightarrow> promise \<notin> set (mx_settled m) \<Longrightarrow>
    mutex_step m (mutex_settle promise m)"

inductive_cases mutex_stepE: "mutex_step m m'"

text \<open>Every promise under way is the pending one of its name.\<close>

definition mutex_ok :: "config_mutex \<Rightarrow> bool" where
  "mutex_ok m =
     (\<forall>key promise. map_of (mx_pending m) key = Some promise \<longleftrightarrow>
        promise < length (mx_started m) \<and> promise \<notin> set (mx_settled m) \<and> mx_started m ! promise = key)"

lemma mutex_ok_start: "mutex_ok createConfigMutex"
  by (simp add: mutex_ok_def createConfigMutex_def)

lemma mutex_ok_pending:
  "mutex_ok m \<Longrightarrow> promise < length (mx_started m) \<Longrightarrow> promise \<notin> set (mx_settled m) \<Longrightarrow>
   map_of (mx_pending m) (mx_started m ! promise) = Some promise"
  by (simp add: mutex_ok_def)

lemma mutex_ok_run:
  assumes "mutex_ok m" and "\<forall>p \<in> set (mx_settled m). p < length (mx_started m)"
  shows "mutex_ok (snd (mutex_run key m))"
proof (cases "map_of (mx_pending m) key")
  case None
  then have "\<not> (p < length (mx_started m) \<and> p \<notin> set (mx_settled m) \<and> mx_started m ! p = key)" for p
    using mutex_ok_pending [OF assms(1), of p] by auto
  with None assms show ?thesis
    by (auto simp: mutex_ok_def mutex_run_def Let_def AList.update_conv' nth_append less_Suc_eq)
qed (use assms in \<open>simp add: mutex_run_def\<close>)

lemma mutex_ok_settle:
  assumes "mutex_ok m" "promise < length (mx_started m)" "promise \<notin> set (mx_settled m)"
  shows "mutex_ok (mutex_settle promise m)"
proof -
  have "q = promise"
    if "q < length (mx_started m)" "q \<notin> set (mx_settled m)" "mx_started m ! q = mx_started m ! promise" for q
    using mutex_ok_pending [OF assms] mutex_ok_pending [OF assms(1) that(1,2)] that(3) by simp
  then show ?thesis
    using assms by (auto simp: mutex_ok_def mutex_settle_def AList.delete_conv')
qed

lemma mutex_reachable_ok:
  "mutex_step\<^sup>*\<^sup>* createConfigMutex m \<Longrightarrow>
   mutex_ok m \<and> (\<forall>p \<in> set (mx_settled m). p < length (mx_started m))"
proof (induction rule: rtranclp_induct)
  case base
  show ?case by (simp add: mutex_ok_start) (simp add: createConfigMutex_def)
next
  case (step m m')
  from step.hyps(2) show ?case
  proof (cases rule: mutex_step.cases)
    case (RunStep key)
    with step.IH mutex_ok_run [of m key] show ?thesis
      by (auto simp: mutex_run_def Let_def less_Suc_eq split: option.splits)
  next
    case (SettleStep promise)
    with step.IH mutex_ok_settle [of m promise] show ?thesis
      by (simp add: mutex_settle_def)
  qed
qed

text \<open>
  Concurrent calls for one configuration share one fetch. However calls and settling promises
  interleave, two promises under way are of different names, and a call made while the fetch of
  its name is under way gets that fetch's promise and starts nothing; after the promise settled,
  the next call starts a new one, so that no name is locked for good.
\<close>

theorem one_fetch_per_config:
  assumes "mutex_step\<^sup>*\<^sup>* createConfigMutex m" and "p < length (mx_started m)"
  shows "(if p \<in> set (mx_settled m) then True
          else mutex_run (mx_started m ! p) m = (p, m) \<and>
            fst (mutex_run (mx_started m ! p) (mutex_settle p m)) = length (mx_started m)) \<and>
    inj_on (\<lambda>q. mx_started m ! q) {q. q < length (mx_started m) \<and> q \<notin> set (mx_settled m)}"
proof -
  have ok: "mutex_ok m" using mutex_reachable_ok [OF assms(1)] by simp
  have "mutex_run (mx_started m ! p) m = (p, m) \<and>
      fst (mutex_run (mx_started m ! p) (mutex_settle p m)) = length (mx_started m)"
    if "p \<notin> set (mx_settled m)"
    using mutex_ok_pending [OF ok assms(2) that]
    by (simp add: mutex_run_def mutex_settle_def AList.delete_conv' Let_def)
  moreover have "inj_on (\<lambda>q. mx_started m ! q) {q. q < length (mx_started m) \<and> q \<notin> set (mx_settled m)}"
    using mutex_ok_pending [OF ok] by (intro inj_onI) (metis (mono_tags, lifting) mem_Collect_eq option.inject)
  ultimately show ?thesis by simp
qed

theorem one_fetch_per_config_witness:
  "mutex_run ''a'' (snd (mutex_run ''a'' createConfigMutex)) = (0, snd (mutex_run ''a'' createConfigMutex))"
proof -
  let ?m = "snd (mutex_run ''a'' createConfigMutex)"
  have "mutex_step\<^sup>*\<^sup>* createConfigMutex ?m" by (rule r_into_rtranclp) (rule mutex_step.RunStep)
  moreover have "0 < length (mx_started ?m)" "mx_started ?m ! 0 = ''a''" "mx_settled ?m = []"
    by (simp_all add: mutex_run_def createConfigMutex_def)
  ultimately show ?thesis using one_fetch_per_config [of ?m 0] by simp
qed

text \<open>
  After \<^verbatim>\<open>clearLocks\<close> the mutex no longer excludes: the old promise, when it settles, removes
  the entry of the new one, and a third call starts a third fetch while the second is under way.
\<close>

lemma clear_locks_breaks_the_mutex:
  "(let m1 = snd (mutex_run ''a'' createConfigMutex);
        m2 = snd (mutex_run ''a'' (mutex_clear m1));
        m3 = snd (mutex_run ''a'' (mutex_settle 0 m2))
    in mx_started m3 = [''a'', ''a'', ''a''] \<and> mx_settled m3 = [0])"
  by (simp add: mutex_run_def mutex_clear_def mutex_settle_def createConfigMutex_def Let_def)

section \<open>The storage contract\<close>

text \<open>
  What the cache relies on: a key reads what was last written to it, writing one key leaves the
  others alone, and a removed key holds nothing.
\<close>

locale config_cache =
  fixes st :: "'kv config_storage"
  assumes string_read: "cs_getString st k (cs_setString st k (JStr v) kv) = Some v"
    and number_read: "cs_getNumber st k (cs_setNumber st k n kv) = Some n"
    and string_elsewhere: "k \<noteq> k' \<Longrightarrow> cs_getString st k (cs_setString st k' x kv) = cs_getString st k kv \<and>
      cs_getNumber st k (cs_setString st k' x kv) = cs_getNumber st k kv"
    and number_elsewhere: "k \<noteq> k' \<Longrightarrow> cs_getString st k (cs_setNumber st k' n kv) = cs_getString st k kv \<and>
      cs_getNumber st k (cs_setNumber st k' n kv) = cs_getNumber st k kv"
    and removed: "cs_getString st k (cs_removeItem st k kv) = None"
    and removed_elsewhere: "k \<noteq> k' \<Longrightarrow> cs_getString st k (cs_removeItem st k' kv) = cs_getString st k kv"
begin

lemma keys_differ [simp]:
  "dataKey n \<noteq> versionKey m" "dataKey n \<noteq> timestampKey m" "versionKey n \<noteq> timestampKey m"
  "dataKey n = dataKey m \<longleftrightarrow> n = m" "versionKey n = versionKey m \<longleftrightarrow> n = m"
  "timestampKey n = timestampKey m \<longleftrightarrow> n = m"
  by (simp_all add: dataKey_def versionKey_def timestampKey_def)

lemma keys_differ' [simp]: "versionKey m \<noteq> dataKey n" "timestampKey m \<noteq> dataKey n"
  "timestampKey m \<noteq> versionKey n"
  by (simp_all add: dataKey_def versionKey_def timestampKey_def)

lemma stored_entry_is_read:
  "readFromStorage st n (store_entry st n \<lparr>ce_raw = JStr raw, ce_version = v, ce_fetchedAtMs = t\<rparr> kv)
   = Some \<lparr>ce_raw = JStr raw, ce_version = v, ce_fetchedAtMs = t\<rparr>"
  by (simp add: readFromStorage_def store_entry_def number_elsewhere string_read number_read or_zero_def)

lemma stored_elsewhere:
  "n \<noteq> m \<Longrightarrow> readFromStorage st n (store_entry st m e kv) = readFromStorage st n kv"
  by (simp add: readFromStorage_def store_entry_def number_elsewhere string_elsewhere
      cong: option.case_cong)

lemma cleared_entry_is_gone:
  "readFromStorage st n (cv_store (clearConfigFromCache st n s)) = None"
  by (simp add: readFromStorage_def clearConfigFromCache_def removed removed_elsewhere)

text \<open>What a successful fetch leaves in both caches.\<close>

lemma fetch_fills_the_cache:
  assumes get: "\<And>q. fst (cd_get d u q s) = Inr resp" and st: "cd_storage d = st"
    and resp: "hr_status resp = 200" "hr_body resp = JStr raw"
    and fetch: "fetchConfigFromNetwork d i version s = (Inr val, t)"
    and u: "u = ''/v1/config/'' @ cg_configName i"
  shows "\<exists>v. let e = \<lparr>ce_raw = JStr raw, ce_version = v, ce_fetchedAtMs = env_now t\<rparr> in
      map_of (cv_memory t) (cg_configName i) = Some e \<and>
      readFromStorage st (cg_configName i) (cv_store t) = Some e \<and> cg_parser i (JStr raw) = Inr val"
proof -
  let ?q = "Some (empty_options\<lparr>ro_query := buildQuery (cg_checkVersion i) version\<rparr>)"
  obtain s1 where s1: "cd_get d u ?q s = (Inr resp, s1)" using get [of ?q] by (metis prod.collapse)
  from fetch u s1 have h: "handle_response d i version resp s1 = (Inr val, t)"
    by (simp add: fetchConfigFromNetwork_def io_simps)
  then obtain v where v: "cg_parser i (JStr raw) = Inr val"
    "resolveVersion val (hr_headers resp) (cg_checkVersion i) = Inr v"
    "t = writeToCache st (cg_configName i)
       \<lparr>ce_raw = JStr raw, ce_version = v, ce_fetchedAtMs = env_now s1\<rparr> s1"
    using resp st
    by (auto simp: handle_response_def io_simps throw_sum_def split: sum.splits)
  then have "env_now t = env_now s1" by (simp add: writeToCache_def)
  with v show ?thesis
    by (intro exI [of _ v])
      (simp add: Let_def writeToCache_def AList.update_conv' stored_entry_is_read)
qed

end

locale config_web = kv_codec cd for cd :: "'a codec" +
  fixes to_str :: "js_value \<Rightarrow> string"
  assumes strings_stay: "to_str (JStr v) = v"

sublocale config_web \<subseteq> web_config: config_cache "web_config_storage cd to_str sid" for sid
  by unfold_locales
    (simp_all add: web_config_storage_def web_kv_defs AList.update_conv' AList.delete_conv'
      number_read_back strings_stay)

context config_web begin

lemma is_config_cache: "config_cache (web_config_storage cd to_str sid)"
  by (rule web_config.config_cache_axioms)

end

definition text_of_value :: "js_value \<Rightarrow> string" where
  "text_of_value v = (case v of JStr s \<Rightarrow> s | _ \<Rightarrow> ''[object Object]'')"

interpretation sample_config: config_web string_codec text_of_value
  by unfold_locales (simp add: text_of_value_def)

text \<open>
  A body that is not a string is stored as what \<^verbatim>\<open>String\<close> makes of it: the memory cache
  and the storage then hold different things.
\<close>

lemma stored_body_is_stringified:
  "cs_getString (web_config_storage cd to_str sid) (dataKey n)
     (store_entry (web_config_storage cd to_str sid) n e kv) = Some (to_str (ce_raw e))"
  by (simp add: web_config_storage_def store_entry_def web_kv_defs AList.update_conv' dataKey_def
      versionKey_def timestampKey_def)

section \<open>Serving from the cache\<close>

lemma cached_read:
  assumes "cg_parser i raw = Inr val" "val \<noteq> JNull"
    and "readCachedConfig d i ttl s = tryParse raw (cg_parser i) s"
  shows "executeGetConfig d i ttl s =
    (Inr val, s\<lparr>env_log := env_log s @ [log_entry_of LDebug ''Serving config from cache''
       ''remote-config'' [(''configName'', JStr (cg_configName i))]]\<rparr>)"
  using assms by (simp add: executeGetConfig_def io_simps tryParse_def Let_def)

lemma cached_read_of_entry:
  assumes e: "readFromStorage (cd_storage d) (cg_configName i) (cv_store s) = Some e"
    and m: "map_of (cv_memory s) (cg_configName i) \<in> {None, Some e}"
    and now: "env_now s < ce_fetchedAtMs e + ttl"
  shows "readCachedConfig d i ttl s = tryParse (ce_raw e) (cg_parser i) s"
  using assms
  by (auto simp: readCachedConfig_def io_simps readFromMemoryCache_def config_isExpired_def)

text \<open>
  C24. A fetched configuration survives a restart. After a fetch whose body is a string, and whatever
  happens to other configurations, a later read within the time to live returns the same value
  without asking the server, whether the memory cache is still there or the program was
  restarted and only the storage is left.
\<close>

theorem config_survives_restart:
  assumes "codec_ok cd" and "\<And>v. to_str (JStr v) = v"
    and st: "cd_storage d = web_config_storage cd to_str sid"
    and get: "\<And>q. fst (cd_get d (''/v1/config/'' @ cg_configName i) q s) = Inr resp"
    and resp: "hr_status resp = 200" "hr_body resp = JStr raw"
    and fetch: "fetchConfigFromNetwork d i version s = (Inr val, t)" and val: "val \<noteq> JNull"
    and kept: "readFromStorage (cd_storage d) (cg_configName i) (cv_store u) =
        readFromStorage (cd_storage d) (cg_configName i) (cv_store t)"
      "map_of (cv_memory u) (cg_configName i) \<in> {None, map_of (cv_memory t) (cg_configName i)}"
    and now: "env_now u < env_now t + ttl"
  shows "executeGetConfig d i ttl u =
    (Inr val, u\<lparr>env_log := env_log u @ [log_entry_of LDebug ''Serving config from cache''
       ''remote-config'' [(''configName'', JStr (cg_configName i))]]\<rparr>)"
proof -
  have "config_web cd to_str" by unfold_locales (use assms(1,2) in simp_all)
  then have c: "config_cache (web_config_storage cd to_str sid)"
    by (rule config_web.is_config_cache)
  from config_cache.fetch_fills_the_cache [OF c get st resp fetch refl]
  obtain v where e: "map_of (cv_memory t) (cg_configName i) =
        Some \<lparr>ce_raw = JStr raw, ce_version = v, ce_fetchedAtMs = env_now t\<rparr>"
    "readFromStorage (cd_storage d) (cg_configName i) (cv_store t) =
        Some \<lparr>ce_raw = JStr raw, ce_version = v, ce_fetchedAtMs = env_now t\<rparr>"
    "cg_parser i (JStr raw) = Inr val"
    by (auto simp: Let_def st)
  from cached_read_of_entry [of d i u, OF kept(1) [unfolded e(2)]] kept(2) e(1) now
  have "readCachedConfig d i ttl u = tryParse (JStr raw) (cg_parser i) u" by simp
  from cached_read [OF e(3) val this] show ?thesis .
qed

definition sample_identity :: config_identity where
  "sample_identity = \<lparr>cg_configName = ''cfg'', cg_parser = Inr, cg_checkVersion = False\<rparr>"

definition sample_config_response :: http_response where
  "sample_config_response = \<lparr>hr_status = 200, hr_headers = [], hr_body = JStr ''on''\<rparr>"

definition sample_config_deps :: "(js_error + http_response) \<Rightarrow> (local_storage, unit) config_deps" where
  "sample_config_deps r =
     \<lparr>cd_get = (\<lambda>u q s. (r, s)),
      cd_storage = web_config_storage string_codec text_of_value ''remote-config''\<rparr>"

definition sample_config_env :: "int \<Rightarrow> local_storage config_env" where
  "sample_config_env now = \<lparr>env_now = now, env_log = [], cv_memory = [], cv_store = []\<rparr>"

theorem config_survives_restart_witness:
  "let d = sample_config_deps (Inr sample_config_response);
       t = snd (fetchConfigFromNetwork d sample_identity 0 (sample_config_env 1000));
       u = t\<lparr>env_now := 5000, cv_memory := []\<rparr>
   in fst (executeGetConfig d sample_identity 300000 u) = Inr (JStr ''on'')"
proof -
  let ?d = "sample_config_deps (Inr sample_config_response)"
  let ?st = "web_config_storage string_codec text_of_value ''remote-config''"
  let ?e = "\<lparr>ce_raw = JStr ''on'', ce_version = 0, ce_fetchedAtMs = 1000\<rparr>"
  let ?t = "writeToCache ?st ''cfg'' ?e (sample_config_env 1000)"
  have fetch: "fetchConfigFromNetwork ?d sample_identity 0 (sample_config_env 1000) = (Inr (JStr ''on''), ?t)"
    by (simp add: fetchConfigFromNetwork_def handle_response_def sample_config_deps_def sample_identity_def
        sample_config_response_def sample_config_env_def io_simps throw_sum_def resolveVersion_def)
  have now: "env_now ?t = 1000" by (simp add: writeToCache_def sample_config_env_def)
  have "executeGetConfig ?d sample_identity 300000 (?t\<lparr>env_now := 5000, cv_memory := []\<rparr>) =
    (Inr (JStr ''on''), ?t\<lparr>env_now := 5000, cv_memory := []\<rparr>\<lparr>env_log := env_log (?t\<lparr>env_now := 5000, cv_memory := []\<rparr>) @
       [log_entry_of LDebug ''Serving config from cache'' ''remote-config''
         [(''configName'', JStr (cg_configName sample_identity))]]\<rparr>)"
    by (rule config_survives_restart [where raw = "''on''" and resp = sample_config_response, OF strings.cd_ok sample_config.strings_stay _ _ _ _ fetch])
      (simp_all add: sample_config_deps_def sample_config_response_def now)
  with fetch show ?thesis by (simp add: Let_def)
qed

section \<open>When the server fails\<close>

definition entry_of :: "('kv, 'x) config_deps \<Rightarrow> config_identity \<Rightarrow> ('kv, 'x) config_env_scheme \<Rightarrow> cached_entry option" where
  "entry_of d i s = readFromStorage (cd_storage d) (cg_configName i) (cv_store s)"

lemma stale_read:
  assumes "entry_of d i s = Some e" "cg_parser i (ce_raw e) = Inr val"
  shows "readStaleCache d i s = (Inr val, s)"
  using assms by (simp add: readStaleCache_def io_simps entry_of_def)

text \<open>The first read: the value of a fresh entry, or nothing.\<close>

lemma read_of_parsable:
  assumes e: "entry_of d i s = Some e" "cg_parser i (ce_raw e) = Inr val"
    and m: "map_of (cv_memory s) (cg_configName i) \<in> {None, Some e}"
  shows "readCachedConfig d i ttl s =
    (Inr (if config_isExpired (env_now s) (ce_fetchedAtMs e) ttl then JNull else val, False), s)"
  using assms
  by (auto simp: readCachedConfig_def io_simps readFromMemoryCache_def entry_of_def tryParse_def)

text \<open>
  A stale configuration is better than none. While the storage holds an entry that parses, a read
  gives its value whatever the age, if the server cannot be reached, answers with an error or
  answers that nothing changed; the read does not fail.
\<close>

definition server_fails :: "(js_error + http_response) \<Rightarrow> bool" where
  "server_fails r = (case r of Inl e \<Rightarrow> True | Inr resp \<Rightarrow> hr_status resp \<noteq> 200)"

lemma failed_fetch_gives_nothing:
  assumes "server_fails (fst (cd_get d (''/v1/config/'' @ cg_configName i)
      (Some (empty_options\<lparr>ro_query := buildQuery (cg_checkVersion i) version\<rparr>)) s))"
    and "\<And>u q s. cv_store (snd (cd_get d u q s)) = cv_store s \<and> cv_memory (snd (cd_get d u q s)) = cv_memory s"
  shows "fst (tryNetworkFetch d i version s) = Inr JNull \<and>
    cv_store (snd (tryNetworkFetch d i version s)) = cv_store s \<and>
    cv_memory (snd (tryNetworkFetch d i version s)) = cv_memory s"
proof -
  let ?q = "Some (empty_options\<lparr>ro_query := buildQuery (cg_checkVersion i) version\<rparr>)"
  obtain r t where r: "cd_get d (''/v1/config/'' @ cg_configName i) ?q s = (r, t)" by fastforce
  have t: "cv_store t = cv_store s" "cv_memory t = cv_memory s"
    using assms(2) [of "''/v1/config/'' @ cg_configName i" ?q s] r by simp_all
  show ?thesis
    using assms(1) r t
    by (cases r)
      (auto simp: tryNetworkFetch_def fetchConfigFromNetwork_def handle_response_def io_simps server_fails_def)
qed

theorem stale_config_on_failure:
  assumes e: "entry_of d i s = Some e" "cg_parser i (ce_raw e) = Inr val" "val \<noteq> JNull"
    and m: "map_of (cv_memory s) (cg_configName i) \<in> {None, Some e}"
    and fails: "\<And>q s. server_fails (fst (cd_get d (''/v1/config/'' @ cg_configName i) q s))"
    and keeps: "\<And>u q s. cv_store (snd (cd_get d u q s)) = cv_store s \<and> cv_memory (snd (cd_get d u q s)) = cv_memory s"
  shows "fst (executeGetConfig d i ttl s) = Inr val \<and>
    entry_of d i (snd (executeGetConfig d i ttl s)) = Some e"
proof (cases "config_isExpired (env_now s) (ce_fetchedAtMs e) ttl")
  case False
  with read_of_parsable [OF e(1,2) m] e show ?thesis
    by (simp add: executeGetConfig_def io_simps Let_def entry_of_def)
next
  case True
  let ?v = "getStoredVersion (cd_storage d) (cg_configName i) (cv_store s)"
  obtain r t where r: "tryNetworkFetch d i ?v s = (r, t)" by fastforce
  with failed_fetch_gives_nothing [of d i ?v s, OF fails keeps]
  have t: "r = Inr JNull" "cv_store t = cv_store s" by simp_all
  then have "entry_of d i t = Some e" using e by (simp add: entry_of_def)
  with stale_read [of d i t, OF this e(2)] r t True read_of_parsable [OF e(1,2) m] e(3)
  show ?thesis by (simp add: executeGetConfig_def io_simps Let_def entry_of_def)
qed

theorem stale_config_on_failure_witness:
  "let d = sample_config_deps (Inl (JsErr None));
       s = sample_config_env 1000000\<lparr>cv_store := [(''@ion/remote-config/remote_config:data:cfg'', ''on'')]\<rparr>
   in fst (executeGetConfig d sample_identity 300000 s) = Inr (JStr ''on'')"
proof -
  let ?d = "sample_config_deps (Inl (JsErr None))"
  let ?s = "sample_config_env 1000000\<lparr>cv_store := [(''@ion/remote-config/remote_config:data:cfg'', ''on'')]\<rparr>"
  let ?e = "\<lparr>ce_raw = JStr ''on'', ce_version = 0, ce_fetchedAtMs = 0\<rparr>"
  have "entry_of ?d sample_identity ?s = Some ?e"
    by (simp add: entry_of_def readFromStorage_def sample_config_deps_def web_config_storage_def web_kv_defs
        sample_identity_def dataKey_def versionKey_def timestampKey_def prefixKey_def or_zero_def)
  from stale_config_on_failure [OF this, of "JStr ''on''"] show ?thesis
    by (simp add: Let_def sample_identity_def sample_config_deps_def sample_config_env_def server_fails_def)
qed

section \<open>Errors and requests\<close>

definition counts_requests ::
  "(('kv, 'x) config_env_scheme \<Rightarrow> nat) \<Rightarrow> ('kv, 'x) config_deps \<Rightarrow> bool" where
  "counts_requests meter d =
     ((\<forall>u q. grows meter 1 (cd_get d u q)) \<and>
      (\<forall>s l. meter (s\<lparr>env_log := l\<rparr>) = meter s) \<and>
      (\<forall>s n e. meter (writeToCache (cd_storage d) n e s) = meter s))"

lemma grows_log:
  assumes "counts_requests meter d"
  shows "grows meter 0 (emit_log lvl msg tag data)"
  using assms by (simp add: grows_def io_simps counts_requests_def)

lemma grows_throw_sum: "grows meter 0 (throw_sum r)"
  by (cases r) (simp_all add: throw_sum_def grows_return grows_throw)

lemma grows_fetch:
  assumes c: "counts_requests meter d"
  shows "grows meter 1 (fetchConfigFromNetwork d i version)"
proof -
  have get: "grows meter 1 (config_lift (cd_get d u q))" for u q
    using c by (auto simp: grows_def io_simps counts_requests_def split: prod.splits sum.splits) (metis snd_conv)+
  have wr: "grows meter 0 (io_modify (\<lambda>s. writeToCache (cd_storage d) n (f s) s))" for n f
    using c by (simp add: grows_def io_simps counts_requests_def)
  show ?thesis
    unfolding fetchConfigFromNetwork_def handle_response_def
    by (intro grows_bind_first get grows_if grows_bind_rest grows_then_rest grows_log [OF c]
        grows_throw_sum wr grows_return grows_throw)
qed

lemma grows_try:
  assumes c: "counts_requests meter d"
  shows "grows meter 1 (tryNetworkFetch d i version)"
  unfolding tryNetworkFetch_def
  by (intro grows_catch_first grows_fetch [OF c] grows_if grows_throw grows_then_rest grows_log [OF c]
      grows_return)

lemma grows_force:
  assumes c: "counts_requests meter d"
  shows "grows meter 1 (forceFetchConfig d i)"
  unfolding forceFetchConfig_def
  by (intro grows_bind_first grows_catch_first grows_fetch [OF c] grows_if grows_throw grows_return)

lemma reads_send_nothing:
  assumes "counts_requests meter d"
  shows "grows meter 0 (readCachedConfig d i ttl)" "grows meter 0 (readStaleCache d i)"
  using assms
  by (auto simp: grows_def counts_requests_def readCachedConfig_def readStaleCache_def tryParse_def
      io_simps split: option.splits sum.splits)

lemma grows_after_failure:
  assumes c: "counts_requests meter d"
  shows "grows meter 1 (io_bind (readStaleCache d i) (\<lambda>stale. if stale \<noteq> JNull
      then io_then (emit_log a b c' e) (io_return stale) else io_then (emit_log p q r z) (forceFetchConfig d i)))"
  by (intro grows_bind_rest reads_send_nothing [OF c] grows_if grows_then_rest grows_log [OF c]
      grows_force [OF c]) (rule grows_weaken [OF grows_return], simp)

lemma grows_after_cache:
  assumes c: "counts_requests meter d"
  shows "grows meter (1 + 1) (io_bind (tryNetworkFetch d i v) (\<lambda>net. if net \<noteq> JNull
      then io_then (emit_log l m n z) (io_return net)
      else io_bind (readStaleCache d i) (\<lambda>stale. if stale \<noteq> JNull
        then io_then (emit_log a b c' e) (io_return stale)
        else io_then (emit_log p q r y) (forceFetchConfig d i))))"
  by (intro grows_bind grows_try [OF c] grows_if grows_after_failure [OF c] grows_then_rest grows_log [OF c])
    (rule grows_weaken [OF grows_return], simp)

lemma grows_executeGetConfig:
  assumes c: "counts_requests meter d"
  shows "grows meter (1 + 1) (executeGetConfig d i ttl)"
  unfolding executeGetConfig_def Let_def
  by (intro grows_bind_rest [OF reads_send_nothing(1) [OF c]] grows_case_prod grows_if
      grows_bind_rest [OF grows_gets] grows_after_cache [OF c] grows_then_rest [OF grows_log [OF c]]
      grows_weaken [OF grows_return]) simp

fun config_outcome :: "config_failure + js_value \<Rightarrow> bool" where
  "config_outcome (Inl (ConfigErr c m q)) = True"
| "config_outcome (Inl (OtherFailure e)) = False"
| "config_outcome (Inr v) = (v \<noteq> JNull)"

lemma reads_do_not_fail:
  "\<exists>v b t. readCachedConfig d i ttl s = (Inr (v, b), t)"
  by (auto simp: readCachedConfig_def tryParse_def io_simps split: option.splits sum.splits)

lemma stale_read_does_not_fail:
  "\<exists>v t. readStaleCache d i s = (Inr v, t)"
  by (auto simp: readStaleCache_def io_simps split: option.splits sum.splits)

lemma try_outcome:
  assumes "tryNetworkFetch d i version s = (Inl e, t)"
  shows "config_outcome (Inl e)"
  using assms
  by (cases e) (auto simp: tryNetworkFetch_def io_simps split: prod.splits sum.splits if_splits
      config_failure.splits)

lemma force_outcome: "config_outcome (fst (forceFetchConfig d i s))"
  by (auto simp: forceFetchConfig_def io_simps split: prod.splits sum.splits)

text \<open>
  What a call can end in. It asks the server at most twice, once with the stored version and once
  for everything; it ends with a value, never \<^verbatim>\<open>null\<close>, or with a \<^verbatim>\<open>ConfigError\<close>, never with
  an error of the network or of the parser.
\<close>

theorem get_config_outcome:
  assumes "counts_requests meter d"
  shows "config_outcome (fst (executeGetConfig d i ttl s)) \<and>
    meter (snd (executeGetConfig d i ttl s)) \<le> meter s + 2"
proof
  show "meter (snd (executeGetConfig d i ttl s)) \<le> meter s + 2"
    using growsD [OF grows_executeGetConfig [OF assms], of i ttl s] by simp
  obtain v b t where t: "readCachedConfig d i ttl s = (Inr (v, b), t)"
    using reads_do_not_fail by blast
  let ?v = "if b then 0 else getStoredVersion (cd_storage d) (cg_configName i) (cv_store t)"
  obtain r u where u: "tryNetworkFetch d i ?v t = (r, u)" by fastforce
  obtain stale w where w: "readStaleCache d i u = (Inr stale, w)"
    using stale_read_does_not_fail by blast
  show "config_outcome (fst (executeGetConfig d i ttl s))"
  proof (cases r)
    case (Inl e)
    with try_outcome [of d i ?v t e u] u t show ?thesis
      by (simp add: executeGetConfig_def io_simps Let_def)
  next
    case (Inr net)
    with t u w force_outcome [of d i] show ?thesis
      by (simp add: executeGetConfig_def io_simps Let_def)
  qed
qed

text \<open>A client that counts its calls in the clock.\<close>

definition counting_deps :: "(local_storage, unit) config_deps" where
  "counting_deps =
     \<lparr>cd_get = (\<lambda>u q s. (Inl (JsErr None), s\<lparr>env_now := env_now s + 1\<rparr>)),
      cd_storage = web_config_storage string_codec text_of_value ''remote-config''\<rparr>"

lemma nat_add_distrib_le: "nat (n + 1) \<le> Suc (nat n)"
  by simp

theorem get_config_outcome_witness:
  "nat (env_now (snd (executeGetConfig counting_deps sample_identity 300000 (sample_config_env 0)))) \<le> 2"
proof -
  have "counts_requests (\<lambda>s. nat (env_now s)) counting_deps"
    by (simp add: counts_requests_def counting_deps_def grows_def writeToCache_def nat_add_distrib_le)
  from get_config_outcome [OF this, of sample_identity 300000 "sample_config_env 0"] show ?thesis
    by (simp add: sample_config_env_def)
qed

text \<open>
  An answer \<^verbatim>\<open>204\<close> does not renew the entry: it is as old as before, so that every later read
  asks the server again, although it was just told that nothing changed.
\<close>

lemma not_modified_does_not_renew:
  assumes "cd_get d (''/v1/config/'' @ cg_configName i) (Some (empty_options\<lparr>ro_query :=
      buildQuery (cg_checkVersion i) version\<rparr>)) s = (Inr resp, t)" "hr_status resp = 204"
  shows "cv_store (snd (fetchConfigFromNetwork d i version s)) = cv_store t \<and>
    cv_memory (snd (fetchConfigFromNetwork d i version s)) = cv_memory t"
  using assms by (simp add: fetchConfigFromNetwork_def handle_response_def io_simps)

text \<open>
  An answer without a version is not treated as a failed fetch: the error reaches the caller,
  although a stale entry may be there.
\<close>

lemma missing_version_reaches_the_caller:
  assumes "readCachedConfig d i ttl s = (Inr (JNull, False), s)"
    and "cd_get d (''/v1/config/'' @ cg_configName i) (Some (empty_options\<lparr>ro_query :=
      buildQuery (cg_checkVersion i) (getStoredVersion (cd_storage d) (cg_configName i) (cv_store s))\<rparr>)) s
        = (Inr resp, t)" "hr_status resp = 200"
    and "cg_parser i (hr_body resp) = Inr val" "resolveVersion val (hr_headers resp) (cg_checkVersion i)
        = Inl (ConfigErr CONFIG_VERSION_MISSING m q)"
  shows "fst (executeGetConfig d i ttl s) = Inl (ConfigErr CONFIG_VERSION_MISSING m q)"
  using assms
  by (simp add: executeGetConfig_def tryNetworkFetch_def fetchConfigFromNetwork_def handle_response_def
      throw_sum_def io_simps Let_def)

end
