(* ===== verification/DaemonManager.thy ===== *)
theory DaemonManager
  imports LongPoll
begin

text \<open>
  \<^verbatim>\<open>packages/ion-connect-proxy\<close> and \<^verbatim>\<open>packages/ton-storage\<close>: the managers that keep a
  native daemon running. They are the same program but for the points that \<open>dk_storage\<close> tells
  apart. The state holds what a manager remembers and the calls whose answer is outstanding (its
  tasks, each the rest of an \<^verbatim>\<open>async\<close> function after its \<^verbatim>\<open>await\<close>); a step is a call by the
  application, an answer of the native module, a timer, or an event of the network or of the
  application. Everything that runs up to the next such event is one step. Log entries are left
  out, status handlers do not throw, the native module is there, and a random number is an
  input of the step that draws it.
\<close>

section \<open>Configuration and state\<close>

record daemon_config =
  dk_storage :: bool
  dk_maxRestartAttempts :: nat
  dk_restartBaseDelayMs :: real

definition DEFAULT_MAX_RESTART_ATTEMPTS :: nat where
  "DEFAULT_MAX_RESTART_ATTEMPTS = 3"

definition DEFAULT_RESTART_BASE_DELAY_MS :: real where
  "DEFAULT_RESTART_BASE_DELAY_MS = 1000"

datatype native_call = NativeStart | NativeStop | NativeCheck

datatype check_origin = Periodic | Foreground

datatype daemon_task =
    Starting
  | Stopping bool
  | Disposing
  | RestartStopping
  | RestartStarting nat
  | RestartDelaying nat real
  | Checking check_origin

datatype lifecycle_call = StartCall | StopCall | DisposeCall

text \<open>
  \<open>dm_waiting\<close> are the callers that await \<^verbatim>\<open>restartPromise\<close>, true for those that schedule the
  health check afterwards; a subscription is its number and its \<^verbatim>\<open>wasBackgrounded\<close>;
  \<open>dm_results\<close> are the settled lifecycle calls, true for a resolved one. \<open>dm_queue\<close> and
  \<open>dm_busy\<close> are the \<^verbatim>\<open>lifecycleQueue\<close> of the storage manager.
\<close>

record daemon =
  dm_machine :: connection_machine
  dm_isRestarting :: bool
  dm_waiting :: "bool list"
  dm_healthTimer :: "nat option"
  dm_timers :: "nat list"
  dm_nextTimer :: nat
  dm_disposed :: bool
  dm_subscriptions :: "(nat \<times> bool) list"
  dm_cleanup :: "nat option"
  dm_tasks :: "daemon_task list"
  dm_calls :: "native_call list"
  dm_queue :: "lifecycle_call list"
  dm_busy :: bool
  dm_results :: "(lifecycle_call \<times> bool) list"

type_synonym dm_io = "(daemon, string, unit) io"

abbreviation dm_status :: "daemon \<Rightarrow> connection_state" where
  "dm_status s \<equiv> cm_state (dm_machine s)"

definition new_manager :: daemon where
  "new_manager =
     \<lparr>dm_machine = createConnectionStateMachine, dm_isRestarting = False, dm_waiting = [],
      dm_healthTimer = None, dm_timers = [], dm_nextTimer = 1, dm_disposed = False,
      dm_subscriptions = [], dm_cleanup = None, dm_tasks = [], dm_calls = [], dm_queue = [],
      dm_busy = False, dm_results = []\<rparr>"

section \<open>The native module\<close>

fun type_name :: "js_value \<Rightarrow> string" where
  "type_name JUndefined = ''undefined''"
| "type_name (JBool b) = ''boolean''"
| "type_name (JNum n) = ''number''"
| "type_name (JStr s) = ''string''"
| "type_name v = ''object''"

text \<open>The answer of a native start, or its rejection, as the code reads it.\<close>

definition startDaemon :: "string + js_value \<Rightarrow> string + string" where
  "startDaemon answer =
     (case answer of
        Inl e \<Rightarrow> Inl e
      | Inr (JStr r) \<Rightarrow> if prefix ''ERR:'' r then Inl r else Inr r
      | Inr v \<Rightarrow> Inl (''Unexpected native result type: '' @ type_name v))"

text \<open>The race of a health check with its timeout: nothing where the timeout is first.\<close>

definition runHealthCheck :: "(string + bool) option \<Rightarrow> bool" where
  "runHealthCheck answer =
     (case answer of None \<Rightarrow> False | Some (Inl e) \<Rightarrow> False | Some (Inr isHealthy) \<Rightarrow> isHealthy)"

section \<open>Pieces\<close>

definition dm_transition :: "connection_state \<Rightarrow> dm_io" where
  "dm_transition dest = (\<lambda>s. case machine_transition dest (dm_machine s) of
       Inl e \<Rightarrow> (Inl e, s) | Inr m \<Rightarrow> (Inr (), s\<lparr>dm_machine := m\<rparr>))"

definition awaits :: "native_call \<Rightarrow> daemon_task \<Rightarrow> daemon \<Rightarrow> daemon" where
  "awaits c t s = s\<lparr>dm_calls := dm_calls s @ [c], dm_tasks := dm_tasks s @ [t]\<rparr>"

definition stopHealthCheck :: "daemon \<Rightarrow> daemon" where
  "stopHealthCheck s =
     (case dm_healthTimer s of
        None \<Rightarrow> s
      | Some t \<Rightarrow> s\<lparr>dm_timers := set_delete t (dm_timers s), dm_healthTimer := None\<rparr>)"

definition scheduleHealthCheck :: "daemon \<Rightarrow> daemon" where
  "scheduleHealthCheck s =
     (let s' = stopHealthCheck s in
      s'\<lparr>dm_healthTimer := Some (dm_nextTimer s'), dm_timers := dm_timers s' @ [dm_nextTimer s'],
         dm_nextTimer := dm_nextTimer s' + 1\<rparr>)"

definition setupSubscriptions :: "daemon \<Rightarrow> daemon" where
  "setupSubscriptions s =
     s\<lparr>dm_subscriptions := dm_subscriptions s @ [(dm_nextTimer s, False)],
       dm_cleanup := Some (dm_nextTimer s), dm_nextTimer := dm_nextTimer s + 1\<rparr>"

definition cleanupSubscriptions :: "daemon \<Rightarrow> daemon" where
  "cleanupSubscriptions s =
     (case dm_cleanup s of
        None \<Rightarrow> s
      | Some n \<Rightarrow> s\<lparr>dm_subscriptions := filter (\<lambda>(k, _). k \<noteq> n) (dm_subscriptions s),
                    dm_cleanup := None\<rparr>)"

section \<open>Restarting\<close>

definition schedule_if_connected :: "bool \<Rightarrow> daemon \<Rightarrow> daemon" where
  "schedule_if_connected after s =
     (if after \<and> dm_status s = Connected then scheduleHealthCheck s else s)"

text \<open>The end of \<^verbatim>\<open>restartPromise\<close>: the \<^verbatim>\<open>finally\<close> of its owner, then what its callers do.\<close>

definition restart_resolves :: "daemon \<Rightarrow> daemon" where
  "restart_resolves s =
     fold schedule_if_connected (dm_waiting s) (s\<lparr>dm_isRestarting := False, dm_waiting := []\<rparr>)"

definition restart_rejects :: "daemon \<Rightarrow> daemon" where
  "restart_rejects s = s\<lparr>dm_isRestarting := False, dm_waiting := []\<rparr>"

definition finish_restart :: "dm_io \<Rightarrow> daemon \<Rightarrow> daemon" where
  "finish_restart m s =
     (case m s of (Inl e, t) \<Rightarrow> restart_rejects t | (Inr u, t) \<Rightarrow> restart_resolves t)"

definition executeRestart :: "daemon \<Rightarrow> daemon" where
  "executeRestart s =
     (case dm_transition Reconnecting s of
        (Inl e, t) \<Rightarrow> restart_rejects t
      | (Inr u, t) \<Rightarrow> awaits NativeStop RestartStopping t)"

definition restartDaemon :: "bool \<Rightarrow> daemon \<Rightarrow> daemon" where
  "restartDaemon after s =
     (if dm_disposed s then schedule_if_connected after s
      else if dm_isRestarting s then s\<lparr>dm_waiting := dm_waiting s @ [after]\<rparr>
      else executeRestart (s\<lparr>dm_isRestarting := True, dm_waiting := [after]\<rparr>))"

text \<open>The head of the loop of \<^verbatim>\<open>retryStart\<close>, at the given attempt, and what follows it.\<close>

definition retryStart :: "daemon_config \<Rightarrow> nat \<Rightarrow> daemon \<Rightarrow> daemon" where
  "retryStart cfg attempt s =
     (if attempt \<le> dk_maxRestartAttempts cfg
      then if dm_disposed s then restart_resolves s
           else awaits NativeStart (RestartStarting attempt) s
      else finish_restart (dm_transition Disconnected) s)"

definition calculateBackoffDelay :: "nat \<Rightarrow> real \<Rightarrow> real \<Rightarrow> real" where
  "calculateBackoffDelay attempt baseDelay random =
     baseDelay * 2 ^ (attempt - 1) + random * baseDelay * (3 / 10)"

definition attempt_failed :: "daemon_config \<Rightarrow> nat \<Rightarrow> real \<Rightarrow> daemon \<Rightarrow> daemon" where
  "attempt_failed cfg attempt random s =
     (if attempt < dk_maxRestartAttempts cfg
      then s\<lparr>dm_tasks := dm_tasks s @
               [RestartDelaying attempt
                  (calculateBackoffDelay attempt (dk_restartBaseDelayMs cfg) random)]\<rparr>
      else retryStart cfg (attempt + 1) s)"

definition attemptStart ::
  "daemon_config \<Rightarrow> nat \<Rightarrow> string + js_value \<Rightarrow> real \<Rightarrow> daemon \<Rightarrow> daemon" where
  "attemptStart cfg attempt answer random s =
     (case startDaemon answer of
        Inl e \<Rightarrow> attempt_failed cfg attempt random s
      | Inr r \<Rightarrow>
          (case dm_transition Connected s of
             (Inl e, t) \<Rightarrow> attempt_failed cfg attempt random t
           | (Inr u, t) \<Rightarrow> restart_resolves t))"

section \<open>Starting, stopping, disposing\<close>

definition end_lifecycle :: "lifecycle_call \<Rightarrow> bool \<Rightarrow> daemon \<Rightarrow> daemon" where
  "end_lifecycle call ok s = s\<lparr>dm_results := dm_results s @ [(call, ok)], dm_busy := False\<rparr>"

definition startManager :: "daemon \<Rightarrow> daemon" where
  "startManager s =
     (case dm_transition Connecting s of
        (Inl e, t) \<Rightarrow> end_lifecycle StartCall False t
      | (Inr u, t) \<Rightarrow> awaits NativeStart Starting t)"

text \<open>\<^verbatim>\<open>startManager\<close> after its \<^verbatim>\<open>await\<close>; only the storage manager looks at \<^verbatim>\<open>disposed\<close>.\<close>

definition manager_started :: "daemon_config \<Rightarrow> string + js_value \<Rightarrow> daemon \<Rightarrow> daemon" where
  "manager_started cfg answer s =
     (case startDaemon answer of
        Inl e \<Rightarrow> end_lifecycle StartCall False (snd (dm_transition Disconnected s))
      | Inr r \<Rightarrow>
          if dk_storage cfg \<and> dm_disposed s then end_lifecycle StartCall True s
          else (case dm_transition Connected s of
                  (Inl e, t) \<Rightarrow> end_lifecycle StartCall False t
                | (Inr u, t) \<Rightarrow>
                    end_lifecycle StartCall True (scheduleHealthCheck (setupSubscriptions t))))"

definition stopManager :: "daemon \<Rightarrow> daemon" where
  "stopManager s =
     (let t = cleanupSubscriptions (stopHealthCheck s) in
      if dm_status t \<noteq> Idle \<and> dm_status t \<noteq> Disconnected then awaits NativeStop (Stopping True) t
      else if dm_status t = Disconnected then awaits NativeStop (Stopping False) t
      else end_lifecycle StopCall True t)"

definition manager_stopped :: "bool \<Rightarrow> daemon \<Rightarrow> daemon" where
  "manager_stopped moves s =
     (if moves
      then (case dm_transition Disconnected s of
              (Inl e, t) \<Rightarrow> end_lifecycle StopCall False t
            | (Inr u, t) \<Rightarrow> end_lifecycle StopCall True t)
      else end_lifecycle StopCall True s)"

text \<open>The proxy manager does not wait for its daemon to stop.\<close>

definition disposeManager :: "daemon_config \<Rightarrow> daemon \<Rightarrow> daemon" where
  "disposeManager cfg s =
     (let t = awaits NativeStop Disposing
                (cleanupSubscriptions (stopHealthCheck (s\<lparr>dm_disposed := True\<rparr>)))
      in if dk_storage cfg then t else end_lifecycle DisposeCall True t)"

definition manager_disposed :: "daemon_config \<Rightarrow> daemon \<Rightarrow> daemon" where
  "manager_disposed cfg s = (if dk_storage cfg then end_lifecycle DisposeCall True s else s)"

fun begin_lifecycle :: "daemon_config \<Rightarrow> lifecycle_call \<Rightarrow> daemon \<Rightarrow> daemon" where
  "begin_lifecycle cfg StartCall s = startManager (s\<lparr>dm_busy := True\<rparr>)"
| "begin_lifecycle cfg StopCall s = stopManager (s\<lparr>dm_busy := True\<rparr>)"
| "begin_lifecycle cfg DisposeCall s = disposeManager cfg (s\<lparr>dm_busy := True\<rparr>)"

text \<open>The queued calls that run before the next one has to wait, at most \<open>n\<close>.\<close>

fun drain :: "daemon_config \<Rightarrow> nat \<Rightarrow> daemon \<Rightarrow> daemon" where
  "drain cfg 0 s = s"
| "drain cfg (Suc n) s =
     (if dm_busy s then s
      else (case dm_queue s of
              [] \<Rightarrow> s
            | call # rest \<Rightarrow> drain cfg n (begin_lifecycle cfg call (s\<lparr>dm_queue := rest\<rparr>))))"

definition drain_queue :: "daemon_config \<Rightarrow> daemon \<Rightarrow> daemon" where
  "drain_queue cfg s = drain cfg (length (dm_queue s)) s"

definition enqueueLifecycle :: "daemon_config \<Rightarrow> lifecycle_call \<Rightarrow> daemon \<Rightarrow> daemon" where
  "enqueueLifecycle cfg call s =
     (if dk_storage cfg then drain_queue cfg (s\<lparr>dm_queue := dm_queue s @ [call]\<rparr>)
      else begin_lifecycle cfg call s)"

section \<open>Checks and events\<close>

definition runPeriodicCheck :: "daemon \<Rightarrow> daemon" where
  "runPeriodicCheck s =
     (if dm_disposed s \<or> dm_isRestarting s \<or> dm_status s \<noteq> Connected then s
      else awaits NativeCheck (Checking Periodic) s)"

definition periodic_check_ends :: "bool \<Rightarrow> daemon \<Rightarrow> daemon" where
  "periodic_check_ends isHealthy s =
     (if \<not> isHealthy \<and> \<not> dm_disposed s \<and> \<not> dm_isRestarting s
      then restartDaemon True (stopHealthCheck s) else s)"

definition checkAndRestart :: "daemon \<Rightarrow> daemon" where
  "checkAndRestart s =
     (if dm_isRestarting s \<or> dm_disposed s then s
      else awaits NativeCheck (Checking Foreground) s)"

definition foreground_check_ends :: "bool \<Rightarrow> daemon \<Rightarrow> daemon" where
  "foreground_check_ends isHealthy s =
     (if \<not> isHealthy \<and> \<not> dm_disposed s then restartDaemon False s else s)"

definition subscribeNetworkInterface :: "daemon \<Rightarrow> daemon" where
  "subscribeNetworkInterface s =
     (if dm_disposed s \<or> dm_status s \<noteq> Connected then s else restartDaemon False s)"

definition subscribeOnlineState :: "bool \<Rightarrow> daemon \<Rightarrow> daemon" where
  "subscribeOnlineState isOnline s =
     (if dm_disposed s then s
      else if \<not> isOnline
      then (if dm_status s = Connected then snd (dm_transition Disconnected s) else s)
      else if dm_status s = Disconnected then restartDaemon False s else s)"

datatype app_state = AppActive | AppInactive | AppBackground

definition mapNativeState :: "string \<Rightarrow> app_state" where
  "mapNativeState nativeState =
     (if nativeState = ''active'' then AppActive
      else if nativeState = ''inactive'' then AppInactive else AppBackground)"

definition set_backgrounded :: "nat \<Rightarrow> bool \<Rightarrow> daemon \<Rightarrow> daemon" where
  "set_backgrounded n b s =
     s\<lparr>dm_subscriptions := map (\<lambda>(k, c). if k = n then (k, b) else (k, c)) (dm_subscriptions s)\<rparr>"

definition subscribeAppState :: "app_state \<Rightarrow> nat \<times> bool \<Rightarrow> daemon \<Rightarrow> daemon" where
  "subscribeAppState state sub s =
     (if dm_disposed s then s
      else if state = AppBackground then set_backgrounded (fst sub) True s
      else if state = AppActive \<and> snd sub
      then checkAndRestart (set_backgrounded (fst sub) False s)
      else s)"

text \<open>The failure handler of the proxy's transport.\<close>

definition onFailure :: "daemon \<Rightarrow> daemon" where
  "onFailure s =
     (if \<not> dm_isRestarting s \<and> dm_status s = Connected
      then restartDaemon True (stopHealthCheck s) else s)"

section \<open>Steps\<close>

datatype daemon_event =
    Call lifecycle_call
  | Settles nat "string + js_value" real
  | CheckAnswers nat "(string + bool) option"
  | HealthTick nat
  | InterfaceSwitch
  | OnlineSwitch bool
  | AppSwitch app_state
  | RequestFails

definition without_task :: "nat \<Rightarrow> daemon \<Rightarrow> daemon" where
  "without_task i s = s\<lparr>dm_tasks := take i (dm_tasks s) @ drop (Suc i) (dm_tasks s)\<rparr>"

text \<open>A task goes on with the answer that it awaited.\<close>

fun task_continues ::
  "daemon_config \<Rightarrow> daemon_task \<Rightarrow> string + js_value \<Rightarrow> real \<Rightarrow> daemon \<Rightarrow> daemon" where
  "task_continues cfg Starting answer random s = drain_queue cfg (manager_started cfg answer s)"
| "task_continues cfg (Stopping moves) answer random s = drain_queue cfg (manager_stopped moves s)"
| "task_continues cfg Disposing answer random s = drain_queue cfg (manager_disposed cfg s)"
| "task_continues cfg RestartStopping answer random s = retryStart cfg 1 s"
| "task_continues cfg (RestartStarting n) answer random s = attemptStart cfg n answer random s"
| "task_continues cfg (RestartDelaying n d) answer random s = retryStart cfg (n + 1) s"
| "task_continues cfg (Checking origin) answer random s = s"

fun check_continues :: "check_origin \<Rightarrow> (string + bool) option \<Rightarrow> daemon \<Rightarrow> daemon" where
  "check_continues Periodic answer s = periodic_check_ends (runHealthCheck answer) s"
| "check_continues Foreground answer s = foreground_check_ends (runHealthCheck answer) s"

fun daemon_step :: "daemon_config \<Rightarrow> daemon_event \<Rightarrow> daemon \<Rightarrow> daemon" where
  "daemon_step cfg (Call call) s = enqueueLifecycle cfg call s"
| "daemon_step cfg (Settles i answer random) s =
     (if i < length (dm_tasks s)
      then (case dm_tasks s ! i of
              Checking origin \<Rightarrow> s
            | t \<Rightarrow> task_continues cfg t answer random (without_task i s))
      else s)"
| "daemon_step cfg (CheckAnswers i answer) s =
     (if i < length (dm_tasks s)
      then (case dm_tasks s ! i of
              Checking origin \<Rightarrow> check_continues origin answer (without_task i s)
            | _ \<Rightarrow> s)
      else s)"
| "daemon_step cfg (HealthTick t) s = (if t \<in> set (dm_timers s) then runPeriodicCheck s else s)"
| "daemon_step cfg InterfaceSwitch s = fold (\<lambda>_. subscribeNetworkInterface) (dm_subscriptions s) s"
| "daemon_step cfg (OnlineSwitch b) s = fold (\<lambda>_. subscribeOnlineState b) (dm_subscriptions s) s"
| "daemon_step cfg (AppSwitch state) s = fold (subscribeAppState state) (dm_subscriptions s) s"
| "daemon_step cfg RequestFails s = (if dk_storage cfg then s else onFailure s)"

definition daemon_run :: "daemon_config \<Rightarrow> daemon_event list \<Rightarrow> daemon \<Rightarrow> daemon" where
  "daemon_run cfg es s = fold (daemon_step cfg) es s"

section \<open>The invariant\<close>

fun is_restart_task :: "daemon_task \<Rightarrow> bool" where
  "is_restart_task RestartStopping = True"
| "is_restart_task (RestartStarting n) = True"
| "is_restart_task (RestartDelaying n d) = True"
| "is_restart_task t = False"

fun is_lifecycle_task :: "daemon_task \<Rightarrow> bool" where
  "is_lifecycle_task Starting = True"
| "is_lifecycle_task (Stopping b) = True"
| "is_lifecycle_task Disposing = True"
| "is_lifecycle_task t = False"

fun attempt_ok :: "daemon_config \<Rightarrow> daemon_task \<Rightarrow> bool" where
  "attempt_ok cfg (RestartStarting n) = (n \<le> dk_maxRestartAttempts cfg)"
| "attempt_ok cfg (RestartDelaying n d) = (n < dk_maxRestartAttempts cfg)"
| "attempt_ok cfg t = True"

definition timers_ok :: "daemon \<Rightarrow> bool" where
  "timers_ok s = (dm_timers s = (case dm_healthTimer s of None \<Rightarrow> [] | Some t \<Rightarrow> [t]))"

text \<open>A restart is under way exactly where one task is its rest, and somebody awaits it.\<close>

definition restarts_ok :: "daemon_config \<Rightarrow> daemon \<Rightarrow> bool" where
  "restarts_ok cfg s =
     (length (filter is_restart_task (dm_tasks s)) = (if dm_isRestarting s then 1 else 0) \<and>
      (dm_isRestarting s \<longleftrightarrow> dm_waiting s \<noteq> []) \<and> list_all (attempt_ok cfg) (dm_tasks s) \<and> timers_ok s)"

text \<open>In the middle of a piece of a restart, whose task has been taken up.\<close>

definition mid_restart :: "daemon_config \<Rightarrow> daemon \<Rightarrow> bool" where
  "mid_restart cfg s =
     (filter is_restart_task (dm_tasks s) = [] \<and> dm_isRestarting s \<and> dm_waiting s \<noteq> [] \<and>
      list_all (attempt_ok cfg) (dm_tasks s) \<and> timers_ok s)"

text \<open>The storage manager runs one lifecycle call at a time.\<close>

definition lifecycle_ok :: "daemon_config \<Rightarrow> daemon \<Rightarrow> bool" where
  "lifecycle_ok cfg s =
     (if dk_storage cfg
      then length (filter is_lifecycle_task (dm_tasks s)) = (if dm_busy s then 1 else 0) \<and>
           (if dm_busy s then True else dm_queue s = [])
      else True)"

lemma dm_transition_snd: "\<exists>m. snd (dm_transition dest s) = s\<lparr>dm_machine := m\<rparr>"
  by (auto simp: dm_transition_def split: sum.splits intro: exI [of _ "dm_machine s"])

lemma dm_transition_cases:
  "dm_transition dest s =
     (if dest \<in> set (VALID_TRANSITIONS (dm_status s))
      then (Inr (), s\<lparr>dm_machine := dm_machine s\<lparr>cm_state := dest,
              cm_calls := cm_calls (dm_machine s) @ map (\<lambda>h. (h, dest)) (cm_handlers (dm_machine s))\<rparr>\<rparr>)
      else (Inl (''Invalid state transition: '' @ state_name (dm_status s) @ '' -> '' @ state_name dest), s))"
  by (simp add: dm_transition_def machine_transition_def)

lemma predicates_machine [simp]:
  "restarts_ok cfg (s\<lparr>dm_machine := m\<rparr>) = restarts_ok cfg s"
  "mid_restart cfg (s\<lparr>dm_machine := m\<rparr>) = mid_restart cfg s"
  "lifecycle_ok cfg (s\<lparr>dm_machine := m\<rparr>) = lifecycle_ok cfg s"
  by (simp_all add: restarts_ok_def mid_restart_def lifecycle_ok_def timers_ok_def)

lemma predicates_transition [simp]:
  "restarts_ok cfg (snd (dm_transition d s)) = restarts_ok cfg s"
  "mid_restart cfg (snd (dm_transition d s)) = mid_restart cfg s"
  "lifecycle_ok cfg (snd (dm_transition d s)) = lifecycle_ok cfg s"
  by (simp_all add: dm_transition_cases)

subsection \<open>Timers\<close>

lemma timers_ok_stop: "timers_ok s \<Longrightarrow> timers_ok (stopHealthCheck s)"
  by (auto simp: timers_ok_def stopHealthCheck_def set_delete_def split: option.splits)

lemma timers_ok_schedule: "timers_ok s \<Longrightarrow> timers_ok (scheduleHealthCheck s)"
  by (auto simp: timers_ok_def scheduleHealthCheck_def stopHealthCheck_def set_delete_def Let_def
      split: option.splits)

text \<open>What the timer operations leave alone.\<close>

lemma timer_frame [simp]:
  "dm_tasks (stopHealthCheck s) = dm_tasks s" "dm_tasks (scheduleHealthCheck s) = dm_tasks s"
  "dm_isRestarting (stopHealthCheck s) = dm_isRestarting s"
  "dm_isRestarting (scheduleHealthCheck s) = dm_isRestarting s"
  "dm_waiting (stopHealthCheck s) = dm_waiting s" "dm_waiting (scheduleHealthCheck s) = dm_waiting s"
  "dm_machine (stopHealthCheck s) = dm_machine s" "dm_machine (scheduleHealthCheck s) = dm_machine s"
  "dm_busy (stopHealthCheck s) = dm_busy s" "dm_busy (scheduleHealthCheck s) = dm_busy s"
  "dm_queue (stopHealthCheck s) = dm_queue s" "dm_queue (scheduleHealthCheck s) = dm_queue s"
  "dm_disposed (stopHealthCheck s) = dm_disposed s" "dm_disposed (scheduleHealthCheck s) = dm_disposed s"
  "dm_calls (stopHealthCheck s) = dm_calls s" "dm_calls (scheduleHealthCheck s) = dm_calls s"
  "dm_results (stopHealthCheck s) = dm_results s" "dm_results (scheduleHealthCheck s) = dm_results s"
  "dm_subscriptions (stopHealthCheck s) = dm_subscriptions s"
  "dm_cleanup (stopHealthCheck s) = dm_cleanup s"
  by (simp_all add: stopHealthCheck_def scheduleHealthCheck_def Let_def split: option.splits)

lemma predicates_stop [simp]:
  "restarts_ok cfg s \<Longrightarrow> restarts_ok cfg (stopHealthCheck s)"
  "restarts_ok cfg s \<Longrightarrow> restarts_ok cfg (scheduleHealthCheck s)"
  "lifecycle_ok cfg (stopHealthCheck s) = lifecycle_ok cfg s"
  "lifecycle_ok cfg (scheduleHealthCheck s) = lifecycle_ok cfg s"
  by (simp_all add: restarts_ok_def lifecycle_ok_def timers_ok_stop timers_ok_schedule)

lemma predicates_schedule_if [simp]:
  "restarts_ok cfg s \<Longrightarrow> restarts_ok cfg (schedule_if_connected after s)"
  "lifecycle_ok cfg (schedule_if_connected after s) = lifecycle_ok cfg s"
  by (simp_all add: schedule_if_connected_def)

lemma predicates_schedule_all [simp]:
  "restarts_ok cfg s \<Longrightarrow> restarts_ok cfg (fold schedule_if_connected ws s)"
  "lifecycle_ok cfg (fold schedule_if_connected ws s) = lifecycle_ok cfg s"
  by (induction ws arbitrary: s) simp_all

lemma schedule_all_frame [simp]:
  "dm_tasks (fold schedule_if_connected ws s) = dm_tasks s"
  "dm_isRestarting (fold schedule_if_connected ws s) = dm_isRestarting s"
  "dm_machine (fold schedule_if_connected ws s) = dm_machine s"
  "dm_calls (fold schedule_if_connected ws s) = dm_calls s"
  "dm_disposed (fold schedule_if_connected ws s) = dm_disposed s"
  by (induction ws arbitrary: s) (simp_all add: schedule_if_connected_def)

subsection \<open>Restarts\<close>

lemma ends_restart:
  assumes "mid_restart cfg s"
  shows "restarts_ok cfg (restart_resolves s)" and "restarts_ok cfg (restart_rejects s)"
proof -
  have "restarts_ok cfg (s\<lparr>dm_isRestarting := False, dm_waiting := []\<rparr>)"
    using assms by (simp add: mid_restart_def restarts_ok_def timers_ok_def)
  then show "restarts_ok cfg (restart_resolves s)" "restarts_ok cfg (restart_rejects s)"
    by (simp_all add: restart_resolves_def restart_rejects_def)
qed

lemma lifecycle_ends_restart [simp]:
  "lifecycle_ok cfg (restart_resolves s) = lifecycle_ok cfg s"
  "lifecycle_ok cfg (restart_rejects s) = lifecycle_ok cfg s"
  by (simp_all add: restart_resolves_def restart_rejects_def lifecycle_ok_def [of cfg "_\<lparr>dm_waiting := _\<rparr>"]
      lifecycle_ok_def [of cfg s])

lemma goes_on:
  assumes "mid_restart cfg s" "is_restart_task t" "attempt_ok cfg t"
  shows "restarts_ok cfg (s\<lparr>dm_tasks := dm_tasks s @ [t]\<rparr>)" and "restarts_ok cfg (awaits c t s)"
  using assms by (simp_all add: mid_restart_def restarts_ok_def awaits_def timers_ok_def)

lemma lifecycle_goes_on [simp]:
  "\<not> is_lifecycle_task t \<Longrightarrow> lifecycle_ok cfg (awaits c t s) = lifecycle_ok cfg s"
  "\<not> is_lifecycle_task t \<Longrightarrow> lifecycle_ok cfg (s\<lparr>dm_tasks := dm_tasks s @ [t]\<rparr>) = lifecycle_ok cfg s"
  by (simp_all add: lifecycle_ok_def awaits_def)

lemma restart_of_mid:
  assumes "mid_restart cfg s"
  shows "restarts_ok cfg (retryStart cfg n s)" "restarts_ok cfg (attempt_failed cfg n r s)"
    "restarts_ok cfg (attemptStart cfg n answer r s)" "restarts_ok cfg (executeRestart s)"
proof -
  note m = assms ends_restart [OF assms]
  have fin: "restarts_ok cfg (finish_restart (dm_transition d) s)" for d
    using m ends_restart [of cfg "snd (dm_transition d s)"]
    by (auto simp: finish_restart_def split: prod.splits sum.splits)
  show retry: "restarts_ok cfg (retryStart cfg n s)" for n
    using m fin goes_on [OF assms] by (simp add: retryStart_def)
  show failed: "restarts_ok cfg (attempt_failed cfg n r s)"
    using retry goes_on [OF assms] by (simp add: attempt_failed_def)
  show "restarts_ok cfg (attemptStart cfg n answer r s)"
    using failed m ends_restart(1) [of cfg "snd (dm_transition Connected s)"]
    by (auto simp: attemptStart_def dm_transition_cases split: sum.splits)
  show "restarts_ok cfg (executeRestart s)"
    using m goes_on(2) [of cfg "snd (dm_transition Reconnecting s)"]
    by (auto simp: executeRestart_def dm_transition_cases)
qed

lemma lifecycle_of_restart [simp]:
  "lifecycle_ok cfg (retryStart cfg n s) = lifecycle_ok cfg s"
  "lifecycle_ok cfg (attempt_failed cfg n r s) = lifecycle_ok cfg s"
  "lifecycle_ok cfg (attemptStart cfg n answer r s) = lifecycle_ok cfg s"
  "lifecycle_ok cfg (executeRestart s) = lifecycle_ok cfg s"
proof -
  have fin: "lifecycle_ok cfg (finish_restart (dm_transition d) s) = lifecycle_ok cfg s" for d
    by (simp add: finish_restart_def dm_transition_cases)
  show retry: "lifecycle_ok cfg (retryStart cfg n s) = lifecycle_ok cfg s" for n
    by (simp add: retryStart_def fin)
  show failed: "lifecycle_ok cfg (attempt_failed cfg n r s) = lifecycle_ok cfg s"
    by (simp add: attempt_failed_def retry)
  show "lifecycle_ok cfg (attemptStart cfg n answer r s) = lifecycle_ok cfg s"
    using failed by (simp add: attemptStart_def dm_transition_cases split: sum.splits)
  show "lifecycle_ok cfg (executeRestart s) = lifecycle_ok cfg s"
    by (simp add: executeRestart_def dm_transition_cases)
qed

lemma restartDaemon_ok:
  assumes "restarts_ok cfg s"
  shows "restarts_ok cfg (restartDaemon after s)"
proof -
  have "restarts_ok cfg (s\<lparr>dm_waiting := dm_waiting s @ [after]\<rparr>)" if "dm_isRestarting s"
    using that assms by (simp add: restarts_ok_def timers_ok_def)
  moreover have "restarts_ok cfg (executeRestart (s\<lparr>dm_isRestarting := True, dm_waiting := [after]\<rparr>))"
    if "\<not> dm_isRestarting s"
    using that assms
    by (intro restart_of_mid(4)) (simp add: mid_restart_def restarts_ok_def timers_ok_def)
  ultimately show ?thesis using assms by (simp add: restartDaemon_def)
qed

lemma lifecycle_restartDaemon [simp]:
  "lifecycle_ok cfg (restartDaemon after s) = lifecycle_ok cfg s"
  by (simp add: restartDaemon_def) (simp add: lifecycle_ok_def)

subsection \<open>Lifecycle calls\<close>

lemma restarts_awaits [simp]:
  "\<not> is_restart_task t \<Longrightarrow> attempt_ok cfg t \<Longrightarrow> restarts_ok cfg (awaits c t s) = restarts_ok cfg s"
  by (simp add: restarts_ok_def awaits_def timers_ok_def)

lemma restarts_frame [simp]:
  "restarts_ok cfg (end_lifecycle call ok s) = restarts_ok cfg s"
  "restarts_ok cfg (setupSubscriptions s) = restarts_ok cfg s"
  "restarts_ok cfg (cleanupSubscriptions s) = restarts_ok cfg s"
  "restarts_ok cfg (s\<lparr>dm_disposed := b\<rparr>) = restarts_ok cfg s"
  "restarts_ok cfg (s\<lparr>dm_busy := b\<rparr>) = restarts_ok cfg s"
  "restarts_ok cfg (s\<lparr>dm_queue := q\<rparr>) = restarts_ok cfg s"
  "restarts_ok cfg (set_backgrounded n b s) = restarts_ok cfg s"
  by (simp_all add: restarts_ok_def timers_ok_def end_lifecycle_def setupSubscriptions_def
      cleanupSubscriptions_def set_backgrounded_def split: option.splits)

lemma restarts_begin: "restarts_ok cfg s \<Longrightarrow> restarts_ok cfg (begin_lifecycle cfg call s)"
  by (cases call) (simp_all add: startManager_def stopManager_def disposeManager_def dm_transition_cases Let_def)

lemma restarts_drain: "restarts_ok cfg s \<Longrightarrow> restarts_ok cfg (drain cfg n s)"
  by (induction n arbitrary: s) (simp_all add: restarts_begin split: list.splits)

lemma restarts_settled:
  "restarts_ok cfg s \<Longrightarrow> restarts_ok cfg (manager_started cfg answer s)"
  "restarts_ok cfg s \<Longrightarrow> restarts_ok cfg (manager_stopped moves s)"
  "restarts_ok cfg s \<Longrightarrow> restarts_ok cfg (manager_disposed cfg s)"
  by (simp_all add: manager_started_def manager_stopped_def manager_disposed_def dm_transition_cases
      split: sum.splits)

text \<open>Between two lifecycle calls of the storage manager, or in the middle of one.\<close>

definition one_lifecycle :: "daemon_config \<Rightarrow> daemon \<Rightarrow> bool" where
  "one_lifecycle cfg s =
     (if dk_storage cfg
      then length (filter is_lifecycle_task (dm_tasks s)) = (if dm_busy s then 1 else 0) else True)"

definition no_lifecycle_task :: "daemon_config \<Rightarrow> daemon \<Rightarrow> bool" where
  "no_lifecycle_task cfg s =
     (if dk_storage cfg then filter is_lifecycle_task (dm_tasks s) = [] else True)"

lemma begin_frame [simp]: "dm_queue (begin_lifecycle cfg call s) = dm_queue s"
  by (cases call)
    (simp_all add: startManager_def stopManager_def disposeManager_def dm_transition_cases Let_def
      awaits_def end_lifecycle_def cleanupSubscriptions_def split: option.splits)

lemma one_lifecycle_begin:
  "no_lifecycle_task cfg s \<Longrightarrow> one_lifecycle cfg (begin_lifecycle cfg call s)"
  by (cases call)
    (simp_all add: one_lifecycle_def no_lifecycle_task_def startManager_def stopManager_def
      disposeManager_def dm_transition_cases Let_def awaits_def end_lifecycle_def cleanupSubscriptions_def
      split: option.splits)

lemma one_lifecycle_drain:
  "one_lifecycle cfg s \<Longrightarrow> length (dm_queue s) \<le> n \<Longrightarrow> lifecycle_ok cfg (drain cfg n s)"
proof (induction n arbitrary: s)
  case 0
  then show ?case by (simp add: one_lifecycle_def lifecycle_ok_def)
next
  case (Suc n)
  show ?case
  proof (cases "dm_busy s")
    case True
    with Suc.prems show ?thesis by (simp add: one_lifecycle_def lifecycle_ok_def)
  next
    case idle: False
    show ?thesis
    proof (cases "dm_queue s")
      case Nil
      with idle Suc.prems show ?thesis by (simp add: one_lifecycle_def lifecycle_ok_def)
    next
      case (Cons call rest)
      have "no_lifecycle_task cfg (s\<lparr>dm_queue := rest\<rparr>)"
        using idle Suc.prems(1) by (auto simp: one_lifecycle_def no_lifecycle_task_def)
      from Suc.IH [OF one_lifecycle_begin [OF this, of call]] Cons idle Suc.prems(2)
      show ?thesis by simp
    qed
  qed
qed

lemma lifecycle_drain_queue: "one_lifecycle cfg s \<Longrightarrow> lifecycle_ok cfg (drain_queue cfg s)"
  by (simp add: drain_queue_def one_lifecycle_drain)

lemma one_lifecycle_settled:
  assumes "no_lifecycle_task cfg s"
  shows "one_lifecycle cfg (manager_started cfg answer s)"
    "one_lifecycle cfg (manager_stopped moves s)" "one_lifecycle cfg (manager_disposed cfg s)"
  using assms
  by (auto simp: one_lifecycle_def no_lifecycle_task_def manager_started_def manager_stopped_def
      manager_disposed_def dm_transition_cases end_lifecycle_def setupSubscriptions_def split: sum.splits)

lemma enqueue_ok:
  assumes "restarts_ok cfg s" "lifecycle_ok cfg s"
  shows "restarts_ok cfg (enqueueLifecycle cfg call s) \<and> lifecycle_ok cfg (enqueueLifecycle cfg call s)"
proof (cases "dk_storage cfg")
  case True
  have "one_lifecycle cfg (s\<lparr>dm_queue := dm_queue s @ [call]\<rparr>)"
    using assms(2) by (simp add: one_lifecycle_def lifecycle_ok_def)
  moreover have "restarts_ok cfg (drain_queue cfg (s\<lparr>dm_queue := dm_queue s @ [call]\<rparr>))"
    unfolding drain_queue_def using assms(1) by (intro restarts_drain) simp
  ultimately show ?thesis using True lifecycle_drain_queue unfolding enqueueLifecycle_def by simp
next
  case False
  with assms restarts_begin show ?thesis by (simp add: enqueueLifecycle_def lifecycle_ok_def)
qed

subsection \<open>Steps keep the invariant\<close>

definition daemon_ok :: "daemon_config \<Rightarrow> daemon \<Rightarrow> bool" where
  "daemon_ok cfg s = (restarts_ok cfg s \<and> lifecycle_ok cfg s)"

lemma lifecycle_frame [simp]:
  "lifecycle_ok cfg (set_backgrounded n b s) = lifecycle_ok cfg s"
  by (simp add: lifecycle_ok_def set_backgrounded_def)

lemma events_ok:
  assumes "daemon_ok cfg s"
  shows "daemon_ok cfg (runPeriodicCheck s)" "daemon_ok cfg (subscribeNetworkInterface s)"
    "daemon_ok cfg (subscribeOnlineState b s)" "daemon_ok cfg (subscribeAppState state sub s)"
    "daemon_ok cfg (onFailure s)" "daemon_ok cfg (check_continues origin answer s)"
proof -
  have r: "daemon_ok cfg (restartDaemon after t)" if "daemon_ok cfg t" for after t
    using that by (simp add: daemon_ok_def restartDaemon_ok)
  have st: "daemon_ok cfg (stopHealthCheck s)" using assms by (simp add: daemon_ok_def)
  note all = assms r [OF assms] r [OF st]
  show "daemon_ok cfg (runPeriodicCheck s)" "daemon_ok cfg (subscribeNetworkInterface s)"
    "daemon_ok cfg (subscribeOnlineState b s)" "daemon_ok cfg (onFailure s)"
    using all by (simp_all add: runPeriodicCheck_def subscribeNetworkInterface_def subscribeOnlineState_def
        onFailure_def daemon_ok_def)
  show "daemon_ok cfg (subscribeAppState state sub s)"
    using assms by (simp add: subscribeAppState_def checkAndRestart_def daemon_ok_def)
  show "daemon_ok cfg (check_continues origin answer s)"
    using all by (cases origin) (simp_all add: periodic_check_ends_def foreground_check_ends_def)
qed

lemma without_task_cases:
  assumes "daemon_ok cfg s" "i < length (dm_tasks s)"
  shows "if is_restart_task (dm_tasks s ! i)
         then mid_restart cfg (without_task i s) \<and> lifecycle_ok cfg (without_task i s)
         else restarts_ok cfg (without_task i s)"
    and "if is_lifecycle_task (dm_tasks s ! i) then no_lifecycle_task cfg (without_task i s)
         else lifecycle_ok cfg (without_task i s)"
proof -
  let ?ts = "dm_tasks s" and ?ws = "take i (dm_tasks s) @ drop (Suc i) (dm_tasks s)"
  have split: "?ts = take i ?ts @ ?ts ! i # drop (Suc i) ?ts"
    using assms(2) by (rule id_take_nth_drop)
  have count: "length (filter P ?ts) = (if P (?ts ! i) then Suc (length (filter P ?ws)) else length (filter P ?ws))" for P
    by (subst split) simp
  have all: "list_all (attempt_ok cfg) ?ws" if "list_all (attempt_ok cfg) ?ts"
    using that by (subst (asm) split) simp
  have both: "is_restart_task t \<Longrightarrow> \<not> is_lifecycle_task t" for t by (cases t) simp_all
  show "if is_restart_task (?ts ! i)
        then mid_restart cfg (without_task i s) \<and> lifecycle_ok cfg (without_task i s)
        else restarts_ok cfg (without_task i s)"
    using assms(1) count [of is_restart_task] count [of is_lifecycle_task] all both [of "?ts ! i"]
    by (auto simp: daemon_ok_def restarts_ok_def mid_restart_def lifecycle_ok_def without_task_def timers_ok_def
        simp del: length_filter_conv_card split: if_splits)
  show "if is_lifecycle_task (?ts ! i) then no_lifecycle_task cfg (without_task i s)
        else lifecycle_ok cfg (without_task i s)"
    using assms(1) count [of is_lifecycle_task]
    by (auto simp: daemon_ok_def lifecycle_ok_def no_lifecycle_task_def without_task_def split: if_splits)
qed

lemma fold_keeps: "(\<And>x s. P s \<Longrightarrow> P (f x s)) \<Longrightarrow> P s \<Longrightarrow> P (fold f xs s)"
  by (induction xs arbitrary: s) auto

lemma task_continues_ok:
  assumes "daemon_ok cfg s" "i < length (dm_tasks s)" "\<not> (\<exists>origin. dm_tasks s ! i = Checking origin)"
  shows "daemon_ok cfg (task_continues cfg (dm_tasks s ! i) answer random (without_task i s))"
proof (cases "is_restart_task (dm_tasks s ! i)")
  case True
  with without_task_cases(1) [OF assms(1,2)]
  have "mid_restart cfg (without_task i s)" "lifecycle_ok cfg (without_task i s)" by simp_all
  with restart_of_mid [of cfg "without_task i s"] True show ?thesis
    by (cases "dm_tasks s ! i") (simp_all add: daemon_ok_def)
next
  case False
  then have life: "is_lifecycle_task (dm_tasks s ! i)"
    using assms(3) by (cases "dm_tasks s ! i") simp_all
  have r: "restarts_ok cfg (without_task i s)" and n: "no_lifecycle_task cfg (without_task i s)"
    using False life without_task_cases [OF assms(1,2)] by simp_all
  have "daemon_ok cfg (drain_queue cfg t)" if "restarts_ok cfg t" "one_lifecycle cfg t" for t
    using that lifecycle_drain_queue [OF that(2)] restarts_drain [OF that(1)]
    by (simp add: daemon_ok_def drain_queue_def)
  with restarts_settled [OF r] one_lifecycle_settled [OF n] life show ?thesis
    by (cases "dm_tasks s ! i") simp_all
qed

lemma check_task_ok:
  assumes "daemon_ok cfg s" "i < length (dm_tasks s)" "dm_tasks s ! i = Checking origin"
  shows "daemon_ok cfg (without_task i s)"
  using without_task_cases [OF assms(1,2)] assms(3) by (simp add: daemon_ok_def)

lemma daemon_step_ok:
  assumes "daemon_ok cfg s"
  shows "daemon_ok cfg (daemon_step cfg e s)"
proof (cases e)
  case (Call call)
  with assms enqueue_ok show ?thesis by (simp add: daemon_ok_def)
next
  case (Settles i answer random)
  with assms task_continues_ok [OF assms, of i answer random] show ?thesis
    by (auto split: daemon_task.splits)
next
  case (CheckAnswers i answer)
  show ?thesis
  proof (cases "i < length (dm_tasks s) \<and> (\<exists>origin. dm_tasks s ! i = Checking origin)")
    case True
    then obtain origin where o: "i < length (dm_tasks s)" "dm_tasks s ! i = Checking origin" by blast
    from events_ok(6) [OF check_task_ok [OF assms o]] CheckAnswers o show ?thesis by simp
  next
    case False
    with CheckAnswers assms show ?thesis by (auto split: daemon_task.splits)
  qed
next
  case (HealthTick t)
  with assms events_ok(1) show ?thesis by simp
next
  case InterfaceSwitch
  with assms show ?thesis by (auto intro: fold_keeps [of "daemon_ok cfg"] events_ok)
next
  case (OnlineSwitch b)
  with assms show ?thesis by (auto intro: fold_keeps [of "daemon_ok cfg"] events_ok)
next
  case (AppSwitch state)
  with assms show ?thesis by (auto intro: fold_keeps [of "daemon_ok cfg"] events_ok)
next
  case RequestFails
  with assms events_ok(5) show ?thesis by simp
qed

lemma daemon_run_ok: "daemon_ok cfg (daemon_run cfg es new_manager)"
proof -
  have "daemon_ok cfg new_manager"
    by (simp add: daemon_ok_def restarts_ok_def lifecycle_ok_def timers_ok_def new_manager_def)
  then show ?thesis
    unfolding daemon_run_def by (intro fold_keeps [of "daemon_ok cfg"] daemon_step_ok)
qed

text \<open>
  C25. Restarts do not race. Whatever the application, the native module, the timers, the network and
  the platform do, in any order: at most one restart of the daemon is under way, it is in one of
  the allowed attempts, at most one health check interval is running, and the storage manager
  works on one lifecycle call at a time, with none left waiting when it is idle.
\<close>

theorem one_restart_at_a_time:
  "let s = daemon_run cfg es new_manager in
   length (filter is_restart_task (dm_tasks s)) = (if dm_isRestarting s then 1 else 0) \<and>
   list_all (attempt_ok cfg) (dm_tasks s) \<and> length (dm_timers s) \<le> 1 \<and>
   (if dk_storage cfg
    then length (filter is_lifecycle_task (dm_tasks s)) = (if dm_busy s then 1 else 0) \<and>
         (if dm_busy s then True else dm_queue s = [])
    else True)"
proof -
  have "length (dm_timers s) \<le> 1" if "timers_ok s" for s
    using that by (auto simp: timers_ok_def split: option.splits)
  with daemon_run_ok [of cfg es] show ?thesis
    by (auto simp: daemon_ok_def restarts_ok_def lifecycle_ok_def Let_def)
qed

section \<open>What a restart comes to\<close>

text \<open>
  The answers of an undisturbed restart: the stop, then each attempt's start and, after a failed
  one, its delay. The task of the restart stays at the index \<open>i\<close>.
\<close>

fun start_ok :: "string + js_value \<Rightarrow> bool" where
  "start_ok (Inr (JStr r)) = (\<not> prefix ''ERR:'' r)"
| "start_ok answer = False"

fun restart_answers ::
  "daemon_config \<Rightarrow> real \<Rightarrow> nat \<Rightarrow> nat \<Rightarrow> (string + js_value) list \<Rightarrow> daemon_event list" where
  "restart_answers cfg random i n [] = []"
| "restart_answers cfg random i n (a # as) =
     Settles i a random #
     (if start_ok a \<or> n \<ge> dk_maxRestartAttempts cfg then []
      else Settles i (Inl []) random # restart_answers cfg random i (n + 1) as)"

lemma start_ok_iff: "start_ok answer \<longleftrightarrow> (\<exists>r. startDaemon answer = Inr r)"
  by (cases answer rule: start_ok.cases) (simp_all add: startDaemon_def)

definition failures :: "(string + js_value) list \<Rightarrow> nat" where
  "failures as = length (takeWhile (\<lambda>a. \<not> start_ok a) (butlast as))"

lemma restart_resolves_frame [simp]:
  "dm_tasks (restart_resolves s) = dm_tasks s" "dm_machine (restart_resolves s) = dm_machine s"
  "dm_calls (restart_resolves s) = dm_calls s" "dm_isRestarting (restart_resolves s) = False"
  "dm_disposed (restart_resolves s) = dm_disposed s"
  by (simp_all add: restart_resolves_def)

lemma retry_loop:
  assumes "dm_tasks s = ts @ [RestartStarting n]" "dm_status s = Reconnecting" "\<not> dm_disposed s"
    and "length as = Suc (dk_maxRestartAttempts cfg) - n" "1 \<le> n" "n \<le> dk_maxRestartAttempts cfg"
  shows "let t = fold (daemon_step cfg) (restart_answers cfg random (length ts) n as) s in
    dm_status t = (if list_ex start_ok as then Connected else Disconnected) \<and>
    \<not> dm_isRestarting t \<and> dm_tasks t = ts \<and>
    dm_calls t = dm_calls s @ replicate (failures as) NativeStart"
  using assms
proof (induction as arbitrary: n s)
  case Nil
  then show ?case by simp
next
  case (Cons a as)
  let ?s1 = "without_task (length ts) s"
  have s1: "dm_tasks ?s1 = ts" "dm_machine ?s1 = dm_machine s" "dm_calls ?s1 = dm_calls s"
    "dm_disposed ?s1 = dm_disposed s"
    using Cons.prems(1) by (simp_all add: without_task_def)
  have step: "daemon_step cfg (Settles (length ts) a random) s = attemptStart cfg n a random ?s1"
    using Cons.prems(1) by simp
  show ?case
  proof (cases "start_ok a")
    case True
    then obtain r where "startDaemon a = Inr r" by (auto simp: start_ok_iff)
    with True step s1 Cons.prems show ?thesis
      by (simp add: attemptStart_def dm_transition_cases Let_def failures_def)
  next
    case False
    then have fails: "attemptStart cfg n a random ?s1 = attempt_failed cfg n random ?s1"
      by (cases "startDaemon a") (auto simp: attemptStart_def start_ok_iff)
    show ?thesis
    proof (cases "n < dk_maxRestartAttempts cfg")
      case False
      with Cons.prems have "as = []" by simp
      with False \<open>\<not> start_ok a\<close> step fails s1 Cons.prems show ?thesis
        by (simp add: attempt_failed_def retryStart_def finish_restart_def dm_transition_cases Let_def failures_def)
    next
      case True
      let ?d = "calculateBackoffDelay n (dk_restartBaseDelayMs cfg) random"
      let ?s2 = "?s1\<lparr>dm_tasks := ts @ [RestartDelaying n ?d]\<rparr>"
      let ?s3 = "awaits NativeStart (RestartStarting (n + 1)) (without_task (length ts) ?s2)"
      have s2: "attempt_failed cfg n random ?s1 = ?s2" using True s1 by (simp add: attempt_failed_def)
      have s3: "daemon_step cfg (Settles (length ts) (Inl []) random) ?s2 = ?s3"
        using True s1 Cons.prems by (simp add: retryStart_def) (simp add: without_task_def)
      have t3: "dm_tasks ?s3 = ts @ [RestartStarting (n + 1)]" "dm_machine ?s3 = dm_machine s"
        "dm_calls ?s3 = dm_calls s @ [NativeStart]" "dm_disposed ?s3 = dm_disposed s"
        using s1 by (simp_all add: awaits_def without_task_def)
      have "as \<noteq> []" using Cons.prems True by auto
      with False have f: "failures (a # as) = Suc (failures as)" by (simp add: failures_def)
      have "let t = fold (daemon_step cfg) (restart_answers cfg random (length ts) (n + 1) as) ?s3 in
          dm_status t = (if list_ex start_ok as then Connected else Disconnected) \<and>
          \<not> dm_isRestarting t \<and> dm_tasks t = ts \<and>
          dm_calls t = dm_calls ?s3 @ replicate (failures as) NativeStart"
        by (rule Cons.IH) (use t3 Cons.prems True in simp_all)
      moreover have "fold (daemon_step cfg) (restart_answers cfg random (length ts) n (a # as)) s =
          fold (daemon_step cfg) (restart_answers cfg random (length ts) (n + 1) as) ?s3"
        using False True step fails s2 s3 by simp
      ultimately show ?thesis using False t3(3) f by (simp add: Let_def)
    qed
  qed
qed

text \<open>
  What a restart comes to. Undisturbed, a restart of a connected or disconnected daemon stops it
  once and starts it until a start succeeds, at most the configured number of times; it ends
  connected exactly if one of the attempts succeeds, and disconnected otherwise; then no restart is
  under way and none of its tasks is left.
\<close>

theorem restart_outcome:
  assumes "\<not> dm_disposed s" "\<not> dm_isRestarting s" "dm_status s \<in> {Connected, Disconnected}"
    and "length as = dk_maxRestartAttempts cfg" "as \<noteq> []"
  shows "let i = length (dm_tasks s);
      t = daemon_run cfg (Settles i stopped random # restart_answers cfg random i 1 as) (restartDaemon after s) in
    dm_status t = (if list_ex start_ok as then Connected else Disconnected) \<and>
    \<not> dm_isRestarting t \<and> dm_tasks t = dm_tasks s \<and>
    dm_calls t = dm_calls s @ NativeStop # replicate (Suc (failures as)) NativeStart"
proof -
  let ?i = "length (dm_tasks s)"
  let ?s1 = "restartDaemon after s"
  have s1: "dm_tasks ?s1 = dm_tasks s @ [RestartStopping]" "dm_status ?s1 = Reconnecting"
    "dm_calls ?s1 = dm_calls s @ [NativeStop]" "dm_disposed ?s1 = dm_disposed s"
    using assms by (auto simp: restartDaemon_def executeRestart_def dm_transition_cases awaits_def)
  let ?s2 = "daemon_step cfg (Settles ?i stopped random) ?s1"
  have s2: "?s2 = retryStart cfg 1 (without_task ?i ?s1)" using s1(1) by simp
  have "1 \<le> dk_maxRestartAttempts cfg" using assms(4,5) by (cases as) auto
  with s2 s1 assms(1) have t2: "dm_tasks ?s2 = dm_tasks s @ [RestartStarting 1]" "dm_status ?s2 = Reconnecting"
    "dm_calls ?s2 = dm_calls s @ [NativeStop, NativeStart]" "\<not> dm_disposed ?s2"
    by (simp_all add: retryStart_def awaits_def without_task_def)
  from retry_loop [OF t2(1,2,4), of as cfg random] assms(4) \<open>1 \<le> dk_maxRestartAttempts cfg\<close> t2(3)
  show ?thesis by (simp add: daemon_run_def Let_def del: daemon_step.simps)
qed

definition proxy_config :: daemon_config where
  "proxy_config =
     \<lparr>dk_storage = False, dk_maxRestartAttempts = DEFAULT_MAX_RESTART_ATTEMPTS,
      dk_restartBaseDelayMs = DEFAULT_RESTART_BASE_DELAY_MS\<rparr>"

definition connected_manager :: daemon where
  "connected_manager = daemon_run proxy_config [Call StartCall, Settles 0 (Inr (JStr ''OK'')) 0] new_manager"

lemmas daemon_defs = daemon_run_def enqueueLifecycle_def startManager_def awaits_def without_task_def
  manager_started_def scheduleHealthCheck_def stopHealthCheck_def setupSubscriptions_def end_lifecycle_def
  dm_transition_cases drain_queue_def startDaemon_def Let_def set_delete_def

lemma connected_manager_is:
  "dm_status connected_manager = Connected" "dm_tasks connected_manager = []"
  "dm_disposed connected_manager = False" "dm_isRestarting connected_manager = False"
  "dm_calls connected_manager = [NativeStart]"
  by (simp_all add: connected_manager_def daemon_defs proxy_config_def new_manager_def
      createConnectionStateMachine_def)

theorem restart_outcome_witness:
  "let as = [Inl ''down'', Inr (JStr ''ERR: port''), Inr (JStr ''OK'')];
       t = daemon_run proxy_config (Settles 0 (Inl []) 0 # restart_answers proxy_config 0 0 1 as)
             (restartDaemon True connected_manager)
   in dm_status t = Connected \<and> dm_calls t = [NativeStart, NativeStop, NativeStart, NativeStart, NativeStart]"
proof -
  let ?as = "[Inl ''down'', Inr (JStr ''ERR: port''), Inr (JStr ''OK'')]"
  have n: "length ?as = dk_maxRestartAttempts proxy_config"
    by (simp add: proxy_config_def DEFAULT_MAX_RESTART_ATTEMPTS_def)
  have f: "list_ex start_ok ?as" "failures ?as = 2" by (simp_all add: failures_def)
  have "replicate (Suc 2) NativeStart = [NativeStart, NativeStart, NativeStart]"
    by (simp add: numeral_2_eq_2)
  with restart_outcome [of connected_manager ?as proxy_config "Inl []" 0 True] n f
  show ?thesis by (simp add: Let_def connected_manager_is)
qed

section \<open>Stopping\<close>

text \<open>A manager with nothing left that would start the daemon.\<close>

fun ends_only :: "daemon_task \<Rightarrow> bool" where
  "ends_only (Stopping b) = True"
| "ends_only Disposing = True"
| "ends_only t = False"

definition quiet :: "daemon \<Rightarrow> bool" where
  "quiet s =
     (dm_status s \<in> {Idle, Disconnected} \<and> dm_subscriptions s = [] \<and> dm_timers s = [] \<and>
      dm_healthTimer s = None \<and> dm_cleanup s = None \<and> \<not> dm_isRestarting s \<and>
      list_all ends_only (dm_tasks s) \<and> StartCall \<notin> set (dm_queue s))"

definition starts :: "daemon \<Rightarrow> nat" where
  "starts s = count_list (dm_calls s) NativeStart"

lemma quiet_frame:
  "quiet s \<Longrightarrow> quiet (end_lifecycle call ok s) \<and> starts (end_lifecycle call ok s) = starts s"
  "quiet s \<Longrightarrow> c \<noteq> NativeStart \<Longrightarrow> ends_only t \<Longrightarrow> quiet (awaits c t s) \<and> starts (awaits c t s) = starts s"
  "quiet s \<Longrightarrow> stopHealthCheck s = s" "quiet s \<Longrightarrow> cleanupSubscriptions s = s"
  "quiet s \<Longrightarrow> quiet (s\<lparr>dm_disposed := True\<rparr>) \<and> starts (s\<lparr>dm_disposed := True\<rparr>) = starts s"
  "quiet s \<Longrightarrow> quiet (s\<lparr>dm_busy := b\<rparr>) \<and> starts (s\<lparr>dm_busy := b\<rparr>) = starts s"
  by (simp_all add: quiet_def starts_def end_lifecycle_def awaits_def stopHealthCheck_def
      cleanupSubscriptions_def)

lemma quiet_begin:
  assumes "quiet s" "call \<noteq> StartCall"
  shows "quiet (begin_lifecycle cfg call s) \<and> starts (begin_lifecycle cfg call s) = starts s"
proof (cases call)
  case StartCall
  with assms show ?thesis by simp
next
  case StopCall
  have "quiet (s\<lparr>dm_busy := True\<rparr>)" "starts (s\<lparr>dm_busy := True\<rparr>) = starts s"
    using quiet_frame(6) [OF assms(1)] by blast+
  with StopCall quiet_frame [of "s\<lparr>dm_busy := True\<rparr>"] show ?thesis
    by (simp add: stopManager_def Let_def)
next
  case DisposeCall
  let ?t = "s\<lparr>dm_busy := True\<rparr>\<lparr>dm_disposed := True\<rparr>"
  have t: "quiet ?t" "starts ?t = starts s"
    using quiet_frame(6) [OF assms(1), of True] quiet_frame(5) [of "s\<lparr>dm_busy := True\<rparr>"] by simp_all
  have u: "quiet (awaits NativeStop Disposing ?t)" "starts (awaits NativeStop Disposing ?t) = starts s"
    using quiet_frame(2) [OF t(1), of NativeStop Disposing] t(2) by simp_all
  with DisposeCall t quiet_frame(3,4) [OF t(1)] quiet_frame(1) [OF u(1)] show ?thesis
    by (simp add: disposeManager_def Let_def)
qed

lemma quiet_drain:
  "quiet s \<Longrightarrow> quiet (drain cfg n s) \<and> starts (drain cfg n s) = starts s"
proof (induction n arbitrary: s)
  case 0
  then show ?case by simp
next
  case (Suc n)
  show ?case
  proof (cases "dm_queue s")
    case Nil
    with Suc.prems show ?thesis by simp
  next
    case (Cons call rest)
    let ?t = "s\<lparr>dm_queue := rest\<rparr>"
    have t: "quiet ?t" "call \<noteq> StartCall" "starts ?t = starts s"
      using Suc.prems Cons by (auto simp: quiet_def starts_def)
    from quiet_begin [OF t(1,2), of cfg] Suc.IH [of "begin_lifecycle cfg call ?t"] t(3) Suc.prems Cons
    show ?thesis by simp
  qed
qed

lemma quiet_settled:
  assumes "quiet s"
  shows "quiet (manager_stopped moves s) \<and> starts (manager_stopped moves s) = starts s"
    and "quiet (manager_disposed cfg s) \<and> starts (manager_disposed cfg s) = starts s"
proof -
  have "Disconnected \<notin> set (VALID_TRANSITIONS (dm_status s))"
    using assms by (auto simp: quiet_def)
  with assms quiet_frame(1) [OF assms]
  show "quiet (manager_stopped moves s) \<and> starts (manager_stopped moves s) = starts s"
    by (simp add: manager_stopped_def dm_transition_cases)
  show "quiet (manager_disposed cfg s) \<and> starts (manager_disposed cfg s) = starts s"
    using assms quiet_frame(1) [OF assms] by (simp add: manager_disposed_def)
qed

lemma quiet_without_task:
  assumes "quiet s" shows "quiet (without_task i s) \<and> starts (without_task i s) = starts s"
  using assms
  by (auto simp: quiet_def starts_def without_task_def list_all_iff dest: in_set_takeD in_set_dropD)

lemma dm_quiet_step:
  assumes "quiet s" "e \<noteq> Call StartCall"
  shows "quiet (daemon_step cfg e s) \<and> starts (daemon_step cfg e s) = starts s"
proof (cases e)
  case (Call call)
  have "quiet (s\<lparr>dm_queue := dm_queue s @ [call]\<rparr>)" "starts (s\<lparr>dm_queue := dm_queue s @ [call]\<rparr>) = starts s"
    using assms Call by (simp_all add: quiet_def starts_def)
  with quiet_drain [of "s\<lparr>dm_queue := dm_queue s @ [call]\<rparr>"] quiet_begin [OF assms(1)] assms(2) Call
  show ?thesis by (simp add: enqueueLifecycle_def drain_queue_def del: drain.simps)
next
  case (Settles i answer random)
  show ?thesis
  proof (cases "i < length (dm_tasks s)")
    case True
    then have t: "ends_only (dm_tasks s ! i)" using assms(1) by (simp add: quiet_def list_all_length)
    have w: "quiet (without_task i s)" "starts (without_task i s) = starts s"
      using quiet_without_task [OF assms(1)] by blast+
    from quiet_settled [OF w(1)] quiet_drain t w(2) True Settles show ?thesis
      by (cases "dm_tasks s ! i") (simp_all add: drain_queue_def)
  qed (use Settles assms in simp)
next
  case (CheckAnswers i answer)
  show ?thesis
  proof (cases "i < length (dm_tasks s)")
    case True
    then have "ends_only (dm_tasks s ! i)" using assms(1) by (simp add: quiet_def list_all_length)
    with CheckAnswers assms True show ?thesis by (cases "dm_tasks s ! i") simp_all
  qed (use CheckAnswers assms in simp)
qed (use assms in \<open>auto simp: quiet_def onFailure_def\<close>)

lemma dm_quiet_run:
  "quiet s \<Longrightarrow> Call StartCall \<notin> set es \<Longrightarrow>
   quiet (daemon_run cfg es s) \<and> starts (daemon_run cfg es s) = starts s"
proof (induction es arbitrary: s)
  case (Cons e es)
  then have "e \<noteq> Call StartCall" by auto
  with dm_quiet_step [of s e cfg] Cons show ?case by (simp add: daemon_run_def del: daemon_step.simps)
qed (simp add: daemon_run_def)



text \<open>A start that succeeds for a manager that is disconnected.\<close>

lemma refused_start:
  assumes "dm_tasks s = [RestartStarting 1]" "dm_status s = Disconnected"
  shows "let t = daemon_step cfg (Settles 0 (Inr (JStr ''OK'')) r) s in
    dm_status t = Disconnected \<and> dm_calls t = dm_calls s \<and> dm_results t = dm_results s"
  using assms
  by (simp add: without_task_def attemptStart_def startDaemon_def attempt_failed_def retryStart_def
      finish_restart_def restart_rejects_def dm_transition_cases Let_def)

text \<open>
  Stopping during a restart is not. If the application calls \<^verbatim>\<open>stop\<close> while a restart waits for its
  daemon to stop, the stop resolves and the manager is disconnected; then the restart goes on and
  starts the daemon, which is left running: the move to connected is refused, and no stop follows.
\<close>

theorem stop_during_restart_is_undone:
  assumes "dm_tasks s = [RestartStopping]" "dm_status s = Reconnecting" "\<not> dm_disposed s"
    and "dm_queue s = []" "\<not> dm_busy s" "1 \<le> dk_maxRestartAttempts cfg"
  shows "let t = daemon_run cfg [Call StopCall, Settles 1 a r, Settles 0 b r,
        Settles 0 (Inr (JStr ''OK'')) r] s in
    dm_status t = Disconnected \<and> last (dm_results t) = (StopCall, True) \<and>
    dm_calls t = dm_calls s @ [NativeStop, NativeStart]"
proof -
  let ?e1 = "Call StopCall" and ?e2 = "Settles 1 a r" and ?e3 = "Settles 0 b r"
  let ?s1 = "daemon_step cfg ?e1 s" and ?s2 = "daemon_step cfg ?e2 (daemon_step cfg ?e1 s)"
  let ?s3 = "daemon_step cfg ?e3 ?s2"
  have clean: "dm_status (cleanupSubscriptions u) = dm_status u" "dm_calls (cleanupSubscriptions u) = dm_calls u"
    "dm_tasks (cleanupSubscriptions u) = dm_tasks u" "dm_disposed (cleanupSubscriptions u) = dm_disposed u"
    "dm_queue (cleanupSubscriptions u) = dm_queue u" for u
    by (simp_all add: cleanupSubscriptions_def split: option.splits)
  have idle: "s\<lparr>dm_queue := []\<rparr> = s" using assms(4) by (cases s) simp
  have s1: "dm_tasks ?s1 = [RestartStopping, Stopping True]" "dm_status ?s1 = Reconnecting"
    "dm_calls ?s1 = dm_calls s @ [NativeStop]" "\<not> dm_disposed ?s1" "dm_queue ?s1 = []"
    using assms idle
    by (simp_all add: enqueueLifecycle_def drain_queue_def stopManager_def awaits_def Let_def clean)
  have s2: "dm_tasks ?s2 = [RestartStopping]" "dm_status ?s2 = Disconnected"
    "dm_calls ?s2 = dm_calls s @ [NativeStop]" "\<not> dm_disposed ?s2" "last (dm_results ?s2) = (StopCall, True)"
    using s1 by (simp_all add: without_task_def manager_stopped_def dm_transition_cases end_lifecycle_def drain_queue_def
        del: daemon_step.simps(1))
  have s3: "dm_tasks ?s3 = [RestartStarting 1]" "dm_status ?s3 = Disconnected"
    "dm_calls ?s3 = dm_calls s @ [NativeStop, NativeStart]" "last (dm_results ?s3) = (StopCall, True)"
    using s2 assms(6) by (simp_all add: without_task_def retryStart_def awaits_def)
  from refused_start [OF s3(1,2), of cfg r] s3(3,4) show ?thesis
    by (simp add: daemon_run_def Let_def del: daemon_step.simps)
qed

theorem stop_during_restart_is_undone_witness:
  "let s = restartDaemon False connected_manager;
       t = daemon_run proxy_config [Call StopCall, Settles 1 (Inl []) 0, Settles 0 (Inl []) 0,
         Settles 0 (Inr (JStr ''OK'')) 0] s
   in dm_status t = Disconnected \<and> dm_calls t = [NativeStart, NativeStop, NativeStop, NativeStart]"
proof -
  let ?s = "restartDaemon False connected_manager"
  have idle: "dm_queue connected_manager = []" "\<not> dm_busy connected_manager"
    by (simp_all add: connected_manager_def daemon_defs proxy_config_def new_manager_def
        createConnectionStateMachine_def)
  have "dm_tasks ?s = [RestartStopping]" "dm_status ?s = Reconnecting" "\<not> dm_disposed ?s"
    "dm_queue ?s = []" "\<not> dm_busy ?s" "dm_calls ?s = [NativeStart, NativeStop]"
    using connected_manager_is idle
    by (simp_all add: restartDaemon_def executeRestart_def dm_transition_cases awaits_def)
  with stop_during_restart_is_undone [of ?s proxy_config "Inl []" 0 "Inl []"] show ?thesis
    by (simp add: Let_def proxy_config_def DEFAULT_MAX_RESTART_ATTEMPTS_def)
qed

end
