(* ===== verification/DaemonClients.thy ===== *)
theory DaemonClients
  imports DaemonManager HttpClient
begin

text \<open>
  What talks to the two daemons: the client of TON Storage's HTTP interface
  (\<^verbatim>\<open>packages/ton-storage/src/ton-storage-client.ts\<close>, \<^verbatim>\<open>validate-bag-id.ts\<close>) and the
  transports of the proxy (\<^verbatim>\<open>packages/ion-connect-proxy/src/ion-connect-proxy-transport.ts\<close>,
  \<^verbatim>\<open>resilient-proxy-transport.ts\<close>). Answers are not checked by the code, so the fields of a bag
  are values as they come. The native module is a record of its calls; breadcrumbs are left out.
\<close>

section \<open>TON Storage\<close>

definition is_hex :: "char \<Rightarrow> bool" where
  "is_hex c = (let n = of_char c :: nat in
     (48 \<le> n \<and> n \<le> 57) \<or> (65 \<le> n \<and> n \<le> 70) \<or> (97 \<le> n \<and> n \<le> 102))"

definition BAG_ID_PATTERN :: "string \<Rightarrow> bool" where
  "BAG_ID_PATTERN bagId = (length bagId = 64 \<and> list_all is_hex bagId)"

definition validateBagId :: "string \<Rightarrow> ('s, js_error, unit) io" where
  "validateBagId bagId =
     (if \<not> BAG_ID_PATTERN bagId
      then io_throw (JsErr (Some ''Invalid bag ID: must be a 64-character hex string''))
      else io_return ())"

record bag_info =
  bi_bagId :: js_value
  bi_description :: js_value
  bi_totalSize :: js_value
  bi_downloadedSize :: js_value
  bi_filesCount :: js_value
  bi_dirName :: js_value
  bi_isComplete :: js_value
  bi_isActive :: js_value
  bi_isSeeding :: js_value
  bi_isHeaderLoaded :: js_value
  bi_peers :: js_value
  bi_uploadSpeed :: js_value
  bi_downloadSpeed :: js_value

record bag_file =
  bf_index :: js_value
  bf_name :: js_value
  bf_size :: js_value

record peer_info =
  pi_address :: js_value
  pi_id :: js_value
  pi_uploadSpeed :: js_value
  pi_downloadSpeed :: js_value

record client_bag_details = bag_info +
  bd_files :: "bag_file list"
  bd_pieceSize :: js_value
  bd_piecesCount :: js_value
  bd_activePeers :: "peer_info list"
  bd_path :: js_value

record add_bag_request =
  ab_bagId :: string
  ab_files :: "int list option"
  ab_downloadPath :: string
  ab_downloadAll :: "bool option"

text \<open>Reading a field throws on \<^verbatim>\<open>null\<close> and \<^verbatim>\<open>undefined\<close>.\<close>

definition with_object :: "js_value \<Rightarrow> 'a \<Rightarrow> js_error + 'a" where
  "with_object v x = (if v = JNull \<or> v = JUndefined then Inl (JsErr None) else Inr x)"

definition mapBagInfo :: "js_value \<Rightarrow> js_error + bag_info" where
  "mapBagInfo raw = with_object raw
     \<lparr>bi_bagId = get_field raw ''bag_id'', bi_description = get_field raw ''description'',
      bi_totalSize = get_field raw ''size'', bi_downloadedSize = get_field raw ''downloaded'',
      bi_filesCount = get_field raw ''files_count'', bi_dirName = get_field raw ''dir_name'',
      bi_isComplete = get_field raw ''completed'', bi_isActive = get_field raw ''active'',
      bi_isSeeding = get_field raw ''seeding'', bi_isHeaderLoaded = get_field raw ''header_loaded'',
      bi_peers = get_field raw ''peers'', bi_uploadSpeed = get_field raw ''upload_speed'',
      bi_downloadSpeed = get_field raw ''download_speed''\<rparr>"

definition mapBagFile :: "js_value \<Rightarrow> js_error + bag_file" where
  "mapBagFile raw = with_object raw
     \<lparr>bf_index = get_field raw ''index'', bf_name = get_field raw ''name'',
      bf_size = get_field raw ''size''\<rparr>"

definition mapPeerInfo :: "js_value \<Rightarrow> js_error + peer_info" where
  "mapPeerInfo raw = with_object raw
     \<lparr>pi_address = get_field raw ''addr'', pi_id = get_field raw ''id'',
      pi_uploadSpeed = get_field raw ''upload_speed'', pi_downloadSpeed = get_field raw ''download_speed''\<rparr>"

fun map_sums :: "('a \<Rightarrow> 'e + 'b) \<Rightarrow> 'a list \<Rightarrow> 'e + 'b list" where
  "map_sums f [] = Inr []"
| "map_sums f (x # xs) =
     (case f x of
        Inl e \<Rightarrow> Inl e
      | Inr y \<Rightarrow> (case map_sums f xs of Inl e \<Rightarrow> Inl e | Inr ys \<Rightarrow> Inr (y # ys)))"

text \<open>\<^verbatim>\<open>(v ?? []).map(f)\<close>: what is no array has no \<^verbatim>\<open>map\<close>.\<close>

definition map_array :: "(js_value \<Rightarrow> js_error + 'b) \<Rightarrow> js_value \<Rightarrow> js_error + 'b list" where
  "map_array f v =
     (case v of
        JUndefined \<Rightarrow> Inr []
      | JNull \<Rightarrow> Inr []
      | JArr i vs \<Rightarrow> map_sums f vs
      | _ \<Rightarrow> Inl (JsErr None))"

definition mapBagDetails :: "js_value \<Rightarrow> js_error + client_bag_details" where
  "mapBagDetails raw =
     (case mapBagInfo raw of
        Inl e \<Rightarrow> Inl e
      | Inr info \<Rightarrow>
          (case map_array mapBagFile (get_field raw ''files'') of
             Inl e \<Rightarrow> Inl e
           | Inr files \<Rightarrow>
               (case map_array mapPeerInfo (get_field raw ''peers_list'') of
                  Inl e \<Rightarrow> Inl e
                | Inr peers \<Rightarrow>
                    Inr (bag_info.extend info
                      (client_bag_details.fields files (get_field raw ''piece_size'')
                         (get_field raw ''bag_pieces_num'') peers (get_field raw ''path''))))))"

definition bag_post ::
  "(js_value \<Rightarrow> string) \<Rightarrow> ('x env_scheme) client_internals \<Rightarrow> string \<Rightarrow> string \<Rightarrow>
   (string \<times> js_value) list \<Rightarrow> ('x env_scheme, js_error, unit) io" where
  "bag_post stringify internals bagId path body =
     io_then (validateBagId bagId)
       (io_bind (client_post stringify internals path (Some (empty_options\<lparr>ro_body := JObj 0 body\<rparr>)))
          (\<lambda>_. io_return ()))"

definition addBag where
  "addBag stringify internals request =
     bag_post stringify internals (ab_bagId request) ''/api/v1/add''
       [(''bag_id'', JStr (ab_bagId request)), (''path'', JStr (ab_downloadPath request)),
        (''files'', of_opt (\<lambda>fs. JArr 0 (map JNum fs)) (ab_files request)),
        (''download_all'', JBool (case ab_downloadAll request of None \<Rightarrow> True | Some b \<Rightarrow> b))]"

definition removeBag where
  "removeBag stringify internals bagId deleteFiles =
     bag_post stringify internals bagId ''/api/v1/remove''
       [(''bag_id'', JStr bagId),
        (''with_files'', JBool (case deleteFiles of None \<Rightarrow> False | Some b \<Rightarrow> b))]"

definition stopBag where
  "stopBag stringify internals bagId =
     bag_post stringify internals bagId ''/api/v1/stop'' [(''bag_id'', JStr bagId)]"

definition io_of_sum :: "'e + 'a \<Rightarrow> ('s, 'e, 'a) io" where
  "io_of_sum r = (\<lambda>s. (r, s))"

definition getBagDetails ::
  "(js_value \<Rightarrow> string) \<Rightarrow> ('x env_scheme) client_internals \<Rightarrow> string \<Rightarrow>
   ('x env_scheme, js_error, client_bag_details) io" where
  "getBagDetails stringify internals bagId =
     io_then (validateBagId bagId)
       (io_bind (client_get stringify internals
            (''/api/v1/details?bag_id='' @ encodeURIComponent bagId) None)
          (\<lambda>response. io_of_sum (mapBagDetails (hr_body response))))"

definition listBags ::
  "(js_value \<Rightarrow> string) \<Rightarrow> ('x env_scheme) client_internals \<Rightarrow>
   ('x env_scheme, js_error, bag_info list) io" where
  "listBags stringify internals =
     io_bind (client_get stringify internals ''/api/v1/list'' None) (\<lambda>response.
       io_of_sum (if hr_body response = JNull \<or> hr_body response = JUndefined then Inl (JsErr None)
                  else map_array mapBagInfo (get_field (hr_body response) ''bags'')))"

definition getFilePath :: "string \<Rightarrow> int \<Rightarrow> ('s, js_error, string) io" where
  "getFilePath bagId fileIndex =
     io_then (validateBagId bagId) (io_return (bagId @ ''/'' @ int_str fileIndex))"

section \<open>The transport of the proxy\<close>

record 's native_proxy =
  np_request :: "string \<Rightarrow> string \<Rightarrow> string \<Rightarrow> string \<Rightarrow> ('s, js_error, string) io"
  np_upload :: "string \<Rightarrow> string \<Rightarrow> string \<Rightarrow> ('s, js_error, string) io"
  np_download :: "string \<Rightarrow> string \<Rightarrow> string \<Rightarrow> ('s, js_error, string) io"

definition headers_json :: "(js_value \<Rightarrow> string) \<Rightarrow> string js_record option \<Rightarrow> string" where
  "headers_json stringify headers =
     stringify (JObj 0 (map (\<lambda>(k, v). (k, JStr v)) (case headers of None \<Rightarrow> [] | Some h \<Rightarrow> h)))"

text \<open>
  The answer of a call is parsed; an exception, of the call or of the parser, is logged and goes on.
\<close>

definition parsed_or_logged ::
  "(string \<Rightarrow> js_value option) \<Rightarrow> string \<Rightarrow> js_value js_record \<Rightarrow>
   ('x env_scheme, js_error, string) io \<Rightarrow> ('x env_scheme, js_error, js_value) io" where
  "parsed_or_logged json_parse msg data call =
     io_catch
       (io_bind call (\<lambda>result. case json_parse result of
          None \<Rightarrow> io_throw (JsErr None) | Some v \<Rightarrow> io_return v))
       (\<lambda>e. io_then (emit_log LError msg ''proxy'' data) (io_throw e))"

definition executeProxyRequest ::
  "(js_value \<Rightarrow> string) \<Rightarrow> (string \<Rightarrow> js_value option) \<Rightarrow> ('x env_scheme) native_proxy \<Rightarrow>
   transport_request \<Rightarrow> ('x env_scheme, js_error, js_value) io" where
  "executeProxyRequest stringify json_parse nativeModule config =
     parsed_or_logged json_parse ''Proxy request failed''
       [(''url'', JStr (tr_url config)), (''method'', JStr (tr_method config))]
       (np_request nativeModule (tr_method config) (tr_url config)
          (headers_json stringify (tr_headers config))
          (case tr_body config of
             JStr body \<Rightarrow> body
           | JUndefined \<Rightarrow> stringify (JStr [])
           | JNull \<Rightarrow> stringify (JStr [])
           | body \<Rightarrow> stringify body))"

definition executeProxyUpload ::
  "(js_value \<Rightarrow> string) \<Rightarrow> (string \<Rightarrow> js_value option) \<Rightarrow> ('x env_scheme) native_proxy \<Rightarrow>
   string \<Rightarrow> string \<Rightarrow> string js_record option \<Rightarrow> ('x env_scheme, js_error, js_value) io" where
  "executeProxyUpload stringify json_parse nativeModule url filePath headers =
     parsed_or_logged json_parse ''Proxy upload failed'' [(''url'', JStr url)]
       (np_upload nativeModule url filePath (headers_json stringify headers))"

definition executeProxyDownload ::
  "(js_value \<Rightarrow> string) \<Rightarrow> (string \<Rightarrow> js_value option) \<Rightarrow> ('x env_scheme) native_proxy \<Rightarrow>
   string \<Rightarrow> string \<Rightarrow> string js_record option \<Rightarrow> ('x env_scheme, js_error, js_value) io" where
  "executeProxyDownload stringify json_parse nativeModule url destinationPath headers =
     parsed_or_logged json_parse ''Proxy download failed'' [(''url'', JStr url)]
       (np_download nativeModule url destinationPath (headers_json stringify headers))"

section \<open>Retrying after a restart\<close>

definition isProxyError :: "js_error \<Rightarrow> bool" where
  "isProxyError error =
     (case err_message error of
        None \<Rightarrow> False
      | Some m \<Rightarrow> includes_str m ''PROXY_ERROR'' \<or> includes_str m ''IonConnectProxy'')"

text \<open>
  The statuses that are reported from the subscription until the fifteen seconds are over: the
  first one that settles the promise counts.
\<close>

fun waitForProxyReady :: "connection_state list \<Rightarrow> js_error + unit" where
  "waitForProxyReady [] = Inl (JsErr (Some ''Proxy reconnect timeout''))"
| "waitForProxyReady (status # later) =
     (if status = Connected then Inr ()
      else if status = Disconnected then Inl (JsErr (Some ''Proxy reconnect failed''))
      else waitForProxyReady later)"

record 's resilient_options =
  rp_onFailure :: "'s \<Rightarrow> 's"
  rp_statuses :: "'s \<Rightarrow> connection_state list \<times> 's"

definition withRetryOnFailure ::
  "('x env_scheme, js_error, 'a) io \<Rightarrow> ('x env_scheme) resilient_options \<Rightarrow>
   ('x env_scheme, js_error, 'a) io" where
  "withRetryOnFailure execute options =
     io_catch execute (\<lambda>error.
       if \<not> isProxyError error then io_throw error
       else io_then (emit_log LWarning ''Proxy request failed, triggering reconnect'' ''proxy'' [])
              (io_then (io_modify (rp_onFailure options))
                (io_bind (\<lambda>s. case rp_statuses options s of (statuses, t) \<Rightarrow> (Inr statuses, t)) (\<lambda>statuses.
                   io_then (io_of_sum (waitForProxyReady statuses)) execute))))"

section \<open>Theorems\<close>

lemma hex_is_unreserved: "is_hex c \<Longrightarrow> encode_char c = [c]"
  by (auto simp: is_hex_def encode_char_def uri_unreserved_def is_alnum_def Let_def)

lemma encode_hex: "list_all is_hex s \<Longrightarrow> encodeURIComponent s = s"
  by (induction s) (simp_all add: encodeURIComponent_def hex_is_unreserved)

text \<open>
  No request is made for what is no bag. An operation on a bag id that is not 64 hexadecimal
  digits fails and leaves everything as it was; for one that is, the details are asked for under
  exactly that id, nothing of it escaped.
\<close>

theorem bag_ids_are_checked:
  "if BAG_ID_PATTERN bagId
   then getBagDetails stringify internals bagId s =
        io_bind (client_get stringify internals (''/api/v1/details?bag_id='' @ bagId) None)
          (\<lambda>response. io_of_sum (mapBagDetails (hr_body response))) s
   else isl (fst (getBagDetails stringify internals bagId s)) \<and>
        snd (getBagDetails stringify internals bagId s) = s \<and>
        (let e = (Inl (JsErr (Some ''Invalid bag ID: must be a 64-character hex string'')), s) in
         addBag stringify internals (r\<lparr>ab_bagId := bagId\<rparr>) s = e \<and>
         removeBag stringify internals bagId deleteFiles s = e \<and>
         stopBag stringify internals bagId s = e \<and>
         (case getFilePath bagId n s of (q, t) \<Rightarrow> isl q \<and> t = s))"
proof (cases "BAG_ID_PATTERN bagId")
  case True
  then have "encodeURIComponent bagId = bagId" by (simp add: BAG_ID_PATTERN_def encode_hex)
  with True show ?thesis by (simp add: getBagDetails_def validateBagId_def io_then_simp io_return_simp)
next
  case False
  then show ?thesis
    by (simp add: getBagDetails_def addBag_def removeBag_def stopBag_def bag_post_def getFilePath_def
        validateBagId_def io_then_simp io_throw_simp Let_def)
qed

text \<open>
  A failed request is sent again at most once, whatever the proxy does, and only after a failure
  of the proxy itself for which the manager then reports a connection; the failure handler
  is called at most once.
\<close>

theorem proxied_request_is_retried_once:
  assumes "grows sent 1 execute" and "\<And>s l. sent (s\<lparr>env_log := l\<rparr>) = sent s"
    and "\<And>s. sent (rp_onFailure options s) = sent s" and "\<And>s. sent (snd (rp_statuses options s)) = sent s"
  shows "sent (snd (withRetryOnFailure execute options s)) \<le> sent s + 2 \<and>
    (case execute s of
       (Inr a, t) \<Rightarrow> withRetryOnFailure execute options s = (Inr a, t)
     | (Inl e, t) \<Rightarrow> if isProxyError e then True else withRetryOnFailure execute options s = (Inl e, t))"
proof
  have "grows sent (1 + 1) (withRetryOnFailure execute options)"
    unfolding withRetryOnFailure_def
  proof (intro grows_catch assms(1) grows_if grows_then_rest)
    show "grows sent 1 (io_throw e)" for e :: js_error
      by (rule grows_weaken [OF grows_throw]) simp
    show "grows sent 0 (emit_log l m t d)" for l m t d
      using assms(2) by (simp add: grows_def io_simps)
    show "grows sent 0 (io_modify (rp_onFailure options))"
      using assms(3) by (simp add: grows_def io_simps)
    show "grows sent 1 (io_bind (\<lambda>s. case rp_statuses options s of (statuses, t) \<Rightarrow> (Inr statuses, t))
        (\<lambda>statuses. io_then (io_of_sum (waitForProxyReady statuses)) execute))"
    proof (intro grows_bind_rest grows_then_rest assms(1))
      show "grows sent 0 (\<lambda>s. case rp_statuses options s of (statuses, t) \<Rightarrow> (Inr statuses, t))"
        using assms(4) by (auto simp: grows_def split: prod.splits) (metis le_refl snd_conv)
      show "grows sent 0 (io_of_sum (waitForProxyReady st))" for st
        by (simp add: grows_def io_of_sum_def)
    qed
  qed
  from growsD [OF this, of s] show "sent (snd (withRetryOnFailure execute options s)) \<le> sent s + 2" by simp
  show "case execute s of
       (Inr a, t) \<Rightarrow> withRetryOnFailure execute options s = (Inr a, t)
     | (Inl e, t) \<Rightarrow> if isProxyError e then True else withRetryOnFailure execute options s = (Inl e, t)"
    by (auto simp: withRetryOnFailure_def io_simps split: prod.splits sum.splits)
qed

text \<open>A proxy that is down for every call; the clock counts the calls.\<close>

definition down_proxy :: "(env, js_error, unit) io" where
  "down_proxy s = (Inl (JsErr (Some ''PROXY_ERROR: closed'')), s\<lparr>env_now := env_now s + 1\<rparr>)"

definition quick_restart :: "env resilient_options" where
  "quick_restart = \<lparr>rp_onFailure = id, rp_statuses = (\<lambda>s. ([Reconnecting, Connected], s))\<rparr>"

theorem proxied_request_is_retried_once_witness:
  "nat (env_now (snd (withRetryOnFailure down_proxy quick_restart \<lparr>env_now = 0, env_log = []\<rparr>))) \<le> 2"
proof -
  let ?s = "\<lparr>env_now = 0, env_log = []\<rparr>"
  have g: "grows (\<lambda>s. nat (env_now s)) 1 down_proxy"
  proof
    fix s :: env
    have "nat (env_now s + 1) \<le> nat (env_now s) + 1" by simp
    then show "nat (env_now (snd (down_proxy s))) \<le> nat (env_now s) + 1" by (simp add: down_proxy_def)
  qed
  have "nat (env_now (rp_onFailure quick_restart s)) = nat (env_now s)"
    "nat (env_now (snd (rp_statuses quick_restart s))) = nat (env_now s)"
    "nat (env_now (s\<lparr>env_log := l\<rparr>)) = nat (env_now s)" for s l
    by (simp_all add: quick_restart_def)
  from proxied_request_is_retried_once [OF g this(3) this(1) this(2), of ?s] show ?thesis by simp
qed

text \<open>
  The query parameters, the time limit and the abort signal of a request are dropped on the way
  to the proxy.
\<close>

lemma proxy_drops_the_query:
  "executeProxyRequest stringify json_parse nativeModule
     (config\<lparr>tr_query := q, tr_timeoutMs := n, tr_signal := g\<rparr>) =
   executeProxyRequest stringify json_parse nativeModule config"
  by (simp add: executeProxyRequest_def)

end
