(* ===== verification/AuthOperations.thy ===== *)
theory AuthOperations
  imports IdentityLogin IdentityRecovery
begin

text \<open>
  \<^verbatim>\<open>packages/auth/src\<close>: what the operations of the sign-in flow ask of the identity client and
  how they report its answer (\<^verbatim>\<open>attempt-login.ts\<close>, \<^verbatim>\<open>register-account.ts\<close>,
  \<^verbatim>\<open>login-with-password.ts\<close>, \<^verbatim>\<open>restore-credentials.ts\<close>, \<^verbatim>\<open>set-new-password.ts\<close>,
  \<^verbatim>\<open>error-messages.ts\<close>), with the rule of identity key names that the user interface shares
  (\<^verbatim>\<open>auth-ui/src/identity-key-rules.ts\<close>). None of them throws. The identity client is a record of
  its operations, and \<open>buildAuthMethods\<close> fills it with the operations of the identity theories.
\<close>

section \<open>Data\<close>

datatype auth_phase =
    GetStarted | RegisterPhase | VerifyPassword | RestoreMenu | RestoreCredentials | SetNewPasswordPhase

record flow_error =
  fe_code :: identity_error_code
  fe_numericCode :: string
  fe_userMessage :: string

record recovery_data =
  rd_identityKeyName :: string
  rd_recoveryKeyId :: string
  rd_recoveryCode :: string

datatype login_result = Authenticated | NeedsPassword string | LoginError flow_error

datatype register_result = Registered | RegisterCancelled | RegisterError flow_error

datatype password_result = PasswordAccepted | PasswordError flow_error

datatype restore_result = RestoreNeedsPassword string | Restored | RestoreInvalid | RestoreError flow_error

datatype new_password_result = PasswordRestored | NewPasswordInvalid | NewPasswordError flow_error

text \<open>The operations of \<^verbatim>\<open>IdentityClient\<close> that the flow uses; a login returns the user's id.\<close>

record 's identity_client =
  ic_registerWithPasskey :: "string \<Rightarrow> ('s, thrown, unit) io"
  ic_registerWithPassword :: "string \<Rightarrow> string \<Rightarrow> ('s, thrown, unit) io"
  ic_loginWithPasskey :: "string \<Rightarrow> ('s, thrown, string) io"
  ic_loginWithPassword :: "string \<Rightarrow> string \<Rightarrow> ('s, thrown, string) io"
  ic_getLoginCapabilities :: "string \<Rightarrow> ('s, thrown, login_capabilities) io"
  ic_recoverAccount :: "recover_input \<Rightarrow> ('s, thrown, unit) io"

text \<open>\<^verbatim>\<open>translate\<close> of a localization that was set up, and \<^verbatim>\<open>String\<close> of what was thrown.\<close>

record auth_texts =
  tx_translate :: "string \<Rightarrow> string"
  tx_string :: "js_error \<Rightarrow> string"

section \<open>Identity key names\<close>

definition IDENTITY_KEY_MAX_LENGTH :: nat where
  "IDENTITY_KEY_MAX_LENGTH = 64"

definition identity_key_char :: "char \<Rightarrow> bool" where
  "identity_key_char c =
     (c \<in> set ''abcdefghijklmnopqrstuvwxyz'' \<or> c \<in> set ''0123456789'' \<or> c \<in> set ''._-'')"

definition IDENTITY_KEY_PATTERN :: "string \<Rightarrow> bool" where
  "IDENTITY_KEY_PATTERN v = (v \<noteq> [] \<and> list_all identity_key_char v)"

definition isValidIdentityKeyName :: "string \<Rightarrow> bool" where
  "isValidIdentityKeyName v =
     (length v > 0 \<and> length v \<le> IDENTITY_KEY_MAX_LENGTH \<and> IDENTITY_KEY_PATTERN v)"

definition validateIdentityKeyName :: "auth_texts \<Rightarrow> string \<Rightarrow> string option" where
  "validateIdentityKeyName tx v =
     (if length v = 0 then None
      else if \<not> IDENTITY_KEY_PATTERN v then Some (tx_translate tx ''auth:identityKeyCharactersError'')
      else if length v > IDENTITY_KEY_MAX_LENGTH
        then Some (tx_translate tx ''auth:identityKeyMaxLengthError'')
      else None)"

text \<open>The two rules agree on names that are not empty.\<close>

lemma key_name_rules_agree:
  "v \<noteq> [] \<Longrightarrow> isValidIdentityKeyName v \<longleftrightarrow> validateIdentityKeyName tx v = None"
  by (auto simp: isValidIdentityKeyName_def validateIdentityKeyName_def)

section \<open>Errors\<close>

definition messageFromUnknown :: "auth_texts \<Rightarrow> js_error \<Rightarrow> string" where
  "messageFromUnknown tx e = (case err_message e of Some m \<Rightarrow> m | None \<Rightarrow> tx_string tx e)"

definition mapNetworkError :: "auth_texts \<Rightarrow> thrown \<Rightarrow> identity_error" where
  "mapNetworkError tx thrown_error =
     (case thrown_error of
        IdentityErr e \<Rightarrow> e
      | OtherErr e \<Rightarrow>
          let unknown = \<lparr>ie_code = UNKNOWN, ie_message = messageFromUnknown tx e, ie_cause = Some e\<rparr> in
          (case e of
             NetworkErr ne \<Rightarrow>
               if ne_code ne = SERVER_ERROR
               then \<lparr>ie_code = IDENTITY_SERVER_ERROR, ie_message = ne_message ne, ie_cause = Some e\<rparr>
               else if ne_code ne \<in> {NETWORK_OFFLINE, NETWORK_TIMEOUT, REQUEST_ABORTED}
               then \<lparr>ie_code = NETWORK_ERROR, ie_message = ne_message ne, ie_cause = Some e\<rparr>
               else unknown
           | JsErr m \<Rightarrow> unknown))"

fun ERROR_KEYS :: "identity_error_code \<Rightarrow> string" where
  "ERROR_KEYS USER_NOT_FOUND = ''auth:errorUserNotFound''"
| "ERROR_KEYS USER_ALREADY_EXISTS = ''auth:errorUserAlreadyExists''"
| "ERROR_KEYS INVALID_CREDENTIALS = ''auth:errorInvalidCredentials''"
| "ERROR_KEYS PASSKEY_CANCELLED = ''auth:errorPasskeyCancelled''"
| "ERROR_KEYS PASSKEY_NOT_AVAILABLE = ''auth:errorPasskeyNotAvailable''"
| "ERROR_KEYS PASSKEY_VALIDATION_FAILED = ''auth:errorPasskeyValidationFailed''"
| "ERROR_KEYS NETWORK_ERROR = ''auth:errorNetworkError''"
| "ERROR_KEYS USER_DEACTIVATED = ''auth:errorUserDeactivated''"
| "ERROR_KEYS TOKEN_EXPIRED = ''auth:errorTokenExpired''"
| "ERROR_KEYS UNAUTHENTICATED = ''auth:errorUnauthenticated''"
| "ERROR_KEYS RESTRICTED_REGION = ''auth:errorRestrictedRegion''"
| "ERROR_KEYS TWO_FA_REQUIRED = ''auth:errorTwoFARequired''"
| "ERROR_KEYS INVALID_TWO_FA_CODE = ''auth:errorInvalidTwoFACode''"
| "ERROR_KEYS TWO_FA_NOT_CONFIGURED = ''auth:errorTwoFANotConfigured''"
| "ERROR_KEYS INVALID_NICKNAME = ''auth:errorInvalidNickname''"
| "ERROR_KEYS NICKNAME_ALREADY_EXISTS = ''auth:errorNicknameAlreadyExists''"
| "ERROR_KEYS NICKNAME_RESERVED = ''auth:errorNicknameReserved''"
| "ERROR_KEYS INVALID_RECOVERY_CREDENTIALS = ''auth:errorInvalidRecoveryCredentials''"
| "ERROR_KEYS INVALID_SIGNATURE = ''auth:errorInvalidSignature''"
| "ERROR_KEYS INVALID_EMAIL = ''auth:errorInvalidEmail''"
| "ERROR_KEYS PASSWORD_FLOW_NOT_AVAILABLE = ''auth:errorPasswordFlowNotAvailable''"
| "ERROR_KEYS WALLET_NOT_FOUND = ''auth:errorWalletNotFound''"
| "ERROR_KEYS IDENTITY_SERVER_ERROR = ''auth:errorServerError''"
| "ERROR_KEYS UNKNOWN = ''auth:errorUnknown''"

text \<open>The numbers as the text that \<^verbatim>\<open>String\<close> makes of them.\<close>

fun NUMERIC_ERROR_CODES :: "identity_error_code \<Rightarrow> string" where
  "NUMERIC_ERROR_CODES PASSKEY_NOT_AVAILABLE = ''101''"
| "NUMERIC_ERROR_CODES PASSKEY_CANCELLED = ''102''"
| "NUMERIC_ERROR_CODES PASSKEY_VALIDATION_FAILED = ''103''"
| "NUMERIC_ERROR_CODES INVALID_CREDENTIALS = ''201''"
| "NUMERIC_ERROR_CODES USER_NOT_FOUND = ''202''"
| "NUMERIC_ERROR_CODES USER_ALREADY_EXISTS = ''203''"
| "NUMERIC_ERROR_CODES USER_DEACTIVATED = ''204''"
| "NUMERIC_ERROR_CODES TOKEN_EXPIRED = ''205''"
| "NUMERIC_ERROR_CODES UNAUTHENTICATED = ''206''"
| "NUMERIC_ERROR_CODES PASSWORD_FLOW_NOT_AVAILABLE = ''207''"
| "NUMERIC_ERROR_CODES TWO_FA_REQUIRED = ''301''"
| "NUMERIC_ERROR_CODES INVALID_TWO_FA_CODE = ''302''"
| "NUMERIC_ERROR_CODES TWO_FA_NOT_CONFIGURED = ''303''"
| "NUMERIC_ERROR_CODES INVALID_NICKNAME = ''401''"
| "NUMERIC_ERROR_CODES NICKNAME_ALREADY_EXISTS = ''402''"
| "NUMERIC_ERROR_CODES NICKNAME_RESERVED = ''403''"
| "NUMERIC_ERROR_CODES INVALID_EMAIL = ''404''"
| "NUMERIC_ERROR_CODES INVALID_RECOVERY_CREDENTIALS = ''501''"
| "NUMERIC_ERROR_CODES INVALID_SIGNATURE = ''502''"
| "NUMERIC_ERROR_CODES WALLET_NOT_FOUND = ''503''"
| "NUMERIC_ERROR_CODES UNKNOWN = ''600''"
| "NUMERIC_ERROR_CODES RESTRICTED_REGION = ''601''"
| "NUMERIC_ERROR_CODES IDENTITY_SERVER_ERROR = ''700''"
| "NUMERIC_ERROR_CODES NETWORK_ERROR = ''701''"

definition mapIdentityError :: "auth_texts \<Rightarrow> thrown \<Rightarrow> flow_error" where
  "mapIdentityError tx thrown_error =
     (let code = ie_code (mapNetworkError tx thrown_error) in
      \<lparr>fe_code = code, fe_numericCode = NUMERIC_ERROR_CODES code,
       fe_userMessage = tx_translate tx (ERROR_KEYS code)\<rparr>)"

text \<open>The code that is shown to the user names the error.\<close>

lemma numeric_codes_differ: "NUMERIC_ERROR_CODES c = NUMERIC_ERROR_CODES d \<longleftrightarrow> c = d"
  by (cases c; cases d) simp_all

definition buildUserNotFoundError :: thrown where
  "buildUserNotFoundError = identity_error_of USER_NOT_FOUND ''User not found''"

definition has_code :: "identity_error_code set \<Rightarrow> thrown \<Rightarrow> bool" where
  "has_code codes thrown_error =
     (case thrown_error of IdentityErr e \<Rightarrow> ie_code e \<in> codes | OtherErr e \<Rightarrow> False)"

definition isPasskeyFallbackError :: "thrown \<Rightarrow> bool" where
  "isPasskeyFallbackError = has_code {PASSKEY_CANCELLED, PASSKEY_NOT_AVAILABLE}"

definition isPasskeyCancelledError :: "thrown \<Rightarrow> bool" where
  "isPasskeyCancelledError = has_code {PASSKEY_CANCELLED, PASSKEY_NOT_AVAILABLE}"

definition isPasskeyPlatformError :: "thrown \<Rightarrow> bool" where
  "isPasskeyPlatformError = has_code {PASSKEY_CANCELLED, PASSKEY_NOT_AVAILABLE}"

definition isInvalidRecoveryCredentials :: "thrown \<Rightarrow> bool" where
  "isInvalidRecoveryCredentials = has_code {INVALID_RECOVERY_CREDENTIALS, USER_NOT_FOUND}"

section \<open>Signing in\<close>

abbreviation auth_log :: "log_level \<Rightarrow> string \<Rightarrow> js_value js_record \<Rightarrow> ('x env_scheme, 'e, unit) io" where
  "auth_log lvl msg data \<equiv> emit_log lvl msg ''auth'' data"

definition tryPasskeyLogin ::
  "auth_texts \<Rightarrow> ('x env_scheme) identity_client \<Rightarrow> string \<Rightarrow> bool \<Rightarrow>
   ('x env_scheme, thrown, login_result) io" where
  "tryPasskeyLogin tx client identityKeyName supportsPassword =
     io_catch
       (io_then (ic_loginWithPasskey client identityKeyName)
       (io_then (auth_log LInfo ''Passkey login succeeded'' [])
          (io_return Authenticated)))
       (\<lambda>error.
          if isPasskeyFallbackError error \<and> supportsPassword
          then io_then (auth_log LInfo ''Passkey login failed, falling back to password'' [])
                 (io_return (NeedsPassword identityKeyName))
          else io_return (LoginError (mapIdentityError tx error)))"

definition resolveLoginRoute ::
  "auth_texts \<Rightarrow> ('x env_scheme) identity_client \<Rightarrow> string \<Rightarrow> ('x env_scheme, thrown, login_result) io" where
  "resolveLoginRoute tx client identityKeyName =
     io_bind (ic_getLoginCapabilities client identityKeyName) (\<lambda>capabilities.
       if \<not> lc_identityFound capabilities
       then io_return (LoginError (mapIdentityError tx buildUserNotFoundError))
       else if lc_supportsPasskey capabilities
       then tryPasskeyLogin tx client identityKeyName (lc_supportsPassword capabilities)
       else if lc_supportsPassword capabilities then io_return (NeedsPassword identityKeyName)
       else io_return (LoginError (mapIdentityError tx buildUserNotFoundError)))"

definition attemptLogin ::
  "auth_texts \<Rightarrow> ('x env_scheme) identity_client \<Rightarrow> string \<Rightarrow> ('x env_scheme, thrown, login_result) io" where
  "attemptLogin tx client identityKeyName =
     (if \<not> isValidIdentityKeyName identityKeyName
      then io_return (LoginError (mapIdentityError tx buildUserNotFoundError))
      else io_catch (resolveLoginRoute tx client identityKeyName)
        (\<lambda>error.
           io_then (auth_log LError ''Login attempt failed'' [(''identityKeyName'', JStr identityKeyName)])
             (io_return (LoginError (mapIdentityError tx error)))))"

definition loginWithPassword_op ::
  "auth_texts \<Rightarrow> ('x env_scheme) identity_client \<Rightarrow> string \<Rightarrow> string \<Rightarrow>
   ('x env_scheme, thrown, password_result) io" where
  "loginWithPassword_op tx client identityKeyName password =
     io_catch
       (io_then (ic_loginWithPassword client identityKeyName password)
       (io_then (auth_log LInfo ''Password login succeeded'' [])
          (io_return PasswordAccepted)))
       (\<lambda>error.
          io_then (auth_log LError ''Password login failed'' [])
            (io_return (PasswordError (mapIdentityError tx error))))"

section \<open>Registering\<close>

definition executeRegistration ::
  "('x env_scheme) identity_client \<Rightarrow> string \<Rightarrow> string option \<Rightarrow>
   ('x env_scheme, thrown, register_result) io" where
  "executeRegistration client identityKeyName password =
     io_then
       (case password of
          None \<Rightarrow> ic_registerWithPasskey client identityKeyName
        | Some p \<Rightarrow> ic_registerWithPassword client identityKeyName p)
       (io_then (auth_log LInfo ''Registration succeeded''
            [(''method'', JStr (if password = None then ''passkey'' else ''password''))])
          (io_return Registered))"

definition registerAccount ::
  "auth_texts \<Rightarrow> ('x env_scheme) identity_client \<Rightarrow> string \<Rightarrow> string option \<Rightarrow>
   ('x env_scheme, thrown, register_result) io" where
  "registerAccount tx client identityKeyName password =
     (if \<not> isValidIdentityKeyName identityKeyName
      then io_return (RegisterError
        \<lparr>fe_code = UNKNOWN, fe_numericCode = ''600'',
         fe_userMessage = tx_translate tx ''auth:errorInvalidIdentityKeyName''\<rparr>)
      else io_catch (executeRegistration client identityKeyName password)
        (\<lambda>error.
           io_then (auth_log LError ''Registration failed'' [(''identityKeyName'', JStr identityKeyName)])
             (if password = None \<and> isPasskeyCancelledError error
              then io_return RegisterCancelled
              else io_return (RegisterError (mapIdentityError tx error)))))"

section \<open>Restoring an account\<close>

definition recovery_input :: "recovery_data \<Rightarrow> new_credential \<Rightarrow> recover_input" where
  "recovery_input data new =
     \<lparr>ri_username = rd_identityKeyName data, ri_recoveryCode = rd_recoveryCode data,
      ri_credentialId = rd_recoveryKeyId data, ri_newCredential = new,
      ri_twoFAVerificationCodes = None\<rparr>"

definition callPasskeyRecovery ::
  "('x env_scheme) identity_client \<Rightarrow> recovery_data \<Rightarrow> ('x env_scheme, thrown, unit) io" where
  "callPasskeyRecovery client data = ic_recoverAccount client (recovery_input data NewPasskey)"

definition restore_failed ::
  "auth_texts \<Rightarrow> thrown \<Rightarrow> ('x env_scheme, thrown, restore_result) io" where
  "restore_failed tx error =
     (if isPasskeyPlatformError error
      then io_then (auth_log LInfo ''Passkey cancelled during recovery, falling back to password'' [])
             (io_return (RestoreNeedsPassword ''''))
      else io_then (auth_log LError ''Account recovery failed'' [])
             (if isInvalidRecoveryCredentials error then io_return RestoreInvalid
              else io_return (RestoreError (mapIdentityError tx error))))"

definition restoreCredentials ::
  "auth_texts \<Rightarrow> bool \<Rightarrow> ('x env_scheme) identity_client \<Rightarrow> recovery_data \<Rightarrow>
   ('x env_scheme, thrown, restore_result) io" where
  "restoreCredentials tx isPasskeyAvailable client data =
     io_catch
       (if \<not> isPasskeyAvailable then io_return (RestoreNeedsPassword (rd_identityKeyName data))
        else io_then (callPasskeyRecovery client data)
            (io_then (auth_log LInfo ''Passkey recovery succeeded'' []) (io_return Restored)))
       (restore_failed tx)"

definition callRecoverAccount ::
  "('x env_scheme) identity_client \<Rightarrow> recovery_data \<Rightarrow> string \<Rightarrow> ('x env_scheme, thrown, unit) io" where
  "callRecoverAccount client data newPassword =
     ic_recoverAccount client (recovery_input data (NewPassword newPassword))"

definition new_password_failed ::
  "auth_texts \<Rightarrow> thrown \<Rightarrow> ('x env_scheme, thrown, new_password_result) io" where
  "new_password_failed tx error =
     io_then (auth_log LError ''Account recovery failed'' [])
       (if isInvalidRecoveryCredentials error then io_return NewPasswordInvalid
        else io_return (NewPasswordError (mapIdentityError tx error)))"

definition setNewPassword ::
  "auth_texts \<Rightarrow> ('x env_scheme) identity_client \<Rightarrow> recovery_data \<Rightarrow> string \<Rightarrow>
   ('x env_scheme, thrown, new_password_result) io" where
  "setNewPassword tx client data newPassword =
     io_catch
       (io_then (callRecoverAccount client data newPassword)
       (io_then (auth_log LInfo ''Password recovery succeeded'' []) (io_return PasswordRestored)))
       (new_password_failed tx)"

section \<open>The identity client\<close>

text \<open>\<^verbatim>\<open>recoverAccount\<close> belongs to \<^verbatim>\<open>buildFeatureMethods\<close>; the flow passes no codes and no e-mail.\<close>

definition buildAuthMethods ::
  "crypto \<Rightarrow> (('st, 'x) identity_env_scheme) passkeys \<Rightarrow> 'st token_deps \<Rightarrow>
   (('st, 'x) identity_env_scheme) login_source \<Rightarrow> (('st, 'x) identity_env_scheme) registration_source \<Rightarrow>
   (('st, 'x) identity_env_scheme) recovery_source \<Rightarrow> pbkdf2_fn option \<Rightarrow> string \<Rightarrow>
   bytes \<Rightarrow> bytes \<Rightarrow> bytes \<Rightarrow> (('st, 'x) identity_env_scheme) identity_client" where
  "buildAuthMethods cr pk d loginSource registrationSource recoverySource pbkdf2Fn orig seed salt nonce =
     \<lparr>ic_registerWithPasskey = (\<lambda>username. registerWithPasskey pk d registrationSource username None),
      ic_registerWithPassword = (\<lambda>username password.
        registerWithPassword cr d registrationSource pbkdf2Fn orig seed salt nonce username password None),
      ic_loginWithPasskey = (\<lambda>username. loginWithPasskey pk d loginSource username None),
      ic_loginWithPassword = (\<lambda>username password.
        loginWithPassword cr d loginSource pbkdf2Fn orig username password None),
      ic_getLoginCapabilities = getLoginCapabilities pk loginSource,
      ic_recoverAccount = recoverAccount cr (td_json d) pk recoverySource pbkdf2Fn orig seed salt nonce\<rparr>"

end
