(* ===== verification/AuthFlow.thy ===== *)
theory AuthFlow
  imports AuthOperations
begin

text \<open>
  \<^verbatim>\<open>packages/auth/src\<close>: the store behind the sign-in screens (\<^verbatim>\<open>create-auth-flow-store.ts\<close>,
  \<^verbatim>\<open>auth-flow-store-types.ts\<close>, \<^verbatim>\<open>auth-flow-store-navigation.ts\<close>) and what the provider of
  \<^verbatim>\<open>auth-actions-provider.tsx\<close> reports of it. A step is a call of the user interface, or the end
  of an operation that was started before, with its result; results arrive in any order. That
  an operation ends with what the identity client answered is \<^verbatim>\<open>AuthOperations\<close>.
\<close>

section \<open>State\<close>

datatype operation_key = LoginAttempt | Register | PasswordLogin | Restore | SetNewPassword

datatype operation_status = OpIdle | OpLoading | OpSuccess | OpError

record operation_state =
  os_status :: operation_status
  os_error :: "flow_error option"

record auth_state =
  as_phase :: auth_phase
  as_identityKeyName :: string
  as_operations :: "operation_key \<Rightarrow> operation_state"
  as_recoveryData :: "recovery_data option"
  as_restoreSuccessVisible :: bool
  as_notFoundVisible :: bool

definition IDLE_OPERATION :: operation_state where
  "IDLE_OPERATION = \<lparr>os_status = OpIdle, os_error = None\<rparr>"

definition createInitialOperations :: "operation_key \<Rightarrow> operation_state" where
  "createInitialOperations = (\<lambda>_. IDLE_OPERATION)"

definition createInitialStoreState :: auth_state where
  "createInitialStoreState =
     \<lparr>as_phase = GetStarted, as_identityKeyName = '''', as_operations = createInitialOperations,
      as_recoveryData = None, as_restoreSuccessVisible = False, as_notFoundVisible = False\<rparr>"

text \<open>A call of the store; the password of a registration is optional.\<close>

datatype auth_call =
    LoginCall string
  | RegisterCall string "string option"
  | PasswordCall string string
  | RestoreCall recovery_data
  | NewPasswordCall string

text \<open>An operation under way: what follows its \<^verbatim>\<open>await\<close>.\<close>

datatype auth_job =
    LoginJob string
  | RegisterJob string "string option"
  | PasswordJob string string
  | RestoreJob recovery_data
  | NewPasswordJob recovery_data string

datatype job_result =
    LoginDone login_result
  | RegisterDone register_result
  | PasswordDone password_result
  | RestoreDone restore_result
  | NewPasswordDone new_password_result

text \<open>What leaves the store: calls of listeners and of \<^verbatim>\<open>onAuthSuccess\<close>, answers of the provider.\<close>

datatype auth_output =
    ListenerCalled nat auth_state
  | AuthSuccess string
  | LoginAnswer string login_result
  | RegisterAnswer register_result
  | PasswordAnswer password_result

text \<open>
  A job carries a number and whether the provider awaits it.
\<close>

record auth_store =
  au_state :: auth_state
  au_listeners :: "nat list"
  au_jobs :: "(nat \<times> bool \<times> auth_job) list"
  au_next :: nat
  au_outputs :: "auth_output list"

definition createAuthFlowStore :: auth_store where
  "createAuthFlowStore =
     \<lparr>au_state = createInitialStoreState, au_listeners = [], au_jobs = [], au_next = 0, au_outputs = []\<rparr>"

section \<open>The internals of the store\<close>

definition emit_output :: "auth_output \<Rightarrow> auth_store \<Rightarrow> auth_store" where
  "emit_output x s = s\<lparr>au_outputs := au_outputs s @ [x]\<rparr>"

text \<open>\<^verbatim>\<open>update\<close>: the new snapshot, then one call of each listener.\<close>

definition update_store :: "(auth_state \<Rightarrow> auth_state) \<Rightarrow> auth_store \<Rightarrow> auth_store" where
  "update_store f s =
     (let snapshot = f (au_state s) in
      s\<lparr>au_state := snapshot,
        au_outputs := au_outputs s @ map (\<lambda>l. ListenerCalled l snapshot) (au_listeners s)\<rparr>)"

definition setOperation :: "operation_key \<Rightarrow> operation_state \<Rightarrow> auth_store \<Rightarrow> auth_store" where
  "setOperation key st = update_store (\<lambda>a. a\<lparr>as_operations := (as_operations a)(key := st)\<rparr>)"

definition isOperationBusy :: "operation_key \<Rightarrow> auth_store \<Rightarrow> bool" where
  "isOperationBusy key s = (os_status (as_operations (au_state s) key) = OpLoading)"

definition markLoading :: "operation_key \<Rightarrow> auth_store \<Rightarrow> auth_store" where
  "markLoading key = setOperation key \<lparr>os_status = OpLoading, os_error = None\<rparr>"

definition markSuccess :: "operation_key \<Rightarrow> auth_store \<Rightarrow> auth_store" where
  "markSuccess key = setOperation key \<lparr>os_status = OpSuccess, os_error = None\<rparr>"

definition markError :: "operation_key \<Rightarrow> flow_error \<Rightarrow> auth_store \<Rightarrow> auth_store" where
  "markError key e = setOperation key \<lparr>os_status = OpError, os_error = Some e\<rparr>"

definition start_job :: "bool \<Rightarrow> auth_job \<Rightarrow> auth_store \<Rightarrow> auth_store" where
  "start_job wrapped job s =
     s\<lparr>au_jobs := au_jobs s @ [(au_next s, wrapped, job)], au_next := Suc (au_next s)\<rparr>"

section \<open>Navigation\<close>

fun resolveBackPhase :: "auth_phase \<Rightarrow> auth_phase option" where
  "resolveBackPhase RegisterPhase = Some GetStarted"
| "resolveBackPhase VerifyPassword = Some GetStarted"
| "resolveBackPhase RestoreMenu = Some GetStarted"
| "resolveBackPhase RestoreCredentials = Some RestoreMenu"
| "resolveBackPhase SetNewPasswordPhase = Some RestoreCredentials"
| "resolveBackPhase GetStarted = None"

fun AUTH_TRANSITIONS :: "auth_phase \<Rightarrow> auth_phase list" where
  "AUTH_TRANSITIONS GetStarted = [RegisterPhase, VerifyPassword, RestoreMenu]"
| "AUTH_TRANSITIONS RegisterPhase = [GetStarted]"
| "AUTH_TRANSITIONS VerifyPassword = [GetStarted]"
| "AUTH_TRANSITIONS RestoreMenu = [GetStarted, RestoreCredentials]"
| "AUTH_TRANSITIONS RestoreCredentials = [RestoreMenu, SetNewPasswordPhase, GetStarted]"
| "AUTH_TRANSITIONS SetNewPasswordPhase = [RestoreCredentials, GetStarted]"

definition isValidTransition :: "auth_phase \<Rightarrow> auth_phase \<Rightarrow> bool" where
  "isValidTransition from_phase to_phase = (to_phase \<in> set (AUTH_TRANSITIONS from_phase))"

definition navigateToPhase :: "auth_phase \<Rightarrow> string option \<Rightarrow> auth_store \<Rightarrow> auth_store" where
  "navigateToPhase phase identityKeyName s =
     (if \<not> isValidTransition (as_phase (au_state s)) phase then s
      else update_store (\<lambda>a. a\<lparr>as_phase := phase,
        as_identityKeyName := (case identityKeyName of None \<Rightarrow> as_identityKeyName a | Some n \<Rightarrow> n)\<rparr>) s)"

definition navigateBack :: "auth_store \<Rightarrow> auth_store" where
  "navigateBack s =
     (case resolveBackPhase (as_phase (au_state s)) of
        None \<Rightarrow> s
      | Some goal \<Rightarrow> update_store (\<lambda>a. a\<lparr>as_phase := goal,
          as_recoveryData := (if goal = RestoreCredentials then None else as_recoveryData a)\<rparr>) s)"

section \<open>Results\<close>

fun applyLoginResult :: "string \<Rightarrow> login_result \<Rightarrow> auth_store \<Rightarrow> auth_store" where
  "applyLoginResult name Authenticated s = emit_output (AuthSuccess name) (markSuccess LoginAttempt s)"
| "applyLoginResult name (NeedsPassword n) s =
     update_store (\<lambda>a. a\<lparr>as_phase := VerifyPassword, as_identityKeyName := n\<rparr>)
       (setOperation LoginAttempt IDLE_OPERATION s)"
| "applyLoginResult name (LoginError e) s = markError LoginAttempt e s"

fun applyRegisterResult :: "string \<Rightarrow> register_result \<Rightarrow> auth_store \<Rightarrow> auth_store" where
  "applyRegisterResult name Registered s = emit_output (AuthSuccess name) (markSuccess Register s)"
| "applyRegisterResult name RegisterCancelled s = setOperation Register IDLE_OPERATION s"
| "applyRegisterResult name (RegisterError e) s = markError Register e s"

fun applyPasswordResult :: "string \<Rightarrow> password_result \<Rightarrow> auth_store \<Rightarrow> auth_store" where
  "applyPasswordResult name PasswordAccepted s = emit_output (AuthSuccess name) (markSuccess PasswordLogin s)"
| "applyPasswordResult name (PasswordError e) s = markError PasswordLogin e s"

definition show_restored :: "auth_store \<Rightarrow> auth_store" where
  "show_restored = update_store (\<lambda>a. a\<lparr>as_restoreSuccessVisible := True, as_recoveryData := None\<rparr>)"

definition show_not_found :: "auth_store \<Rightarrow> auth_store" where
  "show_not_found = update_store (\<lambda>a. a\<lparr>as_notFoundVisible := True, as_recoveryData := None\<rparr>)"

fun applyRestoreResult :: "recovery_data \<Rightarrow> restore_result \<Rightarrow> auth_store \<Rightarrow> auth_store" where
  "applyRestoreResult data Restored s = show_restored (markSuccess Restore s)"
| "applyRestoreResult data (RestoreNeedsPassword n) s =
     update_store (\<lambda>a. a\<lparr>as_phase := SetNewPasswordPhase, as_identityKeyName := rd_identityKeyName data\<rparr>)
       (setOperation Restore IDLE_OPERATION s)"
| "applyRestoreResult data RestoreInvalid s = show_not_found (setOperation Restore IDLE_OPERATION s)"
| "applyRestoreResult data (RestoreError e) s = markError Restore e s"

fun applyRecoveryResult :: "operation_key \<Rightarrow> new_password_result \<Rightarrow> auth_store \<Rightarrow> auth_store" where
  "applyRecoveryResult key PasswordRestored s = show_restored (markSuccess key s)"
| "applyRecoveryResult key NewPasswordInvalid s = show_not_found (setOperation key IDLE_OPERATION s)"
| "applyRecoveryResult key (NewPasswordError e) s = markError key e s"

section \<open>What the provider reads after a call\<close>

definition readLoginResult :: "auth_state \<Rightarrow> string \<Rightarrow> login_result" where
  "readLoginResult a identityKeyName =
     (let op = as_operations a LoginAttempt in
      if os_status op = OpSuccess then Authenticated
      else (case (os_status op, os_error op) of
              (OpError, Some e) \<Rightarrow> LoginError e
            | _ \<Rightarrow> if as_phase a = VerifyPassword then NeedsPassword identityKeyName else Authenticated))"

definition readRegisterResult :: "auth_state \<Rightarrow> register_result" where
  "readRegisterResult a =
     (let op = as_operations a Register in
      if os_status op = OpSuccess then Registered
      else (case (os_status op, os_error op) of
              (OpError, Some e) \<Rightarrow> RegisterError e
            | _ \<Rightarrow> RegisterCancelled))"

definition readPasswordLoginResult :: "auth_state \<Rightarrow> password_result" where
  "readPasswordLoginResult a =
     (let op = as_operations a PasswordLogin in
      if os_status op = OpSuccess then PasswordAccepted
      else (case (os_status op, os_error op) of
              (OpError, Some e) \<Rightarrow> PasswordError e
            | _ \<Rightarrow> PasswordAccepted))"

text \<open>The end of \<^verbatim>\<open>await store...\<close> in a wrapped operation; the other operations have no wrapper.\<close>

fun answer :: "auth_call \<Rightarrow> auth_store \<Rightarrow> auth_store" where
  "answer (LoginCall name) s = emit_output (LoginAnswer name (readLoginResult (au_state s) name)) s"
| "answer (RegisterCall name pw) s = emit_output (RegisterAnswer (readRegisterResult (au_state s))) s"
| "answer (PasswordCall name pw) s = emit_output (PasswordAnswer (readPasswordLoginResult (au_state s))) s"
| "answer (RestoreCall data) s = s"
| "answer (NewPasswordCall pw) s = s"

section \<open>Calls\<close>

fun call_key :: "auth_call \<Rightarrow> operation_key" where
  "call_key (LoginCall name) = LoginAttempt"
| "call_key (RegisterCall name pw) = Register"
| "call_key (PasswordCall name pw) = PasswordLogin"
| "call_key (RestoreCall data) = Restore"
| "call_key (NewPasswordCall pw) = SetNewPassword"

fun job_key :: "auth_job \<Rightarrow> operation_key" where
  "job_key (LoginJob name) = LoginAttempt"
| "job_key (RegisterJob name pw) = Register"
| "job_key (PasswordJob name pw) = PasswordLogin"
| "job_key (RestoreJob data) = Restore"
| "job_key (NewPasswordJob data pw) = SetNewPassword"

definition handleAttemptLogin :: "bool \<Rightarrow> string \<Rightarrow> auth_store \<Rightarrow> auth_store option" where
  "handleAttemptLogin wrapped name s =
     (if isOperationBusy LoginAttempt s then None
      else Some (start_job wrapped (LoginJob name) (markLoading LoginAttempt s)))"

definition handleRegister_op :: "bool \<Rightarrow> string \<Rightarrow> string option \<Rightarrow> auth_store \<Rightarrow> auth_store option" where
  "handleRegister_op wrapped name pw s =
     (if isOperationBusy Register s then None
      else Some (start_job wrapped (RegisterJob name pw) (markLoading Register s)))"

definition handlePasswordLogin_op :: "bool \<Rightarrow> string \<Rightarrow> string \<Rightarrow> auth_store \<Rightarrow> auth_store option" where
  "handlePasswordLogin_op wrapped name pw s =
     (if isOperationBusy PasswordLogin s then None
      else Some (start_job wrapped (PasswordJob name pw) (markLoading PasswordLogin s)))"

definition handleRestore :: "bool \<Rightarrow> recovery_data \<Rightarrow> auth_store \<Rightarrow> auth_store option" where
  "handleRestore wrapped data s =
     (if isOperationBusy Restore s then None
      else Some (start_job wrapped (RestoreJob data)
        (markLoading Restore (update_store (\<lambda>a. a\<lparr>as_recoveryData := Some data\<rparr>) s))))"

definition handleSetNewPassword_op :: "bool \<Rightarrow> string \<Rightarrow> auth_store \<Rightarrow> auth_store option" where
  "handleSetNewPassword_op wrapped pw s =
     (if isOperationBusy SetNewPassword s then None
      else case as_recoveryData (au_state s) of
        None \<Rightarrow> None
      | Some data \<Rightarrow> Some (start_job wrapped (NewPasswordJob data pw) (markLoading SetNewPassword s)))"

text \<open>The synchronous part of a call; nothing where it returns at once.\<close>

fun begin_call :: "bool \<Rightarrow> auth_call \<Rightarrow> auth_store \<Rightarrow> auth_store option" where
  "begin_call wrapped (LoginCall name) = handleAttemptLogin wrapped name"
| "begin_call wrapped (RegisterCall name pw) = handleRegister_op wrapped name pw"
| "begin_call wrapped (PasswordCall name pw) = handlePasswordLogin_op wrapped name pw"
| "begin_call wrapped (RestoreCall data) = handleRestore wrapped data"
| "begin_call wrapped (NewPasswordCall pw) = handleSetNewPassword_op wrapped pw"

text \<open>The rest of an operation, and the answer of the provider where it awaits it.\<close>

fun finish_job :: "auth_job \<Rightarrow> job_result \<Rightarrow> auth_store \<Rightarrow> auth_store" where
  "finish_job (LoginJob name) (LoginDone r) = applyLoginResult name r"
| "finish_job (RegisterJob name pw) (RegisterDone r) = applyRegisterResult name r"
| "finish_job (PasswordJob name pw) (PasswordDone r) = applyPasswordResult name r"
| "finish_job (RestoreJob data) (RestoreDone r) = applyRestoreResult data r"
| "finish_job (NewPasswordJob data pw) (NewPasswordDone r) = applyRecoveryResult SetNewPassword r"
| "finish_job job r = id"

fun result_fits :: "auth_job \<Rightarrow> job_result \<Rightarrow> bool" where
  "result_fits (LoginJob name) (LoginDone r) = True"
| "result_fits (RegisterJob name pw) (RegisterDone r) = True"
| "result_fits (PasswordJob name pw) (PasswordDone r) = True"
| "result_fits (RestoreJob data) (RestoreDone r) = True"
| "result_fits (NewPasswordJob data pw) (NewPasswordDone r) = True"
| "result_fits job r = False"

fun call_of_job :: "auth_job \<Rightarrow> auth_call" where
  "call_of_job (LoginJob name) = LoginCall name"
| "call_of_job (RegisterJob name pw) = RegisterCall name pw"
| "call_of_job (PasswordJob name pw) = PasswordCall name pw"
| "call_of_job (RestoreJob data) = RestoreCall data"
| "call_of_job (NewPasswordJob data pw) = NewPasswordCall pw"

datatype auth_event =
    Call bool auth_call
  | Settled nat job_result
  | NavigateTo auth_phase "string option"
  | GoBack
  | Reset
  | DismissRestoreSuccess
  | DismissIdentityKeyNotFound
  | ClearError operation_key
  | Subscribe nat
  | Unsubscribe nat

text \<open>
  A result is for the job with its number, and of the job's kind; anything else does not happen.
\<close>

fun auth_step :: "auth_event \<Rightarrow> auth_store \<Rightarrow> auth_store" where
  "auth_step (Call wrapped c) s =
     (case begin_call wrapped c s of
        None \<Rightarrow> if wrapped then answer c s else s
      | Some s' \<Rightarrow> s')"
| "auth_step (Settled n r) s =
     (case map_of (au_jobs s) n of
        None \<Rightarrow> s
      | Some (wrapped, job) \<Rightarrow>
          if result_fits job r
          then let s' = finish_job job r (s\<lparr>au_jobs := filter (\<lambda>j. fst j \<noteq> n) (au_jobs s)\<rparr>)
               in if wrapped then answer (call_of_job job) s' else s'
          else s)"
| "auth_step (NavigateTo phase name) s = navigateToPhase phase name s"
| "auth_step GoBack s = navigateBack s"
| "auth_step Reset s = update_store (\<lambda>_. createInitialStoreState) s"
| "auth_step DismissRestoreSuccess s = update_store (\<lambda>a. a\<lparr>as_restoreSuccessVisible := False\<rparr>) s"
| "auth_step DismissIdentityKeyNotFound s = update_store (\<lambda>a. a\<lparr>as_notFoundVisible := False\<rparr>) s"
| "auth_step (ClearError key) s = setOperation key IDLE_OPERATION s"
| "auth_step (Subscribe l) s = s\<lparr>au_listeners := set_add l (au_listeners s)\<rparr>"
| "auth_step (Unsubscribe l) s = s\<lparr>au_listeners := set_delete l (au_listeners s)\<rparr>"

definition auth_run :: "auth_event list \<Rightarrow> auth_store" where
  "auth_run es = fold auth_step es createAuthFlowStore"

section \<open>What the steps leave alone\<close>

named_theorems store_simps

lemma update_store_simps [store_simps]:
  "au_state (update_store f s) = f (au_state s)"
  "au_jobs (update_store f s) = au_jobs s"
  "au_next (update_store f s) = au_next s"
  "au_listeners (update_store f s) = au_listeners s"
  "au_outputs (update_store f s) =
     au_outputs s @ map (\<lambda>l. ListenerCalled l (f (au_state s))) (au_listeners s)"
  by (simp_all add: update_store_def Let_def)

lemma emit_output_simps [store_simps]:
  "au_state (emit_output x s) = au_state s"
  "au_jobs (emit_output x s) = au_jobs s"
  "au_next (emit_output x s) = au_next s"
  "au_listeners (emit_output x s) = au_listeners s"
  "au_outputs (emit_output x s) = au_outputs s @ [x]"
  by (simp_all add: emit_output_def)

lemma start_job_simps [store_simps]:
  "au_state (start_job w job s) = au_state s"
  "au_jobs (start_job w job s) = au_jobs s @ [(au_next s, w, job)]"
  "au_next (start_job w job s) = Suc (au_next s)"
  "au_listeners (start_job w job s) = au_listeners s"
  "au_outputs (start_job w job s) = au_outputs s"
  by (simp_all add: start_job_def)

lemmas mark_defs = markLoading_def markSuccess_def markError_def setOperation_def
  show_restored_def show_not_found_def

lemma answer_keeps [store_simps]:
  "au_state (answer c s) = au_state s"
  "au_jobs (answer c s) = au_jobs s"
  "au_next (answer c s) = au_next s"
  "au_listeners (answer c s) = au_listeners s"
  by (cases c; simp add: store_simps)+

lemma finish_job_keeps [store_simps]:
  "au_jobs (finish_job job r s) = au_jobs s"
  "au_next (finish_job job r s) = au_next s"
  "au_listeners (finish_job job r s) = au_listeners s"
proof -
  have "au_jobs (finish_job job r s) = au_jobs s \<and> au_next (finish_job job r s) = au_next s \<and>
        au_listeners (finish_job job r s) = au_listeners s"
  proof (cases "(job, r)" rule: finish_job.cases)
    case (1 name r)
    then show ?thesis by (cases r) (simp_all add: store_simps mark_defs)
  next
    case (2 name pw r)
    then show ?thesis by (cases r) (simp_all add: store_simps mark_defs)
  next
    case (3 name pw r)
    then show ?thesis by (cases r) (simp_all add: store_simps mark_defs)
  next
    case (4 data r)
    then show ?thesis by (cases r) (simp_all add: store_simps mark_defs)
  next
    case (5 data pw r)
    then show ?thesis by (cases r) (simp_all add: store_simps mark_defs)
  qed simp_all
  then show "au_jobs (finish_job job r s) = au_jobs s"
    "au_next (finish_job job r s) = au_next s"
    "au_listeners (finish_job job r s) = au_listeners s"
    by simp_all
qed

text \<open>The end of an operation touches the status of that operation only, and ends its loading.\<close>

lemma finish_job_status:
  assumes "result_fits job r"
  shows "isOperationBusy key (finish_job job r s) \<longleftrightarrow> key \<noteq> job_key job \<and> isOperationBusy key s"
  using assms
proof (cases "(job, r)" rule: finish_job.cases)
  case (1 name r)
  then show ?thesis
    by (cases r) (simp_all add: store_simps mark_defs isOperationBusy_def IDLE_OPERATION_def)
next
  case (2 name pw r)
  then show ?thesis
    by (cases r) (simp_all add: store_simps mark_defs isOperationBusy_def IDLE_OPERATION_def)
next
  case (3 name pw r)
  then show ?thesis
    by (cases r) (simp_all add: store_simps mark_defs isOperationBusy_def IDLE_OPERATION_def)
next
  case (4 data r)
  then show ?thesis
    by (cases r) (simp_all add: store_simps mark_defs isOperationBusy_def IDLE_OPERATION_def)
next
  case (5 data pw r)
  then show ?thesis
    by (cases r) (simp_all add: store_simps mark_defs isOperationBusy_def IDLE_OPERATION_def)
qed simp_all

lemma begin_call_Some:
  assumes "begin_call w c s = Some t"
  obtains job where "job_key job = call_key c" "call_of_job job = c" "\<not> isOperationBusy (call_key c) s"
    "au_jobs t = au_jobs s @ [(au_next s, w, job)]" "au_next t = Suc (au_next s)"
    "au_listeners t = au_listeners s"
    "\<And>key. isOperationBusy key t \<longleftrightarrow> key = call_key c \<or> isOperationBusy key s"
proof (cases c)
  case (LoginCall name)
  show thesis
    by (rule that [of "LoginJob name"])
      (use assms LoginCall in \<open>auto simp: handleAttemptLogin_def store_simps mark_defs isOperationBusy_def
         split: if_splits\<close>)
next
  case (RegisterCall name pw)
  show thesis
    by (rule that [of "RegisterJob name pw"])
      (use assms RegisterCall in \<open>auto simp: handleRegister_op_def store_simps mark_defs isOperationBusy_def
         split: if_splits\<close>)
next
  case (PasswordCall name pw)
  show thesis
    by (rule that [of "PasswordJob name pw"])
      (use assms PasswordCall in \<open>auto simp: handlePasswordLogin_op_def store_simps mark_defs
         isOperationBusy_def split: if_splits\<close>)
next
  case (RestoreCall data)
  show thesis
    by (rule that [of "RestoreJob data"])
      (use assms RestoreCall in \<open>auto simp: handleRestore_def store_simps mark_defs isOperationBusy_def
         split: if_splits\<close>)
next
  case (NewPasswordCall pw)
  then obtain data where data: "as_recoveryData (au_state s) = Some data"
    using assms by (auto simp: handleSetNewPassword_op_def split: if_splits option.splits)
  show thesis
    by (rule that [of "NewPasswordJob data pw"])
      (use assms NewPasswordCall data in \<open>auto simp: handleSetNewPassword_op_def store_simps mark_defs
         isOperationBusy_def split: if_splits\<close>)
qed

section \<open>An operation does not run twice\<close>

abbreviation job_keys :: "auth_store \<Rightarrow> operation_key list" where
  "job_keys s \<equiv> map (\<lambda>j. job_key (snd (snd j))) (au_jobs s)"

definition one_job_per_key :: "auth_store \<Rightarrow> bool" where
  "one_job_per_key s =
     (distinct (job_keys s) \<and> distinct (map fst (au_jobs s)) \<and> (\<forall>j \<in> set (au_jobs s). fst j < au_next s) \<and>
      (\<forall>key. isOperationBusy key s \<longleftrightarrow> key \<in> set (job_keys s)))"

text \<open>The two calls that set the status of an operation without its end.\<close>

fun resets_status :: "auth_event \<Rightarrow> bool" where
  "resets_status Reset = True"
| "resets_status (ClearError key) = True"
| "resets_status e = False"

lemma one_job_per_key_cong:
  assumes "one_job_per_key s" "au_jobs t = au_jobs s" "au_next t = au_next s"
    "\<And>key. isOperationBusy key t = isOperationBusy key s"
  shows "one_job_per_key t"
  using assms by (simp add: one_job_per_key_def)

lemma filter_keys:
  assumes "distinct (map fst xs)" "distinct (map f xs)" "x \<in> set xs"
  shows "f ` (set (filter (\<lambda>j. fst j \<noteq> fst x) xs)) = f ` set xs - {f x}"
  using assms
proof (induction xs)
  case (Cons y ys)
  show ?case
  proof (cases "y = x")
    case True
    then have "filter (\<lambda>j. fst j \<noteq> fst x) ys = ys"
      using Cons.prems(1) by (intro filter_True ballI) (metis distinct.simps(2) image_eqI list.simps(9) set_map)
    then show ?thesis using Cons.prems(2) True by auto
  next
    case False
    then have "x \<in> set ys" using Cons.prems(3) by simp
    moreover from this have "fst y \<noteq> fst x" "f y \<noteq> f x" using Cons.prems(1,2) by auto
    ultimately show ?thesis using Cons by auto
  qed
qed simp

lemma one_job_per_key_step:
  assumes inv: "one_job_per_key s" and "\<not> resets_status e"
  shows "one_job_per_key (auth_step e s)"
proof (cases e)
  case (Call w c)
  show ?thesis
  proof (cases "begin_call w c s")
    case None
    have "one_job_per_key (answer c s)"
      by (rule one_job_per_key_cong [OF inv]) (simp_all add: store_simps isOperationBusy_def)
    then show ?thesis using inv Call None by simp
  next
    case (Some t)
    then obtain job where job: "job_key job = call_key c" "\<not> isOperationBusy (call_key c) s"
      "au_jobs t = au_jobs s @ [(au_next s, w, job)]" "au_next t = Suc (au_next s)"
      "\<And>key. isOperationBusy key t \<longleftrightarrow> key = call_key c \<or> isOperationBusy key s"
      by (rule begin_call_Some) blast
    have "call_key c \<notin> set (job_keys s)" using inv job(2) by (simp add: one_job_per_key_def)
    then have "one_job_per_key t"
      using inv job by (auto simp: one_job_per_key_def less_Suc_eq)
    then show ?thesis using Call Some by simp
  qed
next
  case (Settled n r)
  show ?thesis
  proof (cases "map_of (au_jobs s) n")
    case None
    then show ?thesis using inv Settled by simp
  next
    case (Some j)
    obtain w job where j: "j = (w, job)" by (cases j)
    let ?s = "s\<lparr>au_jobs := filter (\<lambda>j. fst j \<noteq> n) (au_jobs s)\<rparr>"
    let ?t = "finish_job job r ?s"
    have in_jobs: "(n, w, job) \<in> set (au_jobs s)" using Some j by (simp add: map_of_SomeD)
    have keys: "set (job_keys ?s) = set (job_keys s) - {job_key job}"
      using filter_keys [OF _ _ in_jobs, of "\<lambda>j. job_key (snd (snd j))"] inv
      by (simp add: one_job_per_key_def)
    show ?thesis
    proof (cases "result_fits job r")
      case True
      have busy: "isOperationBusy key ?t \<longleftrightarrow> key \<in> set (job_keys ?s)" for key
      proof -
        have "isOperationBusy key ?s \<longleftrightarrow> key \<in> set (job_keys s)"
          using inv by (simp add: one_job_per_key_def isOperationBusy_def)
        then show ?thesis unfolding finish_job_status [OF True] keys by blast
      qed
      have "one_job_per_key ?t"
        using inv busy by (auto simp: one_job_per_key_def store_simps distinct_map_filter)
      moreover have "one_job_per_key (answer (call_of_job job) ?t)"
        by (rule one_job_per_key_cong [OF calculation]) (simp_all add: store_simps isOperationBusy_def)
      ultimately have "one_job_per_key (if w then answer (call_of_job job) ?t else ?t)" by simp
      then show ?thesis using Settled Some j True by (simp add: Let_def)
    next
      case False
      then show ?thesis using inv Settled Some j by simp
    qed
  qed
next
  case (NavigateTo phase name)
  show ?thesis
    by (rule one_job_per_key_cong [OF inv])
      (simp_all add: NavigateTo navigateToPhase_def store_simps isOperationBusy_def)
next
  case GoBack
  show ?thesis
    by (rule one_job_per_key_cong [OF inv])
      (simp_all add: GoBack navigateBack_def store_simps isOperationBusy_def split: option.split)
next
  case DismissRestoreSuccess
  show ?thesis
    by (rule one_job_per_key_cong [OF inv])
      (simp_all add: DismissRestoreSuccess store_simps isOperationBusy_def)
next
  case DismissIdentityKeyNotFound
  show ?thesis
    by (rule one_job_per_key_cong [OF inv])
      (simp_all add: DismissIdentityKeyNotFound store_simps isOperationBusy_def)
next
  case (Subscribe l)
  show ?thesis
    by (rule one_job_per_key_cong [OF inv]) (simp_all add: Subscribe isOperationBusy_def)
next
  case (Unsubscribe l)
  show ?thesis
    by (rule one_job_per_key_cong [OF inv]) (simp_all add: Unsubscribe isOperationBusy_def)
qed (use assms(2) in simp_all)

lemma one_job_per_key_initial: "one_job_per_key createAuthFlowStore"
  by (simp add: one_job_per_key_def createAuthFlowStore_def isOperationBusy_def createInitialStoreState_def
      createInitialOperations_def IDLE_OPERATION_def)

lemma one_job_per_key_run:
  "one_job_per_key s \<Longrightarrow> list_all (\<lambda>e. \<not> resets_status e) es \<Longrightarrow> one_job_per_key (fold auth_step es s)"
  by (induction es arbitrary: s) (auto intro: one_job_per_key_step)

text \<open>
  C27. An operation of the sign-in flow does not run twice at once. After any sequence of calls and
  results in which the user interface neither resets the flow nor clears an error, the operations
  that are under way are of different kinds, and a kind shows as loading exactly while one of it
  is under way: every spinner ends, and no second request is sent.
\<close>

theorem auth_operations_run_alone:
  assumes "list_all (\<lambda>e. \<not> resets_status e) es"
  shows "distinct (job_keys (auth_run es)) \<and>
         {key. isOperationBusy key (auth_run es)} = set (job_keys (auth_run es))"
  using one_job_per_key_run [OF one_job_per_key_initial assms]
  by (auto simp: one_job_per_key_def auth_run_def)

theorem auth_operations_run_alone_witness:
  "distinct (job_keys (auth_run [Call True (LoginCall ''a''), Call True (LoginCall ''b''),
     Call False (RegisterCall ''c'' None), Settled 1 (RegisterDone RegisterCancelled)])) \<and>
   {key. isOperationBusy key (auth_run [Call True (LoginCall ''a''), Call True (LoginCall ''b''),
     Call False (RegisterCall ''c'' None), Settled 1 (RegisterDone RegisterCancelled)])} =
   set (job_keys (auth_run [Call True (LoginCall ''a''), Call True (LoginCall ''b''),
     Call False (RegisterCall ''c'' None), Settled 1 (RegisterDone RegisterCancelled)]))"
  by (rule auth_operations_run_alone) simp

text \<open>A reset during an operation takes away its mark: the same operation can be started again.\<close>

lemma reset_lets_a_second_login_start:
  "job_keys (auth_run [Call True (LoginCall n), Reset, Call True (LoginCall n)]) = [LoginAttempt, LoginAttempt]"
  by (simp add: auth_run_def createAuthFlowStore_def createInitialStoreState_def createInitialOperations_def
      IDLE_OPERATION_def handleAttemptLogin_def isOperationBusy_def store_simps mark_defs)

section \<open>The operations on the identity client\<close>

text \<open>What an operation under way asks of the identity client, up to its result.\<close>

fun run_auth_job ::
  "auth_texts \<Rightarrow> bool \<Rightarrow> ('x env_scheme) identity_client \<Rightarrow> auth_job \<Rightarrow> ('x env_scheme, thrown, job_result) io" where
  "run_auth_job tx avail client (LoginJob name) =
     io_bind (attemptLogin tx client name) (\<lambda>r. io_return (LoginDone r))"
| "run_auth_job tx avail client (RegisterJob name pw) =
     io_bind (registerAccount tx client name pw) (\<lambda>r. io_return (RegisterDone r))"
| "run_auth_job tx avail client (PasswordJob name pw) =
     io_bind (loginWithPassword_op tx client name pw) (\<lambda>r. io_return (PasswordDone r))"
| "run_auth_job tx avail client (RestoreJob data) =
     io_bind (restoreCredentials tx avail client data) (\<lambda>r. io_return (RestoreDone r))"
| "run_auth_job tx avail client (NewPasswordJob data pw) =
     io_bind (setNewPassword tx client data pw) (\<lambda>r. io_return (NewPasswordDone r))"

definition succeeds :: "('s, 'e, 'a) io \<Rightarrow> bool" where
  "succeeds m = (\<forall>s. \<not> isl (fst (m s)))"

lemma succeedsD:
  assumes "succeeds m"
  obtains a t where "m s = (Inr a, t)"
proof -
  have "\<not> isl (fst (m s))" using assms by (simp add: succeeds_def)
  then show thesis using that by (cases "m s"; cases "fst (m s)") auto
qed

lemma succeeds_return: "succeeds (io_return a)"
  by (simp add: succeeds_def io_simps)

lemma succeeds_log: "succeeds m \<Longrightarrow> succeeds (io_then (emit_log lvl msg tag data) m)"
  by (simp add: succeeds_def io_simps)

lemma succeeds_catch: "(\<And>e. succeeds (h e)) \<Longrightarrow> succeeds (io_catch m h)"
  by (auto simp: succeeds_def io_simps split: prod.splits sum.splits)

lemma succeeds_then_return:
  assumes "succeeds m"
  shows "succeeds (io_bind m (\<lambda>a. io_return (f a)))"
  unfolding succeeds_def
proof
  fix s
  obtain a t where "m s = (Inr a, t)" using assms by (rule succeedsD)
  then show "\<not> isl (fst (io_bind m (\<lambda>a. io_return (f a)) s))" by (simp add: io_simps)
qed

lemma succeeds_if: "succeeds m \<Longrightarrow> succeeds n \<Longrightarrow> succeeds (if b then m else n)"
  by simp

lemmas succeeds_intros = succeeds_return succeeds_log succeeds_catch succeeds_then_return succeeds_if

lemma run_auth_job_succeeds: "succeeds (run_auth_job tx avail client job)"
  by (cases job)
    (simp_all add: attemptLogin_def registerAccount_def loginWithPassword_op_def restoreCredentials_def
      setNewPassword_def restore_failed_def new_password_failed_def succeeds_intros)

lemma run_auth_job_fits:
  assumes "run_auth_job tx avail client job env = (Inr r, env')"
  shows "result_fits job r"
  using assms by (cases job) (auto simp: io_simps split: prod.splits sum.splits)

lemma route_names_caller:
  "resolveLoginRoute tx client name env = (Inr (NeedsPassword n), env') \<Longrightarrow> n = name"
  by (auto simp: resolveLoginRoute_def tryPasskeyLogin_def io_simps emit_log_simp
      split: prod.splits sum.splits if_splits)

lemma attempt_names_caller:
  assumes "attemptLogin tx client name env = (Inr (NeedsPassword n), env')"
  shows "n = name"
proof (cases "isValidIdentityKeyName name")
  case True
  then show ?thesis
    using assms by (auto simp: attemptLogin_def io_simps emit_log_simp dest: route_names_caller
        split: prod.splits sum.splits)
next
  case False
  then show ?thesis using assms by (simp add: attemptLogin_def io_simps)
qed

text \<open>
  Every operation of the sign-in flow ends and is reported. Whatever the identity client answers or
  throws, the operation comes to a result of its kind, and with that result the store stops
  showing the operation as loading and leaves every other operation as it was.
\<close>

theorem auth_operation_settles:
  shows "case run_auth_job tx avail client job env of
           (Inl e, env') \<Rightarrow> False
         | (Inr r, env') \<Rightarrow> result_fits job r \<and>
             isOperationBusy key (finish_job job r s) = (key \<noteq> job_key job \<and> isOperationBusy key s)"
proof -
  obtain r env' where run: "run_auth_job tx avail client job env = (Inr r, env')"
    using run_auth_job_succeeds by (rule succeedsD)
  from run_auth_job_fits [OF this] show ?thesis
    by (simp add: run finish_job_status del: run_auth_job.simps)
qed

section \<open>What the provider answers\<close>

fun answer_of :: "auth_job \<Rightarrow> job_result \<Rightarrow> auth_output option" where
  "answer_of (LoginJob name) (LoginDone r) = Some (LoginAnswer name r)"
| "answer_of (RegisterJob name pw) (RegisterDone r) = Some (RegisterAnswer r)"
| "answer_of (PasswordJob name pw) (PasswordDone r) = Some (PasswordAnswer r)"
| "answer_of job r = None"

text \<open>
  C28. The provider hands the user interface the result of the operation that it awaited: what it reads
  from the store afterwards, out of three statuses, an error and a phase, is the very result that
  the operation on the identity client came to.
\<close>

theorem provider_answers_with_the_result:
  assumes "map_of (au_jobs s) n = Some (True, job)"
    and "run_auth_job tx avail client job env = (Inr r, env')"
    and "answer_of job r = Some x"
  shows "last (au_outputs (auth_step (Settled n r) s)) = x"
  using assms(3)
proof (cases "(job, r)" rule: answer_of.cases)
  case (1 name r')
  have "n = name" if "r' = NeedsPassword n" for n
    using assms(2) 1 that attempt_names_caller [of tx client name env n env']
    by (auto simp: io_simps split: prod.splits sum.splits)
  then show ?thesis
    using assms(1,3) 1 by (cases r')
      (auto simp: store_simps mark_defs readLoginResult_def Let_def IDLE_OPERATION_def)
next
  case (2 name pw r')
  then show ?thesis
    using assms(1,3) by (cases r')
      (auto simp: store_simps mark_defs readRegisterResult_def Let_def IDLE_OPERATION_def)
next
  case (3 name pw r')
  then show ?thesis
    using assms(1,3) by (cases r')
      (auto simp: store_simps mark_defs readPasswordLoginResult_def Let_def IDLE_OPERATION_def)
qed simp_all

definition offline_client :: "('x env_scheme) identity_client" where
  "offline_client =
     \<lparr>ic_registerWithPasskey = (\<lambda>u. io_throw (identity_error_of PASSKEY_CANCELLED ''cancelled'')),
      ic_registerWithPassword = (\<lambda>u p. io_throw (OtherErr (JsErr None))),
      ic_loginWithPasskey = (\<lambda>u. io_throw (identity_error_of PASSKEY_CANCELLED ''cancelled'')),
      ic_loginWithPassword = (\<lambda>u p. io_throw (OtherErr (JsErr None))),
      ic_getLoginCapabilities = (\<lambda>u. io_return
        \<lparr>lc_supportsPasskey = True, lc_supportsPassword = True, lc_identityFound = True,
         lc_twoFAOptionsCount = None\<rparr>),
      ic_recoverAccount = (\<lambda>i. io_throw (OtherErr (JsErr None)))\<rparr>"

lemma offline_login:
  "run_auth_job tx avail offline_client (LoginJob ''a'') \<lparr>env_now = 0, env_log = []\<rparr> =
   (Inr (LoginDone (NeedsPassword ''a'')),
    \<lparr>env_now = 0, env_log = [log_entry_of LInfo ''Passkey login failed, falling back to password'' ''auth'' []]\<rparr>)"
  by (simp add: attemptLogin_def resolveLoginRoute_def tryPasskeyLogin_def offline_client_def io_simps
      emit_log_simp isValidIdentityKeyName_def IDENTITY_KEY_MAX_LENGTH_def IDENTITY_KEY_PATTERN_def
      identity_key_char_def isPasskeyFallbackError_def has_code_def identity_error_of_def)

theorem provider_answers_with_the_result_witness:
  "last (au_outputs (auth_run [Call True (LoginCall ''a''), Settled 0 (LoginDone (NeedsPassword ''a''))])) =
   LoginAnswer ''a'' (NeedsPassword ''a'')"
proof -
  have jobs: "map_of (au_jobs (auth_run [Call True (LoginCall ''a'')])) 0 = Some (True, LoginJob ''a'')"
    by (simp add: auth_run_def createAuthFlowStore_def createInitialStoreState_def
        createInitialOperations_def IDLE_OPERATION_def handleAttemptLogin_def isOperationBusy_def
        store_simps mark_defs)
  have "last (au_outputs (auth_step (Settled 0 (LoginDone (NeedsPassword ''a'')))
      (auth_run [Call True (LoginCall ''a'')]))) = LoginAnswer ''a'' (NeedsPassword ''a'')"
    by (rule provider_answers_with_the_result [OF jobs offline_login]) simp
  then show ?thesis by (simp add: auth_run_def)
qed

text \<open>
  A call that finds its operation under way is answered as a success. The store does nothing, and
  the provider, which then reads a loading operation, tells the screen that the user is
  authenticated, although nobody has signed in: \<^verbatim>\<open>onAuthSuccess\<close> of the store is not called. The
  sign-in screen goes on to the main screen, the password sheet is dismissed.
\<close>

theorem busy_login_is_answered_as_success:
  assumes "isOperationBusy LoginAttempt s" "isOperationBusy PasswordLogin s"
    and "as_phase (au_state s) \<noteq> VerifyPassword"
  shows "auth_step (Call True (LoginCall name)) s = emit_output (LoginAnswer name Authenticated) s \<and>
         auth_step (Call True (PasswordCall name pw)) s = emit_output (PasswordAnswer PasswordAccepted) s"
  using assms
  by (simp add: handleAttemptLogin_def handlePasswordLogin_op_def readLoginResult_def
      readPasswordLoginResult_def isOperationBusy_def Let_def)

theorem busy_login_is_answered_as_success_witness:
  "AuthSuccess ''a'' \<notin> set (au_outputs (auth_run
     [Call True (LoginCall ''a''), Call True (PasswordCall ''a'' ''x''), Call True (LoginCall ''a'')]))
   = (LoginAnswer ''a'' Authenticated \<in> set (au_outputs (auth_run
     [Call True (LoginCall ''a''), Call True (PasswordCall ''a'' ''x''), Call True (LoginCall ''a'')])))"
proof -
  let ?s = "auth_run [Call True (LoginCall ''a''), Call True (PasswordCall ''a'' ''x'')]"
  have busy: "isOperationBusy LoginAttempt ?s" "isOperationBusy PasswordLogin ?s"
    "as_phase (au_state ?s) \<noteq> VerifyPassword" "au_outputs ?s = []"
    by (simp_all add: auth_run_def createAuthFlowStore_def createInitialStoreState_def
        createInitialOperations_def IDLE_OPERATION_def handleAttemptLogin_def handlePasswordLogin_op_def
        isOperationBusy_def store_simps mark_defs)
  have "auth_run [Call True (LoginCall ''a''), Call True (PasswordCall ''a'' ''x''), Call True (LoginCall ''a'')] =
        auth_step (Call True (LoginCall ''a'')) ?s"
    by (simp add: auth_run_def)
  also have "\<dots> = emit_output (LoginAnswer ''a'' Authenticated) ?s"
    using busy_login_is_answered_as_success [OF busy(1-3)] by (rule conjunct1)
  finally show ?thesis by (simp add: store_simps busy(4))
qed

section \<open>A result that comes too late\<close>

text \<open>
  A result is applied whatever has happened since. If the user has gone back or reset the flow
  while a restore was under way, its result still opens the screen for a new password; the
  recovery data are gone by then, and a password entered there is silently dropped.
\<close>

lemma late_restore_opens_a_dead_screen:
  assumes "map_of (au_jobs s) n = Some (w, RestoreJob data)"
    and "t = auth_step (Settled n (RestoreDone (RestoreNeedsPassword x))) (auth_step Reset s)"
  shows "as_phase (au_state t) = SetNewPasswordPhase \<and> auth_step (Call False (NewPasswordCall pw)) t = t"
  using assms(1) unfolding assms(2)
  by (simp add: store_simps mark_defs Let_def createInitialStoreState_def handleSetNewPassword_op_def
      isOperationBusy_def createInitialOperations_def IDLE_OPERATION_def)

text \<open>The same holds for a login that needs the password: it leaves a phase that has no such transition.\<close>

lemma late_login_ignores_the_phase:
  assumes "map_of (au_jobs s) n = Some (False, LoginJob name)"
  shows "as_phase (au_state (auth_step (Settled n (LoginDone (NeedsPassword x))) s)) = VerifyPassword"
  using assms by (simp add: store_simps mark_defs Let_def)

end
