(* ===== verification/AuthHook.thy ===== *)
theory AuthHook
  imports AuthFlow
begin

text \<open>
  \<^verbatim>\<open>packages/auth/src\<close>: the older form of the sign-in flow, a reducer (\<^verbatim>\<open>auth-flow-reducer.ts\<close>)
  with one handler per operation (\<^verbatim>\<open>handle-*.ts\<close>) behind the hook of \<^verbatim>\<open>use-auth-flow.ts\<close>, and its
  comparison with the store of \<^verbatim>\<open>AuthFlow\<close>. A handler dispatches actions while it talks to the
  identity client; the state is the client's and the hook's.
\<close>

section \<open>The reducer\<close>

record flow_state =
  fs_phase :: auth_phase
  fs_identityKeyName :: string
  fs_isLoading :: bool
  fs_error :: "flow_error option"
  fs_restoreSuccessVisible :: bool
  fs_notFoundVisible :: bool

datatype flow_action =
    GO_TO_GET_STARTED "string option"
  | GO_TO_REGISTER
  | GO_TO_VERIFY_PASSWORD string
  | SET_LOADING bool
  | SET_ERROR flow_error
  | CLEAR_ERROR
  | GO_TO_RESTORE_MENU
  | GO_TO_RESTORE_CREDENTIALS
  | GO_TO_SET_NEW_PASSWORD string
  | GO_BACK_FROM_SET_NEW_PASSWORD
  | SHOW_RESTORE_SUCCESS
  | HIDE_RESTORE_SUCCESS
  | SHOW_IDENTITY_KEY_NOT_FOUND
  | HIDE_IDENTITY_KEY_NOT_FOUND

definition createInitialState :: flow_state where
  "createInitialState =
     \<lparr>fs_phase = GetStarted, fs_identityKeyName = '''', fs_isLoading = False, fs_error = None,
      fs_restoreSuccessVisible = False, fs_notFoundVisible = False\<rparr>"

fun reduceRestoreActions :: "flow_state \<Rightarrow> flow_action \<Rightarrow> flow_state" where
  "reduceRestoreActions s GO_TO_RESTORE_MENU =
     (if fs_phase s \<noteq> GetStarted \<and> fs_phase s \<noteq> RestoreCredentials then s
      else s\<lparr>fs_phase := RestoreMenu, fs_error := None, fs_isLoading := False\<rparr>)"
| "reduceRestoreActions s GO_TO_RESTORE_CREDENTIALS =
     (if fs_phase s \<noteq> RestoreMenu then s else s\<lparr>fs_phase := RestoreCredentials, fs_error := None\<rparr>)"
| "reduceRestoreActions s (GO_TO_SET_NEW_PASSWORD name) =
     (if fs_phase s \<noteq> RestoreCredentials then s
      else s\<lparr>fs_phase := SetNewPasswordPhase, fs_identityKeyName := name, fs_error := None\<rparr>)"
| "reduceRestoreActions s GO_BACK_FROM_SET_NEW_PASSWORD =
     (if fs_phase s \<noteq> SetNewPasswordPhase then s
      else s\<lparr>fs_phase := RestoreCredentials, fs_error := None, fs_isLoading := False\<rparr>)"
| "reduceRestoreActions s SHOW_RESTORE_SUCCESS =
     (if fs_phase s \<noteq> SetNewPasswordPhase \<and> fs_phase s \<noteq> RestoreCredentials then s
      else if fs_phase s = RestoreCredentials \<and> \<not> fs_isLoading s then s
      else s\<lparr>fs_restoreSuccessVisible := True\<rparr>)"
| "reduceRestoreActions s HIDE_RESTORE_SUCCESS = s\<lparr>fs_restoreSuccessVisible := False\<rparr>"
| "reduceRestoreActions s SHOW_IDENTITY_KEY_NOT_FOUND =
     (if fs_phase s \<noteq> RestoreCredentials \<and> fs_phase s \<noteq> SetNewPasswordPhase then s
      else s\<lparr>fs_notFoundVisible := True\<rparr>)"
| "reduceRestoreActions s HIDE_IDENTITY_KEY_NOT_FOUND = s\<lparr>fs_notFoundVisible := False\<rparr>"
| "reduceRestoreActions s a = s"

fun authFlowReducer :: "flow_state \<Rightarrow> flow_action \<Rightarrow> flow_state" where
  "authFlowReducer s (GO_TO_GET_STARTED name) =
     s\<lparr>fs_phase := GetStarted, fs_identityKeyName := (case name of None \<Rightarrow> '''' | Some n \<Rightarrow> n),
       fs_error := None, fs_isLoading := False, fs_restoreSuccessVisible := False, fs_notFoundVisible := False\<rparr>"
| "authFlowReducer s GO_TO_REGISTER =
     (if fs_phase s \<noteq> GetStarted then s else s\<lparr>fs_phase := RegisterPhase, fs_error := None\<rparr>)"
| "authFlowReducer s (GO_TO_VERIFY_PASSWORD name) =
     (if fs_phase s \<noteq> GetStarted then s
      else s\<lparr>fs_phase := VerifyPassword, fs_identityKeyName := name, fs_error := None\<rparr>)"
| "authFlowReducer s (SET_LOADING b) = s\<lparr>fs_isLoading := b\<rparr>"
| "authFlowReducer s (SET_ERROR e) = s\<lparr>fs_error := Some e\<rparr>"
| "authFlowReducer s CLEAR_ERROR = s\<lparr>fs_error := None\<rparr>"
| "authFlowReducer s a = reduceRestoreActions s a"

section \<open>The handlers\<close>

text \<open>The reducer's state, \<^verbatim>\<open>recoveryDataRef\<close>, the guards and the calls of \<^verbatim>\<open>onAuthSuccess\<close>.\<close>

record hook =
  hk_flow :: flow_state
  hk_recovery :: "recovery_data option"
  hk_registerInFlight :: bool
  hk_loginInFlight :: bool
  hk_restoreInFlight :: bool
  hk_succeeded :: "string list"

type_synonym ('s, 'a) hook_io = "('s \<times> hook, thrown, 'a) io"

definition on_client :: "('s, thrown, 'a) io \<Rightarrow> ('s, 'a) hook_io" where
  "on_client m = (\<lambda>(s, h). let (r, t) = m s in (r, (t, h)))"

definition on_hook :: "(hook \<Rightarrow> hook) \<Rightarrow> ('s, unit) hook_io" where
  "on_hook f = io_modify (\<lambda>(s, h). (s, f h))"

definition dispatch :: "flow_action \<Rightarrow> ('s, unit) hook_io" where
  "dispatch a = on_hook (\<lambda>h. h\<lparr>hk_flow := authFlowReducer (hk_flow h) a\<rparr>)"

definition onAuthSuccess :: "string \<Rightarrow> ('s, unit) hook_io" where
  "onAuthSuccess name = on_hook (\<lambda>h. h\<lparr>hk_succeeded := hk_succeeded h @ [name]\<rparr>)"

abbreviation hook_log :: "log_level \<Rightarrow> string \<Rightarrow> js_value js_record \<Rightarrow> ('x env_scheme, unit) hook_io" where
  "hook_log lvl msg data \<equiv> on_client (emit_log lvl msg ''auth'' data)"

text \<open>\<^verbatim>\<open>finally { dispatch({ type: 'SET_LOADING', isLoading: false }) }\<close>\<close>

definition loading_ends :: "'s \<times> hook \<Rightarrow> 's \<times> hook" where
  "loading_ends = (\<lambda>(s, h). (s, h\<lparr>hk_flow := authFlowReducer (hk_flow h) (SET_LOADING False)\<rparr>))"

definition attemptPasskeyLogin ::
  "auth_texts \<Rightarrow> ('x env_scheme) identity_client \<Rightarrow> string \<Rightarrow> bool \<Rightarrow> ('x env_scheme, unit) hook_io" where
  "attemptPasskeyLogin tx client identityKeyName supportsPassword =
     io_catch
       (io_then (on_client (ic_loginWithPasskey client identityKeyName))
       (io_then (hook_log LInfo ''Passkey login succeeded'' [])
          (onAuthSuccess identityKeyName)))
       (\<lambda>error.
          if isPasskeyFallbackError error \<and> supportsPassword
          then io_then (hook_log LInfo ''Passkey login failed, falling back to password'' [])
                 (dispatch (GO_TO_VERIFY_PASSWORD identityKeyName))
          else dispatch (SET_ERROR (mapIdentityError tx error)))"

definition hook_resolveLoginRoute ::
  "auth_texts \<Rightarrow> ('x env_scheme) identity_client \<Rightarrow> string \<Rightarrow> ('x env_scheme, unit) hook_io" where
  "hook_resolveLoginRoute tx client identityKeyName =
     io_bind (on_client (ic_getLoginCapabilities client identityKeyName)) (\<lambda>capabilities.
       if \<not> lc_identityFound capabilities
       then dispatch (SET_ERROR (mapIdentityError tx buildUserNotFoundError))
       else if lc_supportsPasskey capabilities
       then attemptPasskeyLogin tx client identityKeyName (lc_supportsPassword capabilities)
       else if lc_supportsPassword capabilities then dispatch (GO_TO_VERIFY_PASSWORD identityKeyName)
       else io_return ())"

definition handleLoginAttempt ::
  "auth_texts \<Rightarrow> ('x env_scheme) identity_client \<Rightarrow> string \<Rightarrow> ('x env_scheme, unit) hook_io" where
  "handleLoginAttempt tx client identityKeyName =
     (if \<not> isValidIdentityKeyName identityKeyName
      then dispatch (SET_ERROR (mapIdentityError tx buildUserNotFoundError))
      else io_then (dispatch (SET_LOADING True))
        (io_finally
          (io_catch (hook_resolveLoginRoute tx client identityKeyName)
            (\<lambda>error.
               io_then (hook_log LError ''Login attempt failed'' [(''identityKeyName'', JStr identityKeyName)])
                 (dispatch (SET_ERROR (mapIdentityError tx error)))))
          loading_ends))"

definition handlePasswordLogin ::
  "auth_texts \<Rightarrow> ('x env_scheme) identity_client \<Rightarrow> string \<Rightarrow> string \<Rightarrow> ('x env_scheme, unit) hook_io" where
  "handlePasswordLogin tx client identityKeyName password =
     io_then (dispatch (SET_LOADING True))
       (io_finally
         (io_catch
           (io_then (on_client (ic_loginWithPassword client identityKeyName password))
              (onAuthSuccess identityKeyName))
           (\<lambda>error.
              io_then (hook_log LError ''Password login failed'' [(''identityKeyName'', JStr identityKeyName)])
                (dispatch (SET_ERROR (mapIdentityError tx error)))))
         loading_ends)"

definition hook_executeRegistration ::
  "('x env_scheme) identity_client \<Rightarrow> string \<Rightarrow> string option \<Rightarrow> ('x env_scheme, unit) hook_io" where
  "hook_executeRegistration client identityKeyName password =
     io_then
       (on_client (case password of
          None \<Rightarrow> ic_registerWithPasskey client identityKeyName
        | Some p \<Rightarrow> ic_registerWithPassword client identityKeyName p))
       (io_then (hook_log LInfo ''Registration succeeded''
            [(''method'', JStr (if password = None then ''passkey'' else ''password''))])
          (onAuthSuccess identityKeyName))"

definition handleRegister ::
  "auth_texts \<Rightarrow> ('x env_scheme) identity_client \<Rightarrow> string \<Rightarrow> string option \<Rightarrow> ('x env_scheme, unit) hook_io" where
  "handleRegister tx client identityKeyName password =
     (if \<not> isValidIdentityKeyName identityKeyName
      then dispatch (SET_ERROR
        \<lparr>fe_code = UNKNOWN, fe_numericCode = ''600'',
         fe_userMessage = tx_translate tx ''auth:errorInvalidIdentityKeyName''\<rparr>)
      else io_then (dispatch (SET_LOADING True))
        (io_finally
          (io_catch (hook_executeRegistration client identityKeyName password)
            (\<lambda>error.
               io_then (hook_log LError ''Registration failed'' [(''identityKeyName'', JStr identityKeyName)])
                 (if password = None \<and> isPasskeyCancelledError error then dispatch GO_TO_REGISTER
                  else dispatch (SET_ERROR (mapIdentityError tx error)))))
          loading_ends))"

definition handlePasskeyRecoveryError ::
  "auth_texts \<Rightarrow> recovery_data \<Rightarrow> thrown \<Rightarrow> ('x env_scheme, unit) hook_io" where
  "handlePasskeyRecoveryError tx data error =
     (if isPasskeyPlatformError error
      then io_then (hook_log LInfo ''Passkey cancelled, falling back to password'' [])
             (dispatch (GO_TO_SET_NEW_PASSWORD (rd_identityKeyName data)))
      else io_then (hook_log LError ''Account recovery failed'' [])
             (if isInvalidRecoveryCredentials error then dispatch SHOW_IDENTITY_KEY_NOT_FOUND
              else dispatch (SET_ERROR (mapIdentityError tx error))))"

definition handleRestoreCredentials ::
  "auth_texts \<Rightarrow> bool \<Rightarrow> ('x env_scheme) identity_client \<Rightarrow> recovery_data \<Rightarrow> ('x env_scheme, unit) hook_io" where
  "handleRestoreCredentials tx isPasskeyAvailable client data =
     io_then (on_hook (\<lambda>h. h\<lparr>hk_recovery := Some data\<rparr>))
     (io_then (dispatch (SET_LOADING True))
       (io_finally
         (io_catch
           (if \<not> isPasskeyAvailable then dispatch (GO_TO_SET_NEW_PASSWORD (rd_identityKeyName data))
            else io_then (on_client (callPasskeyRecovery client data))
                (io_then (hook_log LInfo ''Passkey recovery succeeded'' [])
                   (dispatch SHOW_RESTORE_SUCCESS)))
           (handlePasskeyRecoveryError tx data))
         loading_ends))"

definition handleRecoveryError :: "auth_texts \<Rightarrow> thrown \<Rightarrow> ('x env_scheme, unit) hook_io" where
  "handleRecoveryError tx error =
     io_then (hook_log LError ''Account recovery failed'' [])
       (if isInvalidRecoveryCredentials error then dispatch SHOW_IDENTITY_KEY_NOT_FOUND
        else dispatch (SET_ERROR (mapIdentityError tx error)))"

definition handleSetNewPassword ::
  "auth_texts \<Rightarrow> ('x env_scheme) identity_client \<Rightarrow> recovery_data \<Rightarrow> string \<Rightarrow> ('x env_scheme, unit) hook_io" where
  "handleSetNewPassword tx client recoveryData newPassword =
     io_then (dispatch (SET_LOADING True))
       (io_finally
         (io_catch
           (io_then (on_client (callRecoverAccount client recoveryData newPassword))
              (io_then (hook_log LInfo ''Password recovery succeeded'' [])
                 (dispatch SHOW_RESTORE_SUCCESS)))
           (handleRecoveryError tx))
         loading_ends)"

section \<open>The hook\<close>

text \<open>\<^verbatim>\<open>createInFlightGuard\<close>: a flag of the hook, read and written.\<close>

definition createInFlightGuard ::
  "(hook \<Rightarrow> bool) \<Rightarrow> (bool \<Rightarrow> hook \<Rightarrow> hook) \<Rightarrow> ('s, unit) hook_io \<Rightarrow> ('s, unit) hook_io" where
  "createInFlightGuard flag set_flag action =
     io_bind (io_gets (\<lambda>(s, h). flag h)) (\<lambda>current.
       if current then io_return ()
       else io_then (on_hook (set_flag True)) (io_finally action (\<lambda>(s, h). (s, set_flag False h))))"

abbreviation registerGuard :: "('s, unit) hook_io \<Rightarrow> ('s, unit) hook_io" where
  "registerGuard \<equiv> createInFlightGuard hk_registerInFlight (\<lambda>b h. h\<lparr>hk_registerInFlight := b\<rparr>)"

abbreviation loginGuard :: "('s, unit) hook_io \<Rightarrow> ('s, unit) hook_io" where
  "loginGuard \<equiv> createInFlightGuard hk_loginInFlight (\<lambda>b h. h\<lparr>hk_loginInFlight := b\<rparr>)"

abbreviation restoreGuard :: "('s, unit) hook_io \<Rightarrow> ('s, unit) hook_io" where
  "restoreGuard \<equiv> createInFlightGuard hk_restoreInFlight (\<lambda>b h. h\<lparr>hk_restoreInFlight := b\<rparr>)"

definition new_hook :: hook where
  "new_hook =
     \<lparr>hk_flow = createInitialState, hk_recovery = None, hk_registerInFlight = False,
      hk_loginInFlight = False, hk_restoreInFlight = False, hk_succeeded = []\<rparr>"

text \<open>The callbacks that the screens are given.\<close>

datatype screen_callback =
    NavigateToRegister
  | NavigateToVerifyPassword string
  | NavigateToRestore
  | RegisterBack
  | RegisterContinue string "string option"
  | PasswordConfirm string
  | RestoreMenuBack
  | SelectCloudRestore
  | SelectCredentialRestore
  | RestoreCredentialsBack
  | RestoreWith recovery_data
  | SetNewPasswordBack
  | SetNewPasswordContinue string
  | RestoreSuccessClose
  | RestoreSuccessLogin
  | KeyNotFoundClose
  | ResetFlow

definition forget_recovery :: "('s, unit) hook_io" where
  "forget_recovery = on_hook (\<lambda>h. h\<lparr>hk_recovery := None\<rparr>)"

text \<open>\<^verbatim>\<open>onContinue\<close> of the screen for a new password.\<close>

definition continue_new_password ::
  "auth_texts \<Rightarrow> ('x env_scheme) identity_client \<Rightarrow> string \<Rightarrow> ('x env_scheme, unit) hook_io" where
  "continue_new_password tx client password =
     io_bind (io_gets (\<lambda>(s, h). hk_recovery h)) (\<lambda>rd.
       case rd of
         None \<Rightarrow>
           io_then (dispatch (SET_ERROR
               \<lparr>fe_code = UNKNOWN, fe_numericCode = ''600'',
                fe_userMessage = tx_translate tx ''auth:errorUnknown''\<rparr>))
             (dispatch (GO_TO_GET_STARTED None))
       | Some data \<Rightarrow> handleSetNewPassword tx client data password)"

fun useAuthFlow ::
  "auth_texts \<Rightarrow> bool \<Rightarrow> ('x env_scheme) identity_client \<Rightarrow> screen_callback \<Rightarrow> ('x env_scheme, unit) hook_io" where
  "useAuthFlow tx avail client NavigateToRegister = dispatch GO_TO_REGISTER"
| "useAuthFlow tx avail client (NavigateToVerifyPassword name) =
     loginGuard (handleLoginAttempt tx client name)"
| "useAuthFlow tx avail client NavigateToRestore = dispatch GO_TO_RESTORE_MENU"
| "useAuthFlow tx avail client RegisterBack = dispatch (GO_TO_GET_STARTED None)"
| "useAuthFlow tx avail client (RegisterContinue name pw) =
     registerGuard (handleRegister tx client name pw)"
| "useAuthFlow tx avail client (PasswordConfirm pw) =
     io_bind (io_gets (\<lambda>(s, h). fs_identityKeyName (hk_flow h))) (\<lambda>name.
       loginGuard (handlePasswordLogin tx client name pw))"
| "useAuthFlow tx avail client RestoreMenuBack = dispatch (GO_TO_GET_STARTED None)"
| "useAuthFlow tx avail client SelectCloudRestore = io_return ()"
| "useAuthFlow tx avail client SelectCredentialRestore = dispatch GO_TO_RESTORE_CREDENTIALS"
| "useAuthFlow tx avail client RestoreCredentialsBack = dispatch GO_TO_RESTORE_MENU"
| "useAuthFlow tx avail client (RestoreWith data) =
     restoreGuard (handleRestoreCredentials tx avail client data)"
| "useAuthFlow tx avail client SetNewPasswordBack =
     io_then forget_recovery (dispatch GO_BACK_FROM_SET_NEW_PASSWORD)"
| "useAuthFlow tx avail client (SetNewPasswordContinue pw) =
     restoreGuard (continue_new_password tx client pw)"
| "useAuthFlow tx avail client RestoreSuccessClose =
     io_then forget_recovery
       (io_then (dispatch HIDE_RESTORE_SUCCESS) (dispatch (GO_TO_GET_STARTED None)))"
| "useAuthFlow tx avail client RestoreSuccessLogin =
     io_bind (io_gets (\<lambda>(s, h). fs_identityKeyName (hk_flow h))) (\<lambda>name.
       io_then forget_recovery
         (io_then (dispatch HIDE_RESTORE_SUCCESS) (dispatch (GO_TO_GET_STARTED (Some name)))))"
| "useAuthFlow tx avail client KeyNotFoundClose = dispatch HIDE_IDENTITY_KEY_NOT_FOUND"
| "useAuthFlow tx avail client ResetFlow = io_then forget_recovery (dispatch (GO_TO_GET_STARTED None))"

named_theorems hook_simps

lemma on_client_simp [hook_simps]: "on_client m (e, h) = (fst (m e), (snd (m e), h))"
  by (simp add: on_client_def split: prod.splits)

lemma on_hook_simp [hook_simps]: "on_hook f (e, h) = (Inr (), (e, f h))"
  by (simp add: on_hook_def io_simps)

lemma dispatch_simp [hook_simps]:
  "dispatch a (e, h) = (Inr (), (e, h\<lparr>hk_flow := authFlowReducer (hk_flow h) a\<rparr>))"
  by (simp add: dispatch_def hook_simps)

lemma onAuthSuccess_simp [hook_simps]:
  "onAuthSuccess name (e, h) = (Inr (), (e, h\<lparr>hk_succeeded := hk_succeeded h @ [name]\<rparr>))"
  by (simp add: onAuthSuccess_def hook_simps)

lemma guard_simp [hook_simps]:
  "createInFlightGuard flag set_flag m (e, h) =
     (if flag h then (Inr (), (e, h))
      else (fst (m (e, set_flag True h)),
            (fst (snd (m (e, set_flag True h))), set_flag False (snd (snd (m (e, set_flag True h)))))))"
  by (simp add: createInFlightGuard_def io_simps hook_simps split: prod.splits)

lemmas hook_eval = hook_simps io_simps emit_log_simp loading_ends_def

text \<open>
  Without the data of a recovery the hook reports an unknown error and goes back to the start; the
  second action clears the error of the first, so nothing is ever shown.
\<close>

lemma missing_recovery_error_is_cleared:
  "fs_error (hk_flow (snd (snd (continue_new_password tx client pw (e, h\<lparr>hk_recovery := None\<rparr>))))) = None"
  by (simp add: continue_new_password_def hook_eval)

section \<open>The hook and the store\<close>

text \<open>
  A call of the store with the operation that it starts, run to its end.
\<close>

definition perform_call ::
  "auth_texts \<Rightarrow> bool \<Rightarrow> ('x env_scheme) identity_client \<Rightarrow> auth_call \<Rightarrow>
   'x env_scheme \<times> auth_store \<Rightarrow> 'x env_scheme \<times> auth_store" where
  "perform_call tx avail client c = (\<lambda>(env, s).
     case begin_call False c s of
       None \<Rightarrow> (env, s)
     | Some s1 \<Rightarrow>
         (case run_auth_job tx avail client (snd (snd (last (au_jobs s1)))) env of
            (Inl e, env') \<Rightarrow> (env', s1)
          | (Inr r, env') \<Rightarrow> (env', auth_step (Settled (au_next s) r) s1)))"

fun success_of :: "auth_output \<Rightarrow> string option" where
  "success_of (AuthSuccess n) = Some n"
| "success_of x = None"

text \<open>
  What a screen can tell of one operation: phase, name, error, spinner, and who has signed in.
\<close>

type_synonym auth_view = "auth_phase \<times> string \<times> flow_error option \<times> bool \<times> string list"

definition store_view :: "operation_key \<Rightarrow> auth_store \<Rightarrow> auth_view" where
  "store_view key s =
     (as_phase (au_state s), as_identityKeyName (au_state s), os_error (as_operations (au_state s) key),
      isOperationBusy key s, List.map_filter success_of (au_outputs s))"

definition hook_view :: "hook \<Rightarrow> auth_view" where
  "hook_view h =
     (fs_phase (hk_flow h), fs_identityKeyName (hk_flow h), fs_error (hk_flow h), fs_isLoading (hk_flow h),
      hk_succeeded h)"

lemma listeners_are_no_success [simp]:
  "List.map_filter success_of (map (\<lambda>l. ListenerCalled l a) ls) = []"
  by (induction ls) (simp_all add: map_filter_simps)

lemma map_filter_append [simp]:
  "List.map_filter f (xs @ ys) = List.map_filter f xs @ List.map_filter f ys"
  by (induction xs) (simp_all add: map_filter_simps split: option.split)

text \<open>What a login result makes of a view, and that both programs do just that.\<close>

fun view_after_login :: "string \<Rightarrow> login_result \<Rightarrow> auth_view \<Rightarrow> auth_view" where
  "view_after_login name Authenticated (ph, n, e, l, ok) = (ph, n, None, False, ok @ [name])"
| "view_after_login name (NeedsPassword m) (ph, n, e, l, ok) = (VerifyPassword, m, None, False, ok)"
| "view_after_login name (LoginError e') (ph, n, e, l, ok) = (ph, n, Some e', False, ok)"

lemma store_after_login:
  assumes inv: "one_job_per_key s" and idle: "\<not> isOperationBusy LoginAttempt s"
    and run: "attemptLogin tx client name env = (Inr r, env')"
  shows "\<exists>s'. perform_call tx avail client (LoginCall name) (env, s) = (env', s') \<and>
     store_view LoginAttempt s' = view_after_login name r (store_view LoginAttempt s)"
proof -
  let ?s1 = "start_job False (LoginJob name) (markLoading LoginAttempt s)"
  have none: "map_of (au_jobs s) (au_next s) = None"
    using inv by (auto simp: one_job_per_key_def map_of_eq_None_iff)
  have "map_of (au_jobs ?s1) (au_next s) = Some (False, LoginJob name)"
    by (simp add: store_simps mark_defs map_add_def none)
  then have "auth_step (Settled (au_next s) (LoginDone r)) ?s1 =
      applyLoginResult name r (?s1\<lparr>au_jobs := filter (\<lambda>j. fst j \<noteq> au_next s) (au_jobs ?s1)\<rparr>)"
    by simp
  moreover have "store_view LoginAttempt (applyLoginResult name r (?s1\<lparr>au_jobs := js\<rparr>)) =
      view_after_login name r (store_view LoginAttempt s)" for js
    by (cases r)
      (simp_all add: store_view_def store_simps mark_defs isOperationBusy_def IDLE_OPERATION_def map_filter_simps)
  moreover have "perform_call tx avail client (LoginCall name) (env, s) =
      (env', auth_step (Settled (au_next s) (LoginDone r)) ?s1)"
    using idle by (simp add: perform_call_def handleAttemptLogin_def store_simps run io_simps del: auth_step.simps)
  ultimately show ?thesis by simp
qed

lemma hook_after_login:
  assumes "hk_loginInFlight h = False" "fs_phase (hk_flow h) = GetStarted"
    and "fs_isLoading (hk_flow h) = False" "fs_error (hk_flow h) = None"
    and run: "attemptLogin tx client name env = (Inr r, env')"
    and offers: "\<And>c t. ic_getLoginCapabilities client name env = (Inr c, t) \<Longrightarrow> lc_identityFound c \<Longrightarrow>
      lc_supportsPasskey c \<or> lc_supportsPassword c"
  shows "\<exists>h'. useAuthFlow tx avail client (NavigateToVerifyPassword name) (env, h) = (Inr (), (env', h')) \<and>
     hook_view h' = view_after_login name r (hook_view h)"
proof (cases "isValidIdentityKeyName name")
  case False
  then show ?thesis
    using assms(1-4) run by (auto simp: attemptLogin_def handleLoginAttempt_def hook_eval hook_view_def)
next
  case valid: True
  obtain rc t where caps: "ic_getLoginCapabilities client name env = (rc, t)" by fastforce
  show ?thesis
  proof (cases rc)
    case (Inl e)
    then show ?thesis
      using assms(1-4) run valid caps
      by (auto simp: attemptLogin_def handleLoginAttempt_def resolveLoginRoute_def hook_resolveLoginRoute_def
          hook_eval hook_view_def)
  next
    case (Inr c)
    obtain rp u where passkey: "ic_loginWithPasskey client name t = (rp, u)" by fastforce
    show ?thesis
      using assms(1-4) run valid caps Inr passkey offers [of c t]
      by (cases rp)
        (auto simp: attemptLogin_def handleLoginAttempt_def resolveLoginRoute_def hook_resolveLoginRoute_def
          tryPasskeyLogin_def attemptPasskeyLogin_def hook_eval hook_view_def split: if_splits)
  qed
qed



text \<open>
  Where they differ: an identity that is known but offers neither factor (a server that asks for a
  second factor first) is an error in the store, and in the hook a button that does nothing.
\<close>

lemma dead_end_is_silent_in_the_hook:
  assumes "isValidIdentityKeyName name"
    and "ic_getLoginCapabilities client name env = (Inr c, t)"
    and "lc_identityFound c" "\<not> lc_supportsPasskey c" "\<not> lc_supportsPassword c"
  shows "attemptLogin tx client name env = (Inr (LoginError (mapIdentityError tx buildUserNotFoundError)), t) \<and>
     fs_error (hk_flow (snd (snd (handleLoginAttempt tx client name (env, h))))) = fs_error (hk_flow h)"
  using assms
  by (simp add: attemptLogin_def resolveLoginRoute_def handleLoginAttempt_def hook_resolveLoginRoute_def hook_eval)

end
