(* ===== verification/Permissions.thy ===== *)
theory Permissions
  imports NetworkTypes
begin

text \<open>
  \<^verbatim>\<open>packages/permissions/src\<close>: the permissions of the device and the browser. The first part is
  what each platform answers (\<^verbatim>\<open>platform/*.ts\<close>), over the operations of
  \<^verbatim>\<open>react-native-permissions\<close> and of the browser, which are parameters; the second part is
  \<^verbatim>\<open>permissions.ts\<close> with its store (\<^verbatim>\<open>permission-store.ts\<close>, \<^verbatim>\<open>refresh-permissions.ts\<close>) as a machine
  driven by calls and by the answers of the platform, in any order.
\<close>

section \<open>Types\<close>

datatype permission_type = Camera | Photos | Microphone | Notifications | Cloud

datatype permission_status =
    Granted | Denied | Limited | PermanentlyDenied | Restricted | Provisional | UnknownStatus | NotAvailable

type_synonym permission_result = "permission_type \<times> permission_status"

definition ALL_TYPES :: "permission_type list" where
  "ALL_TYPES = [Camera, Photos, Microphone, Notifications, Cloud]"

lemma all_types [simp]: "t \<in> set ALL_TYPES"
  by (cases t) (simp_all add: ALL_TYPES_def)

section \<open>The native platform\<close>

text \<open>\<^verbatim>\<open>np_PERMISSIONS ''IOS'' ''CAMERA''\<close> is the constant of the library.\<close>

record 's native_permissions =
  np_ios :: bool
  np_Version :: int
  np_PERMISSIONS :: "string \<Rightarrow> string \<Rightarrow> string"
  np_check :: "string \<Rightarrow> ('s, js_error, string) io"
  np_request :: "string \<Rightarrow> ('s, js_error, string) io"

definition native_mapNativeStatus :: "string \<Rightarrow> permission_status" where
  "native_mapNativeStatus status =
     (if status = ''granted'' then Granted
      else if status = ''denied'' then Denied
      else if status = ''blocked'' then PermanentlyDenied
      else if status = ''limited'' then Limited
      else if status = ''unavailable'' then NotAvailable
      else UnknownStatus)"

fun getIosPermission :: "'s native_permissions \<Rightarrow> permission_type \<Rightarrow> string option" where
  "getIosPermission np Camera = Some (np_PERMISSIONS np ''IOS'' ''CAMERA'')"
| "getIosPermission np Photos = Some (np_PERMISSIONS np ''IOS'' ''PHOTO_LIBRARY'')"
| "getIosPermission np Microphone = Some (np_PERMISSIONS np ''IOS'' ''MICROPHONE'')"
| "getIosPermission np Notifications = Some (np_PERMISSIONS np ''IOS'' ''NOTIFICATIONS'')"
| "getIosPermission np Cloud = None"

fun getAndroidPermission :: "'s native_permissions \<Rightarrow> permission_type \<Rightarrow> string option" where
  "getAndroidPermission np Photos =
     Some (np_PERMISSIONS np ''ANDROID''
       (if np_Version np \<ge> 33 then ''READ_MEDIA_IMAGES'' else ''READ_EXTERNAL_STORAGE''))"
| "getAndroidPermission np Camera = Some (np_PERMISSIONS np ''ANDROID'' ''CAMERA'')"
| "getAndroidPermission np Microphone = Some (np_PERMISSIONS np ''ANDROID'' ''RECORD_AUDIO'')"
| "getAndroidPermission np Notifications = Some (np_PERMISSIONS np ''ANDROID'' ''POST_NOTIFICATIONS'')"
| "getAndroidPermission np Cloud = None"

definition native_checkPermission ::
  "'s native_permissions \<Rightarrow> permission_type \<Rightarrow> ('s, js_error, permission_result) io" where
  "native_checkPermission np type =
     (if type = Cloud then io_return (type, if \<not> np_ios np then Granted else NotAvailable)
      else case (if np_ios np then getIosPermission np type else getAndroidPermission np type) of
        None \<Rightarrow> io_return (type, NotAvailable)
      | Some permission \<Rightarrow>
          io_bind (np_check np permission) (\<lambda>nativeStatus. io_return (type, native_mapNativeStatus nativeStatus)))"

fun RESTRICTIVENESS :: "permission_status \<Rightarrow> nat" where
  "RESTRICTIVENESS Granted = 0"
| "RESTRICTIVENESS Limited = 1"
| "RESTRICTIVENESS Provisional = 2"
| "RESTRICTIVENESS Denied = 3"
| "RESTRICTIVENESS UnknownStatus = 4"
| "RESTRICTIVENESS PermanentlyDenied = 5"
| "RESTRICTIVENESS Restricted = 6"
| "RESTRICTIVENESS NotAvailable = 7"

definition moreRestrictive :: "permission_status \<Rightarrow> permission_status \<Rightarrow> permission_status" where
  "moreRestrictive a b = (if RESTRICTIVENESS a \<ge> RESTRICTIVENESS b then a else b)"

text \<open>\<^verbatim>\<open>Promise.all\<close> of two: both are started, and an error of either is thrown.\<close>

definition io_both :: "('s, 'e, 'a) io \<Rightarrow> ('s, 'e, 'b) io \<Rightarrow> ('s, 'e, 'a \<times> 'b) io" where
  "io_both m n = (\<lambda>s. case m s of (r, t) \<Rightarrow> (case n t of (q, u) \<Rightarrow>
     (case (r, q) of
        (Inl e, _) \<Rightarrow> (Inl e, u)
      | (Inr a, Inl e) \<Rightarrow> (Inl e, u)
      | (Inr a, Inr b) \<Rightarrow> (Inr (a, b), u))))"

definition requestAndroidPhotos :: "'s native_permissions \<Rightarrow> ('s, js_error, permission_result) io" where
  "requestAndroidPhotos np =
     (if np_Version np < 33
      then io_bind (np_request np (np_PERMISSIONS np ''ANDROID'' ''READ_EXTERNAL_STORAGE'')) (\<lambda>status.
             io_return (Photos, native_mapNativeStatus status))
      else io_bind (io_both (np_request np (np_PERMISSIONS np ''ANDROID'' ''READ_MEDIA_IMAGES''))
                            (np_request np (np_PERMISSIONS np ''ANDROID'' ''READ_MEDIA_VIDEO'')))
             (\<lambda>(images, video). io_return (Photos,
               moreRestrictive (native_mapNativeStatus images) (native_mapNativeStatus video))))"

definition native_requestPermission ::
  "'s native_permissions \<Rightarrow> permission_type \<Rightarrow> ('s, js_error, permission_result) io" where
  "native_requestPermission np type =
     (if type = Cloud then io_return (type, if \<not> np_ios np then Granted else NotAvailable)
      else if type = Photos \<and> \<not> np_ios np then requestAndroidPhotos np
      else case (if np_ios np then getIosPermission np type else getAndroidPermission np type) of
        None \<Rightarrow> io_return (type, NotAvailable)
      | Some permission \<Rightarrow>
          io_bind (np_request np permission) (\<lambda>nativeStatus. io_return (type, native_mapNativeStatus nativeStatus)))"

lemma moreRestrictive_commutes: "moreRestrictive a b = moreRestrictive b a"
  by (cases a; cases b) (simp_all add: moreRestrictive_def)

lemma moreRestrictive_assoc:
  "moreRestrictive (moreRestrictive a b) c = moreRestrictive a (moreRestrictive b c)"
  by (simp add: moreRestrictive_def)

text \<open>
  On Android 13 a check asks for the images only and a request for images and videos: where the
  user refuses the videos, the request says denied and every later check says granted.
\<close>

lemma photos_check_ignores_the_videos:
  assumes "\<not> np_ios np" "np_Version np \<ge> 33"
    and "\<And>s. np_check np (np_PERMISSIONS np ''ANDROID'' ''READ_MEDIA_IMAGES'') s = (Inr ''granted'', s)"
    and "\<And>s. np_request np (np_PERMISSIONS np ''ANDROID'' ''READ_MEDIA_IMAGES'') s = (Inr ''granted'', s)"
    and "\<And>s. np_request np (np_PERMISSIONS np ''ANDROID'' ''READ_MEDIA_VIDEO'') s = (Inr ''denied'', s)"
  shows "native_requestPermission np Photos s = (Inr (Photos, Denied), s) \<and>
         native_checkPermission np Photos s = (Inr (Photos, Granted), s)"
  using assms
  by (simp add: native_requestPermission_def native_checkPermission_def requestAndroidPhotos_def io_both_def io_simps
      native_mapNativeStatus_def moreRestrictive_def)

section \<open>The browser\<close>

text \<open>
  A stream is the list of its tracks. A rejected \<^verbatim>\<open>getUserMedia\<close> throws a \<^verbatim>\<open>DOMException\<close>, given by
  its name, or something else; \<^verbatim>\<open>wp_permissions\<close>, \<^verbatim>\<open>wp_mediaDevices\<close> and \<^verbatim>\<open>wp_Notification\<close> say whether
  the browser has the interface.
\<close>

record 's web_permissions =
  wp_permissions :: bool
  wp_query :: "string \<Rightarrow> ('s, js_error, string) io"
  wp_mediaDevices :: bool
  wp_getUserMedia :: "string \<Rightarrow> ('s, string option, nat list) io"
  wp_stop :: "nat \<Rightarrow> ('s, js_error, unit) io"
  wp_Notification :: bool
  wp_requestNotification :: "('s, js_error, string) io"

definition web_mapNativeStatus :: "string \<Rightarrow> permission_status" where
  "web_mapNativeStatus state =
     (if state = ''granted'' then Granted
      else if state = ''denied'' then PermanentlyDenied
      else if state = ''prompt'' then Denied
      else if state = ''default'' then Denied
      else UnknownStatus)"

fun QUERY_NAME_MAP :: "permission_type \<Rightarrow> string option" where
  "QUERY_NAME_MAP Camera = Some ''camera''"
| "QUERY_NAME_MAP Microphone = Some ''microphone''"
| "QUERY_NAME_MAP Notifications = Some ''notifications''"
| "QUERY_NAME_MAP t = None"

definition web_checkPermission ::
  "'s web_permissions \<Rightarrow> permission_type \<Rightarrow> ('s, js_error, permission_result) io" where
  "web_checkPermission wp type =
     (if type = Photos then io_return (type, Granted)
      else if type = Cloud then io_return (type, NotAvailable)
      else case QUERY_NAME_MAP type of
        None \<Rightarrow> io_return (type, NotAvailable)
      | Some queryName \<Rightarrow>
          if \<not> wp_permissions wp then io_return (type, NotAvailable)
          else io_catch
            (io_bind (wp_query wp queryName) (\<lambda>state. io_return (type, web_mapNativeStatus state)))
            (\<lambda>_. io_return (type, NotAvailable)))"

fun releaseStream :: "'s web_permissions \<Rightarrow> nat list \<Rightarrow> ('s, js_error, unit) io" where
  "releaseStream wp [] = io_return ()"
| "releaseStream wp (track # tracks) =
     io_then (io_catch (wp_stop wp track) (\<lambda>_. io_return ())) (releaseStream wp tracks)"

definition requestMediaPermission ::
  "'s web_permissions \<Rightarrow> permission_type \<Rightarrow> string \<Rightarrow> ('s, js_error, permission_result) io" where
  "requestMediaPermission wp type constraint =
     (if \<not> wp_mediaDevices wp then io_return (type, NotAvailable)
      else (\<lambda>s. case wp_getUserMedia wp constraint s of
          (Inr stream, t) \<Rightarrow> io_then (releaseStream wp stream) (io_return (type, Granted)) t
        | (Inl error, t) \<Rightarrow>
            if error = Some ''NotAllowedError'' then (Inr (type, PermanentlyDenied), t)
            else (Inr (type, NotAvailable), t)))"

definition requestNotificationPermission :: "'s web_permissions \<Rightarrow> ('s, js_error, permission_result) io" where
  "requestNotificationPermission wp =
     (if \<not> wp_Notification wp then io_return (Notifications, NotAvailable)
      else io_bind (wp_requestNotification wp) (\<lambda>result. io_return (Notifications,
        if result = ''granted'' then Granted
        else if result = ''denied'' then PermanentlyDenied
        else if result = ''default'' then Denied
        else UnknownStatus)))"

fun web_requestPermission ::
  "'s web_permissions \<Rightarrow> permission_type \<Rightarrow> ('s, js_error, permission_result) io" where
  "web_requestPermission wp Camera = requestMediaPermission wp Camera ''video''"
| "web_requestPermission wp Microphone = requestMediaPermission wp Microphone ''audio''"
| "web_requestPermission wp Notifications = requestNotificationPermission wp"
| "web_requestPermission wp Photos = io_return (Photos, Granted)"
| "web_requestPermission wp Cloud = io_return (Cloud, NotAvailable)"

text \<open>The camera is turned off again, track by track, even where stopping one of them throws.\<close>

lemma release_stops_every_track:
  assumes "\<And>k s. stopped (snd (wp_stop wp k s)) = insert k (stopped s)"
  shows "\<exists>t. releaseStream wp tracks s = (Inr (), t) \<and> stopped t = set tracks \<union> stopped s"
proof (induction tracks arbitrary: s)
  case (Cons k ks)
  obtain r u where u: "wp_stop wp k s = (r, u)" by fastforce
  with assms [of k s] have "stopped u = insert k (stopped s)" by simp
  with Cons.IH [of u] u show ?case by (cases r) (auto simp: io_simps)
qed (simp add: io_simps)

section \<open>The store\<close>

text \<open>
  A task is the rest of a function after its \<^verbatim>\<open>await\<close>, under the number of its promise;
  \<open>pm_settled\<close> are the promises that have settled, \<open>None\<close> being the value of a refresh. The two
  in-flight maps give the promise of a type, \<open>pm_heard\<close> the calls of the listeners.
\<close>

datatype permission_task =
    Checking permission_type
  | Requesting permission_type
  | EnsureChecking permission_type
  | EnsureRequesting permission_type nat
  | EnsureSettings permission_type
  | EnsureRefreshing permission_type "permission_type list"
  | Refreshing "permission_type list"

record permissions =
  pm_state :: "permission_type \<Rightarrow> permission_status option"
  pm_listeners :: "nat list"
  pm_heard :: "(nat \<times> permission_result) list"
  pm_trackedTypes :: "permission_type list"
  pm_isInitialized :: bool
  pm_inFlightRequests :: "permission_type \<Rightarrow> nat option"
  pm_inFlightEnsure :: "permission_type \<Rightarrow> nat option"
  pm_tasks :: "(nat \<times> permission_task) list"
  pm_next :: nat
  pm_settled :: "(nat \<times> (js_error + permission_result option)) list"

definition no_permissions :: permissions where
  "no_permissions =
     \<lparr>pm_state = (\<lambda>_. None), pm_listeners = [], pm_heard = [], pm_trackedTypes = ALL_TYPES,
      pm_isInitialized = False, pm_inFlightRequests = (\<lambda>_. None), pm_inFlightEnsure = (\<lambda>_. None),
      pm_tasks = [], pm_next = 0, pm_settled = []\<rparr>"

definition getStatus :: "permissions \<Rightarrow> permission_type \<Rightarrow> permission_status" where
  "getStatus s type = (case pm_state s type of None \<Rightarrow> UnknownStatus | Some st \<Rightarrow> st)"

definition store_update :: "permission_result \<Rightarrow> permissions \<Rightarrow> permissions" where
  "store_update result s =
     (if pm_state s (fst result) = Some (snd result) then s
      else s\<lparr>pm_state := (pm_state s)(fst result := Some (snd result)),
             pm_heard := pm_heard s @ map (\<lambda>l. (l, result)) (pm_listeners s)\<rparr>)"

definition perm_subscribe :: "nat \<Rightarrow> permissions \<Rightarrow> permissions" where
  "perm_subscribe l s = s\<lparr>pm_listeners := set_add l (pm_listeners s)\<rparr>"

definition perm_unsubscribe :: "nat \<Rightarrow> permissions \<Rightarrow> permissions" where
  "perm_unsubscribe l s = s\<lparr>pm_listeners := set_delete l (pm_listeners s)\<rparr>"

definition perm_clear :: "permissions \<Rightarrow> permissions" where
  "perm_clear s = s\<lparr>pm_state := (\<lambda>_. None), pm_listeners := []\<rparr>"

definition isGranted :: "permissions \<Rightarrow> permission_type \<Rightarrow> bool" where
  "isGranted s type = (getStatus s type = Granted)"

definition isLimited :: "permissions \<Rightarrow> permission_type \<Rightarrow> bool" where
  "isLimited s type = (getStatus s type = Limited)"

definition isDenied :: "permissions \<Rightarrow> permission_type \<Rightarrow> bool" where
  "isDenied s type = (getStatus s type = Denied)"

definition isPermanentlyDenied :: "permissions \<Rightarrow> permission_type \<Rightarrow> bool" where
  "isPermanentlyDenied s type = (getStatus s type = PermanentlyDenied)"

section \<open>Checking, requesting, ensuring\<close>

definition initialize :: "permission_type list option \<Rightarrow> permissions \<Rightarrow> permissions" where
  "initialize types s =
     s\<lparr>pm_trackedTypes := (case types of None \<Rightarrow> ALL_TYPES | Some ts \<Rightarrow> ts), pm_isInitialized := True\<rparr>"

text \<open>A new promise with its task.\<close>

definition new_task :: "permission_task \<Rightarrow> permissions \<Rightarrow> permissions" where
  "new_task task s = s\<lparr>pm_tasks := pm_tasks s @ [(pm_next s, task)], pm_next := Suc (pm_next s)\<rparr>"

definition set_task :: "nat \<Rightarrow> permission_task \<Rightarrow> permissions \<Rightarrow> permissions" where
  "set_task n task s = s\<lparr>pm_tasks := map (\<lambda>(m, u). (m, if m = n then task else u)) (pm_tasks s)\<rparr>"

definition settle :: "nat \<Rightarrow> js_error + permission_result option \<Rightarrow> permissions \<Rightarrow> permissions" where
  "settle n r s =
     s\<lparr>pm_tasks := filter (\<lambda>(m, u). m \<noteq> n) (pm_tasks s), pm_settled := pm_settled s @ [(n, r)]\<rparr>"

definition perm_check :: "permission_type \<Rightarrow> permissions \<Rightarrow> permissions" where
  "perm_check type = new_task (Checking type)"

definition perm_request :: "permission_type \<Rightarrow> permissions \<Rightarrow> nat \<times> permissions" where
  "perm_request type s =
     (case pm_inFlightRequests s type of
        Some existing \<Rightarrow> (existing, s)
      | None \<Rightarrow> (pm_next s, (new_task (Requesting type) s)
          \<lparr>pm_inFlightRequests := (pm_inFlightRequests s)(type \<mapsto> pm_next s)\<rparr>))"

definition ensurePermission :: "permission_type \<Rightarrow> permissions \<Rightarrow> nat \<times> permissions" where
  "ensurePermission type s =
     (case pm_inFlightEnsure s type of
        Some existing \<Rightarrow> (existing, s)
      | None \<Rightarrow> (pm_next s, (new_task (EnsureChecking type) s)
          \<lparr>pm_inFlightEnsure := (pm_inFlightEnsure s)(type \<mapsto> pm_next s)\<rparr>))"

definition isGrantedStatus :: "permission_status \<Rightarrow> bool" where
  "isGrantedStatus st = (st = Granted \<or> st = Limited)"

definition isTerminalStatus :: "permission_status \<Rightarrow> bool" where
  "isTerminalStatus st = (st = Restricted \<or> st = NotAvailable)"

definition isReRequestable :: "permission_status \<Rightarrow> bool" where
  "isReRequestable st = (st = Denied \<or> st = UnknownStatus)"

text \<open>The end of \<^verbatim>\<open>performEnsure\<close> with the \<^verbatim>\<open>finally\<close> of \<^verbatim>\<open>ensurePermission\<close>.\<close>

definition ensure_ends ::
  "nat \<Rightarrow> permission_type \<Rightarrow> js_error + permission_result option \<Rightarrow> permissions \<Rightarrow> permissions" where
  "ensure_ends n type r s = settle n r (s\<lparr>pm_inFlightEnsure := (pm_inFlightEnsure s)(type := None)\<rparr>)"

text \<open>\<^verbatim>\<open>performEnsure\<close> after its check; \<^verbatim>\<open>return request(type)\<close> awaits the request's promise.\<close>

definition performEnsure :: "nat \<Rightarrow> permission_result \<Rightarrow> permissions \<Rightarrow> permissions" where
  "performEnsure n current s =
     (if isGrantedStatus (snd current) then ensure_ends n (fst current) (Inr (Some current)) s
      else if isTerminalStatus (snd current) then ensure_ends n (fst current) (Inr (Some current)) s
      else if isReRequestable (snd current)
        then (let (p, s') = perm_request (fst current) s
              in set_task n (EnsureRequesting (fst current) p) s')
      else if snd current = PermanentlyDenied then set_task n (EnsureSettings (fst current)) s
      else ensure_ends n (fst current) (Inr (Some current)) s)"

definition to_refresh :: "permissions \<Rightarrow> permission_type list" where
  "to_refresh s = filter (\<lambda>t. pm_inFlightRequests s t = None) (pm_trackedTypes s)"

definition refreshAll :: "permissions \<Rightarrow> permissions" where
  "refreshAll s = new_task (Refreshing (to_refresh s)) s"

definition checkAll :: "permissions \<Rightarrow> permissions" where
  "checkAll s = fold perm_check (pm_trackedTypes s) s"

text \<open>The map that \<^verbatim>\<open>checkAll\<close> makes of the results of its checks.\<close>

definition checkAll_map :: "permission_result list \<Rightarrow> permission_type \<Rightarrow> permission_result option" where
  "checkAll_map results = foldl (\<lambda>m r. m(fst r \<mapsto> r)) (\<lambda>_. None) results"

definition refreshPermissions :: "permission_type list \<Rightarrow> permission_status list \<Rightarrow> permissions \<Rightarrow> permissions" where
  "refreshPermissions types statuses s = fold store_update (zip types statuses) s"

text \<open>The promise of a request settles: whoever awaits it in \<^verbatim>\<open>performEnsure\<close> goes on.\<close>

fun awaits_request :: "nat \<Rightarrow> nat \<times> permission_task \<Rightarrow> bool" where
  "awaits_request p (n, EnsureRequesting t q) = (q = p)"
| "awaits_request p (n, task) = False"

fun task_type :: "permission_task \<Rightarrow> permission_type option" where
  "task_type (EnsureChecking t) = Some t"
| "task_type (EnsureRequesting t p) = Some t"
| "task_type (EnsureSettings t) = Some t"
| "task_type (EnsureRefreshing t ts) = Some t"
| "task_type task = None"

definition request_ends ::
  "nat \<Rightarrow> permission_type \<Rightarrow> js_error + permission_result option \<Rightarrow> permissions \<Rightarrow> permissions" where
  "request_ends n type r s =
     (let s' = settle n r (s\<lparr>pm_inFlightRequests := (pm_inFlightRequests s)(type := None)\<rparr>)
      in fold (\<lambda>(m, task). ensure_ends m type r) (filter (awaits_request n) (pm_tasks s')) s')"

section \<open>Events\<close>

datatype permission_event =
    PermInitialize "permission_type list option"
  | PermCheck permission_type
  | PermRequest permission_type
  | PermEnsure permission_type
  | PermCheckAll
  | PermRefreshAll
  | PermSubscribe nat
  | PermUnsubscribe nat
  | PlatformAnswer nat "js_error + permission_status"
  | SettingsOpened nat "js_error + unit"
  | PlatformAnswers nat "js_error + permission_status list"

fun answer_one :: "nat \<Rightarrow> js_error + permission_status \<Rightarrow> permission_task \<Rightarrow> permissions \<Rightarrow> permissions" where
  "answer_one n (Inl e) (Checking t) s = settle n (Inl e) s"
| "answer_one n (Inr st) (Checking t) s = settle n (Inr (Some (t, st))) (store_update (t, st) s)"
| "answer_one n (Inl e) (Requesting t) s = request_ends n t (Inl e) s"
| "answer_one n (Inr st) (Requesting t) s = request_ends n t (Inr (Some (t, st))) (store_update (t, st) s)"
| "answer_one n (Inl e) (EnsureChecking t) s = ensure_ends n t (Inl e) s"
| "answer_one n (Inr st) (EnsureChecking t) s = performEnsure n (t, st) (store_update (t, st) s)"
| "answer_one n a task s = s"

fun answer_settings :: "nat \<Rightarrow> js_error + unit \<Rightarrow> permission_task \<Rightarrow> permissions \<Rightarrow> permissions" where
  "answer_settings n (Inl e) (EnsureSettings t) s = ensure_ends n t (Inl e) s"
| "answer_settings n (Inr u) (EnsureSettings t) s = set_task n (EnsureRefreshing t (to_refresh s)) s"
| "answer_settings n a task s = s"

fun answer_all :: "nat \<Rightarrow> js_error + permission_status list \<Rightarrow> permission_task \<Rightarrow> permissions \<Rightarrow> permissions" where
  "answer_all n (Inl e) (Refreshing ts) s = settle n (Inl e) s"
| "answer_all n (Inr sts) (Refreshing ts) s =
     (if length sts = length ts then settle n (Inr None) (refreshPermissions ts sts s) else s)"
| "answer_all n (Inl e) (EnsureRefreshing t ts) s = ensure_ends n t (Inl e) s"
| "answer_all n (Inr sts) (EnsureRefreshing t ts) s =
     (if length sts = length ts
      then (let s' = refreshPermissions ts sts s
            in ensure_ends n t (Inr (Some (t, getStatus s' t))) s')
      else s)"
| "answer_all n a task s = s"

fun permission_step :: "permission_event \<Rightarrow> permissions \<Rightarrow> permissions" where
  "permission_step (PermInitialize types) s = initialize types s"
| "permission_step (PermCheck t) s = perm_check t s"
| "permission_step (PermRequest t) s = snd (perm_request t s)"
| "permission_step (PermEnsure t) s = snd (ensurePermission t s)"
| "permission_step PermCheckAll s = checkAll s"
| "permission_step PermRefreshAll s = refreshAll s"
| "permission_step (PermSubscribe l) s = perm_subscribe l s"
| "permission_step (PermUnsubscribe l) s = perm_unsubscribe l s"
| "permission_step (PlatformAnswer n a) s =
     (case map_of (pm_tasks s) n of None \<Rightarrow> s | Some task \<Rightarrow> answer_one n a task s)"
| "permission_step (SettingsOpened n a) s =
     (case map_of (pm_tasks s) n of None \<Rightarrow> s | Some task \<Rightarrow> answer_settings n a task s)"
| "permission_step (PlatformAnswers n a) s =
     (case map_of (pm_tasks s) n of None \<Rightarrow> s | Some task \<Rightarrow> answer_all n a task s)"

definition permission_run :: "permission_event list \<Rightarrow> permissions" where
  "permission_run es = fold permission_step es no_permissions"

section \<open>One prompt per permission\<close>

text \<open>
  The two maps name exactly the tasks under way, and an \<^verbatim>\<open>ensurePermission\<close> that awaits a request
  awaits one that is under way.
\<close>

definition perm_ok :: "permissions \<Rightarrow> bool" where
  "perm_ok s =
     (distinct (map fst (pm_tasks s)) \<and> (\<forall>n u. (n, u) \<in> set (pm_tasks s) \<longrightarrow> n < pm_next s) \<and>
      (\<forall>t n. pm_inFlightRequests s t = Some n \<longleftrightarrow> (n, Requesting t) \<in> set (pm_tasks s)) \<and>
      (\<forall>t n. pm_inFlightEnsure s t = Some n \<longleftrightarrow> (\<exists>u. (n, u) \<in> set (pm_tasks s) \<and> task_type u = Some t)) \<and>
      (\<forall>m t p. (m, EnsureRequesting t p) \<in> set (pm_tasks s) \<longrightarrow> (p, Requesting t) \<in> set (pm_tasks s)))"

lemma perm_okD:
  assumes "perm_ok s"
  shows "distinct (map fst (pm_tasks s))"
    and "(n, u) \<in> set (pm_tasks s) \<Longrightarrow> n < pm_next s"
    and "pm_inFlightRequests s t = Some n \<longleftrightarrow> (n, Requesting t) \<in> set (pm_tasks s)"
    and "pm_inFlightEnsure s t = Some n \<longleftrightarrow> (\<exists>u. (n, u) \<in> set (pm_tasks s) \<and> task_type u = Some t)"
    and "(m, EnsureRequesting t p) \<in> set (pm_tasks s) \<Longrightarrow> (p, Requesting t) \<in> set (pm_tasks s)"
  using assms unfolding perm_ok_def by blast+

lemma perm_okI:
  assumes "distinct (map fst (pm_tasks s))"
    and "\<And>n u. (n, u) \<in> set (pm_tasks s) \<Longrightarrow> n < pm_next s"
    and "\<And>t n. pm_inFlightRequests s t = Some n \<longleftrightarrow> (n, Requesting t) \<in> set (pm_tasks s)"
    and "\<And>t n. pm_inFlightEnsure s t = Some n \<longleftrightarrow> (\<exists>u. (n, u) \<in> set (pm_tasks s) \<and> task_type u = Some t)"
    and "\<And>m t p. (m, EnsureRequesting t p) \<in> set (pm_tasks s) \<Longrightarrow> (p, Requesting t) \<in> set (pm_tasks s)"
  shows "perm_ok s"
  using assms unfolding perm_ok_def by blast

lemma perm_ok_unique:
  "perm_ok s \<Longrightarrow> (n, u) \<in> set (pm_tasks s) \<Longrightarrow> (n, v) \<in> set (pm_tasks s) \<Longrightarrow> u = v"
  by (drule perm_okD(1)) (rule eq_key_imp_eq_value)

lemma store_update_keeps [simp]:
  "pm_tasks (store_update r s) = pm_tasks s"
  "pm_next (store_update r s) = pm_next s"
  "pm_inFlightRequests (store_update r s) = pm_inFlightRequests s"
  "pm_inFlightEnsure (store_update r s) = pm_inFlightEnsure s"
  "pm_listeners (store_update r s) = pm_listeners s"
  "pm_trackedTypes (store_update r s) = pm_trackedTypes s"
  by (simp_all add: store_update_def)

lemma fold_store_update_keeps [simp]:
  "pm_tasks (fold store_update rs s) = pm_tasks s"
  "pm_next (fold store_update rs s) = pm_next s"
  "pm_inFlightRequests (fold store_update rs s) = pm_inFlightRequests s"
  "pm_inFlightEnsure (fold store_update rs s) = pm_inFlightEnsure s"
  "pm_listeners (fold store_update rs s) = pm_listeners s"
  by (induction rs arbitrary: s) simp_all

lemma perm_ok_cong:
  assumes "perm_ok s" "pm_tasks t = pm_tasks s" "pm_next t = pm_next s"
    "pm_inFlightRequests t = pm_inFlightRequests s" "pm_inFlightEnsure t = pm_inFlightEnsure s"
  shows "perm_ok t"
  using assms by (simp add: perm_ok_def)

lemma perm_ok_store: "perm_ok s \<Longrightarrow> perm_ok (store_update r s)"
  by (erule perm_ok_cong) simp_all

lemma perm_ok_refreshed: "perm_ok s \<Longrightarrow> perm_ok (refreshPermissions ts sts s)"
  by (erule perm_ok_cong) (simp_all add: refreshPermissions_def)

lemma fresh_number: "perm_ok s \<Longrightarrow> (pm_next s, u) \<notin> set (pm_tasks s)"
  using perm_okD(2) by fastforce

text \<open>A task that is neither a request nor part of \<^verbatim>\<open>ensurePermission\<close>.\<close>

definition plain_task :: "permission_task \<Rightarrow> bool" where
  "plain_task u = (task_type u = None \<and> (\<forall>t. u \<noteq> Requesting t))"

lemma perm_ok_new_task:
  assumes "perm_ok s" "plain_task u"
  shows "perm_ok (new_task u s)"
proof (rule perm_okI)
  show "distinct (map fst (pm_tasks (new_task u s)))"
    using perm_okD(1) [OF assms(1)] fresh_number [OF assms(1)] by (auto simp: new_task_def)
qed (use perm_okD(2-) [OF assms(1)] assms(2) in
      \<open>auto simp: new_task_def plain_task_def less_Suc_eq\<close>)

lemma perm_ok_request:
  assumes "perm_ok s"
  shows "perm_ok (snd (perm_request t s))"
proof (cases "pm_inFlightRequests s t")
  case None
  show ?thesis
  proof (rule perm_okI)
    show "distinct (map fst (pm_tasks (snd (perm_request t s))))"
      using perm_okD(1) [OF assms] fresh_number [OF assms] None
      by (auto simp: perm_request_def new_task_def)
    show "(pm_inFlightRequests (snd (perm_request t s)) t' = Some n) =
          ((n, Requesting t') \<in> set (pm_tasks (snd (perm_request t s))))" for t' n
      using perm_okD(3) [OF assms, of t'] None by (auto simp: perm_request_def new_task_def)
  qed (use perm_okD(2) [OF assms] perm_okD(4,5) [OF assms] None in
        \<open>auto simp: perm_request_def new_task_def less_Suc_eq\<close>)
qed (use assms in \<open>simp add: perm_request_def\<close>)

lemma request_is_under_way:
  assumes "perm_ok s"
  shows "(fst (perm_request t s), Requesting t) \<in> set (pm_tasks (snd (perm_request t s)))"
    and "(n, u) \<in> set (pm_tasks s) \<Longrightarrow> (n, u) \<in> set (pm_tasks (snd (perm_request t s)))"
  using perm_okD(3) [OF assms, of t]
  by (auto simp: perm_request_def new_task_def split: option.splits)

lemma perm_ok_ensure:
  assumes "perm_ok s"
  shows "perm_ok (snd (ensurePermission t s))"
proof (cases "pm_inFlightEnsure s t")
  case None
  show ?thesis
  proof (rule perm_okI)
    show "distinct (map fst (pm_tasks (snd (ensurePermission t s))))"
      using perm_okD(1) [OF assms] fresh_number [OF assms] None
      by (auto simp: ensurePermission_def new_task_def)
    show "(pm_inFlightEnsure (snd (ensurePermission t s)) t' = Some n) =
          (\<exists>u. (n, u) \<in> set (pm_tasks (snd (ensurePermission t s))) \<and> task_type u = Some t')" for t' n
      using perm_okD(4) [OF assms, of t'] None by (auto simp: ensurePermission_def new_task_def)
  qed (use perm_okD(2) [OF assms] perm_okD(3,5) [OF assms] None in
        \<open>auto simp: ensurePermission_def new_task_def less_Suc_eq\<close>)
qed (use assms in \<open>simp add: ensurePermission_def\<close>)

lemma in_set_task:
  "(m, v) \<in> set (pm_tasks (set_task n u s)) \<longleftrightarrow>
     (\<exists>w. (m, w) \<in> set (pm_tasks s) \<and> v = (if m = n then u else w))"
  by (auto simp: set_task_def image_iff Bex_def split_paired_Ex)

lemma perm_ok_set_task:
  assumes ok: "perm_ok s" and old: "(n, old) \<in> set (pm_tasks s)"
    and types: "task_type old = Some t" "task_type u = Some t"
    and waits: "\<And>t' p. u = EnsureRequesting t' p \<Longrightarrow> (p, Requesting t') \<in> set (pm_tasks s)"
  shows "perm_ok (set_task n u s)"
proof (rule perm_okI)
  have no_request: "(n, Requesting t') \<notin> set (pm_tasks s)" "u \<noteq> Requesting t'" for t'
    using perm_ok_unique [OF ok old] types by auto
  show "distinct (map fst (pm_tasks (set_task n u s)))"
    using perm_okD(1) [OF ok] by (simp add: set_task_def comp_def case_prod_beta')
  show "m < pm_next (set_task n u s)" if "(m, v) \<in> set (pm_tasks (set_task n u s))" for m v
    using that perm_okD(2) [OF ok] by (auto simp: in_set_task) (auto simp: set_task_def)
  have requests: "(m, Requesting t') \<in> set (pm_tasks (set_task n u s)) \<longleftrightarrow> (m, Requesting t') \<in> set (pm_tasks s)"
    for m t'
    using no_request by (cases "m = n") (auto simp: in_set_task)
  show "(pm_inFlightRequests (set_task n u s) t' = Some m) =
        ((m, Requesting t') \<in> set (pm_tasks (set_task n u s)))" for t' m
    using perm_okD(3) [OF ok] by (simp add: requests) (simp add: set_task_def)
  have "(\<exists>v. (m, v) \<in> set (pm_tasks (set_task n u s)) \<and> task_type v = Some t') \<longleftrightarrow>
        (\<exists>v. (m, v) \<in> set (pm_tasks s) \<and> task_type v = Some t')" for m t'
  proof (cases "m = n")
    case True
    have "(\<exists>v. (n, v) \<in> set (pm_tasks s) \<and> task_type v = Some t') \<longleftrightarrow> task_type old = Some t'"
      using perm_ok_unique [OF ok old] old by blast
    then show ?thesis using True old types by (simp add: in_set_task) blast
  qed (simp add: in_set_task)
  then show "(pm_inFlightEnsure (set_task n u s) t' = Some m) =
        (\<exists>v. (m, v) \<in> set (pm_tasks (set_task n u s)) \<and> task_type v = Some t')" for t' m
    using perm_okD(4) [OF ok] by (simp add: set_task_def)
  show "(p, Requesting t') \<in> set (pm_tasks (set_task n u s))"
    if "(m, EnsureRequesting t' p) \<in> set (pm_tasks (set_task n u s))" for m t' p
    using that waits [of t' p] perm_okD(5) [OF ok] unfolding requests
    by (auto simp: in_set_task split: if_splits)
qed

lemma in_settle:
  "(m, v) \<in> set (pm_tasks (settle n r s)) \<longleftrightarrow> (m, v) \<in> set (pm_tasks s) \<and> m \<noteq> n"
  by (auto simp: settle_def)

lemma settle_keeps [simp]:
  "pm_next (settle n r s) = pm_next s"
  "pm_inFlightRequests (settle n r s) = pm_inFlightRequests s"
  "pm_inFlightEnsure (settle n r s) = pm_inFlightEnsure s"
  by (simp_all add: settle_def)

lemma distinct_settle:
  "distinct (map fst (pm_tasks s)) \<Longrightarrow> distinct (map fst (pm_tasks (settle n r s)))"
  by (simp add: settle_def distinct_map_filter)

lemma perm_ok_settle:
  assumes ok: "perm_ok s" and n: "(n, u) \<in> set (pm_tasks s)" and plain: "plain_task u"
  shows "perm_ok (settle n r s)"
proof (rule perm_okI)
  have u: "v = u" if "(n, v) \<in> set (pm_tasks s)" for v using perm_ok_unique [OF ok n that] by simp
  show "distinct (map fst (pm_tasks (settle n r s)))"
    using perm_okD(1) [OF ok] by (rule distinct_settle)
  show "(pm_inFlightRequests (settle n r s) t = Some m) = ((m, Requesting t) \<in> set (pm_tasks (settle n r s)))" for t m
    using perm_okD(3) [OF ok] plain u by (auto simp: in_settle plain_task_def)
  show "(pm_inFlightEnsure (settle n r s) t = Some m) =
        (\<exists>v. (m, v) \<in> set (pm_tasks (settle n r s)) \<and> task_type v = Some t)" for t m
    using perm_okD(4) [OF ok] plain u by (fastforce simp: in_settle plain_task_def)
  show "(p, Requesting t) \<in> set (pm_tasks (settle n r s))"
    if "(m, EnsureRequesting t p) \<in> set (pm_tasks (settle n r s))" for m t p
    using that perm_okD(5) [OF ok] plain u by (fastforce simp: in_settle plain_task_def)
qed (use perm_okD(2) [OF ok] in \<open>auto simp: in_settle\<close>)

lemma perm_ok_ensure_ends:
  assumes ok: "perm_ok s" and n: "(n, u) \<in> set (pm_tasks s)" and t: "task_type u = Some t"
  shows "perm_ok (ensure_ends n t r s)"
proof (rule perm_okI)
  have u: "v = u" if "(n, v) \<in> set (pm_tasks s)" for v using perm_ok_unique [OF ok n that] by simp
  have no_request: "(n, Requesting t') \<notin> set (pm_tasks s)" for t' using u t by fastforce
  have tasks: "pm_tasks (ensure_ends n t r s) = pm_tasks (settle n r s)"
    by (simp add: ensure_ends_def settle_def)
  have only: "m = n" if "(m, v) \<in> set (pm_tasks s)" "task_type v = Some t" for m v
    using perm_okD(4) [OF ok, of t] that n t by (metis option.inject)
  show "distinct (map fst (pm_tasks (ensure_ends n t r s)))"
    unfolding tasks using perm_okD(1) [OF ok] by (rule distinct_settle)
  show "m < pm_next (ensure_ends n t r s)" if "(m, v) \<in> set (pm_tasks (ensure_ends n t r s))" for m v
    using that perm_okD(2) [OF ok] unfolding tasks by (auto simp: in_settle ensure_ends_def)
  show "(pm_inFlightRequests (ensure_ends n t r s) t' = Some m) =
        ((m, Requesting t') \<in> set (pm_tasks (ensure_ends n t r s)))" for t' m
    unfolding tasks using perm_okD(3) [OF ok] no_request by (auto simp: in_settle ensure_ends_def)
  show "(pm_inFlightEnsure (ensure_ends n t r s) t' = Some m) =
        (\<exists>v. (m, v) \<in> set (pm_tasks (ensure_ends n t r s)) \<and> task_type v = Some t')" for t' m
    unfolding tasks using perm_okD(4) [OF ok, of t'] only u t
    by (cases "t' = t") (fastforce simp: in_settle ensure_ends_def)+
  show "(p, Requesting t') \<in> set (pm_tasks (ensure_ends n t r s))"
    if "(m, EnsureRequesting t' p) \<in> set (pm_tasks (ensure_ends n t r s))" for m t' p
    using that perm_okD(5) [OF ok, of m t' p] no_request unfolding tasks by (auto simp: in_settle)
qed

lemma fold_ensure_ends:
  defines "go \<equiv> \<lambda>t r. fold (\<lambda>(m, task). ensure_ends m t r)"
  shows "pm_tasks (go t r ws s) = filter (\<lambda>(k, u). k \<notin> fst ` set ws) (pm_tasks s)"
    and "pm_inFlightEnsure (go t r ws s) =
           (if ws = [] then pm_inFlightEnsure s else (pm_inFlightEnsure s)(t := None))"
    and "pm_inFlightRequests (go t r ws s) = pm_inFlightRequests s"
    and "pm_next (go t r ws s) = pm_next s"
  unfolding go_def
  by (induction ws arbitrary: s)
    (auto simp: ensure_ends_def settle_def case_prod_unfold intro!: filter_cong)

text \<open>A request that ends takes with it the \<^verbatim>\<open>ensurePermission\<close> that awaits it, of its own type.\<close>

lemma awaits_own_type:
  assumes ok: "perm_ok s" and n: "(n, Requesting t) \<in> set (pm_tasks s)"
  shows "(m, v) \<in> set (pm_tasks s) \<and> awaits_request n (m, v) \<longleftrightarrow>
         v = EnsureRequesting t n \<and> (m, v) \<in> set (pm_tasks s)"
proof -
  have "t' = t" if "(m, EnsureRequesting t' n) \<in> set (pm_tasks s)" for t'
    using perm_okD(5) [OF ok that] perm_ok_unique [OF ok n] by blast
  then show ?thesis by (cases v) auto
qed

lemma perm_ok_request_ends:
  assumes ok: "perm_ok s" and n: "(n, Requesting t) \<in> set (pm_tasks s)"
  shows "perm_ok (request_ends n t r s)"
proof -
  define s' where "s' = settle n r (s\<lparr>pm_inFlightRequests := (pm_inFlightRequests s)(t := None)\<rparr>)"
  define ws where "ws = filter (awaits_request n) (pm_tasks s')"
  define T where "T = request_ends n t r s"
  have T: "T = fold (\<lambda>(m, task). ensure_ends m t r) ws s'"
    by (simp add: T_def request_ends_def s'_def ws_def Let_def)
  have only_n: "v = Requesting t" if "(n, v) \<in> set (pm_tasks s)" for v
    using perm_ok_unique [OF ok n that] by simp
  have in_ws: "k \<in> fst ` set ws \<longleftrightarrow> (k, EnsureRequesting t n) \<in> set (pm_tasks s)" for k
  proof -
    have "k \<in> fst ` set ws \<longleftrightarrow> (\<exists>v. (k, v) \<in> set (pm_tasks s) \<and> awaits_request n (k, v) \<and> k \<noteq> n)"
    proof -
      have "set ws = {x \<in> set (pm_tasks s). awaits_request n x \<and> fst x \<noteq> n}"
        by (auto simp: ws_def s'_def settle_def)
      then show ?thesis by (auto simp: image_iff Bex_def)
    qed
    also have "\<dots> \<longleftrightarrow> (k, EnsureRequesting t n) \<in> set (pm_tasks s) \<and> k \<noteq> n"
      unfolding conj_assoc [symmetric] awaits_own_type [OF ok n] by simp
    also have "\<dots> \<longleftrightarrow> (k, EnsureRequesting t n) \<in> set (pm_tasks s)"
      using only_n by blast
    finally show ?thesis .
  qed
  have tasks: "(m, v) \<in> set (pm_tasks T) \<longleftrightarrow>
      (m, v) \<in> set (pm_tasks s) \<and> m \<noteq> n \<and> (m, EnsureRequesting t n) \<notin> set (pm_tasks s)" for m v
    unfolding T fold_ensure_ends(1) by (auto simp: in_ws) (auto simp: s'_def settle_def)
  have ensures: "pm_inFlightEnsure T =
      (if ws = [] then pm_inFlightEnsure s else (pm_inFlightEnsure s)(t := None))"
    unfolding T fold_ensure_ends(2) by (simp add: s'_def settle_def)
  have requests: "pm_inFlightRequests T = (pm_inFlightRequests s)(t := None)"
    unfolding T fold_ensure_ends(3) by (simp add: s'_def settle_def)
  have number: "pm_next T = pm_next s"
    unfolding T fold_ensure_ends(4) by (simp add: s'_def settle_def)
  have sole_request: "m = n" if "(m, Requesting t) \<in> set (pm_tasks s)" for m
    using that n perm_okD(3) [OF ok, of t] by (metis option.inject)
  have sole_ensure: "m = m'" if "(m, EnsureRequesting t n) \<in> set (pm_tasks s)" "(m', v) \<in> set (pm_tasks s)"
    "task_type v = Some t" for m m' v
    using that perm_okD(4) [OF ok, of t] by (metis option.inject task_type.simps(2))
  have "perm_ok T"
  proof (rule perm_okI)
    show "distinct (map fst (pm_tasks T))"
    proof -
      have "distinct (map fst (pm_tasks s'))"
        using perm_okD(1) [OF ok] by (simp add: s'_def settle_def distinct_map_filter)
      then show ?thesis unfolding T fold_ensure_ends(1) by (rule distinct_map_filter)
    qed
    show "m < pm_next T" if "(m, v) \<in> set (pm_tasks T)" for m v
      using that perm_okD(2) [OF ok, of m v] by (simp add: tasks number)
    show "(pm_inFlightRequests T t' = Some m) = ((m, Requesting t') \<in> set (pm_tasks T))" for t' m
      using perm_okD(3) [OF ok, of t' m] sole_request [of m] only_n perm_ok_unique [OF ok, of m]
      by (cases "t' = t") (fastforce simp: requests tasks)+
    show "(pm_inFlightEnsure T t' = Some m) = (\<exists>v. (m, v) \<in> set (pm_tasks T) \<and> task_type v = Some t')" for t' m
    proof (cases "ws = []")
      case True
      then have "(k, EnsureRequesting t n) \<notin> set (pm_tasks s)" for k using in_ws [of k] by simp
      then show ?thesis
        using True perm_okD(4) [OF ok, of t' m] only_n by (fastforce simp: ensures tasks)
    next
      case False
      then obtain k where k: "(k, EnsureRequesting t n) \<in> set (pm_tasks s)" using in_ws by (cases ws) auto
      show ?thesis
      proof (cases "t' = t")
        case True
        have "\<not> (\<exists>v. (m, v) \<in> set (pm_tasks T) \<and> task_type v = Some t)"
          using sole_ensure [OF k] k by (auto simp: tasks)
        then show ?thesis using True False by (simp add: ensures)
      next
        case other: False
        have "(m, EnsureRequesting t n) \<notin> set (pm_tasks s)"
          if "(m, v) \<in> set (pm_tasks s)" "task_type v = Some t'" for v
          using that other perm_ok_unique [OF ok, of m] by fastforce
        then show ?thesis
          using False other perm_okD(4) [OF ok, of t' m] only_n by (fastforce simp: ensures tasks)
      qed
    qed
    show "(p, Requesting t') \<in> set (pm_tasks T)" if "(m, EnsureRequesting t' p) \<in> set (pm_tasks T)" for m t' p
    proof -
      from that have m: "(m, EnsureRequesting t' p) \<in> set (pm_tasks s)"
        "(m, EnsureRequesting t n) \<notin> set (pm_tasks s)" by (simp_all add: tasks)
      from perm_okD(5) [OF ok m(1)] have p: "(p, Requesting t') \<in> set (pm_tasks s)" .
      moreover have "p \<noteq> n" using m p only_n by blast
      moreover have "(p, EnsureRequesting t n) \<notin> set (pm_tasks s)"
        using perm_ok_unique [OF ok p] by fastforce
      ultimately show ?thesis by (simp add: tasks)
    qed
  qed
  then show ?thesis by (simp add: T_def)
qed

lemma perm_ok_performEnsure:
  assumes ok: "perm_ok s" and n: "(n, u) \<in> set (pm_tasks s)" and t: "task_type u = Some (fst current)"
  shows "perm_ok (performEnsure n current s)"
proof -
  obtain p s' where req: "perm_request (fst current) s = (p, s')" by fastforce
  then have s': "perm_ok s'" "(p, Requesting (fst current)) \<in> set (pm_tasks s')" "(n, u) \<in> set (pm_tasks s')"
    using perm_ok_request [OF ok, of "fst current"] request_is_under_way [OF ok, where t = "fst current"] n by auto
  have "perm_ok (set_task n (EnsureRequesting (fst current) p) s')"
    by (rule perm_ok_set_task [OF s'(1,3) t]) (use s'(2) in auto)
  moreover have "perm_ok (set_task n (EnsureSettings (fst current)) s)"
    by (rule perm_ok_set_task [OF ok n t]) simp_all
  ultimately show ?thesis
    using perm_ok_ensure_ends [OF ok n t] by (simp add: performEnsure_def req)
qed

lemma perm_ok_step: "perm_ok s \<Longrightarrow> perm_ok (permission_step e s)"
proof (cases e)
  case (PlatformAnswer n a)
  assume ok: "perm_ok s"
  show ?thesis
  proof (cases "map_of (pm_tasks s) n")
    case (Some task)
    then have n: "(n, task) \<in> set (pm_tasks s)" by (rule map_of_SomeD)
    show ?thesis
      using ok n perm_ok_settle [OF ok n] perm_ok_settle [OF perm_ok_store [OF ok]]
        perm_ok_request_ends [OF ok] perm_ok_request_ends [OF perm_ok_store [OF ok]]
        perm_ok_ensure_ends [OF ok n] perm_ok_performEnsure [OF perm_ok_store [OF ok]]
      by (cases "(n, a, task, s)" rule: answer_one.cases)
        (auto simp: PlatformAnswer Some plain_task_def)
  qed (use ok in \<open>simp add: PlatformAnswer\<close>)
next
  case (SettingsOpened n a)
  assume ok: "perm_ok s"
  show ?thesis
  proof (cases "map_of (pm_tasks s) n")
    case (Some task)
    then have n: "(n, task) \<in> set (pm_tasks s)" by (rule map_of_SomeD)
    have "perm_ok (set_task n (EnsureRefreshing t ts) s)" if "task = EnsureSettings t" for t ts
      by (rule perm_ok_set_task [OF ok n]) (simp_all add: that)
    then show ?thesis
      using ok perm_ok_ensure_ends [OF ok n]
      by (cases "(n, a, task, s)" rule: answer_settings.cases) (auto simp: SettingsOpened Some)
  qed (use ok in \<open>simp add: SettingsOpened\<close>)
next
  case (PlatformAnswers n a)
  assume ok: "perm_ok s"
  show ?thesis
  proof (cases "map_of (pm_tasks s) n")
    case (Some task)
    then have n: "(n, task) \<in> set (pm_tasks s)" by (rule map_of_SomeD)
    have n': "(n, task) \<in> set (pm_tasks (refreshPermissions ts sts s))" for ts sts
      using n by (simp add: refreshPermissions_def)
    show ?thesis
      using ok perm_ok_settle [OF ok n] perm_ok_settle [OF perm_ok_refreshed [OF ok] n']
        perm_ok_ensure_ends [OF ok n] perm_ok_ensure_ends [OF perm_ok_refreshed [OF ok] n']
      by (cases "(n, a, task, s)" rule: answer_all.cases)
        (auto simp: PlatformAnswers Some plain_task_def Let_def)
  qed (use ok in \<open>simp add: PlatformAnswers\<close>)
next
  case PermCheckAll
  assume ok: "perm_ok s"
  have "perm_ok s \<Longrightarrow> perm_ok (fold perm_check ts s)" for ts s
    by (induction ts arbitrary: s) (simp_all add: perm_check_def perm_ok_new_task plain_task_def)
  with ok show ?thesis by (simp add: PermCheckAll checkAll_def)
next
  case (PermInitialize types)
  assume ok: "perm_ok s"
  show ?thesis by (rule perm_ok_cong [OF ok]) (simp_all add: PermInitialize initialize_def)
next
  case (PermSubscribe l)
  assume ok: "perm_ok s"
  show ?thesis by (rule perm_ok_cong [OF ok]) (simp_all add: PermSubscribe perm_subscribe_def)
next
  case (PermUnsubscribe l)
  assume ok: "perm_ok s"
  show ?thesis by (rule perm_ok_cong [OF ok]) (simp_all add: PermUnsubscribe perm_unsubscribe_def)
qed (simp_all add: perm_check_def refreshAll_def perm_ok_new_task plain_task_def perm_ok_request perm_ok_ensure)

lemma perm_ok_run: "perm_ok (permission_run es)"
proof -
  have "perm_ok s \<Longrightarrow> perm_ok (fold permission_step es s)" for s
    by (induction es arbitrary: s) (auto intro: perm_ok_step)
  moreover have "perm_ok no_permissions" by (simp add: perm_ok_def no_permissions_def)
  ultimately show ?thesis by (simp add: permission_run_def)
qed

text \<open>The requests and the \<^verbatim>\<open>ensurePermission\<close> calls under way, by their types.\<close>

fun requested_type :: "permission_task \<Rightarrow> permission_type option" where
  "requested_type (Requesting t) = Some t"
| "requested_type u = None"

definition requests_under_way :: "permissions \<Rightarrow> permission_type list" where
  "requests_under_way s = List.map_filter (\<lambda>(n, u). requested_type u) (pm_tasks s)"

definition ensures_under_way :: "permissions \<Rightarrow> permission_type list" where
  "ensures_under_way s = List.map_filter (\<lambda>(n, u). task_type u) (pm_tasks s)"

lemma distinct_map_filter_by_key:
  assumes "distinct (map fst xs)"
    and "\<And>n m u v t. (n, u) \<in> set xs \<Longrightarrow> (m, v) \<in> set xs \<Longrightarrow> f u = Some t \<Longrightarrow> f v = Some t \<Longrightarrow> n = m"
  shows "distinct (List.map_filter (\<lambda>(n, u). f u) xs)"
  using assms
proof (induction xs)
  case (Cons x xs)
  obtain n u where x: "x = (n, u)" by (cases x)
  have "t \<notin> set (List.map_filter (\<lambda>(n, u). f u) xs)" if "f u = Some t" for t
  proof
    assume "t \<in> set (List.map_filter (\<lambda>(n, u). f u) xs)"
    then obtain m v where v: "(m, v) \<in> set xs" "f v = Some t"
      by (auto simp: map_filter_def)
    with Cons.prems(2) [of n u m v t] x that have "n = m" by simp
    with v Cons.prems(1) x show False by force
  qed
  moreover have "distinct (List.map_filter (\<lambda>(n, u). f u) xs)"
  proof (rule Cons.IH)
    show "distinct (map fst xs)" using Cons.prems(1) by simp
    show "n = m" if "(n, u) \<in> set xs" "(m, v) \<in> set xs" "f u = Some t" "f v = Some t" for n m u v t
      using Cons.prems(2) [of n u m v t] that by simp
  qed
  ultimately show ?case using x by (auto simp: map_filter_simps split: option.split)
qed (simp add: map_filter_simps)

text \<open>
  C30. The user is never asked twice for one permission at the same time. In every order of calls and
  platform answers, the prompts under way are for different permissions, and so are the calls of
  \<^verbatim>\<open>ensurePermission\<close>; a further call for a permission whose prompt is under way starts nothing
  and gets its promise; and whoever waits for a prompt waits for one that will be answered.
\<close>

theorem one_prompt_per_permission:
  "let s = permission_run es in
     distinct (requests_under_way s) \<and> distinct (ensures_under_way s) \<and>
     list_all (\<lambda>(n, u). case u of
         Requesting t \<Rightarrow> perm_request t s = (n, s)
       | EnsureRequesting t p \<Rightarrow> (p, Requesting t) \<in> set (pm_tasks s)
       | _ \<Rightarrow> True) (pm_tasks s)"
proof -
  define s where "s = permission_run es"
  have ok: "perm_ok s" unfolding s_def by (rule perm_ok_run)
  have "distinct (requests_under_way s)"
    unfolding requests_under_way_def
  proof (rule distinct_map_filter_by_key [OF perm_okD(1) [OF ok]])
    fix n m u v t
    assume tasks: "(n, u) \<in> set (pm_tasks s)" "(m, v) \<in> set (pm_tasks s)"
      and "requested_type u = Some t" "requested_type v = Some t"
    then have "u = Requesting t" "v = Requesting t" by (auto elim!: requested_type.elims)
    with tasks show "n = m" using perm_okD(3) [OF ok, of t] by (metis option.inject)
  qed
  moreover have "distinct (ensures_under_way s)"
    unfolding ensures_under_way_def
    by (rule distinct_map_filter_by_key [OF perm_okD(1) [OF ok]])
      (metis perm_okD(4) [OF ok] option.inject)
  moreover have "perm_request t s = (n, s)" if "(n, Requesting t) \<in> set (pm_tasks s)" for n t
    using that perm_okD(3) [OF ok, of t n] by (simp add: perm_request_def)
  ultimately show ?thesis
    using perm_okD(5) [OF ok] unfolding s_def [symmetric]
    by (auto simp: Let_def list_all_iff split: permission_task.split)
qed

section \<open>Answers reach everyone who waits\<close>

lemma fold_ensure_ends_settled:
  "pm_settled (fold (\<lambda>(m, task). ensure_ends m t r) ws s) = pm_settled s @ map (\<lambda>(m, task). (m, r)) ws"
  by (induction ws arbitrary: s) (auto simp: ensure_ends_def settle_def)

text \<open>
  The answer to a prompt reaches everyone who waits for it. When the platform answers a prompt,
  the call of \<^verbatim>\<open>request\<close> and the \<^verbatim>\<open>ensurePermission\<close> that awaits it return that answer, the store has
  it, and both maps are free for the next call.
\<close>

theorem prompt_answers_everyone:
  assumes "(p, Requesting t) \<in> set (pm_tasks (permission_run es))"
    and "(m, EnsureRequesting t p) \<in> set (pm_tasks (permission_run es))"
  shows "let s = permission_step (PlatformAnswer p (Inr st)) (permission_run es) in
     {(p, Inr (Some (t, st))), (m, Inr (Some (t, st)))} \<subseteq> set (pm_settled s) \<and>
     getStatus s t = st \<and> pm_inFlightRequests s t = None \<and> pm_inFlightEnsure s t = None"
proof -
  define s where "s = store_update (t, st) (permission_run es)"
  have ok: "perm_ok s" and run: "perm_ok (permission_run es)"
    unfolding s_def by (simp_all add: perm_ok_store perm_ok_run)
  have tasks: "(p, Requesting t) \<in> set (pm_tasks s)" "(m, EnsureRequesting t p) \<in> set (pm_tasks s)"
    using assms by (simp_all add: s_def)
  have "map_of (pm_tasks (permission_run es)) p = Some (Requesting t)"
    using perm_okD(1) [OF run] assms(1) by (rule map_of_is_SomeI)
  then have step: "permission_step (PlatformAnswer p (Inr st)) (permission_run es) =
      request_ends p t (Inr (Some (t, st))) s"
    by (simp add: s_def)
  define s' where "s' = settle p (Inr (Some (t, st))) (s\<lparr>pm_inFlightRequests := (pm_inFlightRequests s)(t := None)\<rparr>)"
  define ws where "ws = filter (awaits_request p) (pm_tasks s')"
  have "m \<noteq> p" using perm_ok_unique [OF ok tasks(1), of "EnsureRequesting t p"] tasks(2) by auto
  then have ws: "(m, EnsureRequesting t p) \<in> set ws"
    using tasks(2) by (simp add: ws_def s'_def settle_def)
  then have "ws \<noteq> []" by auto
  have ends: "request_ends p t (Inr (Some (t, st))) s =
      fold (\<lambda>(m, task). ensure_ends m t (Inr (Some (t, st)))) ws s'"
    by (simp add: request_ends_def Let_def s'_def ws_def)
  have state: "pm_state (fold (\<lambda>(m, task). ensure_ends m t r) xs u) = pm_state u" for r xs u
    by (induction xs arbitrary: u) (auto simp: ensure_ends_def settle_def)
  have "(m, r) \<in> (\<lambda>(m, task). (m, r)) ` set ws" for r :: "js_error + permission_result option"
    using ws by force
  moreover have "getStatus s t = st" by (simp add: s_def getStatus_def store_update_def)
  ultimately show ?thesis
    using \<open>ws \<noteq> []\<close>
    unfolding Let_def step ends
    by (simp add: fold_ensure_ends_settled fold_ensure_ends(2,3) getStatus_def state)
      (simp add: s'_def settle_def)
qed

theorem prompt_answers_everyone_witness:
  "let s = permission_run [PermEnsure Camera, PermRequest Camera, PlatformAnswer 0 (Inr Denied),
       PlatformAnswer 1 (Inr Granted)] in
     {(1, Inr (Some (Camera, Granted))), (0, Inr (Some (Camera, Granted)))} \<subseteq> set (pm_settled s) \<and>
     getStatus s Camera = Granted \<and> pm_inFlightRequests s Camera = None \<and> pm_inFlightEnsure s Camera = None"
proof -
  let ?es = "[PermEnsure Camera, PermRequest Camera, PlatformAnswer 0 (Inr Denied)]"
  have tasks: "pm_tasks (permission_run ?es) = [(0, EnsureRequesting Camera 1), (1, Requesting Camera)]"
    by (simp add: permission_run_def no_permissions_def ensurePermission_def perm_request_def new_task_def
        performEnsure_def store_update_def isGrantedStatus_def isTerminalStatus_def isReRequestable_def
        set_task_def)
  have "(1, Requesting Camera) \<in> set (pm_tasks (permission_run ?es))"
    "(0, EnsureRequesting Camera 1) \<in> set (pm_tasks (permission_run ?es))"
    by (simp_all add: tasks)
  from prompt_answers_everyone [OF this, of Granted] show ?thesis
    by (simp add: permission_run_def del: permission_step.simps)
qed

section \<open>What listeners hear\<close>

definition heard :: "nat \<Rightarrow> permission_type \<Rightarrow> permissions \<Rightarrow> permission_status list" where
  "heard l t s = map (\<lambda>(k, r). snd r) (filter (\<lambda>(k, r). k = l \<and> fst r = t) (pm_heard s))"

text \<open>A listener that has heard every change since the start, and only changes.\<close>

definition hears :: "nat \<Rightarrow> permissions \<Rightarrow> bool" where
  "hears l s =
     (l \<in> set (pm_listeners s) \<and> distinct (pm_listeners s) \<and>
      (\<forall>t. distinct_adj (heard l t s) \<and>
         pm_state s t = (if heard l t s = [] then None else Some (last (heard l t s)))))"

lemma heard_store_update:
  assumes "distinct (pm_listeners s)" "l \<in> set (pm_listeners s)"
  shows "heard l t (store_update r s) =
     heard l t s @ (if fst r = t \<and> pm_state s t \<noteq> Some (snd r) then [snd r] else [])"
proof -
  have "filter (\<lambda>(k, q). k = l \<and> fst q = t) (map (\<lambda>k. (k, r)) ls) = (if fst r = t then [(l, r)] else [])"
    if "distinct ls" "l \<in> set ls" for ls
    using that by (induction ls) (auto simp: filter_empty_conv)
  from this [OF assms] show ?thesis
    by (auto simp: heard_def store_update_def)
qed

lemma distinct_adj_snoc: "distinct_adj (xs @ [x]) \<longleftrightarrow> distinct_adj xs \<and> (xs = [] \<or> last xs \<noteq> x)"
  by (auto simp: distinct_adj_append_iff)

lemma hears_store_update:
  assumes "hears l s"
  shows "hears l (store_update r s)"
proof -
  have s: "l \<in> set (pm_listeners s)" "distinct (pm_listeners s)" "distinct_adj (heard l t s)"
    "pm_state s t = (if heard l t s = [] then None else Some (last (heard l t s)))" for t
    using assms by (simp_all add: hears_def)
  have "distinct_adj (heard l t (store_update r s)) \<and> pm_state (store_update r s) t =
      (if heard l t (store_update r s) = [] then None else Some (last (heard l t (store_update r s))))" for t
  proof (cases "fst r = t \<and> pm_state s t \<noteq> Some (snd r)")
    case True
    moreover from this have "heard l t s = [] \<or> last (heard l t s) \<noteq> snd r"
      using s(4) [of t] by (auto split: if_splits)
    ultimately show ?thesis
      using s(3) by (simp add: heard_store_update [OF s(2,1)] distinct_adj_snoc) (auto simp: store_update_def)
  next
    case False
    then have "heard l t (store_update r s) = heard l t s"
      by (auto simp: heard_store_update [OF s(2,1)])
    moreover have "pm_state (store_update r s) t = pm_state s t"
      using False by (auto simp: store_update_def)
    ultimately show ?thesis using s(3,4) by simp
  qed
  with s(1,2) show ?thesis by (simp add: hears_def)
qed

lemma hears_fold_update: "hears l s \<Longrightarrow> hears l (fold store_update rs s)"
  by (induction rs arbitrary: s) (simp_all add: hears_store_update)

lemma hears_cong:
  assumes "hears l s" "pm_state t = pm_state s" "pm_heard t = pm_heard s" "pm_listeners t = pm_listeners s"
  shows "hears l t"
  using assms by (simp add: hears_def heard_def)

text \<open>Everything but an update of the store leaves it and its listeners alone.\<close>

definition same_store :: "permissions \<Rightarrow> permissions \<Rightarrow> bool" where
  "same_store s t = (pm_state t = pm_state s \<and> pm_heard t = pm_heard s \<and> pm_listeners t = pm_listeners s)"

lemma same_store_hears: "same_store s t \<Longrightarrow> hears l s \<Longrightarrow> hears l t"
  by (auto simp: same_store_def intro: hears_cong)

lemma same_store_trans: "same_store s t \<Longrightarrow> same_store t u \<Longrightarrow> same_store s u"
  by (simp add: same_store_def)

lemma same_store_basic [simp]:
  "same_store s (settle n r s)" "same_store s (new_task u s)" "same_store s (set_task n u s)"
  "same_store s (ensure_ends n t r s)" "same_store s (snd (perm_request t s))"
  "same_store s (snd (ensurePermission t s))"
  by (simp_all add: same_store_def settle_def new_task_def set_task_def ensure_ends_def perm_request_def
      ensurePermission_def split: option.split)

lemma same_store_request_ends [simp]: "same_store s (request_ends n t r s)"
proof -
  have "same_store u (fold (\<lambda>(m, task). ensure_ends m t r) ws u)" for ws u
    by (induction ws arbitrary: u) (auto simp: same_store_def ensure_ends_def settle_def)
  moreover have "same_store s (settle n r (s\<lparr>pm_inFlightRequests := f\<rparr>))" for f
    by (simp add: same_store_def settle_def)
  ultimately show ?thesis by (auto simp: request_ends_def Let_def intro: same_store_trans)
qed

lemma same_store_performEnsure [simp]: "same_store s (performEnsure n current s)"
proof -
  obtain p s' where "perm_request (fst current) s = (p, s')" by fastforce
  then show ?thesis
    using same_store_basic(5) [where t = "fst current" and s = s] same_store_basic(3) [where s = s']
    by (auto simp: performEnsure_def intro: same_store_trans)
qed

lemmas hears_same =
  same_store_basic [THEN same_store_hears] same_store_request_ends [THEN same_store_hears]
  same_store_performEnsure [THEN same_store_hears]

lemma hears_step:
  assumes "hears l s" "e \<noteq> PermUnsubscribe l"
  shows "hears l (permission_step e s)"
proof (cases e)
  case (PermSubscribe k)
  then show ?thesis
    using assms(1) by (auto simp: hears_def heard_def perm_subscribe_def distinct_set_add)
next
  case (PermUnsubscribe k)
  then show ?thesis
    using assms by (auto simp: hears_def heard_def perm_unsubscribe_def set_set_delete distinct_set_delete)
next
  case PermCheckAll
  have "same_store u (fold perm_check ts u)" for ts u
    by (induction ts arbitrary: u) (auto simp: same_store_def perm_check_def new_task_def)
  then show ?thesis using assms(1) PermCheckAll by (auto simp: checkAll_def intro: same_store_hears)
next
  case (PlatformAnswer n a)
  show ?thesis
  proof (cases "map_of (pm_tasks s) n")
    case (Some task)
    then show ?thesis
      using assms(1) hears_store_update [OF assms(1)]
      by (cases "(n, a, task, s)" rule: answer_one.cases)
        (simp_all add: PlatformAnswer Some hears_same)
  qed (use assms in \<open>simp add: PlatformAnswer\<close>)
next
  case (SettingsOpened n a)
  show ?thesis
  proof (cases "map_of (pm_tasks s) n")
    case (Some task)
    then show ?thesis
      using assms(1) by (cases "(n, a, task, s)" rule: answer_settings.cases)
        (simp_all add: SettingsOpened Some hears_same)
  qed (use assms in \<open>simp add: SettingsOpened\<close>)
next
  case (PlatformAnswers n a)
  show ?thesis
  proof (cases "map_of (pm_tasks s) n")
    case (Some task)
    then show ?thesis
      using assms(1) hears_fold_update [OF assms(1)]
      by (cases "(n, a, task, s)" rule: answer_all.cases)
        (simp_all add: PlatformAnswers Some refreshPermissions_def Let_def hears_same)
  qed (use assms in \<open>simp add: PlatformAnswers\<close>)
next
  case (PermInitialize types)
  then show ?thesis
    using assms(1) by (auto simp: initialize_def same_store_def intro: same_store_hears)
qed (use assms(1) in \<open>simp_all add: perm_check_def refreshAll_def hears_same\<close>)

text \<open>
  A screen that listens shows the status that the store has. A listener that subscribed before
  anything was checked, and stays, hears for every permission each change of its status and nothing
  else: never the same status twice in a row, and last the one that \<^verbatim>\<open>getStatus\<close> returns.
\<close>

theorem permission_listener_hears_changes:
  assumes "list_all (\<lambda>e. e \<noteq> PermUnsubscribe l) es"
  shows "let s = permission_run (PermSubscribe l # es) in
     distinct_adj (heard l t s) \<and>
     getStatus s t = (if heard l t s = [] then UnknownStatus else last (heard l t s))"
proof -
  have "hears l s \<Longrightarrow> list_all (\<lambda>e. e \<noteq> PermUnsubscribe l) es \<Longrightarrow> hears l (fold permission_step es s)" for s
    by (induction es arbitrary: s) (simp_all add: hears_step del: permission_step.simps)
  moreover have "hears l (permission_step (PermSubscribe l) no_permissions)"
    by (simp add: hears_def heard_def perm_subscribe_def no_permissions_def set_add_def)
  ultimately have "hears l (permission_run (PermSubscribe l # es))"
    using assms by (simp add: permission_run_def)
  then show ?thesis by (simp add: hears_def getStatus_def Let_def)
qed

theorem permission_listener_hears_changes_witness:
  "let s = permission_run [PermSubscribe 7, PermCheck Camera, PermCheck Camera,
       PlatformAnswer 0 (Inr Denied), PlatformAnswer 1 (Inr Granted)] in
     distinct_adj (heard 7 Camera s) \<and>
     getStatus s Camera = (if heard 7 Camera s = [] then UnknownStatus else last (heard 7 Camera s))"
  by (rule permission_listener_hears_changes) simp

section \<open>Where the code falls short\<close>

text \<open>
  A permission that is not among the tracked types is not checked again after the settings were
  opened: \<^verbatim>\<open>ensurePermission\<close> returns the refusal from before, whatever the user chose there.
\<close>

lemma untracked_permission_is_not_refreshed:
  assumes "map_of (pm_tasks s) n = Some (EnsureRefreshing t ts)" "t \<notin> set ts" "length sts = length ts"
  shows "(n, Inr (Some (t, getStatus s t))) \<in> set (pm_settled (permission_step (PlatformAnswers n (Inr sts)) s))"
proof -
  have "pm_state (fold store_update (zip ts sts) s) t = pm_state s t"
    using assms(2,3)
    by (induction ts sts arbitrary: s rule: list_induct2') (auto simp: store_update_def)
  then show ?thesis
    using assms by (simp add: Let_def ensure_ends_def settle_def refreshPermissions_def getStatus_def)
qed

text \<open>
  A refresh that was started before a prompt and answered after it overwrites the prompt's answer
  with the older status: the in-flight requests are looked at only when the refresh starts.
\<close>

lemma late_refresh_overwrites_the_answer:
  "getStatus (permission_run [PermInitialize (Some [Camera]), PermRefreshAll, PermRequest Camera,
     PlatformAnswer 1 (Inr Granted), PlatformAnswers 0 (Inr [Denied])]) Camera = Denied"
  by (simp add: permission_run_def no_permissions_def initialize_def refreshAll_def to_refresh_def
      perm_request_def new_task_def request_ends_def settle_def store_update_def refreshPermissions_def
      getStatus_def Let_def)

end
