(* ===== verification/ImageScaling.thy ===== *)
theory ImageScaling
  imports NetworkTypes "HOL-Library.Word"
begin

text \<open>
  \<^verbatim>\<open>packages/nsfw-detection/src/platform/preprocess-image.*.ts\<close>: a picture becomes the
  224 by 224 array of colours the model reads. The native code scales the decoded picture
  itself (bilinear, one row at a time); on the web a canvas does, which is a parameter.

  Bytes are 8-bit words, and storing a rounded number into a \<^verbatim>\<open>Uint8Array\<close> wraps around.
  The arithmetic between is on rationals, not doubles; the lists are the arrays in the order
  in which the loops fill them, which is that of the indices \<^verbatim>\<open>(y * 224 + x) * 4 + c\<close>.
\<close>

section \<open>Bilinear scaling\<close>

definition MODEL_INPUT_SIZE :: nat where
  "MODEL_INPUT_SIZE = 224"

record preprocessed_image =
  pi_data :: "rat list"
  pi_width :: nat
  pi_height :: nat
  pi_channels :: nat

definition lerp :: "rat \<Rightarrow> rat \<Rightarrow> rat \<Rightarrow> rat" where
  "lerp a b t = a + (b - a) * t"

text \<open>\<^verbatim>\<open>src[i] ?? 0\<close> and \<^verbatim>\<open>dst[i] = Math.round(v)\<close>.\<close>

definition byte_at :: "8 word list \<Rightarrow> int \<Rightarrow> rat" where
  "byte_at src i = (if 0 \<le> i \<and> i < int (length src) then of_nat (unat (src ! nat i)) else 0)"

definition rounded_byte :: "rat \<Rightarrow> 8 word" where
  "rounded_byte v = word_of_int \<lfloor>v + 1 / 2\<rfloor>"

definition interpolatePixel ::
  "8 word list \<Rightarrow> int \<Rightarrow> int \<Rightarrow> int \<Rightarrow> rat \<Rightarrow> rat \<Rightarrow> nat \<Rightarrow> 8 word list" where
  "interpolatePixel src srcW y0 y1 dy xRatio x =
     (let srcXf = of_nat x * xRatio;
          x0 = \<lfloor>srcXf\<rfloor>;
          x1 = min (x0 + 1) (srcW - 1);
          dx = srcXf - of_int x0;
          i00 = (y0 * srcW + x0) * 4;
          i10 = (y0 * srcW + x1) * 4;
          i01 = (y1 * srcW + x0) * 4;
          i11 = (y1 * srcW + x1) * 4
      in map (\<lambda>c. let top = lerp (byte_at src (i00 + int c)) (byte_at src (i10 + int c)) dx;
                      bot = lerp (byte_at src (i01 + int c)) (byte_at src (i11 + int c)) dx
                  in rounded_byte (lerp top bot dy)) [0..<4])"

definition interpolateRow :: "8 word list \<Rightarrow> int \<Rightarrow> int \<Rightarrow> int \<Rightarrow> rat \<Rightarrow> rat \<Rightarrow> 8 word list" where
  "interpolateRow src srcW y0 y1 dy xRatio =
     concat (map (interpolatePixel src srcW y0 y1 dy xRatio) [0..<MODEL_INPUT_SIZE])"

definition resizeRgba :: "8 word list \<Rightarrow> nat \<Rightarrow> nat \<Rightarrow> 8 word list" where
  "resizeRgba src srcW srcH =
     (let xRatio = of_nat srcW / of_nat MODEL_INPUT_SIZE;
          yRatio = of_nat srcH / of_nat MODEL_INPUT_SIZE
      in concat (map (\<lambda>y.
           let srcYf = of_nat y * yRatio;
               y0 = \<lfloor>srcYf\<rfloor>;
               y1 = min (y0 + 1) (int srcH - 1);
               dy = srcYf - of_int y0
           in interpolateRow src (int srcW) y0 y1 dy xRatio) [0..<MODEL_INPUT_SIZE]))"

definition rgbaToNormalizedRgb :: "8 word list \<Rightarrow> nat \<Rightarrow> rat list" where
  "rgbaToNormalizedRgb rgba pixelCount =
     concat (map (\<lambda>i. let srcOffset = int i * 4
       in [byte_at rgba srcOffset / 255, byte_at rgba (srcOffset + 1) / 255, byte_at rgba (srcOffset + 2) / 255])
       [0..<pixelCount])"

text \<open>Fetching and decoding a JPEG is a parameter: its RGBA bytes, width and height.\<close>

definition fetchAndDecode ::
  "(string \<Rightarrow> js_error + 8 word list \<times> nat \<times> nat) \<Rightarrow> string \<Rightarrow> js_error + rat list" where
  "fetchAndDecode decoded uri = (case decoded uri of
     Inl e \<Rightarrow> Inl e
   | Inr (data, width, height) \<Rightarrow>
       Inr (rgbaToNormalizedRgb (resizeRgba data width height) (MODEL_INPUT_SIZE * MODEL_INPUT_SIZE)))"

definition native_preprocessImage ::
  "(string \<Rightarrow> js_error + 8 word list \<times> nat \<times> nat) \<Rightarrow> string \<Rightarrow> js_error + preprocessed_image" where
  "native_preprocessImage decoded uri = (case fetchAndDecode decoded uri of
     Inl e \<Rightarrow> Inl e
   | Inr rgbData \<Rightarrow> Inr \<lparr>pi_data = rgbData, pi_width = MODEL_INPUT_SIZE, pi_height = MODEL_INPUT_SIZE, pi_channels = 3\<rparr>)"

text \<open>
  On the web: the pixels of a canvas on which the image, if it loads, has been drawn, if the
  browser gives a 2D context.
\<close>

definition web_preprocessImage ::
  "(string \<Rightarrow> 'img option) \<Rightarrow> ('img \<Rightarrow> 8 word list) option \<Rightarrow> string \<Rightarrow> js_error + preprocessed_image" where
  "web_preprocessImage loaded drawn uri = (case loaded uri of
     None \<Rightarrow> Inl (JsErr (Some (''Failed to load image: '' @ uri)))
   | Some img \<Rightarrow> (case drawn of
       None \<Rightarrow> Inl (JsErr (Some ''Canvas 2D context unavailable''))
     | Some pixels \<Rightarrow> Inr \<lparr>pi_data = rgbaToNormalizedRgb (pixels img) (MODEL_INPUT_SIZE * MODEL_INPUT_SIZE),
                            pi_width = MODEL_INPUT_SIZE, pi_height = MODEL_INPUT_SIZE, pi_channels = 3\<rparr>))"

section \<open>Arrays as lists of equal blocks\<close>

lemma nth_blocks:
  assumes "list_all (\<lambda>b. length b = k) bs" "i < length bs" "c < k"
  shows "concat bs ! (i * k + c) = bs ! i ! c"
  using assms
proof (induction bs arbitrary: i)
  case Nil
  then show ?case by simp
next
  case (Cons b bs)
  then show ?case by (cases i) (simp_all add: nth_append add.assoc)
qed

lemma length_blocks: "list_all (\<lambda>b. length b = k) bs \<Longrightarrow> length (concat bs) = length bs * k"
  by (induction bs) auto

lemma length_pixel [simp]: "length (interpolatePixel src w y0 y1 dy r x) = 4"
  by (simp add: interpolatePixel_def Let_def)

lemma length_row [simp]: "length (interpolateRow src w y0 y1 dy r) = MODEL_INPUT_SIZE * 4"
  by (simp add: interpolateRow_def length_blocks [where k = 4] list_all_iff)

lemma length_resizeRgba: "length (resizeRgba src w h) = MODEL_INPUT_SIZE * (MODEL_INPUT_SIZE * 4)"
  by (simp add: resizeRgba_def Let_def length_blocks [where k = "MODEL_INPUT_SIZE * 4"] list_all_iff)

lemma row_byte:
  assumes "x < MODEL_INPUT_SIZE" "c < 4"
  shows "interpolateRow src w y0 y1 dy r ! (x * 4 + c) = interpolatePixel src w y0 y1 dy r x ! c"
  unfolding interpolateRow_def
  by (subst nth_blocks [where k = 4]) (use assms in \<open>simp_all add: list_all_iff\<close>)

lemma resized_byte:
  assumes "y < MODEL_INPUT_SIZE" "x < MODEL_INPUT_SIZE" "c < 4"
  shows "resizeRgba src w h ! ((y * MODEL_INPUT_SIZE + x) * 4 + c) =
    (let yf = of_nat y * (of_nat h / of_nat MODEL_INPUT_SIZE)
     in interpolatePixel src (int w) \<lfloor>yf\<rfloor> (min (\<lfloor>yf\<rfloor> + 1) (int h - 1)) (yf - of_int \<lfloor>yf\<rfloor>)
          (of_nat w / of_nat MODEL_INPUT_SIZE) x ! c)"
proof -
  have index: "(y * MODEL_INPUT_SIZE + x) * 4 + c = y * (MODEL_INPUT_SIZE * 4) + (x * 4 + c)"
    by (simp add: algebra_simps)
  have inner: "x * 4 + c < MODEL_INPUT_SIZE * 4" using assms(2,3) by simp
  show ?thesis
    unfolding index resizeRgba_def Let_def
    by (subst nth_blocks [where k = "MODEL_INPUT_SIZE * 4"])
       (use assms inner in \<open>simp_all add: list_all_iff row_byte\<close>)
qed

section \<open>No byte wraps around\<close>

lemma lerp_between:
  assumes "0 \<le> t" "t \<le> 1" "l \<le> a" "l \<le> b" "a \<le> u" "b \<le> u"
  shows "l \<le> lerp a b t" "lerp a b t \<le> u"
proof -
  have l: "lerp a b t = a * (1 - t) + b * t" by (simp add: lerp_def algebra_simps)
  have "l * (1 - t) + l * t \<le> a * (1 - t) + b * t"
    using assms by (intro add_mono mult_right_mono) simp_all
  then show "l \<le> lerp a b t" unfolding l by (simp add: algebra_simps)
  have "a * (1 - t) + b * t \<le> u * (1 - t) + u * t"
    using assms by (intro add_mono mult_right_mono) simp_all
  then show "lerp a b t \<le> u" unfolding l by (simp add: algebra_simps)
qed

lemma bilinear_between:
  assumes "0 \<le> t" "t \<le> 1" "0 \<le> t'" "t' \<le> 1"
    and "l \<le> a \<and> a \<le> u" "l \<le> b \<and> b \<le> u" "l \<le> p \<and> p \<le> u" "l \<le> q \<and> q \<le> u"
  shows "l \<le> lerp (lerp a b t) (lerp p q t) t'" "lerp (lerp a b t) (lerp p q t) t' \<le> u"
  using lerp_between [OF assms(1,2), of l a b u] lerp_between [OF assms(1,2), of l p q u]
    lerp_between [OF assms(3,4), of l "lerp a b t" "lerp p q t" u] assms(5-8)
  by simp_all

lemma unat_pixel_byte [simp]: "unat (v :: 8 word) \<le> 255"
  using unsigned_less [of v, where 'a = nat] by simp

lemma byte_at_bounds [simp]: "0 \<le> byte_at src i" "byte_at src i \<le> 255"
proof -
  show "0 \<le> byte_at src i" by (simp add: byte_at_def del: of_nat_unat)
  have "of_nat (unat v) \<le> (of_nat 255 :: rat)" for v :: "8 word"
    unfolding of_nat_le_iff by (rule unat_pixel_byte)
  then show "byte_at src i \<le> 255" by (simp add: byte_at_def del: of_nat_unat)
qed

lemma rounded_byte_between:
  assumes "of_int l \<le> v" "v \<le> of_int u" "0 \<le> l" "u \<le> 255"
  shows "l \<le> int (unat (rounded_byte v)) \<and> int (unat (rounded_byte v)) \<le> u"
proof -
  let ?r = "\<lfloor>v + 1 / 2\<rfloor>"
  have "l \<le> ?r" using assms(1) by (simp add: le_floor_iff)
  moreover have "?r \<le> u" using assms(2) by (simp add: floor_le_iff)
  moreover have "?r mod 256 = ?r"
    using \<open>l \<le> ?r\<close> \<open>?r \<le> u\<close> assms(3,4) by (intro mod_pos_pos_trivial) linarith+
  then have "uint (word_of_int ?r :: 8 word) = ?r" by (simp add: uint_word_of_int)
  ultimately show ?thesis by (simp add: rounded_byte_def)
qed

text \<open>The four bytes of the source that a byte of the result is computed from.\<close>

definition neighbours :: "8 word list \<Rightarrow> nat \<Rightarrow> nat \<Rightarrow> nat \<Rightarrow> nat \<Rightarrow> nat \<Rightarrow> rat list" where
  "neighbours src w h y x c =
     (let y0 = int (y * h div MODEL_INPUT_SIZE); y1 = min (y0 + 1) (int h - 1);
          x0 = int (x * w div MODEL_INPUT_SIZE); x1 = min (x0 + 1) (int w - 1)
      in [byte_at src ((y0 * int w + x0) * 4 + int c), byte_at src ((y0 * int w + x1) * 4 + int c),
          byte_at src ((y1 * int w + x0) * 4 + int c), byte_at src ((y1 * int w + x1) * 4 + int c)])"

lemma floor_scaled: "\<lfloor>of_nat a * (of_nat b / of_nat n :: rat)\<rfloor> = int (a * b div n)"
  using floor_divide_of_nat_eq [of "a * b" n, where 'a = rat] by simp

lemma frac_scaled: "0 \<le> (v :: rat) - of_int \<lfloor>v\<rfloor>" "v - of_int \<lfloor>v\<rfloor> \<le> 1"
  by linarith+

lemma byte_at_integral: "\<exists>i. byte_at src j = of_int i \<and> 0 \<le> i \<and> i \<le> 255"
proof (cases "0 \<le> j \<and> j < int (length src)")
  case True
  then show ?thesis
    using unat_pixel_byte [of "src ! nat j"]
    by (intro exI [of _ "int (unat (src ! nat j))"]) (simp add: byte_at_def del: of_nat_unat unat_pixel_byte)
next
  case False
  then have "byte_at src j = 0" by (auto simp: byte_at_def)
  then show ?thesis by (intro exI [of _ 0]) simp
qed

lemma interpolated_between:
  assumes "c < 4" "0 \<le> dy" "dy \<le> 1"
    and "N = (let x0 = \<lfloor>of_nat x * r\<rfloor>; x1 = min (x0 + 1) (w - 1)
             in [byte_at src ((y0 * w + x0) * 4 + int c), byte_at src ((y0 * w + x1) * 4 + int c),
                 byte_at src ((y1 * w + x0) * 4 + int c), byte_at src ((y1 * w + x1) * 4 + int c)])"
  shows "Min (set N) \<le> of_nat (unat (interpolatePixel src w y0 y1 dy r x ! c)) \<and>
         of_nat (unat (interpolatePixel src w y0 y1 dy r x ! c)) \<le> Max (set N)"
proof -
  obtain a b p q where N: "N = [a, b, p, q]"
    and pixel: "interpolatePixel src w y0 y1 dy r x ! c =
      rounded_byte (lerp (lerp a b (of_nat x * r - of_int \<lfloor>of_nat x * r\<rfloor>))
                         (lerp p q (of_nat x * r - of_int \<lfloor>of_nat x * r\<rfloor>)) dy)"
    using assms(1,4) by (simp add: interpolatePixel_def Let_def)
  have ints: "\<exists>i. v = of_int i \<and> 0 \<le> i \<and> i \<le> 255" if "v \<in> set N" for v
    using that assms(4) byte_at_integral unfolding Let_def by auto
  have "Min (set N) \<in> set N" "Max (set N) \<in> set N" by (simp_all only: N Min_in Max_in finite_set) auto
  then obtain l u where l: "Min (set N) = of_int l" "0 \<le> l" and u: "Max (set N) = of_int u" "u \<le> 255"
    using ints by metis
  have in_range: "of_int l \<le> v \<and> v \<le> of_int u" if "v \<in> {a, b, p, q}" for v
    using that unfolding l(1) [symmetric] u(1) [symmetric] N by auto
  note t = frac_scaled [of "of_nat x * r"]
  let ?v = "lerp (lerp a b (of_nat x * r - of_int \<lfloor>of_nat x * r\<rfloor>))
                 (lerp p q (of_nat x * r - of_int \<lfloor>of_nat x * r\<rfloor>)) dy"
  have "of_int l \<le> ?v" "?v \<le> of_int u"
    using bilinear_between [OF t assms(2,3), where a = a and b = b and p = p and q = q
        and l = "of_int l" and u = "of_int u"] in_range by simp_all
  from rounded_byte_between [OF this l(2) u(2)]
  have "l \<le> int (unat (rounded_byte ?v))" "int (unat (rounded_byte ?v)) \<le> u" by simp_all
  then show ?thesis unfolding pixel l(1) u(1) by linarith
qed

theorem resized_byte_is_between:
  assumes "y < MODEL_INPUT_SIZE" "x < MODEL_INPUT_SIZE" "c < 4"
    and "b = of_nat (unat (resizeRgba src w h ! ((y * MODEL_INPUT_SIZE + x) * 4 + c)))"
  shows "Min (set (neighbours src w h y x c)) \<le> b \<and> b \<le> Max (set (neighbours src w h y x c))"
  unfolding assms(4) resized_byte [OF assms(1-3)] Let_def
  by (rule interpolated_between [OF assms(3) frac_scaled])
     (simp add: neighbours_def floor_scaled Let_def del: times_divide_eq_right)

theorem resized_byte_is_between_witness:
  "unat (resizeRgba [200, 10, 0, 255] 1 1 ! ((5 * 224 + 7) * 4 + 1)) = 10"
proof -
  have N: "neighbours [200, 10, 0, 255] 1 1 5 7 1 = [10, 10, 10, 10]"
    by (simp add: neighbours_def MODEL_INPUT_SIZE_def byte_at_def Let_def)
  have "10 \<le> (of_nat (unat (resizeRgba [200, 10, 0, 255] 1 1 ! ((5 * 224 + 7) * 4 + 1))) :: rat) \<and>
        (of_nat (unat (resizeRgba [200, 10, 0, 255] 1 1 ! ((5 * 224 + 7) * 4 + 1))) :: rat) \<le> 10"
    using resized_byte_is_between [of 5 7 1, OF _ _ _ refl, of "[200, 10, 0, 255]" 1 1]
    unfolding N by (simp add: MODEL_INPUT_SIZE_def)
  then show ?thesis by linarith
qed

section \<open>A picture of the right size\<close>

lemma rounded_byte_of_byte: "rounded_byte (of_nat (unat v)) = v"
proof -
  have "\<lfloor>(of_nat n :: rat) + 1 / 2\<rfloor> = int n" for n :: nat
    by (rule floor_unique) simp_all
  then have "rounded_byte (of_nat (unat v)) = word_of_int (int (unat v))"
    unfolding rounded_byte_def by (rule arg_cong)
  then show ?thesis by simp
qed

text \<open>Scaling leaves a 224 by 224 picture as it is.\<close>

lemma resize_keeps_the_model_size:
  assumes "length src = MODEL_INPUT_SIZE * (MODEL_INPUT_SIZE * 4)"
  shows "resizeRgba src MODEL_INPUT_SIZE MODEL_INPUT_SIZE = src"
proof (rule nth_equalityI)
  show "length (resizeRgba src MODEL_INPUT_SIZE MODEL_INPUT_SIZE) = length src"
    by (simp add: length_resizeRgba assms)
  fix j
  assume "j < length (resizeRgba src MODEL_INPUT_SIZE MODEL_INPUT_SIZE)"
  then have j: "j < MODEL_INPUT_SIZE * MODEL_INPUT_SIZE * 4" by (simp add: length_resizeRgba)
  define c where "c = j mod 4"
  define x where "x = j div 4 mod MODEL_INPUT_SIZE"
  define y where "y = j div 4 div MODEL_INPUT_SIZE"
  have bounds: "y < MODEL_INPUT_SIZE" "x < MODEL_INPUT_SIZE" "c < 4"
    using j by (auto simp: x_def y_def c_def MODEL_INPUT_SIZE_def)
  have jn: "j = (y * MODEL_INPUT_SIZE + x) * 4 + c"
    by (simp add: x_def y_def c_def)
  have whole: "of_nat k * (of_nat MODEL_INPUT_SIZE / of_nat MODEL_INPUT_SIZE :: rat) = of_nat k" for k
    by (simp add: MODEL_INPUT_SIZE_def)
  have in_src: "j < length src" using j assms by simp
  have index: "(int y * int MODEL_INPUT_SIZE + int x) * 4 + int c = int j" by (simp add: jn)
  have "byte_at src ((int y * int MODEL_INPUT_SIZE + int x) * 4 + int c) = of_nat (unat (src ! j))"
    unfolding index using in_src by (simp add: byte_at_def del: of_nat_unat)
  moreover have "resizeRgba src MODEL_INPUT_SIZE MODEL_INPUT_SIZE ! ((y * MODEL_INPUT_SIZE + x) * 4 + c) =
      rounded_byte (byte_at src ((int y * int MODEL_INPUT_SIZE + int x) * 4 + int c))"
    unfolding resized_byte [OF bounds] whole
    using bounds whole [of x] by (simp add: interpolatePixel_def lerp_def Let_def split: if_splits)
  ultimately show "resizeRgba src MODEL_INPUT_SIZE MODEL_INPUT_SIZE ! j = src ! j"
    by (simp only: jn [symmetric] rounded_byte_of_byte)
qed

section \<open>The input of the model\<close>

definition tensor_ok :: "preprocessed_image \<Rightarrow> bool" where
  "tensor_ok img \<longleftrightarrow> length (pi_data img) = pi_width img * pi_height img * pi_channels img \<and>
     list_all (\<lambda>v. 0 \<le> v \<and> v \<le> 1) (pi_data img)"

lemma normalized_ok:
  "length (rgbaToNormalizedRgb rgba n) = n * 3 \<and> list_all (\<lambda>v. 0 \<le> v \<and> v \<le> 1) (rgbaToNormalizedRgb rgba n)"
  by (auto simp: rgbaToNormalizedRgb_def Let_def list_all_iff length_blocks [where k = 3])


end
