(* ===== verification/NsfwDetection.thy ===== *)
theory NsfwDetection
  imports ImageScaling
begin

text \<open>
  \<^verbatim>\<open>packages/nsfw-detection/src\<close>: whether a picture or a video may be shown. The model, the
  decoder and the extraction of frames are parameters (what they answer for each input); the
  thresholds, the verdicts, the loop over the frames, the choice of the instants and the
  normalisation of the model's URL are here, the scaling of pictures is in \<^verbatim>\<open>ImageScaling\<close>.

  A score is a number or \<^verbatim>\<open>NaN\<close> (None): a missing output of the web model is \<^verbatim>\<open>undefined\<close>,
  which compares like it. Scores are rationals; 0.50 and 0.60 are read as 1/2 and 3/5, and no
  \<^verbatim>\<open>Float32\<close> score lies between 3/5 and the double that stands for it.
\<close>

section \<open>Types and thresholds\<close>

datatype category_label = Explicit | Suggestive | Violence | Hate

type_synonym score = "rat option"

record safety_category =
  ct_label :: category_label
  ct_confidence :: score
  ct_isAboveThreshold :: bool

record safety_result =
  sr_isSafe :: bool
  sr_categories :: "safety_category list"

record raw_scores =
  sc_explicit :: score
  sc_suggestive :: score
  sc_violence :: score
  sc_hate :: score

datatype sampling_strategy = Uniform | Random

record video_options =
  vo_frameCount :: "int option"
  vo_strategy :: "sampling_strategy option"
  vo_earlyExit :: "bool option"
  vo_durationMs :: "rat option"

record extracted_frame =
  ef_uri :: string
  ef_timestampMs :: int
  ef_index :: nat

record frame_result =
  fr_frameIndex :: nat
  fr_scores :: raw_scores
  fr_categories :: "safety_category list"

record frame_detail =
  fd_index :: nat
  fd_uri :: string
  fd_scores :: raw_scores
  fd_categories :: "safety_category list"

record video_result =
  vr_isSafe :: bool
  vr_categories :: "safety_category list"
  vr_framesAnalyzed :: nat
  vr_totalFramesRequested :: nat
  vr_flaggedFrameIndices :: "nat list"
  vr_frames :: "frame_detail list"

definition DEFAULT_THRESHOLDS :: "(category_label \<times> rat) list" where
  "DEFAULT_THRESHOLDS = [(Explicit, 50 / 100), (Suggestive, 50 / 100), (Violence, 60 / 100), (Hate, 60 / 100)]"

text \<open>\<^verbatim>\<open>scores[label]\<close>, \<^verbatim>\<open>>=\<close> and \<^verbatim>\<open>Math.max\<close> on scores.\<close>

fun score_of :: "raw_scores \<Rightarrow> category_label \<Rightarrow> score" where
  "score_of r Explicit = sc_explicit r"
| "score_of r Suggestive = sc_suggestive r"
| "score_of r Violence = sc_violence r"
| "score_of r Hate = sc_hate r"

definition at_least :: "score \<Rightarrow> rat \<Rightarrow> bool" where
  "at_least s t = (case s of None \<Rightarrow> False | Some x \<Rightarrow> t \<le> x)"

definition max_score :: "score \<Rightarrow> score \<Rightarrow> score" where
  "max_score a b = (case a of None \<Rightarrow> None
     | Some x \<Rightarrow> (case b of None \<Rightarrow> None | Some y \<Rightarrow> Some (if x \<le> y then y else x)))"

fun math_max :: "score \<Rightarrow> score list \<Rightarrow> score" where
  "math_max a [] = a"
| "math_max a (b # bs) = math_max (max_score a b) bs"

section \<open>The verdict on one picture\<close>

definition mapScoresToCategories :: "raw_scores \<Rightarrow> safety_result" where
  "mapScoresToCategories scores =
     (let categories = map (\<lambda>(label, threshold).
            \<lparr>ct_label = label, ct_confidence = score_of scores label,
             ct_isAboveThreshold = at_least (score_of scores label) threshold\<rparr>) DEFAULT_THRESHOLDS
      in \<lparr>sr_isSafe = list_all (\<lambda>c. \<not> ct_isAboveThreshold c) categories, sr_categories = categories\<rparr>)"

definition NSFWJS_CLASSES :: "string list" where
  "NSFWJS_CLASSES = [''drawing'', ''hentai'', ''neutral'', ''porn'', ''sexy'']"

text \<open>
  \<^verbatim>\<open>Object.fromEntries(NSFWJS_CLASSES.map(...))\<close> and the scores it is read into; on the native
  side a missing output counts as 0, on the web it is \<^verbatim>\<open>undefined\<close>.
\<close>

definition named_scores :: "score \<Rightarrow> score list \<Rightarrow> string \<Rightarrow> score" where
  "named_scores absent outputs name =
     (case map_of (zip NSFWJS_CLASSES (map (\<lambda>i. if i < length outputs then outputs ! i else absent) [0..<5])) name of
        None \<Rightarrow> None | Some s \<Rightarrow> s)"

definition scores_of_outputs :: "(string \<Rightarrow> score) \<Rightarrow> raw_scores" where
  "scores_of_outputs s =
     \<lparr>sc_explicit = math_max (s ''porn'') [s ''hentai''], sc_suggestive = s ''sexy'',
      sc_violence = Some 0, sc_hate = Some 0\<rparr>"

definition mapOutputToScores :: "score list \<Rightarrow> raw_scores" where
  "mapOutputToScores outputs = scores_of_outputs (named_scores (Some 0) outputs)"

definition mapProbabilitiesToScores :: "score list \<Rightarrow> raw_scores" where
  "mapProbabilitiesToScores probabilities = scores_of_outputs (named_scores None probabilities)"

text \<open>\<^verbatim>\<open>runInferencePlatform\<close>: the model's list of outputs, or its only tensor.\<close>

definition native_runInference ::
  "('m \<Rightarrow> 'x \<Rightarrow> js_error + score list list) \<Rightarrow> 'm \<Rightarrow> 'x \<Rightarrow> js_error + raw_scores" where
  "native_runInference run model input = (case run model input of
     Inl e \<Rightarrow> Inl e
   | Inr [] \<Rightarrow> Inl (JsErr (Some ''TFLite model returned no output''))
   | Inr (out # _) \<Rightarrow> Inr (mapOutputToScores out))"

definition web_runInference ::
  "('m \<Rightarrow> 'x \<Rightarrow> js_error + score list) \<Rightarrow> 'm \<Rightarrow> 'x \<Rightarrow> js_error + raw_scores" where
  "web_runInference predict model input = (case predict model input of
     Inl e \<Rightarrow> Inl e | Inr probabilities \<Rightarrow> Inr (mapProbabilitiesToScores probabilities))"

section \<open>The model and the platform\<close>

text \<open>
  What the platform answers: the model it loads, a preprocessed picture, the scores of a
  picture, the frames of a video; \<open>nf_rejected\<close> says which of several rejections comes first.
\<close>

record ('m, 'x) nsfw_platform =
  nf_loadModel :: "js_error + 'm"
  nf_preprocessImage :: "string \<Rightarrow> js_error + 'x"
  nf_runInference :: "'m \<Rightarrow> 'x \<Rightarrow> js_error + raw_scores"
  nf_extractVideoFrames :: "string \<Rightarrow> video_options option \<Rightarrow> js_error + extracted_frame list"
  nf_rejected :: "js_error list \<Rightarrow> js_error"
  nf_loadTimeMs :: int

record 'm nsfw_env = env +
  ne_cachedModel :: "'m option"

definition on_platform :: "js_error + 'a \<Rightarrow> ('s, js_error, 'a) io" where
  "on_platform r = (\<lambda>s. (r, s))"

lemma on_platform_simp [io_simps]: "on_platform r s = (r, s)"
  by (simp add: on_platform_def)

definition loadModel :: "('m, 'x) nsfw_platform \<Rightarrow> ('m nsfw_env, js_error, 'm) io" where
  "loadModel pf = io_bind (io_gets ne_cachedModel) (\<lambda>cached. case cached of
     Some model \<Rightarrow> io_return model
   | None \<Rightarrow> io_bind (on_platform (nf_loadModel pf)) (\<lambda>model.
       io_then (io_modify (\<lambda>s. s\<lparr>ne_cachedModel := Some model\<rparr>))
       (io_then (emit_log LInfo ''NSFW model loaded'' ''nsfw-detection'' [(''loadTimeMs'', JNum (nf_loadTimeMs pf))])
        (io_return model))))"

definition resetModelCache :: "('m nsfw_env, js_error, unit) io" where
  "resetModelCache = io_modify (\<lambda>s. s\<lparr>ne_cachedModel := None\<rparr>)"

definition logged_failure :: "string \<Rightarrow> ('m nsfw_env, js_error, 'a) io \<Rightarrow> ('m nsfw_env, js_error, 'a) io" where
  "logged_failure msg m = io_catch m (\<lambda>e.
     io_then (emit_log LError msg ''nsfw-detection'' [(''error'', of_opt JStr (err_message e))]) (io_throw e))"

definition checkMediaSafety :: "('m, 'x) nsfw_platform \<Rightarrow> string \<Rightarrow> ('m nsfw_env, js_error, safety_result) io" where
  "checkMediaSafety pf uri =
     (if uri = [] then io_throw (JsErr (Some ''URI is required for safety check''))
      else logged_failure ''Media safety check failed''
        (io_bind (loadModel pf) (\<lambda>model.
         io_bind (on_platform (nf_preprocessImage pf uri)) (\<lambda>preprocessed.
         io_bind (on_platform (nf_runInference pf model preprocessed)) (\<lambda>scores.
         io_return (mapScoresToCategories scores))))))"

section \<open>The verdict on a video\<close>

definition computeWorstPerCategory :: "frame_result list \<Rightarrow> safety_category list" where
  "computeWorstPerCategory frameResults = map (\<lambda>(label, threshold).
     let worst = (case map (\<lambda>r. score_of (fr_scores r) label) frameResults of
                    [] \<Rightarrow> Some 0 | s # ss \<Rightarrow> math_max s ss)
     in \<lparr>ct_label = label, ct_confidence = worst, ct_isAboveThreshold = at_least worst threshold\<rparr>)
     DEFAULT_THRESHOLDS"

definition some_above :: "safety_category list \<Rightarrow> bool" where
  "some_above categories = list_ex ct_isAboveThreshold categories"

definition findFlaggedFrames :: "frame_result list \<Rightarrow> nat list" where
  "findFlaggedFrames frameResults = map fr_frameIndex (filter (\<lambda>r. some_above (fr_categories r)) frameResults)"

definition aggregateFrameResults :: "frame_result list \<Rightarrow> nat \<Rightarrow> frame_detail list \<Rightarrow> video_result" where
  "aggregateFrameResults frameResults totalFramesRequested frames =
     (let categories = computeWorstPerCategory frameResults;
          flaggedFrameIndices = findFlaggedFrames frameResults
      in \<lparr>vr_isSafe = list_all (\<lambda>c. \<not> ct_isAboveThreshold c) categories,
          vr_categories = categories,
          vr_framesAnalyzed = length frameResults,
          vr_totalFramesRequested = totalFramesRequested,
          vr_flaggedFrameIndices = flaggedFrameIndices,
          vr_frames = frames\<rparr>)"

definition buildFrameDetails :: "extracted_frame list \<Rightarrow> frame_result list \<Rightarrow> frame_detail list" where
  "buildFrameDetails frames results = map (\<lambda>r.
     \<lparr>fd_index = fr_frameIndex r,
      fd_uri = (if fr_frameIndex r < length frames then ef_uri (frames ! fr_frameIndex r) else []),
      fd_scores = fr_scores r, fd_categories = fr_categories r\<rparr>) results"

text \<open>\<^verbatim>\<open>Promise.all\<close>: every value, or the rejection that comes first.\<close>

definition promise_all :: "(js_error list \<Rightarrow> js_error) \<Rightarrow> (js_error + 'a) list \<Rightarrow> js_error + 'a list" where
  "promise_all rejected rs =
     (case [e. Inl e \<leftarrow> rs] of [] \<Rightarrow> Inr [a. Inr a \<leftarrow> rs] | e # es \<Rightarrow> Inl (rejected (e # es)))"

text \<open>The loop of \<^verbatim>\<open>analyzeFrames\<close>, with the results so far.\<close>

fun analyze_loop ::
  "('x \<Rightarrow> js_error + raw_scores) \<Rightarrow> bool \<Rightarrow> (extracted_frame \<times> 'x) list \<Rightarrow> frame_result list \<Rightarrow>
   js_error + frame_result list" where
  "analyze_loop infer shouldEarlyExit [] results = Inr results"
| "analyze_loop infer shouldEarlyExit ((frame, x) # rest) results = (case infer x of
     Inl e \<Rightarrow> Inl e
   | Inr scores \<Rightarrow>
       (let categories = sr_categories (mapScoresToCategories scores);
            results' = results @ [\<lparr>fr_frameIndex = ef_index frame, fr_scores = scores, fr_categories = categories\<rparr>]
        in if shouldEarlyExit \<and> some_above categories then Inr results'
           else analyze_loop infer shouldEarlyExit rest results'))"

definition early_exit :: "video_options option \<Rightarrow> bool" where
  "early_exit options = (case options of None \<Rightarrow> True
     | Some opts \<Rightarrow> (case vo_earlyExit opts of None \<Rightarrow> True | Some b \<Rightarrow> b))"

definition analyzeFrames ::
  "('m, 'x) nsfw_platform \<Rightarrow> 'm \<Rightarrow> extracted_frame list \<Rightarrow> video_options option \<Rightarrow> js_error + frame_result list" where
  "analyzeFrames pf model frames options =
     (case promise_all (nf_rejected pf) (map (\<lambda>f. nf_preprocessImage pf (ef_uri f)) frames) of
        Inl e \<Rightarrow> Inl e
      | Inr preprocessed \<Rightarrow>
          analyze_loop (nf_runInference pf model) (early_exit options) (zip frames preprocessed) [])"

definition checkVideoSafety ::
  "('m, 'x) nsfw_platform \<Rightarrow> string \<Rightarrow> video_options option \<Rightarrow> ('m nsfw_env, js_error, video_result) io" where
  "checkVideoSafety pf uri options =
     (if uri = [] then io_throw (JsErr (Some ''URI is required for safety check''))
      else logged_failure ''Video safety check failed''
        (io_bind (loadModel pf) (\<lambda>model.
         io_bind (on_platform (nf_extractVideoFrames pf uri options)) (\<lambda>frames.
         io_bind (on_platform (analyzeFrames pf model frames options)) (\<lambda>frameResults.
         io_return (aggregateFrameResults frameResults (length frames)
           (buildFrameDetails frames frameResults)))))))"

section \<open>The frames of a video\<close>

text \<open>
  \<^verbatim>\<open>react-native-create-thumbnail\<close> is a parameter: the path of a thumbnail, or an error. On the
  web the parameters are the duration of the video in seconds (None when it does not load), the
  picture at an instant, and the numbers that \<^verbatim>\<open>Math.random\<close> gives.
\<close>

record thumbnail_config =
  tn_url :: string
  tn_timeStamp :: int
  tn_format :: string
  tn_maxWidth :: int
  tn_maxHeight :: int
  tn_timeToleranceMs :: int
  tn_onlySyncedFrames :: bool

definition frame_count :: "video_options option \<Rightarrow> int" where
  "frame_count options = (case Option.bind options vo_frameCount of None \<Rightarrow> 5 | Some n \<Rightarrow> n)"

definition spaced_timestamps :: "int \<Rightarrow> rat \<Rightarrow> int list" where
  "spaced_timestamps count durationMs =
     (let step = durationMs / (of_int count + 1)
      in map (\<lambda>i. \<lfloor>step * (of_nat i + 1)\<rfloor>) [0..<nat count])"

definition native_computeTimestamps :: "int \<Rightarrow> rat option \<Rightarrow> int list" where
  "native_computeTimestamps count durationMs =
     (if durationMs = None \<or> durationMs = Some 0 then map (\<lambda>i. int i * 2000) [0..<nat count]
      else spaced_timestamps count (the durationMs))"

definition toFilePath :: "string \<Rightarrow> string" where
  "toFilePath uri = (if prefix ''file://'' uri then drop 7 uri else uri)"

definition captureFramesAtTimestamps ::
  "(thumbnail_config \<Rightarrow> js_error + string) \<Rightarrow> string \<Rightarrow> int list \<Rightarrow> js_error + extracted_frame list" where
  "captureFramesAtTimestamps createThumbnail uri timestamps =
     (let results = map (\<lambda>(i, ts). case createThumbnail
              \<lparr>tn_url = toFilePath uri, tn_timeStamp = ts, tn_format = ''jpeg'', tn_maxWidth = 1080,
               tn_maxHeight = 1080, tn_timeToleranceMs = 100, tn_onlySyncedFrames = False\<rparr> of
            Inl e \<Rightarrow> Inl e
          | Inr path \<Rightarrow> Inr \<lparr>ef_uri = path, ef_timestampMs = ts, ef_index = i\<rparr>)
          (List.enumerate 0 timestamps);
          frames = [f. Inr f \<leftarrow> results]
      in if frames = [] then Inl (JsErr (Some ''Failed to extract any frames from video'')) else Inr frames)"

definition native_extractVideoFrames ::
  "(thumbnail_config \<Rightarrow> js_error + string) \<Rightarrow> string \<Rightarrow> video_options option \<Rightarrow> js_error + extracted_frame list" where
  "native_extractVideoFrames createThumbnail uri options =
     captureFramesAtTimestamps createThumbnail uri
       (native_computeTimestamps (frame_count options) (Option.bind options vo_durationMs))"

definition web_computeTimestamps :: "(nat \<Rightarrow> rat) \<Rightarrow> rat \<Rightarrow> int \<Rightarrow> sampling_strategy \<Rightarrow> int list" where
  "web_computeTimestamps random durationMs count strategy =
     (if strategy = Random then map (\<lambda>i. \<lfloor>random i * durationMs\<rfloor>) [0..<nat count]
      else spaced_timestamps count durationMs)"

fun captureFrames ::
  "(int \<Rightarrow> js_error + string) \<Rightarrow> (nat \<times> int) list \<Rightarrow> extracted_frame list \<Rightarrow> js_error + extracted_frame list" where
  "captureFrames seekAndCapture [] frames = Inr frames"
| "captureFrames seekAndCapture ((i, ts) # rest) frames = (case seekAndCapture ts of
     Inl e \<Rightarrow> Inl e
   | Inr dataUrl \<Rightarrow> captureFrames seekAndCapture rest
       (frames @ [\<lparr>ef_uri = dataUrl, ef_timestampMs = ts, ef_index = i\<rparr>]))"

definition web_extractVideoFrames ::
  "(string \<Rightarrow> rat option) \<Rightarrow> (string \<Rightarrow> int \<Rightarrow> js_error + string) \<Rightarrow> (nat \<Rightarrow> rat) \<Rightarrow> string \<Rightarrow>
   video_options option \<Rightarrow> js_error + extracted_frame list" where
  "web_extractVideoFrames duration seekAndCapture random uri options =
     (let count = frame_count options;
          strategy = (case Option.bind options vo_strategy of None \<Rightarrow> Uniform | Some st \<Rightarrow> st)
      in case duration uri of
           None \<Rightarrow> Inl (JsErr (Some (''Failed to load video: '' @ uri)))
         | Some seconds \<Rightarrow> captureFrames (seekAndCapture uri)
             (List.enumerate 0 (web_computeTimestamps random (seconds * 1000) count strategy)) [])"

section \<open>The URL of the model\<close>

text \<open>
  \<^verbatim>\<open>resolveModelUrl\<close> on the URI of the asset. The expression
  \<^verbatim>\<open>/^(https?:\/\/[^/]+)(\/[^?]*)?(\?.*)?$/\<close> is read greedily: the origin runs to the next
  slash, the path from there to the next question mark, the query to the end, where it may hold
  no line terminator; when it does, no other reading matches either.
\<close>

fun split_until :: "char \<Rightarrow> string \<Rightarrow> string \<times> string" where
  "split_until c [] = ([], [])"
| "split_until c (d # ds) = (if d = c then ([], d # ds) else (case split_until c ds of (a, b) \<Rightarrow> (d # a, b)))"

definition match_model_url :: "string \<Rightarrow> (string \<times> string option \<times> string) option" where
  "match_model_url uri =
     (case (if prefix ''http://'' uri then Some (''http://'', drop 7 uri)
            else if prefix ''https://'' uri then Some (''https://'', drop 8 uri) else None) of
        None \<Rightarrow> None
      | Some (scheme, rest) \<Rightarrow>
          (case split_until (CHR ''/'') rest of (host, path_query) \<Rightarrow>
            (case split_until (CHR ''?'') path_query of (path, query) \<Rightarrow>
              if host = [] \<or> list_ex (\<lambda>c. c = CHR 0x0A \<or> c = CHR 0x0D) query then None
              else Some (scheme @ host, if path_query = [] then None else Some path, query))))"

fun normalize_segments :: "string list \<Rightarrow> string list \<Rightarrow> string list" where
  "normalize_segments [] segments = segments"
| "normalize_segments (seg # rest) segments =
     normalize_segments rest
       (if seg = ''..'' then butlast segments
        else if seg \<noteq> [] \<and> seg \<noteq> ''.'' then segments @ [seg] else segments)"

definition resolveModelUrl :: "string \<Rightarrow> string" where
  "resolveModelUrl uri = (case match_model_url uri of
     None \<Rightarrow> uri
   | Some (origin, rawPath, query) \<Rightarrow>
       origin @ ''/'' @ join_with ''/''
         (normalize_segments (split_on (CHR ''/'') (case rawPath of None \<Rightarrow> ''/'' | Some p \<Rightarrow> p)) []) @ query)"

section \<open>The two platforms\<close>

definition native_nsfw_platform ::
  "(string \<Rightarrow> js_error + 'm) \<Rightarrow> (string \<Rightarrow> js_error + 8 word list \<times> nat \<times> nat) \<Rightarrow>
   ('m \<Rightarrow> preprocessed_image \<Rightarrow> js_error + score list list) \<Rightarrow>
   (thumbnail_config \<Rightarrow> js_error + string) \<Rightarrow> string \<Rightarrow> (js_error list \<Rightarrow> js_error) \<Rightarrow> int \<Rightarrow>
   ('m, preprocessed_image) nsfw_platform" where
  "native_nsfw_platform loadTensorflowModel decoded run createThumbnail asset rejected ms =
     \<lparr>nf_loadModel = loadTensorflowModel (resolveModelUrl asset),
      nf_preprocessImage = native_preprocessImage decoded,
      nf_runInference = native_runInference run,
      nf_extractVideoFrames = native_extractVideoFrames createThumbnail,
      nf_rejected = rejected, nf_loadTimeMs = ms\<rparr>"

definition web_nsfw_platform ::
  "(string \<Rightarrow> js_error + 'm) \<Rightarrow> (string \<Rightarrow> 'img option) \<Rightarrow> ('img \<Rightarrow> 8 word list) option \<Rightarrow>
   ('m \<Rightarrow> preprocessed_image \<Rightarrow> js_error + score list) \<Rightarrow> (string \<Rightarrow> rat option) \<Rightarrow>
   (string \<Rightarrow> int \<Rightarrow> js_error + string) \<Rightarrow> (nat \<Rightarrow> rat) \<Rightarrow> (js_error list \<Rightarrow> js_error) \<Rightarrow> int \<Rightarrow>
   ('m, preprocessed_image) nsfw_platform" where
  "web_nsfw_platform loadGraphModel loaded drawn predict duration seekAndCapture random rejected ms =
     \<lparr>nf_loadModel = loadGraphModel ''/models/nsfw-mobilenet/model.json'',
      nf_preprocessImage = web_preprocessImage loaded drawn,
      nf_runInference = web_runInference predict,
      nf_extractVideoFrames = web_extractVideoFrames duration seekAndCapture random,
      nf_rejected = rejected, nf_loadTimeMs = ms\<rparr>"

section \<open>A video is safe when each analysed frame is\<close>

definition numeric :: "raw_scores \<Rightarrow> bool" where
  "numeric sc \<longleftrightarrow> score_of sc Explicit \<noteq> None \<and> score_of sc Suggestive \<noteq> None \<and>
     score_of sc Violence \<noteq> None \<and> score_of sc Hate \<noteq> None"

lemma numericD: "numeric sc \<Longrightarrow> score_of sc label \<noteq> None"
  by (cases label) (auto simp: numeric_def)

lemma at_least_math_max:
  assumes "list_all (\<lambda>s. s \<noteq> None) (a # ss)"
  shows "at_least (math_max a ss) t = list_ex (\<lambda>s. at_least s t) (a # ss) \<and> math_max a ss \<noteq> None"
  using assms
proof (induction ss arbitrary: a)
  case Nil
  then show ?case by simp
next
  case (Cons b ss)
  then obtain x y where "a = Some x" "b = Some y" by auto
  then show ?case
    using Cons.IH [of "max_score a b"] Cons.prems by (auto simp: max_score_def at_least_def)
qed

text \<open>A frame is flagged by the thresholds that its scores reach.\<close>

definition flagged :: "raw_scores \<Rightarrow> bool" where
  "flagged sc = some_above (sr_categories (mapScoresToCategories sc))"

lemma flagged_iff: "flagged sc = list_ex (\<lambda>(label, t). at_least (score_of sc label) t) DEFAULT_THRESHOLDS"
  by (simp add: flagged_def some_above_def mapScoresToCategories_def DEFAULT_THRESHOLDS_def Let_def)

lemma image_is_safe_iff: "sr_isSafe (mapScoresToCategories sc) = (\<not> flagged sc)"
  by (simp add: flagged_def some_above_def mapScoresToCategories_def Let_def list_ex_iff list_all_iff)

definition genuine :: "frame_result \<Rightarrow> bool" where
  "genuine r \<longleftrightarrow> numeric (fr_scores r) \<and> fr_categories r = sr_categories (mapScoresToCategories (fr_scores r))"

lemma worst_reaches:
  assumes "list_all genuine rs" "0 < t"
  shows "at_least (case map (\<lambda>r. score_of (fr_scores r) label) rs of [] \<Rightarrow> Some 0 | s # ss \<Rightarrow> math_max s ss) t =
         list_ex (\<lambda>r. at_least (score_of (fr_scores r) label) t) rs"
proof (cases rs)
  case Nil
  with assms(2) show ?thesis by (simp add: at_least_def)
next
  case (Cons r rest)
  have "list_all (\<lambda>s. s \<noteq> None) (map (\<lambda>r. score_of (fr_scores r) label) (r # rest))"
    using assms(1) Cons by (auto simp: list_all_iff genuine_def dest: numericD)
  from at_least_math_max [OF this [unfolded list.map], of t] Cons show ?thesis
    by (simp add: list_ex_iff)
qed

lemma video_is_safe_iff_no_frame_is_flagged:
  assumes "list_all genuine rs"
  shows "vr_isSafe (aggregateFrameResults rs n ds) = (vr_flaggedFrameIndices (aggregateFrameResults rs n ds) = [])"
proof -
  let ?worst = "\<lambda>label. case map (\<lambda>r. score_of (fr_scores r) label) rs of [] \<Rightarrow> Some 0 | s # ss \<Rightarrow> math_max s ss"
  have "vr_isSafe (aggregateFrameResults rs n ds) =
        (\<not> list_ex (\<lambda>(label, t). at_least (?worst label) t) DEFAULT_THRESHOLDS)"
    by (simp add: aggregateFrameResults_def computeWorstPerCategory_def Let_def DEFAULT_THRESHOLDS_def)
  also have "list_ex (\<lambda>(label, t). at_least (?worst label) t) DEFAULT_THRESHOLDS =
             list_ex (\<lambda>(label, t). list_ex (\<lambda>r. at_least (score_of (fr_scores r) label) t) rs) DEFAULT_THRESHOLDS"
    using worst_reaches [OF assms] by (simp add: DEFAULT_THRESHOLDS_def del: score_of.simps)
  also have "\<dots> = list_ex (\<lambda>r. flagged (fr_scores r)) rs"
    by (auto simp: flagged_iff list_ex_iff)
  also have "\<dots> = list_ex (\<lambda>r. some_above (fr_categories r)) rs"
    using assms by (auto simp: list_ex_iff list_all_iff genuine_def flagged_def)
  also have "(\<not> \<dots>) = (vr_flaggedFrameIndices (aggregateFrameResults rs n ds) = [])"
    by (simp add: aggregateFrameResults_def findFlaggedFrames_def Let_def filter_empty_conv list_ex_iff)
  finally show ?thesis .
qed

section \<open>Stopping early does not change the verdict\<close>

lemma analyze_loop_append:
  "analyze_loop infer early xs results = map_sum id (append results) (analyze_loop infer early xs [])"
proof (induction xs arbitrary: results)
  case Nil
  then show ?case by simp
next
  case (Cons x xs)
  obtain frame y where x: "x = (frame, y)" by (cases x)
  show ?case
  proof (cases "infer y")
    case (Inl e)
    with x show ?thesis by simp
  next
    case (Inr sc)
    show ?thesis
      using Cons.IH [of "results @ [\<lparr>fr_frameIndex = ef_index frame, fr_scores = sc,
          fr_categories = sr_categories (mapScoresToCategories sc)\<rparr>]"]
        Cons.IH [of "[\<lparr>fr_frameIndex = ef_index frame, fr_scores = sc,
          fr_categories = sr_categories (mapScoresToCategories sc)\<rparr>]"]
      by (simp add: x Inr Let_def sum.map_comp comp_def)
  qed
qed

lemma analyze_loop_genuine:
  assumes "analyze_loop infer early xs [] = Inr rs" "\<And>x sc. infer x = Inr sc \<Longrightarrow> numeric sc"
  shows "list_all genuine rs"
  using assms(1)
proof (induction xs arbitrary: rs)
  case Nil
  then show ?case by simp
next
  case (Cons x xs)
  obtain frame y where x: "x = (frame, y)" by (cases x)
  show ?case
  proof (cases "infer y")
    case (Inl e)
    with Cons.prems x show ?thesis by simp
  next
    case (Inr sc)
    let ?r = "\<lparr>fr_frameIndex = ef_index frame, fr_scores = sc, fr_categories = sr_categories (mapScoresToCategories sc)\<rparr>"
    have g: "genuine ?r" using assms(2) [OF Inr] by (simp add: genuine_def)
    show ?thesis
      using Cons.prems Cons.IH g analyze_loop_append [of infer early xs "[?r]"]
      by (cases "analyze_loop infer early xs []") (auto simp: x Inr Let_def split: if_splits)
  qed
qed

lemma early_exit_stops_at_the_first_flag:
  assumes "analyze_loop infer False xs [] = Inr full"
  shows "\<exists>quick. analyze_loop infer True xs [] = Inr quick \<and> findFlaggedFrames quick = take 1 (findFlaggedFrames full)"
  using assms
proof (induction xs arbitrary: full)
  case Nil
  then show ?case by (simp add: findFlaggedFrames_def)
next
  case (Cons x xs)
  obtain frame y where x: "x = (frame, y)" by (cases x)
  show ?case
  proof (cases "infer y")
    case (Inl e)
    with Cons.prems x show ?thesis by simp
  next
    case (Inr sc)
    let ?r = "\<lparr>fr_frameIndex = ef_index frame, fr_scores = sc, fr_categories = sr_categories (mapScoresToCategories sc)\<rparr>"
    obtain rest where rest: "analyze_loop infer False xs [] = Inr rest" and full: "full = ?r # rest"
      using Cons.prems analyze_loop_append [of infer False xs "[?r]"]
      by (cases "analyze_loop infer False xs []") (auto simp: x Inr Let_def)
    from Cons.IH [OF rest] obtain q where q: "analyze_loop infer True xs [] = Inr q"
      "findFlaggedFrames q = take 1 (findFlaggedFrames rest)" by blast
    show ?thesis
    proof (cases "some_above (sr_categories (mapScoresToCategories sc))")
      case True
      then show ?thesis
        by (simp add: x Inr Let_def full findFlaggedFrames_def)
    next
      case False
      then show ?thesis
        using q analyze_loop_append [of infer True xs "[?r]"]
        by (simp add: x Inr Let_def full findFlaggedFrames_def)
    qed
  qed
qed

text \<open>What a check of a video that succeeds went through.\<close>

lemma checkVideoSafety_Inr:
  assumes "fst (checkVideoSafety pf uri options s) = Inr r"
  obtains model frames rs where "uri \<noteq> []" "fst (loadModel pf s) = Inr model"
    "nf_extractVideoFrames pf uri options = Inr frames" "analyzeFrames pf model frames options = Inr rs"
    "r = aggregateFrameResults rs (length frames) (buildFrameDetails frames rs)"
  using assms
  by (auto simp: checkVideoSafety_def logged_failure_def io_simps emit_log_simp
      split: if_splits prod.splits sum.splits)

lemma checkVideoSafety_succeeds:
  assumes "uri \<noteq> []" "fst (loadModel pf s) = Inr model" "nf_extractVideoFrames pf uri options = Inr frames"
    and "analyzeFrames pf model frames options = Inr rs"
  shows "fst (checkVideoSafety pf uri options s) =
         Inr (aggregateFrameResults rs (length frames) (buildFrameDetails frames rs))"
  using assms
  by (auto simp: checkVideoSafety_def logged_failure_def io_simps emit_log_simp
      split: prod.splits sum.splits)

lemma early_exit_on_a_platform:
  assumes "\<And>m x sc. nf_runInference pf m x = Inr sc \<Longrightarrow> numeric sc"
    and "\<And>b. nf_extractVideoFrames pf uri (Some (opts\<lparr>vo_earlyExit := b\<rparr>)) =
              nf_extractVideoFrames pf uri (Some opts)"
    and "fst (checkVideoSafety pf uri (Some (opts\<lparr>vo_earlyExit := Some False\<rparr>)) s) = Inr full"
  shows "\<exists>quick. fst (checkVideoSafety pf uri (Some (opts\<lparr>vo_earlyExit := Some True\<rparr>)) s) = Inr quick \<and>
           vr_isSafe quick = vr_isSafe full \<and>
           vr_flaggedFrameIndices quick = take 1 (vr_flaggedFrameIndices full)"
proof -
  obtain model frames rs where run: "uri \<noteq> []" "fst (loadModel pf s) = Inr model"
    "nf_extractVideoFrames pf uri (Some opts) = Inr frames"
    "analyzeFrames pf model frames (Some (opts\<lparr>vo_earlyExit := Some False\<rparr>)) = Inr rs"
    "full = aggregateFrameResults rs (length frames) (buildFrameDetails frames rs)"
    using assms(3) by (rule checkVideoSafety_Inr) (simp add: assms(2))
  then obtain pre where pre: "promise_all (nf_rejected pf) (map (\<lambda>f. nf_preprocessImage pf (ef_uri f)) frames) = Inr pre"
    and loop: "analyze_loop (nf_runInference pf model) False (zip frames pre) [] = Inr rs"
    by (auto simp: analyzeFrames_def early_exit_def split: sum.splits)
  from early_exit_stops_at_the_first_flag [OF loop] obtain qs where
    qs: "analyze_loop (nf_runInference pf model) True (zip frames pre) [] = Inr qs"
    "findFlaggedFrames qs = take 1 (findFlaggedFrames rs)" by blast
  have quick: "analyzeFrames pf model frames (Some (opts\<lparr>vo_earlyExit := Some True\<rparr>)) = Inr qs"
    using pre qs(1) by (simp add: analyzeFrames_def early_exit_def)
  have genuine: "list_all genuine rs" "list_all genuine qs"
    using analyze_loop_genuine [OF loop assms(1)] analyze_loop_genuine [OF qs(1) assms(1)] by simp_all
  have indices: "vr_flaggedFrameIndices (aggregateFrameResults zs n ds) = findFlaggedFrames zs" for zs n ds
    by (simp add: aggregateFrameResults_def Let_def)
  have "(findFlaggedFrames qs = []) = (findFlaggedFrames rs = [])" by (simp add: qs(2) take_eq_Nil)
  then show ?thesis
    using checkVideoSafety_succeeds [where options = "Some (opts\<lparr>vo_earlyExit := Some True\<rparr>)", OF run(1,2) _ quick]
      video_is_safe_iff_no_frame_is_flagged [OF genuine(1)] video_is_safe_iff_no_frame_is_flagged [OF genuine(2)]
    by (simp add: assms(2) run(3,5) indices qs(2))
qed

lemma named_scores_at:
  "named_scores absent outs ''hentai'' = (if 1 < length outs then outs ! 1 else absent)"
  "named_scores absent outs ''porn'' = (if 3 < length outs then outs ! 3 else absent)"
  "named_scores absent outs ''sexy'' = (if 4 < length outs then outs ! 4 else absent)"
  by (simp_all add: named_scores_def NSFWJS_CLASSES_def upt_rec numeral_eq_Suc del: not_less)

lemma numeric_outputs:
  assumes "list_all (\<lambda>s. s \<noteq> None) outs"
  shows "numeric (mapOutputToScores outs)"
proof -
  have "i < length outs \<Longrightarrow> \<exists>v. outs ! i = Some v" for i
    using assms by (auto simp: list_all_length)
  from this [of 1] this [of 3] this [of 4] show ?thesis
    by (auto simp add: numeric_def mapOutputToScores_def scores_of_outputs_def named_scores_at max_score_def)
qed

text \<open>
  C31. On the native platform, when the outputs of the model are numbers, leaving the loop over the frames at
  the first flagged frame gives the same verdict as looking at all of them: the video is safe in one reading exactly
  if it is in the other, and the flagged frames that are reported are the first one of all.
\<close>

theorem early_exit_keeps_the_verdict:
  assumes "\<And>m x outs. run m x = Inr outs \<Longrightarrow> list_all (list_all (\<lambda>s. s \<noteq> None)) outs"
    and "pf = native_nsfw_platform load decoded run thumb asset rejected ms"
    and "fst (checkVideoSafety pf uri (Some (opts\<lparr>vo_earlyExit := Some False\<rparr>)) s) = Inr full"
  shows "\<exists>quick. fst (checkVideoSafety pf uri (Some (opts\<lparr>vo_earlyExit := Some True\<rparr>)) s) = Inr quick \<and>
           vr_isSafe quick = vr_isSafe full \<and>
           vr_flaggedFrameIndices quick = take 1 (vr_flaggedFrameIndices full)"
proof (rule early_exit_on_a_platform [OF _ _ assms(3)])
  fix m x sc
  assume "nf_runInference pf m x = Inr sc"
  then obtain out rest where "run m x = Inr (out # rest)" "sc = mapOutputToScores out"
    by (auto simp: assms(2) native_nsfw_platform_def native_runInference_def split: sum.splits list.splits)
  with assms(1) [of m x "out # rest"] show "numeric sc" by (auto intro: numeric_outputs)
next
  fix b
  show "nf_extractVideoFrames pf uri (Some (opts\<lparr>vo_earlyExit := b\<rparr>)) = nf_extractVideoFrames pf uri (Some opts)"
    by (simp add: assms(2) native_nsfw_platform_def native_extractVideoFrames_def frame_count_def)
qed

text \<open>A platform on which every frame scores 9/10 for the second class.\<close>

definition sample_nsfw_platform :: "(unit, preprocessed_image) nsfw_platform" where
  "sample_nsfw_platform = native_nsfw_platform (\<lambda>_. Inr ()) (\<lambda>_. Inr ([], 1, 1))
     (\<lambda>_ _. Inr [[Some 0, Some (9 / 10), Some 0, Some 0, Some 0]]) (\<lambda>c. Inr (tn_url c)) ''m'' hd 3"

definition sample_video_options :: video_options where
  "sample_video_options = \<lparr>vo_frameCount = Some 2, vo_strategy = None, vo_earlyExit = None, vo_durationMs = Some 900\<rparr>"

lemma sample_full_check:
  "\<exists>full. fst (checkVideoSafety sample_nsfw_platform ''v'' (Some (sample_video_options\<lparr>vo_earlyExit := Some False\<rparr>))
     \<lparr>env_now = 0, env_log = [], ne_cachedModel = Some ()\<rparr>) = Inr full \<and>
     \<not> vr_isSafe full \<and> vr_flaggedFrameIndices full = [0, 1]"
  by (simp add: checkVideoSafety_def logged_failure_def loadModel_def io_simps sample_nsfw_platform_def
      native_nsfw_platform_def native_extractVideoFrames_def native_computeTimestamps_def spaced_timestamps_def
      sample_video_options_def frame_count_def captureFramesAtTimestamps_def toFilePath_def Let_def
      analyzeFrames_def promise_all_def native_preprocessImage_def fetchAndDecode_def early_exit_def
      native_runInference_def mapOutputToScores_def scores_of_outputs_def named_scores_at max_score_def
      mapScoresToCategories_def DEFAULT_THRESHOLDS_def at_least_def some_above_def aggregateFrameResults_def
      computeWorstPerCategory_def findFlaggedFrames_def upt_rec)

theorem early_exit_keeps_the_verdict_witness:
  "\<exists>quick. fst (checkVideoSafety sample_nsfw_platform ''v'' (Some (sample_video_options\<lparr>vo_earlyExit := Some True\<rparr>))
     \<lparr>env_now = 0, env_log = [], ne_cachedModel = Some ()\<rparr>) = Inr quick \<and>
     \<not> vr_isSafe quick \<and> vr_flaggedFrameIndices quick = [0]"
proof -
  from sample_full_check obtain full where full:
    "fst (checkVideoSafety sample_nsfw_platform ''v'' (Some (sample_video_options\<lparr>vo_earlyExit := Some False\<rparr>))
     \<lparr>env_now = 0, env_log = [], ne_cachedModel = Some ()\<rparr>) = Inr full"
    "\<not> vr_isSafe full" "vr_flaggedFrameIndices full = [0, 1]" by blast
  have "\<exists>quick. fst (checkVideoSafety sample_nsfw_platform ''v'' (Some (sample_video_options\<lparr>vo_earlyExit := Some True\<rparr>))
     \<lparr>env_now = 0, env_log = [], ne_cachedModel = Some ()\<rparr>) = Inr quick \<and> vr_isSafe quick = vr_isSafe full \<and>
     vr_flaggedFrameIndices quick = take 1 (vr_flaggedFrameIndices full)"
    by (rule early_exit_keeps_the_verdict [OF _ sample_nsfw_platform_def full(1)]) (auto simp del: not_None_eq)
  with full(2,3) show ?thesis by auto
qed

section \<open>Where the verdict goes wrong\<close>

text \<open>
  \<^verbatim>\<open>Math.max\<close> of scores one of which is not a number is not a number, and that is not above any
  threshold: a frame without a number hides the flagged frames from the verdict, though not from
  the list of flagged frames.
\<close>

lemma missing_output_hides_a_flagged_frame:
  fixes r
  defines "r outs i \<equiv> (let sc = mapProbabilitiesToScores outs
     in \<lparr>fr_frameIndex = i, fr_scores = sc, fr_categories = sr_categories (mapScoresToCategories sc)\<rparr>)"
  shows "vr_isSafe (aggregateFrameResults [r [Some 0, Some 1, Some 0, Some 0, Some 0] 0, r [] 1] 2 [])"
    and "vr_flaggedFrameIndices (aggregateFrameResults [r [Some 0, Some 1, Some 0, Some 0, Some 0] 0, r [] 1] 2 []) = [0]"
  by (simp_all add: r_def aggregateFrameResults_def computeWorstPerCategory_def findFlaggedFrames_def
      mapProbabilitiesToScores_def scores_of_outputs_def named_scores_at max_score_def mapScoresToCategories_def
      DEFAULT_THRESHOLDS_def at_least_def some_above_def Let_def)

text \<open>A video of which no frame is looked at is safe.\<close>

lemma no_frame_is_safe: "vr_isSafe (aggregateFrameResults [] n ds)"
  by (simp add: aggregateFrameResults_def computeWorstPerCategory_def DEFAULT_THRESHOLDS_def at_least_def Let_def)

text \<open>
  A frame keeps the index of its instant when an earlier one could not be extracted, and the
  details look its picture up by that index: they show the picture of a later frame, or none.
\<close>

lemma details_show_a_later_picture:
  assumes "frames = [\<lparr>ef_uri = ''b'', ef_timestampMs = 2000, ef_index = 1\<rparr>, \<lparr>ef_uri = ''c'', ef_timestampMs = 4000, ef_index = 2\<rparr>]"
    and "map fr_frameIndex rs = [1, 2]"
  shows "map fd_uri (buildFrameDetails frames rs) = [''c'', []]"
proof -
  from assms(2) obtain a b where "rs = [a, b]" "fr_frameIndex a = 1" "fr_frameIndex b = 2" by auto
  then show ?thesis by (simp add: buildFrameDetails_def assms(1))
qed

lemma dropped_frame_leaves_a_gap:
  assumes "\<And>c. thumb c = (if tn_timeStamp c = 0 then Inl e else Inr (if tn_timeStamp c = 2000 then ''b'' else ''c''))"
  shows "native_extractVideoFrames thumb uri (Some \<lparr>vo_frameCount = Some 3, vo_strategy = None, vo_earlyExit = None, vo_durationMs = None\<rparr>) =
    Inr [\<lparr>ef_uri = ''b'', ef_timestampMs = 2000, ef_index = 1\<rparr>, \<lparr>ef_uri = ''c'', ef_timestampMs = 4000, ef_index = 2\<rparr>]"
  by (simp add: native_extractVideoFrames_def captureFramesAtTimestamps_def native_computeTimestamps_def
      frame_count_def assms Let_def upt_rec)

section \<open>Loading and failing\<close>

text \<open>Once loaded the model is not loaded again, and a check of a picture that fails is logged.\<close>

lemma model_is_loaded_once:
  "fst (loadModel pf s) = Inr model \<Longrightarrow> loadModel pf' (snd (loadModel pf s)) = (Inr model, snd (loadModel pf s))"
  by (auto simp: loadModel_def io_simps emit_log_simp split: option.splits sum.splits)

lemma failed_media_check_is_logged:
  assumes "uri \<noteq> []" "fst (checkMediaSafety pf uri s) = Inl e"
  shows "last (env_log (snd (checkMediaSafety pf uri s))) =
    log_entry_of LError ''Media safety check failed'' ''nsfw-detection'' [(''error'', of_opt JStr (err_message e))]"
  using assms
  by (auto simp: checkMediaSafety_def logged_failure_def io_simps emit_log_simp split: prod.splits sum.splits)

section \<open>The instants lie within the video\<close>

lemma spaced_nth:
  "i < nat count \<Longrightarrow> spaced_timestamps count durationMs ! i = \<lfloor>durationMs / (of_int count + 1) * (of_nat i + 1)\<rfloor>"
  by (simp add: spaced_timestamps_def Let_def)

lemma spaced_within:
  assumes "0 < durationMs" "i < nat count"
  shows "0 \<le> spaced_timestamps count durationMs ! i" "of_int (spaced_timestamps count durationMs ! i) < durationMs"
proof -
  have c: "0 < count" "int i < count" using assms(2) by linarith+
  let ?d = "of_int count + 1 :: rat"
  let ?v = "durationMs / ?d * (of_nat i + 1)"
  have d: "0 < ?d" using c(1) by simp
  have ts: "spaced_timestamps count durationMs ! i = \<lfloor>?v\<rfloor>"
    using assms(2) by (rule spaced_nth)
  have "0 \<le> ?v" using assms(1) d by simp
  then show "0 \<le> spaced_timestamps count durationMs ! i" unfolding ts by simp
  have "of_int (int i + 1) < (of_int (count + 1) :: rat)" using c(2) by (simp only: of_int_less_iff)
  then have "of_nat i + 1 < ?d" by simp
  then have "durationMs * (of_nat i + 1) < durationMs * ?d" using assms(1) by (rule mult_strict_left_mono)
  then have "?v < durationMs" using d by (simp add: field_simps)
  then show "of_int (spaced_timestamps count durationMs ! i) < durationMs"
    unfolding ts by (meson le_less_trans of_int_floor_le)
qed

lemma spaced_mono:
  assumes "0 < durationMs" "i \<le> j" "j < nat count"
  shows "spaced_timestamps count durationMs ! i \<le> spaced_timestamps count durationMs ! j"
proof -
  have "0 \<le> durationMs / (of_int count + 1)" using assms by simp
  moreover have "(of_nat i + 1 :: rat) \<le> of_nat j + 1" using assms(2) by simp
  moreover have "i < nat count" using assms(2,3) by simp
  ultimately show ?thesis
    using assms(3) by (simp only: spaced_nth) (rule floor_mono, rule mult_left_mono)
qed

theorem timestamps_lie_within_the_video:
  assumes "0 < durationMs"
  shows "sorted (native_computeTimestamps count (Some durationMs)) \<and>
         list_all (\<lambda>ts. 0 \<le> ts \<and> of_int ts < durationMs) (native_computeTimestamps count (Some durationMs))"
proof -
  have ts: "native_computeTimestamps count (Some durationMs) = spaced_timestamps count durationMs"
    using assms by (simp add: native_computeTimestamps_def)
  have l: "length (spaced_timestamps count durationMs) = nat count"
    by (simp add: spaced_timestamps_def Let_def)
  show ?thesis
    unfolding ts sorted_iff_nth_mono list_all_length l
    using spaced_within [OF assms] spaced_mono [OF assms] by blast
qed

theorem timestamps_lie_within_the_video_witness:
  "native_computeTimestamps 3 (Some 8) = [2, 4, 6] \<and> list_all (\<lambda>ts. 0 \<le> ts \<and> ts < 8) (native_computeTimestamps 3 (Some 8))"
proof -
  have v: "native_computeTimestamps 3 (Some 8) = [2, 4, 6]"
    by (simp add: native_computeTimestamps_def spaced_timestamps_def upt_rec Let_def)
  with timestamps_lie_within_the_video [of 8 3] show ?thesis by simp
qed

text \<open>Without a duration the frames are two seconds apart, however short the video is.\<close>

lemma default_timestamps_ignore_the_length:
  "native_computeTimestamps 5 None = [0, 2000, 4000, 6000, 8000]"
  by (simp add: native_computeTimestamps_def upt_rec)

section \<open>The URL of the model is normalised once\<close>

lemma split_until_parts: "split_until c s = (takeWhile (\<lambda>d. d \<noteq> c) s, dropWhile (\<lambda>d. d \<noteq> c) s)"
  by (induction s) auto

definition plain_segment :: "string \<Rightarrow> bool" where
  "plain_segment seg \<longleftrightarrow> seg \<notin> {[], ''.'', ''..''} \<and> CHR ''/'' \<notin> set seg \<and> CHR ''?'' \<notin> set seg"

lemma normalize_plain:
  assumes "list_all (\<lambda>s. CHR ''/'' \<notin> set s \<and> CHR ''?'' \<notin> set s) xs" "list_all plain_segment segs"
  shows "list_all plain_segment (normalize_segments xs segs)"
  using assms
proof (induction xs arbitrary: segs)
  case Nil
  then show ?case by simp
next
  case (Cons x xs)
  have step: "list_all plain_segment
      (if x = ''..'' then butlast segs else if x \<noteq> [] \<and> x \<noteq> ''.'' then segs @ [x] else segs)"
    using Cons.prems by (auto simp: plain_segment_def list_all_iff dest: in_set_butlastD)
  show ?case
    using Cons.prems(1) Cons.IH [OF _ step] by simp
qed

lemma normalize_fixed: "list_all plain_segment xs \<Longrightarrow> normalize_segments xs segs = segs @ xs"
  by (induction xs arbitrary: segs) (auto simp: plain_segment_def)

lemma split_join_plain:
  assumes "list_all (\<lambda>x. sep \<notin> set x) xs" "xs \<noteq> []"
  shows "split_on sep (join_with [sep] xs) = xs"
proof -
  have word: "split_on sep (w @ sep # v) = w # split_on sep v" if "sep \<notin> set w" for w v
    using that by (induction w) auto
  have last: "split_on sep w = [w]" if "sep \<notin> set w" for w
    using that by (induction w) auto
  from assms show ?thesis
    by (induction "[sep]" xs rule: join_with.induct) (auto simp: word last)
qed

lemma chars_of_split_on: "w \<in> set (split_on sep s) \<Longrightarrow> set w \<subseteq> set s"
proof (induction s arbitrary: w)
  case Nil
  then show ?case by simp
next
  case (Cons c s)
  obtain v vs where v: "split_on sep s = v # vs" by (cases "split_on sep s") simp_all
  have "set u \<subseteq> set s" if "u \<in> set vs" for u using Cons.IH [of u] that v by auto
  moreover have "w = [] \<or> w = v \<or> w \<in> set vs \<or> w = c # v"
    using Cons.prems v by (auto split: if_splits)
  moreover have "set v \<subseteq> set s" using Cons.IH [of v] v by simp
  ultimately show ?case by auto
qed

lemma set_join_with: "set (join_with sep xs) \<subseteq> set sep \<union> \<Union> (set ` set xs)"
  by (induction sep xs rule: join_with.induct) auto

lemma match_model_url_parts:
  assumes "match_model_url uri = Some (origin, rawPath, query)"
  shows "\<exists>scheme host. (scheme = ''http://'' \<or> scheme = ''https://'') \<and> origin = scheme @ host \<and> host \<noteq> [] \<and>
    CHR ''/'' \<notin> set host \<and> \<not> list_ex (\<lambda>c. c = CHR 0x0A \<or> c = CHR 0x0D) query \<and>
    (query = [] \<or> hd query = CHR ''?'') \<and> (rawPath = None \<or> CHR ''?'' \<notin> set (the rawPath))"
proof -
  from assms obtain scheme rest where "scheme = ''http://'' \<or> scheme = ''https://''"
    and m: "(case split_until (CHR ''/'') rest of (host, path_query) \<Rightarrow>
            (case split_until (CHR ''?'') path_query of (path, query) \<Rightarrow>
              if host = [] \<or> list_ex (\<lambda>c. c = CHR 0x0A \<or> c = CHR 0x0D) query then None
              else Some (scheme @ host, if path_query = [] then None else Some path, query))) =
           Some (origin, rawPath, query)"
    unfolding match_model_url_def by (auto split: if_splits)
  moreover define host where "host = takeWhile (\<lambda>d. d \<noteq> CHR ''/'') rest"
  moreover define pq where "pq = dropWhile (\<lambda>d. d \<noteq> CHR ''/'') rest"
  ultimately have o: "scheme = ''http://'' \<or> scheme = ''https://''" "origin = scheme @ host" "host \<noteq> []"
    "\<not> list_ex (\<lambda>c. c = CHR 0x0A \<or> c = CHR 0x0D) query" "query = dropWhile (\<lambda>d. d \<noteq> CHR ''?'') pq"
    "rawPath = None \<or> rawPath = Some (takeWhile (\<lambda>d. d \<noteq> CHR ''?'') pq)"
    by (simp_all add: split_until_parts split: if_splits)
  have h: "CHR ''/'' \<notin> set host" by (auto simp: host_def dest: set_takeWhileD)
  have "CHR ''?'' \<notin> set (takeWhile (\<lambda>d. d \<noteq> CHR ''?'') pq)" by (auto dest: set_takeWhileD)
  with o(6) have r: "rawPath = None \<or> CHR ''?'' \<notin> set (the rawPath)" by (elim disjE) simp_all
  have "query = [] \<or> hd query = CHR ''?''"
    using hd_dropWhile [of "\<lambda>d. d \<noteq> CHR ''?''" pq] unfolding o(5) by blast
  with o(1-4) h r show ?thesis by blast
qed

lemma split_until_at: "c \<notin> set a \<Longrightarrow> b = [] \<or> hd b = c \<Longrightarrow> split_until c (a @ b) = (a, b)"
  by (induction a) (cases b; auto)+

lemma match_model_url_made:
  assumes "scheme = ''http://'' \<or> scheme = ''https://''" "host \<noteq> []" "CHR ''/'' \<notin> set host"
    and "\<not> list_ex (\<lambda>c. c = CHR 0x0A \<or> c = CHR 0x0D) query" "query = [] \<or> hd query = CHR ''?''"
    and "CHR ''?'' \<notin> set path"
  shows "match_model_url ((scheme @ host) @ ''/'' @ path @ query) = Some (scheme @ host, Some (CHR ''/'' # path), query)"
proof -
  have "split_until (CHR ''/'') (host @ CHR ''/'' # path @ query) = (host, CHR ''/'' # path @ query)"
    using assms(3) by (simp add: split_until_at)
  moreover have "split_until (CHR ''?'') (path @ query) = (path, query)"
    using assms(5,6) by (simp add: split_until_at)
  ultimately show ?thesis
    using assms(1,2,4) by (auto simp: match_model_url_def)
qed

theorem model_url_is_normalised_once:
  "resolveModelUrl (resolveModelUrl uri) = resolveModelUrl uri"
proof (cases "match_model_url uri")
  case None
  then show ?thesis by (simp add: resolveModelUrl_def)
next
  case (Some m)
  obtain origin rawPath query where m: "m = (origin, rawPath, query)" by (cases m)
  from Some m have matched: "match_model_url uri = Some (origin, rawPath, query)" by simp
  define raw where "raw = (case rawPath of None \<Rightarrow> ''/'' | Some p \<Rightarrow> p)"
  define segs where "segs = normalize_segments (split_on (CHR ''/'') raw) []"
  from match_model_url_parts [OF matched] obtain scheme host where
    parts: "scheme = ''http://'' \<or> scheme = ''https://''" "origin = scheme @ host" "host \<noteq> []"
      "CHR ''/'' \<notin> set host" "\<not> list_ex (\<lambda>c. c = CHR 0x0A \<or> c = CHR 0x0D) query"
      "query = [] \<or> hd query = CHR ''?''"
    and no_query: "rawPath = None \<or> CHR ''?'' \<notin> set (the rawPath)"
    by blast
  have "CHR ''?'' \<notin> set raw" using no_query by (auto simp: raw_def split: option.splits)
  then have "list_all (\<lambda>x. CHR ''/'' \<notin> set x \<and> CHR ''?'' \<notin> set x) (split_on (CHR ''/'') raw)"
    using split_on_no_sep [of _ "CHR ''/''" raw] chars_of_split_on [of _ "CHR ''/''" raw]
    by (auto simp: list_all_iff)
  then have plain: "list_all plain_segment segs" unfolding segs_def by (rule normalize_plain) simp
  then have no: "CHR ''?'' \<notin> set (join_with ''/'' segs)"
    using set_join_with [of "''/''" segs] by (auto simp: list_all_iff plain_segment_def)
  have first: "resolveModelUrl uri = origin @ ''/'' @ join_with ''/'' segs @ query"
    by (simp add: resolveModelUrl_def matched segs_def raw_def)
  have again: "match_model_url (resolveModelUrl uri) = Some (origin, Some (CHR ''/'' # join_with ''/'' segs), query)"
    unfolding first parts(2) by (rule match_model_url_made [OF parts(1,3,4,5,6) no])
  have "normalize_segments (split_on (CHR ''/'') (CHR ''/'' # join_with ''/'' segs)) [] = segs"
  proof (cases "segs = []")
    case True
    then show ?thesis by simp
  next
    case False
    have "split_on (CHR ''/'') (join_with ''/'' segs) = segs"
      using plain False by (intro split_join_plain) (auto simp: list_all_iff plain_segment_def)
    then show ?thesis by (simp add: normalize_fixed [OF plain])
  qed
  then show ?thesis unfolding resolveModelUrl_def [of "resolveModelUrl uri"] again by (simp add: first)
qed

end
