(* ===== verification/WalletViews.thy ===== *)
theory WalletViews
  imports UploadInput KeyValueStorage
begin

text \<open>
  \<^verbatim>\<open>packages/wallet/src\<close>: the wallets the user sees, in a store of the process with one active
  wallet. The four actions check their argument, replace the list (or only the active wallet) and
  tell every listener once. \<open>wv_told\<close> lists the calls of listeners, in order.
\<close>

section \<open>The store\<close>

record wallet_view =
  wl_id :: string
  wl_name :: string
  wl_balance :: string
  wl_isMain :: bool

record 'l wallet_store =
  ws_walletViews :: "wallet_view list"
  ws_activeWalletViewId :: string
  ws_nextId :: nat
  ws_listeners :: "'l list"
  ws_told :: "'l list"

definition default_wallet :: wallet_view where
  "default_wallet = \<lparr>wl_id = ''1'', wl_name = ''ion.wallet'', wl_balance = ''$0.00'', wl_isMain = True\<rparr>"

definition initial_wallet_store :: "'l wallet_store" where
  "initial_wallet_store = \<lparr>ws_walletViews = [default_wallet], ws_activeWalletViewId = ''1'', ws_nextId = 2,
     ws_listeners = [], ws_told = []\<rparr>"

definition emitChange :: "'l wallet_store \<Rightarrow> 'l wallet_store" where
  "emitChange s = s\<lparr>ws_told := ws_told s @ ws_listeners s\<rparr>"

definition wallet_subscribe :: "'l \<Rightarrow> 'l wallet_store \<Rightarrow> 'l wallet_store" where
  "wallet_subscribe listener s = s\<lparr>ws_listeners := set_add listener (ws_listeners s)\<rparr>"

definition wallet_unsubscribe :: "'l \<Rightarrow> 'l wallet_store \<Rightarrow> 'l wallet_store" where
  "wallet_unsubscribe listener s = s\<lparr>ws_listeners := set_delete listener (ws_listeners s)\<rparr>"

definition getNextId :: "'l wallet_store \<Rightarrow> string \<times> 'l wallet_store" where
  "getNextId s = (nat_digits (ws_nextId s), s\<lparr>ws_nextId := ws_nextId s + 1\<rparr>)"

definition setWalletViews :: "wallet_view list \<Rightarrow> 'l wallet_store \<Rightarrow> 'l wallet_store" where
  "setWalletViews views s = emitChange (s\<lparr>ws_walletViews := views\<rparr>)"

definition setActiveWalletViewId :: "string \<Rightarrow> 'l wallet_store \<Rightarrow> 'l wallet_store" where
  "setActiveWalletViewId i s =
     (if ws_activeWalletViewId s = i then s else emitChange (s\<lparr>ws_activeWalletViewId := i\<rparr>))"

definition batchUpdate :: "wallet_view list \<Rightarrow> string \<Rightarrow> 'l wallet_store \<Rightarrow> 'l wallet_store" where
  "batchUpdate nextViews nextActiveId s =
     emitChange (s\<lparr>ws_walletViews := nextViews, ws_activeWalletViewId := nextActiveId\<rparr>)"

definition resetWalletViewStore :: "'l wallet_store \<Rightarrow> 'l wallet_store" where
  "resetWalletViewStore s =
     emitChange (s\<lparr>ws_walletViews := [default_wallet], ws_activeWalletViewId := ''1'', ws_nextId := 2\<rparr>)"

section \<open>The actions\<close>

text \<open>Each action answers with an error message or a result, and the store.\<close>

definition js_trim :: "string \<Rightarrow> string" where
  "js_trim s = rev (dropWhile js_white_space (rev (dropWhile js_white_space s)))"

definition MAX_WALLET_VIEWS :: nat where
  "MAX_WALLET_VIEWS = 2"

definition find_wallet :: "string \<Rightarrow> wallet_view list \<Rightarrow> wallet_view option" where
  "find_wallet i ws = List.find (\<lambda>w. wl_id w = i) ws"

definition createWalletView :: "string \<Rightarrow> 'l wallet_store \<Rightarrow> (string + wallet_view) \<times> 'l wallet_store" where
  "createWalletView name s =
     (let trimmedName = js_trim name; current = ws_walletViews s
      in if trimmedName = [] then (Inl ''Wallet name cannot be empty'', s)
         else if length current \<ge> MAX_WALLET_VIEWS then (Inl ''Maximum number of wallets reached'', s)
         else (case getNextId s of (i, s') \<Rightarrow>
           let walletView = \<lparr>wl_id = i, wl_name = trimmedName, wl_balance = ''$0.00'', wl_isMain = False\<rparr>
           in (Inr walletView, batchUpdate (current @ [walletView]) (wl_id walletView) s')))"

definition renameWalletView :: "string \<Rightarrow> string \<Rightarrow> 'l wallet_store \<Rightarrow> (string + unit) \<times> 'l wallet_store" where
  "renameWalletView walletId newName s =
     (let trimmedName = js_trim newName; current = ws_walletViews s
      in if trimmedName = [] then (Inl ''Wallet name cannot be empty'', s)
         else case find_wallet walletId current of
           None \<Rightarrow> (Inl ''Wallet not found'', s)
         | Some _ \<Rightarrow> (Inr (), setWalletViews
             (map (\<lambda>w. if wl_id w = walletId then w\<lparr>wl_name := trimmedName\<rparr> else w) current) s))"

definition deleteWalletView :: "string \<Rightarrow> 'l wallet_store \<Rightarrow> (string + unit) \<times> 'l wallet_store" where
  "deleteWalletView walletId s =
     (let current = ws_walletViews s
      in case find_wallet walletId current of
           None \<Rightarrow> (Inl ''Wallet not found'', s)
         | Some wallet \<Rightarrow>
             if wl_isMain wallet then (Inl ''Cannot delete the main wallet'', s)
             else if length current \<le> 1 then (Inl ''Cannot delete the last wallet'', s)
             else
               (let remaining = filter (\<lambda>w. wl_id w \<noteq> walletId) current
                in if ws_activeWalletViewId s = walletId \<and> remaining \<noteq> []
                   then (Inr (), batchUpdate remaining (wl_id (hd remaining)) s)
                   else (Inr (), setWalletViews remaining s)))"

definition switchWalletView :: "string \<Rightarrow> 'l wallet_store \<Rightarrow> (string + unit) \<times> 'l wallet_store" where
  "switchWalletView walletId s = (case find_wallet walletId (ws_walletViews s) of
     None \<Rightarrow> (Inl ''Wallet not found'', s)
   | Some _ \<Rightarrow> (Inr (), setActiveWalletViewId walletId s))"

definition useWalletViews :: "'l wallet_store \<Rightarrow> wallet_view list" where
  "useWalletViews s = ws_walletViews s"

definition useActiveWalletView :: "'l wallet_store \<Rightarrow> string + wallet_view" where
  "useActiveWalletView s = (case find_wallet (ws_activeWalletViewId s) (ws_walletViews s) of
     None \<Rightarrow> Inl ''Active wallet not found'' | Some active \<Rightarrow> Inr active)"

datatype 'l wallet_call =
    CreateWallet string
  | RenameWallet string string
  | DeleteWallet string
  | SwitchWallet string
  | SubscribeWallets 'l
  | UnsubscribeWallets 'l
  | ResetWallets

fun wallet_step :: "'l wallet_call \<Rightarrow> 'l wallet_store \<Rightarrow> 'l wallet_store" where
  "wallet_step (CreateWallet name) s = snd (createWalletView name s)"
| "wallet_step (RenameWallet i name) s = snd (renameWalletView i name s)"
| "wallet_step (DeleteWallet i) s = snd (deleteWalletView i s)"
| "wallet_step (SwitchWallet i) s = snd (switchWalletView i s)"
| "wallet_step (SubscribeWallets l) s = wallet_subscribe l s"
| "wallet_step (UnsubscribeWallets l) s = wallet_unsubscribe l s"
| "wallet_step ResetWallets s = resetWalletViewStore s"

definition wallet_run :: "'l wallet_call list \<Rightarrow> 'l wallet_store" where
  "wallet_run calls = fold wallet_step calls initial_wallet_store"

section \<open>The store stays consistent\<close>

text \<open>
  The first wallet is the main one and has the id 1; every other wallet has the id of a number
  already drawn; no id is there twice, no name is empty, there are at most two wallets, and the
  active one is among them.
\<close>

definition wallets_ok :: "'l wallet_store \<Rightarrow> bool" where
  "wallets_ok s \<longleftrightarrow>
     (case ws_walletViews s of [] \<Rightarrow> False
      | w # ws \<Rightarrow> wl_id w = ''1'' \<and> wl_isMain w \<and>
          list_all (\<lambda>v. \<not> wl_isMain v \<and> list_ex (\<lambda>n. wl_id v = nat_digits n) [2..<ws_nextId s]) ws) \<and>
     distinct (map wl_id (ws_walletViews s)) \<and>
     list_all (\<lambda>v. wl_name v \<noteq> []) (ws_walletViews s) \<and>
     length (ws_walletViews s) \<le> MAX_WALLET_VIEWS \<and>
     list_ex (\<lambda>v. wl_id v = ws_activeWalletViewId s) (ws_walletViews s) \<and> 2 \<le> ws_nextId s"

lemma nat_digits_inj: "nat_digits m = nat_digits n \<longleftrightarrow> m = n"
  by (metis read_nat_digits)

lemma one_digit: "nat_digits 1 = ''1''"
  by code_simp

lemma drawn_id_is_not_1: "2 \<le> n \<Longrightarrow> nat_digits n \<noteq> ''1''"
  by (simp add: one_digit [symmetric] nat_digits_inj)

lemmas wallet_defs = setWalletViews_def setActiveWalletViewId_def batchUpdate_def emitChange_def
  wallet_subscribe_def wallet_unsubscribe_def getNextId_def find_wallet_def Let_def

text \<open>The two shapes of a consistent store.\<close>

definition main_ok :: "wallet_view \<Rightarrow> bool" where
  "main_ok m \<longleftrightarrow> wl_id m = ''1'' \<and> wl_isMain m \<and> wl_name m \<noteq> []"

definition other_ok :: "nat \<Rightarrow> wallet_view \<Rightarrow> bool" where
  "other_ok bound w \<longleftrightarrow> (\<exists>n. 2 \<le> n \<and> n < bound \<and> wl_id w = nat_digits n) \<and> \<not> wl_isMain w \<and> wl_name w \<noteq> []"

lemma other_ok_id: "other_ok n w \<Longrightarrow> wl_id w \<noteq> ''1''"
  unfolding other_ok_def using drawn_id_is_not_1 by metis

lemma wallets_ok_one:
  "ws_walletViews s = [m] \<Longrightarrow> wallets_ok s \<longleftrightarrow> main_ok m \<and> ws_activeWalletViewId s = ''1'' \<and> 2 \<le> ws_nextId s"
  by (auto simp: wallets_ok_def main_ok_def MAX_WALLET_VIEWS_def)

lemma wallets_ok_two:
  assumes "ws_walletViews s = [m, w]"
  shows "wallets_ok s \<longleftrightarrow> main_ok m \<and> other_ok (ws_nextId s) w \<and> ws_activeWalletViewId s \<in> {''1'', wl_id w} \<and> 2 \<le> ws_nextId s"
proof -
  have "list_ex (\<lambda>n. wl_id w = nat_digits n) [2..<ws_nextId s] = (\<exists>n. 2 \<le> n \<and> n < ws_nextId s \<and> wl_id w = nat_digits n)"
    by (auto simp: list_ex_iff)
  then have other: "other_ok (ws_nextId s) w \<longleftrightarrow>
      list_ex (\<lambda>n. wl_id w = nat_digits n) [2..<ws_nextId s] \<and> \<not> wl_isMain w \<and> wl_name w \<noteq> []"
    by (simp add: other_ok_def)
  show ?thesis
  proof (cases "other_ok (ws_nextId s) w")
    case True
    with other_ok_id [OF True] other show ?thesis
      by (auto simp: wallets_ok_def main_ok_def assms MAX_WALLET_VIEWS_def)
  next
    case False
    with other show ?thesis by (auto simp: wallets_ok_def assms)
  qed
qed

lemma wallets_cases:
  assumes "wallets_ok s"
  obtains m where "ws_walletViews s = [m]" | m w where "ws_walletViews s = [m, w]"
  using assms by (cases "ws_walletViews s"; cases "tl (ws_walletViews s)"; cases "tl (tl (ws_walletViews s))")
    (auto simp: wallets_ok_def MAX_WALLET_VIEWS_def)

lemma wallets_ok_same:
  assumes "wallets_ok s" "ws_walletViews t = ws_walletViews s" "ws_nextId t = ws_nextId s"
    and "list_ex (\<lambda>v. wl_id v = ws_activeWalletViewId t) (ws_walletViews t)"
  shows "wallets_ok t"
  using assms by (auto simp: wallets_ok_def split: list.splits)

lemma wallets_ok_initial: "wallets_ok initial_wallet_store"
  by (simp add: wallets_ok_one [of _ default_wallet] initial_wallet_store_def default_wallet_def main_ok_def)

lemma wallets_ok_create:
  assumes "wallets_ok s"
  shows "wallets_ok (snd (createWalletView name s))"
  using assms
proof (cases rule: wallets_cases)
  case (1 m)
  show ?thesis
  proof (cases "js_trim name = []")
    case True
    with assms show ?thesis by (simp add: createWalletView_def)
  next
    case False
    let ?w = "\<lparr>wl_id = nat_digits (ws_nextId s), wl_name = js_trim name, wl_balance = ''$0.00'', wl_isMain = False\<rparr>"
    have "ws_walletViews (snd (createWalletView name s)) = [m, ?w]"
      using False by (simp add: createWalletView_def wallet_defs 1 MAX_WALLET_VIEWS_def)
    then show ?thesis
      using assms False
      by (auto simp: wallets_ok_two wallets_ok_one [OF 1] other_ok_def createWalletView_def wallet_defs 1 MAX_WALLET_VIEWS_def)
  qed
next
  case (2 m w)
  with assms show ?thesis by (simp add: createWalletView_def MAX_WALLET_VIEWS_def Let_def)
qed

lemma wallets_ok_rename:
  assumes "wallets_ok s"
  shows "wallets_ok (snd (renameWalletView i name s))"
proof (cases "js_trim name = [] \<or> find_wallet i (ws_walletViews s) = None")
  case True
  with assms show ?thesis by (auto simp: renameWalletView_def Let_def split: option.splits)
next
  case False
  let ?f = "\<lambda>w. if wl_id w = i then w\<lparr>wl_name := js_trim name\<rparr> else w"
  have s': "ws_walletViews (snd (renameWalletView i name s)) = map ?f (ws_walletViews s)"
    "ws_activeWalletViewId (snd (renameWalletView i name s)) = ws_activeWalletViewId s"
    "ws_nextId (snd (renameWalletView i name s)) = ws_nextId s"
    using False by (auto simp: renameWalletView_def setWalletViews_def emitChange_def Let_def)
  have f: "main_ok m \<Longrightarrow> main_ok (?f m)" "other_ok n w \<Longrightarrow> other_ok n (?f w)" "wl_id (?f w) = wl_id w" for m n w
    using False by (auto simp: main_ok_def other_ok_def)
  from assms show ?thesis
  proof (cases rule: wallets_cases)
    case (1 m)
    have "ws_walletViews (snd (renameWalletView i name s)) = [?f m]" by (simp add: s' 1)
    from wallets_ok_one [OF this] f(1) [of m] wallets_ok_one [OF 1] assms show ?thesis unfolding s' by blast
  next
    case (2 m w)
    have "ws_walletViews (snd (renameWalletView i name s)) = [?f m, ?f w]" by (simp add: s' 2)
    from wallets_ok_two [OF this] f(1) [of m] f(2) [of _ w] wallets_ok_two [OF 2] assms show ?thesis
      unfolding s' f(3) by blast
  qed
qed

lemma wallets_ok_delete:
  assumes "wallets_ok s"
  shows "wallets_ok (snd (deleteWalletView i s))"
  using assms
proof (cases rule: wallets_cases)
  case (1 m)
  with assms show ?thesis by (simp add: deleteWalletView_def find_wallet_def Let_def)
next
  case (2 m w)
  have ok: "main_ok m" "other_ok (ws_nextId s) w" "ws_activeWalletViewId s \<in> {''1'', wl_id w}" "2 \<le> ws_nextId s"
    using assms wallets_ok_two [OF 2] by simp_all
  show ?thesis
  proof (cases "i = wl_id w")
    case True
    then have "i \<noteq> wl_id m" using ok(1) other_ok_id [OF ok(2)] by (simp add: main_ok_def)
    with True ok have "ws_walletViews (snd (deleteWalletView i s)) = [m]"
      by (simp add: deleteWalletView_def wallet_defs 2 other_ok_def)
    then show ?thesis
      using True \<open>i \<noteq> wl_id m\<close> ok
      by (auto simp: wallets_ok_one deleteWalletView_def wallet_defs 2 other_ok_def main_ok_def)
  next
    case False
    with assms ok(1) show ?thesis by (simp add: deleteWalletView_def find_wallet_def 2 main_ok_def Let_def)
  qed
qed

lemma wallets_ok_switch:
  assumes "wallets_ok s"
  shows "wallets_ok (snd (switchWalletView i s))"
proof (cases "find_wallet i (ws_walletViews s) = None \<or> ws_activeWalletViewId s = i")
  case True
  with assms show ?thesis by (auto simp: switchWalletView_def setActiveWalletViewId_def split: option.splits)
next
  case False
  then have "list_ex (\<lambda>v. wl_id v = i) (ws_walletViews s)"
    by (auto simp: find_wallet_def find_None_iff list_ex_iff)
  moreover have "snd (switchWalletView i s) = emitChange (s\<lparr>ws_activeWalletViewId := i\<rparr>)"
    using False by (auto simp: switchWalletView_def setActiveWalletViewId_def)
  ultimately show ?thesis by (intro wallets_ok_same [OF assms]) (simp_all add: emitChange_def)
qed

lemma wallets_ok_step: "wallets_ok s \<Longrightarrow> wallets_ok (wallet_step call s)"
proof (cases call)
  case ResetWallets
  have "ws_walletViews (resetWalletViewStore s) = [default_wallet]"
    by (simp add: resetWalletViewStore_def emitChange_def)
  with ResetWallets show ?thesis
    by (simp add: wallets_ok_one resetWalletViewStore_def emitChange_def main_ok_def default_wallet_def)
next
  case (SubscribeWallets l)
  assume ok: "wallets_ok s"
  from ok SubscribeWallets show ?thesis
    by (intro wallets_ok_same [OF ok]) (simp_all add: wallet_subscribe_def wallets_ok_def)
next
  case (UnsubscribeWallets l)
  assume ok: "wallets_ok s"
  from ok UnsubscribeWallets show ?thesis
    by (intro wallets_ok_same [OF ok]) (simp_all add: wallet_unsubscribe_def wallets_ok_def)
qed (simp_all add: wallets_ok_create wallets_ok_rename wallets_ok_delete wallets_ok_switch)

lemma wallets_ok_fold: "wallets_ok s \<Longrightarrow> wallets_ok (fold wallet_step calls s)"
  by (induction calls arbitrary: s) (simp_all add: wallets_ok_step)

text \<open>
  C35. After any sequence of calls on the store of wallets: there are one or two wallets with distinct ids, the
  first is the main wallet and the only one, the active id is that of a wallet, so that the hook for the active
  wallet never throws.
\<close>

theorem wallets_stay_consistent:
  "wallets_ok (wallet_run calls) \<and> (\<exists>w. useActiveWalletView (wallet_run calls) = Inr w)"
proof
  show ok: "wallets_ok (wallet_run calls)"
    unfolding wallet_run_def by (rule wallets_ok_fold [OF wallets_ok_initial])
  then have "find_wallet (ws_activeWalletViewId (wallet_run calls)) (ws_walletViews (wallet_run calls)) \<noteq> None"
    by (auto simp: wallets_ok_def find_wallet_def find_None_iff list_ex_iff)
  then show "\<exists>w. useActiveWalletView (wallet_run calls) = Inr w"
    by (auto simp: useActiveWalletView_def)
qed

section \<open>The behaviour of the actions\<close>

text \<open>An action that is refused changes nothing and tells nobody; one that succeeds tells each listener at most once.\<close>

lemma refused_wallet_action:
  "isl (fst (createWalletView name s)) \<Longrightarrow> snd (createWalletView name s) = s"
  "isl (fst (renameWalletView i name s)) \<Longrightarrow> snd (renameWalletView i name s) = s"
  "isl (fst (deleteWalletView i s)) \<Longrightarrow> snd (deleteWalletView i s) = s"
  "isl (fst (switchWalletView i s)) \<Longrightarrow> snd (switchWalletView i s) = s"
  by (auto simp: createWalletView_def renameWalletView_def deleteWalletView_def switchWalletView_def Let_def
      split: option.splits prod.splits if_splits)

lemma wallet_action_tells_once:
  "ws_told (wallet_step call s) \<in> {ws_told s, ws_told s @ ws_listeners s}"
  by (cases call)
     (auto simp: createWalletView_def renameWalletView_def deleteWalletView_def switchWalletView_def
       resetWalletViewStore_def wallet_defs split: option.splits if_splits)

text \<open>A created wallet is the active one; deleting it makes the main wallet active again.\<close>

lemma deleting_the_created_wallet:
  assumes "wallets_ok s" "createWalletView name s = (Inr w, t)"
  shows "fst (deleteWalletView (wl_id w) t) = Inr () \<and>
         ws_walletViews (snd (deleteWalletView (wl_id w) t)) = ws_walletViews s \<and>
         ws_activeWalletViewId (snd (deleteWalletView (wl_id w) t)) = ''1''"
proof -
  have "wallets_ok t" using wallets_ok_create [OF assms(1), of name] assms(2) by simp
  have t: "ws_walletViews t = ws_walletViews s @ [w]" "ws_activeWalletViewId t = wl_id w" "\<not> wl_isMain w"
    "length (ws_walletViews s) < 2"
    using assms(2) by (auto simp: createWalletView_def wallet_defs MAX_WALLET_VIEWS_def split: if_splits)
  from assms(1) t(4) obtain v where v: "ws_walletViews s = [v]" by (cases rule: wallets_cases) simp_all
  have "ws_walletViews t = [v, w]" using t(1) v by simp
  from wallets_ok_two [OF this] \<open>wallets_ok t\<close> have "main_ok v" "wl_id w \<noteq> ''1''" by (auto dest: other_ok_id)
  then show ?thesis
    using t v by (simp add: deleteWalletView_def wallet_defs main_ok_def)
qed

end
