(* ===== verification/UserSearch.thy ===== *)
theory UserSearch
  imports Database KeyValueStorage
begin

text \<open>
  \<^verbatim>\<open>packages/user-search/src\<close>: searching users page by page (over the built-in list that stands
  for the server) and the cache of results in a table of the database.
\<close>

section \<open>Types\<close>

record searchable_user =
  su_id :: string
  su_username :: string
  su_displayName :: string
  su_avatarUrl :: string
  su_isVerified :: bool

record search_input =
  si_query :: string
  si_page :: int
  si_pageSize :: "int option"

record followed_input =
  fu_page :: int
  fu_pageSize :: "int option"

record search_result =
  sq_users :: "searchable_user list"
  sq_hasMore :: bool

definition stubAvatar :: "string \<Rightarrow> string" where
  "stubAvatar i = ''https://i.pravatar.cc/150?u='' @ i"

definition stub_user :: "string \<Rightarrow> string \<Rightarrow> string \<Rightarrow> string \<Rightarrow> bool \<Rightarrow> searchable_user" where
  "stub_user i username displayName avatar verified =
     \<lparr>su_id = i, su_username = username, su_displayName = displayName, su_avatarUrl = stubAvatar avatar,
      su_isVerified = verified\<rparr>"

definition STUB_USERS :: "searchable_user list" where
  "STUB_USERS = [
   stub_user ''1'' ''alinaproxima'' ''Alina Proxima'' ''1'' True,
   stub_user ''2'' ''aliciawernet'' ''Alicia Wernet'' ''2'' False,
   stub_user ''3'' ''cristianlower'' ''Cristian Lower'' ''3'' False,
   stub_user ''4'' ''curtiswashington'' ''Curtis Washington'' ''4'' True,
   stub_user ''5'' ''davidpeterson'' ''David Peterson'' ''5'' True,
   stub_user ''6'' ''dennismusk'' ''Dennis Musk'' ''6'' True,
   stub_user ''7'' ''martapeterson'' ''Elizabet Peterson'' ''7'' True,
   stub_user ''8'' ''elsansmith'' ''Elsan Smith'' ''8'' True,
   stub_user ''9'' ''folkkyp'' ''Folkky Peterson'' ''9'' True,
   stub_user ''10'' ''fordleen'' ''Ford Lenn'' ''10'' True,
   stub_user ''11'' ''griffinh'' ''Griffin Helter'' ''11'' True,
   stub_user ''12'' ''gstarcrypto'' ''Gstar Crypto'' ''12'' True,
   stub_user ''13'' ''mahmutisagaliev'' ''Eldiar Isagaliev'' ''13'' True,
   stub_user ''14'' ''amandagreen'' ''Amanda Green'' ''14'' False,
   stub_user ''15'' ''bradleyjones'' ''Bradley Jones'' ''15'' True,
   stub_user ''16'' ''carolinedavis'' ''Caroline Davis'' ''16'' False,
   stub_user ''17'' ''danielmorris'' ''Daniel Morris'' ''17'' True,
   stub_user ''18'' ''emilyclark'' ''Emily Clark'' ''18'' True,
   stub_user ''19'' ''felixhansen'' ''Felix Hansen'' ''19'' False,
   stub_user ''20'' ''gracetaylor'' ''Grace Taylor'' ''20'' True,
   stub_user ''21'' ''henrywilson'' ''Henry Wilson'' ''21'' False,
   stub_user ''22'' ''isabellamoore'' ''Isabella Moore'' ''22'' True,
   stub_user ''23'' ''jackthompson'' ''Jack Thompson'' ''23'' True,
   stub_user ''24'' ''katerinawhite'' ''Katerina White'' ''24'' False,
   stub_user ''25'' ''liamharris'' ''Liam Harris'' ''25'' True,
   stub_user ''26'' ''miarobinson'' ''Mia Robinson'' ''26'' True,
   stub_user ''27'' ''noahmartin'' ''Noah Martin'' ''27'' False,
   stub_user ''28'' ''oliviagarcia'' ''Olivia Garcia'' ''28'' True,
   stub_user ''29'' ''patricklee'' ''Patrick Lee'' ''29'' False,
   stub_user ''30'' ''quinnwalker'' ''Quinn Walker'' ''30'' True,
   stub_user ''31'' ''rachelking'' ''Rachel King'' ''31'' True,
   stub_user ''32'' ''samuelwright'' ''Samuel Wright'' ''32'' False,
   stub_user ''33'' ''taralopez'' ''Tara Lopez'' ''33'' True,
   stub_user ''34'' ''ulrichhill'' ''Ulrich Hill'' ''34'' False,
   stub_user ''35'' ''victoriaadams'' ''Victoria Adams'' ''35'' True,
   stub_user ''36'' ''williamscott'' ''William Scott'' ''36'' True,
   stub_user ''37'' ''xenaallen'' ''Xena Allen'' ''37'' False,
   stub_user ''38'' ''yasmineyoung'' ''Yasmine Young'' ''38'' True,
   stub_user ''39'' ''zachnelson'' ''Zach Nelson'' ''39'' True,
   stub_user ''40'' ''adrianmitchell'' ''Adrian Mitchell'' ''40'' False,
   stub_user ''41'' ''bethanyroberts'' ''Bethany Roberts'' ''41'' True,
   stub_user ''42'' ''colincarter'' ''Colin Carter'' ''42'' False,
   stub_user ''43'' ''dianaross'' ''Diana Ross'' ''43'' True,
   stub_user ''44'' ''ethanphillips'' ''Ethan Phillips'' ''44'' True,
   stub_user ''45'' ''fionaevans'' ''Fiona Evans'' ''45'' False,
   stub_user ''46'' ''gavinturner'' ''Gavin Turner'' ''46'' True,
   stub_user ''47'' ''hannahcampbell'' ''Hannah Campbell'' ''47'' True,
   stub_user ''48'' ''ivanparker'' ''Ivan Parker'' ''48'' False,
   stub_user ''49'' ''juliaedwards'' ''Julia Edwards'' ''49'' True,
   stub_user ''50'' ''kevinbrown'' ''Kevin Brown'' ''50'' False,
   stub_user ''51'' ''laurawood'' ''Laura Wood'' ''51'' True,
   stub_user ''52'' ''marcusjames'' ''Marcus James'' ''52'' True,
   stub_user ''53'' ''natalieward'' ''Natalie Ward'' ''53'' False,
   stub_user ''54'' ''oscarbennet'' ''Oscar Bennett'' ''54'' True,
   stub_user ''55'' ''penelopecook'' ''Penelope Cook'' ''55'' True,
   stub_user ''56'' ''quentinmorgan'' ''Quentin Morgan'' ''56'' False,
   stub_user ''57'' ''rebeccabell'' ''Rebecca Bell'' ''57'' True,
   stub_user ''58'' ''stefanmurphy'' ''Stefan Murphy'' ''58'' False,
   stub_user ''59'' ''tessabailey'' ''Tessa Bailey'' ''59'' True,
   stub_user ''60'' ''ursulacooper'' ''Ursula Cooper'' ''60'' True,
   stub_user ''61'' ''vincenthughes'' ''Vincent Hughes'' ''61'' False,
   stub_user ''62'' ''wendyflores'' ''Wendy Flores'' ''62'' True,
   stub_user ''63'' ''xaviersanders'' ''Xavier Sanders'' ''63'' True,
   stub_user ''64'' ''yolandaprice'' ''Yolanda Price'' ''64'' False,
   stub_user ''65'' ''zanepowell'' ''Zane Powell'' ''65'' True,
   stub_user ''66'' ''alexperry'' ''Alex Perry'' ''66'' False,
   stub_user ''67'' ''biancafoster'' ''Bianca Foster'' ''67'' True,
   stub_user ''68'' ''cameronreed'' ''Cameron Reed'' ''68'' True,
   stub_user ''69'' ''daphnelong'' ''Daphne Long'' ''69'' False,
   stub_user ''70'' ''ericstewart'' ''Eric Stewart'' ''70'' True,
   stub_user ''71'' ''francescakim'' ''Francesca Kim'' ''71'' True,
   stub_user ''72'' ''georgebarnes'' ''George Barnes'' ''72'' False,
   stub_user ''73'' ''helengraham'' ''Helen Graham'' ''73'' True,
   stub_user ''74'' ''igorsullivan'' ''Igor Sullivan'' ''74'' False,
   stub_user ''75'' ''janetrussel'' ''Janet Russell'' ''75'' True,
   stub_user ''76'' ''kyleowens'' ''Kyle Owens'' ''76'' True,
   stub_user ''77'' ''lenarichards'' ''Lena Richards'' ''77'' False,
   stub_user ''78'' ''mikefisher'' ''Mike Fisher'' ''78'' True,
   stub_user ''79'' ''norabutler'' ''Nora Butler'' ''79'' True,
   stub_user ''80'' ''owensimmons'' ''Owen Simmons'' ''80'' False,
   stub_user ''81'' ''paulajenkins'' ''Paula Jenkins'' ''81'' True,
   stub_user ''82'' ''randydunn'' ''Randy Dunn'' ''82'' False,
   stub_user ''83'' ''sandrahall'' ''Sandra Hall'' ''83'' True,
   stub_user ''84'' ''timnguyen'' ''Tim Nguyen'' ''84'' True,
   stub_user ''85'' ''unarivera'' ''Una Rivera'' ''85'' False,
   stub_user ''86'' ''viktorcole'' ''Viktor Cole'' ''86'' True,
   stub_user ''87'' ''whitneycox'' ''Whitney Cox'' ''87'' True,
   stub_user ''88'' ''xanderdiaz'' ''Xander Diaz'' ''88'' False,
   stub_user ''89'' ''yvettemills'' ''Yvette Mills'' ''89'' True,
   stub_user ''90'' ''zeldaramos'' ''Zelda Ramos'' ''90'' False,
   stub_user ''91'' ''arthurreyes'' ''Arthur Reyes'' ''91'' True,
   stub_user ''92'' ''brendagordon'' ''Brenda Gordon'' ''92'' True,
   stub_user ''93'' ''cesarwatson'' ''Cesar Watson'' ''93'' False,
   stub_user ''94'' ''dorisburke'' ''Doris Burke'' ''94'' True,
   stub_user ''95'' ''edwinstone'' ''Edwin Stone'' ''95'' False,
   stub_user ''96'' ''freyanorth'' ''Freya North'' ''96'' True,
   stub_user ''97'' ''glennhunt'' ''Glenn Hunt'' ''97'' True,
   stub_user ''98'' ''harperwest'' ''Harper West'' ''98'' False,
   stub_user ''99'' ''irisjordan'' ''Iris Jordan'' ''99'' True,
   stub_user ''100'' ''jaredkelley'' ''Jared Kelley'' ''100'' True,
   stub_user ''101'' ''karenfields'' ''Karen Fields'' ''101'' False,
   stub_user ''102'' ''lukewarren'' ''Luke Warren'' ''102'' True,
   stub_user ''103'' ''monicadixon'' ''Monica Dixon'' ''103'' True,
   stub_user ''104'' ''nathancrawford'' ''Nathan Crawford'' ''104'' False,
   stub_user ''105'' ''opalharmon'' ''Opal Harmon'' ''105'' True
  ]"

section \<open>Pages\<close>

text \<open>\<^verbatim>\<open>Array.slice(start, end)\<close>, whose negative arguments count from the end.\<close>

definition js_slice :: "int \<Rightarrow> int \<Rightarrow> 'a list \<Rightarrow> 'a list" where
  "js_slice start stop xs =
     (let n = int (length xs);
          pos = (\<lambda>i. nat (if i < 0 then max (n + i) 0 else min i n))
      in take (pos stop - pos start) (drop (pos start) xs))"

definition filterUsersByQuery :: "searchable_user list \<Rightarrow> string \<Rightarrow> searchable_user list" where
  "filterUsersByQuery users query =
     (let lowerQuery = js_lower query
      in filter (\<lambda>user. includes_str (js_lower (su_displayName user)) lowerQuery \<or>
                        includes_str (js_lower (su_username user)) lowerQuery) users)"

definition searchUsers :: "searchable_user list \<Rightarrow> search_input \<Rightarrow> search_result" where
  "searchUsers all input =
     (let pageSize = (case si_pageSize input of None \<Rightarrow> 10 | Some n \<Rightarrow> n);
          filtered = (if si_query input \<noteq> [] then filterUsersByQuery all (si_query input) else all);
          start = si_page input * pageSize
      in \<lparr>sq_users = js_slice start (start + pageSize) filtered,
          sq_hasMore = start + pageSize < int (length filtered)\<rparr>)"

definition fetchFollowedUsers :: "searchable_user list \<Rightarrow> followed_input \<Rightarrow> search_result" where
  "fetchFollowedUsers all input =
     (let followed = js_slice 0 30 all;
          pageSize = (case fu_pageSize input of None \<Rightarrow> 10 | Some n \<Rightarrow> n);
          start = fu_page input * pageSize
      in \<lparr>sq_users = js_slice start (start + pageSize) followed,
          sq_hasMore = start + pageSize < int (length followed)\<rparr>)"

section \<open>The cache\<close>

text \<open>The statements, up to their white space; \<^verbatim>\<open>toISOString\<close> is a parameter.\<close>

definition CACHE_TTL_MS :: int where
  "CACHE_TTL_MS = 5 * 60 * 1000"

definition USER_SEARCH_MIGRATIONS :: "migration list" where
  "USER_SEARCH_MIGRATIONS = [\<lparr>mg_version = 1, mg_up =
     ''CREATE TABLE IF NOT EXISTS user_search_cache (id TEXT PRIMARY KEY, username TEXT NOT NULL, '' @
     ''displayName TEXT NOT NULL, avatarUrl TEXT NOT NULL DEFAULT '' @ [CHR 0x27, CHR 0x27] @
     '', isVerified INTEGER NOT NULL DEFAULT 0, cachedAt TEXT NOT NULL)''\<rparr>]"

definition SELECT_CACHED_SQL :: string where
  "SELECT_CACHED_SQL =
     (let escape = '' LIKE ? ESCAPE '' @ [CHR 0x27, CHR 0x5C, CHR 0x27]
      in ''SELECT * FROM user_search_cache WHERE (username'' @ escape @ '' OR displayName'' @ escape @
         '') AND cachedAt > ? ORDER BY displayName ASC LIMIT 20'')"

definition INSERT_CACHED_SQL :: string where
  "INSERT_CACHED_SQL =
     ''INSERT OR REPLACE INTO user_search_cache (id, username, displayName, avatarUrl, isVerified, cachedAt) '' @
     ''VALUES (?, ?, ?, ?, ?, ?)''"

text \<open>A cell of a row that is read as a string; the columns are declared \<^verbatim>\<open>TEXT NOT NULL\<close>.\<close>

definition text_cell :: "sql_row \<Rightarrow> string \<Rightarrow> string" where
  "text_cell row col = (case map_of row col of Some (JStr s) \<Rightarrow> s | _ \<Rightarrow> [])"

definition mapCacheEntryToUser :: "sql_row \<Rightarrow> searchable_user" where
  "mapCacheEntryToUser entry =
     \<lparr>su_id = text_cell entry ''id'', su_username = text_cell entry ''username'',
      su_displayName = text_cell entry ''displayName'', su_avatarUrl = text_cell entry ''avatarUrl'',
      su_isVerified = (map_of entry ''isVerified'' = Some (JNum 1))\<rparr>"

definition replace_char :: "char \<Rightarrow> string \<Rightarrow> string \<Rightarrow> string" where
  "replace_char c rep s = concat (map (\<lambda>d. if d = c then rep else [d]) s)"

definition escapeLikePattern :: "string \<Rightarrow> string" where
  "escapeLikePattern input =
     replace_char (CHR ''_'') [CHR 0x5C, CHR ''_'']
       (replace_char (CHR ''%'') [CHR 0x5C, CHR ''%'']
         (replace_char (CHR 0x5C) [CHR 0x5C, CHR 0x5C] input))"

definition getCachedUsers ::
  "(int \<Rightarrow> string) \<Rightarrow> ('x env_scheme) sql_conn \<Rightarrow> string \<Rightarrow> ('x env_scheme, js_error, searchable_user list) io" where
  "getCachedUsers iso_time database query =
     io_bind (io_gets env_now) (\<lambda>now.
       let cutoff = iso_time (now - CACHE_TTL_MS);
           pattern = ''%'' @ escapeLikePattern query @ ''%''
       in io_bind (db_query database SELECT_CACHED_SQL [JStr pattern, JStr pattern, JStr cutoff])
            (\<lambda>rows. io_return (map mapCacheEntryToUser rows)))"

definition cacheUsers ::
  "(int \<Rightarrow> string) \<Rightarrow> ((string \<times> js_value list) list \<Rightarrow> ('x env_scheme, js_error, unit) io) \<Rightarrow>
   searchable_user list \<Rightarrow> ('x env_scheme, js_error, unit) io" where
  "cacheUsers iso_time executeBatch users =
     (if users = [] then io_return ()
      else io_bind (io_gets env_now) (\<lambda>now.
        executeBatch (map (\<lambda>user. (INSERT_CACHED_SQL,
          [JStr (su_id user), JStr (su_username user), JStr (su_displayName user), JStr (su_avatarUrl user),
           JNum (if su_isVerified user then 1 else 0), JStr (iso_time now)])) users)))"

section \<open>The pages make up the result\<close>

definition matching_users :: "searchable_user list \<Rightarrow> string \<Rightarrow> searchable_user list" where
  "matching_users all query = (if query = [] then all else filterUsersByQuery all query)"

definition page_of :: "string \<Rightarrow> int \<Rightarrow> nat \<Rightarrow> search_input" where
  "page_of query psize p = \<lparr>si_query = query, si_page = int p, si_pageSize = Some psize\<rparr>"

lemma js_slice_page:
  assumes "0 \<le> psize"
  shows "js_slice (int p * psize) (int p * psize + psize) xs = take (nat psize) (drop (p * nat psize) xs)"
proof -
  let ?a = "int p * psize" and ?n = "int (length xs)"
  have a: "0 \<le> ?a" "nat ?a = p * nat psize" using assms by (simp_all add: nat_mult_distrib)
  have nn: "\<not> ?a < 0" "\<not> ?a + psize < 0" using a(1) assms by linarith+
  show ?thesis
  proof (cases "?a \<le> ?n")
    case True
    then have "take (nat (min (?a + psize) ?n) - nat ?a) (drop (nat ?a) xs) = take (nat psize) (drop (nat ?a) xs)"
      using a(1) assms by (cases "?a + psize \<le> ?n") (simp_all add: nat_add_distrib min_def)
    with True a assms nn show ?thesis by (simp add: js_slice_def Let_def min_def)
  next
    case False
    then have "length xs \<le> p * nat psize" using a by linarith
    with False a assms nn show ?thesis by (simp add: js_slice_def Let_def min_def)
  qed
qed

lemma search_page:
  assumes "0 < psize"
  shows "sq_users (searchUsers all (page_of q psize p)) = take (nat psize) (drop (p * nat psize) (matching_users all q))"
    and "sq_hasMore (searchUsers all (page_of q psize p)) = ((p + 1) * nat psize < length (matching_users all q))"
proof -
  show "sq_users (searchUsers all (page_of q psize p)) = take (nat psize) (drop (p * nat psize) (matching_users all q))"
    using assms by (simp add: searchUsers_def page_of_def matching_users_def js_slice_page Let_def)
  have "(int p * psize + psize < int (length xs)) = ((p + 1) * nat psize < length xs)" for xs :: "searchable_user list"
  proof -
    have "int ((p + 1) * nat psize) = int p * psize + psize" using assms by (simp add: algebra_simps)
    then show ?thesis by linarith
  qed
  then show "sq_hasMore (searchUsers all (page_of q psize p)) = ((p + 1) * nat psize < length (matching_users all q))"
    by (simp add: searchUsers_def page_of_def matching_users_def Let_def)
qed

lemma concat_pages: "concat (map (\<lambda>p. take k (drop (p * k) xs)) [0..<n]) = take (n * k) xs"
  by (induction n) (simp_all add: take_add [symmetric] add.commute)

theorem pages_make_up_the_result:
  assumes "0 < psize"
  shows "concat (map (\<lambda>p. sq_users (searchUsers all (page_of q psize p))) [0..<n]) =
           take (n * nat psize) (matching_users all q) \<and>
         (sq_hasMore (searchUsers all (page_of q psize n)) \<longleftrightarrow> (n + 1) * nat psize < length (matching_users all q))"
  using search_page [OF assms] by (simp add: concat_pages)

theorem pages_make_up_the_result_witness:
  "concat (map (\<lambda>p. sq_users (searchUsers [stub_user ''1'' ''ab'' ''Ab'' ''1'' True, stub_user ''2'' ''b'' ''B'' ''2'' False]
      (page_of ''B'' 1 p))) [0..<2]) =
    [stub_user ''1'' ''ab'' ''Ab'' ''1'' True, stub_user ''2'' ''b'' ''B'' ''2'' False]"
proof -
  let ?all = "[stub_user ''1'' ''ab'' ''Ab'' ''1'' True, stub_user ''2'' ''b'' ''B'' ''2'' False]"
  have "matching_users ?all ''B'' = ?all" by code_simp
  then show ?thesis using pages_make_up_the_result [of 1 ?all "''B''" 2] by simp
qed

text \<open>With a page psize of 0 there is always more, and never anything.\<close>

lemma empty_pages_never_end:
  "all \<noteq> [] \<Longrightarrow> searchUsers all \<lparr>si_query = [], si_page = int p, si_pageSize = Some 0\<rparr> = \<lparr>sq_users = [], sq_hasMore = True\<rparr>"
  by (simp add: searchUsers_def js_slice_def Let_def)

lemma followed_pages:
  "concat (map (\<lambda>p. sq_users (fetchFollowedUsers all \<lparr>fu_page = int p, fu_pageSize = None\<rparr>)) [0..<3]) = take 30 all"
proof -
  have "js_slice 0 30 all = take 30 all" by (simp add: js_slice_def min_def Let_def)
  moreover have "sq_users (fetchFollowedUsers all \<lparr>fu_page = int p, fu_pageSize = None\<rparr>) =
      take 10 (drop (p * 10) (js_slice 0 30 all))" for p
    using js_slice_page [of 10 p "js_slice 0 30 all"] by (simp add: fetchFollowedUsers_def Let_def)
  ultimately show ?thesis using concat_pages [of 10 "take 30 all" 3] by simp
qed

section \<open>What was cached is found\<close>

text \<open>
  What the code relies on in SQLite, over the table \<open>tab\<close> that a state holds: the row of an id,
  with the instant it was cached at. \<open>like p t\<close> is \<^verbatim>\<open>t LIKE p ESCAPE '\'\<close>, which ignores the case
  of ASCII letters; a percent sign matches any text, an underscore any character, and an escaped
  character itself. \<open>after\<close> is the comparison of texts.
\<close>

definition same_letter :: "char \<Rightarrow> char \<Rightarrow> bool" where
  "same_letter c d \<longleftrightarrow> js_upper_ascii_char c = js_upper_ascii_char d"

definition like_ok :: "(string \<Rightarrow> string \<Rightarrow> bool) \<Rightarrow> bool" where
  "like_ok like \<longleftrightarrow>
     (\<forall>t. like [] t \<longleftrightarrow> t = []) \<and>
     (\<forall>p t. like (CHR ''%'' # p) t \<longleftrightarrow> (\<exists>i\<le>length t. like p (drop i t))) \<and>
     (\<forall>p t. like (CHR ''_'' # p) t \<longleftrightarrow> t \<noteq> [] \<and> like p (tl t)) \<and>
     (\<forall>c p t. like (CHR 0x5C # c # p) t \<longleftrightarrow> t \<noteq> [] \<and> same_letter c (hd t) \<and> like p (tl t)) \<and>
     (\<forall>c p t. c \<notin> {CHR ''%'', CHR ''_'', CHR 0x5C} \<longrightarrow>
        (like (c # p) t \<longleftrightarrow> t \<noteq> [] \<and> same_letter c (hd t) \<and> like p (tl t)))"

record cached_user =
  cu_user :: searchable_user
  cu_cachedAt :: string

definition row_of_cached :: "cached_user \<Rightarrow> sql_row" where
  "row_of_cached c = [(''id'', JStr (su_id (cu_user c))), (''username'', JStr (su_username (cu_user c))),
     (''displayName'', JStr (su_displayName (cu_user c))), (''avatarUrl'', JStr (su_avatarUrl (cu_user c))),
     (''isVerified'', JNum (if su_isVerified (cu_user c) then 1 else 0)), (''cachedAt'', JStr (cu_cachedAt c))]"

lemma map_row_of_cached [simp]: "mapCacheEntryToUser (row_of_cached c) = cu_user c"
  by (simp add: mapCacheEntryToUser_def row_of_cached_def text_cell_def)

definition selected :: "(string \<Rightarrow> string \<Rightarrow> bool) \<Rightarrow> (string \<Rightarrow> string \<Rightarrow> bool) \<Rightarrow> string \<Rightarrow> string \<Rightarrow> cached_user \<Rightarrow> bool" where
  "selected like after p cutoff c \<longleftrightarrow>
     (like p (su_username (cu_user c)) \<or> like p (su_displayName (cu_user c))) \<and> after (cu_cachedAt c) cutoff"

definition search_table_ok ::
  "(string \<Rightarrow> string \<Rightarrow> bool) \<Rightarrow> (string \<Rightarrow> string \<Rightarrow> bool) \<Rightarrow> ('x env_scheme \<Rightarrow> string \<rightharpoonup> cached_user) \<Rightarrow>
   ('x env_scheme) sql_conn \<Rightarrow> bool" where
  "search_table_ok like after tab conn \<longleftrightarrow>
     (\<forall>s sql. sql \<in> {''BEGIN TRANSACTION'', ''COMMIT''} \<longrightarrow>
        (\<exists>t. cn_execute conn sql [] s = (Inr [], t) \<and> tab t = tab s \<and> env_now t = env_now s)) \<and>
     (\<forall>s u time. \<exists>t. cn_execute conn INSERT_CACHED_SQL
          [JStr (su_id u), JStr (su_username u), JStr (su_displayName u), JStr (su_avatarUrl u),
           JNum (if su_isVerified u then 1 else 0), JStr time] s = (Inr [], t) \<and>
        tab t = (tab s)(su_id u \<mapsto> \<lparr>cu_user = u, cu_cachedAt = time\<rparr>) \<and> env_now t = env_now s) \<and>
     (\<forall>s p cutoff. \<exists>cs t. cn_execute conn SELECT_CACHED_SQL [JStr p, JStr p, JStr cutoff] s =
          (Inr (map row_of_cached (take 20 cs)), t) \<and>
        distinct cs \<and> set cs = {c \<in> ran (tab s). selected like after p cutoff c})"

text \<open>Replacing one character after another escapes each character once.\<close>

definition escape_char :: "char \<Rightarrow> string" where
  "escape_char c = (if c \<in> {CHR ''%'', CHR ''_'', CHR 0x5C} then [CHR 0x5C, c] else [c])"

lemma escape_is_per_char: "escapeLikePattern s = concat (map escape_char s)"
  by (induction s) (simp_all add: escapeLikePattern_def replace_char_def escape_char_def)

fun starts_like :: "string \<Rightarrow> string \<Rightarrow> bool" where
  "starts_like [] t = True"
| "starts_like (c # cs) [] = False"
| "starts_like (c # cs) (d # ds) = (same_letter c d \<and> starts_like cs ds)"

lemma like_escaped:
  assumes "like_ok like"
  shows "like (concat (map escape_char q) @ ''%'') t = starts_like q t"
proof (induction q t rule: starts_like.induct)
  case (1 t)
  then show ?case using assms by (auto simp: like_ok_def)
next
  case (2 c cs)
  then show ?case using assms by (auto simp: like_ok_def escape_char_def)
next
  case (3 c cs d ds)
  then show ?case using assms by (auto simp: like_ok_def escape_char_def)
qed

lemma escaped_pattern_finds_text:
  assumes "like_ok like"
  shows "like (''%'' @ escapeLikePattern q @ ''%'') t = (\<exists>i\<le>length t. starts_like q (drop i t))"
  using assms like_escaped [OF assms]
  by (simp add: escape_is_per_char) (simp add: like_ok_def)

text \<open>Caching a list of users puts each of them into the table.\<close>

lemma insert_all:
  assumes "search_table_ok like after tab conn"
  shows "\<exists>t. execute_all conn (map (\<lambda>u. (INSERT_CACHED_SQL,
          [JStr (su_id u), JStr (su_username u), JStr (su_displayName u), JStr (su_avatarUrl u),
           JNum (if su_isVerified u then 1 else 0), JStr time])) us) s = (Inr (), t) \<and>
        tab t = tab s ++ map_of (rev (map (\<lambda>u. (su_id u, \<lparr>cu_user = u, cu_cachedAt = time\<rparr>)) us)) \<and> env_now t = env_now s"
proof (induction us arbitrary: s)
  case Nil
  then show ?case by (simp add: io_simps)
next
  case (Cons u us)
  obtain t where t: "cn_execute conn INSERT_CACHED_SQL
          [JStr (su_id u), JStr (su_username u), JStr (su_displayName u), JStr (su_avatarUrl u),
           JNum (if su_isVerified u then 1 else 0), JStr time] s = (Inr [], t)"
      "tab t = (tab s)(su_id u \<mapsto> \<lparr>cu_user = u, cu_cachedAt = time\<rparr>)" "env_now t = env_now s"
    using assms unfolding search_table_ok_def by blast
  from Cons.IH [of t] obtain t' where t': "execute_all conn (map (\<lambda>u. (INSERT_CACHED_SQL,
          [JStr (su_id u), JStr (su_username u), JStr (su_displayName u), JStr (su_avatarUrl u),
           JNum (if su_isVerified u then 1 else 0), JStr time])) us) t = (Inr (), t')"
      "tab t' = tab t ++ map_of (rev (map (\<lambda>u. (su_id u, \<lparr>cu_user = u, cu_cachedAt = time\<rparr>)) us))"
      "env_now t' = env_now t" by blast
  have "tab t' = tab s ++ map_of (rev (map (\<lambda>u. (su_id u, \<lparr>cu_user = u, cu_cachedAt = time\<rparr>)) (u # us)))"
    unfolding t'(2) t(2) by (simp add: map_add_assoc [symmetric])
  with t(1,3) t'(1,3) show ?case by (simp add: io_simps db_execute_def)
qed

lemma cacheUsers_fills:
  assumes "search_table_ok like after tab conn" "users \<noteq> []"
  shows "\<exists>t. cacheUsers iso_time (web_executeBatch conn) users s = (Inr (), t) \<and> env_now t = env_now s \<and>
    tab t = tab s ++ map_of (rev (map (\<lambda>u. (su_id u, \<lparr>cu_user = u, cu_cachedAt = iso_time (env_now s)\<rparr>)) users))"
proof -
  have quiet: "\<exists>t. cn_execute conn sql [] s = (Inr [], t) \<and> tab t = tab s \<and> env_now t = env_now s"
    if "sql \<in> {''BEGIN TRANSACTION'', ''COMMIT''}" for sql s
    using assms(1) that unfolding search_table_ok_def by blast
  obtain b where b: "cn_execute conn ''BEGIN TRANSACTION'' [] s = (Inr [], b)" "tab b = tab s" "env_now b = env_now s"
    using quiet [of "''BEGIN TRANSACTION''" s] by auto
  from insert_all [OF assms(1), of "iso_time (env_now s)" users b] obtain m where
    m: "execute_all conn (map (\<lambda>u. (INSERT_CACHED_SQL,
          [JStr (su_id u), JStr (su_username u), JStr (su_displayName u), JStr (su_avatarUrl u),
           JNum (if su_isVerified u then 1 else 0), JStr (iso_time (env_now s))])) users) b = (Inr (), m)"
       "tab m = tab b ++ map_of (rev (map (\<lambda>u. (su_id u, \<lparr>cu_user = u, cu_cachedAt = iso_time (env_now s)\<rparr>)) users))"
       "env_now m = env_now b" by blast
  obtain c where c: "cn_execute conn ''COMMIT'' [] m = (Inr [], c)" "tab c = tab m" "env_now c = env_now m"
    using quiet [of "''COMMIT''" m] by auto
  show ?thesis
    using assms(2) b m c
    by (simp add: cacheUsers_def web_executeBatch_def db_transaction_def db_execute_def io_simps)
qed

lemma starts_like_append: "starts_like q (q @ b)"
  by (induction q) (simp_all add: same_letter_def)

text \<open>
  Users put into the cache are found again: for a while shorter than five minutes, and as long as no more
  than twenty users are cached, a search for any part of the name of a cached user, also one with the letters that
  LIKE gives a meaning, finds the user as it was stored.
\<close>

theorem cached_users_are_found:
  assumes "like_ok like" "search_table_ok like after tab conn"
    and "\<And>a b. after (iso_time a) (iso_time b) \<longleftrightarrow> b < a" "\<And>s n. tab (s\<lparr>env_now := n\<rparr>) = tab s"
    and "distinct (map su_id users)" "u \<in> set users" "su_username u = a @ q @ b"
    and "t = snd (cacheUsers iso_time (web_executeBatch conn) users s)" "elapsed < CACHE_TTL_MS"
    and "card (ran (tab t)) \<le> 20" "finite (ran (tab t))"
  shows "\<exists>found. fst (getCachedUsers iso_time conn q (t\<lparr>env_now := env_now s + elapsed\<rparr>)) = Inr found \<and> u \<in> set found"
proof -
  let ?c = "\<lparr>cu_user = u, cu_cachedAt = iso_time (env_now s)\<rparr>"
  let ?p = "''%'' @ escapeLikePattern q @ ''%''"
  let ?t = "t\<lparr>env_now := env_now s + elapsed\<rparr>"
  have "users \<noteq> []" using assms(6) by auto
  from cacheUsers_fills [OF assms(2) this, of iso_time s] assms(8) have
    tab: "tab t = tab s ++ map_of (rev (map (\<lambda>u. (su_id u, \<lparr>cu_user = u, cu_cachedAt = iso_time (env_now s)\<rparr>)) users))"
    by auto
  have "map_of (rev (map (\<lambda>u. (su_id u, \<lparr>cu_user = u, cu_cachedAt = iso_time (env_now s)\<rparr>)) users)) (su_id u) = Some ?c"
    by (rule map_of_is_SomeI) (use assms(5,6) in \<open>simp_all add: rev_map [symmetric] comp_def\<close>)
  then have in_tab: "?c \<in> ran (tab ?t)" by (auto simp: tab assms(4) ran_def intro!: exI [of _ "su_id u"])
  have "like ?p (su_username u)"
    unfolding escaped_pattern_finds_text [OF assms(1)]
    by (rule exI [of _ "length a"]) (simp add: assms(7) starts_like_append)
  then have sel: "selected like after ?p (iso_time (env_now ?t - CACHE_TTL_MS)) ?c"
    using assms(3,9) by (simp add: selected_def)
  obtain cs t' where cs: "cn_execute conn SELECT_CACHED_SQL [JStr ?p, JStr ?p, JStr (iso_time (env_now ?t - CACHE_TTL_MS))] ?t =
      (Inr (map row_of_cached (take 20 cs)), t')" "distinct cs"
      "set cs = {c \<in> ran (tab ?t). selected like after ?p (iso_time (env_now ?t - CACHE_TTL_MS)) c}"
    using assms(2) unfolding search_table_ok_def by blast
  have "length cs = card (set cs)" using cs(2) by (simp add: distinct_card)
  also have "\<dots> \<le> card (ran (tab t))" unfolding cs(3) assms(4) by (rule card_mono [OF assms(11)]) auto
  finally have "take 20 cs = cs" using assms(10) by simp
  moreover have "?c \<in> set cs" using in_tab sel unfolding cs(3) by blast
  ultimately show ?thesis
    using cs(1) by (auto simp: getCachedUsers_def db_query_def io_simps Let_def image_iff intro!: bexI [of _ ?c])
qed

section \<open>A table for which this can be seen\<close>

fun sample_like :: "string \<Rightarrow> string \<Rightarrow> bool" where
  "sample_like [] t = (t = [])"
| "sample_like (c # p) t =
     (if c = CHR ''%'' then list_ex (\<lambda>i. sample_like p (drop i t)) [0..<Suc (length t)]
      else if c = CHR ''_'' then t \<noteq> [] \<and> sample_like p (tl t)
      else if c = CHR 0x5C then (case p of [] \<Rightarrow> False | d # p' \<Rightarrow> t \<noteq> [] \<and> same_letter d (hd t) \<and> sample_like p' (tl t))
      else t \<noteq> [] \<and> same_letter c (hd t) \<and> sample_like p (tl t))"

lemma sample_like_ok: "like_ok sample_like"
proof -
  have "list_ex P [0..<Suc n] = (\<exists>i\<le>n. P i)" for P :: "nat \<Rightarrow> bool" and n
    by (auto simp: list_ex_iff less_Suc_eq_le simp del: upt_Suc)
  then show ?thesis by (simp add: like_ok_def del: upt_Suc)
qed

definition sample_after :: "string \<Rightarrow> string \<Rightarrow> bool" where
  "sample_after a b \<longleftrightarrow> read_int b < read_int a"

record search_env = env +
  se_table :: "(string \<times> cached_user) list"

definition sample_table :: "search_env \<Rightarrow> string \<rightharpoonup> cached_user" where
  "sample_table s = map_of (se_table s)"

definition js_text :: "js_value \<Rightarrow> string" where
  "js_text v = (case v of JStr t \<Rightarrow> t | _ \<Rightarrow> [])"

definition sample_search_conn :: "search_env sql_conn" where
  "sample_search_conn = \<lparr>cn_execute = (\<lambda>sql ps s.
     if sql = INSERT_CACHED_SQL then
       (Inr [], s\<lparr>se_table := AList.update (js_text (ps ! 0))
          \<lparr>cu_user = \<lparr>su_id = js_text (ps ! 0), su_username = js_text (ps ! 1), su_displayName = js_text (ps ! 2),
             su_avatarUrl = js_text (ps ! 3), su_isVerified = (ps ! 4 = JNum 1)\<rparr>, cu_cachedAt = js_text (ps ! 5)\<rparr> (se_table s)\<rparr>)
     else if sql = SELECT_CACHED_SQL then
       (Inr (map row_of_cached (take 20 (filter (selected sample_like sample_after (js_text (ps ! 0)) (js_text (ps ! 2)))
          (remdups (map snd (AList.clearjunk (se_table s))))))), s)
     else (Inr [], s))\<rparr>"

lemma sql_texts_differ:
  "INSERT_CACHED_SQL \<noteq> SELECT_CACHED_SQL" "INSERT_CACHED_SQL \<noteq> ''BEGIN TRANSACTION''" "INSERT_CACHED_SQL \<noteq> ''COMMIT''"
  "SELECT_CACHED_SQL \<noteq> ''BEGIN TRANSACTION''" "SELECT_CACHED_SQL \<noteq> ''COMMIT''"
  by (simp_all add: INSERT_CACHED_SQL_def SELECT_CACHED_SQL_def Let_def)

lemma sample_search_table_ok: "search_table_ok sample_like sample_after sample_table sample_search_conn"
proof -
  have ran: "ran (map_of xs) = set (map snd (AList.clearjunk xs))" for xs :: "(string \<times> cached_user) list"
    by (simp add: AList.ran_map_of)
  show ?thesis
    unfolding search_table_ok_def
  proof (intro conjI allI impI)
    fix s :: search_env and sql
    assume "sql \<in> {''BEGIN TRANSACTION'', ''COMMIT''}"
    then show "\<exists>t. cn_execute sample_search_conn sql [] s = (Inr [], t) \<and> sample_table t = sample_table s \<and> env_now t = env_now s"
      using sql_texts_differ by (auto simp: sample_search_conn_def)
  next
    fix s :: search_env and u time
    show "\<exists>t. cn_execute sample_search_conn INSERT_CACHED_SQL
          [JStr (su_id u), JStr (su_username u), JStr (su_displayName u), JStr (su_avatarUrl u),
           JNum (if su_isVerified u then 1 else 0), JStr time] s = (Inr [], t) \<and>
        sample_table t = (sample_table s)(su_id u \<mapsto> \<lparr>cu_user = u, cu_cachedAt = time\<rparr>) \<and> env_now t = env_now s"
      by (cases u) (simp add: sample_search_conn_def sample_table_def js_text_def numeral_eq_Suc AList.update_conv')
  next
    fix s :: search_env and p cutoff
    show "\<exists>cs t. cn_execute sample_search_conn SELECT_CACHED_SQL [JStr p, JStr p, JStr cutoff] s =
          (Inr (map row_of_cached (take 20 cs)), t) \<and> distinct cs \<and>
        set cs = {c \<in> ran (sample_table s). selected sample_like sample_after p cutoff c}"
      using sql_texts_differ
      by (intro exI [of _ "filter (selected sample_like sample_after p cutoff) (remdups (map snd (AList.clearjunk (se_table s))))"]
            exI [of _ s])
         (auto simp: sample_search_conn_def sample_table_def js_text_def ran numeral_eq_Suc)
  qed
qed

definition sample_search_env :: search_env where
  "sample_search_env = \<lparr>env_now = 1000, env_log = [], se_table = []\<rparr>"

theorem cached_users_are_found_witness:
  "\<exists>found. fst (getCachedUsers int_str sample_search_conn ''%x''
      ((snd (cacheUsers int_str (web_executeBatch sample_search_conn) [stub_user ''7'' ''a%xb'' ''A'' ''7'' True] sample_search_env))
         \<lparr>env_now := 1000 + 299999\<rparr>)) = Inr found \<and> stub_user ''7'' ''a%xb'' ''A'' ''7'' True \<in> set found"
proof -
  let ?u = "stub_user ''7'' ''a%xb'' ''A'' ''7'' True"
  let ?t = "snd (cacheUsers int_str (web_executeBatch sample_search_conn) [?u] sample_search_env)"
  have "se_table ?t = [(''7'', \<lparr>cu_user = ?u, cu_cachedAt = int_str 1000\<rparr>)]"
    using sql_texts_differ
    by (simp add: cacheUsers_def web_executeBatch_def db_transaction_def db_execute_def io_simps
        sample_search_conn_def sample_search_env_def js_text_def stub_user_def numeral_eq_Suc Let_def)
  then have r: "ran (sample_table ?t) = {\<lparr>cu_user = ?u, cu_cachedAt = int_str 1000\<rparr>}" by (simp add: sample_table_def)
  have now: "env_now sample_search_env = 1000" by (simp add: sample_search_env_def)
  show ?thesis
    unfolding now [symmetric]
    by (rule cached_users_are_found [OF sample_like_ok sample_search_table_ok, where users = "[?u]" and a = "''a''" and b = "''b''"])
       (simp_all add: r [unfolded sample_table_def stub_user_def] sample_after_def read_int_str sample_table_def stub_user_def CACHE_TTL_MS_def)
qed

end
