(* ===== verification/Localization.thy ===== *)
theory Localization
  imports KeyValueStorage NetworkTypes
begin

text \<open>
  \<^verbatim>\<open>packages/localization/src\<close>: the language of the application. It is the one the user chose (kept
  in a key-value storage) or that of the device; \<^verbatim>\<open>i18next\<close>, which looks texts up, is a
  parameter, and so are the values the device reports.
\<close>

section \<open>Languages and fallbacks\<close>

definition SUPPORTED_LOCALES :: "string list" where
  "SUPPORTED_LOCALES = [''en'', ''fr'', ''de'']"

definition DEFAULT_LOCALE :: string where
  "DEFAULT_LOCALE = ''en''"

definition buildFallbackChain :: "string \<Rightarrow> string \<Rightarrow> string list" where
  "buildFallbackChain lang defaultLocale =
     (let dash = length (takeWhile (\<lambda>c. c \<noteq> CHR ''-'') lang);
          chain = [lang] @ (if 0 < dash \<and> dash < length lang then [take dash lang] else [])
      in if defaultLocale \<in> set chain then chain else chain @ [defaultLocale])"

section \<open>The language of the device\<close>

definition normalizeLocaleIdentifier :: "string \<Rightarrow> string" where
  "normalizeLocaleIdentifier lang = map (\<lambda>c. if c = CHR ''_'' then CHR ''-'' else c) lang"

text \<open>\<^verbatim>\<open>NativeModules.SettingsManager?.settings?.AppleLanguages\<close> and the identifier of Android.\<close>

definition getIosLocale :: "string list option \<Rightarrow> string" where
  "getIosLocale appleLanguages =
     normalizeLocaleIdentifier (case appleLanguages of Some (l # _) \<Rightarrow> l | _ \<Rightarrow> DEFAULT_LOCALE)"

definition getAndroidLocale :: "string option \<Rightarrow> string" where
  "getAndroidLocale localeIdentifier =
     (if localeIdentifier = None \<or> localeIdentifier = Some [] then DEFAULT_LOCALE
      else normalizeLocaleIdentifier (the localeIdentifier))"

definition native_getDeviceLocale :: "string \<Rightarrow> string list option \<Rightarrow> string option \<Rightarrow> string" where
  "native_getDeviceLocale os appleLanguages localeIdentifier =
     (if os = ''ios'' then getIosLocale appleLanguages else getAndroidLocale localeIdentifier)"

text \<open>The browser's \<^verbatim>\<open>navigator\<close>, if there is one: its languages and its language.\<close>

definition web_getDeviceLocale :: "(string list option \<times> string option) option \<Rightarrow> string" where
  "web_getDeviceLocale navigator = (case navigator of
     None \<Rightarrow> ''en''
   | Some (languages, language) \<Rightarrow> (case languages of
       Some (l # _) \<Rightarrow> l
     | _ \<Rightarrow> (case language of Some l \<Rightarrow> l | None \<Rightarrow> ''en'')))"

section \<open>The engine\<close>

record i18n_options =
  io_lng :: string
  io_fallbackLng :: "string list"
  io_supportedLngs :: "string list"
  io_ns :: "string list"
  io_escapeValue :: bool
  io_initAsync :: bool

record ('i, 'o) i18next =
  nx_init :: "i18n_options \<Rightarrow> 'i"
  nx_language :: "'i \<Rightarrow> string"
  nx_t :: "'i \<Rightarrow> string \<Rightarrow> 'o option \<Rightarrow> string"
  nx_addResourceBundle :: "string \<Rightarrow> string \<Rightarrow> string js_record \<Rightarrow> bool \<Rightarrow> bool \<Rightarrow> 'i \<Rightarrow> 'i"

text \<open>
  The module's variables and the storage; a restart of the application starts its modules
  afresh and keeps the storage.
\<close>

record ('i, 'k) loc_env = env +
  le_instance :: "'i option"
  le_storage :: 'k

definition LANGUAGE_PREFERENCE_KEY :: string where
  "LANGUAGE_PREFERENCE_KEY = ''user_preferred_locale''"

definition loc_log :: "log_level \<Rightarrow> string \<Rightarrow> js_value js_record \<Rightarrow> (('i, 'k) loc_env, js_error, unit) io" where
  "loc_log lvl msg data = emit_log lvl msg ''localization'' data"

definition resolveLocale ::
  "(string \<Rightarrow> 'k \<Rightarrow> string option) \<Rightarrow> string \<Rightarrow> (('i, 'k) loc_env, js_error, string) io" where
  "resolveLocale getString deviceLocale =
     io_bind (io_gets (\<lambda>s. getString LANGUAGE_PREFERENCE_KEY (le_storage s))) (\<lambda>stored.
       case stored of
         Some lang \<Rightarrow>
           if lang \<noteq> [] \<and> lang \<in> set SUPPORTED_LOCALES then
             io_then (loc_log LDebug ''Locale resolved from stored preference'' [(''locale'', JStr lang)]) (io_return lang)
           else io_then (if lang \<noteq> [] then loc_log LInfo ''Stored locale not supported, falling back to device locale''
                           [(''stored'', JStr lang)] else io_return ())
                 (io_then (loc_log LDebug ''Locale resolved from device'' [(''locale'', JStr deviceLocale)])
                   (io_return deviceLocale))
       | None \<Rightarrow> io_then (loc_log LDebug ''Locale resolved from device'' [(''locale'', JStr deviceLocale)])
                   (io_return deviceLocale))"

definition createLocalization ::
  "('i, 'o) i18next \<Rightarrow> (string \<Rightarrow> 'k \<Rightarrow> string option) \<Rightarrow> string \<Rightarrow> (('i, 'k) loc_env, js_error, 'i) io" where
  "createLocalization nx getString deviceLocale =
     io_bind (resolveLocale getString deviceLocale) (\<lambda>lang.
       let fallback = buildFallbackChain lang DEFAULT_LOCALE;
           i = nx_init nx \<lparr>io_lng = lang, io_fallbackLng = fallback, io_supportedLngs = SUPPORTED_LOCALES,
                 io_ns = [], io_escapeValue = False, io_initAsync = False\<rparr>
       in io_then (io_modify (\<lambda>s. s\<lparr>le_instance := Some i\<rparr>))
          (io_then (loc_log LInfo ''Localization initialized''
             [(''locale'', JStr lang), (''fallback'', JArr 0 (map JStr fallback))])
           (io_return i)))"

definition not_initialized :: js_error where
  "not_initialized = JsErr (Some ''Localization not initialized. Call createLocalization() first.'')"

definition translate ::
  "('i, 'o) i18next \<Rightarrow> string \<Rightarrow> 'o option \<Rightarrow> (('i, 'k) loc_env, js_error, string) io" where
  "translate nx key options = io_bind (io_gets le_instance) (\<lambda>i. case i of
     None \<Rightarrow> io_throw not_initialized | Some i \<Rightarrow> io_return (nx_t nx i key options))"

definition getCurrentLocale :: "('i, 'o) i18next \<Rightarrow> (('i, 'k) loc_env, js_error, string) io" where
  "getCurrentLocale nx = io_bind (io_gets le_instance) (\<lambda>i. case i of
     None \<Rightarrow> io_throw not_initialized | Some i \<Rightarrow> io_return (nx_language nx i))"

definition restartApplication :: "(('i, 'k) loc_env, js_error, unit) io" where
  "restartApplication = io_modify (\<lambda>s. s\<lparr>le_instance := None\<rparr>)"

definition changeLanguage ::
  "(string \<Rightarrow> string \<Rightarrow> 'k \<Rightarrow> 'k) \<Rightarrow> string \<Rightarrow> (('i, 'k) loc_env, js_error, unit) io" where
  "changeLanguage setString lang =
     io_then (loc_log LInfo ''Language changed'' [(''locale'', JStr lang)])
     (io_then (io_modify (\<lambda>s. s\<lparr>le_storage := setString LANGUAGE_PREFERENCE_KEY lang (le_storage s)\<rparr>))
      restartApplication)"

section \<open>Translations\<close>

record translation_resource =
  tl_namespace :: string
  tl_locale :: string
  tl_translations :: "string js_record"

definition validateLocaleCoverage :: "string \<Rightarrow> translation_resource list \<Rightarrow> js_error + unit" where
  "validateLocaleCoverage namespace resources =
     (let missing = filter (\<lambda>l. l \<notin> set (map tl_locale resources)) SUPPORTED_LOCALES
      in if missing \<noteq> [] then Inl (JsErr (Some (''Namespace '' @ [CHR 0x22] @ namespace @ [CHR 0x22] @
             '' is missing translations for: '' @ join_with '', '' missing)))
         else Inr ())"

text \<open>The instance after the registration, and the entry of the log.\<close>

definition registerTranslations ::
  "('i, 'o) i18next \<Rightarrow> 'i \<Rightarrow> translation_resource list \<Rightarrow> (('i, 'k) loc_env, js_error, 'i) io" where
  "registerTranslations nx i resources = (case resources of
     [] \<Rightarrow> io_return i
   | r # _ \<Rightarrow> (case validateLocaleCoverage (tl_namespace r) resources of
       Inl e \<Rightarrow> io_throw e
     | Inr _ \<Rightarrow> io_then
         (loc_log LDebug ''Translations registered'' [(''namespace'', JStr (tl_namespace r)),
            (''locales'', JArr 0 (map (\<lambda>r. JStr (tl_locale r)) resources))])
         (io_return (fold (\<lambda>r. nx_addResourceBundle nx (tl_locale r) (tl_namespace r) (tl_translations r) True False)
            resources i))))"

section \<open>The chosen language is the one that is used\<close>

text \<open>What the engine needs of the storage.\<close>

locale preference_storage =
  fixes getString :: "string \<Rightarrow> 'k \<Rightarrow> string option"
    and setString :: "string \<Rightarrow> string \<Rightarrow> 'k \<Rightarrow> 'k"
  assumes get_set: "getString k (setString k v s) = Some v"
begin

lemma language_survives_restart:
  assumes "lang \<in> set SUPPORTED_LOCALES" "\<And>opts. io_lng opts \<in> set (io_supportedLngs opts) \<Longrightarrow> nx_language nx (nx_init nx opts) = io_lng opts"
  shows "fst (io_then (changeLanguage setString lang) (io_then (createLocalization nx getString device) (getCurrentLocale nx)) s) = Inr lang"
proof -
  have "lang \<noteq> []" using assms(1) by (auto simp: SUPPORTED_LOCALES_def)
  with assms show ?thesis
    by (simp add: changeLanguage_def createLocalization_def resolveLocale_def getCurrentLocale_def
        restartApplication_def loc_log_def emit_log_simp io_simps get_set Let_def)
qed

end

interpretation web_preferences: preference_storage "web_getString sid" "web_setString sid"
  by unfold_locales (simp add: web_getString_def web_setString_def AList.update_conv')

interpretation native_preferences:
  preference_storage "native_getString (createFallbackBackend sid)" "native_setString (createFallbackBackend sid)"
  by unfold_locales (simp add: native_kv_defs map_of_with_fallback AList.update_conv')

theorem chosen_language_is_used:
  assumes "lang \<in> set SUPPORTED_LOCALES"
    and "\<And>opts. io_lng opts \<in> set (io_supportedLngs opts) \<Longrightarrow> nx_language nx (nx_init nx opts) = io_lng opts"
  shows "fst (io_then (changeLanguage (web_setString ''ion-localization'') lang)
      (io_then (createLocalization nx (web_getString ''ion-localization'') device) (getCurrentLocale nx)) s) = Inr lang \<and>
    (let fb = createFallbackBackend ''ion-localization'' in
     fst (io_then (changeLanguage (native_setString fb) lang)
      (io_then (createLocalization nx (native_getString fb) device) (getCurrentLocale nx)) t) = Inr lang)"
  using web_preferences.language_survives_restart [OF assms] native_preferences.language_survives_restart [OF assms]
  by (simp add: Let_def)

definition sample_i18next :: "(string, unit) i18next" where
  "sample_i18next = \<lparr>nx_init = io_lng, nx_language = (\<lambda>i. i), nx_t = (\<lambda>i key _. key),
     nx_addResourceBundle = (\<lambda>_ _ _ _ _ i. i)\<rparr>"

theorem chosen_language_is_used_witness:
  "fst (io_then (changeLanguage (web_setString ''ion-localization'') ''fr'')
      (io_then (createLocalization sample_i18next (web_getString ''ion-localization'') ''de'') (getCurrentLocale sample_i18next))
      \<lparr>env_now = 0, env_log = [], le_instance = None, le_storage = []\<rparr>) = Inr ''fr''"
proof -
  have fr: "''fr'' \<in> set SUPPORTED_LOCALES" by (simp add: SUPPORTED_LOCALES_def)
  have nx: "nx_language sample_i18next (nx_init sample_i18next opts) = io_lng opts" for opts
    by (simp add: sample_i18next_def)
  show ?thesis using chosen_language_is_used [OF fr nx] by blast
qed

section \<open>Fallbacks and coverage\<close>

text \<open>The chain starts with the language itself, holds the default, and repeats nothing.\<close>

lemma fallback_chain_shape:
  "hd (buildFallbackChain lang d) = lang \<and> d \<in> set (buildFallbackChain lang d) \<and> distinct (buildFallbackChain lang d)"
proof -
  have shorter: "n < length lang \<Longrightarrow> take n lang \<noteq> lang" for n
    by (metis length_take less_irrefl min.absorb4)
  show ?thesis using shorter by (auto simp: buildFallbackChain_def Let_def dest: sym)
qed

lemma registration_outcome:
  assumes "resources \<noteq> []"
  shows "fst (registerTranslations nx i resources s) =
    (if list_all (\<lambda>l. l \<in> tl_locale ` set resources) SUPPORTED_LOCALES
     then Inr (fold (\<lambda>r. nx_addResourceBundle nx (tl_locale r) (tl_namespace r) (tl_translations r) True False) resources i)
     else Inl (JsErr (Some (''Namespace '' @ [CHR 0x22] @ tl_namespace (hd resources) @ [CHR 0x22] @
       '' is missing translations for: '' @ join_with '', '' (filter (\<lambda>l. l \<notin> tl_locale ` set resources) SUPPORTED_LOCALES)))))"
proof (cases "filter (\<lambda>l. l \<notin> tl_locale ` set resources) SUPPORTED_LOCALES = []")
  case True
  then have "list_all (\<lambda>l. l \<in> tl_locale ` set resources) SUPPORTED_LOCALES"
    by (auto simp: filter_empty_conv list_all_iff)
  with True assms show ?thesis
    by (auto simp: registerTranslations_def validateLocaleCoverage_def loc_log_def emit_log_simp io_simps Let_def
        split: list.splits)
next
  case False
  then have "\<not> list_all (\<lambda>l. l \<in> tl_locale ` set resources) SUPPORTED_LOCALES"
    by (auto simp: filter_empty_conv list_all_iff)
  with False assms show ?thesis
    by (auto simp: registerTranslations_def validateLocaleCoverage_def io_simps Let_def split: list.splits)
qed

text \<open>
  The coverage is that of all resources together: a namespace that comes in one language only is
  accepted when another namespace of the same call has the others.
\<close>

lemma coverage_mixes_namespaces:
  "validateLocaleCoverage ''a'' [\<lparr>tl_namespace = ''a'', tl_locale = ''en'', tl_translations = []\<rparr>,
     \<lparr>tl_namespace = ''b'', tl_locale = ''fr'', tl_translations = []\<rparr>,
     \<lparr>tl_namespace = ''b'', tl_locale = ''de'', tl_translations = []\<rparr>] = Inr ()"
  by (simp add: validateLocaleCoverage_def SUPPORTED_LOCALES_def)

text \<open>The language of a device is not checked against the supported ones.\<close>

lemma device_language_is_taken_as_it_is:
  "le_storage s = [] \<Longrightarrow> fst (resolveLocale (web_getString sid) device s) = Inr device"
  by (simp add: resolveLocale_def web_getString_def loc_log_def emit_log_simp io_simps)

end
