(* ===== verification/Onboarding.thy ===== *)
theory Onboarding
  imports UserSearch
begin

text \<open>
  \<^verbatim>\<open>packages/onboarding/src\<close>: the steps of a new user. The rules for nicknames and referrals,
  the reserved names, the lists of languages and of creators to follow; the other operations are
  stubs in the code too. The flags are lists of code points, which strings here cannot hold, nor the dash
  of one message.
\<close>

section \<open>Types\<close>

record nickname_result =
  nn_isAvailable :: bool
  nn_isReserved :: bool

record language =
  la_code :: string
  la_name :: string
  la_flag :: "nat list"

record creator =
  cr_id :: string
  cr_avatarUrl :: string
  cr_name :: string
  cr_handle :: string
  cr_isVerified :: bool

record creators_page =
  cp_creators :: "creator list"
  cp_hasMore :: bool

section \<open>Nicknames\<close>

text \<open>\<^verbatim>\<open>/^[a-z0-9.]+$/\<close>\<close>

definition nickname_char :: "char \<Rightarrow> bool" where
  "nickname_char c = (let n = of_char c :: nat in (97 \<le> n \<and> n \<le> 122) \<or> (48 \<le> n \<and> n \<le> 57) \<or> n = 46)"

definition NICKNAME_PATTERN :: "string \<Rightarrow> bool" where
  "NICKNAME_PATTERN s \<longleftrightarrow> s \<noteq> [] \<and> list_all nickname_char s"

definition validateNickname :: "string \<Rightarrow> string list \<Rightarrow> nickname_result" where
  "validateNickname nickname reservedNicknames =
     (let isValid = length nickname > 0 \<and> NICKNAME_PATTERN nickname
      in if \<not> isValid then \<lparr>nn_isAvailable = False, nn_isReserved = False\<rparr>
         else if nickname \<in> set reservedNicknames then \<lparr>nn_isAvailable = False, nn_isReserved = True\<rparr>
         else \<lparr>nn_isAvailable = True, nn_isReserved = False\<rparr>)"

definition validateReferral :: "string \<Rightarrow> bool" where
  "validateReferral nickname \<longleftrightarrow> length nickname > 0 \<and> NICKNAME_PATTERN nickname"

definition fetchReservedNicknames :: "string list" where
  "fetchReservedNicknames = [''ion'', ''hades'']"

section \<open>Lists\<close>

definition LANGUAGES :: "language list" where
  "LANGUAGES = [
   \<lparr>la_code = ''am'', la_name = ''Amharic'', la_flag = [0x1F1EA, 0x1F1F9]\<rparr>,
   \<lparr>la_code = ''ar'', la_name = ''Arabic'', la_flag = [0x1F1F8, 0x1F1E6]\<rparr>,
   \<lparr>la_code = ''hy'', la_name = ''Armenian'', la_flag = [0x1F1E6, 0x1F1F2]\<rparr>,
   \<lparr>la_code = ''az'', la_name = ''Azerbaijani'', la_flag = [0x1F1E6, 0x1F1FF]\<rparr>,
   \<lparr>la_code = ''bn'', la_name = ''Bangla'', la_flag = [0x1F1E7, 0x1F1E9]\<rparr>,
   \<lparr>la_code = ''eu'', la_name = ''Basque'', la_flag = [0x1F1EA, 0x1F1F8]\<rparr>,
   \<lparr>la_code = ''bg'', la_name = ''Bulgarian'', la_flag = [0x1F1E7, 0x1F1EC]\<rparr>,
   \<lparr>la_code = ''my'', la_name = ''Burmese'', la_flag = [0x1F1F2, 0x1F1F2]\<rparr>,
   \<lparr>la_code = ''ca'', la_name = ''Catalan'', la_flag = [0x1F1EA, 0x1F1F8]\<rparr>,
   \<lparr>la_code = ''ckb'', la_name = ''Central Kurdish'', la_flag = [0x1F1EE, 0x1F1F6]\<rparr>,
   \<lparr>la_code = ''zh'', la_name = ''Chinese'', la_flag = [0x1F1E8, 0x1F1F3]\<rparr>,
   \<lparr>la_code = ''cs'', la_name = ''Czech'', la_flag = [0x1F1E8, 0x1F1FF]\<rparr>,
   \<lparr>la_code = ''da'', la_name = ''Danish'', la_flag = [0x1F1E9, 0x1F1F0]\<rparr>,
   \<lparr>la_code = ''dv'', la_name = ''Divehi'', la_flag = [0x1F1F2, 0x1F1FB]\<rparr>,
   \<lparr>la_code = ''nl'', la_name = ''Dutch'', la_flag = [0x1F1F3, 0x1F1F1]\<rparr>,
   \<lparr>la_code = ''en'', la_name = ''English'', la_flag = [0x1F1EC, 0x1F1E7]\<rparr>,
   \<lparr>la_code = ''eo'', la_name = ''Esperanto'', la_flag = [0x1F30D]\<rparr>,
   \<lparr>la_code = ''et'', la_name = ''Estonian'', la_flag = [0x1F1EA, 0x1F1EA]\<rparr>,
   \<lparr>la_code = ''fi'', la_name = ''Finnish'', la_flag = [0x1F1EB, 0x1F1EE]\<rparr>,
   \<lparr>la_code = ''fr'', la_name = ''French'', la_flag = [0x1F1EB, 0x1F1F7]\<rparr>,
   \<lparr>la_code = ''ka'', la_name = ''Georgian'', la_flag = [0x1F1EC, 0x1F1EA]\<rparr>,
   \<lparr>la_code = ''de'', la_name = ''German'', la_flag = [0x1F1E9, 0x1F1EA]\<rparr>,
   \<lparr>la_code = ''el'', la_name = ''Greek'', la_flag = [0x1F1EC, 0x1F1F7]\<rparr>,
   \<lparr>la_code = ''gu'', la_name = ''Gujarati'', la_flag = [0x1F1EE, 0x1F1F3]\<rparr>,
   \<lparr>la_code = ''ht'', la_name = ''Haitian Creole'', la_flag = [0x1F1ED, 0x1F1F9]\<rparr>,
   \<lparr>la_code = ''he'', la_name = ''Hebrew'', la_flag = [0x1F1EE, 0x1F1F1]\<rparr>,
   \<lparr>la_code = ''hi'', la_name = ''Hindi'', la_flag = [0x1F1EE, 0x1F1F3]\<rparr>,
   \<lparr>la_code = ''hu'', la_name = ''Hungarian'', la_flag = [0x1F1ED, 0x1F1FA]\<rparr>,
   \<lparr>la_code = ''is'', la_name = ''Icelandic'', la_flag = [0x1F1EE, 0x1F1F8]\<rparr>,
   \<lparr>la_code = ''id'', la_name = ''Indonesian'', la_flag = [0x1F1EE, 0x1F1E9]\<rparr>,
   \<lparr>la_code = ''it'', la_name = ''Italian'', la_flag = [0x1F1EE, 0x1F1F9]\<rparr>,
   \<lparr>la_code = ''ja'', la_name = ''Japanese'', la_flag = [0x1F1EF, 0x1F1F5]\<rparr>,
   \<lparr>la_code = ''kn'', la_name = ''Kannada'', la_flag = [0x1F1EE, 0x1F1F3]\<rparr>,
   \<lparr>la_code = ''kk'', la_name = ''Kazakh'', la_flag = [0x1F1F0, 0x1F1FF]\<rparr>,
   \<lparr>la_code = ''km'', la_name = ''Khmer'', la_flag = [0x1F1F0, 0x1F1ED]\<rparr>,
   \<lparr>la_code = ''ko'', la_name = ''Korean'', la_flag = [0x1F1F0, 0x1F1F7]\<rparr>,
   \<lparr>la_code = ''lo'', la_name = ''Lao'', la_flag = [0x1F1F1, 0x1F1E6]\<rparr>,
   \<lparr>la_code = ''lv'', la_name = ''Latvian'', la_flag = [0x1F1F1, 0x1F1FB]\<rparr>,
   \<lparr>la_code = ''lt'', la_name = ''Lithuanian'', la_flag = [0x1F1F1, 0x1F1F9]\<rparr>,
   \<lparr>la_code = ''ms'', la_name = ''Malay'', la_flag = [0x1F1F2, 0x1F1FE]\<rparr>,
   \<lparr>la_code = ''ml'', la_name = ''Malayalam'', la_flag = [0x1F1EE, 0x1F1F3]\<rparr>,
   \<lparr>la_code = ''mr'', la_name = ''Marathi'', la_flag = [0x1F1EE, 0x1F1F3]\<rparr>,
   \<lparr>la_code = ''ne'', la_name = ''Nepali'', la_flag = [0x1F1F3, 0x1F1F5]\<rparr>,
   \<lparr>la_code = ''no'', la_name = ''Norwegian'', la_flag = [0x1F1F3, 0x1F1F4]\<rparr>,
   \<lparr>la_code = ''or'', la_name = ''Odia'', la_flag = [0x1F1EE, 0x1F1F3]\<rparr>,
   \<lparr>la_code = ''ps'', la_name = ''Pashto'', la_flag = [0x1F1E6, 0x1F1EB]\<rparr>,
   \<lparr>la_code = ''fa'', la_name = ''Persian'', la_flag = [0x1F1EE, 0x1F1F7]\<rparr>,
   \<lparr>la_code = ''pl'', la_name = ''Polish'', la_flag = [0x1F1F5, 0x1F1F1]\<rparr>,
   \<lparr>la_code = ''pt'', la_name = ''Portuguese'', la_flag = [0x1F1F5, 0x1F1F9]\<rparr>,
   \<lparr>la_code = ''pa'', la_name = ''Punjabi'', la_flag = [0x1F1EE, 0x1F1F3]\<rparr>,
   \<lparr>la_code = ''ro'', la_name = ''Romanian'', la_flag = [0x1F1F7, 0x1F1F4]\<rparr>,
   \<lparr>la_code = ''ru'', la_name = ''Russian'', la_flag = [0x1F1F7, 0x1F1FA]\<rparr>,
   \<lparr>la_code = ''sr'', la_name = ''Serbian'', la_flag = [0x1F1F7, 0x1F1F8]\<rparr>,
   \<lparr>la_code = ''sd'', la_name = ''Sindhi'', la_flag = [0x1F1F5, 0x1F1F0]\<rparr>,
   \<lparr>la_code = ''si'', la_name = ''Sinhala'', la_flag = [0x1F1F1, 0x1F1F0]\<rparr>,
   \<lparr>la_code = ''sl'', la_name = ''Slovenian'', la_flag = [0x1F1F8, 0x1F1EE]\<rparr>,
   \<lparr>la_code = ''es'', la_name = ''Spanish'', la_flag = [0x1F1EA, 0x1F1F8]\<rparr>,
   \<lparr>la_code = ''sv'', la_name = ''Swedish'', la_flag = [0x1F1F8, 0x1F1EA]\<rparr>,
   \<lparr>la_code = ''tl'', la_name = ''Tagalog'', la_flag = [0x1F1F5, 0x1F1ED]\<rparr>,
   \<lparr>la_code = ''ta'', la_name = ''Tamil'', la_flag = [0x1F1EE, 0x1F1F3]\<rparr>,
   \<lparr>la_code = ''te'', la_name = ''Telugu'', la_flag = [0x1F1EE, 0x1F1F3]\<rparr>,
   \<lparr>la_code = ''th'', la_name = ''Thai'', la_flag = [0x1F1F9, 0x1F1ED]\<rparr>,
   \<lparr>la_code = ''bo'', la_name = ''Tibetan'', la_flag = [0x1F1E8, 0x1F1F3]\<rparr>,
   \<lparr>la_code = ''tr'', la_name = ''Turkish'', la_flag = [0x1F1F9, 0x1F1F7]\<rparr>,
   \<lparr>la_code = ''uk'', la_name = ''Ukrainian'', la_flag = [0x1F1FA, 0x1F1E6]\<rparr>,
   \<lparr>la_code = ''ur'', la_name = ''Urdu'', la_flag = [0x1F1F5, 0x1F1F0]\<rparr>,
   \<lparr>la_code = ''ug'', la_name = ''Uyghur'', la_flag = [0x1F1E8, 0x1F1F3]\<rparr>,
   \<lparr>la_code = ''vi'', la_name = ''Vietnamese'', la_flag = [0x1F1FB, 0x1F1F3]\<rparr>,
   \<lparr>la_code = ''cy'', la_name = ''Welsh'', la_flag = [0x1F3F4]\<rparr>
  ]"

definition fetchLanguages :: "language list" where
  "fetchLanguages = map (\<lambda>lang. lang) LANGUAGES"

definition STUB_CREATORS :: "creator list" where
  "STUB_CREATORS = [
   \<lparr>cr_id = ''1'', cr_avatarUrl = [], cr_name = ''Alex Rivers'', cr_handle = ''alexrivers'', cr_isVerified = True\<rparr>,
   \<lparr>cr_id = ''2'', cr_avatarUrl = [], cr_name = ''Jordan Blake'', cr_handle = ''jordanblake'', cr_isVerified = False\<rparr>,
   \<lparr>cr_id = ''3'', cr_avatarUrl = [], cr_name = ''Sam Nakamura'', cr_handle = ''samnakamura'', cr_isVerified = True\<rparr>,
   \<lparr>cr_id = ''4'', cr_avatarUrl = [], cr_name = ''Taylor Chen'', cr_handle = ''taylorchen'', cr_isVerified = False\<rparr>,
   \<lparr>cr_id = ''5'', cr_avatarUrl = [], cr_name = ''Morgan Ellis'', cr_handle = ''morganellis'', cr_isVerified = True\<rparr>,
   \<lparr>cr_id = ''6'', cr_avatarUrl = [], cr_name = ''Casey Dunn'', cr_handle = ''caseydunn'', cr_isVerified = False\<rparr>,
   \<lparr>cr_id = ''7'', cr_avatarUrl = [], cr_name = ''Riley Foster'', cr_handle = ''rileyfoster'', cr_isVerified = True\<rparr>,
   \<lparr>cr_id = ''8'', cr_avatarUrl = [], cr_name = ''Drew Patel'', cr_handle = ''drewpatel'', cr_isVerified = False\<rparr>
  ]"

definition fetchSuggestedCreators :: "int \<Rightarrow> creators_page" where
  "fetchSuggestedCreators page =
     (let pageSize = 8; start = page * pageSize
      in \<lparr>cp_creators = js_slice start (start + pageSize) STUB_CREATORS,
          cp_hasMore = start + pageSize < int (length STUB_CREATORS)\<rparr>)"

section \<open>Stubs\<close>

definition saveProfile :: "'p \<Rightarrow> js_error + bool" where
  "saveProfile _ = Inr True"

definition saveSelectedLanguages :: "string list \<Rightarrow> js_error + unit" where
  "saveSelectedLanguages _ = Inr ()"

definition uploadAvatar :: "string \<Rightarrow> js_error + string" where
  "uploadAvatar _ = Inl (JsErr (Some (''uploadAvatar not implemented - wire to @ion/media-upload'')))"

definition followCreator :: "string \<Rightarrow> js_error + unit" where
  "followCreator _ = Inr ()"

definition unfollowCreator :: "string \<Rightarrow> js_error + unit" where
  "unfollowCreator _ = Inr ()"

definition completeOnboarding :: "js_error + unit" where
  "completeOnboarding = Inr ()"

definition onboarding_requestNotificationPermission :: "js_error + unit" where
  "onboarding_requestNotificationPermission = Inr ()"

section \<open>What the rules say\<close>

lemma nickname_is_available_iff:
  "nn_isAvailable (validateNickname n reserved) \<longleftrightarrow> validateReferral n \<and> n \<notin> set reserved"
  by (auto simp: validateNickname_def validateReferral_def Let_def)

text \<open>
  Names are told apart by their exact text: one that differs from a reserved name by dots is not
  reserved, and dots alone are a name.
\<close>

lemma dots_escape_the_reserved_names:
  "nn_isAvailable (validateNickname ''ion.'' fetchReservedNicknames) \<and> nn_isAvailable (validateNickname ''.'' fetchReservedNicknames)"
  by (simp add: validateNickname_def NICKNAME_PATTERN_def nickname_char_def fetchReservedNicknames_def)

lemma creators_are_one_page:
  "cp_creators (fetchSuggestedCreators 0) = STUB_CREATORS \<and> \<not> cp_hasMore (fetchSuggestedCreators 0)"
  by (simp add: fetchSuggestedCreators_def js_slice_def STUB_CREATORS_def Let_def)

lemma language_codes_are_distinct: "distinct (map la_code fetchLanguages)"
  by (simp add: fetchLanguages_def LANGUAGES_def)

end
