(* ===== verification/MediaProcessing.thy ===== *)
theory MediaProcessing
  imports NetworkTypes
begin

text \<open>
  \<^verbatim>\<open>packages/media-processing/src\<close>: pictures, videos and sound made smaller before they are
  uploaded. Everything the platform does (image manipulation, codecs, canvas, files) is a
  parameter; what is checked, what is asked of the platform, the dimensions and the answer are
  here. The WAV file made on the web is in \<^verbatim>\<open>WavAudio\<close>.

  A number given by the caller is a rational, infinity or \<^verbatim>\<open>NaN\<close>; minus infinity is left out.
  An asynchronous step is a sum, since none of these operations keeps a state.
\<close>

section \<open>Checks of the arguments\<close>

datatype js_num = Fin rat | Infinite | NotANumber

fun truthy_num :: "js_num \<Rightarrow> bool" where
  "truthy_num (Fin q) = (q \<noteq> 0)"
| "truthy_num Infinite = True"
| "truthy_num NotANumber = False"

definition truthy_opt :: "js_num option \<Rightarrow> bool" where
  "truthy_opt x = (case x of None \<Rightarrow> False | Some n \<Rightarrow> truthy_num n)"

record crop_region =
  cr_x :: rat
  cr_y :: rat
  cr_width :: rat
  cr_height :: rat

definition js_fail :: "string \<Rightarrow> js_error + 'a" where
  "js_fail msg = Inl (JsErr (Some msg))"

definition assertValidCropRegion :: "crop_region \<Rightarrow> js_error + unit" where
  "assertValidCropRegion region =
     (if cr_x region < 0 \<or> cr_y region < 0 then js_fail ''Crop region coordinates must be non-negative''
      else if cr_width region \<le> 0 \<or> cr_height region \<le> 0 then js_fail ''Crop region dimensions must be positive''
      else Inr ())"

definition clampQuality :: "js_num \<Rightarrow> rat \<Rightarrow> rat \<Rightarrow> rat" where
  "clampQuality quality mn mx = (case quality of Fin q \<Rightarrow> max mn (min mx q) | _ \<Rightarrow> mn)"

definition assertFinitePositive :: "js_num \<Rightarrow> string \<Rightarrow> js_error + rat" where
  "assertFinitePositive value name = (case value of
     Fin q \<Rightarrow> if q \<le> 0 then js_fail (name @ '' must be a finite positive number'') else Inr q
   | _ \<Rightarrow> js_fail (name @ '' must be a finite positive number''))"

text \<open>\<^verbatim>\<open>/^[a-zA-Z][a-zA-Z0-9+.-]*:\/\/[a-zA-Z0-9._~:/?#[\]@%=-]+$/\<close>\<close>

definition is_letter :: "char \<Rightarrow> bool" where
  "is_letter c = (let n = of_char c :: nat in (65 \<le> n \<and> n \<le> 90) \<or> (97 \<le> n \<and> n \<le> 122))"

definition scheme_char :: "char \<Rightarrow> bool" where
  "scheme_char c \<longleftrightarrow> is_alnum c \<or> c \<in> set ''+.-''"

definition safe_uri_char :: "char \<Rightarrow> bool" where
  "safe_uri_char c \<longleftrightarrow> is_alnum c \<or> c \<in> set ''._~:/?#[]@%=-''"

definition SAFE_URI_PATTERN :: "string \<Rightarrow> bool" where
  "SAFE_URI_PATTERN uri =
     (let scheme = takeWhile scheme_char uri; rest = dropWhile scheme_char uri
      in (case scheme of [] \<Rightarrow> False | c # _ \<Rightarrow> is_letter c) \<and> prefix ''://'' rest \<and>
         drop 3 rest \<noteq> [] \<and> list_all safe_uri_char (drop 3 rest))"

definition assertSafeUri :: "string \<Rightarrow> js_error + unit" where
  "assertSafeUri uri =
     (if uri = [] \<or> \<not> SAFE_URI_PATTERN uri then js_fail ''URI contains unsafe characters'' else Inr ())"

section \<open>Types\<close>

record processing_options =
  po_maxWidth :: "js_num option"
  po_maxHeight :: "js_num option"
  po_quality :: "js_num option"
  po_format :: "string option"

record processed_media =
  md_uri :: string
  md_mimeType :: string
  md_fileSize :: int
  md_width :: rat
  md_height :: rat
  md_blurhash :: string

record video_processing_options =
  vp_maxWidth :: "js_num option"
  vp_maxHeight :: "js_num option"
  vp_bitrate :: "js_num option"

record audio_options =
  ao_bitrate :: "js_num option"
  ao_sampleRate :: "js_num option"

section \<open>Native\<close>

datatype image_action = ResizeTo "rat option" "rat option" | CropTo crop_region

record save_options =
  sv_compress :: "rat option"
  sv_format :: string

record manipulated =
  mn_uri :: string
  mn_width :: rat
  mn_height :: rat
  mn_base64 :: "string option"

text \<open>
  The modules of the platform: \<^verbatim>\<open>manipulateAsync\<close> (with its options of saving, and whether the
  result is wanted in base 64), the size of a file if it exists, the pixels of a PNG, the
  encoder of blurhashes, the video compressor, the first stream of a file, FFmpeg, and which of
  two rejections comes first.
\<close>

record native_media =
  nm_manipulate :: "string \<Rightarrow> image_action list \<Rightarrow> save_options option \<Rightarrow> bool \<Rightarrow> js_error + manipulated"
  nm_fileInfo :: "string \<Rightarrow> js_error + int option option"
  nm_pngPixels :: "string \<Rightarrow> nat list"
  nm_blurhash :: "nat list \<Rightarrow> nat \<Rightarrow> nat \<Rightarrow> nat \<Rightarrow> nat \<Rightarrow> string"
  nm_compressVideo :: "string \<Rightarrow> rat option \<Rightarrow> rat option \<Rightarrow> js_error + string"
  nm_firstStream :: "string \<Rightarrow> js_error + (rat \<times> rat) option"
  nm_ffmpeg :: "string \<Rightarrow> js_error + bool"
  nm_show :: "rat \<Rightarrow> string"
  nm_rejected :: "js_error \<Rightarrow> js_error \<Rightarrow> js_error"

definition both_of :: "native_media \<Rightarrow> js_error + 'a \<Rightarrow> js_error + 'b \<Rightarrow> js_error + 'a \<times> 'b" where
  "both_of nm a b = (case a of
     Inl e \<Rightarrow> (case b of Inl f \<Rightarrow> Inl (nm_rejected nm e f) | Inr _ \<Rightarrow> Inl e)
   | Inr x \<Rightarrow> (case b of Inl f \<Rightarrow> Inl f | Inr y \<Rightarrow> Inr (x, y)))"

definition getFileSize :: "native_media \<Rightarrow> string \<Rightarrow> js_error + int" where
  "getFileSize nm uri = (case nm_fileInfo nm uri of
     Inl e \<Rightarrow> Inl e
   | Inr (Some (Some n)) \<Rightarrow> Inr n
   | Inr _ \<Rightarrow> Inr 0)"

definition decodeBase64Pixels :: "native_media \<Rightarrow> string \<Rightarrow> nat \<Rightarrow> nat list" where
  "decodeBase64Pixels nm base64 sz = take (sz * sz * 4) (nm_pngPixels nm base64)"

definition native_generateBlurhash :: "native_media \<Rightarrow> string \<Rightarrow> js_error + string" where
  "native_generateBlurhash nm uri =
     (case nm_manipulate nm uri [ResizeTo (Some 32) (Some 32)] (Some \<lparr>sv_compress = None, sv_format = ''png''\<rparr>) True of
        Inl e \<Rightarrow> Inl e
      | Inr result \<Rightarrow> (case mn_base64 result of
          None \<Rightarrow> Inr []
        | Some b \<Rightarrow> if b = [] then Inr [] else Inr (nm_blurhash nm (decodeBase64Pixels nm b 32) 32 32 4 3)))"

definition native_getImageDimensions :: "native_media \<Rightarrow> string \<Rightarrow> js_error + rat \<times> rat" where
  "native_getImageDimensions nm uri = (case nm_manipulate nm uri [] None False of
     Inl e \<Rightarrow> Inl e | Inr result \<Rightarrow> Inr (mn_width result, mn_height result))"

definition opt_field :: "('a \<Rightarrow> 'b option) \<Rightarrow> 'a option \<Rightarrow> 'b option" where
  "opt_field f options = Option.bind options f"

definition buildActions :: "processing_options option \<Rightarrow> js_error + image_action list" where
  "buildActions options =
     (let w = opt_field po_maxWidth options; h = opt_field po_maxHeight options
      in if \<not> truthy_opt w \<and> \<not> truthy_opt h then Inr []
         else (case (if truthy_opt w then map_sum id Some (assertFinitePositive (the w) ''maxWidth'') else Inr None) of
           Inl e \<Rightarrow> Inl e
         | Inr width \<Rightarrow>
             (case (if truthy_opt h then map_sum id Some (assertFinitePositive (the h) ''maxHeight'') else Inr None) of
                Inl e \<Rightarrow> Inl e | Inr height \<Rightarrow> Inr [ResizeTo width height])))"

definition resolveFormat :: "string option \<Rightarrow> string" where
  "resolveFormat format =
     (if format = Some ''png'' then ''png'' else if format = Some ''webp'' then ''webp'' else ''jpeg'')"

definition resolveMimeType :: "string option \<Rightarrow> string" where
  "resolveMimeType format =
     (if format = Some ''png'' then ''image/png'' else if format = Some ''webp'' then ''image/webp''
      else ''image/jpeg'')"

definition quality_of :: "processing_options option \<Rightarrow> rat" where
  "quality_of options =
     clampQuality (case opt_field po_quality options of None \<Rightarrow> Fin (8 / 10) | Some q \<Rightarrow> q) 0 1"

definition buildSaveOptions :: "processing_options option \<Rightarrow> save_options" where
  "buildSaveOptions options =
     \<lparr>sv_compress = Some (quality_of options), sv_format = resolveFormat (opt_field po_format options)\<rparr>"

definition measured :: "native_media \<Rightarrow> manipulated \<Rightarrow> string \<Rightarrow> js_error + processed_media" where
  "measured nm result mime =
     (case both_of nm (native_generateBlurhash nm (mn_uri result)) (getFileSize nm (mn_uri result)) of
        Inl e \<Rightarrow> Inl e
      | Inr (blurhash, fileSize) \<Rightarrow>
          Inr \<lparr>md_uri = mn_uri result, md_mimeType = mime, md_fileSize = fileSize,
               md_width = mn_width result, md_height = mn_height result, md_blurhash = blurhash\<rparr>)"

definition native_compressImage ::
  "native_media \<Rightarrow> string \<Rightarrow> processing_options option \<Rightarrow> js_error + processed_media" where
  "native_compressImage nm uri options = (case assertSafeUri uri of
     Inl e \<Rightarrow> Inl e
   | Inr _ \<Rightarrow> (case buildActions options of
       Inl e \<Rightarrow> Inl e
     | Inr actions \<Rightarrow>
         (let saveOptions = buildSaveOptions options
          in case nm_manipulate nm uri actions (Some saveOptions) False of
               Inl e \<Rightarrow> Inl e
             | Inr result \<Rightarrow> measured nm result (resolveMimeType (Some (sv_format saveOptions))))))"

definition native_cropImage :: "native_media \<Rightarrow> string \<Rightarrow> crop_region \<Rightarrow> js_error + processed_media" where
  "native_cropImage nm uri region = (case assertSafeUri uri of
     Inl e \<Rightarrow> Inl e
   | Inr _ \<Rightarrow> (case assertValidCropRegion region of
       Inl e \<Rightarrow> Inl e
     | Inr _ \<Rightarrow> (case nm_manipulate nm uri [CropTo region] None False of
         Inl e \<Rightarrow> Inl e
       | Inr result \<Rightarrow> measured nm result ''image/png'')))"

definition buildCompressOptions ::
  "video_processing_options option \<Rightarrow> js_error + rat option \<times> rat option" where
  "buildCompressOptions options =
     (let w = opt_field vp_maxWidth options; b = opt_field vp_bitrate options
      in case (if truthy_opt w then map_sum id Some (assertFinitePositive (the w) ''maxWidth'') else Inr None) of
           Inl e \<Rightarrow> Inl e
         | Inr maxSize \<Rightarrow>
             (case (if truthy_opt b then map_sum id Some (assertFinitePositive (the b) ''bitrate'') else Inr None) of
                Inl e \<Rightarrow> Inl e | Inr bitrate \<Rightarrow> Inr (maxSize, bitrate)))"

definition probeVideoDimensions :: "native_media \<Rightarrow> string \<Rightarrow> js_error + rat \<times> rat" where
  "probeVideoDimensions nm uri = (case nm_firstStream nm uri of
     Inl e \<Rightarrow> Inl e | Inr None \<Rightarrow> Inr (0, 0) | Inr (Some d) \<Rightarrow> Inr d)"

definition native_compressVideo ::
  "native_media \<Rightarrow> string \<Rightarrow> video_processing_options option \<Rightarrow> js_error + processed_media" where
  "native_compressVideo nm uri options = (case assertSafeUri uri of
     Inl e \<Rightarrow> Inl e
   | Inr _ \<Rightarrow> (case buildCompressOptions options of
       Inl e \<Rightarrow> Inl e
     | Inr (maxSize, bitrate) \<Rightarrow> (case nm_compressVideo nm uri maxSize bitrate of
         Inl e \<Rightarrow> Inl e
       | Inr resultUri \<Rightarrow>
           (case both_of nm (both_of nm (native_generateBlurhash nm resultUri) (getFileSize nm resultUri))
                   (probeVideoDimensions nm resultUri) of
              Inl e \<Rightarrow> Inl e
            | Inr ((blurhash, fileSize), (width, height)) \<Rightarrow>
                Inr \<lparr>md_uri = resultUri, md_mimeType = ''video/mp4'', md_fileSize = fileSize,
                     md_width = width, md_height = height, md_blurhash = blurhash\<rparr>))))"

section \<open>The command for FFmpeg\<close>

text \<open>\<^verbatim>\<open>inputUri.replace(/\.[^.]+$/, "")\<close>: what follows the last dot, if anything does.\<close>

definition buildOutputUri :: "string \<Rightarrow> string" where
  "buildOutputUri inputUri =
     (let ext = takeWhile (\<lambda>c. c \<noteq> CHR ''.'') (rev inputUri);
          base = (if ext \<noteq> [] \<and> length ext < length inputUri
                  then take (length inputUri - length ext - 1) inputUri else inputUri)
      in base @ ''_audio.ogg'')"

definition in_quotes :: "string \<Rightarrow> string" where
  "in_quotes s = CHR 0x22 # s @ [CHR 0x22]"

definition number_or :: "rat \<Rightarrow> (audio_options \<Rightarrow> js_num option) \<Rightarrow> audio_options option \<Rightarrow> js_num" where
  "number_or d f options = (case opt_field f options of None \<Rightarrow> Fin d | Some n \<Rightarrow> n)"

definition buildFfmpegCommand ::
  "(rat \<Rightarrow> string) \<Rightarrow> string \<Rightarrow> string \<Rightarrow> audio_options option \<Rightarrow> js_error + string" where
  "buildFfmpegCommand show_num inputUri outputUri options =
     (case assertFinitePositive (number_or 128000 ao_bitrate options) ''bitrate'' of
        Inl e \<Rightarrow> Inl e
      | Inr bitrate \<Rightarrow>
          (case assertFinitePositive (number_or 48000 ao_sampleRate options) ''sampleRate'' of
             Inl e \<Rightarrow> Inl e
           | Inr sampleRate \<Rightarrow> Inr (join_with '' ''
               [''-i '' @ in_quotes inputUri, ''-vn'', ''-c:a libopus'', ''-b:a '' @ show_num bitrate,
                ''-ar '' @ show_num sampleRate, ''-y '' @ in_quotes outputUri])))"

definition native_extractAudio ::
  "native_media \<Rightarrow> string \<Rightarrow> audio_options option \<Rightarrow> js_error + processed_media" where
  "native_extractAudio nm uri options = (case assertSafeUri uri of
     Inl e \<Rightarrow> Inl e
   | Inr _ \<Rightarrow>
       (let outputUri = buildOutputUri uri
        in case buildFfmpegCommand (nm_show nm) uri outputUri options of
             Inl e \<Rightarrow> Inl e
           | Inr command \<Rightarrow> (case nm_ffmpeg nm command of
               Inl e \<Rightarrow> Inl e
             | Inr success \<Rightarrow>
                 if \<not> success then js_fail ''Audio extraction failed''
                 else (case getFileSize nm outputUri of
                   Inl e \<Rightarrow> Inl e
                 | Inr fileSize \<Rightarrow>
                     Inr \<lparr>md_uri = outputUri, md_mimeType = ''audio/ogg; codecs=opus'', md_fileSize = fileSize,
                          md_width = 0, md_height = 0, md_blurhash = []\<rparr>))))"

section \<open>Web\<close>

datatype 'a load_outcome = Loaded 'a | LoadFailed | LoadTimedOut

text \<open>
  What the browser does: a picture or video loads, fails or does not answer in 30 seconds; it is
  drawn (or a region of it) on a canvas of a size, if there is a 2D context; a canvas becomes a
  blob, or not; the pixels of a 32 by 32 copy of a canvas or picture; \<^verbatim>\<open>fetch\<close> with its timeout.
\<close>

record ('img, 'cv, 'blob) web_media =
  wm_image :: "string \<Rightarrow> 'img load_outcome"
  wm_video :: "string \<Rightarrow> 'img load_outcome"
  wm_size :: "'img \<Rightarrow> rat \<times> rat"
  wm_draw :: "'img \<Rightarrow> crop_region option \<Rightarrow> rat \<Rightarrow> rat \<Rightarrow> 'cv option"
  wm_toBlob :: "'cv \<Rightarrow> string \<Rightarrow> rat option \<Rightarrow> 'blob option"
  wm_blobSize :: "'blob \<Rightarrow> int"
  wm_objectUrl :: "'blob \<Rightarrow> string"
  wm_shrunkCanvas :: "'cv \<Rightarrow> nat list option"
  wm_shrunkImage :: "'img \<Rightarrow> nat list option"
  wm_blurhash :: "nat list \<Rightarrow> nat \<Rightarrow> nat \<Rightarrow> nat \<Rightarrow> nat \<Rightarrow> string"
  wm_fetch :: "string \<Rightarrow> js_error + (bool \<times> int) \<times> 'blob"

definition loadImage :: "('img, 'cv, 'blob) web_media \<Rightarrow> string \<Rightarrow> js_error + 'img" where
  "loadImage wm uri = (case wm_image wm uri of
     Loaded img \<Rightarrow> Inr img
   | LoadFailed \<Rightarrow> js_fail ''Failed to load image''
   | LoadTimedOut \<Rightarrow> js_fail ''Image load timed out'')"

definition loadVideo :: "('img, 'cv, 'blob) web_media \<Rightarrow> string \<Rightarrow> js_error + 'img" where
  "loadVideo wm uri = (case wm_video wm uri of
     Loaded v \<Rightarrow> Inr v
   | LoadFailed \<Rightarrow> js_fail ''Failed to load video''
   | LoadTimedOut \<Rightarrow> js_fail ''Video load timed out'')"

text \<open>\<^verbatim>\<open>Math.round\<close>, and \<^verbatim>\<open>max && n > max\<close>: infinity bounds nothing, \<^verbatim>\<open>NaN\<close> is falsy.\<close>

definition math_round :: "rat \<Rightarrow> rat" where
  "math_round x = of_int \<lfloor>x + 1 / 2\<rfloor>"

definition exceeds :: "rat \<Rightarrow> js_num option \<Rightarrow> rat option" where
  "exceeds n bound = (case bound of Some (Fin m) \<Rightarrow> if m \<noteq> 0 \<and> m < n then Some m else None | _ \<Rightarrow> None)"

definition computeDimensions :: "rat \<times> rat \<Rightarrow> js_num option \<Rightarrow> js_num option \<Rightarrow> rat \<times> rat" where
  "computeDimensions natural maxWidth maxHeight =
     (let (width, height) = natural;
          (width, height) = (case exceeds width maxWidth of
             None \<Rightarrow> (width, height) | Some m \<Rightarrow> (m, math_round (height * (m / width))))
      in case exceeds height maxHeight of
           None \<Rightarrow> (width, height) | Some m \<Rightarrow> (math_round (width * (m / height)), m))"

definition drawToCanvas ::
  "('img, 'cv, 'blob) web_media \<Rightarrow> 'img \<Rightarrow> crop_region option \<Rightarrow> rat \<Rightarrow> rat \<Rightarrow> js_error + 'cv" where
  "drawToCanvas wm img region width height = (case wm_draw wm img region width height of
     None \<Rightarrow> js_fail ''Failed to create canvas context'' | Some cv \<Rightarrow> Inr cv)"

definition canvasToBlob ::
  "('img, 'cv, 'blob) web_media \<Rightarrow> string \<Rightarrow> 'cv \<Rightarrow> string \<Rightarrow> rat option \<Rightarrow> js_error + 'blob" where
  "canvasToBlob wm failure cv mimeType quality = (case wm_toBlob wm cv mimeType quality of
     Some blob \<Rightarrow> Inr blob | None \<Rightarrow> js_fail failure)"

definition encodeBlurhash :: "('img, 'cv, 'blob) web_media \<Rightarrow> 'cv \<Rightarrow> string" where
  "encodeBlurhash wm cv = (case wm_shrunkCanvas wm cv of
     None \<Rightarrow> [] | Some pixels \<Rightarrow> wm_blurhash wm pixels 32 32 4 3)"

definition web_compressImage ::
  "('img, 'cv, 'blob) web_media \<Rightarrow> string \<Rightarrow> processing_options option \<Rightarrow> js_error + processed_media" where
  "web_compressImage wm uri options = (case assertSafeUri uri of
     Inl e \<Rightarrow> Inl e
   | Inr _ \<Rightarrow> (case loadImage wm uri of
       Inl e \<Rightarrow> Inl e
     | Inr img \<Rightarrow>
         (case computeDimensions (wm_size wm img) (opt_field po_maxWidth options) (opt_field po_maxHeight options) of
           (width, height) \<Rightarrow> (case drawToCanvas wm img None width height of
             Inl e \<Rightarrow> Inl e
           | Inr cv \<Rightarrow>
               (let mimeType = resolveMimeType (opt_field po_format options)
                in case canvasToBlob wm ''Failed to compress image'' cv mimeType (Some (quality_of options)) of
                     Inl e \<Rightarrow> Inl e
                   | Inr blob \<Rightarrow>
                       Inr \<lparr>md_uri = wm_objectUrl wm blob, md_mimeType = mimeType, md_fileSize = wm_blobSize wm blob,
                            md_width = width, md_height = height, md_blurhash = encodeBlurhash wm cv\<rparr>)))))"

definition web_cropImage ::
  "('img, 'cv, 'blob) web_media \<Rightarrow> string \<Rightarrow> crop_region \<Rightarrow> js_error + processed_media" where
  "web_cropImage wm uri region = (case assertSafeUri uri of
     Inl e \<Rightarrow> Inl e
   | Inr _ \<Rightarrow> (case assertValidCropRegion region of
       Inl e \<Rightarrow> Inl e
     | Inr _ \<Rightarrow> (case loadImage wm uri of
         Inl e \<Rightarrow> Inl e
       | Inr img \<Rightarrow> (case drawToCanvas wm img (Some region) (cr_width region) (cr_height region) of
           Inl e \<Rightarrow> Inl e
         | Inr cv \<Rightarrow> (case canvasToBlob wm ''Failed to crop image'' cv ''image/png'' None of
             Inl e \<Rightarrow> Inl e
           | Inr blob \<Rightarrow>
               Inr \<lparr>md_uri = wm_objectUrl wm blob, md_mimeType = ''image/png'', md_fileSize = wm_blobSize wm blob,
                    md_width = cr_width region, md_height = cr_height region,
                    md_blurhash = encodeBlurhash wm cv\<rparr>)))))"

definition web_generateBlurhash :: "('img, 'cv, 'blob) web_media \<Rightarrow> string \<Rightarrow> js_error + string" where
  "web_generateBlurhash wm uri = (case assertSafeUri uri of
     Inl e \<Rightarrow> Inl e
   | Inr _ \<Rightarrow> (case loadImage wm uri of
       Inl e \<Rightarrow> Inl e
     | Inr img \<Rightarrow> (case wm_shrunkImage wm img of
         None \<Rightarrow> js_fail ''Failed to create canvas context''
       | Some pixels \<Rightarrow> Inr (wm_blurhash wm pixels 32 32 4 3))))"

definition web_getImageDimensions :: "('img, 'cv, 'blob) web_media \<Rightarrow> string \<Rightarrow> js_error + rat \<times> rat" where
  "web_getImageDimensions wm uri = (case assertSafeUri uri of
     Inl e \<Rightarrow> Inl e
   | Inr _ \<Rightarrow> (case loadImage wm uri of Inl e \<Rightarrow> Inl e | Inr img \<Rightarrow> Inr (wm_size wm img)))"

definition fetchAsBlob :: "('img, 'cv, 'blob) web_media \<Rightarrow> string \<Rightarrow> js_error + 'blob" where
  "fetchAsBlob wm uri = (case wm_fetch wm uri of
     Inl e \<Rightarrow> Inl e
   | Inr ((ok, status), blob) \<Rightarrow>
       if \<not> ok then js_fail (''Fetch failed with status '' @ int_str status) else Inr blob)"

definition web_compressVideo ::
  "('img, 'cv, 'blob) web_media \<Rightarrow> string \<Rightarrow> video_processing_options option \<Rightarrow> js_error + processed_media" where
  "web_compressVideo wm uri options = (case assertSafeUri uri of
     Inl e \<Rightarrow> Inl e
   | Inr _ \<Rightarrow> (case loadVideo wm uri of
       Inl e \<Rightarrow> Inl e
     | Inr video \<Rightarrow>
         (case computeDimensions (wm_size wm video) (opt_field vp_maxWidth options) (opt_field vp_maxHeight options) of
           (width, height) \<Rightarrow> (case drawToCanvas wm video None width height of
             Inl e \<Rightarrow> Inl e
           | Inr cv \<Rightarrow>
               (let blurhash = encodeBlurhash wm cv
                in case fetchAsBlob wm uri of
                     Inl e \<Rightarrow> Inl e
                   | Inr blob \<Rightarrow>
                       Inr \<lparr>md_uri = uri, md_mimeType = ''video/mp4'', md_fileSize = wm_blobSize wm blob,
                            md_width = width, md_height = height, md_blurhash = blurhash\<rparr>)))))"

section \<open>Compressing data\<close>

record compressed_data =
  cd_data :: "nat list"
  cd_originalSize :: nat
  cd_compressedSize :: nat
  cd_algorithm :: string

text \<open>The same on both platforms; a text is encoded as UTF-8 first, which is a parameter like Brotli.\<close>

definition compressData ::
  "(nat list \<Rightarrow> rat \<Rightarrow> js_error + nat list) \<Rightarrow> (string \<Rightarrow> nat list) \<Rightarrow> nat list + string \<Rightarrow> js_num option \<Rightarrow>
   js_error + compressed_data" where
  "compressData brotli utf8 input quality =
     (let bytes = (case input of Inl b \<Rightarrow> b | Inr t \<Rightarrow> utf8 t)
      in case brotli bytes (clampQuality (case quality of None \<Rightarrow> Fin 6 | Some q \<Rightarrow> q) 0 11) of
           Inl e \<Rightarrow> Inl e
         | Inr compressed \<Rightarrow>
             Inr \<lparr>cd_data = compressed, cd_originalSize = length bytes, cd_compressedSize = length compressed,
                  cd_algorithm = ''brotli''\<rparr>)"

section \<open>No argument can be smuggled into FFmpeg\<close>

text \<open>
  FFmpeg splits its command at blanks, outside of quotes; \<open>words\<close> is that splitting. A plain word
  is neither quoted nor escaped, and a quoted one ends at the next quotation mark.
\<close>

definition plain_word :: "string \<Rightarrow> bool" where
  "plain_word w \<longleftrightarrow> w \<noteq> [] \<and> list_all (\<lambda>c. c \<notin> {CHR '' '', CHR 0x22, CHR 0x27, CHR 0x5C}) w"

definition quotable :: "string \<Rightarrow> bool" where
  "quotable w \<longleftrightarrow> list_all (\<lambda>c. c \<notin> {CHR 0x22, CHR 0x5C}) w"

definition words_ok :: "(string \<Rightarrow> string list) \<Rightarrow> bool" where
  "words_ok words \<longleftrightarrow>
     (\<forall>w rest. plain_word w \<longrightarrow> words (w @ '' '' @ rest) = w # words rest) \<and>
     (\<forall>w rest. quotable w \<longrightarrow> words (in_quotes w @ '' '' @ rest) = w # words rest) \<and>
     (\<forall>w. quotable w \<longrightarrow> words (in_quotes w) = [w])"

lemma safe_uri_chars:
  assumes "assertSafeUri uri = Inr u"
  shows "list_all (\<lambda>c. is_alnum c \<or> c \<in> set ''+._~:/?#[]@%=-'') uri"
proof -
  have safe: "SAFE_URI_PATTERN uri"
    using assms by (simp add: assertSafeUri_def js_fail_def split: if_splits)
  then have pre: "prefix ''://'' (dropWhile scheme_char uri)" and rest: "list_all safe_uri_char (drop 3 (dropWhile scheme_char uri))"
    by (simp_all add: SAFE_URI_PATTERN_def Let_def)
  from pre obtain r where r: "dropWhile scheme_char uri = ''://'' @ r" by (auto simp: prefix_def)
  have parts: "uri = takeWhile scheme_char uri @ ''://'' @ r" using takeWhile_dropWhile_id [of scheme_char uri] r by simp
  have tail: "\<forall>c \<in> set r. safe_uri_char c" using rest r by (simp add: list_all_iff)
  have incl: "set ''+.-'' \<subseteq> set ''+._~:/?#[]@%=-''" "set ''._~:/?#[]@%=-'' \<subseteq> set ''+._~:/?#[]@%=-''"
    "{CHR '':'', CHR ''/''} \<subseteq> set ''+._~:/?#[]@%=-''"
    by simp_all
  show ?thesis
    unfolding list_all_iff
  proof
    fix c
    assume "c \<in> set uri"
    then have "c \<in> set (takeWhile scheme_char uri) \<or> c \<in> {CHR '':'', CHR ''/''} \<or> c \<in> set r"
      by (subst (asm) parts) auto
    then have "scheme_char c \<or> c \<in> {CHR '':'', CHR ''/''} \<or> safe_uri_char c"
      using tail by (auto dest: set_takeWhileD)
    then show "is_alnum c \<or> c \<in> set ''+._~:/?#[]@%=-''"
      using incl unfolding scheme_char_def safe_uri_char_def by blast
  qed
qed

lemma safe_uri_is_quotable:
  assumes "assertSafeUri uri = Inr u"
  shows "quotable uri" and "quotable (buildOutputUri uri)"
proof -
  have odd: "\<not> is_alnum (CHR 0x22)" "\<not> is_alnum (CHR 0x5C)" by (simp_all add: is_alnum_def)
  show q: "quotable uri"
    using safe_uri_chars [OF assms] odd unfolding quotable_def list_all_iff by auto
  have "set (take n uri) \<subseteq> set uri" for n by (rule set_take_subset)
  with q show "quotable (buildOutputUri uri)"
    by (auto simp: quotable_def buildOutputUri_def Let_def list_all_iff subset_iff)
qed

definition finite_part :: "js_num \<Rightarrow> rat" where
  "finite_part n = (case n of Fin q \<Rightarrow> q | _ \<Rightarrow> 0)"

text \<open>
  C33. The command line for ffmpeg is one string that ffmpeg splits into words again. For an address that passes
  \<^verbatim>\<open>assertSafeUri\<close> and options that are accepted, the words are the intended arguments, whatever the address
  contains: it can neither end its quotes nor add an argument.
\<close>

theorem ffmpeg_gets_the_intended_arguments:
  assumes "words_ok words" "\<And>q. plain_word (show_num q)"
    and "assertSafeUri uri = Inr u" "buildFfmpegCommand show_num uri (buildOutputUri uri) options = Inr cmd"
  shows "words cmd = [''-i'', uri, ''-vn'', ''-c:a'', ''libopus'',
      ''-b:a'', show_num (finite_part (number_or 128000 ao_bitrate options)),
      ''-ar'', show_num (finite_part (number_or 48000 ao_sampleRate options)), ''-y'', buildOutputUri uri]"
proof -
  let ?b = "show_num (finite_part (number_or 128000 ao_bitrate options))"
  let ?r = "show_num (finite_part (number_or 48000 ao_sampleRate options))"
  have cmd: "cmd = ''-i'' @ '' '' @ in_quotes uri @ '' '' @ ''-vn'' @ '' '' @ ''-c:a'' @ '' '' @ ''libopus'' @ '' '' @
      ''-b:a'' @ '' '' @ ?b @ '' '' @ ''-ar'' @ '' '' @ ?r @ '' '' @ ''-y'' @ '' '' @ in_quotes (buildOutputUri uri)"
    using assms(4)
    by (simp add: buildFfmpegCommand_def assertFinitePositive_def js_fail_def finite_part_def in_quotes_def
        split: sum.splits js_num.splits if_splits)
  have plain: "plain_word ''-i''" "plain_word ''-vn''" "plain_word ''-c:a''" "plain_word ''libopus''" "plain_word ''-b:a''"
    "plain_word ''-ar''" "plain_word ''-y''"
    by (simp_all add: plain_word_def)
  have word: "plain_word w \<Longrightarrow> words (w @ '' '' @ rest) = w # words rest"
    and quoted: "quotable w \<Longrightarrow> words (in_quotes w @ '' '' @ rest) = w # words rest"
    and last: "quotable w \<Longrightarrow> words (in_quotes w) = [w]" for w rest
    using assms(1) by (simp_all only: words_ok_def)
  show ?thesis
    unfolding cmd
    by (simp only: word [OF plain(1)] word [OF plain(2)] word [OF plain(3)] word [OF plain(4)] word [OF plain(5)]
        word [OF plain(6)] word [OF plain(7)] word [OF assms(2)] quoted [OF safe_uri_is_quotable(1) [OF assms(3)]]
        last [OF safe_uri_is_quotable(2) [OF assms(3)]])
qed

text \<open>A splitting that obeys the laws: it reads one character at a time, inside or outside of quotes.\<close>

fun split_words :: "bool \<Rightarrow> string \<Rightarrow> string \<Rightarrow> string list" where
  "split_words q w [] = (if w = [] \<and> \<not> q then [] else [w])"
| "split_words True w (c # cs) =
     (if c = CHR 0x22 then (case cs of [] \<Rightarrow> [w] | d # ds \<Rightarrow> if d = CHR '' '' then w # split_words False [] ds else split_words False w cs)
      else split_words True (w @ [c]) cs)"
| "split_words False w (c # cs) =
     (if c = CHR '' '' then w # split_words False [] cs
      else if c = CHR 0x22 then split_words True w cs
      else split_words False (w @ [c]) cs)"

lemma split_words_plain:
  "list_all (\<lambda>c. c \<notin> {CHR '' '', CHR 0x22, CHR 0x27, CHR 0x5C}) w \<Longrightarrow>
   split_words False v (w @ CHR '' '' # rest) = (v @ w) # split_words False [] rest"
  by (induction w arbitrary: v) auto

lemma split_words_quoted:
  "quotable w \<Longrightarrow> split_words True v (w @ CHR 0x22 # CHR '' '' # rest) = (v @ w) # split_words False [] rest"
  "quotable w \<Longrightarrow> split_words True v (w @ [CHR 0x22]) = [v @ w]"
  by (induction w arbitrary: v) (auto simp: quotable_def)

lemma split_words_ok: "words_ok (split_words False [])"
  by (simp add: words_ok_def in_quotes_def split_words_quoted plain_word_def split_words_plain)

theorem ffmpeg_gets_the_intended_arguments_witness:
  "\<exists>cmd. buildFfmpegCommand (\<lambda>q. int_str \<lfloor>q\<rfloor>) ''file:///v.mp4'' (buildOutputUri ''file:///v.mp4'') None = Inr cmd \<and>
     split_words False [] cmd = [''-i'', ''file:///v.mp4'', ''-vn'', ''-c:a'', ''libopus'', ''-b:a'', int_str 128000,
       ''-ar'', int_str 48000, ''-y'', ''file:///v_audio.ogg'']"
proof -
  have digits: "list_all (\<lambda>c. is_digit c) (nat_digits n)" for n
  proof (induction n rule: nat_digits.induct)
    case (1 n)
    have "is_digit (char_of (48 + k))" if "k < 10" for k :: nat using that by (simp add: is_digit_def)
    with 1 show ?case by (subst nat_digits.simps) simp
  qed
  have nonempty: "nat_digits n \<noteq> []" for n by (subst nat_digits.simps) simp
  have odd: "\<not> is_digit (CHR '' '')" "\<not> is_digit (CHR 0x22)" "\<not> is_digit (CHR 0x27)" "\<not> is_digit (CHR 0x5C)"
    by (simp_all add: is_digit_def)
  have "plain_word (nat_digits n)" for n
    using digits [of n] nonempty [of n] odd by (auto simp: plain_word_def list_all_iff)
  then have shown: "plain_word (int_str \<lfloor>q\<rfloor>)" for q :: rat
    by (simp add: int_str_def plain_word_def)
  have safe: "assertSafeUri ''file:///v.mp4'' = Inr ()" by code_simp
  have out: "buildOutputUri ''file:///v.mp4'' = ''file:///v_audio.ogg''" by code_simp
  obtain cmd where cmd: "buildFfmpegCommand (\<lambda>q. int_str \<lfloor>q\<rfloor>) ''file:///v.mp4'' (buildOutputUri ''file:///v.mp4'') None = Inr cmd"
    by (simp add: buildFfmpegCommand_def number_or_def opt_field_def assertFinitePositive_def)
  show ?thesis
    using ffmpeg_gets_the_intended_arguments [OF split_words_ok shown safe cmd] cmd
    by (simp add: out number_or_def opt_field_def finite_part_def)
qed

text \<open>
  What the name of the output is made of: a dot of a directory counts when the file has none, and
  the extension does not matter, though an existing output is overwritten.
\<close>

lemma output_may_leave_the_directory:
  "buildOutputUri ''file:///data/app.v2/clip'' = ''file:///data/app_audio.ogg''" by code_simp

lemma outputs_collide: "buildOutputUri ''file:///a.mp4'' = buildOutputUri ''file:///a.mov''" by code_simp

section \<open>The dimensions stay within the bounds\<close>

lemma math_round_le: "x \<le> of_int n \<Longrightarrow> math_round x \<le> of_int n"
  unfolding math_round_def of_int_le_iff by (simp add: floor_le_iff)

lemma math_round_ge: "of_int n \<le> x \<Longrightarrow> of_int n \<le> math_round x"
  unfolding math_round_def of_int_le_iff by (simp add: le_floor_iff)

lemma rat_floor [simp]:
  "\<lfloor>numeral a / numeral b :: rat\<rfloor> = numeral a div numeral b" "\<lfloor>- (numeral a / numeral b) :: rat\<rfloor> = - numeral a div numeral b"
  "\<lfloor>1 / numeral b :: rat\<rfloor> = 1 div numeral b"
  using floor_divide_of_int_eq [of "numeral a" "numeral b", where 'a = rat]
    floor_divide_of_int_eq [of "- numeral a" "numeral b", where 'a = rat]
    floor_divide_of_int_eq [of 1 "numeral b", where 'a = rat]
  by simp_all

text \<open>One step: the side that exceeds its bound gets it, the other shrinks with it.\<close>

lemma scaled_side:
  assumes "0 < m" "m < n" "0 \<le> k"
  shows "math_round (of_int k * (of_int m / of_int n)) \<le> of_int k" "0 \<le> math_round (of_int k * (of_int m / of_int n))"
proof -
  have q: "0 \<le> (of_int m / of_int n :: rat)" "(of_int m / of_int n :: rat) \<le> 1"
    using assms(1,2) by (simp_all add: divide_le_eq_1)
  have "of_int k * (of_int m / of_int n) \<le> (of_int k * 1 :: rat)"
    using assms(3) q(2) by (intro mult_left_mono) simp_all
  then show "math_round (of_int k * (of_int m / of_int n)) \<le> of_int k" by (intro math_round_le) simp
  have "of_int 0 \<le> (of_int k * (of_int m / of_int n) :: rat)"
    using assms(3) q(1) by (simp only: of_int_0 of_int_0_le_iff zero_le_mult_iff) simp
  from math_round_ge [OF this] show "0 \<le> math_round (of_int k * (of_int m / of_int n))" by simp
qed

theorem dimensions_stay_within_bounds:
  assumes "0 \<le> w" "0 \<le> h" "0 < mw" "0 < mh"
    and "computeDimensions (of_int w, of_int h) (Some (Fin (of_int mw))) (Some (Fin (of_int mh))) = (w', h')"
  shows "0 \<le> w' \<and> w' \<le> of_int (min w mw) \<and> 0 \<le> h' \<and> h' \<le> of_int (min h mh)"
proof -
  define w1 where "w1 = (if mw < w then mw else w)"
  define h1 where "h1 = (if mw < w then \<lfloor>of_int h * (of_int mw / of_int w) + 1 / 2 :: rat\<rfloor> else h)"
  have h1: "of_int h1 = (if mw < w then math_round (of_int h * (of_int mw / of_int w)) else (of_int h :: rat))"
    by (simp add: h1_def math_round_def)
  have first: "0 \<le> w1" "w1 = min w mw" "0 \<le> h1" "h1 \<le> h"
  proof -
    show "0 \<le> w1" "w1 = min w mw" using assms(1,3) by (auto simp: w1_def)
    show "0 \<le> h1" "h1 \<le> h"
      using h1 scaled_side [OF assms(3), of w h] assms(2)
      unfolding of_int_le_iff [symmetric, where 'a = rat] by (simp_all split: if_splits)
  qed
  have step: "(w', h') = (if mh < h1 then (math_round (of_int w1 * (of_int mh / of_int h1)), of_int mh) else (of_int w1, of_int h1))"
    using assms(3,4,5) h1 by (auto simp: computeDimensions_def exceeds_def w1_def Let_def split: if_splits)
  show ?thesis
  proof (cases "mh < h1")
    case True
    with scaled_side [OF assms(4) True first(1)] step first assms(4) show ?thesis by simp
  next
    case False
    with step first show ?thesis by simp
  qed
qed

theorem dimensions_stay_within_bounds_witness:
  "computeDimensions (1920, 1080) (Some (Fin 640)) (Some (Fin 200)) = (356, 200) \<and> (356 :: rat) \<le> of_int (min 1920 640)"
proof -
  have c: "computeDimensions (of_int 1920, of_int 1080) (Some (Fin (of_int 640))) (Some (Fin (of_int 200))) = (356, 200)"
    by (simp add: computeDimensions_def exceeds_def math_round_def)
  show ?thesis using dimensions_stay_within_bounds [OF _ _ _ _ c] c by simp
qed

text \<open>Where the bounds are not kept: the web takes a negative bound, which the native code rejects, and a thin picture loses a side.\<close>

lemma negative_bound_on_the_web:
  "computeDimensions (200, 100) (Some (Fin (- 50))) None = (- 50, - 25)"
  "isl (buildActions (Some \<lparr>po_maxWidth = Some (Fin (- 50)), po_maxHeight = None, po_quality = None, po_format = None\<rparr>))"
  by (simp_all add: computeDimensions_def exceeds_def math_round_def buildActions_def opt_field_def truthy_opt_def
      assertFinitePositive_def js_fail_def)

lemma thin_picture_loses_a_side: "computeDimensions (10000, 10) (Some (Fin 100)) None = (100, 0)"
  by (simp add: computeDimensions_def exceeds_def math_round_def)

text \<open>The web's video is the one it was given, with the dimensions it was asked for.\<close>

lemma web_video_is_not_compressed:
  "web_compressVideo wm uri options = Inr media \<Longrightarrow> md_uri media = uri"
  by (auto simp: web_compressVideo_def Let_def split: sum.splits prod.splits)

lemma native_video_ignores_the_height:
  "buildCompressOptions (Some (opts\<lparr>vp_maxHeight := h\<rparr>)) = buildCompressOptions (Some opts)"
  by (simp add: buildCompressOptions_def opt_field_def)

end
