(* ===== verification/WavAudio.thy ===== *)
theory WavAudio
  imports MediaProcessing "HOL-Library.Word"
begin

text \<open>
  \<^verbatim>\<open>packages/media-processing/src/platform/extract-audio.web.ts\<close>: the sound of a file as a WAV file,
  made byte by byte in a buffer through a \<^verbatim>\<open>DataView\<close>. The buffer is a list of bytes; decoding
  and rendering are parameters. A sample is a rational.
\<close>

section \<open>Writing into the buffer\<close>

text \<open>
  The bytes of a number, the least significant first; a number that is too large or negative
  wraps around, as it does in \<^verbatim>\<open>setUint8\<close> to \<^verbatim>\<open>setUint32\<close> and \<^verbatim>\<open>setInt16\<close>, which drop its fraction.
\<close>

definition le_bytes :: "nat \<Rightarrow> int \<Rightarrow> 8 word list" where
  "le_bytes n v = map (\<lambda>i. word_of_int (v div 256 ^ i)) [0..<n]"

definition write_at :: "nat \<Rightarrow> 8 word list \<Rightarrow> 8 word list \<Rightarrow> 8 word list" where
  "write_at off bs view = take off view @ bs @ drop (off + length bs) view"

definition setUint8 :: "nat \<Rightarrow> int \<Rightarrow> 8 word list \<Rightarrow> 8 word list" where
  "setUint8 off v = write_at off (le_bytes 1 v)"

definition setUint16 :: "nat \<Rightarrow> int \<Rightarrow> 8 word list \<Rightarrow> 8 word list" where
  "setUint16 off v = write_at off (le_bytes 2 v)"

definition setUint32 :: "nat \<Rightarrow> int \<Rightarrow> 8 word list \<Rightarrow> 8 word list" where
  "setUint32 off v = write_at off (le_bytes 4 v)"

definition js_truncate :: "rat \<Rightarrow> int" where
  "js_truncate x = (if 0 \<le> x then \<lfloor>x\<rfloor> else \<lceil>x\<rceil>)"

definition setInt16 :: "nat \<Rightarrow> rat \<Rightarrow> 8 word list \<Rightarrow> 8 word list" where
  "setInt16 off v = write_at off (le_bytes 2 (js_truncate v))"

definition writeString :: "nat \<Rightarrow> string \<Rightarrow> 8 word list \<Rightarrow> 8 word list" where
  "writeString off str view =
     fold (\<lambda>i view. setUint8 (off + i) (of_char (str ! i)) view) [0..<length str] view"

section \<open>The file\<close>

definition writeWavHeader :: "8 word list \<Rightarrow> nat \<Rightarrow> int \<Rightarrow> 8 word list" where
  "writeWavHeader view sampleCount sampleRate =
     (let byteRate = sampleRate * 2;
          view = writeString 0 ''RIFF'' view;
          view = setUint32 4 (36 + int sampleCount * 2) view;
          view = writeString 8 ''WAVE'' view;
          view = writeString 12 ''fmt '' view;
          view = setUint32 16 16 view;
          view = setUint16 20 1 view;
          view = setUint16 22 1 view;
          view = setUint32 24 sampleRate view;
          view = setUint32 28 byteRate view;
          view = setUint16 32 2 view;
          view = setUint16 34 16 view;
          view = writeString 36 ''data'' view
      in setUint32 40 (int sampleCount * 2) view)"

definition clamped :: "rat \<Rightarrow> rat" where
  "clamped sample = max (- 1) (min 1 sample)"

fun write_samples :: "nat \<Rightarrow> rat list \<Rightarrow> 8 word list \<Rightarrow> 8 word list" where
  "write_samples off [] view = view"
| "write_samples off (sample # samples) view =
     write_samples (off + 2) samples (setInt16 off (clamped sample * 0x7fff) view)"

definition writeSamples :: "8 word list \<Rightarrow> rat list \<Rightarrow> 8 word list" where
  "writeSamples view samples = write_samples 44 samples view"

definition encodeWav :: "rat list \<Rightarrow> int \<Rightarrow> 8 word list" where
  "encodeWav samples sampleRate =
     writeSamples (writeWavHeader (replicate (44 + length samples * 2) 0) (length samples) sampleRate) samples"

text \<open>
  What the browser does: a context of a sample rate, decoding, rendering, the first channel of a
  sound and its rate, a \<^verbatim>\<open>fetch\<close> with its timeout, the address of a file.
\<close>

record ('buf, 'audio) web_audio =
  wa_fetch :: "string \<Rightarrow> js_error + (bool \<times> int) \<times> 'buf"
  wa_context :: "int \<Rightarrow> js_error + unit"
  wa_decode :: "int \<Rightarrow> 'buf \<Rightarrow> js_error + 'audio"
  wa_render :: "int \<Rightarrow> 'audio \<Rightarrow> js_error + 'audio"
  wa_channel :: "'audio \<Rightarrow> rat list"
  wa_sampleRate :: "'audio \<Rightarrow> int"
  wa_objectUrl :: "8 word list \<Rightarrow> string"

definition fetchWithTimeout :: "('buf, 'audio) web_audio \<Rightarrow> string \<Rightarrow> js_error + 'buf" where
  "fetchWithTimeout wa uri = (case wa_fetch wa uri of
     Inl e \<Rightarrow> Inl e
   | Inr ((ok, status), response) \<Rightarrow>
       if \<not> ok then js_fail (''Fetch failed with status '' @ int_str status) else Inr response)"

definition renderOffline :: "('buf, 'audio) web_audio \<Rightarrow> 'audio \<Rightarrow> int option \<Rightarrow> js_error + 'audio" where
  "renderOffline wa sound rate =
     wa_render wa (case rate of None \<Rightarrow> wa_sampleRate wa sound | Some r \<Rightarrow> r) sound"

definition encodeToBlob :: "('buf, 'audio) web_audio \<Rightarrow> 'audio \<Rightarrow> 8 word list" where
  "encodeToBlob wa sound = encodeWav (wa_channel wa sound) (wa_sampleRate wa sound)"

definition web_extractAudio ::
  "('buf, 'audio) web_audio \<Rightarrow> string \<Rightarrow> int option \<Rightarrow> js_error + processed_media" where
  "web_extractAudio wa uri rate = (case assertSafeUri uri of
     Inl e \<Rightarrow> Inl e
   | Inr _ \<Rightarrow> (case fetchWithTimeout wa uri of
       Inl e \<Rightarrow> Inl e
     | Inr buffer \<Rightarrow>
         (let contextRate = (case rate of None \<Rightarrow> 48000 | Some r \<Rightarrow> r)
          in case wa_context wa contextRate of
               Inl e \<Rightarrow> Inl e
             | Inr _ \<Rightarrow> (case wa_decode wa contextRate buffer of
                 Inl e \<Rightarrow> Inl e
               | Inr sound \<Rightarrow> (case renderOffline wa sound rate of
                   Inl e \<Rightarrow> Inl e
                 | Inr rendered \<Rightarrow>
                     (let blob = encodeToBlob wa rendered
                      in Inr \<lparr>md_uri = wa_objectUrl wa blob, md_mimeType = ''audio/wav'',
                              md_fileSize = int (length blob), md_width = 0, md_height = 0, md_blurhash = []\<rparr>))))))"

section \<open>The layout of the file\<close>

text \<open>The file as the format describes it: a header of 44 bytes, then two bytes for each sample.\<close>

definition ascii :: "string \<Rightarrow> 8 word list" where
  "ascii str = map (\<lambda>c. word_of_int (of_char c)) str"

definition wav_header :: "nat \<Rightarrow> int \<Rightarrow> 8 word list" where
  "wav_header n rate =
     ascii ''RIFF'' @ le_bytes 4 (36 + int n * 2) @ ascii ''WAVE'' @
     ascii ''fmt '' @ le_bytes 4 16 @ le_bytes 2 1 @ le_bytes 2 1 @ le_bytes 4 rate @ le_bytes 4 (rate * 2) @
     le_bytes 2 2 @ le_bytes 2 16 @ ascii ''data'' @ le_bytes 4 (int n * 2)"

definition quantised :: "rat \<Rightarrow> int" where
  "quantised sample = js_truncate (clamped sample * 32767)"

lemma length_le_bytes [simp]: "length (le_bytes n v) = n"
  by (simp add: le_bytes_def)

text \<open>Writing where the buffer is still empty appends.\<close>

lemma write_next:
  "off = length pre \<Longrightarrow> length bs \<le> m \<Longrightarrow> write_at off bs (pre @ replicate m 0) = (pre @ bs) @ replicate (m - length bs) 0"
  by (simp add: write_at_def)

lemma writeString_next:
  assumes "length str \<le> m"
  shows "writeString (length pre) str (pre @ replicate m 0) = (pre @ ascii str) @ replicate (m - length str) 0"
proof -
  have "fold (\<lambda>i view. setUint8 (length pre + i) (of_char (str ! i)) view) [0..<k] (pre @ replicate m 0) =
      (pre @ ascii (take k str)) @ replicate (m - k) 0" if "k \<le> length str" for k
    using that
  proof (induction k)
    case 0
    then show ?case by (simp add: ascii_def)
  next
    case (Suc k)
    then have IH: "fold (\<lambda>i view. setUint8 (length pre + i) (of_char (str ! i)) view) [0..<k] (pre @ replicate m 0) =
      (pre @ ascii (take k str)) @ replicate (m - k) 0" by simp
    have "setUint8 (length pre + k) (of_char (str ! k)) ((pre @ ascii (take k str)) @ replicate (m - k) 0) =
      ((pre @ ascii (take k str)) @ le_bytes 1 (of_char (str ! k))) @ replicate (m - k - 1) 0"
      unfolding setUint8_def using Suc.prems assms by (subst write_next) (simp_all add: ascii_def min_def)
    then show ?case
      using Suc.prems by (simp add: IH take_Suc_conv_app_nth ascii_def le_bytes_def)
  qed
  from this [of "length str"] show ?thesis by (simp add: writeString_def)
qed

lemma string_at: "off = length pre \<Longrightarrow> length str \<le> m \<Longrightarrow>
    writeString off str (pre @ replicate m 0) = (pre @ ascii str) @ replicate (m - length str) 0"
  by (simp only: writeString_next)

lemma length_ascii [simp]: "length (ascii s) = length s"
  by (simp add: ascii_def)

lemma header_written:
  "writeWavHeader (replicate (44 + n * 2) 0) n rate = wav_header n rate @ replicate (n * 2) 0"
proof -
  have start: "writeString 0 ''RIFF'' (replicate (44 + n * 2) 0) = ascii ''RIFF'' @ replicate (40 + n * 2) 0"
    using string_at [of 0 "[]" "''RIFF''" "44 + n * 2"] by simp
  show ?thesis
    unfolding writeWavHeader_def Let_def setUint32_def setUint16_def start
    by (simp add: write_next string_at del: append_assoc replicate_append_same) (simp add: wav_header_def)
qed

lemma samples_written:
  "off = length pre \<Longrightarrow> write_samples off samples (pre @ replicate (length samples * 2) 0) =
   pre @ concat (map (\<lambda>x. le_bytes 2 (quantised x)) samples)"
proof (induction samples arbitrary: off pre)
  case Nil
  then show ?case by simp
next
  case (Cons x xs)
  have "setInt16 off (clamped x * 0x7fff) (pre @ replicate (length (x # xs) * 2) 0) =
      (pre @ le_bytes 2 (quantised x)) @ replicate (length xs * 2) 0"
    unfolding setInt16_def quantised_def using Cons.prems by (subst write_next) simp_all
  then show ?case
    using Cons.IH [of "off + 2" "pre @ le_bytes 2 (quantised x)"] Cons.prems by simp
qed

lemma wav_layout:
  "encodeWav samples rate = wav_header (length samples) rate @ concat (map (\<lambda>x. le_bytes 2 (quantised x)) samples)"
  using samples_written [of 44 "wav_header (length samples) rate" samples]
  by (simp add: encodeWav_def writeSamples_def header_written) (simp add: wav_header_def)

section \<open>Reading the file back\<close>

definition u16_of :: "8 word \<Rightarrow> 8 word \<Rightarrow> int" where
  "u16_of lo hi = uint lo + 256 * uint hi"

definition s16_of :: "8 word \<Rightarrow> 8 word \<Rightarrow> int" where
  "s16_of lo hi = (if u16_of lo hi < 0x8000 then u16_of lo hi else u16_of lo hi - 0x10000)"

fun read_pairs :: "8 word list \<Rightarrow> int list" where
  "read_pairs (lo # hi # rest) = s16_of lo hi # read_pairs rest"
| "read_pairs _ = []"

definition u32_at :: "nat \<Rightarrow> 8 word list \<Rightarrow> int" where
  "u32_at off bs = uint (bs ! off) + 256 * uint (bs ! (off + 1)) + 256 ^ 2 * uint (bs ! (off + 2)) + 256 ^ 3 * uint (bs ! (off + 3))"

lemma quantised_bounds: "- 32767 \<le> quantised x \<and> quantised x \<le> 32767"
proof -
  have "- 32767 \<le> clamped x * 32767" "clamped x * 32767 \<le> 32767" by (simp_all add: clamped_def)
  then show ?thesis
    by (auto simp: quantised_def js_truncate_def le_floor_iff floor_le_iff ceiling_le_iff le_ceiling_iff)
qed

lemma two_bytes: "u16_of (word_of_int v) (word_of_int (v div 256)) = v mod 65536"
proof -
  have "v mod 65536 = v mod 256 + 256 * (v div 256 mod 256)"
    using mod_mult2_eq' [of v 256 256] by simp
  then show ?thesis by (simp add: u16_of_def uint_word_of_int)
qed

lemma read_written:
  assumes "- 0x8000 \<le> v" "v < 0x8000"
  shows "s16_of (word_of_int v) (word_of_int (v div 256)) = v"
proof (cases "0 \<le> v")
  case True
  then have "v mod 65536 = v" using assms by simp
  with True assms show ?thesis by (simp add: s16_of_def two_bytes)
next
  case False
  have "v mod 65536 = (v + 65536) mod 65536" by simp
  also have "\<dots> = v + 65536" using False assms by (intro mod_pos_pos_trivial) simp_all
  finally show ?thesis using False assms by (simp add: s16_of_def two_bytes)
qed

lemma read_pairs_samples: "read_pairs (concat (map (\<lambda>x. le_bytes 2 (quantised x)) samples)) = map quantised samples"
proof (induction samples)
  case Nil
  then show ?case by simp
next
  case (Cons x xs)
  have "le_bytes 2 (quantised x) = [word_of_int (quantised x), word_of_int (quantised x div 256)]"
    by (simp add: le_bytes_def numeral_2_eq_2)
  with Cons show ?case using quantised_bounds [of x] by (simp add: read_written)
qed

lemma four_bytes:
  "uint (word_of_int v :: 8 word) + 256 * uint (word_of_int (v div 256) :: 8 word) +
   256 ^ 2 * uint (word_of_int (v div 256 ^ 2) :: 8 word) + 256 ^ 3 * uint (word_of_int (v div 256 ^ 3) :: 8 word) =
   v mod 2 ^ 32"
proof -
  define a where "a = v div 256"
  define b where "b = a div 256"
  define c where "c = b div 256"
  have divs: "v div 256 ^ 2 = b" "v div 256 ^ 3 = c"
    using div_mult2_eq' [of v 256 256] by (simp_all add: a_def b_def c_def zdiv_zmult2_eq [symmetric])
  have "v mod (256 * 16777216) = 256 * (a mod 16777216) + v mod 256"
    unfolding a_def by (rule zmod_zmult2_eq) simp
  moreover have "a mod (256 * 65536) = 256 * (b mod 65536) + a mod 256"
    unfolding b_def by (rule zmod_zmult2_eq) simp
  moreover have "b mod (256 * 256) = 256 * (c mod 256) + b mod 256"
    unfolding c_def by (rule zmod_zmult2_eq) simp
  moreover have "uint (word_of_int k :: 8 word) = k mod 256" for k by (simp add: uint_word_of_int)
  ultimately show ?thesis unfolding divs a_def [symmetric] by simp
qed

text \<open>
  The file written for a sequence of samples reads back: behind the 44 bytes of the header are the samples,
  rounded to 16 bits and clamped, the header has the rate and the number of bytes, as numbers of 32 bits, and the
  length is that of the header and two bytes for each sample.
\<close>

theorem wav_reads_back:
  "read_pairs (drop 44 (encodeWav samples rate)) = map quantised samples \<and>
   u32_at 24 (encodeWav samples rate) = rate mod 2 ^ 32 \<and>
   u32_at 40 (encodeWav samples rate) = 2 * int (length samples) mod 2 ^ 32 \<and>
   length (encodeWav samples rate) = 44 + 2 * length samples"
proof -
  let ?f = "encodeWav samples rate"
  let ?d = "concat (map (\<lambda>x. le_bytes 2 (quantised x)) samples)"
  have four: "le_bytes 4 v = [word_of_int v, word_of_int (v div 256), word_of_int (v div 256 ^ 2), word_of_int (v div 256 ^ 3)]" for v
    by (simp add: le_bytes_def numeral_eq_Suc)
  have two: "le_bytes 2 v = [word_of_int v, word_of_int (v div 256)]" for v
    by (simp add: le_bytes_def numeral_2_eq_2)
  have header: "length (wav_header n rate) = 44" for n by (simp add: wav_header_def)
  have "drop 44 ?f = ?d" by (simp add: wav_layout header)
  moreover have "u32_at 24 ?f = rate mod 2 ^ 32"
    using four_bytes [of rate] by (simp add: wav_layout wav_header_def u32_at_def ascii_def four two)
  moreover have "u32_at 40 ?f = 2 * int (length samples) mod 2 ^ 32"
    using four_bytes [of "int (length samples) * 2"]
    by (simp add: wav_layout wav_header_def u32_at_def ascii_def four two mult.commute)
  moreover have "length ?f = 44 + 2 * length samples"
    by (simp add: wav_layout header length_concat comp_def sum_list_triv)
  ultimately show ?thesis by (simp add: read_pairs_samples)
qed

text \<open>Only the first channel of the sound is kept, and the bit rate that was asked for plays no part.\<close>

end
