(* ===== verification/MediaAcquisition.thy ===== *)
theory MediaAcquisition
  imports MediaProcessing
begin

text \<open>
  \<^verbatim>\<open>packages/media-acquisition/src\<close> and the device's part of \<^verbatim>\<open>packages/feed/src/platform\<close>: picking
  media from the library, taking pictures, reading what is known of a file. The pickers, the
  camera and the browser are parameters; a web file dialog that is closed without a choice is
  \<open>Cancelled\<close>, and an operation whose promise is then never settled answers None.
\<close>

section \<open>Types\<close>

datatype media_type = ImagesOnly | VideosOnly | AllMedia

datatype native_media_types = NativeAll | NativeVideos | NativeImages

record picker_options =
  pk_allowsMultiple :: "bool option"
  pk_mediaTypes :: "media_type list option"
  pk_videoMaxDuration :: "rat option"

record captured_media =
  cm_uri :: string
  cm_mimeType :: string
  cm_fileSize :: int
  cm_width :: rat
  cm_height :: rat
  cm_duration :: "rat option"

record picker_asset =
  pa_uri :: string
  pa_mimeType :: "string option"
  pa_fileSize :: "int option"
  pa_width :: rat
  pa_height :: rat
  pa_duration :: "rat option"

text \<open>The request to the native picker or camera, and its answer (None when it was cancelled).\<close>

record picker_request =
  pr_mediaTypes :: native_media_types
  pr_allowsMultipleSelection :: "bool option"
  pr_videoMaxDuration :: "rat option"
  pr_quality :: rat

type_synonym native_picker = "picker_request \<Rightarrow> js_error + picker_asset list option"

section \<open>Native\<close>

definition capture_mediaTypes :: "media_type list option \<Rightarrow> native_media_types" where
  "capture_mediaTypes types = (case types of
     None \<Rightarrow> NativeAll
   | Some ts \<Rightarrow> if AllMedia \<in> set ts then NativeAll
       else if VideosOnly \<in> set ts then NativeVideos else NativeImages)"

definition mapMediaTypes :: "media_type list option \<Rightarrow> native_media_types" where
  "mapMediaTypes types = (case types of
     None \<Rightarrow> NativeAll
   | Some ts \<Rightarrow> if AllMedia \<in> set ts then NativeAll
       else if ImagesOnly \<in> set ts \<and> VideosOnly \<in> set ts then NativeAll
       else if VideosOnly \<in> set ts then NativeVideos else NativeImages)"

definition toMedia :: "picker_asset \<Rightarrow> captured_media" where
  "toMedia asset =
     \<lparr>cm_uri = pa_uri asset,
      cm_mimeType = (case pa_mimeType asset of None \<Rightarrow> ''application/octet-stream'' | Some m \<Rightarrow> m),
      cm_fileSize = (case pa_fileSize asset of None \<Rightarrow> 0 | Some n \<Rightarrow> n),
      cm_width = pa_width asset, cm_height = pa_height asset,
      cm_duration = (case pa_duration asset of None \<Rightarrow> None
        | Some d \<Rightarrow> if d = 0 then None else Some (math_round d))\<rparr>"

definition native_captureMedia :: "native_picker \<Rightarrow> picker_options option \<Rightarrow> js_error + captured_media" where
  "native_captureMedia launchCamera options =
     (case launchCamera \<lparr>pr_mediaTypes = capture_mediaTypes (opt_field pk_mediaTypes options),
             pr_allowsMultipleSelection = None, pr_videoMaxDuration = opt_field pk_videoMaxDuration options, pr_quality = 1\<rparr> of
        Inl e \<Rightarrow> Inl e
      | Inr None \<Rightarrow> js_fail ''Camera capture was canceled''
      | Inr (Some []) \<Rightarrow> js_fail ''Cannot read properties of undefined''
      | Inr (Some (asset # _)) \<Rightarrow> Inr (toMedia asset))"

definition native_pickMedia :: "native_picker \<Rightarrow> picker_options option \<Rightarrow> js_error + captured_media list" where
  "native_pickMedia launchLibrary options =
     (case launchLibrary \<lparr>pr_mediaTypes = mapMediaTypes (opt_field pk_mediaTypes options),
             pr_allowsMultipleSelection = Some (case opt_field pk_allowsMultiple options of None \<Rightarrow> False | Some b \<Rightarrow> b),
             pr_videoMaxDuration = opt_field pk_videoMaxDuration options, pr_quality = 1\<rparr> of
        Inl e \<Rightarrow> Inl e
      | Inr None \<Rightarrow> Inr []
      | Inr (Some assets) \<Rightarrow> Inr (map toMedia assets))"

record media_metadata =
  mm_filename :: "string option"
  mm_creationDate :: "rat option"
  mm_location :: "(rat \<times> rat) option"
  mm_orientation :: "int option"

record asset_info =
  ai_filename :: string
  ai_creationTime :: "rat option"
  ai_location :: "(rat \<times> rat) option"
  ai_orientation :: "int option"

definition mapOrientation :: "int option \<Rightarrow> int option" where
  "mapOrientation orientation = (case orientation of
     None \<Rightarrow> None | Some o' \<Rightarrow> List.find (\<lambda>v. v = o') [0, 90, 180, 270])"

definition mapLocation :: "rat \<times> rat \<Rightarrow> rat \<times> rat" where
  "mapLocation place = (case place of (latitude, longitude) \<Rightarrow> (latitude, longitude))"

definition mapAssetToMetadata :: "asset_info \<Rightarrow> media_metadata" where
  "mapAssetToMetadata asset =
     \<lparr>mm_filename = Some (ai_filename asset),
      mm_creationDate = (case ai_creationTime asset of None \<Rightarrow> None | Some t \<Rightarrow> if t = 0 then None else Some t),
      mm_location = map_option mapLocation (ai_location asset),
      mm_orientation = mapOrientation (ai_orientation asset)\<rparr>"

definition native_extractMetadata :: "(string \<Rightarrow> js_error + asset_info) \<Rightarrow> string \<Rightarrow> js_error + media_metadata" where
  "native_extractMetadata getAssetInfo uri = map_sum id mapAssetToMetadata (getAssetInfo uri)"

section \<open>Web\<close>

record web_file =
  wf_url :: string
  wf_type :: string
  wf_size :: int
  wf_image :: "(rat \<times> rat) option"
  wf_video :: "((rat \<times> rat) \<times> js_num) option"

text \<open>
  \<open>wf_image\<close> and \<open>wf_video\<close> are the dimensions that the file has when it loads as a picture or as
  a video, with the duration in seconds; \<open>wf_url\<close> is its object URL.
\<close>

datatype file_choice = Chosen "web_file list" | Cancelled

definition buildAcceptString :: "picker_options option \<Rightarrow> string" where
  "buildAcceptString options =
     (let types = (case opt_field pk_mediaTypes options of None \<Rightarrow> [AllMedia] | Some ts \<Rightarrow> ts)
      in if AllMedia \<in> set types then ''image/*,video/*''
         else join_with '','' ((if ImagesOnly \<in> set types then [''image/*''] else []) @
                               (if VideosOnly \<in> set types then [''video/*''] else [])))"

definition resolveImageMedia :: "web_file \<Rightarrow> js_error + captured_media" where
  "resolveImageMedia f = (case wf_image f of
     None \<Rightarrow> js_fail ''Failed to load image''
   | Some (w, h) \<Rightarrow> Inr \<lparr>cm_uri = wf_url f, cm_mimeType = wf_type f, cm_fileSize = wf_size f,
       cm_width = w, cm_height = h, cm_duration = None\<rparr>)"

text \<open>A duration that is not finite is rounded to \<^verbatim>\<open>NaN\<close> or infinity, which is no rational: None.\<close>

definition resolveVideoMedia :: "web_file \<Rightarrow> js_error + captured_media" where
  "resolveVideoMedia f = (case wf_video f of
     None \<Rightarrow> js_fail ''Failed to load video''
   | Some ((w, h), seconds) \<Rightarrow> Inr \<lparr>cm_uri = wf_url f, cm_mimeType = wf_type f, cm_fileSize = wf_size f,
       cm_width = w, cm_height = h,
       cm_duration = (case seconds of Fin d \<Rightarrow> Some (math_round (d * 1000)) | _ \<Rightarrow> None)\<rparr>)"

definition readFileAsMedia :: "web_file \<Rightarrow> js_error + captured_media" where
  "readFileAsMedia f = (if prefix ''video/'' (wf_type f) then resolveVideoMedia f else resolveImageMedia f)"

definition all_of :: "(js_error list \<Rightarrow> js_error) \<Rightarrow> (js_error + 'a) list \<Rightarrow> js_error + 'a list" where
  "all_of rejected rs = (case [e. Inl e \<leftarrow> rs] of [] \<Rightarrow> Inr [a. Inr a \<leftarrow> rs] | e # es \<Rightarrow> Inl (rejected (e # es)))"

text \<open>The dialog gets the accepted types and whether several files may be chosen.\<close>

definition web_pickMedia ::
  "(js_error list \<Rightarrow> js_error) \<Rightarrow> (string \<Rightarrow> bool \<Rightarrow> file_choice) \<Rightarrow> picker_options option \<Rightarrow>
   (js_error + captured_media list) option" where
  "web_pickMedia rejected dialog options =
     (case dialog (buildAcceptString options) (case opt_field pk_allowsMultiple options of None \<Rightarrow> False | Some b \<Rightarrow> b) of
        Cancelled \<Rightarrow> None
      | Chosen files \<Rightarrow> Some (all_of rejected (map readFileAsMedia files)))"

text \<open>
  The camera of the browser: a stream is open from \<^verbatim>\<open>getUserMedia\<close> until its tracks are stopped.
  The state is whether it is open; the arguments are what each step answers.
\<close>

definition web_captureMedia ::
  "js_error + unit \<Rightarrow> js_error + unit \<Rightarrow> rat \<times> rat \<Rightarrow> bool \<Rightarrow> (string \<times> int) option \<Rightarrow>
   (bool, js_error, captured_media) io" where
  "web_captureMedia getUserMedia play videoSize context blob =
     io_bind (\<lambda>s. (getUserMedia, s)) (\<lambda>_.
     io_then (io_modify (\<lambda>_. True))
     (io_bind (\<lambda>s. (play, s)) (\<lambda>_.
      if \<not> context then io_throw (JsErr (Some ''Failed to create canvas context''))
      else io_then (io_modify (\<lambda>_. False))
        (case blob of
           None \<Rightarrow> io_throw (JsErr (Some ''Failed to capture image from canvas''))
         | Some (url, bytes) \<Rightarrow> io_return \<lparr>cm_uri = url, cm_mimeType = ''image/png'', cm_fileSize = bytes,
             cm_width = fst videoSize, cm_height = snd videoSize, cm_duration = None\<rparr>))))"

text \<open>\<^verbatim>\<open>new URL(uri).pathname\<close>, or None when it throws.\<close>

definition extractFilename :: "(string \<Rightarrow> string option) \<Rightarrow> string \<Rightarrow> string option" where
  "extractFilename pathname uri = (case pathname uri of
     None \<Rightarrow> None
   | Some path \<Rightarrow> (let name = last (split_on (CHR ''/'') path) in if name = [] then None else Some name))"

definition buildMetadata :: "string option \<Rightarrow> media_metadata" where
  "buildMetadata filename =
     \<lparr>mm_filename = (case filename of None \<Rightarrow> None | Some f \<Rightarrow> if f = [] then None else Some f),
      mm_creationDate = None, mm_location = None, mm_orientation = None\<rparr>"

definition web_extractMetadata ::
  "(string \<Rightarrow> js_error + string) \<Rightarrow> (string \<Rightarrow> string option) \<Rightarrow> (string \<Rightarrow> bool) \<Rightarrow> (string \<Rightarrow> bool) \<Rightarrow>
   string \<Rightarrow> js_error + media_metadata" where
  "web_extractMetadata blobType pathname imageLoads videoLoads uri = (case blobType uri of
     Inl e \<Rightarrow> Inl e
   | Inr type \<Rightarrow>
       (let filename = extractFilename pathname uri
        in if prefix ''video/'' type
           then (if videoLoads uri then Inr (buildMetadata filename) else js_fail ''Failed to load video metadata'')
           else (if imageLoads uri then Inr (buildMetadata filename) else js_fail ''Failed to load image metadata'')))"

section \<open>Behaviour\<close>

text \<open>
  The camera stays open when the code throws before it stops the stream, and the camera and the
  library read the same list of types differently.
\<close>

lemma camera_is_released_on_success:
  "fst (web_captureMedia getUserMedia play videoSize context blob s) = Inr m \<Longrightarrow>
   \<not> snd (web_captureMedia getUserMedia play videoSize context blob s)"
  by (auto simp: web_captureMedia_def io_simps split: sum.splits option.splits if_splits prod.splits)

lemma camera_stays_open_without_a_context:
  "web_captureMedia (Inr ()) (Inr ()) videoSize False blob s = (Inl (JsErr (Some ''Failed to create canvas context'')), True)"
  "web_captureMedia (Inr ()) (Inl e) videoSize context blob s = (Inl e, True)"
  by (simp_all add: web_captureMedia_def io_simps)

lemma camera_and_library_disagree:
  "mapMediaTypes (Some [ImagesOnly, VideosOnly]) = NativeAll \<and> capture_mediaTypes (Some [ImagesOnly, VideosOnly]) = NativeVideos"
  by (simp add: mapMediaTypes_def capture_mediaTypes_def)

text \<open>Picking on the web: with a choice, every file in order or an error; without one, no answer at all.\<close>

lemma all_of_values: "all_of rejected (map Inr ys) = Inr ys"
proof -
  have none: "[e. Inl e \<leftarrow> map Inr ys] = ([] :: js_error list)" by (induction ys) simp_all
  have all: "[a. Inr a \<leftarrow> (map Inr ys :: (js_error + 'a) list)] = ys" for ys :: "'a list" by (induction ys) simp_all
  show ?thesis unfolding all_of_def none all by simp
qed

lemma chosen_files_are_read:
  assumes "\<And>accept multiple. dialog accept multiple = Chosen files" "map readFileAsMedia files = map Inr media"
  shows "web_pickMedia rejected dialog options = Some (Inr media)"
  using assms(1) by (simp add: web_pickMedia_def assms(2) all_of_values)

lemma cancelled_pick_never_answers:
  "(\<And>accept multiple. dialog accept multiple = Cancelled) \<Longrightarrow> web_pickMedia rejected dialog options = None"
  by (simp add: web_pickMedia_def)

end
