(* ===== verification/FeedDevice.thy ===== *)
theory FeedDevice
  imports MediaAcquisition Permissions
begin

text \<open>
  \<^verbatim>\<open>packages/feed/src\<close>: what the feed needs of the device before a post can be made. The
  permissions it asks for, pictures from the camera, from the gallery and from the device's
  library, each on both platforms. The clock is an argument (\<^verbatim>\<open>Date.now()\<close>).
\<close>

section \<open>Permissions\<close>

datatype flow_result = FlowGranted | FlowDenied | FlowPermanentlyDenied | FlowLimited

definition flow_of :: "permission_result \<Rightarrow> flow_result" where
  "flow_of result =
     (if snd result = Granted then FlowGranted
      else if snd result = Limited then FlowLimited
      else if snd result = PermanentlyDenied then FlowPermanentlyDenied
      else FlowDenied)"

text \<open>\<^verbatim>\<open>check\<close> and \<^verbatim>\<open>request\<close> are the operations of \<^verbatim>\<open>Permissions\<close> for a type.\<close>

definition checkCameraPermission ::
  "(permission_type \<Rightarrow> ('s, js_error, permission_result) io) \<Rightarrow> ('s, js_error, flow_result) io" where
  "checkCameraPermission check = io_bind (check Camera) (\<lambda>result. io_return (flow_of result))"

definition checkGalleryPermission ::
  "(permission_type \<Rightarrow> ('s, js_error, permission_result) io) \<Rightarrow> ('s, js_error, flow_result) io" where
  "checkGalleryPermission check = io_bind (check Photos) (\<lambda>result. io_return (flow_of result))"

definition requestCameraPermission ::
  "(permission_type \<Rightarrow> ('s, js_error, permission_result) io) \<Rightarrow> ('s, js_error, flow_result) io" where
  "requestCameraPermission request = io_bind (request Camera) (\<lambda>result. io_return (flow_of result))"

definition requestGalleryPermission ::
  "(permission_type \<Rightarrow> ('s, js_error, permission_result) io) \<Rightarrow> ('s, js_error, flow_result) io" where
  "requestGalleryPermission request = io_bind (request Photos) (\<lambda>result. io_return (flow_of result))"

definition openDeviceSettings :: "('s, js_error, unit) io \<Rightarrow> ('s, js_error, unit) io" where
  "openDeviceSettings openSettings = openSettings"

section \<open>Assets\<close>

datatype asset_kind = Photo | Video

record device_asset =
  da_id :: string
  da_uri :: string
  da_width :: rat
  da_height :: rat
  da_duration :: "rat option"
  da_mediaType :: asset_kind
  da_creationTime :: int

section \<open>The native camera and gallery\<close>

record native_asset =
  na_id :: "string option"
  na_uri :: "string option"
  na_width :: "rat option"
  na_height :: "rat option"
  na_duration :: "rat option"
  na_type :: "string option"

record picker_response =
  ps_errorCode :: "string option"
  ps_errorMessage :: "string option"
  ps_didCancel :: bool
  ps_assets :: "native_asset list option"

definition or_zero_rat :: "rat option \<Rightarrow> rat" where
  "or_zero_rat x = (case x of None \<Rightarrow> 0 | Some q \<Rightarrow> q)"

definition present_text :: "string option \<Rightarrow> string option" where
  "present_text x = (case x of None \<Rightarrow> None | Some s \<Rightarrow> if s = [] then None else Some s)"

definition response_error :: "string \<Rightarrow> picker_response \<Rightarrow> js_error option" where
  "response_error what response = (case present_text (ps_errorCode response) of
     None \<Rightarrow> None
   | Some code \<Rightarrow> Some (JsErr (Some (what @ '' error: '' @ code @ '': '' @
       (case ps_errorMessage response of None \<Rightarrow> [] | Some m \<Rightarrow> m)))))"

definition native_capturePhoto :: "int \<Rightarrow> picker_response \<Rightarrow> js_error + device_asset option" where
  "native_capturePhoto now response = (case response_error ''Camera'' response of
     Some e \<Rightarrow> Inl e
   | None \<Rightarrow>
       if ps_didCancel response then Inr None
       else (case ps_assets response of
         None \<Rightarrow> Inr None
       | Some [] \<Rightarrow> Inr None
       | Some (asset # _) \<Rightarrow> (case present_text (na_uri asset) of
           None \<Rightarrow> Inr None
         | Some uri \<Rightarrow> Inr (Some
             \<lparr>da_id = (case na_id asset of None \<Rightarrow> uri | Some i \<Rightarrow> i), da_uri = uri,
              da_width = or_zero_rat (na_width asset), da_height = or_zero_rat (na_height asset),
              da_duration = None, da_mediaType = Photo, da_creationTime = now\<rparr>))))"

definition gallery_asset :: "int \<Rightarrow> native_asset \<Rightarrow> device_asset" where
  "gallery_asset now asset =
     (let uri = (case na_uri asset of None \<Rightarrow> [] | Some u \<Rightarrow> u)
      in \<lparr>da_id = uri, da_uri = uri, da_width = or_zero_rat (na_width asset), da_height = or_zero_rat (na_height asset),
          da_duration = (if or_zero_rat (na_duration asset) \<noteq> 0 then Some (math_round (or_zero_rat (na_duration asset) * 1000)) else None),
          da_mediaType = (case na_type asset of None \<Rightarrow> Photo | Some t \<Rightarrow> if prefix ''video/'' t then Video else Photo),
          da_creationTime = now\<rparr>)"

definition native_pickMediaFromGallery :: "int \<Rightarrow> picker_response \<Rightarrow> js_error + device_asset list" where
  "native_pickMediaFromGallery now response = (case response_error ''ImagePicker'' response of
     Some e \<Rightarrow> Inl e
   | None \<Rightarrow>
       if ps_didCancel response then Inr []
       else (case ps_assets response of
         None \<Rightarrow> Inr []
       | Some assets \<Rightarrow> Inr (map (gallery_asset now) (filter (\<lambda>a. present_text (na_uri a) \<noteq> None) assets))))"

section \<open>The library of the device\<close>

record photo_node =
  ph_id :: string
  ph_uri :: string
  ph_width :: rat
  ph_height :: rat
  ph_playableDuration :: rat
  ph_type :: string
  ph_timestamp :: "int option"

record photos_page =
  pg_edges :: "photo_node list"
  pg_has_next_page :: bool
  pg_end_cursor :: "string option"

record photos_result =
  pp_assets :: "device_asset list"
  pp_endCursor :: "string option"
  pp_hasNextPage :: bool

record photos_params =
  px_first :: int
  px_after :: "string option"
  px_assetType :: string
  px_include :: "string list"

definition photo_asset :: "int \<Rightarrow> photo_node \<Rightarrow> device_asset" where
  "photo_asset now node =
     \<lparr>da_id = ph_id node, da_uri = ph_uri node, da_width = ph_width node, da_height = ph_height node,
      da_duration = (if 0 < ph_playableDuration node then Some (math_round (ph_playableDuration node * 1000)) else None),
      da_mediaType = (if includes_str (ph_type node) ''video'' then Video else Photo),
      da_creationTime = (case ph_timestamp node of None \<Rightarrow> now | Some t \<Rightarrow> t)\<rparr>"

definition native_fetchDevicePhotos ::
  "(photos_params \<Rightarrow> js_error + photos_page) \<Rightarrow> int \<Rightarrow> int \<Rightarrow> string option \<Rightarrow> js_error + photos_result" where
  "native_fetchDevicePhotos getPhotos now count after =
     (case getPhotos \<lparr>px_first = count, px_after = present_text after, px_assetType = ''All'',
             px_include = [''imageSize'', ''playableDuration'']\<rparr> of
        Inl e \<Rightarrow> Inl e
      | Inr page \<Rightarrow> Inr \<lparr>pp_assets = map (photo_asset now) (pg_edges page), pp_endCursor = pg_end_cursor page,
          pp_hasNextPage = pg_has_next_page page\<rparr>)"

definition web_fetchDevicePhotos :: "int \<Rightarrow> string option \<Rightarrow> js_error + photos_result" where
  "web_fetchDevicePhotos count after = Inr \<lparr>pp_assets = [], pp_endCursor = None, pp_hasNextPage = False\<rparr>"

section \<open>The web\<close>

text \<open>Files that do not load get no dimensions; here a cancelled dialog is an empty choice.\<close>

definition web_photo :: "int \<Rightarrow> web_file \<Rightarrow> device_asset" where
  "web_photo now f =
     (let (width, height) = (case wf_image f of None \<Rightarrow> (0, 0) | Some d \<Rightarrow> d)
      in \<lparr>da_id = wf_url f, da_uri = wf_url f, da_width = width, da_height = height, da_duration = None,
          da_mediaType = Photo, da_creationTime = now\<rparr>)"

definition web_video :: "int \<Rightarrow> web_file \<Rightarrow> device_asset" where
  "web_video now f = (case wf_video f of
     None \<Rightarrow> \<lparr>da_id = wf_url f, da_uri = wf_url f, da_width = 0, da_height = 0, da_duration = None,
          da_mediaType = Video, da_creationTime = now\<rparr>
   | Some ((width, height), seconds) \<Rightarrow>
        \<lparr>da_id = wf_url f, da_uri = wf_url f, da_width = width, da_height = height,
          da_duration = (case seconds of Fin d \<Rightarrow> Some (math_round (d * 1000)) | _ \<Rightarrow> None),
          da_mediaType = Video, da_creationTime = now\<rparr>)"

definition web_capturePhoto :: "int \<Rightarrow> file_choice \<Rightarrow> device_asset option" where
  "web_capturePhoto now choice = (case choice of
     Chosen (f # _) \<Rightarrow> Some (web_photo now f)
   | _ \<Rightarrow> None)"

definition resolveMediaFile :: "int \<Rightarrow> web_file \<Rightarrow> device_asset" where
  "resolveMediaFile now f = (if prefix ''video/'' (wf_type f) then web_video now f else web_photo now f)"

definition MAX_SELECTION :: nat where
  "MAX_SELECTION = 10"

definition web_pickMediaFromGallery :: "int \<Rightarrow> file_choice \<Rightarrow> device_asset list" where
  "web_pickMediaFromGallery now choice =
     (let files = (case choice of Chosen fs \<Rightarrow> fs | Cancelled \<Rightarrow> [])
      in map (resolveMediaFile now) (take MAX_SELECTION files))"

section \<open>Behaviour\<close>

text \<open>The feed sees a permission as granted only when the platform says so, through the native check.\<close>

lemma flow_granted_iff: "flow_of result = FlowGranted \<longleftrightarrow> snd result = Granted"
  by (simp add: flow_of_def)

theorem camera_needs_the_platform:
  "fst (checkCameraPermission (native_checkPermission np) s) = Inr FlowGranted \<longleftrightarrow>
   fst (np_check np (the (if np_ios np then getIosPermission np Camera else getAndroidPermission np Camera)) s) = Inr ''granted''"
  by (auto simp: checkCameraPermission_def native_checkPermission_def io_simps flow_granted_iff
      native_mapNativeStatus_def split: sum.splits prod.splits if_splits)

lemma web_gallery_keeps_the_first_ten:
  "map da_uri (web_pickMediaFromGallery now (Chosen files)) = map wf_url (take 10 files)"
  by (simp add: web_pickMediaFromGallery_def MAX_SELECTION_def resolveMediaFile_def web_photo_def web_video_def
      Let_def split: option.splits prod.splits)

lemma native_gallery_drops_assets_without_address:
  assumes "ps_errorCode response = None" "\<not> ps_didCancel response" "ps_assets response = Some assets"
  shows "native_pickMediaFromGallery now response =
    Inr (map (gallery_asset now) (filter (\<lambda>a. na_uri a \<noteq> None \<and> na_uri a \<noteq> Some []) assets))"
proof -
  have "present_text (na_uri a) \<noteq> None \<longleftrightarrow> na_uri a \<noteq> None \<and> na_uri a \<noteq> Some []" for a :: native_asset
    by (auto simp: present_text_def split: option.splits)
  moreover have "response_error what response = None" for what
    using assms(1) by (simp add: response_error_def present_text_def)
  ultimately show ?thesis using assms(2,3) by (simp add: native_pickMediaFromGallery_def)
qed

text \<open>
  A photo of the library with a time keeps it as the library gives it (in seconds), one without
  gets the clock (in milliseconds).
\<close>

lemma creation_times_have_two_units:
  "da_creationTime (photo_asset now node) = (case ph_timestamp node of None \<Rightarrow> now | Some t \<Rightarrow> t)"
  by (simp add: photo_asset_def)

end
