(* ===== verification/NotificationBar.thy ===== *)
theory NotificationBar
  imports Prelude "HOL-Library.Multiset"
begin

text \<open>
  \<^verbatim>\<open>packages/ui/src/components/useNotificationBar*.ts\<close>, \<^verbatim>\<open>NotificationBarAnimatedContainer.tsx\<close> and
  \<^verbatim>\<open>notificationBarRef.ts\<close>: the bar that shows one notification at a time. The refs of the hooks
  change at once, their React state with the next render; so a render, which runs the effects of
  what has changed, is an event of its own beside the calls, the timers and the animation.
\<close>

section \<open>State\<close>

record notification =
  nt_key :: "string option"
  nt_message :: string

datatype bar_phase = Idle | Showing | Hiding | Gap

text \<open>
  \<open>nb_activeItem\<close> and \<open>nb_isVisible\<close> are what was set last, \<open>nb_rendered\<close> and \<open>nb_renderedVisible\<close>
  what the last render saw. The two timers are running or not; \<open>nb_hides\<close> says that the animation to
  height zero is under way (the first one starts when the provider mounts), \<open>nb_shown\<close> collects the
  items that a render put on the screen.
\<close>

record bar =
  nb_stack :: "notification list"
  nb_phase :: bar_phase
  nb_activeItem :: "notification option"
  nb_isVisible :: bool
  nb_rendered :: "notification option"
  nb_renderedVisible :: bool
  nb_autoDismiss :: bool
  nb_gap :: bool
  nb_hides :: bool
  nb_shown :: "notification list"

definition new_bar :: bar where
  "new_bar =
     \<lparr>nb_stack = [], nb_phase = Idle, nb_activeItem = None, nb_isVisible = False, nb_rendered = None,
      nb_renderedVisible = False, nb_autoDismiss = False, nb_gap = False, nb_hides = True, nb_shown = []\<rparr>"

definition AUTO_DISMISS_DURATION :: int where "AUTO_DISMISS_DURATION = 3000"
definition GAP_DURATION :: int where "GAP_DURATION = 100"
definition ANIMATION_DURATION :: int where "ANIMATION_DURATION = 500"

text \<open>An empty key is no key.\<close>

definition has_key :: "notification \<Rightarrow> bool" where
  "has_key item = (nt_key item \<noteq> None \<and> nt_key item \<noteq> Some [])"

section \<open>Operations\<close>

definition deduplicateStack :: "notification list \<Rightarrow> notification \<Rightarrow> notification list" where
  "deduplicateStack stack item =
     (if \<not> has_key item then item # stack
      else item # filter (\<lambda>entry. nt_key entry \<noteq> nt_key item) stack)"

definition showNext :: "bar \<Rightarrow> bar" where
  "showNext s = (case nb_stack s of
     [] \<Rightarrow> s\<lparr>nb_phase := Idle\<rparr>
   | item # rest \<Rightarrow>
       s\<lparr>nb_stack := rest, nb_activeItem := Some item, nb_isVisible := True, nb_phase := Showing\<rparr>)"

definition triggerHide :: "bar \<Rightarrow> bar" where
  "triggerHide s = s\<lparr>nb_isVisible := False, nb_phase := Hiding\<rparr>"

definition clearAutoDismiss :: "bar \<Rightarrow> bar" where
  "clearAutoDismiss s = s\<lparr>nb_autoDismiss := False\<rparr>"

definition startGapTimer :: "bar \<Rightarrow> bar" where
  "startGapTimer s = s\<lparr>nb_gap := True\<rparr>"

definition bar_show :: "notification \<Rightarrow> bar \<Rightarrow> bar" where
  "bar_show item s =
     (let s' = s\<lparr>nb_stack := deduplicateStack (nb_stack s) item\<rparr>
      in if nb_phase s' = Idle then showNext s'
         else if nb_phase s' = Showing then triggerHide (clearAutoDismiss s')
         else s')"

text \<open>\<^verbatim>\<open>activeItem\<close> is the one of the last render.\<close>

definition bar_hide :: "string \<Rightarrow> bar \<Rightarrow> bar" where
  "bar_hide key s =
     (let s' = s\<lparr>nb_stack := filter (\<lambda>e. nt_key e \<noteq> Some key) (nb_stack s)\<rparr>
      in if Option.bind (nb_rendered s') nt_key = Some key \<and> nb_phase s' = Showing
         then triggerHide (clearAutoDismiss s') else s')"

definition onHideComplete :: "bar \<Rightarrow> bar" where
  "onHideComplete s =
     (let s' = s\<lparr>nb_activeItem := None\<rparr>
      in if nb_stack s' \<noteq> [] then startGapTimer (s'\<lparr>nb_phase := Gap\<rparr>) else s'\<lparr>nb_phase := Idle\<rparr>)"

text \<open>The effect of \<^verbatim>\<open>useNotificationBarTimers\<close> with its cleanup, where the active item has changed.\<close>

definition active_effect :: "bar \<Rightarrow> bar" where
  "active_effect s =
     (let s' = clearAutoDismiss s
      in case nb_activeItem s' of
           None \<Rightarrow> s'
         | Some item \<Rightarrow>
             if nb_phase s' \<noteq> Showing then s'
             else if has_key item then s'
             else s'\<lparr>nb_autoDismiss := True\<rparr>)"

text \<open>
  The effect of \<^verbatim>\<open>useBarHeightAnimation\<close>, where the visibility has changed. An animation that is
  replaced by another one is not \<^verbatim>\<open>finished\<close>.
\<close>

definition visible_effect :: "bar \<Rightarrow> bar" where
  "visible_effect s = s\<lparr>nb_hides := \<not> nb_isVisible s\<rparr>"

definition bar_render :: "bar \<Rightarrow> bar" where
  "bar_render s =
     (let a = (if nb_activeItem s \<noteq> nb_rendered s
               then (active_effect s)\<lparr>nb_rendered := nb_activeItem s,
                      nb_shown := nb_shown s @ (case nb_activeItem s of None \<Rightarrow> [] | Some item \<Rightarrow> [item])\<rparr>
               else s)
      in if nb_isVisible a \<noteq> nb_renderedVisible a
         then (visible_effect a)\<lparr>nb_renderedVisible := nb_isVisible a\<rparr> else a)"

datatype bar_event = Show notification | Hide string | Render | AutoDismisses | GapEnds | HideEnds

fun bar_step :: "bar_event \<Rightarrow> bar \<Rightarrow> bar" where
  "bar_step (Show item) s = bar_show item s"
| "bar_step (Hide key) s = bar_hide key s"
| "bar_step Render s = bar_render s"
| "bar_step AutoDismisses s = (if nb_autoDismiss s then triggerHide (s\<lparr>nb_autoDismiss := False\<rparr>) else s)"
| "bar_step GapEnds s = (if nb_gap s then showNext (s\<lparr>nb_gap := False\<rparr>) else s)"
| "bar_step HideEnds s = (if nb_hides s then onHideComplete (s\<lparr>nb_hides := False\<rparr>) else s)"

definition bar_run :: "bar_event list \<Rightarrow> bar \<Rightarrow> bar" where
  "bar_run es s = fold bar_step es s"

subsection \<open>The global reference\<close>

text \<open>
  The actions of a mounted provider, by a number; the function that \<^verbatim>\<open>setNotificationBarGlobalRef\<close>
  returns is its cleanup. A call without a provider does nothing; the hook throws.
\<close>

definition setNotificationBarGlobalRef :: "nat \<Rightarrow> nat option \<Rightarrow> nat option" where
  "setNotificationBarGlobalRef ref globalRef = Some ref"

definition clear_global_ref :: "nat \<Rightarrow> nat option \<Rightarrow> nat option" where
  "clear_global_ref ref globalRef = (if globalRef = Some ref then None else globalRef)"

definition notificationBarRef :: "nat option \<Rightarrow> bar_event \<Rightarrow> (nat \<Rightarrow> bar) \<Rightarrow> nat \<Rightarrow> bar" where
  "notificationBarRef globalRef call bars = (case globalRef of
     None \<Rightarrow> bars
   | Some ref \<Rightarrow> bars(ref := bar_step call (bars ref)))"

definition useNotificationBar :: "nat option \<Rightarrow> string + nat" where
  "useNotificationBar provider = (case provider of
     None \<Rightarrow> Inl ''useNotificationBar must be used within a NotificationBarProvider''
   | Some ref \<Rightarrow> Inr ref)"

text \<open>A provider that unmounts after another has mounted does not take the reference away.\<close>

lemma late_cleanup_keeps_the_new_provider:
  "r \<noteq> r' \<Longrightarrow> clear_global_ref r (setNotificationBarGlobalRef r' (setNotificationBarGlobalRef r g)) = Some r'"
  by (simp add: clear_global_ref_def setNotificationBarGlobalRef_def)

section \<open>Two calls before a render\<close>

text \<open>
  Where a second notification arrives before the first has been rendered, the visibility is set
  to true and back to false, no render sees a change, and the animation whose end would take the
  bar out of its phase is never started.
\<close>

definition bar_blocked :: "bar \<Rightarrow> bool" where
  "bar_blocked s \<longleftrightarrow>
     nb_phase s = Hiding \<and> \<not> nb_isVisible s \<and> \<not> nb_renderedVisible s \<and> \<not> nb_hides s \<and>
     \<not> nb_autoDismiss s \<and> \<not> nb_gap s"

lemmas bar_defs = bar_show_def bar_hide_def bar_render_def showNext_def triggerHide_def clearAutoDismiss_def
  startGapTimer_def onHideComplete_def active_effect_def visible_effect_def deduplicateStack_def

lemma bar_blocked_step: "bar_blocked s \<Longrightarrow> bar_blocked (bar_step e s)"
  by (cases e) (auto simp: bar_blocked_def bar_defs Let_def split: option.splits)

lemma bar_blocked_fold: "bar_blocked s \<Longrightarrow> bar_blocked (fold bar_step es s)"
  by (induction es arbitrary: s) (auto intro: bar_blocked_step)

text \<open>
  Once the animation of the first render is over, two notifications that are shown in one go,
  before a render, block the bar for good: whatever is called and whatever fires afterwards,
  nothing becomes visible again.
\<close>

theorem two_notifications_at_once_block_the_bar:
  "bar_blocked (bar_run (HideEnds # Show a # Show b # es) new_bar)"
proof -
  have "bar_blocked (bar_run [HideEnds, Show a, Show b] new_bar)"
    by (simp add: bar_run_def bar_blocked_def bar_defs new_bar_def Let_def)
  then show ?thesis by (simp add: bar_run_def bar_blocked_fold)
qed

text \<open>A notification that is hidden before it was rendered stays, since \<^verbatim>\<open>hide\<close> looks at the last render.\<close>

lemma hide_before_the_render_is_lost:
  "nt_key item = Some key \<Longrightarrow>
   nb_rendered (bar_run [Show item, Hide key, Render] new_bar) = Some item \<and>
   nb_phase (bar_run [Show item, Hide key, Render] new_bar) = Showing"
  by (simp add: bar_run_def bar_defs new_bar_def Let_def has_key_def)

section \<open>A render after every step\<close>

definition calm_step :: "bar_event \<Rightarrow> bar \<Rightarrow> bar" where
  "calm_step e s = bar_render (bar_step e s)"

definition calm_run :: "bar_event list \<Rightarrow> bar \<Rightarrow> bar" where
  "calm_run es s = fold calm_step es s"

definition bar_ok :: "bar \<Rightarrow> bool" where
  "bar_ok s \<longleftrightarrow>
     nb_rendered s = nb_activeItem s \<and> nb_renderedVisible s = nb_isVisible s \<and>
     nb_isVisible s = (nb_phase s = Showing) \<and>
     (nb_phase s = Hiding \<longrightarrow> nb_hides s) \<and> (nb_hides s \<longrightarrow> nb_phase s = Hiding \<or> nb_phase s = Idle) \<and>
     nb_gap s = (nb_phase s = Gap) \<and>
     (nb_phase s = Idle \<longrightarrow> nb_stack s = []) \<and>
     (case nb_phase s of
        Showing \<Rightarrow> \<exists>item. nb_activeItem s = Some item \<and> nb_autoDismiss s = (\<not> has_key item)
      | Hiding \<Rightarrow> nb_activeItem s \<noteq> None \<and> \<not> nb_autoDismiss s
      | _ \<Rightarrow> nb_activeItem s = None \<and> \<not> nb_autoDismiss s)"

lemma bar_ok_new: "bar_ok new_bar"
  by (simp add: bar_ok_def new_bar_def)

lemma bar_ok_step: "bar_ok s \<Longrightarrow> bar_ok (calm_step e s)"
  by (cases e; cases "nb_phase s"; cases "nb_stack s")
    (auto simp: bar_ok_def calm_step_def bar_defs Let_def split: option.splits)

lemma bar_ok_fold: "bar_ok s \<Longrightarrow> bar_ok (fold calm_step es s)"
  by (induction es arbitrary: s) (auto intro: bar_ok_step)

text \<open>What is due next in a state where nobody calls anything.\<close>

fun due :: "bar_phase \<Rightarrow> bar_event" where
  "due Idle = Render"
| "due Showing = AutoDismisses"
| "due Hiding = HideEnds"
| "due Gap = GapEnds"

definition advance :: "bar \<Rightarrow> bar" where
  "advance s = calm_step (due (nb_phase s)) s"

definition keyless :: "bar \<Rightarrow> bool" where
  "keyless s \<longleftrightarrow> (\<forall>item \<in> set (nb_stack s). nt_key item = None) \<and>
     (\<forall>item. nb_activeItem s = Some item \<longrightarrow> nt_key item = None)"

text \<open>The next notification of the stack is shown and goes.\<close>

lemma gap_shows_the_next:
  assumes "bar_ok s" "keyless s" "nb_phase s = Gap" "nb_stack s = item # rest"
  shows "let t = advance (advance (advance s)) in bar_ok t \<and> keyless t \<and> nb_stack t = rest \<and>
     nb_phase t = (if rest = [] then Idle else Gap) \<and> nb_shown t = nb_shown s @ [item]"
  using assms
  by (simp add: Let_def advance_def calm_step_def bar_ok_def keyless_def bar_defs has_key_def
      split: option.splits)

lemma gap_drains:
  assumes "bar_ok s" "keyless s" "nb_phase s = Gap"
  shows "\<exists>n. nb_phase ((advance ^^ n) s) = Idle \<and> nb_shown ((advance ^^ n) s) = nb_shown s @ nb_stack s"
  using assms
proof (induction "nb_stack s" arbitrary: s)
  case Nil
  then have "nb_phase ((advance ^^ 1) s) = Idle \<and> nb_shown ((advance ^^ 1) s) = nb_shown s"
    by (auto simp: advance_def calm_step_def bar_ok_def bar_defs Let_def)
  with Nil(1) show ?case by (metis append_Nil2)
next
  case (Cons item rest)
  define t where "t = advance (advance (advance s))"
  have three: "(advance ^^ 3) s = t" by (simp add: t_def numeral_3_eq_3)
  have t: "bar_ok t" "keyless t" "nb_stack t = rest" "nb_phase t = (if rest = [] then Idle else Gap)"
    "nb_shown t = nb_shown s @ [item]"
    using gap_shows_the_next [OF Cons.prems, of item rest] Cons.hyps(2) by (simp_all add: t_def Let_def)
  show ?case
  proof (cases "rest = []")
    case True
    with t three Cons.hyps(2) show ?thesis by (metis append_Cons append_Nil)
  next
    case False
    with t Cons.hyps(1) [of t] obtain n where
      n: "nb_phase ((advance ^^ n) t) = Idle" "nb_shown ((advance ^^ n) t) = nb_shown t @ rest" by auto
    have "(advance ^^ (n + 3)) s = (advance ^^ n) t" by (simp only: funpow_add o_apply three)
    with n t Cons.hyps(2) show ?thesis by (metis append.assoc append_Cons append_Nil)
  qed
qed

lemma hiding_drains:
  assumes "bar_ok s" "keyless s" "nb_phase s = Hiding"
  shows "\<exists>n. nb_phase ((advance ^^ n) s) = Idle \<and> nb_shown ((advance ^^ n) s) = nb_shown s @ nb_stack s"
proof -
  have step: "bar_ok (advance s)" "keyless (advance s)" "nb_stack (advance s) = nb_stack s"
    "nb_phase (advance s) = (if nb_stack s = [] then Idle else Gap)" "nb_shown (advance s) = nb_shown s"
    using assms by (auto simp: advance_def calm_step_def bar_ok_def keyless_def bar_defs Let_def split: option.splits)
  show ?thesis
  proof (cases "nb_stack s = []")
    case True
    with step show ?thesis by (intro exI [of _ 1]) simp
  next
    case False
    with step gap_drains [of "advance s"] obtain n where
      "nb_phase ((advance ^^ n) (advance s)) = Idle"
      "nb_shown ((advance ^^ n) (advance s)) = nb_shown s @ nb_stack s" by auto
    then show ?thesis by (intro exI [of _ "Suc n"]) (simp add: funpow_swap1)
  qed
qed

lemma bar_drains:
  assumes "bar_ok s" "keyless s"
  shows "\<exists>n. nb_phase ((advance ^^ n) s) = Idle \<and> nb_shown ((advance ^^ n) s) = nb_shown s @ nb_stack s"
proof (cases "nb_phase s")
  case Idle
  with assms(1) show ?thesis by (intro exI [of _ 0]) (simp add: bar_ok_def)
next
  case Showing
  have "bar_ok (advance s)" "keyless (advance s)" "nb_stack (advance s) = nb_stack s"
    "nb_phase (advance s) = Hiding" "nb_shown (advance s) = nb_shown s"
    using assms Showing
    by (auto simp: advance_def calm_step_def bar_ok_def keyless_def bar_defs Let_def has_key_def split: option.splits)
  with hiding_drains [of "advance s"] obtain n where
    "nb_phase ((advance ^^ n) (advance s)) = Idle"
    "nb_shown ((advance ^^ n) (advance s)) = nb_shown s @ nb_stack s" by auto
  then show ?thesis by (intro exI [of _ "Suc n"]) (simp add: funpow_swap1)
qed (use assms gap_drains hiding_drains in auto)

fun shows_of :: "bar_event list \<Rightarrow> notification list" where
  "shows_of [] = []"
| "shows_of (Show item # es) = item # shows_of es"
| "shows_of (e # es) = shows_of es"

lemma no_key_kept: "\<forall>item \<in> set xs. nt_key item = None \<Longrightarrow> filter (\<lambda>e. nt_key e \<noteq> Some key) xs = xs"
  by (induction xs) auto

lemma keyless_step:
  assumes "bar_ok s" "keyless s" "\<forall>item \<in> set (shows_of [e]). nt_key item = None"
  shows "keyless (calm_step e s) \<and>
    mset (nb_shown (calm_step e s)) + mset (nb_stack (calm_step e s)) =
    mset (shows_of [e]) + (mset (nb_shown s) + mset (nb_stack s))"
proof (cases e)
  case (Show item)
  with assms show ?thesis
    by (cases "nb_phase s")
      (auto simp: calm_step_def bar_ok_def keyless_def bar_defs Let_def has_key_def split: option.splits)
next
  case (Hide key)
  have "filter (\<lambda>e. nt_key e \<noteq> Some key) (nb_stack s) = nb_stack s"
    using assms(2) by (intro no_key_kept) (simp add: keyless_def)
  with Hide assms show ?thesis
    by (cases "nb_activeItem s") (auto simp: calm_step_def bar_ok_def keyless_def bar_defs Let_def)
next
  case Render
  with assms show ?thesis by (auto simp: calm_step_def bar_ok_def keyless_def bar_defs Let_def)
next
  case AutoDismisses
  with assms show ?thesis by (auto simp: calm_step_def bar_ok_def keyless_def bar_defs Let_def split: option.splits)
next
  case GapEnds
  with assms show ?thesis
    by (cases "nb_stack s") (auto simp: calm_step_def bar_ok_def keyless_def bar_defs Let_def split: option.splits)
next
  case HideEnds
  with assms show ?thesis by (auto simp: calm_step_def bar_ok_def keyless_def bar_defs Let_def split: option.splits)
qed

lemma keyless_fold:
  assumes "bar_ok s" "keyless s" "\<forall>item \<in> set (shows_of es). nt_key item = None"
  shows "keyless (fold calm_step es s) \<and>
    mset (nb_shown (fold calm_step es s)) + mset (nb_stack (fold calm_step es s)) =
    mset (shows_of es) + (mset (nb_shown s) + mset (nb_stack s))"
  using assms
proof (induction es arbitrary: s)
  case (Cons e es)
  have split: "shows_of (e # es) = shows_of [e] @ shows_of es" by (cases e) simp_all
  with Cons.prems keyless_step [of s e] Cons.IH [of "calm_step e s"] bar_ok_step show ?case
    by (simp add: ac_simps)
qed simp


definition sample_notification :: notification where
  "sample_notification = \<lparr>nt_key = None, nt_message = ''Saved''\<rparr>"


text \<open>
  A notification with a key stays until it is hidden; where another one is shown meanwhile, it goes
  and does not come back.
\<close>

lemma displaced_notification_is_lost:
  assumes "nt_key a = Some (c # cs)" "nt_key b = None"
  shows "nb_shown (calm_run [Show a, Show b, HideEnds, GapEnds, AutoDismisses, HideEnds] new_bar) = [a, b] \<and>
         nb_phase (calm_run [Show a, Show b, HideEnds, GapEnds, AutoDismisses, HideEnds] new_bar) = Idle"
  using assms by (auto simp: calm_run_def calm_step_def bar_defs new_bar_def Let_def has_key_def)

end
