(* ===== verification/CreatePost.thy ===== *)
theory CreatePost
  imports FeedDevice
begin

text \<open>
  \<^verbatim>\<open>packages/feed-ui/src\<close>: writing a post and choosing what is attached to it. The hooks of the two
  screens (\<^verbatim>\<open>screens/use-create-post-state.ts\<close>, \<^verbatim>\<open>screens/use-media-picker-screen-state.ts\<close>) and of
  the picker (\<^verbatim>\<open>components/media-picker/*\<close>) are one machine: its events are what the user presses,
  the answers of the device, and React running the effects of a render. The navigation library is
  outside the repository: the calls it gets are the output, and opening or closing the
  picker is an event of its own.
\<close>

section \<open>The selection\<close>

text \<open>The \<^verbatim>\<open>Map\<close> of the chosen assets and their numbers, in insertion order.\<close>

definition picker_MAX_SELECTION :: nat where
  "picker_MAX_SELECTION = 10"

definition reindexSelection :: "(string \<times> nat) list \<Rightarrow> (string \<times> nat) list" where
  "reindexSelection m =
     (let entries = sort_key snd m
      in map (\<lambda>(index, entry). (fst entry, index + 1)) (enumerate 0 entries))"

definition toggleSelection :: "string \<Rightarrow> (string \<times> nat) list \<Rightarrow> (string \<times> nat) list" where
  "toggleSelection assetId prev =
     (if assetId \<in> fst ` set prev then reindexSelection (AList.delete assetId prev)
      else if length prev \<ge> picker_MAX_SELECTION then prev
      else AList.update assetId (length prev + 1) prev)"

definition isMaxSelected :: "(string \<times> nat) list \<Rightarrow> bool" where
  "isMaxSelected m = (length m \<ge> picker_MAX_SELECTION)"

text \<open>What the selection means: the chosen assets in the order of the choice, at most ten.\<close>

definition toggle_choice :: "string \<Rightarrow> string list \<Rightarrow> string list" where
  "toggle_choice a ids = (if a \<in> set ids then removeAll a ids else if length ids < 10 then ids @ [a] else ids)"

definition numbered :: "string list \<Rightarrow> (string \<times> nat) list" where
  "numbered ids = zip ids [1..<length ids + 1]"

lemma length_numbered [simp]: "length (numbered ids) = length ids"
  and fst_numbered [simp]: "map fst (numbered ids) = ids"
  and snd_numbered: "map snd (numbered ids) = [1..<length ids + 1]"
  by (simp_all add: numbered_def del: upt_Suc)

lemma keys_numbered [simp]: "fst ` set (numbered ids) = set ids"
  by (metis fst_numbered list.set_map)

lemma numbered_snoc: "numbered (ids @ [a]) = numbered ids @ [(a, length ids + 1)]"
proof -
  have "[1..<length (ids @ [a]) + 1] = [1..<length ids + 1] @ [length ids + 1]" by simp
  then show ?thesis by (simp add: numbered_def del: upt_Suc)
qed

lemma reindex_sorted:
  assumes "sorted (map snd m)"
  shows "reindexSelection m = numbered (map fst m)"
proof (rule nth_equalityI)
  fix i
  assume "i < length (reindexSelection m)"
  with assms show "reindexSelection m ! i = numbered (map fst m) ! i"
    by (simp add: reindexSelection_def sort_key_id_if_sorted numbered_def nth_enumerate_eq del: upt_Suc)
qed (simp add: reindexSelection_def Let_def)

lemma sorted_delete: "sorted (map snd m) \<Longrightarrow> sorted (map snd (AList.delete a m))"
  unfolding AList.delete_eq by (rule sorted_filter)

lemma update_fresh: "a \<notin> fst ` set m \<Longrightarrow> AList.update a v m = m @ [(a, v)]"
  by (induction m) auto

lemma toggle_numbered: "toggleSelection a (numbered ids) = numbered (toggle_choice a ids)"
proof (cases "a \<in> set ids")
  case True
  have "sorted (map snd (AList.delete a (numbered ids)))"
    by (rule sorted_delete) (simp add: snd_numbered del: upt_Suc)
  with True show ?thesis
    by (simp add: toggleSelection_def toggle_choice_def reindex_sorted AList.delete_keys)
next
  case False
  then show ?thesis
    by (simp add: toggleSelection_def toggle_choice_def picker_MAX_SELECTION_def update_fresh numbered_snoc)
qed

lemma distinct_toggle_choice: "distinct ids \<Longrightarrow> distinct (toggle_choice a ids)"
  by (simp add: toggle_choice_def distinct_removeAll)

lemma length_toggle_choice: "length ids \<le> 10 \<Longrightarrow> length (toggle_choice a ids) \<le> 10"
  by (auto simp: toggle_choice_def intro: le_trans [OF length_removeAll_less_eq])

section \<open>The pages of the library\<close>

text \<open>
  The state of \<^verbatim>\<open>useAssetPagination\<close> beside the selection. \<open>pk_fetches\<close> are the calls of
  \<^verbatim>\<open>fetchPhotos\<close> that have not answered. \<open>pk_effects_due\<close> says that a render is to be followed by
  its effects: \<^verbatim>\<open>loadInitial\<close> depends on \<^verbatim>\<open>setters\<close>, an object that every render makes anew, so
  the effect of the screen that calls it is due after every render.
\<close>

definition PAGE_SIZE :: int where
  "PAGE_SIZE = 30"

datatype photo_fetch = Initial | Further "string option"

record picker =
  pk_selected :: "(string \<times> nat) list"
  pk_assets :: "device_asset list"
  pk_isLoading :: bool
  pk_cursor :: "string option"
  pk_hasMore :: bool
  pk_isLoadingRef :: bool
  pk_fetches :: "photo_fetch list"
  pk_effects_due :: bool

definition mounted_picker :: picker where
  "mounted_picker =
     \<lparr>pk_selected = [], pk_assets = [], pk_isLoading = False, pk_cursor = None, pk_hasMore = True,
      pk_isLoadingRef = False, pk_fetches = [], pk_effects_due = True\<rparr>"

text \<open>A new array is a new state; a flag that keeps its value leads to no render.\<close>

definition setAssets :: "device_asset list \<Rightarrow> picker \<Rightarrow> picker" where
  "setAssets a k = k\<lparr>pk_assets := a, pk_effects_due := True\<rparr>"

definition setIsLoading :: "bool \<Rightarrow> picker \<Rightarrow> picker" where
  "setIsLoading b k = k\<lparr>pk_isLoading := b, pk_effects_due := pk_effects_due k \<or> b \<noteq> pk_isLoading k\<rparr>"

definition setSelectedItems :: "(string \<times> nat) list \<Rightarrow> picker \<Rightarrow> picker" where
  "setSelectedItems m k = k\<lparr>pk_selected := m, pk_effects_due := pk_effects_due k \<or> m \<noteq> pk_selected k\<rparr>"

definition loadInitial :: "picker \<Rightarrow> picker" where
  "loadInitial k =
     (if pk_isLoadingRef k then k
      else (setIsLoading True k)\<lparr>pk_isLoadingRef := True, pk_fetches := pk_fetches k @ [Initial]\<rparr>)"

definition loadMore :: "picker \<Rightarrow> picker" where
  "loadMore k =
     (if \<not> pk_hasMore k \<or> pk_isLoadingRef k then k
      else (setIsLoading True k)\<lparr>pk_isLoadingRef := True, pk_fetches := pk_fetches k @ [Further (pk_cursor k)]\<rparr>)"

definition loaded :: "photo_fetch \<Rightarrow> photos_result \<Rightarrow> picker \<Rightarrow> picker" where
  "loaded f result k =
     setAssets (case f of Initial \<Rightarrow> pp_assets result | Further _ \<Rightarrow> pk_assets k @ pp_assets result)
       (k\<lparr>pk_cursor := pp_endCursor result, pk_hasMore := pp_hasNextPage result\<rparr>)"

definition fetch_settles :: "nat \<Rightarrow> js_error + photos_result \<Rightarrow> picker \<Rightarrow> picker" where
  "fetch_settles i answer k =
     (if i < length (pk_fetches k)
      then let f = pk_fetches k ! i;
               k' = k\<lparr>pk_fetches := take i (pk_fetches k) @ drop (Suc i) (pk_fetches k)\<rparr>;
               k'' = (case answer of Inl _ \<Rightarrow> k' | Inr result \<Rightarrow> loaded f result k')
           in setIsLoading False (k''\<lparr>pk_isLoadingRef := False\<rparr>)
      else k)"

definition run_effects :: "picker \<Rightarrow> picker" where
  "run_effects k = (if pk_effects_due k then loadInitial (k\<lparr>pk_effects_due := False\<rparr>) else k)"

text \<open>A thumbnail that is dimmed cannot be pressed.\<close>

definition press_thumbnail :: "string \<Rightarrow> picker \<Rightarrow> picker" where
  "press_thumbnail assetId k =
     (if isMaxSelected (pk_selected k) \<and> assetId \<notin> fst ` set (pk_selected k) then k
      else setSelectedItems (toggleSelection assetId (pk_selected k)) k)"

definition formatDuration :: "int \<Rightarrow> string" where
  "formatDuration milliseconds =
     (let totalSeconds = milliseconds div 1000; minutes = totalSeconds div 60; seconds = int_str (totalSeconds mod 60)
      in int_str minutes @ '':'' @ replicate (2 - length seconds) CHR ''0'' @ seconds)"

section \<open>The post and the picker\<close>

datatype sheet_call = ToMediaPicker | ToGalleryDenied | ToCameraDenied | ToCancelPost | GoBack

datatype camera_task = AwaitsPermission | AwaitsPhoto

record post_draft =
  po_attached :: "device_asset list"
  po_picker :: "picker option"
  po_camera :: "camera_task list"
  po_calls :: "sheet_call list"

definition new_post :: post_draft where
  "new_post = \<lparr>po_attached = [], po_picker = None, po_camera = [], po_calls = []\<rparr>"

definition MAX_TOTAL_ATTACHMENTS :: nat where
  "MAX_TOTAL_ATTACHMENTS = 10"

definition sheet_calls :: "sheet_call \<Rightarrow> post_draft \<Rightarrow> post_draft" where
  "sheet_calls c s = s\<lparr>po_calls := po_calls s @ [c]\<rparr>"

definition handleRemoveMedia :: "nat \<Rightarrow> post_draft \<Rightarrow> post_draft" where
  "handleRemoveMedia index s =
     s\<lparr>po_attached := map snd (filter (\<lambda>(i, _). i \<noteq> index) (enumerate 0 (po_attached s)))\<rparr>"

definition handleMediaSelected :: "device_asset list \<Rightarrow> post_draft \<Rightarrow> post_draft" where
  "handleMediaSelected assets s =
     (let remainingSlots = int MAX_TOTAL_ATTACHMENTS - int (length (po_attached s))
      in if remainingSlots \<le> 0 then s
         else s\<lparr>po_attached := po_attached s @ take (nat remainingSlots) assets\<rparr>)"

definition handleClose :: "post_draft \<Rightarrow> post_draft" where
  "handleClose s = sheet_calls ToCancelPost s"

definition handleGalleryPress :: "js_error + flow_result \<Rightarrow> post_draft \<Rightarrow> post_draft" where
  "handleGalleryPress answer s = (case answer of
     Inl _ \<Rightarrow> s
   | Inr permission \<Rightarrow>
       if permission = FlowGranted \<or> permission = FlowLimited then sheet_calls ToMediaPicker s
       else sheet_calls ToGalleryDenied s)"

definition handleBack :: "post_draft \<Rightarrow> post_draft" where
  "handleBack s = sheet_calls GoBack s"

text \<open>The button is enabled while something is selected.\<close>

definition handleAdd :: "picker \<Rightarrow> post_draft \<Rightarrow> post_draft" where
  "handleAdd k s =
     (let selected = filter (\<lambda>a. da_id a \<in> fst ` set (pk_selected k)) (pk_assets k)
      in sheet_calls GoBack (handleMediaSelected selected s))"

definition press_add :: "picker \<Rightarrow> post_draft \<Rightarrow> post_draft" where
  "press_add k s = (if length (pk_selected k) > 0 then handleAdd k s else s)"

text \<open>The tile of the camera is disabled while ten are selected.\<close>

definition handleCameraPress :: "picker \<Rightarrow> post_draft \<Rightarrow> post_draft" where
  "handleCameraPress k s =
     (if isMaxSelected (pk_selected k) then s else s\<lparr>po_camera := po_camera s @ [AwaitsPermission]\<rparr>)"

definition without_camera :: "nat \<Rightarrow> post_draft \<Rightarrow> post_draft" where
  "without_camera i s = s\<lparr>po_camera := take i (po_camera s) @ drop (Suc i) (po_camera s)\<rparr>"

definition camera_answers :: "nat \<Rightarrow> js_error + flow_result \<Rightarrow> post_draft \<Rightarrow> post_draft" where
  "camera_answers i answer s =
     (if i < length (po_camera s) \<and> po_camera s ! i = AwaitsPermission
      then (case answer of
          Inl _ \<Rightarrow> without_camera i s
        | Inr permission \<Rightarrow>
            if permission = FlowPermanentlyDenied then sheet_calls ToCameraDenied (without_camera i s)
            else if permission \<noteq> FlowGranted then without_camera i s
            else s\<lparr>po_camera := (po_camera s)[i := AwaitsPhoto]\<rparr>)
      else s)"

definition photo_arrives :: "nat \<Rightarrow> js_error + device_asset option \<Rightarrow> post_draft \<Rightarrow> post_draft" where
  "photo_arrives i answer s =
     (if i < length (po_camera s) \<and> po_camera s ! i = AwaitsPhoto
      then (case answer of
          Inr (Some photo) \<Rightarrow> sheet_calls GoBack (handleMediaSelected [photo] (without_camera i s))
        | _ \<Rightarrow> without_camera i s)
      else s)"

datatype post_event =
    ClosePressed
  | RemovePressed nat
  | GalleryPressed "js_error + flow_result"
  | PickerOpens
  | PickerCloses
  | EffectsRun
  | EndReached
  | FetchSettles nat "js_error + photos_result"
  | ThumbnailPressed string
  | AddPressed
  | BackPressed
  | CameraPressed
  | CameraAnswers nat "js_error + flow_result"
  | PhotoArrives nat "js_error + device_asset option"

definition on_picker :: "(picker \<Rightarrow> picker) \<Rightarrow> post_draft \<Rightarrow> post_draft" where
  "on_picker f s = s\<lparr>po_picker := map_option f (po_picker s)\<rparr>"

definition with_picker :: "(picker \<Rightarrow> post_draft \<Rightarrow> post_draft) \<Rightarrow> post_draft \<Rightarrow> post_draft" where
  "with_picker f s = (case po_picker s of None \<Rightarrow> s | Some k \<Rightarrow> f k s)"

fun post_step :: "post_event \<Rightarrow> post_draft \<Rightarrow> post_draft" where
  "post_step ClosePressed s = handleClose s"
| "post_step (RemovePressed i) s = handleRemoveMedia i s"
| "post_step (GalleryPressed answer) s = handleGalleryPress answer s"
| "post_step PickerOpens s = (case po_picker s of None \<Rightarrow> s\<lparr>po_picker := Some mounted_picker\<rparr> | Some _ \<Rightarrow> s)"
| "post_step PickerCloses s = s\<lparr>po_picker := None\<rparr>"
| "post_step EffectsRun s = on_picker run_effects s"
| "post_step EndReached s = on_picker loadMore s"
| "post_step (FetchSettles i answer) s = on_picker (fetch_settles i answer) s"
| "post_step (ThumbnailPressed a) s = on_picker (press_thumbnail a) s"
| "post_step AddPressed s = with_picker press_add s"
| "post_step BackPressed s = with_picker (\<lambda>_. handleBack) s"
| "post_step CameraPressed s = with_picker handleCameraPress s"
| "post_step (CameraAnswers i answer) s = camera_answers i answer s"
| "post_step (PhotoArrives i answer) s = photo_arrives i answer s"

definition post_run :: "post_event list \<Rightarrow> post_draft \<Rightarrow> post_draft" where
  "post_run es s = fold post_step es s"

section \<open>Behaviour\<close>

named_theorems picker_defs \<open>definitions of the operations of the picker\<close>

lemmas picker_operations [picker_defs] =
  setAssets_def setIsLoading_def setSelectedItems_def loadInitial_def loadMore_def loaded_def
  fetch_settles_def run_effects_def press_thumbnail_def

text \<open>The operations of a post that touch the picker only, and those that leave it alone.\<close>

lemma step_of_picker:
  "po_picker (post_step e s) =
    (case e of
       PickerOpens \<Rightarrow> (case po_picker s of None \<Rightarrow> Some mounted_picker | Some k \<Rightarrow> Some k)
     | PickerCloses \<Rightarrow> None
     | EffectsRun \<Rightarrow> map_option run_effects (po_picker s)
     | EndReached \<Rightarrow> map_option loadMore (po_picker s)
     | FetchSettles i answer \<Rightarrow> map_option (fetch_settles i answer) (po_picker s)
     | ThumbnailPressed a \<Rightarrow> map_option (press_thumbnail a) (po_picker s)
     | _ \<Rightarrow> po_picker s)"
  by (cases e)
    (auto simp: on_picker_def with_picker_def handleClose_def handleRemoveMedia_def handleGalleryPress_def
      press_add_def handleAdd_def handleMediaSelected_def sheet_calls_def handleBack_def handleCameraPress_def
      camera_answers_def without_camera_def photo_arrives_def Let_def split: sum.splits option.splits)

lemma picker_invariant:
  assumes "P mounted_picker"
    and "\<And>k. P k \<Longrightarrow> P (run_effects k)" "\<And>k. P k \<Longrightarrow> P (loadMore k)"
    and "\<And>k i answer. P k \<Longrightarrow> P (fetch_settles i answer k)" "\<And>k a. P k \<Longrightarrow> P (press_thumbnail a k)"
  shows "pred_option P (po_picker (post_run es new_post))"
proof -
  have step: "pred_option P (po_picker s) \<Longrightarrow> pred_option P (po_picker (post_step e s))" for s e
    using assms by (cases "po_picker s") (auto simp: step_of_picker split: post_event.splits)
  have "pred_option P (po_picker s) \<Longrightarrow> pred_option P (po_picker (fold post_step es s))" for s
    by (induction es arbitrary: s) (auto intro: step)
  then show ?thesis by (simp add: post_run_def new_post_def)
qed

subsection \<open>Attachments\<close>

lemma length_handleMediaSelected:
  "length (po_attached s) \<le> 10 \<Longrightarrow> length (po_attached (handleMediaSelected assets s)) \<le> 10"
  by (auto simp: handleMediaSelected_def MAX_TOTAL_ATTACHMENTS_def Let_def)

lemma attached_step: "length (po_attached s) \<le> 10 \<Longrightarrow> length (po_attached (post_step e s)) \<le> 10"
proof (cases e)
  case (RemovePressed i)
  assume "length (po_attached s) \<le> 10"
  moreover have "length (filter (\<lambda>(j, _). j \<noteq> i) (enumerate 0 (po_attached s))) \<le> length (po_attached s)"
    by (metis length_filter_le length_enumerate)
  ultimately show ?thesis using RemovePressed by (simp add: handleRemoveMedia_def)
qed (auto simp: on_picker_def with_picker_def handleClose_def handleGalleryPress_def
      press_add_def handleAdd_def sheet_calls_def handleBack_def handleCameraPress_def length_handleMediaSelected
      camera_answers_def without_camera_def photo_arrives_def Let_def split: sum.splits option.splits)

text \<open>
  C36. A post never has more than ten attachments, whatever is picked, photographed and removed,
  in whatever order, and also when answers arrive after the picker is closed.
\<close>

theorem attachments_are_bounded: "length (po_attached (post_run es new_post)) \<le> MAX_TOTAL_ATTACHMENTS"
proof -
  have "length (po_attached s) \<le> 10 \<Longrightarrow> length (po_attached (fold post_step es s)) \<le> 10" for s
    by (induction es arbitrary: s) (auto intro: attached_step)
  from this [of new_post] show ?thesis by (simp add: post_run_def new_post_def MAX_TOTAL_ATTACHMENTS_def)
qed

subsection \<open>The numbers on the thumbnails\<close>

definition selection_ok :: "(string \<times> nat) list \<Rightarrow> bool" where
  "selection_ok m \<longleftrightarrow>
     m = numbered (map fst m) \<and> distinct (map fst m) \<and> length m \<le> picker_MAX_SELECTION"

lemma selection_ok_toggle: "selection_ok m \<Longrightarrow> selection_ok (toggleSelection a m)"
  using toggle_numbered [of a "map fst m"] distinct_toggle_choice [of "map fst m" a]
    length_toggle_choice [of "map fst m" a]
  by (metis selection_ok_def fst_numbered length_map length_numbered picker_MAX_SELECTION_def)

text \<open>
  The selection of the picker is always the list of the chosen assets with the numbers 1, 2, 3 and so
  on in the order of the choice, without gaps after one is taken back, and at most ten.
\<close>

theorem selection_is_numbered:
  "pred_option (\<lambda>k. selection_ok (pk_selected k)) (po_picker (post_run es new_post))"
proof (rule picker_invariant)
  show "selection_ok (pk_selected mounted_picker)"
    by (simp add: mounted_picker_def selection_ok_def numbered_def)
qed (auto simp: picker_defs selection_ok_toggle Let_def split: sum.splits)

lemma selection_refines_the_choice:
  "fold toggleSelection as [] = numbered (fold toggle_choice as [])"
proof -
  have "fold toggleSelection as (numbered ids) = numbered (fold toggle_choice as ids)" for ids
    by (induction as arbitrary: ids) (simp_all add: toggle_numbered)
  from this [of "[]"] show ?thesis by (simp add: numbered_def)
qed

text \<open>
  What is added is in the order of the library, not in the order of the numbers on the thumbnails,
  and only what the free slots hold, while the button counts all that is selected.
\<close>

lemma added_in_library_order:
  assumes "length (po_attached s) \<le> 10" "pk_selected k \<noteq> []"
  shows "po_attached (press_add k s) =
    take 10 (po_attached s @ filter (\<lambda>a. da_id a \<in> fst ` set (pk_selected k)) (pk_assets k))"
  using assms by (auto simp: press_add_def handleAdd_def handleMediaSelected_def MAX_TOTAL_ATTACHMENTS_def
      sheet_calls_def Let_def nat_diff_distrib)

subsection \<open>Loading\<close>

definition picker_ok :: "picker \<Rightarrow> bool" where
  "picker_ok k \<longleftrightarrow>
     length (pk_fetches k) \<le> 1 \<and> (pk_isLoadingRef k \<longleftrightarrow> pk_fetches k \<noteq> []) \<and>
     (pk_isLoading k \<longleftrightarrow> pk_fetches k \<noteq> []) \<and> (pk_effects_due k \<or> pk_fetches k \<noteq> [])"

lemma picker_ok_settles: "picker_ok k \<Longrightarrow> picker_ok (fetch_settles i answer k)"
  by (cases "pk_fetches k") (auto simp: picker_ok_def picker_defs Let_def split: sum.splits)

text \<open>
  At most one page is under way, and \<^verbatim>\<open>isLoading\<close> says so. But the picker never comes to rest:
  whenever no page is under way the effects of a render are due, and they load the first page
  again, as long as the screen is open, also after failures.
\<close>

theorem picker_never_rests:
  "pred_option picker_ok (po_picker (post_run es new_post))"
proof (rule picker_invariant)
  show "picker_ok mounted_picker" by (simp add: mounted_picker_def picker_ok_def)
qed (auto simp: picker_ok_settles, auto simp: picker_ok_def picker_defs)

text \<open>So a further page is shown until the first page has been loaded again, and is then gone.\<close>

lemma further_page_is_dropped:
  assumes "\<not> pk_isLoadingRef k" "pk_hasMore k" "pk_fetches k = []"
  shows "pk_assets (fetch_settles 0 (Inr second) (loadMore k)) = pk_assets k @ pp_assets second \<and>
         pk_assets (fetch_settles 0 (Inr first)
           (run_effects (fetch_settles 0 (Inr second) (loadMore k)))) = pp_assets first"
  using assms by (simp add: picker_defs Let_def)

text \<open>A photo that arrives after the picker was closed goes back once more, out of the post.\<close>

lemma late_photo_goes_back:
  "po_calls (post_run [PickerOpens, CameraPressed, CameraAnswers 0 (Inr FlowGranted), BackPressed, PickerCloses,
     PhotoArrives 0 (Inr (Some photo))] new_post) = [GoBack, GoBack]"
  by (simp add: post_run_def new_post_def mounted_picker_def with_picker_def handleCameraPress_def isMaxSelected_def
      picker_MAX_SELECTION_def camera_answers_def handleBack_def sheet_calls_def photo_arrives_def
      handleMediaSelected_def without_camera_def MAX_TOTAL_ATTACHMENTS_def)

text \<open>A duration below one hour takes at most five characters, and the seconds are always two.\<close>

lemma durations_show_two_digits:
  assumes "0 \<le> seconds" "seconds < 60"
  shows "length (replicate (2 - length (int_str seconds)) CHR ''0'' @ int_str seconds) = 2"
  using assms by (auto simp: int_str_def nat_digits.simps)

end
