(* ===== verification/SearchScreen.thy ===== *)
theory SearchScreen
  imports UserSearch
begin

text \<open>
  \<^verbatim>\<open>packages/user-search-ui/src\<close>: the search for users as the screen sees it. The hooks of
  \<^verbatim>\<open>components/user-search-list-hooks.ts\<close> are a machine whose events are the calls of the user,
  the timer of the debounce and the answers of \<^verbatim>\<open>UserSearch\<close>, in any order; every event is followed
  by a render, so a call sees the state that the event before it left. The artificial delay of the
  development build only moves an answer.
\<close>

section \<open>State\<close>

definition DEBOUNCE_MS :: int where "DEBOUNCE_MS = 300"
definition search_PAGE_SIZE :: int where "search_PAGE_SIZE = 15"

text \<open>A request that has not been answered; \<open>sc_timer\<close> is the value the debounce waits with.\<close>

datatype search_request = FollowedPage nat | SearchPage string nat

fun request_page :: "search_request \<Rightarrow> nat" where
  "request_page (FollowedPage p) = p"
| "request_page (SearchPage q p) = p"

record search_screen =
  sc_query :: string
  sc_isFocused :: bool
  sc_users :: "searchable_user list"
  sc_isLoading :: bool
  sc_hasMore :: bool
  sc_page :: nat
  sc_timer :: "string option"
  sc_pending :: "search_request list"

section \<open>Operations\<close>

definition applyResult :: "search_result \<Rightarrow> nat \<Rightarrow> search_screen \<Rightarrow> search_screen" where
  "applyResult result page s =
     s\<lparr>sc_users := (if page = 0 then sq_users result else sc_users s @ sq_users result),
       sc_hasMore := sq_hasMore result\<rparr>"

definition loadFollowed :: "nat \<Rightarrow> search_screen \<Rightarrow> search_screen" where
  "loadFollowed page s = s\<lparr>sc_isLoading := (page = 0), sc_pending := sc_pending s @ [FollowedPage page]\<rparr>"

definition performSearch :: "string \<Rightarrow> nat \<Rightarrow> search_screen \<Rightarrow> search_screen" where
  "performSearch query page s =
     s\<lparr>sc_isLoading := (page = 0), sc_pending := sc_pending s @ [SearchPage query page]\<rparr>"

text \<open>The rest of both after their \<^verbatim>\<open>await\<close>; an error is not caught, the \<^verbatim>\<open>finally\<close> runs.\<close>

definition search_settles :: "nat \<Rightarrow> js_error + search_result \<Rightarrow> search_screen \<Rightarrow> search_screen" where
  "search_settles i answer s =
     (if i < length (sc_pending s)
      then let page = request_page (sc_pending s ! i);
               s' = s\<lparr>sc_pending := take i (sc_pending s) @ drop (Suc i) (sc_pending s)\<rparr>;
               s'' = (case answer of Inl _ \<Rightarrow> s' | Inr result \<Rightarrow> applyResult result page s')
           in s''\<lparr>sc_isLoading := False\<rparr>
      else s)"

definition clearResults :: "search_screen \<Rightarrow> search_screen" where
  "clearResults s = s\<lparr>sc_users := [], sc_hasMore := False, sc_isLoading := False\<rparr>"

definition debouncedSearch :: "string \<Rightarrow> search_screen \<Rightarrow> search_screen" where
  "debouncedSearch value s = s\<lparr>sc_timer := Some value\<rparr>"

definition cancelDebounce :: "search_screen \<Rightarrow> search_screen" where
  "cancelDebounce s = s\<lparr>sc_timer := None\<rparr>"

definition debounce_fires :: "search_screen \<Rightarrow> search_screen" where
  "debounce_fires s = (case sc_timer s of
     None \<Rightarrow> s
   | Some value \<Rightarrow>
       let s' = s\<lparr>sc_timer := None, sc_page := 0\<rparr>
       in if value \<noteq> [] then performSearch value 0 s' else clearResults s')"

definition handleQueryChange :: "string \<Rightarrow> search_screen \<Rightarrow> search_screen" where
  "handleQueryChange txt s = debouncedSearch txt (s\<lparr>sc_query := txt\<rparr>)"

definition handleLoadMore :: "search_screen \<Rightarrow> search_screen" where
  "handleLoadMore s =
     (if \<not> sc_hasMore s \<or> sc_isLoading s then s
      else let s' = s\<lparr>sc_page := sc_page s + 1\<rparr>
           in if sc_query s' \<noteq> [] then performSearch (sc_query s') (sc_page s') s'
              else loadFollowed (sc_page s') s')"

definition handleCancel :: "search_screen \<Rightarrow> search_screen" where
  "handleCancel s = loadFollowed 0 ((cancelDebounce s)\<lparr>sc_query := [], sc_isFocused := False, sc_page := 0\<rparr>)"

definition handleFocus :: "search_screen \<Rightarrow> search_screen" where
  "handleFocus s = s\<lparr>sc_isFocused := True\<rparr>"

definition handleBlur :: "search_screen \<Rightarrow> search_screen" where
  "handleBlur s = s\<lparr>sc_isFocused := False\<rparr>"

definition mounted_search :: search_screen where
  "mounted_search = loadFollowed 0
     \<lparr>sc_query = [], sc_isFocused = False, sc_users = [], sc_isLoading = True, sc_hasMore = False, sc_page = 0,
      sc_timer = None, sc_pending = []\<rparr>"

datatype search_event =
    QueryTyped string
  | DebounceFires
  | SearchSettles nat "js_error + search_result"
  | ListEndReached
  | CancelPressed
  | Focused
  | Blurred

fun search_step :: "search_event \<Rightarrow> search_screen \<Rightarrow> search_screen" where
  "search_step (QueryTyped txt) s = handleQueryChange txt s"
| "search_step DebounceFires s = debounce_fires s"
| "search_step (SearchSettles i answer) s = search_settles i answer s"
| "search_step ListEndReached s = handleLoadMore s"
| "search_step CancelPressed s = handleCancel s"
| "search_step Focused s = handleFocus s"
| "search_step Blurred s = handleBlur s"

definition search_run :: "search_event list \<Rightarrow> search_screen \<Rightarrow> search_screen" where
  "search_run es s = fold search_step es s"

text \<open>What the list shows, and whether the field shows its loader.\<close>

datatype list_content = SearchHint | Skeleton | NoResultsFound | Rows "searchable_user list"

definition ListContent :: "search_screen \<Rightarrow> list_content" where
  "ListContent s =
     (if length (sc_query s) = 0 \<and> sc_isFocused s then SearchHint
      else if sc_isLoading s then Skeleton
      else if length (sc_users s) = 0 \<and> length (sc_query s) > 0 then NoResultsFound
      else Rows (sc_users s))"

definition isSearchLoading :: "search_screen \<Rightarrow> bool" where
  "isSearchLoading s = (sc_isLoading s \<and> length (sc_query s) > 0)"

definition shows_cancel :: "search_screen \<Rightarrow> bool" where
  "shows_cancel s = (sc_isFocused s \<or> length (sc_query s) > 0)"

lemmas search_screen_defs = applyResult_def loadFollowed_def performSearch_def search_settles_def clearResults_def
  debouncedSearch_def cancelDebounce_def debounce_fires_def handleQueryChange_def handleLoadMore_def
  handleCancel_def handleFocus_def handleBlur_def mounted_search_def search_run_def

section \<open>Behaviour\<close>

definition spinner_ok :: "search_screen \<Rightarrow> bool" where
  "spinner_ok s \<longleftrightarrow> (sc_isLoading s \<longrightarrow> (\<exists>r \<in> set (sc_pending s). request_page r = 0))"

text \<open>The list never shows its skeleton without a first page under way.\<close>

lemma skeleton_means_work: "spinner_ok (search_run es mounted_search)"
proof -
  have step: "spinner_ok s \<Longrightarrow> spinner_ok (search_step e s)" for s e
    by (cases e) (auto simp: spinner_ok_def search_screen_defs Let_def split: sum.splits option.splits)
  have "spinner_ok s \<Longrightarrow> spinner_ok (fold search_step es s)" for s
    by (induction es arbitrary: s) (auto intro: step)
  then show ?thesis by (simp add: search_screen_defs spinner_ok_def)
qed

text \<open>The backend answers the first request that waits.\<close>

fun backend_answer :: "searchable_user list \<Rightarrow> search_request \<Rightarrow> search_result" where
  "backend_answer all (SearchPage q p) = searchUsers all \<lparr>si_query = q, si_page = int p, si_pageSize = Some search_PAGE_SIZE\<rparr>"
| "backend_answer all (FollowedPage p) = fetchFollowedUsers all \<lparr>fu_page = int p, fu_pageSize = Some search_PAGE_SIZE\<rparr>"

declare backend_answer.simps [simp del]

definition serve :: "searchable_user list \<Rightarrow> search_screen \<Rightarrow> search_screen" where
  "serve all s = (case sc_pending s of
     [] \<Rightarrow> s
   | r # _ \<Rightarrow> search_step (SearchSettles 0 (Inr (backend_answer all r))) s)"

definition shows_pages :: "searchable_user list \<Rightarrow> string \<Rightarrow> nat \<Rightarrow> search_screen \<Rightarrow> bool" where
  "shows_pages all q n s \<longleftrightarrow>
     sc_query s = q \<and> sc_pending s = [] \<and> \<not> sc_isLoading s \<and> sc_page s \<le> n \<and>
     sc_users s = take ((sc_page s + 1) * 15) (matching_users all q) \<and>
     sc_hasMore s = ((sc_page s + 1) * 15 < length (matching_users all q)) \<and>
     (sc_hasMore s \<longrightarrow> sc_page s = n)"

lemma search_answer:
  "sq_users (backend_answer all (SearchPage q p)) = take 15 (drop (p * 15) (matching_users all q))"
  "sq_hasMore (backend_answer all (SearchPage q p)) = ((p + 1) * 15 < length (matching_users all q))"
  using search_page [of 15 all q p] by (simp_all add: search_PAGE_SIZE_def page_of_def backend_answer.simps)

lemma first_page_is_shown:
  assumes "sc_pending s = []" "q \<noteq> []"
  shows "shows_pages all q 0 (serve all (search_run [QueryTyped q, DebounceFires] s))"
  using assms search_answer [of all q 0] by (simp add: shows_pages_def serve_def search_screen_defs Let_def)

lemma further_page_is_shown:
  assumes "shows_pages all q n s" "q \<noteq> []"
  shows "shows_pages all q (Suc n) (serve all (search_step ListEndReached s))"
proof (cases "sc_hasMore s")
  case True
  have "take ((n + 1) * 15) xs @ take 15 (drop ((n + 1) * 15) xs) = take ((Suc n + 1) * 15) xs" for xs :: "searchable_user list"
    using take_add [of "(n + 1) * 15" 15 xs] by (simp add: algebra_simps)
  with assms True search_answer [of all q "Suc n"] show ?thesis
    by (simp add: shows_pages_def serve_def search_screen_defs Let_def)
next
  case False
  with assms show ?thesis by (simp add: shows_pages_def serve_def search_screen_defs)
qed

text \<open>
  Where every answer arrives before the next event, the list of a query that was typed shows, after
  its end was reached \<open>n\<close> times, the first \<open>15 (n + 1)\<close> of all users that match, without repetition or
  gap, and asks for no page behind the last.
\<close>

theorem search_list_shows_the_matching_users:
  assumes "sc_pending s = []" "q \<noteq> []"
  shows "let t = ((serve all \<circ> search_step ListEndReached) ^^ n) (serve all (search_run [QueryTyped q, DebounceFires] s))
         in sc_users t = take (15 * (n + 1)) (matching_users all q) \<and>
            (sc_hasMore t \<longleftrightarrow> 15 * (n + 1) < length (matching_users all q))"
proof -
  have pages: "shows_pages all q n (((serve all \<circ> search_step ListEndReached) ^^ n) (serve all (search_run [QueryTyped q, DebounceFires] s)))"
    by (induction n) (simp_all add: first_page_is_shown further_page_is_shown assms del: search_step.simps)
  moreover have "shows_pages all q n t \<Longrightarrow> sc_users t = take (15 * (n + 1)) (matching_users all q) \<and>
      (sc_hasMore t \<longleftrightarrow> 15 * (n + 1) < length (matching_users all q))" for t
    by (cases "sc_hasMore t") (auto simp: shows_pages_def algebra_simps)
  ultimately show ?thesis by (simp only: Let_def)
qed

theorem search_list_shows_the_matching_users_witness:
  "let t = serve STUB_USERS (search_run [QueryTyped ''alin'', DebounceFires] (serve STUB_USERS mounted_search))
   in sc_users t = take 15 (matching_users STUB_USERS ''alin'')"
proof -
  have "sc_pending (serve STUB_USERS mounted_search) = []"
    by (simp add: serve_def search_screen_defs Let_def)
  from search_list_shows_the_matching_users [OF this, where q = "''alin''" and all = STUB_USERS and n = 0] show ?thesis
    by (simp add: Let_def)
qed

section \<open>Answers out of order\<close>

text \<open>The answer to an older query replaces the one to the query in the field.\<close>

lemma late_answer_shows_the_wrong_users:
  assumes "sc_pending s = []" "a \<noteq> []" "b \<noteq> []"
  shows "let t = search_run [QueryTyped a, DebounceFires, QueryTyped b, DebounceFires,
                  SearchSettles 1 (Inr for_b), SearchSettles 0 (Inr for_a)] s
         in sc_query t = b \<and> sc_users t = sq_users for_a \<and> sc_timer t = None \<and> sc_pending t = []"
  using assms by (simp add: search_screen_defs Let_def)

text \<open>Reaching the end twice asks for two pages at once, and they are shown as they arrive.\<close>

lemma pages_may_be_swapped:
  assumes "shows_pages all q n s" "sc_hasMore s" "q \<noteq> []"
  shows "sc_users (search_run [ListEndReached, ListEndReached,
      SearchSettles 1 (Inr (backend_answer all (SearchPage q (n + 2)))),
      SearchSettles 0 (Inr (backend_answer all (SearchPage q (n + 1))))] s) =
    sc_users s @ take 15 (drop ((n + 2) * 15) (matching_users all q)) @ take 15 (drop ((n + 1) * 15) (matching_users all q))"
  using assms by (simp add: shows_pages_def search_screen_defs Let_def search_answer)

text \<open>Between a key and the debounce the end of the old list adds a later page of the new query to it.\<close>

lemma end_reached_while_typing:
  assumes "sc_pending s = []" "sc_hasMore s" "\<not> sc_isLoading s" "q \<noteq> []"
  shows "sc_users (search_run [QueryTyped q, ListEndReached, SearchSettles 0 (Inr answer)] s) =
           sc_users s @ sq_users answer \<and>
         sc_pending (search_run [QueryTyped q, ListEndReached] s) = [SearchPage q (sc_page s + 1)]"
  using assms by (simp add: search_screen_defs Let_def)

text \<open>A query that has not been searched yet is reported to have no results where the last one had none.\<close>

lemma no_results_before_the_search:
  "sc_users s = [] \<Longrightarrow> \<not> sc_isLoading s \<Longrightarrow> q \<noteq> [] \<Longrightarrow> ListContent (search_step (QueryTyped q) s) = NoResultsFound"
  by (simp add: ListContent_def search_screen_defs)

text \<open>After the field was cleared and the screen left without pressing cancel, the list stays empty.\<close>

lemma cleared_field_leaves_an_empty_list:
  "ListContent (search_run [QueryTyped [], DebounceFires, Blurred] s) = Rows []"
  by (simp add: ListContent_def search_screen_defs Let_def)

end
