(* ===== verification/OnboardingScreens.thy ===== *)
theory OnboardingScreens
  imports Onboarding
begin

text \<open>
  \<^verbatim>\<open>packages/onboarding-ui/src/screens\<close>: the hooks of the screens of a new user, over the operations
  of \<^verbatim>\<open>Onboarding\<close>. The form of the profile (\<^verbatim>\<open>profile-setup-hooks.ts\<close>, with the handler of
  \<^verbatim>\<open>ProfileSetupScreen.tsx\<close>) and the list of creators (\<^verbatim>\<open>discover-creators-hooks.ts\<close>) are machines
  driven by the user, timers and answers; a render follows every event. The choice of languages
  (\<^verbatim>\<open>select-languages-hooks.ts\<close>) comes last. Messages are the keys of their translations.
\<close>

section \<open>The form of the profile\<close>

datatype input_state = EmptyField | FocusedField | ValidField | FailedField

record form_field =
  ff_value :: string
  ff_state :: input_state
  ff_error :: "string option"

definition empty_field :: form_field where
  "empty_field = \<lparr>ff_value = [], ff_state = EmptyField, ff_error = None\<rparr>"

definition failed_field :: "string \<Rightarrow> string \<Rightarrow> form_field" where
  "failed_field value message = \<lparr>ff_value = value, ff_state = FailedField, ff_error = Some message\<rparr>"

text \<open>What \<^verbatim>\<open>saveProfile\<close> is given.\<close>

record profile_input =
  pi_displayName :: string
  pi_nickname :: string
  pi_referredBy :: "string option"

text \<open>
  A debounce is the value it waits with. \<open>fm_nickChecks\<close> and \<open>fm_referralChecks\<close> are the checks that
  have not been answered, those of nicknames with the list of reserved names they were given. The
  referral has two debounces, of the field and of the clipboard. \<open>fm_saves\<close> are the calls of
  \<^verbatim>\<open>saveProfile\<close> and \<open>fm_reservedSheets\<close> counts the sheets that were opened.
\<close>

record profile_form =
  fm_name :: form_field
  fm_wasTouched :: bool
  fm_nickname :: form_field
  fm_nickTimer :: "string option"
  fm_nickChecks :: "(string \<times> string list) list"
  fm_isReserved :: bool
  fm_reserved :: "string list"
  fm_referral :: form_field
  fm_referralTimer :: "string option"
  fm_clipboardTimer :: "string option"
  fm_referralChecks :: "string list"
  fm_hasChecked :: bool
  fm_isSubmitting :: bool
  fm_saves :: "profile_input list"
  fm_reservedSheets :: nat

definition new_form :: profile_form where
  "new_form =
     \<lparr>fm_name = empty_field, fm_wasTouched = False, fm_nickname = empty_field, fm_nickTimer = None,
      fm_nickChecks = [], fm_isReserved = False, fm_reserved = [], fm_referral = empty_field,
      fm_referralTimer = None, fm_clipboardTimer = None, fm_referralChecks = [], fm_hasChecked = False,
      fm_isSubmitting = False, fm_saves = [], fm_reservedSheets = 0\<rparr>"

definition isFormValid :: "profile_form \<Rightarrow> bool" where
  "isFormValid s = (length (ff_value (fm_name s)) > 0 \<and> ff_state (fm_nickname s) = ValidField)"

definition applyNicknameResult :: "string \<Rightarrow> nickname_result \<Rightarrow> form_field" where
  "applyNicknameResult value result =
     (if nn_isReserved result then failed_field value ''onboarding:nicknameReservedError''
      else if \<not> nn_isAvailable result then failed_field value ''onboarding:nicknameAlreadyTakenError''
      else \<lparr>ff_value = value, ff_state = ValidField, ff_error = None\<rparr>)"

text \<open>\<^verbatim>\<open>onChange\<close> of the nickname and of the referral.\<close>

definition changed_field :: "string \<Rightarrow> form_field" where
  "changed_field value =
     (let lowered = js_lower value
      in \<lparr>ff_value = lowered, ff_state = (if lowered \<noteq> [] then FocusedField else EmptyField), ff_error = None\<rparr>)"

definition setName :: "string \<Rightarrow> profile_form \<Rightarrow> profile_form" where
  "setName v s =
     (let touched = fm_wasTouched s \<or> length v > 0
      in if length v = 0 \<and> touched
         then s\<lparr>fm_wasTouched := touched, fm_name := failed_field v ''onboarding:cannotBeEmptyError''\<rparr>
         else s\<lparr>fm_wasTouched := touched,
                fm_name := \<lparr>ff_value = v, ff_state = (if length v > 0 then ValidField else EmptyField), ff_error = None\<rparr>\<rparr>)"

definition setNickname :: "string \<Rightarrow> profile_form \<Rightarrow> profile_form" where
  "setNickname v s =
     (let f = changed_field v; s' = s\<lparr>fm_nickname := f\<rparr>
      in if ff_value f \<noteq> [] then s'\<lparr>fm_nickTimer := Some (ff_value f)\<rparr> else s')"

definition setReferral :: "string \<Rightarrow> profile_form \<Rightarrow> profile_form" where
  "setReferral v s =
     (let f = changed_field v; s' = s\<lparr>fm_referral := f\<rparr>
      in if ff_value f \<noteq> [] then s'\<lparr>fm_referralTimer := Some (ff_value f)\<rparr> else s')"

text \<open>\<^verbatim>\<open>validate\<close> of the nickname up to its \<^verbatim>\<open>await\<close>, and after it.\<close>

definition nick_validate :: "string \<Rightarrow> profile_form \<Rightarrow> profile_form" where
  "nick_validate value s =
     (if \<not> NICKNAME_PATTERN value
      then s\<lparr>fm_nickname := failed_field value ''onboarding:nicknameInvalidCharactersError''\<rparr>
      else s\<lparr>fm_nickChecks := fm_nickChecks s @ [(value, fm_reserved s)]\<rparr>)"

definition nick_checked :: "nat \<Rightarrow> bool \<Rightarrow> profile_form \<Rightarrow> profile_form" where
  "nick_checked i fails s =
     (if i < length (fm_nickChecks s)
      then let (value, reserved) = fm_nickChecks s ! i;
               s' = s\<lparr>fm_nickChecks := take i (fm_nickChecks s) @ drop (Suc i) (fm_nickChecks s)\<rparr>
           in if fails then s'\<lparr>fm_nickname := failed_field value ''onboarding:validationFailedError''\<rparr>
              else let result = validateNickname value reserved
                   in s'\<lparr>fm_isReserved := fm_isReserved s' \<or> nn_isReserved result,
                         fm_nickname := applyNicknameResult value result\<rparr>
      else s)"

definition referral_validate :: "string \<Rightarrow> profile_form \<Rightarrow> profile_form" where
  "referral_validate value s = s\<lparr>fm_referralChecks := fm_referralChecks s @ [value]\<rparr>"

definition referral_checked :: "nat \<Rightarrow> bool \<Rightarrow> profile_form \<Rightarrow> profile_form" where
  "referral_checked i fails s =
     (if i < length (fm_referralChecks s)
      then let value = fm_referralChecks s ! i;
               s' = s\<lparr>fm_referralChecks := take i (fm_referralChecks s) @ drop (Suc i) (fm_referralChecks s)\<rparr>
           in s'\<lparr>fm_referral :=
                (if fails then failed_field value ''onboarding:validationFailedError''
                 else if validateReferral value then \<lparr>ff_value = value, ff_state = ValidField, ff_error = None\<rparr>
                 else failed_field value ''onboarding:nicknameDoesNotExistError'')\<rparr>
      else s)"

text \<open>The rest of \<^verbatim>\<open>checkClipboardReferral\<close> after the clipboard was read.\<close>

definition checkClipboardReferral :: "string \<Rightarrow> profile_form \<Rightarrow> profile_form" where
  "checkClipboardReferral txt s =
     (if fm_hasChecked s then s
      else let s' = s\<lparr>fm_hasChecked := True\<rparr>
           in if txt \<noteq> [] \<and> NICKNAME_PATTERN txt \<and> length txt \<le> 20
              then s'\<lparr>fm_referral := \<lparr>ff_value = txt, ff_state = FocusedField, ff_error = None\<rparr>,
                      fm_clipboardTimer := Some txt\<rparr>
              else s')"

definition handleSaveProfile :: "profile_form \<Rightarrow> profile_form" where
  "handleSaveProfile s =
     (if \<not> isFormValid s then s
      else s\<lparr>fm_isSubmitting := True,
             fm_saves := fm_saves s @
               [\<lparr>pi_displayName = ff_value (fm_name s), pi_nickname = ff_value (fm_nickname s),
                 pi_referredBy = (if ff_value (fm_referral s) \<noteq> [] then Some (ff_value (fm_referral s)) else None)\<rparr>]\<rparr>)"

text \<open>The effect of the screen that opens the sheet about a reserved name.\<close>

definition reserved_effect :: "profile_form \<Rightarrow> profile_form" where
  "reserved_effect s =
     (if fm_isReserved s then s\<lparr>fm_reservedSheets := fm_reservedSheets s + 1, fm_isReserved := False\<rparr> else s)"

datatype form_event =
    NameTyped string
  | NicknameTyped string
  | ReferralTyped string
  | NickTimer
  | ReferralTimer
  | ClipboardTimer
  | NickChecked nat bool
  | ReferralChecked nat bool
  | ReservedFetched "string list"
  | ClipboardRead string
  | SavePressed
  | SaveSettles

fun form_step :: "form_event \<Rightarrow> profile_form \<Rightarrow> profile_form" where
  "form_step (NameTyped v) s = setName v s"
| "form_step (NicknameTyped v) s = setNickname v s"
| "form_step (ReferralTyped v) s = setReferral v s"
| "form_step NickTimer s =
     (case fm_nickTimer s of None \<Rightarrow> s | Some v \<Rightarrow> nick_validate v (s\<lparr>fm_nickTimer := None\<rparr>))"
| "form_step ReferralTimer s =
     (case fm_referralTimer s of None \<Rightarrow> s | Some v \<Rightarrow> referral_validate v (s\<lparr>fm_referralTimer := None\<rparr>))"
| "form_step ClipboardTimer s =
     (case fm_clipboardTimer s of None \<Rightarrow> s | Some v \<Rightarrow> referral_validate v (s\<lparr>fm_clipboardTimer := None\<rparr>))"
| "form_step (NickChecked i fails) s = reserved_effect (nick_checked i fails s)"
| "form_step (ReferralChecked i fails) s = referral_checked i fails s"
| "form_step (ReservedFetched names) s = s\<lparr>fm_reserved := names\<rparr>"
| "form_step (ClipboardRead txt) s = checkClipboardReferral txt s"
| "form_step SavePressed s = handleSaveProfile s"
| "form_step SaveSettles s = s\<lparr>fm_isSubmitting := False\<rparr>"

definition form_run :: "form_event list \<Rightarrow> profile_form \<Rightarrow> profile_form" where
  "form_run es s = fold form_step es s"

lemmas form_defs = setName_def setNickname_def setReferral_def changed_field_def nick_validate_def
  nick_checked_def referral_validate_def referral_checked_def checkClipboardReferral_def handleSaveProfile_def
  reserved_effect_def applyNicknameResult_def failed_field_def

definition form_ok :: "profile_form \<Rightarrow> bool" where
  "form_ok s \<longleftrightarrow>
     (ff_state (fm_nickname s) = ValidField \<longrightarrow> NICKNAME_PATTERN (ff_value (fm_nickname s))) \<and>
     (\<forall>input \<in> set (fm_saves s). pi_displayName input \<noteq> [] \<and> NICKNAME_PATTERN (pi_nickname input))"

lemma valid_result: "ff_state (applyNicknameResult v (validateNickname v r)) = ValidField \<Longrightarrow> NICKNAME_PATTERN v"
  by (auto simp: applyNicknameResult_def validateNickname_def failed_field_def Let_def split: if_splits)

lemma form_ok_step:
  assumes "form_ok s"
  shows "form_ok (form_step e s)"
proof (cases e)
  case (NickChecked i fails)
  have keeps_value: "ff_value (applyNicknameResult v r) = v" for v r
    by (simp add: applyNicknameResult_def failed_field_def)
  from NickChecked assms show ?thesis
    by (auto simp: form_ok_def nick_checked_def reserved_effect_def failed_field_def keeps_value Let_def
        split: prod.splits dest: valid_result)
next
  case SavePressed
  with assms show ?thesis by (auto simp: form_ok_def handleSaveProfile_def isFormValid_def)
qed (use assms in \<open>auto simp: form_ok_def form_defs Let_def split: option.splits\<close>)

text \<open>
  C38. Whatever is typed, and in whatever order timers fire and answers arrive, a profile is saved only
  with a name and with a nickname of the allowed characters.
\<close>

theorem saved_profiles_are_validated:
  "form_ok (form_run es new_form)"
proof -
  have "form_ok s \<Longrightarrow> form_ok (fold form_step es s)" for s
    by (induction es arbitrary: s) (auto intro: form_ok_step)
  moreover have "form_ok new_form" by (simp add: form_ok_def new_form_def empty_field_def)
  ultimately show ?thesis by (simp add: form_run_def)
qed

text \<open>The answer to an older nickname puts that one back into the field.\<close>

lemma late_check_reverts_the_field:
  assumes "NICKNAME_PATTERN a" "js_lower a = a" "a \<noteq> []" "fm_nickChecks s = []" "a \<notin> set (fm_reserved s)"
  shows "fm_nickname (form_run [NicknameTyped a, NickTimer, NicknameTyped b, NickChecked 0 False] s) =
    \<lparr>ff_value = a, ff_state = ValidField, ff_error = None\<rparr>"
  using assms by (simp add: form_run_def form_defs validateNickname_def Let_def)

text \<open>Clearing the field does not stop the debounce: the nickname comes back.\<close>

lemma cleared_nickname_returns:
  assumes "NICKNAME_PATTERN a" "js_lower a = a" "a \<noteq> []" "fm_nickChecks s = []" "a \<notin> set (fm_reserved s)"
  shows "ff_value (fm_nickname (form_run [NicknameTyped a, NicknameTyped [], NickTimer, NickChecked 0 False] s)) = a"
  using assms by (simp add: form_run_def form_defs validateNickname_def js_lower_def Let_def)

text \<open>A reserved nickname that is checked before the list has arrived is accepted and saved.\<close>

lemma reserved_name_before_the_list:
  "map pi_nickname (fm_saves (form_run [NameTyped ''Ion'', NicknameTyped ''ion'', NickTimer, NickChecked 0 False,
      ReservedFetched fetchReservedNicknames, SavePressed] new_form)) = [''ion'']"
  by (simp add: form_run_def new_form_def empty_field_def form_defs validateNickname_def NICKNAME_PATTERN_def
      nickname_char_def js_lower_def js_lower_char_def isFormValid_def Let_def)

text \<open>The referral is saved as it stands, also when its check said that there is no such user.\<close>

lemma refused_referral_is_saved:
  "map pi_referredBy (fm_saves (form_run [NameTyped ''Ann'', NicknameTyped ''ann'', NickTimer, NickChecked 0 False,
      ReferralTyped ''a b'', ReferralTimer, ReferralChecked 0 False, SavePressed] new_form)) = [Some ''a b'']"
  by (simp add: form_run_def new_form_def empty_field_def form_defs validateNickname_def validateReferral_def
      NICKNAME_PATTERN_def nickname_char_def js_lower_def js_lower_char_def isFormValid_def Let_def)

section \<open>Creators to follow\<close>

datatype follow_request = FollowOf string | UnfollowOf string

record creators_screen =
  cs_creators :: "creator list"
  cs_followedIds :: "string list"
  cs_requests :: "follow_request list"
  cs_isLoading :: bool
  cs_isLoadingMore :: bool
  cs_hasMore :: bool
  cs_page :: int
  cs_fetches :: "int list"

definition mounted_creators :: creators_screen where
  "mounted_creators =
     \<lparr>cs_creators = [], cs_followedIds = [], cs_requests = [], cs_isLoading = True, cs_isLoadingMore = False,
      cs_hasMore = False, cs_page = 0, cs_fetches = [0]\<rparr>"

definition toggleFollow :: "string \<Rightarrow> creators_screen \<Rightarrow> creators_screen" where
  "toggleFollow creatorId s =
     (if creatorId \<in> set (cs_followedIds s)
      then s\<lparr>cs_followedIds := set_delete creatorId (cs_followedIds s),
             cs_requests := cs_requests s @ [UnfollowOf creatorId]\<rparr>
      else s\<lparr>cs_followedIds := set_add creatorId (cs_followedIds s),
             cs_requests := cs_requests s @ [FollowOf creatorId]\<rparr>)"

definition follow_settles :: "nat \<Rightarrow> bool \<Rightarrow> creators_screen \<Rightarrow> creators_screen" where
  "follow_settles i fails s =
     (if i < length (cs_requests s)
      then let s' = s\<lparr>cs_requests := take i (cs_requests s) @ drop (Suc i) (cs_requests s)\<rparr>
           in if \<not> fails then s'
              else (case cs_requests s ! i of
                  UnfollowOf c \<Rightarrow> s'\<lparr>cs_followedIds := set_add c (cs_followedIds s')\<rparr>
                | FollowOf c \<Rightarrow> s'\<lparr>cs_followedIds := set_delete c (cs_followedIds s')\<rparr>)
      else s)"

definition creators_loadMore :: "creators_screen \<Rightarrow> creators_screen" where
  "creators_loadMore s =
     (if \<not> cs_hasMore s \<or> cs_isLoading s \<or> cs_isLoadingMore s then s
      else s\<lparr>cs_isLoadingMore := True, cs_page := cs_page s + 1, cs_fetches := cs_fetches s @ [cs_page s + 1]\<rparr>)"

text \<open>The first fetch replaces the list, the others add to it.\<close>

definition creators_fetched :: "js_error + creators_page \<Rightarrow> creators_screen \<Rightarrow> creators_screen" where
  "creators_fetched answer s = (case cs_fetches s of
     [] \<Rightarrow> s
   | page # rest \<Rightarrow>
       let s' = s\<lparr>cs_fetches := rest\<rparr>
       in if page = 0
          then (case answer of
              Inr result \<Rightarrow> s'\<lparr>cs_creators := cp_creators result, cs_hasMore := cp_hasMore result, cs_isLoading := False\<rparr>
            | Inl _ \<Rightarrow> s'\<lparr>cs_creators := [], cs_isLoading := False\<rparr>)
          else (case answer of
              Inr result \<Rightarrow> s'\<lparr>cs_creators := cs_creators s' @ cp_creators result, cs_hasMore := cp_hasMore result,
                             cs_isLoadingMore := False\<rparr>
            | Inl _ \<Rightarrow> s'\<lparr>cs_hasMore := False, cs_isLoadingMore := False\<rparr>))"

datatype creators_event =
    FollowPressed string
  | FollowSettles nat bool
  | CreatorsEndReached
  | CreatorsFetched "js_error + creators_page"

fun creators_step :: "creators_event \<Rightarrow> creators_screen \<Rightarrow> creators_screen" where
  "creators_step (FollowPressed c) s = toggleFollow c s"
| "creators_step (FollowSettles i fails) s = follow_settles i fails s"
| "creators_step CreatorsEndReached s = creators_loadMore s"
| "creators_step (CreatorsFetched answer) s = creators_fetched answer s"

definition creators_run :: "creators_event list \<Rightarrow> creators_screen \<Rightarrow> creators_screen" where
  "creators_run es s = fold creators_step es s"

lemmas creators_defs = toggleFollow_def follow_settles_def creators_loadMore_def creators_fetched_def

definition creators_ok :: "creators_screen \<Rightarrow> bool" where
  "creators_ok s \<longleftrightarrow>
     distinct (cs_followedIds s) \<and> 0 \<le> cs_page s \<and> (cs_isLoading s \<longrightarrow> cs_page s = 0) \<and>
     cs_fetches s = (if cs_isLoading s then [0] else if cs_isLoadingMore s then [cs_page s] else []) \<and>
     (cs_isLoadingMore s \<longrightarrow> 0 < cs_page s \<and> \<not> cs_isLoading s)"

text \<open>At most one page of creators is under way, it is the next one, and the flags say so.\<close>

lemma creators_are_fetched_one_by_one: "creators_ok (creators_run es mounted_creators)"
proof -
  have step: "creators_ok s \<Longrightarrow> creators_ok (creators_step e s)" for s e
    by (cases e)
      (auto simp: creators_ok_def creators_defs Let_def split: if_splits sum.splits follow_request.splits)
  have "creators_ok s \<Longrightarrow> creators_ok (fold creators_step es s)" for s
    by (induction es arbitrary: s) (auto intro: step)
  then show ?thesis by (simp add: creators_run_def creators_ok_def mounted_creators_def)
qed

text \<open>A request that fails late undoes a follow that a later request has made.\<close>

lemma late_failure_unfollows:
  assumes "c \<notin> set (cs_followedIds s)" "cs_requests s = []"
  shows "let t = creators_run [FollowPressed c, FollowPressed c, FollowPressed c, FollowSettles 2 False,
           FollowSettles 1 False, FollowSettles 0 True] s
         in cs_requests t = [] \<and> c \<notin> set (cs_followedIds t)"
  using assms by (simp add: creators_run_def creators_defs Let_def)

text \<open>After a page that failed the end of the list is taken for reached.\<close>

lemma failed_page_ends_the_list:
  assumes "creators_ok s" "cs_isLoadingMore s"
  shows "let t = creators_fetched (Inl e) s in \<not> cs_hasMore t \<and> creators_loadMore t = t"
  using assms by (auto simp: creators_ok_def creators_defs Let_def split: if_splits)

section \<open>The choice of languages\<close>

text \<open>\<^verbatim>\<open>Array.prototype.sort\<close> with a comparison: stable, here by insertion.\<close>

fun js_insert :: "('a \<Rightarrow> 'a \<Rightarrow> int) \<Rightarrow> 'a \<Rightarrow> 'a list \<Rightarrow> 'a list" where
  "js_insert cmp x [] = [x]"
| "js_insert cmp x (y # ys) = (if cmp y x > 0 then x # y # ys else y # js_insert cmp x ys)"

definition js_sort :: "('a \<Rightarrow> 'a \<Rightarrow> int) \<Rightarrow> 'a list \<Rightarrow> 'a list" where
  "js_sort cmp xs = fold (js_insert cmp) xs []"

definition indexByCode :: "language list \<Rightarrow> string \<Rightarrow> int" where
  "indexByCode languages code =
     (case map_of (rev (map (\<lambda>(i, lang). (la_code lang, int i)) (enumerate 0 languages))) code of
        None \<Rightarrow> 0 | Some i \<Rightarrow> i)"

definition filterAndSortLanguages :: "language list \<Rightarrow> string \<Rightarrow> string list \<Rightarrow> language list" where
  "filterAndSortLanguages languages query selectedCodes =
     (let lowerQuery = js_lower query;
          filtered = (if query \<noteq> [] then filter (\<lambda>lang. includes_str (js_lower (la_name lang)) lowerQuery) languages
                      else languages);
          index = indexByCode languages
      in js_sort (\<lambda>a b.
           let aSelected = la_code a \<in> set selectedCodes; bSelected = la_code b \<in> set selectedCodes
           in if aSelected \<noteq> bSelected then (if aSelected then - 1 else 1)
              else index (la_code a) - index (la_code b)) filtered)"

record languages_screen =
  lg_languages :: "language list"
  lg_selectedCodes :: "string list"
  lg_searchQuery :: string
  lg_isLoading :: bool
  lg_isSaving :: bool
  lg_continued :: nat

definition toggleLanguage :: "string \<Rightarrow> languages_screen \<Rightarrow> languages_screen" where
  "toggleLanguage code s =
     s\<lparr>lg_selectedCodes := (if code \<in> set (lg_selectedCodes s) then set_delete code (lg_selectedCodes s)
                           else set_add code (lg_selectedCodes s))\<rparr>"

definition languages_fetched :: "js_error + language list \<Rightarrow> languages_screen \<Rightarrow> languages_screen" where
  "languages_fetched answer s =
     s\<lparr>lg_languages := (case answer of Inl _ \<Rightarrow> [] | Inr ls \<Rightarrow> ls), lg_isLoading := False\<rparr>"

text \<open>\<^verbatim>\<open>handleSave\<close>, with the answer of \<^verbatim>\<open>saveSelectedLanguages\<close>.\<close>

definition handleSaveLanguages :: "(string list \<Rightarrow> js_error + unit) \<Rightarrow> languages_screen \<Rightarrow> languages_screen" where
  "handleSaveLanguages save s =
     (if \<not> length (lg_selectedCodes s) > 0 then s
      else (case save (lg_selectedCodes s) of
          Inr _ \<Rightarrow> s\<lparr>lg_isSaving := False, lg_continued := lg_continued s + 1\<rparr>
        | Inl _ \<Rightarrow> s\<lparr>lg_isSaving := False\<rparr>))"

lemma js_insert_behind:
  "(\<And>y. y \<in> set ys \<Longrightarrow> cmp y x \<le> 0) \<Longrightarrow> js_insert cmp x (ys @ zs) = ys @ js_insert cmp x zs"
  by (induction ys) force+

text \<open>Where every element compares behind those before it but for the selected ones going first.\<close>

lemma js_sort_partition:
  assumes "\<And>i j. i < j \<Longrightarrow> j < length xs \<Longrightarrow> sel (xs ! i) = sel (xs ! j) \<Longrightarrow> cmp (xs ! i) (xs ! j) \<le> 0"
    and "\<And>a b. sel a \<Longrightarrow> \<not> sel b \<Longrightarrow> cmp a b < 0 \<and> cmp b a > 0"
  shows "js_sort cmp xs = filter sel xs @ filter (\<lambda>x. \<not> sel x) xs"
  using assms(1)
proof (induction xs rule: rev_induct)
  case Nil
  then show ?case by (simp add: js_sort_def)
next
  case (snoc x xs)
  have before: "cmp y x \<le> 0" if y: "y \<in> set xs" "sel y = sel x" for y
  proof -
    obtain i where "i < length xs" "xs ! i = y" using y(1) by (auto simp: in_set_conv_nth)
    with snoc.prems [of i "length xs"] y(2) show ?thesis by (simp add: nth_append)
  qed
  have IH: "js_sort cmp xs = filter sel xs @ filter (\<lambda>x. \<not> sel x) xs"
  proof (rule snoc.IH)
    fix i j
    assume "i < j" "j < length xs" "sel (xs ! i) = sel (xs ! j)"
    with snoc.prems [of i j] show "cmp (xs ! i) (xs ! j) \<le> 0" by (simp add: nth_append)
  qed
  have sort: "js_sort cmp (xs @ [x]) = js_insert cmp x (js_sort cmp xs)" by (simp add: js_sort_def)
  show ?case
  proof (cases "sel x")
    case True
    have "js_insert cmp x (filter (\<lambda>x. \<not> sel x) xs) = x # filter (\<lambda>x. \<not> sel x) xs"
      using assms(2) [OF True] by (cases "filter (\<lambda>x. \<not> sel x) xs") (auto dest: filter_eq_ConsD)
    moreover have "js_insert cmp x (filter sel xs @ filter (\<lambda>x. \<not> sel x) xs) =
        filter sel xs @ js_insert cmp x (filter (\<lambda>x. \<not> sel x) xs)"
      using before True by (intro js_insert_behind) auto
    ultimately show ?thesis using True IH sort by simp
  next
    case False
    have "cmp y x \<le> 0" if "y \<in> set (filter sel xs @ filter (\<lambda>x. \<not> sel x) xs)" for y
      using that before [of y] assms(2) [of y x] False by (cases "sel y") auto
    then have "js_insert cmp x ((filter sel xs @ filter (\<lambda>x. \<not> sel x) xs) @ []) =
        (filter sel xs @ filter (\<lambda>x. \<not> sel x) xs) @ [x]"
      by (subst js_insert_behind) auto
    with False IH sort show ?thesis by simp
  qed
qed

lemma indexByCode_nth:
  assumes "distinct (map la_code languages)" "i < length languages"
  shows "indexByCode languages (la_code (languages ! i)) = int i"
proof -
  let ?m = "map (\<lambda>(i, lang). (la_code lang, int i)) (enumerate 0 languages)"
  have "map fst ?m = map la_code languages"
    by (rule nth_equalityI) (simp_all add: nth_enumerate_eq)
  with assms(1) have "distinct (map fst (rev ?m))" by (simp add: rev_map [symmetric])
  moreover have "(la_code (languages ! i), int i) \<in> set (rev ?m)"
    using assms(2) by (force simp: in_set_conv_nth nth_enumerate_eq intro: exI [of _ i])
  ultimately have "map_of (rev ?m) (la_code (languages ! i)) = Some (int i)" by (rule map_of_is_SomeI)
  then show ?thesis by (simp add: indexByCode_def)
qed

lemma index_grows:
  assumes "distinct (map la_code languages)" "i < j" "j < length (filter P languages)"
  shows "indexByCode languages (la_code (filter P languages ! i)) < indexByCode languages (la_code (filter P languages ! j))"
proof -
  have "sorted_wrt (\<lambda>a b. indexByCode languages (la_code a) < indexByCode languages (la_code b)) languages"
    using assms(1) by (simp add: sorted_wrt_iff_nth_less indexByCode_nth)
  then have "sorted_wrt (\<lambda>a b. indexByCode languages (la_code a) < indexByCode languages (la_code b)) (filter P languages)"
    by (rule sorted_wrt_filter)
  with assms(2,3) show ?thesis by (simp add: sorted_wrt_iff_nth_less)
qed

definition found_languages :: "string \<Rightarrow> language list" where
  "found_languages query =
     filter (\<lambda>lang. query = [] \<or> includes_str (js_lower (la_name lang)) (js_lower query)) fetchLanguages"

text \<open>
  The list of languages shows those that match the search, the selected ones first, and both parts in
  the order of the full list.
\<close>

theorem selected_languages_come_first:
  "filterAndSortLanguages fetchLanguages query selectedCodes =
     filter (\<lambda>lang. la_code lang \<in> set selectedCodes) (found_languages query) @
     filter (\<lambda>lang. la_code lang \<notin> set selectedCodes) (found_languages query)"
proof -
  have found: "(if query \<noteq> [] then filter (\<lambda>lang. includes_str (js_lower (la_name lang)) (js_lower query)) fetchLanguages
      else fetchLanguages) = found_languages query"
    by (simp add: found_languages_def)
  have grows: "i < j \<Longrightarrow> j < length (found_languages query) \<Longrightarrow>
      indexByCode fetchLanguages (la_code (found_languages query ! i)) <
      indexByCode fetchLanguages (la_code (found_languages query ! j))" for i j
    unfolding found_languages_def by (rule index_grows [OF language_codes_are_distinct])
  show ?thesis
    unfolding filterAndSortLanguages_def Let_def found
    by (rule js_sort_partition) (auto dest: grows)
qed

lemma toggling_twice_keeps_the_selection:
  "set (lg_selectedCodes (toggleLanguage c (toggleLanguage c s))) = set (lg_selectedCodes s)"
  by (auto simp: toggleLanguage_def)

text \<open>Languages are saved only when some are selected, and a failure leaves the screen without a word.\<close>

lemma failed_save_is_silent:
  "lg_selectedCodes s \<noteq> [] \<Longrightarrow> lg_isSaving s = False \<Longrightarrow> handleSaveLanguages (\<lambda>_. Inl e) s = s"
  by (simp add: handleSaveLanguages_def)

end
