(* ===== verification/ChatState.thy ===== *)
theory ChatState
  imports Prelude "HOL-Library.Multiset"
begin

text \<open>
  \<^verbatim>\<open>packages/chat/src\<close> and the tab of \<^verbatim>\<open>home-ui\<close> that uses it: the list of conversations, its archive,
  editing both, and deleting after a confirmation. The hooks \<^verbatim>\<open>use-chat-state.ts\<close>,
  \<^verbatim>\<open>use-edit-state.ts\<close> and \<^verbatim>\<open>use-chat-navigation.ts\<close> with the screens
  \<^verbatim>\<open>ConversationsEditScreen.tsx\<close>, \<^verbatim>\<open>ArchiveEditScreen.tsx\<close> and \<^verbatim>\<open>chat-tab-screen.tsx\<close> are one machine.
  The tile of the archive and the place of the context menu come last.
\<close>

section \<open>Conversations\<close>

record conversation =
  cv_id :: string
  cv_name :: string
  cv_preview :: string
  cv_time :: string
  cv_unreadCount :: "nat option"
  cv_isFolder :: bool

definition mock_conversation :: "string \<Rightarrow> string \<Rightarrow> string \<Rightarrow> string \<Rightarrow> nat option \<Rightarrow> conversation" where
  "mock_conversation i name preview time unread =
     \<lparr>cv_id = i, cv_name = name, cv_preview = preview, cv_time = time, cv_unreadCount = unread, cv_isFolder = False\<rparr>"

definition apostrophe :: char where "apostrophe = CHR 0x27"

definition MOCK_CONVERSATIONS :: "conversation list" where
  "MOCK_CONVERSATIONS = [
   (mock_conversation ''1'' ''Archive'' ''OXK Community, Binance Labs...'' ''11:23'' (Some 9))\<lparr>cv_isFolder := True\<rparr>,
   mock_conversation ''2'' ''Alicia Wernet'' ''Hey, did you receive the news?'' ''09:31'' (Some 1),
   mock_conversation ''3'' ''Ton Community'' ''Photo'' ''08:11'' None,
   mock_conversation ''4'' ''Ice Open Network'' ''Hi, Join us for an exclusive AMA...'' ''31.09'' None,
   mock_conversation ''5'' ''Diedo Shonli'' (''Are you sure? I haven'' @ [apostrophe] @ ''t heard of.'') ''30.09'' None,
   mock_conversation ''6'' ''Bitcoin Adept'' ''In the coming days, we will find out...'' ''30.09'' (Some 1)]"

definition MOCK_ARCHIVED_CONVERSATIONS :: "conversation list" where
  "MOCK_ARCHIVED_CONVERSATIONS = [
   mock_conversation ''a1'' ''OXK Community'' ''Welcome to OXK!'' ''11:20'' (Some 5),
   mock_conversation ''a2'' ''Binance Labs'' ''New investment opportunity...'' ''10:45'' (Some 4),
   mock_conversation ''a3'' ''Old Project Group'' ''Final report attached'' ''29.09'' None]"

definition initialConversations :: "conversation list" where
  "initialConversations = filter (\<lambda>c. \<not> cv_isFolder c) MOCK_CONVERSATIONS"

definition unread_of :: "conversation \<Rightarrow> nat" where
  "unread_of c = (case cv_unreadCount c of None \<Rightarrow> 0 | Some n \<Rightarrow> n)"

definition buildArchiveFolder :: "conversation list \<Rightarrow> conversation" where
  "buildArchiveFolder archived =
     (let names = join_with '', '' (map cv_name (take 2 archived));
          preview = (if length archived > 2 then names @ ''...'' else names);
          unreadCount = sum_list (map unread_of archived)
      in \<lparr>cv_id = ''archive-folder'', cv_name = ''Archive'', cv_preview = preview,
          cv_time = (case archived of [] \<Rightarrow> [] | c # _ \<Rightarrow> cv_time c), cv_unreadCount = Some unreadCount,
          cv_isFolder = True\<rparr>)"

definition computeTotalUnread :: "conversation list \<Rightarrow> conversation list \<Rightarrow> nat" where
  "computeTotalUnread conversations archived = sum_list (map unread_of (conversations @ archived))"

text \<open>The text of the badges in a row and in the navigation bar.\<close>

definition formatBadgeCount :: "nat \<Rightarrow> string" where
  "formatBadgeCount unread = (if unread > 99 then ''99+'' else nat_digits unread)"

section \<open>The tab\<close>

datatype chat_view = ListView | EditView | ArchiveListView | ArchiveEditView

text \<open>
  \<open>ct_selected\<close> and \<open>ct_deleteVisible\<close> are the state of an edit screen, which is new whenever the
  view changes; \<open>ct_pendingDelete\<close> is the conversation whose deletion waits for a confirmation in the
  list.
\<close>

record chat =
  ct_conversations :: "conversation list"
  ct_archived :: "conversation list"
  ct_view :: chat_view
  ct_selected :: "string list"
  ct_deleteVisible :: bool
  ct_pendingDelete :: "string option"
  ct_navHidden :: bool

definition new_chat :: chat where
  "new_chat =
     \<lparr>ct_conversations = initialConversations, ct_archived = MOCK_ARCHIVED_CONVERSATIONS, ct_view = ListView,
      ct_selected = [], ct_deleteVisible = False, ct_pendingDelete = None, ct_navHidden = False\<rparr>"

definition archiveConversations :: "string set \<Rightarrow> chat \<Rightarrow> chat" where
  "archiveConversations ids s =
     (let toArchive = filter (\<lambda>c. cv_id c \<in> ids) (ct_conversations s)
      in s\<lparr>ct_conversations := filter (\<lambda>c. cv_id c \<notin> ids) (ct_conversations s),
           ct_archived := toArchive @ ct_archived s\<rparr>)"

definition unarchiveConversations :: "string set \<Rightarrow> chat \<Rightarrow> chat" where
  "unarchiveConversations ids s =
     (let toRestore = filter (\<lambda>c. cv_id c \<in> ids) (ct_archived s)
      in s\<lparr>ct_conversations := toRestore @ ct_conversations s,
           ct_archived := filter (\<lambda>c. cv_id c \<notin> ids) (ct_archived s)\<rparr>)"

definition deleteConversations :: "string set \<Rightarrow> chat \<Rightarrow> chat" where
  "deleteConversations ids s = s\<lparr>ct_conversations := filter (\<lambda>c. cv_id c \<notin> ids) (ct_conversations s)\<rparr>"

definition deleteArchivedConversations :: "string set \<Rightarrow> chat \<Rightarrow> chat" where
  "deleteArchivedConversations ids s = s\<lparr>ct_archived := filter (\<lambda>c. cv_id c \<notin> ids) (ct_archived s)\<rparr>"

text \<open>Every change of the view mounts another screen.\<close>

definition show_view :: "chat_view \<Rightarrow> bool \<Rightarrow> chat \<Rightarrow> chat" where
  "show_view v hidden s = s\<lparr>ct_navHidden := hidden, ct_view := v, ct_selected := [], ct_deleteVisible := False\<rparr>"

definition showEdit :: "chat \<Rightarrow> chat" where "showEdit = show_view EditView True"
definition showList :: "chat \<Rightarrow> chat" where "showList = show_view ListView False"
definition showArchive :: "chat \<Rightarrow> chat" where "showArchive = show_view ArchiveListView False"
definition showArchiveEdit :: "chat \<Rightarrow> chat" where "showArchiveEdit = show_view ArchiveEditView True"
definition showArchiveList :: "chat \<Rightarrow> chat" where "showArchiveList = show_view ArchiveListView False"

definition toggleItem :: "string \<Rightarrow> chat \<Rightarrow> chat" where
  "toggleItem i s =
     s\<lparr>ct_selected := (if i \<in> set (ct_selected s) then set_delete i (ct_selected s) else set_add i (ct_selected s))\<rparr>"

definition deleteSheet_show :: "chat \<Rightarrow> chat" where
  "deleteSheet_show s = s\<lparr>ct_deleteVisible := True\<rparr>"

definition deleteSheet_close :: "chat \<Rightarrow> chat" where
  "deleteSheet_close s = s\<lparr>ct_deleteVisible := False\<rparr>"

definition deleteSheet_confirm :: "chat \<Rightarrow> chat" where
  "deleteSheet_confirm s = s\<lparr>ct_deleteVisible := False, ct_selected := []\<rparr>"

text \<open>Without a selection the actions of an edit screen are about all conversations it shows.\<close>

definition edit_targetIds :: "chat \<Rightarrow> string set" where
  "edit_targetIds s =
     (if ct_selected s = [] then cv_id ` set (filter (\<lambda>c. \<not> cv_isFolder c) (ct_conversations s))
      else set (ct_selected s))"

definition archive_targetIds :: "chat \<Rightarrow> string set" where
  "archive_targetIds s = (if ct_selected s = [] then cv_id ` set (ct_archived s) else set (ct_selected s))"

definition handleArchive :: "chat \<Rightarrow> chat" where
  "handleArchive s = showList (archiveConversations (edit_targetIds s) s)"

definition edit_handleDeleteConfirm :: "chat \<Rightarrow> chat" where
  "edit_handleDeleteConfirm s = showList (deleteSheet_confirm (deleteConversations (edit_targetIds s) s))"

definition handleUnarchive :: "chat \<Rightarrow> chat" where
  "handleUnarchive s = showArchiveList (unarchiveConversations (archive_targetIds s) s)"

definition archive_handleDeleteConfirm :: "chat \<Rightarrow> chat" where
  "archive_handleDeleteConfirm s =
     showArchiveList (deleteSheet_confirm (deleteArchivedConversations (archive_targetIds s) s))"

definition handleConversationPress :: "conversation \<Rightarrow> chat \<Rightarrow> chat" where
  "handleConversationPress c s = (if cv_isFolder c then showArchive s else s)"

definition setPendingDeleteId :: "string option \<Rightarrow> chat \<Rightarrow> chat" where
  "setPendingDeleteId i s = s\<lparr>ct_pendingDelete := i\<rparr>"

text \<open>An empty id counts as none.\<close>

definition confirmDelete :: "chat \<Rightarrow> chat" where
  "confirmDelete s =
     setPendingDeleteId None
       (case ct_pendingDelete s of
          None \<Rightarrow> s
        | Some i \<Rightarrow> if i \<noteq> [] then deleteConversations {i} s else s)"

datatype chat_event =
    EditPressed
  | DonePressed
  | BackPressed
  | RowPressed conversation
  | ItemToggled string
  | ReadPressed
  | ArchivePressed
  | DeletePressed
  | SheetClosed
  | DeleteConfirmed
  | MenuArchive conversation
  | MenuDelete conversation

text \<open>What the screen of the current view makes of an event.\<close>

fun list_step :: "chat_event \<Rightarrow> chat \<Rightarrow> chat" where
  "list_step EditPressed s = showEdit s"
| "list_step (RowPressed c) s = handleConversationPress c s"
| "list_step (MenuArchive c) s = archiveConversations {cv_id c} s"
| "list_step (MenuDelete c) s = setPendingDeleteId (Some (cv_id c)) s"
| "list_step SheetClosed s = setPendingDeleteId None s"
| "list_step DeleteConfirmed s = confirmDelete s"
| "list_step _ s = s"

fun edit_step :: "chat_event \<Rightarrow> chat \<Rightarrow> chat" where
  "edit_step DonePressed s = showList s"
| "edit_step (ItemToggled i) s = toggleItem i s"
| "edit_step ArchivePressed s = handleArchive s"
| "edit_step DeletePressed s = deleteSheet_show s"
| "edit_step SheetClosed s = deleteSheet_close s"
| "edit_step DeleteConfirmed s = (if ct_deleteVisible s then edit_handleDeleteConfirm s else s)"
| "edit_step _ s = s"

fun archive_list_step :: "chat_event \<Rightarrow> chat \<Rightarrow> chat" where
  "archive_list_step BackPressed s = showList s"
| "archive_list_step EditPressed s = showArchiveEdit s"
| "archive_list_step _ s = s"

fun archive_edit_step :: "chat_event \<Rightarrow> chat \<Rightarrow> chat" where
  "archive_edit_step DonePressed s = showArchiveList s"
| "archive_edit_step (ItemToggled i) s = toggleItem i s"
| "archive_edit_step ArchivePressed s = handleUnarchive s"
| "archive_edit_step DeletePressed s = deleteSheet_show s"
| "archive_edit_step SheetClosed s = deleteSheet_close s"
| "archive_edit_step DeleteConfirmed s = (if ct_deleteVisible s then archive_handleDeleteConfirm s else s)"
| "archive_edit_step _ s = s"

definition ChatTabScreen :: "chat_event \<Rightarrow> chat \<Rightarrow> chat" where
  "ChatTabScreen e s = (case ct_view s of
     EditView \<Rightarrow> edit_step e s
   | ArchiveListView \<Rightarrow> archive_list_step e s
   | ArchiveEditView \<Rightarrow> archive_edit_step e s
   | ListView \<Rightarrow> list_step e s)"

definition chat_run :: "chat_event list \<Rightarrow> chat \<Rightarrow> chat" where
  "chat_run es s = fold ChatTabScreen es s"

text \<open>The badge of the tab, which an effect sets after every render.\<close>

definition chat_badge :: "chat \<Rightarrow> nat" where
  "chat_badge s = computeTotalUnread (ct_conversations s) (ct_archived s)"

lemmas chat_defs = archiveConversations_def unarchiveConversations_def deleteConversations_def
  deleteArchivedConversations_def show_view_def showEdit_def showList_def showArchive_def showArchiveEdit_def
  showArchiveList_def toggleItem_def deleteSheet_show_def deleteSheet_close_def deleteSheet_confirm_def
  handleArchive_def edit_handleDeleteConfirm_def handleUnarchive_def archive_handleDeleteConfirm_def
  handleConversationPress_def setPendingDeleteId_def confirmDelete_def

section \<open>Behaviour\<close>

lemma filter_eq_single:
  "distinct (map f xs) \<Longrightarrow> x \<in> set xs \<Longrightarrow> filter (\<lambda>y. f y = f x) xs = [x]"
  by (induction xs) (auto simp: filter_empty_conv image_iff)

definition everything :: "chat \<Rightarrow> conversation multiset" where
  "everything s = mset (ct_conversations s) + mset (ct_archived s)"

lemma mset_filter_split: "mset (filter P xs) + mset (filter (\<lambda>x. \<not> P x) xs) = mset xs"
  by (induction xs) auto

lemma everything_archive [simp]: "everything (archiveConversations ids s) = everything s"
  using mset_filter_split [of "\<lambda>c. cv_id c \<in> ids" "ct_conversations s"]
  by (simp add: everything_def archiveConversations_def Let_def ac_simps)

lemma everything_unarchive [simp]: "everything (unarchiveConversations ids s) = everything s"
  using mset_filter_split [of "\<lambda>c. cv_id c \<in> ids" "ct_archived s"]
  by (simp add: everything_def unarchiveConversations_def Let_def ac_simps)

lemma everything_delete [simp]:
  "everything (deleteConversations ids s) \<subseteq># everything s"
  "everything (deleteArchivedConversations ids s) \<subseteq># everything s"
  by (simp_all add: everything_def deleteConversations_def deleteArchivedConversations_def mset_filter)

lemma everything_frame [simp]:
  "everything (show_view v b s) = everything s" "everything (toggleItem i s) = everything s"
  "everything (setPendingDeleteId p s) = everything s" "everything (deleteSheet_show s) = everything s"
  "everything (deleteSheet_close s) = everything s" "everything (deleteSheet_confirm s) = everything s"
  by (simp_all add: everything_def show_view_def toggleItem_def setPendingDeleteId_def deleteSheet_show_def
      deleteSheet_close_def deleteSheet_confirm_def)

lemmas show_defs = showEdit_def showList_def showArchive_def showArchiveEdit_def showArchiveList_def

lemma everything_step:
  "everything (ChatTabScreen e s) \<subseteq># everything s \<and>
   (e \<noteq> DeleteConfirmed \<longrightarrow> everything (ChatTabScreen e s) = everything s)"
  by (cases e; cases "ct_view s")
    (simp_all add: ChatTabScreen_def show_defs handleConversationPress_def handleArchive_def handleUnarchive_def
      confirmDelete_def edit_handleDeleteConfirm_def archive_handleDeleteConfirm_def split: option.splits)

text \<open>
  C37. Nothing appears that was not there, and no conversation is lost before a deletion has been
  confirmed: whatever is selected, archived, taken out of the archive and looked at, the list and the
  archive together hold the same conversations.
\<close>

theorem conversations_are_conserved:
  "everything (chat_run es s) \<subseteq># everything s \<and>
   (DeleteConfirmed \<notin> set es \<longrightarrow> everything (chat_run es s) = everything s)"
  unfolding chat_run_def
proof (induction es arbitrary: s)
  case (Cons e es)
  from everything_step [of e s] Cons.IH [of "ChatTabScreen e s"] show ?case
    by (auto intro: subset_mset.order_trans)
qed simp

theorem conversations_are_conserved_witness:
  "everything (chat_run [EditPressed, ItemToggled ''2'', ArchivePressed, RowPressed (buildArchiveFolder [])] new_chat) =
   everything new_chat"
  using conversations_are_conserved [of "[EditPressed, ItemToggled ''2'', ArchivePressed, RowPressed (buildArchiveFolder [])]" new_chat]
  by simp

text \<open>The badge counts what the list and the tile of the archive show together, and does not change by archiving.\<close>

lemma badge_is_list_and_folder:
  "chat_badge s = sum_list (map unread_of (ct_conversations s)) + unread_of (buildArchiveFolder (ct_archived s))"
  by (simp add: chat_badge_def computeTotalUnread_def buildArchiveFolder_def unread_of_def Let_def)

lemma badge_of_everything: "chat_badge s = (\<Sum>c \<in># everything s. unread_of c)"
  by (simp add: chat_badge_def computeTotalUnread_def everything_def sum_mset_sum_list [symmetric])


text \<open>The bottom navigation is hidden exactly in the two edit screens, and a selection lives only there.\<close>

definition view_ok :: "chat \<Rightarrow> bool" where
  "view_ok s \<longleftrightarrow>
     (ct_navHidden s \<longleftrightarrow> ct_view s = EditView \<or> ct_view s = ArchiveEditView) \<and>
     (\<not> ct_navHidden s \<longrightarrow> ct_selected s = [] \<and> \<not> ct_deleteVisible s)"

lemma view_ok_step: "view_ok s \<Longrightarrow> view_ok (ChatTabScreen e s)"
  by (cases e; cases "ct_view s")
    (auto simp: ChatTabScreen_def view_ok_def chat_defs Let_def split: option.splits)

lemma navigation_is_hidden_while_editing: "view_ok (chat_run es new_chat)"
proof -
  have "view_ok s \<Longrightarrow> view_ok (fold ChatTabScreen es s)" for s
    by (induction es arbitrary: s) (auto intro: view_ok_step)
  then show ?thesis by (simp add: chat_run_def view_ok_def new_chat_def)
qed

text \<open>
  What is taken out of the archive comes back at the head of the list, in the order of the archive:
  archiving and unarchiving one conversation moves it to the top.
\<close>

lemma archived_conversation_comes_back_on_top:
  assumes "distinct (map cv_id (ct_conversations s @ ct_archived s))" "c \<in> set (ct_conversations s)"
  shows "ct_conversations (unarchiveConversations {cv_id c} (archiveConversations {cv_id c} s)) =
           c # filter (\<lambda>d. cv_id d \<noteq> cv_id c) (ct_conversations s)"
proof -
  have "filter (\<lambda>d. cv_id d = cv_id c) (ct_conversations s) = [c]"
    using assms by (intro filter_eq_single) auto
  moreover have "filter (\<lambda>d. cv_id d = cv_id c) (ct_archived s) = []"
    using assms by (force simp: filter_empty_conv)
  ultimately show ?thesis
    by (simp add: archiveConversations_def unarchiveConversations_def Let_def)
qed

text \<open>Pressing delete without a selection and confirming removes every conversation of the list.\<close>

lemma delete_without_selection_deletes_all:
  assumes "\<forall>c \<in> set (ct_conversations s). \<not> cv_isFolder c" "ct_view s = ListView"
  shows "ct_conversations (chat_run [EditPressed, DeletePressed, DeleteConfirmed] s) = []"
  using assms by (auto simp: chat_run_def ChatTabScreen_def chat_defs edit_targetIds_def filter_empty_conv)

section \<open>The tile of the archive\<close>

text \<open>\<^verbatim>\<open>use-archive-pull-reveal.ts\<close>; the clock is an argument of the event.\<close>

definition DIRECTION_THRESHOLD :: rat where "DIRECTION_THRESHOLD = 2"
definition COOLDOWN_MS :: int where "COOLDOWN_MS = 200"

record archive_tile =
  at_isVisible :: bool
  at_lastOffsetY :: rat
  at_lastChangeTime :: int

definition hidden_tile :: archive_tile where
  "hidden_tile = \<lparr>at_isVisible = False, at_lastOffsetY = 0, at_lastChangeTime = 0\<rparr>"

definition handleScroll :: "bool \<Rightarrow> rat \<Rightarrow> int \<Rightarrow> archive_tile \<Rightarrow> archive_tile" where
  "handleScroll isWeb offsetY now t =
     (let rawDelta = offsetY - at_lastOffsetY t; t' = t\<lparr>at_lastOffsetY := offsetY\<rparr>
      in if now - at_lastChangeTime t' < COOLDOWN_MS then t'
         else let delta = (if isWeb then - rawDelta else rawDelta)
              in if delta > DIRECTION_THRESHOLD then t'\<lparr>at_isVisible := True, at_lastChangeTime := now\<rparr>
                 else if delta < - DIRECTION_THRESHOLD then t'\<lparr>at_isVisible := False, at_lastChangeTime := now\<rparr>
                 else t')"

text \<open>The tile changes at most once in 200 ms.\<close>

lemma tile_cools_down:
  "at_isVisible (handleScroll isWeb y now t) \<noteq> at_isVisible t \<Longrightarrow>
   at_lastChangeTime t + COOLDOWN_MS \<le> now \<and> at_lastChangeTime (handleScroll isWeb y now t) = now"
  by (auto simp: handleScroll_def Let_def split: if_splits)

text \<open>The two platforms reveal the tile in opposite directions.\<close>

lemma platforms_reveal_in_opposite_directions:
  assumes "at_lastChangeTime t + 200 \<le> now" "2 < d"
  shows "at_isVisible (handleScroll False (at_lastOffsetY t + d) now t) \<and>
         at_isVisible (handleScroll True (at_lastOffsetY t - d) now t) \<and>
         \<not> at_isVisible (handleScroll True (at_lastOffsetY t + d) now t)"
  using assms by (simp add: handleScroll_def COOLDOWN_MS_def DIRECTION_THRESHOLD_def Let_def)

section \<open>The context menu\<close>

text \<open>
  \<^verbatim>\<open>use-conversation-context-menu.ts\<close>: rows register a reference when they mount and remove it when they
  unmount; \<open>measured\<close> is \<^verbatim>\<open>measureInWindow\<close> of a mounted row.
\<close>

record menu_layout =
  ml_x :: rat
  ml_y :: rat
  ml_width :: rat
  ml_height :: rat

record context_menu =
  mn_state :: "(conversation \<times> menu_layout) option"
  mn_rowRefs :: "string list"

definition row_ref :: "string \<Rightarrow> bool \<Rightarrow> context_menu \<Rightarrow> context_menu" where
  "row_ref i mounted m =
     m\<lparr>mn_rowRefs := (if mounted then set_add i (mn_rowRefs m) else set_delete i (mn_rowRefs m))\<rparr>"

definition menu_show :: "(string \<Rightarrow> menu_layout) \<Rightarrow> conversation \<Rightarrow> context_menu \<Rightarrow> context_menu" where
  "menu_show measured c m =
     (if cv_id c \<in> set (mn_rowRefs m) then m\<lparr>mn_state := Some (c, measured (cv_id c))\<rparr> else m)"

definition menu_close :: "context_menu \<Rightarrow> context_menu" where
  "menu_close m = m\<lparr>mn_state := None\<rparr>"

text \<open>A long press; the folder has no menu.\<close>

definition menu_long_press :: "(string \<Rightarrow> menu_layout) \<Rightarrow> conversation \<Rightarrow> context_menu \<Rightarrow> context_menu" where
  "menu_long_press measured c m = (if \<not> cv_isFolder c then menu_show measured c m else m)"

definition MENU_WIDTH :: rat where "MENU_WIDTH = 180"
definition MENU_GAP :: rat where "MENU_GAP = 4"
definition ROW_PAD_H :: rat where "ROW_PAD_H = 12"
definition ROW_PAD_V :: rat where "ROW_PAD_V = 2"
definition ESTIMATED_MENU_HEIGHT :: rat where "ESTIMATED_MENU_HEIGHT = 200"

definition computeMenuPosition :: "rat \<Rightarrow> menu_layout \<Rightarrow> (rat \<Rightarrow> rat) \<Rightarrow> rat \<times> rat" where
  "computeMenuPosition screen_height layout scale =
     (let menuWidth = scale MENU_WIDTH; padH = scale ROW_PAD_H; padV = scale ROW_PAD_V;
          left = ml_x layout + ml_width layout + padH - menuWidth;
          menuTop = ml_y layout + ml_height layout + padV + scale MENU_GAP;
          estimatedMenuHeight = scale ESTIMATED_MENU_HEIGHT
      in if menuTop + estimatedMenuHeight > screen_height - scale 40
         then (ml_y layout - padV - estimatedMenuHeight - scale MENU_GAP, left)
         else (menuTop, left))"

text \<open>
  The menu ends above the lower edge of the screen, or else it stands above its row; on a screen
  that is too low for both it begins above the upper edge.
\<close>

lemma menu_fits_below_or_stands_above:
  assumes "computeMenuPosition h layout scale = (y, x)"
  shows "y + scale ESTIMATED_MENU_HEIGHT \<le> h - scale 40 \<or>
         y + scale ESTIMATED_MENU_HEIGHT + scale MENU_GAP + scale ROW_PAD_V = ml_y layout"
  using assms by (auto simp: computeMenuPosition_def Let_def split: if_splits)

lemma menu_leaves_a_low_screen:
  "fst (computeMenuPosition 300 \<lparr>ml_x = 0, ml_y = 100, ml_width = 300, ml_height = 60\<rparr> (\<lambda>n. n)) = - 106"
  by (simp add: computeMenuPosition_def Let_def ESTIMATED_MENU_HEIGHT_def MENU_GAP_def ROW_PAD_V_def
      ROW_PAD_H_def MENU_WIDTH_def)

end
