(* ===== verification/MediaViewer.thy ===== *)
theory MediaViewer
  imports Prelude
begin

text \<open>
  \<^verbatim>\<open>packages/media-viewer/src\<close>: a picture on the full screen. The gestures of
  \<^verbatim>\<open>use-pinch-to-zoom.ts\<close> and \<^verbatim>\<open>use-dismiss-gesture.ts\<close> work on shared values that may be animated:
  \<open>withTiming\<close> gives a value a target, and every frame moves it some part of the way, so a gesture
  that reads a value during an animation sees what is between. Which gesture gets a touch is up to
  the gesture library; its callbacks are the events. Numbers are rationals.
\<close>

section \<open>Zoom\<close>

definition MIN_SCALE :: rat where "MIN_SCALE = 1"
definition MAX_SCALE :: rat where "MAX_SCALE = 4"
definition DOUBLE_TAP_SCALE :: rat where "DOUBLE_TAP_SCALE = 2"

definition clampScale :: "rat \<Rightarrow> rat" where
  "clampScale x = min (max x MIN_SCALE) MAX_SCALE"

text \<open>A shared value and the target of its animation.\<close>

record shared =
  sh_value :: rat
  sh_target :: "rat option"

definition assign :: "rat \<Rightarrow> shared \<Rightarrow> shared" where
  "assign v x = \<lparr>sh_value = v, sh_target = None\<rparr>"

definition withTiming :: "rat \<Rightarrow> shared \<Rightarrow> shared" where
  "withTiming v x = x\<lparr>sh_target := Some v\<rparr>"

text \<open>A frame moves an animated value by a part \<open>q\<close> of the way; the last one ends the animation.\<close>

definition animate :: "rat \<Rightarrow> shared \<Rightarrow> shared" where
  "animate q x = (case sh_target x of
     None \<Rightarrow> x
   | Some t \<Rightarrow>
       if q \<ge> 1 then \<lparr>sh_value = t, sh_target = None\<rparr>
       else x\<lparr>sh_value := sh_value x + max 0 q * (t - sh_value x)\<rparr>)"

record zoom =
  zs_scale :: shared
  zs_savedScale :: rat
  zs_translateX :: shared
  zs_translateY :: shared
  zs_savedTranslateX :: rat
  zs_savedTranslateY :: rat

definition no_zoom :: zoom where
  "no_zoom =
     \<lparr>zs_scale = \<lparr>sh_value = 1, sh_target = None\<rparr>, zs_savedScale = 1,
      zs_translateX = \<lparr>sh_value = 0, sh_target = None\<rparr>, zs_translateY = \<lparr>sh_value = 0, sh_target = None\<rparr>,
      zs_savedTranslateX = 0, zs_savedTranslateY = 0\<rparr>"

definition resetTranslation :: "zoom \<Rightarrow> zoom" where
  "resetTranslation z =
     z\<lparr>zs_translateX := withTiming 0 (zs_translateX z), zs_translateY := withTiming 0 (zs_translateY z),
       zs_savedTranslateX := 0, zs_savedTranslateY := 0\<rparr>"

definition pinch_update :: "rat \<Rightarrow> zoom \<Rightarrow> zoom" where
  "pinch_update event_scale z = z\<lparr>zs_scale := assign (clampScale (zs_savedScale z * event_scale)) (zs_scale z)\<rparr>"

definition pinch_end :: "zoom \<Rightarrow> zoom" where
  "pinch_end z =
     (let z' = z\<lparr>zs_savedScale := sh_value (zs_scale z)\<rparr>
      in if sh_value (zs_scale z') \<le> MIN_SCALE
         then resetTranslation (z'\<lparr>zs_scale := withTiming MIN_SCALE (zs_scale z'), zs_savedScale := MIN_SCALE\<rparr>)
         else z')"

definition double_tap :: "zoom \<Rightarrow> zoom" where
  "double_tap z =
     (let isZoomed = sh_value (zs_scale z) > MIN_SCALE;
          tgt = (if isZoomed then MIN_SCALE else DOUBLE_TAP_SCALE)
      in resetTranslation (z\<lparr>zs_scale := withTiming tgt (zs_scale z), zs_savedScale := tgt\<rparr>))"

definition pan_update :: "rat \<Rightarrow> rat \<Rightarrow> zoom \<Rightarrow> zoom" where
  "pan_update tx ty z =
     (if sh_value (zs_scale z) \<le> MIN_SCALE then z
      else z\<lparr>zs_translateX := assign (zs_savedTranslateX z + tx) (zs_translateX z),
             zs_translateY := assign (zs_savedTranslateY z + ty) (zs_translateY z)\<rparr>)"

definition pan_end :: "zoom \<Rightarrow> zoom" where
  "pan_end z =
     z\<lparr>zs_savedTranslateX := sh_value (zs_translateX z), zs_savedTranslateY := sh_value (zs_translateY z)\<rparr>"

definition zoom_frame :: "rat \<Rightarrow> zoom \<Rightarrow> zoom" where
  "zoom_frame q z =
     z\<lparr>zs_scale := animate q (zs_scale z), zs_translateX := animate q (zs_translateX z),
       zs_translateY := animate q (zs_translateY z)\<rparr>"

datatype zoom_event = PinchUpdate rat | PinchEnd | DoubleTap | PanUpdate rat rat | PanEnd | Frame rat

fun zoom_step :: "zoom_event \<Rightarrow> zoom \<Rightarrow> zoom" where
  "zoom_step (PinchUpdate s) z = pinch_update s z"
| "zoom_step PinchEnd z = pinch_end z"
| "zoom_step DoubleTap z = double_tap z"
| "zoom_step (PanUpdate tx ty) z = pan_update tx ty z"
| "zoom_step PanEnd z = pan_end z"
| "zoom_step (Frame q) z = zoom_frame q z"

definition zoom_run :: "zoom_event list \<Rightarrow> zoom \<Rightarrow> zoom" where
  "zoom_run es z = fold zoom_step es z"

lemmas zoom_defs = clampScale_def assign_def withTiming_def resetTranslation_def pinch_update_def pinch_end_def
  double_tap_def pan_update_def pan_end_def zoom_frame_def MIN_SCALE_def MAX_SCALE_def DOUBLE_TAP_SCALE_def

definition within_scale :: "rat \<Rightarrow> bool" where
  "within_scale s \<longleftrightarrow> MIN_SCALE \<le> s \<and> s \<le> MAX_SCALE"

definition zoom_ok :: "zoom \<Rightarrow> bool" where
  "zoom_ok z \<longleftrightarrow>
     within_scale (sh_value (zs_scale z)) \<and> within_scale (zs_savedScale z) \<and>
     pred_option within_scale (sh_target (zs_scale z))"

lemma way_between:
  fixes v t q :: rat
  assumes "a \<le> v" "v \<le> b" "a \<le> t" "t \<le> b" "0 \<le> q" "q \<le> 1"
  shows "a \<le> v + q * (t - v) \<and> v + q * (t - v) \<le> b"
proof -
  have convex: "v + q * (t - v) = (1 - q) * v + q * t" by (simp add: algebra_simps)
  have "(1 - q) * a + q * a \<le> (1 - q) * v + q * t" "(1 - q) * v + q * t \<le> (1 - q) * b + q * b"
    using assms by (intro add_mono mult_left_mono; simp)+
  then show ?thesis unfolding convex by (simp add: algebra_simps)
qed

lemma animate_within:
  assumes "within_scale (sh_value x)" "pred_option within_scale (sh_target x)"
  shows "within_scale (sh_value (animate q x)) \<and> pred_option within_scale (sh_target (animate q x))"
proof (cases "sh_target x")
  case (Some t)
  with assms way_between [of MIN_SCALE "sh_value x" MAX_SCALE t "max 0 q"] show ?thesis
    by (auto simp: animate_def within_scale_def)
qed (use assms in \<open>simp add: animate_def\<close>)

lemma within_clamp: "within_scale (clampScale v)"
  by (simp add: within_scale_def zoom_defs)

lemma within_constants [simp]: "within_scale MIN_SCALE" "within_scale DOUBLE_TAP_SCALE"
  by (simp_all add: within_scale_def MIN_SCALE_def MAX_SCALE_def DOUBLE_TAP_SCALE_def)

lemma zoom_ok_step: "zoom_ok z \<Longrightarrow> zoom_ok (zoom_step e z)"
proof (cases e)
  case (Frame q)
  assume "zoom_ok z"
  with Frame animate_within [of "zs_scale z" q] show ?thesis by (simp add: zoom_ok_def zoom_frame_def)
qed (auto simp: zoom_ok_def pinch_update_def pinch_end_def double_tap_def pan_update_def pan_end_def
      resetTranslation_def assign_def withTiming_def within_clamp Let_def)

text \<open>
  C39. Whatever gestures follow each other, and at whatever point of an animation they begin, the picture
  is never smaller than its frame and never enlarged more than four times.
\<close>

theorem zoom_stays_within_bounds:
  "MIN_SCALE \<le> sh_value (zs_scale (zoom_run es no_zoom)) \<and> sh_value (zs_scale (zoom_run es no_zoom)) \<le> MAX_SCALE"
proof -
  have "zoom_ok z \<Longrightarrow> zoom_ok (fold zoom_step es z)" for z
    by (induction es arbitrary: z) (auto intro: zoom_ok_step)
  moreover have "zoom_ok no_zoom" by (simp add: zoom_ok_def no_zoom_def within_scale_def MIN_SCALE_def MAX_SCALE_def)
  ultimately have "zoom_ok (zoom_run es no_zoom)" by (simp add: zoom_run_def)
  then show ?thesis by (simp add: zoom_ok_def within_scale_def)
qed

text \<open>Two double taps, each played to its end, give the first picture back.\<close>

lemma double_tap_toggles:
  assumes "sh_value (zs_scale z) \<le> MIN_SCALE"
  shows "sh_value (zs_scale (zoom_run [DoubleTap, Frame 1] z)) = DOUBLE_TAP_SCALE \<and>
         sh_value (zs_scale (zoom_run [DoubleTap, Frame 1, DoubleTap, Frame 1] z)) = MIN_SCALE \<and>
         sh_value (zs_translateX (zoom_run [DoubleTap, Frame 1, DoubleTap, Frame 1] z)) = 0"
  using assms by (simp add: zoom_run_def zoom_defs animate_def Let_def)

text \<open>
  Where the fingers of a pinch that ends at the smallest scale also end a pan, the pan saves the
  translation that is just being reset: the picture moves back, but the next pan begins with the
  old offset.
\<close>

lemma pan_end_undoes_the_reset:
  assumes "sh_value (zs_scale z) \<le> 1" "sh_value (zs_translateX z) = x"
  shows "sh_value (zs_translateX (zoom_run [PinchEnd, PanEnd, Frame 1] z)) = 0 \<and>
         sh_value (zs_translateX (zoom_run [PinchEnd, PanEnd, Frame 1, PinchUpdate 2, PanUpdate 0 0] z)) = x"
  using assms by (simp add: zoom_run_def zoom_defs animate_def Let_def)

section \<open>Dismissing\<close>

definition DISMISS_THRESHOLD :: rat where "DISMISS_THRESHOLD = 150"

definition dismiss_update :: "rat \<Rightarrow> rat \<Rightarrow> shared \<Rightarrow> shared" where
  "dismiss_update scale translationY y = (if scale > 1 then y else assign (max 0 translationY) y)"

text \<open>The result says whether \<^verbatim>\<open>onClose\<close> is called.\<close>

definition dismiss_end :: "shared \<Rightarrow> bool \<times> shared" where
  "dismiss_end y = (if sh_value y > DISMISS_THRESHOLD then (True, y) else (False, withTiming 0 y))"

text \<open>\<^verbatim>\<open>interpolate\<close> between two points, clamped.\<close>

definition interpolate_clamp :: "rat \<Rightarrow> rat \<times> rat \<Rightarrow> rat \<times> rat \<Rightarrow> rat" where
  "interpolate_clamp x inp out =
     (let r = (x - fst inp) / (snd inp - fst inp)
      in if x \<le> fst inp then fst out else if x \<ge> snd inp then snd out else fst out + r * (snd out - fst out))"

definition backgroundOpacity :: "shared \<Rightarrow> rat" where
  "backgroundOpacity y = interpolate_clamp (sh_value y) (0, DISMISS_THRESHOLD * 2) (1, 2 / 10)"

lemma opacity_stays_visible: "2 / 10 \<le> backgroundOpacity y \<and> backgroundOpacity y \<le> 1"
proof -
  have "2 / 10 \<le> 1 + q * (2 / 10 - 1) \<and> 1 + q * (2 / 10 - 1) \<le> (1 :: rat)" if "0 \<le> q" "q \<le> 1" for q :: rat
    using way_between [of "2 / 10" 1 1 "2 / 10" q] that by simp
  then show ?thesis
    by (auto simp: backgroundOpacity_def interpolate_clamp_def DISMISS_THRESHOLD_def Let_def)
qed

text \<open>
  A drag closes the picture only where it is not enlarged and was moved down by more than the
  threshold; upwards it does not move.
\<close>

lemma closing_needs_a_long_drag:
  assumes "scale \<le> 1"
  shows "fst (dismiss_end (dismiss_update scale dy y)) \<longleftrightarrow> dy > DISMISS_THRESHOLD"
    and "0 \<le> sh_value (dismiss_update scale dy y)"
  using assms by (auto simp: dismiss_end_def dismiss_update_def assign_def DISMISS_THRESHOLD_def)

section \<open>Sources\<close>

record media_source =
  mv_uri :: string
  mv_mimeType :: string
  mv_width :: "rat option"
  mv_height :: "rat option"

record aspect_result =
  ar_width :: rat
  ar_height :: rat
  ar_aspectRatio :: rat

text \<open>A missing side and a side of zero are both falsy.\<close>

definition calculateAspectRatio :: "media_source \<Rightarrow> aspect_result option" where
  "calculateAspectRatio src = (case (mv_width src, mv_height src) of
     (Some w, Some h) \<Rightarrow>
       if w = 0 \<or> h = 0 then None else Some \<lparr>ar_width = w, ar_height = h, ar_aspectRatio = w / h\<rparr>
   | _ \<Rightarrow> None)"

definition getAspectRatioStyle :: "media_source \<Rightarrow> rat option" where
  "getAspectRatioStyle src = map_option ar_aspectRatio (calculateAspectRatio src)"

definition isImageMimeType :: "string \<Rightarrow> bool" where
  "isImageMimeType mimeType = prefix ''image/'' mimeType"

datatype media_item = FullscreenImage media_source | FullscreenVideo media_source

definition renderMediaItem :: "media_source \<Rightarrow> media_item" where
  "renderMediaItem src = (if isImageMimeType (mv_mimeType src) then FullscreenImage src else FullscreenVideo src)"

text \<open>The first visible item, given by its index where it has one.\<close>

definition handleViewableItemsChanged :: "nat option list \<Rightarrow> nat \<Rightarrow> nat" where
  "handleViewableItemsChanged viewable current = (case viewable of
     Some i # _ \<Rightarrow> i
   | _ \<Rightarrow> current)"

text \<open>The message of a failed video, from the details that the player gives.\<close>

record video_error_detail =
  ve_errorString :: "string option"
  ve_localizedDescription :: "string option"
  ve_error :: "string option"

definition buildVideoError :: "video_error_detail \<Rightarrow> string" where
  "buildVideoError detail =
     (case ve_errorString detail of Some m \<Rightarrow> m | None \<Rightarrow>
       (case ve_localizedDescription detail of Some m \<Rightarrow> m | None \<Rightarrow>
         (case ve_error detail of Some m \<Rightarrow> m | None \<Rightarrow> ''Video playback error'')))"

lemma aspect_ratio_restores_the_height:
  "getAspectRatioStyle src = Some r \<Longrightarrow> mv_width src = Some w \<Longrightarrow> mv_height src = Some (w / r)"
  by (auto simp: getAspectRatioStyle_def calculateAspectRatio_def split: option.splits if_splits)

text \<open>The type of a source is compared by its letters: one in capitals is played as a video.\<close>

lemma capital_image_type_is_a_video:
  "mv_mimeType src = ''IMAGE/PNG'' \<Longrightarrow> renderMediaItem src = FullscreenVideo src"
  by (simp add: renderMediaItem_def isImageMimeType_def)

end
