(* ===== verification/PlatformDevice.thy ===== *)
theory PlatformDevice
  imports IdentityCrypto
begin

unbundle bit_operations_syntax

text \<open>
  \<^verbatim>\<open>packages/platform\<close>: the identity of the device, its description, the referrer of the
  installation, the keyboard and the insets of the screen, on both platforms. Keychain, AsyncStorage,
  native modules, \<^verbatim>\<open>localStorage\<close> and the URL of the page are parameters or inputs; the random
  bytes of \<^verbatim>\<open>crypto.getRandomValues\<close> are an argument.
\<close>

section \<open>A version 4 UUID\<close>

definition generateUuid :: "bytes \<Rightarrow> string" where
  "generateUuid random =
     (let bytes = random[6 := (random ! 6 AND 0x0F) OR 0x40];
          bytes = bytes[8 := (bytes ! 8 AND 0x3F) OR 0x80];
          hex = bytesToHex bytes
      in join_with ''-''
           [take 8 hex, take 4 (drop 8 hex), take 4 (drop 12 hex), take 4 (drop 16 hex), take 12 (drop 20 hex)])"

lemma bytes_16:
  assumes "length bs = 16"
  obtains a b c d e f g h i j k l m n p q where "bs = [a, b, c, d, e, f, g, h, i, j, k, l, m, n, p, q]"
proof -
  from assms have "length bs = Suc (Suc (Suc (Suc (Suc (Suc (Suc (Suc (Suc (Suc (Suc (Suc (Suc (Suc (Suc (Suc 0)))))))))))))))"
    by simp
  then show thesis using that by (auto simp: length_Suc_conv)
qed

definition hex_of :: "8 word \<Rightarrow> string" where
  "hex_of b = [hex_digit (unat b div 16), hex_digit (unat b mod 16)]"

lemma uuid_layout:
  "generateUuid [a, b, c, d, e, f, g, h, i, j, k, l, m, n, p, q] =
     concat (map hex_of [a, b, c, d]) @ ''-'' @ concat (map hex_of [e, f]) @ ''-'' @
     concat (map hex_of [(g AND 0x0F) OR 0x40, h]) @ ''-'' @
     concat (map hex_of [(i AND 0x3F) OR 0x80, j]) @ ''-'' @ concat (map hex_of [k, l, m, n, p, q])"
  by (simp add: generateUuid_def bytesToHex_def hex_of_def Let_def)

definition lower_hex :: "char \<Rightarrow> bool" where
  "lower_hex c \<longleftrightarrow> c \<in> set ''0123456789abcdef''"

lemma lower_hex_digit: "n < 16 \<Longrightarrow> lower_hex (hex_digit n)"
proof -
  have "\<forall>n \<in> set [0..<16]. lower_hex (hex_digit n)" by code_simp
  then show "n < 16 \<Longrightarrow> lower_hex (hex_digit n)" by simp
qed

lemma hex_of_lower: "list_all lower_hex (hex_of b)"
proof -
  have "unat b div 16 < 16" using unat_byte [of b] by simp
  then show ?thesis by (simp add: hex_of_def lower_hex_digit)
qed

lemma version_byte: "unat ((g AND 0x0F) OR 0x40 :: 8 word) div 16 = 4"
proof -
  have all: "\<forall>x \<in> set [0..<256]. unat ((word_of_nat x AND 0x0F) OR 0x40 :: 8 word) div 16 = 4" by code_simp
  from bspec [OF this, of "unat g"] show ?thesis using unat_byte [of g] by simp
qed

lemma variant_byte: "unat ((i AND 0x3F) OR 0x80 :: 8 word) div 16 \<in> {8, 9, 10, 11}"
proof -
  have all: "\<forall>x \<in> set [0..<256]. unat ((word_of_nat x AND 0x3F) OR 0x80 :: 8 word) div 16 \<in> {8, 9, 10, 11}" by code_simp
  from bspec [OF this, of "unat i"] show ?thesis using unat_byte [of i] by simp
qed

text \<open>
  Whatever is drawn, the identifier has the 36 characters of a UUID: four dashes at their places, the
  version 4, the variant of RFC 4122, and lower-case hexadecimal digits elsewhere.
\<close>

theorem uuid_is_version_4:
  assumes "length random = 16"
  shows "let u = generateUuid random in
    length u = 36 \<and> map (\<lambda>n. u ! n) [8, 13, 18, 23] = ''----'' \<and> u ! 14 = CHR ''4'' \<and> u ! 19 \<in> set ''89ab'' \<and>
    list_all lower_hex (filter (\<lambda>c. c \<noteq> CHR ''-'') u) \<and> length (filter (\<lambda>c. c \<noteq> CHR ''-'') u) = 32"
proof -
  from bytes_16 [OF assms] obtain a b c d e f g h i j k l m n p q
    where r: "random = [a, b, c, d, e, f, g, h, i, j, k, l, m, n, p, q]" by blast
  have dash: "\<not> lower_hex (CHR ''-'')" by (simp add: lower_hex_def)
  have keep: "filter (\<lambda>c. c \<noteq> CHR ''-'') (hex_of w) = hex_of w" for w
    using hex_of_lower [of w] dash by (auto simp: hex_of_def)
  have len: "length (hex_of w) = 2" for w by (simp add: hex_of_def)
  have v: "hex_digit (unat ((g AND 0x0F) OR 0x40) div 16) = CHR ''4''"
    unfolding version_byte by code_simp
  have w: "hex_digit (unat ((i AND 0x3F) OR 0x80) div 16) \<in> set ''89ab''"
  proof -
    have "\<forall>d \<in> {8, 9, 10, 11}. hex_digit d \<in> set ''89ab''" by code_simp
    with variant_byte [of i] show ?thesis by blast
  qed
  have "length (generateUuid random) = 36" unfolding r uuid_layout by (simp add: len)
  moreover have "list_all lower_hex (filter (\<lambda>c. c \<noteq> CHR ''-'') (generateUuid random))"
    unfolding r uuid_layout by (simp add: keep hex_of_lower)
  moreover have "length (filter (\<lambda>c. c \<noteq> CHR ''-'') (generateUuid random)) = 32"
    unfolding r uuid_layout by (simp add: keep len)
  moreover have "map (\<lambda>n. generateUuid random ! n) [8, 13, 18, 23] = ''----''" "generateUuid random ! 14 = CHR ''4''"
    "generateUuid random ! 19 \<in> set ''89ab''"
    using v w unfolding r uuid_layout by (simp_all add: hex_of_def)
  ultimately show ?thesis by (simp add: Let_def)
qed

section \<open>One fetch for all callers\<close>

text \<open>
  \<^verbatim>\<open>getDeviceId\<close>, \<^verbatim>\<open>getDeviceInfo\<close>, \<^verbatim>\<open>getUserAgent\<close> and \<^verbatim>\<open>getInstallReferrer\<close> share one shape: a value is
  kept in a module variable, and so is the promise under way. \<open>mm_fetches\<close> holds every fetch that was
  started and its outcome, \<open>mm_answers\<close> what each call returned: the kept value, or the promise of a
  fetch. A value that is falsy, such as an empty string, counts as none.
\<close>

record 'a memo =
  mm_cached :: "'a option"
  mm_pending :: "nat option"
  mm_fetches :: "(js_error + 'a) option list"
  mm_answers :: "(nat + 'a) list"

definition new_memo :: "'a memo" where
  "new_memo = \<lparr>mm_cached = None, mm_pending = None, mm_fetches = [], mm_answers = []\<rparr>"

definition memo_call :: "('a \<Rightarrow> bool) \<Rightarrow> 'a memo \<Rightarrow> 'a memo" where
  "memo_call truthy m =
     (case Option.bind (mm_cached m) (\<lambda>v. if truthy v then Some v else None) of
        Some v \<Rightarrow> m\<lparr>mm_answers := mm_answers m @ [Inr v]\<rparr>
      | None \<Rightarrow>
          (case mm_pending m of
             Some f \<Rightarrow> m\<lparr>mm_answers := mm_answers m @ [Inl f]\<rparr>
           | None \<Rightarrow> m\<lparr>mm_pending := Some (length (mm_fetches m)), mm_fetches := mm_fetches m @ [None],
                       mm_answers := mm_answers m @ [Inl (length (mm_fetches m))]\<rparr>))"

text \<open>A fetch settles; the handler of \<^verbatim>\<open>then\<close> runs after a success only.\<close>

definition memo_settles :: "nat \<Rightarrow> js_error + 'a \<Rightarrow> 'a memo \<Rightarrow> 'a memo" where
  "memo_settles f outcome m =
     (if f < length (mm_fetches m) \<and> mm_fetches m ! f = None then
        (let m' = m\<lparr>mm_fetches := (mm_fetches m)[f := Some outcome]\<rparr>
         in case outcome of Inl e \<Rightarrow> m' | Inr v \<Rightarrow> m'\<lparr>mm_cached := Some v, mm_pending := None\<rparr>)
      else m)"

datatype 'a memo_event = Called | Settles nat "js_error + 'a"

fun memo_step :: "('a \<Rightarrow> bool) \<Rightarrow> 'a memo_event \<Rightarrow> 'a memo \<Rightarrow> 'a memo" where
  "memo_step truthy Called m = memo_call truthy m"
| "memo_step truthy (Settles f outcome) m = memo_settles f outcome m"

definition memo_run :: "('a \<Rightarrow> bool) \<Rightarrow> 'a memo_event list \<Rightarrow> 'a memo \<Rightarrow> 'a memo" where
  "memo_run truthy es m = fold (memo_step truthy) es m"

text \<open>What a caller gets: nothing yet, an error or the value.\<close>

definition outcome_of :: "'a memo \<Rightarrow> nat + 'a \<Rightarrow> (js_error + 'a) option" where
  "outcome_of m a = (case a of Inl f \<Rightarrow> mm_fetches m ! f | Inr v \<Rightarrow> Some (Inr v))"

definition getDeviceId :: "string memo \<Rightarrow> string memo" where
  "getDeviceId = memo_call (\<lambda>v. v \<noteq> [])"

definition getUserAgent :: "string memo \<Rightarrow> string memo" where
  "getUserAgent = memo_call (\<lambda>v. v \<noteq> [])"

lemmas memo_defs = memo_call_def memo_settles_def outcome_of_def

fun falsy_settles :: "('a \<Rightarrow> bool) \<Rightarrow> 'a memo_event \<Rightarrow> bool" where
  "falsy_settles truthy (Settles f (Inr v)) = (\<not> truthy v)"
| "falsy_settles truthy e = False"

definition memo_ok :: "('a \<Rightarrow> bool) \<Rightarrow> 'a memo \<Rightarrow> bool" where
  "memo_ok truthy m \<longleftrightarrow>
     m = new_memo \<or>
     set (mm_answers m) \<subseteq> {Inl 0} \<and> mm_cached m = None \<and> mm_pending m = Some 0 \<and> mm_fetches m = [None] \<or>
     (\<exists>e. set (mm_answers m) \<subseteq> {Inl 0} \<and> mm_cached m = None \<and> mm_pending m = Some 0 \<and> mm_fetches m = [Some (Inl e)]) \<or>
     (\<exists>v. truthy v \<and> set (mm_answers m) \<subseteq> {Inl 0, Inr v} \<and> mm_cached m = Some v \<and> mm_pending m = None \<and>
        mm_fetches m = [Some (Inr v)])"

lemma memo_ok_step: "memo_ok truthy m \<Longrightarrow> \<not> falsy_settles truthy e \<Longrightarrow> memo_ok truthy (memo_step truthy e m)"
  by (cases e)
    (auto simp: memo_ok_def memo_defs new_memo_def Let_def split: sum.splits option.splits)

text \<open>
  However many callers there are, and whenever they call: the platform is asked at most once in
  the life of the process, and every caller gets the outcome of that one fetch.
\<close>

theorem platform_is_asked_once:
  assumes "\<forall>e \<in> set es. \<not> falsy_settles truthy e"
  shows "let m = memo_run truthy es new_memo in
    length (mm_fetches m) \<le> 1 \<and> outcome_of m ` set (mm_answers m) \<subseteq> set (mm_fetches m)"
proof -
  have "memo_ok truthy m \<Longrightarrow> \<forall>e \<in> set es. \<not> falsy_settles truthy e \<Longrightarrow> memo_ok truthy (fold (memo_step truthy) es m)" for m
    by (induction es arbitrary: m) (auto intro: memo_ok_step)
  from this [OF _ assms, of new_memo] show ?thesis
    by (auto simp: memo_run_def memo_ok_def new_memo_def outcome_of_def Let_def)
qed

theorem platform_is_asked_once_witness:
  "length (mm_fetches (memo_run (\<lambda>v. v \<noteq> ''''  ) [Called, Called, Settles 0 (Inr ''id''), Called] new_memo)) \<le> 1"
  using platform_is_asked_once [of "[Called, Called, Settles 0 (Inr ''id''), Called]" "\<lambda>v. v \<noteq> ''''"]
  by (simp add: Let_def)

text \<open>
  The promise that failed is kept as well: after one failure every later call is answered with that
  error, and the platform is not asked again before the process ends.
\<close>

lemma failed_fetch_is_final:
  "let m = memo_run truthy (Called # Settles 0 (Inl e) # replicate n Called) new_memo in
   mm_fetches m = [Some (Inl e)] \<and> outcome_of m ` set (mm_answers m) = {Some (Inl e)}"
proof -
  let ?m = "\<lambda>n. \<lparr>mm_cached = None, mm_pending = Some 0, mm_fetches = [Some (Inl e)],
              mm_answers = replicate (Suc n) (Inl 0)\<rparr>"
  have "fold (memo_step truthy) (replicate n Called) (?m k) = ?m (k + n)" for k
    by (induction n arbitrary: k) (simp_all add: memo_defs replicate_append_same [symmetric])
  from this [of 0] show ?thesis
    by (simp add: memo_run_def memo_defs new_memo_def Let_def set_replicate_conv_if)
qed

section \<open>The identity of the device\<close>

record 's device =
  dv_getGenericPassword :: "string \<Rightarrow> ('s, js_error, string option) io"
  dv_setGenericPassword :: "string \<Rightarrow> string \<Rightarrow> string \<Rightarrow> ('s, js_error, unit) io"
  dv_getAndroidId :: "('s, js_error, string) io"
  dv_getItem :: "string \<Rightarrow> ('s, js_error, string option) io"
  dv_setItem :: "string \<Rightarrow> string \<Rightarrow> ('s, js_error, unit) io"

definition SERVICE_NAME :: string where "SERVICE_NAME = ''com.ion.device-id''"
definition ACCOUNT_NAME :: string where "ACCOUNT_NAME = ''device-id-account''"
definition DEVICE_STORAGE_KEY :: string where "DEVICE_STORAGE_KEY = ''@ion/platform/device-id''"

definition getIosDeviceId :: "'s device \<Rightarrow> bytes \<Rightarrow> ('s, js_error, string) io" where
  "getIosDeviceId dv random =
     io_bind (dv_getGenericPassword dv SERVICE_NAME) (\<lambda>credentials.
       if credentials \<noteq> None \<and> credentials \<noteq> Some [] then io_return (the credentials)
       else
         (let generated = generateUuid random
          in io_then (dv_setGenericPassword dv ACCOUNT_NAME generated SERVICE_NAME) (io_return generated)))"

definition readOrCreateFallbackId :: "'s device \<Rightarrow> bytes \<Rightarrow> ('s, js_error, string) io" where
  "readOrCreateFallbackId dv random =
     io_bind (dv_getItem dv DEVICE_STORAGE_KEY) (\<lambda>stored.
       if stored \<noteq> None \<and> stored \<noteq> Some [] then io_return (the stored)
       else
         (let generated = generateUuid random
          in io_then (dv_setItem dv DEVICE_STORAGE_KEY generated) (io_return generated)))"

definition getAndroidDeviceId :: "'s device \<Rightarrow> bytes \<Rightarrow> ('s, js_error, string) io" where
  "getAndroidDeviceId dv random =
     io_bind (io_catch (io_bind (dv_getAndroidId dv) (\<lambda>androidId. io_return (Some androidId)))
                       (\<lambda>_. io_return None)) (\<lambda>androidId.
       if androidId \<noteq> None \<and> androidId \<noteq> Some [] \<and> androidId \<noteq> Some ''unknown''
       then io_return (the androidId) else readOrCreateFallbackId dv random)"

definition fetchDeviceId :: "string \<Rightarrow> 's device \<Rightarrow> bytes \<Rightarrow> ('s, js_error, string) io" where
  "fetchDeviceId os dv random = (if os = ''ios'' then getIosDeviceId dv random else getAndroidDeviceId dv random)"

text \<open>On the web: the kept value, and \<^verbatim>\<open>localStorage\<close>.\<close>

definition web_getDeviceId :: "bytes \<Rightarrow> string option \<times> string js_record \<Rightarrow> string \<times> string option \<times> string js_record" where
  "web_getDeviceId random st =
     (case st of (cached, ls) \<Rightarrow>
        if cached \<noteq> None \<and> cached \<noteq> Some [] then (the cached, cached, ls)
        else
          (let stored = map_of ls DEVICE_STORAGE_KEY
           in if stored \<noteq> None \<and> stored \<noteq> Some [] then (the stored, stored, ls)
              else (let generated = generateUuid random
                    in (generated, Some generated, AList.update DEVICE_STORAGE_KEY generated ls))))"

text \<open>
  A place that holds one text: reading gives what was written, and changes nothing. Both native
  functions and the web rest on such a place.
\<close>

definition read_or_create ::
  "('s, js_error, string option) io \<Rightarrow> (string \<Rightarrow> ('s, js_error, unit) io) \<Rightarrow> string \<Rightarrow> ('s, js_error, string) io" where
  "read_or_create read_slot write_slot generated =
     io_bind read_slot (\<lambda>stored.
       if stored \<noteq> None \<and> stored \<noteq> Some [] then io_return (the stored)
       else io_then (write_slot generated) (io_return generated))"

locale id_slot =
  fixes read_slot :: "('s, js_error, string option) io"
    and write_slot :: "string \<Rightarrow> ('s, js_error, unit) io"
  assumes read_keeps: "read_slot s = (r, t) \<Longrightarrow> read_slot t = (r, t)"
    and written: "write_slot v s = (Inr (), t) \<Longrightarrow> read_slot t = (Inr (Some v), t)"
begin

lemma created_is_kept:
  assumes "read_or_create read_slot write_slot v s = (Inr w, t)" "v \<noteq> []"
  shows "w \<noteq> [] \<and> read_or_create read_slot write_slot v' t = (Inr w, t)"
  using assms
  by (auto simp: read_or_create_def io_simps read_keeps split: prod.splits sum.splits if_splits dest: written)

end

interpretation local_storage_slot: id_slot
    "\<lambda>ls. (Inr (map_of ls DEVICE_STORAGE_KEY), ls)"
    "\<lambda>v ls. (Inr (), AList.update DEVICE_STORAGE_KEY v ls)"
  by unfold_locales (auto simp: AList.update_conv')

lemma ios_id_is_a_slot:
  "getIosDeviceId dv random =
     read_or_create (dv_getGenericPassword dv SERVICE_NAME)
       (\<lambda>v. dv_setGenericPassword dv ACCOUNT_NAME v SERVICE_NAME) (generateUuid random)"
  unfolding getIosDeviceId_def read_or_create_def Let_def ..

lemma fallback_id_is_a_slot:
  "readOrCreateFallbackId dv random =
     read_or_create (dv_getItem dv DEVICE_STORAGE_KEY) (dv_setItem dv DEVICE_STORAGE_KEY) (generateUuid random)"
  unfolding readOrCreateFallbackId_def read_or_create_def Let_def ..

lemma uuid_not_Nil: "length random = 16 \<Longrightarrow> generateUuid random \<noteq> []"
  using bytes_16 [of random] by (metis append_is_Nil_conv list.distinct(1) uuid_layout)

text \<open>
  The identity of an iOS device, once it has been handed out, is handed out again by every later
  process, whatever it would draw, as long as the keychain keeps what it is given.
\<close>

theorem device_id_is_kept:
  assumes "id_slot (dv_getGenericPassword dv SERVICE_NAME) (\<lambda>v. dv_setGenericPassword dv ACCOUNT_NAME v SERVICE_NAME)"
    and "length random = 16" and "fetchDeviceId ''ios'' dv random s = (Inr v, t)"
  shows "v \<noteq> [] \<and> fetchDeviceId ''ios'' dv random' t = (Inr v, t)"
  using id_slot.created_is_kept [OF assms(1) _ uuid_not_Nil [OF assms(2)], of s v t "generateUuid random'"] assms(3)
  by (simp add: fetchDeviceId_def ios_id_is_a_slot)

definition one_slot_device :: "string option device" where
  "one_slot_device = \<lparr>dv_getGenericPassword = \<lambda>svc s. (Inr s, s),
     dv_setGenericPassword = \<lambda>account pw svc s. (Inr (), Some pw),
     dv_getAndroidId = io_return ''unknown'', dv_getItem = \<lambda>k s. (Inr s, s), dv_setItem = \<lambda>k v s. (Inr (), Some v)\<rparr>"

theorem device_id_is_kept_witness:
  "fetchDeviceId ''ios'' one_slot_device (replicate 16 0xFF) (Some (generateUuid (replicate 16 0))) =
     (Inr (generateUuid (replicate 16 0)), Some (generateUuid (replicate 16 0)))"
proof -
  have "id_slot (dv_getGenericPassword one_slot_device SERVICE_NAME)
      (\<lambda>v. dv_setGenericPassword one_slot_device ACCOUNT_NAME v SERVICE_NAME)"
    by unfold_locales (auto simp: one_slot_device_def)
  moreover have "fetchDeviceId ''ios'' one_slot_device (replicate 16 0) None =
      (Inr (generateUuid (replicate 16 0)), Some (generateUuid (replicate 16 0)))"
    by (simp add: fetchDeviceId_def getIosDeviceId_def one_slot_device_def io_simps Let_def)
  ultimately show ?thesis
    using device_id_is_kept [of one_slot_device "replicate 16 0"] by simp
qed

text \<open>On Android the same holds of the fallback, but not of the identity: it changes with the fate of the native one.\<close>

lemma fallback_id_is_kept:
  assumes "id_slot (dv_getItem dv DEVICE_STORAGE_KEY) (dv_setItem dv DEVICE_STORAGE_KEY)" "length random = 16"
    and "readOrCreateFallbackId dv random s = (Inr v, t)"
  shows "readOrCreateFallbackId dv random' t = (Inr v, t)"
  using id_slot.created_is_kept [OF assms(1) _ uuid_not_Nil [OF assms(2)], of s v t] assms(3)
  by (simp add: fallback_id_is_a_slot)

lemma android_id_may_change:
  assumes "dv_getAndroidId dv s = (Inl e, s)" "dv_getAndroidId dv t = (Inr native, t)"
    and "readOrCreateFallbackId dv random s = (Inr v, t)" "native \<notin> {[], ''unknown''}"
  shows "fst (fetchDeviceId ''android'' dv random s) = Inr v \<and> fst (fetchDeviceId ''android'' dv random' t) = Inr native"
  using assms by (simp add: fetchDeviceId_def getAndroidDeviceId_def io_simps)

lemma web_id_survives_a_reload:
  assumes "length random = 16" "web_getDeviceId random (None, ls) = (v, cached, ls')"
  shows "cached = Some v \<and> fst (web_getDeviceId random' (cached, ls'')) = v \<and> fst (web_getDeviceId random' (None, ls')) = v"
  using assms uuid_not_Nil [OF assms(1)]
    local_storage_slot.created_is_kept [of "generateUuid random" ls v ls' "generateUuid random'"]
  by (auto simp: web_getDeviceId_def read_or_create_def io_simps Let_def AList.update_conv' split: if_splits) metis+

section \<open>What the device is\<close>

datatype device_platform = DeviceIos | DeviceAndroid | DeviceWeb

record device_info =
  di_platform :: device_platform
  di_osVersion :: string
  di_deviceModel :: string
  di_appVersion :: string
  di_buildNumber :: string

definition resolvePlatform :: "string \<Rightarrow> device_platform" where
  "resolvePlatform os = (if os = ''ios'' then DeviceIos else DeviceAndroid)"

definition fetchDeviceInfo ::
  "string \<Rightarrow> js_error + string \<Rightarrow> js_error + string \<Rightarrow> js_error + string \<Rightarrow> js_error + string \<Rightarrow> js_error + device_info" where
  "fetchDeviceInfo os systemVersion model version buildNumber =
     (case (systemVersion, model, version, buildNumber) of
        (Inr v, Inr m, Inr a, Inr b) \<Rightarrow>
          Inr \<lparr>di_platform = resolvePlatform os, di_osVersion = v, di_deviceModel = m, di_appVersion = a, di_buildNumber = b\<rparr>
      | (Inl e, _) \<Rightarrow> Inl e | (_, Inl e, _) \<Rightarrow> Inl e | (_, _, Inl e, _) \<Rightarrow> Inl e | (_, _, _, Inl e) \<Rightarrow> Inl e)"

definition getDeviceInfo :: "device_info memo \<Rightarrow> device_info memo" where
  "getDeviceInfo = memo_call (\<lambda>_. True)"

fun platform_str :: "device_platform \<Rightarrow> string" where
  "platform_str DeviceIos = ''ios''"
| "platform_str DeviceAndroid = ''android''"
| "platform_str DeviceWeb = ''web''"

definition buildUserAgent :: "device_info \<Rightarrow> string" where
  "buildUserAgent info =
     platform_str (di_platform info) @ ''/'' @ di_osVersion info @ '' ion/'' @ di_appVersion info @ ''.'' @ di_buildNumber info"

text \<open>The first place of a text where a pattern matches.\<close>

fun first_match :: "(string \<Rightarrow> 'a option) \<Rightarrow> string \<Rightarrow> 'a option" where
  "first_match f [] = f []"
| "first_match f (c # cs) = (case f (c # cs) of None \<Rightarrow> first_match f cs | Some v \<Rightarrow> Some v)"

fun strip_any :: "string list \<Rightarrow> string \<Rightarrow> (string \<times> string) option" where
  "strip_any [] s = None"
| "strip_any (w # ws) s = (if prefix w s then Some (w, drop (length w) s) else strip_any ws s)"

definition version_char :: "char \<Rightarrow> bool" where
  "version_char c \<longleftrightarrow> is_digit c \<or> c = CHR ''.''"

definition browser_at :: "string \<Rightarrow> (string \<times> string) option" where
  "browser_at s =
     (case strip_any [''Chrome/'', ''Firefox/'', ''Safari/'', ''Edge/'', ''Opera/''] s of
        None \<Rightarrow> None
      | Some (name, rest) \<Rightarrow>
          if rest \<noteq> [] \<and> is_digit (hd rest) then Some (butlast name, takeWhile version_char rest) else None)"

definition explorer_at :: "string \<Rightarrow> (string \<times> string) option" where
  "explorer_at s =
     (case strip_any [''MSIE '', ''rv:''] s of
        None \<Rightarrow> None
      | Some (name, rest) \<Rightarrow>
          if takeWhile version_char rest \<noteq> [] then Some (name, takeWhile version_char rest) else None)"

definition parseUserAgent :: "string \<Rightarrow> string \<times> string" where
  "parseUserAgent userAgent =
     (case first_match browser_at userAgent of
        Some m \<Rightarrow> m
      | None \<Rightarrow> (case first_match explorer_at userAgent of Some m \<Rightarrow> m | None \<Rightarrow> (''Unknown'', ''0'')))"

definition web_getDeviceInfo ::
  "string \<Rightarrow> string option \<Rightarrow> string option \<Rightarrow> device_info option \<Rightarrow> device_info \<times> device_info option" where
  "web_getDeviceInfo userAgent appVersion buildNumber cached =
     (case cached of
        Some info \<Rightarrow> (info, cached)
      | None \<Rightarrow>
          (let info = \<lparr>di_platform = DeviceWeb, di_osVersion = snd (parseUserAgent userAgent),
                 di_deviceModel = fst (parseUserAgent userAgent),
                 di_appVersion = (case appVersion of None \<Rightarrow> ''0.0.0'' | Some v \<Rightarrow> v),
                 di_buildNumber = (case buildNumber of None \<Rightarrow> ''0'' | Some v \<Rightarrow> v)\<rparr>
           in (info, Some info)))"

text \<open>
  A recognised browser has a version of digits and dots that starts with a digit. The names of the
  other browsers stand behind that of the first one they claim to be: Edge is taken for Chrome, and the
  name of an old Internet Explorer is the text before its version.
\<close>

lemma first_match_at: "first_match f s = Some v \<Longrightarrow> \<exists>n. f (drop n s) = Some v"
proof (induction s)
  case Nil
  then show ?case by (intro exI [of _ 0]) simp
next
  case (Cons c cs)
  show ?case
  proof (cases "f (c # cs)")
    case None
    with Cons obtain n where "f (drop n cs) = Some v" by auto
    then show ?thesis by (intro exI [of _ "Suc n"]) simp
  next
    case (Some w)
    with Cons.prems show ?thesis by (intro exI [of _ 0]) simp
  qed
qed

lemma browser_version:
  assumes "first_match browser_at userAgent = Some (name, version)"
  shows "name \<in> {''Chrome'', ''Firefox'', ''Safari'', ''Edge'', ''Opera''} \<and> version \<noteq> [] \<and> is_digit (hd version) \<and>
         list_all version_char version"
proof -
  from first_match_at [OF assms] obtain n where "browser_at (drop n userAgent) = Some (name, version)" by blast
  moreover have "list_all version_char (takeWhile version_char r)" for r
    by (auto simp: list_all_iff dest: set_takeWhileD)
  moreover have "r \<noteq> [] \<Longrightarrow> is_digit (hd r) \<Longrightarrow> takeWhile version_char r \<noteq> [] \<and> is_digit (hd (takeWhile version_char r))" for r
    by (cases r) (auto simp: version_char_def)
  ultimately show ?thesis by (auto simp: browser_at_def split: if_splits)
qed

lemma edge_is_taken_for_chrome:
  "parseUserAgent ''Mozilla/5.0 AppleWebKit/537.36 Chrome/90.0 Safari/537.36 Edge/90.1'' = (''Chrome'', ''90.0'')"
  by code_simp

lemma explorer_is_named_after_its_mark:
  "parseUserAgent ''Mozilla/5.0 (Trident/7.0; rv:11.0) like Gecko'' = (''rv:'', ''11.0'')"
  by code_simp

section \<open>The referrer of the installation\<close>

record install_referrer =
  rf_senderId :: "string option"
  rf_rawReferrer :: "string option"

definition EMPTY_REFERRER :: install_referrer where
  "EMPTY_REFERRER = \<lparr>rf_senderId = None, rf_rawReferrer = None\<rparr>"

definition sender_at :: "string \<Rightarrow> string option" where
  "sender_at s =
     (case strip_any [''sender_id=''] s of
        None \<Rightarrow> None
      | Some (_, rest) \<Rightarrow>
          (let v = takeWhile (\<lambda>c. c \<noteq> CHR ''&'') rest in if v \<noteq> [] then Some v else None))"

text \<open>\<open>decode\<close> is \<^verbatim>\<open>decodeURIComponent\<close>; \<open>None\<close> is its exception.\<close>

definition parseSenderId :: "(string \<Rightarrow> string option) \<Rightarrow> string \<Rightarrow> string option option" where
  "parseSenderId decode referrer =
     (case first_match sender_at referrer of
        None \<Rightarrow> Some None
      | Some raw \<Rightarrow> map_option Some (decode raw))"

definition fetchAndroidReferrer ::
  "(string \<Rightarrow> string option) \<Rightarrow> (js_error + string) option \<Rightarrow> install_referrer" where
  "fetchAndroidReferrer decode nativeModule =
     (case nativeModule of
        None \<Rightarrow> EMPTY_REFERRER
      | Some (Inl e) \<Rightarrow> EMPTY_REFERRER
      | Some (Inr rawReferrer) \<Rightarrow>
          if rawReferrer = [] then EMPTY_REFERRER
          else (case parseSenderId decode rawReferrer of
                  None \<Rightarrow> EMPTY_REFERRER
                | Some senderId \<Rightarrow> \<lparr>rf_senderId = senderId, rf_rawReferrer = Some rawReferrer\<rparr>))"

definition fetchInstallReferrer ::
  "(string \<Rightarrow> string option) \<Rightarrow> string \<Rightarrow> (js_error + string) option \<Rightarrow> install_referrer" where
  "fetchInstallReferrer decode os nativeModule =
     (if os = ''android'' then fetchAndroidReferrer decode nativeModule else EMPTY_REFERRER)"

definition getInstallReferrer :: "install_referrer memo \<Rightarrow> install_referrer memo" where
  "getInstallReferrer = memo_call (\<lambda>_. True)"

text \<open>\<open>params\<close> are the parameters of the page in order, \<open>asText\<close> is their \<^verbatim>\<open>toString()\<close>.\<close>

definition parseReferrerFromUrl :: "(string \<times> string) list \<Rightarrow> string \<Rightarrow> install_referrer" where
  "parseReferrerFromUrl params asText =
     \<lparr>rf_senderId = (case map_of params ''ref'' of Some v \<Rightarrow> Some v | None \<Rightarrow> map_of params ''utm_source''),
      rf_rawReferrer = (if asText = [] then None else Some asText)\<rparr>"

definition web_getInstallReferrer ::
  "(string \<times> string) list \<Rightarrow> string \<Rightarrow> install_referrer option \<Rightarrow> install_referrer \<times> install_referrer option" where
  "web_getInstallReferrer params asText cached =
     (case cached of
        Some r \<Rightarrow> (r, cached)
      | None \<Rightarrow> (parseReferrerFromUrl params asText, Some (parseReferrerFromUrl params asText)))"

text \<open>The sender is found where it is the first parameter or one behind parameters of other names.\<close>

lemma sender_is_found:
  assumes "decode v = Some w" "v \<noteq> []" "CHR ''&'' \<notin> set v" "rest = [] \<or> hd rest = CHR ''&''"
  shows "fetchInstallReferrer decode ''android'' (Some (Inr (''sender_id='' @ v @ rest))) =
    \<lparr>rf_senderId = Some w, rf_rawReferrer = Some (''sender_id='' @ v @ rest)\<rparr>"
proof -
  have "takeWhile (\<lambda>c. c \<noteq> CHR ''&'') (v @ rest) = v"
    using assms(3,4) by (cases rest) (auto simp: takeWhile_append)
  then have "sender_at (''sender_id='' @ v @ rest) = Some v" using assms(2) by (simp add: sender_at_def Let_def)
  then have "parseSenderId decode (''sender_id='' @ v @ rest) = Some (Some w)"
    using assms(1) by (simp add: parseSenderId_def)
  then show ?thesis by (simp add: fetchInstallReferrer_def fetchAndroidReferrer_def)
qed

text \<open>The name is not anchored, and a value that cannot be decoded discards the whole referrer.\<close>

lemma another_parameter_is_the_sender:
  "rf_senderId (fetchInstallReferrer Some ''android'' (Some (Inr ''old_sender_id=a&sender_id=b''))) = Some ''a''"
  by code_simp

lemma malformed_sender_discards_the_referrer:
  assumes "decode ''%'' = None"
  shows "fetchInstallReferrer decode ''android'' (Some (Inr ''utm_source=x&sender_id=%'')) = EMPTY_REFERRER"
proof -
  have "first_match sender_at ''utm_source=x&sender_id=%'' = Some ''%''" by code_simp
  with assms show ?thesis by (simp add: fetchInstallReferrer_def fetchAndroidReferrer_def parseSenderId_def)
qed

section \<open>Keyboard, screen and visibility\<close>

text \<open>\<open>kb_heard\<close> records who was told what: the listener, whether the keyboard is visible, its height.\<close>

record keyboard =
  kb_lastHeight :: rat
  kb_listeners :: "nat list"
  kb_next :: nat
  kb_heard :: "(nat \<times> bool \<times> rat) list"

definition new_keyboard :: keyboard where
  "new_keyboard = \<lparr>kb_lastHeight = 0, kb_listeners = [], kb_next = 0, kb_heard = []\<rparr>"

definition isKeyboardVisible :: "keyboard \<Rightarrow> bool" where
  "isKeyboardVisible k \<longleftrightarrow> kb_lastHeight k > 0"

definition onKeyboardChange :: "keyboard \<Rightarrow> keyboard" where
  "onKeyboardChange k = k\<lparr>kb_listeners := kb_listeners k @ [kb_next k], kb_next := kb_next k + 1\<rparr>"

definition keyboard_unsubscribe :: "nat \<Rightarrow> keyboard \<Rightarrow> keyboard" where
  "keyboard_unsubscribe i k = k\<lparr>kb_listeners := set_delete i (kb_listeners k)\<rparr>"

definition did_show :: "rat \<Rightarrow> nat \<Rightarrow> keyboard \<Rightarrow> keyboard" where
  "did_show height i k = k\<lparr>kb_lastHeight := height, kb_heard := kb_heard k @ [(i, True, height)]\<rparr>"

definition did_hide :: "nat \<Rightarrow> keyboard \<Rightarrow> keyboard" where
  "did_hide i k = k\<lparr>kb_lastHeight := 0, kb_heard := kb_heard k @ [(i, False, 0)]\<rparr>"

definition keyboard_event :: "rat option \<Rightarrow> keyboard \<Rightarrow> keyboard" where
  "keyboard_event height k =
     fold (case height of Some h \<Rightarrow> did_show h | None \<Rightarrow> did_hide) (kb_listeners k) k"

text \<open>On the web: the handler of one listener, given the heights of the window and of its visual viewport.\<close>

definition calculateKeyboardHeight :: "rat \<Rightarrow> rat option \<Rightarrow> rat" where
  "calculateKeyboardHeight innerHeight visualViewport =
     (case visualViewport of None \<Rightarrow> 0 | Some height \<Rightarrow> max 0 (innerHeight - height))"

definition web_onKeyboardChange :: "rat option \<Rightarrow> keyboard \<Rightarrow> keyboard" where
  "web_onKeyboardChange visualViewport k = (if visualViewport = None then k else onKeyboardChange k)"

definition web_keyboard_handler :: "rat \<Rightarrow> nat \<Rightarrow> keyboard \<Rightarrow> keyboard" where
  "web_keyboard_handler height i k =
     (let changed = height \<noteq> kb_lastHeight k;
          k' = k\<lparr>kb_lastHeight := height\<rparr>
      in if changed then k'\<lparr>kb_heard := kb_heard k' @ [(i, height > 0, height)]\<rparr> else k')"

definition web_keyboard_resize :: "rat \<Rightarrow> rat option \<Rightarrow> keyboard \<Rightarrow> keyboard" where
  "web_keyboard_resize innerHeight visualViewport k =
     fold (web_keyboard_handler (calculateKeyboardHeight innerHeight visualViewport)) (kb_listeners k) k"

text \<open>On the phone every listener hears every event; the height is the last one that a listener has heard.\<close>

lemma fold_did_show:
  "kb_heard (fold (did_show h) is k) = kb_heard k @ map (\<lambda>i. (i, True, h)) is \<and>
   kb_lastHeight (fold (did_show h) is k) = (if is = [] then kb_lastHeight k else h)"
  by (induction "is" arbitrary: k) (auto simp: did_show_def)

lemma every_listener_hears:
  "kb_heard (keyboard_event (Some h) k) = kb_heard k @ map (\<lambda>i. (i, True, h)) (kb_listeners k)"
  by (simp add: keyboard_event_def fold_did_show)

lemma height_is_stale_without_listeners:
  "isKeyboardVisible (keyboard_event None (keyboard_unsubscribe 0 (keyboard_event (Some 300) (onKeyboardChange new_keyboard))))"
  by (simp add: keyboard_event_def keyboard_unsubscribe_def onKeyboardChange_def new_keyboard_def did_show_def
      set_delete_def isKeyboardVisible_def)

text \<open>
  On the web the listeners share the height that a change is told from: the first of them hears
  of it, the others never do.
\<close>

lemma web_unchanged: "kb_lastHeight k = h \<Longrightarrow> fold (web_keyboard_handler h) is k = k"
  by (induction "is") (auto simp: web_keyboard_handler_def Let_def)

lemma only_the_first_web_listener_hears:
  assumes "kb_listeners k = i # is" "calculateKeyboardHeight w v \<noteq> kb_lastHeight k"
  shows "kb_heard (web_keyboard_resize w v k) =
    kb_heard k @ [(i, calculateKeyboardHeight w v > 0, calculateKeyboardHeight w v)]"
  using assms by (simp add: web_keyboard_resize_def web_keyboard_handler_def web_unchanged Let_def)

lemma web_height_is_not_negative:
  "kb_lastHeight k \<ge> 0 \<Longrightarrow> kb_lastHeight (web_keyboard_resize w v k) \<ge> 0"
proof -
  have "h \<ge> 0 \<Longrightarrow> kb_lastHeight k \<ge> 0 \<Longrightarrow> kb_lastHeight (fold (web_keyboard_handler h) is k) \<ge> 0" for h "is"
    by (induction "is" arbitrary: k) (auto simp: web_keyboard_handler_def Let_def)
  then show "kb_lastHeight k \<ge> 0 \<Longrightarrow> kb_lastHeight (web_keyboard_resize w v k) \<ge> 0"
    by (auto simp: web_keyboard_resize_def calculateKeyboardHeight_def split: option.splits)
qed

record insets =
  in_top :: rat
  in_bottom :: rat
  in_left :: rat
  in_right :: rat

definition DEFAULT_INSETS :: insets where
  "DEFAULT_INSETS = \<lparr>in_top = 0, in_bottom = 0, in_left = 0, in_right = 0\<rparr>"

definition setSafeAreaInsets :: "insets \<Rightarrow> insets \<Rightarrow> insets" where
  "setSafeAreaInsets following insets = following"

definition getSafeAreaInsets :: "string \<Rightarrow> insets \<Rightarrow> insets" where
  "getSafeAreaInsets os insets =
     (if os = ''android'' then insets\<lparr>in_bottom := max (in_bottom insets) 12\<rparr> else insets)"

definition web_getSafeAreaInsets :: insets where
  "web_getSafeAreaInsets = \<lparr>in_top = 0, in_bottom = 0, in_left = 0, in_right = 0\<rparr>"

lemma android_keeps_a_margin:
  "in_bottom (getSafeAreaInsets ''android'' i) \<ge> 12 \<and> getSafeAreaInsets os (getSafeAreaInsets os i) = getSafeAreaInsets os i"
  by (simp add: getSafeAreaInsets_def)

section \<open>The start screen\<close>

text \<open>
  \<^verbatim>\<open>splash-ui\<close>: the video that leads on when it ends, when it fails, or after five seconds. A
  render with another \<^verbatim>\<open>onComplete\<close> runs the effect again; its cleanup clears the timer.
\<close>

definition safetyTimeoutMs :: int where "safetyTimeoutMs = 5000"

record splash =
  sp_hasAdvanced :: bool
  sp_hasError :: bool
  sp_timer :: "int option"
  sp_completions :: nat

definition splash_effect :: "splash \<Rightarrow> splash" where
  "splash_effect s = s\<lparr>sp_timer := Some safetyTimeoutMs\<rparr>"

definition mounted_splash :: splash where
  "mounted_splash = splash_effect \<lparr>sp_hasAdvanced = False, sp_hasError = False, sp_timer = None, sp_completions = 0\<rparr>"

definition splash_advance :: "splash \<Rightarrow> splash" where
  "splash_advance s =
     (if sp_hasAdvanced s then s
      else s\<lparr>sp_hasAdvanced := True, sp_timer := None, sp_completions := sp_completions s + 1\<rparr>)"

definition splash_handleError :: "splash \<Rightarrow> splash" where
  "splash_handleError s = splash_advance (s\<lparr>sp_hasError := True\<rparr>)"

datatype splash_event = VideoEnds | VideoFails | TimePasses int | CallbackChanges

fun splash_step :: "splash_event \<Rightarrow> splash \<Rightarrow> splash" where
  "splash_step VideoEnds s = (if sp_hasError s then s else splash_advance s)"
| "splash_step VideoFails s = (if sp_hasError s then s else splash_handleError s)"
| "splash_step (TimePasses ms) s =
     (case sp_timer s of
        None \<Rightarrow> s
      | Some left \<Rightarrow> if left \<le> ms then splash_advance (s\<lparr>sp_timer := None\<rparr>) else s\<lparr>sp_timer := Some (left - ms)\<rparr>)"
| "splash_step CallbackChanges s = splash_effect s"

definition splash_run :: "splash_event list \<Rightarrow> splash \<Rightarrow> splash" where
  "splash_run es s = fold splash_step es s"

definition splash_ok :: "splash \<Rightarrow> bool" where
  "splash_ok s \<longleftrightarrow>
     sp_completions s = (if sp_hasAdvanced s then 1 else 0) \<and> (sp_hasError s \<longrightarrow> sp_hasAdvanced s) \<and>
     (\<not> sp_hasAdvanced s \<longrightarrow> sp_timer s \<noteq> None \<and> the (sp_timer s) \<le> safetyTimeoutMs)"

lemma splash_ok_step: "splash_ok s \<Longrightarrow> \<forall>ms. e = TimePasses ms \<longrightarrow> ms \<ge> 0 \<Longrightarrow> splash_ok (splash_step e s)"
  by (cases e)
    (auto simp: splash_ok_def splash_advance_def splash_handleError_def splash_effect_def split: option.splits)

text \<open>
  The application is led on exactly once: never twice, whatever ends and fails and however often
  the callback changes, and at the latest when five seconds pass at a stretch.
\<close>

theorem splash_completes_once:
  assumes "\<forall>ms. TimePasses ms \<in> set es \<longrightarrow> ms \<ge> 0"
  shows "sp_completions (splash_run es mounted_splash) \<le> 1 \<and>
         sp_completions (splash_run (es @ [TimePasses safetyTimeoutMs]) mounted_splash) = 1"
proof -
  have "splash_ok s \<Longrightarrow> \<forall>ms. TimePasses ms \<in> set es \<longrightarrow> ms \<ge> 0 \<Longrightarrow> splash_ok (fold splash_step es s)" for s
    by (induction es arbitrary: s) (simp_all add: splash_ok_step)
  moreover have "splash_ok mounted_splash"
    by (simp add: splash_ok_def mounted_splash_def splash_effect_def)
  ultimately have "splash_ok (splash_run es mounted_splash)" using assms by (simp add: splash_run_def)
  then show ?thesis
    by (auto simp: splash_run_def splash_ok_def splash_advance_def split: option.splits)
qed

theorem splash_completes_once_witness:
  "sp_completions (splash_run ([VideoFails, CallbackChanges] @ [TimePasses safetyTimeoutMs]) mounted_splash) = 1"
  using splash_completes_once [of "[VideoFails, CallbackChanges]"] by simp

text \<open>A callback that changes more often than every five seconds puts the end off for ever.\<close>

lemma changing_callback_defers_the_end:
  "splash_run (concat (replicate n [TimePasses 4999, CallbackChanges])) mounted_splash = mounted_splash"
proof -
  have "splash_run [TimePasses 4999, CallbackChanges] mounted_splash = mounted_splash"
    by (simp add: splash_run_def mounted_splash_def splash_effect_def safetyTimeoutMs_def)
  then show ?thesis by (induction n) (simp_all add: splash_run_def)
qed

end
