(* ===== verification/AuthScreens.thy ===== *)
theory AuthScreens
  imports AuthFlow WalletViews
begin

text \<open>
  \<^verbatim>\<open>packages/auth-ui\<close>: the forms and screens of signing in, registering, verifying and restoring,
  without their layout. A screen is a state and the events that its user, its timers, the navigation
  and the operations of \<^verbatim>\<open>useAuthActions\<close> cause; what it asks of them is recorded in order. A handler
  of a press sees the values of the render it was made in; unless said otherwise there is a render
  after every event.
\<close>

section \<open>Passwords\<close>

definition is_lower :: "char \<Rightarrow> bool" where
  "is_lower c = (let n = of_char c :: nat in 97 \<le> n \<and> n \<le> 122)"

definition is_upper :: "char \<Rightarrow> bool" where
  "is_upper c = (let n = of_char c :: nat in 65 \<le> n \<and> n \<le> 90)"

definition buildPasswordRules :: "auth_texts \<Rightarrow> string \<Rightarrow> (string \<times> bool) list" where
  "buildPasswordRules tx password =
     [(tx_translate tx ''auth:passwordRuleLength'', length password > 8),
      (tx_translate tx ''auth:passwordRuleNumber'', list_ex is_digit password),
      (tx_translate tx ''auth:passwordRuleCase'', list_ex is_lower password \<and> list_ex is_upper password),
      (tx_translate tx ''auth:passwordRuleSpecial'', list_ex (\<lambda>c. \<not> is_alnum c) password)]"

definition areAllPasswordRulesMet :: "auth_texts \<Rightarrow> string \<Rightarrow> bool" where
  "areAllPasswordRulesMet tx password = list_all snd (buildPasswordRules tx password)"

record password_form =
  pf_password :: string
  pf_confirmPassword :: string

definition hasConfirmMismatch :: "password_form \<Rightarrow> bool" where
  "hasConfirmMismatch f \<longleftrightarrow> length (pf_confirmPassword f) > 0 \<and> pf_password f \<noteq> pf_confirmPassword f"

definition isPasswordMatch :: "password_form \<Rightarrow> bool" where
  "isPasswordMatch f \<longleftrightarrow> length (pf_password f) > 0 \<and> pf_password f = pf_confirmPassword f"

definition isPasswordEmpty :: "password_form \<Rightarrow> bool" where
  "isPasswordEmpty f \<longleftrightarrow> length (pf_password f) = 0 \<and> length (pf_confirmPassword f) = 0"

definition isPasswordFormValid :: "auth_texts \<Rightarrow> password_form \<Rightarrow> bool" where
  "isPasswordFormValid tx f \<longleftrightarrow> areAllPasswordRulesMet tx (pf_password f) \<and> isPasswordMatch f"

text \<open>A rule that is met stays met while more is typed, and the form knows the four classes of characters.\<close>

lemma met_rules_stay_met:
  "areAllPasswordRulesMet tx p \<Longrightarrow> areAllPasswordRulesMet tx (u @ p @ v)"
  by (auto simp: areAllPasswordRulesMet_def buildPasswordRules_def)

lemma strong_password:
  "areAllPasswordRulesMet tx p \<longleftrightarrow>
     length p \<ge> 9 \<and> (\<exists>c \<in> set p. is_digit c) \<and> (\<exists>c \<in> set p. is_lower c) \<and> (\<exists>c \<in> set p. is_upper c) \<and>
     (\<exists>c \<in> set p. \<not> is_alnum c)"
  by (auto simp: areAllPasswordRulesMet_def buildPasswordRules_def list_ex_iff)

lemma mismatch_excludes_validity:
  "hasConfirmMismatch f \<Longrightarrow> \<not> isPasswordFormValid tx f \<and> \<not> isPasswordEmpty f"
  by (simp add: hasConfirmMismatch_def isPasswordFormValid_def isPasswordMatch_def isPasswordEmpty_def)

text \<open>Which field has the focus: a field that loses it late does not take it from the other.\<close>

datatype focused = PasswordField | ConfirmField

definition handle_focus :: "focused \<Rightarrow> bool \<Rightarrow> focused option \<Rightarrow> focused option" where
  "handle_focus f gained current = (if gained then Some f else if current = Some f then None else current)"

lemma focus_moves_in_any_order:
  "f \<noteq> g \<Longrightarrow> handle_focus f False (handle_focus g True (Some f)) = Some g \<and>
   handle_focus g True (handle_focus f False (Some f)) = Some g"
  by (simp add: handle_focus_def)

section \<open>The field of the key name\<close>

record key_field =
  kf_value :: string
  kf_submitted :: bool
  kf_serverError :: "string option"

definition new_key_field :: key_field where
  "new_key_field = \<lparr>kf_value = [], kf_submitted = False, kf_serverError = None\<rparr>"

definition charError :: "auth_texts \<Rightarrow> key_field \<Rightarrow> string option" where
  "charError tx f = validateIdentityKeyName tx (kf_value f)"

definition emptyError :: "auth_texts \<Rightarrow> key_field \<Rightarrow> string option" where
  "emptyError tx f =
     (if kf_submitted f \<and> length (kf_value f) = 0 then Some (tx_translate tx ''auth:enterIdentityKeyNameError'') else None)"

definition key_errorMessage :: "auth_texts \<Rightarrow> key_field \<Rightarrow> string option" where
  "key_errorMessage tx f =
     (case charError tx f of
        Some m \<Rightarrow> Some m
      | None \<Rightarrow> (case emptyError tx f of Some m \<Rightarrow> Some m | None \<Rightarrow> kf_serverError f))"

definition setValue :: "string \<Rightarrow> key_field \<Rightarrow> key_field" where
  "setValue txt f = f\<lparr>kf_value := txt, kf_serverError := None\<rparr>"

definition setServerError :: "string option \<Rightarrow> key_field \<Rightarrow> key_field" where
  "setServerError m f = f\<lparr>kf_serverError := m\<rparr>"

text \<open>\<open>!charError\<close> looks at the text: an empty message would count as none.\<close>

definition is_set :: "string option \<Rightarrow> bool" where
  "is_set m \<longleftrightarrow> m \<noteq> None \<and> m \<noteq> Some []"

definition key_validate :: "auth_texts \<Rightarrow> key_field \<Rightarrow> bool \<times> key_field" where
  "key_validate tx f =
     (length (kf_value f) > 0 \<and> \<not> is_set (charError tx f), f\<lparr>kf_submitted := True\<rparr>)"

text \<open>The form of \<^verbatim>\<open>register-form.tsx\<close> has its own state.\<close>

definition register_form_valid :: "auth_texts \<Rightarrow> string \<Rightarrow> bool" where
  "register_form_valid tx name \<longleftrightarrow> js_trim name \<noteq> [] \<and> \<not> is_set (validateIdentityKeyName tx name)"

definition register_form_error :: "auth_texts \<Rightarrow> bool \<Rightarrow> bool \<Rightarrow> string \<Rightarrow> string option" where
  "register_form_error tx touched submitted name =
     (if \<not> touched \<and> \<not> submitted then None
      else if length name = 0
        then (if submitted then Some (tx_translate tx ''auth:enterIdentityKeyNameError'') else None)
      else validateIdentityKeyName tx name)"

text \<open>Where every text is translated by something, the checks of the screens are the rule of the operations.\<close>

definition translated :: "auth_texts \<Rightarrow> bool" where
  "translated tx \<longleftrightarrow> tx_translate tx ''auth:identityKeyCharactersError'' \<noteq> [] \<and>
     tx_translate tx ''auth:identityKeyMaxLengthError'' \<noteq> []"

lemma validated_name:
  assumes "translated tx"
  shows "length v > 0 \<and> \<not> is_set (validateIdentityKeyName tx v) \<longleftrightarrow> isValidIdentityKeyName v"
  using assms by (auto simp: translated_def is_set_def validateIdentityKeyName_def isValidIdentityKeyName_def)

lemma key_char_is_no_space: "identity_key_char c \<Longrightarrow> \<not> js_white_space c"
  by (auto simp: identity_key_char_def js_white_space_def)

lemma js_trim_Nil: "v = [] \<Longrightarrow> js_trim v = []"
  by (simp add: js_trim_def)

lemma register_form_agrees:
  assumes "translated tx"
  shows "register_form_valid tx v \<longleftrightarrow> isValidIdentityKeyName v"
proof
  assume "register_form_valid tx v"
  then have "v \<noteq> []" and "\<not> is_set (validateIdentityKeyName tx v)"
    using js_trim_Nil by (auto simp: register_form_valid_def)
  with validated_name [OF assms, of v] show "isValidIdentityKeyName v" by simp
next
  assume v: "isValidIdentityKeyName v"
  then have "list_all identity_key_char v" "v \<noteq> []"
    by (auto simp: isValidIdentityKeyName_def IDENTITY_KEY_PATTERN_def)
  then have "\<forall>c \<in> set v. \<not> js_white_space c" using key_char_is_no_space by (auto simp: list_all_iff)
  moreover have stay: "\<forall>c \<in> set w. \<not> js_white_space c \<Longrightarrow> dropWhile js_white_space w = w" for w by (cases w) auto
  ultimately have "js_trim v = v" using stay [of v] stay [of "rev v"] by (simp add: js_trim_def)
  with v validated_name [OF assms, of v] \<open>v \<noteq> []\<close> show "register_form_valid tx v"
    by (simp add: register_form_valid_def)
qed

section \<open>Signing in and registering\<close>

definition isInlineAuthError :: "identity_error_code \<Rightarrow> bool" where
  "isInlineAuthError code \<longleftrightarrow>
     code \<in> {USER_NOT_FOUND, USER_ALREADY_EXISTS, INVALID_CREDENTIALS, USER_DEACTIVATED, RESTRICTED_REGION}"

datatype screen_call =
    LoginAsked string
  | PasskeyRegisterAsked string
  | PasswordRegisterAsked string string
  | AuthSuccess string
  | ToProfileSetup
  | ResetToMain
  | ToVerifyPassword string
  | ToGeneralError string

text \<open>\<open>en_pending\<close> holds the names of the calls under way; their handlers keep the name of the press.\<close>

record entry_screen =
  en_field :: key_field
  en_form :: password_form
  en_pending :: "string list"
  en_calls :: "screen_call list"

definition new_entry :: entry_screen where
  "new_entry = \<lparr>en_field = new_key_field, en_form = \<lparr>pf_password = [], pf_confirmPassword = []\<rparr>,
     en_pending = [], en_calls = []\<rparr>"

definition entry_calls :: "screen_call list \<Rightarrow> entry_screen \<Rightarrow> entry_screen" where
  "entry_calls cs s = s\<lparr>en_calls := en_calls s @ cs\<rparr>"

definition entry_asks :: "string \<Rightarrow> screen_call \<Rightarrow> entry_screen \<Rightarrow> entry_screen" where
  "entry_asks name c s = entry_calls [c] (s\<lparr>en_pending := en_pending s @ [name]\<rparr>)"

definition show_auth_error :: "flow_error \<Rightarrow> entry_screen \<Rightarrow> entry_screen" where
  "show_auth_error e s =
     (if isInlineAuthError (fe_code e) then s\<lparr>en_field := setServerError (Some (fe_userMessage e)) (en_field s)\<rparr>
      else entry_calls [ToGeneralError (fe_numericCode e)] s)"

fun handleLoginResult :: "string \<Rightarrow> login_result \<Rightarrow> entry_screen \<Rightarrow> entry_screen" where
  "handleLoginResult name Authenticated s = entry_calls [AuthSuccess name, ResetToMain] s"
| "handleLoginResult name (NeedsPassword key) s = entry_calls [ToVerifyPassword key] s"
| "handleLoginResult name (LoginError e) s = show_auth_error e s"

fun handleRegisterResult :: "string \<Rightarrow> register_result \<Rightarrow> entry_screen \<Rightarrow> entry_screen" where
  "handleRegisterResult name Registered s = entry_calls [AuthSuccess name, ToProfileSetup] s"
| "handleRegisterResult name RegisterCancelled s = s"
| "handleRegisterResult name (RegisterError e) s = show_auth_error e s"

definition handlePasswordRegisterResult :: "string \<Rightarrow> register_result \<Rightarrow> entry_screen \<Rightarrow> entry_screen" where
  "handlePasswordRegisterResult = handleRegisterResult"

definition login_handleContinue :: "auth_texts \<Rightarrow> entry_screen \<Rightarrow> entry_screen" where
  "login_handleContinue tx s =
     (let (ok, f) = key_validate tx (en_field s); s' = s\<lparr>en_field := f\<rparr>
      in if ok then entry_asks (kf_value f) (LoginAsked (kf_value f)) s' else s')"

definition passkey_handleContinue :: "auth_texts \<Rightarrow> entry_screen \<Rightarrow> entry_screen" where
  "passkey_handleContinue tx s =
     (let (ok, f) = key_validate tx (en_field s); s' = s\<lparr>en_field := f\<rparr>
      in if ok then entry_asks (kf_value f) (PasskeyRegisterAsked (kf_value f)) s' else s')"

definition isIdentityKeyValid :: "auth_texts \<Rightarrow> key_field \<Rightarrow> bool" where
  "isIdentityKeyValid tx f \<longleftrightarrow> length (js_trim (kf_value f)) > 0 \<and> \<not> is_set (key_errorMessage tx f)"

definition password_handleContinue :: "auth_texts \<Rightarrow> entry_screen \<Rightarrow> entry_screen" where
  "password_handleContinue tx s =
     (let canSubmit = isIdentityKeyValid tx (en_field s) \<and>
            (isPasswordFormValid tx (en_form s) \<or> isPasswordEmpty (en_form s))
      in if \<not> canSubmit then s
         else entry_asks (kf_value (en_field s))
                (PasswordRegisterAsked (kf_value (en_field s)) (pf_password (en_form s))) s)"

definition handleRegister_route :: "bool \<Rightarrow> string" where
  "handleRegister_route isPasskeyAvailable = (if isPasskeyAvailable then ''PasskeyRegister'' else ''PasswordRegister'')"

datatype entry_kind = LoginEntry | PasskeyEntry | PasswordEntry

datatype entry_event =
    KeyTyped string
  | PasswordTyped string
  | ConfirmTyped string
  | ContinuePressed
  | LoginAnswered nat login_result
  | RegisterAnswered nat register_result

definition without_pending :: "nat \<Rightarrow> entry_screen \<Rightarrow> entry_screen" where
  "without_pending i s = s\<lparr>en_pending := take i (en_pending s) @ drop (Suc i) (en_pending s)\<rparr>"

fun entry_step :: "auth_texts \<Rightarrow> entry_kind \<Rightarrow> entry_event \<Rightarrow> entry_screen \<Rightarrow> entry_screen" where
  "entry_step tx k (KeyTyped txt) s = s\<lparr>en_field := setValue txt (en_field s)\<rparr>"
| "entry_step tx k (PasswordTyped txt) s = s\<lparr>en_form := (en_form s)\<lparr>pf_password := txt\<rparr>\<rparr>"
| "entry_step tx k (ConfirmTyped txt) s = s\<lparr>en_form := (en_form s)\<lparr>pf_confirmPassword := txt\<rparr>\<rparr>"
| "entry_step tx k ContinuePressed s =
     (case k of
        LoginEntry \<Rightarrow> login_handleContinue tx s
      | PasskeyEntry \<Rightarrow> passkey_handleContinue tx s
      | PasswordEntry \<Rightarrow> password_handleContinue tx s)"
| "entry_step tx k (LoginAnswered i r) s =
     (if k = LoginEntry \<and> i < length (en_pending s)
      then handleLoginResult (en_pending s ! i) r (without_pending i s) else s)"
| "entry_step tx k (RegisterAnswered i r) s =
     (if k \<noteq> LoginEntry \<and> i < length (en_pending s)
      then (if k = PasskeyEntry then handleRegisterResult else handlePasswordRegisterResult)
             (en_pending s ! i) r (without_pending i s)
      else s)"

definition entry_run :: "auth_texts \<Rightarrow> entry_kind \<Rightarrow> entry_event list \<Rightarrow> entry_screen \<Rightarrow> entry_screen" where
  "entry_run tx k es s = fold (entry_step tx k) es s"

lemmas entry_defs = entry_calls_def entry_asks_def show_auth_error_def login_handleContinue_def
  passkey_handleContinue_def password_handleContinue_def handlePasswordRegisterResult_def without_pending_def
  key_validate_def setValue_def setServerError_def

fun call_ok :: "auth_texts \<Rightarrow> screen_call \<Rightarrow> bool" where
  "call_ok tx (LoginAsked name) = isValidIdentityKeyName name"
| "call_ok tx (PasskeyRegisterAsked name) = isValidIdentityKeyName name"
| "call_ok tx (PasswordRegisterAsked name password) =
     (isValidIdentityKeyName name \<and> (password = [] \<or> areAllPasswordRulesMet tx password))"
| "call_ok tx (AuthSuccess name) = isValidIdentityKeyName name"
| "call_ok tx c = True"

definition entry_ok :: "auth_texts \<Rightarrow> entry_screen \<Rightarrow> bool" where
  "entry_ok tx s \<longleftrightarrow> list_all (call_ok tx) (en_calls s) \<and> list_all isValidIdentityKeyName (en_pending s)"

lemma valid_field: "translated tx \<Longrightarrow> isIdentityKeyValid tx f \<Longrightarrow> isValidIdentityKeyName (kf_value f)"
proof -
  assume tx: "translated tx" and f: "isIdentityKeyValid tx f"
  from f have "kf_value f \<noteq> []" using js_trim_Nil by (auto simp: isIdentityKeyValid_def)
  moreover from f have "\<not> is_set (validateIdentityKeyName tx (kf_value f))"
    by (auto simp: isIdentityKeyValid_def key_errorMessage_def charError_def is_set_def split: option.splits)
  ultimately show ?thesis using validated_name [OF tx, of "kf_value f"] by simp
qed

lemma entry_ok_error: "entry_ok tx s \<Longrightarrow> entry_ok tx (show_auth_error e s)"
  by (simp add: entry_ok_def show_auth_error_def entry_calls_def)

lemma entry_ok_pending:
  assumes "entry_ok tx s" "i < length (en_pending s)"
  shows "entry_ok tx (without_pending i s) \<and> isValidIdentityKeyName (en_pending s ! i)"
  using assms by (auto simp: entry_ok_def without_pending_def list_all_iff dest: in_set_takeD in_set_dropD)

lemma entry_ok_login: "entry_ok tx s \<Longrightarrow> isValidIdentityKeyName n \<Longrightarrow> entry_ok tx (handleLoginResult n r s)"
  by (cases r) (simp_all add: entry_ok_error, simp_all add: entry_ok_def entry_calls_def)

lemma entry_ok_register: "entry_ok tx s \<Longrightarrow> isValidIdentityKeyName n \<Longrightarrow> entry_ok tx (handleRegisterResult n r s)"
  by (cases r) (simp_all add: entry_ok_error, simp_all add: entry_ok_def entry_calls_def)

lemma entry_ok_press:
  assumes "translated tx" "entry_ok tx s"
  shows "entry_ok tx (entry_step tx k ContinuePressed s)"
  using assms validated_name [OF assms(1), of "kf_value (en_field s)"] valid_field [OF assms(1), of "en_field s"]
  by (cases k)
    (auto simp: entry_ok_def entry_defs charError_def isPasswordFormValid_def isPasswordEmpty_def Let_def)

lemma entry_ok_step:
  assumes "translated tx" "entry_ok tx s"
  shows "entry_ok tx (entry_step tx k e s)"
proof (cases e)
  case ContinuePressed
  with entry_ok_press [OF assms] show ?thesis by simp
next
  case (LoginAnswered i r)
  with assms entry_ok_pending entry_ok_login show ?thesis by auto
next
  case (RegisterAnswered i r)
  with assms entry_ok_pending entry_ok_register show ?thesis by (auto simp: handlePasswordRegisterResult_def)
qed (use assms in \<open>auto simp: entry_ok_def\<close>)

lemma entry_calls_ok:
  assumes "translated tx"
  shows "list_all (call_ok tx) (en_calls (entry_run tx k es new_entry))"
proof -
  have "entry_ok tx s \<Longrightarrow> entry_ok tx (fold (entry_step tx k) es s)" for s
    by (induction es arbitrary: s) (auto intro: entry_ok_step [OF assms])
  moreover have "entry_ok tx new_entry" by (simp add: entry_ok_def new_entry_def)
  ultimately show ?thesis by (simp add: entry_run_def entry_ok_def)
qed

text \<open>
  C34. Whatever is typed and pressed and whatever is answered: the screens ask for a login or a
  registration, and report a success, with valid key names only, and a password that is registered
  is empty or meets all the rules.
\<close>

theorem submitted_credentials_are_valid:
  assumes "translated tx"
  shows "list_all (call_ok tx) (en_calls (entry_run tx k es new_entry))"
  using assms by (rule entry_calls_ok)

definition keys_as_texts :: auth_texts where
  "keys_as_texts = \<lparr>tx_translate = (\<lambda>key. key), tx_string = (\<lambda>e. [])\<rparr>"

theorem submitted_credentials_are_valid_witness:
  "list_all (call_ok keys_as_texts)
     (en_calls (entry_run keys_as_texts LoginEntry [KeyTyped ''ann'', ContinuePressed, LoginAnswered 0 Authenticated] new_entry)) \<and>
   en_calls (entry_run keys_as_texts LoginEntry [KeyTyped ''ann'', ContinuePressed, LoginAnswered 0 Authenticated] new_entry) =
     [LoginAsked ''ann'', AuthSuccess ''ann'', ResetToMain]"
  using submitted_credentials_are_valid [of keys_as_texts LoginEntry
      "[KeyTyped ''ann'', ContinuePressed, LoginAnswered 0 Authenticated]"]
  by (simp add: translated_def keys_as_texts_def entry_run_def entry_defs new_entry_def new_key_field_def
      charError_def validateIdentityKeyName_def IDENTITY_KEY_PATTERN_def identity_key_char_def
      IDENTITY_KEY_MAX_LENGTH_def is_set_def)

text \<open>So the operation never refuses the name that a screen hands over.\<close>

lemma submitted_name_is_accepted:
  assumes "translated tx" "PasswordRegisterAsked name password \<in> set (en_calls (entry_run tx k es new_entry))"
  shows "registerAccount tx client name (Some password) =
    io_catch (executeRegistration client name (Some password))
      (\<lambda>error. io_then (auth_log LError ''Registration failed'' [(''identityKeyName'', JStr name)])
        (io_return (RegisterError (mapIdentityError tx error))))"
  using entry_calls_ok [OF assms(1), of k es] assms(2)
  by (auto simp: registerAccount_def list_all_iff)

text \<open>
  Two empty password fields pass: the account is registered with an empty password, and not with a
  passkey.
\<close>

lemma empty_password_is_registered:
  "en_calls (entry_run keys_as_texts PasswordEntry [KeyTyped ''ann'', ContinuePressed] new_entry) =
     [PasswordRegisterAsked ''ann'' ''''] \<and>
   executeRegistration client ''ann'' (Some '''') =
     io_then (ic_registerWithPassword client ''ann'' '''')
       (io_then (auth_log LInfo ''Registration succeeded'' [(''method'', JStr ''password'')]) (io_return Registered))"
  by (simp add: keys_as_texts_def entry_run_def entry_defs new_entry_def new_key_field_def isIdentityKeyValid_def
      key_errorMessage_def emptyError_def isPasswordEmpty_def js_trim_def js_white_space_def
      charError_def validateIdentityKeyName_def IDENTITY_KEY_PATTERN_def identity_key_char_def
      IDENTITY_KEY_MAX_LENGTH_def is_set_def executeRegistration_def)

text \<open>The answer about one name is shown at the name that stands in the field by then.\<close>

lemma late_error_at_another_name:
  assumes "translated tx" "isValidIdentityKeyName a" "isInlineAuthError (fe_code e)"
  shows "en_field (entry_run tx LoginEntry [KeyTyped a, ContinuePressed, KeyTyped b, LoginAnswered 0 (LoginError e)] new_entry) =
    \<lparr>kf_value = b, kf_submitted = True, kf_serverError = Some (fe_userMessage e)\<rparr>"
  using assms validated_name [OF assms(1), of a]
  by (simp add: entry_run_def entry_defs new_entry_def new_key_field_def charError_def)

text \<open>After an error of the server the password screen refuses the same name until something is typed; the others do not.\<close>

lemma server_error_blocks_the_password_screen:
  assumes "translated tx" "kf_serverError (en_field s) = Some (c # cs)"
  shows "password_handleContinue tx s = s"
proof -
  have "\<not> isIdentityKeyValid tx (en_field s)"
  proof
    assume ok: "isIdentityKeyValid tx (en_field s)"
    then have "kf_value (en_field s) \<noteq> []" using js_trim_Nil by (auto simp: isIdentityKeyValid_def)
    with valid_field [OF assms(1) ok] key_name_rules_agree [of "kf_value (en_field s)" tx]
    have "key_errorMessage tx (en_field s) = Some (c # cs)"
      using assms(2) by (simp add: key_errorMessage_def charError_def emptyError_def)
    with ok show False by (simp add: isIdentityKeyValid_def is_set_def)
  qed
  then show ?thesis by (simp add: password_handleContinue_def)
qed

section \<open>Verifying with a password\<close>

text \<open>
  \<^verbatim>\<open>verify-sheet-screen.tsx\<close> with \<^verbatim>\<open>confirm-password-screen.tsx\<close>, which hands the password over in
  two module variables. \<open>vf_frames\<close> are the callbacks of \<^verbatim>\<open>requestAnimationFrame\<close> that are due.
\<close>

datatype verify_method = VerifyPasskey | VerifyByPassword | VerifyBiometrics

datatype verify_call =
    OpenConfirmPassword
  | PasswordLoginAsked string string
  | VerifySuccess string
  | OpenGeneralError string
  | GoBackIfPossible
  | GoBackFirst
  | GoToNext

datatype frame = OpensConfirm | DispatchesNext

record verify =
  vf_leftScreen :: bool
  vf_dismissed :: bool
  vf_frames :: "frame list"
  vf_passwordConfirmed :: bool
  vf_confirmedPassword :: "string option"
  vf_pending :: nat
  vf_calls :: "verify_call list"

definition resetPasswordConfirmed :: "verify \<Rightarrow> verify" where
  "resetPasswordConfirmed s = s\<lparr>vf_passwordConfirmed := False, vf_confirmedPassword := None\<rparr>"

definition verify_calls :: "verify_call list \<Rightarrow> verify \<Rightarrow> verify" where
  "verify_calls cs s = s\<lparr>vf_calls := vf_calls s @ cs\<rparr>"

definition verify_handleClose :: "verify \<Rightarrow> verify" where
  "verify_handleClose = verify_calls [GoBackIfPossible]"

definition verify_handleDismiss :: "verify \<Rightarrow> verify" where
  "verify_handleDismiss s =
     (if vf_dismissed s then s
      else verify_calls [GoBackFirst] (s\<lparr>vf_dismissed := True, vf_frames := vf_frames s @ [DispatchesNext]\<rparr>))"

definition run_frame :: "frame \<Rightarrow> verify \<Rightarrow> verify" where
  "run_frame f s = (case f of
       OpensConfirm \<Rightarrow> verify_calls [OpenConfirmPassword] (s\<lparr>vf_leftScreen := True\<rparr>)
     | DispatchesNext \<Rightarrow> verify_calls [GoToNext] s)"

text \<open>The effects of the first render; \<open>left_over\<close> is what the module variables hold.\<close>

definition mounted_verify :: "verify_method \<Rightarrow> bool \<times> string option \<Rightarrow> verify" where
  "mounted_verify m left_over =
     (let s = \<lparr>vf_leftScreen = False, vf_dismissed = False, vf_frames = [], vf_passwordConfirmed = fst left_over,
               vf_confirmedPassword = snd left_over, vf_pending = 0, vf_calls = []\<rparr>
      in if m = VerifyByPassword then (resetPasswordConfirmed s)\<lparr>vf_frames := [OpensConfirm]\<rparr> else s)"

definition confirm_handleConfirm :: "string \<Rightarrow> verify \<Rightarrow> verify" where
  "confirm_handleConfirm password s =
     (if js_trim password = [] then s
      else verify_calls [GoBackIfPossible]
             (s\<lparr>vf_passwordConfirmed := True, vf_confirmedPassword := Some password\<rparr>))"

definition verify_focus :: "verify_method \<Rightarrow> string option \<Rightarrow> verify \<Rightarrow> verify" where
  "verify_focus m identityKeyName s =
     (if m \<noteq> VerifyByPassword \<or> \<not> vf_leftScreen s then s
      else
        (let s = s\<lparr>vf_leftScreen := False\<rparr>
         in if \<not> vf_passwordConfirmed s then verify_handleClose s
            else
              (let password = vf_confirmedPassword s; s = resetPasswordConfirmed s
               in if is_set identityKeyName \<and> is_set password
                  then verify_calls [PasswordLoginAsked (the identityKeyName) (the password)]
                         (s\<lparr>vf_pending := vf_pending s + 1\<rparr>)
                  else verify_handleClose s)))"

definition verify_answered :: "string option \<Rightarrow> password_result \<Rightarrow> verify \<Rightarrow> verify" where
  "verify_answered identityKeyName r s =
     (if vf_pending s = 0 then s
      else
        (let s = s\<lparr>vf_pending := vf_pending s - 1\<rparr>
         in case r of
              PasswordAccepted \<Rightarrow> verify_handleDismiss (verify_calls [VerifySuccess (the identityKeyName)] s)
            | PasswordError e \<Rightarrow> verify_handleClose (verify_calls [OpenGeneralError (fe_numericCode e)] s)))"

datatype verify_event =
    FramesRun
  | ConfirmPressed string
  | FocusReturns
  | PasswordAnswered password_result
  | DismissTimer
  | CloseRequested

definition AUTO_DISMISS_DELAY :: int where "AUTO_DISMISS_DELAY = 3000"

fun verify_step :: "verify_method \<Rightarrow> string option \<Rightarrow> verify_event \<Rightarrow> verify \<Rightarrow> verify" where
  "verify_step m key FramesRun s = fold run_frame (vf_frames s) (s\<lparr>vf_frames := []\<rparr>)"
| "verify_step m key (ConfirmPressed password) s = confirm_handleConfirm password s"
| "verify_step m key FocusReturns s = verify_focus m key s"
| "verify_step m key (PasswordAnswered r) s = verify_answered key r s"
| "verify_step m key DismissTimer s = (if m = VerifyByPassword then s else verify_handleDismiss s)"
| "verify_step m key CloseRequested s = verify_handleClose s"

definition verify_run :: "verify_method \<Rightarrow> string option \<Rightarrow> verify_event list \<Rightarrow> verify \<Rightarrow> verify" where
  "verify_run m key es s = fold (verify_step m key) es s"

lemmas verify_defs = resetPasswordConfirmed_def verify_calls_def verify_handleClose_def verify_handleDismiss_def
  confirm_handleConfirm_def verify_focus_def verify_answered_def

fun confirmed_by :: "verify_event list \<Rightarrow> string list" where
  "confirmed_by [] = []"
| "confirmed_by (ConfirmPressed p # es) = (if js_trim p = [] then [] else [p]) @ confirmed_by es"
| "confirmed_by (e # es) = confirmed_by es"

fun login_passwords :: "verify_call list \<Rightarrow> string list" where
  "login_passwords [] = []"
| "login_passwords (PasswordLoginAsked n p # cs) = p # login_passwords cs"
| "login_passwords (c # cs) = login_passwords cs"

lemma login_passwords_append [simp]: "login_passwords (cs @ ds) = login_passwords cs @ login_passwords ds"
  by (induction cs rule: login_passwords.induct) simp_all

text \<open>
  What has been asked and what the variables still hold is a part of what has been confirmed, in order;
  the sheet leads on at most once.
\<close>

definition held :: "verify \<Rightarrow> string list" where
  "held s = (case vf_confirmedPassword s of None \<Rightarrow> [] | Some p \<Rightarrow> [p])"

definition nexts :: "verify \<Rightarrow> nat" where
  "nexts s = count_list (vf_calls s) GoToNext + count_list (vf_frames s) DispatchesNext"

definition verify_ok :: "string list \<Rightarrow> verify \<Rightarrow> bool" where
  "verify_ok given s \<longleftrightarrow>
     subseq (login_passwords (vf_calls s) @ held s) given \<and>
     (vf_passwordConfirmed s \<longleftrightarrow> vf_confirmedPassword s \<noteq> None) \<and>
     nexts s = (if vf_dismissed s then 1 else 0)"

lemma run_frames_keep:
  "vf_confirmedPassword (fold run_frame fs s) = vf_confirmedPassword s \<and>
   vf_passwordConfirmed (fold run_frame fs s) = vf_passwordConfirmed s \<and>
   vf_dismissed (fold run_frame fs s) = vf_dismissed s \<and>
   vf_frames (fold run_frame fs s) = vf_frames s \<and>
   login_passwords (vf_calls (fold run_frame fs s)) = login_passwords (vf_calls s) \<and>
   count_list (vf_calls (fold run_frame fs s)) GoToNext =
     count_list (vf_calls s) GoToNext + count_list fs DispatchesNext"
  by (induction fs arbitrary: s) (auto simp: run_frame_def verify_calls_def split: frame.splits)

lemma subseq_drop_held: "subseq (xs @ ys) zs \<Longrightarrow> subseq xs zs"
  by (rule subseq_order.trans [OF list_emb_prefix [OF subseq_order.refl]])

lemma verify_ok_step:
  assumes "verify_ok given s"
  shows "verify_ok (given @ confirmed_by [e]) (verify_step m key e s)"
proof (cases e)
  case FramesRun
  with assms run_frames_keep [of "vf_frames s" "s\<lparr>vf_frames := []\<rparr>"] show ?thesis
    by (simp add: verify_ok_def held_def nexts_def)
next
  case (ConfirmPressed p)
  from assms have "subseq (login_passwords (vf_calls s)) given"
    by (auto simp: verify_ok_def intro: subseq_drop_held)
  then have "subseq (login_passwords (vf_calls s) @ [p]) (given @ [p])"
    by (rule list_emb_append_mono) simp
  with ConfirmPressed assms show ?thesis
    by (auto simp: verify_ok_def held_def nexts_def confirm_handleConfirm_def verify_calls_def split: if_splits)
next
  case FocusReturns
  with assms show ?thesis
    by (auto simp: verify_ok_def held_def nexts_def verify_defs is_set_def Let_def dest: subseq_drop_held)
next
  case (PasswordAnswered r)
  with assms show ?thesis
    by (cases r) (auto simp: verify_ok_def held_def nexts_def verify_defs Let_def)
qed (use assms in \<open>auto simp: verify_ok_def held_def nexts_def verify_defs\<close>)

lemma confirmed_by_append: "confirmed_by (es @ fs) = confirmed_by es @ confirmed_by fs"
  by (induction es rule: confirmed_by.induct) simp_all

lemma verify_ok_fold: "verify_ok given s \<Longrightarrow> verify_ok (given @ confirmed_by es) (fold (verify_step m key) es s)"
proof (induction es arbitrary: s given)
  case (Cons e es)
  from Cons.IH [OF verify_ok_step [OF Cons.prems]] show ?case
    using confirmed_by_append [of "[e]" es] by simp
qed simp

lemma verify_ok_mounted: "verify_ok [] (mounted_verify VerifyByPassword left_over)"
  by (simp add: verify_ok_def held_def nexts_def mounted_verify_def resetPasswordConfirmed_def Let_def)

text \<open>
  Whatever the variables held before: the passwords that are tried are passwords that were confirmed
  on this sheet, each at most once and in their order, and the sheet leads on at most once.
\<close>

theorem passwords_are_used_once:
  "let s = verify_run VerifyByPassword key es (mounted_verify VerifyByPassword left_over) in
   subseq (login_passwords (vf_calls s)) (confirmed_by es) \<and> count_list (vf_calls s) GoToNext \<le> 1"
proof -
  have "verify_ok (confirmed_by es) (verify_run VerifyByPassword key es (mounted_verify VerifyByPassword left_over))"
    using verify_ok_fold [OF verify_ok_mounted] by (simp add: verify_run_def)
  then show ?thesis by (auto simp: verify_ok_def nexts_def Let_def split: if_splits dest: subseq_drop_held)
qed

text \<open>
  The error of a failed login is opened and left at once: in a navigation where going back undoes
  the last step, nothing of it stays, and the sheet stays open without asking again.
\<close>

lemma failed_login_hides_its_error:
  assumes "vf_pending s > 0" "\<And>code n. nav GoBackIfPossible (nav (OpenGeneralError code) n) = n"
  shows "\<exists>cs. vf_calls (verify_answered key (PasswordError e) s) = vf_calls s @ cs \<and> fold nav cs n = n"
  using assms by (intro exI [of _ "[OpenGeneralError (fe_numericCode e), GoBackIfPossible]"])
    (simp add: verify_answered_def verify_defs)

lemma failed_login_is_not_asked_again:
  assumes "\<not> vf_leftScreen s" "vf_pending s > 0"
  shows "verify_focus VerifyByPassword key (verify_answered key (PasswordError e) s) =
         verify_answered key (PasswordError e) s"
  using assms by (simp add: verify_answered_def verify_defs Let_def)

text \<open>Without a key name, as \<^verbatim>\<open>add-biometrics-screen.tsx\<close> opens the sheet, the password is asked for and dropped.\<close>

lemma password_without_a_name_is_dropped:
  assumes "js_trim p \<noteq> []"
  shows "vf_calls (verify_run VerifyByPassword None [FramesRun, ConfirmPressed p, FocusReturns] (mounted_verify VerifyByPassword l)) =
    [OpenConfirmPassword, GoBackIfPossible, GoBackIfPossible]"
  using assms by (simp add: verify_run_def mounted_verify_def run_frame_def verify_defs is_set_def Let_def)

text \<open>A passkey or a biometric sheet leads on after its timer, whatever happened.\<close>

lemma passkey_sheet_always_leads_on:
  "vf_calls (verify_run VerifyPasskey key [DismissTimer, FramesRun] (mounted_verify VerifyPasskey l)) = [GoBackFirst, GoToNext]"
  by (simp add: verify_run_def mounted_verify_def run_frame_def verify_defs Let_def)

section \<open>Sending a code\<close>

text \<open>
  \<^verbatim>\<open>tfa-input.tsx\<close>. \<open>ti_seen\<close> is the state of the last render, which the handler of the button looks
  at; \<open>ti_intervals\<close> are the intervals that tick, \<open>ti_current\<close> the one in \<^verbatim>\<open>intervalRef\<close>.
\<close>

datatype send_state = SendState | SendingState | CountdownState | RetryState

definition COUNTDOWN_DURATION :: nat where "COUNTDOWN_DURATION = 60"

record tfa_input =
  ti_sendState :: send_state
  ti_seen :: send_state
  ti_countdown :: nat
  ti_current :: "nat option"
  ti_intervals :: "nat list"
  ti_fresh :: nat
  ti_sends :: nat

definition new_tfa_input :: tfa_input where
  "new_tfa_input = \<lparr>ti_sendState = SendState, ti_seen = SendState, ti_countdown = 0, ti_current = None,
     ti_intervals = [], ti_fresh = 0, ti_sends = 0\<rparr>"

definition clearTimer :: "tfa_input \<Rightarrow> tfa_input" where
  "clearTimer s =
     (case ti_current s of
        None \<Rightarrow> s
      | Some i \<Rightarrow> s\<lparr>ti_intervals := set_delete i (ti_intervals s), ti_current := None\<rparr>)"

definition startTimer :: "tfa_input \<Rightarrow> tfa_input" where
  "startTimer s = s\<lparr>ti_countdown := COUNTDOWN_DURATION, ti_current := Some (ti_fresh s),
     ti_intervals := ti_intervals s @ [ti_fresh s], ti_fresh := ti_fresh s + 1\<rparr>"

definition handleSend :: "tfa_input \<Rightarrow> tfa_input" where
  "handleSend s =
     (if ti_seen s = SendingState \<or> ti_seen s = CountdownState then s
      else startTimer (s\<lparr>ti_sends := ti_sends s + 1, ti_sendState := CountdownState\<rparr>))"

definition interval_ticks :: "nat \<Rightarrow> tfa_input \<Rightarrow> tfa_input" where
  "interval_ticks i s =
     (if i \<notin> set (ti_intervals s) then s
      else if ti_countdown s \<le> 1 then (clearTimer s)\<lparr>ti_sendState := RetryState, ti_countdown := 0\<rparr>
      else s\<lparr>ti_countdown := ti_countdown s - 1\<rparr>)"

datatype tfa_event = SendPressed | IntervalTicks nat | TfaRendered

fun tfa_step :: "tfa_event \<Rightarrow> tfa_input \<Rightarrow> tfa_input" where
  "tfa_step SendPressed s = handleSend s"
| "tfa_step (IntervalTicks i) s = interval_ticks i s"
| "tfa_step TfaRendered s = s\<lparr>ti_seen := ti_sendState s\<rparr>"

definition tfa_run :: "tfa_event list \<Rightarrow> tfa_input \<Rightarrow> tfa_input" where
  "tfa_run es s = fold tfa_step es s"

text \<open>A render after every event.\<close>

definition tfa_calm :: "tfa_event list \<Rightarrow> tfa_input \<Rightarrow> tfa_input" where
  "tfa_calm es s = fold (\<lambda>e s. tfa_step TfaRendered (tfa_step e s)) es s"

lemmas tfa_defs = clearTimer_def startTimer_def handleSend_def interval_ticks_def

fun seconds :: "tfa_event list \<Rightarrow> nat" where
  "seconds [] = 0"
| "seconds (IntervalTicks i # es) = Suc (seconds es)"
| "seconds (e # es) = seconds es"

definition tfa_ok :: "nat \<Rightarrow> tfa_input \<Rightarrow> bool" where
  "tfa_ok t s \<longleftrightarrow>
     ti_seen s = ti_sendState s \<and> ti_countdown s \<le> COUNTDOWN_DURATION \<and>
     (case ti_sendState s of
        SendState \<Rightarrow> ti_intervals s = [] \<and> ti_sends s = 0
      | SendingState \<Rightarrow> False
      | CountdownState \<Rightarrow>
          ti_current s \<noteq> None \<and> ti_intervals s = [the (ti_current s)] \<and>
          60 * ti_sends s \<le> t + ti_countdown s
      | RetryState \<Rightarrow> ti_intervals s = [] \<and> 60 * ti_sends s \<le> t)"

lemma tfa_ok_step: "tfa_ok t s \<Longrightarrow> tfa_ok (t + seconds [e]) (tfa_step TfaRendered (tfa_step e s))"
proof (cases e)
  case SendPressed
  then show "tfa_ok t s \<Longrightarrow> ?thesis"
    by (auto simp: tfa_ok_def tfa_defs COUNTDOWN_DURATION_def split: send_state.splits)
next
  case (IntervalTicks i)
  then show "tfa_ok t s \<Longrightarrow> ?thesis"
    by (auto simp: tfa_ok_def tfa_defs set_delete_def split: send_state.splits)
qed (auto simp: tfa_ok_def split: send_state.splits)

text \<open>
  Codes are sent at most once a minute: as long as every press is rendered before the next one,
  every send but the last one has been followed by sixty seconds of the timer.
\<close>

theorem codes_are_sent_once_a_minute:
  "COUNTDOWN_DURATION * ti_sends (tfa_calm es new_tfa_input) \<le> seconds es + COUNTDOWN_DURATION"
proof -
  have "tfa_ok t s \<Longrightarrow> tfa_ok (t + seconds es) (tfa_calm es s)" for t s
  proof (induction es arbitrary: t s)
    case (Cons e es)
    have "seconds (e # es) = seconds [e] + seconds es" by (cases e) simp_all
    with Cons.IH [OF tfa_ok_step [OF Cons.prems, of e]] show ?case by (simp add: tfa_calm_def ac_simps)
  qed (simp add: tfa_calm_def)
  from this [of 0 new_tfa_input] have "tfa_ok (seconds es) (tfa_calm es new_tfa_input)"
    by (simp add: tfa_ok_def new_tfa_input_def)
  then show ?thesis
    by (auto simp: tfa_ok_def COUNTDOWN_DURATION_def split: send_state.splits)
qed

text \<open>Two presses before a render send twice, and the first interval never stops.\<close>

lemma leaked_interval_never_stops:
  "let s = tfa_run ([SendPressed, SendPressed] @ es) new_tfa_input in 0 \<in> set (ti_intervals s) \<and> ti_sends s \<ge> 2"
proof -
  define leaked where "leaked = (\<lambda>s :: tfa_input. 0 \<in> set (ti_intervals s) \<and> ti_current s \<noteq> Some 0 \<and> ti_fresh s > 0 \<and> ti_sends s \<ge> 2)"
  have "leaked s \<Longrightarrow> leaked (tfa_step e s)" for e s
    by (cases e) (auto simp: leaked_def tfa_defs split: option.splits)
  then have "leaked s \<Longrightarrow> leaked (fold tfa_step es s)" for s by (induction es arbitrary: s) auto
  moreover have "leaked (tfa_run [SendPressed, SendPressed] new_tfa_input)"
    by (simp add: leaked_def tfa_run_def tfa_defs new_tfa_input_def)
  ultimately show ?thesis by (simp add: tfa_run_def leaked_def Let_def)
qed

section \<open>The second factor\<close>

datatype two_fa_type = AuthFactor | EmailFactor | SmsFactor

definition buildTfaOptions :: "auth_texts \<Rightarrow> (two_fa_type \<times> string) list" where
  "buildTfaOptions tx =
     [(AuthFactor, tx_translate tx ''auth:authenticatorCodeOption''), (EmailFactor, tx_translate tx ''auth:emailCodeOption'')]"

record tfa_options =
  to_selections :: "string option list"
  to_calls :: "(two_fa_type \<times> string) list list"

definition new_tfa_options :: "nat \<Rightarrow> tfa_options" where
  "new_tfa_options optionsCount = \<lparr>to_selections = replicate optionsCount None, to_calls = []\<rparr>"

definition setSelection :: "nat \<Rightarrow> string \<Rightarrow> tfa_options \<Rightarrow> tfa_options" where
  "setSelection i v s = s\<lparr>to_selections := (to_selections s)[i := Some v]\<rparr>"

definition getDisabledOptions :: "nat \<Rightarrow> string option list \<Rightarrow> string list" where
  "getDisabledOptions i selections =
     map (\<lambda>(_, s). the s) (filter (\<lambda>(j, s). j \<noteq> i \<and> s \<noteq> None) (enumerate 0 selections))"

definition tfa_options_valid :: "string option list \<Rightarrow> bool" where
  "tfa_options_valid selections = list_all (\<lambda>s. s \<noteq> None) selections"

definition buildSelectedMethods ::
  "string option list \<Rightarrow> (two_fa_type \<times> string) list \<Rightarrow> (two_fa_type \<times> string) list" where
  "buildSelectedMethods selections options =
     map (\<lambda>label.
            (case List.find (\<lambda>(_, l). l = label) options of Some (t, _) \<Rightarrow> t | None \<Rightarrow> AuthFactor, label))
         (map the (filter (\<lambda>s. s \<noteq> None) selections))"

text \<open>A press on an option of the list of one field: the options of the other fields are disabled.\<close>

definition press_option :: "auth_texts \<Rightarrow> nat \<Rightarrow> string \<Rightarrow> tfa_options \<Rightarrow> tfa_options" where
  "press_option tx i label s =
     (if i < length (to_selections s) \<and> label \<in> snd ` set (buildTfaOptions tx) \<and>
         label \<notin> set (getDisabledOptions i (to_selections s))
      then setSelection i label s else s)"

definition tfa_handleConfirm :: "auth_texts \<Rightarrow> tfa_options \<Rightarrow> tfa_options" where
  "tfa_handleConfirm tx s =
     (if \<not> tfa_options_valid (to_selections s) then s
      else s\<lparr>to_calls := to_calls s @ [buildSelectedMethods (to_selections s) (buildTfaOptions tx)]\<rparr>)"

datatype options_event = OptionPressed nat string | TfaConfirmed

fun options_step :: "auth_texts \<Rightarrow> options_event \<Rightarrow> tfa_options \<Rightarrow> tfa_options" where
  "options_step tx (OptionPressed i label) s = press_option tx i label s"
| "options_step tx TfaConfirmed s = tfa_handleConfirm tx s"

definition options_run :: "auth_texts \<Rightarrow> options_event list \<Rightarrow> tfa_options \<Rightarrow> tfa_options" where
  "options_run tx es s = fold (options_step tx) es s"

definition chosen :: "string option list \<Rightarrow> string list" where
  "chosen selections = map the (filter (\<lambda>s. s \<noteq> None) selections)"

definition selections_ok :: "auth_texts \<Rightarrow> string option list \<Rightarrow> bool" where
  "selections_ok tx xs \<longleftrightarrow>
     (\<forall>i j v. i < length xs \<longrightarrow> j < length xs \<longrightarrow> xs ! i = Some v \<longrightarrow> xs ! j = Some v \<longrightarrow> i = j) \<and>
     set (chosen xs) \<subseteq> snd ` set (buildTfaOptions tx)"

lemma set_chosen: "set (chosen xs) = {v. Some v \<in> set xs}"
  by (auto simp: chosen_def) (metis (mono_tags, lifting) image_eqI mem_Collect_eq option.sel)

lemma disabled_options: "v \<in> set (getDisabledOptions i xs) \<longleftrightarrow> (\<exists>j < length xs. j \<noteq> i \<and> xs ! j = Some v)"
  by (auto simp: getDisabledOptions_def in_set_enumerate_eq image_iff)

lemma selections_ok_update:
  assumes "selections_ok tx xs" "v \<in> snd ` set (buildTfaOptions tx)" "v \<notin> set (getDisabledOptions i xs)"
    and "i < length xs"
  shows "selections_ok tx (xs[i := Some v])"
proof -
  have "j = k" if "j < length xs" "k < length xs" "xs[i := Some v] ! j = Some w" "xs[i := Some v] ! k = Some w" for j k w
    using that assms(1,3) unfolding selections_ok_def disabled_options
    by (cases "j = i"; cases "k = i") auto
  moreover have "w \<in> snd ` set (buildTfaOptions tx)" if "Some w \<in> set (xs[i := Some v])" for w
    using subsetD [OF set_update_subset_insert that] assms(1,2) by (auto simp: selections_ok_def set_chosen)
  ultimately show ?thesis unfolding selections_ok_def set_chosen by auto
qed

lemma distinct_chosen: "selections_ok tx xs \<Longrightarrow> distinct (chosen xs)"
proof -
  have "(\<forall>i j v. i < length xs \<longrightarrow> j < length xs \<longrightarrow> xs ! i = Some v \<longrightarrow> xs ! j = Some v \<longrightarrow> i = j) \<Longrightarrow> distinct (chosen xs)"
  proof (induction xs)
    case (Cons x xs)
    have "distinct (chosen xs)" by (rule Cons.IH) (use Cons.prems in \<open>metis Suc_less_eq Suc_inject length_Cons nth_Cons_Suc\<close>)
    moreover have "x = Some v \<Longrightarrow> Some v \<notin> set xs" for v
      using Cons.prems by (metis Suc_less_eq in_set_conv_nth length_Cons nat.distinct(1) nth_Cons_0 nth_Cons_Suc zero_less_Suc)
    ultimately show ?case by (cases x) (auto simp: chosen_def set_chosen [unfolded chosen_def])
  qed (simp add: chosen_def)
  then show "selections_ok tx xs \<Longrightarrow> distinct (chosen xs)" by (simp add: selections_ok_def)
qed

lemma options_ok_run:
  "selections_ok tx (to_selections s) \<and> length (to_selections s) = n \<and>
     (\<forall>c \<in> set (to_calls s). distinct (map snd c) \<and> length c = n \<and> set c \<subseteq> set (buildTfaOptions tx)) \<Longrightarrow>
   distinct (map snd (buildTfaOptions tx)) \<Longrightarrow>
   \<forall>c \<in> set (to_calls (options_run tx es s)). distinct (map snd c) \<and> length c = n \<and> set c \<subseteq> set (buildTfaOptions tx)"
proof (induction es arbitrary: s)
  case (Cons e es)
  have "selections_ok tx (to_selections (options_step tx e s)) \<and> length (to_selections (options_step tx e s)) = n \<and>
     (\<forall>c \<in> set (to_calls (options_step tx e s)). distinct (map snd c) \<and> length c = n \<and> set c \<subseteq> set (buildTfaOptions tx))"
  proof (cases e)
    case (OptionPressed i label)
    with Cons.prems show ?thesis by (auto simp: press_option_def setSelection_def selections_ok_update)
  next
    case TfaConfirmed
    let ?xs = "to_selections s"
    have labels: "map snd (buildSelectedMethods ?xs os) = chosen ?xs" for os
      by (simp add: buildSelectedMethods_def chosen_def comp_def)
    have "tfa_options_valid ?xs \<Longrightarrow> length (chosen ?xs) = n"
      using Cons.prems by (auto simp: tfa_options_valid_def chosen_def list_all_iff filter_id_conv)
    moreover have "set (buildSelectedMethods ?xs (buildTfaOptions tx)) \<subseteq> set (buildTfaOptions tx)"
    proof
      fix m
      assume "m \<in> set (buildSelectedMethods ?xs (buildTfaOptions tx))"
      then obtain l where "l \<in> set (chosen ?xs)"
        and m: "m = (case List.find (\<lambda>(_, k). k = l) (buildTfaOptions tx) of Some (t, _) \<Rightarrow> t | None \<Rightarrow> AuthFactor, l)"
        by (auto simp: buildSelectedMethods_def chosen_def)
      then have "l \<in> snd ` set (buildTfaOptions tx)" using Cons.prems by (auto simp: selections_ok_def)
      with m Cons.prems(2) show "m \<in> set (buildTfaOptions tx)" by (auto simp: buildTfaOptions_def)
    qed
    moreover have "distinct (map snd (buildSelectedMethods ?xs (buildTfaOptions tx)))"
      using Cons.prems distinct_chosen [of tx ?xs] labels by simp
    moreover have "length (buildSelectedMethods ?xs os) = length (chosen ?xs)" for os
      by (simp add: buildSelectedMethods_def chosen_def)
    ultimately show ?thesis using TfaConfirmed Cons.prems(1) by (simp add: tfa_handleConfirm_def)
  qed
  from Cons.IH [OF this Cons.prems(2)] show ?case by (simp add: options_run_def)
qed (simp add: options_run_def)

text \<open>
  Where the labels differ, every choice that is confirmed has as many factors as were asked for, all of
  different kinds, whatever was selected and selected again before.
\<close>

theorem second_factors_are_distinct:
  assumes "tx_translate tx ''auth:authenticatorCodeOption'' \<noteq> tx_translate tx ''auth:emailCodeOption''"
    and "methods \<in> set (to_calls (options_run tx es (new_tfa_options n)))"
  shows "length methods = n \<and> distinct (map fst methods)"
proof -
  have "selections_ok tx (replicate n None)" by (auto simp: selections_ok_def chosen_def)
  moreover have labels: "distinct (map snd (buildTfaOptions tx))" using assms(1) by (simp add: buildTfaOptions_def)
  ultimately have "\<forall>c \<in> set (to_calls (options_run tx es (new_tfa_options n))).
      distinct (map snd c) \<and> length c = n \<and> set c \<subseteq> set (buildTfaOptions tx)"
    by (intro options_ok_run) (simp_all add: new_tfa_options_def)
  with assms(2) have m: "distinct (map snd methods)" "length methods = n" "set methods \<subseteq> set (buildTfaOptions tx)"
    by blast+
  have "distinct methods" using m(1) by (simp add: distinct_map)
  moreover have "inj_on fst (set (buildTfaOptions tx))" by (auto simp: inj_on_def buildTfaOptions_def)
  then have "inj_on fst (set methods)" using m(3) by (rule inj_on_subset)
  ultimately show ?thesis using m(2) by (simp add: distinct_map)
qed

theorem second_factors_are_distinct_witness:
  "length [(EmailFactor, ''auth:emailCodeOption''), (AuthFactor, ''auth:authenticatorCodeOption'')] = 2"
proof -
  have "[(EmailFactor, ''auth:emailCodeOption''), (AuthFactor, ''auth:authenticatorCodeOption'')] \<in>
      set (to_calls (options_run keys_as_texts
        [OptionPressed 0 ''auth:emailCodeOption'', OptionPressed 1 ''auth:emailCodeOption'',
         OptionPressed 1 ''auth:authenticatorCodeOption'', TfaConfirmed] (new_tfa_options 2)))"
    by code_simp
  from second_factors_are_distinct [OF _ this] show ?thesis by (simp add: keys_as_texts_def)
qed

text \<open>A choice that was made under other labels, as before a change of the language, becomes an authenticator code.\<close>

lemma unknown_label_is_an_authenticator:
  assumes "label \<notin> snd ` set (buildTfaOptions tx)"
  shows "buildSelectedMethods [Some label] (buildTfaOptions tx) = [(AuthFactor, label)]"
  using assms by (auto simp: buildSelectedMethods_def buildTfaOptions_def)

text \<open>The screen where the codes are entered; nothing is sent yet, and the codes are not passed on.\<close>

fun SENDABLE_TYPES :: "two_fa_type \<Rightarrow> bool" where
  "SENDABLE_TYPES EmailFactor = True"
| "SENDABLE_TYPES SmsFactor = True"
| "SENDABLE_TYPES AuthFactor = False"

definition initial_codes :: "two_fa_type list \<Rightarrow> (two_fa_type \<times> string) list" where
  "initial_codes types = fold (\<lambda>t codes. AList.update t [] codes) types []"

definition setCode :: "two_fa_type \<Rightarrow> string \<Rightarrow> (two_fa_type \<times> string) list \<Rightarrow> (two_fa_type \<times> string) list" where
  "setCode t v codes = AList.update t v codes"

definition codes_valid :: "two_fa_type list \<Rightarrow> (two_fa_type \<times> string) list \<Rightarrow> bool" where
  "codes_valid types codes =
     list_all (\<lambda>t. length (case map_of codes t of None \<Rightarrow> [] | Some c \<Rightarrow> c) > 0) types"

lemma initial_codes_are_empty: "map_of (initial_codes types) t = (if t \<in> set types then Some [] else None)"
proof -
  have "map_of (fold (\<lambda>t codes. AList.update t [] codes) types cs) t =
      (if t \<in> set types then Some [] else map_of cs t)" for cs :: "(two_fa_type \<times> string) list"
    by (induction types arbitrary: cs) (auto simp: AList.update_conv')
  from this [of "[]"] show ?thesis by (simp add: initial_codes_def)
qed

lemma every_code_is_needed:
  "codes_valid types codes \<longleftrightarrow> (\<forall>t \<in> set types. \<exists>c. map_of codes t = Some c \<and> c \<noteq> [])"
  by (auto simp: codes_valid_def list_all_iff split: option.splits)

section \<open>Restoring and linking\<close>

record cloud_form =
  cf_selectedKeyName :: "string option"
  cf_password :: string

definition new_cloud_form :: "string list \<Rightarrow> cloud_form" where
  "new_cloud_form identityKeyNames =
     \<lparr>cf_selectedKeyName = (if length identityKeyNames = 1 then Some (hd identityKeyNames) else None), cf_password = []\<rparr>"

definition cloud_form_valid :: "cloud_form \<Rightarrow> bool" where
  "cloud_form_valid f \<longleftrightarrow> cf_selectedKeyName f \<noteq> None \<and> length (js_trim (cf_password f)) > 0"

record creds_form =
  cr_field :: key_field
  cr_recoveryKeyId :: string
  cr_recoveryCode :: string

definition creds_form_valid :: "auth_texts \<Rightarrow> creds_form \<Rightarrow> bool" where
  "creds_form_valid tx f \<longleftrightarrow> isIdentityKeyValid tx (cr_field f) \<and>
     length (js_trim (cr_recoveryKeyId f)) > 0 \<and> length (js_trim (cr_recoveryCode f)) > 0"

lemma recovery_needs_all_three:
  "translated tx \<Longrightarrow> creds_form_valid tx f \<Longrightarrow>
   isValidIdentityKeyName (kf_value (cr_field f)) \<and> cr_recoveryKeyId f \<noteq> [] \<and> cr_recoveryCode f \<noteq> []"
  using valid_field js_trim_Nil by (auto simp: creds_form_valid_def)

definition getCloudProvider :: "string \<Rightarrow> string" where
  "getCloudProvider os = (if os = ''ios'' then ''iCloud'' else ''Google Drive'')"

text \<open>\<^verbatim>\<open>link-device-screen.tsx\<close>: the module remembers that the sheet was shown, once its two seconds are over.\<close>

record link_device =
  ld_shown :: bool
  ld_timer :: bool
  ld_isLoading :: bool
  ld_goBacks :: nat

datatype link_event = LinkContinue | LinkTimer | LinkUnmounts

definition link_handleContinue :: "link_device \<Rightarrow> link_device" where
  "link_handleContinue s = (if ld_timer s then s else s\<lparr>ld_isLoading := True, ld_timer := True\<rparr>)"

definition link_timer_fires :: "link_device \<Rightarrow> link_device" where
  "link_timer_fires s =
     (if ld_timer s then s\<lparr>ld_timer := False, ld_shown := True, ld_goBacks := ld_goBacks s + 1\<rparr> else s)"

fun link_step :: "link_event \<Rightarrow> link_device \<Rightarrow> link_device" where
  "link_step LinkContinue s = link_handleContinue s"
| "link_step LinkTimer s = link_timer_fires s"
| "link_step LinkUnmounts s = s\<lparr>ld_timer := False\<rparr>"

lemma leaving_early_does_not_count_as_shown:
  "\<not> ld_shown s \<Longrightarrow> \<not> ld_timer s \<Longrightarrow> \<not> ld_shown (fold link_step (replicate n LinkContinue @ [LinkUnmounts, LinkTimer]) s)"
proof -
  have "ld_shown (fold link_step (replicate n LinkContinue) s) = ld_shown s" for s
    by (induction n arbitrary: s) (simp_all add: link_handleContinue_def)
  then show "\<not> ld_shown s \<Longrightarrow> \<not> ld_timer s \<Longrightarrow> \<not> ld_shown (fold link_step (replicate n LinkContinue @ [LinkUnmounts, LinkTimer]) s)"
    by (simp add: link_timer_fires_def)
qed

end
