(* ===== verification/StorageManager.thy ===== *)
theory StorageManager
  imports DaemonManager HttpClient
begin

text \<open>
  \<^verbatim>\<open>packages/ton-storage\<close>: the manager of the storage daemon as its own files have it
  (\<^verbatim>\<open>create-storage-manager.ts\<close>, \<^verbatim>\<open>storage-lifecycle.ts\<close>, \<^verbatim>\<open>storage-event-subscriptions.ts\<close>), over
  the state, the tasks and the events of \<open>DaemonManager\<close>, where the manager of the proxy is. The two
  packages were written apart; that they do the same is proved at the end, so that everything shown of
  the one machine holds of the other.
\<close>

section \<open>Configuration\<close>

record storage_config =
  sc_apiPort :: "nat option"
  sc_dbPath :: string
  sc_globalConfigJSON :: "string option"
  sc_healthCheckIntervalMs :: "nat option"
  sc_maxRestartAttempts :: "nat option"
  sc_restartBaseDelayMs :: "real option"

record storage_context =
  sx_apiPort :: nat
  sx_dbPath :: string
  sx_globalConfigJSON :: "string option"
  sx_healthCheckIntervalMs :: nat
  sx_maxRestartAttempts :: nat
  sx_restartBaseDelayMs :: real

definition DEFAULT_API_PORT :: nat where "DEFAULT_API_PORT = 9090"
definition DEFAULT_HEALTH_INTERVAL_MS :: nat where "DEFAULT_HEALTH_INTERVAL_MS = 30000"
definition storage_DEFAULT_MAX_RESTART_ATTEMPTS :: nat where "storage_DEFAULT_MAX_RESTART_ATTEMPTS = 3"
definition storage_DEFAULT_RESTART_BASE_DELAY_MS :: real where "storage_DEFAULT_RESTART_BASE_DELAY_MS = 1000"

definition buildContext :: "storage_config \<Rightarrow> storage_context" where
  "buildContext config =
     \<lparr>sx_apiPort = or_default (sc_apiPort config) DEFAULT_API_PORT, sx_dbPath = sc_dbPath config,
      sx_globalConfigJSON = sc_globalConfigJSON config,
      sx_healthCheckIntervalMs = or_default (sc_healthCheckIntervalMs config) DEFAULT_HEALTH_INTERVAL_MS,
      sx_maxRestartAttempts = or_default (sc_maxRestartAttempts config) storage_DEFAULT_MAX_RESTART_ATTEMPTS,
      sx_restartBaseDelayMs = or_default (sc_restartBaseDelayMs config) storage_DEFAULT_RESTART_BASE_DELAY_MS\<rparr>"

section \<open>The native module\<close>

text \<open>The arguments of \<^verbatim>\<open>startStorage\<close>, and what its answer means.\<close>

definition start_arguments :: "storage_context \<Rightarrow> nat \<times> string \<times> string" where
  "start_arguments ctx = (sx_apiPort ctx, sx_dbPath ctx, or_default (sx_globalConfigJSON ctx) [])"

definition startTonStorage :: "string + js_value \<Rightarrow> string + string" where
  "startTonStorage answer =
     (case answer of
        Inl e \<Rightarrow> Inl e
      | Inr v \<Rightarrow>
          (case v of
             JStr result \<Rightarrow> if prefix ''ERR:'' result then Inl result else Inr result
           | _ \<Rightarrow> Inl (''Unexpected native result type: '' @ type_name v)))"

text \<open>\<open>None\<close> where the timeout comes first.\<close>

definition runStorageHealthCheck :: "(string + bool) option \<Rightarrow> bool" where
  "runStorageHealthCheck race =
     (case race of None \<Rightarrow> False | Some checked \<Rightarrow> (case checked of Inl e \<Rightarrow> False | Inr isHealthy \<Rightarrow> isHealthy))"

section \<open>Health checks\<close>

definition storage_stopHealthCheck :: "daemon \<Rightarrow> daemon" where
  "storage_stopHealthCheck s =
     (if dm_healthTimer s \<noteq> None
      then s\<lparr>dm_timers := set_delete (the (dm_healthTimer s)) (dm_timers s), dm_healthTimer := None\<rparr> else s)"

definition storage_scheduleHealthCheck :: "daemon \<Rightarrow> daemon" where
  "storage_scheduleHealthCheck s =
     (let s = storage_stopHealthCheck s; timer = dm_nextTimer s
      in s\<lparr>dm_timers := dm_timers s @ [timer], dm_healthTimer := Some timer, dm_nextTimer := timer + 1\<rparr>)"

definition storage_schedule_after :: "bool \<Rightarrow> daemon \<Rightarrow> daemon" where
  "storage_schedule_after periodic s =
     (if periodic \<and> dm_status s = Connected then storage_scheduleHealthCheck s else s)"

section \<open>Restarting\<close>

definition restart_settles :: "bool \<Rightarrow> daemon \<Rightarrow> daemon" where
  "restart_settles ok s =
     (let waiting = dm_waiting s; s = s\<lparr>dm_isRestarting := False, dm_waiting := []\<rparr>
      in if ok then fold storage_schedule_after waiting s else s)"

definition storage_executeRestart :: "daemon \<Rightarrow> daemon" where
  "storage_executeRestart s =
     (case dm_transition Reconnecting s of
        (Inr _, s) \<Rightarrow> awaits NativeStop RestartStopping s
      | (Inl _, s) \<Rightarrow> restart_settles False s)"

definition restartStorage :: "bool \<Rightarrow> daemon \<Rightarrow> daemon" where
  "restartStorage periodic s =
     (if dm_disposed s then storage_schedule_after periodic s
      else if dm_isRestarting s then s\<lparr>dm_waiting := dm_waiting s @ [periodic]\<rparr>
      else storage_executeRestart (s\<lparr>dm_isRestarting := True, dm_waiting := [periodic]\<rparr>))"

definition retryStorageStart :: "storage_context \<Rightarrow> nat \<Rightarrow> daemon \<Rightarrow> daemon" where
  "retryStorageStart ctx attempt s =
     (if attempt > sx_maxRestartAttempts ctx
      then (case dm_transition Disconnected s of (r, s) \<Rightarrow> restart_settles (\<not> isl r) s)
      else if dm_disposed s then restart_settles True s
      else awaits NativeStart (RestartStarting attempt) s)"

definition storage_calculateBackoffDelay :: "nat \<Rightarrow> real \<Rightarrow> real \<Rightarrow> real" where
  "storage_calculateBackoffDelay attempt baseDelay random =
     (let exponential = baseDelay * 2 ^ (attempt - 1); jitter = random * baseDelay * (3 / 10)
      in exponential + jitter)"

definition storage_attempt_failed :: "storage_context \<Rightarrow> nat \<Rightarrow> real \<Rightarrow> daemon \<Rightarrow> daemon" where
  "storage_attempt_failed ctx attempt random s =
     (if attempt < sx_maxRestartAttempts ctx
      then s\<lparr>dm_tasks := dm_tasks s @
               [RestartDelaying attempt (storage_calculateBackoffDelay attempt (sx_restartBaseDelayMs ctx) random)]\<rparr>
      else retryStorageStart ctx (attempt + 1) s)"

definition attemptStorageStart ::
  "storage_context \<Rightarrow> nat \<Rightarrow> string + js_value \<Rightarrow> real \<Rightarrow> daemon \<Rightarrow> daemon" where
  "attemptStorageStart ctx attempt answer random s =
     (if isl (startTonStorage answer) then storage_attempt_failed ctx attempt random s
      else (case dm_transition Connected s of
              (Inl _, s) \<Rightarrow> storage_attempt_failed ctx attempt random s
            | (Inr _, s) \<Rightarrow> restart_settles True s))"

section \<open>The manager\<close>

definition storage_startManager :: "daemon \<Rightarrow> daemon" where
  "storage_startManager s =
     (case dm_transition Connecting s of
        (Inl _, s) \<Rightarrow> end_lifecycle StartCall False s
      | (Inr _, s) \<Rightarrow> awaits NativeStart Starting s)"

definition storage_manager_started :: "string + js_value \<Rightarrow> daemon \<Rightarrow> daemon" where
  "storage_manager_started answer s =
     (if isl (startTonStorage answer) then end_lifecycle StartCall False (snd (dm_transition Disconnected s))
      else if dm_disposed s then end_lifecycle StartCall True s
      else (case dm_transition Connected s of
              (Inl _, s) \<Rightarrow> end_lifecycle StartCall False s
            | (Inr _, s) \<Rightarrow> end_lifecycle StartCall True (storage_scheduleHealthCheck (setupSubscriptions s))))"

definition storage_stopManager :: "daemon \<Rightarrow> daemon" where
  "storage_stopManager s =
     (let s = cleanupSubscriptions (storage_stopHealthCheck s); status = dm_status s
      in if status \<noteq> Idle \<and> status \<noteq> Disconnected then awaits NativeStop (Stopping True) s
         else if status = Disconnected then awaits NativeStop (Stopping False) s
         else end_lifecycle StopCall True s)"

definition storage_disposeManager :: "daemon \<Rightarrow> daemon" where
  "storage_disposeManager s =
     (let s = s\<lparr>dm_disposed := True\<rparr>; s = cleanupSubscriptions (storage_stopHealthCheck s)
      in awaits NativeStop Disposing s)"

fun storage_begin :: "lifecycle_call \<Rightarrow> daemon \<Rightarrow> daemon" where
  "storage_begin StartCall s = storage_startManager (s\<lparr>dm_busy := True\<rparr>)"
| "storage_begin StopCall s = storage_stopManager (s\<lparr>dm_busy := True\<rparr>)"
| "storage_begin DisposeCall s = storage_disposeManager (s\<lparr>dm_busy := True\<rparr>)"

text \<open>\<^verbatim>\<open>lifecycleQueue.then(fn, fn)\<close>: the next call begins when the last one has settled, however it did.\<close>

fun storage_drain :: "nat \<Rightarrow> daemon \<Rightarrow> daemon" where
  "storage_drain 0 s = s"
| "storage_drain (Suc n) s =
     (case dm_queue s of
        call # rest \<Rightarrow>
          if dm_busy s then s else storage_drain n (storage_begin call (s\<lparr>dm_queue := rest\<rparr>))
      | [] \<Rightarrow> s)"

definition storage_next :: "daemon \<Rightarrow> daemon" where
  "storage_next s = storage_drain (length (dm_queue s)) s"

definition storage_enqueueLifecycle :: "lifecycle_call \<Rightarrow> daemon \<Rightarrow> daemon" where
  "storage_enqueueLifecycle call s = storage_next (s\<lparr>dm_queue := dm_queue s @ [call]\<rparr>)"

definition storage_runPeriodicCheck :: "daemon \<Rightarrow> daemon" where
  "storage_runPeriodicCheck s =
     (if dm_disposed s \<or> dm_isRestarting s \<or> dm_status s \<noteq> Connected then s
      else awaits NativeCheck (Checking Periodic) s)"

definition storage_periodic_ends :: "bool \<Rightarrow> daemon \<Rightarrow> daemon" where
  "storage_periodic_ends isHealthy s =
     (if \<not> isHealthy \<and> \<not> dm_disposed s \<and> \<not> dm_isRestarting s
      then restartStorage True (storage_stopHealthCheck s) else s)"

section \<open>Events\<close>

definition storage_subscribeNetworkInterface :: "daemon \<Rightarrow> daemon" where
  "storage_subscribeNetworkInterface s =
     (if dm_disposed s \<or> dm_status s \<noteq> Connected then s else restartStorage False s)"

definition storage_subscribeOnlineState :: "bool \<Rightarrow> daemon \<Rightarrow> daemon" where
  "storage_subscribeOnlineState isOnline s =
     (if dm_disposed s then s
      else if isOnline then (if dm_status s = Disconnected then restartStorage False s else s)
      else (if dm_status s = Connected then snd (dm_transition Disconnected s) else s))"

definition storage_checkAndRestart :: "daemon \<Rightarrow> daemon" where
  "storage_checkAndRestart s =
     (if dm_isRestarting s \<or> dm_disposed s then s else awaits NativeCheck (Checking Foreground) s)"

definition storage_foreground_ends :: "bool \<Rightarrow> daemon \<Rightarrow> daemon" where
  "storage_foreground_ends isHealthy s =
     (if \<not> isHealthy \<and> \<not> dm_disposed s then restartStorage False s else s)"

definition storage_subscribeAppState :: "app_state \<Rightarrow> nat \<times> bool \<Rightarrow> daemon \<Rightarrow> daemon" where
  "storage_subscribeAppState state sub s =
     (case sub of (n, wasBackgrounded) \<Rightarrow>
        if dm_disposed s then s
        else if state = AppBackground then set_backgrounded n True s
        else if state = AppActive \<and> wasBackgrounded then storage_checkAndRestart (set_backgrounded n False s)
        else s)"

fun storage_continues ::
  "storage_context \<Rightarrow> daemon_task \<Rightarrow> string + js_value \<Rightarrow> real \<Rightarrow> daemon \<Rightarrow> daemon" where
  "storage_continues ctx Starting answer random s = storage_next (storage_manager_started answer s)"
| "storage_continues ctx (Stopping moves) answer random s = storage_next (manager_stopped moves s)"
| "storage_continues ctx Disposing answer random s = storage_next (end_lifecycle DisposeCall True s)"
| "storage_continues ctx RestartStopping answer random s = retryStorageStart ctx 1 s"
| "storage_continues ctx (RestartStarting n) answer random s = attemptStorageStart ctx n answer random s"
| "storage_continues ctx (RestartDelaying n d) answer random s = retryStorageStart ctx (n + 1) s"
| "storage_continues ctx (Checking c) answer random s = s"

fun storage_check_continues :: "check_origin \<Rightarrow> (string + bool) option \<Rightarrow> daemon \<Rightarrow> daemon" where
  "storage_check_continues Periodic race s = storage_periodic_ends (runStorageHealthCheck race) s"
| "storage_check_continues Foreground race s = storage_foreground_ends (runStorageHealthCheck race) s"

fun storage_step :: "storage_context \<Rightarrow> daemon_event \<Rightarrow> daemon \<Rightarrow> daemon" where
  "storage_step ctx (Call call) s = storage_enqueueLifecycle call s"
| "storage_step ctx (Settles i answer random) s =
     (if i < length (dm_tasks s)
      then (case dm_tasks s ! i of
              Checking c \<Rightarrow> s
            | t \<Rightarrow> storage_continues ctx t answer random (without_task i s))
      else s)"
| "storage_step ctx (CheckAnswers i race) s =
     (if i < length (dm_tasks s)
      then (case dm_tasks s ! i of
              Checking c \<Rightarrow> storage_check_continues c race (without_task i s)
            | _ \<Rightarrow> s)
      else s)"
| "storage_step ctx (HealthTick t) s = (if t \<in> set (dm_timers s) then storage_runPeriodicCheck s else s)"
| "storage_step ctx InterfaceSwitch s = fold (\<lambda>_. storage_subscribeNetworkInterface) (dm_subscriptions s) s"
| "storage_step ctx (OnlineSwitch b) s = fold (\<lambda>_. storage_subscribeOnlineState b) (dm_subscriptions s) s"
| "storage_step ctx (AppSwitch state) s = fold (storage_subscribeAppState state) (dm_subscriptions s) s"
| "storage_step ctx RequestFails s = s"

definition storage_run :: "storage_config \<Rightarrow> daemon_event list \<Rightarrow> daemon" where
  "storage_run config es = fold (storage_step (buildContext config)) es new_manager"

section \<open>One machine\<close>

definition daemon_of :: "storage_context \<Rightarrow> daemon_config" where
  "daemon_of ctx = \<lparr>dk_storage = True, dk_maxRestartAttempts = sx_maxRestartAttempts ctx,
     dk_restartBaseDelayMs = sx_restartBaseDelayMs ctx\<rparr>"

named_theorems twin \<open>what the storage manager does is what the manager of \<open>DaemonManager\<close> does\<close>

lemma twin_native [twin]:
  "startTonStorage = startDaemon" "runStorageHealthCheck = runHealthCheck"
  by (auto simp: startTonStorage_def startDaemon_def runStorageHealthCheck_def runHealthCheck_def
      split: sum.splits js_value.splits option.splits)

lemma twin_health [twin]:
  "storage_stopHealthCheck = stopHealthCheck" "storage_scheduleHealthCheck = scheduleHealthCheck"
proof -
  show stop: "storage_stopHealthCheck = stopHealthCheck"
    by (auto simp: storage_stopHealthCheck_def stopHealthCheck_def split: option.splits)
  show "storage_scheduleHealthCheck = scheduleHealthCheck"
    by (auto simp: storage_scheduleHealthCheck_def scheduleHealthCheck_def stop Let_def)
qed

lemma twin_schedule [twin]: "storage_schedule_after = schedule_if_connected"
  by (intro ext) (simp add: storage_schedule_after_def schedule_if_connected_def twin)

lemma twin_settles [twin]: "restart_settles True = restart_resolves" "restart_settles False = restart_rejects"
  by (auto simp: restart_settles_def restart_resolves_def restart_rejects_def twin Let_def)

lemma twin_restart [twin]: "storage_executeRestart = executeRestart" "restartStorage = restartDaemon"
proof -
  show execute: "storage_executeRestart = executeRestart"
    by (auto simp: storage_executeRestart_def executeRestart_def twin split: prod.splits sum.splits)
  show "restartStorage = restartDaemon"
    by (intro ext) (simp add: restartStorage_def restartDaemon_def execute twin)
qed

lemma twin_retry [twin]: "retryStorageStart ctx = retryStart (daemon_of ctx)"
proof (intro ext)
  fix n s
  have "restart_settles (\<not> isl r) t = finish_restart (\<lambda>_. (r, t)) s" for r :: "string + unit" and t
    by (cases r) (simp_all add: finish_restart_def twin)
  then show "retryStorageStart ctx n s = retryStart (daemon_of ctx) n s"
    by (simp add: retryStorageStart_def retryStart_def finish_restart_def daemon_of_def twin split: prod.splits)
qed

lemma twin_attempt [twin]: "attemptStorageStart ctx = attemptStart (daemon_of ctx)"
proof -
  have failed: "storage_attempt_failed ctx = attempt_failed (daemon_of ctx)"
    by (intro ext) (simp add: storage_attempt_failed_def attempt_failed_def twin daemon_of_def
        storage_calculateBackoffDelay_def calculateBackoffDelay_def Let_def)
  show ?thesis
    by (intro ext) (auto simp: attemptStorageStart_def attemptStart_def failed twin split: sum.splits prod.splits)
qed

lemma twin_manager [twin]: "storage_startManager = startManager" "storage_stopManager = stopManager"
  by (intro ext; auto simp: storage_startManager_def startManager_def storage_stopManager_def stopManager_def twin Let_def
      split: sum.splits prod.splits)+

lemma twin_manager_started:
  "storage_manager_started answer s = manager_started (daemon_of ctx) answer s"
  "storage_disposeManager s = disposeManager (daemon_of ctx) s"
  by (auto simp: storage_manager_started_def manager_started_def storage_disposeManager_def disposeManager_def
      daemon_of_def twin Let_def split: sum.splits prod.splits)

lemma twin_begin: "storage_begin call s = begin_lifecycle (daemon_of ctx) call s"
  by (cases call) (simp_all add: twin twin_manager_started(2) [of _ ctx])

lemma twin_drain: "storage_drain n s = drain (daemon_of ctx) n s"
  by (induction n arbitrary: s) (simp_all add: twin_begin [of _ _ ctx] split: list.splits)

lemma twin_next: "storage_next s = drain_queue (daemon_of ctx) s"
  by (simp add: storage_next_def drain_queue_def twin_drain [of _ _ ctx])

lemma twin_checks [twin]:
  "storage_runPeriodicCheck = runPeriodicCheck" "storage_periodic_ends = periodic_check_ends"
  "storage_checkAndRestart = checkAndRestart" "storage_foreground_ends = foreground_check_ends"
  by (intro ext; simp add: storage_runPeriodicCheck_def runPeriodicCheck_def storage_periodic_ends_def
      periodic_check_ends_def storage_checkAndRestart_def checkAndRestart_def storage_foreground_ends_def
      foreground_check_ends_def twin)+

lemma twin_events [twin]:
  "storage_subscribeNetworkInterface = subscribeNetworkInterface"
  "storage_subscribeOnlineState = subscribeOnlineState"
  "storage_subscribeAppState = subscribeAppState"
  by (intro ext; auto simp: storage_subscribeNetworkInterface_def subscribeNetworkInterface_def
      storage_subscribeOnlineState_def subscribeOnlineState_def storage_subscribeAppState_def subscribeAppState_def
      twin split: prod.splits)+

lemma twin_continues: "storage_continues ctx t answer random s = task_continues (daemon_of ctx) t answer random s"
proof -
  have "end_lifecycle DisposeCall True s = manager_disposed (daemon_of ctx) s"
    by (simp add: manager_disposed_def daemon_of_def)
  then show ?thesis
    by (cases t) (simp_all add: twin twin_next [of _ ctx] twin_manager_started(1) [of _ _ ctx])
qed

lemma twin_check_continues [twin]: "storage_check_continues = check_continues"
proof (intro ext)
  fix c race s
  show "storage_check_continues c race s = check_continues c race s" by (cases c) (simp_all add: twin)
qed

lemma twin_step: "storage_step ctx e s = daemon_step (daemon_of ctx) e s"
  by (cases e)
    (auto simp: twin twin_continues storage_enqueueLifecycle_def enqueueLifecycle_def twin_next [of _ ctx]
      daemon_of_def split: daemon_task.splits)

text \<open>
  The manager of the storage daemon and the manager of the proxy are one machine: after any calls,
  answers, timers and events they are in the same state, have called the native module in the same way and
  answered their callers alike, where the two configurations agree.
\<close>

theorem storage_manager_is_the_daemon_manager:
  "storage_run config es = daemon_run (daemon_of (buildContext config)) es new_manager"
  by (simp add: storage_run_def daemon_run_def twin_step [abs_def])

section \<open>The client of the daemon\<close>

definition storage_base_url :: "nat \<Rightarrow> string" where
  "storage_base_url port = ''http://127.0.0.1:'' @ nat_digits port"

definition createClientFromManager ::
  "(string \<Rightarrow> (string \<times> string) option) \<Rightarrow> (axios_transport_config \<Rightarrow> ('x env_scheme) transport) \<Rightarrow>
   storage_context \<Rightarrow> ('x env_scheme, js_error, ('x env_scheme) client_internals) io" where
  "createClientFromManager parse_url axios ctx =
     buildInternals parse_url axios
       \<lparr>hc_baseUrl = storage_base_url (sx_apiPort ctx), hc_transport = None, hc_timeoutMs = None,
        hc_maxResponseSizeBytes = None, hc_maxRequestBodySizeBytes = None, hc_interceptors = [],
        hc_retryConfig = None, hc_headers = None, hc_httpsAllowlist = Some [''127.0.0.1''],
        hc_isProduction = None, hc_requestQueue = None\<rparr>"

text \<open>
  The client of the daemon can always be built, although it speaks plain HTTP: the host it is given
  is on its list and is a loopback address, as long as URLs are parsed.
\<close>

lemma client_passes_the_https_check:
  assumes "parse_url (storage_base_url (sx_apiPort ctx)) = Some (''http:'', ''127.0.0.1'')"
  shows "\<exists>client. fst (createClientFromManager parse_url axios ctx s) = Inr client \<and>
    ci_baseUrl client = Some (storage_base_url (sx_apiPort ctx)) \<and> ci_interceptors client = []"
proof -
  have "is_private_host ''127.0.0.1''" by code_simp
  with assms show ?thesis
    by (simp add: createClientFromManager_def buildInternals_def createHttpsValidator_def enforceHttps_def
        emit_log_def storage_base_url_def io_simps Let_def)
qed

lemma default_manager:
  assumes "sc_maxRestartAttempts config = None" "sc_restartBaseDelayMs config = None"
  shows "daemon_of (buildContext config) =
    \<lparr>dk_storage = True, dk_maxRestartAttempts = DEFAULT_MAX_RESTART_ATTEMPTS,
     dk_restartBaseDelayMs = DEFAULT_RESTART_BASE_DELAY_MS\<rparr>"
  using assms by (simp add: daemon_of_def buildContext_def storage_DEFAULT_MAX_RESTART_ATTEMPTS_def
      storage_DEFAULT_RESTART_BASE_DELAY_MS_def DEFAULT_MAX_RESTART_ATTEMPTS_def DEFAULT_RESTART_BASE_DELAY_MS_def)

end
