(* ===== verification/UiTheme.thy ===== *)
theory UiTheme
  imports Prelude
begin

text \<open>
  \<^verbatim>\<open>packages/ui\<close>, its tokens and theme: the scaling of the design to the width of the screen
  (\<^verbatim>\<open>scaling/\<close>), the tokens of colour, typography and spacing (\<^verbatim>\<open>tokens/\<close>), and the theme
  that \<^verbatim>\<open>ThemeProvider\<close> builds from them (\<^verbatim>\<open>theme/\<close>), with the colours and boxes of the
  two buttons. Sizes are exact rationals where the code has doubles; \<^verbatim>\<open>Math.round\<close> is
  \<^term>\<open>round :: rat \<Rightarrow> int\<close>, which rounds a half up as JavaScript does.
\<close>

section \<open>Scaling\<close>

definition BASE_DESIGN_WIDTH :: rat where "BASE_DESIGN_WIDTH = 375"

definition roundToPixel :: "rat \<Rightarrow> rat" where
  "roundToPixel v = (if v < 3 then v else of_int (round (v * 2)) / 2)"

record scale_functions =
  scaleSize :: "rat \<Rightarrow> rat"
  scaleFont :: "rat \<Rightarrow> rat"
  scaleRadius :: "rat \<Rightarrow> rat"

definition createScaleFunctions :: "rat \<Rightarrow> scale_functions" where
  "createScaleFunctions screenWidth =
     (let ratio = screenWidth / BASE_DESIGN_WIDTH
      in \<lparr>scaleSize = (\<lambda>sz. roundToPixel (sz * ratio)),
          scaleFont = (\<lambda>sz. roundToPixel (sz * ratio)),
          scaleRadius = (\<lambda>sz. roundToPixel (sz * ratio))\<rparr>)"

lemma scale_select [simp]:
  "scaleSize (createScaleFunctions w) = (\<lambda>sz. roundToPixel (sz * (w / 375)))"
  "scaleFont (createScaleFunctions w) = (\<lambda>sz. roundToPixel (sz * (w / 375)))"
  "scaleRadius (createScaleFunctions w) = (\<lambda>sz. roundToPixel (sz * (w / 375)))"
  by (simp_all add: createScaleFunctions_def BASE_DESIGN_WIDTH_def Let_def)

lemma roundToPixel_near: "\<bar>roundToPixel v - v\<bar> \<le> 1 / 4"
proof -
  have "\<bar>of_int (round (v * 2)) - v * 2\<bar> \<le> 1 / 2" by (rule of_int_round_abs_le)
  then show ?thesis by (simp add: roundToPixel_def abs_if split: if_splits)
qed

lemma roundToPixel_mono: "a \<le> b \<Longrightarrow> roundToPixel a \<le> roundToPixel b"
proof -
  assume "a \<le> b"
  moreover have "round (a * 2) \<le> round (b * 2)" using \<open>a \<le> b\<close> by (intro round_mono) simp
  moreover have "6 \<le> round (b * 2)" if "3 \<le> b" using round_mono [of 6 "b * 2"] that by simp
  ultimately show ?thesis by (auto simp: roundToPixel_def)
qed

lemma roundToPixel_half [simp]: "roundToPixel (of_int k / 2) = of_int k / 2"
  by (simp add: roundToPixel_def)

lemma roundToPixel_numeral [simp]: "roundToPixel (numeral k) = numeral k"
proof -
  have "(numeral k :: rat) = of_int (2 * numeral k) / 2" by (simp only: of_int_mult of_int_numeral)
  then show ?thesis by (metis roundToPixel_half)
qed

lemma roundToPixel_idem [simp]: "roundToPixel (roundToPixel v) = roundToPixel v"
proof (cases "v < 3")
  case False
  then have "roundToPixel v = of_int (round (v * 2)) / 2" by (simp add: roundToPixel_def)
  then show ?thesis by (metis roundToPixel_half)
qed (simp add: roundToPixel_def)

text \<open>
  A scaled size is within a quarter of a point of the proportional one.
\<close>

theorem scaled_sizes_are_near:
  "\<bar>scaleSize (createScaleFunctions w) s - s * w / 375\<bar> \<le> 1 / 4"
  using roundToPixel_near [of "s * (w / 375)"] by simp

lemma scaling_keeps_the_order:
  "0 \<le> w \<Longrightarrow> s \<le> t \<Longrightarrow> scaleSize (createScaleFunctions w) s \<le> scaleSize (createScaleFunctions w) t"
  by (auto intro!: roundToPixel_mono mult_right_mono)

section \<open>Tokens\<close>

record semantic_colors =
  sc_primaryAccent :: string
  sc_primaryText :: string
  sc_secondaryText :: string
  sc_tertiaryText :: string
  sc_quaternaryText :: string
  sc_primaryBackground :: string
  sc_secondaryBackground :: string
  sc_tertiaryBackground :: string
  sc_backgroundSheet :: string
  sc_onPrimaryAccent :: string
  sc_onTertiaryBackground :: string
  sc_onSecondaryBackground :: string
  sc_onTertiaryFill :: string
  sc_strokeElements :: string
  sc_sheetLine :: string
  sc_attentionRed :: string
  sc_success :: string
  sc_shadow :: string
  sc_onColors :: string
  sc_attentionBlock :: string
  sc_tcBackground :: string
  sc_blurBackground :: string
  sc_dividerZero :: string
  sc_onTcBackground :: string

definition lightSemanticColors :: semantic_colors where
  "lightSemanticColors =
     \<lparr>sc_primaryAccent = ''#0166FF'',
      sc_primaryText = ''#0E0E0E'',
      sc_secondaryText = ''#494949'',
      sc_tertiaryText = ''#9A9A9A'',
      sc_quaternaryText = ''#727689'',
      sc_primaryBackground = ''#F5F7FF'',
      sc_secondaryBackground = ''#FFFFFF'',
      sc_tertiaryBackground = ''#FAFBFF'',
      sc_backgroundSheet = ''rgba(8, 21, 50, 0.7)'',
      sc_onPrimaryAccent = ''#FFFFFF'',
      sc_onTertiaryBackground = ''#5A5E66'',
      sc_onSecondaryBackground = ''#F5F7FF'',
      sc_onTertiaryFill = ''#E1EAF8'',
      sc_strokeElements = ''#CCCCCC'',
      sc_sheetLine = ''#B8BCCA'',
      sc_attentionRed = ''#FD4E4E'',
      sc_success = ''#35D487'',
      sc_shadow = ''rgba(45, 98, 217, 0.03)'',
      sc_onColors = ''rgba(255, 255, 255, 0.65)'',
      sc_attentionBlock = ''#EEF1FF'',
      sc_tcBackground = ''rgba(245, 247, 255, 0.15)'',
      sc_blurBackground = ''rgba(36, 36, 36, 0.5)'',
      sc_dividerZero = ''rgba(225, 234, 248, 0)'',
      sc_onTcBackground = ''rgba(35, 50, 66, 0.4)''\<rparr>"

definition darkSemanticColors :: semantic_colors where
  "darkSemanticColors =
     \<lparr>sc_primaryAccent = ''#2178FB'',
      sc_primaryText = ''#FFFFFF'',
      sc_secondaryText = ''#9A9A9A'',
      sc_tertiaryText = ''#A0A0A0'',
      sc_quaternaryText = ''#92929F'',
      sc_primaryBackground = ''#1B1B1B'',
      sc_secondaryBackground = ''#0E0E0E'',
      sc_tertiaryBackground = ''#171717'',
      sc_backgroundSheet = ''rgba(31, 31, 31, 0.7)'',
      sc_onPrimaryAccent = ''#FFFFFF'',
      sc_onTertiaryBackground = ''#959595'',
      sc_onSecondaryBackground = ''#222325'',
      sc_onTertiaryFill = ''#313131'',
      sc_strokeElements = ''#2E2E2E'',
      sc_sheetLine = ''#5E6068'',
      sc_attentionRed = ''#FF5353'',
      sc_success = ''#35D487'',
      sc_shadow = ''rgba(45, 98, 217, 0.03)'',
      sc_onColors = ''rgba(255, 255, 255, 0.65)'',
      sc_attentionBlock = ''#252525'',
      sc_tcBackground = ''rgba(245, 247, 255, 0.15)'',
      sc_blurBackground = ''rgba(36, 36, 36, 0.5)'',
      sc_dividerZero = ''rgba(49, 49, 49, 0)'',
      sc_onTcBackground = ''rgba(35, 50, 66, 0.4)''\<rparr>"

record theme_spacing =
  sp_xxs :: rat
  sp_xs :: rat
  sp_sm :: rat
  sp_md :: rat
  sp_lg :: rat
  sp_xl :: rat
  sp_xxl :: rat
  sp_xxxl :: rat

record theme_radii =
  ra_small :: rat
  ra_medium :: rat
  ra_large :: rat

definition spacingTokens :: "theme_spacing \<times> theme_radii" where
  "spacingTokens =
     (\<lparr>sp_xxs = 2, sp_xs = 4, sp_sm = 8, sp_md = 12, sp_lg = 16, sp_xl = 20, sp_xxl = 24, sp_xxxl = 32\<rparr>,
      \<lparr>ra_small = 8, ra_medium = 12, ra_large = 16\<rparr>)"

record typography_variant =
  tv_fontSize :: rat
  tv_fontWeight :: string
  tv_lineHeight :: "rat option"
  tv_letterSpacing :: rat
  tv_fontFamily :: string

definition NOTO_SANS_REGULAR :: string where "NOTO_SANS_REGULAR = ''NotoSans-Regular''"

definition FONT_WEIGHT_FAMILY :: "(string \<times> string) list" where
  "FONT_WEIGHT_FAMILY =
     [(''400'', NOTO_SANS_REGULAR), (''500'', ''NotoSans-Medium''),
      (''600'', ''NotoSans-SemiBold''), (''700'', ''NotoSans-Bold'')]"

definition fontFamilyForWeight :: "string \<Rightarrow> string" where
  "fontFamilyForWeight weight =
     (case map_of FONT_WEIGHT_FAMILY weight of Some f \<Rightarrow> f | None \<Rightarrow> NOTO_SANS_REGULAR)"

definition typographyVariants :: "(string \<times> typography_variant) list" where
  "typographyVariants =
    [(''headline1'', \<lparr>tv_fontSize = 28, tv_fontWeight = ''700'', tv_lineHeight = None, tv_letterSpacing = 0, tv_fontFamily = fontFamilyForWeight ''700''\<rparr>),
     (''headline2'', \<lparr>tv_fontSize = 24, tv_fontWeight = ''700'', tv_lineHeight = Some 31, tv_letterSpacing = 0, tv_fontFamily = fontFamilyForWeight ''700''\<rparr>),
     (''title'', \<lparr>tv_fontSize = 17, tv_fontWeight = ''600'', tv_lineHeight = None, tv_letterSpacing = 0, tv_fontFamily = fontFamilyForWeight ''600''\<rparr>),
     (''subtitle'', \<lparr>tv_fontSize = 15, tv_fontWeight = ''600'', tv_lineHeight = None, tv_letterSpacing = 0, tv_fontFamily = fontFamilyForWeight ''600''\<rparr>),
     (''subtitle2'', \<lparr>tv_fontSize = 15, tv_fontWeight = ''500'', tv_lineHeight = None, tv_letterSpacing = 0, tv_fontFamily = fontFamilyForWeight ''500''\<rparr>),
     (''subtitle3'', \<lparr>tv_fontSize = 14, tv_fontWeight = ''500'', tv_lineHeight = None, tv_letterSpacing = 0, tv_fontFamily = fontFamilyForWeight ''500''\<rparr>),
     (''body'', \<lparr>tv_fontSize = 13, tv_fontWeight = ''600'', tv_lineHeight = Some 18, tv_letterSpacing = 0, tv_fontFamily = fontFamilyForWeight ''600''\<rparr>),
     (''body2'', \<lparr>tv_fontSize = 13, tv_fontWeight = ''400'', tv_lineHeight = None, tv_letterSpacing = 0, tv_fontFamily = fontFamilyForWeight ''400''\<rparr>),
     (''caption'', \<lparr>tv_fontSize = 12, tv_fontWeight = ''500'', tv_lineHeight = None, tv_letterSpacing = 0, tv_fontFamily = fontFamilyForWeight ''500''\<rparr>),
     (''caption2'', \<lparr>tv_fontSize = 12, tv_fontWeight = ''400'', tv_lineHeight = None, tv_letterSpacing = 0, tv_fontFamily = fontFamilyForWeight ''400''\<rparr>),
     (''caption3'', \<lparr>tv_fontSize = 11, tv_fontWeight = ''400'', tv_lineHeight = Some 18, tv_letterSpacing = 0, tv_fontFamily = fontFamilyForWeight ''400''\<rparr>),
     (''caption4'', \<lparr>tv_fontSize = 11, tv_fontWeight = ''600'', tv_lineHeight = Some 16, tv_letterSpacing = 0, tv_fontFamily = fontFamilyForWeight ''600''\<rparr>),
     (''caption5'', \<lparr>tv_fontSize = 10, tv_fontWeight = ''500'', tv_lineHeight = None, tv_letterSpacing = 0, tv_fontFamily = fontFamilyForWeight ''500''\<rparr>),
     (''caption6'', \<lparr>tv_fontSize = 11, tv_fontWeight = ''500'', tv_lineHeight = Some 16, tv_letterSpacing = 11 / 100, tv_fontFamily = fontFamilyForWeight ''500''\<rparr>),
     (''notificationCaption'', \<lparr>tv_fontSize = 6, tv_fontWeight = ''700'', tv_lineHeight = None, tv_letterSpacing = 0, tv_fontFamily = fontFamilyForWeight ''700''\<rparr>)]"

section \<open>The theme\<close>

datatype color_mode = LightMode | DarkMode

type_synonym theme_typography = "(string \<times> typography_variant) list"

record ui_theme =
  th_colors :: semantic_colors
  th_typography :: theme_typography
  th_spacing :: theme_spacing
  th_radii :: theme_radii
  th_scale :: scale_functions
  th_colorMode :: color_mode

definition selectColors :: "color_mode \<Rightarrow> semantic_colors" where
  "selectColors mode = (if mode = DarkMode then darkSemanticColors else lightSemanticColors)"

definition scaleVariant :: "typography_variant \<Rightarrow> scale_functions \<Rightarrow> typography_variant" where
  "scaleVariant raw sc =
     \<lparr>tv_fontSize = scaleFont sc (tv_fontSize raw), tv_fontWeight = tv_fontWeight raw,
      tv_lineHeight = map_option (scaleFont sc) (tv_lineHeight raw),
      tv_letterSpacing = tv_letterSpacing raw, tv_fontFamily = tv_fontFamily raw\<rparr>"

definition scaleTypography :: "scale_functions \<Rightarrow> theme_typography" where
  "scaleTypography sc = map (\<lambda>(key, raw). (key, scaleVariant raw sc)) typographyVariants"

definition scaleSpacing :: "scale_functions \<Rightarrow> theme_spacing" where
  "scaleSpacing sc =
     (let raw = fst spacingTokens
      in \<lparr>sp_xxs = scaleSize sc (sp_xxs raw), sp_xs = scaleSize sc (sp_xs raw),
          sp_sm = scaleSize sc (sp_sm raw), sp_md = scaleSize sc (sp_md raw),
          sp_lg = scaleSize sc (sp_lg raw), sp_xl = scaleSize sc (sp_xl raw),
          sp_xxl = scaleSize sc (sp_xxl raw), sp_xxxl = scaleSize sc (sp_xxxl raw)\<rparr>)"

definition scaleRadii :: "scale_functions \<Rightarrow> theme_radii" where
  "scaleRadii sc =
     (let raw = snd spacingTokens
      in \<lparr>ra_small = scaleRadius sc (ra_small raw), ra_medium = scaleRadius sc (ra_medium raw),
          ra_large = scaleRadius sc (ra_large raw)\<rparr>)"

text \<open>
  The overrides are a \<^verbatim>\<open>Partial<Theme>\<close>: a part that is present is whole, as its type says, except
  that of the typography any variant may be given (the spread keeps the others).
\<close>

record theme_overrides =
  to_colors :: "semantic_colors option"
  to_typography :: "theme_typography option"
  to_spacing :: "theme_spacing option"
  to_radii :: "theme_radii option"
  to_scale :: "scale_functions option"
  to_colorMode :: "color_mode option"

definition given :: "'a option \<Rightarrow> 'a \<Rightarrow> 'a" where
  "given ovr base = (case ovr of Some x \<Rightarrow> x | None \<Rightarrow> base)"

definition spread_typography :: "theme_typography \<Rightarrow> theme_typography option \<Rightarrow> theme_typography" where
  "spread_typography base ovr = fold (\<lambda>(k, v). AList.update k v) (given ovr []) base"

definition buildTheme :: "color_mode \<Rightarrow> scale_functions \<Rightarrow> theme_overrides option \<Rightarrow> ui_theme" where
  "buildTheme mode sc overrides =
     (let baseTheme =
        \<lparr>th_colors = selectColors mode, th_typography = scaleTypography sc, th_spacing = scaleSpacing sc,
         th_radii = scaleRadii sc, th_scale = sc, th_colorMode = mode\<rparr>
      in case overrides of
           None \<Rightarrow> baseTheme
         | Some ov \<Rightarrow>
             \<lparr>th_colors = given (to_colors ov) (th_colors baseTheme),
              th_typography = spread_typography (th_typography baseTheme) (to_typography ov),
              th_spacing = given (to_spacing ov) (th_spacing baseTheme),
              th_radii = given (to_radii ov) (th_radii baseTheme),
              th_scale = given (to_scale ov) sc, th_colorMode = given (to_colorMode ov) mode\<rparr>)"

definition provider_width :: "bool \<Rightarrow> rat \<Rightarrow> rat" where
  "provider_width isWeb width =
     (if isWeb then BASE_DESIGN_WIDTH else if 0 < width then width else BASE_DESIGN_WIDTH)"

definition ThemeProvider :: "bool \<Rightarrow> rat \<Rightarrow> color_mode option \<Rightarrow> theme_overrides option \<Rightarrow> ui_theme" where
  "ThemeProvider isWeb width mode overrides =
     buildTheme (given mode LightMode) (createScaleFunctions (provider_width isWeb width)) overrides"

definition useTheme :: "ui_theme option \<Rightarrow> string + ui_theme" where
  "useTheme ctx =
     (case ctx of None \<Rightarrow> Inl ''useTheme must be used within a ThemeProvider'' | Some th \<Rightarrow> Inr th)"

definition text_style :: "ui_theme \<Rightarrow> string option \<Rightarrow> string option \<Rightarrow> (typography_variant \<times> string) option" where
  "text_style th variant color =
     map_option (\<lambda>v. (v, given color (sc_primaryText (th_colors th))))
       (map_of (th_typography th) (given variant ''body2''))"

lemma scaled_variant_is_present:
  "map_of (scaleTypography sc) k = map_option (\<lambda>raw. scaleVariant raw sc) (map_of typographyVariants k)"
  by (simp add: scaleTypography_def map_of_map)

lemma spread_keeps_keys: "fst ` set base \<subseteq> fst ` set (spread_typography base ovr)"
proof -
  have "fst ` set b \<subseteq> fst ` set (fold (\<lambda>(k, v). AList.update k v) xs b)" for b and xs :: theme_typography
    by (induction xs arbitrary: b) (force simp: dom_update)+
  then show ?thesis by (simp add: spread_typography_def)
qed

text \<open>
  A design drawn for 375 points comes out at that width, and on the web at any width, as it was drawn.
\<close>

theorem design_width_reproduces_the_tokens:
  "th_typography (ThemeProvider True w m None) = typographyVariants \<and>
   th_spacing (ThemeProvider True w m None) = fst spacingTokens \<and>
   th_radii (ThemeProvider True w m None) = snd spacingTokens \<and>
   ThemeProvider False 375 m None = ThemeProvider True w m None"
  by (simp add: ThemeProvider_def provider_width_def BASE_DESIGN_WIDTH_def buildTheme_def Let_def
      scaleTypography_def typographyVariants_def scaleVariant_def scaleSpacing_def scaleRadii_def spacingTokens_def)

lemma token_lines_hold_their_text:
  "\<forall>(k, raw) \<in> set typographyVariants. \<forall>h. tv_lineHeight raw = Some h \<longrightarrow> tv_fontSize raw \<le> h"
  by (simp add: typographyVariants_def)

text \<open>
  The rounding never makes a line of text lower than its characters.
\<close>

theorem lines_hold_their_text:
  assumes "0 \<le> w" "(k, v) \<in> set (scaleTypography (createScaleFunctions w))" "tv_lineHeight v = Some h"
  shows "tv_fontSize v \<le> h"
proof -
  from assms(2) obtain raw where raw: "(k, raw) \<in> set typographyVariants" "v = scaleVariant raw (createScaleFunctions w)"
    by (auto simp: scaleTypography_def)
  with assms(3) obtain h' where h: "tv_lineHeight raw = Some h'" "h = roundToPixel (h' * (w / 375))"
    by (auto simp: scaleVariant_def)
  with token_lines_hold_their_text raw have "tv_fontSize raw \<le> h'" by fastforce
  then show ?thesis using assms(1) h raw by (auto simp: scaleVariant_def intro!: roundToPixel_mono mult_right_mono)
qed

theorem lines_hold_their_text_witness:
  "tv_fontSize (scaleVariant (the (map_of typographyVariants ''body'')) (createScaleFunctions 390)) \<le>
   roundToPixel (18 * (390 / 375))"
  by (rule lines_hold_their_text [of 390 "''body''"])
    (simp_all add: scaleTypography_def typographyVariants_def scaleVariant_def)

lemma provided_width_is_positive: "0 < provider_width isWeb width"
  by (simp add: provider_width_def BASE_DESIGN_WIDTH_def)

lemma provided_sizes_are_positive:
  "0 < s \<Longrightarrow> 0 < scaleSize (th_scale (ThemeProvider isWeb width m None)) s"
proof -
  assume "0 < s"
  then have "0 < s * (provider_width isWeb width / 375)" by (simp add: provided_width_is_positive)
  moreover have "0 < v \<Longrightarrow> 0 < roundToPixel v" for v
    using roundToPixel_mono [of 3 v] by (cases "v < 3") (simp_all add: roundToPixel_def [of v])
  ultimately show ?thesis by (simp add: ThemeProvider_def buildTheme_def)
qed

lemma every_variant_has_a_style:
  assumes "k \<in> fst ` set typographyVariants"
  shows "text_style (ThemeProvider isWeb w m overrides) (Some k) c \<noteq> None"
proof -
  have *: "k \<in> fst ` set (scaleTypography sc)" for sc
    using assms by (simp add: scaleTypography_def image_image case_prod_beta)
  have "k \<in> fst ` set (spread_typography (scaleTypography sc) ovr)" for sc ovr
    using spread_keeps_keys * by (rule subsetD)
  then have "map_of (spread_typography (scaleTypography sc) ovr) k \<noteq> None" for sc ovr
    by (simp add: map_of_eq_None_iff)
  moreover have "map_of (scaleTypography sc) k \<noteq> None" for sc using * by (simp add: map_of_eq_None_iff)
  ultimately show ?thesis
    unfolding text_style_def ThemeProvider_def buildTheme_def Let_def
    by (cases overrides) (simp_all add: given_def [where ovr = "Some k" for k])
qed

lemma overridden_mode_keeps_the_colors:
  "to_colors ov = None \<Longrightarrow> th_colors (buildTheme m sc (Some ov)) = selectColors m"
  by (simp add: buildTheme_def given_def Let_def)

lemma overridden_scale_does_not_rescale:
  "to_typography ov = None \<Longrightarrow> to_spacing ov = None \<Longrightarrow>
   th_typography (buildTheme m sc (Some ov)) = scaleTypography sc \<and>
   th_spacing (buildTheme m sc (Some ov)) = scaleSpacing sc"
  by (simp add: buildTheme_def given_def spread_typography_def Let_def)

section \<open>Buttons\<close>

datatype button_color = BPrimary | BSecondary | BSecondaryB | BTertiary | BText | BDanger
datatype small_button_color = SPrimary | SPrimaryOutlined | SDanger | SDangerOutlined
datatype loader_variant = LoaderDark | LoaderLight
datatype icon_position = IconLeft | IconRight | IconCenter
datatype button_height = Height44 | Height56

record color_spec =
  cs_background :: string
  cs_textColor :: string
  cs_borderColor :: "string option"
  cs_loaderVariant :: loader_variant

definition disabled_spec :: "semantic_colors \<Rightarrow> color_spec" where
  "disabled_spec c =
     \<lparr>cs_background = sc_sheetLine c, cs_textColor = sc_onPrimaryAccent c, cs_borderColor = None,
      cs_loaderVariant = LoaderDark\<rparr>"

definition resolveButtonSpec :: "semantic_colors \<Rightarrow> button_color \<Rightarrow> bool \<Rightarrow> color_spec" where
  "resolveButtonSpec c color isDisabled =
     (if isDisabled then disabled_spec c
      else case color of
        BPrimary \<Rightarrow> \<lparr>cs_background = sc_primaryAccent c, cs_textColor = sc_onPrimaryAccent c, cs_borderColor = None, cs_loaderVariant = LoaderDark\<rparr>
      | BSecondary \<Rightarrow> \<lparr>cs_background = sc_tertiaryBackground c, cs_textColor = sc_primaryText c, cs_borderColor = None, cs_loaderVariant = LoaderLight\<rparr>
      | BSecondaryB \<Rightarrow> \<lparr>cs_background = sc_tertiaryBackground c, cs_textColor = sc_primaryText c, cs_borderColor = None, cs_loaderVariant = LoaderLight\<rparr>
      | BTertiary \<Rightarrow> \<lparr>cs_background = ''transparent'', cs_textColor = sc_secondaryText c, cs_borderColor = Some (sc_strokeElements c), cs_loaderVariant = LoaderLight\<rparr>
      | BText \<Rightarrow> \<lparr>cs_background = ''transparent'', cs_textColor = sc_secondaryText c, cs_borderColor = None, cs_loaderVariant = LoaderLight\<rparr>
      | BDanger \<Rightarrow> \<lparr>cs_background = sc_attentionRed c, cs_textColor = sc_onPrimaryAccent c, cs_borderColor = None, cs_loaderVariant = LoaderDark\<rparr>)"

definition resolveSmallButtonSpec :: "semantic_colors \<Rightarrow> small_button_color \<Rightarrow> bool \<Rightarrow> color_spec" where
  "resolveSmallButtonSpec c color isDisabled =
     (if isDisabled then disabled_spec c
      else case color of
        SPrimary \<Rightarrow> \<lparr>cs_background = sc_primaryAccent c, cs_textColor = sc_onPrimaryAccent c, cs_borderColor = Some (sc_primaryAccent c), cs_loaderVariant = LoaderDark\<rparr>
      | SPrimaryOutlined \<Rightarrow> \<lparr>cs_background = ''transparent'', cs_textColor = sc_primaryAccent c, cs_borderColor = Some (sc_primaryAccent c), cs_loaderVariant = LoaderLight\<rparr>
      | SDanger \<Rightarrow> \<lparr>cs_background = sc_attentionRed c, cs_textColor = sc_onPrimaryAccent c, cs_borderColor = Some (sc_attentionRed c), cs_loaderVariant = LoaderDark\<rparr>
      | SDangerOutlined \<Rightarrow> \<lparr>cs_background = ''transparent'', cs_textColor = sc_attentionRed c, cs_borderColor = Some (sc_attentionRed c), cs_loaderVariant = LoaderLight\<rparr>)"

text \<open>
  The part of a button's style that is computed; the parts that are the same for every button (direction and
  alignment of its row) are left out.
\<close>

record button_box =
  bb_height :: rat
  bb_width :: "rat option"
  bb_radius :: rat
  bb_background :: string
  bb_gap :: rat
  bb_border :: "(rat \<times> string) option"
  bb_stretch :: bool
  bb_paddingHorizontal :: "rat option"
  bb_paddingVertical :: "rat option"

definition border_of :: "rat \<Rightarrow> color_spec \<Rightarrow> (rat \<times> string) option" where
  "border_of w spec =
     (case cs_borderColor spec of Some c \<Rightarrow> if c \<noteq> [] then Some (w, c) else None | None \<Rightarrow> None)"

definition buildButtonStyle :: "button_height \<Rightarrow> color_spec \<Rightarrow> bool \<Rightarrow> (rat \<Rightarrow> rat) \<Rightarrow> button_box" where
  "buildButtonStyle h spec isIconOnly sc =
     (let scaledHeight = sc (if h = Height44 then 44 else 56);
          base = \<lparr>bb_height = scaledHeight, bb_width = None, bb_radius = (if h = Height44 then sc 12 else sc 16),
                  bb_background = cs_background spec, bb_gap = (if h = Height44 then sc 8 else sc 9),
                  bb_border = border_of 1 spec, bb_stretch = False, bb_paddingHorizontal = None,
                  bb_paddingVertical = None\<rparr>
      in if isIconOnly then base\<lparr>bb_width := Some scaledHeight, bb_gap := 0\<rparr>
         else if h = Height56 then base\<lparr>bb_stretch := True, bb_paddingHorizontal := Some (sc 16)\<rparr>
         else base\<lparr>bb_paddingHorizontal := Some (sc 16), bb_paddingVertical := Some (sc 10)\<rparr>)"

definition buildSmallButtonStyle :: "color_spec \<Rightarrow> bool \<Rightarrow> bool \<Rightarrow> (rat \<Rightarrow> rat) \<Rightarrow> button_box" where
  "buildSmallButtonStyle spec isIconOnly hasIcon sc =
     (let scaledHeight = sc 28;
          base = \<lparr>bb_height = scaledHeight, bb_width = None, bb_radius = sc 16,
                  bb_background = cs_background spec, bb_gap = sc 3, bb_border = border_of (12 / 10) spec,
                  bb_stretch = False, bb_paddingHorizontal = None, bb_paddingVertical = None\<rparr>
      in if isIconOnly then base\<lparr>bb_width := Some scaledHeight, bb_gap := 0\<rparr>
         else base\<lparr>bb_paddingHorizontal := Some (if hasIcon then sc 14 else sc 16)\<rparr>)"

record button_props =
  bp_icon :: bool
  bp_iconPosition :: "icon_position option"
  bp_label :: "string option"
  bp_isLoading :: bool
  bp_isDisabled :: bool

datatype button_part = ButtonLoader loader_variant rat | ButtonIcon | ButtonText string string

definition has_label :: "button_props \<Rightarrow> bool" where
  "has_label p = (bp_label p \<noteq> None \<and> bp_label p \<noteq> Some [])"

definition isIconOnly :: "button_props \<Rightarrow> bool" where
  "isIconOnly p = (bp_icon p \<and> bp_iconPosition p = Some IconCenter \<and> \<not> has_label p)"

definition button_content :: "button_props \<Rightarrow> color_spec \<Rightarrow> rat \<Rightarrow> button_part list" where
  "button_content p spec loaderSize =
     (if bp_isLoading p then [ButtonLoader (cs_loaderVariant spec) loaderSize]
      else if isIconOnly p then [ButtonIcon]
      else let textElement = (if has_label p then [ButtonText (the (bp_label p)) (cs_textColor spec)] else [])
           in if \<not> bp_icon p then textElement
              else if given (bp_iconPosition p) IconLeft = IconRight then textElement @ [ButtonIcon]
              else ButtonIcon # textElement)"

definition resolveLoaderSize :: "button_height \<Rightarrow> rat" where
  "resolveLoaderSize h = (if h = Height56 then 24 else 20)"

text \<open>What a button is on the screen: its box, its content, and whether a press reaches \<^verbatim>\<open>onPress\<close>.\<close>

definition Button :: "ui_theme \<Rightarrow> button_height option \<Rightarrow> button_color option \<Rightarrow> button_props \<Rightarrow> button_box \<times> button_part list \<times> bool" where
  "Button th h color p =
     (let h' = given h Height56;
          spec = resolveButtonSpec (th_colors th) (given color BPrimary) (bp_isDisabled p);
          sc = scaleSize (th_scale th)
      in (buildButtonStyle h' spec (isIconOnly p) sc, button_content p spec (sc (resolveLoaderSize h')),
          \<not> (bp_isDisabled p \<or> bp_isLoading p)))"

definition SmallButton :: "ui_theme \<Rightarrow> small_button_color option \<Rightarrow> button_props \<Rightarrow> button_box \<times> button_part list \<times> bool" where
  "SmallButton th color p =
     (let spec = resolveSmallButtonSpec (th_colors th) (given color SPrimary) (bp_isDisabled p);
          sc = scaleSize (th_scale th)
      in (buildSmallButtonStyle spec (isIconOnly p) (bp_icon p) sc, button_content p spec (sc 16),
          \<not> (bp_isDisabled p \<or> bp_isLoading p)))"

lemma icon_button_is_square:
  "isIconOnly p \<Longrightarrow> bb_width (fst (Button th h c p)) = Some (bb_height (fst (Button th h c p)))"
  "isIconOnly p \<Longrightarrow> bb_width (fst (SmallButton th c' p)) = Some (bb_height (fst (SmallButton th c' p)))"
  by (simp_all add: Button_def SmallButton_def buildButtonStyle_def buildSmallButtonStyle_def Let_def)

lemma loading_button_cannot_be_pressed:
  "bp_isLoading p \<Longrightarrow>
   (\<exists>v sz. fst (snd (Button th h c p)) = [ButtonLoader v sz]) \<and> \<not> snd (snd (Button th h c p))"
  by (simp add: Button_def button_content_def Let_def)

lemma disabled_buttons_look_alike:
  "bp_isDisabled p \<Longrightarrow> Button th h (Some c) p = Button th h (Some c') p"
  by (simp add: Button_def resolveButtonSpec_def)

lemma content_keeps_its_parts:
  "\<not> bp_isLoading p \<Longrightarrow>
   (ButtonIcon \<in> set (button_content p spec sz) \<longleftrightarrow> bp_icon p) \<and>
   ((\<exists>t c. ButtonText t c \<in> set (button_content p spec sz)) \<longleftrightarrow> has_label p)"
  by (auto simp: button_content_def isIconOnly_def Let_def)

end
