(* ===== verification/UiFields.thy ===== *)
theory UiFields
  imports UiTheme
begin

text \<open>
  \<^verbatim>\<open>packages/ui/src/components\<close>, the parts that keep a state or compute: the text field and its
  styles, the text input with its debounced callback, the select field, the overlay menus, the tabs, the snack
  bar, the avatar. A component is its state with one function per handler; a render takes the props of the
  moment, and an effect runs after the render that changed one of its dependencies. What a handler calls of
  its props is the list of calls it returns.
\<close>

section \<open>The text field: its look\<close>

datatype text_field_state = FieldDefault | FieldFocused | FieldFilled | FieldError | FieldVerified | FieldDisabled
datatype explicit_state = ExplicitError | ExplicitVerified | ExplicitDisabled

definition deriveTextFieldState :: "explicit_state option \<Rightarrow> bool \<Rightarrow> bool \<Rightarrow> text_field_state" where
  "deriveTextFieldState explicitState isFocused hasValue =
     (if explicitState = Some ExplicitDisabled then FieldDisabled
      else if explicitState = Some ExplicitError then FieldError
      else if explicitState = Some ExplicitVerified then FieldVerified
      else if isFocused then FieldFocused
      else if hasValue then FieldFilled
      else FieldDefault)"

record text_field_colors =
  tc_borderColor :: string
  tc_labelColor :: string
  tc_valueColor :: string
  tc_backgroundColor :: string
  tc_placeholderColor :: string
  tc_containerOpacity :: rat

definition resolveBorderColor :: "semantic_colors \<Rightarrow> text_field_state \<Rightarrow> string" where
  "resolveBorderColor c st =
     (if st = FieldFocused then sc_primaryAccent c
      else if st = FieldError then sc_attentionRed c
      else if st = FieldVerified then sc_success c
      else sc_strokeElements c)"

definition resolveLabelColor :: "semantic_colors \<Rightarrow> text_field_state \<Rightarrow> string" where
  "resolveLabelColor c st =
     (if st = FieldFocused then sc_primaryAccent c
      else if st = FieldError then sc_attentionRed c
      else sc_tertiaryText c)"

definition resolveTextFieldColorSpec :: "semantic_colors \<Rightarrow> text_field_state \<Rightarrow> text_field_colors" where
  "resolveTextFieldColorSpec c st =
     \<lparr>tc_borderColor = resolveBorderColor c st, tc_labelColor = resolveLabelColor c st,
      tc_valueColor = sc_primaryText c, tc_backgroundColor = sc_secondaryBackground c,
      tc_placeholderColor = sc_tertiaryText c,
      tc_containerOpacity = (if st = FieldDisabled then 1 / 2 else 1)\<rparr>"

record field_container =
  fc_borderRadius :: rat
  fc_borderColor :: string
  fc_backgroundColor :: string
  fc_paddingHorizontal :: rat
  fc_opacity :: rat
  fc_height :: "rat option"
  fc_minHeight :: "rat option"
  fc_alignItems :: string

definition is_multiline :: "rat \<Rightarrow> rat \<Rightarrow> bool" where
  "is_multiline maxLines minLines = (1 < maxLines \<or> 1 < minLines)"

definition buildTextFieldContainerStyle :: "text_field_colors \<Rightarrow> scale_functions \<Rightarrow> rat \<Rightarrow> rat \<Rightarrow> field_container" where
  "buildTextFieldContainerStyle spec sc maxLines minLines =
     (let baseHeight = scaleSize sc 58;
          style = \<lparr>fc_borderRadius = scaleRadius sc 16, fc_borderColor = tc_borderColor spec,
                   fc_backgroundColor = tc_backgroundColor spec, fc_paddingHorizontal = scaleSize sc 16,
                   fc_opacity = tc_containerOpacity spec, fc_height = None, fc_minHeight = None,
                   fc_alignItems = []\<rparr>
      in if is_multiline maxLines minLines
         then style\<lparr>fc_minHeight := Some (baseHeight + scaleFont sc 18 * (max minLines 1 - 1)),
                    fc_alignItems := ''flex-start''\<rparr>
         else style\<lparr>fc_height := Some baseHeight, fc_alignItems := ''center''\<rparr>)"

datatype field_text_variant = VariantDefault | VariantLarge

record font_style =
  fo_fontFamily :: string
  fo_fontSize :: rat
  fo_lineHeight :: "rat option"
  fo_letterSpacing :: rat
  fo_color :: string

definition variant_of :: "ui_theme \<Rightarrow> string \<Rightarrow> typography_variant" where
  "variant_of th k = the (map_of (th_typography th) k)"

definition buildFontStyle :: "ui_theme \<Rightarrow> string \<Rightarrow> field_text_variant \<Rightarrow> font_style" where
  "buildFontStyle th color variant =
     (let sc = th_scale th; body = variant_of th ''body''
      in if variant = VariantLarge
         then \<lparr>fo_fontFamily = tv_fontFamily (variant_of th ''subtitle2''), fo_fontSize = scaleFont sc 15,
               fo_lineHeight = Some (scaleFont sc 18), fo_letterSpacing = 0, fo_color = color\<rparr>
         else \<lparr>fo_fontFamily = tv_fontFamily body, fo_fontSize = scaleFont sc (tv_fontSize body),
               fo_lineHeight = (case tv_lineHeight body of
                                  Some h \<Rightarrow> if h \<noteq> 0 then Some (scaleFont sc h) else None
                                | None \<Rightarrow> None),
               fo_letterSpacing = tv_letterSpacing body, fo_color = color\<rparr>)"

record field_input =
  fi_font :: font_style
  fi_flex :: bool
  fi_maxHeight :: "rat option"
  fi_paddingTop :: rat
  fi_paddingBottom :: rat
  fi_textAlignVertical :: string

definition buildTextFieldInputStyle ::
  "bool \<Rightarrow> ui_theme \<Rightarrow> text_field_colors \<Rightarrow> bool \<Rightarrow> rat \<Rightarrow> field_text_variant \<Rightarrow> field_input" where
  "buildTextFieldInputStyle isWeb th spec isMultiline maxLines variant =
     (let sc = th_scale th; font = buildFontStyle th (tc_valueColor spec) variant
      in if \<not> isMultiline
         then \<lparr>fi_font = font, fi_flex = True, fi_maxHeight = None,
               fi_paddingTop = scaleSize sc (if variant = VariantLarge then 22 else 16),
               fi_paddingBottom = 0, fi_textAlignVertical = ''auto''\<rparr>
         else let lineHeight = scaleFont sc 18;
                  paddingBottom = scaleSize sc 8;
                  renderTolerance = (if isWeb then 0 else of_int (round (lineHeight / 2)))
              in \<lparr>fi_font = font, fi_flex = False,
                  fi_maxHeight = Some (lineHeight * maxLines + paddingBottom + renderTolerance),
                  fi_paddingTop = 0, fi_paddingBottom = paddingBottom, fi_textAlignVertical = ''top''\<rparr>)"

definition buildMultilineWrapperStyle :: "scale_functions \<Rightarrow> rat" where
  "buildMultilineWrapperStyle sc = scaleSize sc 28"

text \<open>
  The floating label of the web, which has no animated values: the size of its font, its shift and its top.
\<close>

definition floating_label_web :: "bool \<Rightarrow> bool \<Rightarrow> scale_functions \<Rightarrow> rat \<times> rat option \<times> rat option" where
  "floating_label_web isFloating isMultiline sc =
     (let fontSize = (if isFloating then scaleFont sc 12 else scaleFont sc 13);
          translateY = (if isFloating then - scaleSize sc 8 else 0);
          tp = scaleSize sc (if isFloating then 8 else 18)
      in if isMultiline then (fontSize, None, Some tp) else (fontSize, Some translateY, None))"

lemma explicit_state_wins:
  "deriveTextFieldState (Some e) f v =
     (case e of ExplicitDisabled \<Rightarrow> FieldDisabled | ExplicitError \<Rightarrow> FieldError | ExplicitVerified \<Rightarrow> FieldVerified)"
  by (simp add: deriveTextFieldState_def split: explicit_state.split)

lemma taller_for_more_lines:
  assumes "1 \<le> m" "m \<le> n" "0 \<le> scaleFont sc 18"
  shows "fc_minHeight (buildTextFieldContainerStyle spec sc 2 m) = Some a \<Longrightarrow>
         fc_minHeight (buildTextFieldContainerStyle spec sc 2 n) = Some b \<Longrightarrow> a \<le> b"
proof -
  have "scaleFont sc 18 * (m - 1) \<le> scaleFont sc 18 * (n - 1)" using assms by (intro mult_left_mono) simp_all
  moreover have "max m 1 = m" "max n 1 = n" using assms by simp_all
  ultimately show "fc_minHeight (buildTextFieldContainerStyle spec sc 2 m) = Some a \<Longrightarrow>
    fc_minHeight (buildTextFieldContainerStyle spec sc 2 n) = Some b \<Longrightarrow> a \<le> b"
    by (auto simp: buildTextFieldContainerStyle_def is_multiline_def Let_def)
qed

lemma typed_text_is_scaled_twice:
  "fo_fontSize (buildFontStyle (ThemeProvider False 750 None None) c VariantDefault) = 52"
  "tv_fontSize (variant_of (ThemeProvider False 750 None None) ''body'') = 26"
  "fo_fontSize (buildFontStyle (ThemeProvider False 750 None None) c VariantLarge) = 30"
  by (simp_all add: buildFontStyle_def variant_of_def ThemeProvider_def buildTheme_def provider_width_def Let_def
      scaled_variant_is_present typographyVariants_def scaleVariant_def given_def BASE_DESIGN_WIDTH_def)

section \<open>The text field: its value\<close>

record text_field_props =
  fp_label :: string
  fp_value :: "string option"
  fp_state :: "explicit_state option"
  fp_errorMessage :: "string option"
  fp_isClearable :: bool

record text_field =
  tf_internalValue :: string
  tf_isFocused :: bool

datatype field_call = CallChangeText string | CallFocus | CallBlur

definition text_field_init :: "string option \<Rightarrow> text_field" where
  "text_field_init defaultValue = \<lparr>tf_internalValue = given defaultValue '''', tf_isFocused = False\<rparr>"

definition currentValue :: "text_field_props \<Rightarrow> text_field \<Rightarrow> string" where
  "currentValue p s = (case fp_value p of Some v \<Rightarrow> v | None \<Rightarrow> tf_internalValue s)"

definition field_handleChangeText :: "text_field_props \<Rightarrow> string \<Rightarrow> text_field \<Rightarrow> text_field \<times> field_call list" where
  "field_handleChangeText p t s =
     (if fp_value p = None then s\<lparr>tf_internalValue := t\<rparr> else s, [CallChangeText t])"

definition field_handleFocus :: "text_field \<Rightarrow> text_field \<times> field_call list" where
  "field_handleFocus s = (s\<lparr>tf_isFocused := True\<rparr>, [CallFocus])"

definition field_handleBlur :: "text_field \<Rightarrow> text_field \<times> field_call list" where
  "field_handleBlur s = (s\<lparr>tf_isFocused := False\<rparr>, [CallBlur])"

definition shouldShowClear :: "text_field_props \<Rightarrow> text_field \<Rightarrow> bool" where
  "shouldShowClear p s = (fp_isClearable p \<and> tf_isFocused s \<and> currentValue p s \<noteq> '''')"

definition field_handleClear :: "text_field_props \<Rightarrow> text_field \<Rightarrow> text_field \<times> field_call list" where
  "field_handleClear p s = field_handleChangeText p '''' s"

record field_view =
  fv_text :: string
  fv_state :: text_field_state
  fv_label :: string
  fv_floating :: bool
  fv_clear :: bool
  fv_editable :: bool

definition TextField :: "text_field_props \<Rightarrow> text_field \<Rightarrow> field_view" where
  "TextField p s =
     (let hasValue = currentValue p s \<noteq> '''';
          derivedState = deriveTextFieldState (fp_state p) (tf_isFocused s) hasValue
      in \<lparr>fv_text = currentValue p s, fv_state = derivedState,
          fv_label = (if derivedState = FieldError \<and> fp_errorMessage p \<noteq> None \<and> fp_errorMessage p \<noteq> Some ''''
                      then the (fp_errorMessage p) else fp_label p),
          fv_floating = (tf_isFocused s \<or> hasValue), fv_clear = shouldShowClear p s,
          fv_editable = (fp_state p \<noteq> Some ExplicitDisabled)\<rparr>)"

datatype field_event = Typed string | Focused | Blurred | ClearPressed

text \<open>One event at a field with the props of its last render; the button is there when it is shown.\<close>

definition field_step :: "text_field_props \<times> field_event \<Rightarrow> text_field \<Rightarrow> text_field \<times> field_call list" where
  "field_step pe s =
     (case pe of
        (p, Typed t) \<Rightarrow> field_handleChangeText p t s
      | (p, Focused) \<Rightarrow> field_handleFocus s
      | (p, Blurred) \<Rightarrow> field_handleBlur s
      | (p, ClearPressed) \<Rightarrow> if fv_clear (TextField p s) then field_handleClear p s else (s, []))"

fun field_run :: "(text_field_props \<times> field_event) list \<Rightarrow> text_field \<Rightarrow> text_field \<times> field_call list" where
  "field_run [] s = (s, [])"
| "field_run (e # es) s =
     (let (s', cs) = field_step e s; (s'', ds) = field_run es s' in (s'', cs @ ds))"

fun changes_of :: "field_call list \<Rightarrow> string list" where
  "changes_of [] = []"
| "changes_of (CallChangeText t # cs) = t # changes_of cs"
| "changes_of (_ # cs) = changes_of cs"

lemma changes_of_append [simp]: "changes_of (cs @ ds) = changes_of cs @ changes_of ds"
  by (induction cs rule: changes_of.induct) simp_all

lemmas field_handlers = field_step_def field_handleChangeText_def field_handleFocus_def field_handleBlur_def
  field_handleClear_def

text \<open>
  A field without a \<^verbatim>\<open>value\<close> shows the last text it reported, and its default until then; a field with
  one shows it, whatever happened.
\<close>

theorem field_shows_what_it_reported:
  assumes "\<forall>(p, e) \<in> set es. fp_value p = None" "fp_value p = None"
  shows "fv_text (TextField p (fst (field_run es (text_field_init d)))) =
         last (given d '''' # changes_of (snd (field_run es (text_field_init d))))"
proof -
  have "tf_internalValue (fst (field_run es s)) = last (tf_internalValue s # changes_of (snd (field_run es s)))" for s
    using assms(1)
  proof (induction es arbitrary: s)
    case (Cons e es)
    obtain q ev where e: "e = (q, ev)" by force
    obtain s' cs where st: "field_step e s = (s', cs)" by force
    have "tf_internalValue s' = last (tf_internalValue s # changes_of cs)"
      using st Cons.prems by (auto simp: e field_handlers split: field_event.splits if_splits)
    with Cons.IH [of s'] Cons.prems st show ?case by (simp add: case_prod_beta)
  qed simp
  with assms(2) show ?thesis by (simp add: TextField_def currentValue_def Let_def text_field_init_def)
qed

definition plain_field :: text_field_props where
  "plain_field = \<lparr>fp_label = ''Name'', fp_value = None, fp_state = None, fp_errorMessage = None, fp_isClearable = True\<rparr>"

theorem field_shows_what_it_reported_witness:
  "fv_text (TextField plain_field (fst (field_run [(plain_field, Focused), (plain_field, Typed ''a'')]
      (text_field_init None)))) =
   last (given None '''' # changes_of (snd (field_run [(plain_field, Focused), (plain_field, Typed ''a'')]
      (text_field_init None))))"
  by (rule field_shows_what_it_reported) (simp_all add: plain_field_def)

lemma controlled_field_shows_its_value:
  "fp_value p = Some v \<Longrightarrow> fv_text (TextField p s) = v"
  by (simp add: TextField_def currentValue_def Let_def)

lemma disabled_field_can_be_cleared:
  "changes_of (snd (field_run [(plain_field, Focused), (plain_field, Typed ''a''),
     (plain_field\<lparr>fp_state := Some ExplicitDisabled\<rparr>, ClearPressed)] (text_field_init None))) = [''a'', '''']"
  by (simp add: field_handlers TextField_def shouldShowClear_def currentValue_def plain_field_def Let_def
      text_field_init_def given_def)

section \<open>The text input\<close>

datatype text_input_state = InputEmpty | InputFocused | InputValid | InputError

definition resolveVisualState :: "string \<Rightarrow> bool \<Rightarrow> text_input_state option \<Rightarrow> text_input_state" where
  "resolveVisualState v isFocused st =
     (if st = Some InputError then InputError
      else if st = Some InputValid then InputValid
      else if isFocused then InputFocused else InputEmpty)"

record border_colors =
  bc_border :: string
  bc_icon :: string
  bc_label :: string

definition resolveBorderColors :: "semantic_colors \<Rightarrow> text_input_state \<Rightarrow> border_colors" where
  "resolveBorderColors c st =
     (case st of
        InputEmpty \<Rightarrow> \<lparr>bc_border = sc_strokeElements c, bc_icon = sc_secondaryText c, bc_label = sc_tertiaryText c\<rparr>
      | InputFocused \<Rightarrow> \<lparr>bc_border = sc_primaryAccent c, bc_icon = sc_secondaryText c, bc_label = sc_primaryAccent c\<rparr>
      | InputValid \<Rightarrow> \<lparr>bc_border = sc_success c, bc_icon = sc_secondaryText c, bc_label = sc_tertiaryText c\<rparr>
      | InputError \<Rightarrow> \<lparr>bc_border = sc_attentionRed c, bc_icon = sc_secondaryText c, bc_label = sc_attentionRed c\<rparr>)"

record text_input_props =
  ip_value :: string
  ip_placeholder :: string
  ip_prefixIcon :: bool
  ip_suffixIcon :: bool
  ip_state :: "text_input_state option"
  ip_errorMessage :: "string option"

record text_input_view =
  iv_colors :: border_colors
  iv_prefix :: bool
  iv_label :: "string option"
  iv_placeholder :: "string option"
  iv_checkmark :: bool

definition TextInput :: "ui_theme \<Rightarrow> text_input_props \<Rightarrow> bool \<Rightarrow> text_input_view" where
  "TextInput th p isFocused =
     (let visualState = resolveVisualState (ip_value p) isFocused (ip_state p);
          showFloatingLabel = (isFocused \<or> ip_value p \<noteq> '''');
          floatingLabelText = (if visualState = InputError \<and> ip_errorMessage p \<noteq> None \<and> ip_errorMessage p \<noteq> Some ''''
                               then the (ip_errorMessage p) else ip_placeholder p)
      in \<lparr>iv_colors = resolveBorderColors (th_colors th) visualState,
          iv_prefix = (ip_prefixIcon p \<and> \<not> showFloatingLabel),
          iv_label = (if showFloatingLabel then Some floatingLabelText else None),
          iv_placeholder = (if showFloatingLabel then None else Some (ip_placeholder p)),
          iv_checkmark = (\<not> ip_suffixIcon p \<and> visualState = InputValid)\<rparr>)"

lemma error_of_an_empty_input_is_not_shown:
  "ip_value p = '''' \<Longrightarrow> iv_label (TextInput th p False) = None \<and> iv_placeholder (TextInput th p False) = Some (ip_placeholder p)"
  by (simp add: TextInput_def Let_def)

subsection \<open>The debounced callback\<close>

text \<open>
  The callback with a delay: the timer is the time it is due and the text its closure holds. A call finds the
  timers that were due before it fired already.
\<close>

type_synonym debounce_timer = "(nat \<times> string) option"

definition due_by :: "nat \<Rightarrow> debounce_timer \<Rightarrow> (nat \<times> string) list \<times> debounce_timer" where
  "due_by now tm = (case tm of Some (d, x) \<Rightarrow> if d \<le> now then ([(d, x)], None) else ([], tm) | None \<Rightarrow> ([], None))"

definition debounced_call :: "nat option \<Rightarrow> nat \<Rightarrow> string \<Rightarrow> debounce_timer \<Rightarrow> (nat \<times> string) list \<times> debounce_timer" where
  "debounced_call delayMs now x tm =
     (case delayMs of
        Some d \<Rightarrow> if d = 0 then ([(now, x)], tm) else ([], Some (now + d, x))
      | None \<Rightarrow> ([(now, x)], tm))"

fun debounce_run :: "nat option \<Rightarrow> (nat \<times> string) list \<Rightarrow> debounce_timer \<Rightarrow> (nat \<times> string) list \<times> debounce_timer" where
  "debounce_run d [] tm = ([], tm)"
| "debounce_run d ((now, x) # es) tm =
     (let (fired, tm1) = due_by now tm;
          (called, tm2) = debounced_call d now x tm1;
          (rest, tm3) = debounce_run d es tm2
      in (fired @ called @ rest, tm3))"

text \<open>Unmounting clears the timer; a field that stays mounted hears it when it is due.\<close>

definition debounce_heard :: "nat option \<Rightarrow> (nat \<times> string) list \<Rightarrow> bool \<Rightarrow> (nat \<times> string) list" where
  "debounce_heard d es unmounts =
     (case debounce_run d es None of (cs, tm) \<Rightarrow>
        cs @ (if unmounts then [] else case tm of Some c \<Rightarrow> [c] | None \<Rightarrow> []))"

lemma debounce_run_spaced:
  assumes "0 < d" "sorted (map fst es)"
    and "\<And>t x. tm = Some (t, x) \<Longrightarrow> es \<noteq> [] \<Longrightarrow> t \<le> fst (hd es) + d"
    and "debounce_run (Some d) es tm = (cs, tm')"
  shows "sorted_wrt (\<lambda>a b. fst a + d \<le> fst b) (cs @ (case tm' of Some c \<Rightarrow> [c] | None \<Rightarrow> [])) \<and>
         (\<forall>c \<in> set (cs @ (case tm' of Some c \<Rightarrow> [c] | None \<Rightarrow> [])).
            Some c = tm \<or> (es \<noteq> [] \<and> fst (hd es) + d \<le> fst c))"
  using assms(2-4)
proof (induction es arbitrary: tm cs)
  case Nil
  then show ?case by (auto split: option.splits)
next
  case (Cons e es)
  obtain now x where e: "e = (now, x)" by force
  let ?fired = "fst (due_by now tm)"
  define rest where "rest = fst (debounce_run (Some d) es (Some (now + d, x)))"
  then have rest: "debounce_run (Some d) es (Some (now + d, x)) = (rest, tm')" and cs: "cs = ?fired @ rest"
    using Cons.prems(3) \<open>0 < d\<close> by (auto simp: e debounced_call_def case_prod_beta prod_eq_iff)
  let ?all = "rest @ (case tm' of Some c \<Rightarrow> [c] | None \<Rightarrow> [])"
  have le: "now \<le> fst (hd es)" if "es \<noteq> []" using Cons.prems(1) that by (cases es) (auto simp: e)
  have IH: "sorted_wrt (\<lambda>a b. fst a + d \<le> fst b) ?all"
    "\<And>c. c \<in> set ?all \<Longrightarrow> Some c = Some (now + d, x) \<or> (es \<noteq> [] \<and> fst (hd es) + d \<le> fst c)"
    using Cons.IH [OF _ _ rest] Cons.prems(1) le by (auto simp: e)
  have after: "now + d \<le> fst c" if "c \<in> set ?all" for c
    using IH(2) [OF that] le by auto
  have fired: "\<forall>c \<in> set ?fired. Some c = tm \<and> fst c \<le> now" and one: "length ?fired \<le> 1"
    by (auto simp: due_by_def split: option.splits if_splits)
  have "sorted_wrt (\<lambda>a b. fst a + d \<le> fst b) (?fired @ ?all)"
    using one fired after IH(1) by (fastforce simp: sorted_wrt_append le_Suc_eq length_Suc_conv)
  moreover have "\<forall>c \<in> set (?fired @ ?all). Some c = tm \<or> now + d \<le> fst c"
    using fired after unfolding set_append by (metis Un_iff)
  ultimately show ?case by (simp add: cs e)
qed

text \<open>
  Two calls of a debounced callback are at least the delay apart, and the last one carries the last text.
\<close>

theorem debounced_calls_keep_their_distance:
  assumes "0 < d" "sorted (map fst es)"
  shows "sorted_wrt (\<lambda>a b. fst a + d \<le> fst b) (debounce_heard (Some d) es False)"
  using debounce_run_spaced [OF assms, where tm = None] by (simp add: debounce_heard_def split: prod.split)

theorem debounced_calls_keep_their_distance_witness:
  "sorted_wrt (\<lambda>a b. fst a + 300 \<le> fst b) (debounce_heard (Some 300) [(0, ''a''), (100, ''ab''), (900, ''abc'')] False)"
  by (rule debounced_calls_keep_their_distance) simp_all

lemma debounce_run_last:
  "0 < d \<Longrightarrow> es \<noteq> [] \<Longrightarrow> snd (debounce_run (Some d) es tm) = Some (fst (last es) + d, snd (last es))"
proof (induction es arbitrary: tm)
  case (Cons e es)
  then show ?case by (cases e; cases "es = []") (auto simp: debounced_call_def case_prod_beta)
qed simp

lemma last_text_is_heard:
  "0 < d \<Longrightarrow> es \<noteq> [] \<Longrightarrow> last (debounce_heard (Some d) es False) = (fst (last es) + d, snd (last es))"
  by (simp add: debounce_heard_def debounce_run_last [where tm = None] split: prod.split)
    (metis debounce_run_last option.simps(5) snd_conv last_snoc)

lemma unmounting_drops_the_last_text:
  "debounce_heard (Some 300) [(0, ''a'')] True = [] \<and> debounce_heard (Some 300) [(0, ''a'')] False = [(300, ''a'')]"
  by (simp add: debounce_heard_def due_by_def debounced_call_def)

text \<open>
  The platform puts a controlled input back to its \<^verbatim>\<open>value\<close> after an event that did not change
  it, so every key is typed at the value of the last call the parent heard.
\<close>

fun controlled_keys :: "nat \<Rightarrow> (nat \<times> char) list \<Rightarrow> string \<Rightarrow> debounce_timer \<Rightarrow> string" where
  "controlled_keys d [] v tm = (case tm of Some (t, x) \<Rightarrow> x | None \<Rightarrow> v)"
| "controlled_keys d ((now, c) # ks) v tm =
     (let (fired, tm1) = due_by now tm;
          v' = (if fired = [] then v else snd (last fired));
          (called, tm2) = debounced_call (Some d) now (v' @ [c]) tm1
      in controlled_keys d ks (if called = [] then v' else snd (last called)) tm2)"

lemma fast_typing_loses_letters:
  "controlled_keys 300 [(0, CHR ''a''), (100, CHR ''b'')] '''' None = ''b''"
  "controlled_keys 0 [(0, CHR ''a''), (100, CHR ''b'')] '''' None = ''ab''"
  by (simp_all add: due_by_def debounced_call_def)

section \<open>The select field\<close>

type_synonym select_option = "string \<times> bool"

definition normalizeOptions :: "string list + select_option list \<Rightarrow> select_option list" where
  "normalizeOptions opts = (case opts of Inl labels \<Rightarrow> map (\<lambda>l. (l, False)) labels | Inr os \<Rightarrow> os)"

record select_props =
  sl_value :: "string option"
  sl_options :: "string list + select_option list"
  sl_disabledOptions :: "string list"
  sl_prefixIcon :: bool
  sl_disabled :: bool

definition select_hasValue :: "select_props \<Rightarrow> bool" where
  "select_hasValue p = (sl_value p \<noteq> None \<and> sl_value p \<noteq> Some '''')"

definition select_handleToggle :: "select_props \<Rightarrow> bool \<Rightarrow> bool" where
  "select_handleToggle p isOpen = (if \<not> sl_disabled p then \<not> isOpen else isOpen)"

definition select_handleSelect :: "string \<Rightarrow> bool \<Rightarrow> bool \<times> string list" where
  "select_handleSelect l isOpen = (False, [l])"

record select_view =
  sv_prefix :: bool
  sv_floating :: bool
  sv_dropdown :: "(string \<times> bool) list option"

text \<open>The dropdown as it stands once its anchor is measured: each label and whether a press selects it.\<close>

definition SelectField :: "select_props \<Rightarrow> bool \<Rightarrow> select_view" where
  "SelectField p isOpen =
     \<lparr>sv_prefix = (sl_prefixIcon p \<and> \<not> (select_hasValue p \<or> isOpen)),
      sv_floating = (select_hasValue p \<or> (\<not> sl_disabled p \<and> isOpen)),
      sv_dropdown =
        (if \<not> sl_disabled p \<and> isOpen
         then Some (map (\<lambda>(l, _). (l, l \<notin> set (sl_disabledOptions p))) (normalizeOptions (sl_options p)))
         else None)\<rparr>"

datatype select_event = TogglePressed | OptionPressed nat | BackdropPressed

definition select_step :: "select_props \<times> select_event \<Rightarrow> bool \<Rightarrow> bool \<times> string list" where
  "select_step pe isOpen =
     (let (p, e) = pe in
      case e of
        TogglePressed \<Rightarrow> (select_handleToggle p isOpen, [])
      | OptionPressed i \<Rightarrow>
          (case sv_dropdown (SelectField p isOpen) of
             Some os \<Rightarrow> if i < length os \<and> snd (os ! i) then select_handleSelect (fst (os ! i)) isOpen else (isOpen, [])
           | None \<Rightarrow> (isOpen, []))
      | BackdropPressed \<Rightarrow> (if sv_dropdown (SelectField p isOpen) = None then isOpen else False, []))"

text \<open>
  What a select field reports is one of its options, not a disabled one, and was pressed in an open field; the
  press closes it.
\<close>

theorem only_offered_options_are_selected:
  assumes "select_step (p, e) isOpen = (isOpen', l # ls)"
  shows "l \<in> fst ` set (normalizeOptions (sl_options p)) \<and> l \<notin> set (sl_disabledOptions p) \<and>
         isOpen \<and> \<not> sl_disabled p \<and> \<not> isOpen' \<and> ls = []"
  using assms by (auto simp: select_step_def SelectField_def select_handleSelect_def case_prod_beta
      split: select_event.splits option.splits if_splits intro!: image_eqI [OF refl nth_mem])

definition country_field :: select_props where
  "country_field = \<lparr>sl_value = None, sl_options = Inl [''A'', ''B''], sl_disabledOptions = [''B''],
                    sl_prefixIcon = True, sl_disabled = False\<rparr>"

theorem only_offered_options_are_selected_witness:
  "''A'' \<in> fst ` set (normalizeOptions (sl_options country_field)) \<and> ''A'' \<notin> set (sl_disabledOptions country_field) \<and>
   True \<and> \<not> sl_disabled country_field \<and> \<not> False \<and> [] = ([] :: string list)"
  by (rule only_offered_options_are_selected [of _ "OptionPressed 0"])
    (simp add: select_step_def SelectField_def select_handleSelect_def country_field_def normalizeOptions_def)

lemma field_disabled_while_open:
  "sl_prefixIcon p \<Longrightarrow> sl_disabled p \<Longrightarrow> \<not> sv_prefix (SelectField p True) \<and> \<not> sv_floating (SelectField p True) \<or> select_hasValue p"
  "sl_disabled p \<Longrightarrow> sv_dropdown (SelectField p True) = None \<and> sv_dropdown (SelectField (p\<lparr>sl_disabled := False\<rparr>) True) \<noteq> None"
  by (simp_all add: SelectField_def)

end
