(* ===== verification/UiMenus.thy ===== *)
theory UiMenus
  imports UiFields
begin

text \<open>
  \<^verbatim>\<open>packages/ui/src/components\<close>, continued: the measuring of an anchor, the overlay menu and the
  menu of the feed's filters, the tab bar and its pager, the snack bar, the avatar, and the small computations
  of the sheets, the tooltip and the bottom bar. Positions are exact rationals; a shared value of the animation
  library is the value last written.
\<close>

section \<open>Measuring the anchor\<close>

record anchor_rect =
  an_x :: rat
  an_y :: rat
  an_width :: rat
  an_height :: rat

definition MAX_MEASURE_RETRIES :: nat where "MAX_MEASURE_RETRIES = 5"

text \<open>
  One attempt per animation frame; what the node answers at frame \<open>i\<close> is \<open>node i\<close> (nothing when
  it is gone). The result is the rectangle stored, with the number of frames it took.
\<close>

function tryMeasure :: "(nat \<Rightarrow> anchor_rect option) \<Rightarrow> nat \<Rightarrow> nat \<Rightarrow> anchor_rect option \<times> nat" where
  "tryMeasure node retryCount frame =
     (case node frame of
        None \<Rightarrow> (None, Suc frame)
      | Some r \<Rightarrow>
          if 0 < an_width r \<and> 0 < an_height r then (Some r, Suc frame)
          else if retryCount < MAX_MEASURE_RETRIES then tryMeasure node (Suc retryCount) (Suc frame)
          else (None, Suc frame))"
  by pat_completeness auto
termination by (relation "measure (\<lambda>(node, retryCount, frame). MAX_MEASURE_RETRIES - retryCount)") auto

declare tryMeasure.simps [simp del]

text \<open>The select field's dropdown looks at the width only.\<close>

function tryMeasureWidth :: "(nat \<Rightarrow> anchor_rect option) \<Rightarrow> nat \<Rightarrow> nat \<Rightarrow> anchor_rect option \<times> nat" where
  "tryMeasureWidth node retryCount frame =
     (case node frame of
        None \<Rightarrow> (None, Suc frame)
      | Some r \<Rightarrow>
          if 0 < an_width r then (Some r, Suc frame)
          else if retryCount < 5 then tryMeasureWidth node (Suc retryCount) (Suc frame)
          else (None, Suc frame))"
  by pat_completeness auto
termination by (relation "measure (\<lambda>(node, retryCount, frame). 5 - retryCount)") auto

declare tryMeasureWidth.simps [simp del]

text \<open>
  The measuring ends within six frames, whatever the node answers, and what it stores is an answer of the node
  with an area.
\<close>

lemma tryMeasure_bound:
  "r \<le> 5 \<Longrightarrow> snd (tryMeasure node r k) \<le> k + 6 - r \<and>
   (\<forall>a. fst (tryMeasure node r k) = Some a \<longrightarrow> 0 < an_width a \<and> 0 < an_height a \<and> a \<in> ran node)"
proof (induction node r k rule: tryMeasure.induct)
  case (1 node r k)
  show ?case
  proof (cases "node k")
    case (Some a)
    then have "a \<in> ran node" by (rule ranI)
    show ?thesis
    proof (cases "0 < an_width a \<and> 0 < an_height a")
      case True
      with Some \<open>a \<in> ran node\<close> 1(2) show ?thesis by (simp add: tryMeasure.simps [of node r k])
    next
      case False
      show ?thesis
      proof (cases "r < 5")
        case True
        with Some False have "tryMeasure node r k = tryMeasure node (Suc r) (Suc k)"
          by (auto simp: tryMeasure.simps [of node r k] MAX_MEASURE_RETRIES_def)
        with 1(1) [OF Some False] True show ?thesis by (simp add: MAX_MEASURE_RETRIES_def add.commute)
      next
        case r: False
        with Some False have "tryMeasure node r k = (None, Suc k)"
          by (auto simp: tryMeasure.simps [of node r k] MAX_MEASURE_RETRIES_def)
        with 1(2) show ?thesis by simp
      qed
    qed
  qed (use 1 in \<open>simp add: tryMeasure.simps\<close>)
qed

theorem measuring_gives_up_after_six_frames: "snd (tryMeasure node 0 0) \<le> 6"
  using tryMeasure_bound [of 0 node 0] by simp

lemma measured_anchor_has_an_area:
  "fst (tryMeasure node 0 0) = Some a \<Longrightarrow> 0 < an_width a \<and> 0 < an_height a"
  using tryMeasure_bound [of 0 node 0] by simp

lemma late_anchor_is_not_found:
  assumes "\<And>i. i < 6 \<Longrightarrow> node i = Some \<lparr>an_x = 0, an_y = 0, an_width = 0, an_height = 0\<rparr>"
  shows "fst (tryMeasure node 0 0) = None"
  using assms [of 0] assms [of 1] assms [of 2] assms [of 3] assms [of 4] assms [of 5]
  by (simp add: tryMeasure.simps MAX_MEASURE_RETRIES_def numeral_eq_Suc)

definition MENU_GAP_OVERLAY :: rat where "MENU_GAP_OVERLAY = 4"

definition useOverlayPosition :: "rat \<Rightarrow> anchor_rect option \<Rightarrow> (rat \<Rightarrow> rat) \<Rightarrow> (rat \<times> rat) option" where
  "useOverlayPosition screenWidth anchor sc =
     map_option (\<lambda>a. (an_y a + an_height a + sc MENU_GAP_OVERLAY, screenWidth - (an_x a + an_width a))) anchor"

definition dropdown_position :: "anchor_rect \<Rightarrow> (rat \<Rightarrow> rat) \<Rightarrow> rat \<times> rat \<times> rat" where
  "dropdown_position a sc = (an_y a + an_height a + sc 4, an_x a, an_width a)"

section \<open>The overlay menu\<close>

definition OVERLAY_ANIMATION_DURATION :: nat where "OVERLAY_ANIMATION_DURATION = 400"
definition WEB_OVERLAY_DELAY :: nat where "WEB_OVERLAY_DELAY = 200"

text \<open>
  Whether the menu is wanted, whether it is rendered, and when the timer that takes it away is due; the effect
  runs again whenever one of the first two changes, after clearing the timer of its last run.
\<close>

record overlay =
  ov_isVisible :: bool
  ov_shouldRender :: bool
  ov_timer :: "nat option"
  ov_now :: nat

datatype overlay_event = SetVisible bool | OverlayElapse nat

definition overlay_init :: overlay where
  "overlay_init = \<lparr>ov_isVisible = False, ov_shouldRender = False, ov_timer = None, ov_now = 0\<rparr>"

definition overlay_effect :: "nat \<Rightarrow> overlay \<Rightarrow> overlay" where
  "overlay_effect duration s =
     (if ov_isVisible s then s\<lparr>ov_shouldRender := True, ov_timer := None\<rparr>
      else if ov_shouldRender s then s\<lparr>ov_timer := Some (ov_now s + duration)\<rparr>
      else s\<lparr>ov_timer := None\<rparr>)"

definition overlay_step :: "nat \<Rightarrow> overlay_event \<Rightarrow> overlay \<Rightarrow> overlay" where
  "overlay_step duration e s =
     (case e of
        SetVisible v \<Rightarrow> if v = ov_isVisible s then s else overlay_effect duration (s\<lparr>ov_isVisible := v\<rparr>)
      | OverlayElapse n \<Rightarrow>
          let s' = s\<lparr>ov_now := ov_now s + n\<rparr> in
          case ov_timer s of
            Some t \<Rightarrow> if t \<le> ov_now s + n then overlay_effect duration (s'\<lparr>ov_shouldRender := False\<rparr>) else s'
          | None \<Rightarrow> s')"

definition overlay_run :: "nat \<Rightarrow> overlay_event list \<Rightarrow> overlay" where
  "overlay_run duration es = fold (overlay_step duration) es overlay_init"

definition overlay_ok :: "nat \<Rightarrow> overlay \<Rightarrow> bool" where
  "overlay_ok duration s =
     ((ov_isVisible s \<longrightarrow> ov_shouldRender s \<and> ov_timer s = None) \<and>
      (\<not> ov_isVisible s \<and> ov_shouldRender s \<longrightarrow> (\<exists>t. ov_timer s = Some t \<and> t \<le> ov_now s + duration)) \<and>
      (\<not> ov_shouldRender s \<longrightarrow> ov_timer s = None))"

lemma overlay_step_ok: "overlay_ok d s \<Longrightarrow> overlay_ok d (overlay_step d e s)"
  by (cases e; cases "ov_timer s"; cases "ov_isVisible s"; cases "ov_shouldRender s")
    (auto simp: overlay_ok_def overlay_step_def overlay_effect_def Let_def)

lemma overlay_run_ok: "overlay_ok d (overlay_run d es)"
proof -
  have "overlay_ok d s \<Longrightarrow> overlay_ok d (fold (overlay_step d) es s)" for s
    by (induction es arbitrary: s) (simp_all add: overlay_step_ok)
  then show ?thesis by (simp add: overlay_run_def overlay_init_def overlay_ok_def)
qed

text \<open>
  A menu is on the screen while it is open, and after it closed no longer than its animation; opening it again
  meanwhile keeps it.
\<close>

theorem closed_menu_leaves_after_its_animation:
  "ov_shouldRender (overlay_run d (es @ [SetVisible True])) \<and>
   \<not> ov_shouldRender (overlay_run d (es @ [SetVisible False, OverlayElapse d])) \<and>
   ov_shouldRender (overlay_run d (es @ [SetVisible True, SetVisible False, SetVisible True, OverlayElapse n]))"
proof -
  have run: "overlay_run d (es @ fs) = fold (overlay_step d) fs (overlay_run d es)" for fs
    by (simp add: overlay_run_def)
  obtain v r t now where o: "overlay_run d es = \<lparr>ov_isVisible = v, ov_shouldRender = r, ov_timer = t, ov_now = now\<rparr>"
    by (cases "overlay_run d es")
  show ?thesis using overlay_run_ok [of d es] unfolding run o
    by (cases v; cases r; cases t) (simp_all add: overlay_ok_def overlay_step_def overlay_effect_def)
qed

subsection \<open>The menu of the feed's filters\<close>

datatype feed_category = CategoryFeed | CategoryVideos | CategoryArticles
datatype feed_filter = FilterForYou | FilterFollowing

datatype filters_call = CallCategoryChange feed_category | CallFilterChange feed_filter
datatype filters_event = FiltersToggle | FiltersClose | PickCategory feed_category | PickFilter feed_filter | SetActive bool

record filters_menu =
  fm_isOpen :: bool
  fm_isActive :: bool

text \<open>A handler, then the effect that closes the menu of a tab that is not the active one.\<close>

definition filters_effect :: "filters_menu \<Rightarrow> filters_menu" where
  "filters_effect s = (if \<not> fm_isActive s \<and> fm_isOpen s then s\<lparr>fm_isOpen := False\<rparr> else s)"

definition filters_step :: "filters_event \<Rightarrow> filters_menu \<Rightarrow> filters_menu \<times> filters_call list" where
  "filters_step e s =
     (let (s', cs) =
        (case e of
           FiltersToggle \<Rightarrow> (if fm_isActive s then s\<lparr>fm_isOpen := \<not> fm_isOpen s\<rparr> else s, [])
         | FiltersClose \<Rightarrow> (s\<lparr>fm_isOpen := False\<rparr>, [])
         | PickCategory c \<Rightarrow> (s\<lparr>fm_isOpen := False\<rparr>, [CallCategoryChange c])
         | PickFilter f \<Rightarrow> (s\<lparr>fm_isOpen := False\<rparr>, [CallFilterChange f])
         | SetActive a \<Rightarrow> (s\<lparr>fm_isActive := a\<rparr>, []))
      in (filters_effect s', cs))"

lemma menu_is_open_only_in_the_active_tab:
  "fm_isOpen (fst (filters_step e s)) \<Longrightarrow> fm_isActive (fst (filters_step e s)) \<and> snd (filters_step e s) = []"
  by (auto simp: filters_step_def filters_effect_def split: filters_event.splits if_splits)

definition CATEGORY_CONFIG :: "feed_category \<Rightarrow> string \<times> string" where
  "CATEGORY_CONFIG c =
     (case c of CategoryFeed \<Rightarrow> (''profile-feed'', ''#7D40FF'') | CategoryVideos \<Rightarrow> (''videos-trading'', ''#EA3665'')
      | CategoryArticles \<Rightarrow> (''articles'', ''#35D487''))"

definition trigger_color :: "semantic_colors \<Rightarrow> feed_category \<Rightarrow> string" where
  "trigger_color c cat = (if cat = CategoryArticles then sc_success c else snd (CATEGORY_CONFIG cat))"

lemma trigger_color_is_configured:
  "trigger_color (selectColors m) cat = snd (CATEGORY_CONFIG cat)"
  by (cases cat; cases m) (simp_all add: trigger_color_def CATEGORY_CONFIG_def selectColors_def
      lightSemanticColors_def darkSemanticColors_def)

section \<open>Tabs\<close>

record tab_layout =
  tl_x :: rat
  tl_width :: rat

text \<open>
  A slot of \<^verbatim>\<open>pendingLayouts\<close>: \<^verbatim>\<open>null\<close> until measured; a write past the end of the array
  leaves holes, which \<^verbatim>\<open>every\<close> does not visit.
\<close>

datatype tab_slot = TabHole | TabUnmeasured | TabMeasured tab_layout

record tab_bar =
  tb_pending :: "tab_slot list"
  tb_published :: "tab_slot list"

definition useTabLayouts :: "nat \<Rightarrow> tab_bar" where
  "useTabLayouts tabCount = \<lparr>tb_pending = replicate tabCount TabUnmeasured, tb_published = []\<rparr>"

definition put_slot :: "nat \<Rightarrow> tab_slot \<Rightarrow> tab_slot list \<Rightarrow> tab_slot list" where
  "put_slot i v xs = (if i < length xs then xs[i := v] else xs @ replicate (i - length xs) TabHole @ [v])"

definition handleTabLayout :: "nat \<times> tab_layout \<Rightarrow> tab_bar \<Rightarrow> tab_bar" where
  "handleTabLayout il s =
     (let p = put_slot (fst il) (TabMeasured (snd il)) (tb_pending s)
      in if TabUnmeasured \<notin> set p then s\<lparr>tb_pending := p, tb_published := p\<rparr> else s\<lparr>tb_pending := p\<rparr>)"

lemma tabs_are_published_whole:
  assumes "\<forall>il \<in> set ils. fst il < n"
  shows "let s = fold handleTabLayout ils (useTabLayouts n)
         in tb_published s = [] \<or> (length (tb_published s) = n \<and> (\<forall>t \<in> set (tb_published s). \<exists>l. t = TabMeasured l))"
proof -
  define ok where "ok s \<longleftrightarrow> length (tb_pending s) = n \<and> TabHole \<notin> set (tb_pending s) \<and>
    (tb_published s = [] \<or> (length (tb_published s) = n \<and> (\<forall>t \<in> set (tb_published s). \<exists>l. t = TabMeasured l)))" for s :: tab_bar
  have step: "ok s \<Longrightarrow> fst il < n \<Longrightarrow> ok (handleTabLayout il s)" for s il
  proof -
    assume s: "ok s" and "fst il < n"
    define p where "p = (tb_pending s)[fst il := TabMeasured (snd il)]"
    have p: "put_slot (fst il) (TabMeasured (snd il)) (tb_pending s) = p" "length p = n"
      using s \<open>fst il < n\<close> by (simp_all add: put_slot_def ok_def p_def)
    have "TabHole \<notin> set p"
      using s by (auto simp: ok_def p_def dest!: subsetD [OF set_update_subset_insert])
    then have "TabUnmeasured \<notin> set p \<Longrightarrow> \<forall>t \<in> set p. \<exists>l. t = TabMeasured l" by (metis tab_slot.exhaust)
    with s p \<open>TabHole \<notin> set p\<close> show ?thesis by (auto simp: ok_def handleTabLayout_def Let_def)
  qed
  have "ok s \<Longrightarrow> ok (fold handleTabLayout ils s)" for s
    using assms by (induction ils arbitrary: s) (simp_all add: step)
  moreover have "ok (useTabLayouts n)" by (simp add: ok_def useTabLayouts_def)
  ultimately show ?thesis unfolding ok_def by (metis (full_types))
qed

lemma tab_added_late_leaves_a_hole:
  "tb_published (fold handleTabLayout [(0, l), (2, l)] (useTabLayouts 1)) = [TabMeasured l, TabHole, TabMeasured l]"
  by (simp add: handleTabLayout_def useTabLayouts_def put_slot_def Let_def)

text \<open>The indicator below the tabs: its position and width, or nothing when it is transparent.\<close>

definition indicator :: "rat \<Rightarrow> tab_slot list \<Rightarrow> (rat \<times> rat) option" where
  "indicator position layouts =
     (if layouts = [] then None
      else let pos = max 0 (min position (of_nat (length layouts) - 1));
               floor_pos = nat \<lfloor>pos\<rfloor>;
               fraction = pos - of_nat floor_pos
           in case (layouts ! floor_pos, layouts ! (min (floor_pos + 1) (length layouts - 1))) of
                (TabMeasured a, TabMeasured b) \<Rightarrow>
                  Some (tl_x a + (tl_x b - tl_x a) * fraction, tl_width a + (tl_width b - tl_width a) * fraction)
              | _ \<Rightarrow> None)"

lemma between:
  fixes a b f lo hi :: rat
  assumes "0 \<le> f" "f \<le> 1" "lo \<le> a" "lo \<le> b"
  shows "lo \<le> a + (b - a) * f"
proof -
  have "a + (b - a) * f - lo = (1 - f) * (a - lo) + f * (b - lo)" by (simp add: algebra_simps)
  moreover have "0 \<le> (1 - f) * (a - lo) + f * (b - lo)" using assms by simp
  ultimately show ?thesis by linarith
qed

text \<open>
  Wherever the pager is scrolled to, also past its ends, the indicator stays within the bar of its tabs.
\<close>

theorem indicator_stays_on_the_bar:
  assumes "\<forall>t \<in> set layouts. \<exists>l. t = TabMeasured l \<and> lo \<le> tl_x l \<and> tl_x l + tl_width l \<le> hi" "layouts \<noteq> []"
  shows "\<exists>x w. indicator position layouts = Some (x, w) \<and> lo \<le> x \<and> x + w \<le> hi"
proof -
  define pos where "pos = max 0 (min position (of_nat (length layouts) - 1))"
  define fl where "fl = nat \<lfloor>pos\<rfloor>"
  have ends: "0 \<le> pos" "pos \<le> of_nat (length layouts) - 1" using assms(2) by (cases layouts; simp add: pos_def)+
  have fl: "of_nat fl = (of_int \<lfloor>pos\<rfloor> :: rat)" using ends by (simp add: fl_def)
  then have f: "0 \<le> pos - of_nat fl" "pos - of_nat fl \<le> 1" by (simp_all, linarith)
  have "(of_nat fl :: rat) \<le> of_nat (length layouts) - 1" using f ends by linarith
  then have "fl < length layouts" using assms(2) by (cases layouts) simp_all
  then obtain a where a: "layouts ! fl = TabMeasured a" "lo \<le> tl_x a" "tl_x a + tl_width a \<le> hi"
    using assms(1) by (metis nth_mem)
  have "min (fl + 1) (length layouts - 1) < length layouts" using assms(2) by (cases layouts) simp_all
  then obtain b where b: "layouts ! min (fl + 1) (length layouts - 1) = TabMeasured b" "lo \<le> tl_x b" "tl_x b + tl_width b \<le> hi"
    using assms(1) by (metis nth_mem)
  let ?f = "pos - of_nat fl"
  have "indicator position layouts =
    Some (tl_x a + (tl_x b - tl_x a) * ?f, tl_width a + (tl_width b - tl_width a) * ?f)"
    using assms(2) a(1) b(1) by (simp add: indicator_def Let_def flip: pos_def fl_def)
  moreover have "lo \<le> tl_x a + (tl_x b - tl_x a) * ?f" using between f a b by blast
  moreover have x: "- hi \<le> - (tl_x a + tl_width a) + (- (tl_x b + tl_width b) - - (tl_x a + tl_width a)) * ?f"
    using between [of ?f "- hi"] f a b by simp
  moreover from x have "tl_x a + (tl_x b - tl_x a) * ?f + (tl_width a + (tl_width b - tl_width a) * ?f) \<le> hi"
    by (simp add: algebra_simps)
  ultimately show ?thesis by blast
qed

theorem indicator_stays_on_the_bar_witness:
  "\<exists>x w. indicator (3 / 2) [TabMeasured \<lparr>tl_x = 0, tl_width = 80\<rparr>, TabMeasured \<lparr>tl_x = 80, tl_width = 100\<rparr>] = Some (x, w) \<and>
         0 \<le> x \<and> x + w \<le> 180"
  by (rule indicator_stays_on_the_bar) simp_all

definition tab_opacities :: "rat \<Rightarrow> nat \<Rightarrow> rat \<times> rat" where
  "tab_opacities position i =
     (max 0 (1 - \<bar>position - of_nat i\<bar>), 1 - max 0 (1 - \<bar>position - of_nat i\<bar>))"

lemma tab_layers_add_up:
  "fst (tab_opacities p i) + snd (tab_opacities p i) = 1" "0 \<le> fst (tab_opacities p i)" "fst (tab_opacities p i) \<le> 1"
  by (simp_all add: tab_opacities_def)

subsection \<open>The pagers\<close>

definition handlePageScroll :: "nat \<Rightarrow> rat \<Rightarrow> rat" where
  "handlePageScroll page offset = of_nat page + offset"

definition web_page_scroll :: "rat \<Rightarrow> rat \<Rightarrow> rat" where
  "web_page_scroll x width = x / width"

definition handleMomentumEnd :: "rat \<Rightarrow> rat \<Rightarrow> int \<Rightarrow> int \<times> int list" where
  "handleMomentumEnd width x currentPage =
     (let page = round (x / width) in if page \<noteq> currentPage then (page, [page]) else (currentPage, []))"

fun pager_run :: "rat \<Rightarrow> rat list \<Rightarrow> int \<Rightarrow> int list" where
  "pager_run width [] cur = []"
| "pager_run width (x # xs) cur =
     (let (cur', cs) = handleMomentumEnd width x cur in cs @ pager_run width xs cur')"

text \<open>The pager of the web reports a page only when it is another one than the last.\<close>

theorem selected_pages_never_repeat: "distinct_adj (0 # pager_run width xs 0)"
proof -
  have "distinct_adj (c # pager_run width xs c)" for c
    by (induction xs arbitrary: c) (simp_all add: handleMomentumEnd_def Let_def)
  then show ?thesis by this
qed

section \<open>The snack bar\<close>

record snack_bar =
  sb_isVisible :: bool
  sb_message :: string
  sb_isMounted :: bool
  sb_dismissTimer :: "nat option"
  sb_now :: nat

datatype snack_event = SnackProps bool string | SnackElapse nat | SlideFinished

definition snack_init :: snack_bar where
  "snack_init = \<lparr>sb_isVisible = False, sb_message = '''', sb_isMounted = False, sb_dismissTimer = None, sb_now = 0\<rparr>"

text \<open>
  The timer starts when the bar becomes visible and is cleared when it is hidden; a change of the message alone
  starts none. A slide that is interrupted does not finish, so the one that does has the visibility of the
  moment. The number is how often \<^verbatim>\<open>onDismiss\<close> was called.
\<close>

definition snack_step :: "nat \<Rightarrow> snack_event \<Rightarrow> snack_bar \<Rightarrow> snack_bar \<times> nat" where
  "snack_step durationMs e s =
     (case e of
        SnackProps v m \<Rightarrow>
          (s\<lparr>sb_isVisible := v, sb_message := m, sb_isMounted := sb_isMounted s \<or> v,
             sb_dismissTimer :=
               (if v = sb_isVisible s then sb_dismissTimer s
                else if v then Some (sb_now s + durationMs) else None)\<rparr>, 0)
      | SnackElapse n \<Rightarrow>
          let s' = s\<lparr>sb_now := sb_now s + n\<rparr> in
          (case sb_dismissTimer s of
             Some t \<Rightarrow> if t \<le> sb_now s + n then (s'\<lparr>sb_dismissTimer := None\<rparr>, 1) else (s', 0)
           | None \<Rightarrow> (s', 0))
      | SlideFinished \<Rightarrow> (if \<not> sb_isVisible s then s\<lparr>sb_isMounted := False\<rparr> else s, 0))"

fun snack_run :: "nat \<Rightarrow> snack_event list \<Rightarrow> snack_bar \<Rightarrow> snack_bar \<times> nat" where
  "snack_run d [] s = (s, 0)"
| "snack_run d (e # es) s =
     (let (s', k) = snack_step d e s; (s'', l) = snack_run d es s' in (s'', k + l))"

lemma shown_bar_is_dismissed_once:
  "snd (snack_run d [SnackProps True m, SnackElapse d, SnackElapse n] snack_init) = 1"
  by (simp add: snack_step_def snack_init_def Let_def)

lemma hidden_bar_is_not_dismissed:
  "snd (snack_run d [SnackProps True m, SnackProps False m, SnackElapse n] snack_init) = 0"
  by (simp add: snack_step_def snack_init_def Let_def)

lemma second_message_gets_the_rest_of_the_time:
  "snd (snack_run 3000 [SnackProps True a, SnackElapse 2900, SnackProps True b, SnackElapse 100] snack_init) = 1"
  by (simp add: snack_step_def snack_init_def Let_def)

lemma visible_bar_is_mounted:
  "(sb_isVisible s \<longrightarrow> sb_isMounted s) \<Longrightarrow>
   sb_isVisible (fst (snack_step d e s)) \<longrightarrow> sb_isMounted (fst (snack_step d e s))"
  by (auto simp: snack_step_def Let_def split: snack_event.split option.split)

section \<open>The avatar\<close>

datatype avatar_event = AvatarUrl "string option" | AvatarLoadError
datatype avatar_content = AvatarImage string | AvatarElement | AvatarFallback

record avatar =
  av_imageUrl :: "string option"
  av_hasError :: bool

definition avatar_step :: "avatar_event \<Rightarrow> avatar \<Rightarrow> avatar" where
  "avatar_step e s =
     (case e of
        AvatarUrl u \<Rightarrow> if u = av_imageUrl s then s else s\<lparr>av_imageUrl := u, av_hasError := False\<rparr>
      | AvatarLoadError \<Rightarrow> s\<lparr>av_hasError := True\<rparr>)"

definition Avatar :: "bool \<Rightarrow> avatar \<Rightarrow> avatar_content" where
  "Avatar hasElement s =
     (case av_imageUrl s of
        Some u \<Rightarrow> if u \<noteq> '''' \<and> \<not> av_hasError s then AvatarImage u else if hasElement then AvatarElement else AvatarFallback
      | None \<Rightarrow> if hasElement then AvatarElement else AvatarFallback)"

definition resolveImageUrl :: "string option \<Rightarrow> string option \<Rightarrow> string option" where
  "resolveImageUrl localImageUri currentImageUrl =
     (if localImageUri \<noteq> None \<and> localImageUri \<noteq> Some '''' then localImageUri else currentImageUrl)"

lemma broken_image_stays_away:
  assumes "\<forall>e \<in> set es. e = AvatarLoadError \<or> e = AvatarUrl (av_imageUrl s)"
  shows "Avatar el (fold avatar_step es (avatar_step AvatarLoadError s)) = (if el then AvatarElement else AvatarFallback)"
proof -
  have "av_hasError (fold avatar_step es t) \<and> av_imageUrl (fold avatar_step es t) = av_imageUrl s"
    if "av_hasError t" "av_imageUrl t = av_imageUrl s" for t
    using assms that by (induction es arbitrary: t) (auto simp: avatar_step_def)
  then show ?thesis by (simp add: Avatar_def avatar_step_def split: option.split)
qed

section \<open>Sheets, the tooltip and the bottom bar\<close>

definition computeTitleOpacity :: "rat \<Rightarrow> rat" where
  "computeTitleOpacity scrollOffset =
     (if scrollOffset \<le> 120 then 0 else if 140 \<le> scrollOffset then 1 else (scrollOffset - 120) / 20)"

definition web_keyboard_inset :: "rat \<Rightarrow> rat \<Rightarrow> rat" where
  "web_keyboard_inset innerHeight viewportHeight = max 0 (innerHeight - viewportHeight)"

definition useKeyboardContentStyle :: "rat \<Rightarrow> rat option" where
  "useKeyboardContentStyle inset = (if 0 < inset then Some inset else None)"

definition floating_footer_native :: "rat \<Rightarrow> rat \<Rightarrow> (rat \<Rightarrow> rat) \<Rightarrow> rat" where
  "floating_footer_native bottomInset keyboardHeight sc =
     (if 0 < keyboardHeight then keyboardHeight + sc 10 else sc 10 + bottomInset)"

definition floating_footer_web :: "(rat \<Rightarrow> rat) \<Rightarrow> rat \<Rightarrow> rat \<Rightarrow> rat" where
  "floating_footer_web sc keyboardInset safeAreaBottom = sc 10 + keyboardInset + safeAreaBottom"

definition computeTooltipPosition :: "anchor_rect \<Rightarrow> bool \<Rightarrow> (rat \<Rightarrow> rat) \<Rightarrow> rat \<times> rat" where
  "computeTooltipPosition l below sc =
     (if below then (an_y l + an_height l + sc 8, sc 8) else (an_y l - sc 8, sc 8))"

datatype pointer_align = PointerLeft | PointerCenter | PointerRight
datatype pointer_offset = MarginLeft rat | FlexEndMarginRight rat

definition computePointerOffset :: "anchor_rect \<Rightarrow> pointer_align \<Rightarrow> (rat \<Rightarrow> rat) \<Rightarrow> pointer_offset" where
  "computePointerOffset l align sc =
     (let padding = sc 8; halfWidth = sc 6;
          targetCenter = an_x l - padding + an_width l / 2
      in case align of
           PointerCenter \<Rightarrow> MarginLeft (targetCenter - halfWidth)
         | PointerRight \<Rightarrow> FlexEndMarginRight (sc 25)
         | PointerLeft \<Rightarrow> MarginLeft (max (sc 12) (targetCenter - halfWidth)))"

definition bar_padding_bottom :: "(rat \<Rightarrow> rat) \<Rightarrow> rat \<Rightarrow> rat" where
  "bar_padding_bottom sc bottomInset = max 0 (bottomInset - sc 11)"

definition ui_formatBadgeCount :: "int \<Rightarrow> string" where
  "ui_formatBadgeCount count = (if 99 < count then ''99+'' else int_str count)"

definition tab_badge :: "int option \<Rightarrow> string option" where
  "tab_badge badgeCount =
     (if 0 < given badgeCount 0 then Some (ui_formatBadgeCount (the badgeCount)) else None)"

lemma title_opacity_grows:
  "0 \<le> computeTitleOpacity a" "computeTitleOpacity a \<le> 1" "a \<le> b \<Longrightarrow> computeTitleOpacity a \<le> computeTitleOpacity b"
  by (auto simp: computeTitleOpacity_def field_simps)

lemma footer_is_above_the_keyboard:
  "0 \<le> sc 10 \<Longrightarrow> 0 \<le> b \<Longrightarrow> k \<le> floating_footer_native b k sc \<and> k \<le> floating_footer_web sc k b"
  by (simp add: floating_footer_native_def floating_footer_web_def)

lemma badge_is_short: "length (nat_digits n) \<le> 2" if "n < 100"
  using that by (simp add: nat_digits.simps [of n] nat_digits.simps [of "n div 10"])

lemma badge_has_at_most_three_characters: "0 \<le> c \<Longrightarrow> length (ui_formatBadgeCount c) \<le> 3"
proof -
  assume "0 \<le> c"
  then have "c \<le> 99 \<Longrightarrow> length (nat_digits (nat c)) \<le> 3"
    using badge_is_short [of "nat c"] by (simp add: nat_less_iff)
  with \<open>0 \<le> c\<close> show ?thesis by (simp add: ui_formatBadgeCount_def int_str_def)
qed

end
