(* ===== verification/UiStyles.thy ===== *)
theory UiStyles
  imports UiMenus
begin

text \<open>
  The styles of the components of \<^verbatim>\<open>ui/src\<close> that are built from the sizes of the design: avatars,
  the bar at the bottom, sheets, menus, text inputs and the search bar. A style object is the list
  of its properties in the order of the source; \<^verbatim>\<open>sc\<close> is the scaling function that the theme
  gives to a builder.
\<close>

datatype style_value = Px rat | Txt string | Sub "(string \<times> rat) list"

type_synonym ui_style = "(string \<times> style_value) list"

section \<open>The builders\<close>

definition avatar_containerStyle :: "(rat \<Rightarrow> rat) \<Rightarrow> rat \<Rightarrow> rat \<Rightarrow> ui_style" where
  "avatar_containerStyle sc sz borderRadius =
     [(''width'', Px (sc sz)), (''height'', Px (sc sz)), (''borderRadius'', Px (sc borderRadius))]"

definition avatar_imageStyle :: "(rat \<Rightarrow> rat) \<Rightarrow> rat \<Rightarrow> rat \<Rightarrow> string \<Rightarrow> ui_style" where
  "avatar_imageStyle sc sz borderRadius contentFit =
     [(''width'', Px (sc sz)), (''height'', Px (sc sz)), (''borderRadius'', Px (sc borderRadius)),
      (''resizeMode'', Txt contentFit), (''overflow'', Txt ''hidden'')]"

definition avatar_fallbackStyle :: "(rat \<Rightarrow> rat) \<Rightarrow> rat \<Rightarrow> rat \<Rightarrow> semantic_colors \<Rightarrow> ui_style" where
  "avatar_fallbackStyle sc sz borderRadius colors =
     [(''width'', Px (sc sz)), (''height'', Px (sc sz)), (''borderRadius'', Px (sc borderRadius)),
      (''backgroundColor'', Txt (sc_onTertiaryFill colors)), (''justifyContent'', Txt ''center''),
      (''alignItems'', Txt ''center''), (''overflow'', Txt ''hidden'')]"

definition avatar_badgeOverlayStyle :: "(rat \<Rightarrow> rat) \<Rightarrow> rat \<Rightarrow> ui_style" where
  "avatar_badgeOverlayStyle sc sz =
     [(''position'', Txt ''absolute''), (''width'', Px (sc sz)), (''height'', Px (sc sz)), (''top'', Px 0),
      (''left'', Px 0)]"

definition pickerContainerStyle :: "(rat \<Rightarrow> rat) \<Rightarrow> rat \<Rightarrow> rat \<Rightarrow> semantic_colors \<Rightarrow> ui_style" where
  "pickerContainerStyle sc sz borderRadius colors =
     [(''width'', Px (sc sz)), (''height'', Px (sc sz)), (''borderRadius'', Px (sc borderRadius)),
      (''backgroundColor'', Txt (sc_strokeElements colors @ ''4D'')), (''justifyContent'', Txt ''center''),
      (''alignItems'', Txt ''center'')]"

definition placeholderStyle :: "(rat \<Rightarrow> rat) \<Rightarrow> rat \<Rightarrow> rat \<Rightarrow> semantic_colors \<Rightarrow> ui_style" where
  "placeholderStyle sc sz borderRadius colors =
     [(''width'', Px (sc (sz * (76 / 100)))), (''height'', Px (sc (sz * (76 / 100)))),
      (''borderRadius'', Px (sc (borderRadius * (6 / 10)))), (''borderWidth'', Px 2),
      (''borderColor'', Txt (sc_onPrimaryAccent colors)), (''borderStyle'', Txt ''dashed'')]"

definition cameraButtonStyle :: "(rat \<Rightarrow> rat) \<Rightarrow> rat \<Rightarrow> semantic_colors \<Rightarrow> ui_style" where
  "cameraButtonStyle sc buttonSize colors =
     [(''position'', Txt ''absolute''), (''bottom'', Px (sc (- 6))), (''right'', Px (sc (- 6))),
      (''width'', Px (sc buttonSize)), (''height'', Px (sc buttonSize)),
      (''borderRadius'', Px (sc (buttonSize / 2))), (''backgroundColor'', Txt (sc_primaryAccent colors)),
      (''justifyContent'', Txt ''center''), (''alignItems'', Txt ''center'')]"

definition ringContainerStyle :: "(rat \<Rightarrow> rat) \<Rightarrow> rat \<Rightarrow> rat \<Rightarrow> ui_style" where
  "ringContainerStyle sc sz borderRadius =
     [(''width'', Px (sc sz)), (''height'', Px (sc sz)), (''borderRadius'', Px (sc borderRadius)),
      (''justifyContent'', Txt ''center''), (''alignItems'', Txt ''center'')]"

definition solidRingStyle :: "(rat \<Rightarrow> rat) \<Rightarrow> rat \<Rightarrow> rat \<Rightarrow> rat \<Rightarrow> semantic_colors \<Rightarrow> ui_style" where
  "solidRingStyle sc sz borderRadius ringWidth colors =
     [(''width'', Px (sc sz)), (''height'', Px (sc sz)), (''borderRadius'', Px (sc borderRadius)),
      (''borderWidth'', Px (sc ringWidth)), (''borderColor'', Txt (sc_sheetLine colors)),
      (''position'', Txt ''absolute'')]"

definition barContainerStyle :: "(rat \<Rightarrow> rat) \<Rightarrow> string \<Rightarrow> rat \<Rightarrow> string \<Rightarrow> ui_style" where
  "barContainerStyle sc bgColor bottomInset shadowColor =
     [(''backgroundColor'', Txt bgColor), (''paddingTop'', Px (sc 9)),
      (''paddingBottom'', Px (max 0 (bottomInset - sc 11))), (''shadowColor'', Txt shadowColor),
      (''shadowOffset'', Sub [(''width'', - 2), (''height'', - 2)]), (''shadowOpacity'', Px ((55 / 1000))),
      (''shadowRadius'', Px 16), (''elevation'', Px 4)]"

definition barRowStyle :: "(rat \<Rightarrow> rat) \<Rightarrow> string \<Rightarrow> ui_style" where
  "barRowStyle sc bgColor =
     [(''flexDirection'', Txt ''row''), (''height'', Px (sc 50)), (''alignItems'', Txt ''center''),
      (''justifyContent'', Txt ''center''), (''backgroundColor'', Txt bgColor)]"

definition tabSlotStyle :: "ui_style" where
  "tabSlotStyle =
     [(''flex'', Px 1), (''alignItems'', Txt ''center''), (''justifyContent'', Txt ''center''),
      (''height'', Txt ''100%'')]"

definition centerSlotStyle :: "ui_style" where
  "centerSlotStyle =
     [(''flex'', Px 1), (''alignItems'', Txt ''center''), (''justifyContent'', Txt ''center''),
      (''height'', Txt ''100%'')]"

definition profileContainerStyle :: "(rat \<Rightarrow> rat) \<Rightarrow> ui_style" where
  "profileContainerStyle sc =
     [(''width'', Px (sc 24)), (''height'', Px (sc 24)), (''borderRadius'', Px (sc 6)),
      (''justifyContent'', Txt ''center''), (''alignItems'', Txt ''center'')]"

definition profileRingStyle :: "(rat \<Rightarrow> rat) \<Rightarrow> string \<Rightarrow> ui_style" where
  "profileRingStyle sc ringColor =
     [(''position'', Txt ''absolute''), (''width'', Px (sc 20)), (''height'', Px (sc 20)),
      (''borderRadius'', Px (sc 6)), (''borderWidth'', Px (sc (12 / 10))), (''borderColor'', Txt ringColor)]"

definition badgeContainerStyle :: "(rat \<Rightarrow> rat) \<Rightarrow> string \<Rightarrow> ui_style" where
  "badgeContainerStyle sc bgColor =
     [(''position'', Txt ''absolute''), (''top'', Px (sc (- (15 / 10)))), (''right'', Px (sc (- 1))),
      (''height'', Px (sc 9)), (''minWidth'', Px (sc 9)), (''borderRadius'', Px (sc 8)),
      (''backgroundColor'', Txt bgColor), (''alignItems'', Txt ''center''),
      (''justifyContent'', Txt ''center''), (''paddingHorizontal'', Px (sc 2))]"

definition actionRowStyle :: "(rat \<Rightarrow> rat) \<Rightarrow> ui_style" where
  "actionRowStyle sc =
     [(''flexDirection'', Txt ''row''), (''alignItems'', Txt ''center''), (''paddingHorizontal'', Px (sc 40)),
      (''gap'', Px (sc 10))]"

definition actionIconBoxStyle :: "(rat \<Rightarrow> rat) \<Rightarrow> string \<Rightarrow> ui_style" where
  "actionIconBoxStyle sc bgColor =
     [(''width'', Px (sc 42)), (''height'', Px (sc 42)), (''borderRadius'', Px (sc 12)),
      (''backgroundColor'', Txt bgColor), (''alignItems'', Txt ''center''),
      (''justifyContent'', Txt ''center'')]"

definition overlayStyle :: "string \<Rightarrow> ui_style" where
  "overlayStyle bgColor =
     [(''flex'', Px 1), (''backgroundColor'', Txt bgColor), (''justifyContent'', Txt ''flex-end'')]"

definition sheetStyle :: "(rat \<Rightarrow> rat) \<Rightarrow> string \<Rightarrow> ui_style" where
  "sheetStyle sc bgColor =
     [(''backgroundColor'', Txt bgColor), (''borderTopLeftRadius'', Px (sc 30)),
      (''borderTopRightRadius'', Px (sc 30)), (''maxHeight'', Txt ''92%''), (''flex'', Px 1)]"

definition handleStyle :: "(rat \<Rightarrow> rat) \<Rightarrow> string \<Rightarrow> ui_style" where
  "handleStyle sc handleColor =
     [(''width'', Px (sc 50)), (''height'', Px (sc 3)), (''borderRadius'', Px (sc 5)),
      (''backgroundColor'', Txt handleColor), (''alignSelf'', Txt ''center''), (''marginBottom'', Px (sc 8))]"

definition webOverlayStyle :: "string \<Rightarrow> bool option \<Rightarrow> ui_style" where
  "webOverlayStyle bgColor inline =
     (if inline = Some True
      then [(''position'', Txt ''absolute''), (''top'', Px 0), (''left'', Px 0), (''right'', Px 0),
            (''bottom'', Px 0), (''backgroundColor'', Txt bgColor), (''justifyContent'', Txt ''flex-end''),
            (''alignItems'', Txt ''center'')]
      else [(''position'', Txt ''fixed''), (''top'', Px 0), (''left'', Px 0), (''right'', Px 0),
            (''bottom'', Px 0), (''backgroundColor'', Txt bgColor), (''justifyContent'', Txt ''flex-end''),
            (''alignItems'', Txt ''center''), (''zIndex'', Px 1000)])"

definition webSheetStyle :: "(rat \<Rightarrow> rat) \<Rightarrow> string \<Rightarrow> ui_style" where
  "webSheetStyle sc bgColor =
     [(''backgroundColor'', Txt bgColor), (''borderTopLeftRadius'', Px (sc 30)),
      (''borderTopRightRadius'', Px (sc 30)), (''overflow'', Txt ''hidden''), (''width'', Txt ''100%''),
      (''maxWidth'', Px 500), (''maxHeight'', Txt ''92%'')]"

definition sheetHeaderStyle :: "(rat \<Rightarrow> rat) \<Rightarrow> string \<Rightarrow> ui_style" where
  "sheetHeaderStyle sc bgColor =
     [(''flexDirection'', Txt ''row''), (''alignItems'', Txt ''center''),
      (''justifyContent'', Txt ''space-between''), (''paddingHorizontal'', Px (sc 16)),
      (''paddingTop'', Px (sc 20)), (''paddingBottom'', Px (sc 16)), (''backgroundColor'', Txt bgColor),
      (''borderTopLeftRadius'', Px (sc 30)), (''borderTopRightRadius'', Px (sc 30))]"

definition sheetFooterStyle :: "(rat \<Rightarrow> rat) \<Rightarrow> rat \<Rightarrow> string \<Rightarrow> ui_style" where
  "sheetFooterStyle sc bottomInset bgColor =
     [(''paddingHorizontal'', Px (sc 44)), (''paddingTop'', Px (sc 12)),
      (''paddingBottom'', Px (sc 16 + bottomInset)), (''backgroundColor'', Txt bgColor)]"

definition triggerStyle :: "(rat \<Rightarrow> rat) \<Rightarrow> string \<Rightarrow> ui_style" where
  "triggerStyle sc bgColor =
     [(''width'', Px (sc 40)), (''height'', Px (sc 40)), (''borderRadius'', Px (sc 16)),
      (''backgroundColor'', Txt bgColor), (''justifyContent'', Txt ''center''),
      (''alignItems'', Txt ''center'')]"

definition triggerBadgeStyle :: "(rat \<Rightarrow> rat) \<Rightarrow> string \<Rightarrow> string \<Rightarrow> ui_style" where
  "triggerBadgeStyle sc bgColor borderColor =
     [(''position'', Txt ''absolute''), (''bottom'', Px (sc (- 3))), (''right'', Px (sc (- 3))),
      (''width'', Px (sc 18)), (''height'', Px (sc 18)), (''borderRadius'', Px (sc 9)),
      (''backgroundColor'', Txt bgColor), (''borderWidth'', Px 1), (''borderColor'', Txt borderColor),
      (''justifyContent'', Txt ''center''), (''alignItems'', Txt ''center'')]"

definition iconFrameStyle :: "(rat \<Rightarrow> rat) \<Rightarrow> string \<Rightarrow> ui_style" where
  "iconFrameStyle sc bgColor =
     [(''width'', Px (sc 28)), (''height'', Px (sc 28)), (''borderRadius'', Px (sc 9)),
      (''backgroundColor'', Txt bgColor), (''justifyContent'', Txt ''center''),
      (''alignItems'', Txt ''center'')]"

definition filterIconFrameStyle :: "(rat \<Rightarrow> rat) \<Rightarrow> string \<Rightarrow> string \<Rightarrow> ui_style" where
  "filterIconFrameStyle sc bgColor borderColor =
     [(''width'', Px (sc 28)), (''height'', Px (sc 28)), (''borderRadius'', Px (sc 9)),
      (''backgroundColor'', Txt bgColor), (''borderWidth'', Px 1), (''borderColor'', Txt borderColor),
      (''justifyContent'', Txt ''center''), (''alignItems'', Txt ''center'')]"

definition menuRowStyle :: "(rat \<Rightarrow> rat) \<Rightarrow> ui_style" where
  "menuRowStyle sc =
     [(''flexDirection'', Txt ''row''), (''alignItems'', Txt ''center''), (''paddingHorizontal'', Px (sc 16)),
      (''paddingVertical'', Px (sc 4)), (''gap'', Px (sc 7))]"

definition overlayContainerStyle :: "(rat \<Rightarrow> rat) \<Rightarrow> string \<Rightarrow> rat option \<Rightarrow> ui_style" where
  "overlayContainerStyle sc bgColor width =
     [(''width'', Px (sc (given width 200))), (''backgroundColor'', Txt bgColor),
      (''borderRadius'', Px (sc 16)), (''shadowColor'', Txt ''#000000''),
      (''shadowOffset'', Sub [(''width'', 0), (''height'', 4)]), (''shadowOpacity'', Px ((15 / 100))),
      (''shadowRadius'', Px 16), (''elevation'', Px 8)]"

definition overlayBackdropStyle :: "ui_style" where
  "overlayBackdropStyle =
     [(''position'', Txt ''absolute''), (''top'', Px 0), (''left'', Px 0), (''right'', Px 0),
      (''bottom'', Px 0)]"

definition textInputContainerStyle :: "(rat \<Rightarrow> rat) \<Rightarrow> string \<Rightarrow> string \<Rightarrow> ui_style" where
  "textInputContainerStyle sc borderColor backgroundColor =
     [(''flexDirection'', Txt ''row''), (''alignItems'', Txt ''center''), (''borderWidth'', Px 1),
      (''borderColor'', Txt borderColor), (''borderRadius'', Px (sc 16)),
      (''backgroundColor'', Txt backgroundColor), (''minHeight'', Px (sc 58)),
      (''paddingVertical'', Px (sc 11)), (''paddingHorizontal'', Px (sc 16))]"

definition textInputSeparatorStyle :: "(rat \<Rightarrow> rat) \<Rightarrow> string \<Rightarrow> ui_style" where
  "textInputSeparatorStyle sc separatorColor =
     [(''width'', Px 1), (''height'', Px (sc 26)), (''backgroundColor'', Txt separatorColor),
      (''marginHorizontal'', Px (sc 16))]"

definition textInputInputStyle :: "(rat \<Rightarrow> rat) \<Rightarrow> string \<Rightarrow> ui_style" where
  "textInputInputStyle sc primaryText =
     [(''flex'', Px 1), (''fontSize'', Px (sc 13)), (''fontFamily'', Txt ''NotoSans-SemiBold''),
      (''lineHeight'', Px (sc 18)), (''color'', Txt primaryText), (''paddingVertical'', Px 0),
      (''paddingHorizontal'', Px 0), (''outlineStyle'', Txt ''none'')]"

definition floatingLabelStyle :: "(rat \<Rightarrow> rat) \<Rightarrow> string \<Rightarrow> ui_style" where
  "floatingLabelStyle sc color =
     [(''fontSize'', Px (sc 12)), (''fontFamily'', Txt ''NotoSans-Medium''), (''color'', Txt color)]"

definition searchBarContainerStyle :: "(rat \<Rightarrow> rat) \<Rightarrow> string \<Rightarrow> ui_style" where
  "searchBarContainerStyle sc backgroundColor =
     [(''flexDirection'', Txt ''row''), (''alignItems'', Txt ''center''), (''borderRadius'', Px (sc 16)),
      (''backgroundColor'', Txt backgroundColor), (''height'', Px (sc 36)),
      (''paddingHorizontal'', Px (sc 12)), (''gap'', Px (sc 6))]"

definition searchBarInputStyle :: "(rat \<Rightarrow> rat) \<Rightarrow> string \<Rightarrow> ui_style" where
  "searchBarInputStyle sc primaryText =
     [(''flex'', Px 1), (''fontSize'', Px (sc 13)), (''fontFamily'', Txt ''NotoSans-SemiBold''),
      (''color'', Txt primaryText), (''paddingVertical'', Px 0), (''paddingHorizontal'', Px 0)]"

section \<open>What holds of every builder\<close>

definition style_builders ::
    "rat \<Rightarrow> rat \<Rightarrow> rat \<Rightarrow> string \<Rightarrow> rat option \<Rightarrow> bool option \<Rightarrow>
      semantic_colors \<Rightarrow> ((rat \<Rightarrow> rat) \<Rightarrow> ui_style) list" where
  "style_builders a b e t w i c =
     [(\<lambda>sc. avatar_containerStyle sc a b),
      (\<lambda>sc. avatar_imageStyle sc a b t),
      (\<lambda>sc. avatar_fallbackStyle sc a b c),
      (\<lambda>sc. avatar_badgeOverlayStyle sc a),
      (\<lambda>sc. pickerContainerStyle sc a b c),
      (\<lambda>sc. placeholderStyle sc a b c),
      (\<lambda>sc. cameraButtonStyle sc a c),
      (\<lambda>sc. ringContainerStyle sc a b),
      (\<lambda>sc. solidRingStyle sc a b e c),
      (\<lambda>sc. barContainerStyle sc t a t),
      (\<lambda>sc. barRowStyle sc t),
      (\<lambda>sc. tabSlotStyle),
      (\<lambda>sc. centerSlotStyle),
      (\<lambda>sc. webOverlayStyle t i),
      (\<lambda>sc. profileContainerStyle sc),
      (\<lambda>sc. profileRingStyle sc t),
      (\<lambda>sc. badgeContainerStyle sc t),
      (\<lambda>sc. actionRowStyle sc),
      (\<lambda>sc. actionIconBoxStyle sc t),
      (\<lambda>sc. overlayStyle t),
      (\<lambda>sc. sheetStyle sc t),
      (\<lambda>sc. handleStyle sc t),
      (\<lambda>sc. webSheetStyle sc t),
      (\<lambda>sc. sheetHeaderStyle sc t),
      (\<lambda>sc. sheetFooterStyle sc a t),
      (\<lambda>sc. triggerStyle sc t),
      (\<lambda>sc. triggerBadgeStyle sc t t),
      (\<lambda>sc. iconFrameStyle sc t),
      (\<lambda>sc. filterIconFrameStyle sc t t),
      (\<lambda>sc. menuRowStyle sc),
      (\<lambda>sc. overlayContainerStyle sc t w),
      (\<lambda>sc. overlayBackdropStyle),
      (\<lambda>sc. textInputContainerStyle sc t t),
      (\<lambda>sc. textInputSeparatorStyle sc t),
      (\<lambda>sc. textInputInputStyle sc t),
      (\<lambda>sc. floatingLabelStyle sc t),
      (\<lambda>sc. searchBarContainerStyle sc t),
      (\<lambda>sc. searchBarInputStyle sc t)]"

text \<open>Two values are close when they are the same, or sizes of which one is at most a quarter of a
  pixel away from the other.\<close>

fun close_value :: "style_value \<Rightarrow> style_value \<Rightarrow> bool" where
  "close_value (Px x) (Px y) \<longleftrightarrow> \<bar>x - y\<bar> \<le> 1 / 4"
| "close_value v u \<longleftrightarrow> v = u"

definition close_styles :: "ui_style \<Rightarrow> ui_style \<Rightarrow> bool" where
  "close_styles xs ys \<longleftrightarrow> list_all2 (\<lambda>(k, v) (l, u). k = l \<and> close_value v u) xs ys"

lemma close_styles_simps [simp]:
  "close_styles [] []"
  "close_styles ((k, v) # xs) ((l, u) # ys) \<longleftrightarrow> k = l \<and> close_value v u \<and> close_styles xs ys"
  by (simp_all add: close_styles_def)

lemma close_value_refl [simp]: "close_value v v"
  by (cases v) simp_all

lemma close_styles_refl [simp]: "close_styles xs xs"
  by (auto simp: close_styles_def list_all2_same)

lemmas style_builder_defs =
  avatar_containerStyle_def avatar_imageStyle_def avatar_fallbackStyle_def avatar_badgeOverlayStyle_def pickerContainerStyle_def
  placeholderStyle_def cameraButtonStyle_def ringContainerStyle_def solidRingStyle_def barContainerStyle_def
  barRowStyle_def tabSlotStyle_def centerSlotStyle_def webOverlayStyle_def profileContainerStyle_def profileRingStyle_def badgeContainerStyle_def
  actionRowStyle_def actionIconBoxStyle_def overlayStyle_def sheetStyle_def handleStyle_def
  webSheetStyle_def sheetHeaderStyle_def sheetFooterStyle_def triggerStyle_def triggerBadgeStyle_def
  iconFrameStyle_def filterIconFrameStyle_def menuRowStyle_def overlayContainerStyle_def overlayBackdropStyle_def
  textInputContainerStyle_def textInputSeparatorStyle_def textInputInputStyle_def floatingLabelStyle_def searchBarContainerStyle_def
  searchBarInputStyle_def

lemma close_scalings_give_close_styles:
  assumes "\<And>s. \<bar>f s - g s\<bar> \<le> 1 / 4"
  shows "list_all (\<lambda>build. close_styles (build f) (build g)) (style_builders a b e t w i c)"
proof -
  have pos: "\<bar>max 0 (a - f s) - max 0 (a - g s)\<bar> \<le> 1 / 4" for s
    using assms [of s] by (simp add: max_def abs_if split: if_splits)
  have off: "\<bar>f s + a - (g s + a)\<bar> \<le> 1 / 4" for s
    using assms [of s] by simp
  show ?thesis
    by (simp only: style_builders_def list.pred_inject style_builder_defs close_styles_simps
        close_value.simps assms pos off close_value_refl close_styles_refl simp_thms)
qed

text \<open>
  Every style of the package follows the design: on a screen of any width, each property of a style
  is either the same as in the design or a size that is at most a quarter of a pixel away from the
  designed size times the ratio of the widths.
\<close>
theorem styles_follow_the_design:
  "list_all (\<lambda>build. close_styles (build (scaleSize (createScaleFunctions width))) (build (\<lambda>s. s * (width / 375))))
     (style_builders a b e t w i c)"
  by (rule close_scalings_give_close_styles) (simp only: scale_select roundToPixel_near)

text \<open>
  No style names a property twice, so the order of the properties does not matter and none
  is silently replaced.
\<close>
theorem styles_name_their_properties_once:
  "list_all (\<lambda>build. distinct (map fst (build f))) (style_builders a b e t w i c)"
  by (simp add: style_builders_def style_builder_defs)

end
