(* ===== verification/BuildTools.thy ===== *)
theory BuildTools
  imports DownloadStore Environment
begin

text \<open>
  The configuration of the bundlers that is code: the asset server and the resolver of Metro
  (\<^verbatim>\<open>apps/mobile/metro.config.js\<close>), the environment of the Vite build
  (\<^verbatim>\<open>apps/web/vite.config.ts\<close>), and the names, view boxes and tables of the icon generator
  (\<^verbatim>\<open>packages/ui/scripts/generate-icons.js\<close>). Paths are those of a POSIX system;
  \<^verbatim>\<open>decodeURIComponent\<close> is a parameter that fails on malformed input, and reading a file is a
  function from paths to contents. The patches of the generated components by regular expressions are left out.
\<close>

section \<open>Paths\<close>

text \<open>\<^verbatim>\<open>path.posix.normalize\<close>: \<open>allow\<close> keeps a leading \<^verbatim>\<open>..\<close> of a relative path.\<close>

definition posix_step :: "bool \<Rightarrow> string list \<Rightarrow> string \<Rightarrow> string list" where
  "posix_step allow parts seg =
     (if seg = [] \<or> seg = ''.'' then parts
      else if seg = ''..'' then
        (if parts \<noteq> [] \<and> last parts \<noteq> ''..'' then butlast parts
         else if allow then parts @ [seg] else parts)
      else parts @ [seg])"

definition posix_segments :: "bool \<Rightarrow> string \<Rightarrow> string list" where
  "posix_segments allow p = foldl (posix_step allow) [] (split_on CHR ''/'' p)"

definition posix_normalize :: "string \<Rightarrow> string" where
  "posix_normalize p =
     (if p = [] then ''.''
      else let isAbsolute = prefix ''/'' p;
               trailing = (if suffix ''/'' p then ''/'' else []);
               body = join_with ''/'' (posix_segments (\<not> isAbsolute) p)
           in if body = [] then (if isAbsolute then ''/'' else ''.'' @ trailing)
              else (if isAbsolute then ''/'' else []) @ body @ trailing)"

definition path_join :: "string \<Rightarrow> string \<Rightarrow> string" where
  "path_join a b = posix_normalize (a @ ''/'' @ b)"

text \<open>\<^verbatim>\<open>path.extname\<close>: from the last dot of the last segment on, unless the segment starts with it.\<close>

definition base_name :: "string \<Rightarrow> string" where
  "base_name p = (case filter (\<lambda>s. s \<noteq> []) (split_on CHR ''/'' p) of [] \<Rightarrow> [] | ws \<Rightarrow> last ws)"

definition extname :: "string \<Rightarrow> string" where
  "extname p =
     (let base = base_name p;
          ext = rev (takeWhile (\<lambda>c. c \<noteq> CHR ''.'') (rev base))
      in if base = ''..'' \<or> length ext + 1 \<ge> length base then [] else CHR ''.'' # ext)"

definition path_segment :: "string \<Rightarrow> bool" where
  "path_segment s = (s \<noteq> [] \<and> s \<noteq> ''.'' \<and> s \<noteq> ''..'' \<and> CHR ''/'' \<notin> set s)"

lemma posix_step_plain: "path_segment s \<Longrightarrow> posix_step allow parts s = parts @ [s]"
  by (simp add: posix_step_def path_segment_def)

lemma fold_plain: "list_all path_segment ws \<Longrightarrow> foldl (posix_step allow) parts ws = parts @ ws"
  by (induction ws arbitrary: parts) (simp_all add: posix_step_plain)

lemma absolute_segments_are_plain: "list_all path_segment (posix_segments False p)"
proof -
  have fold: "list_all path_segment parts \<Longrightarrow> \<forall>w \<in> set ws. CHR ''/'' \<notin> set w \<Longrightarrow>
    list_all path_segment (foldl (posix_step False) parts ws)" for parts ws
  proof (induction ws arbitrary: parts)
    case (Cons w ws)
    have "list_all path_segment (posix_step False parts w)"
      using Cons.prems by (auto simp: posix_step_def path_segment_def list_all_iff dest: in_set_butlastD)
    with Cons show ?case by simp
  qed simp
  show ?thesis unfolding posix_segments_def by (rule fold) (auto dest: split_on_no_sep)
qed

lemma split_join_path:
  "list_all path_segment ws \<Longrightarrow> ws \<noteq> [] \<Longrightarrow> split_on CHR ''/'' (join_with ''/'' ws) = ws"
proof (induction ws)
  case (Cons w ws)
  then show ?case
    by (cases ws) (simp_all add: split_on_append split_on_no_sep_id path_segment_def)
qed simp

lemma join_plain_not_slash:
  "list_all path_segment ws \<Longrightarrow> ws \<noteq> [] \<Longrightarrow> join_with ''/'' ws \<noteq> [] \<and> hd (join_with ''/'' ws) \<noteq> CHR ''/''"
  by (cases ws rule: remdups_adj.cases) (auto simp: path_segment_def hd_append dest: hd_in_set)

lemma join_plain_last:
  "list_all path_segment ws \<Longrightarrow> ws \<noteq> [] \<Longrightarrow> join_with ''/'' ws \<noteq> [] \<and> last (join_with ''/'' ws) \<noteq> CHR ''/''"
proof (induction ws)
  case (Cons w ws)
  then show ?case by (cases ws) (auto simp: path_segment_def dest: last_in_set)
qed simp

lemma normalize_absolute:
  assumes "prefix ''/'' p"
  shows "posix_normalize p =
    (if posix_segments False p = [] then ''/''
     else ''/'' @ join_with ''/'' (posix_segments False p) @ (if suffix ''/'' p then ''/'' else []))"
  using assms join_plain_not_slash [OF absolute_segments_are_plain [of p]]
  by (auto simp: posix_normalize_def Let_def)

section \<open>The asset server of Metro\<close>

text \<open>
  The table is an object, so a name that it inherits is found too; what is found then is no content type. Of the
  inherited names only these two are in lower case.
\<close>

definition IMAGE_MIME :: "(string \<times> string) list" where
  "IMAGE_MIME =
     [(''png'', ''image/png''), (''jpg'', ''image/jpeg''), (''jpeg'', ''image/jpeg''), (''gif'', ''image/gif''),
      (''webp'', ''image/webp''), (''svg'', ''image/svg+xml'')]"

definition mime_of :: "string \<Rightarrow> string option option" where
  "mime_of ext =
     (case map_of IMAGE_MIME ext of
        Some t \<Rightarrow> Some (Some t)
      | None \<Rightarrow> if ext \<in> {''constructor'', ''__proto__''} then Some None else None)"

definition getWorkspaceAssetPath ::
  "(string \<Rightarrow> string option) \<Rightarrow> string \<Rightarrow> string option \<Rightarrow> (string \<times> string option) option" where
  "getWorkspaceAssetPath decode workspaceRoot url =
     (case url of
        None \<Rightarrow> None
      | Some u \<Rightarrow>
          if u = [] then None
          else let rawPath = hd (split_on CHR ''?'' u);
                   decodedPath = (case decode rawPath of Some d \<Rightarrow> d | None \<Rightarrow> rawPath);
                   normalizedPath = posix_normalize decodedPath
               in if \<not> prefix ''/packages/'' normalizedPath then None
                  else case mime_of (js_lower (drop 1 (extname normalizedPath))) of
                         None \<Rightarrow> None
                       | Some ct \<Rightarrow> Some (path_join workspaceRoot normalizedPath, ct))"

datatype asset_answer = AssetServed string string | MetroAnswers

text \<open>Reading the file and setting the header may throw, and the request is then left to Metro.\<close>

definition enhanceMiddleware ::
  "(string \<Rightarrow> string option) \<Rightarrow> (string \<Rightarrow> string option) \<Rightarrow> string \<Rightarrow> string option \<Rightarrow> asset_answer" where
  "enhanceMiddleware decode readFile workspaceRoot url =
     (case getWorkspaceAssetPath decode workspaceRoot url of
        Some (absPath, ct) \<Rightarrow>
          (case (readFile absPath, ct) of (Some content, Some t) \<Rightarrow> AssetServed t content | _ \<Rightarrow> MetroAnswers)
      | None \<Rightarrow> MetroAnswers)"

lemma slash_first: "x \<noteq> [] \<Longrightarrow> prefix ''/'' (x @ r) \<longleftrightarrow> hd x = CHR ''/''"
  by (cases x) auto

lemma slash_last: "suffix ''/'' x \<longleftrightarrow> x \<noteq> [] \<and> last x = CHR ''/''"
  by (cases x rule: rev_cases) auto

lemma packages_come_first:
  assumes "prefix ''/packages/'' (posix_normalize p)"
  shows "\<exists>segs tr. posix_normalize p = ''/'' @ join_with ''/'' (''packages'' # segs) @ tr \<and>
    list_all path_segment (''packages'' # segs) \<and> tr \<in> {[], ''/''}"
proof -
  let ?segs = "posix_segments False p"
  have abs: "prefix ''/'' p"
  proof (rule ccontr)
    assume rel: "\<not> prefix ''/'' p"
    have no: "list_all (\<lambda>s. s \<noteq> [] \<and> CHR ''/'' \<notin> set s) (posix_segments True p)"
    proof -
      have fold: "list_all (\<lambda>s. s \<noteq> [] \<and> CHR ''/'' \<notin> set s) parts \<Longrightarrow> \<forall>w \<in> set ws. CHR ''/'' \<notin> set w \<Longrightarrow>
        list_all (\<lambda>s. s \<noteq> [] \<and> CHR ''/'' \<notin> set s) (foldl (posix_step True) parts ws)" for parts ws
      proof (induction ws arbitrary: parts)
        case (Cons w ws)
        have "list_all (\<lambda>s. s \<noteq> [] \<and> CHR ''/'' \<notin> set s) (posix_step True parts w)"
          using Cons.prems by (auto simp: posix_step_def list_all_iff dest: in_set_butlastD)
        with Cons show ?case by simp
      qed simp
      show ?thesis unfolding posix_segments_def by (rule fold) (auto dest: split_on_no_sep)
    qed
    have "join_with ''/'' (posix_segments True p) \<noteq> [] \<Longrightarrow> \<not> prefix ''/'' (join_with ''/'' (posix_segments True p) @ r)" for r
      using no by (cases "posix_segments True p" rule: remdups_adj.cases) (auto simp: slash_first dest: hd_in_set)
    from this [of "[]"] this [of "''/''"] have "\<not> prefix ''/'' (posix_normalize p)"
      using rel by (auto simp: posix_normalize_def Let_def)
    moreover have "prefix ''/'' (posix_normalize p)" using assms by (auto simp: prefix_def)
    ultimately show False by contradiction
  qed
  have segs: "?segs \<noteq> []" using assms by (auto simp: normalize_absolute [OF abs])
  define tr where "tr = (if suffix ''/'' p then ''/'' else ([] :: string))"
  have n: "posix_normalize p = ''/'' @ join_with ''/'' ?segs @ tr"
    using segs by (simp add: normalize_absolute [OF abs] tr_def)
  obtain r where r: "posix_normalize p = ''/packages/'' @ r" using assms by (auto simp: prefix_def)
  have plain: "list_all path_segment ?segs" by (rule absolute_segments_are_plain)
  have "split_on CHR ''/'' (join_with ''/'' ?segs @ tr) = ?segs @ (if tr = [] then [] else [[]])"
    using split_join_path [OF plain segs] split_on_append [of "CHR ''/''" "join_with ''/'' ?segs" "[]"]
    by (auto simp: tr_def)
  moreover have "join_with ''/'' ?segs @ tr = ''packages'' @ ''/'' @ r" using n r by simp
  moreover have "split_on CHR ''/'' (''packages'' @ ''/'' @ r) = ''packages'' # split_on CHR ''/'' r"
    using split_on_append [of "CHR ''/''" "''packages''" r] by simp
  ultimately have "?segs @ (if tr = [] then [] else [[]]) = ''packages'' # split_on CHR ''/'' r" by metis
  then have "hd (?segs @ (if tr = [] then [] else [[]])) = ''packages''" by (metis list.sel(1))
  with segs have "hd ?segs = ''packages''" by simp
  with segs obtain ws where ws: "?segs = ''packages'' # ws" by (cases ?segs) auto
  show ?thesis using n plain unfolding ws by (intro exI [of _ ws] exI [of _ tr]) (simp add: tr_def)
qed

text \<open>
  Whatever URL is asked for, with any dots and any escapes: the file that is read for it lies in the directory
  \<^verbatim>\<open>packages\<close> of the workspace, and what is served has the content type of an image.
\<close>

theorem served_assets_lie_in_the_packages:
  assumes "getWorkspaceAssetPath decode (''/'' @ join_with ''/'' rootdir) url = Some (absPath, ct)"
    "list_all path_segment rootdir" "rootdir \<noteq> []"
  shows "\<exists>segs tr. absPath = ''/'' @ join_with ''/'' (rootdir @ ''packages'' # segs) @ tr \<and>
    list_all path_segment segs \<and> tr \<in> {[], ''/''} \<and> (ct = None \<or> ct \<in> Some ` snd ` set IMAGE_MIME)"
proof -
  obtain p where p: "prefix ''/packages/'' (posix_normalize p)"
    "absPath = path_join (''/'' @ join_with ''/'' rootdir) (posix_normalize p)"
    and ct: "\<exists>e. mime_of e = Some ct"
    using assms(1) by (auto simp: getWorkspaceAssetPath_def Let_def split: option.splits if_splits)
  obtain segs tr where n: "posix_normalize p = ''/'' @ join_with ''/'' (''packages'' # segs) @ tr"
    "list_all path_segment (''packages'' # segs)" "tr \<in> {[], ''/''}"
    using packages_come_first [OF p(1)] by blast
  let ?ws = "''packages'' # segs"
  let ?joined = "''/'' @ join_with ''/'' rootdir @ ''/'' @ ''/'' @ join_with ''/'' ?ws @ tr"
  have j: "path_join (''/'' @ join_with ''/'' rootdir) (posix_normalize p) = posix_normalize ?joined"
    by (simp add: path_join_def n(1))
  have sw: "split_on CHR ''/'' (join_with ''/'' ?ws @ tr) = ?ws @ (if tr = [] then [] else [[]])"
    using split_join_path [OF n(2)] split_on_append [of "CHR ''/''" "join_with ''/'' ?ws" "[]"] n(3)
    by (auto simp del: join_with.simps)
  have "split_on CHR ''/'' ?joined = [] # rootdir @ [] # ?ws @ (if tr = [] then [] else [[]])"
    using split_on_append [of "CHR ''/''" "[]" "join_with ''/'' rootdir @ ''/'' @ ''/'' @ join_with ''/'' ?ws @ tr"]
      split_on_append [of "CHR ''/''" "join_with ''/'' rootdir" "''/'' @ join_with ''/'' ?ws @ tr"]
      split_on_append [of "CHR ''/''" "[]" "join_with ''/'' ?ws @ tr"] sw split_join_path [OF assms(2,3)]
    by (simp del: join_with.simps)
  then have segs: "posix_segments False ?joined = rootdir @ ?ws"
    using fold_plain [OF assms(2)] fold_plain [OF n(2)]
    by (simp add: posix_segments_def posix_step_def split: if_splits)
  have "suffix ''/'' ?joined \<longleftrightarrow> tr = ''/''"
  proof -
    have "last (join_with ''/'' ?ws) \<noteq> CHR ''/''" "join_with ''/'' ?ws \<noteq> []"
      using join_plain_last [OF n(2)] by simp_all
    then show ?thesis using n(3) by (auto simp: slash_last simp del: join_with.simps)
  qed
  moreover define J where "J = ?joined"
  ultimately have J: "posix_segments False J = rootdir @ ?ws" "suffix ''/'' J \<longleftrightarrow> tr = ''/''" "absPath = posix_normalize J"
    using segs unfolding p(2) j by blast+
  have "prefix ''/'' J" by (simp add: J_def)
  from normalize_absolute [OF this] have "absPath = ''/'' @ join_with ''/'' (rootdir @ ?ws) @ tr"
    using n(3) unfolding J by (auto simp del: join_with.simps)
  moreover have "ct = None \<or> ct \<in> Some ` snd ` set IMAGE_MIME"
  proof -
    from ct obtain e where e: "mime_of e = Some ct" by blast
    show ?thesis
    proof (cases "map_of IMAGE_MIME e")
      case (Some t)
      then have "(e, t) \<in> set IMAGE_MIME" by (rule map_of_SomeD)
      with e Some show ?thesis by (auto simp: mime_of_def intro!: image_eqI [of _ Some t] image_eqI [of t snd])
    qed (use e in \<open>simp add: mime_of_def split: if_splits\<close>)
  qed
  ultimately show ?thesis using n(2,3) by (intro exI [of _ segs] exI [of _ tr]) simp
qed

text \<open>The witness of the theorem, and the request of a monorepo asset with its escapes and dots.\<close>

theorem served_assets_lie_in_the_packages_witness:
  "\<exists>segs tr. ''/w/packages/ui/a.png'' = ''/'' @ join_with ''/'' ([''w''] @ ''packages'' # segs) @ tr \<and>
    list_all path_segment segs \<and> tr \<in> {[], ''/''} \<and>
    (Some ''image/png'' = None \<or> Some ''image/png'' \<in> Some ` snd ` set IMAGE_MIME)"
proof (rule served_assets_lie_in_the_packages)
  show "getWorkspaceAssetPath Some (''/'' @ join_with ''/'' [''w'']) (Some ''/assets/../packages/ui/a.png?h=1'') =
    Some (''/w/packages/ui/a.png'', Some ''image/png'')"
    by code_simp
  show "list_all path_segment [''w'']" "[''w''] \<noteq> ([] :: string list)" by (simp_all add: path_segment_def)
qed

lemma climbing_out_is_left_to_metro:
  "enhanceMiddleware Some readFile ''/w'' (Some ''/packages/../../etc/a.png'') = MetroAnswers"
  by code_simp

lemma inherited_name_is_left_to_metro:
  "enhanceMiddleware Some (\<lambda>_. Some ''x'') ''/w'' (Some ''/packages/a.constructor'') = MetroAnswers \<and>
   getWorkspaceAssetPath Some ''/w'' (Some ''/packages/a.constructor'') = Some (''/w/packages/a.constructor'', None)"
  by code_simp

lemma served_type_is_an_image:
  "enhanceMiddleware decode readFile rootdir url = AssetServed t content \<Longrightarrow> prefix ''image/'' t"
  by (auto simp: enhanceMiddleware_def getWorkspaceAssetPath_def mime_of_def IMAGE_MIME_def Let_def
      split: option.splits if_splits prod.splits)

section \<open>The resolver of Metro\<close>

datatype resolution = SourceFile string | ResolvedFrom "string option" string

record resolver =
  rs_singletonPaths :: "(string \<times> string) list"
  rs_directorySingletons :: "(string \<times> string) list"
  rs_mobileModules :: string

text \<open>A resolution is a file, or the default resolver with another origin or with the one of the request.\<close>

definition resolveRequest :: "resolver \<Rightarrow> string \<Rightarrow> resolution" where
  "resolveRequest c moduleName =
     (case map_of (rs_singletonPaths c) moduleName of
        Some f \<Rightarrow> SourceFile f
      | None \<Rightarrow>
          (case find (\<lambda>name. prefix (name @ ''/'') moduleName) (map fst (rs_singletonPaths c)) of
             Some name \<Rightarrow> ResolvedFrom (Some (path_join (rs_mobileModules c) ''.placeholder.js'')) moduleName
           | None \<Rightarrow>
               (case find (\<lambda>(pkgName, pkgDir). moduleName = pkgName \<or> prefix (pkgName @ ''/'') moduleName)
                       (rs_directorySingletons c) of
                  Some (pkgName, pkgDir) \<Rightarrow> ResolvedFrom (Some (path_join pkgDir ''index.js'')) moduleName
                | None \<Rightarrow> ResolvedFrom None moduleName)))"

definition singletonNames :: "string list" where
  "singletonNames =
     [''react'', ''react-native'', ''react-native-safe-area-context'', ''react-native-screens'', ''react-native-svg'',
      ''react-native-gesture-handler'', ''react-native-reanimated'', ''react-native-video'',
      ''@react-navigation/native'', ''@react-navigation/native-stack'', ''lottie-react-native'',
      ''@react-native-camera-roll/camera-roll'']"

text \<open>Modules that cannot be resolved are left out of the table.\<close>

definition singleton_table :: "(string \<Rightarrow> string option) \<Rightarrow> (string \<times> string) list" where
  "singleton_table require_resolve =
     List.map_filter (\<lambda>name. map_option (Pair name) (require_resolve name)) singletonNames"

text \<open>
  A module of the table, or a file inside one, never comes from where the request was made, so there is one
  copy of it in the bundle.
\<close>

lemma one_copy_of_each_singleton:
  assumes "name \<in> fst ` set (rs_singletonPaths c) \<union> fst ` set (rs_directorySingletons c)"
  shows "resolveRequest c name \<noteq> ResolvedFrom None m" "resolveRequest c (name @ ''/'' @ sub) \<noteq> ResolvedFrom None m"
  using assms
  by (force simp: resolveRequest_def find_None_iff map_of_eq_None_iff split: option.splits prod.splits)+

lemma name_is_not_a_path:
  "resolveRequest \<lparr>rs_singletonPaths = [(''react'', ''/r'')], rs_directorySingletons = [], rs_mobileModules = ''/m''\<rparr>
     ''react-dom'' = ResolvedFrom None ''react-dom''"
  by code_simp

section \<open>The environment of the Vite build\<close>

definition REQUIRED_ENV_VARS :: "string list" where
  "REQUIRED_ENV_VARS =
     [''VITE_APP_ENV'', ''VITE_API_BASE_URL'', ''VITE_IDENTITY_APP_ID'', ''VITE_RELAY_URL'', ''VITE_LOG_LEVEL'']"

definition or_text :: "string option \<Rightarrow> string \<Rightarrow> string" where
  "or_text v d = (case v of Some s \<Rightarrow> if s \<noteq> [] then s else d | None \<Rightarrow> d)"

definition vite_env :: "(string \<Rightarrow> string option) \<Rightarrow> (string \<Rightarrow> string option) \<Rightarrow> (string \<times> string) list" where
  "vite_env fileEnv processEnv =
     map (\<lambda>key. (key, or_text (fileEnv key) (or_text (processEnv key) []))) REQUIRED_ENV_VARS"

datatype define_value = DefinedText string | DefinedBool bool

record vite_config =
  vc_define :: "(string \<times> define_value) list"
  vc_proxyTarget :: string

definition vite_defineConfig ::
  "(string \<Rightarrow> string option) \<Rightarrow> (string \<Rightarrow> string option) \<Rightarrow> string \<Rightarrow> string + vite_config" where
  "vite_defineConfig fileEnv processEnv command =
     (let env = vite_env fileEnv processEnv;
          missing = filter (\<lambda>key. map_of env key = Some []) REQUIRED_ENV_VARS
      in if missing \<noteq> []
         then Inl (''Missing env vars: '' @ join_with '', '' missing @ ''. '' @
                   ''Ensure .env exists in apps/web/ (run scripts/setup-env.sh <env>).'')
         else let isDev = (command = ''serve'');
                  defs = (''__DEV__'', DefinedBool isDev) #
                    map (\<lambda>(key, v). (''process.env.'' @ key, DefinedText v)) env;
                  defs = (if isDev then AList.update ''process.env.VITE_API_BASE_URL'' (DefinedText []) defs else defs)
              in Inr \<lparr>vc_define = defs, vc_proxyTarget = the (map_of env ''VITE_API_BASE_URL'')\<rparr>)"

lemma vite_define:
  assumes "vite_defineConfig fileEnv processEnv command = Inr vc"
  shows "vc_define vc =
      (let defs = (''__DEV__'', DefinedBool (command = ''serve'')) #
         map (\<lambda>(key, v). (''process.env.'' @ key, DefinedText v)) (vite_env fileEnv processEnv)
       in if command = ''serve'' then AList.update ''process.env.VITE_API_BASE_URL'' (DefinedText []) defs else defs)"
    "vc_proxyTarget vc = the (map_of (vite_env fileEnv processEnv) ''VITE_API_BASE_URL'')"
    "\<forall>key \<in> set REQUIRED_ENV_VARS. map_of (vite_env fileEnv processEnv) key \<noteq> Some []"
  using assms by (auto simp: vite_defineConfig_def Let_def filter_empty_conv split: if_splits)

lemma vite_env_of:
  "key \<in> set REQUIRED_ENV_VARS \<Longrightarrow>
   map_of (vite_env fileEnv processEnv) key = Some (or_text (fileEnv key) (or_text (processEnv key) []))"
  by (auto simp: vite_env_def REQUIRED_ENV_VARS_def)

lemma map_of_defined:
  "map_of (map (\<lambda>(key, v). (''process.env.'' @ key, DefinedText v)) env) (''process.env.'' @ k) =
   map_option DefinedText (map_of env k)"
  by (induction env) (auto simp del: append.simps)

text \<open>
  A build has all its variables, from the file before the process; the development server has none for the API,
  which it proxies instead.
\<close>

lemma build_has_its_environment:
  assumes "vite_defineConfig fileEnv processEnv command = Inr vc" "key \<in> set REQUIRED_ENV_VARS" "command \<noteq> ''serve''"
  shows "\<exists>v. map_of (vc_define vc) (''process.env.'' @ key) = Some (DefinedText v) \<and> v \<noteq> [] \<and>
    (fileEnv key = Some v \<or> (processEnv key = Some v \<and> fileEnv key \<in> {None, Some []}))"
proof -
  let ?v = "or_text (fileEnv key) (or_text (processEnv key) [])"
  have "?v \<noteq> []" using vite_define(3) [OF assms(1)] vite_env_of [OF assms(2)] assms(2) by auto
  moreover have "''process.env.'' @ key \<noteq> ''__DEV__''" by simp
  then have "map_of (vc_define vc) (''process.env.'' @ key) = Some (DefinedText ?v)"
    using assms(3) unfolding vite_define(1) [OF assms(1)] Let_def
    by (simp add: map_of_defined vite_env_of [OF assms(2)] del: append.simps)
  ultimately show ?thesis by (auto simp: or_text_def split: option.splits if_splits)
qed

lemma development_server_proxies:
  assumes "vite_defineConfig fileEnv processEnv ''serve'' = Inr vc"
  shows "map_of (vc_define vc) ''process.env.VITE_API_BASE_URL'' = Some (DefinedText []) \<and> vc_proxyTarget vc \<noteq> []"
proof -
  have "''VITE_API_BASE_URL'' \<in> set REQUIRED_ENV_VARS" by (simp add: REQUIRED_ENV_VARS_def)
  with vite_define(3) [OF assms] vite_env_of [OF this] show ?thesis
    by (auto simp: vite_define(1,2) [OF assms] Let_def update_conv)
qed

section \<open>The icon generator\<close>

definition strip_suffix :: "string \<Rightarrow> string \<Rightarrow> string" where
  "strip_suffix suf s = (if suffix suf s then take (length s - length suf) s else s)"

definition stripPrefix :: "string \<Rightarrow> string" where
  "stripPrefix filename =
     (let s = strip_suffix ''.svg'' filename in if prefix ''icon_'' s then drop 5 s else s)"

definition split_dashes :: "string \<Rightarrow> string list" where
  "split_dashes s = split_on CHR ''-'' (map (\<lambda>c. if c = CHR ''_'' then CHR ''-'' else c) s)"

fun capitalised :: "string \<Rightarrow> string" where
  "capitalised [] = []"
| "capitalised (c # cs) = js_upper_ascii_char c # cs"

definition toComponentName :: "string \<Rightarrow> string" where
  "toComponentName filename = concat (map capitalised (split_dashes (stripPrefix filename))) @ ''Icon''"

definition toRegistryKey :: "string \<Rightarrow> string" where
  "toRegistryKey filename = stripPrefix filename"

text \<open>
  The first place where the text \<open>name\<close> is followed by a non-empty run of allowed characters and a
  quote, as \<^verbatim>\<open>match\<close> finds it; the place may be inside a longer name.
\<close>

fun attribute_value :: "string \<Rightarrow> (char \<Rightarrow> bool) \<Rightarrow> string \<Rightarrow> string option" where
  "attribute_value name allowed [] = None"
| "attribute_value name allowed (c # cs) =
     (let s = drop (length name) (c # cs); v = takeWhile allowed s
      in if prefix name (c # cs) \<and> v \<noteq> [] \<and> prefix [CHR 0x22] (drop (length v) s) then Some v
         else attribute_value name allowed cs)"

definition extractViewBox :: "string \<Rightarrow> string" where
  "extractViewBox svgCode =
     (let number = (\<lambda>c. is_digit c \<or> c = CHR ''.'')
      in case attribute_value (''viewBox='' @ [CHR 0x22]) (\<lambda>c. c \<noteq> CHR 0x22) svgCode of
           Some v \<Rightarrow> v
         | None \<Rightarrow>
             (case (attribute_value (''width='' @ [CHR 0x22]) number svgCode,
                    attribute_value (''height='' @ [CHR 0x22]) number svgCode) of
                (Some w, Some h) \<Rightarrow> ''0 0 '' @ w @ '' '' @ h
              | _ \<Rightarrow> ''0 0 24 24''))"

definition nl :: string where "nl = [CHR 0x0A]"

text \<open>The header, which has a character outside the model, is an argument.\<close>

definition generateTypes :: "string \<Rightarrow> (string \<times> string) list \<Rightarrow> string" where
  "generateTypes header icons =
     join_with nl [header, ''export type IconName = '' @ join_with '' | '' (map (quoted \<circ> fst) icons) @ '';'', []]"

definition generateRegistry :: "string \<Rightarrow> (string \<times> string) list \<Rightarrow> string" where
  "generateRegistry header icons =
     join_with nl
       [header, ''import type { ComponentType } from '' @ quoted ''react'' @ '';'', [],
        join_with nl (map (\<lambda>(registryKey, componentName).
          ''import { '' @ componentName @ '' } from '' @ quoted (''./generated/'' @ componentName) @ '';'') icons),
        [], ''interface IconComponentProps {'', ''  size?: number;'', ''  color: string;'', ''}'', [],
        ''export const iconRegistry: Record<string, ComponentType<IconComponentProps>> = {'',
        join_with nl (map (\<lambda>(registryKey, componentName).
          ''  '' @ quoted registryKey @ '': '' @ componentName @ '','') icons),
        ''};'', []]"

definition icon_entry :: "string \<Rightarrow> string \<times> string" where
  "icon_entry svgFile = (toRegistryKey svgFile, toComponentName svgFile)"

lemma two_files_one_component:
  "toComponentName ''icon_a-b.svg'' = toComponentName ''icon_a_b.svg'' \<and>
   toRegistryKey ''icon_a-b.svg'' \<noteq> toRegistryKey ''icon_a_b.svg''"
  by code_simp

lemma width_of_a_stroke_is_taken:
  "extractViewBox (''<svg stroke-width='' @ quoted ''2'' @ '' width='' @ quoted ''48'' @ '' height='' @ quoted ''48'' @ ''>'') =
   ''0 0 2 48''"
  by code_simp

lemma registry_keys_are_distinct:
  assumes "toRegistryKey (''icon_'' @ a @ ''.svg'') = toRegistryKey (''icon_'' @ b @ ''.svg'')"
  shows "a = b"
proof -
  have "stripPrefix (''icon_'' @ x @ ''.svg'') = x" for x
    by (simp add: stripPrefix_def strip_suffix_def suffix_def Let_def)
  with assms show ?thesis by (simp add: toRegistryKey_def)
qed

end
